(* ===== verification/Py_Prelude.thy ===== *)
theory Py_Prelude
  imports Main "HOL-Library.AList" "HOL-Library.List_Lexorder" "HOL-Library.Char_ord"
begin

text \<open>
  Shared ground of the development: how the Python of the repository is read in HOL.

  \<^item> An exception is a value of \<open>py_exn\<close>; a call that may raise returns
    \<open>'a res\<close>, with \<open>Inl\<close> for the exception. \<open>res_bind\<close> is the sequencing of
    Python statements: the first exception ends the run.
  \<^item> A Python \<open>dict\<close> keeps insertion order, and that order is visible whenever the
    code iterates over it. It is an association list with \<open>map_of\<close> for \<open>d.get(k)\<close>
    and \<open>AList.update\<close> for \<open>d[k] = v\<close>: a key that is present is overwritten in place,
    a new key goes to the end, exactly as CPython does.
  \<^item> \<open>list(dict.fromkeys(xs))\<close> is \<open>fromkeys\<close>: the first occurrence of every element.
  \<^item> Strings are lists of characters ordered lexicographically by code point, which is
    Python's order on \<open>str\<close>, so \<open>sorted\<close> is \<open>sort\<close>.
\<close>

section \<open>Hints shared by the components\<close>

named_theorems res_intros \<open>introduction rules for successful runs\<close>
named_theorems ledger_simps \<open>what the ledger operations do to the quantities they account\<close>

section \<open>Exceptions as values\<close>

datatype py_exn =
    ValueError string
  | TypeError string
  | KeyError string
  | AssertionError string
  | RuntimeError string
  | AttributeError string
  | IndexError string
  | ZeroDivisionError string
  | StopIteration
  | ValidationError string

type_synonym 'a res = "py_exn + 'a"

fun res_bind :: "'a res \<Rightarrow> ('a \<Rightarrow> 'b res) \<Rightarrow> 'b res" where
  "res_bind (Inl e) f = Inl e"
| "res_bind (Inr x) f = f x"

definition require_that :: "bool \<Rightarrow> py_exn \<Rightarrow> unit res" where
  "require_that c e = (if c then Inr () else Inl e)"

text \<open>A \<open>for\<close> loop whose body may raise, without and with a loop state.\<close>

fun res_all :: "('a \<Rightarrow> unit res) \<Rightarrow> 'a list \<Rightarrow> unit res" where
  "res_all f [] = Inr ()"
| "res_all f (x # xs) = res_bind (f x) (\<lambda>_. res_all f xs)"

fun res_fold :: "('s \<Rightarrow> 'a \<Rightarrow> 's res) \<Rightarrow> 's \<Rightarrow> 'a list \<Rightarrow> 's res" where
  "res_fold f s [] = Inr s"
| "res_fold f s (x # xs) = res_bind (f s x) (\<lambda>s'. res_fold f s' xs)"

fun res_map :: "('a \<Rightarrow> 'b res) \<Rightarrow> 'a list \<Rightarrow> 'b list res" where
  "res_map f [] = Inr []"
| "res_map f (x # xs) = res_bind (f x) (\<lambda>y. res_bind (res_map f xs) (\<lambda>ys. Inr (y # ys)))"

fun is_ok :: "'a res \<Rightarrow> bool" where
  "is_ok (Inl e) = False"
| "is_ok (Inr x) = True"

lemma res_bind_Inr_iff: "res_bind m f = Inr y \<longleftrightarrow> (\<exists>x. m = Inr x \<and> f x = Inr y)"
  by (cases m) auto

lemma res_bind_InrE:
  assumes "res_bind m f = Inr y"
  obtains x where "m = Inr x" and "f x = Inr y"
  using assms by (cases m) auto

lemma res_bind_Inl_iff:
  "res_bind m f = Inl e \<longleftrightarrow> m = Inl e \<or> (\<exists>x. m = Inr x \<and> f x = Inl e)"
  by (cases m) auto

lemma require_that_Inr [simp]: "require_that c e = Inr u \<longleftrightarrow> c"
  by (simp add: require_that_def)

lemma require_that_True [simp]: "require_that True e = Inr ()"
  by (simp add: require_that_def)

lemma require_that_False [simp]: "require_that False e = Inl e"
  by (simp add: require_that_def)

lemma is_ok_iff: "is_ok r \<longleftrightarrow> (\<exists>x. r = Inr x)"
  by (cases r) auto

lemma res_all_Inr: "res_all f xs = Inr u \<longleftrightarrow> (\<forall>x \<in> set xs. f x = Inr ())"
  by (induction xs) (auto simp: res_bind_Inr_iff)

lemma res_all_ok [res_intros]: "(\<And>x. x \<in> set xs \<Longrightarrow> f x = Inr ()) \<Longrightarrow> res_all f xs = Inr ()"
  by (simp add: res_all_Inr)

lemma res_map_Inr: "res_map f xs = Inr ys \<longleftrightarrow> list_all2 (\<lambda>x y. f x = Inr y) xs ys"
  by (induction xs arbitrary: ys) (auto simp: res_bind_Inr_iff list_all2_Cons1)

lemma res_map_total: "(\<And>x. x \<in> set xs \<Longrightarrow> f x = Inr (g x)) \<Longrightarrow> res_map f xs = Inr (map g xs)"
  by (induction xs) simp_all

lemma res_map_exists:
  "(\<And>x. x \<in> set xs \<Longrightarrow> \<exists>y. f x = Inr y \<and> P x y) \<Longrightarrow>
     \<exists>ys. res_map f xs = Inr ys \<and> list_all2 P xs ys"
proof (induction xs)
  case Nil
  show ?case by simp
next
  case (Cons x xs)
  obtain y where "f x = Inr y" "P x y" using Cons.prems [of x] by auto
  moreover obtain ys where "res_map f xs = Inr ys" "list_all2 P xs ys"
    using Cons.IH Cons.prems by (metis list.set_intros(2))
  ultimately show ?case by simp
qed

lemma list_all2_keyed:
  "list_all2 (\<lambda>x y. key y = x \<and> Q y) xs ys \<longleftrightarrow> xs = map key ys \<and> (\<forall>y \<in> set ys. Q y)"
  by (induction ys arbitrary: xs) (auto simp: list_all2_Cons2)

lemma res_fold_append:
  "res_fold f s (xs @ ys) = res_bind (res_fold f s xs) (\<lambda>s'. res_fold f s' ys)"
proof (induction xs arbitrary: s)
  case Nil
  show ?case by simp
next
  case (Cons x xs)
  then show ?case by (cases "f s x") simp_all
qed

text \<open>A loop invariant: what every step that does not raise keeps, the whole loop keeps.\<close>

lemma res_fold_invariant:
  assumes "res_fold f s xs = Inr t" and "P s"
    and "\<And>u x v. x \<in> set xs \<Longrightarrow> P u \<Longrightarrow> f u x = Inr v \<Longrightarrow> P v"
  shows "P t"
  using assms
proof (induction xs arbitrary: s)
  case Nil
  then show ?case by simp
next
  case (Cons x xs)
  then show ?case by (auto simp: res_bind_Inr_iff)
qed

text \<open>
  A loop with an invariant indexed by what is already processed; the steps must not raise
  and the invariant moves one element from the rest to the processed part.
\<close>

lemma res_fold_run:
  assumes "P [] s"
    and "\<And>ys x zs u. xs = ys @ x # zs \<Longrightarrow> P ys u \<Longrightarrow> \<exists>v. f u x = Inr v \<and> P (ys @ [x]) v"
  shows "\<exists>t. res_fold f s xs = Inr t \<and> P xs t"
proof -
  have "\<exists>t. res_fold f s xs' = Inr t \<and> P xs' t" if "xs = xs' @ rest" for xs' rest
    using that
  proof (induction xs' arbitrary: rest rule: rev_induct)
    case Nil
    with assms(1) show ?case by simp
  next
    case (snoc x xs')
    then obtain t where "res_fold f s xs' = Inr t" "P xs' t" by fastforce
    moreover from snoc.prems have "xs = xs' @ x # rest" by simp
    ultimately show ?case
      using assms(2) by (fastforce simp: res_fold_append)
  qed
  from this [of xs "[]"] show ?thesis by simp
qed

section \<open>Dictionaries in insertion order\<close>

type_synonym ('k, 'v) pydict = "('k \<times> 'v) list"

definition dict_get :: "('k, 'v) pydict \<Rightarrow> 'k \<Rightarrow> 'v option" where
  "dict_get d k = map_of d k"

definition dict_set :: "'k \<Rightarrow> 'v \<Rightarrow> ('k, 'v) pydict \<Rightarrow> ('k, 'v) pydict" where
  "dict_set k v d = AList.update k v d"

definition dict_keys :: "('k, 'v) pydict \<Rightarrow> 'k list" where
  "dict_keys d = map fst d"

definition dict_values :: "('k, 'v) pydict \<Rightarrow> 'v list" where
  "dict_values d = map snd d"

definition dict_has :: "('k, 'v) pydict \<Rightarrow> 'k \<Rightarrow> bool" where
  "dict_has d k \<longleftrightarrow> k \<in> set (dict_keys d)"

text \<open>\<open>d[k]\<close> on a missing key raises.\<close>

definition dict_item :: "(string, 'v) pydict \<Rightarrow> string \<Rightarrow> 'v res" where
  "dict_item d k = (case dict_get d k of None \<Rightarrow> Inl (KeyError k) | Some v \<Rightarrow> Inr v)"

definition wf_dict :: "('k, 'v) pydict \<Rightarrow> bool" where
  "wf_dict d \<longleftrightarrow> distinct (dict_keys d)"

lemma dict_get_set [simp]: "dict_get (dict_set k v d) = (dict_get d)(k \<mapsto> v)"
  by (simp add: dict_get_def dict_set_def update_conv' fun_eq_iff)

lemma dict_get_Nil [simp]: "dict_get [] k = None"
  by (simp add: dict_get_def)

lemma dict_get_Cons: "dict_get ((j, w) # d) k = (if j = k then Some w else dict_get d k)"
  by (simp add: dict_get_def)

lemma dict_keys_set:
  "dict_keys (dict_set k v d) = (if dict_has d k then dict_keys d else dict_keys d @ [k])"
  by (simp add: dict_keys_def dict_set_def dict_has_def update_keys)

lemma set_dict_keys_set [simp]: "set (dict_keys (dict_set k v d)) = insert k (set (dict_keys d))"
  by (auto simp: dict_keys_set dict_has_def)

lemma wf_dict_set [simp, intro]: "wf_dict d \<Longrightarrow> wf_dict (dict_set k v d)"
  by (simp add: wf_dict_def dict_keys_def dict_set_def distinct_update)

lemma wf_dict_Nil [simp]: "wf_dict []"
  by (simp add: wf_dict_def dict_keys_def)

lemma wf_dict_Cons: "wf_dict ((k, v) # d) \<longleftrightarrow> k \<notin> set (dict_keys d) \<and> wf_dict d"
  by (simp add: wf_dict_def dict_keys_def)

lemma dict_get_None_iff: "dict_get d k = None \<longleftrightarrow> \<not> dict_has d k"
  by (force simp: dict_get_def dict_has_def dict_keys_def map_of_eq_None_iff)

lemma dict_has_get: "dict_has d k \<Longrightarrow> \<exists>v. dict_get d k = Some v"
  using dict_get_None_iff [of d k] by (cases "dict_get d k") auto

lemma dict_get_Some_has: "dict_get d k = Some v \<Longrightarrow> dict_has d k"
  by (metis dict_get_None_iff option.distinct(1))

lemma dict_has_set [simp]: "dict_has (dict_set k v d) j \<longleftrightarrow> j = k \<or> dict_has d j"
  by (simp add: dict_has_def)

lemma dict_get_Some_in: "dict_get d k = Some v \<Longrightarrow> (k, v) \<in> set d"
  by (simp add: dict_get_def map_of_SomeD)

lemma dict_get_eq_Some: "wf_dict d \<Longrightarrow> dict_get d k = Some v \<longleftrightarrow> (k, v) \<in> set d"
  by (simp add: wf_dict_def dict_get_def dict_keys_def)

lemma dict_set_same: "dict_get d k = Some v \<Longrightarrow> dict_set k v d = d"
  by (induction d) (auto simp: dict_set_def dict_get_def split: if_splits)

lemma dict_values_set: "w \<in> set (dict_values (dict_set k v d)) \<Longrightarrow> w = v \<or> w \<in> set (dict_values d)"
  by (induction d) (auto simp: dict_set_def dict_values_def split: if_splits)

lemma dict_get_filter:
  "wf_dict d \<Longrightarrow> dict_get (filter (\<lambda>p. P (fst p) (snd p)) d) k =
     (case dict_get d k of None \<Rightarrow> None | Some v \<Rightarrow> if P k v then Some v else None)"
  by (induction d)
    (auto simp: wf_dict_def dict_get_def dict_keys_def map_of_eq_None_iff
      intro!: map_of_eq_None_iff [THEN iffD2] split: option.splits)

lemma wf_dict_filter [simp]: "wf_dict d \<Longrightarrow> wf_dict (filter P d)"
  by (simp add: wf_dict_def dict_keys_def distinct_map_filter)

lemma dict_set_fresh: "\<not> dict_has d k \<Longrightarrow> dict_set k v d = d @ [(k, v)]"
  by (induction d) (auto simp: dict_set_def dict_has_def dict_keys_def)

lemma in_set_dict_set:
  "wf_dict d \<Longrightarrow> (j, w) \<in> set (dict_set k v d) \<longleftrightarrow> (if j = k then w = v else (j, w) \<in> set d)"
  using dict_get_eq_Some [of "dict_set k v d" j w] dict_get_eq_Some [of d j w] by auto

lemma dict_item_Inr [simp]: "dict_item d k = Inr v \<longleftrightarrow> dict_get d k = Some v"
  by (simp add: dict_item_def split: option.splits)

text \<open>A sum over the values after one entry is replaced: the entry's change is the sum's change.\<close>

lemma sum_list_dict_set:
  fixes f :: "'k \<times> 'v \<Rightarrow> int"
  assumes "wf_dict d" and "dict_get d k = Some u"
  shows "sum_list (map f (dict_set k v d)) = sum_list (map f d) - f (k, u) + f (k, v)"
  using assms
proof (induction d)
  case Nil
  then show ?case by simp
next
  case (Cons p d)
  obtain j w where p: "p = (j, w)" by (cases p)
  show ?case
  proof (cases "j = k")
    case True
    with Cons.prems p show ?thesis by (simp add: dict_set_def dict_get_def)
  next
    case False
    with Cons.prems p have "dict_get d k = Some u" "wf_dict d"
      by (simp_all add: dict_get_def wf_dict_Cons)
    with Cons.IH False p show ?thesis by (simp add: dict_set_def)
  qed
qed

section \<open>Order-preserving deduplication\<close>

definition fromkeys :: "'a list \<Rightarrow> 'a list" where
  "fromkeys xs = rev (remdups (rev xs))"

lemma set_fromkeys [simp]: "set (fromkeys xs) = set xs"
  by (simp add: fromkeys_def)

lemma distinct_fromkeys [simp]: "distinct (fromkeys xs)"
  by (simp add: fromkeys_def)

lemma fromkeys_distinct: "distinct xs \<Longrightarrow> fromkeys xs = xs"
  by (simp add: fromkeys_def distinct_remdups_id)

lemma fromkeys_idem [simp]: "fromkeys (fromkeys xs) = fromkeys xs"
  by (simp add: fromkeys_distinct)

end
