(* ===== verification/Compiled_Address.thy ===== *)
theory Compiled_Address
  imports Py_Prelude
begin

text \<open>
  Processor-owned runtime addresses, \<open>raes_contracts/addressing.py\<close>: dot-separated
  segments, each \<open>[a-z0-9][a-z0-9_-]{0,63}\<close> or \<open>__private\<close>, at least two of them and at
  most 2048 characters in all. The regular expression is matched segment by segment: no
  segment can contain a dot, so a full match is a match of every piece between the dots.
\<close>

section \<open>Matching\<close>

type_synonym address = string

fun split_dots :: "string \<Rightarrow> string list" where
  "split_dots [] = [[]]"
| "split_dots (c # cs) =
     (if c = CHR ''.'' then [] # split_dots cs
      else (case split_dots cs of [] \<Rightarrow> [[c]] | seg # segs \<Rightarrow> (c # seg) # segs))"

definition is_lower :: "char \<Rightarrow> bool" where
  "is_lower c \<longleftrightarrow> CHR ''a'' \<le> c \<and> c \<le> CHR ''z''"

definition is_digit :: "char \<Rightarrow> bool" where
  "is_digit c \<longleftrightarrow> CHR ''0'' \<le> c \<and> c \<le> CHR ''9''"

definition segment_char :: "char \<Rightarrow> bool" where
  "segment_char c \<longleftrightarrow> is_lower c \<or> is_digit c \<or> c = CHR ''_'' \<or> c = CHR ''-''"

definition address_segment :: "string \<Rightarrow> bool" where
  "address_segment s \<longleftrightarrow>
     s = ''__private'' \<or>
     (case s of [] \<Rightarrow> False
      | c # cs \<Rightarrow> (is_lower c \<or> is_digit c) \<and> length cs \<le> 63 \<and> list_all segment_char cs)"

definition compiled_address_max_length :: nat where
  "compiled_address_max_length = 2048"

definition compiled_address :: "string \<Rightarrow> bool" where
  "compiled_address a \<longleftrightarrow>
     length a \<le> compiled_address_max_length \<and>
     2 \<le> length (split_dots a) \<and> list_all address_segment (split_dots a)"

definition require_compiled_address :: "string \<Rightarrow> string \<Rightarrow> string res" where
  "require_compiled_address field a =
     (if compiled_address a then Inr a
      else Inl (ValueError (field @ '' must be a canonical compiled address'')))"

text \<open>\<open>".".join(part for part in parts if part)\<close>, then the check.\<close>

fun join_dots :: "string list \<Rightarrow> string" where
  "join_dots [] = []"
| "join_dots [s] = s"
| "join_dots (s # ss) = s @ CHR ''.'' # join_dots ss"

definition render_compiled_address :: "string list \<Rightarrow> string res" where
  "render_compiled_address parts =
     require_compiled_address ''address'' (join_dots (filter (\<lambda>p. p \<noteq> []) parts))"

section \<open>Lemmas\<close>

lemma require_compiled_address_Inr [simp]:
  "require_compiled_address f a = Inr b \<longleftrightarrow> compiled_address a \<and> b = a"
  by (auto simp: require_compiled_address_def)

lemma split_dots_not_Nil [simp]: "split_dots s \<noteq> []"
  by (induction s) (auto split: list.splits)

lemma split_dots_no_dot: "CHR ''.'' \<notin> set s \<Longrightarrow> split_dots s = [s]"
  by (induction s) auto

lemma split_dots_append_dot:
  "CHR ''.'' \<notin> set s \<Longrightarrow> split_dots (s @ CHR ''.'' # t) = s # split_dots t"
  by (induction s) auto

lemma split_join_dots:
  "segs \<noteq> [] \<Longrightarrow> \<forall>s \<in> set segs. CHR ''.'' \<notin> set s \<Longrightarrow> split_dots (join_dots segs) = segs"
  by (induction segs rule: join_dots.induct)
    (auto simp: split_dots_no_dot split_dots_append_dot)

lemma segment_char_dot: "\<not> segment_char (CHR ''.'')" "\<not> is_lower (CHR ''.'')" "\<not> is_digit (CHR ''.'')"
  by code_simp+

lemma address_segment_no_dot: "address_segment s \<Longrightarrow> CHR ''.'' \<notin> set s"
  using segment_char_dot
  by (auto simp: address_segment_def list_all_iff split: list.splits)

lemma address_segment_not_Nil: "address_segment s \<Longrightarrow> s \<noteq> []"
  by (auto simp: address_segment_def)

text \<open>
  Rendering valid segments gives an address whose pieces are those segments: the encoding
  loses nothing, so two addresses are equal only if all their segments are.
\<close>

lemma render_segments:
  assumes "list_all address_segment segs" and "2 \<le> length segs"
    and "length (join_dots segs) \<le> compiled_address_max_length"
  shows "render_compiled_address segs = Inr (join_dots segs)"
    and "split_dots (join_dots segs) = segs"
proof -
  from assms(1,2) show split: "split_dots (join_dots segs) = segs"
    by (intro split_join_dots) (auto simp: list_all_iff dest: address_segment_no_dot)
  have "filter (\<lambda>p. p \<noteq> []) segs = segs"
    using assms(1) by (auto simp: filter_id_conv list_all_iff dest: address_segment_not_Nil)
  with assms split show "render_compiled_address segs = Inr (join_dots segs)"
    by (simp add: render_compiled_address_def compiled_address_def)
qed

end
