(* ===== verification/Search_Closure.thy ===== *)
theory Search_Closure
  imports Py_Prelude
begin

text \<open>
  Two loops of the program explore a graph from some roots: the refresh propagation of the
  planner and the fixed point of the opacity model check. One marks only what is not a root and
  counts what it marked, the other keeps parents and explored edges. What they share is stated
  here once, as an
  interface: a state with the nodes already expanded and the nodes still pending, and the laws
  a step keeps. Every run of such a loop that empties its worklist has expanded exactly the
  nodes reachable from the roots.
\<close>

section \<open>Reachable nodes\<close>

definition reach_set :: "('a \<Rightarrow> 'a set) \<Rightarrow> 'a set \<Rightarrow> 'a set" where
  "reach_set edges roots = {y. \<exists>x \<in> roots. (\<lambda>a b. b \<in> edges a)\<^sup>*\<^sup>* x y}"

lemma reach_set_root: "x \<in> roots \<Longrightarrow> x \<in> reach_set edges roots"
  by (auto simp: reach_set_def)

lemma reach_set_edge: "x \<in> reach_set edges roots \<Longrightarrow> y \<in> edges x \<Longrightarrow> y \<in> reach_set edges roots"
  by (auto simp: reach_set_def intro: rtranclp.rtrancl_into_rtrancl)

lemma reach_set_least:
  assumes "roots \<subseteq> A" and "\<And>x. x \<in> A \<Longrightarrow> edges x \<subseteq> A"
  shows "reach_set edges roots \<subseteq> A"
proof
  fix y assume "y \<in> reach_set edges roots"
  then obtain x where "x \<in> roots" and xy: "(\<lambda>a b. b \<in> edges a)\<^sup>*\<^sup>* x y"
    by (auto simp: reach_set_def)
  from xy \<open>x \<in> roots\<close> assms show "y \<in> A"
    by (induction rule: rtranclp_induct) auto
qed

lemma reach_set_bound:
  assumes "roots \<subseteq> A" and "\<And>x. x \<in> A \<Longrightarrow> edges x \<subseteq> A" and "finite A"
  shows "finite (reach_set edges roots)"
  using reach_set_least [of roots A edges] assms finite_subset by blast

section \<open>The worklist discipline\<close>

locale worklist_search =
  fixes step :: "'s \<Rightarrow> 's \<Rightarrow> bool"
    and expanded :: "'s \<Rightarrow> 'a set"
    and pending :: "'s \<Rightarrow> 'a set"
    and edges :: "'a \<Rightarrow> 'a set"
  assumes step_keeps: "step s t \<Longrightarrow> expanded s \<subseteq> expanded t"
    and step_expands: "step s t \<Longrightarrow> expanded t \<subseteq> expanded s \<union> pending s"
    and step_covers: "step s t \<Longrightarrow> expanded s \<union> pending s \<subseteq> expanded t \<union> pending t"
    and step_pushes: "step s t \<Longrightarrow> y \<in> expanded t - expanded s \<Longrightarrow>
          edges y \<subseteq> expanded t \<union> pending t"
    and step_only: "step s t \<Longrightarrow> pending t \<subseteq>
          expanded s \<union> pending s \<union> (\<Union>y \<in> expanded t - expanded s. edges y)"
begin

definition search_inv :: "'a set \<Rightarrow> 's \<Rightarrow> bool" where
  "search_inv roots s \<longleftrightarrow>
     roots \<subseteq> expanded s \<union> pending s \<and>
     expanded s \<union> pending s \<subseteq> reach_set edges roots \<and>
     (\<forall>x \<in> expanded s. edges x \<subseteq> expanded s \<union> pending s)"

lemma search_inv_step:
  assumes "search_inv roots s" and st: "step s t"
  shows "search_inv roots t"
  unfolding search_inv_def
proof (intro conjI ballI)
  note inv = assms(1) [unfolded search_inv_def]
  show "roots \<subseteq> expanded t \<union> pending t"
    using inv step_covers [OF st] by blast
  have new: "expanded t \<subseteq> reach_set edges roots"
    using inv step_expands [OF st] by blast
  have "pending t \<subseteq> reach_set edges roots"
  proof
    fix z assume "z \<in> pending t"
    then consider "z \<in> expanded s \<union> pending s" | y where "y \<in> expanded t" "z \<in> edges y"
      using step_only [OF st] by blast
    then show "z \<in> reach_set edges roots"
    proof cases
      case 1
      with inv show ?thesis by blast
    next
      case 2
      with new show ?thesis by (blast intro: reach_set_edge)
    qed
  qed
  with new show "expanded t \<union> pending t \<subseteq> reach_set edges roots" by blast
next
  fix x assume "x \<in> expanded t"
  show "edges x \<subseteq> expanded t \<union> pending t"
  proof (cases "x \<in> expanded s")
    case True
    then have "edges x \<subseteq> expanded s \<union> pending s"
      using assms(1) by (simp add: search_inv_def)
    with step_covers [OF st] show ?thesis by blast
  next
    case False
    with \<open>x \<in> expanded t\<close> show ?thesis by (intro step_pushes [OF st]) simp
  qed
qed

lemma search_inv_run: "step\<^sup>*\<^sup>* s t \<Longrightarrow> search_inv roots s \<Longrightarrow> search_inv roots t"
  by (induction rule: rtranclp_induct) (auto intro: search_inv_step)

lemma search_inv_start:
  assumes "expanded s = {}" and "pending s = roots"
  shows "search_inv roots s"
  using assms by (auto simp: search_inv_def intro: reach_set_root)

lemma search_complete:
  assumes "search_inv roots s" and "pending s = {}"
  shows "expanded s = reach_set edges roots"
  using assms reach_set_least [of roots "expanded s" edges]
  by (auto simp: search_inv_def)

text \<open>The contract of the client: an emptied worklist has expanded the reachable set.\<close>

lemma run_reaches:
  assumes "step\<^sup>*\<^sup>* s t" and "expanded s = {}" and "pending s = roots" and "pending t = {}"
  shows "expanded t = reach_set edges roots"
  using assms search_complete search_inv_run search_inv_start by metis

lemma run_sound:
  assumes "step\<^sup>*\<^sup>* s t" and "expanded s = {}" and "pending s = roots"
  shows "expanded t \<union> pending t \<subseteq> reach_set edges roots"
  using search_inv_run [OF assms(1) search_inv_start [OF assms(2,3)]]
  by (simp add: search_inv_def)

end

end
