(* ===== verification/Dep_Graph.thy ===== *)
theory Dep_Graph
  imports Compiled_Address Search_Closure
begin

text \<open>
  The dependency-graph semantics shared by the planner and the runtime lifecycle,
  \<open>raes_processor/semantics/planner.py\<close>: normalised graphs over compiled addresses, the stable
  topological order (Kahn's algorithm over a FIFO queue, residual nodes of cyclic graphs
  appended), the reversed order used for deletion, the propagation of refreshes and the
  reconciliation of resources against the entries of a snapshot.

  A mapping from addresses is a \<open>pydict\<close> and keeps its iteration order. Sorting by
  \<open>canonical_resource_identity\<close> evaluates the key on every element first, so a malformed
  address raises before anything is ordered. The key is the one-element tuple of the address,
  so the order is the order of the addresses.
\<close>

section \<open>Data\<close>

datatype dependency_kind = ORDERING | REFRESH

datatype reconciliation_action = CREATE | UPDATE | DELETE | UNCHANGED

record dependency_edge =
  edge_source :: address
  edge_target :: address
  edge_kind :: dependency_kind

record dep_resource =
  ordering_dependencies :: "address list"
  refresh_dependencies :: "address list"

type_synonym dep_graph = "(address, address list) pydict"

section \<open>Normalised graphs\<close>

definition canonical_resource_identity :: "address \<Rightarrow> address list res" where
  "canonical_resource_identity a =
     res_bind (require_compiled_address ''address'' a) (\<lambda>b. Inr [b])"

definition sort_by_identity :: "address list \<Rightarrow> address list res" where
  "sort_by_identity xs = res_bind (res_map canonical_resource_identity xs) (\<lambda>_. Inr (sort xs))"

definition dependency_graph :: "dep_graph \<Rightarrow> dep_graph" where
  "dependency_graph g = map (\<lambda>(n, ds). (n, filter (dict_has g) ds)) g"

definition add_edge :: "dep_graph \<Rightarrow> dependency_edge \<Rightarrow> dep_graph" where
  "add_edge g e =
     (case dict_get g (edge_source e) of
        None \<Rightarrow> g
      | Some ts \<Rightarrow> dict_set (edge_source e) (ts @ [edge_target e]) g)"

definition dependency_graph_from_edges :: "dependency_edge list \<Rightarrow> address list \<Rightarrow> dep_graph" where
  "dependency_graph_from_edges es known =
     dependency_graph (foldl add_edge (map (\<lambda>n. (n, [])) known) es)"

definition dependencies_of :: "dependency_kind \<Rightarrow> 'r dep_resource_scheme \<Rightarrow> address list" where
  "dependencies_of kind r =
     (if kind = ORDERING then ordering_dependencies r else refresh_dependencies r)"

definition resource_edges ::
  "(address, 'r dep_resource_scheme) pydict \<Rightarrow> dependency_kind \<Rightarrow> address \<Rightarrow> dependency_edge list" where
  "resource_edges rs kind a =
     (case dict_get rs a of
        None \<Rightarrow> []
      | Some r \<Rightarrow>
          map (\<lambda>t. \<lparr>edge_source = a, edge_target = t, edge_kind = kind\<rparr>)
            (filter (dict_has rs) (dependencies_of kind r)))"

definition dependency_edges ::
  "(address, 'r dep_resource_scheme) pydict \<Rightarrow> dependency_kind \<Rightarrow> dependency_edge list res" where
  "dependency_edges rs kind =
     res_bind (sort_by_identity (dict_keys rs))
       (\<lambda>sources. Inr (concat (map (resource_edges rs kind) sources)))"

definition dependency_graph_for_resources ::
  "(address, 'r dep_resource_scheme) pydict \<Rightarrow> dependency_kind \<Rightarrow> dep_graph res" where
  "dependency_graph_for_resources rs kind =
     res_bind (dependency_edges rs kind)
       (\<lambda>es. Inr (dependency_graph_from_edges es (dict_keys rs)))"

section \<open>The stable topological order\<close>

text \<open>
  The loop state: \<open>dependents\<close> and \<open>indegree\<close>. The two nested loops of the code run over the
  pairs of a node and one of its dependencies, in order.
\<close>

definition graph_pairs :: "dep_graph \<Rightarrow> (address \<times> address) list" where
  "graph_pairs g = concat (map (\<lambda>(n, ds). map (\<lambda>d. (n, d)) ds) g)"

fun count_pair ::
  "dep_graph \<times> (address, int) pydict \<Rightarrow> address \<times> address \<Rightarrow>
     (dep_graph \<times> (address, int) pydict) res" where
  "count_pair (dpt, indeg) (n, d) =
     res_bind (dict_item dpt d) (\<lambda>ns.
     res_bind (dict_item indeg n) (\<lambda>k.
       Inr (dict_set d (ns @ [n]) dpt, dict_set n (k + 1) indeg)))"

text \<open>The inner \<open>for dependent in sorted(\<dots>)\<close> loop of one queue step.\<close>

fun relax :: "address list \<Rightarrow> (address, int) pydict \<Rightarrow> address list \<Rightarrow>
    ((address, int) pydict \<times> address list) res" where
  "relax [] indeg q = Inr (indeg, q)"
| "relax (d # ds) indeg q =
     (case dict_get indeg d of
        None \<Rightarrow> Inl (KeyError d)
      | Some k \<Rightarrow>
          relax ds (dict_set d (k - 1) indeg) (if k - 1 = 0 then q @ [d] else q))"

definition pos_count :: "('k, int) pydict \<Rightarrow> nat" where
  "pos_count d = length (filter (\<lambda>p. 0 < snd p) d)"

lemma pos_count_set:
  "dict_get d k = Some v \<Longrightarrow>
     pos_count (dict_set k w d) + (if 0 < v then 1 else 0) =
     pos_count d + (if 0 < w then 1 else 0)"
  by (induction d) (auto simp: pos_count_def dict_get_def dict_set_def split: if_splits)

lemma relax_measure:
  "relax ds indeg q = Inr (indeg', q') \<Longrightarrow>
     pos_count indeg' + length q' \<le> pos_count indeg + length q"
proof (induction ds arbitrary: indeg q)
  case Nil
  then show ?case by simp
next
  case (Cons d ds)
  then obtain k where k: "dict_get indeg d = Some k"
    and run: "relax ds (dict_set d (k - 1) indeg) (if k - 1 = 0 then q @ [d] else q) = Inr (indeg', q')"
    by (auto split: option.splits)
  from pos_count_set [OF k, of "k - 1"]
  have "pos_count (dict_set d (k - 1) indeg) + length (if k - 1 = 0 then q @ [d] else q)
      \<le> pos_count indeg + length q"
    by (cases "k = 1") (auto split: if_splits)
  with Cons.IH [OF run] show ?case by linarith
qed

function kahn_loop :: "dep_graph \<Rightarrow> (address, int) pydict \<Rightarrow> address list \<Rightarrow> address list \<Rightarrow>
    address list res" where
  "kahn_loop dpt indeg [] order = Inr order"
| "kahn_loop dpt indeg (c # q) order =
     (case res_bind (dict_item dpt c) sort_by_identity of
        Inl e \<Rightarrow> Inl e
      | Inr ds \<Rightarrow>
          (case relax ds indeg q of
             Inl e \<Rightarrow> Inl e
           | Inr (indeg', q') \<Rightarrow> kahn_loop dpt indeg' q' (order @ [c])))"
  by pat_completeness auto
termination
  by (relation "measure (\<lambda>(dpt, indeg, q, order). pos_count indeg + length q)")
    (auto dest: relax_measure)

definition topological_dependency_order :: "dep_graph \<Rightarrow> address list res" where
  "topological_dependency_order g =
     (let graph = dependency_graph g in
      res_bind (res_fold count_pair (map (\<lambda>n. (n, [])) (dict_keys graph), map (\<lambda>n. (n, 0)) (dict_keys graph))
                 (graph_pairs graph)) (\<lambda>(dpt, indeg).
      res_bind (sort_by_identity (map fst (filter (\<lambda>p. snd p = 0) indeg))) (\<lambda>queue.
      res_bind (kahn_loop dpt indeg queue []) (\<lambda>order.
        if length order \<noteq> length graph
        then res_bind (sort_by_identity (filter (\<lambda>n. n \<notin> set order) (dict_keys graph)))
               (\<lambda>rest. Inr (order @ rest))
        else Inr order))))"

definition reverse_delete_order :: "dep_graph \<Rightarrow> address list res" where
  "reverse_delete_order g = res_bind (topological_dependency_order g) (\<lambda>order. Inr (rev order))"

definition resource_topological_order ::
  "(address, 'r dep_resource_scheme) pydict \<Rightarrow> address list res" where
  "resource_topological_order rs =
     res_bind (dependency_graph_for_resources rs ORDERING) topological_dependency_order"

definition resource_delete_order ::
  "(address, 'r dep_resource_scheme) pydict \<Rightarrow> address list res" where
  "resource_delete_order rs = res_bind (resource_topological_order rs) (\<lambda>order. Inr (rev order))"

section \<open>Refresh propagation\<close>

definition push_dependent :: "dep_graph \<Rightarrow> address \<times> address \<Rightarrow> dep_graph" where
  "push_dependent dpt p =
     (case p of (a, d) \<Rightarrow>
        dict_set d ((case dict_get dpt d of None \<Rightarrow> [] | Some ns \<Rightarrow> ns) @ [a]) dpt)"

definition refresh_dependents :: "dep_graph \<Rightarrow> dep_graph" where
  "refresh_dependents g = foldl push_dependent (map (\<lambda>a. (a, [])) (dict_keys g)) (graph_pairs g)"

text \<open>One \<open>for dependent in \<dots>\<close> loop: skip what is changed or already impacted, queue the rest.\<close>

fun impact_dependents :: "address list \<Rightarrow> address list \<Rightarrow> address list \<Rightarrow> address list \<Rightarrow>
    address list \<times> address list" where
  "impact_dependents changed [] q impacted = (q, impacted)"
| "impact_dependents changed (d # ds) q impacted =
     (if d \<in> set changed \<or> d \<in> set impacted
      then impact_dependents changed ds q impacted
      else impact_dependents changed ds (q @ [d]) (impacted @ [d]))"

definition dependents_at :: "dep_graph \<Rightarrow> address \<Rightarrow> address list" where
  "dependents_at dpt d = (case dict_get dpt d of None \<Rightarrow> [] | Some ns \<Rightarrow> ns)"

text \<open>
  The \<open>while queue\<close> loop. An address is queued when it joins \<open>impacted\<close>, and only addresses
  of the dependents table can join, so the table's size bounds the run.
\<close>

definition dpt_nodes :: "dep_graph \<Rightarrow> address set" where
  "dpt_nodes dpt = (\<Union>p \<in> set dpt. set (snd p))"

lemma finite_dpt_nodes [simp]: "finite (dpt_nodes dpt)"
  by (auto simp: dpt_nodes_def)

lemma dependents_at_subset: "set (dependents_at dpt d) \<subseteq> dpt_nodes dpt"
proof (cases "dict_get dpt d")
  case None
  then show ?thesis by (simp add: dependents_at_def)
next
  case (Some ns)
  then have "(d, ns) \<in> set dpt" by (rule dict_get_Some_in)
  with Some show ?thesis by (force simp: dependents_at_def dpt_nodes_def)
qed

lemma impact_dependents_props:
  assumes "impact_dependents changed ds q impacted = (q', impacted')"
  shows "\<exists>new. q' = q @ new \<and> impacted' = impacted @ new \<and> distinct new \<and>
    set new = set ds - set changed - set impacted"
  using assms
proof (induction ds arbitrary: q impacted)
  case Nil
  then show ?case by auto
next
  case (Cons d ds)
  show ?case
  proof (cases "d \<in> set changed \<or> d \<in> set impacted")
    case True
    with Cons.prems have "impact_dependents changed ds q impacted = (q', impacted')" by simp
    with Cons.IH True show ?thesis by fastforce
  next
    case False
    with Cons.prems have "impact_dependents changed ds (q @ [d]) (impacted @ [d]) = (q', impacted')"
      by simp
    from Cons.IH [OF this] obtain new where "q' = (q @ [d]) @ new" "impacted' = (impacted @ [d]) @ new"
      "distinct new" "set new = set ds - set changed - set (impacted @ [d])" by blast
    with False show ?thesis by (intro exI [of _ "d # new"]) auto
  qed
qed

lemma sort_by_identity_set: "sort_by_identity xs = Inr ys \<Longrightarrow> ys = sort xs"
  by (auto simp: sort_by_identity_def res_bind_Inr_iff)

lemma impact_measure:
  assumes sorted: "sort_by_identity (dependents_at dpt d) = Inr ds"
    and run: "impact_dependents changed ds q impacted = (q', impacted')"
  shows "card (dpt_nodes dpt - set impacted') + length q' \<le>
    card (dpt_nodes dpt - set impacted) + length q"
proof -
  obtain new where new: "q' = q @ new" "impacted' = impacted @ new" "distinct new"
    "set new = set ds - set changed - set impacted"
    using impact_dependents_props [OF run] by blast
  have "set ds \<subseteq> dpt_nodes dpt"
    using sort_by_identity_set [OF sorted] dependents_at_subset [of dpt d] by simp
  with new have sub: "set new \<subseteq> dpt_nodes dpt - set impacted" by auto
  have "dpt_nodes dpt - set impacted' = (dpt_nodes dpt - set impacted) - set new"
    using new(2) by auto
  then have "card (dpt_nodes dpt - set impacted') = card (dpt_nodes dpt - set impacted) - card (set new)"
    using sub by (simp add: card_Diff_subset)
  moreover have "card (set new) \<le> card (dpt_nodes dpt - set impacted)"
    using sub by (simp add: card_mono)
  moreover have "length q' = length q + card (set new)"
    using new(1,3) by (simp add: distinct_card [symmetric])
  ultimately show ?thesis by simp
qed

function refresh_loop :: "dep_graph \<Rightarrow> address list \<Rightarrow> address list \<Rightarrow> address list \<Rightarrow>
    address list res" where
  "refresh_loop dpt changed [] impacted = Inr impacted"
| "refresh_loop dpt changed (d # q) impacted =
     (case sort_by_identity (dependents_at dpt d) of
        Inl e \<Rightarrow> Inl e
      | Inr ds \<Rightarrow>
          (case impact_dependents changed ds q impacted of
             (q', impacted') \<Rightarrow> refresh_loop dpt changed q' impacted'))"
  by pat_completeness auto
termination
  by (relation "measure (\<lambda>(dpt, changed, q, impacted). card (dpt_nodes dpt - set impacted) + length q)")
    (auto dest!: impact_measure split: prod.splits)

definition refresh_impacted_nodes ::
  "(address, 'r dep_resource_scheme) pydict \<Rightarrow> address list \<Rightarrow> address list res" where
  "refresh_impacted_nodes rs changed_nodes =
     (let changed = fromkeys changed_nodes in
      res_bind (dependency_graph_for_resources rs REFRESH) (\<lambda>refresh_graph.
      res_bind (sort_by_identity changed) (\<lambda>queue.
      res_bind (refresh_loop (refresh_dependents refresh_graph) changed queue []) (\<lambda>impacted.
      res_bind (topological_dependency_order refresh_graph) (\<lambda>refresh_order.
        Inr (filter (\<lambda>a. a \<in> set impacted) refresh_order))))))"

section \<open>Reconciliation\<close>

definition initial_action ::
  "('s \<Rightarrow> 'r \<Rightarrow> bool) \<Rightarrow> (address, 's) pydict \<Rightarrow> address \<Rightarrow> 'r \<Rightarrow> reconciliation_action" where
  "initial_action matches snap a r =
     (case dict_get snap a of
        None \<Rightarrow> CREATE
      | Some e \<Rightarrow> if matches e r then UNCHANGED else UPDATE)"

definition initial_actions ::
  "('s \<Rightarrow> 'r \<Rightarrow> bool) \<Rightarrow> (address, 'r) pydict \<Rightarrow> (address, 's) pydict \<Rightarrow>
     (address, reconciliation_action) pydict" where
  "initial_actions matches rs snap =
     foldl (\<lambda>acts p. if dict_has rs (fst p) then acts else dict_set (fst p) DELETE acts)
       (foldl (\<lambda>acts p. dict_set (fst p) (initial_action matches snap (fst p) (snd p)) acts) [] rs)
       snap"

definition refresh_action ::
  "(address, reconciliation_action) pydict \<Rightarrow> address \<Rightarrow>
     (address, reconciliation_action) pydict res" where
  "refresh_action acts a =
     res_bind (dict_item acts a) (\<lambda>act.
       Inr (if act = UNCHANGED then dict_set a UPDATE acts else acts))"

definition reconcile_resource_actions ::
  "('r \<Rightarrow> 'd dep_resource_scheme) \<Rightarrow> ('s \<Rightarrow> 'r \<Rightarrow> bool) \<Rightarrow>
     (address, 'r) pydict \<Rightarrow> (address, 's) pydict \<Rightarrow>
     ((address, reconciliation_action) pydict \<times> (address, 's) pydict) res" where
  "reconcile_resource_actions resource_dependencies matches rs snap =
     (let actions = initial_actions matches rs snap;
          deleted_entries = filter (\<lambda>p. \<not> dict_has rs (fst p)) snap;
          changed_nodes = map fst (filter (\<lambda>p. snd p = CREATE \<or> snd p = UPDATE) actions) in
      res_bind (refresh_impacted_nodes (map (\<lambda>p. (fst p, resource_dependencies (snd p))) rs) changed_nodes)
        (\<lambda>impacted_nodes.
      res_bind (res_fold refresh_action actions impacted_nodes) (\<lambda>actions'.
        Inr (actions', deleted_entries))))"

end
