(* ===== verification/Dep_Order.thy ===== *)
theory Dep_Order
  imports Dep_Graph "HOL-Library.Multiset"
begin

text \<open>
  Correctness of the stable topological order of \<open>Dep_Graph\<close>: it is a permutation of the
  nodes for every graph, cyclic ones included, and on an acyclic graph it lists every node
  after all of its dependencies. The loop invariant of Kahn's algorithm (\<open>kahn_inv\<close>) says
  that the in-degree table counts the dependencies not yet in the order and that exactly the
  nodes at zero are ordered or queued.
\<close>

section \<open>Graphs and their tables\<close>

definition deps_at :: "dep_graph \<Rightarrow> address \<Rightarrow> address list" where
  "deps_at g n = (case dict_get g n of None \<Rightarrow> [] | Some ds \<Rightarrow> ds)"

definition valid_graph :: "dep_graph \<Rightarrow> bool" where
  "valid_graph g \<longleftrightarrow> wf_dict g \<and> (\<forall>n \<in> set (dict_keys g). compiled_address n)"

definition closed_graph :: "dep_graph \<Rightarrow> bool" where
  "closed_graph g \<longleftrightarrow> (\<forall>n. set (deps_at g n) \<subseteq> set (dict_keys g))"

text \<open>The dependency relation the order has to respect: \<open>(d, n)\<close> when \<open>n\<close> depends on \<open>d\<close>.\<close>

definition dep_rel :: "dep_graph \<Rightarrow> (address \<times> address) set" where
  "dep_rel g = {(d, n). d \<in> set (deps_at g n) \<and> dict_has g d}"

definition topo_sorted :: "dep_graph \<Rightarrow> address list \<Rightarrow> bool" where
  "topo_sorted g xs \<longleftrightarrow> (\<forall>ys n zs. xs = ys @ n # zs \<longrightarrow> set (deps_at g n) \<subseteq> set ys)"

lemma dict_keys_dependency_graph [simp]: "dict_keys (dependency_graph g) = dict_keys g"
  by (auto simp: dependency_graph_def dict_keys_def)

lemma length_dependency_graph [simp]: "length (dependency_graph g) = length g"
  by (simp add: dependency_graph_def)

lemma dict_has_dependency_graph [simp]: "dict_has (dependency_graph g) n = dict_has g n"
  by (simp add: dict_has_def)

lemma dict_keys_map_values [simp]: "dict_keys (map (\<lambda>(n, v). (n, f v)) d) = dict_keys d"
  by (induction d) (auto simp: dict_keys_def)

lemma dict_has_map_values [simp]: "dict_has (map (\<lambda>(n, v). (n, f v)) d) = dict_has d"
  by (simp add: dict_has_def fun_eq_iff)

lemma dict_get_map_values:
  "dict_get (map (\<lambda>(n, v). (n, f v)) d) k = map_option f (dict_get d k)"
  by (induction d) (auto simp: dict_get_def)

lemma dependency_graph_idem: "dependency_graph (dependency_graph g) = dependency_graph g"
proof -
  have "dict_has (dependency_graph g) = dict_has g" by (simp add: fun_eq_iff)
  then show ?thesis
    unfolding dependency_graph_def [of "dependency_graph g"]
    by (simp add: dependency_graph_def case_prod_unfold comp_def)
qed

lemma dict_get_dependency_graph:
  "dict_get (dependency_graph g) n = map_option (filter (dict_has g)) (dict_get g n)"
  by (simp add: dependency_graph_def dict_get_map_values)

lemma deps_at_dependency_graph: "deps_at (dependency_graph g) n = filter (dict_has g) (deps_at g n)"
  by (simp add: deps_at_def dependency_graph_def dict_get_map_values split: option.splits)

lemma closed_dependency_graph: "closed_graph (dependency_graph g)"
  by (auto simp: closed_graph_def deps_at_dependency_graph dict_has_def)

lemma valid_dependency_graph: "valid_graph g \<Longrightarrow> valid_graph (dependency_graph g)"
  by (simp add: valid_graph_def wf_dict_def)

lemma dep_rel_dependency_graph [simp]: "dep_rel (dependency_graph g) = dep_rel g"
  by (auto simp: dep_rel_def deps_at_dependency_graph)

lemma sort_by_identity_ok [res_intros]:
  assumes "\<forall>x \<in> set xs. compiled_address x"
  shows "sort_by_identity xs = Inr (sort xs)"
proof -
  have "res_map canonical_resource_identity xs = Inr (map (\<lambda>x. [x]) xs)"
    using assms by (induction xs) (simp_all add: canonical_resource_identity_def require_compiled_address_def)
  then show ?thesis by (simp add: sort_by_identity_def)
qed

lemma topo_sorted_Nil [simp]: "topo_sorted g []"
  by (simp add: topo_sorted_def)

lemma topo_sorted_snoc:
  assumes "topo_sorted g xs" and "set (deps_at g c) \<subseteq> set xs"
  shows "topo_sorted g (xs @ [c])"
  unfolding topo_sorted_def
proof (intro allI impI)
  fix ys n zs assume eq: "xs @ [c] = ys @ n # zs"
  show "set (deps_at g n) \<subseteq> set ys"
  proof (cases zs rule: rev_cases)
    case Nil
    with eq assms(2) show ?thesis by simp
  next
    case (snoc zs' z)
    with eq have "xs = ys @ n # zs'" by simp
    with assms(1) show ?thesis by (simp add: topo_sorted_def)
  qed
qed

section \<open>The counting loops\<close>

lemma graph_pairs_fst: "set (map fst (graph_pairs g)) \<subseteq> set (dict_keys g)"
  by (force simp: graph_pairs_def dict_keys_def)

lemma filter_pairs_node:
  "wf_dict g \<Longrightarrow> map snd (filter (\<lambda>p. fst p = n) (graph_pairs g)) = deps_at g n"
proof (induction g)
  case Nil
  show ?case by (simp add: graph_pairs_def deps_at_def)
next
  case (Cons p g)
  obtain m ds where p: "p = (m, ds)" by (cases p)
  have m: "map snd (filter (\<lambda>p. fst p = n) (map (Pair m) ds)) = (if m = n then ds else [])"
    by (induction ds) auto
  have pairs: "graph_pairs (p # g) = map (Pair m) ds @ graph_pairs g"
    using p by (simp add: graph_pairs_def)
  have "n \<notin> set (dict_keys g)" if "m = n"
    using Cons.prems p that by (simp add: wf_dict_Cons)
  then have "deps_at g n = []" if "m = n"
    using that dict_get_None_iff [of g n] by (simp add: deps_at_def dict_has_def)
  moreover from Cons.prems p have "wf_dict g" by (simp add: wf_dict_Cons)
  ultimately show ?case
    using Cons.IH m pairs p by (auto simp: deps_at_def dict_get_def)
qed

lemma graph_pairs_snd:
  assumes "wf_dict g"
  shows "(n, d) \<in> set (graph_pairs g) \<longleftrightarrow> d \<in> set (deps_at g n)"
  by (force simp flip: filter_pairs_node [OF assms])

definition dependents_in :: "(address \<times> address) list \<Rightarrow> address \<Rightarrow> address list" where
  "dependents_in ps d = map fst (filter (\<lambda>p. snd p = d) ps)"

lemma count_dependents:
  "wf_dict g \<Longrightarrow> count_list (dependents_in (graph_pairs g) c) n = count_list (deps_at g n) c"
proof -
  assume wf: "wf_dict g"
  have "count_list (map fst (filter (\<lambda>p. snd p = c) ps)) n =
      count_list (map snd (filter (\<lambda>p. fst p = n) ps)) c" for ps :: "(address \<times> address) list"
    by (induction ps) auto
  from this [of "graph_pairs g"] show ?thesis
    by (simp add: dependents_in_def filter_pairs_node [OF wf])
qed

lemma length_deps: "wf_dict g \<Longrightarrow> length (filter (\<lambda>p. fst p = n) (graph_pairs g)) = length (deps_at g n)"
  using filter_pairs_node [of g n] by (metis length_map)

definition tables_for :: "dep_graph \<Rightarrow> (address \<times> address) list \<Rightarrow>
    dep_graph \<times> (address, int) pydict \<Rightarrow> bool" where
  "tables_for g ps t \<longleftrightarrow>
     dict_keys (snd t) = dict_keys g \<and>
     (\<forall>d \<in> set (dict_keys g). dict_get (fst t) d = Some (dependents_in ps d)) \<and>
     (\<forall>n \<in> set (dict_keys g).
        dict_get (snd t) n = Some (int (length (filter (\<lambda>p. fst p = n) ps))))"

lemma dict_get_const: "dict_get (map (\<lambda>n. (n, v)) ks) k = (if k \<in> set ks then Some v else None)"
  by (induction ks) (auto simp: dict_get_def)

lemma dict_keys_const: "dict_keys (map (\<lambda>n. (n, v)) ks) = ks"
  by (simp add: dict_keys_def comp_def)

lemma count_pair_run:
  assumes "wf_dict g" and "closed_graph g"
  shows "\<exists>t. res_fold count_pair (map (\<lambda>n. (n, [])) (dict_keys g), map (\<lambda>n. (n, 0)) (dict_keys g))
      (graph_pairs g) = Inr t \<and> tables_for g (graph_pairs g) t"
proof (rule res_fold_run)
  show "tables_for g [] (map (\<lambda>n. (n, [])) (dict_keys g), map (\<lambda>n. (n, 0)) (dict_keys g))"
    by (simp add: tables_for_def dict_get_const dict_keys_const dependents_in_def)
next
  fix ys x zs u
  assume eq: "graph_pairs g = ys @ x # zs" and tab: "tables_for g ys u"
  obtain n d where x: "x = (n, d)" by (cases x)
  obtain dpt indeg where u: "u = (dpt, indeg)" by (cases u)
  have "n \<in> set (dict_keys g)" using graph_pairs_fst [of g] eq x by force
  moreover have "d \<in> set (deps_at g n)"
    using graph_pairs_snd [OF assms(1), of n d] eq x by simp
  then have "d \<in> set (dict_keys g)"
    using assms(2) by (auto simp: closed_graph_def)
  ultimately show "\<exists>v. count_pair u x = Inr v \<and> tables_for g (ys @ [x]) v"
    using tab u x
    by (auto simp: tables_for_def dict_item_def dict_keys_set dict_has_def dependents_in_def)
qed

section \<open>One queue step\<close>

lemma count_list_sort: "count_list (sort xs) x = count_list xs x"
  by (metis count_mset mset_sort)

lemma relax_run:
  assumes "\<forall>d \<in> set ds. dict_has indeg d"
  shows "\<exists>indeg' new. relax ds indeg q = Inr (indeg', q @ new) \<and>
     dict_keys indeg' = dict_keys indeg \<and>
     (\<forall>n k. dict_get indeg n = Some k \<longrightarrow> dict_get indeg' n = Some (k - int (count_list ds n))) \<and>
     distinct new \<and>
     set new = {n \<in> set ds. \<exists>k. dict_get indeg n = Some k \<and> 0 < k \<and> k \<le> int (count_list ds n)}"
  using assms
proof (induction ds arbitrary: indeg q)
  case Nil
  then show ?case by simp
next
  case (Cons d ds)
  then obtain k where k: "dict_get indeg d = Some k"
    by (auto dest: dict_has_get)
  let ?i = "dict_set d (k - 1) indeg"
  let ?q = "if k - 1 = 0 then q @ [d] else q"
  have "\<forall>x \<in> set ds. dict_has ?i x" using Cons.prems by simp
  from Cons.IH [OF this, of ?q] obtain indeg' new where
    run: "relax ds ?i ?q = Inr (indeg', ?q @ new)" and keys: "dict_keys indeg' = dict_keys ?i"
    and get: "\<And>n k. dict_get ?i n = Some k \<Longrightarrow> dict_get indeg' n = Some (k - int (count_list ds n))"
    and new: "distinct new"
      "set new = {n \<in> set ds. \<exists>k. dict_get ?i n = Some k \<and> 0 < k \<and> k \<le> int (count_list ds n)}"
    by blast
  let ?new = "(if k - 1 = 0 then [d] else []) @ new"
  have "relax (d # ds) indeg q = Inr (indeg', q @ ?new)" using run k by simp
  moreover have "dict_keys indeg' = dict_keys indeg"
    using keys k dict_get_Some_has [OF k] by (simp add: dict_keys_set)
  moreover have "dict_get indeg' n = Some (j - int (count_list (d # ds) n))"
    if "dict_get indeg n = Some j" for n j
    using that get [of n "if n = d then k - 1 else j"] k by (auto split: if_splits)
  moreover have "distinct ?new"
    using new by (auto split: if_splits)
  moreover have "set ?new = {n \<in> set (d # ds). \<exists>j. dict_get indeg n = Some j \<and> 0 < j \<and>
      j \<le> int (count_list (d # ds) n)}" (is "_ = ?R")
  proof (rule set_eqI)
    fix n
    show "n \<in> set ?new \<longleftrightarrow> n \<in> ?R"
    proof (cases "n = d")
      case True
      have "d \<in> set ds" if "k \<le> int (count_list ds d) + 1" "1 < k"
        using that by (metis count_list_0_iff int_ops(1) not_less add_0)
      with True k new(2) show ?thesis by auto
    next
      case False
      with k new(2) show ?thesis by auto
    qed
  qed
  ultimately show ?case by blast
qed

section \<open>The loop invariant\<close>

definition open_deps :: "dep_graph \<Rightarrow> address list \<Rightarrow> address \<Rightarrow> address list" where
  "open_deps g order n = filter (\<lambda>d. d \<notin> set order) (deps_at g n)"

definition kahn_inv :: "dep_graph \<Rightarrow> (address, int) pydict \<Rightarrow> address list \<Rightarrow> address list \<Rightarrow> bool" where
  "kahn_inv g indeg q order \<longleftrightarrow>
     dict_keys indeg = dict_keys g \<and>
     distinct (order @ q) \<and> set (order @ q) \<subseteq> set (dict_keys g) \<and>
     (\<forall>n \<in> set (dict_keys g). dict_get indeg n = Some (int (length (open_deps g order n)))) \<and>
     (\<forall>n \<in> set (dict_keys g). open_deps g order n = [] \<longleftrightarrow> n \<in> set (order @ q)) \<and>
     topo_sorted g order"

lemma length_open_deps_snoc:
  assumes "c \<notin> set order"
  shows "int (length (open_deps g (order @ [c]) n)) =
     int (length (open_deps g order n)) - int (count_list (deps_at g n) c)"
proof -
  have "length (filter (\<lambda>d. d \<notin> set (order @ [c])) ds) + count_list ds c =
      length (filter (\<lambda>d. d \<notin> set order) ds)" for ds
    using assms by (induction ds) auto
  from this [of "deps_at g n"] show ?thesis
    by (simp add: open_deps_def flip: of_nat_add)
qed

lemma kahn_step:
  assumes g: "wf_dict g" "closed_graph g" "\<forall>n \<in> set (dict_keys g). compiled_address n"
    and tab: "\<forall>d \<in> set (dict_keys g). dict_get dpt d = Some (dependents_in (graph_pairs g) d)"
    and inv: "kahn_inv g indeg (c # q) order"
  obtains ds indeg' q' where "res_bind (dict_item dpt c) sort_by_identity = Inr ds"
    and "relax ds indeg q = Inr (indeg', q')" and "kahn_inv g indeg' q' (order @ [c])"
proof -
  let ?V = "set (dict_keys g)"
  note inv' = inv [unfolded kahn_inv_def]
  have c: "c \<in> ?V" "c \<notin> set order" "c \<notin> set q" using inv' by auto
  have cdeps: "set (deps_at g c) \<subseteq> set order"
  proof -
    have "open_deps g order c = []" using inv' c(1) by auto
    then show ?thesis by (auto simp: open_deps_def filter_empty_conv)
  qed
  define ns where "ns = dependents_in (graph_pairs g) c"
  have nsV: "set ns \<subseteq> ?V"
    using graph_pairs_fst [of g] by (force simp: ns_def dependents_in_def)
  have sorted: "res_bind (dict_item dpt c) sort_by_identity = Inr (sort ns)"
    using tab c(1) g(3) nsV by (auto simp: dict_item_def ns_def intro!: sort_by_identity_ok)
  have cnt: "count_list (sort ns) n = count_list (deps_at g n) c" for n
    using count_dependents [OF g(1), of c n]
    by (simp add: ns_def count_list_sort)
  have "\<forall>d \<in> set (sort ns). dict_has indeg d"
    using inv' nsV by (auto simp: dict_has_def)
  from relax_run [OF this, of q] obtain indeg' new where
    run: "relax (sort ns) indeg q = Inr (indeg', q @ new)"
    and keys: "dict_keys indeg' = dict_keys indeg"
    and get: "\<And>n k. dict_get indeg n = Some k \<Longrightarrow> dict_get indeg' n = Some (k - int (count_list (sort ns) n))"
    and new: "distinct new" "set new = {n \<in> set (sort ns). \<exists>k. dict_get indeg n = Some k \<and> 0 < k \<and>
      k \<le> int (count_list (sort ns) n)}" by blast
  have new': "n \<in> set new \<longleftrightarrow> n \<in> ?V \<and> open_deps g order n \<noteq> [] \<and> open_deps g (order @ [c]) n = []" for n
  proof (cases "n \<in> ?V")
    case True
    then have dn: "dict_get indeg n = Some (int (length (open_deps g order n)))" using inv' by blast
    have len: "int (length (open_deps g (order @ [c]) n)) =
        int (length (open_deps g order n)) - int (count_list (sort ns) n)"
      using length_open_deps_snoc [OF c(2)] cnt by simp
    have "n \<in> set (sort ns)" if "0 < count_list (sort ns) n"
      using that by (metis count_list_0_iff less_irrefl)
    moreover have "open_deps g (order @ [c]) n = [] \<longleftrightarrow>
        length (open_deps g order n) \<le> count_list (sort ns) n"
      using len by (cases "open_deps g (order @ [c]) n") auto
    ultimately show ?thesis using True dn new(2)
      by (auto simp: less_le_trans)
  next
    case False
    with new(2) nsV show ?thesis by auto
  qed
  have "kahn_inv g indeg' (q @ new) (order @ [c])"
    unfolding kahn_inv_def
  proof (intro conjI ballI)
    show "dict_keys indeg' = dict_keys g" using keys inv' by simp
    have "n \<notin> set (order @ c # q)" if "n \<in> set new" for n
      using that new' inv' by blast
    then have "set (order @ c # q) \<inter> set new = {}" by blast
    then show "distinct ((order @ [c]) @ q @ new)"
      using inv' new(1) by auto
    show "set ((order @ [c]) @ q @ new) \<subseteq> ?V" using inv' new' by auto
    show "topo_sorted g (order @ [c])" using inv' cdeps by (simp add: topo_sorted_snoc)
  next
    fix n assume n: "n \<in> ?V"
    then have "dict_get indeg n = Some (int (length (open_deps g order n)))" using inv' by blast
    from get [OF this] show "dict_get indeg' n = Some (int (length (open_deps g (order @ [c]) n)))"
      using length_open_deps_snoc [OF c(2), of g n] cnt by simp
    have "open_deps g (order @ [c]) n = []" if "open_deps g order n = []"
      using that by (auto simp: open_deps_def filter_empty_conv)
    then show "(open_deps g (order @ [c]) n = []) = (n \<in> set ((order @ [c]) @ q @ new))"
      using n inv' new' by auto
  qed
  with that sorted run show thesis by blast
qed

lemma kahn_loop_run:
  assumes g: "wf_dict g" "closed_graph g" "\<forall>n \<in> set (dict_keys g). compiled_address n"
    and tab: "\<forall>d \<in> set (dict_keys g). dict_get dpt d = Some (dependents_in (graph_pairs g) d)"
    and inv: "kahn_inv g indeg q order"
  shows "\<exists>indeg' order'. kahn_loop dpt indeg q order = Inr order' \<and> kahn_inv g indeg' [] order'"
  using tab inv
proof (induction dpt indeg q order rule: kahn_loop.induct)
  case (1 dpt indeg order)
  then show ?case by auto
next
  case (2 dpt indeg c q order)
  from kahn_step [OF g "2.prems"] obtain ds indeg' q' where
    step: "res_bind (dict_item dpt c) sort_by_identity = Inr ds"
    "relax ds indeg q = Inr (indeg', q')" and inv': "kahn_inv g indeg' q' (order @ [c])" by blast
  with "2.IH" [OF step(1) step(2) refl "2.prems"(1) inv'] show ?case by simp
qed

section \<open>The order\<close>

lemma dep_rel_nodes: "(d, n) \<in> dep_rel g \<Longrightarrow> dict_has g d \<and> dict_has g n"
  by (cases "dict_get g n") (auto simp: dep_rel_def deps_at_def dest: dict_get_Some_has)

lemma finite_dep_rel: "finite (dep_rel g)"
proof (rule finite_subset)
  show "dep_rel g \<subseteq> set (dict_keys g) \<times> set (dict_keys g)"
    by (auto dest: dep_rel_nodes simp: dict_has_def)
qed simp

lemma no_predecessor:
  assumes "acyclic (dep_rel g)" and "A \<noteq> {}"
  shows "\<exists>n \<in> A. \<forall>d \<in> A. (d, n) \<notin> dep_rel g"
proof -
  have "wf (dep_rel g)" using finite_dep_rel assms(1) by (rule finite_acyclic_wf)
  with assms(2) show ?thesis by (metis wf_eq_minimal all_not_in_conv)
qed

text \<open>
  What holds of every valid graph: the result is the Kahn prefix followed by the sorted
  residual nodes, and every residual node waits for another residual node.
\<close>

lemma topological_run:
  assumes "valid_graph g"
  obtains prefix rest where "topological_dependency_order g = Inr (prefix @ rest)"
    and "distinct (prefix @ rest)" and "set (prefix @ rest) = set (dict_keys g)"
    and "topo_sorted (dependency_graph g) prefix" and "sorted rest"
    and "\<forall>n \<in> set rest. \<exists>d \<in> set rest. (d, n) \<in> dep_rel g"
proof -
  let ?h = "dependency_graph g"
  let ?V = "set (dict_keys g)"
  have wf: "wf_dict ?h" "closed_graph ?h" "\<forall>n \<in> set (dict_keys ?h). compiled_address n"
    using assms by (auto simp: valid_graph_def wf_dict_def closed_dependency_graph)
  from count_pair_run [OF wf(1,2)] obtain dpt indeg where
    count: "res_fold count_pair (map (\<lambda>n. (n, [])) (dict_keys ?h), map (\<lambda>n. (n, 0)) (dict_keys ?h))
      (graph_pairs ?h) = Inr (dpt, indeg)" and tab: "tables_for ?h (graph_pairs ?h) (dpt, indeg)"
    by (metis surj_pair)
  let ?q = "map fst (filter (\<lambda>p. snd p = 0) indeg)"
  have keys: "dict_keys indeg = dict_keys g" using tab by (simp add: tables_for_def)
  then have wfi: "wf_dict indeg" using wf(1) by (simp add: wf_dict_def)
  have q: "n \<in> set ?q \<longleftrightarrow> n \<in> ?V \<and> deps_at ?h n = []" for n
  proof -
    have "n \<in> set ?q \<longleftrightarrow> dict_get indeg n = Some 0"
      using dict_get_eq_Some [OF wfi] by force
    also have "\<dots> \<longleftrightarrow> n \<in> ?V \<and> deps_at ?h n = []"
      using tab keys dict_get_None_iff [of indeg n]
      by (cases "n \<in> ?V") (auto simp: tables_for_def length_deps [OF wf(1)] dict_has_def)
    finally show ?thesis .
  qed
  have dq: "distinct ?q"
    using wfi by (simp add: wf_dict_def dict_keys_def distinct_map_filter)
  have sq: "sort_by_identity ?q = Inr (sort ?q)"
    using q wf(3) by (intro sort_by_identity_ok) auto
  have inv: "kahn_inv ?h indeg (sort ?q) []"
    unfolding kahn_inv_def
  proof (intro conjI ballI)
    fix n assume "n \<in> set (dict_keys ?h)"
    then show "dict_get indeg n = Some (int (length (open_deps ?h [] n)))"
      using tab by (simp add: tables_for_def open_deps_def length_deps [OF wf(1)])
    show "(open_deps ?h [] n = []) = (n \<in> set ([] @ sort ?q))"
      using q [of n] \<open>n \<in> set (dict_keys ?h)\<close> by (simp add: open_deps_def)
  qed (use q dq keys in auto)
  have dpt: "\<forall>d \<in> set (dict_keys ?h). dict_get dpt d = Some (dependents_in (graph_pairs ?h) d)"
    using tab by (simp add: tables_for_def)
  from kahn_loop_run [OF wf dpt inv] obtain indeg' order where
    loop: "kahn_loop dpt indeg (sort ?q) [] = Inr order" and fin: "kahn_inv ?h indeg' [] order" by blast
  note fin' = fin [unfolded kahn_inv_def]
  let ?rest = "sort (filter (\<lambda>n. n \<notin> set order) (dict_keys g))"
  have rest: "?rest = [] \<longleftrightarrow> length order = length g"
  proof -
    have "set order \<subseteq> ?V" "distinct order" using fin' by auto
    moreover have "length g = card ?V"
      using wf(1) distinct_card [of "dict_keys g"] by (simp add: wf_dict_def) (simp add: dict_keys_def)
    moreover have "?rest = [] \<longleftrightarrow> ?V \<subseteq> set order"
      by (simp only: set_empty [symmetric] set_sort) auto
    ultimately show ?thesis
      by (metis List.finite_set card_subset_eq distinct_card order_refl subset_antisym)
  qed
  have run: "topological_dependency_order g = Inr (order @ ?rest)"
  proof (cases "length order = length g")
    case True
    with count sq loop rest show ?thesis
      by (simp add: topological_dependency_order_def Let_def)
  next
    case False
    have "sort_by_identity (filter (\<lambda>n. n \<notin> set order) (dict_keys g)) = Inr ?rest"
      using wf(3) by (intro sort_by_identity_ok) auto
    with False count sq loop show ?thesis
      by (simp add: topological_dependency_order_def Let_def)
  qed
  have stuck: "\<exists>d \<in> set ?rest. (d, n) \<in> dep_rel g" if "n \<in> set ?rest" for n
  proof -
    from that fin' have "open_deps ?h order n \<noteq> []" by auto
    then obtain d where "d \<in> set (deps_at ?h n)" "d \<notin> set order"
      by (auto simp: open_deps_def filter_empty_conv)
    then show ?thesis by (auto simp: deps_at_dependency_graph dep_rel_def dict_has_def)
  qed
  show thesis
    by (rule that [OF run]) (use fin' wf(1) stuck in \<open>auto simp: wf_dict_def\<close>)
qed

lemma topological_acyclic_run:
  assumes "valid_graph g" and "acyclic (dep_rel g)"
  shows "\<exists>order. topological_dependency_order g = Inr order \<and> distinct order \<and>
    set order = set (dict_keys g) \<and> topo_sorted (dependency_graph g) order"
proof -
  from topological_run [OF assms(1)] obtain prefix rest where
    run: "topological_dependency_order g = Inr (prefix @ rest)" "distinct (prefix @ rest)"
    "set (prefix @ rest) = set (dict_keys g)" "topo_sorted (dependency_graph g) prefix"
    and stuck: "\<forall>n \<in> set rest. \<exists>d \<in> set rest. (d, n) \<in> dep_rel g" by metis
  have "rest = []"
    using stuck no_predecessor [OF assms(2), of "set rest"] by auto
  with run show ?thesis by simp
qed

section \<open>Graphs of compiled resources\<close>

definition valid_resources :: "(address, 'r) pydict \<Rightarrow> bool" where
  "valid_resources rs \<longleftrightarrow> wf_dict rs \<and> (\<forall>a \<in> set (dict_keys rs). compiled_address a)"

lemma pydict_eqI:
  assumes "dict_keys d = dict_keys e" and "wf_dict d" and "\<And>k. dict_get d k = dict_get e k"
  shows "d = e"
  using assms
proof (induction d arbitrary: e)
  case Nil
  then show ?case by (simp add: dict_keys_def)
next
  case (Cons p d)
  obtain k v where p: "p = (k, v)" by (cases p)
  from Cons.prems(1) p obtain w e' where e: "e = (k, w) # e'" and keys: "dict_keys d = dict_keys e'"
    by (cases e) (auto simp: dict_keys_def)
  from Cons.prems(3) [of k] e p have "v = w" by (simp add: dict_get_def)
  have wf: "wf_dict d" "k \<notin> set (dict_keys d)" using Cons.prems(2) p by (auto simp: wf_dict_Cons)
  have "dict_get d j = dict_get e' j" for j
  proof (cases "j = k")
    case True
    with wf(2) keys show ?thesis
      by (metis dict_get_None_iff dict_has_def)
  next
    case False
    with Cons.prems(3) [of j] e p show ?thesis by (simp add: dict_get_def)
  qed
  from Cons.IH [OF keys wf(1) this] e p \<open>v = w\<close> show ?case by simp
qed

lemma foldl_add_edge:
  "dict_keys (foldl add_edge g es) = dict_keys g \<and>
   (\<forall>n. dict_get (foldl add_edge g es) n =
      map_option (\<lambda>ts. ts @ map edge_target (filter (\<lambda>e. edge_source e = n) es)) (dict_get g n))"
proof (induction es arbitrary: g)
  case Nil
  show ?case by (simp add: option.map_ident)
next
  case (Cons e es)
  have keys: "dict_keys (add_edge g e) = dict_keys g"
    by (auto simp: add_edge_def dict_keys_set dict_get_None_iff [symmetric] split: option.splits)
  have get: "dict_get (add_edge g e) n =
      map_option (\<lambda>ts. ts @ map edge_target (filter (\<lambda>x. edge_source x = n) [e])) (dict_get g n)" for n
    by (auto simp: add_edge_def option.map_ident split: option.splits)
  show ?case
    using Cons.IH [of "add_edge g e"] keys by (simp add: get option.map_comp comp_def)
qed

lemma edges_from_sources:
  assumes "distinct sources"
  shows "map edge_target (filter (\<lambda>e. edge_source e = n) (concat (map (resource_edges rs kind) sources))) =
    (if n \<in> set sources then map edge_target (resource_edges rs kind n) else [])"
proof -
  have src: "edge_source e = a" if "e \<in> set (resource_edges rs kind a)" for e a
    using that by (auto simp: resource_edges_def split: option.splits)
  have "filter (\<lambda>e. edge_source e = n) (resource_edges rs kind a) =
      (if a = n then resource_edges rs kind a else [])" for a
    using src by (auto simp: filter_id_conv filter_empty_conv)
  then have "filter (\<lambda>e. edge_source e = n) (concat (map (resource_edges rs kind) sources)) =
      concat (map (\<lambda>a. if a = n then resource_edges rs kind a else []) sources)"
    by (simp add: filter_concat comp_def cong: map_cong)
  also have "map edge_target \<dots> = (if n \<in> set sources then map edge_target (resource_edges rs kind n) else [])"
    using assms by (induction sources) auto
  finally show ?thesis .
qed

text \<open>
  The detour over sorted edges gives the normalised graph of the resources, in the resources'
  own iteration order.
\<close>

lemma graph_for_resources:
  fixes rs :: "(address, 'r dep_resource_scheme) pydict"
  assumes "valid_resources rs"
  shows "dependency_graph_for_resources rs kind =
    Inr (dependency_graph (map (\<lambda>(a, r). (a, dependencies_of kind r)) rs))"
proof -
  let ?start = "map (\<lambda>n. (n, [] :: address list)) (dict_keys rs)"
  let ?es = "concat (map (resource_edges rs kind) (sort (dict_keys rs)))"
  let ?g = "map (\<lambda>(a, r). (a, dependencies_of kind r)) rs"
  have wf: "wf_dict rs" "distinct (dict_keys rs)" using assms by (auto simp: valid_resources_def wf_dict_def)
  have run: "dependency_edges rs kind = Inr ?es"
    using assms by (simp add: dependency_edges_def sort_by_identity_ok valid_resources_def)
  have get: "dict_get (foldl add_edge ?start ?es) n =
      (if n \<in> set (dict_keys rs) then Some (map edge_target (resource_edges rs kind n)) else None)" for n
    using foldl_add_edge [of ?start ?es] edges_from_sources [of "sort (dict_keys rs)" n rs kind] wf(2)
    by (simp add: dict_get_const)
  have targets: "map edge_target (resource_edges rs kind n) =
      filter (dict_has rs) (dependencies_of kind r)" if "dict_get rs n = Some r" for n r
    using that by (simp add: resource_edges_def comp_def)
  have eq: "foldl add_edge ?start ?es = dependency_graph ?g"
  proof (rule pydict_eqI)
    show "dict_keys (foldl add_edge ?start ?es) = dict_keys (dependency_graph ?g)"
      using foldl_add_edge [of ?start ?es] by (simp add: dict_keys_const)
    then show "wf_dict (foldl add_edge ?start ?es)" using wf(2) by (simp add: wf_dict_def)
  next
    fix n
    show "dict_get (foldl add_edge ?start ?es) n = dict_get (dependency_graph ?g) n"
    proof (cases "dict_get rs n")
      case None
      then show ?thesis
        using dict_get_None_iff [of rs n]
        by (simp add: get dict_get_dependency_graph dict_get_map_values dict_has_def)
    next
      case (Some r)
      then show ?thesis
        using dict_get_Some_has [OF Some] targets [OF Some]
        by (simp add: get dict_get_dependency_graph dict_get_map_values dict_has_def)
    qed
  qed
  show ?thesis
    by (simp add: dependency_graph_for_resources_def run dependency_graph_from_edges_def eq dependency_graph_idem)
qed

definition resource_graph ::
  "dependency_kind \<Rightarrow> (address, 'r dep_resource_scheme) pydict \<Rightarrow> dep_graph" where
  "resource_graph kind rs = dependency_graph (map (\<lambda>(a, r). (a, dependencies_of kind r)) rs)"

lemma resource_graph_keys [simp]: "dict_keys (resource_graph kind rs) = dict_keys rs"
  by (simp add: resource_graph_def)

lemma resource_graph_valid: "valid_resources rs \<Longrightarrow> valid_graph (resource_graph kind rs)"
  by (simp add: valid_resources_def valid_graph_def wf_dict_def)

lemma deps_at_resource_graph:
  "dict_get rs n = Some r \<Longrightarrow>
     deps_at (resource_graph kind rs) n = filter (dict_has rs) (dependencies_of kind r)"
  unfolding resource_graph_def deps_at_dependency_graph
  by (simp add: deps_at_def dict_get_map_values)

lemma resource_graph_normal: "dependency_graph (resource_graph kind rs) = resource_graph kind rs"
  by (simp add: resource_graph_def dependency_graph_idem)

section \<open>Properties\<close>

text \<open>
  C1. For compiled resources with canonical addresses and acyclic ordering dependencies, the
  topological order exists, lists every resource exactly once, and puts every resource after
  each of its ordering dependencies that is itself a resource.
\<close>

theorem resource_topological_order_correct:
  fixes rs :: "(address, 'r dep_resource_scheme) pydict"
  assumes "valid_resources rs" and "acyclic (dep_rel (resource_graph ORDERING rs))"
  shows "\<exists>order. resource_topological_order rs = Inr order \<and> distinct order \<and>
    set order = set (dict_keys rs) \<and>
    (\<forall>ys n zs r. order = ys @ n # zs \<longrightarrow> dict_get rs n = Some r \<longrightarrow>
       (\<forall>d \<in> set (ordering_dependencies r). dict_has rs d \<longrightarrow> d \<in> set ys))"
proof -
  from topological_acyclic_run [OF resource_graph_valid [OF assms(1)] assms(2)] obtain order where
    run: "topological_dependency_order (resource_graph ORDERING rs) = Inr order" "distinct order"
      "set order = set (dict_keys rs)" and sorted: "topo_sorted (resource_graph ORDERING rs) order"
    by (auto simp: resource_graph_normal)
  have "resource_topological_order rs = Inr order"
    using run(1) graph_for_resources [OF assms(1), of ORDERING]
    by (simp add: resource_topological_order_def resource_graph_def)
  with run sorted show ?thesis
    by (fastforce simp: topo_sorted_def deps_at_resource_graph dependencies_of_def)
qed

text \<open>
  Deletion is safe: in the delete order of acyclic resources every resource comes before
  each of its ordering dependencies, so nothing is deleted while a resource that needs it is
  still there.
\<close>

lemma resource_delete_order_safe:
  fixes rs :: "(address, 'r dep_resource_scheme) pydict"
  assumes "valid_resources rs" and "acyclic (dep_rel (resource_graph ORDERING rs))"
  shows "\<exists>order. resource_delete_order rs = Inr order \<and> distinct order \<and>
    set order = set (dict_keys rs) \<and>
    (\<forall>ys n zs r. order = ys @ n # zs \<longrightarrow> dict_get rs n = Some r \<longrightarrow>
       (\<forall>d \<in> set (ordering_dependencies r). dict_has rs d \<longrightarrow> d \<in> set zs))"
proof -
  from topological_acyclic_run [OF resource_graph_valid [OF assms(1)] assms(2)] obtain order where
    run: "topological_dependency_order (resource_graph ORDERING rs) = Inr order" "distinct order"
      "set order = set (dict_keys rs)" and sorted: "topo_sorted (resource_graph ORDERING rs) order"
    by (auto simp: resource_graph_normal)
  have del: "resource_delete_order rs = Inr (rev order)"
    using run(1) graph_for_resources [OF assms(1), of ORDERING]
    by (simp add: resource_delete_order_def resource_topological_order_def resource_graph_def)
  have "set (deps_at (resource_graph ORDERING rs) n) \<subseteq> set zs" if "rev order = ys @ n # zs" for ys n zs
  proof -
    from that have "order = rev zs @ n # rev ys"
      by (metis append_assoc append_Cons append_Nil rev.simps(2) rev_append rev_rev_ident)
    with sorted show ?thesis by (fastforce simp: topo_sorted_def)
  qed
  with del run show ?thesis
    by (fastforce simp: deps_at_resource_graph dependencies_of_def)
qed

text \<open>
  The order is total on cyclic graphs too: whatever the dependencies, every resource is
  listed exactly once, so planning never loses a resource to a cycle; the prefix before the
  residual nodes still respects the dependencies, and every residual node depends on another
  residual node.
\<close>

lemma resource_topological_order_total:
  fixes rs :: "(address, 'r dep_resource_scheme) pydict"
  assumes "valid_resources rs"
  shows "\<exists>prefix rest. resource_topological_order rs = Inr (prefix @ rest) \<and>
    distinct (prefix @ rest) \<and> set (prefix @ rest) = set (dict_keys rs) \<and>
    topo_sorted (resource_graph ORDERING rs) prefix \<and> sorted rest \<and>
    (\<forall>n \<in> set rest. \<exists>d \<in> set rest. (d, n) \<in> dep_rel (resource_graph ORDERING rs))"
proof -
  from topological_run [OF resource_graph_valid [OF assms, of ORDERING]] obtain prefix rest where
    run: "topological_dependency_order (resource_graph ORDERING rs) = Inr (prefix @ rest)"
    "distinct (prefix @ rest)" "set (prefix @ rest) = set (dict_keys rs)"
    "topo_sorted (resource_graph ORDERING rs) prefix" "sorted rest"
    "\<forall>n \<in> set rest. \<exists>d \<in> set rest. (d, n) \<in> dep_rel (resource_graph ORDERING rs)"
    by (metis resource_graph_normal resource_graph_keys)
  then have "resource_topological_order rs = Inr (prefix @ rest)"
    using graph_for_resources [OF assms, of ORDERING]
    by (simp add: resource_topological_order_def resource_graph_def)
  with run show ?thesis by blast
qed

section \<open>Witnesses\<close>

text \<open>A host on a network: two resources, one ordering dependency.\<close>

definition demo_resources :: "(address, dep_resource) pydict" where
  "demo_resources =
     [(''provision.web'', \<lparr>ordering_dependencies = [''provision.net''], refresh_dependencies = [''provision.net'']\<rparr>),
      (''provision.net'', \<lparr>ordering_dependencies = [], refresh_dependencies = []\<rparr>)]"

lemma demo_resources_valid: "valid_resources demo_resources"
  by code_simp

lemma demo_order: "resource_topological_order demo_resources = Inr [''provision.net'', ''provision.web'']"
  by code_simp

lemma demo_acyclic: "acyclic (dep_rel (resource_graph ORDERING demo_resources))"
proof (rule acyclicI_order [where f = "\<lambda>x. if x = ''provision.net'' then 1 else (0 :: nat)"])
  fix a b assume "(a, b) \<in> dep_rel (resource_graph ORDERING demo_resources)"
  then show "(if b = ''provision.net'' then 1 else 0) < (if a = ''provision.net'' then 1 else (0 :: nat))"
    by (auto simp: dep_rel_def deps_at_def demo_resources_def resource_graph_def dependency_graph_def
        dependencies_of_def dict_get_def dict_has_def dict_keys_def split: if_splits)
qed

theorem resource_topological_order_correct_witness:
  "\<exists>order. resource_topological_order demo_resources = Inr order \<and> distinct order \<and>
    set order = {''provision.web'', ''provision.net''}"
  using resource_topological_order_correct [OF demo_resources_valid demo_acyclic]
  by (auto simp: demo_resources_def dict_keys_def)

lemma resource_delete_order_safe_witness:
  "\<exists>order. resource_delete_order demo_resources = Inr order \<and> distinct order \<and>
    set order = {''provision.web'', ''provision.net''}"
  using resource_delete_order_safe [OF demo_resources_valid demo_acyclic]
  by (auto simp: demo_resources_def dict_keys_def)

lemma resource_topological_order_total_witness:
  "\<exists>order. resource_topological_order demo_resources = Inr order \<and>
    set order = {''provision.web'', ''provision.net''}"
  using resource_topological_order_total [OF demo_resources_valid]
  by (auto simp: demo_resources_def dict_keys_def)

end
