(* ===== verification/Dep_Refresh.thy ===== *)
theory Dep_Refresh
  imports Dep_Order
begin

text \<open>
  Correctness of the refresh propagation and of the reconciliation of \<open>Dep_Graph\<close>. The queue
  loop is an instance of \<open>worklist_search\<close>: what it marks as impacted is exactly what is
  reachable from the changed resources along refresh dependencies, without the changed ones.
  From that follows the complete specification of the reconciliation, one action per address.
\<close>

section \<open>The dependents table\<close>

lemma dependents_at_foldl:
  "dependents_at (foldl push_dependent m ps) d = dependents_at m d @ dependents_in ps d"
proof (induction ps arbitrary: m)
  case Nil
  show ?case by (simp add: dependents_in_def)
next
  case (Cons p ps)
  obtain a e where p: "p = (a, e)" by (cases p)
  have "dependents_at (push_dependent m p) d = dependents_at m d @ (if e = d then [a] else [])"
    by (simp add: p push_dependent_def dependents_at_def split: option.splits)
  with Cons.IH [of "push_dependent m p"] p show ?case by (simp add: dependents_in_def)
qed

lemma dependents_at_refresh:
  "dependents_at (refresh_dependents g) d = dependents_in (graph_pairs g) d"
  by (simp add: refresh_dependents_def dependents_at_foldl)
    (simp add: dependents_at_def dict_get_const split: option.splits)

lemma set_dependents_in: "n \<in> set (dependents_in ps d) \<longleftrightarrow> (n, d) \<in> set ps"
  by (force simp: dependents_in_def)

definition refresh_edges :: "(address, 'r dep_resource_scheme) pydict \<Rightarrow> address \<Rightarrow> address set" where
  "refresh_edges rs d =
     {n. dict_has rs d \<and> (\<exists>r. dict_get rs n = Some r \<and> d \<in> set (refresh_dependencies r))}"

lemma dependents_at_resources:
  assumes "valid_resources rs"
  shows "set (dependents_at (refresh_dependents (resource_graph REFRESH rs)) d) = refresh_edges rs d"
proof -
  let ?g = "resource_graph REFRESH rs"
  have wf: "wf_dict ?g" using resource_graph_valid [OF assms] by (simp add: valid_graph_def)
  have "set (dependents_in (graph_pairs ?g) d) = {n. d \<in> set (deps_at ?g n)}"
    by (auto simp: set_dependents_in graph_pairs_snd [OF wf])
  also have "\<dots> = refresh_edges rs d"
  proof (rule set_eqI)
    fix n
    show "n \<in> {n. d \<in> set (deps_at ?g n)} \<longleftrightarrow> n \<in> refresh_edges rs d"
    proof (cases "dict_get rs n")
      case None
      then have "dict_get ?g n = None"
        by (simp add: dict_get_None_iff dict_has_def)
      with None show ?thesis by (simp add: deps_at_def refresh_edges_def)
    next
      case (Some r)
      with deps_at_resource_graph [OF Some, of REFRESH] show ?thesis
        by (auto simp: refresh_edges_def dependencies_of_def)
    qed
  qed
  finally show ?thesis by (simp add: dependents_at_refresh)
qed

section \<open>The queue loop explores the refresh graph\<close>

definition refresh_step ::
  "dep_graph \<Rightarrow> address list \<Rightarrow> address list \<times> address list \<Rightarrow> address list \<times> address list \<Rightarrow> bool" where
  "refresh_step dpt changed s t \<longleftrightarrow>
     (\<exists>d q impacted. s = (d # q, impacted) \<and> distinct (d # q) \<and>
        set (d # q) \<subseteq> set changed \<union> set impacted \<and>
        t = impact_dependents changed (sort (dependents_at dpt d)) q impacted)"

definition refresh_expanded :: "address list \<Rightarrow> address list \<times> address list \<Rightarrow> address set" where
  "refresh_expanded changed s = set changed \<union> set (snd s) - set (fst s)"

definition refresh_pending :: "address list \<times> address list \<Rightarrow> address set" where
  "refresh_pending s = set (fst s)"

lemma refresh_step_shape:
  assumes "refresh_step dpt changed s t"
  obtains d q impacted new where "s = (d # q, impacted)" and "t = (q @ new, impacted @ new)"
    and "distinct new" and "set new = set (dependents_at dpt d) - set changed - set impacted"
    and "d \<in> set changed \<union> set impacted" and "d \<notin> set q" and "distinct q"
    and "set q \<subseteq> set changed \<union> set impacted"
proof -
  from assms obtain d q impacted where s: "s = (d # q, impacted)" "distinct (d # q)"
    "set (d # q) \<subseteq> set changed \<union> set impacted"
    and t: "t = impact_dependents changed (sort (dependents_at dpt d)) q impacted"
    by (auto simp: refresh_step_def)
  obtain q' impacted' where t': "t = (q', impacted')" by (cases t)
  with t have run: "impact_dependents changed (sort (dependents_at dpt d)) q impacted = (q', impacted')"
    by simp
  from impact_dependents_props [OF run] obtain new where "q' = q @ new" "impacted' = impacted @ new"
    "distinct new" "set new = set (dependents_at dpt d) - set changed - set impacted" by auto
  with s t' that show thesis by auto
qed

interpretation refresh: worklist_search "refresh_step dpt changed" "refresh_expanded changed"
  refresh_pending "\<lambda>d. set (dependents_at dpt d)" for dpt changed
proof unfold_locales
  fix s t
  assume "refresh_step dpt changed s t"
  then show "refresh_expanded changed s \<subseteq> refresh_expanded changed t"
    by (elim refresh_step_shape) (auto simp: refresh_expanded_def)
next
  fix s t
  assume "refresh_step dpt changed s t"
  then show "refresh_expanded changed t \<subseteq> refresh_expanded changed s \<union> refresh_pending s"
    by (elim refresh_step_shape) (auto simp: refresh_expanded_def refresh_pending_def)
next
  fix s t
  assume "refresh_step dpt changed s t"
  then show "refresh_expanded changed s \<union> refresh_pending s \<subseteq> refresh_expanded changed t \<union> refresh_pending t"
    by (elim refresh_step_shape) (auto simp: refresh_expanded_def refresh_pending_def)
next
  fix s t y
  assume "refresh_step dpt changed s t" and "y \<in> refresh_expanded changed t - refresh_expanded changed s"
  then show "set (dependents_at dpt y) \<subseteq> refresh_expanded changed t \<union> refresh_pending t"
    by (elim refresh_step_shape) (auto simp: refresh_expanded_def refresh_pending_def)
next
  fix s t
  assume "refresh_step dpt changed s t"
  then show "refresh_pending t \<subseteq> refresh_expanded changed s \<union> refresh_pending s \<union>
      (\<Union>y \<in> refresh_expanded changed t - refresh_expanded changed s. set (dependents_at dpt y))"
  proof (elim refresh_step_shape)
    fix d q impacted new
    assume st: "s = (d # q, impacted)" "t = (q @ new, impacted @ new)"
      and new: "set new = set (dependents_at dpt d) - set changed - set impacted"
      and d: "d \<in> set changed \<union> set impacted" "d \<notin> set q"
    have "d \<in> refresh_expanded changed t - refresh_expanded changed s"
      using st new d by (auto simp: refresh_expanded_def)
    moreover have "set new \<subseteq> set (dependents_at dpt d)" using new by blast
    ultimately show ?thesis using st by (auto simp: refresh_pending_def)
  qed
qed

lemma refresh_loop_run:
  assumes "\<forall>n \<in> dpt_nodes dpt. compiled_address n"
    and "distinct q" and "set q \<subseteq> set changed \<union> set impacted"
  shows "\<exists>impacted'. refresh_loop dpt changed q impacted = Inr impacted' \<and>
    (refresh_step dpt changed)\<^sup>*\<^sup>* (q, impacted) ([], impacted') \<and>
    (distinct impacted \<longrightarrow> set impacted \<inter> set changed = {} \<longrightarrow>
       distinct impacted' \<and> set impacted' \<inter> set changed = {})"
  using assms
proof (induction dpt changed q impacted rule: refresh_loop.induct)
  case (1 dpt changed impacted)
  then show ?case by auto
next
  case (2 dpt changed d q impacted)
  let ?ds = "sort (dependents_at dpt d)"
  have sorted: "sort_by_identity (dependents_at dpt d) = Inr ?ds"
    using "2.prems"(1) dependents_at_subset [of dpt d] by (intro sort_by_identity_ok) blast
  obtain q' impacted' where run: "impact_dependents changed ?ds q impacted = (q', impacted')"
    by (cases "impact_dependents changed ?ds q impacted")
  from impact_dependents_props [OF run] obtain new where new: "q' = q @ new" "impacted' = impacted @ new"
    "distinct new" "set new = set ?ds - set changed - set impacted" by blast
  have "distinct q'" "set q' \<subseteq> set changed \<union> set impacted'"
    using new "2.prems"(2,3) by auto
  from "2.IH" [OF sorted run [symmetric] "2.prems"(1) this] obtain final where
    final: "refresh_loop dpt changed q' impacted' = Inr final"
    "(refresh_step dpt changed)\<^sup>*\<^sup>* (q', impacted') ([], final)"
    "distinct impacted' \<longrightarrow> set impacted' \<inter> set changed = {} \<longrightarrow>
       distinct final \<and> set final \<inter> set changed = {}" by blast
  have "refresh_step dpt changed (d # q, impacted) (q', impacted')"
    using "2.prems"(2,3) run by (auto simp: refresh_step_def)
  then have "(refresh_step dpt changed)\<^sup>*\<^sup>* (d # q, impacted) ([], final)"
    using final(2) by (rule converse_rtranclp_into_rtranclp)
  moreover have "distinct impacted' \<and> set impacted' \<inter> set changed = {}"
    if "distinct impacted" "set impacted \<inter> set changed = {}"
    using that new by auto
  ultimately show ?case using final(1,3) sorted run by auto
qed

lemma refresh_loop_reach:
  assumes "\<forall>n \<in> dpt_nodes dpt. compiled_address n" and "distinct changed"
  shows "\<exists>impacted. refresh_loop dpt changed (sort changed) [] = Inr impacted \<and>
    set impacted = reach_set (\<lambda>d. set (dependents_at dpt d)) (set changed) - set changed"
proof -
  from refresh_loop_run [OF assms(1), of "sort changed" changed "[]"] assms(2) obtain impacted where
    run: "refresh_loop dpt changed (sort changed) [] = Inr impacted"
    "(refresh_step dpt changed)\<^sup>*\<^sup>* (sort changed, []) ([], impacted)"
    and disj: "set impacted \<inter> set changed = {}" by auto
  have "refresh_expanded changed ([], impacted) =
      reach_set (\<lambda>d. set (dependents_at dpt d)) (set changed)"
    by (rule refresh.run_reaches [OF run(2)]) (simp_all add: refresh_expanded_def refresh_pending_def)
  with run(1) disj show ?thesis by (auto simp: refresh_expanded_def)
qed

lemma wf_push_dependents: "wf_dict m \<Longrightarrow> wf_dict (foldl push_dependent m ps)"
  by (induction ps arbitrary: m) (auto simp: push_dependent_def split: prod.splits)

lemma dpt_nodes_wf:
  assumes "wf_dict dpt"
  shows "dpt_nodes dpt = (\<Union>d. set (dependents_at dpt d))"
proof
  show "dpt_nodes dpt \<subseteq> (\<Union>d. set (dependents_at dpt d))"
  proof
    fix n assume "n \<in> dpt_nodes dpt"
    then obtain d ns where "(d, ns) \<in> set dpt" "n \<in> set ns" by (auto simp: dpt_nodes_def)
    then have "n \<in> set (dependents_at dpt d)"
      using dict_get_eq_Some [OF assms, of d ns] by (simp add: dependents_at_def)
    then show "n \<in> (\<Union>d. set (dependents_at dpt d))" by blast
  qed
  show "(\<Union>d. set (dependents_at dpt d)) \<subseteq> dpt_nodes dpt"
    using dependents_at_subset by blast
qed

lemma dpt_nodes_resources:
  assumes "valid_resources rs"
  shows "\<forall>n \<in> dpt_nodes (refresh_dependents (resource_graph REFRESH rs)). compiled_address n"
proof -
  let ?g = "resource_graph REFRESH rs"
  have "wf_dict (map (\<lambda>a. (a, [] :: address list)) (dict_keys ?g))"
    using assms by (simp add: wf_dict_def dict_keys_const valid_resources_def)
  then have "wf_dict (refresh_dependents ?g)"
    unfolding refresh_dependents_def by (rule wf_push_dependents)
  then have "dpt_nodes (refresh_dependents ?g) \<subseteq> fst ` set (graph_pairs ?g)"
    by (force simp: dpt_nodes_wf dependents_at_refresh set_dependents_in)
  also have "\<dots> \<subseteq> set (dict_keys rs)"
    using graph_pairs_fst [of ?g] by simp
  finally show ?thesis using assms by (auto simp: valid_resources_def)
qed

section \<open>The impacted resources\<close>

lemma refresh_impacted_run:
  fixes rs :: "(address, 'r dep_resource_scheme) pydict"
  assumes "valid_resources rs" and "\<forall>a \<in> set changed. compiled_address a"
  shows "\<exists>impacted. refresh_impacted_nodes rs changed = Inr impacted \<and> distinct impacted \<and>
    set impacted = reach_set (refresh_edges rs) (set changed) - set changed"
proof -
  let ?g = "resource_graph REFRESH rs"
  let ?dpt = "refresh_dependents ?g"
  have edges: "(\<lambda>d. set (dependents_at ?dpt d)) = refresh_edges rs"
    using dependents_at_resources [OF assms(1)] by (simp add: fun_eq_iff)
  from refresh_loop_reach [OF dpt_nodes_resources [OF assms(1)], of "fromkeys changed"]
  obtain impacted where loop: "refresh_loop ?dpt (fromkeys changed) (sort (fromkeys changed)) [] = Inr impacted"
    and imp: "set impacted = reach_set (refresh_edges rs) (set changed) - set changed"
    by (auto simp: edges)
  from topological_run [OF resource_graph_valid [OF assms(1), of REFRESH]] obtain prefix rest where
    topo: "topological_dependency_order ?g = Inr (prefix @ rest)" "distinct (prefix @ rest)"
    "set (prefix @ rest) = set (dict_keys rs)" by (metis resource_graph_keys)
  have "sort_by_identity (fromkeys changed) = Inr (sort (fromkeys changed))"
    using assms(2) by (intro sort_by_identity_ok) simp
  then have run: "refresh_impacted_nodes rs changed =
      Inr (filter (\<lambda>a. a \<in> set impacted) (prefix @ rest))"
    using graph_for_resources [OF assms(1), of REFRESH] loop topo(1)
    by (simp add: refresh_impacted_nodes_def Let_def resource_graph_def)
  have "reach_set (refresh_edges rs) (set changed) \<subseteq> set changed \<union> set (dict_keys rs)"
    by (rule reach_set_least) (auto simp: refresh_edges_def dict_has_def dest: dict_get_Some_has)
  with imp topo(3) have "set (filter (\<lambda>a. a \<in> set impacted) (prefix @ rest)) = set impacted"
    by auto
  with run imp topo(2) show ?thesis
    by (intro exI [of _ "filter (\<lambda>a. a \<in> set impacted) (prefix @ rest)"]) auto
qed

section \<open>Reconciliation\<close>

lemma foldl_dict_set:
  "wf_dict rs \<Longrightarrow> dict_get (foldl (\<lambda>acts p. dict_set (fst p) (f (fst p) (snd p)) acts) acts rs) a =
     (case dict_get rs a of None \<Rightarrow> dict_get acts a | Some r \<Rightarrow> Some (f a r))"
proof (induction rs arbitrary: acts)
  case Nil
  show ?case by simp
next
  case (Cons p rs)
  obtain k v where p: "p = (k, v)" by (cases p)
  with Cons.prems have "wf_dict rs" "\<not> dict_has rs k" by (auto simp: wf_dict_Cons dict_has_def)
  then have "dict_get rs k = None" by (simp add: dict_get_None_iff)
  with Cons.IH [OF \<open>wf_dict rs\<close>] p show ?case
    by (auto simp: dict_get_Cons split: option.splits)
qed

lemma foldl_deletes:
  "dict_get (foldl (\<lambda>acts p. if dict_has rs (fst p) then acts else dict_set (fst p) DELETE acts) acts snap) a =
     (if dict_has snap a \<and> \<not> dict_has rs a then Some DELETE else dict_get acts a)"
  by (induction snap arbitrary: acts) (auto simp: dict_has_def dict_keys_def)

lemma wf_foldl_set: "wf_dict acts \<Longrightarrow> wf_dict (foldl (\<lambda>acts p. dict_set (k p) (f p) acts) acts xs)"
  by (induction xs arbitrary: acts) auto

lemma wf_foldl_del:
  "wf_dict acts \<Longrightarrow> wf_dict (foldl (\<lambda>acts p. if c p then acts else dict_set (k p) (f p) acts) acts xs)"
  by (induction xs arbitrary: acts) auto

lemma initial_actions_get:
  assumes "wf_dict rs"
  shows "dict_get (initial_actions matches rs snap) a =
    (case dict_get rs a of
       Some r \<Rightarrow> Some (initial_action matches snap a r)
     | None \<Rightarrow> if dict_has snap a then Some DELETE else None)"
  using dict_get_None_iff [of rs a] dict_get_Some_has [of rs a]
  by (auto simp: initial_actions_def foldl_deletes foldl_dict_set [OF assms] split: option.splits)

lemma wf_initial_actions: "wf_dict (initial_actions matches rs snap)"
  by (simp add: initial_actions_def wf_foldl_del wf_foldl_set)

lemma refresh_actions_run:
  assumes "\<forall>a \<in> set xs. dict_has acts a" and "wf_dict acts"
  shows "\<exists>acts'. res_fold refresh_action acts xs = Inr acts' \<and> wf_dict acts' \<and>
    (\<forall>a. dict_get acts' a =
       map_option (\<lambda>act. if a \<in> set xs \<and> act = UNCHANGED then UPDATE else act) (dict_get acts a))"
  using assms
proof (induction xs arbitrary: acts)
  case Nil
  then show ?case by (simp add: option.map_ident)
next
  case (Cons x xs)
  then obtain act where act: "dict_get acts x = Some act" by (auto dest: dict_has_get)
  let ?acts = "if act = UNCHANGED then dict_set x UPDATE acts else acts"
  have step: "refresh_action acts x = Inr ?acts"
    using act by (simp add: refresh_action_def dict_item_def)
  have "\<forall>a \<in> set xs. dict_has ?acts a" "wf_dict ?acts" using Cons.prems by auto
  from Cons.IH [OF this] obtain acts' where
    "res_fold refresh_action ?acts xs = Inr acts'" "wf_dict acts'"
    "\<And>a. dict_get acts' a =
       map_option (\<lambda>act. if a \<in> set xs \<and> act = UNCHANGED then UPDATE else act) (dict_get ?acts a)"
    by blast
  moreover have "map_option (\<lambda>act. if a \<in> set xs \<and> act = UNCHANGED then UPDATE else act) (dict_get ?acts a) =
      map_option (\<lambda>act. if a \<in> set (x # xs) \<and> act = UNCHANGED then UPDATE else act) (dict_get acts a)" for a
    using act by (cases "a = x") (auto split: option.splits)
  ultimately show ?case using step by simp
qed

text \<open>The addresses the code calls changed: planned resources that are created or updated.\<close>

definition changed_addresses ::
  "('s \<Rightarrow> 'r \<Rightarrow> bool) \<Rightarrow> (address, 'r) pydict \<Rightarrow> (address, 's) pydict \<Rightarrow> address set" where
  "changed_addresses matches rs snap =
     {a. \<exists>r. dict_get rs a = Some r \<and> initial_action matches snap a r \<noteq> UNCHANGED}"

lemma initial_action_not_delete: "initial_action matches snap a r \<noteq> DELETE"
  by (simp add: initial_action_def split: option.splits)

lemma changed_nodes_set:
  assumes "wf_dict rs"
  shows "set (map fst (filter (\<lambda>p. snd p = CREATE \<or> snd p = UPDATE) (initial_actions matches rs snap))) =
    changed_addresses matches rs snap"
proof -
  let ?acts = "initial_actions matches rs snap"
  have "a \<in> set (map fst (filter (\<lambda>p. snd p = CREATE \<or> snd p = UPDATE) ?acts)) \<longleftrightarrow>
      dict_get ?acts a = Some CREATE \<or> dict_get ?acts a = Some UPDATE" for a
    using dict_get_eq_Some [OF wf_initial_actions, of matches rs snap a] by force
  moreover have "dict_get ?acts a = Some CREATE \<or> dict_get ?acts a = Some UPDATE \<longleftrightarrow>
      a \<in> changed_addresses matches rs snap" for a
  proof (cases "dict_get rs a")
    case None
    then show ?thesis by (simp add: initial_actions_get [OF assms] changed_addresses_def)
  next
    case (Some r)
    then show ?thesis
      by (cases "initial_action matches snap a r")
        (simp_all add: initial_actions_get [OF assms] changed_addresses_def initial_action_not_delete)
  qed
  ultimately show ?thesis by (intro set_eqI) blast
qed

definition planned_dependencies ::
  "('r \<Rightarrow> 'd dep_resource_scheme) \<Rightarrow> (address, 'r) pydict \<Rightarrow> (address, 'd dep_resource_scheme) pydict" where
  "planned_dependencies deps rs = map (\<lambda>p. (fst p, deps (snd p))) rs"

definition expected_action ::
  "('r \<Rightarrow> 'd dep_resource_scheme) \<Rightarrow> ('s \<Rightarrow> 'r \<Rightarrow> bool) \<Rightarrow>
     (address, 'r) pydict \<Rightarrow> (address, 's) pydict \<Rightarrow> address \<Rightarrow> reconciliation_action option" where
  "expected_action deps matches rs snap a =
     (case dict_get rs a of
        None \<Rightarrow> if dict_has snap a then Some DELETE else None
      | Some r \<Rightarrow>
          if initial_action matches snap a r = UNCHANGED \<and>
             a \<in> reach_set (refresh_edges (planned_dependencies deps rs))
                   (changed_addresses matches rs snap)
          then Some UPDATE
          else Some (initial_action matches snap a r))"

lemma reconcile_run:
  fixes deps :: "'r \<Rightarrow> 'd dep_resource_scheme"
  assumes "valid_resources rs"
  shows "\<exists>actions. reconcile_resource_actions deps matches rs snap =
      Inr (actions, filter (\<lambda>p. \<not> dict_has rs (fst p)) snap) \<and>
    wf_dict actions \<and> (\<forall>a. dict_get actions a = expected_action deps matches rs snap a)"
proof -
  let ?acts = "initial_actions matches rs snap"
  let ?changed = "map fst (filter (\<lambda>p. snd p = CREATE \<or> snd p = UPDATE) ?acts)"
  let ?deps = "planned_dependencies deps rs"
  have wf: "wf_dict rs" using assms by (simp add: valid_resources_def)
  have keys: "dict_keys ?deps = dict_keys rs" by (simp add: planned_dependencies_def dict_keys_def)
  have vdeps: "valid_resources ?deps"
    using assms by (simp add: valid_resources_def wf_dict_def keys)
  have ch: "set ?changed = changed_addresses matches rs snap" by (rule changed_nodes_set [OF wf])
  have sub: "changed_addresses matches rs snap \<subseteq> set (dict_keys rs)"
    by (auto simp: changed_addresses_def dict_has_def dest: dict_get_Some_has)
  have "\<forall>a \<in> set ?changed. compiled_address a"
    using sub ch assms by (auto simp: valid_resources_def)
  from refresh_impacted_run [OF vdeps this] obtain impacted where
    imp: "refresh_impacted_nodes ?deps ?changed = Inr impacted"
    "set impacted = reach_set (refresh_edges ?deps) (changed_addresses matches rs snap) -
      changed_addresses matches rs snap" unfolding ch by blast
  have reach: "reach_set (refresh_edges ?deps) (changed_addresses matches rs snap) \<subseteq> set (dict_keys rs)"
    by (rule reach_set_least [OF sub])
      (auto simp: refresh_edges_def keys [symmetric] dict_has_def dest: dict_get_Some_has)
  have get: "dict_get ?acts a =
      (case dict_get rs a of
         Some r \<Rightarrow> Some (initial_action matches snap a r)
       | None \<Rightarrow> if dict_has snap a then Some DELETE else None)" for a
    by (rule initial_actions_get [OF wf])
  have "\<forall>a \<in> set impacted. dict_has ?acts a"
  proof
    fix a assume "a \<in> set impacted"
    then have "dict_has rs a" using imp(2) reach by (auto simp: dict_has_def)
    then have "dict_get ?acts a \<noteq> None" by (auto simp: get dest: dict_has_get)
    then show "dict_has ?acts a" by (simp add: dict_get_None_iff)
  qed
  from refresh_actions_run [OF this wf_initial_actions] obtain acts' where
    fin: "res_fold refresh_action ?acts impacted = Inr acts'" "wf_dict acts'"
    "\<And>a. dict_get acts' a = map_option (\<lambda>act. if a \<in> set impacted \<and> act = UNCHANGED then UPDATE else act)
       (dict_get ?acts a)" by blast
  have "dict_get acts' a = expected_action deps matches rs snap a" for a
  proof (cases "dict_get rs a")
    case None
    then show ?thesis by (simp add: fin(3) get expected_action_def)
  next
    case (Some r)
    then have "a \<in> changed_addresses matches rs snap \<longleftrightarrow> initial_action matches snap a r \<noteq> UNCHANGED"
      by (simp add: changed_addresses_def)
    with Some imp(2) show ?thesis by (simp add: fin(3) get expected_action_def)
  qed
  with fin(1,2) imp(1) show ?thesis
    by (auto simp: reconcile_resource_actions_def Let_def planned_dependencies_def)
qed

text \<open>
  C2. Reconciliation is complete and exact. Every planned resource gets one action and every
  snapshot entry that is no longer planned gets \<open>DELETE\<close>; a planned resource without an entry
  is created, one that does not match is updated, and a matching one is updated if and only if
  it depends for its refresh, directly or through other resources, on a resource that is created
  or updated. Exactly the entries to be deleted are returned, in snapshot order.
\<close>

theorem reconcile_resource_actions_spec:
  fixes deps :: "'r \<Rightarrow> 'd dep_resource_scheme"
  assumes "valid_resources rs"
  shows "\<exists>actions. reconcile_resource_actions deps matches rs snap =
      Inr (actions, filter (\<lambda>p. \<not> dict_has rs (fst p)) snap) \<and>
    wf_dict actions \<and> (\<forall>a. dict_get actions a = expected_action deps matches rs snap a)"
  by (rule reconcile_run [OF assms])

section \<open>Witnesses\<close>

text \<open>
  A snapshot holding the two resources of \<open>demo_resources\<close> and a stale one; the network no
  longer matches, so the web host, which matches but refreshes with its network, is updated too.
\<close>

definition demo_snapshot :: "(address, bool) pydict" where
  "demo_snapshot = [(''provision.old'', True), (''provision.net'', False), (''provision.web'', True)]"

lemma demo_reconcile:
  "reconcile_resource_actions (\<lambda>r. r) (\<lambda>e _. e) demo_resources demo_snapshot =
     Inr ([(''provision.web'', UPDATE), (''provision.net'', UPDATE), (''provision.old'', DELETE)],
          [(''provision.old'', True)])"
  by code_simp

theorem reconcile_resource_actions_spec_witness:
  "\<exists>actions. reconcile_resource_actions (\<lambda>r. r) (\<lambda>e _. e) demo_resources demo_snapshot =
     Inr (actions, [(''provision.old'', True)]) \<and> wf_dict actions"
  using reconcile_resource_actions_spec [OF demo_resources_valid, of "\<lambda>r. r" "\<lambda>e _. e" demo_snapshot]
  by (auto simp: demo_reconcile)

end
