(* ===== verification/Py_Values.thy ===== *)
theory Py_Values
  imports Py_Prelude "HOL-Library.Word"
begin

text \<open>
  Untyped Python values, as they occur in the payloads the contracts carry along: what a JSON
  document decodes to. A \<open>float\<close> is its IEEE 754 bit pattern; the code modelled here only asks
  for its truth value. Strings are lists of the 256 characters of HOL, so the model covers
  text in the Latin-1 range.
\<close>

datatype py_value =
    PyNone
  | PyBool bool
  | PyInt int
  | PyFloat "64 word"
  | PyStr string
  | PyList "py_value list"
  | PyDict "(string \<times> py_value) list"

text \<open>\<open>isinstance(value, Mapping)\<close>, \<open>isinstance(value, str)\<close>, \<open>value.get(key)\<close> and \<open>bool(value)\<close>.\<close>

fun py_mapping :: "py_value \<Rightarrow> (string, py_value) pydict option" where
  "py_mapping (PyDict d) = Some d"
| "py_mapping _ = None"

definition py_get :: "(string, py_value) pydict \<Rightarrow> string \<Rightarrow> py_value" where
  "py_get d k = (case dict_get d k of None \<Rightarrow> PyNone | Some v \<Rightarrow> v)"

fun py_truthy :: "py_value \<Rightarrow> bool" where
  "py_truthy PyNone = False"
| "py_truthy (PyBool b) = b"
| "py_truthy (PyInt i) = (i \<noteq> 0)"
| "py_truthy (PyFloat w) = (w \<noteq> 0 \<and> w \<noteq> 0x8000000000000000)"
| "py_truthy (PyStr s) = (s \<noteq> [])"
| "py_truthy (PyList xs) = (xs \<noteq> [])"
| "py_truthy (PyDict d) = (d \<noteq> [])"

definition py_or :: "py_value \<Rightarrow> py_value \<Rightarrow> py_value" where
  "py_or v w = (if py_truthy v then v else w)"

section \<open>Text\<close>

definition starts_with :: "string \<Rightarrow> string \<Rightarrow> bool" where
  "starts_with p s \<longleftrightarrow> take (length p) s = p"

text \<open>\<open>s.strip()\<close> on the Latin-1 range: the characters \<open>str.isspace\<close> accepts there.\<close>

definition py_space :: "char \<Rightarrow> bool" where
  "py_space c \<longleftrightarrow>
     (let n = of_char c :: nat in
      (9 \<le> n \<and> n \<le> 13) \<or> (28 \<le> n \<and> n \<le> 32) \<or> n = 133 \<or> n = 160)"

definition py_strip :: "string \<Rightarrow> string" where
  "py_strip s = rev (dropWhile py_space (rev (dropWhile py_space s)))"

definition is_lower_hex :: "char \<Rightarrow> bool" where
  "is_lower_hex c \<longleftrightarrow> c \<in> set ''0123456789abcdef''"

text \<open>The regular expression \<open>sha256:[a-f0-9]{64}\<close>, matched in full.\<close>

definition is_sha256_digest :: "string \<Rightarrow> bool" where
  "is_sha256_digest s \<longleftrightarrow>
     take 7 s = ''sha256:'' \<and> length (drop 7 s) = 64 \<and> list_all is_lower_hex (drop 7 s)"

lemma starts_with_append [simp]: "starts_with p (p @ s)"
  by (simp add: starts_with_def)

lemma starts_withE: "starts_with p s \<Longrightarrow> \<exists>t. s = p @ t"
  unfolding starts_with_def by (metis append_take_drop_id)

lemma py_strip_Nil: "py_strip s = [] \<longleftrightarrow> list_all py_space s"
proof
  assume "py_strip s = []"
  then have "list_all py_space (rev (dropWhile py_space s))"
    by (simp add: py_strip_def dropWhile_eq_Nil_conv list_all_iff)
  then have "\<forall>c \<in> set (dropWhile py_space s). py_space c" by (simp add: list_all_iff)
  then have "dropWhile py_space s = []"
    by (metis hd_dropWhile hd_in_set)
  then show "list_all py_space s" by (simp add: dropWhile_eq_Nil_conv list_all_iff)
next
  assume "list_all py_space s"
  then have "dropWhile py_space s = []" by (simp add: dropWhile_eq_Nil_conv list_all_iff)
  then show "py_strip s = []" by (simp only: py_strip_def rev.simps dropWhile.simps)
qed

end
