(* ===== verification/Plan_Contracts.thy ===== *)
theory Plan_Contracts
  imports Dep_Graph Py_Values
begin

text \<open>
  The planning contracts, \<open>raes_contracts/planning.py\<close>, \<open>raes_contracts/_planning_validation.py\<close>
  and \<open>raes_contracts/compute_substrate.py\<close>: runtime domains, planned resources, operations,
  realization authority and the three plans, with the checks their constructors run.
  A constructor whose \<open>__post_init__\<close> raises is a \<open>check_\<dots>\<close> or \<open>make_\<dots>\<close> definition
  returning \<open>res\<close>. The members the planner only carries along (profile bindings, observation
  demands, structures, documents) are type parameters.
\<close>

section \<open>Domains and identities\<close>

datatype runtime_domain = PROVISIONING | ORCHESTRATION | EVALUATION | PARTICIPANT

fun plan_address_root :: "runtime_domain \<Rightarrow> string option" where
  "plan_address_root PROVISIONING = Some ''provision''"
| "plan_address_root ORCHESTRATION = Some ''orchestration''"
| "plan_address_root EVALUATION = Some ''evaluation''"
| "plan_address_root PARTICIPANT = None"

fun plan_resource_types :: "runtime_domain \<Rightarrow> string list option" where
  "plan_resource_types PROVISIONING = Some
     [''network'', ''node'', ''feature-binding'', ''content-placement'', ''account-placement'',
      ''domain-controller-placement'', ''generated-artifact'', ''persistent-volume'']"
| "plan_resource_types ORCHESTRATION =
     Some [''inject-binding'', ''inject'', ''event'', ''script'', ''story'', ''workflow'']"
| "plan_resource_types EVALUATION =
     Some [''condition-binding'', ''proposition'', ''assertion'', ''objective'']"
| "plan_resource_types PARTICIPANT = None"

definition require_plan_operation_identity :: "runtime_domain \<Rightarrow> address \<Rightarrow> string \<Rightarrow> unit res" where
  "require_plan_operation_identity domain a rtype =
     res_bind (require_compiled_address ''address'' a) (\<lambda>canonical.
       (case plan_address_root domain of
          None \<Rightarrow> Inl (ValueError ''Plan operation address must belong to its runtime domain'')
        | Some root \<Rightarrow>
            if \<not> starts_with (root @ ''.'') canonical
            then Inl (ValueError ''Plan operation address must belong to its runtime domain'')
            else (case plan_resource_types domain of
                    None \<Rightarrow> Inl (ValueError ''Plan operation resource_type must belong to its runtime domain'')
                  | Some types \<Rightarrow>
                      require_that (rtype \<in> set types)
                        (ValueError ''Plan operation resource_type must belong to its runtime domain''))))"

section \<open>Resources, snapshot entries and operations\<close>

record 'b planned_resource = dep_resource +
  pr_address :: address
  pr_domain :: runtime_domain
  pr_type :: string
  pr_payload :: py_value
  pr_profile_bindings :: "'b list"

record 'b snapshot_entry = dep_resource +
  se_address :: address
  se_domain :: runtime_domain
  se_type :: string
  se_payload :: py_value
  se_status :: string
  se_profile_bindings :: "'b list"

record plan_operation =
  op_action :: reconciliation_action
  op_address :: address
  op_type :: string
  op_payload :: py_value
  op_ordering :: "address list"
  op_refresh :: "address list"

record 'b provision_op = plan_operation +
  op_profile_bindings :: "'b list"

text \<open>\<open>__post_init__\<close> of \<open>PlannedResource\<close>, \<open>SnapshotEntry\<close> and \<open>PlanOperation\<close>.\<close>

definition check_addressed :: "address \<Rightarrow> address list \<Rightarrow> address list \<Rightarrow> unit res" where
  "check_addressed a ords refs =
     res_bind (require_compiled_address ''address'' a) (\<lambda>_.
       res_all (\<lambda>d. res_bind (require_compiled_address ''dependency address'' d) (\<lambda>_. Inr ()))
         (ords @ refs))"

definition make_planned_resource :: "'b planned_resource \<Rightarrow> 'b planned_resource res" where
  "make_planned_resource r =
     res_bind (check_addressed (pr_address r) (ordering_dependencies r) (refresh_dependencies r))
       (\<lambda>_. Inr r)"

definition make_operation :: "'r plan_operation_scheme \<Rightarrow> 'r plan_operation_scheme res" where
  "make_operation p =
     res_bind (check_addressed (op_address p) (op_ordering p) (op_refresh p)) (\<lambda>_. Inr p)"

definition actionable_operations :: "'r plan_operation_scheme list \<Rightarrow> 'r plan_operation_scheme list" where
  "actionable_operations = filter (\<lambda>p. op_action p \<noteq> UNCHANGED)"

section \<open>Readers of a planned resource\<close>

definition planned_resource_payload :: "'b planned_resource \<Rightarrow> (string, py_value) pydict option" where
  "planned_resource_payload r = py_mapping (pr_payload r)"

definition planned_resource_authored_name :: "'b planned_resource \<Rightarrow> string option" where
  "planned_resource_authored_name r =
     (case planned_resource_payload r of
        None \<Rightarrow> None
      | Some payload \<Rightarrow>
          (case py_or (py_get payload ''name'') (py_get payload ''node_name'') of
             PyStr name \<Rightarrow> if name \<noteq> [] then Some name else None
           | _ \<Rightarrow> None))"

definition planned_resource_name :: "'b planned_resource \<Rightarrow> string" where
  "planned_resource_name r =
     (case planned_resource_authored_name r of
        None \<Rightarrow> pr_address r
      | Some name \<Rightarrow> if name \<noteq> [] then name else pr_address r)"

text \<open>\<open>payload.get("spec")\<close> and the member below it, when every level is a mapping.\<close>

definition spec_member :: "'b planned_resource \<Rightarrow> string \<Rightarrow> (string, py_value) pydict option" where
  "spec_member r key =
     (case planned_resource_payload r of
        None \<Rightarrow> None
      | Some payload \<Rightarrow>
          (case py_mapping (py_get payload ''spec'') of
             None \<Rightarrow> None
           | Some spec \<Rightarrow> py_mapping (py_get spec key)))"

definition planned_node_spec :: "'b planned_resource \<Rightarrow> (string, py_value) pydict option" where
  "planned_node_spec r =
     (if pr_domain r \<noteq> PROVISIONING \<or> pr_type r \<noteq> ''node'' then None else spec_member r ''node'')"

definition planned_node_source :: "'b planned_resource \<Rightarrow> py_value option" where
  "planned_node_source r =
     (case planned_node_spec r of
        None \<Rightarrow> None
      | Some node \<Rightarrow>
          (case py_get node ''source'' of
             PyStr s \<Rightarrow> if s \<noteq> [] then Some (PyStr s) else None
           | PyDict d \<Rightarrow> Some (PyDict d)
           | _ \<Rightarrow> None))"

definition planned_node_resources :: "'b planned_resource \<Rightarrow> (string, py_value) pydict option" where
  "planned_node_resources r =
     (case planned_node_spec r of
        None \<Rightarrow> None
      | Some node \<Rightarrow> py_mapping (py_get node ''resources''))"

definition planned_infrastructure_spec :: "'b planned_resource \<Rightarrow> (string, py_value) pydict option" where
  "planned_infrastructure_spec r =
     (if pr_domain r \<noteq> PROVISIONING \<or> pr_type r \<notin> {''node'', ''network''} then None
      else spec_member r ''infrastructure'')"

section \<open>Realization authority\<close>

datatype realization_mode = CLOSED | OPEN | CONSTRAINED | EXACT

datatype realization_source =
    AUTHORED_LEAF
  | AUTHORED_SCOPE
  | APPARATUS_DEFAULT
  | LEGACY_DEFAULT
  | PROCESSOR_DERIVED

text \<open>The characters a JSON Pointer admits after its leading slash.\<close>

fun pointer_chars :: "string \<Rightarrow> bool" where
  "pointer_chars [] = True"
| "pointer_chars (c # cs) =
     (if c = CHR ''~''
      then (case cs of [] \<Rightarrow> False | d # ds \<Rightarrow> (d = CHR ''0'' \<or> d = CHR ''1'') \<and> pointer_chars ds)
      else pointer_chars cs)"

definition require_json_pointer :: "string \<Rightarrow> bool \<Rightarrow> string \<Rightarrow> unit res" where
  "require_json_pointer field allow_root s =
     require_that ((allow_root \<or> s \<noteq> []) \<and>
         (s = [] \<or> (hd s = CHR ''/'' \<and> pointer_chars s)))
       (ValueError (field @ '' must be a canonical RFC 6901 JSON Pointer''))"

record 'dom authority_bound =
  ab_value_pointer :: string
  ab_domain :: 'dom
  ab_identity_digest :: "string option"

definition check_authority_bound :: "'dom authority_bound \<Rightarrow> unit res" where
  "check_authority_bound b =
     res_bind (require_json_pointer ''authority bound value_pointer'' True (ab_value_pointer b)) (\<lambda>_.
       (case ab_identity_digest b of
          None \<Rightarrow> Inr ()
        | Some digest \<Rightarrow>
            require_that (is_sha256_digest digest)
              (ValueError ''authority bound identity_digest must be a sha256 digest'')))"

record ('dom, 'st, 'doc) realization_authority =
  ra_address :: address
  ra_field_path :: string
  ra_domain :: string
  ra_requirement_kind :: string
  ra_payload_pointer :: string
  ra_mode :: realization_mode
  ra_source :: realization_source
  ra_bounds :: "'dom authority_bound list"
  ra_structure :: "'st option"
  ra_constraint_document :: "'doc option"
  ra_constraint_binding :: "string option"

definition require_authority_bounds ::
  "realization_mode \<Rightarrow> 'dom authority_bound list \<Rightarrow> 'doc option \<Rightarrow> unit res" where
  "require_authority_bounds mode bounds doc =
     res_bind (require_that (\<not> (mode = CONSTRAINED \<and> bounds = [] \<and> doc = None))
         (ValueError ''constrained realization authority requires typed bounds'')) (\<lambda>_.
       require_that (\<not> (mode \<noteq> CONSTRAINED \<and> bounds \<noteq> []))
         (ValueError ''only constrained realization authority may carry typed bounds''))"

definition require_authority_source :: "realization_mode \<Rightarrow> realization_source \<Rightarrow> unit res" where
  "require_authority_source mode source =
     res_bind (require_that (\<not> (source = LEGACY_DEFAULT \<and> mode \<noteq> CLOSED))
         (ValueError ''legacy realization default must resolve closed'')) (\<lambda>_.
       require_that (\<not> (source = APPARATUS_DEFAULT \<and> mode \<notin> {CLOSED, OPEN}))
         (ValueError ''apparatus realization default must resolve open or closed''))"

definition check_realization_authority :: "('dom, 'st, 'doc) realization_authority \<Rightarrow> unit res" where
  "check_realization_authority e =
     res_bind (require_compiled_address ''address'' (ra_address e)) (\<lambda>_.
     res_bind (require_that (\<not> (ra_structure e \<noteq> None \<and> ra_constraint_document e \<noteq> None))
         (ValueError ''realization authority cannot carry two independently editable structures'')) (\<lambda>_.
     res_bind (require_that ((ra_constraint_document e = None) = (ra_constraint_binding e = None))
         (ValueError ''recursive authority requires its source binding'')) (\<lambda>_.
     res_bind (require_that (ra_field_path e \<noteq> [] \<and> ra_domain e \<noteq> [] \<and> ra_requirement_kind e \<noteq> [])
         (ValueError ''resolved realization authority requires non-empty concern identity'')) (\<lambda>_.
     res_bind (require_json_pointer ''resolved realization authority payload_pointer'' False
         (ra_payload_pointer e)) (\<lambda>_.
     res_bind (require_authority_bounds (ra_mode e) (ra_bounds e) (ra_constraint_document e)) (\<lambda>_.
       require_authority_source (ra_mode e) (ra_source e)))))))"

section \<open>Compute-substrate constraints\<close>

text \<open>The closed descriptors of \<open>raes_contracts/bounded_domains.py\<close>, members in their order.\<close>

datatype numeric_type = NT_INTEGER | NT_NUMBER

datatype domain_descriptor =
    ExactDomain py_value
  | EnumDomain "py_value list"
  | BooleanDomain "bool option"
  | NumericIntervalDomain numeric_type "64 word" "64 word" bool bool
  | GovernedReferenceDomain string "string list"
  | RecordDomain "(string, string) pydict" bool

text \<open>\<open>_domain_values\<close> for the three kinds it serves.\<close>

fun domain_values :: "domain_descriptor \<Rightarrow> py_value list option" where
  "domain_values (ExactDomain v) = Some [v]"
| "domain_values (EnumDomain vs) = Some vs"
| "domain_values (GovernedReferenceDomain _ refs) = Some (map PyStr refs)"
| "domain_values _ = None"

text \<open>
  \<open>validate_controlled_vocabulary_value\<close> reads the vocabulary catalog, a JSON document of the
  repository: it is the parameter \<open>vocabulary\<close>.
\<close>

definition validate_compute_substrate_constraint ::
  "(string \<Rightarrow> string \<Rightarrow> unit res) \<Rightarrow> string \<Rightarrow> domain_descriptor option \<Rightarrow> unit res" where
  "validate_compute_substrate_constraint vocabulary posture domain =
     (if posture = ''open''
      then require_that (domain = None)
             (ValueError ''open compute-substrate constraint must not carry a domain'')
      else if posture \<notin> {''constrained'', ''exact''}
      then Inl (ValueError ''compute-substrate constraint posture is invalid'')
      else (case domain of
          None \<Rightarrow> Inl (ValueError (posture @ '' compute-substrate constraint must carry a domain''))
        | Some d \<Rightarrow>
            (case domain_values d of
               None \<Rightarrow> Inl (ValueError ''compute-substrate requires an exact, enum, or governed-reference domain'')
             | Some values \<Rightarrow>
                 if posture = ''exact'' \<and> length values \<noteq> 1
                 then Inl (ValueError ''exact compute-substrate constraint requires a singleton domain'')
                 else res_all (\<lambda>v. case v of
                        PyStr s \<Rightarrow> vocabulary ''compute-substrates'' s
                      | _ \<Rightarrow> Inl (ValueError ''compute-substrate domain members must be strings'')) values)))"

record planned_constraint =
  pc_address :: address
  pc_field_path :: string
  pc_concern :: string
  pc_posture :: string
  pc_value_domain :: "domain_descriptor option"
  pc_governing_scope :: string
  pc_provenance :: string

definition make_planned_constraint ::
  "(string \<Rightarrow> string \<Rightarrow> unit res) \<Rightarrow> planned_constraint \<Rightarrow> planned_constraint res" where
  "make_planned_constraint vocabulary c =
     res_bind (require_compiled_address ''address'' (pc_address c)) (\<lambda>_.
     res_bind (require_that (pc_concern c = ''compute-substrate'')
         (ValueError ''planned realization constraint concern is unsupported'')) (\<lambda>_.
     res_bind (require_that (pc_posture c \<in> {''open'', ''constrained'', ''exact''})
         (ValueError ''planned realization constraint posture is invalid'')) (\<lambda>_.
     res_bind (validate_compute_substrate_constraint vocabulary (pc_posture c) (pc_value_domain c)) (\<lambda>_.
       Inr c))))"

definition validate_planned_substrate_targets ::
  "(address \<times> string) list \<Rightarrow> address list \<Rightarrow> unit res" where
  "validate_planned_substrate_targets selected live =
     res_bind (require_that (distinct selected)
         (ValueError ''Provisioning plan realization constraints must identify unique concerns'')) (\<lambda>_.
       require_that (set (map fst selected) \<subseteq> set live)
         (ValueError ''Provisioning plan realization constraints must reference non-delete node operations''))"

section \<open>Plan validation\<close>

definition check_plan_resource :: "runtime_domain \<Rightarrow> address \<times> 'b planned_resource \<Rightarrow> unit res" where
  "check_plan_resource domain p =
     res_bind (require_compiled_address ''resource map key'' (fst p)) (\<lambda>_.
     res_bind (require_that (fst p = pr_address (snd p))
         (ValueError ''Plan resource map key must equal embedded address'')) (\<lambda>_.
     res_bind (require_that (pr_domain (snd p) = domain)
         (ValueError ''Plan resource domain must equal the plan domain'')) (\<lambda>_.
       require_plan_operation_identity domain (pr_address (snd p)) (pr_type (snd p)))))"

definition validate_plan_addresses ::
  "(address, 'b planned_resource) pydict \<Rightarrow> 'r plan_operation_scheme list \<Rightarrow> address list option \<Rightarrow>
     runtime_domain \<Rightarrow> unit res" where
  "validate_plan_addresses resources ops startup domain =
     res_bind (res_all (check_plan_resource domain) resources) (\<lambda>_.
     res_bind (res_all (\<lambda>p. require_plan_operation_identity domain (op_address p) (op_type p)) ops) (\<lambda>_.
     res_bind (require_that (distinct (map op_address ops))
         (ValueError ''Plan operation addresses must be unique'')) (\<lambda>_.
       (case startup of
          None \<Rightarrow> Inr ()
        | Some order \<Rightarrow>
            res_bind (res_all (\<lambda>a. res_bind (require_compiled_address ''startup_order address'' a)
                (\<lambda>_. Inr ())) order) (\<lambda>_.
            res_bind (require_that (distinct order)
                (ValueError ''Plan startup_order addresses must be unique'')) (\<lambda>_.
              require_that (set order \<subseteq> set (map op_address ops))
                (ValueError ''Plan startup_order must reference admitted operation addresses'')))))))"

definition validate_realization_authority ::
  "'r plan_operation_scheme list \<Rightarrow> ('dom, 'st, 'doc) realization_authority list \<Rightarrow> unit res" where
  "validate_realization_authority ops authority =
     res_bind (require_that (distinct (map (\<lambda>e. (ra_address e, ra_requirement_kind e)) authority))
         (ValueError ''Provisioning plan realization authority must identify unique concerns'')) (\<lambda>_.
     res_bind (require_that (distinct (map (\<lambda>e. (ra_address e, ra_payload_pointer e)) authority))
         (ValueError ''Provisioning plan realization authority payload pointers must be unique per resource'')) (\<lambda>_.
       require_that (set (map ra_address authority) \<subseteq>
           set (map op_address (filter (\<lambda>p. op_action p \<noteq> DELETE) ops)))
         (ValueError ''Provisioning plan realization authority must reference non-delete operations'')))"

section \<open>The plans\<close>

record ('b, 'dom, 'st, 'doc, 'env, 'obs) provisioning_plan =
  pp_resources :: "(address, 'b planned_resource) pydict"
  pp_operations :: "'b provision_op list"
  pp_realization_authority :: "('dom, 'st, 'doc) realization_authority list"
  pp_realization_envelope :: "'env option"
  pp_realization_constraints :: "planned_constraint list"
  pp_operation_id :: "string option"
  pp_observation_demands :: "'obs list"

definition make_provisioning_plan ::
  "('b, 'dom, 'st, 'doc, 'env, 'obs) provisioning_plan \<Rightarrow>
     ('b, 'dom, 'st, 'doc, 'env, 'obs) provisioning_plan res" where
  "make_provisioning_plan plan =
     res_bind (require_that (pp_operation_id plan = None \<or> py_strip (the (pp_operation_id plan)) \<noteq> [])
         (ValueError ''ProvisioningPlan operation_id must be non-empty when present'')) (\<lambda>_.
     res_bind (validate_plan_addresses (pp_resources plan) (pp_operations plan) None PROVISIONING) (\<lambda>_.
     res_bind (validate_planned_substrate_targets
         (map (\<lambda>c. (pc_address c, pc_concern c)) (pp_realization_constraints plan))
         (map op_address (filter (\<lambda>p. op_action p \<noteq> DELETE \<and> op_type p = ''node'') (pp_operations plan))))
       (\<lambda>_.
     res_bind (validate_realization_authority (pp_operations plan) (pp_realization_authority plan)) (\<lambda>_.
       Inr plan))))"

text \<open>\<open>OrchestrationPlan\<close> and \<open>EvaluationPlan\<close> have the same members and differ in their domain.\<close>

record ('b, 'obs) ordered_plan =
  sp_resources :: "(address, 'b planned_resource) pydict"
  sp_operations :: "plan_operation list"
  sp_startup_order :: "address list"
  sp_observation_demands :: "'obs list"

definition make_orchestration_plan :: "('b, 'obs) ordered_plan \<Rightarrow> ('b, 'obs) ordered_plan res" where
  "make_orchestration_plan plan =
     res_bind (validate_plan_addresses (sp_resources plan) (sp_operations plan)
         (Some (sp_startup_order plan)) ORCHESTRATION) (\<lambda>_. Inr plan)"

definition make_evaluation_plan :: "('b, 'obs) ordered_plan \<Rightarrow> ('b, 'obs) ordered_plan res" where
  "make_evaluation_plan plan =
     res_bind (validate_plan_addresses (sp_resources plan) (sp_operations plan)
         (Some (sp_startup_order plan)) EVALUATION) (\<lambda>_. Inr plan)"

definition planned_realization_authority ::
  "('b, 'dom, 'st, 'doc, 'env, 'obs) provisioning_plan \<Rightarrow> address \<Rightarrow> string \<Rightarrow>
     ('dom, 'st, 'doc) realization_authority option" where
  "planned_realization_authority plan a kind =
     List.find (\<lambda>e. ra_address e = a \<and> ra_requirement_kind e = kind) (pp_realization_authority plan)"

end
