(* ===== verification/Plan_Ops.thy ===== *)
theory Plan_Ops
  imports Plan_Contracts Dep_Refresh
begin

text \<open>
  Plan construction, \<open>raes_processor/planner/operations.py\<close> and
  \<open>raes_processor/planner/ordering.py\<close>: the reconciled actions become ordered operations, one
  plan per runtime domain. The comparison of payloads under realization requirements,
  \<open>realization_payloads_match\<close>, is the parameter \<open>payloads_match\<close>; no law of it is used.
\<close>

section \<open>Reconciliation of planned resources\<close>

record realization_requirement =
  rq_address :: address
  rq_field_path :: string
  rq_requirement_kind :: string
  rq_explicitness :: "string option"
  rq_value_domain :: "domain_descriptor option"
  rq_governing_scope :: "string option"
  rq_constraint_provenance :: "string option"

definition entry_matches_resource ::
  "(address \<Rightarrow> py_value \<Rightarrow> py_value \<Rightarrow> 'req list \<Rightarrow> bool) \<Rightarrow> 'req list \<Rightarrow>
     'b snapshot_entry \<Rightarrow> 'b planned_resource \<Rightarrow> bool" where
  "entry_matches_resource payloads_match reqs e r \<longleftrightarrow>
     se_domain e = pr_domain r \<and>
     se_profile_bindings e = pr_profile_bindings r \<and>
     se_type e = pr_type r \<and>
     payloads_match (se_address e) (pr_payload r) (se_payload e) reqs \<and>
     ordering_dependencies e = ordering_dependencies r \<and>
     refresh_dependencies e = refresh_dependencies r"

definition build_operations ::
  "(address \<Rightarrow> py_value \<Rightarrow> py_value \<Rightarrow> 'req list \<Rightarrow> bool) \<Rightarrow>
     (address, 'b planned_resource) pydict \<Rightarrow> (address, 'b snapshot_entry) pydict \<Rightarrow> 'req list \<Rightarrow>
     ((address, reconciliation_action) pydict \<times> (address, 'b snapshot_entry) pydict) res" where
  "build_operations payloads_match resources entries reqs =
     reconcile_resource_actions (\<lambda>r. r) (entry_matches_resource payloads_match reqs) resources entries"

section \<open>Ordered operations of one domain\<close>

definition resources_in :: "runtime_domain \<Rightarrow> (address, 'b planned_resource) pydict \<Rightarrow>
    (address, 'b planned_resource) pydict" where
  "resources_in domain = filter (\<lambda>p. pr_domain (snd p) = domain)"

definition entries_in :: "runtime_domain \<Rightarrow> (address, 'b snapshot_entry) pydict \<Rightarrow>
    (address, 'b snapshot_entry) pydict" where
  "entries_in domain = filter (\<lambda>p. se_domain (snd p) = domain)"

definition entry_resource :: "'b snapshot_entry \<Rightarrow> 'b planned_resource res" where
  "entry_resource e =
     make_planned_resource
       \<lparr>ordering_dependencies = ordering_dependencies e, refresh_dependencies = refresh_dependencies e,
        pr_address = se_address e, pr_domain = se_domain e, pr_type = se_type e,
        pr_payload = se_payload e, pr_profile_bindings = []\<rparr>"

definition delete_order :: "(address, 'b snapshot_entry) pydict \<Rightarrow> address list res" where
  "delete_order entries =
     res_bind (res_map (\<lambda>p. res_bind (entry_resource (snd p)) (\<lambda>r. Inr (fst p, r))) entries)
       resource_delete_order"

definition apply_operation ::
  "(address, 'b planned_resource) pydict \<Rightarrow> (address, reconciliation_action) pydict \<Rightarrow>
     address \<Rightarrow> plan_operation res" where
  "apply_operation resources actions a =
     res_bind (dict_item resources a) (\<lambda>r.
     res_bind (dict_item actions a) (\<lambda>act.
       make_operation
         \<lparr>op_action = act, op_address = a, op_type = pr_type r, op_payload = pr_payload r,
          op_ordering = ordering_dependencies r, op_refresh = refresh_dependencies r\<rparr>))"

definition delete_operation ::
  "(address, 'b snapshot_entry) pydict \<Rightarrow> address \<Rightarrow> plan_operation res" where
  "delete_operation deleted a =
     res_bind (dict_item deleted a) (\<lambda>e.
       make_operation
         \<lparr>op_action = DELETE, op_address = a, op_type = se_type e, op_payload = se_payload e,
          op_ordering = ordering_dependencies e, op_refresh = refresh_dependencies e\<rparr>)"

text \<open>The provisioning operations carry profile bindings; a deletion carries none.\<close>

definition provision_apply_operation ::
  "(address, 'b planned_resource) pydict \<Rightarrow> (address, reconciliation_action) pydict \<Rightarrow>
     address \<Rightarrow> 'b provision_op res" where
  "provision_apply_operation resources actions a =
     res_bind (dict_item resources a) (\<lambda>r.
     res_bind (dict_item actions a) (\<lambda>act.
       make_operation
         \<lparr>op_action = act, op_address = a, op_type = pr_type r, op_payload = pr_payload r,
          op_ordering = ordering_dependencies r, op_refresh = refresh_dependencies r,
          op_profile_bindings = pr_profile_bindings r\<rparr>))"

definition provision_delete_operation ::
  "(address, 'b snapshot_entry) pydict \<Rightarrow> address \<Rightarrow> 'b provision_op res" where
  "provision_delete_operation deleted a =
     res_bind (dict_item deleted a) (\<lambda>e.
       make_operation
         \<lparr>op_action = DELETE, op_address = a, op_type = se_type e, op_payload = se_payload e,
          op_ordering = ordering_dependencies e, op_refresh = refresh_dependencies e,
          op_profile_bindings = []\<rparr>)"

definition ordered_apply_ops ::
  "(address, 'b planned_resource) pydict \<Rightarrow> (address, reconciliation_action) pydict \<Rightarrow>
     'b provision_op list res" where
  "ordered_apply_ops resources actions =
     res_bind (resource_topological_order resources)
       (res_map (provision_apply_operation resources actions))"

definition ordered_delete_ops :: "(address, 'b snapshot_entry) pydict \<Rightarrow> 'b provision_op list res" where
  "ordered_delete_ops deleted =
     res_bind (delete_order (entries_in PROVISIONING deleted))
       (res_map (provision_delete_operation deleted))"

section \<open>The plans\<close>

definition or_default :: "string option \<Rightarrow> string \<Rightarrow> string" where
  "or_default s d = (case s of None \<Rightarrow> d | Some t \<Rightarrow> if t = [] then d else t)"

definition plan_constraint ::
  "(string \<Rightarrow> string \<Rightarrow> unit res) \<Rightarrow> realization_requirement \<Rightarrow> planned_constraint res" where
  "plan_constraint vocabulary q =
     make_planned_constraint vocabulary
       \<lparr>pc_address = rq_address q, pc_field_path = rq_field_path q, pc_concern = rq_requirement_kind q,
        pc_posture = the (rq_explicitness q), pc_value_domain = rq_value_domain q,
        pc_governing_scope = or_default (rq_governing_scope q) ''#/'',
        pc_provenance = or_default (rq_constraint_provenance q) ''author-declared''\<rparr>"

definition substrate_requirements :: "realization_requirement list \<Rightarrow> realization_requirement list" where
  "substrate_requirements =
     filter (\<lambda>q. rq_requirement_kind q = ''compute-substrate'' \<and> rq_explicitness q \<noteq> None)"

definition build_provisioning_plan ::
  "(string \<Rightarrow> string \<Rightarrow> unit res) \<Rightarrow> (address, 'b planned_resource) pydict \<Rightarrow>
     (address, reconciliation_action) pydict \<Rightarrow> (address, 'b snapshot_entry) pydict \<Rightarrow> 'env option \<Rightarrow>
     realization_requirement list \<Rightarrow> ('dom, 'st, 'doc) realization_authority list \<Rightarrow> 'obs list \<Rightarrow>
     ('b, 'dom, 'st, 'doc, 'env, 'obs) provisioning_plan res" where
  "build_provisioning_plan vocabulary resources actions deleted envelope reqs authority demands =
     (let provisioning = resources_in PROVISIONING resources in
      res_bind (ordered_apply_ops provisioning actions) (\<lambda>applied.
      res_bind (ordered_delete_ops deleted) (\<lambda>removed.
      res_bind (res_map (plan_constraint vocabulary) (substrate_requirements reqs)) (\<lambda>constraints.
        make_provisioning_plan
          \<lparr>pp_resources = provisioning, pp_operations = applied @ removed,
           pp_realization_authority = filter (\<lambda>e. dict_has provisioning (ra_address e)) authority,
           pp_realization_envelope = envelope, pp_realization_constraints = constraints,
           pp_operation_id = None, pp_observation_demands = demands\<rparr>))))"

definition build_orchestration_plan ::
  "(address, 'b planned_resource) pydict \<Rightarrow> (address, reconciliation_action) pydict \<Rightarrow>
     (address, 'b snapshot_entry) pydict \<Rightarrow> 'obs list \<Rightarrow> ('b, 'obs) ordered_plan res" where
  "build_orchestration_plan resources actions deleted demands =
     (let orchestration = resources_in ORCHESTRATION resources in
      res_bind (resource_topological_order orchestration) (\<lambda>startup.
      res_bind (res_map (apply_operation orchestration actions) startup) (\<lambda>applied.
      res_bind (delete_order (entries_in ORCHESTRATION deleted)) (\<lambda>order.
      res_bind (res_map (delete_operation deleted) order) (\<lambda>removed.
        make_orchestration_plan
          \<lparr>sp_resources = orchestration, sp_operations = applied @ removed,
           sp_startup_order = startup, sp_observation_demands = demands\<rparr>)))))"

definition build_evaluation_plan ::
  "(address, 'b planned_resource) pydict \<Rightarrow> (address, reconciliation_action) pydict \<Rightarrow>
     (address, 'b snapshot_entry) pydict \<Rightarrow> 'obs list \<Rightarrow> ('b, 'obs) ordered_plan res" where
  "build_evaluation_plan resources actions deleted demands =
     (let evaluation = resources_in EVALUATION resources in
      res_bind (resource_topological_order evaluation) (\<lambda>startup.
      res_bind (res_map (apply_operation evaluation actions) startup) (\<lambda>applied.
      res_bind (delete_order (entries_in EVALUATION deleted)) (\<lambda>order.
      res_bind (res_map (delete_operation deleted) order) (\<lambda>removed.
        make_evaluation_plan
          \<lparr>sp_resources = evaluation, sp_operations = applied @ removed,
           sp_startup_order = startup, sp_observation_demands = demands\<rparr>)))))"

text \<open>\<open>_observation_owner\<close> of \<open>planner/core.py\<close>: the last phase with something to do.\<close>

definition observation_owner ::
  "('b, 'obs) ordered_plan \<Rightarrow> ('b, 'obs) ordered_plan \<Rightarrow> runtime_domain" where
  "observation_owner evaluation orchestration =
     (if actionable_operations (sp_operations orchestration) \<noteq> [] then ORCHESTRATION
      else if actionable_operations (sp_operations evaluation) \<noteq> [] then EVALUATION
      else PROVISIONING)"

section \<open>Well-formed planner inputs\<close>

text \<open>
  What the compiler and the snapshot store guarantee: every key is the embedded address, and
  address and type belong to the resource's domain. The participant domain has no plan.
\<close>

definition identity_in :: "runtime_domain \<Rightarrow> address \<Rightarrow> string \<Rightarrow> bool" where
  "identity_in domain a rtype \<longleftrightarrow>
     domain = PARTICIPANT \<or> require_plan_operation_identity domain a rtype = Inr ()"

definition planned_wf :: "(address, 'b planned_resource) pydict \<Rightarrow> bool" where
  "planned_wf resources \<longleftrightarrow> wf_dict resources \<and>
     (\<forall>(a, r) \<in> set resources. compiled_address a \<and> pr_address r = a \<and>
        identity_in (pr_domain r) a (pr_type r) \<and>
        (\<forall>d \<in> set (ordering_dependencies r @ refresh_dependencies r). compiled_address d))"

definition entries_wf :: "(address, 'b snapshot_entry) pydict \<Rightarrow> bool" where
  "entries_wf entries \<longleftrightarrow> wf_dict entries \<and>
     (\<forall>(a, e) \<in> set entries. compiled_address a \<and> se_address e = a \<and>
        identity_in (se_domain e) a (se_type e) \<and>
        (\<forall>d \<in> set (ordering_dependencies e @ refresh_dependencies e). compiled_address d))"

lemma planned_wf_valid: "planned_wf resources \<Longrightarrow> valid_resources resources"
  by (fastforce simp: planned_wf_def valid_resources_def dict_keys_def)

lemma planned_wf_filter: "planned_wf resources \<Longrightarrow> planned_wf (filter P resources)"
  by (auto simp: planned_wf_def)

lemma entries_wf_filter: "entries_wf entries \<Longrightarrow> entries_wf (filter P entries)"
  by (auto simp: entries_wf_def)

lemma planned_wf_get:
  assumes "planned_wf resources" and "dict_get resources a = Some r"
  shows "compiled_address a" and "pr_address r = a" and "identity_in (pr_domain r) a (pr_type r)"
    and "\<forall>d \<in> set (ordering_dependencies r @ refresh_dependencies r). compiled_address d"
  using assms(1) dict_get_Some_in [OF assms(2)] by (auto simp: planned_wf_def)

lemma entries_wf_get:
  assumes "entries_wf entries" and "dict_get entries a = Some e"
  shows "compiled_address a" and "se_address e = a" and "identity_in (se_domain e) a (se_type e)"
    and "\<forall>d \<in> set (ordering_dependencies e @ refresh_dependencies e). compiled_address d"
  using assms(1) dict_get_Some_in [OF assms(2)] by (auto simp: entries_wf_def)

lemma check_addressed_ok [res_intros]:
  "compiled_address a \<Longrightarrow> \<forall>d \<in> set (ords @ refs). compiled_address d \<Longrightarrow>
     check_addressed a ords refs = Inr ()"
  by (auto simp: check_addressed_def require_compiled_address_def res_all_Inr)

section \<open>The operations of one domain\<close>

lemma resource_order_run:
  fixes rs :: "(address, 'r dep_resource_scheme) pydict"
  assumes "valid_resources rs"
  shows "\<exists>order. resource_topological_order rs = Inr order \<and> distinct order \<and>
    set order = set (dict_keys rs)"
proof -
  from topological_run [OF resource_graph_valid [OF assms, of ORDERING]] obtain prefix rest where
    "topological_dependency_order (resource_graph ORDERING rs) = Inr (prefix @ rest)"
    "distinct (prefix @ rest)" "set (prefix @ rest) = set (dict_keys rs)"
    by (metis resource_graph_keys)
  then show ?thesis
    using graph_for_resources [OF assms, of ORDERING]
    by (auto simp: resource_topological_order_def resource_graph_def)
qed

lemma delete_order_run:
  fixes entries :: "(address, 'b snapshot_entry) pydict"
  assumes "entries_wf entries"
  shows "\<exists>order. delete_order entries = Inr order \<and> distinct order \<and> set order = set (dict_keys entries)"
proof -
  have "\<exists>q. res_bind (entry_resource (snd p)) (\<lambda>r. Inr (fst p, r)) = Inr q \<and> fst q = fst p"
    if "p \<in> set entries" for p :: "address \<times> 'b snapshot_entry"
  proof -
    obtain a e where p: "p = (a, e)" by (cases p)
    with that assms have "se_address e = a" "compiled_address a"
      "\<forall>d \<in> set (ordering_dependencies e @ refresh_dependencies e). compiled_address d"
      by (auto simp: entries_wf_def)
    then have "check_addressed (se_address e) (ordering_dependencies e) (refresh_dependencies e) = Inr ()"
      by (simp add: check_addressed_ok)
    with p show ?thesis by (simp add: entry_resource_def make_planned_resource_def)
  qed
  from res_map_exists [of entries "\<lambda>p. res_bind (entry_resource (snd p)) (\<lambda>r. Inr (fst p, r))"
      "\<lambda>p q. fst q = fst p", OF this]
  obtain rs where run: "res_map (\<lambda>p. res_bind (entry_resource (snd p)) (\<lambda>r. Inr (fst p, r))) entries = Inr rs"
    and all2: "list_all2 (\<lambda>p q. fst q = fst p) entries rs" by blast
  from all2 have keys: "dict_keys rs = dict_keys entries"
    by (auto simp: dict_keys_def list_all2_conv_all_nth intro!: nth_equalityI)
  then have "valid_resources rs"
    using assms by (fastforce simp: valid_resources_def wf_dict_def entries_wf_def dict_keys_def)
  from resource_order_run [OF this] run keys show ?thesis
    by (auto simp: delete_order_def resource_delete_order_def)
qed

definition applied_operation ::
  "(address, 'b planned_resource) pydict \<Rightarrow> (address, reconciliation_action) pydict \<Rightarrow>
     'r plan_operation_scheme \<Rightarrow> bool" where
  "applied_operation resources actions p \<longleftrightarrow>
     (\<exists>r. dict_get resources (op_address p) = Some r \<and>
        dict_get actions (op_address p) = Some (op_action p) \<and> op_type p = pr_type r \<and>
        op_payload p = pr_payload r)"

definition removed_operation ::
  "(address, 'b snapshot_entry) pydict \<Rightarrow> 'r plan_operation_scheme \<Rightarrow> bool" where
  "removed_operation deleted p \<longleftrightarrow> op_action p = DELETE \<and>
     (\<exists>e. dict_get deleted (op_address p) = Some e \<and> op_type p = se_type e \<and> op_payload p = se_payload e)"

lemma apply_operation_run:
  assumes "planned_wf resources" and "dict_has resources a" and "dict_has actions a"
  shows "\<exists>p. apply_operation resources actions a = Inr p \<and> op_address p = a \<and>
      applied_operation resources actions p"
    and "\<exists>p. provision_apply_operation resources actions a = Inr p \<and> op_address p = a \<and>
      applied_operation resources actions p"
proof -
  from assms(2,3) obtain r act where get: "dict_get resources a = Some r" "dict_get actions a = Some act"
    by (blast dest: dict_has_get)
  then have item: "dict_item resources a = Inr r" "dict_item actions a = Inr act" by simp_all
  have ok: "check_addressed a (ordering_dependencies r) (refresh_dependencies r) = Inr ()"
    using planned_wf_get [OF assms(1) get(1)] by (intro check_addressed_ok)
  show "\<exists>p. apply_operation resources actions a = Inr p \<and> op_address p = a \<and>
      applied_operation resources actions p"
    and "\<exists>p. provision_apply_operation resources actions a = Inr p \<and> op_address p = a \<and>
      applied_operation resources actions p"
    using get ok
    by (simp_all add: apply_operation_def provision_apply_operation_def item make_operation_def
        applied_operation_def)
qed

lemma delete_operation_run:
  assumes "entries_wf deleted" and "dict_has deleted a"
  shows "\<exists>p. delete_operation deleted a = Inr p \<and> op_address p = a \<and> removed_operation deleted p"
    and "\<exists>p. provision_delete_operation deleted a = Inr p \<and> op_address p = a \<and> removed_operation deleted p"
proof -
  from assms(2) obtain e where get: "dict_get deleted a = Some e" by (auto dest: dict_has_get)
  then have item: "dict_item deleted a = Inr e" by simp
  have ok: "check_addressed a (ordering_dependencies e) (refresh_dependencies e) = Inr ()"
    using entries_wf_get [OF assms(1) get] by (intro check_addressed_ok)
  show "\<exists>p. delete_operation deleted a = Inr p \<and> op_address p = a \<and> removed_operation deleted p"
    and "\<exists>p. provision_delete_operation deleted a = Inr p \<and> op_address p = a \<and> removed_operation deleted p"
    using get ok
    by (simp_all add: delete_operation_def provision_delete_operation_def item make_operation_def
        removed_operation_def)
qed

lemma operations_run:
  assumes "\<And>a. a \<in> set order \<Longrightarrow> \<exists>p. f a = Inr p \<and> op_address p = a \<and> P p"
  shows "\<exists>ops. res_map f order = Inr ops \<and> map op_address ops = order \<and> (\<forall>p \<in> set ops. P p)"
  using res_map_exists [of order f "\<lambda>a p. op_address p = a \<and> P p"] assms
  by (auto simp: list_all2_keyed)

section \<open>The plan of one domain\<close>

definition domain_resources :: "runtime_domain \<Rightarrow> (address, 'b planned_resource) pydict \<Rightarrow> address set" where
  "domain_resources domain resources = {a. \<exists>r. dict_get resources a = Some r \<and> pr_domain r = domain}"

definition domain_removals :: "runtime_domain \<Rightarrow> (address, 'b planned_resource) pydict \<Rightarrow>
    (address, 'b snapshot_entry) pydict \<Rightarrow> address set" where
  "domain_removals domain resources entries =
     {a. \<not> dict_has resources a \<and> (\<exists>e. dict_get entries a = Some e \<and> se_domain e = domain)}"

definition removed_entries :: "(address, 'b planned_resource) pydict \<Rightarrow>
    (address, 'b snapshot_entry) pydict \<Rightarrow> (address, 'b snapshot_entry) pydict" where
  "removed_entries resources entries = filter (\<lambda>p. \<not> dict_has resources (fst p)) entries"

lemma keys_iff_get: "a \<in> set (dict_keys d) \<longleftrightarrow> (\<exists>v. dict_get d a = Some v)"
  using dict_has_get [of d a] dict_get_Some_has [of d a] by (auto simp: dict_has_def)

lemma get_resources_in:
  "planned_wf resources \<Longrightarrow> dict_get (resources_in domain resources) a =
     (case dict_get resources a of None \<Rightarrow> None | Some r \<Rightarrow> if pr_domain r = domain then Some r else None)"
  using dict_get_filter [of resources "\<lambda>_ r. pr_domain r = domain" a]
  by (simp add: resources_in_def planned_wf_def)

lemma keys_resources_in:
  "planned_wf resources \<Longrightarrow> set (dict_keys (resources_in domain resources)) = domain_resources domain resources"
  by (auto simp: keys_iff_get get_resources_in domain_resources_def split: option.splits if_splits)

lemma get_removed_entries:
  "entries_wf entries \<Longrightarrow> dict_get (removed_entries resources entries) a =
     (if dict_has resources a then None else dict_get entries a)"
  using dict_get_filter [of entries "\<lambda>k _. \<not> dict_has resources k" a]
  by (auto simp: removed_entries_def entries_wf_def split: option.splits)

lemma removed_entries_wf: "entries_wf entries \<Longrightarrow> entries_wf (removed_entries resources entries)"
  by (simp add: removed_entries_def entries_wf_filter)

lemma keys_entries_in:
  assumes "entries_wf entries"
  shows "set (dict_keys (entries_in domain (removed_entries resources entries))) =
    domain_removals domain resources entries"
  using dict_get_filter [of "removed_entries resources entries" "\<lambda>_ e. se_domain e = domain"]
    removed_entries_wf [OF assms, of resources]
  by (auto simp: keys_iff_get entries_in_def domain_removals_def entries_wf_def
      get_removed_entries [OF assms] split: option.splits if_splits)

text \<open>What reconciliation leaves: the actions of planned resources are never deletions.\<close>

lemma build_operations_run:
  assumes "planned_wf resources" and "build_operations pm resources entries reqs = Inr (actions, deleted)"
  shows "deleted = removed_entries resources entries"
    and "dict_get actions a = expected_action (\<lambda>r. r) (entry_matches_resource pm reqs) resources entries a"
  using reconcile_run [OF planned_wf_valid [OF assms(1)], of "\<lambda>r. r" "entry_matches_resource pm reqs" entries]
    assms(2)
  by (auto simp: build_operations_def removed_entries_def)

lemma expected_action_planned:
  "dict_get resources a = Some r \<Longrightarrow> \<exists>act. expected_action deps m resources entries a = Some act \<and> act \<noteq> DELETE"
  by (simp add: expected_action_def initial_action_not_delete)

definition domain_operations ::
  "runtime_domain \<Rightarrow> (address, 'b planned_resource) pydict \<Rightarrow> (address, 'b snapshot_entry) pydict \<Rightarrow>
     (address, reconciliation_action) pydict \<Rightarrow> 'r plan_operation_scheme list \<Rightarrow>
     'r plan_operation_scheme list \<Rightarrow> bool" where
  "domain_operations domain resources entries actions applied removed \<longleftrightarrow>
     distinct (map op_address (applied @ removed)) \<and>
     set (map op_address applied) = domain_resources domain resources \<and>
     set (map op_address removed) = domain_removals domain resources entries \<and>
     (\<forall>p \<in> set applied. applied_operation resources actions p \<and> op_action p \<noteq> DELETE) \<and>
     (\<forall>p \<in> set removed. removed_operation entries p)"

lemma domain_operationsI:
  assumes wf: "planned_wf resources" "entries_wf entries"
    and built: "build_operations pm resources entries reqs = Inr (actions, deleted)"
    and "distinct order" "set order = set (dict_keys (resources_in domain resources))"
    and "distinct order'" "set order' = set (dict_keys (entries_in domain deleted))"
    and applied: "map op_address applied = order"
      "\<forall>p \<in> set applied. applied_operation (resources_in domain resources) actions p"
    and removed: "map op_address removed = order'" "\<forall>p \<in> set removed. removed_operation deleted p"
  shows "domain_operations domain resources entries actions applied removed"
proof -
  note del = build_operations_run(1) [OF wf(1) built]
  note act = build_operations_run(2) [OF wf(1) built]
  have sets: "set order = domain_resources domain resources"
    "set order' = domain_removals domain resources entries"
    using assms(5,7) by (simp_all add: keys_resources_in wf keys_entries_in del)
  then have "set order \<inter> set order' = {}"
    by (auto simp: domain_resources_def domain_removals_def dest: dict_get_Some_has)
  with assms(4,6) applied(1) removed(1) have "distinct (map op_address (applied @ removed))"
    by (metis distinct_append map_append)
  moreover have "applied_operation resources actions p \<and> op_action p \<noteq> DELETE" if "p \<in> set applied" for p
  proof -
    from applied(2) that obtain r where own: "dict_get (resources_in domain resources) (op_address p) = Some r"
      and fields: "dict_get actions (op_address p) = Some (op_action p)" "op_type p = pr_type r"
        "op_payload p = pr_payload r"
      by (auto simp: applied_operation_def)
    from own have "dict_get resources (op_address p) = Some r"
      by (simp add: get_resources_in [OF wf(1)] split: option.splits if_splits)
    note r = this fields
    obtain chosen where "expected_action (\<lambda>r. r) (entry_matches_resource pm reqs) resources entries
        (op_address p) = Some chosen" "chosen \<noteq> DELETE" using expected_action_planned [OF r(1)] by blast
    then have "op_action p \<noteq> DELETE" using act [of "op_address p"] r(2) by simp
    with r show ?thesis by (simp add: applied_operation_def)
  qed
  moreover have "removed_operation entries p" if "p \<in> set removed" for p
    using removed(2) that by (auto simp: removed_operation_def del get_removed_entries [OF wf(2)] split: if_splits)
  ultimately show ?thesis
    using sets by (simp only: domain_operations_def applied(1) removed(1) simp_thms ball_simps) blast
qed

lemma domain_operations_valid:
  assumes wf: "planned_wf resources" "entries_wf entries" and dom: "domain \<noteq> PARTICIPANT"
    and ops: "domain_operations domain resources entries actions applied removed"
    and startup: "startup = None \<or> startup = Some (map op_address applied)"
  shows "validate_plan_addresses (resources_in domain resources) (applied @ removed) startup domain = Inr ()"
proof -
  have check: "check_plan_resource domain p = Inr ()" if "p \<in> set (resources_in domain resources)" for p
    using that wf(1) dom
    by (auto simp: resources_in_def planned_wf_def check_plan_resource_def identity_in_def
        require_compiled_address_def)
  have ident: "require_plan_operation_identity domain (op_address p) (op_type p) = Inr ()"
    if "p \<in> set (applied @ removed)" for p
  proof (cases "p \<in> set applied")
    case True
    with ops obtain r where r: "dict_get resources (op_address p) = Some r" "op_type p = pr_type r"
      by (auto simp: domain_operations_def applied_operation_def)
    have "op_address p \<in> domain_resources domain resources"
      using True ops by (auto simp: domain_operations_def)
    with r dom planned_wf_get(3) [OF wf(1) r(1)] show ?thesis
      by (simp add: domain_resources_def identity_in_def)
  next
    case False
    with that ops obtain e where e: "dict_get entries (op_address p) = Some e" "op_type p = se_type e"
      by (auto simp: domain_operations_def removed_operation_def)
    have "op_address p \<in> domain_removals domain resources entries"
      using False that ops by (auto simp: domain_operations_def)
    with e dom entries_wf_get(3) [OF wf(2) e(1)] show ?thesis
      by (simp add: domain_removals_def identity_in_def)
  qed
  have canonical: "compiled_address a" if "a \<in> set (map op_address applied)" for a
    using that ops planned_wf_get(1) [OF wf(1)]
    by (auto simp: domain_operations_def domain_resources_def)
  have "res_all (check_plan_resource domain) (resources_in domain resources) = Inr ()"
    by (rule res_all_ok) (rule check)
  moreover have "res_all (\<lambda>p. require_plan_operation_identity domain (op_address p) (op_type p))
      (applied @ removed) = Inr ()"
    by (rule res_all_ok) (rule ident)
  moreover have "res_all (\<lambda>a. res_bind (require_compiled_address ''startup_order address'' a) (\<lambda>_. Inr ()))
      (map op_address applied) = Inr ()"
    by (rule res_all_ok) (simp only: canonical require_compiled_address_def if_True res_bind.simps)
  moreover have "distinct (map op_address (applied @ removed))" "distinct (map op_address applied)"
    "set (map op_address applied) \<subseteq> set (map op_address (applied @ removed))"
    using ops by (auto simp: domain_operations_def)
  ultimately show ?thesis
    using startup by (elim disjE) (simp_all only: validate_plan_addresses_def res_bind.simps
        require_that_True option.case simp_thms)
qed

lemma planned_action:
  assumes "planned_wf resources" and "build_operations pm resources entries reqs = Inr (actions, deleted)"
    and "a \<in> domain_resources domain resources"
  shows "dict_has actions a"
proof -
  from assms(3) obtain r where "dict_get resources a = Some r" by (auto simp: domain_resources_def)
  from expected_action_planned [OF this, of "\<lambda>r. r" "entry_matches_resource pm reqs" entries]
  show ?thesis using build_operations_run(2) [OF assms(1,2), of a]
    by (auto intro: dict_get_Some_has)
qed

lemma operation_for:
  assumes "domain_operations domain resources entries actions applied removed"
    and "a \<in> domain_resources domain resources"
  obtains p r where "p \<in> set applied" and "op_address p = a" and "op_action p \<noteq> DELETE"
    and "dict_get resources a = Some r" and "op_type p = pr_type r"
proof -
  from assms have "a \<in> op_address ` set applied" by (simp add: domain_operations_def)
  then obtain p where "p \<in> set applied" "op_address p = a" by blast
  with assms(1) that show thesis by (auto simp: domain_operations_def applied_operation_def)
qed

lemma substrate_targets_ok:
  assumes ops: "domain_operations PROVISIONING resources entries actions applied removed"
    and "distinct (map (\<lambda>c. (pc_address c, pc_concern c)) constraints)"
    and nodes: "\<forall>c \<in> set constraints. \<exists>r. dict_get resources (pc_address c) = Some r \<and>
      pr_domain r = PROVISIONING \<and> pr_type r = ''node''"
  shows "validate_planned_substrate_targets (map (\<lambda>c. (pc_address c, pc_concern c)) constraints)
    (map op_address (filter (\<lambda>p. op_action p \<noteq> DELETE \<and> op_type p = ''node'') (applied @ removed))) = Inr ()"
proof -
  have "pc_address c \<in> op_address ` {p \<in> set (applied @ removed). op_action p \<noteq> DELETE \<and> op_type p = ''node''}"
    if c: "c \<in> set constraints" for c
  proof -
    from nodes c obtain r where r: "dict_get resources (pc_address c) = Some r"
      "pr_domain r = PROVISIONING" "pr_type r = ''node''" by blast
    then have "pc_address c \<in> domain_resources PROVISIONING resources" by (auto simp: domain_resources_def)
    from operation_for [OF ops this] r obtain p where
      "p \<in> set applied" "op_address p = pc_address c" "op_action p \<noteq> DELETE" "op_type p = ''node''"
      by (metis option.inject)
    then show ?thesis by force
  qed
  then have "set (map fst (map (\<lambda>c. (pc_address c, pc_concern c)) constraints)) \<subseteq>
      set (map op_address (filter (\<lambda>p. op_action p \<noteq> DELETE \<and> op_type p = ''node'') (applied @ removed)))"
    by (simp only: set_map set_filter image_subset_iff fst_conv ball_simps) blast
  with assms(2) show ?thesis by (simp only: validate_planned_substrate_targets_def require_that_True res_bind.simps)
qed

lemma authority_ok:
  fixes authority :: "('dom, 'st, 'doc) realization_authority list"
  assumes "planned_wf resources"
    and ops: "domain_operations domain resources entries actions applied removed"
    and "distinct (map (\<lambda>e. (ra_address e, ra_requirement_kind e)) authority)"
    and "distinct (map (\<lambda>e. (ra_address e, ra_payload_pointer e)) authority)"
  shows "validate_realization_authority (applied @ removed)
    (filter (\<lambda>e. dict_has (resources_in domain resources) (ra_address e)) authority) = Inr ()"
proof -
  let ?auth = "filter (\<lambda>e. dict_has (resources_in domain resources) (ra_address e)) authority"
  have "ra_address e \<in> op_address ` {p \<in> set (applied @ removed). op_action p \<noteq> DELETE}"
    if "e \<in> set ?auth" for e
  proof -
    have "ra_address e \<in> domain_resources domain resources"
      using that keys_resources_in [OF assms(1), of domain] by (simp add: dict_has_def)
    then obtain p where "p \<in> set applied" "op_address p = ra_address e" "op_action p \<noteq> DELETE"
      by (rule operation_for [OF ops])
    then show ?thesis by (intro image_eqI [of _ _ p]) simp_all
  qed
  then have "set (map ra_address ?auth) \<subseteq>
      set (map op_address (filter (\<lambda>p. op_action p \<noteq> DELETE) (applied @ removed)))"
    by (simp only: set_map set_filter image_subset_iff) blast
  moreover have "distinct (map (\<lambda>e. (ra_address e, ra_requirement_kind e)) ?auth)"
    "distinct (map (\<lambda>e. (ra_address e, ra_payload_pointer e)) ?auth)"
    using assms(3,4) by (simp_all only: distinct_map_filter)
  ultimately show ?thesis
    by (simp only: validate_realization_authority_def require_that_True res_bind.simps)
qed

section \<open>The three plans\<close>

text \<open>
  C3. A provisioning plan can always be built, and it is the reconciliation of its domain: the
  constructor accepts it, every address occurs in one operation at most, the leading operations
  are exactly the planned provisioning resources with the action reconciliation chose (never a
  deletion), and the trailing ones are exactly the deletions of the provisioning entries that
  are no longer planned. What the caller has to supply is well-formed input, substrate
  constraints on distinct provisioning nodes and unambiguous realization authority.
\<close>

theorem build_provisioning_plan_complete:
  fixes resources :: "(address, 'b planned_resource) pydict"
    and authority :: "('dom, 'st, 'doc) realization_authority list"
  assumes wf: "planned_wf resources" "entries_wf entries"
    and built: "build_operations pm resources entries reqs = Inr (actions, deleted)"
    and constraints: "res_map (plan_constraint vocabulary) (substrate_requirements qs) = Inr constraints"
      "distinct (map (\<lambda>c. (pc_address c, pc_concern c)) constraints)"
      "\<forall>c \<in> set constraints. \<exists>r. dict_get resources (pc_address c) = Some r \<and>
         pr_domain r = PROVISIONING \<and> pr_type r = ''node''"
    and authority: "distinct (map (\<lambda>e. (ra_address e, ra_requirement_kind e)) authority)"
      "distinct (map (\<lambda>e. (ra_address e, ra_payload_pointer e)) authority)"
  shows "\<exists>plan applied removed.
    build_provisioning_plan vocabulary resources actions deleted envelope qs authority demands = Inr plan \<and>
    pp_operations plan = applied @ removed \<and>
    domain_operations PROVISIONING resources entries actions applied removed"
proof -
  let ?rs = "resources_in PROVISIONING resources"
  note del = build_operations_run(1) [OF wf(1) built]
  have wfs: "planned_wf ?rs" "entries_wf deleted" "entries_wf (entries_in PROVISIONING deleted)"
    using wf by (simp_all add: resources_in_def planned_wf_filter del removed_entries_wf entries_in_def entries_wf_filter)
  obtain order where order: "resource_topological_order ?rs = Inr order" "distinct order"
    "set order = set (dict_keys ?rs)" using resource_order_run [OF planned_wf_valid [OF wfs(1)]] by blast
  obtain order' where order': "delete_order (entries_in PROVISIONING deleted) = Inr order'" "distinct order'"
    "set order' = set (dict_keys (entries_in PROVISIONING deleted))" using delete_order_run [OF wfs(3)] by blast
  have acts: "dict_has actions a" if "a \<in> set order" for a
    by (rule planned_action [OF wf(1) built]) (use that order(3) in \<open>simp add: keys_resources_in wf(1)\<close>)
  obtain applied where applied: "res_map (provision_apply_operation ?rs actions) order = Inr applied"
    "map op_address applied = order" "\<forall>p \<in> set applied. applied_operation ?rs actions p"
    using operations_run [of order "provision_apply_operation ?rs actions" "applied_operation ?rs actions"]
      apply_operation_run(2) [OF wfs(1)] order(3) acts by (auto simp: dict_has_def)
  obtain removed where removed: "res_map (provision_delete_operation deleted) order' = Inr removed"
    "map op_address removed = order'" "\<forall>p \<in> set removed. removed_operation deleted p"
    using operations_run [of order' "provision_delete_operation deleted" "removed_operation deleted"]
      delete_operation_run(2) [OF wfs(2)] order'(3) by (auto simp: dict_has_def entries_in_def dict_keys_def)
  have ops: "domain_operations PROVISIONING resources entries actions applied removed"
    by (rule domain_operationsI [OF wf built order(2,3) order'(2,3) applied(2,3) removed(2,3)])
  let ?auth = "filter (\<lambda>e. dict_has ?rs (ra_address e)) authority"
  have "validate_plan_addresses ?rs (applied @ removed) None PROVISIONING = Inr ()"
    by (rule domain_operations_valid [OF wf _ ops]) simp_all
  moreover have "validate_planned_substrate_targets (map (\<lambda>c. (pc_address c, pc_concern c)) constraints)
      (map op_address (filter (\<lambda>p. op_action p \<noteq> DELETE \<and> op_type p = ''node'') (applied @ removed))) = Inr ()"
    by (rule substrate_targets_ok [OF ops constraints(2,3)])
  moreover have "validate_realization_authority (applied @ removed) ?auth = Inr ()"
    by (rule authority_ok [OF wf(1) ops authority])
  ultimately show ?thesis
    using order(1) order'(1) applied(1) removed(1) constraints(1) ops
    by (auto simp: build_provisioning_plan_def Let_def ordered_apply_ops_def ordered_delete_ops_def
        make_provisioning_plan_def)
qed

lemma ordered_plan_run:
  fixes resources :: "(address, 'b planned_resource) pydict"
  assumes wf: "planned_wf resources" "entries_wf entries" and dom: "domain \<noteq> PARTICIPANT"
    and built: "build_operations pm resources entries reqs = Inr (actions, deleted)"
  shows "\<exists>startup applied order removed.
    resource_topological_order (resources_in domain resources) = Inr startup \<and>
    res_map (apply_operation (resources_in domain resources) actions) startup = Inr applied \<and>
    delete_order (entries_in domain deleted) = Inr order \<and>
    res_map (delete_operation deleted) order = Inr removed \<and>
    validate_plan_addresses (resources_in domain resources) (applied @ removed) (Some startup) domain = Inr () \<and>
    map op_address applied = startup \<and>
    domain_operations domain resources entries actions applied removed"
proof -
  let ?rs = "resources_in domain resources"
  note del = build_operations_run(1) [OF wf(1) built]
  have wfs: "planned_wf ?rs" "entries_wf deleted" "entries_wf (entries_in domain deleted)"
    using wf by (simp_all add: resources_in_def planned_wf_filter del removed_entries_wf entries_in_def entries_wf_filter)
  obtain startup where startup: "resource_topological_order ?rs = Inr startup" "distinct startup"
    "set startup = set (dict_keys ?rs)" using resource_order_run [OF planned_wf_valid [OF wfs(1)]] by blast
  obtain order where order: "delete_order (entries_in domain deleted) = Inr order" "distinct order"
    "set order = set (dict_keys (entries_in domain deleted))" using delete_order_run [OF wfs(3)] by blast
  have acts: "dict_has actions a" if "a \<in> set startup" for a
    by (rule planned_action [OF wf(1) built]) (use that startup(3) in \<open>simp add: keys_resources_in wf(1)\<close>)
  obtain applied where applied: "res_map (apply_operation ?rs actions) startup = Inr applied"
    "map op_address applied = startup" "\<forall>p \<in> set applied. applied_operation ?rs actions p"
    using operations_run [of startup "apply_operation ?rs actions" "applied_operation ?rs actions"]
      apply_operation_run(1) [OF wfs(1)] startup(3) acts by (auto simp: dict_has_def)
  have has: "dict_has deleted a" if "a \<in> set order" for a
    using that order(3) by (auto simp: dict_has_def entries_in_def dict_keys_def)
  have "\<exists>p. delete_operation deleted a = Inr p \<and> op_address p = a \<and> removed_operation deleted p"
    if "a \<in> set order" for a by (rule delete_operation_run(1) [OF wfs(2) has [OF that]])
  from operations_run [of order "delete_operation deleted" "removed_operation deleted", OF this]
  obtain removed where removed: "res_map (delete_operation deleted) order = Inr removed"
    "map op_address removed = order" "\<forall>p \<in> set removed. removed_operation deleted p" by blast
  have ops: "domain_operations domain resources entries actions applied removed"
    by (rule domain_operationsI [OF wf built startup(2,3) order(2,3) applied(2,3) removed(2,3)])
  have "validate_plan_addresses ?rs (applied @ removed) (Some startup) domain = Inr ()"
    by (rule domain_operations_valid [OF wf dom ops]) (simp add: applied(2))
  with startup(1) order(1) applied removed(1) ops show ?thesis by blast
qed

lemma ordered_plan_built:
  assumes "resource_topological_order (resources_in domain resources) = Inr startup"
    and "res_map (apply_operation (resources_in domain resources) actions) startup = Inr applied"
    and "delete_order (entries_in domain deleted) = Inr order"
    and "res_map (delete_operation deleted) order = Inr removed"
    and "validate_plan_addresses (resources_in domain resources) (applied @ removed) (Some startup) domain = Inr ()"
  shows "domain = ORCHESTRATION \<Longrightarrow> build_orchestration_plan resources actions deleted demands =
      Inr \<lparr>sp_resources = resources_in domain resources, sp_operations = applied @ removed,
        sp_startup_order = startup, sp_observation_demands = demands\<rparr>"
    and "domain = EVALUATION \<Longrightarrow> build_evaluation_plan resources actions deleted demands =
      Inr \<lparr>sp_resources = resources_in domain resources, sp_operations = applied @ removed,
        sp_startup_order = startup, sp_observation_demands = demands\<rparr>"
  using assms
  by (simp_all add: build_orchestration_plan_def build_evaluation_plan_def
      make_orchestration_plan_def make_evaluation_plan_def)

text \<open>
  Orchestration and evaluation plans can always be built from well-formed inputs: the
  constructors accept them, the startup order lists exactly the planned resources of the domain,
  the operations apply them in that order with the reconciled action and then delete exactly the
  entries of the domain that are no longer planned, and no address occurs twice.
\<close>

lemma build_ordered_plans_complete:
  fixes resources :: "(address, 'b planned_resource) pydict"
  assumes "planned_wf resources" and "entries_wf entries"
    and "build_operations pm resources entries reqs = Inr (actions, deleted)"
  shows "(\<exists>plan applied removed. build_orchestration_plan resources actions deleted demands = Inr plan \<and>
      sp_operations plan = applied @ removed \<and> sp_startup_order plan = map op_address applied \<and>
      domain_operations ORCHESTRATION resources entries actions applied removed) \<and>
    (\<exists>plan applied removed. build_evaluation_plan resources actions deleted demands = Inr plan \<and>
      sp_operations plan = applied @ removed \<and> sp_startup_order plan = map op_address applied \<and>
      domain_operations EVALUATION resources entries actions applied removed)"
proof
  from ordered_plan_run [OF assms(1,2) _ assms(3), of ORCHESTRATION] obtain applied order removed where
    run: "resource_topological_order (resources_in ORCHESTRATION resources) = Inr (map op_address applied)"
      "res_map (apply_operation (resources_in ORCHESTRATION resources) actions) (map op_address applied) = Inr applied"
      "delete_order (entries_in ORCHESTRATION deleted) = Inr order"
      "res_map (delete_operation deleted) order = Inr removed"
      "validate_plan_addresses (resources_in ORCHESTRATION resources) (applied @ removed)
        (Some (map op_address applied)) ORCHESTRATION = Inr ()"
    and ops: "domain_operations ORCHESTRATION resources entries actions applied removed" by blast
  show "\<exists>plan applied removed. build_orchestration_plan resources actions deleted demands = Inr plan \<and>
      sp_operations plan = applied @ removed \<and> sp_startup_order plan = map op_address applied \<and>
      domain_operations ORCHESTRATION resources entries actions applied removed"
    by (intro exI conjI, rule ordered_plan_built(1) [OF run refl], use ops in simp_all)
next
  from ordered_plan_run [OF assms(1,2) _ assms(3), of EVALUATION] obtain applied order removed where
    run: "resource_topological_order (resources_in EVALUATION resources) = Inr (map op_address applied)"
      "res_map (apply_operation (resources_in EVALUATION resources) actions) (map op_address applied) = Inr applied"
      "delete_order (entries_in EVALUATION deleted) = Inr order"
      "res_map (delete_operation deleted) order = Inr removed"
      "validate_plan_addresses (resources_in EVALUATION resources) (applied @ removed)
        (Some (map op_address applied)) EVALUATION = Inr ()"
    and ops: "domain_operations EVALUATION resources entries actions applied removed" by blast
  show "\<exists>plan applied removed. build_evaluation_plan resources actions deleted demands = Inr plan \<and>
      sp_operations plan = applied @ removed \<and> sp_startup_order plan = map op_address applied \<and>
      domain_operations EVALUATION resources entries actions applied removed"
    by (intro exI conjI, rule ordered_plan_built(2) [OF run refl], use ops in simp_all)
qed

section \<open>Witnesses\<close>

definition demo_node :: "address \<Rightarrow> runtime_domain \<Rightarrow> string \<Rightarrow> address list \<Rightarrow> unit planned_resource" where
  "demo_node a domain rtype deps =
     \<lparr>ordering_dependencies = deps, refresh_dependencies = [], pr_address = a, pr_domain = domain,
      pr_type = rtype, pr_payload = PyDict [(''name'', PyStr ''demo'')], pr_profile_bindings = []\<rparr>"

definition demo_entry :: "address \<Rightarrow> runtime_domain \<Rightarrow> string \<Rightarrow> unit snapshot_entry" where
  "demo_entry a domain rtype =
     \<lparr>ordering_dependencies = [], refresh_dependencies = [], se_address = a, se_domain = domain,
      se_type = rtype, se_payload = PyDict [], se_status = ''ready'', se_profile_bindings = []\<rparr>"

definition demo_planned :: "(address, unit planned_resource) pydict" where
  "demo_planned =
     [(''provision.web'', demo_node ''provision.web'' PROVISIONING ''node'' [''provision.net'']),
      (''provision.net'', demo_node ''provision.net'' PROVISIONING ''network'' []),
      (''orchestration.go'', demo_node ''orchestration.go'' ORCHESTRATION ''event'' [])]"

definition demo_entries :: "(address, unit snapshot_entry) pydict" where
  "demo_entries =
     [(''provision.net'', demo_entry ''provision.net'' PROVISIONING ''network''),
      (''provision.old'', demo_entry ''provision.old'' PROVISIONING ''node''),
      (''evaluation.old'', demo_entry ''evaluation.old'' EVALUATION ''objective'')]"

definition demo_match :: "address \<Rightarrow> py_value \<Rightarrow> py_value \<Rightarrow> unit list \<Rightarrow> bool" where
  "demo_match a v w reqs \<longleftrightarrow> v = w"

lemma demo_wf: "planned_wf demo_planned" "entries_wf demo_entries"
  by code_simp+

lemma demo_address: "require_compiled_address f ''provision.web'' = Inr ''provision.web''"
proof -
  have "compiled_address ''provision.web''" by code_simp
  then show ?thesis by simp
qed

lemma demo_built:
  "build_operations demo_match demo_planned demo_entries [] =
     Inr ([(''provision.web'', CREATE), (''provision.net'', UPDATE), (''orchestration.go'', CREATE),
           (''provision.old'', DELETE), (''evaluation.old'', DELETE)],
          [(''provision.old'', demo_entry ''provision.old'' PROVISIONING ''node''),
           (''evaluation.old'', demo_entry ''evaluation.old'' EVALUATION ''objective'')])"
  by code_simp

theorem build_provisioning_plan_complete_witness:
  "\<exists>plan :: (unit, unit, unit, unit, unit, unit) provisioning_plan.
     build_provisioning_plan (\<lambda>_ _. Inr ()) demo_planned
       [(''provision.web'', CREATE), (''provision.net'', UPDATE), (''orchestration.go'', CREATE),
        (''provision.old'', DELETE), (''evaluation.old'', DELETE)]
       [(''provision.old'', demo_entry ''provision.old'' PROVISIONING ''node''),
        (''evaluation.old'', demo_entry ''evaluation.old'' EVALUATION ''objective'')]
       None
       [\<lparr>rq_address = ''provision.web'', rq_field_path = ''spec.node'', rq_requirement_kind = ''compute-substrate'',
         rq_explicitness = Some ''exact'', rq_value_domain = Some (ExactDomain (PyStr ''vm'')),
         rq_governing_scope = None, rq_constraint_provenance = None\<rparr>] [] [] = Inr plan"
  using build_provisioning_plan_complete [OF demo_wf demo_built, where vocabulary = "\<lambda>_ _. Inr ()"
      and qs = "[\<lparr>rq_address = ''provision.web'', rq_field_path = ''spec.node'', rq_requirement_kind = ''compute-substrate'',
         rq_explicitness = Some ''exact'', rq_value_domain = Some (ExactDomain (PyStr ''vm'')),
         rq_governing_scope = None, rq_constraint_provenance = None\<rparr>]"
      and constraints = "[\<lparr>pc_address = ''provision.web'', pc_field_path = ''spec.node'',
         pc_concern = ''compute-substrate'', pc_posture = ''exact'',
         pc_value_domain = Some (ExactDomain (PyStr ''vm'')), pc_governing_scope = ''#/'',
         pc_provenance = ''author-declared''\<rparr>]"
      and authority = "[] :: (unit, unit, unit) realization_authority list"
      and envelope = "None :: unit option" and demands = "[] :: unit list"]
  by (auto simp: demo_planned_def demo_node_def dict_get_def substrate_requirements_def plan_constraint_def
      make_planned_constraint_def or_default_def validate_compute_substrate_constraint_def demo_address)

lemma build_ordered_plans_complete_witness:
  "\<exists>plan :: (unit, unit) ordered_plan. build_orchestration_plan demo_planned
      [(''provision.web'', CREATE), (''provision.net'', UPDATE), (''orchestration.go'', CREATE),
       (''provision.old'', DELETE), (''evaluation.old'', DELETE)]
      [(''provision.old'', demo_entry ''provision.old'' PROVISIONING ''node''),
       (''evaluation.old'', demo_entry ''evaluation.old'' EVALUATION ''objective'')] [] = Inr plan"
  using build_ordered_plans_complete [OF demo_wf demo_built, of "[] :: unit list"] by blast

end
