(* ===== verification/Py_Text.thy ===== *)
theory Py_Text
  imports Py_Values
begin

text \<open>
  Texts of Python values: decimal numbers, \<open>str\<close> and \<open>repr\<close>, and enumerations with string
  values. The decimal rendering of a \<open>float\<close> is a parameter; everything else is written out,
  on the Latin-1 range.
\<close>

section \<open>Digits\<close>

definition hex_digit :: "nat \<Rightarrow> char" where
  "hex_digit n = ''0123456789abcdef'' ! n"

fun nat_text :: "nat \<Rightarrow> string" where
  "nat_text n = (if n < 10 then [hex_digit n] else nat_text (n div 10) @ [hex_digit (n mod 10)])"

declare nat_text.simps [simp del]

definition int_text :: "int \<Rightarrow> string" where
  "int_text i = (if i < 0 then CHR ''-'' # nat_text (nat (- i)) else nat_text (nat i))"

text \<open>Decimal texts are distinct, and made of digits and a sign.\<close>

lemma decimal_digit_inj: "m < 10 \<Longrightarrow> n < 10 \<Longrightarrow> hex_digit m = hex_digit n \<Longrightarrow> m = n"
proof -
  have "list_all (\<lambda>m. list_all (\<lambda>n. hex_digit m = hex_digit n \<longrightarrow> m = n) [0..<10]) [0..<10]" by code_simp
  then show "m < 10 \<Longrightarrow> n < 10 \<Longrightarrow> hex_digit m = hex_digit n \<Longrightarrow> m = n" by (simp add: list_all_iff)
qed

lemma decimal_digit_plain: "n < 10 \<Longrightarrow> hex_digit n \<notin> {CHR ''='', CHR '':'', CHR ''-''}"
proof -
  have "list_all (\<lambda>n. hex_digit n \<notin> {CHR ''='', CHR '':'', CHR ''-''}) [0..<10]" by code_simp
  then show "n < 10 \<Longrightarrow> ?thesis" by (simp add: list_all_iff)
qed

lemma nat_text_small: "n < 10 \<Longrightarrow> nat_text n = [hex_digit n]"
  by (simp add: nat_text.simps [of n])

lemma nat_text_large: "\<not> n < 10 \<Longrightarrow> nat_text n = nat_text (n div 10) @ [hex_digit (n mod 10)]"
  by (simp add: nat_text.simps [of n])

lemma nat_text_ne: "nat_text n \<noteq> []"
  by (cases "n < 10") (simp_all add: nat_text_small nat_text_large)

lemma nat_text_plain: "set (nat_text n) \<inter> {CHR ''='', CHR '':'', CHR ''-''} = {}"
proof (induction n rule: nat_text.induct)
  case (1 n)
  show ?case
  proof (cases "n < 10")
    case True
    with decimal_digit_plain [OF True] show ?thesis by (simp add: nat_text_small)
  next
    case False
    with 1 decimal_digit_plain [of "n mod 10"] show ?thesis by (simp add: nat_text_large)
  qed
qed

lemma nat_text_inj: "nat_text m = nat_text n \<Longrightarrow> m = n"
proof (induction m arbitrary: n rule: nat_text.induct)
  case (1 m)
  show ?case
  proof (cases "m < 10"; cases "n < 10")
    assume "m < 10" "n < 10"
    with "1.prems" show ?thesis using decimal_digit_inj by (simp add: nat_text_small)
  next
    assume a: "m < 10" "\<not> n < 10"
    with "1.prems" show ?thesis using nat_text_ne [of "n div 10"] by (simp add: nat_text_small nat_text_large)
  next
    assume a: "\<not> m < 10" "n < 10"
    with "1.prems" show ?thesis using nat_text_ne [of "m div 10"] by (simp add: nat_text_small nat_text_large)
  next
    assume a: "\<not> m < 10" "\<not> n < 10"
    then have "nat_text (m div 10) = nat_text (n div 10)" "hex_digit (m mod 10) = hex_digit (n mod 10)"
      using "1.prems" by (simp_all add: nat_text_large)
    then have "m div 10 = n div 10" "m mod 10 = n mod 10"
      using "1.IH" a(1) decimal_digit_inj [of "m mod 10" "n mod 10"] by simp_all
    then show ?thesis by (metis div_mult_mod_eq)
  qed
qed

lemma int_text_inj: "int_text i = int_text j \<Longrightarrow> i = j"
proof (cases "i < 0"; cases "j < 0")
  assume "i < 0" "j < 0" "int_text i = int_text j"
  then show ?thesis using nat_text_inj [of "nat (- i)" "nat (- j)"] by (simp add: int_text_def)
next
  assume "i < 0" "\<not> j < 0" "int_text i = int_text j"
  then show ?thesis using nat_text_plain [of "nat j"] by (simp add: int_text_def) (metis list.set_intros(1))
next
  assume "\<not> i < 0" "j < 0" "int_text i = int_text j"
  then show ?thesis using nat_text_plain [of "nat i"] by (simp add: int_text_def)
next
  assume "\<not> i < 0" "\<not> j < 0" "int_text i = int_text j"
  then show ?thesis using nat_text_inj [of "nat i" "nat j"] by (simp add: int_text_def)
qed

lemma int_text_plain: "CHR ''='' \<notin> set (int_text i)" "CHR '':'' \<notin> set (int_text i)"
  using nat_text_plain [of "nat i"] nat_text_plain [of "nat (- i)"] by (auto simp: int_text_def)

text \<open>A text splits in one way at the first and at the last occurrence of a character.\<close>

lemma split_at_first:
  "a @ c # d = b @ c # e \<Longrightarrow> c \<notin> set a \<Longrightarrow> c \<notin> set b \<Longrightarrow> a = b \<and> d = e"
proof (induction a arbitrary: b)
  case Nil
  then show ?case by (cases b) auto
next
  case (Cons x a)
  then show ?case by (cases b) auto
qed

lemma split_at_last:
  assumes "a @ c # d = b @ c # e" and "c \<notin> set d" and "c \<notin> set e"
  shows "a = b \<and> d = e"
proof -
  have "rev d @ c # rev a = rev e @ c # rev b" using arg_cong [OF assms(1), of rev] by simp
  then have "rev d = rev e \<and> rev a = rev b" by (rule split_at_first) (use assms in simp_all)
  then show ?thesis by simp
qed

section \<open>\<open>repr\<close> and \<open>str\<close>\<close>

definition py_printable :: "char \<Rightarrow> bool" where
  "py_printable c \<longleftrightarrow>
     (let n = of_char c :: nat in (32 \<le> n \<and> n < 127) \<or> (161 \<le> n \<and> n \<noteq> 173))"

definition repr_char :: "char \<Rightarrow> char \<Rightarrow> string" where
  "repr_char q c =
     (if c = q \<or> c = CHR 0x5C then [CHR 0x5C, c]
      else if c = CHR 0x0A then [CHR 0x5C, CHR ''n'']
      else if c = CHR 0x0D then [CHR 0x5C, CHR ''r'']
      else if c = CHR 0x09 then [CHR 0x5C, CHR ''t'']
      else if py_printable c then [c]
      else [CHR 0x5C, CHR ''x'', hex_digit (of_char c div 16), hex_digit (of_char c mod 16)])"

definition repr_text :: "string \<Rightarrow> string" where
  "repr_text s =
     (let q = (if CHR 0x27 \<in> set s \<and> CHR 0x22 \<notin> set s then CHR 0x22 else CHR 0x27) in
      q # concat (map (repr_char q) s) @ [q])"

fun join_comma :: "string list \<Rightarrow> string" where
  "join_comma [] = []"
| "join_comma [s] = s"
| "join_comma (s # ss) = s @ '', '' @ join_comma ss"

fun py_repr :: "(64 word \<Rightarrow> string) \<Rightarrow> py_value \<Rightarrow> string" where
  "py_repr float_text PyNone = ''None''"
| "py_repr float_text (PyBool b) = (if b then ''True'' else ''False'')"
| "py_repr float_text (PyInt i) = int_text i"
| "py_repr float_text (PyFloat w) = float_text w"
| "py_repr float_text (PyStr s) = repr_text s"
| "py_repr float_text (PyList vs) = ''['' @ join_comma (map (py_repr float_text) vs) @ '']''"
| "py_repr float_text (PyDict d) =
     ''{'' @ join_comma (map (\<lambda>(k, v). repr_text k @ '': '' @ py_repr float_text v) d) @ ''}''"

fun py_str :: "(64 word \<Rightarrow> string) \<Rightarrow> py_value \<Rightarrow> string" where
  "py_str float_text (PyStr s) = s"
| "py_str float_text v = py_repr float_text v"

section \<open>Enumerations with string values\<close>

text \<open>\<open>enum_value\<close> of \<open>raes_contracts/_validation.py\<close> over a payload value.\<close>

definition enum_value :: "(64 word \<Rightarrow> string) \<Rightarrow> ('e \<Rightarrow> string) \<Rightarrow> 'e list \<Rightarrow> py_value \<Rightarrow> 'e res" where
  "enum_value float_text text_of members raw =
     (case List.find (\<lambda>e. text_of e = py_str float_text raw) members of
        None \<Rightarrow> Inl (ValueError ''not a valid enumeration value'')
      | Some e \<Rightarrow> Inr e)"

fun optional_enum_value ::
  "(64 word \<Rightarrow> string) \<Rightarrow> ('e \<Rightarrow> string) \<Rightarrow> 'e list \<Rightarrow> py_value \<Rightarrow> 'e option res" where
  "optional_enum_value float_text text_of members PyNone = Inr None"
| "optional_enum_value float_text text_of members raw =
     res_bind (enum_value float_text text_of members raw) (\<lambda>e. Inr (Some e))"

lemma enum_value_text:
  assumes "e \<in> set members" and "inj_on text_of (set members)"
  shows "enum_value float_text text_of members (PyStr (text_of e)) = Inr e"
proof -
  have "List.find (\<lambda>x. text_of x = text_of e) members = Some e"
    using assms
  proof (induction members)
    case Nil
    then show ?case by simp
  next
    case (Cons x xs)
    then show ?case by (auto simp: inj_on_def)
  qed
  then show ?thesis by (simp add: enum_value_def)
qed

text \<open>A value that is \<open>None\<close> or a string.\<close>

definition py_opt :: "('a \<Rightarrow> string) \<Rightarrow> 'a option \<Rightarrow> py_value" where
  "py_opt text_of v = (case v of None \<Rightarrow> PyNone | Some x \<Rightarrow> PyStr (text_of x))"

lemma optional_enum_value_text:
  assumes "\<And>e. v = Some e \<Longrightarrow> e \<in> set members" and "inj_on text_of (set members)"
  shows "optional_enum_value float_text text_of members (py_opt text_of v) = Inr v"
  using assms by (cases v) (simp_all add: py_opt_def enum_value_text)

section \<open>Payload fields\<close>

text \<open>\<open>str(payload[k]) if payload.get(k) is not None else None\<close>.\<close>

definition optional_text :: "(64 word \<Rightarrow> string) \<Rightarrow> (string, py_value) pydict \<Rightarrow> string \<Rightarrow> string option" where
  "optional_text float_text d k =
     (if py_get d k = PyNone then None else Some (py_str float_text (py_get d k)))"

definition require_keys :: "string list \<Rightarrow> (string, py_value) pydict \<Rightarrow> string \<Rightarrow> unit res" where
  "require_keys ks d message = require_that (list_all (dict_has d) ks) (ValueError message)"

fun py_int :: "py_value \<Rightarrow> string \<Rightarrow> int res" where
  "py_int (PyInt i) message = Inr i"
| "py_int v message = Inl (TypeError message)"

definition require_non_empty_string :: "string \<Rightarrow> string \<Rightarrow> unit res" where
  "require_non_empty_string s field = require_that (s \<noteq> []) (TypeError (field @ '' must be a non-empty string''))"

definition require_optional_non_empty_string :: "string option \<Rightarrow> string \<Rightarrow> unit res" where
  "require_optional_non_empty_string s field =
     require_that (s \<noteq> Some []) (TypeError (field @ '' must be a non-empty string or None''))"

definition require_non_negative_int :: "int \<Rightarrow> string \<Rightarrow> unit res" where
  "require_non_negative_int i field = require_that (0 \<le> i) (ValueError (field @ '' must be >= 0''))"

lemma require_field_Inr [simp]:
  "require_keys ks d m = Inr u \<longleftrightarrow> list_all (dict_has d) ks"
  "require_non_empty_string s f = Inr u \<longleftrightarrow> s \<noteq> []"
  "require_optional_non_empty_string o' f = Inr u \<longleftrightarrow> o' \<noteq> Some []"
  "require_non_negative_int i f = Inr u \<longleftrightarrow> 0 \<le> i"
  by (simp_all add: require_keys_def require_non_empty_string_def require_optional_non_empty_string_def
      require_non_negative_int_def)

lemma py_int_Inr [simp]: "py_int v m = Inr i \<longleftrightarrow> v = PyInt i"
  by (cases v) auto

end
