(* ===== verification/Resource_Types.thy ===== *)
theory Resource_Types
  imports Py_Text
begin

text \<open>
  Literals, identities and quantity rules of participant resource budgets,
  \<open>raes_contracts/contracts/participant_resource_types.py\<close>. The literal types are
  enumerations with their wire texts; SHA-256 in hexadecimal is the parameter \<open>sha256\<close>.
  The identity of a physical pool hashes a JSON array of seven strings; the array is
  modelled to the character and is proved to determine all seven.
\<close>

section \<open>Literals\<close>

datatype owner_kind = PARTICIPANT_OWNER | DEPLOYMENT_TENANT | SHARED_SERVICE | FLEET

datatype resource_kind =
    ACTION_RATE | CONCURRENT_ACTIONS | STORAGE_GROWTH | INFERENCE_TOKENS | IMAGE_GENERATIONS | ACCELERATOR

datatype accounting_mode =
    WINDOWED_COUNTER | CUMULATIVE_COUNTER | RESERVABLE_GAUGE | GROWTH_COUNTER | LEASE

datatype reset_mode = RESET_EPISODE | RESET_TIME_SEGMENT | RESET_RUN | RESET_RECONCILED

datatype isolation_strength = ISOLATION_NONE | ISOLATION_STATELESS | TENANT_PARTITIONED

datatype budget_transition = RESERVE | COMMIT | RELEASE | THROTTLE | REJECT | RECONCILE

datatype budget_disposition =
    RESERVED | COMMITTED | RELEASED | THROTTLED | REJECTED | RECONCILED

fun owner_kind_text :: "owner_kind \<Rightarrow> string" where
  "owner_kind_text PARTICIPANT_OWNER = ''participant''"
| "owner_kind_text DEPLOYMENT_TENANT = ''deployment_tenant''"
| "owner_kind_text SHARED_SERVICE = ''shared_service''"
| "owner_kind_text FLEET = ''fleet''"

fun resource_kind_text :: "resource_kind \<Rightarrow> string" where
  "resource_kind_text ACTION_RATE = ''action_rate''"
| "resource_kind_text CONCURRENT_ACTIONS = ''concurrent_actions''"
| "resource_kind_text STORAGE_GROWTH = ''storage_growth''"
| "resource_kind_text INFERENCE_TOKENS = ''inference_tokens''"
| "resource_kind_text IMAGE_GENERATIONS = ''image_generations''"
| "resource_kind_text ACCELERATOR = ''accelerator''"

fun accounting_mode_text :: "accounting_mode \<Rightarrow> string" where
  "accounting_mode_text WINDOWED_COUNTER = ''windowed_counter''"
| "accounting_mode_text CUMULATIVE_COUNTER = ''cumulative_counter''"
| "accounting_mode_text RESERVABLE_GAUGE = ''reservable_gauge''"
| "accounting_mode_text GROWTH_COUNTER = ''growth_counter''"
| "accounting_mode_text LEASE = ''lease''"

fun reset_mode_text :: "reset_mode \<Rightarrow> string" where
  "reset_mode_text RESET_EPISODE = ''episode''"
| "reset_mode_text RESET_TIME_SEGMENT = ''time_segment''"
| "reset_mode_text RESET_RUN = ''run''"
| "reset_mode_text RESET_RECONCILED = ''reconciled''"

fun resource_unit :: "resource_kind \<Rightarrow> string" where
  "resource_unit ACTION_RATE = ''actions''"
| "resource_unit CONCURRENT_ACTIONS = ''actions''"
| "resource_unit STORAGE_GROWTH = ''bytes''"
| "resource_unit INFERENCE_TOKENS = ''tokens''"
| "resource_unit IMAGE_GENERATIONS = ''images''"
| "resource_unit ACCELERATOR = ''accelerator_milliseconds''"

fun resource_accounting :: "resource_kind \<Rightarrow> accounting_mode list" where
  "resource_accounting ACTION_RATE = [WINDOWED_COUNTER]"
| "resource_accounting CONCURRENT_ACTIONS = [RESERVABLE_GAUGE]"
| "resource_accounting STORAGE_GROWTH = [GROWTH_COUNTER]"
| "resource_accounting INFERENCE_TOKENS = [WINDOWED_COUNTER, CUMULATIVE_COUNTER]"
| "resource_accounting IMAGE_GENERATIONS = [WINDOWED_COUNTER, CUMULATIVE_COUNTER]"
| "resource_accounting ACCELERATOR = [LEASE]"

fun event_disposition :: "budget_transition \<Rightarrow> budget_disposition" where
  "event_disposition RESERVE = RESERVED"
| "event_disposition COMMIT = COMMITTED"
| "event_disposition RELEASE = RELEASED"
| "event_disposition THROTTLE = THROTTLED"
| "event_disposition REJECT = REJECTED"
| "event_disposition RECONCILE = RECONCILED"

definition require_quantity_semantics :: "resource_kind \<Rightarrow> string \<Rightarrow> accounting_mode \<Rightarrow> unit res" where
  "require_quantity_semantics kind uname mode =
     res_bind (require_that (uname = resource_unit kind)
         (ValueError (resource_kind_text kind @ '' resource quantity requires unit ''))) (\<lambda>_.
       require_that (mode \<in> set (resource_accounting kind))
         (ValueError (resource_kind_text kind @ '' resource quantity does not support accounting mode '')))"

section \<open>Identities\<close>

definition participant_resource_budget_state_ref :: "string \<Rightarrow> string \<Rightarrow> string" where
  "participant_resource_budget_state_ref policy_address budget_id =
     policy_address @ ''.resource-budget-state.'' @ budget_id"

text \<open>
  \<open>json.dumps\<close> of a tuple of strings with \<open>separators=(",", ":")\<close>: printable ASCII other than
  quote and backslash is copied, five control characters have short escapes, everything else is
  written as four lower-case hexadecimal digits.
\<close>

definition json_char :: "char \<Rightarrow> string" where
  "json_char c =
     (if c = CHR 0x22 then [CHR 0x5C, CHR 0x22]
      else if c = CHR 0x5C then [CHR 0x5C, CHR 0x5C]
      else if c = CHR 0x0A then [CHR 0x5C, CHR ''n'']
      else if c = CHR 0x0D then [CHR 0x5C, CHR ''r'']
      else if c = CHR 0x09 then [CHR 0x5C, CHR ''t'']
      else if c = CHR 0x0C then [CHR 0x5C, CHR ''f'']
      else if c = CHR 0x08 then [CHR 0x5C, CHR ''b'']
      else if 32 \<le> (of_char c :: nat) \<and> (of_char c :: nat) \<le> 126 then [c]
      else [CHR 0x5C, CHR ''u'', CHR ''0'', CHR ''0'',
            hex_digit (of_char c div 16), hex_digit (of_char c mod 16)])"

definition json_text :: "string \<Rightarrow> string" where
  "json_text s = CHR 0x22 # concat (map json_char s) @ [CHR 0x22]"

fun json_items :: "string list \<Rightarrow> string" where
  "json_items [] = []"
| "json_items [s] = json_text s"
| "json_items (s # ss) = json_text s @ CHR '','' # json_items ss"

definition json_array :: "string list \<Rightarrow> string" where
  "json_array ss = CHR ''['' # json_items ss @ [CHR '']'']"

definition participant_resource_pool_state_ref ::
  "(string \<Rightarrow> string) \<Rightarrow> string \<Rightarrow> owner_kind \<Rightarrow> string \<Rightarrow> resource_kind \<Rightarrow> string \<Rightarrow>
     accounting_mode \<Rightarrow> string \<Rightarrow> string" where
  "participant_resource_pool_state_ref sha256 pool_ref okind owner_ref rkind uname mode meter =
     ''participant-resource-pool:sha256:'' @
     sha256 (json_array [pool_ref, owner_kind_text okind, owner_ref, resource_kind_text rkind,
       uname, accounting_mode_text mode, meter])"

section \<open>The canonical array determines its items\<close>

text \<open>A reader for one encoded character; it is only used to show that encoding loses nothing.\<close>

definition hex_value :: "char \<Rightarrow> nat" where
  "hex_value c = (if (of_char c :: nat) < 58 then of_char c - 48 else of_char c - 87)"

fun json_unchar :: "string \<Rightarrow> char \<times> string" where
  "json_unchar (c # d # cs) =
     (if c \<noteq> CHR 0x5C then (c, d # cs)
      else if d = CHR ''n'' then (CHR 0x0A, cs)
      else if d = CHR ''r'' then (CHR 0x0D, cs)
      else if d = CHR ''t'' then (CHR 0x09, cs)
      else if d = CHR ''f'' then (CHR 0x0C, cs)
      else if d = CHR ''b'' then (CHR 0x08, cs)
      else if d = CHR ''u''
        then (char_of (hex_value (cs ! 2) * 16 + hex_value (cs ! 3)), drop 4 cs)
      else (d, cs))"
| "json_unchar cs = (hd cs, [])"

lemma hex_value_digit: "n < 16 \<Longrightarrow> hex_value (hex_digit n) = n"
  by (simp add: hex_value_def hex_digit_def numeral_eq_Suc less_Suc_eq) (elim disjE; simp)

lemma json_unchar_char: "xs \<noteq> [] \<Longrightarrow> json_unchar (json_char c @ xs) = (c, xs)"
proof -
  assume "xs \<noteq> []"
  then obtain y ys where xs: "xs = y # ys" by (cases xs) auto
  have "(of_char c :: nat) < 256" by (rule nat_of_char_less_256)
  then have "(of_char c :: nat) div 16 < 16" by (simp add: less_mult_imp_div_less)
  then have "hex_value (hex_digit (of_char c div 16)) * 16 + hex_value (hex_digit (of_char c mod 16)) =
      (of_char c :: nat)"
    by (simp add: hex_value_digit)
  then show ?thesis by (simp add: json_char_def xs)
qed

lemma json_char_inj: "json_char c @ xs = json_char d @ ys \<Longrightarrow> xs \<noteq> [] \<Longrightarrow> ys \<noteq> [] \<Longrightarrow> c = d \<and> xs = ys"
  by (metis json_unchar_char prod.inject)

lemma json_char_no_quote: "hd (json_char c @ xs) \<noteq> CHR 0x22"
  by (simp add: json_char_def)

lemma json_body_inj:
  "concat (map json_char s) @ CHR 0x22 # xs = concat (map json_char t) @ CHR 0x22 # ys \<Longrightarrow> s = t \<and> xs = ys"
proof (induction s arbitrary: t)
  case Nil
  show ?case
  proof (cases t)
    case (Cons d t')
    with Nil show ?thesis
      using json_char_no_quote [of d "concat (map json_char t') @ CHR 0x22 # ys"] by (metis append_assoc
          append_Nil concat.simps(2) list.map(1) list.map(2) concat.simps(1) list.sel(1))
  qed (use Nil in simp)
next
  case (Cons c s)
  show ?case
  proof (cases t)
    case Nil
    with Cons.prems show ?thesis
      using json_char_no_quote [of c "concat (map json_char s) @ CHR 0x22 # xs"] by (metis append_assoc
          append_Nil concat.simps(2) list.map(1) list.map(2) concat.simps(1) list.sel(1))
  next
    case (Cons d t')
    with Cons.prems have "c = d \<and> concat (map json_char s) @ CHR 0x22 # xs = concat (map json_char t') @ CHR 0x22 # ys"
      by (intro json_char_inj) simp_all
    with Cons.IH Cons show ?thesis by blast
  qed
qed

lemma json_text_inj: "json_text s @ xs = json_text t @ ys \<Longrightarrow> s = t \<and> xs = ys"
  by (rule json_body_inj) (simp add: json_text_def)

lemma json_items_inj:
  "json_items ss = json_items ts \<Longrightarrow> length ss = length ts \<Longrightarrow> ss = ts"
proof (induction ss arbitrary: ts rule: json_items.induct)
  case 1
  then show ?case by simp
next
  case (2 s)
  then obtain t where "ts = [t]" by (cases ts) auto
  with 2 json_text_inj [of s "[]" t "[]"] show ?case by simp
next
  case (3 s s' ss)
  then obtain t t' ts' where ts: "ts = t # t' # ts'" by (cases ts; cases "tl ts") auto
  with 3 have "s = t \<and> json_items (s' # ss) = json_items (t' # ts')"
    using json_text_inj [of s "CHR '','' # json_items (s' # ss)" t "CHR '','' # json_items (t' # ts')"] by simp
  with 3 ts show ?case by simp
qed

lemma json_array_inj: "json_array ss = json_array ts \<Longrightarrow> length ss = length ts \<Longrightarrow> ss = ts"
  by (simp add: json_array_def json_items_inj)

lemma owner_kind_text_inj: "owner_kind_text k = owner_kind_text l \<Longrightarrow> k = l"
  by (cases k; cases l) simp_all

lemma resource_kind_text_inj: "resource_kind_text k = resource_kind_text l \<Longrightarrow> k = l"
  by (cases k; cases l) simp_all

lemma accounting_mode_text_inj: "accounting_mode_text k = accounting_mode_text l \<Longrightarrow> k = l"
  by (cases k; cases l) simp_all

definition pool_identity ::
  "string \<Rightarrow> owner_kind \<Rightarrow> string \<Rightarrow> resource_kind \<Rightarrow> string \<Rightarrow> accounting_mode \<Rightarrow> string \<Rightarrow> string" where
  "pool_identity pool_ref okind owner_ref rkind uname mode meter =
     json_array [pool_ref, owner_kind_text okind, owner_ref, resource_kind_text rkind,
       uname, accounting_mode_text mode, meter]"

lemma pool_identity_inj:
  "pool_identity p ok own rk u m t = pool_identity p' ok' own' rk' u' m' t' \<Longrightarrow>
     p = p' \<and> ok = ok' \<and> own = own' \<and> rk = rk' \<and> u = u' \<and> m = m' \<and> t = t'"
  unfolding pool_identity_def
  by (drule json_array_inj)
    (auto dest: owner_kind_text_inj resource_kind_text_inj accounting_mode_text_inj)

text \<open>
  The identity of a physical pool identifies it: unless the digest collides on the two
  canonical texts, two pools with the same reference agree in pool, owner, resource, unit,
  accounting mode and meter, whatever characters their names contain.
\<close>

theorem pool_state_ref_identifies:
  assumes "participant_resource_pool_state_ref sha256 p ok own rk u m t =
      participant_resource_pool_state_ref sha256 p' ok' own' rk' u' m' t'"
    and "sha256 (pool_identity p ok own rk u m t) = sha256 (pool_identity p' ok' own' rk' u' m' t') \<Longrightarrow>
      pool_identity p ok own rk u m t = pool_identity p' ok' own' rk' u' m' t'"
  shows "p = p' \<and> ok = ok' \<and> own = own' \<and> rk = rk' \<and> u = u' \<and> m = m' \<and> t = t'"
proof -
  have "sha256 (pool_identity p ok own rk u m t) = sha256 (pool_identity p' ok' own' rk' u' m' t')"
    using assms(1) by (simp add: participant_resource_pool_state_ref_def pool_identity_def)
  then show ?thesis by (rule assms(2) [THEN pool_identity_inj])
qed

theorem pool_state_ref_identifies_witness:
  "participant_resource_pool_state_ref (\<lambda>s. s) [CHR 0x22, CHR '',''] FLEET ''o'' ACCELERATOR ''u'' LEASE ''m'' \<noteq>
     participant_resource_pool_state_ref (\<lambda>s. s) [CHR 0x5C, CHR 0x22] FLEET ''o'' ACCELERATOR ''u'' LEASE ''m''"
  using pool_state_ref_identifies [of "\<lambda>s. s" "[CHR 0x22, CHR '','']" FLEET "''o''" ACCELERATOR "''u''" LEASE "''m''"
      "[CHR 0x5C, CHR 0x22]" FLEET "''o''" ACCELERATOR "''u''" LEASE "''m''"]
  by auto

text \<open>The reference of a budget state is injective within one policy.\<close>

lemma budget_state_ref_inj [simp]:
  "participant_resource_budget_state_ref p b = participant_resource_budget_state_ref p c \<longleftrightarrow> b = c"
  by (simp add: participant_resource_budget_state_ref_def)

end
