(* ===== verification/Resource_Contracts.thy ===== *)
theory Resource_Contracts
  imports Resource_Types
begin

text \<open>
  The carriers of participant resource budgets,
  \<open>raes_contracts/contracts/participant_resource_budgets.py\<close>, with the validation of
  \<open>participant_resource_validation.py\<close>. A pydantic model is a record and a \<open>check_\<close> definition
  holding its field constraints and its validator; any failure is a \<open>ValidationError\<close>. The
  runtime stores the JSON dump of a model and validates it again when it reads it; here the
  stored payload is the record and reading it runs the check.
\<close>

section \<open>Field constraints\<close>

definition max_quantity :: int where
  "max_quantity = 10 ^ 18"

definition max_ticks :: int where
  "max_ticks = 1000000000"

definition int_between :: "int \<Rightarrow> int \<Rightarrow> int \<Rightarrow> bool" where
  "int_between lo hi x \<longleftrightarrow> lo \<le> x \<and> x \<le> hi"

definition non_empty_strings :: "string list \<Rightarrow> bool" where
  "non_empty_strings ss \<longleftrightarrow> [] \<notin> set ss"

definition quantity_ok :: "int \<Rightarrow> bool" where
  "quantity_ok x \<longleftrightarrow> int_between 0 max_quantity x"

definition positive_quantity_ok :: "int \<Rightarrow> bool" where
  "positive_quantity_ok x \<longleftrightarrow> int_between 1 max_quantity x"

definition queue_ticks_ok :: "int \<Rightarrow> int \<Rightarrow> bool" where
  "queue_ticks_ok max_queue starvation \<longleftrightarrow> int_between 0 max_ticks max_queue \<and> int_between 1 max_ticks starvation"

text \<open>A failing field constraint and an exception inside a validator both surface as \<open>ValidationError\<close>.\<close>

fun as_validation :: "'a res \<Rightarrow> 'a res" where
  "as_validation (Inr x) = Inr x"
| "as_validation (Inl (ValueError m)) = Inl (ValidationError m)"
| "as_validation (Inl e) = Inl e"

definition constrain :: "string \<Rightarrow> bool \<Rightarrow> unit res" where
  "constrain model ok = require_that ok (ValidationError model)"

definition enforce :: "bool \<Rightarrow> string \<Rightarrow> unit res" where
  "enforce ok message = require_that ok (ValidationError message)"

lemma as_validation_Inr [simp]: "as_validation r = Inr x \<longleftrightarrow> r = Inr x"
  by (cases r rule: as_validation.cases) simp_all

lemma constrain_Inr [simp]: "constrain m ok = Inr u \<longleftrightarrow> ok"
  by (simp add: constrain_def)

lemma enforce_Inr [simp]: "enforce ok m = Inr u \<longleftrightarrow> ok"
  by (simp add: enforce_def)

lemma constrain_True [simp]: "constrain m True = Inr ()"
  by (simp add: constrain_def)

lemma enforce_True [simp]: "enforce True m = Inr ()"
  by (simp add: enforce_def)

section \<open>Demands, owners and fairness\<close>

record resource_owner =
  ow_id :: string
  ow_kind :: owner_kind
  ow_ref :: string

record resource_quantity =
  qt_kind :: resource_kind
  qt_unit :: string
  qt_mode :: accounting_mode
  qt_meter :: string
  qt_amount :: int

record resource_fairness =
  fr_policy :: string
  fr_priority_class :: string
  fr_weight :: int
  fr_protected :: bool
  fr_borrowing :: string
  fr_reclaim :: string
  fr_max_queue_ticks :: int
  fr_starvation_bound_ticks :: int

record budget_demand =
  bd_budget_id :: string
  bd_owner :: resource_owner
  bd_pool_ref :: string
  bd_quantity :: resource_quantity
  bd_limit :: int
  bd_reservation :: int
  bd_reset :: reset_mode
  bd_window_ticks :: "int option"
  bd_parent_budget_ref :: "string option"
  bd_evidence_refs :: "string list"
  bd_legacy_maximum :: bool

definition check_owner :: "resource_owner \<Rightarrow> unit res" where
  "check_owner w = constrain ''owner'' (non_empty_strings [ow_id w, ow_ref w])"

definition check_quantity :: "resource_quantity \<Rightarrow> unit res" where
  "check_quantity q =
     res_bind (constrain ''quantity'' (non_empty_strings [qt_unit q, qt_meter q] \<and> quantity_ok (qt_amount q))) (\<lambda>_.
       as_validation (require_quantity_semantics (qt_kind q) (qt_unit q) (qt_mode q)))"

definition check_fairness :: "resource_fairness \<Rightarrow> unit res" where
  "check_fairness f =
     constrain ''fairness''
       (non_empty_strings [fr_policy f, fr_priority_class f, fr_borrowing f, fr_reclaim f] \<and>
        int_between 1 1000000 (fr_weight f) \<and>
        queue_ticks_ok (fr_max_queue_ticks f) (fr_starvation_bound_ticks f))"

definition check_demand :: "budget_demand \<Rightarrow> unit res" where
  "check_demand d =
     res_bind (check_owner (bd_owner d)) (\<lambda>_.
     res_bind (check_quantity (bd_quantity d)) (\<lambda>_.
     res_bind (constrain ''demand''
         (non_empty_strings [bd_budget_id d, bd_pool_ref d] \<and> non_empty_strings (bd_evidence_refs d) \<and>
          positive_quantity_ok (bd_limit d) \<and> positive_quantity_ok (bd_reservation d) \<and>
          (case bd_window_ticks d of None \<Rightarrow> True | Some w \<Rightarrow> int_between 1 max_ticks w) \<and>
          bd_parent_budget_ref d \<noteq> Some [])) (\<lambda>_.
     res_bind (enforce (bd_reservation d \<le> bd_limit d)
         ''resource reservation cannot exceed its limit'') (\<lambda>_.
     res_bind (enforce ((qt_mode (bd_quantity d) = WINDOWED_COUNTER) = (bd_window_ticks d \<noteq> None))
         ''windowed resource demands require window_ticks and other modes forbid it'') (\<lambda>_.
     res_bind (enforce (distinct (bd_evidence_refs d)) ''resource demand evidence_refs must be unique'') (\<lambda>_.
       enforce (\<not> (qt_kind (bd_quantity d) = STORAGE_GROWTH \<and> bd_reset d \<noteq> RESET_RECONCILED))
         ''storage_growth resource demand requires reconciled reset''))))))"

section \<open>Budget policies\<close>

text \<open>
  The recursion of \<open>_visit_demand\<close> follows the single parent of a budget. The visiting set grows
  inside the known budgets, so the number of budgets outside it bounds the recursion.
\<close>

definition quantity_identity :: "resource_quantity \<Rightarrow> resource_kind \<times> string \<times> accounting_mode \<times> string" where
  "quantity_identity q = (qt_kind q, qt_unit q, qt_mode q, qt_meter q)"

function visit_demand ::
  "(string, budget_demand) pydict \<Rightarrow> string \<Rightarrow> string list \<Rightarrow> string list \<Rightarrow> string list res" where
  "visit_demand demands b visiting visited =
     (if b \<in> set visiting
      then Inl (ValueError ''resource-budget policy parent graph must be acyclic'')
      else if b \<in> set visited then Inr visited
      else (case dict_get demands b of
          None \<Rightarrow> Inl (KeyError b)
        | Some d \<Rightarrow>
            (case bd_parent_budget_ref d of
               None \<Rightarrow> Inr (visited @ [b])
             | Some parent_ref \<Rightarrow>
                 (case dict_get demands parent_ref of
                    None \<Rightarrow> Inl (KeyError parent_ref)
                  | Some parent \<Rightarrow>
                      if quantity_identity (bd_quantity d) \<noteq> quantity_identity (bd_quantity parent)
                      then Inl (ValueError ''resource-budget parent must use the same resource, unit, mode, and meter'')
                      else if bd_limit parent < bd_limit d
                      then Inl (ValueError ''resource-budget child limit cannot exceed its parent'')
                      else res_bind (visit_demand demands parent_ref (b # visiting) visited)
                             (\<lambda>visited'. Inr (visited' @ [b]))))))"
  by pat_completeness auto
termination
proof (relation "measure (\<lambda>(demands, b, visiting, visited). card (set (dict_keys demands) - set visiting))")
  show "wf (measure (\<lambda>(demands, b, visiting, visited). card (set (dict_keys demands) - set visiting)))"
    by (rule wf_measure)
next
  fix demands :: "(string, budget_demand) pydict" and b visiting visited d parent_ref parent
  assume "b \<notin> set visiting" and "dict_get demands b = Some d"
  then have "b \<in> set (dict_keys demands) - set visiting"
    by (auto simp: dict_has_def dest: dict_get_Some_has)
  moreover have "set (dict_keys demands) - set (b # visiting) = (set (dict_keys demands) - set visiting) - {b}"
    by auto
  ultimately have "card (set (dict_keys demands) - set (b # visiting)) < card (set (dict_keys demands) - set visiting)"
    by (metis List.finite_set card_Diff1_less finite_Diff)
  then show "((demands, parent_ref, b # visiting, visited), demands, b, visiting, visited) \<in>
      measure (\<lambda>(demands, b, visiting, visited). card (set (dict_keys demands) - set visiting))"
    by simp
qed

declare visit_demand.simps [simp del]

definition children_of :: "(string, budget_demand) pydict \<Rightarrow> string \<Rightarrow> budget_demand list" where
  "children_of demands parent = filter (\<lambda>d. bd_parent_budget_ref d = Some parent) (dict_values demands)"

definition parent_refs :: "(string, budget_demand) pydict \<Rightarrow> string list" where
  "parent_refs demands = fromkeys (List.map_filter bd_parent_budget_ref (dict_values demands))"

definition validate_parent_limits :: "(string, budget_demand) pydict \<Rightarrow> unit res" where
  "validate_parent_limits demands =
     res_bind (res_fold (\<lambda>visited b. visit_demand demands b [] visited) [] (dict_keys demands)) (\<lambda>_.
       res_all (\<lambda>parent_id.
           res_bind (dict_item demands parent_id) (\<lambda>parent.
             require_that (sum_list (map bd_limit (children_of demands parent_id)) \<le> bd_limit parent)
               (ValueError ''resource-budget sibling limits cannot exceed their parent limit'')))
         (parent_refs demands))"

definition demand_pool_key ::
  "budget_demand \<Rightarrow> string \<times> owner_kind \<times> string \<times> resource_kind \<times> string \<times> accounting_mode \<times> string" where
  "demand_pool_key d =
     (bd_pool_ref d, ow_kind (bd_owner d), ow_ref (bd_owner d), quantity_identity (bd_quantity d))"

definition by_key :: "('a \<Rightarrow> string) \<Rightarrow> 'a list \<Rightarrow> (string, 'a) pydict" where
  "by_key key xs = foldl (\<lambda>d x. dict_set (key x) x d) [] xs"

definition validate_budget_policy ::
  "resource_owner list \<Rightarrow> budget_demand list \<Rightarrow> resource_kind list \<Rightarrow> unit res" where
  "validate_budget_policy owners demands required =
     res_bind (require_that (distinct (map ow_id owners))
         (ValueError ''resource-budget policy owner ids must be unique'')) (\<lambda>_.
     res_bind (require_that (distinct (map bd_budget_id demands))
         (ValueError ''resource-budget policy budget ids must be unique'')) (\<lambda>_.
     let owners_by_id = by_key ow_id owners; demands_by_id = by_key bd_budget_id demands in
     res_bind (require_that (set required \<subseteq> set (map (\<lambda>d. qt_kind (bd_quantity d)) demands))
         (ValueError ''resource-budget policy requires complete resource vector: '')) (\<lambda>_.
     res_bind (res_all (\<lambda>d.
         res_bind (require_that (dict_get owners_by_id (ow_id (bd_owner d)) = Some (bd_owner d))
             (ValueError ''resource-budget demand owner must resolve exactly in policy owners'')) (\<lambda>_.
           require_that (case bd_parent_budget_ref d of None \<Rightarrow> True | Some p \<Rightarrow> dict_has demands_by_id p)
             (ValueError ''resource-budget demand parent must resolve in policy demands''))) demands) (\<lambda>_.
     res_bind (validate_parent_limits demands_by_id) (\<lambda>_.
       require_that (distinct (map demand_pool_key demands))
         (ValueError ''resource-budget demands cannot alias the same canonical resource pool''))))))"

definition all_resource_kinds :: "resource_kind list" where
  "all_resource_kinds =
     [ACTION_RATE, CONCURRENT_ACTIONS, STORAGE_GROWTH, INFERENCE_TOKENS, IMAGE_GENERATIONS, ACCELERATOR]"

text \<open>\<open>PrefixedDigestString\<close>: an algorithm name and its number of hexadecimal digits in either case.\<close>

definition is_hex :: "char \<Rightarrow> bool" where
  "is_hex c \<longleftrightarrow> c \<in> set ''0123456789abcdefABCDEF''"

definition digest_with :: "string \<Rightarrow> nat \<Rightarrow> string \<Rightarrow> bool" where
  "digest_with prefix n s \<longleftrightarrow>
     starts_with prefix s \<and> length (drop (length prefix) s) = n \<and> list_all is_hex (drop (length prefix) s)"

definition is_prefixed_digest :: "string \<Rightarrow> bool" where
  "is_prefixed_digest s \<longleftrightarrow>
     digest_with ''sha256:'' 64 s \<or> digest_with ''sha384:'' 96 s \<or>
     digest_with ''sha512:'' 128 s \<or> digest_with ''blake3:'' 64 s"

record budget_policy =
  bp_policy_id :: string
  bp_policy_address :: string
  bp_policy_digest :: string
  bp_owners :: "resource_owner list"
  bp_demands :: "budget_demand list"
  bp_fairness :: resource_fairness

definition check_budget_policy :: "budget_policy \<Rightarrow> unit res" where
  "check_budget_policy p =
     res_bind (res_all check_owner (bp_owners p)) (\<lambda>_.
     res_bind (res_all check_demand (bp_demands p)) (\<lambda>_.
     res_bind (check_fairness (bp_fairness p)) (\<lambda>_.
     res_bind (constrain ''policy'' (non_empty_strings [bp_policy_id p, bp_policy_address p] \<and>
         is_prefixed_digest (bp_policy_digest p) \<and> bp_owners p \<noteq> [] \<and> bp_demands p \<noteq> [])) (\<lambda>_.
       as_validation (validate_budget_policy (bp_owners p) (bp_demands p) all_resource_kinds)))))"

end
