(* ===== verification/Resource_Policy.thy ===== *)
theory Resource_Policy
  imports Resource_Contracts
begin

text \<open>
  What the validation of a budget policy decides. The traversal of the parent references accepts
  exactly the policies whose parent chains end in a root along edges that keep the quantity and
  do not raise the limit; from that the acceptance condition of a whole policy follows.
\<close>

section \<open>Parent chains\<close>

definition parent_rel :: "(string, budget_demand) pydict \<Rightarrow> (string \<times> string) set" where
  "parent_rel demands = {(b, p). \<exists>d. dict_get demands b = Some d \<and> bd_parent_budget_ref d = Some p}"

definition sound_edge :: "budget_demand \<Rightarrow> budget_demand \<Rightarrow> bool" where
  "sound_edge d parent \<longleftrightarrow>
     quantity_identity (bd_quantity d) = quantity_identity (bd_quantity parent) \<and> bd_limit d \<le> bd_limit parent"

inductive sound_chain :: "(string, budget_demand) pydict \<Rightarrow> string \<Rightarrow> bool" for demands where
  chain_root: "dict_get demands b = Some d \<Longrightarrow> bd_parent_budget_ref d = None \<Longrightarrow> sound_chain demands b"
| chain_step: "dict_get demands b = Some d \<Longrightarrow> bd_parent_budget_ref d = Some p \<Longrightarrow>
    dict_get demands p = Some parent \<Longrightarrow> sound_edge d parent \<Longrightarrow> sound_chain demands p \<Longrightarrow>
    sound_chain demands b"

inductive_cases sound_chainE: "sound_chain demands b"

lemma parent_rel_step:
  "dict_get demands b = Some d \<Longrightarrow> (b, p) \<in> parent_rel demands \<longleftrightarrow> bd_parent_budget_ref d = Some p"
  by (simp add: parent_rel_def)

lemma sound_chain_acyclic: "sound_chain demands b \<Longrightarrow> (b, b) \<notin> (parent_rel demands)\<^sup>+"
proof (induction rule: sound_chain.induct)
  case (chain_root b d)
  show ?case
  proof
    assume "(b, b) \<in> (parent_rel demands)\<^sup>+"
    then obtain c where "(b, c) \<in> parent_rel demands" by (meson tranclD)
    with chain_root show False by (simp add: parent_rel_step)
  qed
next
  case (chain_step b d p parent)
  show ?case
  proof
    assume "(b, b) \<in> (parent_rel demands)\<^sup>+"
    then obtain c where c: "(b, c) \<in> parent_rel demands" "(c, b) \<in> (parent_rel demands)\<^sup>*" by (meson tranclD)
    with chain_step have "c = p" by (simp add: parent_rel_step)
    with c have "(p, p) \<in> (parent_rel demands)\<^sup>+" by (meson rtrancl_into_trancl1)
    with chain_step.IH show False by simp
  qed
qed

text \<open>An accepting visit extends the visited budgets by sound chains only.\<close>

lemma visit_demand_sound:
  "visit_demand demands b visiting visited = Inr visited' \<Longrightarrow>
     (\<forall>c \<in> set visited. sound_chain demands c) \<Longrightarrow>
     b \<in> set visited' \<and> set visited \<subseteq> set visited' \<and> (\<forall>c \<in> set visited'. sound_chain demands c)"
proof (induction demands b visiting visited arbitrary: visited' rule: visit_demand.induct)
  case (1 demands b visiting visited)
  note run = "1.prems"(1) [unfolded visit_demand.simps [of demands b visiting visited]]
  show ?case
  proof (cases "b \<in> set visiting \<or> b \<in> set visited")
    case True
    with run "1.prems" show ?thesis by (auto split: if_splits)
  next
    case False
    with run obtain d where d: "dict_get demands b = Some d" by (auto split: option.splits)
    show ?thesis
    proof (cases "bd_parent_budget_ref d")
      case None
      with run False d have "visited' = visited @ [b]" by simp
      with "1.prems"(2) chain_root [OF d None] show ?thesis by auto
    next
      case (Some p)
      with run False d obtain parent where parent: "dict_get demands p = Some parent"
        and edge: "quantity_identity (bd_quantity d) = quantity_identity (bd_quantity parent)"
          "\<not> bd_limit parent < bd_limit d"
        and rest: "res_bind (visit_demand demands p (b # visiting) visited) (\<lambda>v. Inr (v @ [b])) = Inr visited'"
        by (auto split: option.splits if_splits)
      from rest obtain v where v: "visit_demand demands p (b # visiting) visited = Inr v" "visited' = v @ [b]"
        by (auto simp: res_bind_Inr_iff)
      have "p \<in> set v \<and> set visited \<subseteq> set v \<and> (\<forall>c \<in> set v. sound_chain demands c)"
        using "1.IH" [of d p parent v] False d Some parent edge v(1) "1.prems"(2) by simp
      moreover from this have "sound_chain demands b"
        using chain_step [OF d Some parent] edge by (simp add: sound_edge_def)
      ultimately show ?thesis using v(2) by auto
    qed
  qed
qed

text \<open>A sound chain is accepted, as long as no budget under visit has it as an ancestor.\<close>

lemma visit_demand_complete:
  "sound_chain demands b \<Longrightarrow> \<forall>v \<in> set visiting. (v, b) \<in> (parent_rel demands)\<^sup>+ \<Longrightarrow>
     \<exists>visited'. visit_demand demands b visiting visited = Inr visited'"
proof (induction arbitrary: visiting rule: sound_chain.induct)
  case (chain_root b d)
  have "b \<notin> set visiting"
    using chain_root.prems sound_chain_acyclic [OF sound_chain.chain_root [OF chain_root.hyps]] by auto
  then show ?case using chain_root.hyps by (simp add: visit_demand.simps [of demands b])
next
  case (chain_step b d p parent)
  have chain: "sound_chain demands b" by (rule sound_chain.chain_step [OF chain_step.hyps])
  have fresh: "b \<notin> set visiting" using chain_step.prems sound_chain_acyclic [OF chain] by auto
  have step: "(b, p) \<in> parent_rel demands" using chain_step.hyps by (simp add: parent_rel_step)
  then have "\<forall>v \<in> set (b # visiting). (v, p) \<in> (parent_rel demands)\<^sup>+"
    using chain_step.prems by (auto intro: trancl_into_trancl)
  from chain_step.IH [OF this] obtain v where "visit_demand demands p (b # visiting) visited = Inr v" by blast
  with fresh chain_step.hyps show ?case
    by (auto simp: visit_demand.simps [of demands b] sound_edge_def)
qed

lemma visit_all_iff:
  "(\<exists>visited. res_fold (\<lambda>visited b. visit_demand demands b [] visited) vs bs = Inr visited) \<longleftrightarrow>
     (\<forall>b \<in> set bs. sound_chain demands b)" if "\<forall>c \<in> set vs. sound_chain demands c"
  using that
proof (induction bs arbitrary: vs)
  case Nil
  show ?case by simp
next
  case (Cons b bs)
  show ?case
  proof (cases "sound_chain demands b")
    case True
    then obtain v where v: "visit_demand demands b [] vs = Inr v"
      using visit_demand_complete [of demands b "[]" vs] by auto
    with visit_demand_sound [OF v Cons.prems] Cons.IH [of v] True show ?thesis by simp
  next
    case False
    then have "visit_demand demands b [] vs \<noteq> Inr v" for v
      using visit_demand_sound [of demands b "[]" vs v] Cons.prems by blast
    with False show ?thesis by (auto simp: res_bind_Inr_iff)
  qed
qed

lemma sound_chains_iff:
  assumes "wf_dict demands"
  shows "(\<forall>b \<in> set (dict_keys demands). sound_chain demands b) \<longleftrightarrow>
    acyclic (parent_rel demands) \<and>
    (\<forall>b d p. dict_get demands b = Some d \<longrightarrow> bd_parent_budget_ref d = Some p \<longrightarrow>
       (\<exists>parent. dict_get demands p = Some parent \<and> sound_edge d parent))"
  (is "?L \<longleftrightarrow> ?R")
proof
  assume L: ?L
  have chain: "sound_chain demands b" if "dict_get demands b = Some d" for b d
    using L that by (auto simp: dict_has_def dest: dict_get_Some_has)
  have "acyclic (parent_rel demands)"
  proof (rule acyclicI, intro allI)
    fix b show "(b, b) \<notin> (parent_rel demands)\<^sup>+"
    proof
      assume cycle: "(b, b) \<in> (parent_rel demands)\<^sup>+"
      then obtain c where "(b, c) \<in> parent_rel demands" by (meson tranclD)
      then obtain d where "dict_get demands b = Some d" by (auto simp: parent_rel_def)
      with chain cycle sound_chain_acyclic show False by blast
    qed
  qed
  moreover have "\<exists>parent. dict_get demands p = Some parent \<and> sound_edge d parent"
    if "dict_get demands b = Some d" "bd_parent_budget_ref d = Some p" for b d p
    using chain [OF that(1)] that by (auto elim: sound_chainE)
  ultimately show ?R by blast
next
  assume R: ?R
  have fin: "finite (parent_rel demands)"
  proof (rule finite_subset)
    show "parent_rel demands \<subseteq> set (dict_keys demands) \<times> set (dict_keys demands)"
      using R by (fastforce simp: parent_rel_def dict_has_def dest: dict_get_Some_has)
  qed simp
  have wf: "wf ((parent_rel demands)\<inverse>)"
    using R fin by (simp add: finite_acyclic_wf_converse)
  have "dict_get demands b = Some d \<longrightarrow> sound_chain demands b" for b d
    using wf
  proof (induction b arbitrary: d rule: wf_induct_rule)
    case (less b)
    show ?case
    proof
      assume d: "dict_get demands b = Some d"
      show "sound_chain demands b"
      proof (cases "bd_parent_budget_ref d")
        case None
        with d show ?thesis by (rule chain_root)
      next
        case (Some p)
        with R d obtain parent where parent: "dict_get demands p = Some parent" "sound_edge d parent" by blast
        have "(p, b) \<in> (parent_rel demands)\<inverse>" using d Some by (simp add: parent_rel_def)
        with less parent(1) have "sound_chain demands p" by blast
        with d Some parent show ?thesis by (rule chain_step)
      qed
    qed
  qed
  then show ?L by (metis dict_has_def dict_has_get)
qed

section \<open>Accepted policies\<close>

lemma by_key_distinct: "distinct (map key xs) \<Longrightarrow> by_key key xs = map (\<lambda>x. (key x, x)) xs"
proof (induction xs rule: rev_induct)
  case Nil
  show ?case by (simp add: by_key_def)
next
  case (snoc x xs)
  then have "by_key key (xs @ [x]) = dict_set (key x) x (map (\<lambda>x. (key x, x)) xs)"
    by (simp add: by_key_def)
  also have "\<dots> = map (\<lambda>x. (key x, x)) xs @ [(key x, x)]"
    using snoc.prems by (intro dict_set_fresh) (auto simp: dict_has_def dict_keys_def)
  finally show ?case by simp
qed

lemma by_key_get:
  "distinct (map key xs) \<Longrightarrow> dict_get (by_key key xs) k = Some x \<longleftrightarrow> x \<in> set xs \<and> key x = k"
  by (subst dict_get_eq_Some) (auto simp: by_key_distinct wf_dict_def dict_keys_def comp_def)

lemma by_key_keys: "distinct (map key xs) \<Longrightarrow> dict_keys (by_key key xs) = map key xs"
  by (simp add: by_key_distinct dict_keys_def)

lemma by_key_values: "distinct (map key xs) \<Longrightarrow> dict_values (by_key key xs) = xs"
  by (simp add: by_key_distinct dict_values_def comp_def)

definition budget_parents :: "budget_demand list \<Rightarrow> (string \<times> string) set" where
  "budget_parents demands =
     {(bd_budget_id d, p) | d p. d \<in> set demands \<and> bd_parent_budget_ref d = Some p}"

definition policy_admissible :: "resource_owner list \<Rightarrow> budget_demand list \<Rightarrow> resource_kind list \<Rightarrow> bool" where
  "policy_admissible owners demands required \<longleftrightarrow>
     distinct (map ow_id owners) \<and> distinct (map bd_budget_id demands) \<and>
     set required \<subseteq> (\<lambda>d. qt_kind (bd_quantity d)) ` set demands \<and>
     bd_owner ` set demands \<subseteq> set owners \<and>
     acyclic (budget_parents demands) \<and>
     (\<forall>d \<in> set demands. \<forall>p. bd_parent_budget_ref d = Some p \<longrightarrow>
        (\<exists>e \<in> set demands. bd_budget_id e = p \<and> sound_edge d e \<and>
           (\<Sum>c \<leftarrow> filter (\<lambda>c. bd_parent_budget_ref c = Some p) demands. bd_limit c) \<le> bd_limit e)) \<and>
     distinct (map demand_pool_key demands)"

lemma parent_rel_by_key:
  "distinct (map bd_budget_id demands) \<Longrightarrow> parent_rel (by_key bd_budget_id demands) = budget_parents demands"
  by (auto simp: parent_rel_def budget_parents_def by_key_get)

lemma parents_resolve:
  assumes "distinct (map bd_budget_id demands)"
  shows "(\<forall>b d p. dict_get (by_key bd_budget_id demands) b = Some d \<longrightarrow> bd_parent_budget_ref d = Some p \<longrightarrow>
       (\<exists>parent. dict_get (by_key bd_budget_id demands) p = Some parent \<and> sound_edge d parent)) \<longleftrightarrow>
     (\<forall>d \<in> set demands. \<forall>p. bd_parent_budget_ref d = Some p \<longrightarrow>
       (\<exists>e \<in> set demands. bd_budget_id e = p \<and> sound_edge d e))"
  using assms by (fastforce simp: by_key_get)

lemma set_parent_refs:
  "p \<in> set (parent_refs (by_key bd_budget_id demands)) \<longleftrightarrow>
     (\<exists>d \<in> set demands. bd_parent_budget_ref d = Some p)" if "distinct (map bd_budget_id demands)"
  by (force simp: parent_refs_def by_key_values [OF that] List.map_filter_def)

lemma sibling_limits_iff:
  assumes ids: "distinct (map bd_budget_id demands)"
  shows "res_all (\<lambda>parent_id.
           res_bind (dict_item (by_key bd_budget_id demands) parent_id) (\<lambda>parent.
             require_that (sum_list (map bd_limit (children_of (by_key bd_budget_id demands) parent_id)) \<le> bd_limit parent)
               (ValueError m))) (parent_refs (by_key bd_budget_id demands)) = Inr () \<longleftrightarrow>
     (\<forall>d \<in> set demands. \<forall>p. bd_parent_budget_ref d = Some p \<longrightarrow>
        (\<exists>e \<in> set demands. bd_budget_id e = p \<and>
           (\<Sum>c \<leftarrow> filter (\<lambda>c. bd_parent_budget_ref c = Some p) demands. bd_limit c) \<le> bd_limit e))"
  by (auto simp: res_all_Inr set_parent_refs [OF ids] res_bind_Inr_iff by_key_get [OF ids] children_of_def
      by_key_values [OF ids] Bex_def)

lemma validate_parent_limits_iff:
  assumes ids: "distinct (map bd_budget_id demands)"
  shows "validate_parent_limits (by_key bd_budget_id demands) = Inr () \<longleftrightarrow>
     acyclic (budget_parents demands) \<and>
     (\<forall>d \<in> set demands. \<forall>p. bd_parent_budget_ref d = Some p \<longrightarrow>
        (\<exists>e \<in> set demands. bd_budget_id e = p \<and> sound_edge d e)) \<and>
     (\<forall>d \<in> set demands. \<forall>p. bd_parent_budget_ref d = Some p \<longrightarrow>
        (\<exists>e \<in> set demands. bd_budget_id e = p \<and>
           (\<Sum>c \<leftarrow> filter (\<lambda>c. bd_parent_budget_ref c = Some p) demands. bd_limit c) \<le> bd_limit e))"
proof -
  let ?d = "by_key bd_budget_id demands"
  have wf: "wf_dict ?d" using ids by (simp add: by_key_keys wf_dict_def)
  have "(\<exists>v. res_fold (\<lambda>visited b. visit_demand ?d b [] visited) [] (dict_keys ?d) = Inr v) \<longleftrightarrow>
      acyclic (budget_parents demands) \<and>
      (\<forall>d \<in> set demands. \<forall>p. bd_parent_budget_ref d = Some p \<longrightarrow>
        (\<exists>e \<in> set demands. bd_budget_id e = p \<and> sound_edge d e))"
    using visit_all_iff [of "[]" ?d "dict_keys ?d"] sound_chains_iff [OF wf] parents_resolve [OF ids]
    by (simp add: parent_rel_by_key [OF ids])
  then show ?thesis
    by (auto simp: validate_parent_limits_def res_bind_Inr_iff sibling_limits_iff [OF ids])
qed

text \<open>
  C4. The policy validator decides admissibility: it accepts a policy exactly when identifiers are
  unique, every required resource kind is budgeted, owners resolve, the parent references form an
  acyclic hierarchy in which a child keeps the quantity of its parent and neither a child nor all
  siblings together exceed the parent's limit, and no two budgets draw on the same physical pool.
\<close>

theorem validate_budget_policy_iff:
  "validate_budget_policy owners demands required = Inr () \<longleftrightarrow> policy_admissible owners demands required"
proof (cases "distinct (map ow_id owners) \<and> distinct (map bd_budget_id demands)")
  case False
  then show ?thesis by (auto simp: validate_budget_policy_def policy_admissible_def res_bind_Inr_iff)
next
  case True
  then have ids: "distinct (map ow_id owners)" "distinct (map bd_budget_id demands)" by auto
  have has: "dict_has (by_key bd_budget_id demands) p \<longleftrightarrow> (\<exists>e \<in> set demands. bd_budget_id e = p)" for p
    by (auto simp: dict_has_def by_key_keys [OF ids(2)])
  have owners: "dict_get (by_key ow_id owners) (ow_id (bd_owner d)) = Some (bd_owner d) \<longleftrightarrow> bd_owner d \<in> set owners" for d
    by (simp add: by_key_get [OF ids(1)])
  have merge: "(\<exists>e \<in> set demands. bd_budget_id e = p \<and> P e) \<and> (\<exists>e \<in> set demands. bd_budget_id e = p \<and> Q e) \<longleftrightarrow>
      (\<exists>e \<in> set demands. bd_budget_id e = p \<and> P e \<and> Q e)" for P Q p
    using ids(2) by (auto simp: distinct_map inj_on_def)
  have parent: "(case bd_parent_budget_ref d of None \<Rightarrow> True | Some p \<Rightarrow> P p) \<longleftrightarrow>
      (\<forall>p. bd_parent_budget_ref d = Some p \<longrightarrow> P p)" for d P
    by (cases "bd_parent_budget_ref d") simp_all
  have "validate_budget_policy owners demands required = Inr () \<longleftrightarrow>
      set required \<subseteq> (\<lambda>d. qt_kind (bd_quantity d)) ` set demands \<and>
      (\<forall>d \<in> set demands. bd_owner d \<in> set owners \<and>
         (\<forall>p. bd_parent_budget_ref d = Some p \<longrightarrow> (\<exists>e \<in> set demands. bd_budget_id e = p))) \<and>
      validate_parent_limits (by_key bd_budget_id demands) = Inr () \<and> distinct (map demand_pool_key demands)"
    using ids by (simp add: validate_budget_policy_def res_bind_Inr_iff res_all_Inr has owners parent Let_def)
  also have "\<dots> \<longleftrightarrow> policy_admissible owners demands required"
    unfolding validate_parent_limits_iff [OF ids(2)] policy_admissible_def merge [symmetric]
    using ids by blast
  finally show ?thesis .
qed

end
