(* ===== verification/Resource_State.thy ===== *)
theory Resource_State
  imports Resource_Contracts
begin

text \<open>
  The runtime side of the resource contracts: configured pools and capabilities, budget states,
  pool states with their allocations, events, and the part of the runtime snapshot that holds
  them (\<open>raes_contracts/runtime_state.py\<close>). Building a snapshot validates every payload and
  every key, so a snapshot in hand is a validated one.
\<close>

section \<open>Configured pools and capabilities\<close>

record pool_capacity =
  pc_pool_ref :: string
  pc_owner_kind :: owner_kind
  pc_owner_ref :: string
  pc_kind :: resource_kind
  pc_unit :: string
  pc_mode :: accounting_mode
  pc_meter :: string
  pc_capacity :: int
  pc_isolation :: isolation_strength
  pc_configuration_digest :: string
  pc_fairness_policy :: string
  pc_priority_classes :: "string list"
  pc_borrowing :: string
  pc_reclaim :: string
  pc_max_queue_ticks :: int
  pc_starvation_bound_ticks :: int
  pc_protected_capacity :: int
  pc_evidence_contract_ids :: "string list"

definition check_pool_capacity :: "pool_capacity \<Rightarrow> unit res" where
  "check_pool_capacity p =
     res_bind (constrain ''pool capacity''
         (non_empty_strings [pc_pool_ref p, pc_owner_ref p, pc_unit p, pc_meter p, pc_fairness_policy p,
            pc_borrowing p, pc_reclaim p] \<and>
          positive_quantity_ok (pc_capacity p) \<and> is_prefixed_digest (pc_configuration_digest p) \<and>
          pc_priority_classes p \<noteq> [] \<and> non_empty_strings (pc_priority_classes p) \<and>
          queue_ticks_ok (pc_max_queue_ticks p) (pc_starvation_bound_ticks p) \<and>
          quantity_ok (pc_protected_capacity p) \<and>
          pc_evidence_contract_ids p \<noteq> [] \<and> non_empty_strings (pc_evidence_contract_ids p))) (\<lambda>_.
     res_bind (as_validation (require_quantity_semantics (pc_kind p) (pc_unit p) (pc_mode p))) (\<lambda>_.
     res_bind (enforce (pc_protected_capacity p \<le> pc_capacity p)
         ''protected capacity cannot exceed configured capacity'') (\<lambda>_.
     res_bind (enforce (distinct (pc_priority_classes p)) ''pool priority classes must be unique'') (\<lambda>_.
       enforce (distinct (pc_evidence_contract_ids p)) ''pool evidence contract ids must be unique''))))"

datatype support_strength = UNSUPPORTED | DISCLOSED_WEAK | BOUNDED | EXACT_SUPPORT

record budget_capabilities =
  cap_support_strength :: support_strength
  cap_owner_kinds :: "owner_kind list"
  cap_resource_kinds :: "resource_kind list"
  cap_accounting_modes :: "accounting_mode list"
  cap_reset_modes :: "reset_mode list"
  cap_fairness_policies :: "string list"
  cap_isolation_strengths :: "isolation_strength list"
  cap_configured_pools :: "pool_capacity list"
  cap_realization_contract_ids :: "string list"
  cap_cross_range_pool_refs :: "string list"

definition require_unique_fields :: "budget_capabilities \<Rightarrow> unit res" where
  "require_unique_fields c =
     res_bind (require_that (distinct (cap_owner_kinds c)) (ValueError ''supported_owner_kinds must be unique'')) (\<lambda>_.
     res_bind (require_that (distinct (cap_resource_kinds c)) (ValueError ''supported_resource_kinds must be unique'')) (\<lambda>_.
     res_bind (require_that (distinct (cap_accounting_modes c)) (ValueError ''supported_accounting_modes must be unique'')) (\<lambda>_.
     res_bind (require_that (distinct (cap_reset_modes c)) (ValueError ''supported_reset_modes must be unique'')) (\<lambda>_.
     res_bind (require_that (distinct (cap_fairness_policies c)) (ValueError ''supported_fairness_policies must be unique'')) (\<lambda>_.
     res_bind (require_that (distinct (cap_isolation_strengths c)) (ValueError ''supported_isolation_strengths must be unique'')) (\<lambda>_.
     res_bind (require_that (distinct (cap_realization_contract_ids c)) (ValueError ''realization_contract_ids must be unique'')) (\<lambda>_.
       require_that (distinct (cap_cross_range_pool_refs c)) (ValueError ''cross_range_pool_refs must be unique''))))))))"

definition validate_cross_range_pools :: "budget_capabilities \<Rightarrow> unit res" where
  "validate_cross_range_pools c =
     res_all (\<lambda>ref.
         let pools = filter (\<lambda>p. pc_pool_ref p = ref) (cap_configured_pools c) in
         res_bind (require_that (pools \<noteq> []) (ValueError ''cross-range pool ref must resolve'')) (\<lambda>_.
           require_that (list_all (\<lambda>p. pc_isolation p = TENANT_PARTITIONED) pools)
             (ValueError ''cross-range shared pools require tenant_partitioned isolation'')))
       (cap_cross_range_pool_refs c)"

definition validate_configured_pool :: "budget_capabilities \<Rightarrow> pool_capacity \<Rightarrow> unit res" where
  "validate_configured_pool c p =
     res_bind (require_that (pc_owner_kind p \<in> set (cap_owner_kinds c))
         (ValueError ''configured pool owner kind is not declared supported'')) (\<lambda>_.
     res_bind (require_that (pc_kind p \<in> set (cap_resource_kinds c))
         (ValueError ''configured pool resource kind is not declared supported'')) (\<lambda>_.
     res_bind (require_that (pc_mode p \<in> set (cap_accounting_modes c))
         (ValueError ''configured pool accounting mode is not declared supported'')) (\<lambda>_.
     res_bind (require_that (pc_fairness_policy p \<in> set (cap_fairness_policies c))
         (ValueError ''configured pool fairness policy is not declared supported'')) (\<lambda>_.
       require_that (pc_isolation p \<in> set (cap_isolation_strengths c))
         (ValueError ''configured pool isolation strength is not declared supported'')))))"

definition validate_budget_capabilities :: "budget_capabilities \<Rightarrow> unit res" where
  "validate_budget_capabilities c =
     res_bind (require_unique_fields c) (\<lambda>_.
     res_bind (require_that (distinct (map (\<lambda>p. (pc_pool_ref p, pc_kind p, pc_meter p)) (cap_configured_pools c)))
         (ValueError ''configured pool resource entries must be unique'')) (\<lambda>_.
     res_bind (validate_cross_range_pools c) (\<lambda>_.
       res_all (validate_configured_pool c) (cap_configured_pools c))))"

definition check_budget_capabilities :: "budget_capabilities \<Rightarrow> unit res" where
  "check_budget_capabilities c =
     res_bind (res_all check_pool_capacity (cap_configured_pools c)) (\<lambda>_.
     res_bind (constrain ''capabilities''
         (cap_owner_kinds c \<noteq> [] \<and> cap_resource_kinds c \<noteq> [] \<and> cap_accounting_modes c \<noteq> [] \<and>
          cap_reset_modes c \<noteq> [] \<and> cap_fairness_policies c \<noteq> [] \<and> cap_isolation_strengths c \<noteq> [] \<and>
          cap_configured_pools c \<noteq> [] \<and> cap_realization_contract_ids c \<noteq> [] \<and>
          non_empty_strings (cap_fairness_policies c) \<and> non_empty_strings (cap_realization_contract_ids c) \<and>
          non_empty_strings (cap_cross_range_pool_refs c))) (\<lambda>_.
       as_validation (validate_budget_capabilities c)))"

section \<open>Budget states\<close>

datatype reconciliation_status = STATUS_RECONCILED | STATUS_PENDING | STATUS_UNRECONCILED

record budget_state =
  bs_state_ref :: string
  bs_budget_id :: string
  bs_policy_address :: string
  bs_owner_kind :: owner_kind
  bs_owner_ref :: string
  bs_pool_ref :: string
  bs_kind :: resource_kind
  bs_unit :: string
  bs_mode :: accounting_mode
  bs_meter :: string
  bs_reset :: reset_mode
  bs_generation :: int
  bs_limit :: int
  bs_configured_capacity :: int
  bs_reserved :: int
  bs_current_use :: int
  bs_cumulative_use :: int
  bs_throttled :: int
  bs_rejected :: int
  bs_status :: reconciliation_status
  bs_last_event_ref :: string
  bs_evidence_refs :: "string list"

definition check_budget_state :: "budget_state \<Rightarrow> unit res" where
  "check_budget_state s =
     res_bind (constrain ''budget state''
         (non_empty_strings [bs_state_ref s, bs_budget_id s, bs_policy_address s, bs_owner_ref s, bs_pool_ref s,
            bs_unit s, bs_meter s, bs_last_event_ref s] \<and> non_empty_strings (bs_evidence_refs s) \<and>
          0 \<le> bs_generation s \<and> positive_quantity_ok (bs_limit s) \<and>
          positive_quantity_ok (bs_configured_capacity s) \<and> quantity_ok (bs_reserved s) \<and>
          quantity_ok (bs_current_use s) \<and> quantity_ok (bs_cumulative_use s) \<and>
          0 \<le> bs_throttled s \<and> 0 \<le> bs_rejected s)) (\<lambda>_.
     res_bind (as_validation (require_quantity_semantics (bs_kind s) (bs_unit s) (bs_mode s))) (\<lambda>_.
     res_bind (enforce (bs_state_ref s =
         participant_resource_budget_state_ref (bs_policy_address s) (bs_budget_id s))
         ''resource budget state_ref must equal its canonical policy-scoped identity'') (\<lambda>_.
     res_bind (enforce (bs_reserved s + bs_current_use s \<le> bs_limit s)
         ''resource budget reserved and current use cannot exceed limit'') (\<lambda>_.
     res_bind (enforce (bs_reserved s + bs_current_use s \<le> bs_configured_capacity s)
         ''resource budget reserved and current use cannot exceed configured capacity'') (\<lambda>_.
       enforce (distinct (bs_evidence_refs s)) ''resource budget evidence refs must be unique'')))))"

section \<open>Measurements\<close>

record measurement_requirement =
  mr_budget_state_ref :: string
  mr_kind :: resource_kind
  mr_unit :: string
  mr_meter :: string
  mr_reserved :: int

definition check_measurement_requirement :: "measurement_requirement \<Rightarrow> unit res" where
  "check_measurement_requirement m =
     res_bind (constrain ''measurement requirement''
         (non_empty_strings [mr_budget_state_ref m, mr_unit m, mr_meter m] \<and> quantity_ok (mr_reserved m))) (\<lambda>_.
     res_bind (enforce (resource_accounting (mr_kind m) \<noteq> [])
         ''resource measurement requires supported quantity semantics'') (\<lambda>_.
       enforce (mr_unit m = resource_unit (mr_kind m))
         ''resource measurement requirement unit must match its resource kind''))"

record resource_measurement =
  me_budget_state_ref :: string
  me_operation_id :: string
  me_execution_generation :: int
  me_kind :: resource_kind
  me_unit :: string
  me_meter :: string
  me_measured :: int
  me_evidence_refs :: "string list"

definition check_measurement :: "resource_measurement \<Rightarrow> unit res" where
  "check_measurement m =
     res_bind (constrain ''measurement''
         (non_empty_strings [me_budget_state_ref m, me_operation_id m, me_unit m, me_meter m] \<and>
          0 \<le> me_execution_generation m \<and> quantity_ok (me_measured m) \<and>
          me_evidence_refs m \<noteq> [] \<and> non_empty_strings (me_evidence_refs m))) (\<lambda>_.
     res_bind (enforce (me_unit m = resource_unit (me_kind m))
         ''resource measurement unit must match its resource kind'') (\<lambda>_.
       enforce (distinct (me_evidence_refs m)) ''resource measurement evidence refs must be unique''))"

section \<open>Pools and allocations\<close>

record pool_allocation =
  al_budget_state_ref :: string
  al_policy_address :: string
  al_budget_id :: string
  al_generation :: int
  al_priority_class :: string
  al_weight :: int
  al_protected :: bool
  al_borrowing :: string
  al_reclaim :: string
  al_max_queue_ticks :: int
  al_starvation_bound_ticks :: int
  al_reserved :: int
  al_current_use :: int
  al_cumulative_use :: int

definition check_allocation :: "pool_allocation \<Rightarrow> unit res" where
  "check_allocation a =
     res_bind (constrain ''pool allocation''
         (non_empty_strings [al_budget_state_ref a, al_policy_address a, al_budget_id a, al_priority_class a,
            al_borrowing a, al_reclaim a] \<and>
          0 \<le> al_generation a \<and> int_between 1 1000000 (al_weight a) \<and>
          queue_ticks_ok (al_max_queue_ticks a) (al_starvation_bound_ticks a) \<and>
          quantity_ok (al_reserved a) \<and> quantity_ok (al_current_use a) \<and> quantity_ok (al_cumulative_use a))) (\<lambda>_.
       enforce (al_budget_state_ref a =
           participant_resource_budget_state_ref (al_policy_address a) (al_budget_id a))
         ''pool allocation must reference its canonical policy-scoped budget state'')"

record pool_state =
  pl_state_ref :: string
  pl_pool_ref :: string
  pl_owner_kind :: owner_kind
  pl_owner_ref :: string
  pl_kind :: resource_kind
  pl_unit :: string
  pl_mode :: accounting_mode
  pl_meter :: string
  pl_capacity :: int
  pl_protected_capacity :: int
  pl_fairness_policy :: string
  pl_priority_classes :: "string list"
  pl_borrowing :: string
  pl_reclaim :: string
  pl_max_queue_ticks :: int
  pl_starvation_bound_ticks :: int
  pl_allocations :: "(string, pool_allocation) pydict"

definition is_gauge :: "accounting_mode \<Rightarrow> bool" where
  "is_gauge mode \<longleftrightarrow> mode = RESERVABLE_GAUGE \<or> mode = LEASE"

definition allocation_use :: "accounting_mode \<Rightarrow> pool_allocation \<Rightarrow> int" where
  "allocation_use mode a =
     (if is_gauge mode then al_current_use a + al_reserved a else al_cumulative_use a + al_reserved a)"

definition pool_allocated_total :: "pool_state \<Rightarrow> int" where
  "pool_allocated_total p = sum_list (map (allocation_use (pl_mode p)) (dict_values (pl_allocations p)))"

definition validate_pool_allocations :: "pool_state \<Rightarrow> unit res" where
  "validate_pool_allocations p =
     res_all (\<lambda>(ref, a).
         res_bind (require_that (ref = al_budget_state_ref a)
             (ValueError ''pool allocation map key must equal budget_state_ref'')) (\<lambda>_.
         res_bind (require_that (al_priority_class a \<in> set (pl_priority_classes p))
             (ValueError ''pool allocation priority class must be configured'')) (\<lambda>_.
         res_bind (require_that (al_borrowing a = pl_borrowing p \<and> al_reclaim a = pl_reclaim p)
             (ValueError ''pool allocation borrowing and reclaim must match pool authority'')) (\<lambda>_.
           require_that (\<not> (al_max_queue_ticks a < pl_max_queue_ticks p \<or>
               al_starvation_bound_ticks a < pl_starvation_bound_ticks p))
             (ValueError ''pool allocation fairness bounds are weaker than required'')))))
       (pl_allocations p)"

definition check_pool_state :: "(string \<Rightarrow> string) \<Rightarrow> pool_state \<Rightarrow> unit res" where
  "check_pool_state sha256 p =
     res_bind (res_all (\<lambda>(ref, a). res_bind (constrain ''allocation key'' (ref \<noteq> [])) (\<lambda>_. check_allocation a))
         (pl_allocations p)) (\<lambda>_.
     res_bind (constrain ''pool state''
         (non_empty_strings [pl_state_ref p, pl_pool_ref p, pl_owner_ref p, pl_unit p, pl_meter p,
            pl_fairness_policy p, pl_borrowing p, pl_reclaim p] \<and>
          positive_quantity_ok (pl_capacity p) \<and> quantity_ok (pl_protected_capacity p) \<and>
          pl_priority_classes p \<noteq> [] \<and> non_empty_strings (pl_priority_classes p) \<and>
          queue_ticks_ok (pl_max_queue_ticks p) (pl_starvation_bound_ticks p))) (\<lambda>_.
     res_bind (as_validation (require_quantity_semantics (pl_kind p) (pl_unit p) (pl_mode p))) (\<lambda>_.
     res_bind (enforce (pl_state_ref p =
         participant_resource_pool_state_ref sha256 (pl_pool_ref p) (pl_owner_kind p) (pl_owner_ref p)
           (pl_kind p) (pl_unit p) (pl_mode p) (pl_meter p))
         ''pool_state_ref must equal the canonical exact-pool identity'') (\<lambda>_.
     res_bind (enforce (pl_protected_capacity p \<le> pl_capacity p)
         ''protected capacity cannot exceed physical pool capacity'') (\<lambda>_.
     res_bind (as_validation (validate_pool_allocations p)) (\<lambda>_.
       enforce (pool_allocated_total p \<le> pl_capacity p)
         ''physical pool allocations cannot exceed capacity''))))))"

section \<open>Events\<close>

record budget_event =
  ev_event_id :: string
  ev_operation_id :: string
  ev_budget_state_ref :: string
  ev_budget_id :: string
  ev_policy_address :: string
  ev_owner_ref :: string
  ev_pool_ref :: string
  ev_execution_generation :: int
  ev_transition :: budget_transition
  ev_disposition :: budget_disposition
  ev_requested :: int
  ev_measured :: "int option"
  ev_kind :: resource_kind
  ev_unit :: string
  ev_meter :: string
  ev_predecessor :: "string option"
  ev_evidence_refs :: "string list"

definition check_event :: "budget_event \<Rightarrow> unit res" where
  "check_event e =
     res_bind (constrain ''budget event''
         (non_empty_strings [ev_event_id e, ev_operation_id e, ev_budget_state_ref e, ev_budget_id e,
            ev_policy_address e, ev_owner_ref e, ev_pool_ref e, ev_unit e, ev_meter e] \<and>
          0 \<le> ev_execution_generation e \<and> quantity_ok (ev_requested e) \<and>
          (case ev_measured e of None \<Rightarrow> True | Some m \<Rightarrow> quantity_ok m) \<and>
          ev_predecessor e \<noteq> Some [] \<and> non_empty_strings (ev_evidence_refs e))) (\<lambda>_.
     res_bind (enforce (ev_budget_state_ref e =
         participant_resource_budget_state_ref (ev_policy_address e) (ev_budget_id e))
         ''resource budget event must reference its canonical policy-scoped state'') (\<lambda>_.
     res_bind (enforce (ev_disposition e = event_disposition (ev_transition e))
         ''resource budget event disposition must match its transition'') (\<lambda>_.
     res_bind (enforce (\<not> (ev_transition e = COMMIT \<and> ev_measured e = None))
         ''commit events require measured resource use'') (\<lambda>_.
       enforce (distinct (ev_evidence_refs e)) ''resource budget event evidence refs must be unique''))))"

section \<open>The snapshot\<close>

text \<open>
  The budget members of \<open>RuntimeSnapshot\<close>; all its other members are \<open>sn_rest\<close>, which the
  budget operations hand over unchanged. \<open>with_entries\<close> builds a new snapshot, so it validates
  the members it was given.
\<close>

record 'rest budget_snapshot =
  sn_states :: "(string, budget_state) pydict"
  sn_pools :: "(string, pool_state) pydict"
  sn_events :: "(string, budget_event) pydict"
  sn_rest :: 'rest

definition require_budget_snapshot ::
  "(string \<Rightarrow> string) \<Rightarrow> (string, budget_state) pydict \<Rightarrow> (string, pool_state) pydict \<Rightarrow>
     (string, budget_event) pydict \<Rightarrow> unit res" where
  "require_budget_snapshot sha256 states pools events =
     res_bind (res_all (\<lambda>(ref, s). res_bind (check_budget_state s) (\<lambda>_.
         require_that (ref = bs_state_ref s)
           (ValueError ''participant resource-budget state key must equal state_ref''))) states) (\<lambda>_.
     res_bind (res_all (\<lambda>(ref, p). res_bind (check_pool_state sha256 p) (\<lambda>_.
         require_that (ref = pl_state_ref p)
           (ValueError ''participant resource-pool state key must equal pool_state_ref''))) pools) (\<lambda>_.
       res_all (\<lambda>(ref, e). res_bind (check_event e) (\<lambda>_.
         require_that (ref = ev_event_id e)
           (ValueError ''participant resource-budget event key must equal event_id''))) events))"

definition with_budget_entries ::
  "(string \<Rightarrow> string) \<Rightarrow> 'rest budget_snapshot \<Rightarrow> (string, budget_state) pydict \<Rightarrow>
     (string, pool_state) pydict \<Rightarrow> (string, budget_event) pydict \<Rightarrow> 'rest budget_snapshot res" where
  "with_budget_entries sha256 sn states pools events =
     res_bind (require_budget_snapshot sha256 states pools events) (\<lambda>_.
       Inr (sn\<lparr>sn_states := states, sn_pools := pools, sn_events := events\<rparr>))"

text \<open>
  \<open>ApplyResult\<close> and its diagnostics; of a diagnostic the code and the address are kept, its
  message is presentation.
\<close>

record diagnostic =
  dg_code :: string
  dg_address :: string

record 'rest apply_result =
  ar_success :: bool
  ar_snapshot :: "'rest budget_snapshot"
  ar_diagnostics :: "diagnostic list"

definition budget_diagnostic :: "string \<Rightarrow> string \<Rightarrow> diagnostic" where
  "budget_diagnostic code policy_address =
     \<lparr>dg_code = code, dg_address = ''/participant_resource_budgets/'' @ policy_address\<rparr>"

definition apply_ok :: "'rest budget_snapshot \<Rightarrow> 'rest apply_result" where
  "apply_ok sn = \<lparr>ar_success = True, ar_snapshot = sn, ar_diagnostics = []\<rparr>"

definition apply_failed :: "'rest budget_snapshot \<Rightarrow> string \<Rightarrow> string \<Rightarrow> 'rest apply_result" where
  "apply_failed sn code policy_address =
     \<lparr>ar_success = False, ar_snapshot = sn, ar_diagnostics = [budget_diagnostic code policy_address]\<rparr>"

text \<open>A snapshot in hand: its constructor accepted it, and its members are dictionaries.\<close>

definition snapshot_valid :: "(string \<Rightarrow> string) \<Rightarrow> 'rest budget_snapshot \<Rightarrow> bool" where
  "snapshot_valid sha256 sn \<longleftrightarrow>
     require_budget_snapshot sha256 (sn_states sn) (sn_pools sn) (sn_events sn) = Inr () \<and>
     wf_dict (sn_states sn) \<and> wf_dict (sn_pools sn) \<and> wf_dict (sn_events sn) \<and>
     (\<forall>(ref, p) \<in> set (sn_pools sn). wf_dict (pl_allocations p))"

definition pool_ref_for_state :: "(string \<Rightarrow> string) \<Rightarrow> budget_state \<Rightarrow> string" where
  "pool_ref_for_state sha256 s =
     participant_resource_pool_state_ref sha256 (bs_pool_ref s) (bs_owner_kind s) (bs_owner_ref s)
       (bs_kind s) (bs_unit s) (bs_mode s) (bs_meter s)"

end
