(* ===== verification/Pool_Ledger.thy ===== *)
theory Pool_Ledger
  imports Resource_State
begin

text \<open>
  The operations of the physical-pool ledger, \<open>raes_runtime/participant_resource_pool_ledger.py\<close>,
  and the interface the reservation and accounting code relies on: what each operation does to
  the quantities in use, to the part of them that is not protected, and to the capacities. The
  interface is a locale; the model of the ledger interprets it.
\<close>

section \<open>Operations\<close>

definition pool_state_ref :: "(string \<Rightarrow> string) \<Rightarrow> pool_capacity \<Rightarrow> string" where
  "pool_state_ref sha256 p =
     participant_resource_pool_state_ref sha256 (pc_pool_ref p) (pc_owner_kind p) (pc_owner_ref p)
       (pc_kind p) (pc_unit p) (pc_mode p) (pc_meter p)"

definition new_pool_state :: "(string \<Rightarrow> string) \<Rightarrow> pool_capacity \<Rightarrow> pool_state res" where
  "new_pool_state sha256 p =
     (let s = \<lparr>pl_state_ref = pool_state_ref sha256 p, pl_pool_ref = pc_pool_ref p,
                pl_owner_kind = pc_owner_kind p, pl_owner_ref = pc_owner_ref p, pl_kind = pc_kind p,
                pl_unit = pc_unit p, pl_mode = pc_mode p, pl_meter = pc_meter p,
                pl_capacity = pc_capacity p, pl_protected_capacity = pc_protected_capacity p,
                pl_fairness_policy = pc_fairness_policy p, pl_priority_classes = pc_priority_classes p,
                pl_borrowing = pc_borrowing p, pl_reclaim = pc_reclaim p,
                pl_max_queue_ticks = pc_max_queue_ticks p,
                pl_starvation_bound_ticks = pc_starvation_bound_ticks p, pl_allocations = []\<rparr>
      in res_bind (check_pool_state sha256 s) (\<lambda>_. Inr s))"

definition new_allocation :: "budget_state \<Rightarrow> resource_fairness \<Rightarrow> pool_allocation" where
  "new_allocation budget fairness =
     \<lparr>al_budget_state_ref = bs_state_ref budget, al_policy_address = bs_policy_address budget,
      al_budget_id = bs_budget_id budget, al_generation = bs_generation budget,
      al_priority_class = fr_priority_class fairness, al_weight = fr_weight fairness,
      al_protected = fr_protected fairness, al_borrowing = fr_borrowing fairness,
      al_reclaim = fr_reclaim fairness, al_max_queue_ticks = fr_max_queue_ticks fairness,
      al_starvation_bound_ticks = fr_starvation_bound_ticks fairness,
      al_reserved = 0, al_current_use = 0, al_cumulative_use = 0\<rparr>"

definition ensure_allocation :: "pool_state \<Rightarrow> budget_state \<Rightarrow> resource_fairness \<Rightarrow> pool_state res" where
  "ensure_allocation pool budget fairness =
     (case dict_get (pl_allocations pool) (bs_state_ref budget) of
        Some existing \<Rightarrow>
          if al_policy_address existing \<noteq> bs_policy_address budget \<or>
             al_budget_id existing \<noteq> bs_budget_id budget \<or>
             al_protected existing \<noteq> fr_protected fairness
          then Inl (ValueError ''physical pool allocation conflicts with its canonical budget state'')
          else Inr pool
      | None \<Rightarrow>
          res_bind (check_allocation (new_allocation budget fairness)) (\<lambda>_.
            Inr (pool\<lparr>pl_allocations :=
              dict_set (bs_state_ref budget) (new_allocation budget fairness) (pl_allocations pool)\<rparr>)))"

definition unprotected_total :: "pool_state \<Rightarrow> int" where
  "unprotected_total p =
     sum_list (map (allocation_use (pl_mode p)) (filter (\<lambda>a. \<not> al_protected a) (dict_values (pl_allocations p))))"

definition can_reserve :: "pool_state \<Rightarrow> string \<Rightarrow> int \<Rightarrow> bool res" where
  "can_reserve pool ref amount =
     res_bind (dict_item (pl_allocations pool) ref) (\<lambda>allocation.
       Inr (if pl_capacity pool < pool_allocated_total pool + amount then False
            else if al_protected allocation then True
            else unprotected_total pool + amount \<le> pl_capacity pool - pl_protected_capacity pool))"

definition set_allocation :: "string \<Rightarrow> pool_allocation \<Rightarrow> pool_state \<Rightarrow> pool_state" where
  "set_allocation ref a pool = pool\<lparr>pl_allocations := dict_set ref a (pl_allocations pool)\<rparr>"

definition pool_reserve :: "pool_state \<Rightarrow> string \<Rightarrow> int \<Rightarrow> pool_state res" where
  "pool_reserve pool ref amount =
     res_bind (dict_item (pl_allocations pool) ref) (\<lambda>current.
       Inr (set_allocation ref (current\<lparr>al_reserved := al_reserved current + amount\<rparr>) pool))"

definition pool_commit :: "pool_state \<Rightarrow> string \<Rightarrow> int \<Rightarrow> int \<Rightarrow> pool_state res" where
  "pool_commit pool ref reserved measured =
     res_bind (dict_item (pl_allocations pool) ref) (\<lambda>current.
       Inr (set_allocation ref
         (current\<lparr>al_reserved := max 0 (al_reserved current - reserved),
                  al_cumulative_use := al_cumulative_use current + measured\<rparr>) pool))"

definition pool_release :: "pool_state \<Rightarrow> string \<Rightarrow> int \<Rightarrow> pool_state res" where
  "pool_release pool ref amount =
     res_bind (dict_item (pl_allocations pool) ref) (\<lambda>current.
       Inr (set_allocation ref (current\<lparr>al_reserved := max 0 (al_reserved current - amount)\<rparr>) pool))"

definition pool_reconcile :: "pool_state \<Rightarrow> budget_state \<Rightarrow> int \<Rightarrow> bool \<Rightarrow> pool_state res" where
  "pool_reconcile pool budget generation clears =
     res_bind (dict_item (pl_allocations pool) (bs_state_ref budget)) (\<lambda>current.
       Inr (set_allocation (bs_state_ref budget)
         (current\<lparr>al_generation := generation, al_reserved := 0,
                  al_current_use := if clears then 0 else al_current_use current,
                  al_cumulative_use := if clears then 0 else al_cumulative_use current\<rparr>) pool))"

section \<open>What an update does to the totals\<close>

definition allocation_at :: "pool_state \<Rightarrow> string \<Rightarrow> pool_allocation option" where
  "allocation_at p ref = dict_get (pl_allocations p) ref"

definition pool_wf :: "pool_state \<Rightarrow> bool" where
  "pool_wf p \<longleftrightarrow> wf_dict (pl_allocations p)"

lemma set_allocation_simps [simp]:
  "pl_state_ref (set_allocation ref a p) = pl_state_ref p"
  "pl_mode (set_allocation ref a p) = pl_mode p"
  "pl_capacity (set_allocation ref a p) = pl_capacity p"
  "pl_protected_capacity (set_allocation ref a p) = pl_protected_capacity p"
  "allocation_at (set_allocation ref a p) = (allocation_at p)(ref \<mapsto> a)"
  "pool_wf p \<Longrightarrow> pool_wf (set_allocation ref a p)"
  by (simp_all add: set_allocation_def allocation_at_def pool_wf_def fun_eq_iff)

lemma total_as_entries:
  "pool_allocated_total p = sum_list (map (\<lambda>(r, a). allocation_use (pl_mode p) a) (pl_allocations p))"
  "unprotected_total p =
     sum_list (map (\<lambda>(r, a). if al_protected a then 0 else allocation_use (pl_mode p) a) (pl_allocations p))"
proof -
  show "pool_allocated_total p = sum_list (map (\<lambda>(r, a). allocation_use (pl_mode p) a) (pl_allocations p))"
    by (simp add: pool_allocated_total_def dict_values_def comp_def case_prod_unfold)
  have "sum_list (map f (filter (\<lambda>a. \<not> al_protected a) (map snd d))) =
      sum_list (map (\<lambda>(r, a). if al_protected a then 0 else f a) d)"
    for f :: "pool_allocation \<Rightarrow> int" and d :: "(string \<times> pool_allocation) list"
    by (induction d) auto
  then show "unprotected_total p =
     sum_list (map (\<lambda>(r, a). if al_protected a then 0 else allocation_use (pl_mode p) a) (pl_allocations p))"
    by (simp add: unprotected_total_def dict_values_def)
qed

lemma set_allocation_totals [ledger_simps]:
  assumes "pool_wf p" and "allocation_at p ref = Some a"
  shows "pool_allocated_total (set_allocation ref b p) =
      pool_allocated_total p - allocation_use (pl_mode p) a + allocation_use (pl_mode p) b"
    and "al_protected b = al_protected a \<Longrightarrow> unprotected_total (set_allocation ref b p) =
      unprotected_total p + (if al_protected a then 0
        else allocation_use (pl_mode p) b - allocation_use (pl_mode p) a)"
  using assms
  by (auto simp: total_as_entries set_allocation_def pool_wf_def allocation_at_def
      sum_list_dict_set [where u = a] cong: if_cong)

lemma can_reserve_True:
  "can_reserve p ref n = Inr True \<longleftrightarrow>
     (\<exists>a. allocation_at p ref = Some a \<and> pool_allocated_total p + n \<le> pl_capacity p \<and>
        (al_protected a \<or> unprotected_total p + n \<le> pl_capacity p - pl_protected_capacity p))"
  by (auto simp: can_reserve_def res_bind_Inr_iff allocation_at_def)

section \<open>The ledger interface\<close>

text \<open>
  \<open>used\<close> is what a pool has handed out, \<open>open_used\<close> the part of it held by unprotected
  budgets, \<open>held\<close> what one budget has reserved and not yet settled.
\<close>

locale capacity_ledger =
  fixes wf :: "'p \<Rightarrow> bool"
    and used open_used capacity headroom :: "'p \<Rightarrow> int"
    and held :: "'p \<Rightarrow> 'r \<Rightarrow> int option"
    and grants :: "'p \<Rightarrow> 'r \<Rightarrow> int \<Rightarrow> bool"
    and reserve release :: "'p \<Rightarrow> 'r \<Rightarrow> int \<Rightarrow> 'p res"
    and settle :: "'p \<Rightarrow> 'r \<Rightarrow> int \<Rightarrow> int \<Rightarrow> 'p res"
  assumes reserve_wf: "wf p \<Longrightarrow> reserve p r n = Inr q \<Longrightarrow>
      wf q \<and> capacity q = capacity p \<and> headroom q = headroom p"
    and settle_wf: "wf p \<Longrightarrow> settle p r n m = Inr q \<Longrightarrow>
      wf q \<and> capacity q = capacity p \<and> headroom q = headroom p"
    and release_wf: "wf p \<Longrightarrow> release p r n = Inr q \<Longrightarrow>
      wf q \<and> capacity q = capacity p \<and> headroom q = headroom p"
    and reserve_granted: "wf p \<Longrightarrow> grants p r n \<Longrightarrow> 0 \<le> n \<Longrightarrow> reserve p r n = Inr q \<Longrightarrow>
      used q \<le> capacity p \<and>
      (open_used q \<le> open_used p \<or> open_used q \<le> capacity p - headroom p)"
    and settle_shrinks: "wf p \<Longrightarrow> settle p r n m = Inr q \<Longrightarrow> held p r = Some h \<Longrightarrow>
      0 \<le> m \<Longrightarrow> m \<le> n \<Longrightarrow> n \<le> h \<Longrightarrow> used q \<le> used p \<and> open_used q \<le> open_used p"
    and release_shrinks: "wf p \<Longrightarrow> release p r n = Inr q \<Longrightarrow> held p r = Some h \<Longrightarrow>
      0 \<le> n \<Longrightarrow> 0 \<le> h \<Longrightarrow> used q \<le> used p \<and> open_used q \<le> open_used p"
begin

definition within :: "'p \<Rightarrow> bool" where
  "within p \<longleftrightarrow> wf p \<and> used p \<le> capacity p \<and> open_used p \<le> capacity p - headroom p"

text \<open>The ledger as its clients use it: a reservation only after the check, a settlement of what is held.\<close>

inductive ledger_step :: "'p \<Rightarrow> 'p \<Rightarrow> bool" where
  take: "grants p r n \<Longrightarrow> 0 \<le> n \<Longrightarrow> reserve p r n = Inr q \<Longrightarrow> ledger_step p q"
| pay: "settle p r n m = Inr q \<Longrightarrow> held p r = Some h \<Longrightarrow> 0 \<le> m \<Longrightarrow> m \<le> n \<Longrightarrow> n \<le> h \<Longrightarrow> ledger_step p q"
| give_back: "release p r n = Inr q \<Longrightarrow> held p r = Some h \<Longrightarrow> 0 \<le> n \<Longrightarrow> 0 \<le> h \<Longrightarrow> ledger_step p q"

lemma within_reserve: "within p \<Longrightarrow> grants p r n \<Longrightarrow> 0 \<le> n \<Longrightarrow> reserve p r n = Inr q \<Longrightarrow> within q"
  using reserve_wf [of p r n q] reserve_granted [of p r n q] by (auto simp: within_def)

lemma within_settle:
  "within p \<Longrightarrow> settle p r n m = Inr q \<Longrightarrow> held p r = Some h \<Longrightarrow> 0 \<le> m \<Longrightarrow> m \<le> n \<Longrightarrow> n \<le> h \<Longrightarrow> within q"
  using settle_wf [of p r n m q] settle_shrinks [of p r n m q h] by (auto simp: within_def)

lemma within_release:
  "within p \<Longrightarrow> release p r n = Inr q \<Longrightarrow> held p r = Some h \<Longrightarrow> 0 \<le> n \<Longrightarrow> 0 \<le> h \<Longrightarrow> within q"
  using release_wf [of p r n q] release_shrinks [of p r n q h] by (auto simp: within_def)

lemma within_step: "ledger_step p q \<Longrightarrow> within p \<Longrightarrow> within q"
  by (erule ledger_step.cases) (auto intro: within_reserve within_settle within_release)

lemma within_run: "ledger_step\<^sup>*\<^sup>* p q \<Longrightarrow> within p \<Longrightarrow> within q"
  by (induction rule: rtranclp_induct) (auto intro: within_step)

end

definition held_by :: "pool_state \<Rightarrow> string \<Rightarrow> int option" where
  "held_by p ref = map_option al_reserved (allocation_at p ref)"

definition grants :: "pool_state \<Rightarrow> string \<Rightarrow> int \<Rightarrow> bool" where
  "grants p ref n \<longleftrightarrow> can_reserve p ref n = Inr True"

lemma pool_update_cases:
  "pool_reserve p ref n = Inr q \<longleftrightarrow>
     (\<exists>a. allocation_at p ref = Some a \<and> q = set_allocation ref (a\<lparr>al_reserved := al_reserved a + n\<rparr>) p)"
  "pool_commit p ref n m = Inr q \<longleftrightarrow>
     (\<exists>a. allocation_at p ref = Some a \<and>
        q = set_allocation ref (a\<lparr>al_reserved := max 0 (al_reserved a - n),
              al_cumulative_use := al_cumulative_use a + m\<rparr>) p)"
  "pool_release p ref n = Inr q \<longleftrightarrow>
     (\<exists>a. allocation_at p ref = Some a \<and>
        q = set_allocation ref (a\<lparr>al_reserved := max 0 (al_reserved a - n)\<rparr>) p)"
  "pool_reconcile p s g c = Inr q \<longleftrightarrow>
     (\<exists>a. allocation_at p (bs_state_ref s) = Some a \<and>
        q = set_allocation (bs_state_ref s) (a\<lparr>al_generation := g, al_reserved := 0,
              al_current_use := if c then 0 else al_current_use a,
              al_cumulative_use := if c then 0 else al_cumulative_use a\<rparr>) p)"
  by (auto simp: pool_reserve_def pool_commit_def pool_release_def pool_reconcile_def
      allocation_at_def res_bind_Inr_iff)

interpretation pool: capacity_ledger pool_wf pool_allocated_total unprotected_total pl_capacity
  pl_protected_capacity held_by grants pool_reserve pool_release pool_commit
proof unfold_locales
  fix p q :: pool_state and r n m h
  show "pool_wf p \<Longrightarrow> pool_reserve p r n = Inr q \<Longrightarrow>
      pool_wf q \<and> pl_capacity q = pl_capacity p \<and> pl_protected_capacity q = pl_protected_capacity p"
    by (auto simp: pool_update_cases)
  show "pool_wf p \<Longrightarrow> pool_commit p r n m = Inr q \<Longrightarrow>
      pool_wf q \<and> pl_capacity q = pl_capacity p \<and> pl_protected_capacity q = pl_protected_capacity p"
    by (auto simp: pool_update_cases)
  show "pool_wf p \<Longrightarrow> pool_release p r n = Inr q \<Longrightarrow>
      pool_wf q \<and> pl_capacity q = pl_capacity p \<and> pl_protected_capacity q = pl_protected_capacity p"
    by (auto simp: pool_update_cases)
  show "pool_wf p \<Longrightarrow> grants p r n \<Longrightarrow> 0 \<le> n \<Longrightarrow> pool_reserve p r n = Inr q \<Longrightarrow>
      pool_allocated_total q \<le> pl_capacity p \<and>
      (unprotected_total q \<le> unprotected_total p \<or>
       unprotected_total q \<le> pl_capacity p - pl_protected_capacity p)"
    by (auto simp: pool_update_cases grants_def can_reserve_True ledger_simps allocation_use_def split: if_splits)
  show "pool_wf p \<Longrightarrow> pool_commit p r n m = Inr q \<Longrightarrow> held_by p r = Some h \<Longrightarrow> 0 \<le> m \<Longrightarrow> m \<le> n \<Longrightarrow> n \<le> h \<Longrightarrow>
      pool_allocated_total q \<le> pool_allocated_total p \<and> unprotected_total q \<le> unprotected_total p"
    by (auto simp: pool_update_cases held_by_def ledger_simps allocation_use_def)
  show "pool_wf p \<Longrightarrow> pool_release p r n = Inr q \<Longrightarrow> held_by p r = Some h \<Longrightarrow> 0 \<le> n \<Longrightarrow> 0 \<le> h \<Longrightarrow>
      pool_allocated_total q \<le> pool_allocated_total p \<and> unprotected_total q \<le> unprotected_total p"
    by (auto simp: pool_update_cases held_by_def ledger_simps allocation_use_def)
qed

end
