(* ===== verification/Budget_Ops.thy ===== *)
theory Budget_Ops
  imports Pool_Ledger
begin

text \<open>
  Initialisation, reservation, commit, release and reconciliation of participant resource
  budgets: \<open>raes_runtime/participant_resource_budgets.py\<close>, \<open>participant_resource_reservation.py\<close>
  and \<open>participant_resource_accounting.py\<close>. The mutable mutation objects of the code are a
  \<open>ledger\<close> record that every step returns updated; a step that ends the operation early returns
  the result of the operation on the left of a sum.
\<close>

section \<open>The ledger under mutation\<close>

record ledger =
  ld_states :: "(string, budget_state) pydict"
  ld_pools :: "(string, pool_state) pydict"
  ld_events :: "(string, budget_event) pydict"

definition ledger_of :: "'rest budget_snapshot \<Rightarrow> ledger" where
  "ledger_of sn = \<lparr>ld_states = sn_states sn, ld_pools = sn_pools sn, ld_events = sn_events sn\<rparr>"

definition commit_ledger ::
  "(string \<Rightarrow> string) \<Rightarrow> 'rest budget_snapshot \<Rightarrow> ledger \<Rightarrow> 'rest budget_snapshot res" where
  "commit_ledger sha256 sn ld = with_budget_entries sha256 sn (ld_states ld) (ld_pools ld) (ld_events ld)"

definition read_state :: "budget_state \<Rightarrow> budget_state res" where
  "read_state s = res_bind (check_budget_state s) (\<lambda>_. Inr s)"

definition read_pool :: "(string \<Rightarrow> string) \<Rightarrow> pool_state \<Rightarrow> pool_state res" where
  "read_pool sha256 p = res_bind (check_pool_state sha256 p) (\<lambda>_. Inr p)"

definition read_event :: "budget_event \<Rightarrow> budget_event res" where
  "read_event e = res_bind (check_event e) (\<lambda>_. Inr e)"

section \<open>Policies as the runtime sees them\<close>

record resource_demand =
  dm_budget_id :: string
  dm_owner_kind :: owner_kind
  dm_owner_address :: string
  dm_pool_ref :: string
  dm_kind :: resource_kind
  dm_unit :: string
  dm_mode :: accounting_mode
  dm_meter :: string
  dm_limit :: int
  dm_reservation :: int
  dm_reset :: reset_mode

record resource_policy =
  rp_address :: string
  rp_demands :: "resource_demand list"
  rp_fairness :: resource_fairness

definition demand_state_ref :: "resource_policy \<Rightarrow> resource_demand \<Rightarrow> string" where
  "demand_state_ref policy d = participant_resource_budget_state_ref (rp_address policy) (dm_budget_id d)"

section \<open>Initialisation\<close>

definition matching_pool :: "resource_demand \<Rightarrow> budget_capabilities \<Rightarrow> pool_capacity option" where
  "matching_pool d c =
     List.find (\<lambda>p. pc_pool_ref p = dm_pool_ref d \<and> pc_owner_kind p = dm_owner_kind d \<and>
         pc_owner_ref p = dm_owner_address d \<and> pc_kind p = dm_kind d \<and> pc_unit p = dm_unit d \<and>
         pc_mode p = dm_mode d \<and> pc_meter p = dm_meter d)
       (cap_configured_pools c)"

definition new_budget_state ::
  "resource_policy \<Rightarrow> resource_demand \<Rightarrow> pool_capacity \<Rightarrow> int \<Rightarrow> budget_state res" where
  "new_budget_state policy d pool generation =
     read_state
       \<lparr>bs_state_ref = demand_state_ref policy d, bs_budget_id = dm_budget_id d,
        bs_policy_address = rp_address policy, bs_owner_kind = dm_owner_kind d,
        bs_owner_ref = dm_owner_address d, bs_pool_ref = dm_pool_ref d, bs_kind = dm_kind d,
        bs_unit = dm_unit d, bs_mode = dm_mode d, bs_meter = dm_meter d, bs_reset = dm_reset d,
        bs_generation = generation, bs_limit = dm_limit d, bs_configured_capacity = pc_capacity pool,
        bs_reserved = 0, bs_current_use = 0, bs_cumulative_use = 0, bs_throttled = 0, bs_rejected = 0,
        bs_status = STATUS_RECONCILED, bs_last_event_ref = ''initial:'' @ demand_state_ref policy d,
        bs_evidence_refs = []\<rparr>"

type_synonym 'rest outcome = "('rest apply_result + ledger) res"

definition initialize_new_budget ::
  "(string \<Rightarrow> string) \<Rightarrow> 'rest budget_snapshot \<Rightarrow> int \<Rightarrow> resource_policy \<Rightarrow> resource_demand \<Rightarrow>
     pool_capacity \<Rightarrow> ledger \<Rightarrow> 'rest outcome" where
  "initialize_new_budget sha256 sn generation policy d pool ld =
     res_bind (new_budget_state policy d pool generation) (\<lambda>budget.
     let exact = pool_state_ref sha256 pool in
     res_bind (case dict_get (ld_pools ld) exact of
         None \<Rightarrow> new_pool_state sha256 pool
       | Some existing \<Rightarrow> read_pool sha256 existing) (\<lambda>physical.
       (case ensure_allocation physical budget (rp_fairness policy) of
          Inl e \<Rightarrow> Inr (Inl (apply_failed sn ''runtime.participant-resource-pool-conflict'' (rp_address policy)))
        | Inr physical' \<Rightarrow>
            Inr (Inr (ld\<lparr>ld_states := dict_set (demand_state_ref policy d) budget (ld_states ld),
                         ld_pools := dict_set exact physical' (ld_pools ld)\<rparr>)))))"

definition initialize_demand ::
  "(string \<Rightarrow> string) \<Rightarrow> 'rest budget_snapshot \<Rightarrow> int \<Rightarrow> budget_capabilities \<Rightarrow>
     resource_policy \<Rightarrow> resource_demand \<Rightarrow> ledger \<Rightarrow> 'rest outcome" where
  "initialize_demand sha256 sn generation caps policy d ld =
     (case matching_pool d caps of
        None \<Rightarrow> Inr (Inl (apply_failed sn ''runtime.participant-resource-capacity-missing'' (rp_address policy)))
      | Some pool \<Rightarrow>
          if fr_protected (rp_fairness policy) \<and> pc_protected_capacity pool < dm_reservation d
          then Inr (Inl (apply_failed sn ''runtime.participant-resource-protected-capacity-missing''
                  (rp_address policy)))
          else (case dict_get (ld_states ld) (demand_state_ref policy d) of
              Some existing \<Rightarrow>
                res_bind (read_state existing) (\<lambda>s.
                  Inr (if bs_generation s \<noteq> generation
                       then Inl (apply_failed sn ''runtime.participant-resource-state-conflict'' (rp_address policy))
                       else Inr ld))
            | None \<Rightarrow> initialize_new_budget sha256 sn generation policy d pool ld))"

text \<open>The loops stop at the first outcome on the left.\<close>

fun run_outcomes :: "('a \<Rightarrow> ledger \<Rightarrow> 'rest outcome) \<Rightarrow> 'a list \<Rightarrow> ledger \<Rightarrow> 'rest outcome" where
  "run_outcomes f [] ld = Inr (Inr ld)"
| "run_outcomes f (x # xs) ld =
     res_bind (f x ld) (\<lambda>out. case out of Inl failure \<Rightarrow> Inr (Inl failure) | Inr ld' \<Rightarrow> run_outcomes f xs ld')"

definition finish ::
  "(string \<Rightarrow> string) \<Rightarrow> 'rest budget_snapshot \<Rightarrow> 'rest outcome \<Rightarrow> 'rest apply_result res" where
  "finish sha256 sn out =
     res_bind out (\<lambda>r. case r of
         Inl failure \<Rightarrow> Inr failure
       | Inr ld \<Rightarrow> res_bind (commit_ledger sha256 sn ld) (\<lambda>sn'. Inr (apply_ok sn')))"

definition initialize_participant_resource_budgets ::
  "(string \<Rightarrow> string) \<Rightarrow> 'rest budget_snapshot \<Rightarrow> resource_policy list \<Rightarrow> budget_capabilities \<Rightarrow> int \<Rightarrow>
     'rest apply_result res" where
  "initialize_participant_resource_budgets sha256 sn policies caps generation =
     finish sha256 sn
       (run_outcomes (\<lambda>(policy, d). initialize_demand sha256 sn generation caps policy d)
         (concat (map (\<lambda>policy. map (\<lambda>d. (policy, d)) (rp_demands policy)) policies)) (ledger_of sn))"

section \<open>Reservation\<close>

definition operation_event_id :: "string \<Rightarrow> string \<Rightarrow> string \<Rightarrow> string" where
  "operation_event_id operation_id ref suffix = operation_id @ '':'' @ ref @ '':'' @ suffix"

definition reserve_event_id :: "string \<Rightarrow> string \<Rightarrow> string" where
  "reserve_event_id operation_id ref = operation_event_id operation_id ref ''reserve''"

definition used_capacity :: "budget_state \<Rightarrow> int" where
  "used_capacity s =
     (if is_gauge (bs_mode s) then bs_current_use s + bs_reserved s else bs_cumulative_use s + bs_reserved s)"

definition requested_amount :: "resource_demand \<Rightarrow> (string, int) pydict option \<Rightarrow> int res" where
  "requested_amount d quantities =
     (let amount = (case quantities of
          None \<Rightarrow> dm_reservation d
        | Some qs \<Rightarrow> (case dict_get qs (dm_budget_id d) of None \<Rightarrow> dm_reservation d | Some n \<Rightarrow> n)) in
      if amount < 0
      then Inl (ValueError ''requested participant resource quantities must be non-negative'')
      else Inr amount)"

definition operation_event ::
  "string \<Rightarrow> string \<Rightarrow> string \<Rightarrow> string \<Rightarrow> budget_state \<Rightarrow> int \<Rightarrow> budget_transition \<Rightarrow> int \<Rightarrow> int option \<Rightarrow>
     string \<Rightarrow> string list \<Rightarrow> string \<Rightarrow> budget_event res" where
  "operation_event event_id operation_id budget_id policy_address s generation transition requested measured
       predecessor evidence ref =
     read_event
       \<lparr>ev_event_id = event_id, ev_operation_id = operation_id, ev_budget_state_ref = ref,
        ev_budget_id = budget_id, ev_policy_address = policy_address, ev_owner_ref = bs_owner_ref s,
        ev_pool_ref = bs_pool_ref s, ev_execution_generation = generation, ev_transition = transition,
        ev_disposition = event_disposition transition, ev_requested = requested, ev_measured = measured,
        ev_kind = bs_kind s, ev_unit = bs_unit s, ev_meter = bs_meter s,
        ev_predecessor = Some predecessor, ev_evidence_refs = evidence\<rparr>"

definition throttled_result ::
  "(string \<Rightarrow> string) \<Rightarrow> 'rest budget_snapshot \<Rightarrow> resource_policy \<Rightarrow> string \<Rightarrow> int \<Rightarrow> ledger \<Rightarrow>
     resource_demand \<Rightarrow> budget_state \<Rightarrow> int \<Rightarrow> 'rest apply_result res" where
  "throttled_result sha256 sn policy operation_id generation ld d current amount =
     (let event_id = operation_event_id operation_id (bs_state_ref current) ''throttle'' in
      res_bind (operation_event event_id operation_id (dm_budget_id d) (rp_address policy) current generation
          THROTTLE amount None (bs_last_event_ref current) [] (bs_state_ref current)) (\<lambda>event.
      res_bind (commit_ledger sha256 sn
          (ld\<lparr>ld_states := dict_set (bs_state_ref current)
                 (current\<lparr>bs_throttled := bs_throttled current + 1, bs_last_event_ref := event_id\<rparr>) (ld_states ld),
              ld_events := dict_set event_id event (ld_events ld)\<rparr>)) (\<lambda>sn'.
        Inr (apply_failed sn' ''runtime.participant-resource-throttled'' (rp_address policy)))))"

record reservation_check =
  rc_demand :: resource_demand
  rc_current :: budget_state
  rc_pool :: pool_state
  rc_amount :: int

definition check_reservation ::
  "(string \<Rightarrow> string) \<Rightarrow> 'rest budget_snapshot \<Rightarrow> resource_policy \<Rightarrow> string \<Rightarrow> int \<Rightarrow>
     (string, int) pydict option \<Rightarrow> ledger \<Rightarrow> resource_demand \<Rightarrow>
     ('rest apply_result + reservation_check) res" where
  "check_reservation sha256 sn policy operation_id generation quantities ld d =
     (case dict_get (ld_states ld) (demand_state_ref policy d) of
        None \<Rightarrow> Inr (Inl (apply_failed sn ''runtime.participant-resource-state-missing'' (rp_address policy)))
      | Some raw \<Rightarrow>
          res_bind (read_state raw) (\<lambda>current.
          if bs_generation current \<noteq> generation
          then Inr (Inl (apply_failed sn ''runtime.participant-resource-stale-generation'' (rp_address policy)))
          else
            res_bind (requested_amount d quantities) (\<lambda>amount.
            (case dict_get (ld_pools ld) (pool_ref_for_state sha256 current) of
               None \<Rightarrow> Inr (Inl (apply_failed sn ''runtime.participant-resource-pool-state-missing''
                         (rp_address policy)))
             | Some raw_pool \<Rightarrow>
                 res_bind (read_pool sha256 raw_pool) (\<lambda>physical.
                 let budget_available = (used_capacity current + amount \<le>
                        min (bs_limit current) (bs_configured_capacity current)) in
                 res_bind (if budget_available
                           then can_reserve physical (demand_state_ref policy d) amount
                           else Inr False) (\<lambda>granted.
                   if \<not> granted
                   then res_bind (throttled_result sha256 sn policy operation_id generation ld d current amount)
                          (\<lambda>failure. Inr (Inl failure))
                   else Inr (Inr \<lparr>rc_demand = d, rc_current = current, rc_pool = physical,
                                   rc_amount = amount\<rparr>)))))))"

fun check_reservations ::
  "(resource_demand \<Rightarrow> ('rest apply_result + reservation_check) res) \<Rightarrow> resource_demand list \<Rightarrow>
     ('rest apply_result + reservation_check list) res" where
  "check_reservations f [] = Inr (Inr [])"
| "check_reservations f (d # ds) =
     res_bind (f d) (\<lambda>out. case out of
         Inl failure \<Rightarrow> Inr (Inl failure)
       | Inr c \<Rightarrow> res_bind (check_reservations f ds) (\<lambda>rest. case rest of
             Inl failure \<Rightarrow> Inr (Inl failure)
           | Inr cs \<Rightarrow> Inr (Inr (c # cs))))"

definition apply_reservation ::
  "resource_policy \<Rightarrow> string \<Rightarrow> int \<Rightarrow> ledger \<Rightarrow> reservation_check \<Rightarrow> ledger res" where
  "apply_reservation policy operation_id generation ld c =
     (let current = rc_current c; event_id = reserve_event_id operation_id (bs_state_ref current) in
      res_bind (operation_event event_id operation_id (dm_budget_id (rc_demand c)) (rp_address policy) current
          generation RESERVE (rc_amount c) None (bs_last_event_ref current) [] (bs_state_ref current)) (\<lambda>event.
      res_bind (pool_reserve (rc_pool c) (bs_state_ref current) (rc_amount c)) (\<lambda>pool'.
        Inr (ld\<lparr>ld_states := dict_set (bs_state_ref current)
                  (current\<lparr>bs_reserved := bs_reserved current + rc_amount c, bs_last_event_ref := event_id\<rparr>)
                  (ld_states ld),
                ld_pools := dict_set (pl_state_ref (rc_pool c)) pool' (ld_pools ld),
                ld_events := dict_set event_id event (ld_events ld)\<rparr>))))"

definition reserve_participant_resources ::
  "(string \<Rightarrow> string) \<Rightarrow> 'rest budget_snapshot \<Rightarrow> resource_policy \<Rightarrow> string \<Rightarrow> int \<Rightarrow>
     (string, int) pydict option \<Rightarrow> 'rest apply_result res" where
  "reserve_participant_resources sha256 sn policy operation_id generation quantities =
     (let event_ids = map (\<lambda>d. reserve_event_id operation_id (demand_state_ref policy d)) (rp_demands policy) in
      if event_ids \<noteq> [] \<and> list_all (dict_has (sn_events sn)) event_ids
      then Inr (apply_ok sn)
      else
        res_bind (check_reservations
            (check_reservation sha256 sn policy operation_id generation quantities (ledger_of sn))
            (rp_demands policy)) (\<lambda>checked.
        (case checked of
           Inl failure \<Rightarrow> Inr failure
         | Inr cs \<Rightarrow>
             res_bind (res_fold (apply_reservation policy operation_id generation) (ledger_of sn) cs) (\<lambda>ld.
             res_bind (commit_ledger sha256 sn ld) (\<lambda>sn'. Inr (apply_ok sn'))))))"

section \<open>Commit\<close>

definition operation_reservations :: "(string, budget_event) pydict \<Rightarrow> string \<Rightarrow> budget_event list res" where
  "operation_reservations events operation_id =
     res_map read_event
       (filter (\<lambda>e. ev_operation_id e = operation_id \<and> ev_transition e = RESERVE) (dict_values events))"

definition missing_reservation_result ::
  "'rest budget_snapshot \<Rightarrow> string \<Rightarrow> (string, budget_event) pydict \<Rightarrow> 'rest apply_result" where
  "missing_reservation_result sn operation_id events =
     (if list_ex (\<lambda>e. ev_operation_id e = operation_id \<and> ev_transition e = COMMIT) (dict_values events)
      then apply_ok sn
      else apply_failed sn ''runtime.participant-resource-reservation-missing'' ''unknown'')"

definition valid_measurement_vector ::
  "budget_event list \<Rightarrow> (string, int) pydict \<Rightarrow> string list \<Rightarrow> bool" where
  "valid_measurement_vector reservations measured evidence \<longleftrightarrow>
     set (dict_keys measured) = set (map ev_budget_state_ref reservations) \<and> evidence \<noteq> [] \<and>
     list_all (\<lambda>r. case dict_get measured (ev_budget_state_ref r) of
         None \<Rightarrow> False
       | Some m \<Rightarrow> 0 \<le> m \<and> m \<le> ev_requested r) reservations"

definition commit_reservation ::
  "(string \<Rightarrow> string) \<Rightarrow> 'rest budget_snapshot \<Rightarrow> string \<Rightarrow> int \<Rightarrow> string list \<Rightarrow> (string, int) pydict \<Rightarrow>
     budget_event \<Rightarrow> ledger \<Rightarrow> 'rest outcome" where
  "commit_reservation sha256 sn operation_id generation evidence quantities r ld =
     res_bind (dict_item quantities (ev_budget_state_ref r)) (\<lambda>measured.
     let ref = ev_budget_state_ref r; commit_id = operation_event_id operation_id ref ''commit'' in
     if dict_has (ld_events ld) commit_id then Inr (Inr ld)
     else
       res_bind (dict_item (ld_states ld) ref) (\<lambda>raw.
       res_bind (read_state raw) (\<lambda>current.
       if bs_generation current \<noteq> generation
       then Inr (Inl (apply_failed sn ''runtime.participant-resource-stale-generation'' (ev_policy_address r)))
       else
         res_bind (operation_event commit_id operation_id (ev_budget_id r) (ev_policy_address r) current
             generation COMMIT (ev_requested r) (Some measured) (ev_event_id r) evidence ref) (\<lambda>event.
         res_bind (dict_item (ld_pools ld) (pool_ref_for_state sha256 current)) (\<lambda>raw_pool.
         res_bind (read_pool sha256 raw_pool) (\<lambda>physical.
         res_bind (pool_commit physical (bs_state_ref current) (ev_requested r) measured) (\<lambda>physical'.
           Inr (Inr
             (ld\<lparr>ld_states := dict_set ref
                    (current\<lparr>bs_reserved := max 0 (bs_reserved current - ev_requested r),
                             bs_cumulative_use := bs_cumulative_use current + measured,
                             bs_last_event_ref := commit_id,
                             bs_evidence_refs := fromkeys (bs_evidence_refs current @ evidence)\<rparr>)
                    (ld_states ld),
                 ld_pools := dict_set (pool_ref_for_state sha256 current) physical' (ld_pools ld),
                 ld_events := dict_set commit_id event (ld_events ld)\<rparr>)))))))))"

definition commit_participant_resource_reservation ::
  "(string \<Rightarrow> string) \<Rightarrow> 'rest budget_snapshot \<Rightarrow> string \<Rightarrow> int \<Rightarrow> (string, int) pydict \<Rightarrow> string list \<Rightarrow>
     'rest apply_result res" where
  "commit_participant_resource_reservation sha256 sn operation_id generation measured evidence =
     res_bind (operation_reservations (sn_events sn) operation_id) (\<lambda>reservations.
       if reservations = [] then Inr (missing_reservation_result sn operation_id (sn_events sn))
       else if \<not> valid_measurement_vector reservations measured evidence
       then Inr (apply_failed sn ''runtime.participant-resource-measurement-invalid''
               (ev_policy_address (hd reservations)))
       else finish sha256 sn
              (run_outcomes (commit_reservation sha256 sn operation_id generation evidence measured)
                reservations (ledger_of sn)))"

section \<open>Release\<close>

definition release_reservation ::
  "(string \<Rightarrow> string) \<Rightarrow> 'rest budget_snapshot \<Rightarrow> string \<Rightarrow> int \<Rightarrow> string list \<Rightarrow>
     budget_event \<Rightarrow> ledger \<Rightarrow> 'rest outcome" where
  "release_reservation sha256 sn operation_id generation evidence r ld =
     (let ref = ev_budget_state_ref r; release_id = operation_event_id operation_id ref ''release'' in
     if dict_has (ld_events ld) release_id then Inr (Inr ld)
     else
       res_bind (dict_item (ld_states ld) ref) (\<lambda>raw.
       res_bind (read_state raw) (\<lambda>current.
       if bs_generation current \<noteq> generation
       then Inr (Inl (apply_failed sn ''runtime.participant-resource-stale-generation'' (ev_policy_address r)))
       else
         res_bind (operation_event release_id operation_id (ev_budget_id r) (ev_policy_address r) current
             generation RELEASE (ev_requested r) None (ev_event_id r) evidence ref) (\<lambda>event.
         res_bind (dict_item (ld_pools ld) (pool_ref_for_state sha256 current)) (\<lambda>raw_pool.
         res_bind (read_pool sha256 raw_pool) (\<lambda>physical.
         res_bind (pool_release physical (bs_state_ref current) (ev_requested r)) (\<lambda>physical'.
           Inr (Inr
             (ld\<lparr>ld_states := dict_set (bs_state_ref current)
                    (current\<lparr>bs_reserved := max 0 (bs_reserved current - ev_requested r),
                             bs_last_event_ref := release_id,
                             bs_evidence_refs := fromkeys (bs_evidence_refs current @ evidence)\<rparr>)
                    (ld_states ld),
                 ld_pools := dict_set (pool_ref_for_state sha256 current) physical' (ld_pools ld),
                 ld_events := dict_set release_id event (ld_events ld)\<rparr>)))))))))"

definition release_participant_resource_reservation ::
  "(string \<Rightarrow> string) \<Rightarrow> 'rest budget_snapshot \<Rightarrow> string \<Rightarrow> int \<Rightarrow> string list \<Rightarrow> 'rest apply_result res" where
  "release_participant_resource_reservation sha256 sn operation_id generation evidence =
     res_bind (operation_reservations (sn_events sn) operation_id) (\<lambda>reservations.
       if reservations = [] then Inr (apply_ok sn)
       else finish sha256 sn
              (run_outcomes (release_reservation sha256 sn operation_id generation evidence)
                reservations (ledger_of sn)))"

section \<open>Reconciliation\<close>

definition reconcile_operation_id :: "string \<Rightarrow> int \<Rightarrow> string" where
  "reconcile_operation_id policy_address generation =
     ''reconcile:'' @ policy_address @ '':'' @ int_text generation"

definition reconcile_state ::
  "(string \<Rightarrow> string) \<Rightarrow> string \<Rightarrow> int \<Rightarrow> reset_mode \<Rightarrow> string list \<Rightarrow> ledger \<Rightarrow> string \<times> budget_state \<Rightarrow>
     ledger res" where
  "reconcile_state sha256 policy_address next_generation boundary evidence ld selected =
     (case selected of (ref, current) \<Rightarrow>
      let event_id = reconcile_operation_id policy_address next_generation @ '':'' @ ref;
          clears = (bs_reset current = boundary) in
      res_bind (operation_event event_id (reconcile_operation_id policy_address next_generation)
          (bs_budget_id current) policy_address current next_generation RECONCILE 0 (Some 0)
          (bs_last_event_ref current) evidence ref) (\<lambda>event.
      res_bind (dict_item (ld_pools ld) (pool_ref_for_state sha256 current)) (\<lambda>raw_pool.
      res_bind (read_pool sha256 raw_pool) (\<lambda>physical.
      res_bind (pool_reconcile physical current next_generation clears) (\<lambda>physical'.
        Inr (ld\<lparr>ld_states := dict_set ref
                  (current\<lparr>bs_generation := next_generation, bs_reserved := 0,
                           bs_current_use := if clears then 0 else bs_current_use current,
                           bs_cumulative_use := if clears then 0 else bs_cumulative_use current,
                           bs_status := STATUS_RECONCILED, bs_last_event_ref := event_id,
                           bs_evidence_refs := fromkeys (bs_evidence_refs current @ evidence)\<rparr>)
                  (ld_states ld),
                ld_pools := dict_set (pool_ref_for_state sha256 current) physical' (ld_pools ld),
                ld_events := dict_set event_id event (ld_events ld)\<rparr>))))))"

definition reconcile_participant_resource_budgets ::
  "(string \<Rightarrow> string) \<Rightarrow> 'rest budget_snapshot \<Rightarrow> string \<Rightarrow> int \<Rightarrow> int \<Rightarrow> reset_mode \<Rightarrow> string list \<Rightarrow>
     'rest apply_result res" where
  "reconcile_participant_resource_budgets sha256 sn policy_address current_generation next_generation
       boundary evidence =
     (if next_generation \<le> current_generation
      then Inl (ValueError ''resource-budget reconciliation must advance generation'')
      else
        res_bind (res_map (\<lambda>p. res_bind (read_state (snd p)) (\<lambda>s. Inr (fst p, s)))
            (filter (\<lambda>p. bs_policy_address (snd p) = policy_address) (sn_states sn))) (\<lambda>selected.
        if list_ex (\<lambda>p. bs_generation (snd p) \<noteq> current_generation) selected
        then Inr (apply_failed sn ''runtime.participant-resource-stale-generation'' policy_address)
        else
          res_bind (res_fold (reconcile_state sha256 policy_address next_generation boundary evidence)
              (ledger_of sn) selected) (\<lambda>ld.
          res_bind (commit_ledger sha256 sn ld) (\<lambda>sn'. Inr (apply_ok sn')))))"

end
