(* ===== verification/Budget_Books.thy ===== *)
theory Budget_Books
  imports Budget_Ops
begin

text \<open>
  The accounts of the budget ledger. Every budget's reserved amount is the sum of the
  reservations of its generation that are neither committed nor released, every physical pool
  mirrors the budgets that draw on it, and no pool has promised more than its capacity or let
  unprotected budgets into its protected part. These are the invariants of the operations of
  \<open>Budget_Ops\<close>; the lemmas here show that one update of a budget and its allocation keeps them.
\<close>

section \<open>Event identities\<close>

lemma operation_event_id_suffix:
  "operation_event_id op ref s = operation_event_id op' ref' s' \<Longrightarrow>
     CHR '':'' \<notin> set s \<Longrightarrow> CHR '':'' \<notin> set s' \<Longrightarrow> s = s'"
proof -
  assume eq: "operation_event_id op ref s = operation_event_id op' ref' s'"
    and free: "CHR '':'' \<notin> set s" "CHR '':'' \<notin> set s'"
  have tail: "takeWhile (\<lambda>c. c \<noteq> CHR '':'') (rev (operation_event_id o' r t)) = rev t"
    if "CHR '':'' \<notin> set t" for o' r t
  proof -
    have "takeWhile (\<lambda>c. c \<noteq> CHR '':'') (rev t @ CHR '':'' # u) = rev t" for u
      using that by (subst takeWhile_append2) auto
    then show ?thesis by (simp add: operation_event_id_def)
  qed
  from eq tail [OF free(1), of op ref] tail [OF free(2), of op' ref'] show "s = s'" by simp
qed

lemma operation_event_id_stem:
  "operation_event_id op ref s = operation_event_id op' ref' s \<longleftrightarrow> op @ '':'' @ ref = op' @ '':'' @ ref'"
  by (simp add: operation_event_id_def)

text \<open>Two stems that agree for one suffix agree for every suffix.\<close>

lemma operation_event_id_any:
  "operation_event_id op ref s = operation_event_id op' ref' s \<Longrightarrow>
     operation_event_id op ref t = operation_event_id op' ref' t"
  by (simp only: operation_event_id_stem)

lemma operation_event_id_same_op [simp]:
  "operation_event_id op ref s = operation_event_id op ref' s \<longleftrightarrow> ref = ref'"
  by (simp add: operation_event_id_def)

section \<open>Open reservations\<close>

definition settled :: "(string, budget_event) pydict \<Rightarrow> budget_event \<Rightarrow> bool" where
  "settled events e \<longleftrightarrow>
     dict_has events (operation_event_id (ev_operation_id e) (ev_budget_state_ref e) ''commit'') \<or>
     dict_has events (operation_event_id (ev_operation_id e) (ev_budget_state_ref e) ''release'')"

definition open_amount ::
  "(string, budget_event) pydict \<Rightarrow> string \<Rightarrow> int \<Rightarrow> budget_event \<Rightarrow> int" where
  "open_amount events ref generation e =
     (if ev_transition e = RESERVE \<and> ev_budget_state_ref e = ref \<and> ev_execution_generation e = generation \<and>
         \<not> settled events e
      then ev_requested e else 0)"

definition open_total :: "(string, budget_event) pydict \<Rightarrow> string \<Rightarrow> int \<Rightarrow> int" where
  "open_total events ref generation = sum_list (map (open_amount events ref generation) (dict_values events))"

definition events_wf :: "(string, budget_event) pydict \<Rightarrow> bool" where
  "events_wf events \<longleftrightarrow> wf_dict events \<and>
     (\<forall>(k, e) \<in> set events. ev_event_id e = k \<and> 0 \<le> ev_requested e \<and>
        (ev_transition e = RESERVE \<longrightarrow> k = reserve_event_id (ev_operation_id e) (ev_budget_state_ref e)))"

lemma events_wf_get:
  assumes "events_wf events" and "dict_get events k = Some e"
  shows "ev_event_id e = k" and "0 \<le> ev_requested e"
    and "ev_transition e = RESERVE \<Longrightarrow> k = reserve_event_id (ev_operation_id e) (ev_budget_state_ref e)"
  using assms(1) dict_get_Some_in [OF assms(2)] by (auto simp: events_wf_def)

lemma events_wf_value:
  assumes "events_wf events" and "e \<in> set (dict_values events)"
  shows "dict_get events (ev_event_id e) = Some e"
  using assms by (auto simp: events_wf_def dict_values_def dict_get_eq_Some)

lemma dict_values_append: "dict_values (d @ e) = dict_values d @ dict_values e"
  by (simp add: dict_values_def)

lemma open_amount_nonneg:
  "events_wf events \<Longrightarrow> e \<in> set (dict_values events) \<Longrightarrow> 0 \<le> open_amount events' ref g e"
  using events_wf_get(2) [OF _ events_wf_value] by (simp add: open_amount_def)

lemma open_total_nonneg: "events_wf events \<Longrightarrow> 0 \<le> open_total events ref g"
  using open_amount_nonneg by (fastforce simp: open_total_def intro!: sum_list_nonneg)

lemma sum_list_ge_member:
  fixes f :: "'a \<Rightarrow> int"
  shows "x \<in> set xs \<Longrightarrow> (\<And>y. y \<in> set xs \<Longrightarrow> 0 \<le> f y) \<Longrightarrow> f x \<le> sum_list (map f xs)"
proof (induction xs)
  case Nil
  then show ?case by simp
next
  case (Cons y ys)
  have "0 \<le> sum_list (map f ys)" using Cons.prems(2) by (fastforce intro!: sum_list_nonneg)
  moreover have "0 \<le> f y" by (rule Cons.prems(2)) simp
  moreover have "f x \<le> sum_list (map f ys)" if "x \<in> set ys"
    by (rule Cons.IH [OF that]) (rule Cons.prems(2), simp)
  ultimately show ?case using Cons.prems(1) by auto
qed

text \<open>An event that is open is part of the total.\<close>

lemma open_amount_le_total:
  "events_wf events \<Longrightarrow> e \<in> set (dict_values events) \<Longrightarrow> open_amount events ref g e \<le> open_total events ref g"
  unfolding open_total_def by (rule sum_list_ge_member) (auto intro: open_amount_nonneg)

text \<open>One summand changed to zero: the sum loses it.\<close>

lemma sum_list_drop_one:
  fixes f :: "'a \<Rightarrow> int"
  assumes "distinct xs" and "r \<in> set xs"
  shows "sum_list (map (\<lambda>x. if x = r then 0 else f x) xs) = sum_list (map f xs) - f r"
  using assms
proof (induction xs)
  case Nil
  then show ?case by simp
next
  case (Cons x xs)
  show ?case
  proof (cases "x = r")
    case True
    with Cons.prems have "sum_list (map (\<lambda>x. if x = r then 0 else f x) xs) = sum_list (map f xs)"
      by (intro arg_cong [of _ _ sum_list]) auto
    with True show ?thesis by simp
  next
    case False
    with Cons show ?thesis by simp
  qed
qed

lemma events_distinct: "events_wf events \<Longrightarrow> distinct (dict_values events)"
proof -
  assume wf: "events_wf events"
  have "map ev_event_id (dict_values events) = dict_keys events"
    using wf by (auto simp: events_wf_def dict_values_def dict_keys_def)
  with wf show ?thesis by (metis events_wf_def wf_dict_def distinct_map)
qed

section \<open>How an event changes the open totals\<close>

lemma settled_set:
  "settled (dict_set k e events) x \<longleftrightarrow> settled events x \<or>
     k = operation_event_id (ev_operation_id x) (ev_budget_state_ref x) ''commit'' \<or>
     k = operation_event_id (ev_operation_id x) (ev_budget_state_ref x) ''release''"
  by (auto simp: settled_def)

lemma open_total_set:
  assumes "events_wf events" and "ev_transition e \<noteq> RESERVE"
    and "\<And>old. dict_get events k = Some old \<Longrightarrow> ev_transition old \<noteq> RESERVE"
  shows "open_total (dict_set k e events) ref g =
    sum_list (map (open_amount (dict_set k e events) ref g) (dict_values events))"
proof -
  let ?f = "\<lambda>p. open_amount (dict_set k e events) ref g (snd p)"
  have "sum_list (map ?f (dict_set k e events)) = sum_list (map ?f events)"
  proof (cases "dict_get events k")
    case None
    then have "\<not> dict_has events k" by (simp add: dict_get_None_iff)
    then have "sum_list (map f (dict_set k e events)) = sum_list (map f events) + f (k, e)"
      for f :: "string \<times> budget_event \<Rightarrow> int"
      by (simp add: dict_set_fresh)
    then show ?thesis using assms(2) by (simp add: open_amount_def)
  next
    case (Some old)
    have "wf_dict events" using assms(1) by (simp add: events_wf_def)
    with sum_list_dict_set [OF this Some, of ?f e] assms(2,3) Some show ?thesis
      by (simp add: open_amount_def)
  qed
  then show ?thesis by (simp add: open_total_def dict_values_def comp_def)
qed

lemma open_total_other:
  assumes "events_wf events" and "ev_transition e \<noteq> RESERVE"
    and "\<And>old. dict_get events k = Some old \<Longrightarrow> ev_transition old \<noteq> RESERVE"
    and "\<And>op r. k \<noteq> operation_event_id op r ''commit'' \<and> k \<noteq> operation_event_id op r ''release''"
  shows "open_total (dict_set k e events) ref g = open_total events ref g"
proof -
  have same: "open_amount (dict_set k e events) ref g = open_amount events ref g"
    using assms(4) by (auto simp: fun_eq_iff open_amount_def settled_set)
  have "open_total (dict_set k e events) ref g =
      sum_list (map (open_amount (dict_set k e events) ref g) (dict_values events))"
    using assms(1-3) by (rule open_total_set)
  also have "\<dots> = open_total events ref g" by (simp only: same open_total_def)
  finally show ?thesis .
qed

lemma open_total_reserve:
  assumes "events_wf events" and "ev_transition e = RESERVE"
    and k: "k = reserve_event_id (ev_operation_id e) (ev_budget_state_ref e)"
    and fresh: "\<not> dict_has events k" "\<not> settled events e"
  shows "open_total (dict_set k e events) ref g = open_total events ref g +
    (if ev_budget_state_ref e = ref \<and> ev_execution_generation e = g then ev_requested e else 0)"
proof -
  have "settled (dict_set k e events) x = settled events x" for x
    by (auto simp: settled_set k reserve_event_id_def dest!: operation_event_id_suffix)
  then have same: "open_amount (dict_set k e events) ref g = open_amount events ref g"
    by (auto simp: open_amount_def fun_eq_iff)
  have "open_total (dict_set k e events) ref g =
      sum_list (map (open_amount events ref g) (dict_values (events @ [(k, e)])))"
    unfolding open_total_def same by (simp only: dict_set_fresh [OF fresh(1)])
  also have "\<dots> = open_total events ref g + open_amount events ref g e"
    by (simp add: open_total_def dict_values_def)
  finally show ?thesis using assms(2) fresh(2) by (simp add: open_amount_def)
qed

text \<open>Committing or releasing an open reservation takes exactly its amount out.\<close>

lemma open_total_settle:
  assumes wf: "events_wf events" and "ev_transition e \<noteq> RESERVE"
    and s: "s = ''commit'' \<or> s = ''release''"
    and r: "r \<in> set (dict_values events)" "ev_transition r = RESERVE"
    and k: "k = operation_event_id (ev_operation_id r) (ev_budget_state_ref r) s"
    and fresh: "\<not> dict_has events k"
  shows "open_total (dict_set k e events) ref g = open_total events ref g - open_amount events ref g r"
proof -
  have same: "k = operation_event_id (ev_operation_id x) (ev_budget_state_ref x) t \<longleftrightarrow> x = r \<and> s = t"
    if x: "x \<in> set (dict_values events)" "ev_transition x = RESERVE" and t: "t = ''commit'' \<or> t = ''release''" for x t
  proof
    assume eq: "k = operation_event_id (ev_operation_id x) (ev_budget_state_ref x) t"
    have "CHR '':'' \<notin> set s" "CHR '':'' \<notin> set t" using s t by auto
    with eq k have "s = t" using operation_event_id_suffix by blast
    have "operation_event_id (ev_operation_id r) (ev_budget_state_ref r) s =
        operation_event_id (ev_operation_id x) (ev_budget_state_ref x) s"
      using eq k \<open>s = t\<close> by metis
    from operation_event_id_any [OF this, of "''reserve''"]
    have "reserve_event_id (ev_operation_id r) (ev_budget_state_ref r) =
        reserve_event_id (ev_operation_id x) (ev_budget_state_ref x)" by (simp only: reserve_event_id_def)
    with events_wf_get(3) [OF wf events_wf_value [OF wf r(1)] r(2)]
      events_wf_get(3) [OF wf events_wf_value [OF wf x(1)] x(2)]
    have "ev_event_id x = ev_event_id r" by metis
    then have "Some x = Some r" using events_wf_value [OF wf r(1)] events_wf_value [OF wf x(1)] by metis
    then have "x = r" by simp
    with \<open>s = t\<close> show "x = r \<and> s = t" by simp
  next
    assume "x = r \<and> s = t" then show "k = operation_event_id (ev_operation_id x) (ev_budget_state_ref x) t"
      using k by simp
  qed
  have "open_amount (dict_set k e events) ref g x = (if x = r then 0 else open_amount events ref g x)"
    if x: "x \<in> set (dict_values events)" for x
    using same [OF x, of "''commit''"] same [OF x, of "''release''"] s
    by (auto simp: open_amount_def settled_set)
  then have sums: "sum_list (map (open_amount (dict_set k e events) ref g) (dict_values events)) =
      sum_list (map (\<lambda>x. if x = r then 0 else open_amount events ref g x) (dict_values events))"
    by (intro arg_cong [of _ _ sum_list]) simp
  have "dict_get events k = Some old \<Longrightarrow> ev_transition old \<noteq> RESERVE" for old
    using fresh by (auto dest: dict_get_Some_has)
  then have "open_total (dict_set k e events) ref g =
      sum_list (map (open_amount (dict_set k e events) ref g) (dict_values events))"
    by (rule open_total_set [OF wf assms(2)])
  also have "\<dots> = open_total events ref g - open_amount events ref g r"
    unfolding sums open_total_def by (rule sum_list_drop_one [OF events_distinct [OF wf] r(1)])
  finally show ?thesis .
qed

lemma events_wf_set:
  assumes "events_wf events" and "ev_event_id e = k" and "0 \<le> ev_requested e"
    and "ev_transition e = RESERVE \<Longrightarrow> k = reserve_event_id (ev_operation_id e) (ev_budget_state_ref e)"
  shows "events_wf (dict_set k e events)"
proof -
  have "wf_dict events" using assms(1) by (simp add: events_wf_def)
  then show ?thesis using assms by (auto simp: events_wf_def in_set_dict_set split: if_splits)
qed

section \<open>Balanced books\<close>

definition pool_within :: "pool_state \<Rightarrow> bool" where
  "pool_within p \<longleftrightarrow> pool_wf p \<and> pool_allocated_total p \<le> pl_capacity p \<and>
     unprotected_total p \<le> pl_capacity p - pl_protected_capacity p"

lemma pool_within_iff: "pool.within p \<longleftrightarrow> pool_within p"
  by (simp add: pool.within_def pool_within_def)

text \<open>A budget and its allocation agree in every quantity they both record.\<close>

definition agrees :: "budget_state \<Rightarrow> pool_allocation \<Rightarrow> bool" where
  "agrees s a \<longleftrightarrow> al_reserved a = bs_reserved s \<and> al_current_use a = bs_current_use s \<and>
     al_cumulative_use a = bs_cumulative_use s \<and> al_generation a = bs_generation s"

definition mirrored :: "(string \<Rightarrow> string) \<Rightarrow> (string, pool_state) pydict \<Rightarrow> string \<Rightarrow> budget_state \<Rightarrow> bool" where
  "mirrored sha256 pools ref s \<longleftrightarrow>
     (\<exists>p a. dict_get pools (pool_ref_for_state sha256 s) = Some p \<and> allocation_at p ref = Some a \<and> agrees s a)"

definition books_balanced :: "(string \<Rightarrow> string) \<Rightarrow> ledger \<Rightarrow> bool" where
  "books_balanced sha256 ld \<longleftrightarrow>
     wf_dict (ld_states ld) \<and> wf_dict (ld_pools ld) \<and> events_wf (ld_events ld) \<and>
     (\<forall>ref s. dict_get (ld_states ld) ref = Some s \<longrightarrow>
        bs_state_ref s = ref \<and> mirrored sha256 (ld_pools ld) ref s \<and>
        bs_reserved s = open_total (ld_events ld) ref (bs_generation s)) \<and>
     (\<forall>k p. dict_get (ld_pools ld) k = Some p \<longrightarrow> pl_state_ref p = k \<and> pool_within p \<and>
        (\<forall>ref a. allocation_at p ref = Some a \<longrightarrow>
           (\<exists>s. dict_get (ld_states ld) ref = Some s \<and> pool_ref_for_state sha256 s = k))) \<and>
     (\<forall>e \<in> set (dict_values (ld_events ld)). ev_transition e = RESERVE \<longrightarrow>
        (\<exists>s. dict_get (ld_states ld) (ev_budget_state_ref e) = Some s \<and>
           ev_execution_generation e \<le> bs_generation s))"

lemma balanced_state:
  assumes "books_balanced sha256 ld" and "dict_get (ld_states ld) ref = Some s"
  shows "bs_state_ref s = ref" and "mirrored sha256 (ld_pools ld) ref s"
    and "bs_reserved s = open_total (ld_events ld) ref (bs_generation s)"
  using assms by (auto simp: books_balanced_def)

lemma balanced_pool:
  assumes "books_balanced sha256 ld" and "dict_get (ld_pools ld) k = Some p"
  shows "pl_state_ref p = k" and "pool_within p"
  using assms by (auto simp: books_balanced_def)

text \<open>Every budget is stored under its own reference.\<close>

definition states_keyed :: "ledger \<Rightarrow> bool" where
  "states_keyed ld \<longleftrightarrow> (\<forall>ref s. dict_get (ld_states ld) ref = Some s \<longrightarrow> bs_state_ref s = ref)"

lemma balanced_keyed: "books_balanced sha256 ld \<Longrightarrow> states_keyed ld"
  by (simp add: books_balanced_def states_keyed_def)

lemma states_keyed_get: "states_keyed ld \<Longrightarrow> dict_get (ld_states ld) ref = Some s \<Longrightarrow> bs_state_ref s = ref"
  by (simp add: states_keyed_def)

lemma balanced_account:
  assumes "books_balanced sha256 ld" and "dict_get (ld_states ld) ref = Some s"
  obtains p a where "dict_get (ld_pools ld) (pool_ref_for_state sha256 s) = Some p"
    and "allocation_at p ref = Some a" and "agrees s a" and "pool_within p"
    and "pl_state_ref p = pool_ref_for_state sha256 s"
  using balanced_state(2) [OF assms] balanced_pool [OF assms(1)] unfolding mirrored_def by blast

lemma balanced_events: "books_balanced sha256 ld \<Longrightarrow> events_wf (ld_events ld)"
  by (simp add: books_balanced_def)

lemma balanced_update:
  assumes bal: "books_balanced sha256 ld"
    and s: "dict_get (ld_states ld) ref = Some s"
    and p: "dict_get (ld_pools ld) (pool_ref_for_state sha256 s) = Some p" "allocation_at p ref = Some a"
    and s': "bs_state_ref s' = bs_state_ref s" "pool_ref_for_state sha256 s' = pool_ref_for_state sha256 s"
      "bs_generation s \<le> bs_generation s'"
    and a': "agrees s' a'" and p': "pool_within (set_allocation ref a' p)"
    and events: "events_wf events'" "open_total events' ref (bs_generation s') = bs_reserved s'"
      "\<And>ref2 s2. ref2 \<noteq> ref \<Longrightarrow> dict_get (ld_states ld) ref2 = Some s2 \<Longrightarrow>
         open_total events' ref2 (bs_generation s2) = open_total (ld_events ld) ref2 (bs_generation s2)"
      "\<And>e. e \<in> set (dict_values events') \<Longrightarrow> ev_transition e = RESERVE \<Longrightarrow>
         e \<in> set (dict_values (ld_events ld)) \<or>
         (ev_budget_state_ref e = ref \<and> ev_execution_generation e \<le> bs_generation s')"
  shows "books_balanced sha256
    (ld\<lparr>ld_states := dict_set ref s' (ld_states ld),
        ld_pools := dict_set (pool_ref_for_state sha256 s) (set_allocation ref a' p) (ld_pools ld),
        ld_events := events'\<rparr>)"
proof -
  let ?k = "pool_ref_for_state sha256 s"
  let ?states = "dict_set ref s' (ld_states ld)"
  let ?pools = "dict_set ?k (set_allocation ref a' p) (ld_pools ld)"
  have states: "bs_state_ref s2 = ref2 \<and> mirrored sha256 ?pools ref2 s2 \<and>
      bs_reserved s2 = open_total events' ref2 (bs_generation s2)"
    if "dict_get ?states ref2 = Some s2" for ref2 s2
  proof (cases "ref2 = ref")
    case True
    with that have "s2 = s'" by simp
    with True s' a' events(2) balanced_state(1) [OF bal s] show ?thesis by (auto simp: mirrored_def)
  next
    case False
    with that have old: "dict_get (ld_states ld) ref2 = Some s2" by simp
    from balanced_state(2) [OF bal old] obtain q b where q: "dict_get (ld_pools ld) (pool_ref_for_state sha256 s2) = Some q"
      "allocation_at q ref2 = Some b" "agrees s2 b" by (auto simp: mirrored_def)
    have "mirrored sha256 ?pools ref2 s2"
    proof (cases "pool_ref_for_state sha256 s2 = ?k")
      case True
      with q p(1) have "q = p" by simp
      with True q False show ?thesis by (auto simp: mirrored_def)
    next
      case other: False
      with q show ?thesis by (auto simp: mirrored_def)
    qed
    with balanced_state(1,3) [OF bal old] events(3) [OF False old] show ?thesis by simp
  qed
  have keep: "\<exists>s3. dict_get ?states ref2 = Some s3 \<and> pool_ref_for_state sha256 s3 = pool_ref_for_state sha256 s2 \<and>
      bs_generation s2 \<le> bs_generation s3"
    if "dict_get (ld_states ld) ref2 = Some s2" for ref2 s2
    using that s s'(2,3) by (cases "ref2 = ref") auto
  have pools: "pl_state_ref q = k \<and> pool_within q \<and>
      (\<forall>ref2 b. allocation_at q ref2 = Some b \<longrightarrow>
         (\<exists>s2. dict_get ?states ref2 = Some s2 \<and> pool_ref_for_state sha256 s2 = k))"
    if "dict_get ?pools k = Some q" for k q
  proof -
    obtain q0 where q0: "dict_get (ld_pools ld) k = Some q0" "pl_state_ref q = pl_state_ref q0"
      "\<And>ref2 b. allocation_at q ref2 = Some b \<Longrightarrow> \<exists>c. allocation_at q0 ref2 = Some c" and q: "pool_within q"
    proof (cases "k = ?k")
      case True
      with \<open>dict_get ?pools k = Some q\<close> have q: "q = set_allocation ref a' p" by simp
      show thesis
        by (rule that [of p]) (use True q p p' in \<open>auto split: if_splits\<close>)
    next
      case False
      with \<open>dict_get ?pools k = Some q\<close> have "dict_get (ld_pools ld) k = Some q" by simp
      with balanced_pool(2) [OF bal this] show thesis by (intro that [of q]) auto
    qed
    have "\<exists>s2. dict_get ?states ref2 = Some s2 \<and> pool_ref_for_state sha256 s2 = k"
      if b: "allocation_at q ref2 = Some b" for ref2 b
    proof -
      from q0(3) [OF b] obtain c where "allocation_at q0 ref2 = Some c" by blast
      with bal q0(1) obtain s2 where "dict_get (ld_states ld) ref2 = Some s2" "pool_ref_for_state sha256 s2 = k"
        unfolding books_balanced_def by blast
      with keep show ?thesis by metis
    qed
    with q q0 balanced_pool(1) [OF bal q0(1)] show ?thesis by simp
  qed
  have evs: "\<exists>s2. dict_get ?states (ev_budget_state_ref e) = Some s2 \<and> ev_execution_generation e \<le> bs_generation s2"
    if e: "e \<in> set (dict_values events')" "ev_transition e = RESERVE" for e
    using events(4) [OF e]
  proof
    assume "e \<in> set (dict_values (ld_events ld))"
    with e(2) bal obtain s2 where "dict_get (ld_states ld) (ev_budget_state_ref e) = Some s2"
      "ev_execution_generation e \<le> bs_generation s2" unfolding books_balanced_def by blast
    with keep show ?thesis by (meson order_trans)
  next
    assume "ev_budget_state_ref e = ref \<and> ev_execution_generation e \<le> bs_generation s'"
    then show ?thesis by simp
  qed
  have "wf_dict ?states" "wf_dict ?pools" using bal by (auto simp: books_balanced_def)
  with states pools evs events(1) show ?thesis unfolding books_balanced_def by simp
qed

end
