(* ===== verification/Budget_Reserve.thy ===== *)
theory Budget_Reserve
  imports Budget_Books
begin

text \<open>
  Reservation: the checks pass for the whole vector or nothing is reserved, the reservations are
  applied to different budgets and different pools, and the books stay balanced.
\<close>

section \<open>The checks\<close>

definition granted ::
  "(string \<Rightarrow> string) \<Rightarrow> resource_policy \<Rightarrow> int \<Rightarrow> (string, int) pydict option \<Rightarrow> ledger \<Rightarrow>
     resource_demand \<Rightarrow> reservation_check \<Rightarrow> bool" where
  "granted sha256 policy generation quantities ld d c \<longleftrightarrow>
     rc_demand c = d \<and>
     dict_get (ld_states ld) (demand_state_ref policy d) = Some (rc_current c) \<and>
     check_budget_state (rc_current c) = Inr () \<and>
     bs_generation (rc_current c) = generation \<and>
     requested_amount d quantities = Inr (rc_amount c) \<and>
     dict_get (ld_pools ld) (pool_ref_for_state sha256 (rc_current c)) = Some (rc_pool c) \<and>
     used_capacity (rc_current c) + rc_amount c \<le>
       min (bs_limit (rc_current c)) (bs_configured_capacity (rc_current c)) \<and>
     grants (rc_pool c) (demand_state_ref policy d) (rc_amount c)"

definition throttled_ledger :: "resource_policy \<Rightarrow> string \<Rightarrow> ledger \<Rightarrow> budget_state \<Rightarrow> budget_event \<Rightarrow> ledger" where
  "throttled_ledger policy operation_id ld s event =
     (let event_id = operation_event_id operation_id (bs_state_ref s) ''throttle'' in
      ld\<lparr>ld_states := dict_set (bs_state_ref s)
            (s\<lparr>bs_throttled := bs_throttled s + 1, bs_last_event_ref := event_id\<rparr>) (ld_states ld),
         ld_events := dict_set event_id event (ld_events ld)\<rparr>)"

text \<open>What a refused reservation returns: the snapshot as it was, or one that records the throttle.\<close>

definition refused ::
  "(string \<Rightarrow> string) \<Rightarrow> 'rest budget_snapshot \<Rightarrow> resource_policy \<Rightarrow> string \<Rightarrow> int \<Rightarrow>
     'rest apply_result \<Rightarrow> bool" where
  "refused sha256 sn policy operation_id generation r \<longleftrightarrow>
     (\<exists>code. r = apply_failed sn code (rp_address policy)) \<or>
     (\<exists>d s event sn'. dict_get (sn_states sn) (demand_state_ref policy d) = Some s \<and>
        bs_generation s = generation \<and> ev_transition event = THROTTLE \<and> check_event event = Inr () \<and>
        ev_event_id event = operation_event_id operation_id (bs_state_ref s) ''throttle'' \<and>
        commit_ledger sha256 sn (throttled_ledger policy operation_id (ledger_of sn) s event) = Inr sn' \<and>
        r = apply_failed sn' ''runtime.participant-resource-throttled'' (rp_address policy))"

lemma requested_amount_nonneg: "requested_amount d q = Inr n \<Longrightarrow> 0 \<le> n"
  by (auto simp: requested_amount_def Let_def split: if_splits)

lemma ledger_of_simps [simp]:
  "ld_states (ledger_of sn) = sn_states sn" "ld_pools (ledger_of sn) = sn_pools sn"
  "ld_events (ledger_of sn) = sn_events sn"
  by (simp_all add: ledger_of_def)

lemma operation_event_Inr:
  "operation_event i op b pa s g t req m pred evid ref = Inr e \<Longrightarrow>
     check_event e = Inr () \<and> ev_event_id e = i \<and> ev_operation_id e = op \<and> ev_budget_state_ref e = ref \<and>
     ev_execution_generation e = g \<and> ev_transition e = t \<and> ev_requested e = req \<and> ev_measured e = m \<and>
     ev_predecessor e = Some pred"
  by (auto simp: operation_event_def read_event_def res_bind_Inr_iff)

lemma check_event_requested: "check_event e = Inr () \<Longrightarrow> 0 \<le> ev_requested e"
  by (auto simp: check_event_def res_bind_Inr_iff quantity_ok_def int_between_def)

lemma read_Inr [simp]:
  "read_state s = Inr t \<longleftrightarrow> check_budget_state s = Inr () \<and> t = s"
  "read_pool sha256 p = Inr q \<longleftrightarrow> check_pool_state sha256 p = Inr () \<and> q = p"
  "read_event e = Inr f \<longleftrightarrow> check_event e = Inr () \<and> f = e"
  by (auto simp: read_state_def read_pool_def read_event_def res_bind_Inr_iff)

lemma check_reservation_granted:
  assumes "check_reservation sha256 sn policy op generation q ld d = Inr (Inr c)"
  shows "granted sha256 policy generation q ld d c"
proof -
  note run = assms [unfolded check_reservation_def Let_def]
  from run obtain s where s: "dict_get (ld_states ld) (demand_state_ref policy d) = Some s"
    by (cases "dict_get (ld_states ld) (demand_state_ref policy d)") simp_all
  from run [unfolded s option.case] have valid: "check_budget_state s = Inr ()"
    and gen: "bs_generation s = generation"
    by (auto simp: res_bind_Inr_iff split: if_splits)
  note run1 = run [unfolded s option.case read_state_def valid res_bind.simps]
  from run1 gen obtain n where n: "requested_amount d q = Inr n" by (auto simp: res_bind_Inr_iff)
  from run1 gen n obtain p where p: "dict_get (ld_pools ld) (pool_ref_for_state sha256 s) = Some p"
    by (cases "dict_get (ld_pools ld) (pool_ref_for_state sha256 s)") simp_all
  from run1 gen n p have pool: "check_pool_state sha256 p = Inr ()" by (auto simp: res_bind_Inr_iff)
  let ?room = "used_capacity s + n \<le> min (bs_limit s) (bs_configured_capacity s)"
  from run1 gen n p pool obtain ok where
    ok: "(if ?room then can_reserve p (demand_state_ref policy d) n else Inr False) = Inr ok"
    and rest: "(if \<not> ok then res_bind (throttled_result sha256 sn policy op generation ld d s n) (\<lambda>f. Inr (Inl f))
      else Inr (Inr \<lparr>rc_demand = d, rc_current = s, rc_pool = p, rc_amount = n\<rparr>)) = Inr (Inr c)"
    by (auto simp: read_pool_def elim!: res_bind_InrE)
  from rest have "ok" and c: "c = \<lparr>rc_demand = d, rc_current = s, rc_pool = p, rc_amount = n\<rparr>"
    by (auto split: if_splits elim!: res_bind_InrE)
  with ok have "?room" "can_reserve p (demand_state_ref policy d) n = Inr True" by (auto split: if_splits)
  with s valid gen n p c show ?thesis by (simp add: granted_def grants_def)
qed

lemma throttled_result_refused:
  assumes "throttled_result sha256 sn policy op generation (ledger_of sn) d s n = Inr r"
    and "dict_get (sn_states sn) (demand_state_ref policy d) = Some s" and "bs_generation s = generation"
  shows "refused sha256 sn policy op generation r"
proof -
  from assms(1) [unfolded throttled_result_def Let_def] obtain event where
    event: "operation_event (operation_event_id op (bs_state_ref s) ''throttle'') op (dm_budget_id d)
      (rp_address policy) s generation THROTTLE n None (bs_last_event_ref s) [] (bs_state_ref s) = Inr event"
    and rest: "res_bind (commit_ledger sha256 sn (throttled_ledger policy op (ledger_of sn) s event)) (\<lambda>sn'.
        Inr (apply_failed sn' ''runtime.participant-resource-throttled'' (rp_address policy))) = Inr r"
    unfolding throttled_ledger_def Let_def by (rule res_bind_InrE)
  from rest obtain sn' where
    sn': "commit_ledger sha256 sn (throttled_ledger policy op (ledger_of sn) s event) = Inr sn'"
    and r: "r = apply_failed sn' ''runtime.participant-resource-throttled'' (rp_address policy)"
    by (rule res_bind_InrE) simp
  from operation_event_Inr [OF event] sn' r assms(2,3) show ?thesis
    unfolding refused_def by blast
qed

lemma check_reservation_refused:
  assumes "check_reservation sha256 sn policy op generation q (ledger_of sn) d = Inr (Inl r)"
  shows "refused sha256 sn policy op generation r"
proof (cases "dict_get (sn_states sn) (demand_state_ref policy d)")
  case None
  with assms show ?thesis by (auto simp: check_reservation_def refused_def)
next
  case (Some s)
  show ?thesis
  proof (cases "bs_generation s = generation")
    case False
    with assms Some show ?thesis by (auto simp: check_reservation_def refused_def res_bind_Inr_iff)
  next
    case gen: True
    show ?thesis
    proof (cases "dict_get (sn_pools sn) (pool_ref_for_state sha256 s)")
      case None
      with assms Some gen show ?thesis by (auto simp: check_reservation_def refused_def res_bind_Inr_iff)
    next
      case (Some p)
      with assms gen \<open>dict_get (sn_states sn) (demand_state_ref policy d) = Some s\<close> obtain n where
        "throttled_result sha256 sn policy op generation (ledger_of sn) d s n = Inr r"
        by (auto simp: check_reservation_def res_bind_Inr_iff Let_def split: if_splits)
      with gen \<open>dict_get (sn_states sn) (demand_state_ref policy d) = Some s\<close> show ?thesis
        by (intro throttled_result_refused)
    qed
  qed
qed

lemma check_reservations_granted:
  fixes f :: "resource_demand \<Rightarrow> ('a apply_result + reservation_check) res"
  shows "check_reservations f ds = Inr (Inr cs) \<Longrightarrow> list_all2 (\<lambda>d c. f d = Inr (Inr c)) ds cs"
proof (induction ds arbitrary: cs)
  case Nil
  then show ?case by simp
next
  case (Cons d ds)
  from Cons.prems obtain out where out: "f d = Inr out"
    "(case out of Inl failure \<Rightarrow> Inr (Inl failure) | Inr c \<Rightarrow> res_bind (check_reservations f ds) (\<lambda>rest.
       case rest of Inl failure \<Rightarrow> Inr (Inl failure) | Inr cs \<Rightarrow> Inr (Inr (c # cs)))) = Inr (Inr cs)"
    by (auto simp: res_bind_Inr_iff)
  then obtain c where c: "out = Inr c" by (cases out) auto
  with out(2) obtain rest where rest: "check_reservations f ds = Inr rest"
    "(case rest of Inl failure \<Rightarrow> Inr (Inl failure) | Inr cs \<Rightarrow> Inr (Inr (c # cs))) =
       (Inr (Inr cs) :: ('a apply_result + reservation_check list) res)"
    by (auto simp: res_bind_Inr_iff)
  then obtain cs' where "rest = Inr cs'" "cs = c # cs'" by (cases rest) auto
  with Cons.IH [of cs'] rest(1) out(1) c show ?case by simp
qed

lemma check_reservations_refused:
  fixes f :: "resource_demand \<Rightarrow> ('a apply_result + reservation_check) res"
  shows "check_reservations f ds = Inr (Inl r) \<Longrightarrow> \<exists>d \<in> set ds. f d = Inr (Inl r)"
proof (induction ds)
  case Nil
  then show ?case by simp
next
  case (Cons d ds)
  from Cons.prems obtain out where out: "f d = Inr out"
    "(case out of Inl failure \<Rightarrow> Inr (Inl failure) | Inr c \<Rightarrow> res_bind (check_reservations f ds) (\<lambda>rest.
       case rest of Inl failure \<Rightarrow> Inr (Inl failure) | Inr cs \<Rightarrow> Inr (Inr (c # cs)))) = Inr (Inl r)"
    by (auto simp: res_bind_Inr_iff)
  show ?case
  proof (cases out)
    case (Inl failure)
    with out show ?thesis by simp
  next
    case (Inr c)
    with out(2) obtain rest where rest: "check_reservations f ds = Inr rest"
      "(case rest of Inl failure \<Rightarrow> Inr (Inl failure) | Inr cs \<Rightarrow> Inr (Inr (c # cs))) =
         (Inr (Inl r) :: ('a apply_result + reservation_check list) res)"
      by (auto simp: res_bind_Inr_iff)
    then have "rest = Inl r" by (cases rest) auto
    with Cons.IH rest(1) show ?thesis by simp
  qed
qed

section \<open>Applying the reservations\<close>

definition unused_events :: "string \<Rightarrow> string \<Rightarrow> (string, budget_event) pydict \<Rightarrow> bool" where
  "unused_events operation_id ref events \<longleftrightarrow>
     \<not> dict_has events (operation_event_id operation_id ref ''reserve'') \<and>
     \<not> dict_has events (operation_event_id operation_id ref ''commit'') \<and>
     \<not> dict_has events (operation_event_id operation_id ref ''release'')"

lemma unused_events_set:
  assumes "unused_events op ref events" and "ref' \<noteq> ref"
    and "s = ''reserve'' \<or> s = ''commit'' \<or> s = ''release''"
  shows "unused_events op ref (dict_set (operation_event_id op ref' s) e events)"
proof -
  have "operation_event_id op ref' s \<noteq> operation_event_id op ref t"
    if "t = ''reserve'' \<or> t = ''commit'' \<or> t = ''release''" for t
  proof
    assume eq: "operation_event_id op ref' s = operation_event_id op ref t"
    have "CHR '':'' \<notin> set s" "CHR '':'' \<notin> set t" using assms(3) that by auto
    with eq have "s = t" using operation_event_id_suffix by blast
    with eq assms(2) show False by simp
  qed
  with assms(1) show ?thesis by (metis unused_events_def dict_has_set)
qed

definition reserved_state :: "string \<Rightarrow> reservation_check \<Rightarrow> budget_state" where
  "reserved_state operation_id c =
     (rc_current c)\<lparr>bs_reserved := bs_reserved (rc_current c) + rc_amount c,
        bs_last_event_ref := reserve_event_id operation_id (bs_state_ref (rc_current c))\<rparr>"

lemma apply_reservation_shape:
  assumes "apply_reservation policy op generation ld c = Inr ld'"
  obtains e a where "check_event e = Inr ()" and "ev_transition e = RESERVE"
    and "ev_event_id e = reserve_event_id op (bs_state_ref (rc_current c))" and "ev_operation_id e = op"
    and "ev_budget_state_ref e = bs_state_ref (rc_current c)" and "ev_execution_generation e = generation"
    and "ev_requested e = rc_amount c"
    and "allocation_at (rc_pool c) (bs_state_ref (rc_current c)) = Some a"
    and "ld' = ld\<lparr>ld_states := dict_set (bs_state_ref (rc_current c)) (reserved_state op c) (ld_states ld),
        ld_pools := dict_set (pl_state_ref (rc_pool c))
          (set_allocation (bs_state_ref (rc_current c)) (a\<lparr>al_reserved := al_reserved a + rc_amount c\<rparr>) (rc_pool c))
          (ld_pools ld),
        ld_events := dict_set (reserve_event_id op (bs_state_ref (rc_current c))) e (ld_events ld)\<rparr>"
proof -
  from assms obtain e pool' where
    e: "operation_event (reserve_event_id op (bs_state_ref (rc_current c))) op (dm_budget_id (rc_demand c))
      (rp_address policy) (rc_current c) generation RESERVE (rc_amount c) None
      (bs_last_event_ref (rc_current c)) [] (bs_state_ref (rc_current c)) = Inr e"
    and pool': "pool_reserve (rc_pool c) (bs_state_ref (rc_current c)) (rc_amount c) = Inr pool'"
    and ld': "ld' = ld\<lparr>ld_states := dict_set (bs_state_ref (rc_current c)) (reserved_state op c) (ld_states ld),
        ld_pools := dict_set (pl_state_ref (rc_pool c)) pool' (ld_pools ld),
        ld_events := dict_set (reserve_event_id op (bs_state_ref (rc_current c))) e (ld_events ld)\<rparr>"
    by (auto simp: apply_reservation_def Let_def res_bind_Inr_iff reserved_state_def)
  from pool' obtain a where "allocation_at (rc_pool c) (bs_state_ref (rc_current c)) = Some a"
    "pool' = set_allocation (bs_state_ref (rc_current c)) (a\<lparr>al_reserved := al_reserved a + rc_amount c\<rparr>) (rc_pool c)"
    by (auto simp: pool_update_cases)
  with operation_event_Inr [OF e] ld' that show thesis by blast
qed

definition ready ::
  "(string \<Rightarrow> string) \<Rightarrow> string \<Rightarrow> int \<Rightarrow> ledger \<Rightarrow> reservation_check \<Rightarrow> bool" where
  "ready sha256 operation_id generation ld c \<longleftrightarrow>
     dict_get (ld_states ld) (bs_state_ref (rc_current c)) = Some (rc_current c) \<and>
     dict_get (ld_pools ld) (pool_ref_for_state sha256 (rc_current c)) = Some (rc_pool c) \<and>
     bs_generation (rc_current c) = generation \<and> 0 \<le> rc_amount c \<and>
     grants (rc_pool c) (bs_state_ref (rc_current c)) (rc_amount c) \<and>
     unused_events operation_id (bs_state_ref (rc_current c)) (ld_events ld)"

lemma reserved_state_simps [simp]:
  "bs_state_ref (reserved_state op c) = bs_state_ref (rc_current c)"
  "bs_generation (reserved_state op c) = bs_generation (rc_current c)"
  "pool_ref_for_state sha256 (reserved_state op c) = pool_ref_for_state sha256 (rc_current c)"
  "bs_reserved (reserved_state op c) = bs_reserved (rc_current c) + rc_amount c"
  by (simp_all add: reserved_state_def pool_ref_for_state_def)

lemma apply_reservation_balanced:
  assumes bal: "books_balanced sha256 ld" and ready: "ready sha256 op generation ld c"
    and run: "apply_reservation policy op generation ld c = Inr ld'"
  shows "books_balanced sha256 ld'"
proof -
  let ?s = "rc_current c" and ?p = "rc_pool c"
  let ?ref = "bs_state_ref ?s"
  from ready have s: "dict_get (ld_states ld) ?ref = Some ?s"
    and p: "dict_get (ld_pools ld) (pool_ref_for_state sha256 ?s) = Some ?p"
    and gen: "bs_generation ?s = generation" and n: "0 \<le> rc_amount c"
    and ok: "grants ?p ?ref (rc_amount c)" and fresh: "unused_events op ?ref (ld_events ld)"
    by (simp_all add: ready_def)
  from apply_reservation_shape [OF run] obtain e a where
    e: "check_event e = Inr ()" "ev_transition e = RESERVE" "ev_event_id e = reserve_event_id op ?ref"
      "ev_operation_id e = op" "ev_budget_state_ref e = ?ref" "ev_execution_generation e = generation"
      "ev_requested e = rc_amount c"
    and a: "allocation_at ?p ?ref = Some a"
    and ld': "ld' = ld\<lparr>ld_states := dict_set ?ref (reserved_state op c) (ld_states ld),
        ld_pools := dict_set (pl_state_ref ?p)
          (set_allocation ?ref (a\<lparr>al_reserved := al_reserved a + rc_amount c\<rparr>) ?p) (ld_pools ld),
        ld_events := dict_set (reserve_event_id op ?ref) e (ld_events ld)\<rparr>" by metis
  have key: "pl_state_ref ?p = pool_ref_for_state sha256 ?s" by (rule balanced_pool(1) [OF bal p])
  have agree: "agrees ?s a"
    using balanced_state(2) [OF bal s] p a by (auto simp: mirrored_def)
  have nokey: "\<not> dict_has (ld_events ld) (reserve_event_id op ?ref)" "\<not> settled (ld_events ld) e"
    using fresh e by (simp_all add: unused_events_def reserve_event_id_def settled_def)
  have tot: "open_total (dict_set (reserve_event_id op ?ref) e (ld_events ld)) ref2 g =
      open_total (ld_events ld) ref2 g + (if ?ref = ref2 \<and> generation = g then rc_amount c else 0)" for ref2 g
    using open_total_reserve [OF balanced_events [OF bal] e(2) _ nokey] e by simp
  show ?thesis unfolding ld' key
  proof (rule balanced_update [OF bal s p a])
    show "agrees (reserved_state op c) (a\<lparr>al_reserved := al_reserved a + rc_amount c\<rparr>)"
      using agree by (simp add: agrees_def reserved_state_def)
    show "pool_within (set_allocation ?ref (a\<lparr>al_reserved := al_reserved a + rc_amount c\<rparr>) ?p)"
    proof -
      have "pool.within ?p" using balanced_pool(2) [OF bal p] by (simp add: pool_within_iff)
      moreover have "pool_reserve ?p ?ref (rc_amount c) =
          Inr (set_allocation ?ref (a\<lparr>al_reserved := al_reserved a + rc_amount c\<rparr>) ?p)"
        using a by (simp add: pool_update_cases)
      ultimately show ?thesis using pool.within_reserve [OF _ ok n] by (simp add: pool_within_iff)
    qed
    show "events_wf (dict_set (reserve_event_id op ?ref) e (ld_events ld))"
      using e n by (intro events_wf_set balanced_events [OF bal]) simp_all
    show "open_total (dict_set (reserve_event_id op ?ref) e (ld_events ld)) ?ref (bs_generation (reserved_state op c)) =
        bs_reserved (reserved_state op c)"
      using tot [of ?ref generation] balanced_state(3) [OF bal s] gen by simp
    show "open_total (dict_set (reserve_event_id op ?ref) e (ld_events ld)) ref2 (bs_generation s2) =
        open_total (ld_events ld) ref2 (bs_generation s2)" if "ref2 \<noteq> ?ref" for ref2 s2
      using tot [of ref2] that by simp
    show "e2 \<in> set (dict_values (ld_events ld)) \<or>
        (ev_budget_state_ref e2 = ?ref \<and> ev_execution_generation e2 \<le> bs_generation (reserved_state op c))"
      if "e2 \<in> set (dict_values (dict_set (reserve_event_id op ?ref) e (ld_events ld)))" for e2
      using that e gen by (auto simp: dict_set_fresh [OF nokey(1)] dict_values_append) (simp_all add: dict_values_def)
  qed (simp_all add: gen)
qed

text \<open>Applying one reservation leaves the others of the vector ready.\<close>

lemma ready_step:
  assumes bal: "books_balanced sha256 ld" and ready: "ready sha256 op generation ld c"
    and run: "apply_reservation policy op generation ld c = Inr ld'"
    and other: "ready sha256 op generation ld c2"
      "bs_state_ref (rc_current c) \<noteq> bs_state_ref (rc_current c2)"
      "pool_ref_for_state sha256 (rc_current c) \<noteq> pool_ref_for_state sha256 (rc_current c2)"
  shows "ready sha256 op generation ld' c2"
proof -
  have key: "pl_state_ref (rc_pool c) = pool_ref_for_state sha256 (rc_current c)"
    using ready balanced_pool(1) [OF bal] by (simp add: ready_def)
  from apply_reservation_shape [OF run] obtain e a where
    "ld' = ld\<lparr>ld_states := dict_set (bs_state_ref (rc_current c)) (reserved_state op c) (ld_states ld),
        ld_pools := dict_set (pl_state_ref (rc_pool c))
          (set_allocation (bs_state_ref (rc_current c)) (a\<lparr>al_reserved := al_reserved a + rc_amount c\<rparr>) (rc_pool c))
          (ld_pools ld),
        ld_events := dict_set (reserve_event_id op (bs_state_ref (rc_current c))) e (ld_events ld)\<rparr>" by metis
  moreover have "unused_events op (bs_state_ref (rc_current c2))
      (dict_set (reserve_event_id op (bs_state_ref (rc_current c))) e (ld_events ld))"
    using other unfolding reserve_event_id_def ready_def by (intro unused_events_set) simp_all
  ultimately show ?thesis using other key by (simp add: ready_def)
qed

definition reservation_effect :: "string \<Rightarrow> ledger \<Rightarrow> reservation_check \<Rightarrow> bool" where
  "reservation_effect operation_id ld c \<longleftrightarrow>
     dict_get (ld_states ld) (bs_state_ref (rc_current c)) = Some (reserved_state operation_id c) \<and>
     (\<exists>e. dict_get (ld_events ld) (reserve_event_id operation_id (bs_state_ref (rc_current c))) = Some e \<and>
        ev_transition e = RESERVE \<and> ev_requested e = rc_amount c)"

lemma apply_reservations_run:
  assumes "res_fold (apply_reservation policy op generation) ld cs = Inr ld'"
    and "books_balanced sha256 ld" and "\<forall>c \<in> set cs. ready sha256 op generation ld c"
    and "distinct (map (\<lambda>c. bs_state_ref (rc_current c)) cs)"
    and "distinct (map (\<lambda>c. pool_ref_for_state sha256 (rc_current c)) cs)"
  shows "books_balanced sha256 ld' \<and> (\<forall>c \<in> set cs. reservation_effect op ld' c) \<and>
    (\<forall>ref. ref \<notin> (\<lambda>c. bs_state_ref (rc_current c)) ` set cs \<longrightarrow>
       dict_get (ld_states ld') ref = dict_get (ld_states ld) ref \<and>
       dict_get (ld_events ld') (reserve_event_id op ref) = dict_get (ld_events ld) (reserve_event_id op ref))"
  using assms
proof (induction cs arbitrary: ld)
  case Nil
  then show ?case by simp
next
  case (Cons c cs)
  let ?ref = "bs_state_ref (rc_current c)"
  from Cons.prems(1) obtain ld1 where step: "apply_reservation policy op generation ld c = Inr ld1"
    and rest: "res_fold (apply_reservation policy op generation) ld1 cs = Inr ld'"
    by (auto elim!: res_bind_InrE)
  have ready: "ready sha256 op generation ld c" using Cons.prems(3) by simp
  have bal: "books_balanced sha256 ld1" by (rule apply_reservation_balanced [OF Cons.prems(2) ready step])
  have "\<forall>c2 \<in> set cs. ready sha256 op generation ld1 c2"
  proof
    fix c2 assume c2: "c2 \<in> set cs"
    then have "?ref \<noteq> bs_state_ref (rc_current c2)"
      "pool_ref_for_state sha256 (rc_current c) \<noteq> pool_ref_for_state sha256 (rc_current c2)"
      using Cons.prems(4,5) by auto
    with Cons.prems(3) c2 show "ready sha256 op generation ld1 c2"
      by (intro ready_step [OF Cons.prems(2) ready step]) simp_all
  qed
  with Cons.IH [OF rest bal] Cons.prems(4,5) have IH: "books_balanced sha256 ld'"
    "\<forall>c \<in> set cs. reservation_effect op ld' c"
    "\<And>ref. ref \<notin> (\<lambda>c. bs_state_ref (rc_current c)) ` set cs \<Longrightarrow>
       dict_get (ld_states ld') ref = dict_get (ld_states ld1) ref \<and>
       dict_get (ld_events ld') (reserve_event_id op ref) = dict_get (ld_events ld1) (reserve_event_id op ref)"
    by auto
  from apply_reservation_shape [OF step] obtain e a where
    e: "ev_transition e = RESERVE" "ev_requested e = rc_amount c"
    and ld1: "ld1 = ld\<lparr>ld_states := dict_set ?ref (reserved_state op c) (ld_states ld),
        ld_pools := dict_set (pl_state_ref (rc_pool c))
          (set_allocation ?ref (a\<lparr>al_reserved := al_reserved a + rc_amount c\<rparr>) (rc_pool c)) (ld_pools ld),
        ld_events := dict_set (reserve_event_id op ?ref) e (ld_events ld)\<rparr>" by metis
  have own: "?ref \<notin> (\<lambda>c. bs_state_ref (rc_current c)) ` set cs" using Cons.prems(4) by auto
  have "reservation_effect op ld' c"
    using IH(3) [OF own] e by (simp add: reservation_effect_def ld1)
  moreover have "dict_get (ld_states ld') ref = dict_get (ld_states ld) ref \<and>
       dict_get (ld_events ld') (reserve_event_id op ref) = dict_get (ld_events ld) (reserve_event_id op ref)"
    if "ref \<notin> (\<lambda>c. bs_state_ref (rc_current c)) ` set (c # cs)" for ref
    using IH(3) [of ref] that by (auto simp: ld1 reserve_event_id_def)
  ultimately show ?case using IH(1,2) by simp
qed

section \<open>The whole operation\<close>

text \<open>
  What the caller guarantees: the demands are different budgets on different physical pools (an
  admitted policy) and the operation identifier has no events for them yet.
\<close>

definition fresh_vector ::
  "(string \<Rightarrow> string) \<Rightarrow> 'rest budget_snapshot \<Rightarrow> resource_policy \<Rightarrow> string \<Rightarrow> bool" where
  "fresh_vector sha256 sn policy operation_id \<longleftrightarrow>
     rp_demands policy \<noteq> [] \<and> distinct (map dm_budget_id (rp_demands policy)) \<and>
     distinct (map (\<lambda>d. map_option (pool_ref_for_state sha256) (dict_get (sn_states sn) (demand_state_ref policy d)))
       (rp_demands policy)) \<and>
     list_all (\<lambda>d. unused_events operation_id (demand_state_ref policy d) (sn_events sn)) (rp_demands policy)"

lemma commit_ledger_Inr:
  "commit_ledger sha256 sn ld = Inr sn' \<Longrightarrow>
     ledger_of sn' = ld \<and> sn_states sn' = ld_states ld \<and> sn_pools sn' = ld_pools ld \<and>
     sn_events sn' = ld_events ld \<and> sn_rest sn' = sn_rest sn"
  by (auto simp: commit_ledger_def with_budget_entries_def res_bind_Inr_iff ledger_of_def)

lemma reserve_cases:
  assumes run: "reserve_participant_resources sha256 sn policy op generation q = Inr r"
    and fresh: "fresh_vector sha256 sn policy op"
  obtains (refused) "refused sha256 sn policy op generation r"
    | (reserved) cs ld sn' where "list_all2 (granted sha256 policy generation q (ledger_of sn)) (rp_demands policy) cs"
        and "res_fold (apply_reservation policy op generation) (ledger_of sn) cs = Inr ld"
        and "commit_ledger sha256 sn ld = Inr sn'" and "r = apply_ok sn'"
proof -
  have "\<not> list_all (dict_has (sn_events sn))
      (map (\<lambda>d. reserve_event_id op (demand_state_ref policy d)) (rp_demands policy))"
    using fresh by (cases "rp_demands policy") (auto simp: fresh_vector_def unused_events_def reserve_event_id_def)
  with run obtain out where
    out: "check_reservations (check_reservation sha256 sn policy op generation q (ledger_of sn)) (rp_demands policy) = Inr out"
    and rest: "(case out of Inl failure \<Rightarrow> Inr failure | Inr cs \<Rightarrow>
        res_bind (res_fold (apply_reservation policy op generation) (ledger_of sn) cs) (\<lambda>ld.
        res_bind (commit_ledger sha256 sn ld) (\<lambda>sn'. Inr (apply_ok sn')))) = Inr r"
    unfolding reserve_participant_resources_def Let_def by (auto elim!: res_bind_InrE split: if_splits)
  show thesis
  proof (cases out)
    case (Inl failure)
    with out rest obtain d where "check_reservation sha256 sn policy op generation q (ledger_of sn) d = Inr (Inl r)"
      using check_reservations_refused by fastforce
    then show thesis by (intro refused check_reservation_refused)
  next
    case (Inr cs)
    with rest obtain ld sn' where "res_fold (apply_reservation policy op generation) (ledger_of sn) cs = Inr ld"
      "commit_ledger sha256 sn ld = Inr sn'" "r = apply_ok sn'" by (auto elim!: res_bind_InrE)
    moreover have "list_all2 (granted sha256 policy generation q (ledger_of sn)) (rp_demands policy) cs"
      by (rule list_all2_mono [OF check_reservations_granted [OF out [unfolded Inr]]])
        (rule check_reservation_granted)
    ultimately show thesis by (intro reserved)
  qed
qed

lemma demand_ref_inj: "demand_state_ref policy d = demand_state_ref policy e \<longleftrightarrow> dm_budget_id d = dm_budget_id e"
  by (simp add: demand_state_ref_def)

lemma granted_ready:
  assumes bal: "books_balanced sha256 (ledger_of sn)" and fresh: "fresh_vector sha256 sn policy op"
    and granted: "list_all2 (granted sha256 policy generation q (ledger_of sn)) (rp_demands policy) cs"
  shows "\<forall>c \<in> set cs. ready sha256 op generation (ledger_of sn) c"
    and "map (\<lambda>c. bs_state_ref (rc_current c)) cs = map (demand_state_ref policy) (rp_demands policy)"
    and "distinct (map (\<lambda>c. bs_state_ref (rc_current c)) cs)"
    and "distinct (map (\<lambda>c. pool_ref_for_state sha256 (rc_current c)) cs)"
proof -
  let ?ds = "rp_demands policy"
  have len: "length cs = length ?ds" using granted by (simp add: list_all2_lengthD)
  have nth: "granted sha256 policy generation q (ledger_of sn) (?ds ! i) (cs ! i)" if "i < length cs" for i
    using granted that by (simp add: list_all2_conv_all_nth)
  have ref: "bs_state_ref (rc_current (cs ! i)) = demand_state_ref policy (?ds ! i)" if "i < length cs" for i
    using nth [OF that] balanced_state(1) [OF bal] by (simp add: granted_def)
  show map_refs: "map (\<lambda>c. bs_state_ref (rc_current c)) cs = map (demand_state_ref policy) ?ds"
    using len ref by (intro nth_equalityI) simp_all
  have "distinct (map (demand_state_ref policy) ?ds)"
    using fresh by (auto simp: fresh_vector_def distinct_map inj_on_def demand_ref_inj)
  with map_refs show "distinct (map (\<lambda>c. bs_state_ref (rc_current c)) cs)" by simp
  have "map (\<lambda>d. map_option (pool_ref_for_state sha256) (dict_get (sn_states sn) (demand_state_ref policy d))) ?ds =
      map Some (map (\<lambda>c. pool_ref_for_state sha256 (rc_current c)) cs)"
    using len nth by (intro nth_equalityI) (auto simp: granted_def)
  with fresh show "distinct (map (\<lambda>c. pool_ref_for_state sha256 (rc_current c)) cs)"
    by (metis fresh_vector_def distinct_map)
  show "\<forall>c \<in> set cs. ready sha256 op generation (ledger_of sn) c"
  proof
    fix c assume "c \<in> set cs"
    then obtain i where i: "i < length cs" "c = cs ! i" by (auto simp: in_set_conv_nth)
    moreover have "unused_events op (demand_state_ref policy (?ds ! i)) (sn_events sn)"
      using fresh i len by (auto simp: fresh_vector_def list_all_iff)
    ultimately show "ready sha256 op generation (ledger_of sn) c"
      using nth [OF i(1)] ref [OF i(1)] requested_amount_nonneg by (auto simp: ready_def granted_def)
  qed
qed

lemma throttled_balanced:
  assumes bal: "books_balanced sha256 (ledger_of sn)"
    and s: "dict_get (sn_states sn) ref = Some s"
    and e: "ev_transition e = THROTTLE" "check_event e = Inr ()"
      "ev_event_id e = operation_event_id op (bs_state_ref s) ''throttle''"
  shows "books_balanced sha256 (throttled_ledger policy op (ledger_of sn) s e)"
proof -
  let ?k = "operation_event_id op (bs_state_ref s) ''throttle''"
  let ?s = "s\<lparr>bs_throttled := bs_throttled s + 1, bs_last_event_ref := ?k\<rparr>"
  have ref: "bs_state_ref s = ref" using balanced_state(1) [OF bal] s by simp
  have wf: "events_wf (sn_events sn)" using balanced_events [OF bal] by simp
  have "dict_get (ld_states (ledger_of sn)) ref = Some s" using s by simp
  then obtain p a where "dict_get (ld_pools (ledger_of sn)) (pool_ref_for_state sha256 s) = Some p"
    and p2: "allocation_at p ref = Some a" "agrees s a" by (rule balanced_account [OF bal])
  then have p: "dict_get (sn_pools sn) (pool_ref_for_state sha256 s) = Some p"
    "allocation_at p ref = Some a" "agrees s a" by simp_all
  have same: "set_allocation ref a p = p"
    using p(2) by (simp add: set_allocation_def allocation_at_def dict_set_same)
  have old: "ev_transition old \<noteq> RESERVE" if "dict_get (sn_events sn) ?k = Some old" for old
  proof
    assume "ev_transition old = RESERVE"
    with events_wf_get(3) [OF wf that] have eq: "?k = operation_event_id (ev_operation_id old) (ev_budget_state_ref old) ''reserve''"
      by (simp add: reserve_event_id_def)
    have "''throttle'' = ''reserve''" by (rule operation_event_id_suffix [OF eq]) simp_all
    then show False by simp
  qed
  have tot: "open_total (dict_set ?k e (sn_events sn)) ref2 g = open_total (sn_events sn) ref2 g" for ref2 g
  proof (rule open_total_other [OF wf])
    show "?k \<noteq> operation_event_id op' r ''commit'' \<and> ?k \<noteq> operation_event_id op' r ''release''" for op' r
      using operation_event_id_suffix [of op "bs_state_ref s" "''throttle''" op' r "''commit''"]
        operation_event_id_suffix [of op "bs_state_ref s" "''throttle''" op' r "''release''"] by auto
  qed (use e old in auto)
  have "books_balanced sha256 ((ledger_of sn)\<lparr>ld_states := dict_set ref ?s (ld_states (ledger_of sn)),
      ld_pools := dict_set (pool_ref_for_state sha256 s) (set_allocation ref a p) (ld_pools (ledger_of sn)),
      ld_events := dict_set ?k e (sn_events sn)\<rparr>)"
  proof (rule balanced_update [OF bal])
    show "agrees ?s a" using p(3) by (simp add: agrees_def)
    show "pool_within (set_allocation ref a p)" using balanced_pool(2) [OF bal] p(1) by (simp add: same)
    show "events_wf (dict_set ?k e (sn_events sn))"
      using e check_event_requested by (intro events_wf_set wf) auto
    show "open_total (dict_set ?k e (sn_events sn)) ref (bs_generation ?s) = bs_reserved ?s"
      using balanced_state(3) [OF bal] s by (simp add: tot)
    show "open_total (dict_set ?k e (sn_events sn)) ref2 (bs_generation s2) =
        open_total (ld_events (ledger_of sn)) ref2 (bs_generation s2)" for ref2 s2 by (simp add: tot)
    show "e2 \<in> set (dict_values (ld_events (ledger_of sn))) \<or>
        (ev_budget_state_ref e2 = ref \<and> ev_execution_generation e2 \<le> bs_generation ?s)"
      if "e2 \<in> set (dict_values (dict_set ?k e (sn_events sn)))" "ev_transition e2 = RESERVE" for e2
      using that e(1) by (auto dest: dict_values_set)
  qed (use s p in \<open>simp_all add: pool_ref_for_state_def\<close>)
  moreover have "dict_set (pool_ref_for_state sha256 s) p (sn_pools sn) = sn_pools sn"
    using p(1) by (rule dict_set_same)
  ultimately show ?thesis using ref by (simp add: throttled_ledger_def Let_def same ledger_of_def)
qed

lemma reserve_balanced:
  assumes bal: "books_balanced sha256 (ledger_of sn)" and fresh: "fresh_vector sha256 sn policy op"
    and run: "reserve_participant_resources sha256 sn policy op generation q = Inr r"
  shows "books_balanced sha256 (ledger_of (ar_snapshot r))"
  using run fresh
proof (cases rule: reserve_cases)
  case refused
  then consider code where "r = apply_failed sn code (rp_address policy)"
    | d s e sn' where "dict_get (sn_states sn) (demand_state_ref policy d) = Some s"
      "ev_transition e = THROTTLE" "check_event e = Inr ()"
      "ev_event_id e = operation_event_id op (bs_state_ref s) ''throttle''"
      "commit_ledger sha256 sn (throttled_ledger policy op (ledger_of sn) s e) = Inr sn'"
      "r = apply_failed sn' ''runtime.participant-resource-throttled'' (rp_address policy)"
    unfolding refused_def by blast
  then show ?thesis
  proof cases
    case 1
    with bal show ?thesis by (simp add: apply_failed_def)
  next
    case 2
    with throttled_balanced [OF bal 2(1-4)] commit_ledger_Inr [OF 2(5)] show ?thesis
      by (simp add: apply_failed_def)
  qed
next
  case (reserved cs ld sn')
  with apply_reservations_run [OF reserved(2) bal granted_ready(1,3,4) [OF bal fresh reserved(1)]]
    commit_ledger_Inr [OF reserved(3)] show ?thesis by (simp add: apply_ok_def)
qed

text \<open>The quantities of a budget that a refusal must not touch.\<close>

definition quantities :: "budget_state \<Rightarrow> int \<times> int \<times> int \<times> int" where
  "quantities s = (bs_generation s, bs_reserved s, bs_current_use s, bs_cumulative_use s)"

lemma refused_keeps:
  assumes bal: "books_balanced sha256 (ledger_of sn)" and refused: "refused sha256 sn policy op generation r"
  shows "\<not> ar_success r \<and> sn_pools (ar_snapshot r) = sn_pools sn \<and> ar_diagnostics r \<noteq> [] \<and>
    (\<forall>ref. map_option quantities (dict_get (sn_states (ar_snapshot r)) ref) =
       map_option quantities (dict_get (sn_states sn) ref))"
proof -
  from refused consider code where "r = apply_failed sn code (rp_address policy)"
    | d s e sn' where "dict_get (sn_states sn) (demand_state_ref policy d) = Some s"
      "commit_ledger sha256 sn (throttled_ledger policy op (ledger_of sn) s e) = Inr sn'"
      "r = apply_failed sn' ''runtime.participant-resource-throttled'' (rp_address policy)"
    unfolding refused_def by blast
  then show ?thesis
  proof cases
    case 1
    then show ?thesis by (simp add: apply_failed_def)
  next
    case 2
    have "bs_state_ref s = demand_state_ref policy d" using balanced_state(1) [OF bal] 2(1) by simp
    with 2(1,3) commit_ledger_Inr [OF 2(2)] show ?thesis
      by (simp add: apply_failed_def throttled_ledger_def Let_def quantities_def)
  qed
qed

text \<open>What a granted demand shows afterwards.\<close>

definition demand_granted ::
  "resource_policy \<Rightarrow> string \<Rightarrow> int \<Rightarrow> (string, int) pydict option \<Rightarrow> ledger \<Rightarrow> ledger \<Rightarrow> resource_demand \<Rightarrow> bool" where
  "demand_granted policy op generation q ld ld' d \<longleftrightarrow>
     (\<exists>s n e s'. dict_get (ld_states ld) (demand_state_ref policy d) = Some s \<and>
        bs_generation s = generation \<and> requested_amount d q = Inr n \<and>
        dict_get (ld_states ld') (demand_state_ref policy d) = Some s' \<and>
        quantities s' = (generation, bs_reserved s + n, bs_current_use s, bs_cumulative_use s) \<and>
        dict_get (ld_events ld') (reserve_event_id op (demand_state_ref policy d)) = Some e \<and>
        ev_transition e = RESERVE \<and> ev_requested e = n)"

lemma reserved_grants:
  assumes bal: "books_balanced sha256 (ledger_of sn)" and fresh: "fresh_vector sha256 sn policy op"
    and checked: "list_all2 (granted sha256 policy generation q (ledger_of sn)) (rp_demands policy) cs"
    and fold: "res_fold (apply_reservation policy op generation) (ledger_of sn) cs = Inr ld"
  shows "(\<forall>d \<in> set (rp_demands policy). demand_granted policy op generation q (ledger_of sn) ld d) \<and>
    (\<forall>ref. ref \<notin> demand_state_ref policy ` set (rp_demands policy) \<longrightarrow>
       dict_get (ld_states ld) ref = dict_get (sn_states sn) ref)"
proof (intro conjI ballI allI impI)
  note ready = granted_ready [OF bal fresh checked]
  note run = apply_reservations_run [OF fold bal ready(1,3,4)]
  fix d assume "d \<in> set (rp_demands policy)"
  then obtain i where i: "i < length (rp_demands policy)" "d = rp_demands policy ! i"
    by (auto simp: in_set_conv_nth)
  with checked have c: "granted sha256 policy generation q (ledger_of sn) d (cs ! i)" "cs ! i \<in> set cs"
    by (auto simp: list_all2_conv_all_nth)
  from c have ref: "bs_state_ref (rc_current (cs ! i)) = demand_state_ref policy d"
    using balanced_state(1) [OF bal] by (simp add: granted_def)
  from run c(2) have "reservation_effect op ld (cs ! i)" by blast
  with c(1) ref show "demand_granted policy op generation q (ledger_of sn) ld d"
    by (auto simp: reservation_effect_def granted_def quantities_def reserved_state_def demand_granted_def)
next
  note ready = granted_ready [OF bal fresh checked]
  fix ref assume "ref \<notin> demand_state_ref policy ` set (rp_demands policy)"
  moreover have "(\<lambda>c. bs_state_ref (rc_current c)) ` set cs = demand_state_ref policy ` set (rp_demands policy)"
    using ready(2) by (metis set_map)
  ultimately show "dict_get (ld_states ld) ref = dict_get (sn_states sn) ref"
    using apply_reservations_run [OF fold bal ready(1,3,4)] by simp
qed

text \<open>
  C6. A reservation is all or nothing, when the books are balanced, its demands are different budgets
  on different pools and its operation identifier has no events for them yet. On success every
  demand of the policy has its requested amount added to its budget and a reserve event to show for it, and no other budget changed; on
  refusal no pool changed, no budget changed in generation, reserved, current or cumulative
  amount, and a diagnostic says why.
\<close>

theorem reserve_all_or_nothing:
  assumes bal: "books_balanced sha256 (ledger_of sn)" and fresh: "fresh_vector sha256 sn policy op"
    and run: "reserve_participant_resources sha256 sn policy op generation q = Inr r"
  shows "if ar_success r
    then (\<forall>d \<in> set (rp_demands policy).
            demand_granted policy op generation q (ledger_of sn) (ledger_of (ar_snapshot r)) d) \<and>
         (\<forall>ref. ref \<notin> demand_state_ref policy ` set (rp_demands policy) \<longrightarrow>
            dict_get (sn_states (ar_snapshot r)) ref = dict_get (sn_states sn) ref)
    else sn_pools (ar_snapshot r) = sn_pools sn \<and> ar_diagnostics r \<noteq> [] \<and>
         (\<forall>ref. map_option quantities (dict_get (sn_states (ar_snapshot r)) ref) =
            map_option quantities (dict_get (sn_states sn) ref))"
  using run fresh
proof (cases rule: reserve_cases)
  case refused
  with refused_keeps [OF bal refused] show ?thesis by simp
next
  case (reserved cs ld sn')
  have "ar_success r" "ledger_of (ar_snapshot r) = ld" "sn_states (ar_snapshot r) = ld_states ld"
    using commit_ledger_Inr [OF reserved(3)] reserved(4) by (simp_all add: apply_ok_def)
  with reserved_grants [OF bal fresh reserved(1,2)] show ?thesis by simp
qed

text \<open>
  Replaying a reservation is harmless: once an operation has reserved its vector, the same
  call, whatever generation or amounts it now names, succeeds and changes nothing.
\<close>

lemma reserve_replay:
  assumes bal: "books_balanced sha256 (ledger_of sn)" and fresh: "fresh_vector sha256 sn policy op"
    and run: "reserve_participant_resources sha256 sn policy op generation q = Inr r" and "ar_success r"
  shows "reserve_participant_resources sha256 (ar_snapshot r) policy op generation' q' = Inr (apply_ok (ar_snapshot r))"
  using run fresh
proof (cases rule: reserve_cases)
  case refused
  with assms(4) show ?thesis by (auto simp: refused_def apply_failed_def)
next
  case (reserved cs ld sn')
  note ready = granted_ready [OF bal fresh reserved(1)]
  from apply_reservations_run [OF reserved(2) bal ready(1,3,4)] have effect: "\<forall>c \<in> set cs. reservation_effect op ld c"
    by blast
  have events: "sn_events (ar_snapshot r) = ld_events ld"
    using commit_ledger_Inr [OF reserved(3)] reserved(4) by (simp add: apply_ok_def)
  have "dict_has (ld_events ld) (reserve_event_id op (demand_state_ref policy d))"
    if d: "d \<in> set (rp_demands policy)" for d
  proof -
    have "demand_state_ref policy d \<in> (\<lambda>c. bs_state_ref (rc_current c)) ` set cs"
      using d ready(2) by (metis image_eqI set_map)
    then obtain c where "c \<in> set cs" "demand_state_ref policy d = bs_state_ref (rc_current c)" by blast
    with effect obtain e where "dict_get (ld_events ld) (reserve_event_id op (demand_state_ref policy d)) = Some e"
      unfolding reservation_effect_def by metis
    then show ?thesis by (rule dict_get_Some_has)
  qed
  then have "list_all (dict_has (sn_events (ar_snapshot r)))
      (map (\<lambda>d. reserve_event_id op (demand_state_ref policy d)) (rp_demands policy))"
    by (simp add: events list_all_iff)
  moreover have "rp_demands policy \<noteq> []" using fresh by (simp add: fresh_vector_def)
  ultimately show ?thesis by (simp add: reserve_participant_resources_def)
qed

end
