(* ===== verification/Budget_Settle.thy ===== *)
theory Budget_Settle
  imports Budget_Reserve
begin

text \<open>
  Commit and release: each turns the open reservations of one operation into settled ones, on
  the budget and on its pool, and keeps the books balanced. The books only stay balanced if an
  operation is settled one way; the code does not check that itself.
\<close>

section \<open>Settling one reservation\<close>

definition settling :: "string \<Rightarrow> budget_state \<Rightarrow> int \<Rightarrow> int \<Rightarrow> string list \<Rightarrow> budget_state" where
  "settling event_id s requested measured evidence =
     s\<lparr>bs_reserved := max 0 (bs_reserved s - requested),
       bs_cumulative_use := bs_cumulative_use s + measured,
       bs_last_event_ref := event_id,
       bs_evidence_refs := fromkeys (bs_evidence_refs s @ evidence)\<rparr>"

text \<open>What settling one reservation does to the ledger; a release measures nothing.\<close>

definition settles ::
  "(string \<Rightarrow> string) \<Rightarrow> string \<Rightarrow> int \<Rightarrow> string \<Rightarrow> int \<Rightarrow> string list \<Rightarrow> budget_event \<Rightarrow> ledger \<Rightarrow> ledger \<Rightarrow> bool" where
  "settles sha256 op generation suffix measured evidence r ld ld' \<longleftrightarrow>
     (\<exists>s p a e. let ref = ev_budget_state_ref r; k = operation_event_id op ref suffix in
        \<not> dict_has (ld_events ld) k \<and>
        dict_get (ld_states ld) ref = Some s \<and> bs_state_ref s = ref \<and> bs_generation s = generation \<and>
        dict_get (ld_pools ld) (pool_ref_for_state sha256 s) = Some p \<and> allocation_at p ref = Some a \<and>
        check_event e = Inr () \<and> ev_event_id e = k \<and> ev_transition e \<noteq> RESERVE \<and>
        ld' = ld\<lparr>ld_states := dict_set ref (settling k s (ev_requested r) measured evidence) (ld_states ld),
            ld_pools := dict_set (pool_ref_for_state sha256 s)
              (set_allocation ref (a\<lparr>al_reserved := max 0 (al_reserved a - ev_requested r),
                 al_cumulative_use := al_cumulative_use a + measured\<rparr>) p) (ld_pools ld),
            ld_events := dict_set k e (ld_events ld)\<rparr>)"

lemma read_item_Inr: "res_bind (dict_item d k) f = Inr y \<Longrightarrow> \<exists>v. dict_get d k = Some v \<and> f v = Inr y"
  by (auto elim!: res_bind_InrE)

lemma commit_reservation_cases:
  assumes keyed: "states_keyed ld"
    and run: "commit_reservation sha256 sn op generation evidence measured r ld = Inr (Inr ld')"
  obtains (again) "dict_has (ld_events ld) (operation_event_id op (ev_budget_state_ref r) ''commit'')" "ld' = ld"
    | (settled) m where "dict_get measured (ev_budget_state_ref r) = Some m"
        and "settles sha256 op generation ''commit'' m evidence r ld ld'"
proof -
  let ?ref = "ev_budget_state_ref r"
  let ?k = "operation_event_id op ?ref ''commit''"
  from run obtain m where m: "dict_get measured ?ref = Some m"
    unfolding commit_reservation_def by (auto dest: read_item_Inr)
  note run1 = run [unfolded commit_reservation_def dict_item_def m option.case res_bind.simps Let_def]
  show thesis
  proof (cases "dict_has (ld_events ld) ?k")
    case True
    with run1 show thesis by (intro again) simp_all
  next
    case False
    note run2 = run1 [unfolded if_not_P [OF False]]
    from run2 obtain s where s: "dict_get (ld_states ld) ?ref = Some s"
      by (cases "dict_get (ld_states ld) ?ref") simp_all
    have ref: "bs_state_ref s = ?ref" by (rule states_keyed_get [OF keyed s])
    note run3 = run2 [unfolded s option.case res_bind.simps]
    from run3 have gen: "bs_generation s = generation"
      by (auto elim!: res_bind_InrE split: if_splits)
    from run3 gen obtain e where
      e: "operation_event ?k op (ev_budget_id r) (ev_policy_address r) s generation COMMIT (ev_requested r)
        (Some m) (ev_event_id r) evidence ?ref = Inr e"
      and rest: "res_bind (case dict_get (ld_pools ld) (pool_ref_for_state sha256 s) of
            None \<Rightarrow> Inl (KeyError (pool_ref_for_state sha256 s)) | Some v \<Rightarrow> Inr v) (\<lambda>raw_pool.
          res_bind (read_pool sha256 raw_pool) (\<lambda>physical.
          res_bind (pool_commit physical (bs_state_ref s) (ev_requested r) m) (\<lambda>physical'.
            Inr (Inr
              (ld\<lparr>ld_states := dict_set ?ref
                    (s\<lparr>bs_reserved := max 0 (bs_reserved s - ev_requested r),
                       bs_cumulative_use := bs_cumulative_use s + m, bs_last_event_ref := ?k,
                       bs_evidence_refs := fromkeys (bs_evidence_refs s @ evidence)\<rparr>) (ld_states ld),
                  ld_pools := dict_set (pool_ref_for_state sha256 s) physical' (ld_pools ld),
                  ld_events := dict_set ?k e (ld_events ld)\<rparr>))))) = Inr (Inr ld')"
      by (auto elim!: res_bind_InrE)
    from rest obtain p where p: "dict_get (ld_pools ld) (pool_ref_for_state sha256 s) = Some p"
      by (cases "dict_get (ld_pools ld) (pool_ref_for_state sha256 s)") simp_all
    from rest p obtain p' where p': "pool_commit p (bs_state_ref s) (ev_requested r) m = Inr p'"
      and ld': "ld' = ld\<lparr>ld_states := dict_set ?ref
            (s\<lparr>bs_reserved := max 0 (bs_reserved s - ev_requested r),
               bs_cumulative_use := bs_cumulative_use s + m, bs_last_event_ref := ?k,
               bs_evidence_refs := fromkeys (bs_evidence_refs s @ evidence)\<rparr>) (ld_states ld),
          ld_pools := dict_set (pool_ref_for_state sha256 s) p' (ld_pools ld),
          ld_events := dict_set ?k e (ld_events ld)\<rparr>"
      by (auto elim!: res_bind_InrE)
    from p' obtain a where "allocation_at p ?ref = Some a"
      "p' = set_allocation ?ref (a\<lparr>al_reserved := max 0 (al_reserved a - ev_requested r),
         al_cumulative_use := al_cumulative_use a + m\<rparr>) p"
      by (auto simp: pool_update_cases ref)
    with False s ref gen p operation_event_Inr [OF e] ld' m show thesis
      by (intro settled [of m]) (auto simp: settles_def settling_def Let_def)
  qed
qed

lemma release_reservation_cases:
  assumes keyed: "states_keyed ld"
    and run: "release_reservation sha256 sn op generation evidence r ld = Inr (Inr ld')"
  obtains (again) "dict_has (ld_events ld) (operation_event_id op (ev_budget_state_ref r) ''release'')" "ld' = ld"
    | (settled) "settles sha256 op generation ''release'' 0 evidence r ld ld'"
proof -
  let ?ref = "ev_budget_state_ref r"
  let ?k = "operation_event_id op ?ref ''release''"
  note run1 = run [unfolded release_reservation_def dict_item_def Let_def]
  show thesis
  proof (cases "dict_has (ld_events ld) ?k")
    case True
    with run1 show thesis by (intro again) simp_all
  next
    case False
    note run2 = run1 [unfolded if_not_P [OF False]]
    from run2 obtain s where s: "dict_get (ld_states ld) ?ref = Some s"
      by (cases "dict_get (ld_states ld) ?ref") simp_all
    have ref: "bs_state_ref s = ?ref" by (rule states_keyed_get [OF keyed s])
    note run3 = run2 [unfolded s option.case res_bind.simps]
    from run3 have gen: "bs_generation s = generation"
      by (auto elim!: res_bind_InrE split: if_splits)
    from run3 gen obtain e where
      e: "operation_event ?k op (ev_budget_id r) (ev_policy_address r) s generation RELEASE (ev_requested r)
        None (ev_event_id r) evidence ?ref = Inr e"
      and rest: "res_bind (case dict_get (ld_pools ld) (pool_ref_for_state sha256 s) of
            None \<Rightarrow> Inl (KeyError (pool_ref_for_state sha256 s)) | Some v \<Rightarrow> Inr v) (\<lambda>raw_pool.
          res_bind (read_pool sha256 raw_pool) (\<lambda>physical.
          res_bind (pool_release physical (bs_state_ref s) (ev_requested r)) (\<lambda>physical'.
            Inr (Inr
              (ld\<lparr>ld_states := dict_set (bs_state_ref s)
                    (s\<lparr>bs_reserved := max 0 (bs_reserved s - ev_requested r), bs_last_event_ref := ?k,
                       bs_evidence_refs := fromkeys (bs_evidence_refs s @ evidence)\<rparr>) (ld_states ld),
                  ld_pools := dict_set (pool_ref_for_state sha256 s) physical' (ld_pools ld),
                  ld_events := dict_set ?k e (ld_events ld)\<rparr>))))) = Inr (Inr ld')"
      by (auto elim!: res_bind_InrE)
    from rest obtain p where p: "dict_get (ld_pools ld) (pool_ref_for_state sha256 s) = Some p"
      by (cases "dict_get (ld_pools ld) (pool_ref_for_state sha256 s)") simp_all
    from rest p obtain p' where p': "pool_release p (bs_state_ref s) (ev_requested r) = Inr p'"
      and ld': "ld' = ld\<lparr>ld_states := dict_set (bs_state_ref s)
            (s\<lparr>bs_reserved := max 0 (bs_reserved s - ev_requested r), bs_last_event_ref := ?k,
               bs_evidence_refs := fromkeys (bs_evidence_refs s @ evidence)\<rparr>) (ld_states ld),
          ld_pools := dict_set (pool_ref_for_state sha256 s) p' (ld_pools ld),
          ld_events := dict_set ?k e (ld_events ld)\<rparr>"
      by (auto elim!: res_bind_InrE)
    from p' obtain a where "allocation_at p ?ref = Some a"
      "p' = set_allocation ?ref (a\<lparr>al_reserved := max 0 (al_reserved a - ev_requested r),
         al_cumulative_use := al_cumulative_use a + 0\<rparr>) p"
      by (auto simp: pool_update_cases ref)
    with False s ref gen p operation_event_Inr [OF e] ld' show thesis
      by (intro settled) (auto simp: settles_def settling_def Let_def)
  qed
qed

section \<open>Balanced settlement\<close>

text \<open>An open reservation of the operation, in the generation that is being settled.\<close>

definition outstanding :: "string \<Rightarrow> int \<Rightarrow> ledger \<Rightarrow> budget_event \<Rightarrow> bool" where
  "outstanding op generation ld r \<longleftrightarrow>
     r \<in> set (dict_values (ld_events ld)) \<and> ev_operation_id r = op \<and> ev_transition r = RESERVE \<and>
     ev_execution_generation r = generation \<and> \<not> settled (ld_events ld) r"

lemma outstanding_amount:
  assumes bal: "books_balanced sha256 ld" and r: "outstanding op generation ld r"
    and s: "dict_get (ld_states ld) (ev_budget_state_ref r) = Some s" "bs_generation s = generation"
  shows "open_amount (ld_events ld) (ev_budget_state_ref r) generation r = ev_requested r"
    and "0 \<le> ev_requested r" and "ev_requested r \<le> bs_reserved s"
proof -
  have wf: "events_wf (ld_events ld)" by (rule balanced_events [OF bal])
  show amount: "open_amount (ld_events ld) (ev_budget_state_ref r) generation r = ev_requested r"
    using r by (simp add: outstanding_def open_amount_def)
  have mem: "r \<in> set (dict_values (ld_events ld))" using r by (simp add: outstanding_def)
  show "0 \<le> ev_requested r" by (rule events_wf_get(2) [OF wf events_wf_value [OF wf mem]])
  show "ev_requested r \<le> bs_reserved s"
    using open_amount_le_total [OF wf mem, of "ev_budget_state_ref r" generation] amount
      balanced_state(3) [OF bal s(1)] s(2) by simp
qed

lemma settles_balanced:
  assumes bal: "books_balanced sha256 ld" and r: "outstanding op generation ld r"
    and step: "settles sha256 op generation suffix m evidence r ld ld'"
    and suffix: "suffix = ''commit'' \<or> suffix = ''release''" and m: "0 \<le> m" "m \<le> ev_requested r"
  shows "books_balanced sha256 ld'"
proof -
  let ?ref = "ev_budget_state_ref r"
  let ?k = "operation_event_id op ?ref suffix"
  from step [unfolded settles_def Let_def] obtain s p a e where
    fresh: "\<not> dict_has (ld_events ld) ?k" and s: "dict_get (ld_states ld) ?ref = Some s" "bs_state_ref s = ?ref"
      "bs_generation s = generation"
    and p: "dict_get (ld_pools ld) (pool_ref_for_state sha256 s) = Some p" "allocation_at p ?ref = Some a"
    and e: "check_event e = Inr ()" "ev_event_id e = ?k" "ev_transition e \<noteq> RESERVE"
    and ld': "ld' = ld\<lparr>ld_states := dict_set ?ref (settling ?k s (ev_requested r) m evidence) (ld_states ld),
            ld_pools := dict_set (pool_ref_for_state sha256 s)
              (set_allocation ?ref (a\<lparr>al_reserved := max 0 (al_reserved a - ev_requested r),
                 al_cumulative_use := al_cumulative_use a + m\<rparr>) p) (ld_pools ld),
            ld_events := dict_set ?k e (ld_events ld)\<rparr>" by metis
  note amount = outstanding_amount [OF bal r s(1,3)]
  have wf: "events_wf (ld_events ld)" by (rule balanced_events [OF bal])
  have agree: "agrees s a" using balanced_state(2) [OF bal s(1)] p by (auto simp: mirrored_def)
  have "r \<in> set (dict_values (ld_events ld))" "ev_transition r = RESERVE"
    "?k = operation_event_id (ev_operation_id r) (ev_budget_state_ref r) suffix"
    using r by (simp_all add: outstanding_def)
  note tot = open_total_settle [OF wf e(3) suffix this fresh]
  show ?thesis unfolding ld'
  proof (rule balanced_update [OF bal s(1) p])
    show "agrees (settling ?k s (ev_requested r) m evidence)
        (a\<lparr>al_reserved := max 0 (al_reserved a - ev_requested r),
           al_cumulative_use := al_cumulative_use a + m\<rparr>)"
      using agree by (simp add: agrees_def settling_def)
    have "pool.within p" using balanced_pool(2) [OF bal p(1)] by (simp add: pool_within_iff)
    moreover have "pool_commit p ?ref (ev_requested r) m =
        Inr (set_allocation ?ref (a\<lparr>al_reserved := max 0 (al_reserved a - ev_requested r),
           al_cumulative_use := al_cumulative_use a + m\<rparr>) p)"
      using p(2) by (simp add: pool_update_cases)
    moreover have "held_by p ?ref = Some (bs_reserved s)" using p(2) agree by (simp add: held_by_def agrees_def)
    ultimately have "pool.within (set_allocation ?ref (a\<lparr>al_reserved := max 0 (al_reserved a - ev_requested r),
           al_cumulative_use := al_cumulative_use a + m\<rparr>) p)"
      using m amount(3) by (rule pool.within_settle)
    then show "pool_within (set_allocation ?ref (a\<lparr>al_reserved := max 0 (al_reserved a - ev_requested r),
           al_cumulative_use := al_cumulative_use a + m\<rparr>) p)" by (simp add: pool_within_iff)
    show "events_wf (dict_set ?k e (ld_events ld))"
      using e check_event_requested by (intro events_wf_set wf) auto
    show "open_total (dict_set ?k e (ld_events ld)) ?ref (bs_generation (settling ?k s (ev_requested r) m evidence)) =
        bs_reserved (settling ?k s (ev_requested r) m evidence)"
      using tot [of ?ref generation] amount balanced_state(3) [OF bal s(1)] s(3) by (simp add: settling_def)
    show "open_total (dict_set ?k e (ld_events ld)) ref2 (bs_generation s2) =
        open_total (ld_events ld) ref2 (bs_generation s2)" if "ref2 \<noteq> ?ref" for ref2 s2
      using tot [of ref2] that by (simp add: open_amount_def)
    show "e2 \<in> set (dict_values (ld_events ld)) \<or>
        (ev_budget_state_ref e2 = ?ref \<and>
         ev_execution_generation e2 \<le> bs_generation (settling ?k s (ev_requested r) m evidence))"
      if "e2 \<in> set (dict_values (dict_set ?k e (ld_events ld)))" "ev_transition e2 = RESERVE" for e2
      using that e(3) by (auto dest: dict_values_set)
  qed (simp_all add: settling_def pool_ref_for_state_def)
qed

section \<open>Settling a whole operation\<close>

lemma settles_events:
  assumes "settles sha256 op generation suffix m evidence r ld ld'"
  shows "\<exists>e. ld_events ld' = ld_events ld @ [(operation_event_id op (ev_budget_state_ref r) suffix, e)] \<and>
      ev_transition e \<noteq> RESERVE"
  using assms by (auto simp: settles_def Let_def dict_set_fresh)

lemma operation_event_id_differs:
  assumes "ref \<noteq> ref'" and "CHR '':'' \<notin> set s" and "CHR '':'' \<notin> set t"
  shows "operation_event_id op ref s \<noteq> operation_event_id op ref' t"
proof
  assume eq: "operation_event_id op ref s = operation_event_id op ref' t"
  with operation_event_id_suffix [OF eq assms(2,3)] have "s = t" by simp
  with eq assms(1) show False by simp
qed

text \<open>The reservations of one operation are on different budgets.\<close>

lemma reservations_distinct:
  assumes wf: "events_wf events"
    and r: "r \<in> set (dict_values events)" "ev_operation_id r = op" "ev_transition r = RESERVE"
    and r': "r' \<in> set (dict_values events)" "ev_operation_id r' = op" "ev_transition r' = RESERVE"
    and "ev_budget_state_ref r = ev_budget_state_ref r'"
  shows "r = r'"
proof -
  note get = events_wf_value [OF wf r(1)] events_wf_value [OF wf r'(1)]
  have "ev_event_id r = ev_event_id r'"
    using events_wf_get(3) [OF wf get(1) r(3)] events_wf_get(3) [OF wf get(2) r'(3)] r(2) r'(2) assms(8)
    by (simp only:)
  with get have "Some r = Some r'" by (simp only:)
  then show ?thesis by simp
qed

lemma outstanding_step:
  assumes step: "settles sha256 op generation suffix m evidence r ld ld'"
    and suffix: "CHR '':'' \<notin> set suffix" and r': "outstanding op generation ld r'"
    and differ: "ev_budget_state_ref r \<noteq> ev_budget_state_ref r'"
  shows "outstanding op generation ld' r'"
proof -
  let ?k = "operation_event_id op (ev_budget_state_ref r) suffix"
  from settles_events [OF step] obtain e where ev: "ld_events ld' = ld_events ld @ [(?k, e)]" by blast
  have no: "operation_event_id op (ev_budget_state_ref r') t \<noteq> ?k" if "CHR '':'' \<notin> set t" for t
    using operation_event_id_differs [OF differ suffix that, of op] by simp
  have "dict_has (ld_events ld') (operation_event_id op (ev_budget_state_ref r') t) \<longleftrightarrow>
      dict_has (ld_events ld) (operation_event_id op (ev_budget_state_ref r') t)" if "CHR '':'' \<notin> set t" for t
    using no [OF that] by (simp add: ev dict_has_def dict_keys_def)
  from this [of "''commit''"] this [of "''release''"] r' show ?thesis
    by (auto simp: outstanding_def settled_def ev dict_values_append)
qed

text \<open>
  One pass over the reservations of an operation, abstracting from the way of settling: what
  \<open>f\<close> does to a reservation that is not yet settled is \<open>settles\<close> with its measured amount.
\<close>

definition moves :: "int \<Rightarrow> ledger \<Rightarrow> ledger \<Rightarrow> int \<Rightarrow> budget_event \<Rightarrow> bool" where
  "moves generation ld ld' measured r \<longleftrightarrow>
     (\<exists>s s'. dict_get (ld_states ld) (ev_budget_state_ref r) = Some s \<and>
        dict_get (ld_states ld') (ev_budget_state_ref r) = Some s' \<and> bs_generation s = generation \<and>
        quantities s' = (generation, bs_reserved s - ev_requested r, bs_current_use s, bs_cumulative_use s + measured))"

definition settled_pass ::
  "(string \<Rightarrow> string) \<Rightarrow> string \<Rightarrow> int \<Rightarrow> string \<Rightarrow> (budget_event \<Rightarrow> int) \<Rightarrow> budget_event list \<Rightarrow>
     ledger \<Rightarrow> ledger \<Rightarrow> bool" where
  "settled_pass sha256 op generation suffix m rs ld ld' \<longleftrightarrow>
     books_balanced sha256 ld' \<and> (\<forall>r \<in> set rs. moves generation ld ld' (m r) r) \<and>
     (\<forall>r \<in> set rs. dict_has (ld_events ld') (operation_event_id op (ev_budget_state_ref r) suffix)) \<and>
     (\<forall>ref. ref \<notin> ev_budget_state_ref ` set rs \<longrightarrow> dict_get (ld_states ld') ref = dict_get (ld_states ld) ref) \<and>
     (\<exists>new. ld_events ld' = ld_events ld @ new \<and> (\<forall>e \<in> snd ` set new. ev_transition e \<noteq> RESERVE))"

lemma dict_has_append: "dict_has (d @ e) k \<longleftrightarrow> dict_has d k \<or> dict_has e k"
  by (auto simp: dict_has_def dict_keys_def)

lemma settle_pass:
  assumes run: "run_outcomes f rs ld = Inr (Inr ld')" and bal: "books_balanced sha256 ld"
    and suffix: "suffix = ''commit'' \<or> suffix = ''release''"
    and out: "\<forall>r \<in> set rs. outstanding op generation ld r \<and> 0 \<le> m r \<and> m r \<le> ev_requested r"
    and refs: "distinct (map ev_budget_state_ref rs)"
    and f: "\<And>r ld1 ld2. r \<in> set rs \<Longrightarrow> books_balanced sha256 ld1 \<Longrightarrow> f r ld1 = Inr (Inr ld2) \<Longrightarrow>
      outstanding op generation ld1 r \<Longrightarrow> settles sha256 op generation suffix (m r) evidence r ld1 ld2"
  shows "settled_pass sha256 op generation suffix m rs ld ld'"
  using run bal out refs f
proof (induction rs arbitrary: ld)
  case Nil
  then show ?case by (simp add: settled_pass_def)
next
  case (Cons r rs)
  let ?ref = "ev_budget_state_ref r"
  have colon: "CHR '':'' \<notin> set suffix" using suffix by auto
  have outr: "outstanding op generation ld r" and m: "0 \<le> m r" "m r \<le> ev_requested r"
    using Cons.prems(3) by simp_all
  from Cons.prems(1) obtain out where out: "f r ld = Inr out"
    "(case out of Inl failure \<Rightarrow> Inr (Inl failure) | Inr ld1 \<Rightarrow> run_outcomes f rs ld1) = Inr (Inr ld')"
    by (auto elim!: res_bind_InrE)
  then obtain ld1 where ld1: "f r ld = Inr (Inr ld1)" and rest: "run_outcomes f rs ld1 = Inr (Inr ld')"
    by (cases out) auto
  have step: "settles sha256 op generation suffix (m r) evidence r ld ld1"
    by (rule Cons.prems(5) [OF _ Cons.prems(2) ld1 outr]) simp
  have bal1: "books_balanced sha256 ld1" by (rule settles_balanced [OF Cons.prems(2) outr step suffix m])
  have out1: "\<forall>r2 \<in> set rs. outstanding op generation ld1 r2 \<and> 0 \<le> m r2 \<and> m r2 \<le> ev_requested r2"
  proof
    fix r2 assume r2: "r2 \<in> set rs"
    with Cons.prems(3) Cons.prems(4) have "outstanding op generation ld r2" "?ref \<noteq> ev_budget_state_ref r2"
      "0 \<le> m r2" "m r2 \<le> ev_requested r2" by auto
    with outstanding_step [OF step colon] show "outstanding op generation ld1 r2 \<and> 0 \<le> m r2 \<and> m r2 \<le> ev_requested r2"
      by blast
  qed
  have refs1: "distinct (map ev_budget_state_ref rs)" and own: "?ref \<notin> ev_budget_state_ref ` set rs"
    using Cons.prems(4) by auto
  have f1: "settles sha256 op generation suffix (m r2) evidence r2 ld2 ld3"
    if "r2 \<in> set rs" "books_balanced sha256 ld2" "f r2 ld2 = Inr (Inr ld3)" "outstanding op generation ld2 r2"
    for r2 ld2 ld3 by (rule Cons.prems(5)) (use that in simp_all)
  have IH: "settled_pass sha256 op generation suffix m rs ld1 ld'"
    by (rule Cons.IH [OF rest bal1 out1 refs1 f1])
  then have IH_bal: "books_balanced sha256 ld'" and IH_moves: "\<And>r2. r2 \<in> set rs \<Longrightarrow> moves generation ld1 ld' (m r2) r2"
    and IH_has: "\<And>r2. r2 \<in> set rs \<Longrightarrow> dict_has (ld_events ld') (operation_event_id op (ev_budget_state_ref r2) suffix)"
    and IH_keep: "\<And>ref. ref \<notin> ev_budget_state_ref ` set rs \<Longrightarrow> dict_get (ld_states ld') ref = dict_get (ld_states ld1) ref"
    by (simp_all add: settled_pass_def)
  from IH obtain new where new: "ld_events ld' = ld_events ld1 @ new" "\<forall>e \<in> snd ` set new. ev_transition e \<noteq> RESERVE"
    by (auto simp: settled_pass_def)
  from step obtain s where s: "dict_get (ld_states ld) ?ref = Some s" "bs_generation s = generation"
    and states1: "ld_states ld1 = dict_set ?ref
      (settling (operation_event_id op ?ref suffix) s (ev_requested r) (m r) evidence) (ld_states ld)"
    by (auto simp: settles_def Let_def)
  from settles_events [OF step] obtain e where
    e: "ld_events ld1 = ld_events ld @ [(operation_event_id op ?ref suffix, e)]" "ev_transition e \<noteq> RESERVE" by blast
  have le: "ev_requested r \<le> bs_reserved s"
    by (rule outstanding_amount(3) [OF Cons.prems(2) outr s])
  have mine: "moves generation ld ld' (m r) r"
    using s le IH_keep [OF own] by (simp add: moves_def states1 quantities_def settling_def)
  have has: "dict_has (ld_events ld') (operation_event_id op ?ref suffix)"
    by (simp add: new(1) e dict_has_append) (simp add: dict_has_def dict_keys_def)
  have others: "moves generation ld ld' (m r2) r2" if r2: "r2 \<in> set rs" for r2
  proof -
    have "?ref \<noteq> ev_budget_state_ref r2" using own r2 by auto
    then have "dict_get (ld_states ld1) (ev_budget_state_ref r2) = dict_get (ld_states ld) (ev_budget_state_ref r2)"
      by (simp add: states1)
    with IH_moves [OF r2] show ?thesis by (simp add: moves_def)
  qed
  have unchanged: "dict_get (ld_states ld') ref = dict_get (ld_states ld) ref"
    if "ref \<notin> ev_budget_state_ref ` set (r # rs)" for ref
    using that IH_keep [of ref] by (simp add: states1)
  have appended: "\<exists>new. ld_events ld' = ld_events ld @ new \<and> (\<forall>e \<in> snd ` set new. ev_transition e \<noteq> RESERVE)"
    using new e by (intro exI [of _ "(operation_event_id op ?ref suffix, e) # new"]) simp
  show ?case
    unfolding settled_pass_def using IH_bal mine others has IH_has unchanged appended by simp
qed

end
