(* ===== verification/Budget_Commit.thy ===== *)
theory Budget_Commit
  imports Budget_Settle
begin

text \<open>
  Commit and release as whole operations: they settle every reservation of an operation or
  change nothing, the first settlement wins over later ones, and a caller of an old generation
  is fenced off.
\<close>

section \<open>The reservations of an operation\<close>

definition reservations_of :: "(string, budget_event) pydict \<Rightarrow> string \<Rightarrow> budget_event list" where
  "reservations_of events op =
     filter (\<lambda>e. ev_operation_id e = op \<and> ev_transition e = RESERVE) (dict_values events)"

lemma in_reservations_of:
  "r \<in> set (reservations_of events op) \<longleftrightarrow>
     r \<in> set (dict_values events) \<and> ev_operation_id r = op \<and> ev_transition r = RESERVE"
  by (auto simp: reservations_of_def)

lemma read_event_Inr: "read_event e = Inr x \<longleftrightarrow> check_event e = Inr () \<and> x = e"
  by (auto simp: read_event_def res_bind_Inr_iff)

lemma operation_reservations_Inr:
  "operation_reservations events op = Inr rs \<longleftrightarrow>
     (\<forall>r \<in> set (reservations_of events op). check_event r = Inr ()) \<and> rs = reservations_of events op"
proof -
  have "list_all2 (\<lambda>x y. read_event x = Inr y) xs ys \<longleftrightarrow> (\<forall>x \<in> set xs. check_event x = Inr ()) \<and> ys = xs" for xs ys
    by (induction xs arbitrary: ys) (auto simp: read_event_Inr list_all2_Cons1)
  then show ?thesis unfolding operation_reservations_def reservations_of_def res_map_Inr by blast
qed

text \<open>Operations whose every reservation is still open, in the generation named.\<close>

definition open_operation :: "string \<Rightarrow> int \<Rightarrow> 'rest budget_snapshot \<Rightarrow> bool" where
  "open_operation op generation sn \<longleftrightarrow> reservations_of (sn_events sn) op \<noteq> [] \<and>
     list_all (outstanding op generation (ledger_of sn)) (reservations_of (sn_events sn) op)"

lemma reservations_refs_distinct:
  assumes wf: "events_wf events"
  shows "distinct (map ev_budget_state_ref (reservations_of events op))"
proof -
  have "inj_on ev_budget_state_ref (set (reservations_of events op))"
    using reservations_distinct [OF wf] by (auto simp: inj_on_def in_reservations_of)
  moreover have "distinct (reservations_of events op)"
    using events_distinct [OF wf] by (simp add: reservations_of_def)
  ultimately show ?thesis by (simp add: distinct_map)
qed

lemma run_outcomes_failure:
  "run_outcomes f rs ld = Inr (Inl failure) \<Longrightarrow> \<exists>r \<in> set rs. \<exists>ld1. f r ld1 = Inr (Inl failure)"
proof (induction rs arbitrary: ld)
  case Nil
  then show ?case by simp
next
  case (Cons r rs)
  from Cons.prems obtain out where out: "f r ld = Inr out"
    "(case out of Inl failure \<Rightarrow> Inr (Inl failure) | Inr ld1 \<Rightarrow> run_outcomes f rs ld1) = Inr (Inl failure)"
    by (auto elim!: res_bind_InrE)
  then show ?case by (cases out) (use Cons.IH out(1) in auto)
qed

lemma run_outcomes_idle:
  "(\<And>r. r \<in> set rs \<Longrightarrow> f r ld = Inr (Inr ld)) \<Longrightarrow> run_outcomes f rs ld = Inr (Inr ld)"
  by (induction rs) auto

text \<open>How one settlement ends early: only a stale generation stops it.\<close>

lemma settle_failure:
  "commit_reservation sha256 sn op generation evidence measured r ld = Inr (Inl failure) \<Longrightarrow>
     failure = apply_failed sn ''runtime.participant-resource-stale-generation'' (ev_policy_address r)"
  "release_reservation sha256 sn op generation evidence r ld = Inr (Inl failure) \<Longrightarrow>
     failure = apply_failed sn ''runtime.participant-resource-stale-generation'' (ev_policy_address r)"
  by (auto simp: commit_reservation_def release_reservation_def Let_def elim!: res_bind_InrE split: if_splits)

lemma finish_cases:
  assumes "finish sha256 sn out = Inr r"
  obtains (failed) "out = Inr (Inl r)"
    | (finished) ld sn' where "out = Inr (Inr ld)" and "commit_ledger sha256 sn ld = Inr sn'" and "r = apply_ok sn'"
  using assms unfolding finish_def by (auto elim!: res_bind_InrE split: sum.splits)

section \<open>Commit\<close>

lemma commit_cases:
  assumes run: "commit_participant_resource_reservation sha256 sn op generation measured evidence = Inr res"
    and some: "reservations_of (sn_events sn) op \<noteq> []"
  obtains (invalid) "\<not> valid_measurement_vector (reservations_of (sn_events sn) op) measured evidence"
      and "res = apply_failed sn ''runtime.participant-resource-measurement-invalid''
        (ev_policy_address (hd (reservations_of (sn_events sn) op)))"
    | (stale) r where "r \<in> set (reservations_of (sn_events sn) op)"
        and "res = apply_failed sn ''runtime.participant-resource-stale-generation'' (ev_policy_address r)"
    | (committed) ld sn' where "valid_measurement_vector (reservations_of (sn_events sn) op) measured evidence"
        and "run_outcomes (commit_reservation sha256 sn op generation evidence measured)
          (reservations_of (sn_events sn) op) (ledger_of sn) = Inr (Inr ld)"
        and "commit_ledger sha256 sn ld = Inr sn'" and "res = apply_ok sn'"
proof -
  let ?rs = "reservations_of (sn_events sn) op"
  from run obtain rs where rs: "operation_reservations (sn_events sn) op = Inr rs"
    and rest: "(if rs = [] then Inr (missing_reservation_result sn op (sn_events sn))
       else if \<not> valid_measurement_vector rs measured evidence
       then Inr (apply_failed sn ''runtime.participant-resource-measurement-invalid'' (ev_policy_address (hd rs)))
       else finish sha256 sn (run_outcomes (commit_reservation sha256 sn op generation evidence measured)
                rs (ledger_of sn))) = Inr res"
    unfolding commit_participant_resource_reservation_def by (rule res_bind_InrE)
  have eq: "rs = ?rs" using rs by (simp add: operation_reservations_Inr)
  show thesis
  proof (cases "valid_measurement_vector ?rs measured evidence")
    case False
    with rest some show thesis by (intro invalid) (simp_all add: eq)
  next
    case True
    with rest some have "finish sha256 sn (run_outcomes (commit_reservation sha256 sn op generation evidence measured)
        ?rs (ledger_of sn)) = Inr res" by (simp add: eq)
    then show thesis
    proof (cases rule: finish_cases)
      case failed
      from run_outcomes_failure [OF this] show thesis using stale settle_failure(1) by blast
    next
      case (finished ld sn')
      with True show thesis by (intro committed)
    qed
  qed
qed

lemma committed_pass:
  assumes bal: "books_balanced sha256 (ledger_of sn)" and op: "open_operation op generation sn"
    and valid: "valid_measurement_vector (reservations_of (sn_events sn) op) measured evidence"
    and run: "run_outcomes (commit_reservation sha256 sn op generation evidence measured)
          (reservations_of (sn_events sn) op) (ledger_of sn) = Inr (Inr ld)"
  shows "settled_pass sha256 op generation ''commit'' (\<lambda>r. the (dict_get measured (ev_budget_state_ref r)))
    (reservations_of (sn_events sn) op) (ledger_of sn) ld"
proof (rule settle_pass [OF run bal])
  let ?m = "\<lambda>r. the (dict_get measured (ev_budget_state_ref r))"
  show "\<forall>r \<in> set (reservations_of (sn_events sn) op). outstanding op generation (ledger_of sn) r \<and>
      0 \<le> ?m r \<and> ?m r \<le> ev_requested r"
    using op valid by (auto simp: open_operation_def valid_measurement_vector_def list_all_iff split: option.splits)
  show "distinct (map ev_budget_state_ref (reservations_of (sn_events sn) op))"
    using balanced_events [OF bal] by (intro reservations_refs_distinct) simp
  show "settles sha256 op generation ''commit'' (?m r) evidence r ld1 ld2"
    if bal1: "books_balanced sha256 ld1"
      and step: "commit_reservation sha256 sn op generation evidence measured r ld1 = Inr (Inr ld2)"
      and out: "outstanding op generation ld1 r" for r ld1 ld2
    using balanced_keyed [OF bal1] step
  proof (cases rule: commit_reservation_cases)
    case again
    with out show ?thesis by (auto simp: outstanding_def settled_def)
  next
    case (settled m)
    then show ?thesis by simp
  qed
qed simp

lemma commit_balanced:
  assumes bal: "books_balanced sha256 (ledger_of sn)" and op: "open_operation op generation sn"
    and run: "commit_participant_resource_reservation sha256 sn op generation measured evidence = Inr res"
  shows "books_balanced sha256 (ledger_of (ar_snapshot res))"
proof -
  have "reservations_of (sn_events sn) op \<noteq> []" using op by (simp add: open_operation_def)
  with run show ?thesis
  proof (cases rule: commit_cases)
    case (committed ld sn')
    with committed_pass [OF bal op committed(1,2)] commit_ledger_Inr [OF committed(3)] show ?thesis
      by (simp add: settled_pass_def apply_ok_def)
  qed (use bal in \<open>simp_all add: apply_failed_def\<close>)
qed

text \<open>
  C7. A commit of an open operation settles the whole vector or nothing. Let the books be balanced
  and let every reservation of the operation be outstanding: in the generation the commit names,
  neither committed nor released (a commit after a release is not covered; the code does not check
  it). Then on success every reservation of the operation moves its requested amount out of the
  reserved amount of its budget and its measured amount, at most the requested one, into the
  cumulative use, with a commit event to show for it; all other budgets are untouched and the
  books stay balanced. Otherwise the snapshot is the one given and a diagnostic says why.
\<close>

theorem commit_settles_vector:
  assumes bal: "books_balanced sha256 (ledger_of sn)" and op: "open_operation op generation sn"
    and run: "commit_participant_resource_reservation sha256 sn op generation measured evidence = Inr res"
  shows "if ar_success res
    then books_balanced sha256 (ledger_of (ar_snapshot res)) \<and>
      (\<forall>r \<in> set (reservations_of (sn_events sn) op). \<exists>m.
         dict_get measured (ev_budget_state_ref r) = Some m \<and> 0 \<le> m \<and> m \<le> ev_requested r \<and>
         moves generation (ledger_of sn) (ledger_of (ar_snapshot res)) m r \<and>
         dict_has (sn_events (ar_snapshot res)) (operation_event_id op (ev_budget_state_ref r) ''commit'')) \<and>
      (\<forall>ref. ref \<notin> ev_budget_state_ref ` set (reservations_of (sn_events sn) op) \<longrightarrow>
         dict_get (sn_states (ar_snapshot res)) ref = dict_get (sn_states sn) ref)
    else ar_snapshot res = sn \<and> ar_diagnostics res \<noteq> []"
proof -
  have "reservations_of (sn_events sn) op \<noteq> []" using op by (simp add: open_operation_def)
  with run show ?thesis
  proof (cases rule: commit_cases)
    case (committed ld sn')
    from committed_pass [OF bal op committed(1,2)] have pass: "settled_pass sha256 op generation ''commit''
      (\<lambda>r. the (dict_get measured (ev_budget_state_ref r))) (reservations_of (sn_events sn) op) (ledger_of sn) ld" .
    have m: "\<exists>m. dict_get measured (ev_budget_state_ref r) = Some m \<and> 0 \<le> m \<and> m \<le> ev_requested r"
      if "r \<in> set (reservations_of (sn_events sn) op)" for r
      using committed(1) that by (auto simp: valid_measurement_vector_def list_all_iff split: option.splits)
    have eqs: "ar_success res" "ledger_of (ar_snapshot res) = ld" "sn_states (ar_snapshot res) = ld_states ld"
      "sn_events (ar_snapshot res) = ld_events ld"
      using commit_ledger_Inr [OF committed(3)] committed(4) by (simp_all add: apply_ok_def)
    from pass have "\<forall>r \<in> set (reservations_of (sn_events sn) op). \<exists>m.
         dict_get measured (ev_budget_state_ref r) = Some m \<and> 0 \<le> m \<and> m \<le> ev_requested r \<and>
         moves generation (ledger_of sn) ld m r \<and>
         dict_has (ld_events ld) (operation_event_id op (ev_budget_state_ref r) ''commit'')"
      using m unfolding settled_pass_def by fastforce
    with pass show ?thesis by (simp add: eqs settled_pass_def)
  qed (simp_all add: apply_failed_def)
qed

section \<open>Committing again\<close>

lemma commit_ledger_again:
  assumes "commit_ledger sha256 sn ld = Inr sn'"
  shows "commit_ledger sha256 sn' (ledger_of sn') = Inr sn'"
proof -
  from assms have "require_budget_snapshot sha256 (ld_states ld) (ld_pools ld) (ld_events ld) = Inr ()"
    by (auto simp: commit_ledger_def with_budget_entries_def res_bind_Inr_iff)
  with commit_ledger_Inr [OF assms] show ?thesis
    by (simp add: commit_ledger_def with_budget_entries_def)
qed

lemma reservations_of_append:
  "\<forall>e \<in> snd ` set new. ev_transition e \<noteq> RESERVE \<Longrightarrow>
     reservations_of (events @ new) op = reservations_of events op"
  by (auto simp: reservations_of_def dict_values_def filter_empty_conv)

text \<open>
  The first commit wins. Once an operation is committed, a commit of it with any other
  complete measurement, evidence or generation succeeds without changing anything.
\<close>

lemma commit_first_wins:
  assumes bal: "books_balanced sha256 (ledger_of sn)" and op: "open_operation op generation sn"
    and run: "commit_participant_resource_reservation sha256 sn op generation measured evidence = Inr res"
    and ok: "ar_success res"
    and again: "valid_measurement_vector (reservations_of (sn_events sn) op) measured' evidence'"
  shows "commit_participant_resource_reservation sha256 (ar_snapshot res) op generation' measured' evidence' =
    Inr (apply_ok (ar_snapshot res))"
proof -
  let ?rs = "reservations_of (sn_events sn) op"
  have some: "?rs \<noteq> []" using op by (simp add: open_operation_def)
  from run obtain rs where "operation_reservations (sn_events sn) op = Inr rs"
    unfolding commit_participant_resource_reservation_def by (rule res_bind_InrE)
  then have checked: "\<forall>r \<in> set ?rs. check_event r = Inr ()" by (simp add: operation_reservations_Inr)
  from run some show ?thesis
  proof (cases rule: commit_cases)
    case (committed ld sn')
    note pass = committed_pass [OF bal op committed(1,2)]
    have sn': "ar_snapshot res = sn'" "ledger_of sn' = ld" "sn_events sn' = ld_events ld"
      using commit_ledger_Inr [OF committed(3)] committed(4) by (simp_all add: apply_ok_def)
    from pass obtain new where "ld_events ld = sn_events sn @ new" "\<forall>e \<in> snd ` set new. ev_transition e \<noteq> RESERVE"
      by (auto simp: settled_pass_def)
    then have same: "reservations_of (ld_events ld) op = ?rs" by (simp add: reservations_of_append)
    have idle: "commit_reservation sha256 sn' op generation' evidence' measured' r ld = Inr (Inr ld)"
      if r: "r \<in> set ?rs" for r
    proof -
      have "dict_has (ld_events ld) (operation_event_id op (ev_budget_state_ref r) ''commit'')"
        using pass r unfolding settled_pass_def by blast
      moreover obtain m where "dict_get measured' (ev_budget_state_ref r) = Some m"
        using again r by (auto simp: valid_measurement_vector_def list_all_iff split: option.splits)
      ultimately show ?thesis by (simp add: commit_reservation_def dict_item_def)
    qed
    have "operation_reservations (ld_events ld) op = Inr ?rs"
      using checked by (simp add: operation_reservations_Inr same)
    moreover have "run_outcomes (commit_reservation sha256 sn' op generation' evidence' measured') ?rs ld = Inr (Inr ld)"
      using idle by (rule run_outcomes_idle)
    ultimately show ?thesis using some again commit_ledger_again [OF committed(3)]
      by (simp add: commit_participant_resource_reservation_def sn' finish_def)
  qed (use ok in \<open>simp_all add: apply_failed_def\<close>)
qed

section \<open>Release\<close>

lemma release_cases:
  assumes run: "release_participant_resource_reservation sha256 sn op generation evidence = Inr res"
    and some: "reservations_of (sn_events sn) op \<noteq> []"
  obtains (stale) r where "r \<in> set (reservations_of (sn_events sn) op)"
        and "res = apply_failed sn ''runtime.participant-resource-stale-generation'' (ev_policy_address r)"
    | (released) ld sn' where "run_outcomes (release_reservation sha256 sn op generation evidence)
          (reservations_of (sn_events sn) op) (ledger_of sn) = Inr (Inr ld)"
        and "commit_ledger sha256 sn ld = Inr sn'" and "res = apply_ok sn'"
proof -
  let ?rs = "reservations_of (sn_events sn) op"
  from run obtain rs where rs: "operation_reservations (sn_events sn) op = Inr rs"
    and rest: "(if rs = [] then Inr (apply_ok sn)
       else finish sha256 sn (run_outcomes (release_reservation sha256 sn op generation evidence)
                rs (ledger_of sn))) = Inr res"
    unfolding release_participant_resource_reservation_def by (rule res_bind_InrE)
  have "rs = ?rs" using rs by (simp add: operation_reservations_Inr)
  with rest some have "finish sha256 sn (run_outcomes (release_reservation sha256 sn op generation evidence)
        ?rs (ledger_of sn)) = Inr res" by simp
  then show thesis
  proof (cases rule: finish_cases)
    case failed
    from run_outcomes_failure [OF this] show thesis using stale settle_failure(2) by blast
  next
    case (finished ld sn')
    then show thesis by (intro released)
  qed
qed

lemma released_pass:
  assumes bal: "books_balanced sha256 (ledger_of sn)" and op: "open_operation op generation sn"
    and run: "run_outcomes (release_reservation sha256 sn op generation evidence)
          (reservations_of (sn_events sn) op) (ledger_of sn) = Inr (Inr ld)"
  shows "settled_pass sha256 op generation ''release'' (\<lambda>r. 0)
    (reservations_of (sn_events sn) op) (ledger_of sn) ld"
proof (rule settle_pass [OF run bal])
  show "\<forall>r \<in> set (reservations_of (sn_events sn) op). outstanding op generation (ledger_of sn) r \<and>
      0 \<le> (0::int) \<and> 0 \<le> ev_requested r"
  proof
    fix r assume r: "r \<in> set (reservations_of (sn_events sn) op)"
    then have "0 \<le> ev_requested r"
      using events_wf_get(2) [OF _ events_wf_value, of "sn_events sn" r] balanced_events [OF bal]
      by (simp add: in_reservations_of)
    with r op show "outstanding op generation (ledger_of sn) r \<and> 0 \<le> (0::int) \<and> 0 \<le> ev_requested r"
      by (simp add: open_operation_def list_all_iff)
  qed
  show "distinct (map ev_budget_state_ref (reservations_of (sn_events sn) op))"
    using balanced_events [OF bal] by (intro reservations_refs_distinct) simp
  show "settles sha256 op generation ''release'' 0 evidence r ld1 ld2"
    if bal1: "books_balanced sha256 ld1"
      and step: "release_reservation sha256 sn op generation evidence r ld1 = Inr (Inr ld2)"
      and out: "outstanding op generation ld1 r" for r ld1 ld2
    using balanced_keyed [OF bal1] step
  proof (cases rule: release_reservation_cases)
    case again
    with out show ?thesis by (auto simp: outstanding_def settled_def)
  next
    case settled
    then show ?thesis .
  qed
qed simp

lemma release_balanced:
  assumes bal: "books_balanced sha256 (ledger_of sn)" and op: "open_operation op generation sn"
    and run: "release_participant_resource_reservation sha256 sn op generation evidence = Inr res"
  shows "books_balanced sha256 (ledger_of (ar_snapshot res))"
proof -
  have "reservations_of (sn_events sn) op \<noteq> []" using op by (simp add: open_operation_def)
  with run show ?thesis
  proof (cases rule: release_cases)
    case (released ld sn')
    with released_pass [OF bal op released(1)] commit_ledger_Inr [OF released(2)] show ?thesis
      by (simp add: settled_pass_def apply_ok_def)
  qed (use bal in \<open>simp_all add: apply_failed_def\<close>)
qed

text \<open>
  A release gives back exactly what the operation had reserved and uses nothing: every
  reservation's requested amount leaves the reserved amount of its budget, the current and
  cumulative use stay, all other budgets are untouched and the books stay balanced; or the
  snapshot is the one given.
\<close>

lemma release_frees_vector:
  assumes bal: "books_balanced sha256 (ledger_of sn)" and op: "open_operation op generation sn"
    and run: "release_participant_resource_reservation sha256 sn op generation evidence = Inr res"
  shows "if ar_success res
    then books_balanced sha256 (ledger_of (ar_snapshot res)) \<and>
      (\<forall>r \<in> set (reservations_of (sn_events sn) op).
         moves generation (ledger_of sn) (ledger_of (ar_snapshot res)) 0 r \<and>
         dict_has (sn_events (ar_snapshot res)) (operation_event_id op (ev_budget_state_ref r) ''release'')) \<and>
      (\<forall>ref. ref \<notin> ev_budget_state_ref ` set (reservations_of (sn_events sn) op) \<longrightarrow>
         dict_get (sn_states (ar_snapshot res)) ref = dict_get (sn_states sn) ref)
    else ar_snapshot res = sn \<and> ar_diagnostics res \<noteq> []"
proof -
  have "reservations_of (sn_events sn) op \<noteq> []" using op by (simp add: open_operation_def)
  with run show ?thesis
  proof (cases rule: release_cases)
    case (released ld sn')
    have eqs: "ar_success res" "ledger_of (ar_snapshot res) = ld" "sn_states (ar_snapshot res) = ld_states ld"
      "sn_events (ar_snapshot res) = ld_events ld"
      using commit_ledger_Inr [OF released(2)] released(3) by (simp_all add: apply_ok_def)
    from released_pass [OF bal op released(1)] show ?thesis by (simp add: eqs settled_pass_def)
  qed (simp_all add: apply_failed_def)
qed

section \<open>Fencing\<close>

text \<open>
  Every reservation of the operation is open, and every budget it draws on has moved on from
  the generation the caller names.
\<close>

definition left_behind :: "string \<Rightarrow> int \<Rightarrow> 'rest budget_snapshot \<Rightarrow> bool" where
  "left_behind op generation sn \<longleftrightarrow> reservations_of (sn_events sn) op \<noteq> [] \<and>
     list_all (\<lambda>r. \<not> settled (sn_events sn) r \<and>
         (case dict_get (sn_states sn) (ev_budget_state_ref r) of
            None \<Rightarrow> False | Some s \<Rightarrow> bs_generation s \<noteq> generation))
       (reservations_of (sn_events sn) op)"

lemma snapshot_valid_checks:
  assumes "snapshot_valid sha256 sn"
  shows "dict_get (sn_states sn) ref = Some s \<Longrightarrow> check_budget_state s = Inr ()"
    and "e \<in> set (dict_values (sn_events sn)) \<Longrightarrow> check_event e = Inr ()"
proof -
  have snap: "require_budget_snapshot sha256 (sn_states sn) (sn_pools sn) (sn_events sn) = Inr ()"
    using assms by (simp add: snapshot_valid_def)
  show "check_budget_state s = Inr ()" if "dict_get (sn_states sn) ref = Some s"
    using snap dict_get_Some_in [OF that]
    by (auto simp: require_budget_snapshot_def res_bind_Inr_iff res_all_Inr)
  show "check_event e = Inr ()" if "e \<in> set (dict_values (sn_events sn))"
    using snap that by (fastforce simp: require_budget_snapshot_def res_bind_Inr_iff res_all_Inr dict_values_def)
qed

text \<open>
  Neither the commit nor the release of such a caller changes the snapshot: both return a
  failure and neither raises.
\<close>

lemma late_settlement_fenced:
  assumes valid: "snapshot_valid sha256 sn" and late: "left_behind op generation sn"
  shows "(\<exists>code address. commit_participant_resource_reservation sha256 sn op generation measured evidence =
        Inr (apply_failed sn code address)) \<and>
    (\<exists>address. release_participant_resource_reservation sha256 sn op generation evidence =
        Inr (apply_failed sn ''runtime.participant-resource-stale-generation'' address))"
proof -
  let ?rs = "reservations_of (sn_events sn) op"
  obtain r rs where rs: "?rs = r # rs" using late by (cases ?rs) (auto simp: left_behind_def)
  then have r: "r \<in> set ?rs" by simp
  with late obtain s where open_r: "\<not> settled (sn_events sn) r"
    and s: "dict_get (sn_states sn) (ev_budget_state_ref r) = Some s" "bs_generation s \<noteq> generation"
    by (auto simp: left_behind_def list_all_iff split: option.splits)
  have op: "ev_operation_id r = op" using r by (simp add: in_reservations_of)
  have read: "read_state s = Inr s" using snapshot_valid_checks(1) [OF valid s(1)] by (simp add: read_state_def)
  have reads: "operation_reservations (sn_events sn) op = Inr ?rs"
    using snapshot_valid_checks(2) [OF valid] by (auto simp: operation_reservations_Inr in_reservations_of)
  let ?stale = "apply_failed sn ''runtime.participant-resource-stale-generation'' (ev_policy_address r)"
  have "release_reservation sha256 sn op generation evidence r (ledger_of sn) = Inr (Inl ?stale)"
    using open_r op s read by (simp add: release_reservation_def settled_def Let_def dict_item_def del: read_Inr)
  then have "release_participant_resource_reservation sha256 sn op generation evidence = Inr ?stale"
    by (simp add: release_participant_resource_reservation_def reads rs finish_def)
  moreover have "\<exists>code address. commit_participant_resource_reservation sha256 sn op generation measured evidence =
        Inr (apply_failed sn code address)"
  proof (cases "valid_measurement_vector ?rs measured evidence")
    case True
    then obtain m where "dict_get measured (ev_budget_state_ref r) = Some m"
      using r by (auto simp: valid_measurement_vector_def list_all_iff split: option.splits)
    then have "commit_reservation sha256 sn op generation evidence measured r (ledger_of sn) = Inr (Inl ?stale)"
      using open_r op s read by (simp add: commit_reservation_def settled_def Let_def dict_item_def del: read_Inr)
    with True have "commit_participant_resource_reservation sha256 sn op generation measured evidence = Inr ?stale"
      by (simp add: commit_participant_resource_reservation_def reads rs finish_def)
    then show ?thesis by blast
  next
    case False
    then show ?thesis by (auto simp: commit_participant_resource_reservation_def reads rs)
  qed
  ultimately show ?thesis by blast
qed

end
