(* ===== verification/Budget_Reconcile.thy ===== *)
theory Budget_Reconcile
  imports Budget_Commit
begin

text \<open>
  Reconciliation moves the budgets of one policy to a later generation: open reservations of the
  old generation are forgotten, use is cleared at the boundary a budget resets on, the books stay
  balanced, and callers of the old generation are fenced off.
\<close>

section \<open>One budget\<close>

definition reconciled_state :: "string \<Rightarrow> int \<Rightarrow> reset_mode \<Rightarrow> string list \<Rightarrow> string \<Rightarrow> budget_state \<Rightarrow> budget_state" where
  "reconciled_state policy_address next_generation boundary evidence ref s =
     s\<lparr>bs_generation := next_generation, bs_reserved := 0,
       bs_current_use := if bs_reset s = boundary then 0 else bs_current_use s,
       bs_cumulative_use := if bs_reset s = boundary then 0 else bs_cumulative_use s,
       bs_status := STATUS_RECONCILED,
       bs_last_event_ref := reconcile_operation_id policy_address next_generation @ '':'' @ ref,
       bs_evidence_refs := fromkeys (bs_evidence_refs s @ evidence)\<rparr>"

lemma reconcile_state_Inr:
  assumes run: "reconcile_state sha256 policy next boundary evidence ld (ref, s) = Inr ld'"
    and ref: "bs_state_ref s = ref"
  obtains p a e where "dict_get (ld_pools ld) (pool_ref_for_state sha256 s) = Some p" and "allocation_at p ref = Some a"
    and "check_event e = Inr ()" and "ev_transition e = RECONCILE"
    and "ev_event_id e = reconcile_operation_id policy next @ '':'' @ ref"
    and "ld' = ld\<lparr>ld_states := dict_set ref (reconciled_state policy next boundary evidence ref s) (ld_states ld),
        ld_pools := dict_set (pool_ref_for_state sha256 s)
          (set_allocation ref (a\<lparr>al_generation := next, al_reserved := 0,
              al_current_use := if bs_reset s = boundary then 0 else al_current_use a,
              al_cumulative_use := if bs_reset s = boundary then 0 else al_cumulative_use a\<rparr>) p) (ld_pools ld),
        ld_events := dict_set (reconcile_operation_id policy next @ '':'' @ ref) e (ld_events ld)\<rparr>"
proof -
  let ?k = "reconcile_operation_id policy next @ '':'' @ ref"
  note run1 = run [unfolded reconcile_state_def prod.case Let_def]
  from run1 obtain e where e: "operation_event ?k (reconcile_operation_id policy next) (bs_budget_id s) policy s next
      RECONCILE 0 (Some 0) (bs_last_event_ref s) evidence ref = Inr e"
    by (auto elim!: res_bind_InrE)
  note run2 = run1 [unfolded e res_bind.simps]
  from run2 obtain p where p: "dict_get (ld_pools ld) (pool_ref_for_state sha256 s) = Some p"
    by (auto elim!: res_bind_InrE)
  note run3 = run2 [unfolded dict_item_def p option.case res_bind.simps]
  from run3 obtain p' where p': "pool_reconcile p s next (bs_reset s = boundary) = Inr p'"
    by (auto elim!: res_bind_InrE)
  from p' obtain a where a: "allocation_at p ref = Some a" "p' = set_allocation ref (a\<lparr>al_generation := next,
              al_reserved := 0, al_current_use := if bs_reset s = boundary then 0 else al_current_use a,
              al_cumulative_use := if bs_reset s = boundary then 0 else al_cumulative_use a\<rparr>) p"
    by (auto simp: pool_update_cases ref)
  from run3 p' have ld': "ld' = ld\<lparr>ld_states := dict_set ref (reconciled_state policy next boundary evidence ref s) (ld_states ld),
        ld_pools := dict_set (pool_ref_for_state sha256 s) p' (ld_pools ld), ld_events := dict_set ?k e (ld_events ld)\<rparr>"
    by (auto simp: reconciled_state_def elim!: res_bind_InrE)
  note ev = operation_event_Inr [OF e]
  show thesis
    using p a(1) ev ld' [unfolded a(2)] by (intro that [of p a e]) blast+
qed

text \<open>The identifier of a reconcile event ends in a budget identifier, never in a settlement suffix.\<close>

lemma reconcile_event_id_differs:
  assumes ref: "ref = participant_resource_budget_state_ref policy budget" and plain: "CHR '':'' \<notin> set budget"
    and s: "CHR '':'' \<notin> set s" "CHR ''.'' \<notin> set s"
  shows "reconcile_operation_id policy' n @ '':'' @ ref \<noteq> operation_event_id op r s"
proof
  assume eq: "reconcile_operation_id policy' n @ '':'' @ ref = operation_event_id op r s"
  let ?last = "\<lambda>w. takeWhile (\<lambda>c. c \<noteq> CHR '':'') (rev w)"
  have "?last (operation_event_id op r s) = rev s"
  proof -
    have "takeWhile (\<lambda>c. c \<noteq> CHR '':'') (rev s @ CHR '':'' # u) = rev s" for u
      using s(1) by (subst takeWhile_append2) auto
    then show ?thesis by (simp add: operation_event_id_def)
  qed
  moreover have "CHR ''.'' \<in> set (?last (reconcile_operation_id policy' n @ '':'' @ ref))"
  proof -
    have "takeWhile (\<lambda>c. c \<noteq> CHR '':'') (rev budget @ rev ''.resource-budget-state.'' @ u) =
        rev budget @ takeWhile (\<lambda>c. c \<noteq> CHR '':'') (rev ''.resource-budget-state.'' @ u)" for u
      using plain by (subst takeWhile_append2) auto
    then show ?thesis by (simp add: ref participant_resource_budget_state_ref_def)
  qed
  ultimately have "CHR ''.'' \<in> set (rev s)" using eq by (simp only:)
  then show False using s(2) by simp
qed

section \<open>Balance\<close>

lemma open_total_later:
  assumes bal: "books_balanced sha256 ld" and s: "dict_get (ld_states ld) ref = Some s" and later: "bs_generation s < g"
  shows "open_total (ld_events ld) ref g = 0"
proof -
  have "open_amount (ld_events ld) ref g e = 0" if e: "e \<in> set (dict_values (ld_events ld))" for e
  proof (cases "ev_transition e = RESERVE \<and> ev_budget_state_ref e = ref")
    case True
    with e bal s have "ev_execution_generation e \<le> bs_generation s" unfolding books_balanced_def by fastforce
    with later show ?thesis by (simp add: open_amount_def)
  next
    case False
    then show ?thesis by (auto simp: open_amount_def)
  qed
  then have "map (open_amount (ld_events ld) ref g) (dict_values (ld_events ld)) =
      map (\<lambda>_. 0) (dict_values (ld_events ld))" by simp
  then show ?thesis unfolding open_total_def by (simp only: sum_list_0)
qed

lemma pool_within_shrink:
  assumes within: "pool_within p" and a: "allocation_at p ref = Some a" and same: "al_protected b = al_protected a"
    and less: "allocation_use (pl_mode p) b \<le> allocation_use (pl_mode p) a"
  shows "pool_within (set_allocation ref b p)"
  using within set_allocation_totals(1) [of p ref a b] set_allocation_totals(2) [of p ref a b] a same less
  by (auto simp: pool_within_def)

lemma check_budget_state_Inr:
  assumes "check_budget_state s = Inr ()"
  shows "bs_state_ref s = participant_resource_budget_state_ref (bs_policy_address s) (bs_budget_id s)"
    and "0 \<le> bs_reserved s" and "0 \<le> bs_current_use s" and "0 \<le> bs_cumulative_use s"
  using assms by (auto simp: check_budget_state_def res_bind_Inr_iff enforce_def quantity_ok_def int_between_def
      constrain_def)

text \<open>What reconciliation leaves of the history: reservations and settlements stay as they are.\<close>

definition same_history :: "(string, budget_event) pydict \<Rightarrow> (string, budget_event) pydict \<Rightarrow> bool" where
  "same_history events events' \<longleftrightarrow>
     (\<forall>op. reservations_of events' op = reservations_of events op) \<and> (\<forall>x. settled events' x = settled events x)"

lemma reservations_of_set:
  assumes "ev_transition e \<noteq> RESERVE" and "\<And>old. dict_get events k = Some old \<Longrightarrow> ev_transition old \<noteq> RESERVE"
  shows "reservations_of (dict_set k e events) op = reservations_of events op"
  using assms
  by (induction events) (auto simp: reservations_of_def dict_set_def dict_values_def dict_get_def split: if_splits)

lemma reconcile_state_balanced:
  assumes bal: "books_balanced sha256 ld" and s: "dict_get (ld_states ld) ref = Some s"
    and checked: "check_budget_state s = Inr ()" and plain: "CHR '':'' \<notin> set (bs_budget_id s)"
    and later: "bs_generation s < next"
    and run: "reconcile_state sha256 policy next boundary evidence ld (ref, s) = Inr ld'"
  shows "books_balanced sha256 ld' \<and> same_history (ld_events ld) (ld_events ld') \<and>
    ld_states ld' = dict_set ref (reconciled_state policy next boundary evidence ref s) (ld_states ld)"
proof -
  let ?k = "reconcile_operation_id policy next @ '':'' @ ref"
  let ?s = "reconciled_state policy next boundary evidence ref s"
  have ref: "bs_state_ref s = ref" by (rule balanced_state(1) [OF bal s])
  from run ref obtain p a e where p: "dict_get (ld_pools ld) (pool_ref_for_state sha256 s) = Some p" "allocation_at p ref = Some a"
    and e: "check_event e = Inr ()" "ev_transition e = RECONCILE" "ev_event_id e = ?k"
    and ld': "ld' = ld\<lparr>ld_states := dict_set ref ?s (ld_states ld),
        ld_pools := dict_set (pool_ref_for_state sha256 s)
          (set_allocation ref (a\<lparr>al_generation := next, al_reserved := 0,
              al_current_use := if bs_reset s = boundary then 0 else al_current_use a,
              al_cumulative_use := if bs_reset s = boundary then 0 else al_cumulative_use a\<rparr>) p) (ld_pools ld),
        ld_events := dict_set ?k e (ld_events ld)\<rparr>"
    by (rule reconcile_state_Inr)
  have agree: "agrees s a" using balanced_state(2) [OF bal s] p by (auto simp: mirrored_def)
  have wf: "events_wf (ld_events ld)" by (rule balanced_events [OF bal])
  have differs: "?k \<noteq> operation_event_id op r t" if "CHR '':'' \<notin> set t" "CHR ''.'' \<notin> set t" for op r t
    by (rule reconcile_event_id_differs [OF _ plain that]) (use check_budget_state_Inr(1) [OF checked] ref in simp)
  have old: "ev_transition old \<noteq> RESERVE" if "dict_get (ld_events ld) ?k = Some old" for old
    using events_wf_get(3) [OF wf that] differs [of "''reserve''"] by (auto simp: reserve_event_id_def)
  have tot: "open_total (dict_set ?k e (ld_events ld)) ref2 g = open_total (ld_events ld) ref2 g" for ref2 g
    by (rule open_total_other [OF wf]) (use e(2) old differs [of "''commit''"] differs [of "''release''"] in auto)
  have history: "same_history (ld_events ld) (dict_set ?k e (ld_events ld))"
    using reservations_of_set [OF _ old] e(2) differs [of "''commit''"] differs [of "''release''"]
    by (simp add: same_history_def settled_set)
  show ?thesis unfolding ld'
  proof (intro conjI balanced_update [OF bal s p])
    show "agrees ?s (a\<lparr>al_generation := next, al_reserved := 0,
              al_current_use := if bs_reset s = boundary then 0 else al_current_use a,
              al_cumulative_use := if bs_reset s = boundary then 0 else al_cumulative_use a\<rparr>)"
      using agree by (simp add: agrees_def reconciled_state_def)
    show "pool_within (set_allocation ref (a\<lparr>al_generation := next, al_reserved := 0,
              al_current_use := if bs_reset s = boundary then 0 else al_current_use a,
              al_cumulative_use := if bs_reset s = boundary then 0 else al_cumulative_use a\<rparr>) p)"
      by (rule pool_within_shrink [OF balanced_pool(2) [OF bal p(1)] p(2)])
        (use agree check_budget_state_Inr(2-4) [OF checked] in \<open>auto simp: allocation_use_def agrees_def\<close>)
    show "events_wf (dict_set ?k e (ld_events ld))"
      using e check_event_requested by (intro events_wf_set wf) auto
    show "open_total (dict_set ?k e (ld_events ld)) ref (bs_generation ?s) = bs_reserved ?s"
      unfolding tot using open_total_later [OF bal s later] by (simp add: reconciled_state_def)
    show "open_total (dict_set ?k e (ld_events ld)) ref2 (bs_generation s2) =
        open_total (ld_events ld) ref2 (bs_generation s2)" for ref2 s2 by (rule tot)
    show "e2 \<in> set (dict_values (ld_events ld)) \<or> (ev_budget_state_ref e2 = ref \<and> ev_execution_generation e2 \<le> bs_generation ?s)"
      if "e2 \<in> set (dict_values (dict_set ?k e (ld_events ld)))" "ev_transition e2 = RESERVE" for e2
      using that e(2) by (auto dest: dict_values_set)
  qed (use later history in \<open>simp_all add: reconciled_state_def pool_ref_for_state_def\<close>)
qed

section \<open>One policy\<close>

lemma reconcile_pass:
  assumes "books_balanced sha256 ld" and "distinct (map fst selected)"
    and "\<forall>(ref, s) \<in> set selected. dict_get (ld_states ld) ref = Some s \<and> check_budget_state s = Inr () \<and>
      CHR '':'' \<notin> set (bs_budget_id s) \<and> bs_generation s < next"
    and "res_fold (reconcile_state sha256 policy next boundary evidence) ld selected = Inr ld'"
  shows "books_balanced sha256 ld' \<and> same_history (ld_events ld) (ld_events ld') \<and>
    (\<forall>(ref, s) \<in> set selected.
       dict_get (ld_states ld') ref = Some (reconciled_state policy next boundary evidence ref s)) \<and>
    (\<forall>ref. ref \<notin> fst ` set selected \<longrightarrow> dict_get (ld_states ld') ref = dict_get (ld_states ld) ref)"
  using assms
proof (induction selected arbitrary: ld)
  case Nil
  then show ?case by (simp add: same_history_def)
next
  case (Cons x selected)
  obtain ref s where x: "x = (ref, s)" by (cases x)
  from Cons.prems(4) x obtain ld1 where
    step: "reconcile_state sha256 policy next boundary evidence ld (ref, s) = Inr ld1"
    and rest: "res_fold (reconcile_state sha256 policy next boundary evidence) ld1 selected = Inr ld'"
    by (auto elim!: res_bind_InrE)
  have s: "dict_get (ld_states ld) ref = Some s" "check_budget_state s = Inr ()"
    "CHR '':'' \<notin> set (bs_budget_id s)" "bs_generation s < next" and own: "ref \<notin> fst ` set selected"
    using Cons.prems(2,3) x by auto
  from reconcile_state_balanced [OF Cons.prems(1) s step] have bal1: "books_balanced sha256 ld1"
    and history1: "same_history (ld_events ld) (ld_events ld1)" and states1: "ld_states ld1 = dict_set ref (reconciled_state policy next boundary evidence ref s) (ld_states ld)"
    by simp_all
  have "\<forall>(ref2, s2) \<in> set selected. dict_get (ld_states ld1) ref2 = Some s2 \<and> check_budget_state s2 = Inr () \<and>
      CHR '':'' \<notin> set (bs_budget_id s2) \<and> bs_generation s2 < next"
  proof (clarify)
    fix ref2 s2 assume mem: "(ref2, s2) \<in> set selected"
    then have "ref \<noteq> ref2" using own by force
    with mem Cons.prems(3) show "dict_get (ld_states ld1) ref2 = Some s2 \<and> check_budget_state s2 = Inr () \<and>
      CHR '':'' \<notin> set (bs_budget_id s2) \<and> bs_generation s2 < next" by (auto simp: states1)
  qed
  from Cons.IH [OF bal1 _ this rest] Cons.prems(2)
  have IH: "books_balanced sha256 ld'"
    "\<forall>(ref, s) \<in> set selected.
       dict_get (ld_states ld') ref = Some (reconciled_state policy next boundary evidence ref s)"
    "\<forall>ref. ref \<notin> fst ` set selected \<longrightarrow> dict_get (ld_states ld') ref = dict_get (ld_states ld1) ref"
    "same_history (ld_events ld1) (ld_events ld')"
    by simp_all
  from IH(3) own have mine: "dict_get (ld_states ld') ref = Some (reconciled_state policy next boundary evidence ref s)"
    by (simp add: states1)
  from IH(3) have "\<forall>r. r \<notin> insert ref (fst ` set selected) \<longrightarrow> dict_get (ld_states ld') r = dict_get (ld_states ld) r"
    by (simp add: states1)
  moreover have "same_history (ld_events ld) (ld_events ld')"
    using history1 IH(4) by (simp add: same_history_def)
  ultimately show ?case using IH(1,2) mine by (simp add: x)
qed

definition policy_budgets :: "'rest budget_snapshot \<Rightarrow> string \<Rightarrow> (string \<times> budget_state) list" where
  "policy_budgets sn policy = filter (\<lambda>p. bs_policy_address (snd p) = policy) (sn_states sn)"

definition plain_budget_ids :: "'rest budget_snapshot \<Rightarrow> string \<Rightarrow> bool" where
  "plain_budget_ids sn policy \<longleftrightarrow>
     list_all (\<lambda>p. CHR '':'' \<notin> set (bs_budget_id (snd p))) (policy_budgets sn policy)"

lemma reconcile_cases:
  assumes run: "reconcile_participant_resource_budgets sha256 sn policy current next boundary evidence = Inr res"
  obtains (stale) "\<exists>(ref, s) \<in> set (policy_budgets sn policy). bs_generation s \<noteq> current"
      and "res = apply_failed sn ''runtime.participant-resource-stale-generation'' policy"
    | (moved) ld sn' where "current < next"
        and "\<forall>(ref, s) \<in> set (policy_budgets sn policy). bs_generation s = current \<and> check_budget_state s = Inr ()"
        and "res_fold (reconcile_state sha256 policy next boundary evidence) (ledger_of sn) (policy_budgets sn policy) = Inr ld"
        and "commit_ledger sha256 sn ld = Inr sn'" and "res = apply_ok sn'"
proof -
  have later: "current < next" using run
    by (auto simp: reconcile_participant_resource_budgets_def split: if_splits)
  note run1 = run [unfolded reconcile_participant_resource_budgets_def if_not_P [OF later [folded not_le]]
      policy_budgets_def [symmetric]]
  have read: "list_all2 (\<lambda>x y. res_bind (read_state (snd x)) (\<lambda>s. Inr (fst x, s)) = Inr y) xs ys \<longleftrightarrow>
      (\<forall>x \<in> set xs. check_budget_state (snd x) = Inr ()) \<and> ys = xs" for xs ys
    by (induction xs arbitrary: ys) (auto simp: list_all2_Cons1 res_bind_Inr_iff)
  from run1 obtain selected where
    sel: "res_map (\<lambda>p. res_bind (read_state (snd p)) (\<lambda>s. Inr (fst p, s))) (policy_budgets sn policy) = Inr selected"
    and rest: "(if list_ex (\<lambda>p. bs_generation (snd p) \<noteq> current) selected
        then Inr (apply_failed sn ''runtime.participant-resource-stale-generation'' policy)
        else
          res_bind (res_fold (reconcile_state sha256 policy next boundary evidence) (ledger_of sn) selected) (\<lambda>ld.
          res_bind (commit_ledger sha256 sn ld) (\<lambda>sn'. Inr (apply_ok sn')))) = Inr res"
    by (rule res_bind_InrE)
  from sel have selected: "selected = policy_budgets sn policy"
    "\<forall>x \<in> set (policy_budgets sn policy). check_budget_state (snd x) = Inr ()"
    by (auto simp: res_map_Inr read)
  show thesis
  proof (cases "list_ex (\<lambda>p. bs_generation (snd p) \<noteq> current) selected")
    case True
    with rest show thesis by (intro stale) (auto simp: selected(1) list_ex_iff case_prod_unfold)
  next
    case False
    with rest obtain ld sn' where
      "res_fold (reconcile_state sha256 policy next boundary evidence) (ledger_of sn) selected = Inr ld"
      "commit_ledger sha256 sn ld = Inr sn'" "res = apply_ok sn'"
      by (auto elim!: res_bind_InrE)
    with False selected later show thesis
      by (intro moved) (auto simp: list_ex_iff case_prod_unfold)
  qed
qed

lemma policy_budgets_get:
  assumes "wf_dict (sn_states sn)"
  shows "(ref, s) \<in> set (policy_budgets sn policy) \<longleftrightarrow>
    dict_get (sn_states sn) ref = Some s \<and> bs_policy_address s = policy"
  using assms by (auto simp: policy_budgets_def dict_get_eq_Some)

lemma policy_budgets_distinct: "wf_dict (sn_states sn) \<Longrightarrow> distinct (map fst (policy_budgets sn policy))"
  unfolding policy_budgets_def wf_dict_def dict_keys_def by (rule distinct_map_filter)

lemma policy_reconciled:
  assumes bal: "books_balanced sha256 (ledger_of sn)" and plain: "plain_budget_ids sn policy"
    and run: "reconcile_participant_resource_budgets sha256 sn policy current next boundary evidence = Inr res"
    and ok: "ar_success res"
  shows "books_balanced sha256 (ledger_of (ar_snapshot res)) \<and>
    same_history (sn_events sn) (sn_events (ar_snapshot res)) \<and>
    commit_ledger sha256 (ar_snapshot res) (ledger_of (ar_snapshot res)) = Inr (ar_snapshot res) \<and>
    current < next \<and> (\<forall>(ref, s) \<in> set (policy_budgets sn policy). bs_generation s = current) \<and>
    (\<forall>ref. dict_get (sn_states (ar_snapshot res)) ref =
       map_option (\<lambda>s. if bs_policy_address s = policy then reconciled_state policy next boundary evidence ref s else s)
         (dict_get (sn_states sn) ref))"
  using run
proof (cases rule: reconcile_cases)
  case stale
  with ok show ?thesis by (simp add: apply_failed_def)
next
  case (moved ld sn')
  have wf: "wf_dict (sn_states sn)" using bal by (simp add: books_balanced_def)
  have sel: "\<forall>(ref, s) \<in> set (policy_budgets sn policy). dict_get (ld_states (ledger_of sn)) ref = Some s \<and>
      check_budget_state s = Inr () \<and> CHR '':'' \<notin> set (bs_budget_id s) \<and> bs_generation s < next"
    using moved(1,2) plain by (auto simp: policy_budgets_get [OF wf] plain_budget_ids_def list_all_iff)
  note pass = reconcile_pass [OF bal policy_budgets_distinct [OF wf] sel moved(3)]
  have eqs: "ar_snapshot res = sn'" "ledger_of sn' = ld" "sn_states sn' = ld_states ld" "sn_events sn' = ld_events ld"
    using commit_ledger_Inr [OF moved(4)] moved(5) by (simp_all add: apply_ok_def)
  have "dict_get (ld_states ld) ref =
      map_option (\<lambda>s. if bs_policy_address s = policy then reconciled_state policy next boundary evidence ref s else s)
        (dict_get (sn_states sn) ref)" for ref
  proof (cases "ref \<in> fst ` set (policy_budgets sn policy)")
    case True
    then obtain s where s: "(ref, s) \<in> set (policy_budgets sn policy)" by auto
    with pass have "dict_get (ld_states ld) ref = Some (reconciled_state policy next boundary evidence ref s)" by blast
    with s show ?thesis by (simp add: policy_budgets_get [OF wf])
  next
    case False
    with pass have same: "dict_get (ld_states ld) ref = dict_get (sn_states sn) ref" by simp
    have "bs_policy_address s \<noteq> policy" if "dict_get (sn_states sn) ref = Some s" for s
      using False that policy_budgets_get [OF wf, of ref s policy] by force
    with same show ?thesis by (cases "dict_get (sn_states sn) ref") simp_all
  qed
  with pass moved(1,2) commit_ledger_again [OF moved(4)] show ?thesis by (auto simp: eqs)
qed

lemma reconcile_balanced:
  assumes bal: "books_balanced sha256 (ledger_of sn)" and plain: "plain_budget_ids sn policy"
    and run: "reconcile_participant_resource_budgets sha256 sn policy current next boundary evidence = Inr res"
  shows "books_balanced sha256 (ledger_of (ar_snapshot res))"
proof (cases "ar_success res")
  case True
  with policy_reconciled [OF assms] show ?thesis by blast
next
  case False
  with run have "ar_snapshot res = sn"
    by (cases rule: reconcile_cases) (auto simp: apply_failed_def apply_ok_def)
  with bal show ?thesis by simp
qed

text \<open>
  C8. Reconciliation advances a policy as one, when the books are balanced and its budget
  identifiers contain no colon: on success every budget of the policy was in the
  generation named and is now in the next one with nothing reserved, its use cleared if it
  resets on this boundary and kept otherwise; every other budget is as before, no budget
  appears, and the books stay balanced. On failure nothing changed.
\<close>

theorem reconcile_advances_policy:
  assumes bal: "books_balanced sha256 (ledger_of sn)" and plain: "plain_budget_ids sn policy"
    and run: "reconcile_participant_resource_budgets sha256 sn policy current next boundary evidence = Inr res"
  shows "if ar_success res
    then books_balanced sha256 (ledger_of (ar_snapshot res)) \<and> current < next \<and>
      (\<forall>ref. case dict_get (sn_states sn) ref of
           None \<Rightarrow> dict_get (sn_states (ar_snapshot res)) ref = None
         | Some s \<Rightarrow> (\<exists>s'. dict_get (sn_states (ar_snapshot res)) ref = Some s' \<and>
             (if bs_policy_address s = policy
              then bs_generation s = current \<and>
                quantities s' = (next, 0, if bs_reset s = boundary then 0 else bs_current_use s,
                  if bs_reset s = boundary then 0 else bs_cumulative_use s)
              else s' = s)))
    else ar_snapshot res = sn \<and> ar_diagnostics res \<noteq> []"
proof (cases "ar_success res")
  case True
  note r = policy_reconciled [OF bal plain run True]
  have wf: "wf_dict (sn_states sn)" using bal by (simp add: books_balanced_def)
  have gen: "bs_generation s = current"
    if "dict_get (sn_states sn) ref = Some s" "bs_policy_address s = policy" for ref s
    using r that policy_budgets_get [OF wf, of ref s policy] by blast
  have states: "dict_get (sn_states (ar_snapshot res)) ref =
       map_option (\<lambda>s. if bs_policy_address s = policy then reconciled_state policy next boundary evidence ref s else s)
         (dict_get (sn_states sn) ref)" for ref using r by blast
  have "case dict_get (sn_states sn) ref of
           None \<Rightarrow> dict_get (sn_states (ar_snapshot res)) ref = None
         | Some s \<Rightarrow> (\<exists>s'. dict_get (sn_states (ar_snapshot res)) ref = Some s' \<and>
             (if bs_policy_address s = policy
              then bs_generation s = current \<and>
                quantities s' = (next, 0, if bs_reset s = boundary then 0 else bs_current_use s,
                  if bs_reset s = boundary then 0 else bs_cumulative_use s)
              else s' = s))" for ref
    using gen by (cases "dict_get (sn_states sn) ref") (auto simp: states quantities_def reconciled_state_def)
  with r True show ?thesis by simp
next
  case False
  with run show ?thesis
    by (cases rule: reconcile_cases) (auto simp: apply_failed_def apply_ok_def)
qed

section \<open>Fencing\<close>

lemma snapshot_valid_committed:
  assumes bal: "books_balanced sha256 (ledger_of sn)" and again: "commit_ledger sha256 sn (ledger_of sn) = Inr sn"
  shows "snapshot_valid sha256 sn"
proof -
  have "require_budget_snapshot sha256 (sn_states sn) (sn_pools sn) (sn_events sn) = Inr ()"
    using again by (auto simp: commit_ledger_def with_budget_entries_def res_bind_Inr_iff)
  moreover have "wf_dict (pl_allocations p)" if "(ref, p) \<in> set (sn_pools sn)" for ref p
  proof -
    have "dict_get (ld_pools (ledger_of sn)) ref = Some p"
      using bal that by (simp add: books_balanced_def dict_get_eq_Some)
    then show ?thesis using balanced_pool(2) [OF bal] by (simp add: pool_within_def pool_wf_def)
  qed
  ultimately show ?thesis using bal
    by (auto simp: snapshot_valid_def books_balanced_def events_wf_def)
qed

text \<open>
  Reconciliation fences off the callers of the old generation: an operation that reserved
  budgets of the policy in that generation and did not settle in time can neither commit nor
  release any more. Both calls return a failure, neither raises, and the snapshot stays as the
  reconciliation left it, whatever the caller measured.
\<close>

lemma reconcile_fences_callers:
  assumes bal: "books_balanced sha256 (ledger_of sn)" and plain: "plain_budget_ids sn policy"
    and run: "reconcile_participant_resource_budgets sha256 sn policy current next boundary evidence = Inr res"
    and ok: "ar_success res" and op: "open_operation op current sn"
    and own: "\<forall>r \<in> set (reservations_of (sn_events sn) op).
      ev_budget_state_ref r \<in> fst ` set (policy_budgets sn policy)"
  shows "(\<exists>code address. commit_participant_resource_reservation sha256 (ar_snapshot res) op current measured witness =
        Inr (apply_failed (ar_snapshot res) code address)) \<and>
    (\<exists>address. release_participant_resource_reservation sha256 (ar_snapshot res) op current witness =
        Inr (apply_failed (ar_snapshot res) ''runtime.participant-resource-stale-generation'' address))"
proof (rule late_settlement_fenced)
  note r = policy_reconciled [OF bal plain run ok]
  show "snapshot_valid sha256 (ar_snapshot res)" by (rule snapshot_valid_committed) (use r in blast)+
  have wf: "wf_dict (sn_states sn)" using bal by (simp add: books_balanced_def)
  have hist: "reservations_of (sn_events (ar_snapshot res)) op = reservations_of (sn_events sn) op"
    "settled (sn_events (ar_snapshot res)) x = settled (sn_events sn) x" for x
    using r by (simp_all add: same_history_def)
  have moved: "\<exists>s. dict_get (sn_states (ar_snapshot res)) (ev_budget_state_ref e) = Some s \<and> bs_generation s \<noteq> current"
    if "e \<in> set (reservations_of (sn_events sn) op)" for e
  proof -
    from own that obtain s where "(ev_budget_state_ref e, s) \<in> set (policy_budgets sn policy)" by force
    then have "dict_get (sn_states sn) (ev_budget_state_ref e) = Some s" "bs_policy_address s = policy"
      by (simp_all add: policy_budgets_get [OF wf])
    with r show ?thesis by (simp add: reconciled_state_def)
  qed
  show "left_behind op current (ar_snapshot res)"
    using op moved unfolding left_behind_def hist
    by (fastforce simp: open_operation_def list_all_iff outstanding_def split: option.splits)
qed

end
