(* ===== verification/Budget_Init.thy ===== *)
theory Budget_Init
  imports Budget_Reconcile
begin

text \<open>
  Initialisation opens the accounts of admitted policies, and with it the life of a snapshot:
  the step relation of all five budget operations, and the invariants of every snapshot they
  reach from one without budgets.
\<close>

section \<open>Opening one account\<close>

lemma balanced_add:
  assumes bal: "books_balanced sha256 ld" and none: "dict_get (ld_states ld) (bs_state_ref s) = None"
    and zero: "bs_reserved s = 0" and k: "k = pool_ref_for_state sha256 s" "pl_state_ref p = k"
    and p: "dict_get (ld_pools ld) k = Some p \<or> dict_get (ld_pools ld) k = None \<and> pl_allocations p = []"
    and within: "pool_within (set_allocation (bs_state_ref s) a p)" and a: "agrees s a"
  shows "books_balanced sha256 (ld\<lparr>ld_states := dict_set (bs_state_ref s) s (ld_states ld),
    ld_pools := dict_set k (set_allocation (bs_state_ref s) a p) (ld_pools ld)\<rparr>)"
proof -
  let ?ref = "bs_state_ref s"
  let ?states = "dict_set ?ref s (ld_states ld)" and ?pools = "dict_set k (set_allocation ?ref a p) (ld_pools ld)"
  have no: "ev_transition e = RESERVE \<Longrightarrow> ev_budget_state_ref e \<noteq> ?ref" if "e \<in> set (dict_values (ld_events ld))" for e
    using bal none that unfolding books_balanced_def by fastforce
  have "map (open_amount (ld_events ld) ?ref g) (dict_values (ld_events ld)) =
      map (\<lambda>_. 0) (dict_values (ld_events ld))" for g
    using no by (auto simp: open_amount_def)
  then have tot: "open_total (ld_events ld) ?ref g = 0" for g unfolding open_total_def by (simp only: sum_list_0)
  have states: "bs_state_ref s2 = ref \<and> mirrored sha256 ?pools ref s2 \<and>
      bs_reserved s2 = open_total (ld_events ld) ref (bs_generation s2)"
    if "dict_get ?states ref = Some s2" for ref s2
  proof (cases "ref = ?ref")
    case True
    with that k a zero tot show ?thesis by (auto simp: mirrored_def)
  next
    case False
    with that have old: "dict_get (ld_states ld) ref = Some s2" by simp
    from balanced_state(2) [OF bal old] obtain q b where "dict_get (ld_pools ld) (pool_ref_for_state sha256 s2) = Some q"
      "allocation_at q ref = Some b" "agrees s2 b" by (auto simp: mirrored_def)
    moreover have "\<not> (pool_ref_for_state sha256 s2 = k \<and> pl_allocations p = [] \<and> dict_get (ld_pools ld) k = None)"
      using calculation(1) by auto
    ultimately have "mirrored sha256 ?pools ref s2"
      using p False by (cases "pool_ref_for_state sha256 s2 = k") (auto simp: mirrored_def)
    with balanced_state(1,3) [OF bal old] show ?thesis by simp
  qed
  have owned: "\<exists>s2. dict_get ?states ref = Some s2 \<and> pool_ref_for_state sha256 s2 = k2"
    if "dict_get (ld_pools ld) k2 = Some q" "allocation_at q ref = Some b" for k2 q ref b
  proof -
    from bal that obtain s2 where "dict_get (ld_states ld) ref = Some s2" "pool_ref_for_state sha256 s2 = k2"
      unfolding books_balanced_def by blast
    with none show ?thesis by (cases "ref = ?ref") auto
  qed
  have pools: "pl_state_ref q = k2 \<and> pool_within q \<and>
      (\<forall>ref b. allocation_at q ref = Some b \<longrightarrow> (\<exists>s2. dict_get ?states ref = Some s2 \<and> pool_ref_for_state sha256 s2 = k2))"
    if q: "dict_get ?pools k2 = Some q" for k2 q
  proof (cases "k2 = k")
    case True
    with q have q: "q = set_allocation ?ref a p" by simp
    have "\<exists>s2. dict_get ?states ref = Some s2 \<and> pool_ref_for_state sha256 s2 = k2"
      if b: "allocation_at q ref = Some b" for ref b
    proof (cases "ref = ?ref")
      case True
      with k \<open>k2 = k\<close> show ?thesis by simp
    next
      case False
      with b q have b': "allocation_at p ref = Some b" by simp
      then have "pl_allocations p \<noteq> []" by (auto simp: allocation_at_def)
      with p have "dict_get (ld_pools ld) k = Some p" by blast
      with b' \<open>k2 = k\<close> owned show ?thesis by blast
    qed
    with q k within True show ?thesis by simp
  next
    case False
    with q have old: "dict_get (ld_pools ld) k2 = Some q" by simp
    show ?thesis using balanced_pool [OF bal old] owned [OF old] by blast
  qed
  have evs: "\<exists>s2. dict_get ?states (ev_budget_state_ref e) = Some s2 \<and> ev_execution_generation e \<le> bs_generation s2"
    if "e \<in> set (dict_values (ld_events ld))" "ev_transition e = RESERVE" for e
    using bal that no [OF that] unfolding books_balanced_def by fastforce
  have wf: "wf_dict ?states" "wf_dict ?pools" "events_wf (ld_events ld)"
    using bal by (auto simp: books_balanced_def)
  let ?new = "ld\<lparr>ld_states := ?states, ld_pools := ?pools\<rparr>"
  have "ld_states ?new = ?states" "ld_pools ?new = ?pools" "ld_events ?new = ld_events ld" by simp_all
  then show ?thesis unfolding books_balanced_def
    by (simp only:) (intro conjI allI impI ballI wf; (rule evs | blast dest: states pools); assumption?)
qed

lemma fresh_allocation_totals:
  assumes "allocation_at p ref = None" and "pool_wf p"
  shows "pool_wf (set_allocation ref a p)"
    and "pool_allocated_total (set_allocation ref a p) = pool_allocated_total p + allocation_use (pl_mode p) a"
    and "unprotected_total (set_allocation ref a p) =
      unprotected_total p + (if al_protected a then 0 else allocation_use (pl_mode p) a)"
proof -
  have "\<not> dict_has (pl_allocations p) ref" using assms(1) by (simp add: allocation_at_def dict_get_None_iff)
  then have eq: "pl_allocations (set_allocation ref a p) = pl_allocations p @ [(ref, a)]"
    by (simp add: set_allocation_def dict_set_fresh)
  show "pool_allocated_total (set_allocation ref a p) = pool_allocated_total p + allocation_use (pl_mode p) a"
    "unprotected_total (set_allocation ref a p) =
      unprotected_total p + (if al_protected a then 0 else allocation_use (pl_mode p) a)"
    by (simp_all add: total_as_entries eq cong: if_cong)
  show "pool_wf (set_allocation ref a p)" using assms(2) by simp
qed

definition opened :: "int \<Rightarrow> budget_state \<Rightarrow> bool" where
  "opened generation s \<longleftrightarrow> quantities s = (generation, 0, 0, 0)"

lemma initialize_demand_shape:
  assumes run: "initialize_demand sha256 sn generation caps policy d ld = Inr (Inr ld')"
  obtains (existing) s where "dict_get (ld_states ld) (demand_state_ref policy d) = Some s"
      and "bs_generation s = generation" and "ld' = ld"
    | (fresh) s p p' where "dict_get (ld_states ld) (demand_state_ref policy d) = None"
      and "bs_state_ref s = demand_state_ref policy d" and "opened generation s"
      and "dict_get (ld_pools ld) (pool_ref_for_state sha256 s) = Some p \<or>
        dict_get (ld_pools ld) (pool_ref_for_state sha256 s) = None \<and> check_pool_state sha256 p = Inr () \<and>
        pl_state_ref p = pool_ref_for_state sha256 s \<and> pl_allocations p = []"
      and "ensure_allocation p s (rp_fairness policy) = Inr p'"
      and "ld' = ld\<lparr>ld_states := dict_set (demand_state_ref policy d) s (ld_states ld),
        ld_pools := dict_set (pool_ref_for_state sha256 s) p' (ld_pools ld)\<rparr>"
proof -
  let ?ref = "demand_state_ref policy d"
  from run obtain pool where pool: "matching_pool d caps = Some pool"
    by (auto simp: initialize_demand_def split: option.splits)
  note run1 = run [unfolded initialize_demand_def pool option.case]
  show thesis
  proof (cases "dict_get (ld_states ld) ?ref")
    case (Some s)
    with run1 have same: "ld' = ld" "bs_generation s = generation"
      by (auto split: if_splits elim!: res_bind_InrE)
    show thesis by (rule existing [OF Some same(2,1)])
  next
    case None
    from run1 None have new: "initialize_new_budget sha256 sn generation policy d pool ld = Inr (Inr ld')"
      by (auto split: if_splits)
    from new obtain s where s: "new_budget_state policy d pool generation = Inr s"
      unfolding initialize_new_budget_def by (rule res_bind_InrE)
    note new1 = new [unfolded initialize_new_budget_def s res_bind.simps Let_def]
    from new1 obtain p where
      p: "(case dict_get (ld_pools ld) (pool_state_ref sha256 pool) of
           None \<Rightarrow> new_pool_state sha256 pool | Some existing \<Rightarrow> read_pool sha256 existing) = Inr p"
      by (rule res_bind_InrE)
    note new2 = new1 [unfolded p res_bind.simps]
    from new2 obtain p' where p': "ensure_allocation p s (rp_fairness policy) = Inr p'"
      and ld': "ld' = ld\<lparr>ld_states := dict_set ?ref s (ld_states ld),
        ld_pools := dict_set (pool_state_ref sha256 pool) p' (ld_pools ld)\<rparr>"
      by (auto split: sum.splits)
    have sv: "bs_state_ref s = ?ref" "opened generation s"
      and quality: "bs_pool_ref s = dm_pool_ref d" "bs_owner_kind s = dm_owner_kind d" "bs_owner_ref s = dm_owner_address d"
        "bs_kind s = dm_kind d" "bs_unit s = dm_unit d" "bs_mode s = dm_mode d" "bs_meter s = dm_meter d"
      using s by (auto simp: new_budget_state_def opened_def quantities_def)
    have "pc_pool_ref pool = dm_pool_ref d \<and> pc_owner_kind pool = dm_owner_kind d \<and>
         pc_owner_ref pool = dm_owner_address d \<and> pc_kind pool = dm_kind d \<and> pc_unit pool = dm_unit d \<and>
         pc_mode pool = dm_mode d \<and> pc_meter pool = dm_meter d"
      using pool by (auto simp: matching_pool_def find_Some_iff)
    then have k: "pool_state_ref sha256 pool = pool_ref_for_state sha256 s"
      by (simp add: pool_state_ref_def pool_ref_for_state_def quality)
    have pools: "dict_get (ld_pools ld) (pool_ref_for_state sha256 s) = Some p \<or>
        dict_get (ld_pools ld) (pool_ref_for_state sha256 s) = None \<and> check_pool_state sha256 p = Inr () \<and>
        pl_state_ref p = pool_ref_for_state sha256 s \<and> pl_allocations p = []"
      using p unfolding k by (auto simp: new_pool_state_def Let_def res_bind_Inr_iff k split: option.splits)
    show thesis by (rule fresh [OF None sv pools p' ld' [unfolded k]])
  qed
qed

text \<open>A new account is an empty allocation next to those the pool has.\<close>

lemma new_account:
  assumes "ensure_allocation p s fairness = Inr p'" and "allocation_at p (bs_state_ref s) = None"
  shows "p' = set_allocation (bs_state_ref s) (new_allocation s fairness) p"
  using assms by (auto simp: ensure_allocation_def allocation_at_def set_allocation_def res_bind_Inr_iff)

lemma new_account_agrees: "opened generation s \<Longrightarrow> agrees s (new_allocation s fairness)"
  by (simp add: opened_def quantities_def agrees_def new_allocation_def)

lemma initialize_demand_cases:
  assumes bal: "books_balanced sha256 ld"
    and run: "initialize_demand sha256 sn generation caps policy d ld = Inr (Inr ld')"
  shows "books_balanced sha256 ld' \<and>
    (\<exists>s. dict_get (ld_states ld') (demand_state_ref policy d) = Some s \<and> bs_generation s = generation) \<and>
    (ld' = ld \<or> (\<exists>s. opened generation s \<and> dict_get (ld_states ld) (demand_state_ref policy d) = None \<and>
       ld_states ld' = dict_set (demand_state_ref policy d) s (ld_states ld)))"
  using run
proof (cases rule: initialize_demand_shape)
  case (existing s)
  with bal show ?thesis by simp
next
  case (fresh s p p')
  let ?ref = "demand_state_ref policy d" and ?k = "pool_ref_for_state sha256 s" and ?a = "new_allocation s (rp_fairness policy)"
  have pk: "pl_state_ref p = ?k \<and> pool_within p"
    using fresh(4)
  proof
    assume "dict_get (ld_pools ld) ?k = Some p"
    with balanced_pool [OF bal this] show ?thesis by simp
  next
    assume new: "dict_get (ld_pools ld) ?k = None \<and> check_pool_state sha256 p = Inr () \<and>
        pl_state_ref p = ?k \<and> pl_allocations p = []"
    then show ?thesis
      by (auto simp: pool_within_def pool_wf_def pool_allocated_total_def unprotected_total_def dict_values_def
          check_pool_state_def res_bind_Inr_iff)
  qed
  have none_at: "allocation_at p ?ref = None"
  proof (rule ccontr)
    assume "allocation_at p ?ref \<noteq> None"
    then obtain b where b: "allocation_at p ?ref = Some b" by blast
    then have "pl_allocations p \<noteq> []" by (auto simp: allocation_at_def)
    with fresh(4) have "dict_get (ld_pools ld) ?k = Some p" by blast
    with bal b fresh(1) show False unfolding books_balanced_def by fastforce
  qed
  have p'_eq: "p' = set_allocation ?ref ?a p" using new_account [OF fresh(5)] none_at fresh(2) by simp
  have "pool_within p'"
    using pk fresh_allocation_totals [OF none_at, of ?a]
    by (auto simp: p'_eq pool_within_def new_allocation_def allocation_use_def)
  moreover have "bs_reserved s = 0" using fresh(3) by (simp add: opened_def quantities_def)
  ultimately have "books_balanced sha256 ld'"
    using balanced_add [OF bal, of s ?k p ?a] fresh(1,2,4) pk new_account_agrees [OF fresh(3)]
    by (auto simp: fresh(6) p'_eq)
  with fresh(1,3) show ?thesis by (auto simp: fresh(6) opened_def quantities_def)
qed

section \<open>Opening the accounts of all policies\<close>

lemma initialize_pass:
  assumes "run_outcomes (\<lambda>(policy, d). initialize_demand sha256 sn generation caps policy d) xs ld = Inr (Inr ld')"
    and "books_balanced sha256 ld"
  shows "books_balanced sha256 ld' \<and>
    (\<forall>ref s. dict_get (ld_states ld) ref = Some s \<longrightarrow> dict_get (ld_states ld') ref = Some s) \<and>
    (\<forall>ref s. dict_get (ld_states ld) ref = None \<longrightarrow> dict_get (ld_states ld') ref = Some s \<longrightarrow> opened generation s) \<and>
    (\<forall>(policy, d) \<in> set xs. \<exists>s. dict_get (ld_states ld') (demand_state_ref policy d) = Some s \<and>
       bs_generation s = generation)"
  using assms
proof (induction xs arbitrary: ld)
  case Nil
  then show ?case by simp
next
  case (Cons x xs)
  obtain policy d where x: "x = (policy, d)" by (cases x)
  let ?ref = "demand_state_ref policy d"
  from Cons.prems(1) x obtain out where "initialize_demand sha256 sn generation caps policy d ld = Inr out"
    and "(case out of Inl failure \<Rightarrow> Inr (Inl failure) | Inr ld1 \<Rightarrow>
      run_outcomes (\<lambda>(policy, d). initialize_demand sha256 sn generation caps policy d) xs ld1) = Inr (Inr ld')"
    by (auto elim!: res_bind_InrE)
  then obtain ld1 where step: "initialize_demand sha256 sn generation caps policy d ld = Inr (Inr ld1)"
    and rest: "run_outcomes (\<lambda>(policy, d). initialize_demand sha256 sn generation caps policy d) xs ld1 = Inr (Inr ld')"
    by (cases out) auto
  from initialize_demand_cases [OF Cons.prems(2) step] have bal1: "books_balanced sha256 ld1"
    and here: "\<exists>s. dict_get (ld_states ld1) ?ref = Some s \<and> bs_generation s = generation"
    and new: "ld1 = ld \<or> (\<exists>s. opened generation s \<and> dict_get (ld_states ld) ?ref = None \<and>
      ld_states ld1 = dict_set ?ref s (ld_states ld))" by blast+
  from Cons.IH [OF rest bal1] have IH: "books_balanced sha256 ld'"
    "\<And>ref s. dict_get (ld_states ld1) ref = Some s \<Longrightarrow> dict_get (ld_states ld') ref = Some s"
    "\<And>ref s. dict_get (ld_states ld1) ref = None \<Longrightarrow> dict_get (ld_states ld') ref = Some s \<Longrightarrow> opened generation s"
    "\<forall>(policy, d) \<in> set xs. \<exists>s. dict_get (ld_states ld') (demand_state_ref policy d) = Some s \<and>
       bs_generation s = generation"
    by blast+
  have kept: "dict_get (ld_states ld1) ref = Some s" if "dict_get (ld_states ld) ref = Some s" for ref s
    using new that by auto
  have zero: "opened generation s"
    if "dict_get (ld_states ld) ref = None" "dict_get (ld_states ld') ref = Some s" for ref s
  proof (cases "dict_get (ld_states ld1) ref")
    case None
    then show ?thesis using IH(3) that(2) by blast
  next
    case (Some s1)
    with IH(2) that(2) have "s = s1" by fastforce
    with new that(1) Some show ?thesis by (auto split: if_splits)
  qed
  from here IH(2) have "\<exists>s. dict_get (ld_states ld') ?ref = Some s \<and> bs_generation s = generation" by blast
  with IH(4) have "\<forall>(policy, d) \<in> set (x # xs). \<exists>s. dict_get (ld_states ld') (demand_state_ref policy d) = Some s \<and>
       bs_generation s = generation" by (simp add: x)
  with IH(1) kept IH(2) zero show ?case by blast
qed

lemma initialize_failure:
  "initialize_demand sha256 sn generation caps policy d ld = Inr (Inl failure) \<Longrightarrow>
     \<exists>code. failure = apply_failed sn code (rp_address policy)"
  by (auto simp: initialize_demand_def initialize_new_budget_def Let_def elim!: res_bind_InrE
      split: option.splits if_splits sum.splits)

lemma initialize_cases:
  assumes run: "initialize_participant_resource_budgets sha256 sn policies caps generation = Inr res"
  obtains (failed) code address where "res = apply_failed sn code address"
    | (opened) ld sn' where "run_outcomes (\<lambda>(policy, d). initialize_demand sha256 sn generation caps policy d)
          (concat (map (\<lambda>policy. map (\<lambda>d. (policy, d)) (rp_demands policy)) policies)) (ledger_of sn) = Inr (Inr ld)"
        and "commit_ledger sha256 sn ld = Inr sn'" and "res = apply_ok sn'"
  using run unfolding initialize_participant_resource_budgets_def
proof (cases rule: finish_cases)
  case failed
  from run_outcomes_failure [OF this] show thesis using that(1) initialize_failure by fastforce
next
  case (finished ld sn')
  then show thesis by (rule that(2))
qed

lemma initialize_balanced:
  assumes bal: "books_balanced sha256 (ledger_of sn)"
    and run: "initialize_participant_resource_budgets sha256 sn policies caps generation = Inr res"
  shows "books_balanced sha256 (ledger_of (ar_snapshot res))"
  using run
proof (cases rule: initialize_cases)
  case failed
  with bal show ?thesis by (simp add: apply_failed_def)
next
  case (opened ld sn')
  with initialize_pass [OF opened(1) bal] commit_ledger_Inr [OF opened(2)] show ?thesis by (simp add: apply_ok_def)
qed

text \<open>
  Initialisation opens an account for every demand of every policy, in the generation named,
  with nothing reserved or used; a budget that already exists is left exactly as it is, and the
  books stay balanced. If any demand cannot be met, nothing changes.
\<close>

lemma initialize_opens_accounts:
  assumes bal: "books_balanced sha256 (ledger_of sn)"
    and run: "initialize_participant_resource_budgets sha256 sn policies caps generation = Inr res"
  shows "if ar_success res
    then books_balanced sha256 (ledger_of (ar_snapshot res)) \<and>
      (\<forall>policy \<in> set policies. \<forall>d \<in> set (rp_demands policy). \<exists>s.
         dict_get (sn_states (ar_snapshot res)) (demand_state_ref policy d) = Some s \<and> bs_generation s = generation) \<and>
      (\<forall>ref s. dict_get (sn_states (ar_snapshot res)) ref = Some s \<longrightarrow>
         dict_get (sn_states sn) ref = Some s \<or>
         dict_get (sn_states sn) ref = None \<and> quantities s = (generation, 0, 0, 0)) \<and>
      (\<forall>ref s. dict_get (sn_states sn) ref = Some s \<longrightarrow> dict_get (sn_states (ar_snapshot res)) ref = Some s)
    else ar_snapshot res = sn \<and> ar_diagnostics res \<noteq> []"
  using run
proof (cases rule: initialize_cases)
  case failed
  then show ?thesis by (simp add: apply_failed_def)
next
  case (opened ld sn')
  note pass = initialize_pass [OF opened(1) bal]
  have eqs: "ar_success res" "ledger_of (ar_snapshot res) = ld" "sn_states (ar_snapshot res) = ld_states ld"
    using commit_ledger_Inr [OF opened(2)] opened(3) by (simp_all add: apply_ok_def)
  have kept: "dict_get (ld_states ld) ref = Some s" if "dict_get (sn_states sn) ref = Some s" for ref s
    using pass that by simp
  have fresh: "dict_get (sn_states sn) ref = Some s \<or> dict_get (sn_states sn) ref = None \<and> quantities s = (generation, 0, 0, 0)"
    if s: "dict_get (ld_states ld) ref = Some s" for ref s
  proof (cases "dict_get (sn_states sn) ref")
    case None
    with pass s have "opened generation s" by simp
    with None show ?thesis by (simp add: opened_def)
  next
    case (Some t)
    with kept s show ?thesis by fastforce
  qed
  have all: "\<exists>s. dict_get (ld_states ld) (demand_state_ref policy d) = Some s \<and> bs_generation s = generation"
    if "policy \<in> set policies" "d \<in> set (rp_demands policy)" for policy d
    using pass that by fastforce
  show ?thesis using pass kept fresh all by (simp add: eqs)
qed

section \<open>Reachable books\<close>

text \<open>
  The budget operations as disciplined callers interleave them. The callers keep to rules the code
  does not enforce: a reservation is for an admitted policy, and its operation identifier is one
  not used before or one whose whole vector is reserved already; commit and release settle open
  reservations of the generation they name, or repeat the settlement that was made; the budget
  identifiers of a reconciled policy contain no colon. Every outcome of an operation is a step, the
  refusals included. What holds without this discipline is the subject of \<open>Budget_Mirror\<close>.
\<close>

definition vector_reserved :: "'rest budget_snapshot \<Rightarrow> resource_policy \<Rightarrow> string \<Rightarrow> bool" where
  "vector_reserved sn policy op \<longleftrightarrow>
     rp_demands policy \<noteq> [] \<and>
     list_all (\<lambda>d. dict_has (sn_events sn) (reserve_event_id op (demand_state_ref policy d))) (rp_demands policy)"

definition settled_as :: "string \<Rightarrow> 'rest budget_snapshot \<Rightarrow> string \<Rightarrow> bool" where
  "settled_as suffix sn op \<longleftrightarrow>
     list_all (\<lambda>r. dict_has (sn_events sn) (operation_event_id op (ev_budget_state_ref r) suffix))
       (reservations_of (sn_events sn) op)"

inductive budget_step :: "(string \<Rightarrow> string) \<Rightarrow> 'rest budget_snapshot \<Rightarrow> 'rest budget_snapshot \<Rightarrow> bool"
  for sha256 where
  initialize: "initialize_participant_resource_budgets sha256 sn policies caps generation = Inr res \<Longrightarrow>
     budget_step sha256 sn (ar_snapshot res)"
| reserve: "fresh_vector sha256 sn policy op \<or> vector_reserved sn policy op \<Longrightarrow>
     reserve_participant_resources sha256 sn policy op generation amounts = Inr res \<Longrightarrow>
     budget_step sha256 sn (ar_snapshot res)"
| commit: "open_operation op generation sn \<or> settled_as ''commit'' sn op \<Longrightarrow>
     commit_participant_resource_reservation sha256 sn op generation measured evidence = Inr res \<Longrightarrow>
     budget_step sha256 sn (ar_snapshot res)"
| release: "open_operation op generation sn \<or> settled_as ''release'' sn op \<Longrightarrow>
     release_participant_resource_reservation sha256 sn op generation evidence = Inr res \<Longrightarrow>
     budget_step sha256 sn (ar_snapshot res)"
| reconcile: "plain_budget_ids sn policy \<Longrightarrow>
     reconcile_participant_resource_budgets sha256 sn policy current next boundary evidence = Inr res \<Longrightarrow>
     budget_step sha256 sn (ar_snapshot res)"

lemma reserved_vector_replays:
  "vector_reserved sn policy op \<Longrightarrow> reserve_participant_resources sha256 sn policy op generation q = Inr (apply_ok sn)"
  by (simp add: vector_reserved_def reserve_participant_resources_def list_all_iff)

text \<open>Repeating a settlement leaves the ledger as it is.\<close>

lemma finish_idle:
  assumes "finish sha256 sn (Inr (Inr (ledger_of sn))) = Inr res"
  shows "ledger_of (ar_snapshot res) = ledger_of sn"
  using assms
proof (cases rule: finish_cases)
  case failed
  then show ?thesis by simp
next
  case (finished ld sn')
  with commit_ledger_Inr [OF finished(2)] show ?thesis by (simp add: apply_ok_def)
qed

lemma settled_commit_idle:
  assumes done1: "settled_as ''commit'' sn op"
    and run: "commit_participant_resource_reservation sha256 sn op generation measured evidence = Inr res"
  shows "ledger_of (ar_snapshot res) = ledger_of sn"
proof -
  let ?rs = "reservations_of (sn_events sn) op"
  have rest: "(if ?rs = [] then Inr (missing_reservation_result sn op (sn_events sn))
       else if \<not> valid_measurement_vector ?rs measured evidence
       then Inr (apply_failed sn ''runtime.participant-resource-measurement-invalid'' (ev_policy_address (hd ?rs)))
       else finish sha256 sn (run_outcomes (commit_reservation sha256 sn op generation evidence measured)
                ?rs (ledger_of sn))) = Inr res"
    using run unfolding commit_participant_resource_reservation_def
    by (auto simp: operation_reservations_Inr elim!: res_bind_InrE)
  show ?thesis
  proof (cases "?rs = [] \<or> \<not> valid_measurement_vector ?rs measured evidence")
    case True
    with rest show ?thesis
      by (auto simp: missing_reservation_result_def apply_failed_def apply_ok_def split: if_splits)
  next
    case False
    have "run_outcomes (commit_reservation sha256 sn op generation evidence measured) ?rs (ledger_of sn) =
        Inr (Inr (ledger_of sn))"
    proof (rule run_outcomes_idle)
      fix r assume r: "r \<in> set ?rs"
      then have "\<exists>m. dict_get measured (ev_budget_state_ref r) = Some m"
        using False by (auto simp: valid_measurement_vector_def list_all_iff split: option.splits)
      with r done1 show "commit_reservation sha256 sn op generation evidence measured r (ledger_of sn) = Inr (Inr (ledger_of sn))"
        by (auto simp: commit_reservation_def settled_as_def list_all_iff dict_item_def)
    qed
    with False rest show ?thesis using finish_idle by simp
  qed
qed

lemma settled_release_idle:
  assumes done1: "settled_as ''release'' sn op"
    and run: "release_participant_resource_reservation sha256 sn op generation evidence = Inr res"
  shows "ledger_of (ar_snapshot res) = ledger_of sn"
proof -
  let ?rs = "reservations_of (sn_events sn) op"
  have rest: "(if ?rs = [] then Inr (apply_ok sn)
       else finish sha256 sn (run_outcomes (release_reservation sha256 sn op generation evidence) ?rs (ledger_of sn))) = Inr res"
    using run unfolding release_participant_resource_reservation_def
    by (auto simp: operation_reservations_Inr elim!: res_bind_InrE)
  have "run_outcomes (release_reservation sha256 sn op generation evidence) ?rs (ledger_of sn) = Inr (Inr (ledger_of sn))"
    by (rule run_outcomes_idle) (use done1 in \<open>auto simp: release_reservation_def settled_as_def list_all_iff\<close>)
  with rest show ?thesis using finish_idle by (auto simp: apply_ok_def split: if_splits)
qed

lemma budget_step_balanced:
  "budget_step sha256 sn sn' \<Longrightarrow> books_balanced sha256 (ledger_of sn) \<Longrightarrow> books_balanced sha256 (ledger_of sn')"
proof (induction rule: budget_step.induct)
  case initialize
  then show ?case by (blast intro: initialize_balanced)
next
  case (reserve sn policy op generation amounts res)
  from reserve.hyps(1) show ?case
  proof
    assume "fresh_vector sha256 sn policy op"
    with reserve show ?thesis by (blast intro: reserve_balanced)
  next
    assume "vector_reserved sn policy op"
    with reserve.hyps(2) have "res = apply_ok sn" by (simp add: reserved_vector_replays)
    with reserve.prems show ?thesis by (simp add: apply_ok_def)
  qed
next
  case (commit op generation sn measured evidence res)
  then show ?case using commit_balanced settled_commit_idle by metis
next
  case (release op generation sn evidence res)
  then show ?case using release_balanced settled_release_idle by metis
next
  case reconcile
  then show ?case by (blast intro: reconcile_balanced)
qed

definition no_budgets :: "'rest budget_snapshot \<Rightarrow> bool" where
  "no_budgets sn \<longleftrightarrow> sn_states sn = [] \<and> sn_pools sn = [] \<and> sn_events sn = []"

lemma no_budgets_balanced: "no_budgets sn \<Longrightarrow> books_balanced sha256 (ledger_of sn)"
  by (simp add: no_budgets_def books_balanced_def events_wf_def ledger_of_def dict_values_def)

lemma reachable_balanced:
  "(budget_step sha256)\<^sup>*\<^sup>* sn sn' \<Longrightarrow> books_balanced sha256 (ledger_of sn) \<Longrightarrow> books_balanced sha256 (ledger_of sn')"
  by (induction rule: rtranclp_induct) (auto intro: budget_step_balanced)

text \<open>
  C5. Disciplined callers keep the books balanced. In every snapshot that the five operations
  reach from one without budgets, as long as the callers keep to the rules of \<open>budget_step\<close> (they
  reserve under new operation identifiers, for distinct budgets on distinct pools, or replay a
  reserved vector; they settle an open operation in its generation, or repeat its settlement; the
  budget identifiers of a policy they reconcile contain no colon):
  each budget's reserved amount is the sum of its reservations of the current generation that are
  neither committed nor released; its pool holds an allocation with the same reserved, current and
  cumulative amounts; no pool has promised more than its capacity, and unprotected budgets have
  never eaten into its protected part. The code does not check the rules, and the sum is wrong
  after a release of a committed operation.
\<close>

theorem books_always_balanced:
  assumes start: "no_budgets sn" and reach: "(budget_step sha256)\<^sup>*\<^sup>* sn sn'"
  shows "(\<forall>ref s. dict_get (sn_states sn') ref = Some s \<longrightarrow>
      bs_reserved s = open_total (sn_events sn') ref (bs_generation s) \<and>
      (\<exists>p a. dict_get (sn_pools sn') (pool_ref_for_state sha256 s) = Some p \<and> allocation_at p ref = Some a \<and>
         al_reserved a = bs_reserved s \<and> al_current_use a = bs_current_use s \<and>
         al_cumulative_use a = bs_cumulative_use s \<and> al_generation a = bs_generation s)) \<and>
    (\<forall>k p. dict_get (sn_pools sn') k = Some p \<longrightarrow>
      pool_allocated_total p \<le> pl_capacity p \<and> unprotected_total p \<le> pl_capacity p - pl_protected_capacity p)"
proof -
  have bal: "books_balanced sha256 (ledger_of sn')"
    using reachable_balanced [OF reach] no_budgets_balanced [OF start] by blast
  show ?thesis
    using balanced_state(2,3) [OF bal] balanced_pool(2) [OF bal]
    by (auto simp: mirrored_def agrees_def pool_within_def)
qed

end
