(* ===== verification/Budget_Examples.thy ===== *)
theory Budget_Examples
  imports Budget_Init
begin

text \<open>
  A small deployment run through the budget operations, as an instance of the theorems on them:
  one policy with a token budget and an action budget on two pools.
\<close>

section \<open>The deployment\<close>

definition demo_hash :: "string \<Rightarrow> string" where
  "demo_hash s = take 4 (drop 2 s)"

definition demo_pool :: "string \<Rightarrow> resource_kind \<Rightarrow> accounting_mode \<Rightarrow> int \<Rightarrow> pool_capacity" where
  "demo_pool name kind mode capacity =
     \<lparr>pc_pool_ref = name, pc_owner_kind = PARTICIPANT_OWNER, pc_owner_ref = ''red'', pc_kind = kind,
      pc_unit = resource_unit kind, pc_mode = mode, pc_meter = ''meter'', pc_capacity = capacity,
      pc_isolation = ISOLATION_NONE, pc_configuration_digest = ''sha256:0'',
      pc_fairness_policy = ''fifo'', pc_priority_classes = [''normal''], pc_borrowing = ''none'',
      pc_reclaim = ''none'', pc_max_queue_ticks = 0, pc_starvation_bound_ticks = 1,
      pc_protected_capacity = 0, pc_evidence_contract_ids = [''e'']\<rparr>"

definition demo_capabilities :: budget_capabilities where
  "demo_capabilities =
     \<lparr>cap_support_strength = BOUNDED, cap_owner_kinds = [PARTICIPANT_OWNER],
      cap_resource_kinds = [INFERENCE_TOKENS, CONCURRENT_ACTIONS],
      cap_accounting_modes = [CUMULATIVE_COUNTER, RESERVABLE_GAUGE], cap_reset_modes = [RESET_RUN],
      cap_fairness_policies = [''fifo''], cap_isolation_strengths = [ISOLATION_NONE],
      cap_configured_pools = [demo_pool ''tokens'' INFERENCE_TOKENS CUMULATIVE_COUNTER 10,
        demo_pool ''slots'' CONCURRENT_ACTIONS RESERVABLE_GAUGE 4],
      cap_realization_contract_ids = [''c''], cap_cross_range_pool_refs = []\<rparr>"

definition demo_demand :: "string \<Rightarrow> string \<Rightarrow> resource_kind \<Rightarrow> accounting_mode \<Rightarrow> int \<Rightarrow> int \<Rightarrow> resource_demand" where
  "demo_demand budget pool kind mode lim reservation =
     \<lparr>dm_budget_id = budget, dm_owner_kind = PARTICIPANT_OWNER, dm_owner_address = ''red'', dm_pool_ref = pool,
      dm_kind = kind, dm_unit = resource_unit kind, dm_mode = mode, dm_meter = ''meter'', dm_limit = lim,
      dm_reservation = reservation, dm_reset = RESET_RUN\<rparr>"

definition token_demand :: resource_demand where
  "token_demand = demo_demand ''t'' ''tokens'' INFERENCE_TOKENS CUMULATIVE_COUNTER 9 3"

definition action_demand :: resource_demand where
  "action_demand = demo_demand ''a'' ''slots'' CONCURRENT_ACTIONS RESERVABLE_GAUGE 4 1"

definition demo_policy :: resource_policy where
  "demo_policy =
     \<lparr>rp_address = ''p'', rp_demands = [token_demand, action_demand],
      rp_fairness = \<lparr>fr_policy = ''fifo'', fr_priority_class = ''normal'', fr_weight = 1, fr_protected = False,
        fr_borrowing = ''none'', fr_reclaim = ''none'', fr_max_queue_ticks = 0, fr_starvation_bound_ticks = 1\<rparr>\<rparr>"

definition demo_empty :: "unit budget_snapshot" where
  "demo_empty = \<lparr>sn_states = [], sn_pools = [], sn_events = [], sn_rest = ()\<rparr>"

definition token_ref :: string where
  "token_ref = participant_resource_budget_state_ref ''p'' ''t''"

definition action_ref :: string where
  "action_ref = participant_resource_budget_state_ref ''p'' ''a''"

definition demo_measured :: "(string, int) pydict" where
  "demo_measured = [(token_ref, 2), (action_ref, 0)]"

section \<open>Its history\<close>

text \<open>An account holds a reserved and a cumulative amount, its last event and its evidence.\<close>

type_synonym account = "int \<times> int \<times> string \<times> string list"

fun demo_state :: "resource_demand \<Rightarrow> string \<Rightarrow> int \<Rightarrow> int \<Rightarrow> account \<Rightarrow> budget_state" where
  "demo_state d ref capacity generation (reserved, used, last_event, evidence) =
     \<lparr>bs_state_ref = ref, bs_budget_id = dm_budget_id d, bs_policy_address = ''p'',
      bs_owner_kind = PARTICIPANT_OWNER, bs_owner_ref = ''red'', bs_pool_ref = dm_pool_ref d, bs_kind = dm_kind d,
      bs_unit = dm_unit d, bs_mode = dm_mode d, bs_meter = ''meter'', bs_reset = RESET_RUN,
      bs_generation = generation, bs_limit = dm_limit d, bs_configured_capacity = capacity,
      bs_reserved = reserved, bs_current_use = 0, bs_cumulative_use = used, bs_throttled = 0, bs_rejected = 0,
      bs_status = STATUS_RECONCILED, bs_last_event_ref = last_event, bs_evidence_refs = evidence\<rparr>"

fun demo_pool_state :: "resource_demand \<Rightarrow> string \<Rightarrow> int \<Rightarrow> int \<Rightarrow> account \<Rightarrow> pool_state" where
  "demo_pool_state d ref capacity generation (reserved, used, last_event, evidence) =
     \<lparr>pl_state_ref = pool_state_ref demo_hash (demo_pool (dm_pool_ref d) (dm_kind d) (dm_mode d) capacity),
      pl_pool_ref = dm_pool_ref d, pl_owner_kind = PARTICIPANT_OWNER, pl_owner_ref = ''red'', pl_kind = dm_kind d,
      pl_unit = dm_unit d, pl_mode = dm_mode d, pl_meter = ''meter'', pl_capacity = capacity,
      pl_protected_capacity = 0, pl_fairness_policy = ''fifo'', pl_priority_classes = [''normal''],
      pl_borrowing = ''none'', pl_reclaim = ''none'', pl_max_queue_ticks = 0, pl_starvation_bound_ticks = 1,
      pl_allocations = [(ref,
        \<lparr>al_budget_state_ref = ref, al_policy_address = ''p'', al_budget_id = dm_budget_id d,
         al_generation = generation, al_priority_class = ''normal'', al_weight = 1, al_protected = False,
         al_borrowing = ''none'', al_reclaim = ''none'', al_max_queue_ticks = 0, al_starvation_bound_ticks = 1,
         al_reserved = reserved, al_current_use = 0, al_cumulative_use = used\<rparr>)]\<rparr>"

definition demo_books :: "int \<Rightarrow> account \<Rightarrow> account \<Rightarrow> budget_event list \<Rightarrow> unit budget_snapshot" where
  "demo_books generation tokens actions events =
     \<lparr>sn_states = [(token_ref, demo_state token_demand token_ref 10 generation tokens),
        (action_ref, demo_state action_demand action_ref 4 generation actions)],
      sn_pools = map (\<lambda>p. (pl_state_ref p, p))
        [demo_pool_state token_demand token_ref 10 generation tokens,
         demo_pool_state action_demand action_ref 4 generation actions],
      sn_events = map (\<lambda>e. (ev_event_id e, e)) events, sn_rest = ()\<rparr>"

definition demo_event ::
  "resource_demand \<Rightarrow> string \<Rightarrow> string \<Rightarrow> string \<Rightarrow> int \<Rightarrow> budget_transition \<Rightarrow> int \<Rightarrow> int option \<Rightarrow> string \<Rightarrow>
     string list \<Rightarrow> budget_event" where
  "demo_event d ref event_id op generation transition requested measured predecessor evidence =
     \<lparr>ev_event_id = event_id, ev_operation_id = op, ev_budget_state_ref = ref, ev_budget_id = dm_budget_id d,
      ev_policy_address = ''p'', ev_owner_ref = ''red'', ev_pool_ref = dm_pool_ref d,
      ev_execution_generation = generation, ev_transition = transition,
      ev_disposition = event_disposition transition, ev_requested = requested, ev_measured = measured,
      ev_kind = dm_kind d, ev_unit = dm_unit d, ev_meter = ''meter'', ev_predecessor = Some predecessor,
      ev_evidence_refs = evidence\<rparr>"

definition demo_opened :: "unit budget_snapshot" where
  "demo_opened = demo_books 0 (0, 0, ''initial:'' @ token_ref, []) (0, 0, ''initial:'' @ action_ref, []) []"

definition demo_reserve_events :: "budget_event list" where
  "demo_reserve_events =
     [demo_event token_demand token_ref (reserve_event_id ''o1'' token_ref) ''o1'' 0 RESERVE 3 None
        (''initial:'' @ token_ref) [],
      demo_event action_demand action_ref (reserve_event_id ''o1'' action_ref) ''o1'' 0 RESERVE 1 None
        (''initial:'' @ action_ref) []]"

definition demo_reserved :: "unit budget_snapshot" where
  "demo_reserved = demo_books 0 (3, 0, reserve_event_id ''o1'' token_ref, [])
     (1, 0, reserve_event_id ''o1'' action_ref, []) demo_reserve_events"

definition demo_settle_events :: "string \<Rightarrow> budget_transition \<Rightarrow> int option \<Rightarrow> int option \<Rightarrow> budget_event list" where
  "demo_settle_events suffix transition tokens actions =
     [demo_event token_demand token_ref (operation_event_id ''o1'' token_ref suffix) ''o1'' 0 transition 3
        tokens (reserve_event_id ''o1'' token_ref) [''w''],
      demo_event action_demand action_ref (operation_event_id ''o1'' action_ref suffix) ''o1'' 0 transition 1
        actions (reserve_event_id ''o1'' action_ref) [''w'']]"

definition demo_committed :: "unit budget_snapshot" where
  "demo_committed = demo_books 0 (0, 2, operation_event_id ''o1'' token_ref ''commit'', [''w''])
     (0, 0, operation_event_id ''o1'' action_ref ''commit'', [''w''])
     (demo_reserve_events @ demo_settle_events ''commit'' COMMIT (Some 2) (Some 0))"

definition demo_released :: "unit budget_snapshot" where
  "demo_released = demo_books 0 (0, 0, operation_event_id ''o1'' token_ref ''release'', [''w''])
     (0, 0, operation_event_id ''o1'' action_ref ''release'', [''w''])
     (demo_reserve_events @ demo_settle_events ''release'' RELEASE None None)"

definition demo_reconciled :: "unit budget_snapshot" where
  "demo_reconciled = demo_books 1 (0, 0, ''reconcile:p:1:'' @ token_ref, [''w''])
     (0, 0, ''reconcile:p:1:'' @ action_ref, [''w''])
     (demo_reserve_events @
      [demo_event token_demand token_ref (''reconcile:p:1:'' @ token_ref) ''reconcile:p:1'' 1 RECONCILE 0 (Some 0)
         (reserve_event_id ''o1'' token_ref) [''w''],
       demo_event action_demand action_ref (''reconcile:p:1:'' @ action_ref) ''reconcile:p:1'' 1 RECONCILE 0 (Some 0)
         (reserve_event_id ''o1'' action_ref) [''w'']])"

lemma demo_opened_run:
  "initialize_participant_resource_budgets demo_hash demo_empty [demo_policy] demo_capabilities 0 =
     Inr (apply_ok demo_opened)"
  by code_simp

lemma demo_reserved_run:
  "reserve_participant_resources demo_hash demo_opened demo_policy ''o1'' 0 None = Inr (apply_ok demo_reserved)"
  by code_simp

lemma demo_committed_run:
  "commit_participant_resource_reservation demo_hash demo_reserved ''o1'' 0 demo_measured [''w''] =
     Inr (apply_ok demo_committed)"
  by code_simp

lemma demo_released_run:
  "release_participant_resource_reservation demo_hash demo_reserved ''o1'' 0 [''w''] = Inr (apply_ok demo_released)"
  by code_simp

lemma demo_reconciled_run:
  "reconcile_participant_resource_budgets demo_hash demo_reserved ''p'' 0 1 RESET_RUN [''w''] =
     Inr (apply_ok demo_reconciled)"
  by code_simp

lemma demo_fresh: "fresh_vector demo_hash demo_opened demo_policy ''o1''"
  by code_simp

lemma demo_open: "open_operation ''o1'' 0 demo_reserved"
  by code_simp

lemma demo_remeasured:
  "valid_measurement_vector (reservations_of (sn_events demo_reserved) ''o1'') [(token_ref, 3), (action_ref, 1)] [''v'']"
  by code_simp

lemma demo_plain: "plain_budget_ids demo_reserved ''p''"
  by code_simp

lemma demo_own: "list_all (\<lambda>r. ev_budget_state_ref r \<in> fst ` set (policy_budgets demo_reserved ''p''))
    (reservations_of (sn_events demo_reserved) ''o1'')"
  by code_simp

section \<open>Its runs\<close>

lemma apply_ok_simps [simp]: "ar_success (apply_ok sn)" "ar_snapshot (apply_ok sn) = sn"
  by (simp_all add: apply_ok_def)

lemma demo_steps:
  "budget_step demo_hash demo_empty demo_opened" "budget_step demo_hash demo_opened demo_reserved"
  "budget_step demo_hash demo_reserved demo_committed"
  using budget_step.initialize [OF demo_opened_run] budget_step.reserve [OF disjI1 [OF demo_fresh] demo_reserved_run]
    budget_step.commit [OF disjI1 [OF demo_open] demo_committed_run] by simp_all

lemma demo_no_budgets: "no_budgets demo_empty"
  by (simp add: no_budgets_def demo_empty_def)

lemma demo_balanced:
  "books_balanced demo_hash (ledger_of demo_empty)" "books_balanced demo_hash (ledger_of demo_opened)"
  "books_balanced demo_hash (ledger_of demo_reserved)"
  using no_budgets_balanced [OF demo_no_budgets] budget_step_balanced demo_steps by metis+

lemma demo_demands: "rp_demands demo_policy \<noteq> []" "demand_state_ref demo_policy (hd (rp_demands demo_policy)) = token_ref"
  by (simp_all add: demo_policy_def demand_state_ref_def token_ref_def token_demand_def demo_demand_def)

section \<open>The theorems at these inputs\<close>

theorem initialize_opens_accounts_witness:
  "books_balanced demo_hash (ledger_of demo_empty) \<and> (\<exists>s. dict_get (sn_states demo_opened) token_ref = Some s \<and> bs_generation s = 0)"
proof -
  note r = demo_opened_run
  from initialize_opens_accounts [OF demo_balanced(1) r]
  have "\<forall>d \<in> set (rp_demands demo_policy). \<exists>s. dict_get (sn_states demo_opened) (demand_state_ref demo_policy d) = Some s \<and>
      bs_generation s = 0" by simp
  then show ?thesis using demo_demands demo_balanced(1) by (metis hd_in_set)
qed

theorem reserve_all_or_nothing_witness:
  "fresh_vector demo_hash demo_opened demo_policy ''o1'' \<and>
    (\<exists>e. dict_get (sn_events demo_reserved) (reserve_event_id ''o1'' token_ref) = Some e \<and> ev_transition e = RESERVE)"
proof -
  note r = demo_reserved_run
  have "hd (rp_demands demo_policy) \<in> set (rp_demands demo_policy)" using demo_demands(1) by (rule hd_in_set)
  with reserve_all_or_nothing [OF demo_balanced(2) demo_fresh r]
  have "demand_granted demo_policy ''o1'' 0 None (ledger_of demo_opened) (ledger_of demo_reserved) (hd (rp_demands demo_policy))"
    by simp
  with demo_demands(2) demo_fresh show ?thesis by (auto simp: demand_granted_def)
qed

theorem reserve_replay_witness:
  "fresh_vector demo_hash demo_opened demo_policy ''o1'' \<and>
    reserve_participant_resources demo_hash demo_reserved demo_policy ''o1'' 7 None = Inr (apply_ok demo_reserved)"
proof -
  note r = demo_reserved_run
  from reserve_replay [OF demo_balanced(2) demo_fresh r apply_ok_simps(1), of 7 None] demo_fresh show ?thesis by simp
qed

theorem commit_settles_vector_witness:
  "open_operation ''o1'' 0 demo_reserved \<and> books_balanced demo_hash (ledger_of demo_committed)"
proof -
  note r = demo_committed_run
  from commit_settles_vector [OF demo_balanced(3) demo_open r] demo_open show ?thesis by simp
qed

theorem commit_first_wins_witness:
  "open_operation ''o1'' 0 demo_reserved \<and>
    commit_participant_resource_reservation demo_hash demo_committed ''o1'' 5 [(token_ref, 3), (action_ref, 1)] [''v''] =
      Inr (apply_ok demo_committed)"
proof -
  note r = demo_committed_run
  from commit_first_wins [OF demo_balanced(3) demo_open r apply_ok_simps(1) demo_remeasured, of 5] demo_open
  show ?thesis by simp
qed

theorem release_frees_vector_witness:
  "open_operation ''o1'' 0 demo_reserved \<and> books_balanced demo_hash (ledger_of demo_released)"
proof -
  note r = demo_released_run
  from release_frees_vector [OF demo_balanced(3) demo_open r] demo_open show ?thesis by simp
qed

theorem reconcile_advances_policy_witness:
  "plain_budget_ids demo_reserved ''p'' \<and> books_balanced demo_hash (ledger_of demo_reconciled)"
proof -
  note r = demo_reconciled_run
  from reconcile_advances_policy [OF demo_balanced(3) demo_plain r] demo_plain show ?thesis by simp
qed

theorem reconcile_fences_callers_witness:
  "\<exists>code address. commit_participant_resource_reservation demo_hash demo_reconciled ''o1'' 0 demo_measured [''w''] =
     Inr (apply_failed demo_reconciled code address)"
proof -
  note r = demo_reconciled_run
  from reconcile_fences_callers [OF demo_balanced(3) demo_plain r apply_ok_simps(1) demo_open, of demo_measured "[''w'']"] demo_own
  show ?thesis by (simp add: list_all_iff)
qed

theorem books_always_balanced_witness:
  "no_budgets demo_empty \<and> (\<exists>s. dict_get (sn_states demo_committed) token_ref = Some s \<and>
     bs_reserved s = open_total (sn_events demo_committed) token_ref (bs_generation s))"
proof -
  let ?r = "budget_step demo_hash :: unit budget_snapshot \<Rightarrow> unit budget_snapshot \<Rightarrow> bool"
  have "?r\<^sup>*\<^sup>* demo_reserved demo_committed" by (rule r_into_rtranclp [of ?r]) (rule demo_steps)
  then have "?r\<^sup>*\<^sup>* demo_opened demo_committed" by (rule converse_rtranclp_into_rtranclp [of ?r, rotated]) (rule demo_steps)
  then have "?r\<^sup>*\<^sup>* demo_empty demo_committed" by (rule converse_rtranclp_into_rtranclp [of ?r, rotated]) (rule demo_steps)
  note balanced = books_always_balanced [OF demo_no_budgets this]
  obtain s where s: "dict_get (sn_states demo_committed) token_ref = Some s"
    by (simp add: demo_committed_def demo_books_def dict_get_Cons)
  with balanced demo_no_budgets show ?thesis by blast
qed

section \<open>A release after a commit\<close>

text \<open>Two operations reserve tokens; the first commits, and then releases what it no longer holds.\<close>

definition demo_shared :: "unit budget_snapshot" where
  "demo_shared = demo_books 0 (3, 2, reserve_event_id ''o2'' token_ref, [''w''])
     (1, 0, reserve_event_id ''o2'' action_ref, [''w''])
     (demo_reserve_events @ demo_settle_events ''commit'' COMMIT (Some 2) (Some 0) @
      [demo_event token_demand token_ref (reserve_event_id ''o2'' token_ref) ''o2'' 0 RESERVE 3 None
         (operation_event_id ''o1'' token_ref ''commit'') [],
       demo_event action_demand action_ref (reserve_event_id ''o2'' action_ref) ''o2'' 0 RESERVE 1 None
         (operation_event_id ''o1'' action_ref ''commit'') []])"

lemma demo_shared_run:
  "reserve_participant_resources demo_hash demo_committed demo_policy ''o2'' 0 None = Inr (apply_ok demo_shared)"
  by code_simp

text \<open>
  A commit does not close a reservation to a later release. After the first operation has
  committed, its release still succeeds and takes its requested amount out of the budget again:
  the amount that the second operation has reserved and not settled is no longer held, so the
  books do not balance. The callers must not release what they committed.
\<close>

lemma release_after_commit_frees_other:
  "commit_participant_resource_reservation demo_hash demo_reserved ''o1'' 0 demo_measured [''w''] =
     Inr (apply_ok demo_committed) \<and>
   reserve_participant_resources demo_hash demo_committed demo_policy ''o2'' 0 None = Inr (apply_ok demo_shared) \<and>
   open_total (sn_events demo_shared) token_ref 0 = 3 \<and>
   (case release_participant_resource_reservation demo_hash demo_shared ''o1'' 0 [''w''] of
      Inl e \<Rightarrow> False
    | Inr r \<Rightarrow> ar_success r \<and> open_total (sn_events (ar_snapshot r)) token_ref 0 = 3 \<and>
        map_option bs_reserved (dict_get (sn_states (ar_snapshot r)) token_ref) = Some 0)"
proof -
  have "open_total (sn_events demo_shared) token_ref 0 = 3" by code_simp
  moreover have "case release_participant_resource_reservation demo_hash demo_shared ''o1'' 0 [''w''] of
      Inl e \<Rightarrow> False
    | Inr r \<Rightarrow> ar_success r \<and> open_total (sn_events (ar_snapshot r)) token_ref 0 = 3 \<and>
        map_option bs_reserved (dict_get (sn_states (ar_snapshot r)) token_ref) = Some 0" by code_simp
  ultimately show ?thesis using demo_committed_run demo_shared_run by blast
qed

end
