(* ===== verification/Budget_Mirror.thy ===== *)
theory Budget_Mirror
  imports Budget_Examples
begin

text \<open>
  What the budget operations keep whatever their callers do: every budget and its allocation in
  the physical pool agree in all quantities, and no pool promises more than its capacity. Unlike
  the balance of \<open>Budget_Init\<close> this needs no discipline about operations: they may be settled
  twice, released after a commit or committed after a release. Only the vectors that are reserved
  have to name different pools, which the validation of policies makes sure of.
\<close>

section \<open>Mirrored accounts\<close>

definition accounts_mirrored :: "(string \<Rightarrow> string) \<Rightarrow> ledger \<Rightarrow> bool" where
  "accounts_mirrored sha256 ld \<longleftrightarrow>
     wf_dict (ld_states ld) \<and> wf_dict (ld_pools ld) \<and>
     (\<forall>ref s. dict_get (ld_states ld) ref = Some s \<longrightarrow> bs_state_ref s = ref \<and> mirrored sha256 (ld_pools ld) ref s) \<and>
     (\<forall>k p. dict_get (ld_pools ld) k = Some p \<longrightarrow> pl_state_ref p = k \<and>
        (\<forall>ref a. allocation_at p ref = Some a \<longrightarrow>
           (\<exists>s. dict_get (ld_states ld) ref = Some s \<and> pool_ref_for_state sha256 s = k)))"

lemma mirrored_account:
  assumes "accounts_mirrored sha256 ld" and "dict_get (ld_states ld) ref = Some s"
  shows "bs_state_ref s = ref" and "mirrored sha256 (ld_pools ld) ref s"
  using assms by (auto simp: accounts_mirrored_def)

lemma mirrored_keyed: "accounts_mirrored sha256 ld \<Longrightarrow> states_keyed ld"
  by (simp add: accounts_mirrored_def states_keyed_def)

lemma mirrored_pool:
  assumes "accounts_mirrored sha256 ld" and "dict_get (ld_pools ld) k = Some p"
  shows "pl_state_ref p = k"
    and "allocation_at p ref = Some a \<Longrightarrow> \<exists>s. dict_get (ld_states ld) ref = Some s \<and> pool_ref_for_state sha256 s = k"
  using assms by (auto simp: accounts_mirrored_def)

lemma mirrored_agrees:
  assumes "accounts_mirrored sha256 ld" and "dict_get (ld_states ld) ref = Some s"
    and "dict_get (ld_pools ld) (pool_ref_for_state sha256 s) = Some p" and "allocation_at p ref = Some a"
  shows "agrees s a"
  using mirrored_account(2) [OF assms(1,2)] assms(3,4) by (auto simp: mirrored_def)

text \<open>One budget and its allocation, old or new, change together.\<close>

lemma mirrored_set:
  assumes acc: "accounts_mirrored sha256 ld"
    and s': "bs_state_ref s' = ref" "pool_ref_for_state sha256 s' = k" "agrees s' a'"
    and old: "\<And>s. dict_get (ld_states ld) ref = Some s \<Longrightarrow> pool_ref_for_state sha256 s = k"
    and p: "dict_get (ld_pools ld) k = Some p \<or> dict_get (ld_pools ld) k = None \<and> pl_state_ref p = k \<and> pl_allocations p = []"
  shows "accounts_mirrored sha256 (ld\<lparr>ld_states := dict_set ref s' (ld_states ld),
     ld_pools := dict_set k (set_allocation ref a' p) (ld_pools ld), ld_events := events\<rparr>)"
proof -
  let ?states = "dict_set ref s' (ld_states ld)" and ?pools = "dict_set k (set_allocation ref a' p) (ld_pools ld)"
  have states: "bs_state_ref s2 = ref2 \<and> mirrored sha256 ?pools ref2 s2" if "dict_get ?states ref2 = Some s2" for ref2 s2
  proof (cases "ref2 = ref")
    case True
    with that s' show ?thesis by (auto simp: mirrored_def)
  next
    case False
    with that have g: "dict_get (ld_states ld) ref2 = Some s2" by simp
    obtain q b where q: "dict_get (ld_pools ld) (pool_ref_for_state sha256 s2) = Some q" "allocation_at q ref2 = Some b" "agrees s2 b"
      using mirrored_account(2) [OF acc g] by (auto simp: mirrored_def)
    with p False have "mirrored sha256 ?pools ref2 s2"
      by (cases "pool_ref_for_state sha256 s2 = k") (auto simp: mirrored_def)
    with mirrored_account(1) [OF acc g] show ?thesis by simp
  qed
  have owned: "\<exists>s2. dict_get ?states ref2 = Some s2 \<and> pool_ref_for_state sha256 s2 = k2"
    if q: "dict_get (ld_pools ld) k2 = Some q" "allocation_at q ref2 = Some b" for k2 q ref2 b
    using mirrored_pool(2) [OF acc q] old s'(2) by (cases "ref2 = ref") auto
  have pools: "pl_state_ref q = k2 \<and>
      (\<forall>ref2 b. allocation_at q ref2 = Some b \<longrightarrow> (\<exists>s2. dict_get ?states ref2 = Some s2 \<and> pool_ref_for_state sha256 s2 = k2))"
    if q: "dict_get ?pools k2 = Some q" for k2 q
  proof (cases "k2 = k")
    case False
    with q have old: "dict_get (ld_pools ld) k2 = Some q" by simp
    show ?thesis using mirrored_pool(1) [OF acc old] owned [OF old] by blast
  next
    case True
    with q have q': "q = set_allocation ref a' p" by simp
    have "\<exists>s2. dict_get ?states ref2 = Some s2 \<and> pool_ref_for_state sha256 s2 = k"
      if b: "allocation_at q ref2 = Some b" for ref2 b
    proof (cases "ref2 = ref")
      case True
      with s'(2) show ?thesis by simp
    next
      case False
      with b q' have b': "allocation_at p ref2 = Some b" by simp
      then have "pl_allocations p \<noteq> []" by (auto simp: allocation_at_def)
      with p b' owned show ?thesis by blast
    qed
    moreover have "pl_state_ref p = k" using p mirrored_pool(1) [OF acc] by blast
    ultimately show ?thesis using True q' by simp
  qed
  have "wf_dict ?states" "wf_dict ?pools" using acc by (simp_all add: accounts_mirrored_def)
  with states pools show ?thesis by (simp add: accounts_mirrored_def)
qed

text \<open>A budget changes in members its allocation does not have.\<close>

lemma mirrored_note:
  assumes acc: "accounts_mirrored sha256 ld" and s: "dict_get (ld_states ld) ref = Some s"
    and s': "bs_state_ref s' = ref" "pool_ref_for_state sha256 s' = pool_ref_for_state sha256 s" "\<And>a. agrees s' a = agrees s a"
  shows "accounts_mirrored sha256 (ld\<lparr>ld_states := dict_set ref s' (ld_states ld), ld_events := events\<rparr>)"
proof -
  let ?states = "dict_set ref s' (ld_states ld)"
  have m: "mirrored sha256 (ld_pools ld) ref s'"
    using mirrored_account(2) [OF acc s] s'(2,3) by (simp add: mirrored_def)
  have states: "bs_state_ref s2 = ref2 \<and> mirrored sha256 (ld_pools ld) ref2 s2" if "dict_get ?states ref2 = Some s2" for ref2 s2
    using that m s'(1) mirrored_account [OF acc] by (cases "ref2 = ref") auto
  have owned: "\<exists>s2. dict_get ?states ref2 = Some s2 \<and> pool_ref_for_state sha256 s2 = k"
    if q: "dict_get (ld_pools ld) k = Some q" "allocation_at q ref2 = Some b" for k q ref2 b
    using mirrored_pool(2) [OF acc q] s s'(2) by (cases "ref2 = ref") auto
  have "wf_dict ?states" "wf_dict (ld_pools ld)" using acc by (simp_all add: accounts_mirrored_def)
  with states owned mirrored_pool(1) [OF acc] show ?thesis by (simp add: accounts_mirrored_def)
qed

section \<open>The operations\<close>

text \<open>What an operation returns: the snapshot it was given, or one it wrote back from such a ledger.\<close>

definition writes_mirrored :: "(string \<Rightarrow> string) \<Rightarrow> 'rest budget_snapshot \<Rightarrow> 'rest budget_snapshot \<Rightarrow> bool" where
  "writes_mirrored sha256 sn sn' \<longleftrightarrow>
     sn' = sn \<or> (\<exists>ld. commit_ledger sha256 sn ld = Inr sn' \<and> accounts_mirrored sha256 ld)"

lemma writes_same [simp]: "writes_mirrored sha256 sn sn"
  by (simp add: writes_mirrored_def)

lemma writes_ledger: "commit_ledger sha256 sn ld = Inr sn' \<Longrightarrow> accounts_mirrored sha256 ld \<Longrightarrow> writes_mirrored sha256 sn sn'"
  by (auto simp: writes_mirrored_def)

lemma finish_writes:
  assumes "finish sha256 sn out = Inr res" and "\<And>r. out = Inr (Inl r) \<Longrightarrow> ar_snapshot r = sn"
    and "\<And>ld. out = Inr (Inr ld) \<Longrightarrow> accounts_mirrored sha256 ld"
  shows "writes_mirrored sha256 sn (ar_snapshot res)"
  using assms(1)
proof (cases rule: finish_cases)
  case failed
  with assms(2) show ?thesis by simp
next
  case (finished ld sn')
  with writes_ledger [OF finished(2) assms(3) [OF finished(1)]] show ?thesis by (simp add: apply_ok_def)
qed

lemma run_outcomes_keep:
  assumes "run_outcomes f xs ld = Inr (Inr ld')" and "P ld"
    and "\<And>x ld ld'. f x ld = Inr (Inr ld') \<Longrightarrow> P ld \<Longrightarrow> P ld'"
  shows "P ld'"
  using assms(1,2)
proof (induction xs arbitrary: ld)
  case Nil
  then show ?case by simp
next
  case (Cons x xs)
  then obtain out where out: "f x ld = Inr out"
    "(case out of Inl failure \<Rightarrow> Inr (Inl failure) | Inr ld1 \<Rightarrow> run_outcomes f xs ld1) = Inr (Inr ld')"
    by (auto elim!: res_bind_InrE)
  then obtain ld1 where "out = Inr ld1" by (cases out) auto
  with out Cons.IH assms(3) Cons.prems(2) show ?case by simp
qed

lemma initialize_mirrored:
  assumes run: "initialize_demand sha256 sn generation caps policy d ld = Inr (Inr ld')" and acc: "accounts_mirrored sha256 ld"
  shows "accounts_mirrored sha256 ld'"
  using run
proof (cases rule: initialize_demand_shape)
  case (existing s)
  with acc show ?thesis by simp
next
  case (fresh s p p')
  let ?ref = "demand_state_ref policy d"
  have "allocation_at p ?ref = None"
  proof (rule ccontr)
    assume "allocation_at p ?ref \<noteq> None"
    then obtain b where b: "allocation_at p ?ref = Some b" by blast
    then have "pl_allocations p \<noteq> []" by (auto simp: allocation_at_def)
    with fresh(4) have "dict_get (ld_pools ld) (pool_ref_for_state sha256 s) = Some p" by blast
    from mirrored_pool(2) [OF acc this b] fresh(1) show False by simp
  qed
  with new_account [OF fresh(5)] fresh(2) have p': "p' = set_allocation ?ref (new_allocation s (rp_fairness policy)) p" by simp
  have "accounts_mirrored sha256 (ld\<lparr>ld_states := dict_set ?ref s (ld_states ld),
      ld_pools := dict_set (pool_ref_for_state sha256 s) p' (ld_pools ld), ld_events := ld_events ld\<rparr>)"
    unfolding p' by (rule mirrored_set [OF acc fresh(2) refl new_account_agrees [OF fresh(3)]]) (use fresh(1,4) in auto)
  then show ?thesis using fresh(6) by simp
qed

lemma settled_mirrored:
  assumes "settles sha256 op generation suffix m evidence r ld ld'" and acc: "accounts_mirrored sha256 ld"
  shows "accounts_mirrored sha256 ld'"
proof -
  let ?ref = "ev_budget_state_ref r" and ?k = "operation_event_id op (ev_budget_state_ref r) suffix"
  let ?s = "\<lambda>s. settling ?k s (ev_requested r) m evidence"
  let ?a = "\<lambda>a. a\<lparr>al_reserved := max 0 (al_reserved a - ev_requested r), al_cumulative_use := al_cumulative_use a + m\<rparr>"
  obtain s p a e where s: "dict_get (ld_states ld) ?ref = Some s" "bs_state_ref s = ?ref"
    and p: "dict_get (ld_pools ld) (pool_ref_for_state sha256 s) = Some p" "allocation_at p ?ref = Some a"
    and ld': "ld' = ld\<lparr>ld_states := dict_set ?ref (?s s) (ld_states ld),
       ld_pools := dict_set (pool_ref_for_state sha256 s) (set_allocation ?ref (?a a) p) (ld_pools ld),
       ld_events := dict_set ?k e (ld_events ld)\<rparr>"
    using assms(1) unfolding settles_def Let_def by blast
  have "agrees (?s s) (?a a)" using mirrored_agrees [OF acc s(1) p] by (simp add: agrees_def settling_def)
  then show ?thesis unfolding ld'
    by (intro mirrored_set [OF acc]) (use s p in \<open>auto simp: settling_def pool_ref_for_state_def\<close>)
qed

lemma commit_writes:
  assumes acc: "accounts_mirrored sha256 (ledger_of sn)"
    and run: "commit_participant_resource_reservation sha256 sn op generation measured evidence = Inr res"
  shows "writes_mirrored sha256 sn (ar_snapshot res)"
proof (cases "reservations_of (sn_events sn) op = []")
  case True
  with run show ?thesis unfolding commit_participant_resource_reservation_def
    by (auto simp: operation_reservations_Inr missing_reservation_result_def apply_ok_def apply_failed_def
        elim!: res_bind_InrE split: if_splits)
next
  case False
  from run this show ?thesis
  proof (cases rule: commit_cases)
    case (committed ld sn')
    have "accounts_mirrored sha256 ld"
      by (rule run_outcomes_keep [where P = "accounts_mirrored sha256", OF committed(2) acc])
        (metis commit_reservation_cases mirrored_keyed settled_mirrored)
    with writes_ledger [OF committed(3)] committed(4) show ?thesis by (simp add: apply_ok_def)
  qed (simp_all add: apply_failed_def)
qed

lemma release_writes:
  assumes acc: "accounts_mirrored sha256 (ledger_of sn)"
    and run: "release_participant_resource_reservation sha256 sn op generation evidence = Inr res"
  shows "writes_mirrored sha256 sn (ar_snapshot res)"
proof (cases "reservations_of (sn_events sn) op = []")
  case True
  with run show ?thesis unfolding release_participant_resource_reservation_def
    by (auto simp: operation_reservations_Inr apply_ok_def elim!: res_bind_InrE split: if_splits)
next
  case False
  from run this show ?thesis
  proof (cases rule: release_cases)
    case (released ld sn')
    have "accounts_mirrored sha256 ld"
      by (rule run_outcomes_keep [where P = "accounts_mirrored sha256", OF released(1) acc])
        (metis release_reservation_cases mirrored_keyed settled_mirrored)
    with writes_ledger [OF released(2)] released(3) show ?thesis by (simp add: apply_ok_def)
  qed (simp_all add: apply_failed_def)
qed

lemma initialize_writes:
  assumes acc: "accounts_mirrored sha256 (ledger_of sn)"
    and run: "initialize_participant_resource_budgets sha256 sn policies caps generation = Inr res"
  shows "writes_mirrored sha256 sn (ar_snapshot res)"
  using run
proof (cases rule: initialize_cases)
  case (failed code address)
  then show ?thesis by (simp add: apply_failed_def)
next
  case (opened ld sn')
  have "accounts_mirrored sha256 ld"
    by (rule run_outcomes_keep [where P = "accounts_mirrored sha256", OF opened(1) acc]) (auto intro: initialize_mirrored)
  with writes_ledger [OF opened(2)] opened(3) show ?thesis by (simp add: apply_ok_def)
qed

text \<open>Reconciliation visits every budget of the policy once, in the state it had at the start.\<close>

lemma reconciled_mirrored:
  assumes "accounts_mirrored sha256 ld" and "distinct (map fst selected)"
    and "\<forall>(ref, s) \<in> set selected. dict_get (ld_states ld) ref = Some s"
    and "res_fold (reconcile_state sha256 policy next boundary evidence) ld selected = Inr ld'"
  shows "accounts_mirrored sha256 ld'"
  using assms
proof (induction selected arbitrary: ld)
  case Nil
  then show ?case by simp
next
  case (Cons x selected)
  obtain ref s where x: "x = (ref, s)" by (cases x)
  from Cons.prems(4) x obtain ld1 where
    step: "reconcile_state sha256 policy next boundary evidence ld (ref, s) = Inr ld1"
    and rest: "res_fold (reconcile_state sha256 policy next boundary evidence) ld1 selected = Inr ld'"
    by (auto elim!: res_bind_InrE)
  let ?s = "reconciled_state policy next boundary evidence ref s"
  have s: "dict_get (ld_states ld) ref = Some s" "bs_state_ref s = ref"
    using Cons.prems(1,3) x by (auto simp: accounts_mirrored_def)
  from step s(2) show ?case
  proof (cases rule: reconcile_state_Inr)
    case (1 p a e)
    have "agrees ?s (a\<lparr>al_generation := next, al_reserved := 0,
              al_current_use := if bs_reset s = boundary then 0 else al_current_use a,
              al_cumulative_use := if bs_reset s = boundary then 0 else al_cumulative_use a\<rparr>)"
      using mirrored_agrees [OF Cons.prems(1) s(1) 1(1,2)] by (simp add: agrees_def reconciled_state_def)
    then have "accounts_mirrored sha256 ld1" unfolding 1(6)
      by (intro mirrored_set [OF Cons.prems(1)]) (use s 1(1) in \<open>auto simp: reconciled_state_def pool_ref_for_state_def\<close>)
    moreover have "\<forall>(ref2, s2) \<in> set selected. dict_get (ld_states ld1) ref2 = Some s2"
    proof (clarify)
      fix ref2 s2 assume mem: "(ref2, s2) \<in> set selected"
      then have "ref \<noteq> ref2" using Cons.prems(2) x by force
      with mem Cons.prems(3) show "dict_get (ld_states ld1) ref2 = Some s2" by (auto simp: 1(6))
    qed
    ultimately show ?thesis using Cons.IH Cons.prems(2) rest by simp
  qed
qed

lemma reconcile_writes:
  assumes acc: "accounts_mirrored sha256 (ledger_of sn)"
    and run: "reconcile_participant_resource_budgets sha256 sn policy current next boundary evidence = Inr res"
  shows "writes_mirrored sha256 sn (ar_snapshot res)"
  using run
proof (cases rule: reconcile_cases)
  case stale
  then show ?thesis by (simp add: apply_failed_def)
next
  case (moved ld sn')
  have wf: "wf_dict (sn_states sn)" using acc by (simp add: accounts_mirrored_def)
  have "accounts_mirrored sha256 ld"
    by (rule reconciled_mirrored [OF acc policy_budgets_distinct [OF wf] _ moved(3)]) (auto simp: policy_budgets_get [OF wf])
  with writes_ledger [OF moved(4)] moved(5) show ?thesis by (simp add: apply_ok_def)
qed

section \<open>Reservation\<close>

text \<open>The demands are different budgets, and those that are open draw on different pools.\<close>

definition distinct_vector :: "(string \<Rightarrow> string) \<Rightarrow> 'rest budget_snapshot \<Rightarrow> resource_policy \<Rightarrow> bool" where
  "distinct_vector sha256 sn policy \<longleftrightarrow>
     distinct (map dm_budget_id (rp_demands policy)) \<and>
     distinct (concat (map (\<lambda>d. case dict_get (sn_states sn) (demand_state_ref policy d) of
         None \<Rightarrow> [] | Some s \<Rightarrow> [pool_ref_for_state sha256 s]) (rp_demands policy)))"

definition unmoved :: "(string \<Rightarrow> string) \<Rightarrow> ledger \<Rightarrow> reservation_check \<Rightarrow> bool" where
  "unmoved sha256 ld c \<longleftrightarrow>
     dict_get (ld_states ld) (bs_state_ref (rc_current c)) = Some (rc_current c) \<and>
     dict_get (ld_pools ld) (pool_ref_for_state sha256 (rc_current c)) = Some (rc_pool c)"

lemma applied_mirrored:
  assumes "res_fold (apply_reservation policy op generation) ld cs = Inr ld'" and "accounts_mirrored sha256 ld"
    and "\<forall>c \<in> set cs. unmoved sha256 ld c" and "distinct (map (\<lambda>c. bs_state_ref (rc_current c)) cs)"
    and "distinct (map (\<lambda>c. pool_ref_for_state sha256 (rc_current c)) cs)"
  shows "accounts_mirrored sha256 ld'"
  using assms
proof (induction cs arbitrary: ld)
  case Nil
  then show ?case by simp
next
  case (Cons c cs)
  let ?s = "rc_current c" and ?p = "rc_pool c"
  from Cons.prems(1) obtain ld1 where step: "apply_reservation policy op generation ld c = Inr ld1"
    and rest: "res_fold (apply_reservation policy op generation) ld1 cs = Inr ld'"
    by (auto elim!: res_bind_InrE)
  have s: "dict_get (ld_states ld) (bs_state_ref ?s) = Some ?s" "dict_get (ld_pools ld) (pool_ref_for_state sha256 ?s) = Some ?p"
    using Cons.prems(3) by (simp_all add: unmoved_def)
  have key: "pl_state_ref ?p = pool_ref_for_state sha256 ?s" by (rule mirrored_pool(1) [OF Cons.prems(2) s(2)])
  from apply_reservation_shape [OF step] obtain e a where a: "allocation_at ?p (bs_state_ref ?s) = Some a"
    and ld1: "ld1 = ld\<lparr>ld_states := dict_set (bs_state_ref ?s) (reserved_state op c) (ld_states ld),
        ld_pools := dict_set (pool_ref_for_state sha256 ?s)
          (set_allocation (bs_state_ref ?s) (a\<lparr>al_reserved := al_reserved a + rc_amount c\<rparr>) ?p) (ld_pools ld),
        ld_events := dict_set (reserve_event_id op (bs_state_ref ?s)) e (ld_events ld)\<rparr>"
    unfolding key by metis
  have "agrees (reserved_state op c) (a\<lparr>al_reserved := al_reserved a + rc_amount c\<rparr>)"
    using mirrored_agrees [OF Cons.prems(2) s a] by (simp add: agrees_def reserved_state_def)
  then have "accounts_mirrored sha256 ld1" unfolding ld1
    by (intro mirrored_set [OF Cons.prems(2)]) (use s in auto)
  moreover have "\<forall>c2 \<in> set cs. unmoved sha256 ld1 c2"
  proof
    fix c2 assume c2: "c2 \<in> set cs"
    then have "bs_state_ref ?s \<noteq> bs_state_ref (rc_current c2)"
      "pool_ref_for_state sha256 ?s \<noteq> pool_ref_for_state sha256 (rc_current c2)"
      using Cons.prems(4,5) by auto
    with Cons.prems(3) c2 show "unmoved sha256 ld1 c2" by (simp add: unmoved_def ld1)
  qed
  ultimately show ?case using Cons.IH [OF rest] Cons.prems(4,5) by simp
qed

lemma granted_unmoved:
  assumes acc: "accounts_mirrored sha256 (ledger_of sn)" and vector: "distinct_vector sha256 sn policy"
    and granted: "list_all2 (granted sha256 policy generation q (ledger_of sn)) (rp_demands policy) cs"
  shows "\<forall>c \<in> set cs. unmoved sha256 (ledger_of sn) c"
    and "distinct (map (\<lambda>c. bs_state_ref (rc_current c)) cs)"
    and "distinct (map (\<lambda>c. pool_ref_for_state sha256 (rc_current c)) cs)"
proof -
  let ?pools = "\<lambda>d. case dict_get (sn_states sn) (demand_state_ref policy d) of None \<Rightarrow> [] | Some s \<Rightarrow> [pool_ref_for_state sha256 s]"
  have one: "unmoved sha256 (ledger_of sn) c \<and> bs_state_ref (rc_current c) = demand_state_ref policy d \<and>
      ?pools d = [pool_ref_for_state sha256 (rc_current c)]"
    if "granted sha256 policy generation q (ledger_of sn) d c" for d c
    using that mirrored_account(1) [OF acc] by (auto simp: granted_def unmoved_def)
  have all: "list_all2 (granted sha256 policy generation q (ledger_of sn)) ds cs \<Longrightarrow>
      (\<forall>c \<in> set cs. unmoved sha256 (ledger_of sn) c) \<and>
      map (\<lambda>c. bs_state_ref (rc_current c)) cs = map (demand_state_ref policy) ds \<and>
      map (\<lambda>c. pool_ref_for_state sha256 (rc_current c)) cs = concat (map ?pools ds)" for ds cs
  proof (induction rule: list_all2_induct)
    case Nil
    show ?case by simp
  next
    case (Cons d ds c cs)
    with one [OF Cons.hyps(1)] show ?case by simp
  qed
  have "distinct (map (demand_state_ref policy) (rp_demands policy))"
    using vector by (auto simp: distinct_vector_def distinct_map inj_on_def demand_ref_inj)
  with all [OF granted] vector show "\<forall>c \<in> set cs. unmoved sha256 (ledger_of sn) c"
    "distinct (map (\<lambda>c. bs_state_ref (rc_current c)) cs)" "distinct (map (\<lambda>c. pool_ref_for_state sha256 (rc_current c)) cs)"
    unfolding distinct_vector_def by simp_all
qed

lemma reserve_outcomes:
  assumes run: "reserve_participant_resources sha256 sn policy op generation q = Inr r"
  obtains (replayed) "r = apply_ok sn"
    | (refused) "refused sha256 sn policy op generation r"
    | (reserved) cs ld sn' where "list_all2 (granted sha256 policy generation q (ledger_of sn)) (rp_demands policy) cs"
        and "res_fold (apply_reservation policy op generation) (ledger_of sn) cs = Inr ld"
        and "commit_ledger sha256 sn ld = Inr sn'" and "r = apply_ok sn'"
proof -
  let ?check = "check_reservations (check_reservation sha256 sn policy op generation q (ledger_of sn)) (rp_demands policy)"
  show thesis
  proof (cases "list_all (dict_has (sn_events sn))
      (map (\<lambda>d. reserve_event_id op (demand_state_ref policy d)) (rp_demands policy)) \<and> rp_demands policy \<noteq> []")
    case True
    with run show thesis by (intro replayed) (auto simp: reserve_participant_resources_def Let_def)
  next
    case False
    with run obtain out where out: "?check = Inr out"
      and rest: "(case out of Inl failure \<Rightarrow> Inr failure | Inr cs \<Rightarrow>
        res_bind (res_fold (apply_reservation policy op generation) (ledger_of sn) cs) (\<lambda>ld.
        res_bind (commit_ledger sha256 sn ld) (\<lambda>sn'. Inr (apply_ok sn')))) = Inr r"
      unfolding reserve_participant_resources_def Let_def by (auto elim!: res_bind_InrE split: if_splits)
    show thesis
    proof (cases out)
      case (Inl failure)
      with out rest obtain d where "check_reservation sha256 sn policy op generation q (ledger_of sn) d = Inr (Inl r)"
        using check_reservations_refused by fastforce
      then show thesis by (intro refused check_reservation_refused)
    next
      case (Inr cs)
      with out have "list_all2 (granted sha256 policy generation q (ledger_of sn)) (rp_demands policy) cs"
        using check_reservations_granted check_reservation_granted by (fastforce elim: list_all2_mono)
      with Inr rest show thesis by (auto elim!: res_bind_InrE intro: reserved)
    qed
  qed
qed

lemma reserve_writes:
  assumes acc: "accounts_mirrored sha256 (ledger_of sn)" and vector: "distinct_vector sha256 sn policy"
    and run: "reserve_participant_resources sha256 sn policy op generation q = Inr r"
  shows "writes_mirrored sha256 sn (ar_snapshot r)"
  using run
proof (cases rule: reserve_outcomes)
  case replayed
  then show ?thesis by (simp add: apply_ok_def)
next
  case refused
  then consider code where "r = apply_failed sn code (rp_address policy)"
    | d s e sn' where "dict_get (sn_states sn) (demand_state_ref policy d) = Some s"
      "commit_ledger sha256 sn (throttled_ledger policy op (ledger_of sn) s e) = Inr sn'"
      "r = apply_failed sn' ''runtime.participant-resource-throttled'' (rp_address policy)"
    unfolding refused_def by blast
  then show ?thesis
  proof cases
    case 1
    then show ?thesis by (simp add: apply_failed_def)
  next
    case (2 d s e sn')
    have ref: "bs_state_ref s = demand_state_ref policy d" using mirrored_account(1) [OF acc] 2(1) by simp
    have "accounts_mirrored sha256 (throttled_ledger policy op (ledger_of sn) s e)"
      unfolding throttled_ledger_def Let_def
      by (rule mirrored_note [OF acc, of _ s]) (use 2(1) ref in \<open>auto simp: agrees_def pool_ref_for_state_def\<close>)
    with writes_ledger [OF 2(2)] 2(3) show ?thesis by (simp add: apply_failed_def)
  qed
next
  case (reserved cs ld sn')
  have "accounts_mirrored sha256 ld"
    by (rule applied_mirrored [OF reserved(2) acc granted_unmoved [OF acc vector reserved(1)]])
  with writes_ledger [OF reserved(3)] reserved(4) show ?thesis by (simp add: apply_ok_def)
qed

section \<open>Any sequence of calls\<close>

text \<open>The five operations, called with any arguments and in any order.\<close>

inductive budget_call :: "(string \<Rightarrow> string) \<Rightarrow> 'rest budget_snapshot \<Rightarrow> 'rest budget_snapshot \<Rightarrow> bool"
  for sha256 where
  initialize: "initialize_participant_resource_budgets sha256 sn policies caps generation = Inr res \<Longrightarrow>
     budget_call sha256 sn (ar_snapshot res)"
| reserve: "distinct_vector sha256 sn policy \<Longrightarrow>
     reserve_participant_resources sha256 sn policy op generation amounts = Inr res \<Longrightarrow>
     budget_call sha256 sn (ar_snapshot res)"
| commit: "commit_participant_resource_reservation sha256 sn op generation measured evidence = Inr res \<Longrightarrow>
     budget_call sha256 sn (ar_snapshot res)"
| release: "release_participant_resource_reservation sha256 sn op generation evidence = Inr res \<Longrightarrow>
     budget_call sha256 sn (ar_snapshot res)"
| reconcile: "reconcile_participant_resource_budgets sha256 sn policy current next boundary evidence = Inr res \<Longrightarrow>
     budget_call sha256 sn (ar_snapshot res)"

definition sound_accounts :: "(string \<Rightarrow> string) \<Rightarrow> 'rest budget_snapshot \<Rightarrow> bool" where
  "sound_accounts sha256 sn \<longleftrightarrow>
     accounts_mirrored sha256 (ledger_of sn) \<and>
     (\<forall>(ref, s) \<in> set (sn_states sn). check_budget_state s = Inr ()) \<and>
     (\<forall>(k, p) \<in> set (sn_pools sn). check_pool_state sha256 p = Inr ())"

lemma written_sound:
  assumes "writes_mirrored sha256 sn sn'" and "sound_accounts sha256 sn"
  shows "sound_accounts sha256 sn'"
proof (cases "sn' = sn")
  case True
  with assms(2) show ?thesis by simp
next
  case False
  then obtain ld where ld: "commit_ledger sha256 sn ld = Inr sn'" "accounts_mirrored sha256 ld"
    using assms(1) by (auto simp: writes_mirrored_def)
  have "require_budget_snapshot sha256 (ld_states ld) (ld_pools ld) (ld_events ld) = Inr ()"
    using ld(1) by (auto simp: commit_ledger_def with_budget_entries_def res_bind_Inr_iff)
  then have "\<forall>(ref, s) \<in> set (ld_states ld). check_budget_state s = Inr ()"
    "\<forall>(k, p) \<in> set (ld_pools ld). check_pool_state sha256 p = Inr ()"
    by (fastforce simp: require_budget_snapshot_def res_bind_Inr_iff res_all_Inr)+
  with ld(2) commit_ledger_Inr [OF ld(1)] show ?thesis by (simp add: sound_accounts_def)
qed

lemma call_sound: "budget_call sha256 sn sn' \<Longrightarrow> sound_accounts sha256 sn \<Longrightarrow> sound_accounts sha256 sn'"
proof (induction rule: budget_call.induct)
  case initialize
  then show ?case by (meson sound_accounts_def written_sound initialize_writes)
next
  case reserve
  then show ?case by (meson sound_accounts_def written_sound reserve_writes)
next
  case commit
  then show ?case by (meson sound_accounts_def written_sound commit_writes)
next
  case release
  then show ?case by (meson sound_accounts_def written_sound release_writes)
next
  case reconcile
  then show ?case by (meson sound_accounts_def written_sound reconcile_writes)
qed

lemma calls_sound: "(budget_call sha256)\<^sup>*\<^sup>* sn sn' \<Longrightarrow> sound_accounts sha256 sn \<Longrightarrow> sound_accounts sha256 sn'"
  by (induction rule: rtranclp_induct) (auto intro: call_sound)

lemma no_budgets_sound: "no_budgets sn \<Longrightarrow> sound_accounts sha256 sn"
  by (simp add: no_budgets_def sound_accounts_def accounts_mirrored_def ledger_of_def)

lemma checked_pool_capacity: "check_pool_state sha256 p = Inr () \<Longrightarrow> pool_allocated_total p \<le> pl_capacity p"
  by (auto simp: check_pool_state_def res_bind_Inr_iff enforce_def split: if_splits)

lemma checked_budget_limit: "check_budget_state s = Inr () \<Longrightarrow> bs_reserved s + bs_current_use s \<le> bs_limit s"
  by (auto simp: check_budget_state_def res_bind_Inr_iff enforce_def split: if_splits)

text \<open>
  C27. Budgets and pools never drift apart, whatever the callers do. After any sequence of calls of
  the five operations from a snapshot without budgets, with any operation identifiers, generations,
  measurements and in any order, failing calls included: every budget has an allocation in its
  pool with the same reserved, current and cumulative amounts and the same generation, it does not
  hold more than its limit, and no pool promises more than its capacity. Of a reserved vector only
  this is asked: its demands are different budgets on different pools, as the validation of
  policies requires.
\<close>

theorem pools_mirror_budgets:
  assumes start: "no_budgets sn" and calls: "(budget_call sha256)\<^sup>*\<^sup>* sn sn'"
  shows "(\<forall>ref s. dict_get (sn_states sn') ref = Some s \<longrightarrow>
      bs_reserved s + bs_current_use s \<le> bs_limit s \<and>
      (\<exists>p a. dict_get (sn_pools sn') (pool_ref_for_state sha256 s) = Some p \<and> allocation_at p ref = Some a \<and>
         al_reserved a = bs_reserved s \<and> al_current_use a = bs_current_use s \<and>
         al_cumulative_use a = bs_cumulative_use s \<and> al_generation a = bs_generation s)) \<and>
    (\<forall>k p. dict_get (sn_pools sn') k = Some p \<longrightarrow> pool_allocated_total p \<le> pl_capacity p)"
proof -
  have sound: "sound_accounts sha256 sn'" using calls_sound [OF calls] no_budgets_sound [OF start] by blast
  then have "\<forall>ref s. dict_get (sn_states sn') ref = Some s \<longrightarrow> mirrored sha256 (sn_pools sn') ref s"
    by (simp add: sound_accounts_def accounts_mirrored_def)
  moreover have "\<forall>ref s. dict_get (sn_states sn') ref = Some s \<longrightarrow> bs_reserved s + bs_current_use s \<le> bs_limit s"
    using sound dict_get_Some_in checked_budget_limit by (fastforce simp: sound_accounts_def)
  moreover have "\<forall>k p. dict_get (sn_pools sn') k = Some p \<longrightarrow> pool_allocated_total p \<le> pl_capacity p"
    using sound dict_get_Some_in checked_pool_capacity by (fastforce simp: sound_accounts_def)
  ultimately show ?thesis by (simp add: mirrored_def agrees_def)
qed

text \<open>The run with a release after the commit of the same operation, which unbalances the books.\<close>

definition demo_freed :: "unit budget_snapshot" where
  "demo_freed =
     (case release_participant_resource_reservation demo_hash demo_shared ''o1'' 0 [''w''] of Inr r \<Rightarrow> ar_snapshot r | Inl e \<Rightarrow> demo_shared)"

lemma demo_freed_run:
  "\<exists>r. release_participant_resource_reservation demo_hash demo_shared ''o1'' 0 [''w''] = Inr r \<and> ar_snapshot r = demo_freed"
  "\<exists>s. dict_get (sn_states demo_freed) token_ref = Some s \<and> bs_reserved s = 0"
  using release_after_commit_frees_other unfolding demo_freed_def by (auto split: sum.splits)

lemma demo_vectors: "distinct_vector demo_hash demo_opened demo_policy" "distinct_vector demo_hash demo_committed demo_policy"
  by code_simp+

lemma pools_mirror_budgets_witness:
  "\<exists>s p a. dict_get (sn_states demo_freed) token_ref = Some s \<and>
     dict_get (sn_pools demo_freed) (pool_ref_for_state demo_hash s) = Some p \<and> allocation_at p token_ref = Some a \<and>
     al_reserved a = 0 \<and> al_cumulative_use a = bs_cumulative_use s"
proof -
  let ?c = "budget_call demo_hash :: unit budget_snapshot \<Rightarrow> unit budget_snapshot \<Rightarrow> bool"
  have steps: "?c demo_empty demo_opened" "?c demo_opened demo_reserved" "?c demo_reserved demo_committed" "?c demo_committed demo_shared"
    using budget_call.initialize [OF demo_opened_run] budget_call.reserve [OF demo_vectors(1) demo_reserved_run]
      budget_call.commit [OF demo_committed_run] budget_call.reserve [OF demo_vectors(2) demo_shared_run] by simp_all
  have "?c demo_shared demo_freed" using demo_freed_run(1) budget_call.release by metis
  then have "?c\<^sup>*\<^sup>* demo_shared demo_freed" by (rule r_into_rtranclp [of ?c])
  then have "?c\<^sup>*\<^sup>* demo_committed demo_freed" by (rule converse_rtranclp_into_rtranclp [of ?c, OF steps(4)])
  then have "?c\<^sup>*\<^sup>* demo_reserved demo_freed" by (rule converse_rtranclp_into_rtranclp [of ?c, OF steps(3)])
  then have "?c\<^sup>*\<^sup>* demo_opened demo_freed" by (rule converse_rtranclp_into_rtranclp [of ?c, OF steps(2)])
  then have "?c\<^sup>*\<^sup>* demo_empty demo_freed" by (rule converse_rtranclp_into_rtranclp [of ?c, OF steps(1)])
  note mirror = pools_mirror_budgets [OF demo_no_budgets this]
  obtain s where s: "dict_get (sn_states demo_freed) token_ref = Some s" "bs_reserved s = 0"
    using demo_freed_run(2) by blast
  with mirror show ?thesis by fastforce
qed

end
