(* ===== verification/Episode_Contracts.thy ===== *)
theory Episode_Contracts
  imports Py_Text
begin

text \<open>
  Participant episodes, \<open>raes_contracts/participant_episode.py\<close>: the execution state and the
  history event with their payload codecs and the checks of their constructors. Decoding a
  payload runs the constructor, so what is decoded is well-formed, and what is well-formed
  survives a round trip.
\<close>

section \<open>Enumerations\<close>

datatype episode_status = EP_INITIALIZING | EP_RUNNING | EP_TERMINATED

datatype terminal_reason = COMPLETED | TIMED_OUT | TRUNCATED | INTERRUPTED

datatype control_action = INITIALIZE | RESET | RESTART

datatype episode_event_type =
    EPISODE_INITIALIZED | EPISODE_RUNNING | EPISODE_COMPLETED | EPISODE_TIMED_OUT
  | EPISODE_TRUNCATED | EPISODE_INTERRUPTED | EPISODE_RESET | EPISODE_RESTARTED

fun status_text :: "episode_status \<Rightarrow> string" where
  "status_text EP_INITIALIZING = ''initializing''"
| "status_text EP_RUNNING = ''running''"
| "status_text EP_TERMINATED = ''terminated''"

fun reason_text :: "terminal_reason \<Rightarrow> string" where
  "reason_text COMPLETED = ''completed''"
| "reason_text TIMED_OUT = ''timed_out''"
| "reason_text TRUNCATED = ''truncated''"
| "reason_text INTERRUPTED = ''interrupted''"

fun action_text :: "control_action \<Rightarrow> string" where
  "action_text INITIALIZE = ''initialize''"
| "action_text RESET = ''reset''"
| "action_text RESTART = ''restart''"

fun event_type_text :: "episode_event_type \<Rightarrow> string" where
  "event_type_text EPISODE_INITIALIZED = ''episode_initialized''"
| "event_type_text EPISODE_RUNNING = ''episode_running''"
| "event_type_text EPISODE_COMPLETED = ''episode_completed''"
| "event_type_text EPISODE_TIMED_OUT = ''episode_timed_out''"
| "event_type_text EPISODE_TRUNCATED = ''episode_truncated''"
| "event_type_text EPISODE_INTERRUPTED = ''episode_interrupted''"
| "event_type_text EPISODE_RESET = ''episode_reset''"
| "event_type_text EPISODE_RESTARTED = ''episode_restarted''"

definition all_statuses :: "episode_status list" where
  "all_statuses = [EP_INITIALIZING, EP_RUNNING, EP_TERMINATED]"

definition all_reasons :: "terminal_reason list" where
  "all_reasons = [COMPLETED, TIMED_OUT, TRUNCATED, INTERRUPTED]"

definition all_actions :: "control_action list" where
  "all_actions = [INITIALIZE, RESET, RESTART]"

definition all_event_types :: "episode_event_type list" where
  "all_event_types = [EPISODE_INITIALIZED, EPISODE_RUNNING, EPISODE_COMPLETED, EPISODE_TIMED_OUT,
     EPISODE_TRUNCATED, EPISODE_INTERRUPTED, EPISODE_RESET, EPISODE_RESTARTED]"

fun terminal_event_reason :: "episode_event_type \<Rightarrow> terminal_reason option" where
  "terminal_event_reason EPISODE_COMPLETED = Some COMPLETED"
| "terminal_event_reason EPISODE_TIMED_OUT = Some TIMED_OUT"
| "terminal_event_reason EPISODE_TRUNCATED = Some TRUNCATED"
| "terminal_event_reason EPISODE_INTERRUPTED = Some INTERRUPTED"
| "terminal_event_reason _ = None"

fun control_event_action :: "episode_event_type \<Rightarrow> control_action option" where
  "control_event_action EPISODE_INITIALIZED = Some INITIALIZE"
| "control_event_action EPISODE_RESET = Some RESET"
| "control_event_action EPISODE_RESTARTED = Some RESTART"
| "control_event_action _ = None"

lemma enumeration_members [simp]:
  "x \<in> set all_statuses" "r \<in> set all_reasons" "a \<in> set all_actions" "t \<in> set all_event_types"
proof -
  show "x \<in> set all_statuses" by (cases x) (simp_all add: all_statuses_def)
  show "r \<in> set all_reasons" by (cases r) (simp_all add: all_reasons_def)
  show "a \<in> set all_actions" by (cases a) (simp_all add: all_actions_def)
  show "t \<in> set all_event_types" by (cases t) (simp_all add: all_event_types_def)
qed

lemma enumeration_texts [simp]:
  "inj_on status_text A" "inj_on reason_text B" "inj_on action_text C" "inj_on event_type_text D"
proof -
  have "status_text x = status_text y \<Longrightarrow> x = y" for x y by (cases x; cases y) simp_all
  then show "inj_on status_text A" by (auto simp: inj_on_def)
  have "reason_text x = reason_text y \<Longrightarrow> x = y" for x y by (cases x; cases y) simp_all
  then show "inj_on reason_text B" by (auto simp: inj_on_def)
  have "action_text x = action_text y \<Longrightarrow> x = y" for x y by (cases x; cases y) simp_all
  then show "inj_on action_text C" by (auto simp: inj_on_def)
  have "event_type_text x = event_type_text y \<Longrightarrow> x = y" for x y by (cases x; cases y) simp_all
  then show "inj_on event_type_text D" by (auto simp: inj_on_def)
qed

section \<open>The execution state\<close>

record episode_state =
  et_schema :: string
  et_participant :: string
  et_episode :: string
  et_sequence :: int
  et_status :: episode_status
  et_reason :: "terminal_reason option"
  et_initialized_at :: string
  et_updated_at :: string
  et_terminated_at :: "string option"
  et_action :: control_action
  et_previous :: "string option"

definition validate_state_types :: "episode_state \<Rightarrow> unit res" where
  "validate_state_types s =
     res_bind (require_non_empty_string (et_schema s) ''participant episode state_schema_version'') (\<lambda>_.
     res_bind (require_non_empty_string (et_participant s) ''participant_address'') (\<lambda>_.
     res_bind (require_non_empty_string (et_episode s) ''episode_id'') (\<lambda>_.
     res_bind (require_non_negative_int (et_sequence s) ''sequence_number'') (\<lambda>_.
     res_bind (require_non_empty_string (et_initialized_at s) ''initialized_at'') (\<lambda>_.
     res_bind (require_non_empty_string (et_updated_at s) ''updated_at'') (\<lambda>_.
     res_bind (require_optional_non_empty_string (et_terminated_at s) ''terminated_at'') (\<lambda>_.
       require_optional_non_empty_string (et_previous s) ''previous_episode_id'')))))))"

definition validate_state_status :: "episode_state \<Rightarrow> unit res" where
  "validate_state_status s =
     (if et_status s \<noteq> EP_TERMINATED
      then res_bind (require_that (et_reason s = None)
               (ValueError ''non-terminal participant episodes may not report a terminal_reason'')) (\<lambda>_.
             require_that (et_terminated_at s = None)
               (ValueError ''non-terminal participant episodes may not report a terminated_at timestamp''))
      else res_bind (require_that (et_reason s \<noteq> None)
               (ValueError ''terminated participant episodes must report a terminal_reason'')) (\<lambda>_.
             require_that (et_terminated_at s \<noteq> None)
               (ValueError ''terminated participant episodes must report a terminated_at timestamp'')))"

definition validate_state_sequence :: "episode_state \<Rightarrow> unit res" where
  "validate_state_sequence s =
     (if et_sequence s = 0
      then res_bind (require_that (et_action s = INITIALIZE)
               (ValueError ''the first participant episode must use the INITIALIZE control action'')) (\<lambda>_.
             require_that (et_previous s = None)
               (ValueError ''the first participant episode must not link to a previous episode''))
      else res_bind (require_that (et_action s \<noteq> INITIALIZE)
               (ValueError ''subsequent participant episodes must use RESET or RESTART'')) (\<lambda>_.
           res_bind (require_that (et_previous s \<noteq> None)
               (ValueError ''subsequent participant episodes must link to a previous_episode_id'')) (\<lambda>_.
             require_that (et_previous s \<noteq> Some (et_episode s))
               (ValueError ''previous_episode_id must differ from episode_id''))))"

definition make_episode_state :: "episode_state \<Rightarrow> episode_state res" where
  "make_episode_state s =
     res_bind (validate_state_types s) (\<lambda>_.
     res_bind (validate_state_status s) (\<lambda>_.
     res_bind (validate_state_sequence s) (\<lambda>_. Inr s)))"

definition state_payload :: "episode_state \<Rightarrow> (string, py_value) pydict" where
  "state_payload s =
     [(''state_schema_version'', PyStr (et_schema s)),
      (''participant_address'', PyStr (et_participant s)),
      (''episode_id'', PyStr (et_episode s)),
      (''sequence_number'', PyInt (et_sequence s)),
      (''status'', PyStr (status_text (et_status s))),
      (''terminal_reason'', py_opt reason_text (et_reason s)),
      (''initialized_at'', PyStr (et_initialized_at s)),
      (''updated_at'', PyStr (et_updated_at s)),
      (''terminated_at'', py_opt (\<lambda>t. t) (et_terminated_at s)),
      (''last_control_action'', PyStr (action_text (et_action s))),
      (''previous_episode_id'', py_opt (\<lambda>e. e) (et_previous s))]"

definition state_from_payload :: "(64 word \<Rightarrow> string) \<Rightarrow> py_value \<Rightarrow> episode_state res" where
  "state_from_payload ft v =
     (case py_mapping v of
        None \<Rightarrow> Inl (TypeError ''participant episode payload must be a mapping'')
      | Some d \<Rightarrow>
          res_bind (require_keys [''state_schema_version'', ''participant_address'', ''episode_id'',
              ''sequence_number'', ''status'', ''initialized_at'', ''updated_at'', ''last_control_action''] d
              ''participant episode payload is missing required fields'') (\<lambda>_.
          res_bind (py_int (py_get d ''sequence_number'')
              ''participant episode sequence_number must be an int'') (\<lambda>number.
          res_bind (enum_value ft status_text all_statuses (py_get d ''status'')) (\<lambda>status.
          res_bind (optional_enum_value ft reason_text all_reasons (py_get d ''terminal_reason'')) (\<lambda>reason.
          res_bind (enum_value ft action_text all_actions (py_get d ''last_control_action'')) (\<lambda>action.
            make_episode_state
              \<lparr>et_schema = py_str ft (py_get d ''state_schema_version''),
               et_participant = py_str ft (py_get d ''participant_address''),
               et_episode = py_str ft (py_get d ''episode_id''), et_sequence = number,
               et_status = status, et_reason = reason,
               et_initialized_at = py_str ft (py_get d ''initialized_at''),
               et_updated_at = py_str ft (py_get d ''updated_at''),
               et_terminated_at = optional_text ft d ''terminated_at'', et_action = action,
               et_previous = optional_text ft d ''previous_episode_id''\<rparr>))))))"

section \<open>The history event\<close>

record episode_event =
  ee_type :: episode_event_type
  ee_timestamp :: string
  ee_participant :: string
  ee_episode :: string
  ee_sequence :: int
  ee_reason :: "terminal_reason option"
  ee_action :: "control_action option"
  ee_details :: "(string, py_value) pydict"

definition validate_history_types :: "episode_event \<Rightarrow> unit res" where
  "validate_history_types e =
     res_bind (require_non_empty_string (ee_timestamp e) ''timestamp'') (\<lambda>_.
     res_bind (require_non_empty_string (ee_participant e) ''participant_address'') (\<lambda>_.
     res_bind (require_non_empty_string (ee_episode e) ''episode_id'') (\<lambda>_.
       require_non_negative_int (ee_sequence e) ''sequence_number'')))"

definition validate_history_terminal_reason :: "episode_event \<Rightarrow> unit res" where
  "validate_history_terminal_reason e =
     (case terminal_event_reason (ee_type e) of
        None \<Rightarrow> require_that (ee_reason e = None)
                   (ValueError (event_type_text (ee_type e) @ '' history events may not report a terminal_reason''))
      | Some expected \<Rightarrow> require_that (ee_reason e = Some expected)
                   (ValueError (event_type_text (ee_type e) @ '' history events must report terminal_reason '' @
                      reason_text expected)))"

definition validate_history_control_action :: "episode_event \<Rightarrow> unit res" where
  "validate_history_control_action e =
     (case control_event_action (ee_type e) of
        None \<Rightarrow> require_that (ee_action e = None)
                   (ValueError (event_type_text (ee_type e) @ '' history events may not report a control_action''))
      | Some expected \<Rightarrow> require_that (ee_action e = Some expected)
                   (ValueError (event_type_text (ee_type e) @ '' history events must report control_action '' @
                      action_text expected)))"

definition validate_history_sequence :: "episode_event \<Rightarrow> unit res" where
  "validate_history_sequence e =
     res_bind (require_that (\<not> (ee_type e = EPISODE_INITIALIZED \<and> ee_sequence e \<noteq> 0))
         (ValueError ''episode_initialized history events must report sequence_number=0'')) (\<lambda>_.
       require_that (\<not> (ee_type e \<in> {EPISODE_RESET, EPISODE_RESTARTED} \<and> ee_sequence e = 0))
         (ValueError (event_type_text (ee_type e) @ '' history events must report sequence_number>0'')))"

definition make_episode_event :: "episode_event \<Rightarrow> episode_event res" where
  "make_episode_event e =
     res_bind (validate_history_types e) (\<lambda>_.
     res_bind (validate_history_terminal_reason e) (\<lambda>_.
     res_bind (validate_history_control_action e) (\<lambda>_.
     res_bind (validate_history_sequence e) (\<lambda>_. Inr e))))"

definition event_payload :: "episode_event \<Rightarrow> (string, py_value) pydict" where
  "event_payload e =
     [(''event_type'', PyStr (event_type_text (ee_type e))),
      (''timestamp'', PyStr (ee_timestamp e)),
      (''participant_address'', PyStr (ee_participant e)),
      (''episode_id'', PyStr (ee_episode e)),
      (''sequence_number'', PyInt (ee_sequence e)),
      (''terminal_reason'', py_opt reason_text (ee_reason e)),
      (''control_action'', py_opt action_text (ee_action e)),
      (''details'', PyDict (ee_details e))]"

definition event_from_payload :: "(64 word \<Rightarrow> string) \<Rightarrow> py_value \<Rightarrow> episode_event res" where
  "event_from_payload ft v =
     (case py_mapping v of
        None \<Rightarrow> Inl (TypeError ''participant episode history event must be a mapping'')
      | Some d \<Rightarrow>
          res_bind (require_keys [''event_type'', ''timestamp'', ''participant_address'', ''episode_id'',
              ''sequence_number''] d ''participant episode history event is missing required fields'') (\<lambda>_.
          res_bind (py_int (py_get d ''sequence_number'')
              ''participant episode history sequence_number must be an int'') (\<lambda>number.
          res_bind (enum_value ft event_type_text all_event_types (py_get d ''event_type'')) (\<lambda>type.
          res_bind (optional_enum_value ft reason_text all_reasons (py_get d ''terminal_reason'')) (\<lambda>reason.
          res_bind (optional_enum_value ft action_text all_actions (py_get d ''control_action'')) (\<lambda>action.
            make_episode_event
              \<lparr>ee_type = type, ee_timestamp = py_str ft (py_get d ''timestamp''),
               ee_participant = py_str ft (py_get d ''participant_address''),
               ee_episode = py_str ft (py_get d ''episode_id''), ee_sequence = number,
               ee_reason = reason, ee_action = action,
               ee_details = (case py_mapping (py_get d ''details'') of None \<Rightarrow> [] | Some details \<Rightarrow> details)\<rparr>))))))"

section \<open>Well-formed states and events\<close>

definition episode_state_ok :: "episode_state \<Rightarrow> bool" where
  "episode_state_ok s \<longleftrightarrow>
     et_schema s \<noteq> [] \<and> et_participant s \<noteq> [] \<and> et_episode s \<noteq> [] \<and> 0 \<le> et_sequence s \<and>
     et_initialized_at s \<noteq> [] \<and> et_updated_at s \<noteq> [] \<and> et_terminated_at s \<noteq> Some [] \<and> et_previous s \<noteq> Some [] \<and>
     (et_status s = EP_TERMINATED \<longleftrightarrow> et_reason s \<noteq> None) \<and>
     (et_status s = EP_TERMINATED \<longleftrightarrow> et_terminated_at s \<noteq> None) \<and>
     (et_sequence s = 0 \<longleftrightarrow> et_action s = INITIALIZE) \<and> (et_sequence s = 0 \<longleftrightarrow> et_previous s = None) \<and>
     et_previous s \<noteq> Some (et_episode s)"

definition episode_event_ok :: "episode_event \<Rightarrow> bool" where
  "episode_event_ok e \<longleftrightarrow>
     ee_timestamp e \<noteq> [] \<and> ee_participant e \<noteq> [] \<and> ee_episode e \<noteq> [] \<and> 0 \<le> ee_sequence e \<and>
     ee_reason e = terminal_event_reason (ee_type e) \<and> ee_action e = control_event_action (ee_type e) \<and>
     (ee_type e = EPISODE_INITIALIZED \<longrightarrow> ee_sequence e = 0) \<and>
     (ee_type e \<in> {EPISODE_RESET, EPISODE_RESTARTED} \<longrightarrow> ee_sequence e \<noteq> 0)"

lemma make_episode_state_Inr: "make_episode_state s = Inr t \<longleftrightarrow> episode_state_ok s \<and> t = s"
  by (cases "et_status s = EP_TERMINATED"; cases "et_sequence s = 0"; cases "et_previous s")
    (auto simp: make_episode_state_def validate_state_types_def validate_state_status_def
      validate_state_sequence_def episode_state_ok_def res_bind_Inr_iff)

lemma make_episode_event_Inr: "make_episode_event e = Inr f \<longleftrightarrow> episode_event_ok e \<and> f = e"
  by (cases "terminal_event_reason (ee_type e)"; cases "control_event_action (ee_type e)")
    (auto simp: make_episode_event_def validate_history_types_def validate_history_terminal_reason_def
      validate_history_control_action_def validate_history_sequence_def episode_event_ok_def res_bind_Inr_iff)

lemma py_str_PyStr [simp]: "py_str ft (PyStr s) = s"
  by simp

lemma optional_text_opt: "py_get d k = py_opt (\<lambda>t. t) v \<Longrightarrow> optional_text ft d k = v"
  by (cases v) (simp_all add: optional_text_def py_opt_def)

lemma payload_get [simp]:
  "py_get ((k, v) # d) k = v" "j \<noteq> k \<Longrightarrow> py_get ((k, v) # d) j = py_get d j" "py_get [] j = PyNone"
  "dict_has ((k, v) # d) j \<longleftrightarrow> j = k \<or> dict_has d j" "\<not> dict_has [] j"
  by (auto simp: py_get_def dict_get_def dict_has_def dict_keys_def)

lemma state_decoded_ok: "state_from_payload ft v = Inr s \<Longrightarrow> episode_state_ok s"
  by (auto simp: state_from_payload_def make_episode_state_Inr elim!: res_bind_InrE split: option.splits)

lemma event_decoded_ok: "event_from_payload ft v = Inr e \<Longrightarrow> episode_event_ok e"
  by (auto simp: event_from_payload_def make_episode_event_Inr elim!: res_bind_InrE split: option.splits)

lemma state_round_trip: "episode_state_ok s \<Longrightarrow> state_from_payload ft (PyDict (state_payload s)) = Inr s"
  by (cases s) (simp add: state_from_payload_def state_payload_def enum_value_text optional_enum_value_text
      optional_text_opt require_keys_def make_episode_state_Inr)

lemma event_round_trip: "episode_event_ok e \<Longrightarrow> event_from_payload ft (PyDict (event_payload e)) = Inr e"
  by (cases e) (simp add: event_from_payload_def event_payload_def enum_value_text optional_enum_value_text
      require_keys_def make_episode_event_Inr)

section \<open>The codecs\<close>

text \<open>
  Decoding an episode state admits well-formed states only, and loses nothing: whatever
  payload a state was decoded from, it is in the schema of the constructor's checks, and its own
  payload decodes to the very same state.
\<close>

lemma episode_state_codec:
  assumes "state_from_payload ft v = Inr s"
  shows "episode_state_ok s \<and> state_from_payload ft (PyDict (state_payload s)) = Inr s"
  using state_decoded_ok [OF assms] state_round_trip by blast

text \<open>
  Encoding and decoding a history event is the identity on well-formed events, and a decoded
  event is well-formed: its reason and control action are those its type dictates.
\<close>

theorem episode_event_codec:
  "(episode_event_ok e \<longleftrightarrow> event_from_payload ft (PyDict (event_payload e)) = Inr e) \<and>
   (case event_from_payload ft v of Inl x \<Rightarrow> True | Inr f \<Rightarrow> episode_event_ok f \<and>
      ee_reason f = terminal_event_reason (ee_type f) \<and> ee_action f = control_event_action (ee_type f))"
  using event_decoded_ok event_round_trip
  by (auto split: sum.splits simp: episode_event_ok_def dest: event_decoded_ok)

section \<open>Witnesses\<close>

definition demo_episode :: episode_state where
  "demo_episode =
     \<lparr>et_schema = ''participant-episode-state/v1'', et_participant = ''participant.red'', et_episode = ''e1'',
      et_sequence = 1, et_status = EP_TERMINATED, et_reason = Some TIMED_OUT, et_initialized_at = ''t0'',
      et_updated_at = ''t1'', et_terminated_at = Some ''t1'', et_action = RESET, et_previous = Some ''e0''\<rparr>"

lemma episode_state_codec_witness:
  "episode_state_ok demo_episode \<and>
   state_from_payload (\<lambda>w. ''0.0'') (PyDict (state_payload demo_episode)) = Inr demo_episode"
proof -
  have "state_from_payload (\<lambda>w. ''0.0'') (PyDict (state_payload demo_episode)) = Inr demo_episode" by code_simp
  from episode_state_codec [OF this] show ?thesis .
qed

end
