(* ===== verification/Episode_Checker.thy ===== *)
theory Episode_Checker
  imports Episode_Contracts
begin

text \<open>
  The participant-episode invariants of a snapshot as the code checks them,
  \<open>raes_contracts/participant_episode_snapshot.py\<close>: a list of violations, each with its locator.
  The texts of the violations are presentation; here a violation is a constructor holding the
  values its text shows. The checker is proved to decide a declarative notion of a sound
  snapshot.
\<close>

section \<open>Violations\<close>

datatype violation =
    NOT_A_MAPPING
  | BAD_KEY
  | RESULT_NOT_A_MAPPING
  | RESULT_INVALID py_exn
  | RESULT_KEY_MISMATCH string
  | HISTORY_NOT_A_LIST
  | EVENT_NOT_A_MAPPING
  | EVENT_INVALID py_exn
  | EVENT_KEY_MISMATCH string
  | SEQUENCE_BACKWARD int int
  | SEQUENCE_ADVANCE int episode_event_type
  | EPISODE_CHANGED int string string
  | HEAD_MISMATCH string int string int
  | HEAD_NOT_TERMINAL episode_event_type
  | HEAD_REASON "terminal_reason option" "terminal_reason option"
  | HEAD_TERMINAL episode_status episode_event_type

type_synonym violations = "(string \<times> violation) list"

definition results_key :: string where
  "results_key = ''runtime.snapshot.participant-episode-results''"

definition history_key :: string where
  "history_key = ''runtime.snapshot.participant-episode-history''"

definition indexed :: "string \<Rightarrow> nat \<Rightarrow> string" where
  "indexed key i = key @ ''['' @ nat_text i @ '']''"

fun py_list :: "py_value \<Rightarrow> py_value list option" where
  "py_list (PyList vs) = Some vs"
| "py_list _ = None"

section \<open>Results\<close>

definition result_payload_violations :: "(64 word \<Rightarrow> string) \<Rightarrow> string \<Rightarrow> py_value \<Rightarrow> violations" where
  "result_payload_violations ft key result =
     (case state_from_payload ft result of
        Inl e \<Rightarrow> [(key, RESULT_INVALID e)]
      | Inr s \<Rightarrow> if et_participant s \<noteq> key then [(key, RESULT_KEY_MISMATCH (et_participant s))] else [])"

definition result_violations :: "(64 word \<Rightarrow> string) \<Rightarrow> py_value \<Rightarrow> violations" where
  "result_violations ft results =
     (case py_mapping results of
        None \<Rightarrow> [(results_key, NOT_A_MAPPING)]
      | Some d \<Rightarrow> concat (map (\<lambda>(key, result).
          if key = [] then [(results_key, BAD_KEY)]
          else case py_mapping result of
              None \<Rightarrow> [(key, RESULT_NOT_A_MAPPING)]
            | Some _ \<Rightarrow> result_payload_violations ft key result) d))"

section \<open>Histories\<close>

fun normalize_history_event :: "(64 word \<Rightarrow> string) \<Rightarrow> py_value \<Rightarrow> violation + episode_event" where
  "normalize_history_event ft (PyDict d) =
     (case event_from_payload ft (PyDict d) of Inl e \<Rightarrow> Inl (EVENT_INVALID e) | Inr f \<Rightarrow> Inr f)"
| "normalize_history_event ft _ = Inl EVENT_NOT_A_MAPPING"

fun normalize_history ::
  "(64 word \<Rightarrow> string) \<Rightarrow> string \<Rightarrow> nat \<Rightarrow> py_value list \<Rightarrow> episode_event list \<times> violations" where
  "normalize_history ft key i [] = ([], [])"
| "normalize_history ft key i (v # vs) =
     (let (events, vios) = normalize_history ft key (Suc i) vs in
      case normalize_history_event ft v of
        Inl x \<Rightarrow> (events, (indexed key i, x) # vios)
      | Inr e \<Rightarrow>
          if ee_participant e \<noteq> key then (events, (indexed key i, EVENT_KEY_MISMATCH (ee_participant e)) # vios)
          else (e # events, vios))"

definition invalid_sequence_advance :: "episode_event \<Rightarrow> int \<Rightarrow> bool" where
  "invalid_sequence_advance e last_sequence \<longleftrightarrow>
     last_sequence < ee_sequence e \<and> last_sequence \<noteq> -1 \<and> ee_type e \<notin> {EPISODE_RESET, EPISODE_RESTARTED}"

definition sequence_transition_violations ::
  "string \<Rightarrow> episode_event \<Rightarrow> int \<Rightarrow> (int, string) pydict \<Rightarrow> violations" where
  "sequence_transition_violations locator e last_sequence ids =
     (if invalid_sequence_advance e last_sequence
      then [(locator, SEQUENCE_ADVANCE (ee_sequence e) (ee_type e))] else []) @
     (case dict_get ids (ee_sequence e) of
        None \<Rightarrow> []
      | Some expected \<Rightarrow> if expected \<noteq> ee_episode e
          then [(locator, EPISODE_CHANGED (ee_sequence e) expected (ee_episode e))] else [])"

fun sequence_violations ::
  "string \<Rightarrow> nat \<Rightarrow> int \<Rightarrow> (int, string) pydict \<Rightarrow> episode_event list \<Rightarrow> violations" where
  "sequence_violations key i last_sequence ids [] = []"
| "sequence_violations key i last_sequence ids (e # es) =
     (if ee_sequence e < last_sequence
      then (indexed key i, SEQUENCE_BACKWARD last_sequence (ee_sequence e)) #
             sequence_violations key (Suc i) last_sequence ids es
      else sequence_transition_violations (indexed key i) e last_sequence ids @
             sequence_violations key (Suc i) (ee_sequence e) (dict_set (ee_sequence e) (ee_episode e) ids) es)"

definition address_history_violations :: "(64 word \<Rightarrow> string) \<Rightarrow> string \<Rightarrow> py_value list \<Rightarrow> violations" where
  "address_history_violations ft key history =
     (let (events, vios) = normalize_history ft key 0 history in
      if vios \<noteq> [] then vios else sequence_violations key 0 (-1) [] events)"

definition history_violations :: "(64 word \<Rightarrow> string) \<Rightarrow> py_value \<Rightarrow> violations" where
  "history_violations ft histories =
     (case py_mapping histories of
        None \<Rightarrow> [(history_key, NOT_A_MAPPING)]
      | Some d \<Rightarrow> concat (map (\<lambda>(key, history).
          if key = [] then [(history_key, BAD_KEY)]
          else case py_list history of
              None \<Rightarrow> [(key, HISTORY_NOT_A_LIST)]
            | Some events \<Rightarrow> address_history_violations ft key events) d))"

section \<open>The head of a history against its result\<close>

fun last_matching_event ::
  "(64 word \<Rightarrow> string) \<Rightarrow> string \<Rightarrow> py_value list \<Rightarrow> episode_event option \<Rightarrow> episode_event option" where
  "last_matching_event ft key [] found = found"
| "last_matching_event ft key (v # vs) found =
     last_matching_event ft key vs
       (case normalize_history_event ft v of
          Inl x \<Rightarrow> found
        | Inr e \<Rightarrow> if ee_participant e = key then Some e else found)"

definition result_history_context ::
  "(64 word \<Rightarrow> string) \<Rightarrow> string \<Rightarrow> py_value \<Rightarrow> (string, py_value) pydict \<Rightarrow>
     (episode_state \<times> episode_event) option" where
  "result_history_context ft key result histories =
     (if key = [] \<or> py_mapping result = None then None
      else case dict_get histories key of
          None \<Rightarrow> None
        | Some h \<Rightarrow> (case py_list h of
              None \<Rightarrow> None
            | Some history \<Rightarrow>
                if history = [] then None
                else (case (state_from_payload ft result, last_matching_event ft key history None) of
                    (Inr s, Some e) \<Rightarrow> Some (s, e)
                  | _ \<Rightarrow> None)))"

definition terminated_head_violations :: "string \<Rightarrow> episode_state \<Rightarrow> episode_event \<Rightarrow> violations" where
  "terminated_head_violations key s e =
     (if terminal_event_reason (ee_type e) = None then [(key, HEAD_NOT_TERMINAL (ee_type e))]
      else if et_reason s \<noteq> ee_reason e then [(key, HEAD_REASON (et_reason s) (ee_reason e))]
      else [])"

definition status_head_violations :: "string \<Rightarrow> episode_state \<Rightarrow> episode_event \<Rightarrow> violations" where
  "status_head_violations key s e =
     (if et_status s = EP_TERMINATED then terminated_head_violations key s e
      else if terminal_event_reason (ee_type e) \<noteq> None then [(key, HEAD_TERMINAL (et_status s) (ee_type e))]
      else [])"

definition head_violations :: "(64 word \<Rightarrow> string) \<Rightarrow> py_value \<Rightarrow> py_value \<Rightarrow> violations" where
  "head_violations ft results histories =
     (case (py_mapping results, py_mapping histories) of
        (Some d, Some h) \<Rightarrow> concat (map (\<lambda>(key, result).
          case result_history_context ft key result h of
            None \<Rightarrow> []
          | Some (s, e) \<Rightarrow>
              if et_episode s \<noteq> ee_episode e \<or> et_sequence s \<noteq> ee_sequence e
              then [(key, HEAD_MISMATCH (et_episode s) (et_sequence s) (ee_episode e) (ee_sequence e))]
              else status_head_violations key s e) d)
      | _ \<Rightarrow> [])"

definition snapshot_violations :: "(64 word \<Rightarrow> string) \<Rightarrow> py_value \<Rightarrow> py_value \<Rightarrow> violations" where
  "snapshot_violations ft results histories =
     result_violations ft results @ history_violations ft histories @ head_violations ft results histories"

section \<open>What the sequence check decides\<close>

definition episode_order :: "episode_event \<Rightarrow> episode_event \<Rightarrow> bool" where
  "episode_order e f \<longleftrightarrow>
     ee_sequence e \<le> ee_sequence f \<and> (ee_sequence e = ee_sequence f \<longrightarrow> ee_episode e = ee_episode f)"

definition episode_advance :: "episode_event \<Rightarrow> episode_event \<Rightarrow> bool" where
  "episode_advance e f \<longleftrightarrow>
     (ee_sequence e < ee_sequence f \<longrightarrow> ee_type f \<in> {EPISODE_RESET, EPISODE_RESTARTED})"

text \<open>
  A consistent history: sequence numbers never fall, one number is one episode, and a number
  only rises with a reset or a restart.
\<close>

definition history_consistent :: "episode_event list \<Rightarrow> bool" where
  "history_consistent es \<longleftrightarrow> sorted_wrt episode_order es \<and> successively episode_advance es"

lemma history_consistent_snoc:
  "history_consistent (es @ [e]) \<longleftrightarrow>
     history_consistent es \<and> (\<forall>f \<in> set es. episode_order f e) \<and> (es \<noteq> [] \<longrightarrow> episode_advance (last es) e)"
  by (auto simp: history_consistent_def sorted_wrt_append successively_append_iff)

lemma history_consistent_prefix: "history_consistent (es @ fs) \<Longrightarrow> history_consistent es"
  by (simp add: history_consistent_def sorted_wrt_append successively_append_iff)

definition tracks :: "episode_event list \<Rightarrow> int \<Rightarrow> (int, string) pydict \<Rightarrow> bool" where
  "tracks ps last_sequence ids \<longleftrightarrow>
     last_sequence = (if ps = [] then -1 else ee_sequence (last ps)) \<and>
     (\<forall>e \<in> set ps. 0 \<le> ee_sequence e \<and> dict_get ids (ee_sequence e) = Some (ee_episode e)) \<and>
     (\<forall>n x. dict_get ids n = Some x \<longrightarrow> (\<exists>e \<in> set ps. ee_sequence e = n))"

lemma consistent_last:
  assumes "history_consistent ps" and "e \<in> set ps"
  shows "ee_sequence e \<le> ee_sequence (last ps)"
proof (cases ps rule: rev_cases)
  case (snoc qs q)
  with assms show ?thesis by (auto simp: history_consistent_snoc episode_order_def)
qed (use assms in simp)

lemma sequence_violations_iff:
  assumes "history_consistent ps" and "tracks ps last_sequence ids" and "\<forall>e \<in> set es. 0 \<le> ee_sequence e"
  shows "sequence_violations key i last_sequence ids es = [] \<longleftrightarrow> history_consistent (ps @ es)"
  using assms
proof (induction es arbitrary: ps i last_sequence ids)
  case Nil
  then show ?case by simp
next
  case (Cons e es)
  let ?n = "ee_sequence e"
  have e0: "0 \<le> ?n" using Cons.prems(3) by simp
  have last_le: "ee_sequence f \<le> last_sequence" if "f \<in> set ps" for f
    using consistent_last [OF Cons.prems(1) that] Cons.prems(2) that by (auto simp: tracks_def)
  have step: "\<not> ?n < last_sequence \<and> sequence_transition_violations (indexed key i) e last_sequence ids = [] \<longleftrightarrow>
      history_consistent (ps @ [e])"
  proof
    assume ok: "\<not> ?n < last_sequence \<and> sequence_transition_violations (indexed key i) e last_sequence ids = []"
    have "episode_order f e" if f: "f \<in> set ps" for f
    proof -
      have "dict_get ids (ee_sequence f) = Some (ee_episode f)" using Cons.prems(2) f by (simp add: tracks_def)
      with ok last_le [OF f] show ?thesis
        by (auto simp: episode_order_def sequence_transition_violations_def split: if_splits option.splits)
    qed
    moreover have "episode_advance (last ps) e" if "ps \<noteq> []"
    proof -
      from that Cons.prems(2) have "last_sequence = ee_sequence (last ps)" "0 \<le> last_sequence"
        by (auto simp: tracks_def)
      with ok show ?thesis
        by (auto simp: episode_advance_def sequence_transition_violations_def invalid_sequence_advance_def
            split: if_splits)
    qed
    ultimately show "history_consistent (ps @ [e])" using Cons.prems(1) by (simp add: history_consistent_snoc)
  next
    assume ok: "history_consistent (ps @ [e])"
    have "\<not> ?n < last_sequence"
    proof (cases "ps = []")
      case True
      with Cons.prems(2) e0 show ?thesis by (simp add: tracks_def)
    next
      case False
      with ok have "episode_order (last ps) e" by (simp add: history_consistent_snoc)
      with False Cons.prems(2) show ?thesis by (simp add: tracks_def episode_order_def)
    qed
    moreover have "\<not> invalid_sequence_advance e last_sequence"
      using ok Cons.prems(2) by (cases "ps = []")
        (auto simp: history_consistent_snoc tracks_def episode_advance_def invalid_sequence_advance_def)
    moreover have "x = ee_episode e" if x: "dict_get ids ?n = Some x" for x
    proof -
      from x Cons.prems(2) obtain f where f: "f \<in> set ps" "ee_sequence f = ?n" by (auto simp: tracks_def)
      with x Cons.prems(2) have "x = ee_episode f" by (auto simp: tracks_def)
      with f ok show ?thesis by (auto simp: history_consistent_snoc episode_order_def)
    qed
    ultimately show "\<not> ?n < last_sequence \<and> sequence_transition_violations (indexed key i) e last_sequence ids = []"
      by (auto simp: sequence_transition_violations_def split: option.splits)
  qed
  show ?case
  proof (cases "history_consistent (ps @ [e])")
    case True
    with step have now: "\<not> ?n < last_sequence" "sequence_transition_violations (indexed key i) e last_sequence ids = []"
      by auto
    have "tracks (ps @ [e]) ?n (dict_set ?n (ee_episode e) ids)"
      using Cons.prems(2) True e0 by (auto simp: tracks_def history_consistent_snoc episode_order_def)
    from Cons.IH [OF True this] Cons.prems(3) now show ?thesis by simp
  next
    case False
    with step history_consistent_prefix [of "ps @ [e]" es] show ?thesis by auto
  qed
qed

section \<open>Sound snapshots\<close>

text \<open>The result of a participant agrees with the last event of its history.\<close>

definition head_agrees :: "episode_state \<Rightarrow> episode_event \<Rightarrow> bool" where
  "head_agrees s e \<longleftrightarrow> et_episode s = ee_episode e \<and> et_sequence s = ee_sequence e \<and>
     et_reason s = terminal_event_reason (ee_type e)"

definition decoded_history :: "(64 word \<Rightarrow> string) \<Rightarrow> string \<Rightarrow> py_value list \<Rightarrow> episode_event list \<Rightarrow> bool" where
  "decoded_history ft key vs es \<longleftrightarrow>
     list_all2 (\<lambda>v e. event_from_payload ft v = Inr e \<and> ee_participant e = key) vs es"

definition sound_result ::
  "(64 word \<Rightarrow> string) \<Rightarrow> (string, py_value) pydict \<Rightarrow> string \<Rightarrow> py_value \<Rightarrow> bool" where
  "sound_result ft histories key result \<longleftrightarrow> key \<noteq> [] \<and>
     (\<exists>s. state_from_payload ft result = Inr s \<and> et_participant s = key \<and>
        (\<forall>vs es. dict_get histories key = Some (PyList vs) \<longrightarrow> decoded_history ft key vs es \<longrightarrow> es \<noteq> [] \<longrightarrow>
           head_agrees s (last es)))"

definition sound_history :: "(64 word \<Rightarrow> string) \<Rightarrow> string \<Rightarrow> py_value \<Rightarrow> bool" where
  "sound_history ft key history \<longleftrightarrow> key \<noteq> [] \<and>
     (\<exists>vs es. history = PyList vs \<and> decoded_history ft key vs es \<and> history_consistent es)"

lemma normalize_history_event_Inr [simp]:
  "normalize_history_event ft v = Inr e \<longleftrightarrow> event_from_payload ft v = Inr e"
  by (cases v) (simp_all add: event_from_payload_def split: sum.splits)

lemma normalize_history_ok:
  "normalize_history ft key i vs = (es, []) \<longleftrightarrow> decoded_history ft key vs es"
proof (induction vs arbitrary: i es)
  case Nil
  then show ?case by (auto simp: decoded_history_def)
next
  case (Cons v vs)
  obtain es1 vios where rest: "normalize_history ft key (Suc i) vs = (es1, vios)" by fastforce
  show ?case
  proof (cases "normalize_history_event ft v")
    case (Inl x)
    then have "event_from_payload ft v \<noteq> Inr e" for e using normalize_history_event_Inr [of ft v e] by auto
    with Inl rest show ?thesis by (simp add: decoded_history_def list_all2_Cons1)
  next
    case (Inr e)
    then have dec: "event_from_payload ft v = Inr e" by simp
    have ih: "decoded_history ft key vs fs \<longleftrightarrow> es1 = fs \<and> vios = []" for fs
      using Cons.IH [of "Suc i" fs] rest by auto
    have split: "decoded_history ft key (v # vs) es \<longleftrightarrow>
        (\<exists>fs. es = e # fs \<and> ee_participant e = key \<and> decoded_history ft key vs fs)"
      by (auto simp: decoded_history_def list_all2_Cons1 dec)
    show ?thesis unfolding split ih by (auto simp: rest Inr simp del: normalize_history_event_Inr)
  qed
qed

lemma decoded_history_map: "decoded_history ft key vs es \<Longrightarrow> map (event_from_payload ft) vs = map Inr es"
  unfolding decoded_history_def
proof (induction vs arbitrary: es)
  case Nil
  then show ?case by simp
next
  case (Cons v vs)
  then obtain e fs where "es = e # fs" "event_from_payload ft v = Inr e"
    "list_all2 (\<lambda>v e. event_from_payload ft v = Inr e \<and> ee_participant e = key) vs fs"
    unfolding list_all2_Cons1 by blast
  with Cons.IH show ?case by simp
qed

lemma decoded_history_unique:
  assumes "decoded_history ft key vs es" and "decoded_history ft key vs fs"
  shows "es = fs"
proof -
  have "map Inr es = (map Inr fs :: (py_exn + episode_event) list)"
    using decoded_history_map [OF assms(1)] decoded_history_map [OF assms(2)] by (rule trans [OF sym])
  then show ?thesis by (simp add: inj_map_eq_map)
qed

lemma decoded_history_ok: "decoded_history ft key vs es \<Longrightarrow> e \<in> set es \<Longrightarrow> episode_event_ok e"
  unfolding decoded_history_def using event_decoded_ok
  by (induction vs arbitrary: es) (auto simp: list_all2_Cons1)

lemma address_history_violations_iff:
  "address_history_violations ft key vs = [] \<longleftrightarrow> (\<exists>es. decoded_history ft key vs es \<and> history_consistent es)"
proof -
  obtain es vios where n: "normalize_history ft key 0 vs = (es, vios)" by fastforce
  show ?thesis
  proof (cases "vios = []")
    case True
    with n have dec: "decoded_history ft key vs es" by (simp add: normalize_history_ok [of ft key 0, symmetric])
    then have "\<forall>e \<in> set es. 0 \<le> ee_sequence e"
      using decoded_history_ok by (fastforce simp: episode_event_ok_def)
    then have "sequence_violations key 0 (-1) [] es = [] \<longleftrightarrow> history_consistent ([] @ es)"
      by (intro sequence_violations_iff) (simp_all add: history_consistent_def tracks_def)
    with n True dec show ?thesis
      by (auto simp: address_history_violations_def dest: decoded_history_unique [OF dec])
  next
    case False
    with n have "\<not> decoded_history ft key vs fs" for fs
      using normalize_history_ok [of ft key 0 vs fs] by auto
    with n False show ?thesis by (simp add: address_history_violations_def)
  qed
qed

lemma history_violations_iff:
  "history_violations ft (PyDict h) = [] \<longleftrightarrow> (\<forall>(key, v) \<in> set h. sound_history ft key v)"
proof -
  have "(case py_list v of None \<Rightarrow> [(key, HISTORY_NOT_A_LIST)]
      | Some events \<Rightarrow> address_history_violations ft key events) = [] \<longleftrightarrow>
      (\<exists>vs es. v = PyList vs \<and> decoded_history ft key vs es \<and> history_consistent es)" for key v
    by (cases v) (simp_all add: address_history_violations_iff)
  then show ?thesis by (auto simp: history_violations_def sound_history_def split: if_splits)
qed

lemma state_decoded_mapping: "state_from_payload ft r = Inr s \<Longrightarrow> \<exists>d. r = PyDict d"
  by (cases r) (simp_all add: state_from_payload_def)

lemma result_violations_iff:
  "result_violations ft (PyDict d) = [] \<longleftrightarrow>
     (\<forall>(key, r) \<in> set d. key \<noteq> [] \<and> (\<exists>s. state_from_payload ft r = Inr s \<and> et_participant s = key))"
proof -
  have "(case py_mapping r of None \<Rightarrow> [(key, RESULT_NOT_A_MAPPING)]
      | Some _ \<Rightarrow> result_payload_violations ft key r) = [] \<longleftrightarrow>
      (\<exists>s. state_from_payload ft r = Inr s \<and> et_participant s = key)" for key r
  proof (cases "py_mapping r")
    case None
    then have "\<not> (\<exists>d. r = PyDict d)" by auto
    with state_decoded_mapping [of ft r] None show ?thesis by auto
  next
    case (Some d)
    then show ?thesis by (auto simp: result_payload_violations_def split: sum.splits)
  qed
  then show ?thesis by (auto simp: result_violations_def split: if_splits)
qed

lemma last_matching_decoded:
  "decoded_history ft key vs es \<Longrightarrow>
     last_matching_event ft key vs found = (if es = [] then found else Some (last es))"
  unfolding decoded_history_def
proof (induction vs arbitrary: es found)
  case Nil
  then show ?case by simp
next
  case (Cons v vs)
  then obtain e fs where es: "es = e # fs" "event_from_payload ft v = Inr e" "ee_participant e = key"
    "list_all2 (\<lambda>v e. event_from_payload ft v = Inr e \<and> ee_participant e = key) vs fs"
    by (auto simp: list_all2_Cons1)
  then have n: "normalize_history_event ft v = Inr e" by simp
  show ?case using es(1,3) Cons.IH [OF es(4)] by (simp add: n del: normalize_history_event_Inr)
qed

text \<open>On decoded values the status check is the agreement of reason and last event.\<close>

lemma status_head_violations_iff:
  assumes "episode_state_ok s" and "episode_event_ok e"
  shows "et_episode s = ee_episode e \<and> et_sequence s = ee_sequence e \<and> status_head_violations key s e = [] \<longleftrightarrow>
    head_agrees s e"
  using assms
  by (auto simp: status_head_violations_def terminated_head_violations_def head_agrees_def episode_state_ok_def
      episode_event_ok_def)

lemma head_violation_iff:
  assumes s: "state_from_payload ft r = Inr s" "et_participant s = key" and key: "key \<noteq> []"
    and h: "\<forall>(key, v) \<in> set h. sound_history ft key v"
  shows "(case result_history_context ft key r h of
        None \<Rightarrow> []
      | Some (s, e) \<Rightarrow>
          if et_episode s \<noteq> ee_episode e \<or> et_sequence s \<noteq> ee_sequence e
          then [(key, HEAD_MISMATCH (et_episode s) (et_sequence s) (ee_episode e) (ee_sequence e))]
          else status_head_violations key s e) = [] \<longleftrightarrow>
    (\<forall>vs es. dict_get h key = Some (PyList vs) \<longrightarrow> decoded_history ft key vs es \<longrightarrow> es \<noteq> [] \<longrightarrow> head_agrees s (last es))"
proof (cases "dict_get h key")
  case None
  then show ?thesis by (simp add: result_history_context_def)
next
  case (Some v)
  obtain m where "py_mapping r = Some m" using state_decoded_mapping [OF s(1)] by auto
  moreover from Some h have "sound_history ft key v" using dict_get_Some_in by fastforce
  then obtain vs es where v: "v = PyList vs" and dec: "decoded_history ft key vs es"
    by (auto simp: sound_history_def)
  moreover have "vs = [] \<longleftrightarrow> es = []" using dec by (auto simp: decoded_history_def)
  ultimately have head: "result_history_context ft key r h = (if es = [] then None else Some (s, last es))"
    using Some s key by (simp add: result_history_context_def last_matching_decoded)
  show ?thesis
  proof (cases "es = []")
    case True
    with head Some v dec show ?thesis using decoded_history_unique by fastforce
  next
    case False
    have "episode_event_ok (last es)" using decoded_history_ok [OF dec] False by simp
    from status_head_violations_iff [OF state_decoded_ok [OF s(1)] this, of key] False
    have "(case result_history_context ft key r h of
        None \<Rightarrow> []
      | Some (s, e) \<Rightarrow>
          if et_episode s \<noteq> ee_episode e \<or> et_sequence s \<noteq> ee_sequence e
          then [(key, HEAD_MISMATCH (et_episode s) (et_sequence s) (ee_episode e) (ee_sequence e))]
          else status_head_violations key s e) = [] \<longleftrightarrow> head_agrees s (last es)"
      by (auto simp: head)
    also have "\<dots> \<longleftrightarrow> (\<forall>vs es. dict_get h key = Some (PyList vs) \<longrightarrow> decoded_history ft key vs es \<longrightarrow> es \<noteq> [] \<longrightarrow>
        head_agrees s (last es))"
      using Some v dec False decoded_history_unique by fastforce
    finally show ?thesis .
  qed
qed

lemma snapshot_violations_sound:
  "snapshot_violations ft (PyDict d) (PyDict h) = [] \<longleftrightarrow>
     (\<forall>(key, r) \<in> set d. sound_result ft h key r) \<and> (\<forall>(key, v) \<in> set h. sound_history ft key v)"
proof (cases "result_violations ft (PyDict d) = [] \<and> history_violations ft (PyDict h) = []")
  case True
  then have r: "\<forall>(key, r) \<in> set d. key \<noteq> [] \<and> (\<exists>s. state_from_payload ft r = Inr s \<and> et_participant s = key)"
    and h: "\<forall>(key, v) \<in> set h. sound_history ft key v"
    by (simp_all add: result_violations_iff history_violations_iff)
  let ?f = "\<lambda>(key, r). case result_history_context ft key r h of
        None \<Rightarrow> []
      | Some (s, e) \<Rightarrow>
          if et_episode s \<noteq> ee_episode e \<or> et_sequence s \<noteq> ee_sequence e
          then [(key, HEAD_MISMATCH (et_episode s) (et_sequence s) (ee_episode e) (ee_sequence e))]
          else status_head_violations key s e"
  have one: "?f x = [] \<longleftrightarrow> (case x of (key, r) \<Rightarrow> sound_result ft h key r)" if "x \<in> set d" for x
  proof -
    obtain key r where x: "x = (key, r)" by (cases x)
    with r that obtain s where s: "state_from_payload ft r = Inr s" "et_participant s = key" and key: "key \<noteq> []" by blast
    show ?thesis unfolding x prod.case head_violation_iff [OF s key h] using s key by (auto simp: sound_result_def)
  qed
  have "head_violations ft (PyDict d) (PyDict h) = [] \<longleftrightarrow> (\<forall>x \<in> set d. ?f x = [])"
    unfolding head_violations_def py_mapping.simps prod.case option.case concat_eq_Nil_conv by simp
  also have "\<dots> \<longleftrightarrow> (\<forall>(key, r) \<in> set d. sound_result ft h key r)" using one by (intro ball_cong) auto
  finally have "head_violations ft (PyDict d) (PyDict h) = [] \<longleftrightarrow> (\<forall>(key, r) \<in> set d. sound_result ft h key r)" .
  with True h show ?thesis by (simp add: snapshot_violations_def)
next
  case False
  then show ?thesis
    by (auto simp: snapshot_violations_def result_violations_iff history_violations_iff sound_result_def)
qed

text \<open>
  C12. The checker decides soundness. It reports nothing exactly when every result decodes to a
  state of its own participant that agrees with the last event of its history, and every
  history decodes to events of its own participant in which sequence numbers never fall, one
  number is one episode, and a number rises only with a reset or a restart.
\<close>

theorem snapshot_violations_decide:
  "snapshot_violations ft (PyDict results) (PyDict histories) = [] \<longleftrightarrow>
     list_all (\<lambda>(key, r). sound_result ft histories key r) results \<and>
     list_all (\<lambda>(key, v). sound_history ft key v) histories"
  by (simp add: snapshot_violations_sound list_all_iff)

end
