(* ===== verification/Episode_Runtime.thy ===== *)
theory Episode_Runtime
  imports Episode_Checker Compiled_Address
begin

text \<open>
  The episode lifecycle of the reference participant runtime,
  \<open>raes_backend_protocols/participant_runtime_base.py\<close> and \<open>participant_reset.py\<close>. A method of
  the runtime object takes the object's fields and returns them with its outcome, so an
  exception keeps what was already assigned. The clock reading of a call is an argument.
  Texts of diagnostics are presentation; a diagnostic is its address and its reason.
\<close>

section \<open>Snapshots, the runtime object, requests and results\<close>

type_synonym payload = "(string, py_value) pydict"

record 'rest episode_snapshot =
  es_results :: "(string, payload) pydict"
  es_history :: "(string, payload list) pydict"
  es_rest :: 'rest

record participant_runtime =
  rt_results :: "(string, payload) pydict"
  rt_history :: "(string, payload list) pydict"
  rt_counter :: "(string, nat) pydict"

definition new_runtime :: participant_runtime where
  "new_runtime = \<lparr>rt_results = [], rt_history = [], rt_counter = []\<rparr>"

record initialize_request =
  iq_participant :: string
  iq_episode :: "string option"

record renew_request =
  nq_participant :: string
  nq_episode :: "string option"
  nq_reason :: string

record terminate_request =
  tq_participant :: string
  tq_reason :: terminal_reason
  tq_detail :: string

datatype rejection =
    EMPTY_ADDRESS
  | ALREADY_LIVE
  | NO_LIVE_EPISODE
  | WRONG_STATE
  | CURRENT_STATE_INVALID py_exn
  | ALREADY_TERMINATED
  | ADDRESSES_NOT_UNIQUE

record 'rest episode_result =
  er_success :: bool
  er_snapshot :: "'rest episode_snapshot"
  er_diagnostics :: "(string \<times> rejection) list"
  er_changed :: "string list"

type_synonym 'rest episode_outcome = "'rest episode_result res \<times> participant_runtime"

definition reject_episode :: "'rest episode_snapshot \<Rightarrow> rejection \<Rightarrow> string \<Rightarrow> 'rest episode_result" where
  "reject_episode sn why address =
     \<lparr>er_success = False, er_snapshot = sn,
      er_diagnostics = [(if address = [] then ''runtime.participant-runtime'' else address, why)],
      er_changed = []\<rparr>"

section \<open>Helpers of the runtime object\<close>

fun terminal_event_for :: "terminal_reason \<Rightarrow> episode_event_type" where
  "terminal_event_for COMPLETED = EPISODE_COMPLETED"
| "terminal_event_for TIMED_OUT = EPISODE_TIMED_OUT"
| "terminal_event_for TRUNCATED = EPISODE_TRUNCATED"
| "terminal_event_for INTERRUPTED = EPISODE_INTERRUPTED"

definition allocate_episode_id :: "string \<Rightarrow> participant_runtime \<Rightarrow> string \<times> participant_runtime" where
  "allocate_episode_id address rt =
     (let next_index = (case dict_get (rt_counter rt) address of None \<Rightarrow> 0 | Some n \<Rightarrow> n) + 1 in
      (address @ ''-episode-'' @ nat_text next_index,
       rt\<lparr>rt_counter := dict_set address next_index (rt_counter rt)\<rparr>))"

definition choose_episode_id :: "string option \<Rightarrow> string \<Rightarrow> participant_runtime \<Rightarrow> string \<times> participant_runtime" where
  "choose_episode_id requested address rt =
     (case requested of
        None \<Rightarrow> allocate_episode_id address rt
      | Some e \<Rightarrow> if e = [] then allocate_episode_id address rt else (e, rt))"

definition live_predecessor ::
  "(64 word \<Rightarrow> string) \<Rightarrow> 'rest episode_snapshot \<Rightarrow> string \<Rightarrow> 'rest episode_result + episode_state" where
  "live_predecessor ft sn address =
     (case (if address = [] then None else dict_get (es_results sn) address) of
        None \<Rightarrow> Inl (reject_episode sn (if address = [] then EMPTY_ADDRESS else NO_LIVE_EPISODE) address)
      | Some current \<Rightarrow> (case state_from_payload ft (PyDict current) of
            Inl e \<Rightarrow> Inl (reject_episode sn (CURRENT_STATE_INVALID e) address)
          | Inr s \<Rightarrow> Inr s))"

definition apply_episode ::
  "'rest episode_snapshot \<Rightarrow> string \<Rightarrow> episode_state \<Rightarrow> episode_event list \<Rightarrow> bool \<Rightarrow> participant_runtime \<Rightarrow>
     'rest episode_outcome" where
  "apply_episode sn address s new_events replace_history rt =
     (let results = dict_set address (state_payload s) (es_results sn);
          old = (if replace_history then []
                 else case dict_get (es_history sn) address of None \<Rightarrow> [] | Some events \<Rightarrow> events);
          history = dict_set address (old @ map event_payload new_events) (es_history sn) in
      (res_bind (require_compiled_address ''changed address'' address) (\<lambda>_.
         Inr \<lparr>er_success = True, er_snapshot = sn\<lparr>es_results := results, es_history := history\<rparr>,
              er_diagnostics = [], er_changed = [address]\<rparr>),
       rt\<lparr>rt_results := results, rt_history := history\<rparr>))"

text \<open>Constructing state and events may raise; then nothing is applied.\<close>

definition build_and_apply ::
  "'rest episode_snapshot \<Rightarrow> string \<Rightarrow> episode_state \<Rightarrow> episode_event list \<Rightarrow> bool \<Rightarrow> participant_runtime \<Rightarrow>
     'rest episode_outcome" where
  "build_and_apply sn address s events replace_history rt =
     (case res_bind (make_episode_state s) (\<lambda>s. res_bind (res_map make_episode_event events) (\<lambda>es. Inr (s, es))) of
        Inl e \<Rightarrow> (Inl e, rt)
      | Inr (s, es) \<Rightarrow> apply_episode sn address s es replace_history rt)"

definition running_event :: "string \<Rightarrow> string \<Rightarrow> string \<Rightarrow> int \<Rightarrow> episode_event" where
  "running_event now address episode number =
     \<lparr>ee_type = EPISODE_RUNNING, ee_timestamp = now, ee_participant = address, ee_episode = episode,
      ee_sequence = number, ee_reason = None, ee_action = None, ee_details = []\<rparr>"

definition schema_version :: string where
  "schema_version = ''participant-episode-state/v1''"

definition running_state :: "string \<Rightarrow> string \<Rightarrow> string \<Rightarrow> int \<Rightarrow> control_action \<Rightarrow> string option \<Rightarrow> episode_state" where
  "running_state now address episode number action previous =
     \<lparr>et_schema = schema_version, et_participant = address, et_episode = episode, et_sequence = number,
      et_status = EP_RUNNING, et_reason = None, et_initialized_at = now, et_updated_at = now,
      et_terminated_at = None, et_action = action, et_previous = previous\<rparr>"

section \<open>Operations\<close>

definition initialize_episode ::
  "string \<Rightarrow> initialize_request \<Rightarrow> 'rest episode_snapshot \<Rightarrow> participant_runtime \<Rightarrow> 'rest episode_outcome" where
  "initialize_episode now request sn rt =
     (let address = iq_participant request in
      if address = [] then (Inr (reject_episode sn EMPTY_ADDRESS address), rt)
      else if dict_has (es_results sn) address then (Inr (reject_episode sn ALREADY_LIVE address), rt)
      else
        let (episode, rt) = choose_episode_id (iq_episode request) address rt in
        build_and_apply sn address (running_state now address episode 0 INITIALIZE None)
          [\<lparr>ee_type = EPISODE_INITIALIZED, ee_timestamp = now, ee_participant = address, ee_episode = episode,
            ee_sequence = 0, ee_reason = None, ee_action = Some INITIALIZE, ee_details = []\<rparr>,
           running_event now address episode 0]
          True rt)"

definition renew_episode ::
  "(64 word \<Rightarrow> string) \<Rightarrow> control_action \<Rightarrow> episode_event_type \<Rightarrow> bool \<Rightarrow> string \<Rightarrow> renew_request \<Rightarrow>
     'rest episode_snapshot \<Rightarrow> participant_runtime \<Rightarrow> 'rest episode_outcome" where
  "renew_episode ft action event require_terminated now request sn rt =
     (let address = nq_participant request in
      case live_predecessor ft sn address of
        Inl failure \<Rightarrow> (Inr failure, rt)
      | Inr current \<Rightarrow>
          if (et_status current = EP_TERMINATED) \<noteq> require_terminated
          then (Inr (reject_episode sn WRONG_STATE address), rt)
          else
            let (episode, rt) = choose_episode_id (nq_episode request) address rt;
                number = et_sequence current + 1 in
            build_and_apply sn address
              (running_state now address episode number action (Some (et_episode current)))
              [\<lparr>ee_type = event, ee_timestamp = now, ee_participant = address, ee_episode = episode,
                ee_sequence = number, ee_reason = None, ee_action = Some action,
                ee_details = [(''previous_episode_id'', PyStr (et_episode current)),
                              (''reason'', PyStr (nq_reason request))]\<rparr>,
               running_event now address episode number]
              False rt)"

definition reset_episode ::
  "(64 word \<Rightarrow> string) \<Rightarrow> string \<Rightarrow> renew_request \<Rightarrow> 'rest episode_snapshot \<Rightarrow> participant_runtime \<Rightarrow>
     'rest episode_outcome" where
  "reset_episode ft = renew_episode ft RESET EPISODE_RESET False"

definition restart_episode ::
  "(64 word \<Rightarrow> string) \<Rightarrow> string \<Rightarrow> renew_request \<Rightarrow> 'rest episode_snapshot \<Rightarrow> participant_runtime \<Rightarrow>
     'rest episode_outcome" where
  "restart_episode ft = renew_episode ft RESTART EPISODE_RESTARTED True"

definition terminate_episode ::
  "(64 word \<Rightarrow> string) \<Rightarrow> string \<Rightarrow> terminate_request \<Rightarrow> 'rest episode_snapshot \<Rightarrow> participant_runtime \<Rightarrow>
     'rest episode_outcome" where
  "terminate_episode ft now request sn rt =
     (let address = tq_participant request in
      case live_predecessor ft sn address of
        Inl failure \<Rightarrow> (Inr failure, rt)
      | Inr current \<Rightarrow>
          if et_status current = EP_TERMINATED
          then (Inr (reject_episode sn ALREADY_TERMINATED address), rt)
          else
            build_and_apply sn address
              \<lparr>et_schema = schema_version, et_participant = address, et_episode = et_episode current,
               et_sequence = et_sequence current, et_status = EP_TERMINATED,
               et_reason = Some (tq_reason request), et_initialized_at = et_initialized_at current,
               et_updated_at = now, et_terminated_at = Some now, et_action = et_action current,
               et_previous = et_previous current\<rparr>
              [\<lparr>ee_type = terminal_event_for (tq_reason request), ee_timestamp = now, ee_participant = address,
                ee_episode = et_episode current, ee_sequence = et_sequence current,
                ee_reason = Some (tq_reason request), ee_action = None,
                ee_details = [(''detail'', PyStr (tq_detail request))]\<rparr>]
              False rt)"

section \<open>Batch reset\<close>

text \<open>
  The loop of \<open>reset_many_atomically\<close> with the clock reading of every reset; on a failure and
  on an exception the checkpoint of the runtime object is restored.
\<close>

fun reset_loop ::
  "(64 word \<Rightarrow> string) \<Rightarrow> 'rest episode_snapshot \<Rightarrow> participant_runtime \<Rightarrow> (string \<times> renew_request) list \<Rightarrow>
     'rest episode_snapshot \<Rightarrow> (string \<times> rejection) list \<Rightarrow> string list \<Rightarrow> participant_runtime \<Rightarrow>
     'rest episode_outcome" where
  "reset_loop ft sn checkpoint [] working diagnostics changed rt =
     (res_bind (res_all (\<lambda>a. res_bind (require_compiled_address ''changed address'' a) (\<lambda>_. Inr ())) (fromkeys changed)) (\<lambda>_.
        Inr \<lparr>er_success = True, er_snapshot = working, er_diagnostics = diagnostics, er_changed = fromkeys changed\<rparr>), rt)"
| "reset_loop ft sn checkpoint ((now, request) # requests) working diagnostics changed rt =
     (case reset_episode ft now request working rt of
        (Inl e, _) \<Rightarrow> (Inl e, checkpoint)
      | (Inr result, rt') \<Rightarrow>
          if \<not> er_success result
          then (Inr \<lparr>er_success = False, er_snapshot = sn, er_diagnostics = diagnostics @ er_diagnostics result,
                     er_changed = []\<rparr>, checkpoint)
          else reset_loop ft sn checkpoint requests (er_snapshot result) (diagnostics @ er_diagnostics result)
                 (changed @ er_changed result) rt')"

definition reset_many ::
  "(64 word \<Rightarrow> string) \<Rightarrow> (string \<times> renew_request) list \<Rightarrow> 'rest episode_snapshot \<Rightarrow> participant_runtime \<Rightarrow>
     'rest episode_outcome" where
  "reset_many ft requests sn rt =
     (if \<not> distinct (map (\<lambda>(now, r). nq_participant r) requests)
      then (Inr (reject_episode sn ADDRESSES_NOT_UNIQUE []), rt)
      else reset_loop ft sn rt requests sn [] [] rt)"

section \<open>Read-back\<close>

definition runtime_status :: "participant_runtime \<Rightarrow> nat \<times> nat" where
  "runtime_status rt =
     (length (rt_results rt),
      length (filter (\<lambda>r. py_get r ''status'' = PyStr ''running'') (dict_values (rt_results rt))))"

end
