(* ===== verification/Episode_Life.thy ===== *)
theory Episode_Life
  imports Episode_Runtime
begin

text \<open>
  The episode lifecycle keeps its snapshot sound: whatever the operations do, the checker of
  \<open>Episode_Checker\<close> has nothing to report, and every participant moves through the abstract
  lifecycle of absent, live and ended episodes.
\<close>

section \<open>Soundness per participant\<close>

definition sound_address :: "(64 word \<Rightarrow> string) \<Rightarrow> string \<Rightarrow> payload option \<Rightarrow> payload list option \<Rightarrow> bool" where
  "sound_address ft a result history \<longleftrightarrow>
     (\<forall>r. result = Some r \<longrightarrow> a \<noteq> [] \<and> (\<exists>s. state_from_payload ft (PyDict r) = Inr s \<and> et_participant s = a \<and>
        (\<forall>ps es. history = Some ps \<longrightarrow> decoded_history ft a (map PyDict ps) es \<longrightarrow> es \<noteq> [] \<longrightarrow>
           head_agrees s (last es)))) \<and>
     (\<forall>ps. history = Some ps \<longrightarrow> a \<noteq> [] \<and>
        (\<exists>es. decoded_history ft a (map PyDict ps) es \<and> history_consistent es))"

definition episode_sound :: "(64 word \<Rightarrow> string) \<Rightarrow> 'rest episode_snapshot \<Rightarrow> bool" where
  "episode_sound ft sn \<longleftrightarrow> wf_dict (es_results sn) \<and> wf_dict (es_history sn) \<and>
     (\<forall>a. sound_address ft a (dict_get (es_results sn) a) (dict_get (es_history sn) a))"

text \<open>The two members as the checker sees them.\<close>

definition results_value :: "'rest episode_snapshot \<Rightarrow> py_value" where
  "results_value sn = PyDict (map (\<lambda>(a, r). (a, PyDict r)) (es_results sn))"

definition history_value :: "'rest episode_snapshot \<Rightarrow> py_value" where
  "history_value sn = PyDict (map (\<lambda>(a, ps). (a, PyList (map PyDict ps))) (es_history sn))"

lemma dict_get_map: "dict_get (map (\<lambda>(k, v). (k, f v)) d) k = map_option f (dict_get d k)"
  by (induction d) (auto simp: dict_get_def)

lemma episode_sound_iff:
  assumes wf: "wf_dict (es_results sn)" "wf_dict (es_history sn)"
  shows "episode_sound ft sn \<longleftrightarrow> snapshot_violations ft (results_value sn) (history_value sn) = []"
proof -
  let ?h = "map (\<lambda>(a, ps). (a, PyList (map PyDict ps))) (es_history sn)"
  have get: "dict_get ?h a = Some (PyList vs) \<longleftrightarrow> (\<exists>ps. dict_get (es_history sn) a = Some ps \<and> vs = map PyDict ps)" for a vs
    by (auto simp: dict_get_map)
  have results: "(\<forall>(a, r) \<in> set (map (\<lambda>(a, r). (a, PyDict r)) (es_results sn)). sound_result ft ?h a r) \<longleftrightarrow>
      (\<forall>a r. dict_get (es_results sn) a = Some r \<longrightarrow> sound_result ft ?h a (PyDict r))"
    using wf(1) by (auto simp: dict_get_eq_Some)
  have histories: "(\<forall>(a, v) \<in> set ?h. sound_history ft a v) \<longleftrightarrow>
      (\<forall>a ps. dict_get (es_history sn) a = Some ps \<longrightarrow> sound_history ft a (PyList (map PyDict ps)))"
    using wf(2) by (auto simp: dict_get_eq_Some)
  have head: "(\<forall>vs es. dict_get ?h a = Some (PyList vs) \<longrightarrow> decoded_history ft a vs es \<longrightarrow> es \<noteq> [] \<longrightarrow>
        head_agrees s (last es)) \<longleftrightarrow>
      (\<forall>ps es. dict_get (es_history sn) a = Some ps \<longrightarrow> decoded_history ft a (map PyDict ps) es \<longrightarrow> es \<noteq> [] \<longrightarrow>
        head_agrees s (last es))" for a s
    by (auto simp: get)
  have split: "(\<forall>a. sound_address ft a (dict_get (es_results sn) a) (dict_get (es_history sn) a)) \<longleftrightarrow>
      (\<forall>a r. dict_get (es_results sn) a = Some r \<longrightarrow> sound_result ft ?h a (PyDict r)) \<and>
      (\<forall>a ps. dict_get (es_history sn) a = Some ps \<longrightarrow> sound_history ft a (PyList (map PyDict ps)))"
    unfolding sound_address_def sound_result_def sound_history_def head by blast
  show ?thesis
    unfolding results_value_def history_value_def snapshot_violations_sound results histories episode_sound_def split
    using wf by simp
qed

lemma consistent_before_last:
  assumes "history_consistent es" and "e \<in> set es"
  shows "episode_order e (last es)"
proof (cases es rule: rev_cases)
  case (snoc fs f)
  with assms show ?thesis by (auto simp: history_consistent_snoc episode_order_def)
qed (use assms in simp)

section \<open>One application\<close>

lemma build_and_apply_Inr:
  assumes "build_and_apply sn a s events replace rt = (Inr r, rt')"
  shows "episode_state_ok s \<and> list_all episode_event_ok events \<and> compiled_address a \<and>
    r = \<lparr>er_success = True,
         er_snapshot = sn\<lparr>es_results := dict_set a (state_payload s) (es_results sn),
           es_history := dict_set a ((if replace then [] else case dict_get (es_history sn) a of None \<Rightarrow> [] | Some ps \<Rightarrow> ps) @
             map event_payload events) (es_history sn)\<rparr>,
         er_diagnostics = [], er_changed = [a]\<rparr>"
proof -
  have events: "res_map make_episode_event es = Inr fs \<longleftrightarrow> list_all episode_event_ok es \<and> fs = es" for es fs
    by (induction es arbitrary: fs) (auto simp: make_episode_event_Inr res_bind_Inr_iff)
  let ?built = "res_bind (make_episode_state s) (\<lambda>s. res_bind (res_map make_episode_event events) (\<lambda>es. Inr (s, es)))"
  from assms obtain x where built: "?built = Inr x"
    by (cases ?built) (auto simp: build_and_apply_def)
  then have x: "x = (s, events)" "episode_state_ok s" "list_all episode_event_ok events"
    by (auto simp: res_bind_Inr_iff make_episode_state_Inr events)
  with assms built have "apply_episode sn a s events replace rt = (Inr r, rt')"
    by (simp add: build_and_apply_def)
  then have "compiled_address a" "r = \<lparr>er_success = True,
         er_snapshot = sn\<lparr>es_results := dict_set a (state_payload s) (es_results sn),
           es_history := dict_set a ((if replace then [] else case dict_get (es_history sn) a of None \<Rightarrow> [] | Some ps \<Rightarrow> ps) @
             map event_payload events) (es_history sn)\<rparr>,
         er_diagnostics = [], er_changed = [a]\<rparr>"
    by (auto simp: apply_episode_def Let_def res_bind_Inr_iff)
  with x show ?thesis by simp
qed

lemma decoded_payloads:
  "list_all episode_event_ok es \<Longrightarrow> (\<forall>e \<in> set es. ee_participant e = a) \<Longrightarrow>
     decoded_history ft a (map PyDict (map event_payload es)) es"
  by (induction es) (simp_all add: decoded_history_def event_round_trip)

text \<open>
  Soundness after an application: what has to be shown is that the events fit the history
  they are appended to, and that the state agrees with the last of them.
\<close>

lemma apply_sound:
  assumes sound: "episode_sound ft sn"
    and run: "build_and_apply sn a s events replace rt = (Inr r, rt')"
    and own: "et_participant s = a" "\<forall>e \<in> set events. ee_participant e = a" "events \<noteq> []"
    and head: "head_agrees s (last events)"
    and fits: "\<And>old. (if replace then old = [] else \<exists>ps. dict_get (es_history sn) a = Some ps \<and>
        decoded_history ft a (map PyDict ps) old \<and> history_consistent old \<or> dict_get (es_history sn) a = None \<and> old = []) \<Longrightarrow>
      history_consistent (old @ events)"
  shows "episode_sound ft (er_snapshot r)"
proof -
  let ?old = "if replace then [] else case dict_get (es_history sn) a of None \<Rightarrow> [] | Some ps \<Rightarrow> ps"
  note r = build_and_apply_Inr [OF run]
  have dec: "decoded_history ft a (map PyDict (map event_payload events)) events"
    using r own(2) by (intro decoded_payloads) simp_all
  have a: "a \<noteq> []" using r own(1) by (auto simp: episode_state_ok_def)
  obtain old where old: "decoded_history ft a (map PyDict ?old) old"
    "if replace then old = [] else \<exists>ps. dict_get (es_history sn) a = Some ps \<and>
        decoded_history ft a (map PyDict ps) old \<and> history_consistent old \<or> dict_get (es_history sn) a = None \<and> old = []"
  proof (cases "replace \<or> dict_get (es_history sn) a = None")
    case True
    then show thesis by (intro that [of "[]"]) (auto simp: decoded_history_def)
  next
    case False
    then obtain ps where ps: "dict_get (es_history sn) a = Some ps" "\<not> replace" by auto
    with sound obtain es where "decoded_history ft a (map PyDict ps) es" "history_consistent es"
      by (fastforce simp: episode_sound_def sound_address_def)
    with ps show thesis by (intro that [of es]) auto
  qed
  have whole: "decoded_history ft a (map PyDict (?old @ map event_payload events)) (old @ events)"
    using old(1) dec by (simp add: decoded_history_def list_all2_appendI)
  have last: "last (old @ events) = last events" using own(3) by simp
  have "state_from_payload ft (PyDict (state_payload s)) = Inr s" using r by (simp add: state_round_trip)
  then have "sound_address ft a (Some (state_payload s)) (Some (?old @ map event_payload events))"
    using a own(1) whole fits [OF old(2)] head last decoded_history_unique [OF whole]
    unfolding sound_address_def by (metis option.inject)
  with sound r show ?thesis by (auto simp: episode_sound_def)
qed

section \<open>The abstract lifecycle\<close>

datatype phase = Absent | Live int string | Ended int string terminal_reason

definition state_phase :: "episode_state \<Rightarrow> phase" where
  "state_phase s = (case et_reason s of
       None \<Rightarrow> Live (et_sequence s) (et_episode s)
     | Some why \<Rightarrow> Ended (et_sequence s) (et_episode s) why)"

definition phase_of :: "(64 word \<Rightarrow> string) \<Rightarrow> 'rest episode_snapshot \<Rightarrow> string \<Rightarrow> phase" where
  "phase_of ft sn a =
     (case dict_get (es_results sn) a of
        None \<Rightarrow> Absent
      | Some r \<Rightarrow> (case state_from_payload ft (PyDict r) of Inl e \<Rightarrow> Absent | Inr s \<Rightarrow> state_phase s))"

datatype episode_call =
    Initialize initialize_request
  | Reset renew_request
  | Restart renew_request
  | Terminate terminate_request

fun call_address :: "episode_call \<Rightarrow> string" where
  "call_address (Initialize q) = iq_participant q"
| "call_address (Reset q) = nq_participant q"
| "call_address (Restart q) = nq_participant q"
| "call_address (Terminate q) = tq_participant q"

text \<open>The transitions a successful call may make; a new episode never reuses the identifier it replaces.\<close>

inductive lifecycle :: "episode_call \<Rightarrow> phase \<Rightarrow> phase \<Rightarrow> bool" where
  begin_first: "lifecycle (Initialize q) Absent (Live 0 e)"
| begin_again: "e' \<noteq> e \<Longrightarrow> lifecycle (Reset q') (Live n e) (Live (n + 1) e')"
| begin_after: "e' \<noteq> e \<Longrightarrow> lifecycle (Restart q') (Ended n e why) (Live (n + 1) e')"
| finish: "lifecycle (Terminate t) (Live n e) (Ended n e (tq_reason t))"

inductive_simps lifecycle_simps [simp]:
  "lifecycle (Initialize q) p p'" "lifecycle (Reset q') p p'" "lifecycle (Restart q') p p'"
  "lifecycle (Terminate t) p p'"

lemma sound_state:
  assumes "episode_sound ft sn" and "dict_get (es_results sn) a = Some r"
  obtains s where "state_from_payload ft (PyDict r) = Inr s" and "et_participant s = a" and "episode_state_ok s" and "a \<noteq> []"
  using assms state_decoded_ok unfolding episode_sound_def sound_address_def by metis

lemma live_predecessor_sound:
  assumes "episode_sound ft sn"
  shows "live_predecessor ft sn a =
    (case dict_get (es_results sn) a of
       None \<Rightarrow> Inl (reject_episode sn (if a = [] then EMPTY_ADDRESS else NO_LIVE_EPISODE) a)
     | Some r \<Rightarrow> Inr (projr (state_from_payload ft (PyDict r))))"
proof (cases "dict_get (es_results sn) a")
  case None
  then show ?thesis by (simp add: live_predecessor_def)
next
  case (Some r)
  with assms obtain s where "state_from_payload ft (PyDict r) = Inr s" "a \<noteq> []" by (rule sound_state)
  with Some show ?thesis by (simp add: live_predecessor_def)
qed

text \<open>What the predecessor of a call says about the history it extends.\<close>

lemma live_history:
  assumes sound: "episode_sound ft sn" and live: "live_predecessor ft sn a = Inr s"
    and old: "(\<exists>ps. dict_get (es_history sn) a = Some ps \<and> decoded_history ft a (map PyDict ps) old \<and>
       history_consistent old) \<or> dict_get (es_history sn) a = None \<and> old = []"
  shows "episode_state_ok s \<and> et_participant s = a \<and> a \<noteq> [] \<and>
    history_consistent old \<and> (old \<noteq> [] \<longrightarrow> head_agrees s (last old)) \<and>
    (\<forall>e \<in> set old. ee_sequence e \<le> et_sequence s \<and> (ee_sequence e = et_sequence s \<longrightarrow> ee_episode e = et_episode s))"
proof -
  from live have a: "a \<noteq> []" by (auto simp: live_predecessor_def split: if_splits)
  from live a obtain r where r: "dict_get (es_results sn) a = Some r" "state_from_payload ft (PyDict r) = Inr s"
    by (auto simp: live_predecessor_def split: option.splits sum.splits)
  from sound r have s: "episode_state_ok s" "et_participant s = a"
    using state_decoded_ok [OF r(2)] unfolding episode_sound_def sound_address_def by force+
  have cons: "history_consistent old" using old by (auto simp: history_consistent_def)
  have head: "head_agrees s (last old)" if "old \<noteq> []"
    using old that sound r unfolding episode_sound_def sound_address_def by force
  have "ee_sequence e \<le> et_sequence s \<and> (ee_sequence e = et_sequence s \<longrightarrow> ee_episode e = et_episode s)"
    if e: "e \<in> set old" for e
  proof -
    from e have "head_agrees s (last old)" by (intro head) auto
    moreover have "episode_order e (last old)" by (rule consistent_before_last [OF cons e])
    ultimately show ?thesis by (simp add: head_agrees_def episode_order_def)
  qed
  with a s cons head show ?thesis by blast
qed

lemma live_status:
  assumes sound: "episode_sound ft sn" and live: "live_predecessor ft sn a = Inr s"
  shows "episode_state_ok s \<and> (et_status s = EP_TERMINATED \<longleftrightarrow> et_reason s \<noteq> None)"
proof -
  from live obtain r where "state_from_payload ft (PyDict r) = Inr s"
    by (auto simp: live_predecessor_def split: option.splits sum.splits if_splits)
  then have "episode_state_ok s" by (rule state_decoded_ok)
  then show ?thesis unfolding episode_state_ok_def by blast
qed

lemma live_phase:
  assumes sound: "episode_sound ft sn" and live: "live_predecessor ft sn a = Inr s"
  shows "phase_of ft sn a = state_phase s"
  using live by (auto simp: live_predecessor_def phase_of_def split: option.splits sum.splits if_splits)

lemma phase_after_apply:
  assumes "build_and_apply sn a s events replace rt = (Inr r, rt')"
  shows "phase_of ft (er_snapshot r) b = (if b = a then state_phase s else phase_of ft sn b)"
  using build_and_apply_Inr [OF assms] by (simp add: phase_of_def state_round_trip)

section \<open>The operations, one by one\<close>

definition call_ok ::
  "(64 word \<Rightarrow> string) \<Rightarrow> episode_call \<Rightarrow> 'rest episode_snapshot \<Rightarrow> 'rest episode_result \<Rightarrow> bool" where
  "call_ok ft c sn r \<longleftrightarrow> episode_sound ft (er_snapshot r) \<and>
     (if er_success r
      then lifecycle c (phase_of ft sn (call_address c)) (phase_of ft (er_snapshot r) (call_address c)) \<and>
        er_changed r = [call_address c] \<and> er_diagnostics r = [] \<and> compiled_address (call_address c) \<and>
        (\<forall>b. b \<noteq> call_address c \<longrightarrow> phase_of ft (er_snapshot r) b = phase_of ft sn b)
      else er_snapshot r = sn \<and> er_diagnostics r \<noteq> [])"

lemma call_ok_reject: "episode_sound ft sn \<Longrightarrow> call_ok ft c sn (reject_episode sn why b)"
  by (simp add: call_ok_def reject_episode_def)

lemma call_ok_apply:
  assumes run: "build_and_apply sn a s events replace rt = (Inr r, rt')"
    and a: "a = call_address c"
    and sound: "episode_sound ft (er_snapshot r)" and life: "lifecycle c (phase_of ft sn a) (state_phase s)"
  shows "call_ok ft c sn r"
proof -
  have "er_success r" "er_changed r = [a]" "er_diagnostics r = []" "compiled_address a"
    using build_and_apply_Inr [OF run] by simp_all
  then show ?thesis using sound life a by (simp add: call_ok_def phase_after_apply [OF run])
qed

lemma initialize_ok:
  assumes sound: "episode_sound ft sn" and run: "initialize_episode now q sn rt = (Inr r, rt')"
  shows "call_ok ft (Initialize q) sn r"
proof (cases "iq_participant q = [] \<or> dict_has (es_results sn) (iq_participant q)")
  case True
  with run sound show ?thesis by (auto simp: initialize_episode_def Let_def call_ok_reject split: if_splits)
next
  case False
  let ?a = "iq_participant q"
  obtain e rt1 where e: "choose_episode_id (iq_episode q) ?a rt = (e, rt1)" by fastforce
  from False run e have run1: "build_and_apply sn ?a (running_state now ?a e 0 INITIALIZE None)
          [\<lparr>ee_type = EPISODE_INITIALIZED, ee_timestamp = now, ee_participant = ?a, ee_episode = e,
            ee_sequence = 0, ee_reason = None, ee_action = Some INITIALIZE, ee_details = []\<rparr>,
           running_event now ?a e 0] True rt1 = (Inr r, rt')"
    by (simp add: initialize_episode_def Let_def)
  have "phase_of ft sn ?a = Absent"
    using False by (simp add: phase_of_def dict_get_None_iff [symmetric])
  moreover have "episode_sound ft (er_snapshot r)"
    by (rule apply_sound [OF sound run1])
      (simp_all add: running_state_def running_event_def head_agrees_def history_consistent_def
        episode_order_def episode_advance_def)
  ultimately show ?thesis by (intro call_ok_apply [OF run1]) (simp_all add: running_state_def state_phase_def)
qed

abbreviation renewal_events ::
  "episode_event_type \<Rightarrow> control_action \<Rightarrow> string \<Rightarrow> renew_request \<Rightarrow> episode_state \<Rightarrow> string \<Rightarrow> episode_event list" where
  "renewal_events ev act now q s e \<equiv>
     [\<lparr>ee_type = ev, ee_timestamp = now, ee_participant = nq_participant q, ee_episode = e,
       ee_sequence = et_sequence s + 1, ee_reason = None, ee_action = Some act,
       ee_details = [(''previous_episode_id'', PyStr (et_episode s)), (''reason'', PyStr (nq_reason q))]\<rparr>,
      running_event now (nq_participant q) e (et_sequence s + 1)]"

lemma renew_cases:
  assumes run: "renew_episode ft act ev ended now q sn rt = (out, rt')"
  obtains (rejected) why where "out = Inr (reject_episode sn why (nq_participant q))" and "rt' = rt"
    | (built) s e rt1 where "live_predecessor ft sn (nq_participant q) = Inr s"
        and "(et_status s = EP_TERMINATED) = ended"
        and "choose_episode_id (nq_episode q) (nq_participant q) rt = (e, rt1)"
        and "build_and_apply sn (nq_participant q)
          (running_state now (nq_participant q) e (et_sequence s + 1) act (Some (et_episode s)))
          (renewal_events ev act now q s e) False rt1 = (out, rt')"
proof (cases "live_predecessor ft sn (nq_participant q)")
  case (Inl failure)
  then obtain why where "failure = reject_episode sn why (nq_participant q)"
    by (auto simp: live_predecessor_def split: option.splits sum.splits if_splits)
  with run Inl show thesis by (intro rejected [of why]) (auto simp: renew_episode_def)
next
  case (Inr s)
  show thesis
  proof (cases "(et_status s = EP_TERMINATED) \<noteq> ended")
    case True
    with run Inr show thesis
      by (intro rejected [of WRONG_STATE]) (auto simp: renew_episode_def Let_def split: if_splits)
  next
    case False
    obtain e rt1 where e: "choose_episode_id (nq_episode q) (nq_participant q) rt = (e, rt1)" by fastforce
    with False run Inr show thesis
      by (intro built [of s e rt1]) (simp_all add: renew_episode_def Let_def)
  qed
qed

lemma renew_ok:
  assumes sound: "episode_sound ft sn"
    and kind: "ev = EPISODE_RESET \<and> \<not> ended \<and> c = Reset q \<or> ev = EPISODE_RESTARTED \<and> ended \<and> c = Restart q"
    and run: "renew_episode ft act ev ended now q sn rt = (Inr r, rt')"
  shows "call_ok ft c sn r"
  using run
proof (cases rule: renew_cases)
  case rejected
  with sound show ?thesis by (simp add: call_ok_reject)
next
  case (built s e rt1)
  let ?a = "nq_participant q"
  have "episode_state_ok (running_state now ?a e (et_sequence s + 1) act (Some (et_episode s)))"
    using build_and_apply_Inr [OF built(4)] by blast
  then have "e \<noteq> et_episode s" by (auto simp: episode_state_ok_def running_state_def)
  then have life: "lifecycle c (phase_of ft sn ?a)
      (state_phase (running_state now ?a e (et_sequence s + 1) act (Some (et_episode s))))"
    unfolding live_phase [OF sound built(1)] using kind live_status [OF sound built(1)] built(2)
    by (auto simp: running_state_def state_phase_def split: option.splits)
  have "episode_sound ft (er_snapshot r)"
  proof (rule apply_sound [OF sound built(4)])
    fix old
    assume "if False then old = [] else \<exists>ps. dict_get (es_history sn) ?a = Some ps \<and>
      decoded_history ft ?a (map PyDict ps) old \<and> history_consistent old \<or> dict_get (es_history sn) ?a = None \<and> old = []"
    then have "history_consistent old" "\<forall>e \<in> set old. ee_sequence e < et_sequence s + 1"
      using live_history [OF sound built(1), of old] by fastforce+
    then show "history_consistent (old @ renewal_events ev act now q s e)"
      using kind
      by (auto simp: history_consistent_snoc [of "old @ [x]" for x, simplified] history_consistent_snoc
          episode_order_def episode_advance_def running_event_def)
  qed (simp_all add: running_state_def running_event_def head_agrees_def)
  with life kind show ?thesis by (intro call_ok_apply [OF built(4)]) auto
qed

lemma terminate_ok:
  assumes sound: "episode_sound ft sn" and run: "terminate_episode ft now q sn rt = (Inr r, rt')"
  shows "call_ok ft (Terminate q) sn r"
proof (cases "live_predecessor ft sn (tq_participant q)")
  case (Inl failure)
  then obtain why where "failure = reject_episode sn why (tq_participant q)"
    by (auto simp: live_predecessor_def split: option.splits sum.splits if_splits)
  with run Inl sound show ?thesis by (auto simp: terminate_episode_def call_ok_reject)
next
  case (Inr s)
  let ?a = "tq_participant q"
  show ?thesis
  proof (cases "et_status s = EP_TERMINATED")
    case True
    with run Inr sound show ?thesis by (auto simp: terminate_episode_def Let_def call_ok_reject split: if_splits)
  next
    case False
    let ?e = "\<lparr>ee_type = terminal_event_for (tq_reason q), ee_timestamp = now, ee_participant = ?a,
        ee_episode = et_episode s, ee_sequence = et_sequence s, ee_reason = Some (tq_reason q), ee_action = None,
        ee_details = [(''detail'', PyStr (tq_detail q))]\<rparr>"
    let ?s = "\<lparr>et_schema = schema_version, et_participant = ?a, et_episode = et_episode s,
        et_sequence = et_sequence s, et_status = EP_TERMINATED, et_reason = Some (tq_reason q),
        et_initialized_at = et_initialized_at s, et_updated_at = now, et_terminated_at = Some now,
        et_action = et_action s, et_previous = et_previous s\<rparr>"
    from False run Inr have run1: "build_and_apply sn ?a ?s [?e] False rt = (Inr r, rt')"
      by (simp add: terminate_episode_def Let_def)
    have live: "et_reason s = None" using live_status [OF sound Inr] False by simp
    have event: "terminal_event_reason (terminal_event_for why) = Some why" for why by (cases why) simp_all
    have sequence: "terminal_event_for why \<notin> {EPISODE_RESET, EPISODE_RESTARTED}" for why by (cases why) simp_all
    have "episode_sound ft (er_snapshot r)"
    proof (rule apply_sound [OF sound run1])
      fix old
      assume "if False then old = [] else \<exists>ps. dict_get (es_history sn) ?a = Some ps \<and>
        decoded_history ft ?a (map PyDict ps) old \<and> history_consistent old \<or> dict_get (es_history sn) ?a = None \<and> old = []"
      then have "(\<exists>ps. dict_get (es_history sn) ?a = Some ps \<and> decoded_history ft ?a (map PyDict ps) old \<and>
        history_consistent old) \<or> dict_get (es_history sn) ?a = None \<and> old = []" by auto
      note h = live_history [OF sound Inr this]
      from h have cons: "history_consistent old" and head: "old \<noteq> [] \<longrightarrow> head_agrees s (last old)" by blast+
      from h have "\<forall>f \<in> set old. episode_order f ?e" by (simp add: episode_order_def)
      moreover have "old \<noteq> [] \<longrightarrow> episode_advance (last old) ?e"
        using head by (simp add: episode_advance_def head_agrees_def)
      ultimately show "history_consistent (old @ [?e])" using cons by (simp add: history_consistent_snoc)
    qed (simp_all add: head_agrees_def event)
    moreover have "lifecycle (Terminate q) (phase_of ft sn ?a) (state_phase ?s)"
      unfolding live_phase [OF sound Inr] using live by (simp add: state_phase_def)
    ultimately show ?thesis by (intro call_ok_apply [OF run1]) simp_all
  qed
qed

end
