(* ===== verification/Episode_System.thy ===== *)
theory Episode_System
  imports Episode_Life
begin

text \<open>
  The participant runtime as a transition system over a snapshot and the runtime object: its
  calls in any order, raising or not, and the batch reset. The properties of the episode
  lifecycle hold on every configuration reached from an empty snapshot.
\<close>

section \<open>Calls\<close>

fun run_call ::
  "(64 word \<Rightarrow> string) \<Rightarrow> string \<Rightarrow> episode_call \<Rightarrow> 'rest episode_snapshot \<Rightarrow> participant_runtime \<Rightarrow>
     'rest episode_outcome" where
  "run_call ft now (Initialize q) sn rt = initialize_episode now q sn rt"
| "run_call ft now (Reset q) sn rt = reset_episode ft now q sn rt"
| "run_call ft now (Restart q) sn rt = restart_episode ft now q sn rt"
| "run_call ft now (Terminate q) sn rt = terminate_episode ft now q sn rt"

lemma run_call_ok:
  assumes "episode_sound ft sn" and "run_call ft now c sn rt = (Inr r, rt')"
  shows "call_ok ft c sn r"
proof (cases c)
  case (Initialize q)
  with assms initialize_ok [of ft sn now q rt r rt'] show ?thesis by simp
next
  case (Reset q)
  with assms renew_ok [of ft sn EPISODE_RESET False c q RESET now rt r rt'] show ?thesis
    by (simp add: reset_episode_def)
next
  case (Restart q)
  with assms renew_ok [of ft sn EPISODE_RESTARTED True c q RESTART now rt r rt'] show ?thesis
    by (simp add: restart_episode_def)
next
  case (Terminate q)
  with assms terminate_ok [of ft sn now q rt r rt'] show ?thesis by simp
qed

section \<open>The batch reset\<close>

text \<open>Every listed participant starts its next episode, the others are left alone.\<close>

definition all_reset ::
  "(64 word \<Rightarrow> string) \<Rightarrow> string list \<Rightarrow> 'rest episode_snapshot \<Rightarrow> 'rest episode_snapshot \<Rightarrow> bool" where
  "all_reset ft addresses sn sn' \<longleftrightarrow>
     (\<forall>a. if a \<in> set addresses
          then \<exists>n e e'. phase_of ft sn a = Live n e \<and> e' \<noteq> e \<and> phase_of ft sn' a = Live (n + 1) e'
          else phase_of ft sn' a = phase_of ft sn a)"

definition undone ::
  "'rest episode_snapshot \<Rightarrow> participant_runtime \<Rightarrow> 'rest episode_outcome \<Rightarrow> bool" where
  "undone sn rt out \<longleftrightarrow> snd out = rt \<and>
     (case fst out of
        Inl e \<Rightarrow> True
      | Inr r \<Rightarrow> \<not> er_success r \<and> er_snapshot r = sn \<and> er_changed r = [] \<and> er_diagnostics r \<noteq> [])"

definition batch_done ::
  "(64 word \<Rightarrow> string) \<Rightarrow> string list \<Rightarrow> 'rest episode_snapshot \<Rightarrow> 'rest episode_outcome \<Rightarrow> bool" where
  "batch_done ft addresses sn out \<longleftrightarrow>
     (case fst out of
        Inl e \<Rightarrow> False
      | Inr r \<Rightarrow> er_success r \<and> er_diagnostics r = [] \<and> episode_sound ft (er_snapshot r) \<and>
          all_reset ft addresses sn (er_snapshot r))"

abbreviation batch_addresses :: "(string \<times> renew_request) list \<Rightarrow> string list" where
  "batch_addresses requests \<equiv> map (\<lambda>(now, r). nq_participant r) requests"

lemma all_reset_Nil [simp]: "all_reset ft [] sn sn"
  by (simp add: all_reset_def)

lemma all_reset_Cons:
  assumes "all_reset ft as sn' sn''" and "a \<notin> set as"
    and "phase_of ft sn a = Live n e" "e' \<noteq> e" "phase_of ft sn' a = Live (n + 1) e'"
    and "\<forall>b. b \<noteq> a \<longrightarrow> phase_of ft sn' b = phase_of ft sn b"
  shows "all_reset ft (a # as) sn sn''"
  using assms unfolding all_reset_def by (metis list.set_intros(1) set_ConsD list.set_intros(2))

lemma res_all_compiled:
  "list_all compiled_address as \<Longrightarrow>
     res_all (\<lambda>a. res_bind (require_compiled_address f a) (\<lambda>_. Inr ())) as = Inr ()"
  by (induction as) (simp_all add: require_compiled_address_def)

lemma list_all_fromkeys: "list_all P xs \<Longrightarrow> list_all P (fromkeys xs)"
  by (simp add: list_all_iff)

lemma reset_loop_outcome:
  assumes "episode_sound ft working" and "distinct (batch_addresses requests)" and "list_all compiled_address changed"
    and "reset_loop ft sn checkpoint requests working [] changed rt = out"
  shows "undone sn checkpoint out \<or> batch_done ft (batch_addresses requests) working out"
  using assms
proof (induction requests arbitrary: working changed rt)
  case Nil
  then have "out = (Inr \<lparr>er_success = True, er_snapshot = working, er_diagnostics = [],
      er_changed = fromkeys changed\<rparr>, rt)"
    by (simp add: res_all_compiled list_all_fromkeys)
  with Nil.prems(1) show ?case by (simp add: batch_done_def)
next
  case (Cons q requests)
  obtain now r where q: "q = (now, r)" by fastforce
  obtain res rt' where step: "reset_episode ft now r working rt = (res, rt')" by fastforce
  show ?case
  proof (cases res)
    case (Inl e)
    with Cons.prems(4) q step show ?thesis by (auto simp: undone_def)
  next
    case (Inr result)
    with step Cons.prems(1) have ok: "call_ok ft (Reset r) working result"
      using run_call_ok [of ft working now "Reset r" rt result rt'] by simp
    show ?thesis
    proof (cases "er_success result")
      case False
      with ok Cons.prems(4) q step Inr show ?thesis by (auto simp: undone_def call_ok_def)
    next
      case True
      with ok have facts: "episode_sound ft (er_snapshot result)" "er_diagnostics result = []"
        "list_all compiled_address (er_changed result)"
        "\<forall>b. b \<noteq> nq_participant r \<longrightarrow> phase_of ft (er_snapshot result) b = phase_of ft working b"
        by (simp_all add: call_ok_def)
      from True ok obtain n e e' where life: "phase_of ft working (nq_participant r) = Live n e" "e' \<noteq> e"
        "phase_of ft (er_snapshot result) (nq_participant r) = Live (n + 1) e'"
        by (auto simp: call_ok_def)
      from Cons.prems(4) q step Inr True facts(2)
      have "reset_loop ft sn checkpoint requests (er_snapshot result) [] (changed @ er_changed result) rt' = out"
        by simp
      from Cons.IH [OF facts(1) _ _ this] Cons.prems(2,3) facts(3)
      have "undone sn checkpoint out \<or> batch_done ft (batch_addresses requests) (er_snapshot result) out"
        by simp
      moreover have "all_reset ft (batch_addresses (q # requests)) working (er_snapshot x)"
        if "all_reset ft (batch_addresses requests) (er_snapshot result) (er_snapshot x)" for x
        using all_reset_Cons [OF that _ life facts(4)] Cons.prems(2) q by simp
      ultimately show ?thesis by (auto simp: batch_done_def split: sum.splits)
    qed
  qed
qed

lemma reset_many_outcome:
  assumes "episode_sound ft sn"
  shows "undone sn rt (reset_many ft requests sn rt) \<or>
    batch_done ft (batch_addresses requests) sn (reset_many ft requests sn rt)"
proof (cases "distinct (batch_addresses requests)")
  case True
  then show ?thesis using reset_loop_outcome [OF assms True, of "[]" sn rt rt] by (simp add: reset_many_def)
next
  case False
  then show ?thesis by (simp add: reset_many_def undone_def reject_episode_def)
qed

section \<open>The transition system\<close>

inductive episode_step ::
  "(64 word \<Rightarrow> string) \<Rightarrow> 'rest episode_snapshot \<times> participant_runtime \<Rightarrow>
     'rest episode_snapshot \<times> participant_runtime \<Rightarrow> bool" for ft where
  call_returns: "run_call ft now c sn rt = (Inr r, rt') \<Longrightarrow> episode_step ft (sn, rt) (er_snapshot r, rt')"
| call_raises: "run_call ft now c sn rt = (Inl e, rt') \<Longrightarrow> episode_step ft (sn, rt) (sn, rt')"
| batch_returns: "reset_many ft requests sn rt = (Inr r, rt') \<Longrightarrow> episode_step ft (sn, rt) (er_snapshot r, rt')"
| batch_raises: "reset_many ft requests sn rt = (Inl e, rt') \<Longrightarrow> episode_step ft (sn, rt) (sn, rt')"

definition reached :: "(64 word \<Rightarrow> string) \<Rightarrow> 'rest episode_snapshot \<Rightarrow> participant_runtime \<Rightarrow> bool" where
  "reached ft sn rt \<longleftrightarrow>
     (\<exists>rest. (episode_step ft)\<^sup>*\<^sup>* (\<lparr>es_results = [], es_history = [], es_rest = rest\<rparr>, new_runtime) (sn, rt))"

lemma episode_step_sound:
  assumes "episode_step ft c c'" and "episode_sound ft (fst c)"
  shows "episode_sound ft (fst c')"
  using assms
proof (cases rule: episode_step.cases)
  case (call_returns now call sn rt r rt')
  with assms(2) show ?thesis using run_call_ok [of ft sn now call rt r rt'] by (simp add: call_ok_def)
next
  case (batch_returns requests sn rt r rt')
  with assms(2) show ?thesis using reset_many_outcome [of ft sn rt requests]
    by (auto simp: undone_def batch_done_def)
qed simp_all

lemma reached_sound:
  assumes "reached ft sn rt"
  shows "episode_sound ft sn"
proof -
  have "episode_sound ft (fst c')" if "(episode_step ft)\<^sup>*\<^sup>* c c'" "episode_sound ft (fst c)" for c c'
    using that by (induction rule: rtranclp_induct) (auto intro: episode_step_sound)
  moreover have "episode_sound ft \<lparr>es_results = [], es_history = [], es_rest = rest\<rparr>" for rest
    by (simp add: episode_sound_def sound_address_def)
  ultimately show ?thesis using assms by (fastforce simp: reached_def)
qed

lemma reached_start: "reached ft \<lparr>es_results = [], es_history = [], es_rest = rest\<rparr> new_runtime"
  by (auto simp: reached_def)

lemma reached_call:
  assumes "reached ft sn rt" and "run_call ft now c sn rt = (Inr r, rt')"
  shows "reached ft (er_snapshot r) rt'"
  using assms rtranclp.rtrancl_into_rtrancl episode_step.call_returns unfolding reached_def by metis

end
