(* ===== verification/Episode_Claims.thy ===== *)
theory Episode_Claims
  imports Episode_System
begin

text \<open>
  The properties of the participant runtime: every configuration it reaches passes the snapshot
  checker, its calls implement the abstract lifecycle and are available when the lifecycle
  allows them, the batch reset is atomic, and which identifiers make a reset raise.
\<close>

section \<open>When a call goes through\<close>

lemma build_and_apply_runs:
  assumes "episode_state_ok s" and "list_all episode_event_ok events" and "compiled_address a"
  obtains r rt' where "build_and_apply sn a s events replace rt = (Inr r, rt')" and "er_success r"
    and "\<And>ft. phase_of ft (er_snapshot r) a = state_phase s"
proof -
  have "res_map make_episode_event events = Inr events"
    using assms(2) by (induction events) (simp_all add: make_episode_event_Inr res_bind_Inr_iff)
  moreover have "make_episode_state s = Inr s" using assms(1) by (simp add: make_episode_state_Inr)
  moreover have "require_compiled_address f a = Inr a" for f using assms(3) by simp
  ultimately obtain r rt' where run: "build_and_apply sn a s events replace rt = (Inr r, rt')"
    by (simp add: build_and_apply_def apply_episode_def Let_def)
  from build_and_apply_Inr [OF run] have "er_success r" by simp
  with run show thesis by (rule that) (simp add: phase_after_apply [OF run])
qed

text \<open>The decoded predecessor of a participant in a given phase.\<close>

lemma phase_predecessor:
  assumes sound: "episode_sound ft sn" and "phase_of ft sn a \<noteq> Absent"
  obtains s where "live_predecessor ft sn a = Inr s" and "phase_of ft sn a = state_phase s"
    and "episode_state_ok s" and "et_status s = EP_TERMINATED \<longleftrightarrow> et_reason s \<noteq> None"
proof -
  from assms(2) obtain r where r: "dict_get (es_results sn) a = Some r"
    by (auto simp: phase_of_def split: option.splits)
  with live_predecessor_sound [OF sound, of a] obtain s where s: "live_predecessor ft sn a = Inr s" by simp
  with live_phase [OF sound s] live_status [OF sound s] show thesis by (blast intro: that)
qed

lemma compiled_address_nonempty: "compiled_address a \<Longrightarrow> a \<noteq> []"
  by (auto simp: compiled_address_def)

lemma initialize_runs:
  assumes "compiled_address (iq_participant q)" and "now \<noteq> []" and "iq_episode q = Some e" and "e \<noteq> []"
    and "phase_of ft sn (iq_participant q) = Absent" and sound: "episode_sound ft sn"
  obtains r rt' where "initialize_episode now q sn rt = (Inr r, rt')" and "er_success r"
    and "phase_of ft (er_snapshot r) (iq_participant q) = Live 0 e"
proof -
  let ?a = "iq_participant q"
  have a: "?a \<noteq> []" using assms(1) by (rule compiled_address_nonempty)
  have "dict_get (es_results sn) ?a = None"
  proof (rule ccontr)
    assume "dict_get (es_results sn) ?a \<noteq> None"
    then obtain r where r: "dict_get (es_results sn) ?a = Some r" by auto
    with sound obtain s where "state_from_payload ft (PyDict r) = Inr s" by (rule sound_state)
    with r assms(5) show False by (auto simp: phase_of_def state_phase_def split: option.splits)
  qed
  then have run: "initialize_episode now q sn rt = build_and_apply sn ?a (running_state now ?a e 0 INITIALIZE None)
      [\<lparr>ee_type = EPISODE_INITIALIZED, ee_timestamp = now, ee_participant = ?a, ee_episode = e,
        ee_sequence = 0, ee_reason = None, ee_action = Some INITIALIZE, ee_details = []\<rparr>,
       running_event now ?a e 0] True rt"
    using a assms(3,4) by (simp add: initialize_episode_def choose_episode_id_def dict_get_None_iff Let_def)
  obtain r rt' where "initialize_episode now q sn rt = (Inr r, rt')" "er_success r"
    "phase_of ft (er_snapshot r) ?a = state_phase (running_state now ?a e 0 INITIALIZE None)"
    unfolding run by (rule build_and_apply_runs [of "running_state now ?a e 0 INITIALIZE None" _ ?a sn True rt])
      (use a assms in \<open>auto simp: running_state_def running_event_def episode_state_ok_def episode_event_ok_def
        schema_version_def\<close>)
  then show thesis by (intro that) (simp_all add: running_state_def state_phase_def)
qed

lemma renew_runs:
  assumes sound: "episode_sound ft sn" and a: "compiled_address (nq_participant q)" and now: "now \<noteq> []"
    and e: "nq_episode q = Some e" "e \<noteq> []" "e \<noteq> et_episode s"
    and s: "live_predecessor ft sn (nq_participant q) = Inr s" "(et_status s = EP_TERMINATED) = ended"
    and kind: "ev = EPISODE_RESET \<and> act = RESET \<or> ev = EPISODE_RESTARTED \<and> act = RESTART"
  obtains r rt' where "renew_episode ft act ev ended now q sn rt = (Inr r, rt')" and "er_success r"
    and "phase_of ft (er_snapshot r) (nq_participant q) = Live (et_sequence s + 1) e"
proof -
  let ?a = "nq_participant q"
  let ?s = "running_state now ?a e (et_sequence s + 1) act (Some (et_episode s))"
  have run: "renew_episode ft act ev ended now q sn rt = build_and_apply sn ?a ?s (renewal_events ev act now q s e) False rt"
    using e s by (simp add: renew_episode_def choose_episode_id_def Let_def)
  have ok: "episode_state_ok s" using live_status [OF sound s(1)] by blast
  then have seq: "0 \<le> et_sequence s" "et_episode s \<noteq> []" by (simp_all add: episode_state_ok_def)
  have state: "episode_state_ok ?s"
    using compiled_address_nonempty [OF a] now e seq kind
    by (auto simp: running_state_def episode_state_ok_def schema_version_def)
  have events: "list_all episode_event_ok (renewal_events ev act now q s e)"
    using compiled_address_nonempty [OF a] now e seq kind
    by (auto simp: running_event_def episode_event_ok_def)
  obtain r rt' where "renew_episode ft act ev ended now q sn rt = (Inr r, rt')" "er_success r"
    "phase_of ft (er_snapshot r) ?a = state_phase ?s"
    unfolding run by (rule build_and_apply_runs [OF state events a]) blast
  then show thesis by (intro that) (simp_all add: running_state_def state_phase_def)
qed

lemma terminate_runs:
  assumes sound: "episode_sound ft sn" and a: "compiled_address (tq_participant q)" and now: "now \<noteq> []"
    and s: "live_predecessor ft sn (tq_participant q) = Inr s" "et_status s \<noteq> EP_TERMINATED"
  obtains r rt' where "terminate_episode ft now q sn rt = (Inr r, rt')" and "er_success r"
    and "phase_of ft (er_snapshot r) (tq_participant q) = Ended (et_sequence s) (et_episode s) (tq_reason q)"
proof -
  let ?a = "tq_participant q"
  let ?s = "\<lparr>et_schema = schema_version, et_participant = ?a, et_episode = et_episode s,
        et_sequence = et_sequence s, et_status = EP_TERMINATED, et_reason = Some (tq_reason q),
        et_initialized_at = et_initialized_at s, et_updated_at = now, et_terminated_at = Some now,
        et_action = et_action s, et_previous = et_previous s\<rparr>"
  let ?e = "\<lparr>ee_type = terminal_event_for (tq_reason q), ee_timestamp = now, ee_participant = ?a,
        ee_episode = et_episode s, ee_sequence = et_sequence s, ee_reason = Some (tq_reason q), ee_action = None,
        ee_details = [(''detail'', PyStr (tq_detail q))]\<rparr>"
  have run: "terminate_episode ft now q sn rt = build_and_apply sn ?a ?s [?e] False rt"
    using s by (simp add: terminate_episode_def Let_def)
  have ok: "episode_state_ok s" using live_status [OF sound s(1)] by blast
  then have "episode_state_ok ?s"
    using compiled_address_nonempty [OF a] now by (auto simp: episode_state_ok_def schema_version_def)
  moreover have "list_all episode_event_ok [?e]"
    using ok compiled_address_nonempty [OF a] now
    by (cases "tq_reason q") (auto simp: episode_state_ok_def episode_event_ok_def)
  ultimately obtain r rt' where "terminate_episode ft now q sn rt = (Inr r, rt')" "er_success r"
    "phase_of ft (er_snapshot r) ?a = state_phase ?s"
    unfolding run by (rule build_and_apply_runs [OF _ _ a]) blast
  then show thesis by (intro that) (simp_all add: state_phase_def)
qed

text \<open>The identifier a call asks for is the one of the phase it should lead to.\<close>

fun names_episode :: "episode_call \<Rightarrow> phase \<Rightarrow> bool" where
  "names_episode (Initialize q) (Live n e) = (iq_episode q = Some e \<and> e \<noteq> [])"
| "names_episode (Reset q) (Live n e) = (nq_episode q = Some e \<and> e \<noteq> [])"
| "names_episode (Restart q) (Live n e) = (nq_episode q = Some e \<and> e \<noteq> [])"
| "names_episode (Terminate q) p = True"
| "names_episode c p = False"

lemma call_runs:
  assumes sound: "episode_sound ft sn" and life: "lifecycle c (phase_of ft sn (call_address c)) p"
    and a: "compiled_address (call_address c)" and now: "now \<noteq> []" and names: "names_episode c p"
  obtains r rt' where "run_call ft now c sn rt = (Inr r, rt')" and "er_success r"
    and "phase_of ft (er_snapshot r) (call_address c) = p"
proof (cases c)
  case (Initialize q)
  with life obtain e where p: "p = Live 0 e" "phase_of ft sn (iq_participant q) = Absent" by auto
  obtain r rt' where "initialize_episode now q sn rt = (Inr r, rt')" "er_success r"
    "phase_of ft (er_snapshot r) (iq_participant q) = Live 0 e"
    by (rule initialize_runs [OF _ now _ _ p(2) sound, of e rt]) (use names Initialize a p in auto)
  then show thesis using Initialize p by (intro that) simp_all
next
  case (Reset q)
  with life obtain n e e' where p: "p = Live (n + 1) e'" "e' \<noteq> e" "phase_of ft sn (nq_participant q) = Live n e" by auto
  then obtain s where s: "live_predecessor ft sn (nq_participant q) = Inr s" "state_phase s = Live n e"
    "et_status s = EP_TERMINATED \<longleftrightarrow> et_reason s \<noteq> None"
    using phase_predecessor [OF sound, of "nq_participant q"] by (metis phase.distinct(1))
  then have now_s: "et_sequence s = n" "et_episode s = e" "(et_status s = EP_TERMINATED) = False"
    by (auto simp: state_phase_def split: option.splits)
  obtain r rt' where "renew_episode ft RESET EPISODE_RESET False now q sn rt = (Inr r, rt')" "er_success r"
    "phase_of ft (er_snapshot r) (nq_participant q) = Live (et_sequence s + 1) e'"
    by (rule renew_runs [OF sound _ now _ _ _ s(1) now_s(3), of e' EPISODE_RESET RESET rt])
      (use names a Reset p now_s in auto)
  then show thesis using Reset p now_s by (intro that) (simp_all add: reset_episode_def)
next
  case (Restart q)
  with life obtain n e e' why where p: "p = Live (n + 1) e'" "e' \<noteq> e"
    "phase_of ft sn (nq_participant q) = Ended n e why" by auto
  then obtain s where s: "live_predecessor ft sn (nq_participant q) = Inr s" "state_phase s = Ended n e why"
    "et_status s = EP_TERMINATED \<longleftrightarrow> et_reason s \<noteq> None"
    using phase_predecessor [OF sound, of "nq_participant q"] by (metis phase.distinct(3))
  then have now_s: "et_sequence s = n" "et_episode s = e" "(et_status s = EP_TERMINATED) = True"
    by (auto simp: state_phase_def split: option.splits)
  obtain r rt' where "renew_episode ft RESTART EPISODE_RESTARTED True now q sn rt = (Inr r, rt')" "er_success r"
    "phase_of ft (er_snapshot r) (nq_participant q) = Live (et_sequence s + 1) e'"
    by (rule renew_runs [OF sound _ now _ _ _ s(1) now_s(3), of e' EPISODE_RESTARTED RESTART rt])
      (use names a Restart p now_s in auto)
  then show thesis using Restart p now_s by (intro that) (simp_all add: restart_episode_def)
next
  case (Terminate q)
  with life obtain n e where p: "p = Ended n e (tq_reason q)" "phase_of ft sn (tq_participant q) = Live n e" by auto
  then obtain s where s: "live_predecessor ft sn (tq_participant q) = Inr s" "state_phase s = Live n e"
    "et_status s = EP_TERMINATED \<longleftrightarrow> et_reason s \<noteq> None"
    using phase_predecessor [OF sound, of "tq_participant q"] by (metis phase.distinct(1))
  then have now_s: "et_sequence s = n" "et_episode s = e" "et_status s \<noteq> EP_TERMINATED"
    by (auto simp: state_phase_def split: option.splits)
  obtain r rt' where "terminate_episode ft now q sn rt = (Inr r, rt')" "er_success r"
    "phase_of ft (er_snapshot r) (tq_participant q) = Ended (et_sequence s) (et_episode s) (tq_reason q)"
    by (rule terminate_runs [OF sound _ now s(1) now_s(3), of rt]) (use a Terminate in auto)
  then show thesis using Terminate p now_s by (intro that) simp_all
qed

section \<open>When a reset raises\<close>

lemma renew_raises:
  assumes sound: "episode_sound ft sn" and live: "phase_of ft sn (nq_participant q) = Live n e"
    and same: "choose_episode_id (nq_episode q) (nq_participant q) rt = (e, rt1)"
  obtains x where "reset_episode ft now q sn rt = (Inl x, rt1)"
proof -
  let ?a = "nq_participant q"
  obtain s where s: "live_predecessor ft sn ?a = Inr s" "state_phase s = Live n e"
    "et_status s = EP_TERMINATED \<longleftrightarrow> et_reason s \<noteq> None"
    using phase_predecessor [OF sound, of ?a] live by (metis phase.distinct(1))
  then have now_s: "et_episode s = e" "et_status s \<noteq> EP_TERMINATED"
    by (auto simp: state_phase_def split: option.splits)
  let ?s = "running_state now ?a e (et_sequence s + 1) RESET (Some (et_episode s))"
  have "\<not> episode_state_ok ?s" using now_s by (simp add: episode_state_ok_def running_state_def)
  then obtain x where "make_episode_state ?s = Inl x"
    using make_episode_state_Inr by (cases "make_episode_state ?s") auto
  then have "reset_episode ft now q sn rt = (Inl x, rt1)"
    using s(1) now_s same by (simp add: reset_episode_def renew_episode_def build_and_apply_def Let_def)
  then show thesis by (rule that)
qed

section \<open>A concrete run\<close>

definition demo_floats :: "64 word \<Rightarrow> string" where
  "demo_floats w = ''0.0''"

definition demo_start :: "unit episode_snapshot" where
  "demo_start = \<lparr>es_results = [], es_history = [], es_rest = ()\<rparr>"

definition demo_call :: episode_call where
  "demo_call = Initialize \<lparr>iq_participant = ''participant.red'', iq_episode = Some ''participant.red-episode-1''\<rparr>"

definition demo_live :: "unit episode_snapshot \<times> participant_runtime" where
  "demo_live = (case run_call demo_floats ''t0'' demo_call demo_start new_runtime of
     (Inl e, rt) \<Rightarrow> (demo_start, rt) | (Inr r, rt) \<Rightarrow> (er_snapshot r, rt))"

definition demo_reset :: "string option \<Rightarrow> renew_request" where
  "demo_reset e = \<lparr>nq_participant = ''participant.red'', nq_episode = e, nq_reason = ''retry''\<rparr>"

lemma demo_started: "reached demo_floats demo_start new_runtime"
  unfolding demo_start_def by (rule reached_start)

lemma demo_reached: "reached demo_floats (fst demo_live) (snd demo_live)"
proof -
  have "\<not> isl (fst (run_call demo_floats ''t0'' demo_call demo_start new_runtime))" by code_simp
  then obtain r rt where run: "run_call demo_floats ''t0'' demo_call demo_start new_runtime = (Inr r, rt)"
    by (metis old.sum.exhaust prod.collapse sum.disc(1))
  then show ?thesis using reached_call [OF demo_started run] by (simp add: demo_live_def)
qed

lemma demo_phase: "phase_of demo_floats (fst demo_live) ''participant.red'' = Live 0 ''participant.red-episode-1''"
  by code_simp

section \<open>Properties of the participant runtime\<close>

text \<open>
  C9. Whatever sequence of initialize, reset, restart, terminate and batch reset calls a runtime
  has served, returning or raising, the snapshot it leaves has no violation to report: results
  decode, histories are consistent and every result agrees with the end of its history.
\<close>

theorem reached_snapshots_valid:
  assumes "reached ft sn rt"
  shows "snapshot_violations ft (results_value sn) (history_value sn) = []"
  using reached_sound [OF assms] episode_sound_iff by (auto simp: episode_sound_def)

theorem reached_snapshots_valid_witness:
  "snapshot_violations demo_floats (results_value (fst demo_live)) (history_value (fst demo_live)) = [] \<and>
   es_results (fst demo_live) \<noteq> []"
proof
  show "es_results (fst demo_live) \<noteq> []" by code_simp
qed (rule reached_snapshots_valid [OF demo_reached])

text \<open>
  C10. A call that returns is a transition of the abstract lifecycle for the participant it names,
  with one changed address and no diagnostic, and leaves every other participant where it was;
  a rejected call leaves the whole snapshot unchanged and says why.
\<close>

theorem episode_calls_refine_lifecycle:
  assumes "reached ft sn rt" and "run_call ft now c sn rt = (Inr r, rt')"
  shows "if er_success r
    then lifecycle c (phase_of ft sn (call_address c)) (phase_of ft (er_snapshot r) (call_address c)) \<and>
      (\<forall>b. b = call_address c \<or> phase_of ft (er_snapshot r) b = phase_of ft sn b) \<and>
      er_changed r = [call_address c] \<and> er_diagnostics r = []
    else er_snapshot r = sn \<and> er_diagnostics r \<noteq> []"
  using run_call_ok [OF reached_sound [OF assms(1)] assms(2)] by (auto simp: call_ok_def)

theorem episode_calls_refine_lifecycle_witness:
  "\<exists>r rt'. run_call demo_floats ''t0'' demo_call demo_start new_runtime = (Inr r, rt') \<and> er_success r \<and>
     lifecycle demo_call Absent (phase_of demo_floats (er_snapshot r) ''participant.red'')"
proof -
  have run: "case run_call demo_floats ''t0'' demo_call demo_start new_runtime of
      (Inl e, rt) \<Rightarrow> False | (Inr r, rt) \<Rightarrow> er_success r" by code_simp
  then obtain r rt' where r: "run_call demo_floats ''t0'' demo_call demo_start new_runtime = (Inr r, rt')" "er_success r"
    by (auto split: prod.splits sum.splits)
  have "call_address demo_call = ''participant.red''" "phase_of demo_floats demo_start ''participant.red'' = Absent"
    by code_simp+
  with episode_calls_refine_lifecycle [OF demo_started r(1)] r show ?thesis by auto
qed

text \<open>
  Every transition of the lifecycle is available: from any configuration the runtime reaches,
  a call on a compiled address with a clock reading and the identifier of the phase it should
  lead to succeeds and leads there.
\<close>

lemma lifecycle_transitions_available:
  assumes "reached ft sn rt" and "lifecycle c (phase_of ft sn (call_address c)) p"
    and "compiled_address (call_address c)" and "now \<noteq> []" and "names_episode c p"
  shows "\<exists>r rt'. run_call ft now c sn rt = (Inr r, rt') \<and> er_success r \<and>
    phase_of ft (er_snapshot r) (call_address c) = p"
  using call_runs [OF reached_sound [OF assms(1)] assms(2-5)] by metis

lemma lifecycle_transitions_available_witness:
  "\<exists>r rt'. run_call demo_floats ''t1'' (Reset (demo_reset (Some ''second''))) (fst demo_live) (snd demo_live) =
     (Inr r, rt') \<and> er_success r \<and> phase_of demo_floats (er_snapshot r) ''participant.red'' = Live 1 ''second''"
proof -
  have "compiled_address ''participant.red''" by code_simp
  then show ?thesis
    using lifecycle_transitions_available [OF demo_reached, of "Reset (demo_reset (Some ''second''))" "Live 1 ''second''" "''t1''"]
      demo_phase by (simp add: demo_reset_def)
qed

text \<open>
  C11. No participant is ever stuck: in every configuration the runtime reaches, some call makes a
  compiled address live again under a new identifier, whatever its phase.
\<close>

theorem episode_never_stuck:
  assumes "reached ft sn rt" and "compiled_address a" and "now \<noteq> []" and "e \<noteq> []"
    and "\<not> (\<exists>n why. phase_of ft sn a = Live n e \<or> phase_of ft sn a = Ended n e why)"
  shows "\<exists>c r rt' n. call_address c = a \<and> run_call ft now c sn rt = (Inr r, rt') \<and> er_success r \<and>
    phase_of ft (er_snapshot r) a = Live n e"
proof -
  let ?new = "\<lparr>iq_participant = a, iq_episode = Some e\<rparr>"
  let ?next = "\<lparr>nq_participant = a, nq_episode = Some e, nq_reason = []\<rparr>"
  obtain c n where c: "call_address c = a" "lifecycle c (phase_of ft sn a) (Live n e)" "names_episode c (Live n e)"
  proof (cases "phase_of ft sn a")
    case Absent
    with assms(4) show thesis by (intro that [of "Initialize ?new" 0]) simp_all
  next
    case (Live m e')
    with assms(4,5) show thesis by (intro that [of "Reset ?next" "m + 1"]) auto
  next
    case (Ended m e' why)
    with assms(4,5) show thesis by (intro that [of "Restart ?next" "m + 1"]) auto
  qed
  with call_runs [OF reached_sound [OF assms(1)], of c "Live n e" now rt] assms(2,3) show ?thesis by metis
qed

theorem episode_never_stuck_witness:
  "\<exists>c r rt' n. call_address c = ''participant.red'' \<and>
     run_call demo_floats ''t1'' c (fst demo_live) (snd demo_live) = (Inr r, rt') \<and> er_success r \<and>
     phase_of demo_floats (er_snapshot r) ''participant.red'' = Live n ''second''"
proof -
  have "compiled_address ''participant.red''" by code_simp
  then show ?thesis
    using episode_never_stuck [OF demo_reached, of "''participant.red''" "''t1''" "''second''"] demo_phase by simp
qed

text \<open>
  The batch reset is atomic: either every listed participant was live and moves to its next
  episode under a new identifier while the others keep theirs, or nothing changes, neither the
  snapshot nor the runtime object, also when a reset in the middle of the batch raises.
\<close>

lemma reset_many_atomic:
  assumes "reached ft sn rt"
  shows "case reset_many ft requests sn rt of
      (Inl e, rt') \<Rightarrow> rt' = rt
    | (Inr r, rt') \<Rightarrow>
        if er_success r then all_reset ft (batch_addresses requests) sn (er_snapshot r) \<and> er_diagnostics r = []
        else er_snapshot r = sn \<and> rt' = rt \<and> er_changed r = [] \<and> er_diagnostics r \<noteq> []"
  using reset_many_outcome [OF reached_sound [OF assms], of rt requests]
  by (auto simp: undone_def batch_done_def split: prod.splits sum.splits)

lemma reset_many_atomic_witness:
  "\<exists>r rt'. reset_many demo_floats [(''t1'', demo_reset (Some ''second''))] (fst demo_live) (snd demo_live) = (Inr r, rt') \<and>
     all_reset demo_floats [''participant.red''] (fst demo_live) (er_snapshot r)"
proof -
  have run: "case reset_many demo_floats [(''t1'', demo_reset (Some ''second''))] (fst demo_live) (snd demo_live) of
      (Inl e, rt) \<Rightarrow> False | (Inr r, rt) \<Rightarrow> er_success r" by code_simp
  with reset_many_atomic [OF demo_reached, of "[(''t1'', demo_reset (Some ''second''))]"] show ?thesis
    by (auto simp: demo_reset_def split: prod.splits sum.splits)
qed

text \<open>
  A reset whose chosen identifier, the requested or the allocated one, is that of the live
  episode is not rejected but raises; inside a batch the restored counter makes the allocated
  identifier clash again, so the batch raises and leaves everything as it was.
\<close>

lemma reset_to_live_identifier_raises:
  assumes "reached ft sn rt" and "phase_of ft sn (nq_participant q) = Live n e"
    and "choose_episode_id (nq_episode q) (nq_participant q) rt = (e, rt1)"
  shows "\<exists>x. reset_episode ft now q sn rt = (Inl x, rt1) \<and> reset_many ft [(now, q)] sn rt = (Inl x, rt)"
proof -
  obtain x where "reset_episode ft now q sn rt = (Inl x, rt1)"
    by (rule renew_raises [OF reached_sound [OF assms(1)] assms(2,3)])
  then show ?thesis by (simp add: reset_many_def)
qed

lemma reset_to_live_identifier_raises_witness:
  "\<exists>x. reset_many demo_floats [(''t1'', demo_reset None)] (fst demo_live) (snd demo_live) = (Inl x, snd demo_live)"
proof -
  have "fst (choose_episode_id None ''participant.red'' (snd demo_live)) = ''participant.red-episode-1''" by code_simp
  then have same: "choose_episode_id (nq_episode (demo_reset None)) (nq_participant (demo_reset None)) (snd demo_live) =
      (''participant.red-episode-1'', snd (choose_episode_id None ''participant.red'' (snd demo_live)))"
    by (metis demo_reset_def prod.collapse renew_request.select_convs(1,2))
  have live: "phase_of demo_floats (fst demo_live) (nq_participant (demo_reset None)) = Live 0 ''participant.red-episode-1''"
    using demo_phase by (simp add: demo_reset_def)
  from reset_to_live_identifier_raises [OF demo_reached live same, of "''t1''"] show ?thesis by blast
qed

end
