(* ===== verification/Episode_Closure.thy ===== *)
theory Episode_Closure
  imports Episode_Checker
begin

text \<open>
  Closure records, \<open>raes_contracts/participant_episode_closure.py\<close>: the evidence that relates a
  step signal of a learning environment to the terminal reason of an episode. A record is
  admitted when its signal may map to its reason, and a snapshot when every record names a
  terminal event that its history realized, with that reason.
\<close>

section \<open>Signals and records\<close>

datatype closure_signal = RL_TERMINATION | RL_TRUNCATION

fun signal_text :: "closure_signal \<Rightarrow> string" where
  "signal_text RL_TERMINATION = ''rl_termination''"
| "signal_text RL_TRUNCATION = ''rl_truncation''"

definition all_signals :: "closure_signal list" where
  "all_signals = [RL_TERMINATION, RL_TRUNCATION]"

fun signal_reasons :: "closure_signal \<Rightarrow> terminal_reason list" where
  "signal_reasons RL_TERMINATION = [COMPLETED]"
| "signal_reasons RL_TRUNCATION = [TRUNCATED, TIMED_OUT]"

record closure_record =
  cl_participant :: string
  cl_episode :: string
  cl_sequence :: int
  cl_signal :: closure_signal
  cl_reason :: terminal_reason
  cl_authority :: string
  cl_evidence :: "string list"
  cl_derived_at :: string
  cl_schema :: string

definition closure_schema_version :: string where
  "closure_schema_version = ''participant-episode-closure-record/v1''"

fun evidence_ref :: "py_value \<Rightarrow> string res" where
  "evidence_ref (PyStr s) =
     res_bind (require_non_empty_string s ''participant episode closure record evidence ref'') (\<lambda>_. Inr s)"
| "evidence_ref v = Inl (TypeError ''participant episode closure record evidence ref must be a non-empty string'')"

fun normalize_evidence_refs :: "py_value \<Rightarrow> string list res" where
  "normalize_evidence_refs (PyList refs) =
     res_bind (require_that (refs \<noteq> [])
         (ValueError ''participant episode closure record must carry at least one evidence ref'')) (\<lambda>_.
       res_map evidence_ref refs)"
| "normalize_evidence_refs v =
     Inl (TypeError ''participant episode closure record evidence_refs must be a list of strings'')"

definition validate_closure_types :: "closure_record \<Rightarrow> unit res" where
  "validate_closure_types r =
     res_bind (require_non_empty_string (cl_schema r) ''participant episode closure record record_schema_version'') (\<lambda>_.
     res_bind (require_non_empty_string (cl_participant r) ''participant_address'') (\<lambda>_.
     res_bind (require_non_empty_string (cl_episode r) ''episode_id'') (\<lambda>_.
     res_bind (require_non_negative_int (cl_sequence r) ''sequence_number'') (\<lambda>_.
     res_bind (require_non_empty_string (cl_authority r) ''deriving_authority'') (\<lambda>_.
     res_bind (require_non_empty_string (cl_derived_at r) ''derived_at'') (\<lambda>_.
     res_bind (normalize_evidence_refs (PyList (map PyStr (cl_evidence r)))) (\<lambda>_. Inr ())))))))"

definition validate_closure_mapping :: "closure_record \<Rightarrow> unit res" where
  "validate_closure_mapping r =
     require_that (cl_reason r \<in> set (signal_reasons (cl_signal r)))
       (ValueError (''closure record source_signal '' @ signal_text (cl_signal r) @
          '' is not a governed mapping to terminal reason '' @ reason_text (cl_reason r)))"

definition make_closure_record :: "closure_record \<Rightarrow> closure_record res" where
  "make_closure_record r =
     res_bind (validate_closure_types r) (\<lambda>_. res_bind (validate_closure_mapping r) (\<lambda>_. Inr r))"

definition closure_from_payload :: "(64 word \<Rightarrow> string) \<Rightarrow> py_value \<Rightarrow> closure_record res" where
  "closure_from_payload ft v =
     (case py_mapping v of
        None \<Rightarrow> Inl (TypeError ''participant episode closure record must be a mapping'')
      | Some d \<Rightarrow>
          res_bind (require_keys [''participant_address'', ''episode_id'', ''sequence_number'', ''source_signal'',
              ''mapped_terminal_reason'', ''deriving_authority'', ''evidence_refs'', ''derived_at''] d
              ''participant episode closure record is missing required fields'') (\<lambda>_.
          res_bind (py_int (py_get d ''sequence_number'')
              ''participant episode closure record sequence_number must be an int'') (\<lambda>number.
          res_bind (enum_value ft signal_text all_signals (py_get d ''source_signal'')) (\<lambda>signal.
          res_bind (enum_value ft reason_text all_reasons (py_get d ''mapped_terminal_reason'')) (\<lambda>reason.
          res_bind (normalize_evidence_refs (py_get d ''evidence_refs'')) (\<lambda>refs.
            make_closure_record
              \<lparr>cl_participant = py_str ft (py_get d ''participant_address''),
               cl_episode = py_str ft (py_get d ''episode_id''), cl_sequence = number, cl_signal = signal,
               cl_reason = reason, cl_authority = py_str ft (py_get d ''deriving_authority''),
               cl_evidence = refs, cl_derived_at = py_str ft (py_get d ''derived_at''),
               cl_schema = (if dict_has d ''record_schema_version''
                 then py_str ft (py_get d ''record_schema_version'') else closure_schema_version)\<rparr>))))))"

definition closure_payload :: "closure_record \<Rightarrow> (string, py_value) pydict" where
  "closure_payload r =
     [(''record_schema_version'', PyStr (cl_schema r)),
      (''participant_address'', PyStr (cl_participant r)),
      (''episode_id'', PyStr (cl_episode r)),
      (''sequence_number'', PyInt (cl_sequence r)),
      (''source_signal'', PyStr (signal_text (cl_signal r))),
      (''mapped_terminal_reason'', PyStr (reason_text (cl_reason r))),
      (''deriving_authority'', PyStr (cl_authority r)),
      (''evidence_refs'', PyList (map PyStr (cl_evidence r))),
      (''derived_at'', PyStr (cl_derived_at r))]"

section \<open>The terminal events of a history\<close>

type_synonym terminals = "(string \<times> int, terminal_reason) pydict"

fun address_terminal_reasons :: "(64 word \<Rightarrow> string) \<Rightarrow> string \<Rightarrow> py_value list \<Rightarrow> terminals \<Rightarrow> terminals" where
  "address_terminal_reasons ft key [] found = found"
| "address_terminal_reasons ft key (v # vs) found =
     address_terminal_reasons ft key vs
       (case event_from_payload ft v of
          Inl x \<Rightarrow> found
        | Inr e \<Rightarrow> (case ee_reason e of
              None \<Rightarrow> found
            | Some why \<Rightarrow>
                if ee_participant e = key \<and> terminal_event_reason (ee_type e) \<noteq> None
                then dict_set (ee_episode e, ee_sequence e) why found else found))"

definition terminal_index :: "(64 word \<Rightarrow> string) \<Rightarrow> py_value \<Rightarrow> (string, terminals) pydict" where
  "terminal_index ft histories =
     (case py_mapping histories of
        None \<Rightarrow> []
      | Some d \<Rightarrow> foldl (\<lambda>index (key, history).
          case py_list history of
            None \<Rightarrow> index
          | Some events \<Rightarrow>
              if key = [] then index else dict_set key (address_terminal_reasons ft key events []) index) [] d)"

section \<open>Violations\<close>

datatype closure_violation =
    RECORDS_NOT_A_MAPPING
  | RECORDS_BAD_KEY
  | RECORDS_NOT_A_LIST
  | RECORD_INVALID py_exn
  | RECORD_KEY_MISMATCH string
  | NO_TERMINAL_EVENT string int
  | REASON_NOT_REALIZED terminal_reason terminal_reason

definition records_key :: string where
  "records_key = ''runtime.snapshot.participant-episode-closure-records''"

definition closure_head_violations ::
  "string \<Rightarrow> closure_record \<Rightarrow> terminals \<Rightarrow> (string \<times> closure_violation) list" where
  "closure_head_violations locator r terminals =
     (case dict_get terminals (cl_episode r, cl_sequence r) of
        None \<Rightarrow> [(locator, NO_TERMINAL_EVENT (cl_episode r) (cl_sequence r))]
      | Some realized \<Rightarrow>
          if cl_reason r \<noteq> realized then [(locator, REASON_NOT_REALIZED (cl_reason r) realized)] else [])"

fun address_closure_violations ::
  "(64 word \<Rightarrow> string) \<Rightarrow> string \<Rightarrow> nat \<Rightarrow> py_value list \<Rightarrow> terminals \<Rightarrow> (string \<times> closure_violation) list" where
  "address_closure_violations ft key i [] terminals = []"
| "address_closure_violations ft key i (v # vs) terminals =
     (case closure_from_payload ft v of
        Inl x \<Rightarrow> [(indexed key i, RECORD_INVALID x)]
      | Inr r \<Rightarrow>
          if cl_participant r \<noteq> key then [(indexed key i, RECORD_KEY_MISMATCH (cl_participant r))]
          else closure_head_violations (indexed key i) r terminals) @
     address_closure_violations ft key (Suc i) vs terminals"

definition closure_violations ::
  "(64 word \<Rightarrow> string) \<Rightarrow> py_value \<Rightarrow> py_value \<Rightarrow> (string \<times> closure_violation) list" where
  "closure_violations ft records histories =
     (case py_mapping records of
        None \<Rightarrow> [(records_key, RECORDS_NOT_A_MAPPING)]
      | Some d \<Rightarrow> concat (map (\<lambda>(key, rs).
          if key = [] then [(records_key, RECORDS_BAD_KEY)]
          else case py_list rs of
              None \<Rightarrow> [(key, RECORDS_NOT_A_LIST)]
            | Some vs \<Rightarrow> address_closure_violations ft key 0 vs
                (case dict_get (terminal_index ft histories) key of None \<Rightarrow> [] | Some t \<Rightarrow> t)) d))"

section \<open>Well-formed records\<close>

definition closure_ok :: "closure_record \<Rightarrow> bool" where
  "closure_ok r \<longleftrightarrow>
     cl_schema r \<noteq> [] \<and> cl_participant r \<noteq> [] \<and> cl_episode r \<noteq> [] \<and> 0 \<le> cl_sequence r \<and>
     cl_authority r \<noteq> [] \<and> cl_derived_at r \<noteq> [] \<and> cl_evidence r \<noteq> [] \<and> [] \<notin> set (cl_evidence r) \<and>
     cl_reason r \<in> set (signal_reasons (cl_signal r))"

lemma evidence_ref_Inr: "evidence_ref v = Inr s \<longleftrightarrow> v = PyStr s \<and> s \<noteq> []"
  by (cases v) (auto simp: res_bind_Inr_iff)

lemma evidence_refs_Inr:
  "normalize_evidence_refs (PyList (map PyStr refs)) = Inr refs' \<longleftrightarrow> refs \<noteq> [] \<and> [] \<notin> set refs \<and> refs' = refs"
proof -
  have "res_map evidence_ref (map PyStr refs) = Inr refs' \<longleftrightarrow> [] \<notin> set refs \<and> refs' = refs"
    by (induction refs arbitrary: refs') (auto simp: res_bind_Inr_iff)
  then show ?thesis by (auto simp: res_bind_Inr_iff)
qed

lemma make_closure_record_Inr: "make_closure_record r = Inr s \<longleftrightarrow> closure_ok r \<and> s = r"
  by (auto simp: make_closure_record_def validate_closure_types_def validate_closure_mapping_def closure_ok_def
      res_bind_Inr_iff evidence_refs_Inr simp del: normalize_evidence_refs.simps)

lemma closure_decoded_ok: "closure_from_payload ft v = Inr r \<Longrightarrow> closure_ok r"
  by (auto simp: closure_from_payload_def make_closure_record_Inr elim!: res_bind_InrE split: option.splits)

lemma signal_members [simp]: "x \<in> set all_signals" "inj_on signal_text A"
proof -
  show "x \<in> set all_signals" by (cases x) (simp_all add: all_signals_def)
  have "signal_text x = signal_text y \<Longrightarrow> x = y" for x y by (cases x; cases y) simp_all
  then show "inj_on signal_text A" by (auto simp: inj_on_def)
qed

lemma closure_round_trip: "closure_ok r \<Longrightarrow> closure_from_payload ft (PyDict (closure_payload r)) = Inr r"
proof -
  assume ok: "closure_ok r"
  then have "normalize_evidence_refs (PyList (map PyStr (cl_evidence r))) = Inr (cl_evidence r)"
    by (simp add: evidence_refs_Inr closure_ok_def del: normalize_evidence_refs.simps)
  with ok show ?thesis
    by (cases r) (simp add: closure_from_payload_def closure_payload_def enum_value_text require_keys_def
        make_closure_record_Inr del: normalize_evidence_refs.simps)
qed

section \<open>What the terminal index holds\<close>

definition terminal_of :: "(64 word \<Rightarrow> string) \<Rightarrow> string \<Rightarrow> py_value \<Rightarrow> ((string \<times> int) \<times> terminal_reason) option" where
  "terminal_of ft key v =
     (case event_from_payload ft v of
        Inl x \<Rightarrow> None
      | Inr e \<Rightarrow> if ee_participant e = key
          then map_option (Pair (ee_episode e, ee_sequence e)) (terminal_event_reason (ee_type e)) else None)"

text \<open>The reason of the last terminal event of a generation.\<close>

definition realized :: "(64 word \<Rightarrow> string) \<Rightarrow> string \<Rightarrow> py_value list \<Rightarrow> string \<times> int \<Rightarrow> terminal_reason \<Rightarrow> bool" where
  "realized ft key vs g why \<longleftrightarrow>
     (\<exists>pre v post. vs = pre @ v # post \<and> terminal_of ft key v = Some (g, why) \<and>
        (\<forall>u \<in> set post. \<forall>w. terminal_of ft key u \<noteq> Some (g, w)))"

lemma realized_Nil [simp]: "\<not> realized ft key [] g why"
  by (simp add: realized_def)

lemma realized_Cons:
  "realized ft key (v # vs) g why \<longleftrightarrow>
     realized ft key vs g why \<or>
     terminal_of ft key v = Some (g, why) \<and> (\<forall>u \<in> set vs. \<forall>w. terminal_of ft key u \<noteq> Some (g, w))"
  unfolding realized_def by (auto simp: Cons_eq_append_conv)

lemma realized_or_none:
  "(\<exists>why. realized ft key vs g why) \<or> (\<forall>u \<in> set vs. \<forall>w. terminal_of ft key u \<noteq> Some (g, w))"
  by (induction vs) (auto simp: realized_Cons)

lemma realized_terminal: "realized ft key vs g why \<Longrightarrow> \<exists>v \<in> set vs. terminal_of ft key v = Some (g, why)"
  by (auto simp: realized_def)

lemma terminal_step:
  "(case event_from_payload ft v of
      Inl x \<Rightarrow> found
    | Inr e \<Rightarrow> (case ee_reason e of
          None \<Rightarrow> found
        | Some why \<Rightarrow> if ee_participant e = key \<and> terminal_event_reason (ee_type e) \<noteq> None
            then dict_set (ee_episode e, ee_sequence e) why found else found)) =
   (case terminal_of ft key v of None \<Rightarrow> found | Some (g, why) \<Rightarrow> dict_set g why found)"
proof (cases "event_from_payload ft v")
  case (Inr e)
  then have "ee_reason e = terminal_event_reason (ee_type e)"
    using event_decoded_ok by (auto simp: episode_event_ok_def)
  with Inr show ?thesis by (auto simp: terminal_of_def split: option.splits)
qed (simp add: terminal_of_def)

lemma address_terminal_reasons_get:
  "dict_get (address_terminal_reasons ft key vs found) g = Some why \<longleftrightarrow>
     realized ft key vs g why \<or>
     dict_get found g = Some why \<and> (\<forall>u \<in> set vs. \<forall>w. terminal_of ft key u \<noteq> Some (g, w))"
proof (induction vs arbitrary: found)
  case Nil
  then show ?case by simp
next
  case (Cons v vs)
  show ?case
    unfolding address_terminal_reasons.simps terminal_step Cons.IH realized_Cons
    by (cases "terminal_of ft key v") (auto split: if_splits)
qed

definition index_terminals :: "(64 word \<Rightarrow> string) \<Rightarrow> (string, py_value) pydict \<Rightarrow> (string, terminals) pydict \<Rightarrow> (string, terminals) pydict" where
  "index_terminals ft d index0 = foldl (\<lambda>index (key, history).
          case py_list history of
            None \<Rightarrow> index
          | Some events \<Rightarrow>
              if key = [] then index else dict_set key (address_terminal_reasons ft key events []) index) index0 d"

lemma index_terminals_get:
  "wf_dict d \<Longrightarrow> key \<noteq> [] \<Longrightarrow> dict_get (index_terminals ft d index) key =
     (case dict_get d key of
        None \<Rightarrow> dict_get index key
      | Some v \<Rightarrow> (case py_list v of
            None \<Rightarrow> dict_get index key
          | Some vs \<Rightarrow> Some (address_terminal_reasons ft key vs [])))"
proof (induction d arbitrary: index)
  case Nil
  then show ?case by (simp add: index_terminals_def)
next
  case (Cons p d)
  obtain k v where p: "p = (k, v)" by fastforce
  let ?next = "case py_list v of None \<Rightarrow> index
      | Some events \<Rightarrow> if k = [] then index else dict_set k (address_terminal_reasons ft k events []) index"
  have step: "index_terminals ft (p # d) index = index_terminals ft d ?next"
    by (simp add: index_terminals_def p)
  have "k = key \<Longrightarrow> dict_get d key = None"
    using Cons.prems(1) p by (simp add: wf_dict_Cons dict_get_None_iff dict_has_def)
  moreover have "wf_dict d" using Cons.prems(1) p by (simp add: wf_dict_Cons)
  ultimately show ?case unfolding step Cons.IH [OF \<open>wf_dict d\<close> Cons.prems(2)]
    using p Cons.prems(2) by (auto simp: dict_get_Cons split: option.splits)
qed

section \<open>What the checker decides\<close>

definition closed_by :: "(64 word \<Rightarrow> string) \<Rightarrow> string \<Rightarrow> py_value list \<Rightarrow> py_value \<Rightarrow> bool" where
  "closed_by ft key history v \<longleftrightarrow>
     (\<exists>r. closure_from_payload ft v = Inr r \<and> cl_participant r = key \<and>
        realized ft key history (cl_episode r, cl_sequence r) (cl_reason r))"

lemma address_closure_ok:
  assumes "\<And>g why. dict_get terminals g = Some why \<longleftrightarrow> realized ft key history g why"
  shows "address_closure_violations ft key i vs terminals = [] \<longleftrightarrow> (\<forall>v \<in> set vs. closed_by ft key history v)"
proof (induction vs arbitrary: i)
  case Nil
  then show ?case by simp
next
  case (Cons v vs)
  have "closure_head_violations l r terminals = [] \<longleftrightarrow>
      realized ft key history (cl_episode r, cl_sequence r) (cl_reason r)" for l r
    unfolding assms [symmetric] by (auto simp: closure_head_violations_def split: option.splits)
  then show ?case
    by (cases "closure_from_payload ft v") (auto simp: Cons.IH closed_by_def)
qed

lemma concat_map_Nil: "concat (map f xs) = [] \<longleftrightarrow> (\<forall>x \<in> set xs. f x = [])"
  by simp

text \<open>The events a history value holds for an address.\<close>

definition history_events :: "(string, py_value) pydict \<Rightarrow> string \<Rightarrow> py_value list" where
  "history_events d key =
     (case dict_get d key of None \<Rightarrow> [] | Some v \<Rightarrow> (case py_list v of None \<Rightarrow> [] | Some vs \<Rightarrow> vs))"

lemma terminal_index_get:
  assumes "wf_dict d" and "key \<noteq> []"
  shows "dict_get (case dict_get (terminal_index ft (PyDict d)) key of None \<Rightarrow> [] | Some t \<Rightarrow> t) g = Some why \<longleftrightarrow>
    realized ft key (history_events d key) g why"
proof -
  have "terminal_index ft (PyDict d) = index_terminals ft d []"
    by (simp add: terminal_index_def index_terminals_def)
  then show ?thesis using index_terminals_get [OF assms, of ft "[]"]
    by (auto simp: history_events_def address_terminal_reasons_get split: option.splits)
qed

text \<open>
  The closure checker accepts a snapshot exactly when every record decodes, stands under its
  own participant and names a generation whose last terminal event in that participant's history
  has the mapped reason. So a record can never introduce a terminal fact that was not realized.
\<close>

lemma closure_violations_decide:
  assumes "wf_dict d"
  shows "closure_violations ft (PyDict records) (PyDict d) = [] \<longleftrightarrow>
    (\<forall>(key, rs) \<in> set records. key \<noteq> [] \<and>
       (\<exists>vs. rs = PyList vs \<and> (\<forall>v \<in> set vs. closed_by ft key (history_events d key) v)))"
proof -
  have one: "(if key = [] then [(records_key, RECORDS_BAD_KEY)]
          else case py_list rs of
              None \<Rightarrow> [(key, RECORDS_NOT_A_LIST)]
            | Some vs \<Rightarrow> address_closure_violations ft key 0 vs
                (case dict_get (terminal_index ft (PyDict d)) key of None \<Rightarrow> [] | Some t \<Rightarrow> t)) = [] \<longleftrightarrow>
      key \<noteq> [] \<and> (\<exists>vs. rs = PyList vs \<and> (\<forall>v \<in> set vs. closed_by ft key (history_events d key) v))" for key rs
    using address_closure_ok [OF terminal_index_get [OF assms, of key ft]]
    by (cases rs) simp_all
  show ?thesis unfolding closure_violations_def py_mapping.simps option.case concat_map_Nil split_beta one ..
qed

text \<open>
  Decoding a closure record admits well-formed records only, whose signal may map to the
  reason they state: a termination signal only to a completed episode, a truncation signal only to
  a truncated or timed-out one, none to an interruption; and encoding it again loses nothing.
\<close>

lemma closure_record_codec:
  assumes "closure_from_payload ft v = Inr r"
  shows "closure_from_payload ft (PyDict (closure_payload r)) = Inr r \<and> closure_ok r \<and>
    cl_reason r \<noteq> INTERRUPTED \<and> (cl_reason r = COMPLETED \<longleftrightarrow> cl_signal r = RL_TERMINATION)"
proof -
  have ok: "closure_ok r" using assms by (rule closure_decoded_ok)
  moreover from ok have "cl_reason r \<noteq> INTERRUPTED \<and> (cl_reason r = COMPLETED \<longleftrightarrow> cl_signal r = RL_TERMINATION)"
    by (cases "cl_signal r") (auto simp: closure_ok_def)
  ultimately show ?thesis using closure_round_trip by blast
qed

section \<open>Witnesses\<close>

definition demo_closure :: closure_record where
  "demo_closure =
     \<lparr>cl_participant = ''participant.red'', cl_episode = ''e1'', cl_sequence = 1, cl_signal = RL_TRUNCATION,
      cl_reason = TIMED_OUT, cl_authority = ''backend'', cl_evidence = [''evidence.1''], cl_derived_at = ''t2'',
      cl_schema = closure_schema_version\<rparr>"

definition demo_end :: episode_event where
  "demo_end =
     \<lparr>ee_type = EPISODE_TIMED_OUT, ee_timestamp = ''t1'', ee_participant = ''participant.red'', ee_episode = ''e1'',
      ee_sequence = 1, ee_reason = Some TIMED_OUT, ee_action = None, ee_details = []\<rparr>"

definition demo_histories :: "(string, py_value) pydict" where
  "demo_histories = [(''participant.red'', PyList [PyDict (event_payload demo_end)])]"

lemma closure_record_codec_witness:
  "closure_ok demo_closure \<and> cl_reason demo_closure \<noteq> INTERRUPTED"
proof -
  have "closure_from_payload (\<lambda>w. ''0.0'') (PyDict (closure_payload demo_closure)) = Inr demo_closure" by code_simp
  from closure_record_codec [OF this] show ?thesis by blast
qed

lemma closure_violations_decide_witness:
  "closed_by (\<lambda>w. ''0.0'') ''participant.red'' (history_events demo_histories ''participant.red'')
     (PyDict (closure_payload demo_closure)) \<and>
   closure_violations (\<lambda>w. ''0.0'') (PyDict [(''participant.red'', PyList [PyDict (closure_payload demo_closure)])])
     (PyDict demo_histories) = []"
proof -
  have "wf_dict demo_histories" by (simp add: demo_histories_def wf_dict_def dict_keys_def)
  from closure_violations_decide [OF this, of "\<lambda>w. ''0.0''" "[(''participant.red'', PyList [PyDict (closure_payload demo_closure)])]"]
  have "closure_violations (\<lambda>w. ''0.0'') (PyDict [(''participant.red'', PyList [PyDict (closure_payload demo_closure)])])
      (PyDict demo_histories) = [] \<longleftrightarrow>
    closed_by (\<lambda>w. ''0.0'') ''participant.red'' (history_events demo_histories ''participant.red'')
     (PyDict (closure_payload demo_closure))" by simp
  moreover have "closure_violations (\<lambda>w. ''0.0'')
      (PyDict [(''participant.red'', PyList [PyDict (closure_payload demo_closure)])]) (PyDict demo_histories) = []"
    by code_simp
  ultimately show ?thesis by simp
qed

end
