(* ===== verification/Exploit_Contracts.thy ===== *)
theory Exploit_Contracts
  imports Py_Text "HOL-Library.Product_Lexorder"
begin

text \<open>
  Exploit-path analysis, its contracts: \<open>raes_contracts/exploit_path.py\<close>. Facts, transitions,
  the normalized attack graph and the query with their validators, and the evidence models the
  search builds, each with the checks its constructor makes. The digest of a state is a parameter
  of the search; the format of digests is not checked here. A \<open>frozenset\<close> of facts is the sorted
  list of its members.
\<close>

section \<open>Identifiers and orders\<close>

definition exploit_id :: "string \<Rightarrow> bool" where
  "exploit_id s \<longleftrightarrow> length s \<le> 256 \<and>
     (case s of [] \<Rightarrow> False
      | c # cs \<Rightarrow> c \<in> set ''abcdefghijklmnopqrstuvwxyz'' \<and>
          list_all (\<lambda>d. d \<in> set ''abcdefghijklmnopqrstuvwxyz0123456789._:-'') cs)"

definition require_sorted_unique :: "string list \<Rightarrow> string \<Rightarrow> unit res" where
  "require_sorted_unique values label =
     require_that (values = sort (remdups values)) (ValueError (label @ '' must be unique and sorted''))"

definition bounded_ids :: "nat \<Rightarrow> string list \<Rightarrow> unit res" where
  "bounded_ids n ids =
     res_bind (require_that (length ids \<le> n) (ValidationError ''too_long'')) (\<lambda>_.
       res_all (\<lambda>i. require_that (exploit_id i) (ValidationError ''string_pattern_mismatch'')) ids)"

definition some_ids :: "nat \<Rightarrow> string list \<Rightarrow> unit res" where
  "some_ids n ids =
     res_bind (require_that (ids \<noteq> []) (ValidationError ''too_short'')) (\<lambda>_. bounded_ids n ids)"

definition max_blocked :: nat where "max_blocked = 256"
definition max_diagnostics :: nat where "max_diagnostics = 64"
definition max_explored :: nat where "max_explored = 4096"
definition max_impossible :: nat where "max_impossible = 512"

section \<open>The attack graph\<close>

datatype fact_kind = ACCESS | CAPABILITY | DATA_STATE | EXECUTION | OBSERVATION | OBJECTIVE_STATE

datatype transition_kind = EXPLOIT_STEP | OBSERVATION_STEP | POSTCONDITION_STEP

datatype path_outcome = VALID_PATH | INVALID_PATH | UNSUPPORTED

record attack_fact =
  af_id :: string
  af_kind :: fact_kind
  af_subject :: string
  af_object :: string

record attack_observation =
  ao_id :: string
  ao_kind :: string
  ao_source :: string

record attack_transition =
  tr_id :: string
  tr_kind :: transition_kind
  tr_semantics :: string
  tr_prerequisites :: "string list"
  tr_effects :: "string list"
  tr_observations :: "attack_observation list"

definition check_transition :: "attack_transition \<Rightarrow> unit res" where
  "check_transition t =
     res_bind (bounded_ids 1 [tr_id t]) (\<lambda>_.
     res_bind (bounded_ids 64 (tr_prerequisites t)) (\<lambda>_.
     res_bind (bounded_ids 64 (tr_effects t)) (\<lambda>_.
     res_bind (bounded_ids 64 (map ao_id (tr_observations t))) (\<lambda>_.
     res_bind (require_sorted_unique (tr_prerequisites t) ''transition prerequisites'') (\<lambda>_.
     res_bind (require_sorted_unique (tr_effects t) ''transition effects'') (\<lambda>_.
       require_sorted_unique (map ao_id (tr_observations t)) ''transition observations''))))))"

datatype target_kind = STATE_FACT | TRANSITION

record graph_binding =
  gb_id :: string
  gb_concept :: string
  gb_address :: string
  gb_kind :: target_kind
  gb_target :: string

record attack_graph =
  ag_digest :: string
  ag_facts :: "attack_fact list"
  ag_transitions :: "attack_transition list"
  ag_bindings :: "graph_binding list"

definition check_graph :: "attack_graph \<Rightarrow> unit res" where
  "check_graph g =
     res_bind (some_ids 512 (map af_id (ag_facts g))) (\<lambda>_.
     res_bind (require_that (length (ag_transitions g) \<le> 512) (ValidationError ''too_long'')) (\<lambda>_.
     res_bind (bounded_ids 1024 (map gb_id (ag_bindings g))) (\<lambda>_.
     res_bind (res_all check_transition (ag_transitions g)) (\<lambda>_.
     res_bind (require_sorted_unique (map af_id (ag_facts g)) ''state facts'') (\<lambda>_.
     res_bind (require_sorted_unique (map tr_id (ag_transitions g)) ''transitions'') (\<lambda>_.
     res_bind (require_sorted_unique (map gb_id (ag_bindings g)) ''bindings'') (\<lambda>_.
       res_all (\<lambda>t. res_all (\<lambda>f. require_that (f \<in> set (map af_id (ag_facts g)))
           (ValueError ''transition prerequisites and effects must reference declared state facts''))
         (tr_prerequisites t @ tr_effects t)) (ag_transitions g))))))))"

section \<open>The query\<close>

record path_query =
  pq_id :: string
  pq_start :: "string list"
  pq_goal :: "string list"
  pq_semantics :: "string list"
  pq_depth :: int

definition check_query :: "path_query \<Rightarrow> unit res" where
  "check_query q =
     res_bind (some_ids 64 (pq_start q)) (\<lambda>_.
     res_bind (some_ids 64 (pq_goal q)) (\<lambda>_.
     res_bind (require_that (pq_semantics q \<noteq> [] \<and> length (pq_semantics q) \<le> 16) (ValidationError ''semantics'')) (\<lambda>_.
     res_bind (require_that (0 \<le> pq_depth q \<and> pq_depth q \<le> 64) (ValidationError ''max_depth'')) (\<lambda>_.
     res_bind (require_sorted_unique (pq_start q) ''start facts'') (\<lambda>_.
     res_bind (require_sorted_unique (pq_goal q) ''goal facts'') (\<lambda>_.
       require_sorted_unique (pq_semantics q) ''allowed transition semantics''))))))"

text \<open>The admitted snapshot is its JSON payload; the input checks that all three carry one digest.\<close>

record path_request =
  pr_snapshot :: py_value
  pr_digest :: string
  pr_graph :: attack_graph
  pr_query :: path_query

definition check_request :: "(py_value \<Rightarrow> string) \<Rightarrow> path_request \<Rightarrow> unit res" where
  "check_request snapshot_digest r =
     res_bind (check_graph (pr_graph r)) (\<lambda>_.
     res_bind (check_query (pr_query r)) (\<lambda>_.
     res_bind (require_that (pr_digest r = snapshot_digest (pr_snapshot r))
         (ValueError ''snapshot_digest must bind the admitted instantiated snapshot'')) (\<lambda>_.
       require_that (ag_digest (pr_graph r) = pr_digest r)
         (ValueError ''normalized graph snapshot digest must match the input snapshot''))))"

section \<open>Evidence\<close>

record path_step =
  ps_index :: nat
  ps_transition :: string
  ps_before :: string
  ps_satisfied :: "string list"
  ps_applied :: "string list"
  ps_observations :: "string list"
  ps_after :: string

definition make_step :: "path_step \<Rightarrow> path_step res" where
  "make_step s =
     res_bind (require_that (ps_index s \<le> 64) (ValidationError ''step_index'')) (\<lambda>_.
     res_bind (bounded_ids 1 [ps_transition s]) (\<lambda>_.
     res_bind (bounded_ids 64 (ps_satisfied s)) (\<lambda>_.
     res_bind (bounded_ids 64 (ps_applied s)) (\<lambda>_.
     res_bind (bounded_ids 64 (ps_observations s)) (\<lambda>_.
     res_bind (require_sorted_unique (ps_satisfied s) ''satisfied prerequisites'') (\<lambda>_.
     res_bind (require_sorted_unique (ps_applied s) ''applied effects'') (\<lambda>_.
     res_bind (require_sorted_unique (ps_observations s) ''emitted observations'') (\<lambda>_. Inr s))))))))"

record path_witness =
  pw_initial :: "string list"
  pw_goal :: "string list"
  pw_steps :: "path_step list"
  pw_final :: "string list"
  pw_digest :: string

definition make_witness :: "(string list \<Rightarrow> string) \<Rightarrow> path_witness \<Rightarrow> path_witness res" where
  "make_witness dg w =
     res_bind (some_ids 512 (pw_initial w)) (\<lambda>_.
     res_bind (some_ids 64 (pw_goal w)) (\<lambda>_.
     res_bind (require_that (length (pw_steps w) \<le> 64) (ValidationError ''steps'')) (\<lambda>_.
     res_bind (some_ids 512 (pw_final w)) (\<lambda>_.
     res_bind (require_sorted_unique (pw_initial w) ''initial state'') (\<lambda>_.
     res_bind (require_sorted_unique (pw_goal w) ''goal facts'') (\<lambda>_.
     res_bind (require_sorted_unique (pw_final w) ''final state'') (\<lambda>_.
     res_bind (require_that (pw_digest w = dg (pw_final w)) (ValueError ''final_state_digest must bind the final state'')) (\<lambda>_.
     res_bind (require_that (list_all (\<lambda>f. f \<in> set (pw_final w)) (pw_goal w))
         (ValueError ''valid path witness final state must satisfy the goal'')) (\<lambda>_. Inr w)))))))))"

record blocked_transition =
  bt_transition :: string
  bt_digest :: string
  bt_missing :: "string list"

definition make_blocked :: "blocked_transition \<Rightarrow> blocked_transition res" where
  "make_blocked b =
     res_bind (bounded_ids 1 [bt_transition b]) (\<lambda>_.
     res_bind (some_ids 64 (bt_missing b)) (\<lambda>_.
     res_bind (require_sorted_unique (bt_missing b) ''missing prerequisites'') (\<lambda>_. Inr b)))"

record invalid_evidence =
  ie_explored :: nat
  ie_exhausted :: bool
  ie_blocked :: "blocked_transition list"
  ie_impossible :: "string list"
  ie_unsatisfied :: "string list"

definition make_invalid :: "invalid_evidence \<Rightarrow> invalid_evidence res" where
  "make_invalid e =
     res_bind (require_that (1 \<le> ie_explored e \<and> ie_explored e \<le> max_explored) (ValidationError ''explored_state_count'')) (\<lambda>_.
     res_bind (require_that (length (ie_blocked e) \<le> max_blocked) (ValidationError ''blocked_transitions'')) (\<lambda>_.
     res_bind (bounded_ids max_impossible (ie_impossible e)) (\<lambda>_.
     res_bind (some_ids 64 (ie_unsatisfied e)) (\<lambda>_.
     res_bind (require_sorted_unique (ie_impossible e) ''impossible transitions'') (\<lambda>_.
     res_bind (require_sorted_unique (ie_unsatisfied e) ''unsatisfied goal'') (\<lambda>_. Inr e))))))"

definition make_unsupported :: "string list \<Rightarrow> string list res" where
  "make_unsupported codes =
     res_bind (require_that (codes \<noteq> [] \<and> length codes \<le> 64) (ValidationError ''reason_codes'')) (\<lambda>_.
     res_bind (require_sorted_unique codes ''unsupported reason codes'') (\<lambda>_. Inr codes))"

text \<open>A diagnostic is its address and its code; texts are left out.\<close>

type_synonym path_diagnostic = "string \<times> string"

record search_result =
  sr_outcome :: path_outcome
  sr_witness :: "path_witness option"
  sr_failure :: "invalid_evidence option"
  sr_unsupported :: "string list option"
  sr_diagnostics :: "path_diagnostic list"

text \<open>The evidence envelope as far as the outcome goes; its digests bind its own members.\<close>

definition check_outcome_payload :: "search_result \<Rightarrow> unit res" where
  "check_outcome_payload r =
     require_that
       (case sr_outcome r of
          VALID_PATH \<Rightarrow> sr_witness r \<noteq> None \<and> sr_failure r = None \<and> sr_unsupported r = None
        | INVALID_PATH \<Rightarrow> sr_witness r = None \<and> sr_failure r \<noteq> None \<and> sr_unsupported r = None
        | UNSUPPORTED \<Rightarrow> sr_witness r = None \<and> sr_failure r = None \<and> sr_unsupported r \<noteq> None)
       (ValueError ''outcome must select exactly one matching payload'')"

definition check_unsupported_reasons :: "search_result \<Rightarrow> unit res" where
  "check_unsupported_reasons r =
     (case sr_unsupported r of
        None \<Rightarrow> Inr ()
      | Some codes \<Rightarrow> require_that (codes = sort (remdups (map snd (sr_diagnostics r))))
          (ValueError ''unsupported reason codes must match diagnostic codes''))"

definition make_evidence :: "search_result \<Rightarrow> search_result res" where
  "make_evidence r =
     res_bind (require_that (length (sr_diagnostics r) \<le> max_diagnostics) (ValidationError ''diagnostics'')) (\<lambda>_.
     res_bind (check_outcome_payload r) (\<lambda>_.
     res_bind (check_unsupported_reasons r) (\<lambda>_. Inr r)))"

section \<open>What the checks accept\<close>

definition canonical_ids :: "string list \<Rightarrow> bool" where
  "canonical_ids ids \<longleftrightarrow> sorted ids \<and> distinct ids \<and> list_all exploit_id ids"

lemma require_sorted_unique_Inr [simp]:
  "require_sorted_unique vs l = Inr u \<longleftrightarrow> sorted vs \<and> distinct vs"
proof -
  have "vs = sort (remdups vs) \<longleftrightarrow> sorted vs \<and> distinct vs"
    by (metis distinct_remdups distinct_remdups_id distinct_sort sorted_sort sorted_sort_id)
  then show ?thesis by (simp add: require_sorted_unique_def)
qed

lemma bounded_ids_Inr [simp]: "bounded_ids n ids = Inr u \<longleftrightarrow> length ids \<le> n \<and> list_all exploit_id ids"
  by (auto simp: bounded_ids_def res_bind_Inr_iff res_all_Inr list_all_iff)

lemma some_ids_Inr [simp]: "some_ids n ids = Inr u \<longleftrightarrow> ids \<noteq> [] \<and> length ids \<le> n \<and> list_all exploit_id ids"
  by (auto simp: some_ids_def res_bind_Inr_iff)

lemma check_transition_Inr:
  "check_transition t = Inr u \<longleftrightarrow>
     exploit_id (tr_id t) \<and> length (tr_prerequisites t) \<le> 64 \<and> canonical_ids (tr_prerequisites t) \<and>
     length (tr_effects t) \<le> 64 \<and> canonical_ids (tr_effects t) \<and>
     length (tr_observations t) \<le> 64 \<and> canonical_ids (map ao_id (tr_observations t))"
  by (auto simp: check_transition_def res_bind_Inr_iff canonical_ids_def)

lemma make_step_Inr: "make_step s = Inr x \<longleftrightarrow> x = s \<and> ps_index s \<le> 64 \<and> exploit_id (ps_transition s) \<and>
    length (ps_satisfied s) \<le> 64 \<and> canonical_ids (ps_satisfied s) \<and>
    length (ps_applied s) \<le> 64 \<and> canonical_ids (ps_applied s) \<and>
    length (ps_observations s) \<le> 64 \<and> canonical_ids (ps_observations s)"
  by (auto simp: make_step_def res_bind_Inr_iff canonical_ids_def)

lemma make_witness_Inr: "make_witness dg w = Inr x \<longleftrightarrow> x = w \<and>
    pw_initial w \<noteq> [] \<and> length (pw_initial w) \<le> 512 \<and> canonical_ids (pw_initial w) \<and>
    pw_goal w \<noteq> [] \<and> length (pw_goal w) \<le> 64 \<and> canonical_ids (pw_goal w) \<and> length (pw_steps w) \<le> 64 \<and>
    pw_final w \<noteq> [] \<and> length (pw_final w) \<le> 512 \<and> canonical_ids (pw_final w) \<and>
    pw_digest w = dg (pw_final w) \<and> set (pw_goal w) \<subseteq> set (pw_final w)"
  by (auto simp: make_witness_def res_bind_Inr_iff canonical_ids_def list_all_iff)

lemma make_blocked_Inr: "make_blocked b = Inr x \<longleftrightarrow> x = b \<and> exploit_id (bt_transition b) \<and>
    bt_missing b \<noteq> [] \<and> length (bt_missing b) \<le> 64 \<and> canonical_ids (bt_missing b)"
  by (auto simp: make_blocked_def res_bind_Inr_iff canonical_ids_def)

lemma make_invalid_Inr: "make_invalid e = Inr x \<longleftrightarrow> x = e \<and>
    1 \<le> ie_explored e \<and> ie_explored e \<le> max_explored \<and> length (ie_blocked e) \<le> max_blocked \<and>
    length (ie_impossible e) \<le> max_impossible \<and> canonical_ids (ie_impossible e) \<and>
    ie_unsatisfied e \<noteq> [] \<and> length (ie_unsatisfied e) \<le> 64 \<and> canonical_ids (ie_unsatisfied e)"
  by (auto simp: make_invalid_def res_bind_Inr_iff canonical_ids_def)

lemma make_unsupported_Inr: "make_unsupported codes = Inr x \<longleftrightarrow>
    x = codes \<and> codes \<noteq> [] \<and> length codes \<le> 64 \<and> sorted codes \<and> distinct codes"
  by (auto simp: make_unsupported_def res_bind_Inr_iff)

end
