(* ===== verification/Exploit_Search.thy ===== *)
theory Exploit_Search
  imports Exploit_Contracts
begin

text \<open>
  Exploit-path analysis, its algorithms: the preflight of \<open>raes_processor/exploit_path/_preflight.py\<close>,
  the bounded breadth-first search of \<open>_search.py\<close> and the analysis of \<open>_service.py\<close> that
  composes them. The state digest is the parameter \<open>dg\<close>. \<open>longest\<close> is the choice \<open>max\<close> makes
  among the largest visited states, which depends on the iteration order of a Python \<open>set\<close>.
\<close>

section \<open>Diagnostics\<close>

definition supported_semantics :: string where "supported_semantics = ''monotonic-additive/v1''"
definition bound_exceeded :: string where "bound_exceeded = ''exploit-path.analysis-bound-exceeded''"
definition binding_ambiguous :: string where "binding_ambiguous = ''exploit-path.binding-ambiguous''"
definition binding_missing :: string where "binding_missing = ''exploit-path.binding-missing''"
definition binding_dangling :: string where "binding_dangling = ''exploit-path.binding-target-dangling''"
definition missing_prerequisite :: string where "missing_prerequisite = ''exploit-path.missing-prerequisite''"
definition impossible_transition :: string where "impossible_transition = ''exploit-path.impossible-transition''"
definition query_dangling :: string where "query_dangling = ''exploit-path.query-dangling-fact''"
definition unsatisfied_goal_code :: string where "unsatisfied_goal_code = ''exploit-path.unsatisfied-goal''"
definition unsupported_semantics :: string where "unsupported_semantics = ''exploit-path.unsupported-semantics''"

definition fail_closed_codes :: "string list" where
  "fail_closed_codes = [bound_exceeded, binding_ambiguous, binding_missing, binding_dangling, query_dangling,
     unsupported_semantics]"

definition dedupe_diagnostics :: "path_diagnostic list \<Rightarrow> path_diagnostic list" where
  "dedupe_diagnostics items = sort (remdups items)"

definition bounded_fail_closed_diagnostics :: "path_diagnostic list \<Rightarrow> path_diagnostic list" where
  "bounded_fail_closed_diagnostics items =
     (let ds = dedupe_diagnostics items in
      if length ds \<le> max_diagnostics then ds else [(''/diagnostics'', bound_exceeded)])"

definition pointer :: "string \<Rightarrow> string" where
  "pointer s = concat (map (\<lambda>c. if c = CHR ''~'' then ''~0'' else if c = CHR ''/'' then ''~1'' else [c]) s)"

section \<open>Resolving a JSON Pointer\<close>

fun split_slash :: "string \<Rightarrow> string list" where
  "split_slash [] = [[]]"
| "split_slash (c # cs) =
     (if c = CHR ''/'' then [] # split_slash cs
      else (case split_slash cs of [] \<Rightarrow> [[c]] | seg # segs \<Rightarrow> (c # seg) # segs))"

text \<open>\<open>s.replace(ab, r)\<close> for a pattern of two characters.\<close>

fun replace_pair :: "char \<Rightarrow> char \<Rightarrow> char \<Rightarrow> string \<Rightarrow> string" where
  "replace_pair a b r (c # d # cs) =
     (if c = a \<and> d = b then r # replace_pair a b r cs else c # replace_pair a b r (d # cs))"
| "replace_pair a b r cs = cs"

text \<open>\<open>int(part)\<close>: surrounding space, a sign, digits with single underscores between them.\<close>

fun parse_digits :: "bool \<Rightarrow> int \<Rightarrow> string \<Rightarrow> int option" where
  "parse_digits digit_before acc [] = (if digit_before then Some acc else None)"
| "parse_digits digit_before acc (c # cs) =
     (let n = of_char c :: int in
      if 48 \<le> n \<and> n \<le> 57 then parse_digits True (acc * 10 + (n - 48)) cs
      else if c = CHR ''_'' \<and> digit_before then parse_digits False acc cs
      else None)"

definition parse_int :: "string \<Rightarrow> int option" where
  "parse_int s =
     (case py_strip s of
        [] \<Rightarrow> None
      | c # cs \<Rightarrow> if c = CHR ''-'' then map_option uminus (parse_digits False 0 cs)
                 else if c = CHR ''+'' then parse_digits False 0 cs
                 else parse_digits False 0 (c # cs))"

definition list_item :: "'a list \<Rightarrow> int \<Rightarrow> 'a option" where
  "list_item xs i =
     (let j = (if i < 0 then i + int (length xs) else i) in
      if 0 \<le> j \<and> j < int (length xs) then Some (xs ! nat j) else None)"

fun resolve_parts :: "py_value \<Rightarrow> string list \<Rightarrow> py_value option" where
  "resolve_parts current [] = Some current"
| "resolve_parts current (raw # parts) =
     (let part = replace_pair (CHR ''~'') (CHR ''0'') (CHR ''~'') (replace_pair (CHR ''~'') (CHR ''1'') (CHR ''/'') raw) in
      case (case current of
          PyDict d \<Rightarrow> dict_get d part
        | PyList vs \<Rightarrow> (case parse_int part of None \<Rightarrow> None | Some i \<Rightarrow> list_item vs i)
        | _ \<Rightarrow> None) of
        None \<Rightarrow> None
      | Some v \<Rightarrow> resolve_parts v parts)"

definition pointer_resolves :: "py_value \<Rightarrow> string \<Rightarrow> bool" where
  "pointer_resolves payload p \<longleftrightarrow> p = [] \<or> resolve_parts payload (tl (split_slash p)) \<noteq> None"

section \<open>Preflight\<close>

fun kind_text :: "target_kind \<Rightarrow> string" where
  "kind_text STATE_FACT = ''state-fact''"
| "kind_text TRANSITION = ''transition''"

definition expected_targets :: "attack_graph \<Rightarrow> (string \<times> string) list" where
  "expected_targets g =
     map (\<lambda>f. (kind_text STATE_FACT, af_id f)) (ag_facts g) @ map (\<lambda>t. (kind_text TRANSITION, tr_id t)) (ag_transitions g)"

definition binding_target :: "graph_binding \<Rightarrow> string \<times> string" where
  "binding_target b = (kind_text (gb_kind b), gb_target b)"

definition binding_targets :: "graph_binding list \<Rightarrow> (string \<times> string, string list) pydict" where
  "binding_targets bs = foldl (\<lambda>d b. dict_set (binding_target b)
     ((case dict_get d (binding_target b) of None \<Rightarrow> [] | Some ids \<Rightarrow> ids) @ [gb_id b]) d) [] bs"

definition binding_diagnostics :: "attack_graph \<Rightarrow> py_value \<Rightarrow> path_diagnostic list" where
  "binding_diagnostics g payload = concat (map (\<lambda>b.
     (if binding_target b \<notin> set (expected_targets g)
      then [(''/normalized_graph/bindings/'' @ pointer (gb_id b) @ ''/target_id'', binding_dangling)] else []) @
     (if \<not> pointer_resolves payload (gb_address b)
      then [(''/normalized_graph/bindings/'' @ pointer (gb_id b) @ ''/raes_address'', binding_missing)] else []))
     (ag_bindings g))"

definition required_binding_diagnostics :: "attack_graph \<Rightarrow> path_diagnostic list" where
  "required_binding_diagnostics g = concat (map (\<lambda>(k, i).
     case (case dict_get (binding_targets (ag_bindings g)) (k, i) of None \<Rightarrow> [] | Some ids \<Rightarrow> ids) of
       [] \<Rightarrow> [(''/normalized_graph/'' @ k @ ''s/'' @ pointer i, binding_missing)]
     | [_] \<Rightarrow> []
     | first # _ \<Rightarrow> [(''/normalized_graph/bindings/'' @ pointer first, binding_ambiguous)])
     (sort (remdups (expected_targets g))))"

definition semantics_diagnostics :: "path_query \<Rightarrow> attack_transition list \<Rightarrow> path_diagnostic list" where
  "semantics_diagnostics q ts =
     (if list_ex (\<lambda>s. s \<noteq> supported_semantics) (pq_semantics q)
      then [(''/query/allowed_transition_semantics'', unsupported_semantics)] else []) @
     concat (map (\<lambda>t. if tr_semantics t \<noteq> supported_semantics
       then [(''/normalized_graph/transitions/'' @ pointer (tr_id t) @ ''/semantics'', unsupported_semantics)] else []) ts)"

definition query_fact_diagnostics :: "path_query \<Rightarrow> string list \<Rightarrow> path_diagnostic list" where
  "query_fact_diagnostics q fact_ids =
     map (\<lambda>f. (''/query/facts/'' @ pointer f, query_dangling)) (filter (\<lambda>f. f \<notin> set fact_ids) (pq_start q @ pq_goal q))"

definition preflight_diagnostics :: "path_request \<Rightarrow> path_diagnostic list" where
  "preflight_diagnostics r =
     dedupe_diagnostics
       (binding_diagnostics (pr_graph r) (pr_snapshot r) @ required_binding_diagnostics (pr_graph r) @
        semantics_diagnostics (pr_query r) (ag_transitions (pr_graph r)) @
        query_fact_diagnostics (pr_query r) (map af_id (ag_facts (pr_graph r))))"

section \<open>The state of the search\<close>

type_synonym facts = "string list"

definition fact_set :: "string list \<Rightarrow> facts" where
  "fact_set fs = sort (remdups fs)"

definition contains :: "facts \<Rightarrow> facts \<Rightarrow> bool" where
  "contains goal s \<longleftrightarrow> list_all (\<lambda>f. f \<in> set s) goal"

definition minus_facts :: "string list \<Rightarrow> facts \<Rightarrow> facts" where
  "minus_facts fs s = fact_set (filter (\<lambda>f. f \<notin> set s) fs)"

record search_context =
  sc_query :: path_query
  sc_transitions :: "attack_transition list"
  sc_goal :: facts
  sc_initial :: facts

record accumulator =
  ac_visited :: "facts list"
  ac_queue :: "(facts \<times> path_step list) list"
  ac_blocked :: "(string \<times> string, blocked_transition) pydict"
  ac_impossible :: "string list"
  ac_exhausted :: bool

type_synonym advance = "(search_result option \<times> accumulator) res"

definition allowed_transitions :: "path_request \<Rightarrow> attack_transition list" where
  "allowed_transitions r =
     filter (\<lambda>t. tr_semantics t \<in> set (pq_semantics (pr_query r))) (ag_transitions (pr_graph r))"

definition search_context_of :: "path_request \<Rightarrow> search_context" where
  "search_context_of r =
     \<lparr>sc_query = pr_query r, sc_transitions = allowed_transitions r, sc_goal = fact_set (pq_goal (pr_query r)),
      sc_initial = fact_set (pq_start (pr_query r))\<rparr>"

section \<open>Results\<close>

definition unsupported_search_result :: "string \<Rightarrow> search_result res" where
  "unsupported_search_result address =
     res_bind (make_unsupported [bound_exceeded]) (\<lambda>codes.
       Inr \<lparr>sr_outcome = UNSUPPORTED, sr_witness = None, sr_failure = None, sr_unsupported = Some codes,
            sr_diagnostics = [(address, bound_exceeded)]\<rparr>)"

definition valid_search_result ::
  "(facts \<Rightarrow> string) \<Rightarrow> path_query \<Rightarrow> facts \<Rightarrow> path_step list \<Rightarrow> facts \<Rightarrow> search_result res" where
  "valid_search_result dg q initial steps final =
     res_bind (make_witness dg \<lparr>pw_initial = initial, pw_goal = sort (pq_goal q), pw_steps = steps,
         pw_final = final, pw_digest = dg final\<rparr>) (\<lambda>w.
       Inr \<lparr>sr_outcome = VALID_PATH, sr_witness = Some w, sr_failure = None, sr_unsupported = None,
            sr_diagnostics = []\<rparr>)"

definition unsatisfied_goal :: "(facts list \<Rightarrow> facts) \<Rightarrow> facts \<Rightarrow> facts list \<Rightarrow> facts" where
  "unsatisfied_goal longest goal visited =
     (let unsatisfied = minus_facts goal (concat visited) in
      if unsatisfied \<noteq> [] then unsatisfied else minus_facts goal (longest visited))"

definition invalid_path_diagnostics :: "accumulator \<Rightarrow> path_diagnostic list" where
  "invalid_path_diagnostics acc =
     map (\<lambda>b. (''/normalized_graph/transitions/'' @ pointer (bt_transition b), missing_prerequisite)) (dict_values (ac_blocked acc)) @
     map (\<lambda>i. (''/normalized_graph/transitions/'' @ pointer i, impossible_transition)) (sort (ac_impossible acc)) @
     [(''/query/goal_facts'', unsatisfied_goal_code)]"

definition invalid_search_result ::
  "(facts list \<Rightarrow> facts) \<Rightarrow> facts \<Rightarrow> accumulator \<Rightarrow> search_result res" where
  "invalid_search_result longest goal acc =
     res_bind (make_invalid
         \<lparr>ie_explored = length (ac_visited acc), ie_exhausted = ac_exhausted acc,
          ie_blocked = sort_key (\<lambda>b. (bt_transition b, bt_digest b)) (dict_values (ac_blocked acc)),
          ie_impossible = sort (ac_impossible acc),
          ie_unsatisfied = unsatisfied_goal longest goal (ac_visited acc)\<rparr>) (\<lambda>e.
       Inr \<lparr>sr_outcome = INVALID_PATH, sr_witness = None, sr_failure = Some e, sr_unsupported = None,
            sr_diagnostics = dedupe_diagnostics (invalid_path_diagnostics acc)\<rparr>)"

section \<open>One transition\<close>

definition record_blocked_transition :: "accumulator \<Rightarrow> attack_transition \<Rightarrow> string \<Rightarrow> facts \<Rightarrow> advance" where
  "record_blocked_transition acc t before missing =
     (if dict_has (ac_blocked acc) (tr_id t, before) then Inr (None, acc)
      else if max_blocked \<le> length (ac_blocked acc)
      then res_bind (unsupported_search_result ''/search/blocked_transitions'') (\<lambda>r. Inr (Some r, acc))
      else res_bind (make_blocked \<lparr>bt_transition = tr_id t, bt_digest = before, bt_missing = missing\<rparr>) (\<lambda>b.
        Inr (None, acc\<lparr>ac_blocked := dict_set (tr_id t, before) b (ac_blocked acc)\<rparr>)))"

definition record_impossible_transition :: "accumulator \<Rightarrow> string \<Rightarrow> advance" where
  "record_impossible_transition acc i =
     (if i \<in> set (ac_impossible acc) then Inr (None, acc)
      else if max_impossible \<le> length (ac_impossible acc)
      then res_bind (unsupported_search_result ''/search/impossible_transitions'') (\<lambda>r. Inr (Some r, acc))
      else Inr (None, acc\<lparr>ac_impossible := ac_impossible acc @ [i]\<rparr>))"

definition queue_next_state :: "accumulator \<Rightarrow> facts \<Rightarrow> path_step list \<Rightarrow> advance" where
  "queue_next_state acc next steps =
     (if max_explored \<le> length (ac_visited acc)
      then res_bind (unsupported_search_result ''/search/explored_state_count'') (\<lambda>r. Inr (Some r, acc))
      else Inr (None, acc\<lparr>ac_visited := ac_visited acc @ [next], ac_queue := ac_queue acc @ [(next, steps)]\<rparr>))"

definition step_of ::
  "(facts \<Rightarrow> string) \<Rightarrow> attack_transition \<Rightarrow> nat \<Rightarrow> string \<Rightarrow> facts \<Rightarrow> facts \<Rightarrow> path_step res" where
  "step_of dg t i before next applied =
     make_step \<lparr>ps_index = i, ps_transition = tr_id t, ps_before = before,
       ps_satisfied = sort (tr_prerequisites t), ps_applied = applied,
       ps_observations = sort (map ao_id (tr_observations t)), ps_after = dg next\<rparr>"

definition record_transition_progress ::
  "(facts \<Rightarrow> string) \<Rightarrow> search_context \<Rightarrow> attack_transition \<Rightarrow> accumulator \<Rightarrow> facts \<Rightarrow> path_step list \<Rightarrow> string \<Rightarrow>
     facts \<Rightarrow> advance" where
  "record_transition_progress dg ctx t acc s steps before applied =
     (let next = fact_set (s @ tr_effects t) in
      res_bind (step_of dg t (length steps) before next applied) (\<lambda>step.
        let next_steps = steps @ [step] in
        if contains (sc_goal ctx) next
        then res_bind (valid_search_result dg (sc_query ctx) (sc_initial ctx) next_steps next) (\<lambda>r. Inr (Some r, acc))
        else if next \<notin> set (ac_visited acc) then queue_next_state acc next next_steps
        else Inr (None, acc)))"

definition advance_transition ::
  "(facts \<Rightarrow> string) \<Rightarrow> search_context \<Rightarrow> attack_transition \<Rightarrow> accumulator \<Rightarrow> facts \<Rightarrow> path_step list \<Rightarrow> advance" where
  "advance_transition dg ctx t acc s steps =
     (let before = dg s; missing = minus_facts (tr_prerequisites t) s; applied = minus_facts (tr_effects t) s in
      if missing \<noteq> [] then record_blocked_transition acc t before missing
      else if applied = [] then record_impossible_transition acc (tr_id t)
      else record_transition_progress dg ctx t acc s steps before applied)"

fun advance_from_state ::
  "(facts \<Rightarrow> string) \<Rightarrow> search_context \<Rightarrow> attack_transition list \<Rightarrow> accumulator \<Rightarrow> facts \<Rightarrow> path_step list \<Rightarrow> advance" where
  "advance_from_state dg ctx [] acc s steps = Inr (None, acc)"
| "advance_from_state dg ctx (t # ts) acc s steps =
     res_bind (advance_transition dg ctx t acc s steps) (\<lambda>(result, acc').
       case result of Some r \<Rightarrow> Inr (Some r, acc') | None \<Rightarrow> advance_from_state dg ctx ts acc' s steps)"

section \<open>The loop\<close>

definition search_measure :: "accumulator \<Rightarrow> nat" where
  "search_measure acc = 2 * (max_explored - length (ac_visited acc)) + length (ac_queue acc)"

lemma advance_transition_measure:
  "advance_transition dg ctx t acc s steps = Inr (result, acc') \<Longrightarrow> search_measure acc' \<le> search_measure acc"
  by (auto simp: advance_transition_def Let_def record_blocked_transition_def record_impossible_transition_def
      record_transition_progress_def queue_next_state_def search_measure_def res_bind_Inr_iff split: if_splits)

lemma advance_from_state_measure:
  "advance_from_state dg ctx ts acc s steps = Inr (result, acc') \<Longrightarrow> search_measure acc' \<le> search_measure acc"
proof (induction ts arbitrary: acc)
  case Nil
  then show ?case by simp
next
  case (Cons t ts)
  then obtain r1 acc1 where step: "advance_transition dg ctx t acc s steps = Inr (r1, acc1)"
    and rest: "(case r1 of Some r \<Rightarrow> Inr (Some r, acc1) | None \<Rightarrow> advance_from_state dg ctx ts acc1 s steps) = Inr (result, acc')"
    by (auto simp: res_bind_Inr_iff)
  have "search_measure acc' \<le> search_measure acc1" using rest Cons.IH by (cases r1) auto
  then show ?case using advance_transition_measure [OF step] by simp
qed

definition diagnostic_cap_result :: "accumulator \<Rightarrow> advance" where
  "diagnostic_cap_result acc =
     (if max_diagnostics < length (ac_blocked acc) + length (ac_impossible acc) + 1
      then res_bind (unsupported_search_result ''/diagnostics'') (\<lambda>r. Inr (Some r, acc))
      else Inr (None, acc))"

function run_bounded_search :: "(facts \<Rightarrow> string) \<Rightarrow> search_context \<Rightarrow> accumulator \<Rightarrow> advance" where
  "run_bounded_search dg ctx acc =
     (case ac_queue acc of
        [] \<Rightarrow> diagnostic_cap_result acc
      | (s, steps) # queue \<Rightarrow>
          if pq_depth (sc_query ctx) \<le> int (length steps)
          then run_bounded_search dg ctx (acc\<lparr>ac_queue := queue, ac_exhausted := True\<rparr>)
          else (case advance_from_state dg ctx (sc_transitions ctx) (acc\<lparr>ac_queue := queue\<rparr>) s steps of
              Inl e \<Rightarrow> Inl e
            | Inr (Some r, acc') \<Rightarrow> Inr (Some r, acc')
            | Inr (None, acc') \<Rightarrow> run_bounded_search dg ctx acc'))"
  by pat_completeness auto
termination
  by (relation "measure (\<lambda>(dg, ctx, acc). search_measure acc)")
    (auto simp: search_measure_def dest!: advance_from_state_measure)

declare run_bounded_search.simps [simp del]

definition initial_accumulator :: "facts \<Rightarrow> accumulator" where
  "initial_accumulator s =
     \<lparr>ac_visited = [s], ac_queue = [(s, [])], ac_blocked = [], ac_impossible = [], ac_exhausted = False\<rparr>"

definition search :: "(facts list \<Rightarrow> facts) \<Rightarrow> (facts \<Rightarrow> string) \<Rightarrow> path_request \<Rightarrow> search_result res" where
  "search longest dg r =
     (let ctx = search_context_of r in
      if contains (sc_goal ctx) (sc_initial ctx)
      then valid_search_result dg (sc_query ctx) (sc_initial ctx) [] (sc_initial ctx)
      else res_bind (run_bounded_search dg ctx (initial_accumulator (sc_initial ctx))) (\<lambda>(result, acc).
        case result of Some r \<Rightarrow> Inr r | None \<Rightarrow> invalid_search_result longest (sc_goal ctx) acc))"

section \<open>The analysis\<close>

definition analyze_exploit_path_input ::
  "(facts list \<Rightarrow> facts) \<Rightarrow> (facts \<Rightarrow> string) \<Rightarrow> path_request \<Rightarrow> search_result res" where
  "analyze_exploit_path_input longest dg r =
     (let fail_closed = bounded_fail_closed_diagnostics
            (filter (\<lambda>d. snd d \<in> set fail_closed_codes) (preflight_diagnostics r)) in
      if fail_closed \<noteq> []
      then res_bind (make_unsupported (sort (remdups (map snd fail_closed)))) (\<lambda>codes.
        make_evidence \<lparr>sr_outcome = UNSUPPORTED, sr_witness = None, sr_failure = None, sr_unsupported = Some codes,
          sr_diagnostics = sort fail_closed\<rparr>)
      else res_bind (search longest dg r) make_evidence)"

end
