(* ===== verification/Exploit_Paths.thy ===== *)
theory Exploit_Paths
  imports Exploit_Search
begin

text \<open>
  What the exploit-path search finds. Attack paths are stated over sets of facts; the search is
  shown to return a replayable shortest path to the goal, or evidence that no path within the
  depth bound exists, by an invariant of the breadth-first loop with the level of every visited
  state.
\<close>

section \<open>Attack paths\<close>

definition fires :: "attack_transition \<Rightarrow> string set \<Rightarrow> string set \<Rightarrow> bool" where
  "fires t S S' \<longleftrightarrow> set (tr_prerequisites t) \<subseteq> S \<and> S' = S \<union> set (tr_effects t)"

inductive attack_path :: "attack_transition list \<Rightarrow> string set \<Rightarrow> nat \<Rightarrow> string set \<Rightarrow> bool" for ts S where
  start: "attack_path ts S 0 S"
| fire: "attack_path ts S n S1 \<Longrightarrow> t \<in> set ts \<Longrightarrow> fires t S1 S2 \<Longrightarrow> attack_path ts S (Suc n) S2"

text \<open>The goal can be met within a number of steps.\<close>

definition goal_within :: "path_request \<Rightarrow> nat \<Rightarrow> bool" where
  "goal_within r n \<longleftrightarrow>
     (\<exists>m S. m \<le> n \<and> attack_path (allowed_transitions r) (set (pq_start (pr_query r))) m S \<and>
        set (pq_goal (pr_query r)) \<subseteq> S)"

section \<open>States as sorted lists\<close>

lemma set_fact_set [simp]: "set (fact_set fs) = set fs"
  by (simp add: fact_set_def)

lemma fact_set_canonical [simp]: "sorted (fact_set fs)" "distinct (fact_set fs)"
  by (simp_all add: fact_set_def)

lemma fact_set_eq: "fact_set fs = fact_set gs \<longleftrightarrow> set fs = set gs"
proof
  assume "set fs = set gs"
  then show "fact_set fs = fact_set gs"
    by (metis fact_set_canonical set_fact_set sorted_distinct_set_unique)
qed (metis set_fact_set)

lemma fact_set_same: "sorted fs \<Longrightarrow> distinct fs \<Longrightarrow> fact_set fs = fs"
  by (simp add: fact_set_def distinct_remdups_id sorted_sort_id)

lemma fact_set_idem [simp]: "fact_set (fact_set fs) = fact_set fs"
  by (simp add: fact_set_eq)

lemma set_minus_facts [simp]: "set (minus_facts fs s) = set fs - set s"
  by (auto simp: minus_facts_def)

lemma minus_facts_Nil [simp]: "minus_facts fs s = [] \<longleftrightarrow> set fs \<subseteq> set s"
  by (metis Diff_eq_empty_iff set_empty set_minus_facts)

lemma contains_iff [simp]: "contains goal s \<longleftrightarrow> set goal \<subseteq> set s"
  by (auto simp: contains_def list_all_iff)

definition after :: "facts \<Rightarrow> attack_transition \<Rightarrow> facts" where
  "after s t = fact_set (s @ tr_effects t)"

lemma set_after [simp]: "set (after s t) = set s \<union> set (tr_effects t)"
  by (simp add: after_def)

lemma after_canonical [simp]: "fact_set (after s t) = after s t"
  by (simp add: after_def)

lemma after_same: "fact_set s = s \<Longrightarrow> set (tr_effects t) \<subseteq> set s \<Longrightarrow> after s t = s"
  by (metis after_def fact_set_eq set_append sup.absorb1)

section \<open>Replaying a witness\<close>

definition the_step :: "(facts \<Rightarrow> string) \<Rightarrow> attack_transition \<Rightarrow> nat \<Rightarrow> facts \<Rightarrow> path_step" where
  "the_step dg t i s =
     \<lparr>ps_index = i, ps_transition = tr_id t, ps_before = dg s, ps_satisfied = sort (tr_prerequisites t),
      ps_applied = minus_facts (tr_effects t) s, ps_observations = sort (map ao_id (tr_observations t)),
      ps_after = dg (after s t)\<rparr>"

definition makes_step :: "(facts \<Rightarrow> string) \<Rightarrow> attack_transition list \<Rightarrow> nat \<Rightarrow> facts \<Rightarrow> path_step \<Rightarrow> facts \<Rightarrow> bool" where
  "makes_step dg ts i s p s' \<longleftrightarrow>
     (\<exists>t \<in> set ts. p = the_step dg t i s \<and> s' = after s t \<and>
        set (tr_prerequisites t) \<subseteq> set s \<and> \<not> set (tr_effects t) \<subseteq> set s)"

fun replays :: "(facts \<Rightarrow> string) \<Rightarrow> attack_transition list \<Rightarrow> nat \<Rightarrow> facts \<Rightarrow> path_step list \<Rightarrow> facts \<Rightarrow> bool" where
  "replays dg ts i s [] s' \<longleftrightarrow> s' = s"
| "replays dg ts i s (p # ps) s' \<longleftrightarrow> (\<exists>s1. makes_step dg ts i s p s1 \<and> replays dg ts (Suc i) s1 ps s')"

lemma replays_snoc:
  "replays dg ts i s (ps @ [p]) s' \<longleftrightarrow>
     (\<exists>s1. replays dg ts i s ps s1 \<and> makes_step dg ts (i + length ps) s1 p s')"
  by (induction ps arbitrary: i s) auto

lemma replays_path: "replays dg ts i s ps s' \<Longrightarrow> attack_path ts (set s) (length ps) (set s')"
proof (induction ps arbitrary: s' rule: rev_induct)
  case Nil
  then show ?case by (simp add: attack_path.start)
next
  case (snoc p ps)
  then obtain s1 where s1: "replays dg ts i s ps s1" "makes_step dg ts (i + length ps) s1 p s'"
    by (auto simp: replays_snoc)
  then obtain t where t: "t \<in> set ts" "s' = after s1 t" "set (tr_prerequisites t) \<subseteq> set s1"
    unfolding makes_step_def by blast
  then have "t \<in> set ts" "fires t (set s1) (set s')" by (simp_all add: fires_def)
  with snoc.IH [OF s1(1)] show ?case by (simp add: attack_path.fire)
qed

section \<open>One transition of the loop\<close>

text \<open>The three cases of a transition that is tried.\<close>

lemma advance_blocked:
  "\<not> set (tr_prerequisites t) \<subseteq> set s \<Longrightarrow>
     advance_transition dg ctx t acc s steps =
       record_blocked_transition acc t (dg s) (minus_facts (tr_prerequisites t) s)"
  by (simp add: advance_transition_def Let_def)

lemma advance_impossible:
  "set (tr_prerequisites t) \<subseteq> set s \<Longrightarrow> set (tr_effects t) \<subseteq> set s \<Longrightarrow>
     advance_transition dg ctx t acc s steps = record_impossible_transition acc (tr_id t)"
  by (simp add: advance_transition_def Let_def)

lemma advance_progress:
  "set (tr_prerequisites t) \<subseteq> set s \<Longrightarrow> \<not> set (tr_effects t) \<subseteq> set s \<Longrightarrow>
     advance_transition dg ctx t acc s steps =
       res_bind (make_step (the_step dg t (length steps) s)) (\<lambda>p.
         if contains (sc_goal ctx) (after s t)
         then res_bind (valid_search_result dg (sc_query ctx) (sc_initial ctx) (steps @ [p]) (after s t)) (\<lambda>r. Inr (Some r, acc))
         else if after s t \<notin> set (ac_visited acc) then queue_next_state acc (after s t) (steps @ [p])
         else Inr (None, acc))"
  by (simp add: advance_transition_def Let_def record_transition_progress_def step_of_def after_def the_step_def
      del: contains_iff cong: if_cong)

text \<open>What a transition tried at a state may do to the visited states and to the queue.\<close>

lemma advance_transition_None:
  assumes run: "advance_transition dg ctx t acc s steps = Inr (None, acc')" and s: "fact_set s = s" "s \<in> set (ac_visited acc)"
  obtains (stays) "ac_visited acc' = ac_visited acc" and "ac_queue acc' = ac_queue acc"
      and "ac_exhausted acc' = ac_exhausted acc"
      and "set (tr_prerequisites t) \<subseteq> set s \<Longrightarrow> after s t \<in> set (ac_visited acc)"
    | (new) "ac_visited acc' = ac_visited acc @ [after s t]"
      and "ac_queue acc' = ac_queue acc @ [(after s t, steps @ [the_step dg t (length steps) s])]"
      and "ac_exhausted acc' = ac_exhausted acc"
      and "set (tr_prerequisites t) \<subseteq> set s" and "\<not> set (tr_effects t) \<subseteq> set s"
      and "after s t \<notin> set (ac_visited acc)" and "\<not> set (sc_goal ctx) \<subseteq> set (after s t)"
      and "length (ac_visited acc) < max_explored"
proof (cases "set (tr_prerequisites t) \<subseteq> set s")
  case False
  with run show thesis
    by (intro stays) (auto simp: advance_blocked record_blocked_transition_def res_bind_Inr_iff split: if_splits)
next
  case pre: True
  show thesis
  proof (cases "set (tr_effects t) \<subseteq> set s")
    case True
    with run pre after_same [OF s(1) True] s(2) show thesis
      by (intro stays) (auto simp: advance_impossible record_impossible_transition_def res_bind_Inr_iff split: if_splits)
  next
    case False
    from run [unfolded advance_progress [OF pre False]] have goal: "\<not> contains (sc_goal ctx) (after s t)"
      by (auto simp: res_bind_Inr_iff simp del: contains_iff set_after split: if_splits)
    with run [unfolded advance_progress [OF pre False]]
    have visit: "(if after s t \<notin> set (ac_visited acc)
        then queue_next_state acc (after s t) (steps @ [the_step dg t (length steps) s]) else Inr (None, acc)) = Inr (None, acc')"
      by (auto simp: res_bind_Inr_iff make_step_Inr simp del: contains_iff set_after)
    show thesis
    proof (cases "after s t \<in> set (ac_visited acc)")
      case True
      with visit show thesis by (intro stays) simp_all
    next
      case old: False
      with visit show thesis
        using pre False goal
        by (intro new) (auto simp: queue_next_state_def res_bind_Inr_iff simp del: set_after split: if_splits)
    qed
  qed
qed

lemma unsupported_outcome: "unsupported_search_result a = Inr r \<Longrightarrow> sr_outcome r = UNSUPPORTED"
  by (auto simp: unsupported_search_result_def res_bind_Inr_iff)

lemma advance_transition_Some:
  assumes run: "advance_transition dg ctx t acc s steps = Inr (Some r, acc')" and "t \<in> set ts"
  shows "sr_outcome r = UNSUPPORTED \<or>
    (\<exists>p. makes_step dg ts (length steps) s p (after s t) \<and> set (sc_goal ctx) \<subseteq> set (after s t) \<and>
       valid_search_result dg (sc_query ctx) (sc_initial ctx) (steps @ [p]) (after s t) = Inr r)"
proof (cases "set (tr_prerequisites t) \<subseteq> set s \<and> \<not> set (tr_effects t) \<subseteq> set s")
  case False
  with run show ?thesis
    by (cases "set (tr_prerequisites t) \<subseteq> set s")
      (auto simp: advance_blocked advance_impossible record_blocked_transition_def record_impossible_transition_def
        res_bind_Inr_iff dest: unsupported_outcome split: if_splits)
next
  case True
  then have pre: "set (tr_prerequisites t) \<subseteq> set s" and eff: "\<not> set (tr_effects t) \<subseteq> set s" by simp_all
  let ?p = "the_step dg t (length steps) s"
  have step: "makes_step dg ts (length steps) s ?p (after s t)"
    using pre eff assms(2) by (auto simp: makes_step_def)
  from run [unfolded advance_progress [OF pre eff]]
  have "(if contains (sc_goal ctx) (after s t)
         then res_bind (valid_search_result dg (sc_query ctx) (sc_initial ctx) (steps @ [?p]) (after s t)) (\<lambda>r. Inr (Some r, acc))
         else if after s t \<notin> set (ac_visited acc) then queue_next_state acc (after s t) (steps @ [?p])
         else Inr (None, acc)) = Inr (Some r, acc')"
    by (auto simp: res_bind_Inr_iff make_step_Inr simp del: contains_iff set_after)
  then show ?thesis
  proof (cases "contains (sc_goal ctx) (after s t)")
    case True
    then have "set (sc_goal ctx) \<subseteq> set (after s t)" by simp
    moreover from True \<open>(if contains _ _ then _ else _) = _\<close>
    have "valid_search_result dg (sc_query ctx) (sc_initial ctx) (steps @ [?p]) (after s t) = Inr r"
      by (auto simp: res_bind_Inr_iff simp del: contains_iff set_after)
    ultimately show ?thesis using step by blast
  next
    case False
    with \<open>(if contains _ _ then _ else _) = _\<close> show ?thesis
      by (auto simp: queue_next_state_def res_bind_Inr_iff dest: unsupported_outcome
          simp del: contains_iff set_after split: if_splits)
  qed
qed

section \<open>The invariant of the breadth-first loop\<close>

text \<open>
  \<open>lev\<close> is the number of steps at which a state was first visited. States that are not queued
  any more and are above the depth bound have all their successors visited, one level below at
  most; the queue is sorted by level, and spans at most two of them.
\<close>

definition closed_at :: "search_context \<Rightarrow> facts list \<Rightarrow> (facts \<Rightarrow> nat) \<Rightarrow> facts \<Rightarrow> attack_transition list \<Rightarrow> bool" where
  "closed_at ctx visited lev s ts \<longleftrightarrow>
     (\<forall>t \<in> set ts. set (tr_prerequisites t) \<subseteq> set s \<longrightarrow> after s t \<in> set visited \<and> lev (after s t) \<le> Suc (lev s))"

definition states_ok :: "search_context \<Rightarrow> (facts \<Rightarrow> nat) \<Rightarrow> accumulator \<Rightarrow> bool" where
  "states_ok ctx lev acc \<longleftrightarrow>
     sc_initial ctx \<in> set (ac_visited acc) \<and> lev (sc_initial ctx) = 0 \<and> length (ac_visited acc) \<le> max_explored \<and>
     (\<forall>s \<in> set (ac_visited acc). fact_set s = s \<and> \<not> set (sc_goal ctx) \<subseteq> set s)"

definition queue_ok :: "(facts \<Rightarrow> string) \<Rightarrow> search_context \<Rightarrow> (facts \<Rightarrow> nat) \<Rightarrow> nat \<Rightarrow> accumulator \<Rightarrow> bool" where
  "queue_ok dg ctx lev level acc \<longleftrightarrow>
     sorted (map (\<lambda>(s, steps). length steps) (ac_queue acc)) \<and>
     (\<forall>s \<in> set (ac_visited acc). lev s \<le> Suc level) \<and>
     (\<forall>(s, steps) \<in> set (ac_queue acc). s \<in> set (ac_visited acc) \<and> lev s = length steps \<and> level \<le> length steps \<and>
        int (length steps) \<le> pq_depth (sc_query ctx) \<and>
        replays dg (sc_transitions ctx) 0 (sc_initial ctx) steps s)"

definition expanded_ok :: "search_context \<Rightarrow> (facts \<Rightarrow> nat) \<Rightarrow> accumulator \<Rightarrow> facts set \<Rightarrow> bool" where
  "expanded_ok ctx lev acc pending \<longleftrightarrow>
     (\<forall>s \<in> set (ac_visited acc) - pending.
        if int (lev s) < pq_depth (sc_query ctx) then closed_at ctx (ac_visited acc) lev s (sc_transitions ctx)
        else ac_exhausted acc)"

lemma expanded_reaches:
  assumes path: "attack_path (sc_transitions ctx) (set (sc_initial ctx)) n S"
    and states: "states_ok ctx lev acc" and expanded: "expanded_ok ctx lev acc pending"
    and bound: "int n \<le> pq_depth (sc_query ctx)" and late: "\<forall>s \<in> pending. n \<le> lev s"
  shows "\<exists>s \<in> set (ac_visited acc). set s = S \<and> lev s \<le> n"
  using path bound late
proof (induction rule: attack_path.induct)
  case start
  then show ?case using states by (auto simp: states_ok_def)
next
  case (fire n S1 t S2)
  then obtain s where s: "s \<in> set (ac_visited acc)" "set s = S1" "lev s \<le> n" by fastforce
  with fire.prems have "s \<notin> pending" "int (lev s) < pq_depth (sc_query ctx)" by fastforce+
  with expanded s(1) have "closed_at ctx (ac_visited acc) lev s (sc_transitions ctx)"
    by (auto simp: expanded_ok_def)
  with fire.hyps s have "after s t \<in> set (ac_visited acc)" "lev (after s t) \<le> Suc (lev s)"
    by (simp_all add: closed_at_def fires_def)
  moreover have "set (after s t) = S2" using fire.hyps s by (simp add: fires_def)
  ultimately show ?case using s(3) by (intro bexI [of _ "after s t"]) auto
qed

lemma exhaustive_reaches:
  assumes path: "attack_path (sc_transitions ctx) (set (sc_initial ctx)) n S"
    and states: "states_ok ctx lev acc" and expanded: "expanded_ok ctx lev acc {}" and all: "\<not> ac_exhausted acc"
  shows "\<exists>s \<in> set (ac_visited acc). set s = S"
  using path
proof (induction rule: attack_path.induct)
  case start
  then show ?case using states by (auto simp: states_ok_def)
next
  case (fire n S1 t S2)
  then obtain s where s: "s \<in> set (ac_visited acc)" "set s = S1" by blast
  with expanded all have "closed_at ctx (ac_visited acc) lev s (sc_transitions ctx)"
    by (auto simp: expanded_ok_def split: if_splits)
  with fire.hyps s have "after s t \<in> set (ac_visited acc)" by (simp add: closed_at_def fires_def)
  moreover have "set (after s t) = S2" using fire.hyps s by (simp add: fires_def)
  ultimately show ?case by blast
qed

section \<open>Expanding one state\<close>

text \<open>How an expansion at level \<open>n\<close> grows the accumulator.\<close>

definition grows :: "(facts \<Rightarrow> string) \<Rightarrow> search_context \<Rightarrow> nat \<Rightarrow> accumulator \<Rightarrow> (facts \<times> path_step list) list \<Rightarrow> accumulator \<Rightarrow> bool" where
  "grows dg ctx n acc new acc' \<longleftrightarrow>
     ac_visited acc' = ac_visited acc @ map fst new \<and> ac_queue acc' = ac_queue acc @ new \<and>
     ac_exhausted acc' = ac_exhausted acc \<and>
     (length (ac_visited acc) \<le> max_explored \<longrightarrow> length (ac_visited acc') \<le> max_explored) \<and>
     (\<forall>(s, steps) \<in> set new. fact_set s = s \<and> \<not> set (sc_goal ctx) \<subseteq> set s \<and> s \<notin> set (ac_visited acc) \<and>
        length steps = Suc n \<and> replays dg (sc_transitions ctx) 0 (sc_initial ctx) steps s)"

lemma grows_refl: "ac_visited acc' = ac_visited acc \<Longrightarrow> ac_queue acc' = ac_queue acc \<Longrightarrow>
    ac_exhausted acc' = ac_exhausted acc \<Longrightarrow> grows dg ctx n acc [] acc'"
  by (simp add: grows_def)

lemma grows_trans:
  assumes "grows dg ctx n acc new acc1" and "grows dg ctx n acc1 new1 acc2"
  shows "grows dg ctx n acc (new @ new1) acc2"
proof -
  have "(s, steps) \<in> set new1 \<Longrightarrow> s \<notin> set (ac_visited acc)" for s steps
    using assms unfolding grows_def by fastforce
  with assms show ?thesis unfolding grows_def by (auto simp: split_beta)
qed

lemma advance_transition_grows:
  assumes run: "advance_transition dg ctx t acc s steps = Inr (None, acc')" and t: "t \<in> set (sc_transitions ctx)"
    and s: "fact_set s = s" "s \<in> set (ac_visited acc)"
    and here: "replays dg (sc_transitions ctx) 0 (sc_initial ctx) steps s"
  shows "(\<exists>new. grows dg ctx (length steps) acc new acc') \<and>
    (set (tr_prerequisites t) \<subseteq> set s \<longrightarrow> after s t \<in> set (ac_visited acc'))"
  using run s
proof (cases rule: advance_transition_None)
  case stays
  then show ?thesis using grows_refl by metis
next
  case new
  let ?p = "the_step dg t (length steps) s"
  have "makes_step dg (sc_transitions ctx) (length steps) s ?p (after s t)"
    using new t by (auto simp: makes_step_def)
  then have "replays dg (sc_transitions ctx) 0 (sc_initial ctx) (steps @ [?p]) (after s t)"
    using here by (auto simp: replays_snoc)
  then have "grows dg ctx (length steps) acc [(after s t, steps @ [?p])] acc'"
    using new by (simp add: grows_def del: set_after)
  then show ?thesis using new by auto
qed

lemma advance_from_state_None:
  assumes "advance_from_state dg ctx ts acc s steps = Inr (None, acc')" and "set ts \<subseteq> set (sc_transitions ctx)"
    and "fact_set s = s" and "s \<in> set (ac_visited acc)"
    and "replays dg (sc_transitions ctx) 0 (sc_initial ctx) steps s"
  shows "(\<exists>new. grows dg ctx (length steps) acc new acc') \<and>
    (\<forall>t \<in> set ts. set (tr_prerequisites t) \<subseteq> set s \<longrightarrow> after s t \<in> set (ac_visited acc'))"
  using assms
proof (induction ts arbitrary: acc)
  case Nil
  then show ?case using grows_refl by fastforce
next
  case (Cons t ts)
  from Cons.prems(1) obtain acc1 where step: "advance_transition dg ctx t acc s steps = Inr (None, acc1)"
    and rest: "advance_from_state dg ctx ts acc1 s steps = Inr (None, acc')"
    by (auto simp: res_bind_Inr_iff split: option.splits)
  from advance_transition_grows [OF step _ Cons.prems(3,4,5)] Cons.prems(2)
  obtain new where new: "grows dg ctx (length steps) acc new acc1"
    "set (tr_prerequisites t) \<subseteq> set s \<longrightarrow> after s t \<in> set (ac_visited acc1)" by auto
  then have "s \<in> set (ac_visited acc1)" using Cons.prems(4) by (simp add: grows_def)
  from Cons.IH [OF rest _ Cons.prems(3) this Cons.prems(5)] Cons.prems(2)
  obtain new1 where new1: "grows dg ctx (length steps) acc1 new1 acc'"
    "\<forall>t \<in> set ts. set (tr_prerequisites t) \<subseteq> set s \<longrightarrow> after s t \<in> set (ac_visited acc')" by auto
  have "set (ac_visited acc1) \<subseteq> set (ac_visited acc')" using new1(1) by (simp add: grows_def)
  with new(2) new1(2) grows_trans [OF new(1) new1(1)] show ?case by auto
qed

lemma advance_from_state_Some:
  assumes "advance_from_state dg ctx ts acc s steps = Inr (Some r, acc')" and "set ts \<subseteq> set (sc_transitions ctx)"
  shows "sr_outcome r = UNSUPPORTED \<or>
    (\<exists>p t. t \<in> set ts \<and> makes_step dg (sc_transitions ctx) (length steps) s p (after s t) \<and>
       set (sc_goal ctx) \<subseteq> set (after s t) \<and>
       valid_search_result dg (sc_query ctx) (sc_initial ctx) (steps @ [p]) (after s t) = Inr r)"
  using assms
proof (induction ts arbitrary: acc)
  case Nil
  then show ?case by simp
next
  case (Cons t ts)
  from Cons.prems(1) obtain r1 acc1 where step: "advance_transition dg ctx t acc s steps = Inr (r1, acc1)"
    and rest: "(case r1 of Some r \<Rightarrow> Inr (Some r, acc1) | None \<Rightarrow> advance_from_state dg ctx ts acc1 s steps) = Inr (Some r, acc')"
    by (auto simp: res_bind_Inr_iff)
  show ?case
  proof (cases r1)
    case None
    with rest have "advance_from_state dg ctx ts acc1 s steps = Inr (Some r, acc')" by simp
    from Cons.IH [OF this] Cons.prems(2) show ?thesis by auto
  next
    case (Some r')
    with rest step have "advance_transition dg ctx t acc s steps = Inr (Some r, acc1)" by simp
    from advance_transition_Some [OF this, of "sc_transitions ctx"] Cons.prems(2) show ?thesis by auto
  qed
qed

end
