(* ===== verification/Exploit_Loop.thy ===== *)
theory Exploit_Loop
  imports Exploit_Paths
begin

text \<open>
  The bounded breadth-first loop of the exploit-path search: it keeps its invariant, every result
  it stops with is a shortest replayable path or an exceeded bound, and on admitted input none of
  the evidence it builds is refused by its constructor.
\<close>

section \<open>The loop\<close>

definition found :: "(facts \<Rightarrow> string) \<Rightarrow> search_context \<Rightarrow> search_result \<Rightarrow> bool" where
  "found dg ctx r \<longleftrightarrow> sr_outcome r = UNSUPPORTED \<or>
     (\<exists>steps s. replays dg (sc_transitions ctx) 0 (sc_initial ctx) steps s \<and> set (sc_goal ctx) \<subseteq> set s \<and>
        int (length steps) \<le> pq_depth (sc_query ctx) \<and>
        valid_search_result dg (sc_query ctx) (sc_initial ctx) steps s = Inr r \<and>
        (\<forall>n S. attack_path (sc_transitions ctx) (set (sc_initial ctx)) n S \<longrightarrow> set (sc_goal ctx) \<subseteq> S \<longrightarrow>
           length steps \<le> n))"

abbreviation pending :: "accumulator \<Rightarrow> facts set" where
  "pending acc \<equiv> fst ` set (ac_queue acc)"

definition loop_ok :: "(facts \<Rightarrow> string) \<Rightarrow> search_context \<Rightarrow> (facts \<Rightarrow> nat) \<Rightarrow> nat \<Rightarrow> accumulator \<Rightarrow> bool" where
  "loop_ok dg ctx lev level acc \<longleftrightarrow>
     states_ok ctx lev acc \<and> queue_ok dg ctx lev level acc \<and> expanded_ok ctx lev acc (pending acc)"

lemma queue_head:
  assumes "queue_ok dg ctx lev level acc" and "ac_queue acc = (s, steps) # queue"
  shows "s \<in> set (ac_visited acc)" and "lev s = length steps" and "level \<le> length steps"
    and "int (length steps) \<le> pq_depth (sc_query ctx)"
    and "replays dg (sc_transitions ctx) 0 (sc_initial ctx) steps s"
    and "\<forall>x \<in> pending acc. length steps \<le> lev x"
    and "queue_ok dg ctx lev (length steps) (acc\<lparr>ac_queue := queue\<rparr>)"
proof -
  show "s \<in> set (ac_visited acc)" and "lev s = length steps" and level: "level \<le> length steps"
    and "int (length steps) \<le> pq_depth (sc_query ctx)"
    and "replays dg (sc_transitions ctx) 0 (sc_initial ctx) steps s"
    using assms by (simp_all add: queue_ok_def)
  have later: "\<forall>(x, st) \<in> set queue. length steps \<le> length st" and lens: "\<forall>(x, st) \<in> set (ac_queue acc). lev x = length st"
    using assms by (auto simp: queue_ok_def)
  then show "\<forall>x \<in> pending acc. length steps \<le> lev x" using assms(2) by fastforce
  from level have "\<forall>x \<in> set (ac_visited acc). lev x \<le> Suc (length steps)"
    using assms(1) unfolding queue_ok_def by fastforce
  with assms later show "queue_ok dg ctx lev (length steps) (acc\<lparr>ac_queue := queue\<rparr>)"
    by (fastforce simp: queue_ok_def)
qed

lemma loop_cut:
  assumes ok: "loop_ok dg ctx lev level acc" and head: "ac_queue acc = (s, steps) # queue"
    and deep: "pq_depth (sc_query ctx) \<le> int (length steps)"
  shows "loop_ok dg ctx lev (length steps) (acc\<lparr>ac_queue := queue, ac_exhausted := True\<rparr>)"
proof -
  from ok have q: "queue_ok dg ctx lev level acc" by (simp add: loop_ok_def)
  have "closed_at ctx (ac_visited acc) lev x (sc_transitions ctx)"
    if x: "x \<in> set (ac_visited acc)" "x \<notin> fst ` set queue" "int (lev x) < pq_depth (sc_query ctx)" for x
  proof -
    from x(3) deep queue_head(2) [OF q head] have "x \<noteq> s" by auto
    with x ok head show ?thesis by (simp add: loop_ok_def expanded_ok_def)
  qed
  then have "expanded_ok ctx lev (acc\<lparr>ac_queue := queue, ac_exhausted := True\<rparr>) (fst ` set queue)"
    by (simp add: expanded_ok_def)
  moreover have "queue_ok dg ctx lev (length steps) (acc\<lparr>ac_queue := queue, ac_exhausted := True\<rparr>)"
    using queue_head(7) [OF q head] by (simp add: queue_ok_def)
  ultimately show ?thesis using ok by (simp add: loop_ok_def states_ok_def)
qed

lemma grows_length:
  "grows dg ctx n acc new acc' \<Longrightarrow> length (ac_visited acc) \<le> max_explored \<Longrightarrow> length (ac_visited acc') \<le> max_explored"
  unfolding grows_def by blast

definition level_after :: "(facts \<Rightarrow> nat) \<Rightarrow> nat \<Rightarrow> (facts \<times> path_step list) list \<Rightarrow> facts \<Rightarrow> nat" where
  "level_after lev n new s = (if s \<in> fst ` set new then Suc n else lev s)"

lemma loop_expand:
  assumes ok: "loop_ok dg ctx lev level acc" and head: "ac_queue acc = (s, steps) # queue"
    and shallow: "int (length steps) < pq_depth (sc_query ctx)"
    and grown: "grows dg ctx (length steps) (acc\<lparr>ac_queue := queue\<rparr>) new acc'"
    and all: "\<forall>t \<in> set (sc_transitions ctx). set (tr_prerequisites t) \<subseteq> set s \<longrightarrow> after s t \<in> set (ac_visited acc')"
  shows "loop_ok dg ctx (level_after lev (length steps) new) (length steps) acc'"
proof -
  let ?n = "length steps"
  let ?lev = "level_after lev ?n new"
  from ok have q: "queue_ok dg ctx lev level acc" by (simp add: loop_ok_def)
  note h = queue_head [OF q head]
  have new: "\<forall>(x, st) \<in> set new. fact_set x = x \<and> \<not> set (sc_goal ctx) \<subseteq> set x \<and> x \<notin> set (ac_visited acc) \<and>
      length st = Suc ?n \<and> replays dg (sc_transitions ctx) 0 (sc_initial ctx) st x"
    and visited: "ac_visited acc' = ac_visited acc @ map fst new" and queue: "ac_queue acc' = queue @ new"
    using grown by (simp_all add: grows_def)
  have keep: "?lev x = lev x" if "x \<in> set (ac_visited acc)" for x
    using new that by (fastforce simp: level_after_def)
  from ok have states0: "states_ok ctx lev acc" by (simp add: loop_ok_def)
  have "\<forall>x \<in> fst ` set new. fact_set x = x \<and> \<not> set (sc_goal ctx) \<subseteq> set x" using new by auto
  moreover have "length (ac_visited acc') \<le> max_explored"
    using grows_length [OF grown] states0 by (simp add: states_ok_def)
  moreover have "?lev (sc_initial ctx) = 0" using states0 keep by (simp add: states_ok_def)
  ultimately have states: "states_ok ctx ?lev acc'" using states0 visited by (auto simp: states_ok_def)
  have old: "\<forall>x \<in> set (ac_visited acc). lev x \<le> Suc ?n"
    using h(7) by (simp add: queue_ok_def)
  then have low: "\<forall>x \<in> set (ac_visited acc'). ?lev x \<le> Suc ?n"
    using visited by (auto simp: level_after_def)
  have in_queue: "\<forall>(x, st) \<in> set queue. x \<in> set (ac_visited acc) \<and> lev x = length st \<and> ?n \<le> length st \<and>
      int (length st) \<le> pq_depth (sc_query ctx) \<and> replays dg (sc_transitions ctx) 0 (sc_initial ctx) st x"
    and sorted: "sorted (map (\<lambda>(x, st). length st) queue)" using h(7) by (simp_all add: queue_ok_def)
  have "\<forall>(x, st) \<in> set queue. length st \<le> Suc ?n" using in_queue old by fastforce
  moreover have "map (\<lambda>(x, st). length st) new = replicate (length new) (Suc ?n)"
    using new by (intro replicate_eqI) auto
  ultimately have "sorted (map (\<lambda>(x, st). length st) (queue @ new))"
    using sorted by (auto simp: sorted_append)
  moreover have "x \<in> set (ac_visited acc') \<and> ?lev x = length st \<and> ?n \<le> length st \<and>
      int (length st) \<le> pq_depth (sc_query ctx) \<and> replays dg (sc_transitions ctx) 0 (sc_initial ctx) st x"
    if entry: "(x, st) \<in> set queue" for x st
  proof -
    from entry in_queue have x: "x \<in> set (ac_visited acc)" "lev x = length st" "?n \<le> length st"
      "int (length st) \<le> pq_depth (sc_query ctx)" "replays dg (sc_transitions ctx) 0 (sc_initial ctx) st x" by auto
    with keep [OF x(1)] visited show ?thesis by simp
  qed
  moreover have "x \<in> set (ac_visited acc') \<and> ?lev x = length st \<and> ?n \<le> length st \<and>
      int (length st) \<le> pq_depth (sc_query ctx) \<and> replays dg (sc_transitions ctx) 0 (sc_initial ctx) st x"
    if entry: "(x, st) \<in> set new" for x st
  proof -
    from entry new have st: "length st = Suc ?n" "replays dg (sc_transitions ctx) 0 (sc_initial ctx) st x" by auto
    from entry have "x \<in> fst ` set new" by force
    with st visited shallow show ?thesis by (simp add: level_after_def)
  qed
  ultimately have queued: "queue_ok dg ctx ?lev ?n acc'" using low queue unfolding queue_ok_def by auto
  have "if int (?lev x) < pq_depth (sc_query ctx) then closed_at ctx (ac_visited acc') ?lev x (sc_transitions ctx)
      else ac_exhausted acc'" if x: "x \<in> set (ac_visited acc')" "x \<notin> pending acc'" for x
  proof (cases "x = s")
    case True
    have "?lev s = ?n" using h(1,2) keep by simp
    with all low shallow show ?thesis unfolding True by (simp add: closed_at_def)
  next
    case False
    with x visited queue have old_x: "x \<in> set (ac_visited acc)" "x \<notin> pending acc"
      by (auto simp: head image_iff)
    with ok have "if int (lev x) < pq_depth (sc_query ctx) then closed_at ctx (ac_visited acc) lev x (sc_transitions ctx)
      else ac_exhausted acc" by (auto simp: loop_ok_def expanded_ok_def)
    with keep old_x visited grown show ?thesis by (auto simp: closed_at_def grows_def split: if_splits)
  qed
  then have "expanded_ok ctx ?lev acc' (pending acc')" unfolding expanded_ok_def by blast
  with states queued show ?thesis by (simp add: loop_ok_def)
qed

lemma loop_found:
  assumes ok: "loop_ok dg ctx lev level acc" and head: "ac_queue acc = (s, steps) # queue"
    and shallow: "int (length steps) < pq_depth (sc_query ctx)"
    and run: "advance_from_state dg ctx (sc_transitions ctx) (acc\<lparr>ac_queue := queue\<rparr>) s steps = Inr (Some r, acc')"
  shows "found dg ctx r"
proof (cases "sr_outcome r = UNSUPPORTED")
  case False
  from ok have q: "queue_ok dg ctx lev level acc" by (simp add: loop_ok_def)
  note h = queue_head [OF q head]
  from advance_from_state_Some [OF run subset_refl] False obtain p t where
    p: "makes_step dg (sc_transitions ctx) (length steps) s p (after s t)" "set (sc_goal ctx) \<subseteq> set (after s t)"
      "valid_search_result dg (sc_query ctx) (sc_initial ctx) (steps @ [p]) (after s t) = Inr r" by auto
  with h(5) have "replays dg (sc_transitions ctx) 0 (sc_initial ctx) (steps @ [p]) (after s t)"
    by (auto simp: replays_snoc)
  moreover have "length (steps @ [p]) \<le> n"
    if path: "attack_path (sc_transitions ctx) (set (sc_initial ctx)) n S" and goal: "set (sc_goal ctx) \<subseteq> S" for n S
  proof (rule ccontr)
    assume "\<not> length (steps @ [p]) \<le> n"
    then have n: "n \<le> length steps" by simp
    then have "int n \<le> pq_depth (sc_query ctx)" using shallow by simp
    moreover have "\<forall>x \<in> pending acc. n \<le> lev x" using h(6) n by fastforce
    ultimately obtain x where "x \<in> set (ac_visited acc)" "set x = S"
      using expanded_reaches [OF path] ok unfolding loop_ok_def by blast
    with ok goal show False by (auto simp: loop_ok_def states_ok_def)
  qed
  moreover have "int (length (steps @ [p])) \<le> pq_depth (sc_query ctx)" using shallow by simp
  ultimately show ?thesis using p(2,3) unfolding found_def by blast
qed (simp add: found_def)

lemma run_bounded_search_found:
  assumes "run_bounded_search dg ctx acc = Inr (result, acc')" and "loop_ok dg ctx lev level acc"
  shows "case result of
      None \<Rightarrow> \<exists>lev'. states_ok ctx lev' acc' \<and> expanded_ok ctx lev' acc' {}
    | Some r \<Rightarrow> found dg ctx r"
  using assms
proof (induction dg ctx acc arbitrary: lev level rule: run_bounded_search.induct)
  case (1 dg ctx acc)
  note unfold = run_bounded_search.simps [of dg ctx acc]
  show ?case
  proof (cases "ac_queue acc")
    case Nil
    with "1.prems" show ?thesis unfolding unfold
      by (auto simp: diagnostic_cap_result_def res_bind_Inr_iff found_def loop_ok_def dest: unsupported_outcome
          split: if_splits)
  next
    case (Cons p queue)
    obtain s steps where p: "p = (s, steps)" by fastforce
    note head = Cons [unfolded p]
    show ?thesis
    proof (cases "pq_depth (sc_query ctx) \<le> int (length steps)")
      case True
      with "1.prems"(1) head have "run_bounded_search dg ctx (acc\<lparr>ac_queue := queue, ac_exhausted := True\<rparr>) = Inr (result, acc')"
        by (simp add: unfold)
      from "1.IH"(1) [OF head refl True this loop_cut [OF "1.prems"(2) head True]] show ?thesis .
    next
      case False
      then have shallow: "int (length steps) < pq_depth (sc_query ctx)" by simp
      from "1.prems"(1) head False obtain r1 acc1 where
        step: "advance_from_state dg ctx (sc_transitions ctx) (acc\<lparr>ac_queue := queue\<rparr>) s steps = Inr (r1, acc1)"
        by (cases "advance_from_state dg ctx (sc_transitions ctx) (acc\<lparr>ac_queue := queue\<rparr>) s steps") (auto simp: unfold)
      show ?thesis
      proof (cases r1)
        case (Some r)
        with "1.prems"(1) head False step have "result = Some r" by (simp add: unfold)
        with loop_found [OF "1.prems"(2) head shallow] step Some show ?thesis by auto
      next
        case None
        with "1.prems"(1) head False step have rest: "run_bounded_search dg ctx acc1 = Inr (result, acc')"
          by (simp add: unfold)
        have q: "queue_ok dg ctx lev level acc" using "1.prems"(2) by (simp add: loop_ok_def)
        have s: "fact_set s = s" "s \<in> set (ac_visited (acc\<lparr>ac_queue := queue\<rparr>))"
          using "1.prems"(2) queue_head(1) [OF q head] by (auto simp: loop_ok_def states_ok_def)
        from advance_from_state_None [OF step [unfolded None] subset_refl s queue_head(5) [OF q head]]
        obtain new where "grows dg ctx (length steps) (acc\<lparr>ac_queue := queue\<rparr>) new acc1"
          "\<forall>t \<in> set (sc_transitions ctx). set (tr_prerequisites t) \<subseteq> set s \<longrightarrow> after s t \<in> set (ac_visited acc1)"
          by blast
        from loop_expand [OF "1.prems"(2) head shallow this]
        show ?thesis by (rule "1.IH"(2) [OF head refl False step refl None rest])
      qed
    qed
  qed
qed

section \<open>The search never raises\<close>

definition ctx_ok :: "string set \<Rightarrow> search_context \<Rightarrow> bool" where
  "ctx_ok F ctx \<longleftrightarrow> finite F \<and> card F \<le> 512 \<and> (\<forall>f \<in> F. exploit_id f) \<and>
     check_query (sc_query ctx) = Inr () \<and> set (sc_goal ctx) = set (pq_goal (sc_query ctx)) \<and>
     sc_initial ctx = fact_set (pq_start (sc_query ctx)) \<and> set (sc_initial ctx) \<subseteq> F \<and> set (sc_goal ctx) \<subseteq> F \<and>
     (\<forall>t \<in> set (sc_transitions ctx). check_transition t = Inr () \<and>
        set (tr_prerequisites t) \<subseteq> F \<and> set (tr_effects t) \<subseteq> F)"

definition carries :: "string set \<Rightarrow> accumulator \<Rightarrow> bool" where
  "carries F acc \<longleftrightarrow>
     (\<forall>s \<in> set (ac_visited acc). fact_set s = s \<and> set s \<subseteq> F) \<and>
     (\<forall>(s, steps) \<in> set (ac_queue acc). s \<in> set (ac_visited acc)) \<and>
     ac_visited acc \<noteq> [] \<and> length (ac_visited acc) \<le> max_explored \<and> length (ac_blocked acc) \<le> max_blocked \<and>
     length (ac_impossible acc) \<le> max_impossible \<and> distinct (ac_impossible acc) \<and>
     (\<forall>i \<in> set (ac_impossible acc). exploit_id i)"

lemma canonical_facts:
  assumes "ctx_ok F ctx" and "fact_set s = s" and "set s \<subseteq> F"
  shows "canonical_ids s \<and> length s \<le> 512"
proof -
  have sorted: "sorted s" "distinct s" using assms(2) fact_set_canonical [of s] by simp_all
  then have "length s = card (set s)" by (simp add: distinct_card)
  also have "\<dots> \<le> card F" using assms by (intro card_mono) (auto simp: ctx_ok_def)
  finally show ?thesis using assms sorted by (auto simp: ctx_ok_def canonical_ids_def list_all_iff)
qed

lemma minus_facts_ids:
  assumes "canonical_ids fs" and "length fs \<le> n"
  shows "canonical_ids (minus_facts fs s) \<and> length (minus_facts fs s) \<le> n"
proof -
  have "length (minus_facts fs s) \<le> length fs"
    unfolding minus_facts_def fact_set_def length_sort by (metis le_trans length_filter_le length_remdups_leq)
  then show ?thesis using assms
    by (auto simp: canonical_ids_def minus_facts_def list_all_iff)
qed

lemma unsupported_runs: "\<exists>r. unsupported_search_result a = Inr r \<and> make_evidence r = Inr r"
  by (simp add: unsupported_search_result_def make_unsupported_Inr [THEN iffD2] make_evidence_def
      check_outcome_payload_def check_unsupported_reasons_def max_diagnostics_def)

lemma make_step_runs:
  assumes "check_transition t = Inr ()" and "i < 64"
  shows "make_step (the_step dg t i s) = Inr (the_step dg t i s)"
proof -
  from assms(1) have t: "exploit_id (tr_id t)" "length (tr_prerequisites t) \<le> 64" "canonical_ids (tr_prerequisites t)"
    "length (tr_effects t) \<le> 64" "canonical_ids (tr_effects t)"
    "length (tr_observations t) \<le> 64" "canonical_ids (map ao_id (tr_observations t))"
    by (simp_all add: check_transition_Inr)
  then have "sort (tr_prerequisites t) = tr_prerequisites t" "sort (map ao_id (tr_observations t)) = map ao_id (tr_observations t)"
    by (simp_all add: canonical_ids_def sorted_sort_id)
  then show ?thesis using t assms(2) minus_facts_ids [OF t(5,4)] by (simp add: make_step_Inr the_step_def)
qed

lemma valid_result_runs:
  assumes ctx: "ctx_ok F ctx" and s: "fact_set s = s" "set s \<subseteq> F" "set (sc_goal ctx) \<subseteq> set s" and "length steps \<le> 64"
  shows "\<exists>r. valid_search_result dg (sc_query ctx) (sc_initial ctx) steps s = Inr r \<and> make_evidence r = Inr r"
proof -
  have q: "pq_start (sc_query ctx) \<noteq> []" "pq_goal (sc_query ctx) \<noteq> []" "length (pq_goal (sc_query ctx)) \<le> 64"
    "canonical_ids (pq_goal (sc_query ctx))"
    using ctx by (auto simp: ctx_ok_def check_query_def res_bind_Inr_iff canonical_ids_def)
  have init: "fact_set (sc_initial ctx) = sc_initial ctx" "set (sc_initial ctx) \<subseteq> F" "sc_initial ctx \<noteq> []"
    using ctx q(1) by (auto simp: ctx_ok_def simp flip: set_empty)
  moreover have "s \<noteq> []" using s(3) ctx q(2) by (auto simp: ctx_ok_def)
  moreover have "sort (pq_goal (sc_query ctx)) = pq_goal (sc_query ctx)"
    using q(4) by (simp add: canonical_ids_def sorted_sort_id)
  moreover have "set (pq_goal (sc_query ctx)) \<subseteq> set s" using s(3) ctx by (simp add: ctx_ok_def)
  ultimately have "make_witness dg \<lparr>pw_initial = sc_initial ctx, pw_goal = sort (pq_goal (sc_query ctx)), pw_steps = steps,
      pw_final = s, pw_digest = dg s\<rparr> = Inr \<lparr>pw_initial = sc_initial ctx, pw_goal = sort (pq_goal (sc_query ctx)),
      pw_steps = steps, pw_final = s, pw_digest = dg s\<rparr>"
    using q assms(5) canonical_facts [OF ctx s(1,2)] canonical_facts [OF ctx init(1,2)] by (simp add: make_witness_Inr)
  then show ?thesis
    by (simp add: valid_search_result_def make_evidence_def check_outcome_payload_def check_unsupported_reasons_def)
qed

lemma advance_transition_runs:
  assumes ctx: "ctx_ok F ctx" and ok: "carries F acc" and t: "t \<in> set (sc_transitions ctx)"
    and s: "s \<in> set (ac_visited acc)" and i: "length steps < 64"
  shows "\<exists>result acc'. advance_transition dg ctx t acc s steps = Inr (result, acc') \<and> carries F acc' \<and>
    set (ac_visited acc) \<subseteq> set (ac_visited acc') \<and> (\<forall>r. result = Some r \<longrightarrow> make_evidence r = Inr r)"
proof -
  have tr: "check_transition t = Inr ()" "set (tr_effects t) \<subseteq> F" using ctx t by (auto simp: ctx_ok_def)
  then have ids: "exploit_id (tr_id t)" "canonical_ids (tr_prerequisites t)" "length (tr_prerequisites t) \<le> 64"
    by (simp_all add: check_transition_Inr)
  have fs: "fact_set s = s" "set s \<subseteq> F" using ok s by (auto simp: carries_def)
  consider (blocked) "\<not> set (tr_prerequisites t) \<subseteq> set s"
    | (impossible) "set (tr_prerequisites t) \<subseteq> set s" "set (tr_effects t) \<subseteq> set s"
    | (progress) "set (tr_prerequisites t) \<subseteq> set s" "\<not> set (tr_effects t) \<subseteq> set s" by blast
  then show ?thesis
  proof cases
    case blocked
    let ?b = "\<lparr>bt_transition = tr_id t, bt_digest = dg s, bt_missing = minus_facts (tr_prerequisites t) s\<rparr>"
    have make: "make_blocked ?b = Inr ?b"
      using blocked ids minus_facts_ids [OF ids(2,3)] by (simp add: make_blocked_Inr)
    have len: "length (dict_set k ?b (ac_blocked acc)) \<le> Suc (length (ac_blocked acc))" for k
      by (metis dict_keys_def dict_keys_set le_Suc_eq length_append_singleton length_map order_refl)
    obtain r where r: "unsupported_search_result ''/search/blocked_transitions'' = Inr r" "make_evidence r = Inr r"
      using unsupported_runs by blast
    consider "dict_has (ac_blocked acc) (tr_id t, dg s)" | "max_blocked \<le> length (ac_blocked acc)"
      | "\<not> dict_has (ac_blocked acc) (tr_id t, dg s)" "length (ac_blocked acc) < max_blocked" by linarith
    then show ?thesis
    proof cases
      case 3
      then have "length (dict_set (tr_id t, dg s) ?b (ac_blocked acc)) \<le> max_blocked" using len [of "(tr_id t, dg s)"] by simp
      then have "carries F (acc\<lparr>ac_blocked := dict_set (tr_id t, dg s) ?b (ac_blocked acc)\<rparr>)"
        using ok by (simp add: carries_def)
      with 3 show ?thesis by (simp add: advance_blocked [OF blocked] record_blocked_transition_def make)
    qed (use ok r in \<open>simp_all add: advance_blocked [OF blocked] record_blocked_transition_def\<close>)
  next
    case impossible
    then show ?thesis using ok ids unsupported_runs [of "''/search/impossible_transitions''"]
      by (auto simp: advance_impossible record_impossible_transition_def carries_def)
  next
    case progress
    have next_ok: "fact_set (after s t) = after s t" "set (after s t) \<subseteq> F" using fs tr by auto
    then show ?thesis
      using ok valid_result_runs [OF ctx next_ok, of "steps @ [the_step dg t (length steps) s]" dg] i
        unsupported_runs [of "''/search/explored_state_count''"]
      by (auto simp: advance_progress [OF progress] make_step_runs [OF tr(1) i] queue_next_state_def carries_def
          simp del: set_after)
  qed
qed

lemma advance_from_state_runs:
  assumes "ctx_ok F ctx" and "carries F acc" and "set ts \<subseteq> set (sc_transitions ctx)"
    and "s \<in> set (ac_visited acc)" and "length steps < 64"
  shows "\<exists>result acc'. advance_from_state dg ctx ts acc s steps = Inr (result, acc') \<and> carries F acc' \<and>
    (\<forall>r. result = Some r \<longrightarrow> make_evidence r = Inr r)"
  using assms
proof (induction ts arbitrary: acc)
  case Nil
  then show ?case by simp
next
  case (Cons t ts)
  have "t \<in> set (sc_transitions ctx)" using Cons.prems(3) by simp
  from advance_transition_runs [OF Cons.prems(1,2) this Cons.prems(4,5)] obtain result acc1 where
    step: "advance_transition dg ctx t acc s steps = Inr (result, acc1)" "carries F acc1"
      "set (ac_visited acc) \<subseteq> set (ac_visited acc1)" "\<forall>r. result = Some r \<longrightarrow> make_evidence r = Inr r" by blast
  then show ?case using Cons.IH [OF Cons.prems(1) step(2) _ _ Cons.prems(5)] Cons.prems(3,4) by (cases result) auto
qed

lemma run_bounded_search_runs:
  assumes "ctx_ok F ctx" and "carries F acc"
  shows "\<exists>result acc'. run_bounded_search dg ctx acc = Inr (result, acc') \<and> carries F acc' \<and>
    (\<forall>r. result = Some r \<longrightarrow> make_evidence r = Inr r) \<and>
    (result = None \<longrightarrow> length (ac_blocked acc') + length (ac_impossible acc') + 1 \<le> max_diagnostics)"
  using assms
proof (induction dg ctx acc rule: run_bounded_search.induct)
  case (1 dg ctx acc)
  note unfold = run_bounded_search.simps [of dg ctx acc]
  show ?case
  proof (cases "ac_queue acc")
    case Nil
    with "1.prems" show ?thesis
      using unsupported_runs [of "''/diagnostics''"] by (auto simp: unfold diagnostic_cap_result_def)
  next
    case (Cons p queue)
    obtain s steps where p: "p = (s, steps)" by fastforce
    note head = Cons [unfolded p]
    have s: "s \<in> set (ac_visited acc)" using "1.prems"(2) head by (auto simp: carries_def)
    show ?thesis
    proof (cases "pq_depth (sc_query ctx) \<le> int (length steps)")
      case True
      have "carries F (acc\<lparr>ac_queue := queue, ac_exhausted := True\<rparr>)"
        using "1.prems"(2) head by (simp add: carries_def)
      from "1.IH"(1) [OF head refl True "1.prems"(1) this] head True show ?thesis by (simp add: unfold)
    next
      case False
      have popped: "carries F (acc\<lparr>ac_queue := queue\<rparr>)" using "1.prems"(2) head by (simp add: carries_def)
      have "pq_depth (sc_query ctx) \<le> 64"
        using "1.prems"(1) by (auto simp: ctx_ok_def check_query_def res_bind_Inr_iff)
      with False have "length steps < 64" by simp
      from advance_from_state_runs [OF "1.prems"(1) popped subset_refl _ this, of s dg] s
      obtain result acc1 where step: "advance_from_state dg ctx (sc_transitions ctx) (acc\<lparr>ac_queue := queue\<rparr>) s steps = Inr (result, acc1)"
        and ok: "carries F acc1" "\<forall>r. result = Some r \<longrightarrow> make_evidence r = Inr r" by auto
      show ?thesis
      proof (cases result)
        case None
        from "1.IH"(2) [OF head refl False step refl None "1.prems"(1) ok(1)] head False step None
        show ?thesis by (simp add: unfold)
      next
        case (Some r)
        with head False step ok show ?thesis by (simp add: unfold)
      qed
    qed
  qed
qed

section \<open>The search from its start\<close>

lemma initial_loop_ok:
  assumes "\<not> contains (sc_goal ctx) (sc_initial ctx)" and "fact_set (sc_initial ctx) = sc_initial ctx"
    and "0 \<le> pq_depth (sc_query ctx)"
  shows "loop_ok dg ctx (\<lambda>s. 0) 0 (initial_accumulator (sc_initial ctx))"
  using assms
  by (simp add: loop_ok_def states_ok_def queue_ok_def expanded_ok_def initial_accumulator_def max_explored_def)

lemma initial_carries:
  assumes "ctx_ok F ctx"
  shows "carries F (initial_accumulator (sc_initial ctx))"
  using assms by (auto simp: ctx_ok_def carries_def initial_accumulator_def max_explored_def)

lemma search_context_simps [simp]:
  "sc_transitions (search_context_of r) = allowed_transitions r" "sc_query (search_context_of r) = pr_query r"
  "set (sc_goal (search_context_of r)) = set (pq_goal (pr_query r))"
  "sc_initial (search_context_of r) = fact_set (pq_start (pr_query r))"
  by (simp_all add: search_context_of_def)

lemma search_cases:
  assumes "search longest dg r = Inr res" and "0 \<le> pq_depth (pr_query r)"
  obtains (found) "found dg (search_context_of r) res"
    | (none) lev acc where "states_ok (search_context_of r) lev acc" and "expanded_ok (search_context_of r) lev acc {}"
        and "invalid_search_result longest (sc_goal (search_context_of r)) acc = Inr res"
proof (cases "contains (sc_goal (search_context_of r)) (sc_initial (search_context_of r))")
  case True
  let ?ctx = "search_context_of r"
  from True assms(1) have "valid_search_result dg (sc_query ?ctx) (sc_initial ?ctx) [] (sc_initial ?ctx) = Inr res"
    by (simp add: search_def Let_def)
  moreover have "set (sc_goal ?ctx) \<subseteq> set (sc_initial ?ctx)" using True by (simp only: contains_iff)
  moreover have "int (length ([] :: path_step list)) \<le> pq_depth (sc_query ?ctx)" using assms(2) by simp
  ultimately have "found dg ?ctx res" unfolding found_def
    by (intro disjI2 exI [of _ "[]"] exI [of _ "sc_initial ?ctx"]) (simp only: replays.simps list.size le0 simp_thms)
  then show thesis by (rule found)
next
  case False
  let ?ctx = "search_context_of r"
  from False assms(1) obtain result acc where
    run: "run_bounded_search dg ?ctx (initial_accumulator (sc_initial ?ctx)) = Inr (result, acc)"
    and res: "(case result of Some r \<Rightarrow> Inr r | None \<Rightarrow> invalid_search_result longest (sc_goal ?ctx) acc) = Inr res"
    by (auto simp: search_def Let_def res_bind_Inr_iff simp del: search_context_simps contains_iff)
  have "loop_ok dg ?ctx (\<lambda>s. 0) 0 (initial_accumulator (sc_initial ?ctx))"
    using False assms(2) by (intro initial_loop_ok) simp_all
  from run_bounded_search_found [OF run this] res show thesis
    by (cases result) (auto intro: found none)
qed

lemma valid_result_fields:
  "valid_search_result dg q init steps s = Inr res \<Longrightarrow>
     sr_outcome res = VALID_PATH \<and> (\<exists>w. sr_witness res = Some w \<and> pw_initial w = init \<and> pw_steps w = steps \<and> pw_final w = s)"
  by (auto simp: valid_search_result_def res_bind_Inr_iff make_witness_Inr)

lemma invalid_result_fields:
  "invalid_search_result longest goal acc = Inr res \<Longrightarrow>
     sr_outcome res = INVALID_PATH \<and> (\<exists>e. sr_failure res = Some e \<and> ie_exhausted e = ac_exhausted acc)"
  by (auto simp: invalid_search_result_def res_bind_Inr_iff make_invalid_Inr)

lemma goal_within_path:
  "goal_within r n \<longleftrightarrow> (\<exists>m S. m \<le> n \<and>
     attack_path (sc_transitions (search_context_of r)) (set (sc_initial (search_context_of r))) m S \<and>
     set (sc_goal (search_context_of r)) \<subseteq> S)"
  by (simp add: goal_within_def)

end
