(* ===== verification/Exploit_Claims.thy ===== *)
theory Exploit_Claims
  imports Exploit_Loop
begin

text \<open>
  The properties of exploit-path analysis: a valid path is replayable, within the depth bound and
  shortest; an invalid outcome excludes every path; on admitted input the analysis returns; and
  one member of the evidence depends on the iteration order of a set.
\<close>

section \<open>A small attack graph\<close>

definition demo_fact :: "string \<Rightarrow> attack_fact" where
  "demo_fact i = \<lparr>af_id = i, af_kind = ACCESS, af_subject = ''host'', af_object = ''/nodes''\<rparr>"

definition demo_step :: "string \<Rightarrow> string list \<Rightarrow> string list \<Rightarrow> attack_transition" where
  "demo_step i pre eff = \<lparr>tr_id = i, tr_kind = EXPLOIT_STEP, tr_semantics = supported_semantics,
     tr_prerequisites = pre, tr_effects = eff, tr_observations = []\<rparr>"

definition demo_binding :: "string \<Rightarrow> target_kind \<Rightarrow> string \<Rightarrow> graph_binding" where
  "demo_binding i k target = \<lparr>gb_id = i, gb_concept = ''node'', gb_address = ''/nodes'', gb_kind = k, gb_target = target\<rparr>"

definition demo_graph :: attack_graph where
  "demo_graph =
     \<lparr>ag_digest = ''sha256:0'', ag_facts = [demo_fact ''entry'', demo_fact ''host'', demo_fact ''root''],
      ag_transitions = [demo_step ''pivot'' [''entry''] [''host''], demo_step ''privilege'' [''host''] [''root'']],
      ag_bindings = [demo_binding ''b1'' STATE_FACT ''entry'', demo_binding ''b2'' STATE_FACT ''host'',
        demo_binding ''b3'' STATE_FACT ''root'', demo_binding ''b4'' TRANSITION ''pivot'',
        demo_binding ''b5'' TRANSITION ''privilege'']\<rparr>"

definition demo_query :: "string list \<Rightarrow> int \<Rightarrow> path_query" where
  "demo_query goal depth = \<lparr>pq_id = ''q'', pq_start = [''entry''], pq_goal = goal,
     pq_semantics = [supported_semantics], pq_depth = depth\<rparr>"

definition demo_request :: "string list \<Rightarrow> int \<Rightarrow> path_request" where
  "demo_request goal depth =
     \<lparr>pr_snapshot = PyDict [(''nodes'', PyDict [])], pr_digest = ''sha256:0'', pr_graph = demo_graph,
      pr_query = demo_query goal depth\<rparr>"

text \<open>A digest that is the text of the state itself, and one choice of a longest state.\<close>

definition demo_digest :: "facts \<Rightarrow> string" where
  "demo_digest s = join_comma s"

definition first_longest :: "facts list \<Rightarrow> facts" where
  "first_longest xs = (case filter (\<lambda>x. list_all (\<lambda>y. length y \<le> length x) xs) xs of [] \<Rightarrow> [] | x # _ \<Rightarrow> x)"

definition last_longest :: "facts list \<Rightarrow> facts" where
  "last_longest xs = first_longest (rev xs)"

lemma first_longest_in:
  assumes "xs \<noteq> []"
  shows "first_longest xs \<in> set xs \<and> (\<forall>y \<in> set xs. length y \<le> length (first_longest xs))"
proof -
  let ?m = "Max (length ` set xs)"
  have "?m \<in> length ` set xs" using assms by (intro Max_in) auto
  then obtain x where "x \<in> set xs" "length x = ?m" by auto
  then have "x \<in> set (filter (\<lambda>x. list_all (\<lambda>y. length y \<le> length x) xs) xs)"
    by (simp add: list_all_iff)
  then obtain z zs where z: "filter (\<lambda>x. list_all (\<lambda>y. length y \<le> length x) xs) xs = z # zs"
    by (cases "filter (\<lambda>x. list_all (\<lambda>y. length y \<le> length x) xs) xs") auto
  then have "z \<in> set (filter (\<lambda>x. list_all (\<lambda>y. length y \<le> length x) xs) xs)" by simp
  then have "z \<in> set xs \<and> (\<forall>y \<in> set xs. length y \<le> length z)" unfolding set_filter by (simp add: list_all_iff)
  with z show ?thesis by (simp add: first_longest_def)
qed

section \<open>Properties\<close>

text \<open>
  C13. When the search answers with a valid path, the witness replays: every step is an allowed
  transition whose prerequisites hold and whose new facts are the ones it lists, the last state
  has the goal, the path respects the depth bound, and no attack reaches the goal in fewer steps.
\<close>

theorem valid_path_is_shortest:
  assumes run: "search longest dg r = Inr res" and valid: "sr_outcome res = VALID_PATH"
    and depth: "0 \<le> pq_depth (pr_query r)"
  shows "\<exists>w. sr_witness res = Some w \<and>
    replays dg (allowed_transitions r) 0 (pw_initial w) (pw_steps w) (pw_final w) \<and>
    set (pw_initial w) = set (pq_start (pr_query r)) \<and> set (pq_goal (pr_query r)) \<subseteq> set (pw_final w) \<and>
    int (length (pw_steps w)) \<le> pq_depth (pr_query r) \<and>
    (\<forall>n. goal_within r n \<longrightarrow> length (pw_steps w) \<le> n)"
  using run depth
proof (cases rule: search_cases)
  case found
  with valid obtain steps s where s: "replays dg (allowed_transitions r) 0 (fact_set (pq_start (pr_query r))) steps s"
    "set (pq_goal (pr_query r)) \<subseteq> set s" "int (length steps) \<le> pq_depth (pr_query r)"
    "valid_search_result dg (pr_query r) (fact_set (pq_start (pr_query r))) steps s = Inr res"
    "\<forall>n S. attack_path (allowed_transitions r) (set (pq_start (pr_query r))) n S \<longrightarrow>
       set (pq_goal (pr_query r)) \<subseteq> S \<longrightarrow> length steps \<le> n"
    by (auto simp: found_def)
  moreover from s(5) have "\<forall>n. goal_within r n \<longrightarrow> length steps \<le> n"
    unfolding goal_within_def by (meson le_trans)
  ultimately show ?thesis using valid_result_fields [OF s(4)] by auto
next
  case none
  with valid invalid_result_fields [OF none(3)] show ?thesis by simp
qed

theorem valid_path_is_shortest_witness:
  "\<exists>w :: path_witness. replays demo_digest (allowed_transitions (demo_request [''root''] 4)) 0 (pw_initial w) (pw_steps w) (pw_final w) \<and>
     length (pw_steps w) = 2"
proof -
  let ?run = "search first_longest demo_digest (demo_request [''root''] 4)"
  have run: "case ?run of Inl e \<Rightarrow> False
      | Inr res \<Rightarrow> sr_outcome res = VALID_PATH \<and> map_option (\<lambda>w. length (pw_steps w)) (sr_witness res) = Some 2"
    by code_simp
  then obtain res where res: "?run = Inr res" "sr_outcome res = VALID_PATH"
    "map_option (\<lambda>w. length (pw_steps w)) (sr_witness res) = Some 2" by (cases ?run) auto
  have "0 \<le> pq_depth (pr_query (demo_request [''root''] 4))" by (simp add: demo_request_def demo_query_def)
  from valid_path_is_shortest [OF res(1,2) this] obtain w where w: "sr_witness res = Some w"
    "replays demo_digest (allowed_transitions (demo_request [''root''] 4)) 0 (pw_initial w) (pw_steps w) (pw_final w)"
    by blast
  with res(3) have "length (pw_steps w) = 2" by simp
  with w(2) show ?thesis by blast
qed

text \<open>
  C14. When the search answers that there is no valid path, no sequence of allowed transitions
  within the depth bound reaches the goal from the start; and when it did not stop at the depth
  bound either, no sequence of any length does.
\<close>

theorem invalid_path_is_exhaustive:
  assumes run: "search longest dg r = Inr res" and invalid: "sr_outcome res = INVALID_PATH"
    and depth: "0 \<le> pq_depth (pr_query r)"
  shows "\<not> goal_within r (nat (pq_depth (pr_query r))) \<and>
    (\<exists>e. sr_failure res = Some e \<and> (ie_exhausted e \<or> (\<forall>n. \<not> goal_within r n)))"
  using run depth
proof (cases rule: search_cases)
  case found
  then show ?thesis using invalid valid_result_fields by (fastforce simp: found_def)
next
  case (none lev acc)
  have clear: "\<forall>s \<in> set (ac_visited acc). \<not> set (sc_goal (search_context_of r)) \<subseteq> set s"
    using none(1) by (simp add: states_ok_def)
  have "\<not> goal_within r (nat (pq_depth (pr_query r)))"
  proof
    assume "goal_within r (nat (pq_depth (pr_query r)))"
    then obtain m S where path: "attack_path (sc_transitions (search_context_of r)) (set (sc_initial (search_context_of r))) m S"
      "m \<le> nat (pq_depth (pr_query r))" "set (sc_goal (search_context_of r)) \<subseteq> S"
      unfolding goal_within_path by blast
    then have "int m \<le> pq_depth (sc_query (search_context_of r))" using depth by simp
    from expanded_reaches [OF path(1) none(1,2) this] clear path(3) show False by auto
  qed
  moreover have "\<not> goal_within r n" if "\<not> ac_exhausted acc" for n
    using exhaustive_reaches [OF _ none(1,2) that] clear unfolding goal_within_path by blast
  ultimately show ?thesis using invalid_result_fields [OF none(3)] by auto
qed

theorem invalid_path_is_exhaustive_witness:
  "\<not> goal_within (demo_request [''root''] 1) 1"
proof -
  let ?run = "search first_longest demo_digest (demo_request [''root''] 1)"
  have run: "case ?run of Inl e \<Rightarrow> False | Inr res \<Rightarrow> sr_outcome res = INVALID_PATH" by code_simp
  then obtain res where res: "?run = Inr res" "sr_outcome res = INVALID_PATH" by (cases ?run) auto
  have depth: "pq_depth (pr_query (demo_request [''root''] 1)) = 1" by (simp add: demo_request_def demo_query_def)
  have "0 \<le> pq_depth (pr_query (demo_request [''root''] 1))" by (simp add: depth)
  from invalid_path_is_exhaustive [OF res this] show ?thesis by (simp add: depth)
qed

section \<open>The analysis\<close>

lemma dedupe_Nil: "dedupe_diagnostics ds = [] \<longleftrightarrow> ds = []"
  unfolding dedupe_diagnostics_def by (metis length_0_conv length_sort remdups_eq_nil_iff)

lemma bounded_fail_closed_Nil: "bounded_fail_closed_diagnostics ds = [] \<longleftrightarrow> ds = []"
  by (simp add: bounded_fail_closed_diagnostics_def Let_def dedupe_Nil) (auto simp: dedupe_diagnostics_def max_diagnostics_def)

lemma bounded_fail_closed_length: "length (bounded_fail_closed_diagnostics ds) \<le> max_diagnostics"
  by (simp add: bounded_fail_closed_diagnostics_def Let_def max_diagnostics_def)

lemma preflight_facts:
  assumes "bounded_fail_closed_diagnostics (filter (\<lambda>d. snd d \<in> set fail_closed_codes) (preflight_diagnostics r)) = []"
  shows "set (pq_start (pr_query r)) \<union> set (pq_goal (pr_query r)) \<subseteq> set (map af_id (ag_facts (pr_graph r)))"
proof
  fix f
  assume f: "f \<in> set (pq_start (pr_query r)) \<union> set (pq_goal (pr_query r))"
  show "f \<in> set (map af_id (ag_facts (pr_graph r)))"
  proof (rule ccontr)
    assume "f \<notin> set (map af_id (ag_facts (pr_graph r)))"
    with f have "(''/query/facts/'' @ pointer f, query_dangling) \<in> set (query_fact_diagnostics (pr_query r) (map af_id (ag_facts (pr_graph r))))"
      by (auto simp: query_fact_diagnostics_def)
    then have "(''/query/facts/'' @ pointer f, query_dangling) \<in> set (preflight_diagnostics r)"
      by (simp add: preflight_diagnostics_def dedupe_diagnostics_def)
    moreover have "query_dangling \<in> set fail_closed_codes" by (simp add: fail_closed_codes_def)
    ultimately show False using assms by (auto simp: bounded_fail_closed_Nil filter_empty_conv)
  qed
qed

lemma request_ctx_ok:
  assumes "check_request sd r = Inr ()"
    and facts: "set (pq_start (pr_query r)) \<union> set (pq_goal (pr_query r)) \<subseteq> set (map af_id (ag_facts (pr_graph r)))"
  shows "ctx_ok (set (map af_id (ag_facts (pr_graph r)))) (search_context_of r)"
proof -
  let ?ids = "map af_id (ag_facts (pr_graph r))"
  from assms(1) have g: "check_graph (pr_graph r) = Inr ()" and q: "check_query (pr_query r) = Inr ()"
    by (auto simp: check_request_def res_bind_Inr_iff)
  from g have "length ?ids \<le> 512" "list_all exploit_id ?ids"
    by (auto simp: check_graph_def res_bind_Inr_iff)
  moreover have "card (set ?ids) \<le> length ?ids" by (rule card_length)
  moreover have "check_transition t = Inr () \<and> set (tr_prerequisites t) \<subseteq> set ?ids \<and> set (tr_effects t) \<subseteq> set ?ids"
    if "t \<in> set (ag_transitions (pr_graph r))" for t
    using g that by (auto simp: check_graph_def res_bind_Inr_iff res_all_Inr)
  ultimately show ?thesis using q facts
    by (auto simp: ctx_ok_def list_all_iff allowed_transitions_def simp del: set_map)
qed

lemma invalid_result_runs:
  assumes ctx: "ctx_ok F ctx" and acc: "carries F acc" and states: "states_ok ctx lev acc"
    and cap: "length (ac_blocked acc) + length (ac_impossible acc) + 1 \<le> max_diagnostics"
    and pick: "longest (ac_visited acc) \<in> set (ac_visited acc)" and goal: "canonical_ids (sc_goal ctx)" "length (sc_goal ctx) \<le> 64"
  shows "\<exists>res. invalid_search_result longest (sc_goal ctx) acc = Inr res \<and> make_evidence res = Inr res"
proof -
  let ?u = "unsatisfied_goal longest (sc_goal ctx) (ac_visited acc)"
  have "\<not> set (sc_goal ctx) \<subseteq> set (longest (ac_visited acc))"
    using states pick by (simp add: states_ok_def)
  then have "?u \<noteq> []" by (simp add: unsatisfied_goal_def Let_def)
  moreover have "canonical_ids ?u \<and> length ?u \<le> 64"
    using minus_facts_ids [OF goal] by (simp add: unsatisfied_goal_def Let_def)
  moreover have "1 \<le> length (ac_visited acc)" using acc by (cases "ac_visited acc") (simp_all add: carries_def)
  moreover have "canonical_ids (sort (ac_impossible acc))" using acc by (simp add: carries_def canonical_ids_def list_all_iff)
  ultimately obtain e where e: "invalid_search_result longest (sc_goal ctx) acc =
      Inr \<lparr>sr_outcome = INVALID_PATH, sr_witness = None, sr_failure = Some e, sr_unsupported = None,
            sr_diagnostics = dedupe_diagnostics (invalid_path_diagnostics acc)\<rparr>"
    using acc by (simp add: invalid_search_result_def make_invalid_Inr [THEN iffD2] carries_def dict_values_def)
  have "length (dedupe_diagnostics (invalid_path_diagnostics acc)) \<le> length (invalid_path_diagnostics acc)"
    by (simp add: dedupe_diagnostics_def length_remdups_leq)
  also have "\<dots> \<le> max_diagnostics" using cap by (simp add: invalid_path_diagnostics_def dict_values_def)
  finally show ?thesis
    using e by (simp add: make_evidence_def check_outcome_payload_def check_unsupported_reasons_def)
qed

lemma search_runs:
  assumes ctx: "ctx_ok F (search_context_of r)" and pick: "\<And>xs. xs \<noteq> [] \<Longrightarrow> longest xs \<in> set xs"
  shows "\<exists>res. search longest dg r = Inr res \<and> make_evidence res = Inr res"
proof (cases "contains (sc_goal (search_context_of r)) (sc_initial (search_context_of r))")
  case True
  let ?ctx = "search_context_of r"
  have "fact_set (sc_initial ?ctx) = sc_initial ?ctx" "set (sc_initial ?ctx) \<subseteq> F" "set (sc_goal ?ctx) \<subseteq> set (sc_initial ?ctx)"
    using ctx True by (simp_all add: ctx_ok_def)
  from valid_result_runs [OF ctx this, of "[]" dg] True show ?thesis by (simp add: search_def Let_def)
next
  case False
  let ?ctx = "search_context_of r"
  let ?start = "initial_accumulator (sc_initial ?ctx)"
  obtain result acc where run: "run_bounded_search dg ?ctx ?start = Inr (result, acc)" and acc: "carries F acc"
    and some: "\<forall>x. result = Some x \<longrightarrow> make_evidence x = Inr x"
    and cap: "result = None \<longrightarrow> length (ac_blocked acc) + length (ac_impossible acc) + 1 \<le> max_diagnostics"
    using run_bounded_search_runs [OF ctx initial_carries [OF ctx], of dg] by blast
  have q: "check_query (pr_query r) = Inr ()" using ctx by (simp add: ctx_ok_def)
  then have "loop_ok dg ?ctx (\<lambda>s. 0) 0 ?start"
    using False by (intro initial_loop_ok) (auto simp: check_query_def res_bind_Inr_iff)
  from run_bounded_search_found [OF run this] obtain lev where states: "result = None \<longrightarrow> states_ok ?ctx lev acc"
    by (cases result) auto
  have goal: "canonical_ids (sc_goal ?ctx)" "length (sc_goal ?ctx) \<le> 64"
    using q by (auto simp: search_context_of_def check_query_def res_bind_Inr_iff canonical_ids_def fact_set_same)
  have "search longest dg r = (case result of Some x \<Rightarrow> Inr x | None \<Rightarrow> invalid_search_result longest (sc_goal ?ctx) acc)"
    using False run by (simp add: search_def Let_def del: search_context_simps contains_iff)
  then show ?thesis
    using some cap states pick [of "ac_visited acc"] acc invalid_result_runs [OF ctx acc _ _ _ goal]
    by (cases result) (auto simp: carries_def simp del: search_context_simps)
qed

text \<open>
  On a request its contracts admit the analysis always returns evidence, whatever the outcome:
  no bound of the evidence models is ever exceeded and no constructor refuses what the preflight
  or the search built.
\<close>

lemma analysis_returns_evidence:
  assumes "check_request sd r = Inr ()" and "\<And>xs. xs \<noteq> [] \<Longrightarrow> longest xs \<in> set xs"
  shows "\<exists>res. analyze_exploit_path_input longest dg r = Inr res \<and> make_evidence res = Inr res"
proof -
  let ?fc = "bounded_fail_closed_diagnostics (filter (\<lambda>d. snd d \<in> set fail_closed_codes) (preflight_diagnostics r))"
  show ?thesis
  proof (cases "?fc = []")
    case True
    from search_runs [OF request_ctx_ok [OF assms(1) preflight_facts [OF True]] assms(2), of dg] True
    show ?thesis by (auto simp: analyze_exploit_path_input_def)
  next
    case False
    have "length (sort (remdups (map snd ?fc))) \<le> length ?fc"
      by (metis length_map length_remdups_leq length_sort)
    also have "\<dots> \<le> 64" using bounded_fail_closed_length by (simp add: max_diagnostics_def)
    finally have "length (sort (remdups (map snd ?fc))) \<le> 64" .
    moreover have "set (sort (remdups (map snd ?fc))) \<noteq> {}" using False by simp
    then have "sort (remdups (map snd ?fc)) \<noteq> []" by (simp only: set_empty) simp
    ultimately have "make_unsupported (sort (remdups (map snd ?fc))) = Inr (sort (remdups (map snd ?fc)))"
      by (simp add: make_unsupported_Inr)
    moreover have "sort (remdups (map snd (sort ?fc))) = sort (remdups (map snd ?fc))"
      by (intro sorted_distinct_set_unique) simp_all
    ultimately show ?thesis using False bounded_fail_closed_length
      by (simp add: analyze_exploit_path_input_def Let_def make_evidence_def check_outcome_payload_def
          check_unsupported_reasons_def)
  qed
qed

lemma demo_admitted: "check_request (\<lambda>v. ''sha256:0'') (demo_request goal depth) = Inr () \<longleftrightarrow>
    check_query (demo_query goal depth) = Inr ()"
proof -
  have "check_graph demo_graph = Inr ()" by code_simp
  then show ?thesis by (auto simp: check_request_def demo_request_def res_bind_Inr_iff demo_graph_def)
qed

lemma analysis_returns_evidence_witness:
  "\<exists>res. analyze_exploit_path_input first_longest demo_digest (demo_request [''root''] 4) = Inr res \<and> make_evidence res = Inr res"
proof -
  have "check_query (demo_query [''root''] 4) = Inr ()" by code_simp
  then have "check_request (\<lambda>v. ''sha256:0'') (demo_request [''root''] 4) = Inr ()" by (simp add: demo_admitted)
  from analysis_returns_evidence [OF this] first_longest_in show ?thesis by blast
qed

section \<open>Evidence that depends on iteration order\<close>

definition demo_fork :: path_request where
  "demo_fork = demo_request [''host'', ''root''] 1
     \<lparr>pr_graph := demo_graph\<lparr>ag_transitions := [demo_step ''pivot'' [''entry''] [''host''], demo_step ''privilege'' [''entry''] [''root'']]\<rparr>\<rparr>"

text \<open>
  The unsatisfied part of the goal in the evidence of an invalid path is taken from one of the
  largest visited states, whichever the iteration over the set of them yields first: the same
  admitted request has different evidence under two orders, so replaying it need not reproduce it.
\<close>

lemma invalid_evidence_depends_on_order:
  "check_request (\<lambda>v. ''sha256:0'') demo_fork = Inr () \<and>
   analyze_exploit_path_input first_longest demo_digest demo_fork \<noteq>
     analyze_exploit_path_input last_longest demo_digest demo_fork"
proof
  show "check_request (\<lambda>v. ''sha256:0'') demo_fork = Inr ()" by code_simp
  let ?u = "\<lambda>out. case out of Inl e \<Rightarrow> None | Inr res \<Rightarrow> map_option ie_unsatisfied (sr_failure res)"
  have "?u (analyze_exploit_path_input first_longest demo_digest demo_fork) = Some [''root'']" by code_simp
  moreover have "?u (analyze_exploit_path_input last_longest demo_digest demo_fork) = Some [''host'']" by code_simp
  ultimately show "analyze_exploit_path_input first_longest demo_digest demo_fork \<noteq>
      analyze_exploit_path_input last_longest demo_digest demo_fork" by auto
qed

end
