(* ===== verification/Op_Lifecycle.thy ===== *)
theory Op_Lifecycle
  imports Plan_Contracts Py_Text
begin

text \<open>
  Control-plane operations: the closed lifecycle of \<open>raes_contracts/operation_lifecycle.py\<close>, and
  the receipt and status of \<open>raes_contracts/runtime_state.py\<close> with the checks and the
  normalisation their constructors do. Values the code compares with \<open>==\<close> are represented so
  that equality in HOL is that comparison; dictionaries that are only compared are maps.
\<close>

section \<open>States and kinds\<close>

datatype operation_state =
    OP_ACCEPTED | OP_RUNNING | OP_SUCCEEDED | OP_FAILED | OP_CANCELLED | OP_INDETERMINATE

fun operation_state_text :: "operation_state \<Rightarrow> string" where
  "operation_state_text OP_ACCEPTED = ''accepted''"
| "operation_state_text OP_RUNNING = ''running''"
| "operation_state_text OP_SUCCEEDED = ''succeeded''"
| "operation_state_text OP_FAILED = ''failed''"
| "operation_state_text OP_CANCELLED = ''cancelled''"
| "operation_state_text OP_INDETERMINATE = ''indeterminate''"

datatype operation_kind =
    KIND_PROVISIONING | KIND_ORCHESTRATION | KIND_EVALUATION | WORKFLOW_CANCELLATION
  | WORKFLOW_TIMEOUT_RECONCILIATION | PARTICIPANT_ACTION | PARTICIPANT_CONTROL | PARTICIPANT_CROSSING

fun operation_kind_text :: "operation_kind \<Rightarrow> string" where
  "operation_kind_text KIND_PROVISIONING = ''provisioning''"
| "operation_kind_text KIND_ORCHESTRATION = ''orchestration''"
| "operation_kind_text KIND_EVALUATION = ''evaluation''"
| "operation_kind_text WORKFLOW_CANCELLATION = ''workflow-cancellation''"
| "operation_kind_text WORKFLOW_TIMEOUT_RECONCILIATION = ''workflow-timeout-reconciliation''"
| "operation_kind_text PARTICIPANT_ACTION = ''participant-action''"
| "operation_kind_text PARTICIPANT_CONTROL = ''participant-control''"
| "operation_kind_text PARTICIPANT_CROSSING = ''participant-crossing''"

section \<open>The admission context\<close>

record admission_context =
  oc_actor :: string
  oc_scope :: "string list"
  oc_target :: string
  oc_run :: string
  oc_kind :: operation_kind
  oc_commitment :: string
  oc_parent :: "string option"

definition context_string :: "string \<Rightarrow> bool" where
  "context_string s \<longleftrightarrow> 1 \<le> length s \<and> length s \<le> 256"

definition make_admission_context :: "admission_context \<Rightarrow> admission_context res" where
  "make_admission_context c =
     res_bind (require_that (context_string (oc_actor c) \<and> list_all context_string (oc_scope c) \<and>
         1 \<le> length (oc_scope c) \<and> length (oc_scope c) \<le> 64 \<and> context_string (oc_target c) \<and>
         context_string (oc_run c) \<and> is_sha256_digest (oc_commitment c) \<and>
         (case oc_parent c of None \<Rightarrow> True | Some p \<Rightarrow> context_string p)) (ValidationError ''context'')) (\<lambda>_.
     res_bind (require_that (distinct (oc_scope c))
         (ValidationError ''authorization scope entries must be unique'')) (\<lambda>_. Inr c))"

section \<open>Transitions\<close>

definition legal_operation_transitions :: "(operation_state \<times> operation_state) list" where
  "legal_operation_transitions =
     [(OP_ACCEPTED, OP_RUNNING), (OP_ACCEPTED, OP_CANCELLED), (OP_RUNNING, OP_SUCCEEDED),
      (OP_RUNNING, OP_FAILED), (OP_RUNNING, OP_CANCELLED), (OP_RUNNING, OP_INDETERMINATE)]"

definition is_operation_transition_allowed :: "operation_state \<Rightarrow> operation_state \<Rightarrow> bool" where
  "is_operation_transition_allowed source target \<longleftrightarrow> (source, target) \<in> set legal_operation_transitions"

definition terminal_state :: "operation_state \<Rightarrow> bool" where
  "terminal_state s \<longleftrightarrow> s \<noteq> OP_ACCEPTED \<and> s \<noteq> OP_RUNNING"

lemma transition_allowed_simps [simp]:
  "is_operation_transition_allowed OP_ACCEPTED t \<longleftrightarrow> t = OP_RUNNING \<or> t = OP_CANCELLED"
  "is_operation_transition_allowed OP_RUNNING t \<longleftrightarrow> terminal_state t"
  "terminal_state s \<Longrightarrow> \<not> is_operation_transition_allowed s t"
  "\<not> is_operation_transition_allowed s s"
  by (cases t; simp add: is_operation_transition_allowed_def legal_operation_transitions_def terminal_state_def)
    (cases s; cases t; auto simp: is_operation_transition_allowed_def legal_operation_transitions_def terminal_state_def)+

section \<open>Diagnostics\<close>

datatype severity = SEVERITY_ERROR | SEVERITY_WARNING | SEVERITY_INFO

record diagnostic =
  dg_code :: string
  dg_domain :: string
  dg_address :: string
  dg_message :: string
  dg_severity :: severity

text \<open>The grammars of \<open>DiagnosticModel\<close>: words of lower-case letters and digits between separators.\<close>

fun separated_words :: "char list \<Rightarrow> bool \<Rightarrow> string \<Rightarrow> bool" where
  "separated_words seps inside [] = inside"
| "separated_words seps inside (c # cs) =
     (if c \<in> set ''abcdefghijklmnopqrstuvwxyz0123456789'' then separated_words seps True cs
      else c \<in> set seps \<and> inside \<and> separated_words seps False cs)"

definition diagnostic_model_ok :: "diagnostic \<Rightarrow> bool" where
  "diagnostic_model_ok d \<longleftrightarrow>
     separated_words ''.-'' False (dg_code d) \<and> length (dg_code d) \<le> 128 \<and>
     separated_words ''-'' False (dg_domain d) \<and> length (dg_domain d) \<le> 64 \<and>
     (dg_address d = [] \<or> hd (dg_address d) = CHR ''/'' \<and> pointer_chars (dg_address d)) \<and>
     length (dg_address d) \<le> 4096 \<and> 1 \<le> length (dg_message d) \<and> length (dg_message d) \<le> 512"

definition escape_pointer :: "string \<Rightarrow> string" where
  "escape_pointer s = concat (map (\<lambda>c. if c = CHR ''~'' then ''~0'' else if c = CHR ''/'' then ''~1'' else [c]) s)"

definition portable_diagnostic :: "diagnostic \<Rightarrow> diagnostic res" where
  "portable_diagnostic d =
     (if diagnostic_model_ok d then Inr d
      else let e = d\<lparr>dg_address := (if dg_address d = [] then [] else CHR ''/'' # escape_pointer (dg_address d))\<rparr> in
        if diagnostic_model_ok e then Inr e else Inl (ValidationError ''diagnostic''))"

definition operation_terminal_diagnostic :: "operation_state \<Rightarrow> diagnostic res" where
  "operation_terminal_diagnostic s =
     (let make = (\<lambda>code message. Inr \<lparr>dg_code = code, dg_domain = ''runtime'', dg_address = ''/state'',
            dg_message = message, dg_severity = SEVERITY_ERROR\<rparr>) in
      case s of
        OP_FAILED \<Rightarrow> make ''runtime.control-plane.operation-failed'' ''Operation completed with a known failure.''
      | OP_CANCELLED \<Rightarrow> make ''runtime.control-plane.operation-cancelled''
          ''Operation was cancelled without an unclassified backend effect.''
      | OP_INDETERMINATE \<Rightarrow> make ''runtime.control-plane.operation-indeterminate''
          ''Operation outcome could not be established; explicit resolution is required.''
      | _ \<Rightarrow> Inl (ValueError ''terminal diagnostic requires failed, cancelled, or indeterminate state''))"

definition reserved_state :: "string \<Rightarrow> operation_state option" where
  "reserved_state code = List.find (\<lambda>s. case operation_terminal_diagnostic s of Inl e \<Rightarrow> False | Inr d \<Rightarrow> dg_code d = code)
     [OP_FAILED, OP_CANCELLED, OP_INDETERMINATE]"

definition require_operation_terminal_diagnostics ::
  "operation_state \<Rightarrow> diagnostic list \<Rightarrow> diagnostic list res" where
  "require_operation_terminal_diagnostics s ds =
     res_bind (res_all (\<lambda>d. case reserved_state (dg_code d) of
         None \<Rightarrow> Inr ()
       | Some r \<Rightarrow> require_that (r = s \<and> operation_terminal_diagnostic r = Inr d)
           (ValueError ''operation terminal diagnostic is not canonical for its state'')) ds) (\<lambda>_.
     case operation_terminal_diagnostic s of
       Inl e \<Rightarrow> Inr ds
     | Inr canon \<Rightarrow> res_bind (require_that (count_list ds canon = 1)
         (ValueError ''non-success terminal status requires one canonical state diagnostic'')) (\<lambda>_. Inr ds))"

definition operation_terminal_diagnostics :: "operation_state \<Rightarrow> diagnostic list \<Rightarrow> diagnostic list res" where
  "operation_terminal_diagnostics s ds =
     (if s = OP_SUCCEEDED then require_operation_terminal_diagnostics s ds
      else res_bind (operation_terminal_diagnostic s) (\<lambda>canon.
        require_operation_terminal_diagnostics s (if canon \<in> set ds then ds else ds @ [canon])))"

section \<open>Receipts and statuses\<close>

definition operation_schema_version :: string where
  "operation_schema_version = ''runtime-operation/v1''"

record operation_receipt =
  or_operation :: string
  or_domain :: runtime_domain
  or_submitted :: string
  or_accepted :: bool
  or_context :: admission_context
  or_schema :: string
  or_diagnostics :: "diagnostic list"

definition make_receipt :: "operation_receipt \<Rightarrow> operation_receipt res" where
  "make_receipt r = res_bind (res_map portable_diagnostic (or_diagnostics r)) (\<lambda>ds. Inr (r\<lparr>or_diagnostics := ds\<rparr>))"

record operation_status =
  os_operation :: string
  os_domain :: runtime_domain
  os_state :: operation_state
  os_submitted :: string
  os_updated :: string
  os_context :: admission_context
  os_schema :: string
  os_diagnostics :: "diagnostic list"
  os_changed :: "string list"

definition validate_changed_addresses :: "string list \<Rightarrow> unit res" where
  "validate_changed_addresses as =
     res_bind (res_all (\<lambda>a. res_bind (require_compiled_address ''changed address'' a) (\<lambda>_. Inr ())) as) (\<lambda>_.
       require_that (distinct as) (ValueError ''changed addresses must be unique''))"

definition make_status :: "operation_status \<Rightarrow> operation_status res" where
  "make_status s =
     res_bind (res_map portable_diagnostic (os_diagnostics s)) (\<lambda>portable.
     res_bind (if terminal_state (os_state s) then operation_terminal_diagnostics (os_state s) portable
               else require_operation_terminal_diagnostics (os_state s) portable) (\<lambda>ds.
     res_bind (validate_changed_addresses (os_changed s)) (\<lambda>_. Inr (s\<lparr>os_diagnostics := ds\<rparr>))))"

section \<open>What a status carries\<close>

lemma reserved_state_Some:
  "reserved_state code = Some s \<longleftrightarrow> (\<exists>d. operation_terminal_diagnostic s = Inr d \<and> dg_code d = code)"
  by (cases s) (auto simp: reserved_state_def operation_terminal_diagnostic_def Let_def)

lemma require_terminal_Inr:
  "require_operation_terminal_diagnostics s ds = Inr es \<longleftrightarrow> es = ds \<and>
     (\<forall>d \<in> set ds. \<forall>r. reserved_state (dg_code d) = Some r \<longrightarrow> r = s \<and> operation_terminal_diagnostic r = Inr d) \<and>
     (\<forall>canon. operation_terminal_diagnostic s = Inr canon \<longrightarrow> count_list ds canon = 1)"
  unfolding require_operation_terminal_diagnostics_def
  by (cases "operation_terminal_diagnostic s") (auto simp: res_bind_Inr_iff res_all_Inr split: option.splits)

text \<open>
  The terminal diagnostics of a status that was constructed: exactly one, the canonical one of
  its state, when the state is a failure, a cancellation or indeterminate; none otherwise.
\<close>

definition classified :: "operation_status \<Rightarrow> bool" where
  "classified s \<longleftrightarrow>
     filter (\<lambda>d. reserved_state (dg_code d) \<noteq> None) (os_diagnostics s) =
       (case operation_terminal_diagnostic (os_state s) of Inl e \<Rightarrow> [] | Inr canon \<Rightarrow> [canon])"

lemma count_list_filter_one:
  assumes "\<And>d. d \<in> set ds \<Longrightarrow> P d \<Longrightarrow> d = x" and "P x" and "count_list ds x = 1"
  shows "filter P ds = [x]"
  using assms
proof (induction ds)
  case Nil
  then show ?case by simp
next
  case (Cons d ds)
  show ?case
  proof (cases "d = x")
    case True
    with Cons.prems have "count_list ds x = 0" by simp
    then have "x \<notin> set ds" by (simp add: count_list_0_iff)
    with Cons.prems(1) have "filter P ds = []" by (auto simp: filter_empty_conv)
    with True Cons.prems(2) show ?thesis by simp
  next
    case False
    then have "\<not> P d" using Cons.prems(1) by auto
    moreover have "count_list ds x = 1" using Cons.prems(3) False by simp
    then have "filter P ds = [x]" using Cons.IH Cons.prems(1,2) by simp
    ultimately show ?thesis by simp
  qed
qed

lemma require_terminal_classified:
  assumes "require_operation_terminal_diagnostics (os_state s) ds = Inr es"
  shows "classified (s\<lparr>os_diagnostics := es\<rparr>)"
proof (cases "operation_terminal_diagnostic (os_state s)")
  case (Inl e)
  from assms have es: "es = ds" and reserved: "\<And>d r. d \<in> set ds \<Longrightarrow> reserved_state (dg_code d) = Some r \<Longrightarrow>
      r = os_state s \<and> operation_terminal_diagnostic r = Inr d"
    unfolding require_terminal_Inr by blast+
  have "reserved_state (dg_code d) = None" if "d \<in> set ds" for d
    using reserved [OF that] Inl by (cases "reserved_state (dg_code d)") auto
  with es Inl show ?thesis by (simp add: classified_def filter_empty_conv)
next
  case (Inr canon)
  have "filter (\<lambda>d. reserved_state (dg_code d) \<noteq> None) ds = [canon]"
  proof (rule count_list_filter_one)
    show "count_list ds canon = 1" using assms Inr unfolding require_terminal_Inr by blast
    show "reserved_state (dg_code canon) \<noteq> None" using Inr reserved_state_Some by blast
  next
    fix d
    assume "d \<in> set ds" "reserved_state (dg_code d) \<noteq> None"
    then show "d = canon" using assms Inr unfolding require_terminal_Inr by fastforce
  qed
  with assms Inr show ?thesis by (simp add: classified_def require_terminal_Inr)
qed

lemma make_status_classified:
  assumes "make_status s = Inr t"
  shows "classified t \<and> os_state t = os_state s"
proof -
  from assms obtain portable ds where "t = s\<lparr>os_diagnostics := ds\<rparr>"
    and "(if terminal_state (os_state s) then operation_terminal_diagnostics (os_state s) portable
          else require_operation_terminal_diagnostics (os_state s) portable) = Inr ds"
    unfolding make_status_def by (auto elim!: res_bind_InrE)
  then show ?thesis
    using require_terminal_classified by (auto simp: operation_terminal_diagnostics_def res_bind_Inr_iff split: if_splits)
qed

end
