(* ===== verification/Store_Ops.thy ===== *)
theory Store_Ops
  imports Op_Lifecycle
begin

text \<open>
  The in-memory control-plane store: \<open>raes_runtime/control_plane_store.py\<close> with its record
  checks, \<open>control_plane_store_revision.py\<close>, \<open>control_plane_store_history.py\<close> and
  \<open>control_plane_store_memory.py\<close>. A method takes the store and returns its outcome with the
  store it leaves; the lock makes every method one step. The check of autonomous participant
  state (\<open>admit\<close>) and the digest of a history event without identifier (\<open>event_digest\<close>) are
  parameters.
\<close>

section \<open>Records and audit events\<close>

type_synonym heads = "string \<rightharpoonup> string option"

record 'p operation_record =
  rc_receipt :: operation_receipt
  rc_status :: operation_status
  rc_fingerprint :: string
  rc_key :: string
  rc_result :: "'p option"
  rc_decision_heads :: heads
  rc_result_heads :: heads

record audit_event =
  ae_timestamp :: string
  ae_action :: string
  ae_identity :: string
  ae_allowed :: bool
  ae_target :: string
  ae_operation :: string
  ae_reason :: string
  ae_details :: "string \<rightharpoonup> string"

definition require_operation_record_identity :: "'p operation_record \<Rightarrow> unit res" where
  "require_operation_record_identity r =
     res_bind (require_that (or_operation (rc_receipt r) = os_operation (rc_status r))
         (ValueError ''operation receipt and status identities do not match'')) (\<lambda>_.
     res_bind (require_that (or_domain (rc_receipt r) = os_domain (rc_status r))
         (ValueError ''operation receipt and status domains do not match'')) (\<lambda>_.
     res_bind (require_that (or_submitted (rc_receipt r) = os_submitted (rc_status r))
         (ValueError ''operation receipt and status submission times do not match'')) (\<lambda>_.
     res_bind (require_that (or_context (rc_receipt r) = os_context (rc_status r))
         (ValueError ''operation receipt and status contexts do not match'')) (\<lambda>_.
       require_that (or_accepted (rc_receipt r))
         (ValueError ''denied operation receipts cannot be persisted'')))))"

definition identity_members :: "'p operation_record \<Rightarrow> string \<times> string \<times> runtime_domain \<times> string \<times> admission_context \<times> string \<times> string" where
  "identity_members r =
     (os_schema (rc_status r), os_operation (rc_status r), os_domain (rc_status r), os_submitted (rc_status r),
      os_context (rc_status r), rc_key r, rc_fingerprint r)"

definition require_same_operation_identity :: "'p operation_record \<Rightarrow> 'p operation_record \<Rightarrow> unit res" where
  "require_same_operation_identity existing replacement =
     res_bind (require_operation_record_identity existing) (\<lambda>_.
     res_bind (require_operation_record_identity replacement) (\<lambda>_.
     res_bind (require_that (rc_receipt existing = rc_receipt replacement)
         (ValueError ''operation receipt is immutable after its durable claim'')) (\<lambda>_.
       require_that (identity_members existing = identity_members replacement)
         (ValueError ''operation identity is immutable after its durable claim''))))"

definition require_operation_record_transition ::
  "'p operation_record option \<Rightarrow> 'p operation_record \<Rightarrow> bool res" where
  "require_operation_record_transition existing replacement =
     res_bind (require_operation_record_identity replacement) (\<lambda>_.
     case existing of
       None \<Rightarrow> res_bind (require_that (os_state (rc_status replacement) \<in> {OP_ACCEPTED, OP_RUNNING})
           (ValueError ''new operation record requires an accepted or running status'')) (\<lambda>_. Inr True)
     | Some old \<Rightarrow>
         res_bind (require_same_operation_identity old replacement) (\<lambda>_.
         if old = replacement then Inr False
         else res_bind (require_that
             (is_operation_transition_allowed (os_state (rc_status old)) (os_state (rc_status replacement)))
             (ValueError ''runtime.control-plane.operation-transition-invalid: Operation lifecycle transition is not permitted.''))
           (\<lambda>_. Inr True)))"

text \<open>The two messages that contain the word \<open>immutable\<close>.\<close>

definition immutable_errors :: "py_exn list" where
  "immutable_errors =
     [ValueError ''operation receipt is immutable after its durable claim'',
      ValueError ''operation identity is immutable after its durable claim'']"

definition require_terminal_operation_transition ::
  "'p operation_record option \<Rightarrow> 'p operation_record \<Rightarrow> bool res" where
  "require_terminal_operation_transition existing replacement =
     (if \<not> terminal_state (os_state (rc_status replacement))
      then Inl (ValueError ''terminal operation commit requires a terminal status'')
      else (case require_operation_record_transition existing replacement of
          Inr changed \<Rightarrow> Inr changed
        | Inl e \<Rightarrow>
            if e \<in> set immutable_errors then Inl e
            else (case existing of
                Some old \<Rightarrow> if terminal_state (os_state (rc_status old))
                  then Inl (ValueError ''a terminal operation record cannot be rewritten'') else Inl e
              | None \<Rightarrow> Inl e)))"

definition terminal_operation_audit :: "'p operation_record \<Rightarrow> audit_event" where
  "terminal_operation_audit r =
     (let c = os_context (rc_status r); s = operation_state_text (os_state (rc_status r)) in
      \<lparr>ae_timestamp = os_updated (rc_status r), ae_action = operation_kind_text (oc_kind c) @ ''_terminal'',
       ae_identity = oc_actor c, ae_allowed = True, ae_target = oc_target c,
       ae_operation = or_operation (rc_receipt r), ae_reason = ''operation-'' @ s, ae_details = [''state'' \<mapsto> s]\<rparr>)"

definition require_terminal_operation_audit :: "'p operation_record \<Rightarrow> audit_event \<Rightarrow> unit res" where
  "require_terminal_operation_audit r e =
     require_that (e = terminal_operation_audit r)
       (ValueError ''terminal audit does not match the immutable operation context'')"

definition require_operation_audit_binding :: "'p operation_record \<Rightarrow> audit_event \<Rightarrow> unit res" where
  "require_operation_audit_binding r e =
     require_that (ae_operation e = or_operation (rc_receipt r) \<and> ae_identity e = oc_actor (os_context (rc_status r)) \<and>
         ae_timestamp e = os_updated (rc_status r))
       (ValueError ''operation audit is not actor-bound to the immutable operation context'')"

section \<open>Revisions\<close>

definition max_snapshot_revision :: int where
  "max_snapshot_revision = 2 ^ 63 - 1"

definition require_snapshot_revision :: "int \<Rightarrow> int res" where
  "require_snapshot_revision revision =
     (if revision < 0 \<or> max_snapshot_revision < revision
      then Inl (ValueError ''snapshot revision is outside the supported range'') else Inr revision)"

definition next_snapshot_revision :: "int \<Rightarrow> int res" where
  "next_snapshot_revision revision =
     res_bind (require_snapshot_revision revision) (\<lambda>current.
       if current = max_snapshot_revision
       then Inl (ValueError ''snapshot revision is outside the supported range'') else Inr (current + 1))"

section \<open>Histories of the snapshot\<close>

type_synonym history_event = "string \<rightharpoonup> py_value"
type_synonym history = "string \<rightharpoonup> history_event list"

record 'rest store_snapshot =
  ss_episode :: history
  ss_behavior :: history
  ss_control :: history
  ss_crossing :: history
  ss_information :: history
  ss_rest :: 'rest

definition event_identifier :: "history_event \<Rightarrow> string option" where
  "event_identifier e = (case e ''event_id'' of Some (PyStr s) \<Rightarrow> if s = [] then None else Some s | _ \<Rightarrow> None)"

definition require_expected_control_head :: "'rest store_snapshot \<Rightarrow> string \<Rightarrow> string option \<Rightarrow> unit res" where
  "require_expected_control_head sn participant expected =
     (let events = (case ss_control sn participant of None \<Rightarrow> [] | Some es \<Rightarrow> es);
          head = (if events = [] then None else event_identifier (last events)) in
      require_that (head = expected) (ValueError ''expected control history head does not match durable state''))"

text \<open>\<open>history_key.partition(":")\<close>: the parts around the first colon, when there is one.\<close>

fun partition_colon :: "string \<Rightarrow> (string \<times> string) option" where
  "partition_colon [] = None"
| "partition_colon (c # cs) =
     (if c = CHR '':'' then Some ([], cs)
      else map_option (\<lambda>(name, participant). (c # name, participant)) (partition_colon cs))"

definition history_named :: "'rest store_snapshot \<Rightarrow> string \<Rightarrow> history option" where
  "history_named sn name =
     (if name = ''participant_episode_history'' then Some (ss_episode sn)
      else if name = ''participant_behavior_history'' then Some (ss_behavior sn)
      else if name = ''participant_control_history'' then Some (ss_control sn)
      else if name = ''participant_crossing_history'' then Some (ss_crossing sn)
      else if name = ''information_state_history'' then Some (ss_information sn)
      else None)"

definition participant_history_head ::
  "(history_event \<Rightarrow> string) \<Rightarrow> 'rest store_snapshot \<Rightarrow> string \<Rightarrow> string option res" where
  "participant_history_head event_digest sn key =
     (case partition_colon key of
        None \<Rightarrow> Inl (ValueError ''participant transition history key is not supported'')
      | Some (name, participant) \<Rightarrow> (case history_named sn name of
            None \<Rightarrow> Inl (ValueError ''participant transition history key is not supported'')
          | Some h \<Rightarrow>
              if participant = [] then Inl (ValueError ''participant transition history key is not supported'')
              else (case h participant of
                  None \<Rightarrow> Inr None
                | Some events \<Rightarrow>
                    if events = [] then Inr None
                    else (case event_identifier (last events) of
                        Some i \<Rightarrow> Inr (Some i)
                      | None \<Rightarrow> Inr (Some (''sha256:'' @ event_digest (last events)))))))"

definition require_expected_history_heads ::
  "(history_event \<Rightarrow> string) \<Rightarrow> 'rest store_snapshot \<Rightarrow> (string \<times> string option) list \<Rightarrow> unit res" where
  "require_expected_history_heads event_digest sn expected =
     res_all (\<lambda>(key, head). res_bind (participant_history_head event_digest sn key) (\<lambda>current.
       require_that (current = head)
         (ValueError ''expected participant history head does not match durable state''))) expected"

section \<open>The store\<close>

datatype commit_mode = SNAPSHOT_BEARING | OPERATION_ONLY

record ('rest, 'p) op_store =
  st_snapshot :: "'rest store_snapshot"
  st_revision :: int
  st_records :: "(string, 'p operation_record) pydict"
  st_idempotency :: "(string, string) pydict"
  st_audit :: "audit_event list"

type_synonym ('a, 'rest, 'p) stored = "'a res \<times> ('rest, 'p) op_store"
type_synonym 'rest snapshot_state = "'rest store_snapshot \<times> int"

definition new_store :: "'rest store_snapshot \<Rightarrow> ('rest, 'p) op_store" where
  "new_store sn = \<lparr>st_snapshot = sn, st_revision = 0, st_records = [], st_idempotency = [], st_audit = []\<rparr>"

definition load_snapshot_state :: "('rest, 'p) op_store \<Rightarrow> 'rest snapshot_state" where
  "load_snapshot_state st = (st_snapshot st, st_revision st)"

definition require_expected_revision :: "int \<Rightarrow> ('rest, 'p) op_store \<Rightarrow> unit res" where
  "require_expected_revision expected st =
     res_bind (require_snapshot_revision expected) (\<lambda>_.
       require_that (st_revision st = expected) (ValueError ''snapshot revision conflict''))"

definition updated_idempotency :: "'p operation_record \<Rightarrow> ('rest, 'p) op_store \<Rightarrow> (string, string) pydict res" where
  "updated_idempotency r st =
     (if rc_key r = [] then Inr (st_idempotency st)
      else if (case dict_get (st_idempotency st) (rc_key r) of
          None \<Rightarrow> False | Some operation \<Rightarrow> operation \<noteq> or_operation (rc_receipt r))
      then Inl (ValueError ''idempotency key already belongs to another operation'')
      else Inr (dict_set (rc_key r) (or_operation (rc_receipt r)) (st_idempotency st)))"

definition save_snapshot ::
  "('rest store_snapshot \<Rightarrow> unit res) \<Rightarrow> 'rest store_snapshot \<Rightarrow> int \<Rightarrow> ('rest, 'p) op_store \<Rightarrow>
     ('rest snapshot_state, 'rest, 'p) stored" where
  "save_snapshot admit sn expected st =
     (case res_bind (admit sn) (\<lambda>_. res_bind (require_expected_revision expected st) (\<lambda>_. next_snapshot_revision expected)) of
        Inl e \<Rightarrow> (Inl e, st)
      | Inr revision \<Rightarrow> (Inr (sn, revision), st\<lparr>st_snapshot := sn, st_revision := revision\<rparr>))"

definition save_record :: "'p operation_record \<Rightarrow> ('rest, 'p) op_store \<Rightarrow> (unit, 'rest, 'p) stored" where
  "save_record r st =
     (case require_operation_record_transition (dict_get (st_records st) (or_operation (rc_receipt r))) r of
        Inl e \<Rightarrow> (Inl e, st)
      | Inr changed \<Rightarrow>
          if \<not> changed then (Inr (), st)
          else (case updated_idempotency r st of
              Inl e \<Rightarrow> (Inl e, st)
            | Inr idempotency \<Rightarrow>
                (Inr (), st\<lparr>st_idempotency := idempotency,
                   st_records := dict_set (or_operation (rc_receipt r)) r (st_records st)\<rparr>)))"

definition find_by_idempotency :: "string \<Rightarrow> ('rest, 'p) op_store \<Rightarrow> 'p operation_record option" where
  "find_by_idempotency key st =
     (case dict_get (st_idempotency st) key of None \<Rightarrow> None | Some operation \<Rightarrow> dict_get (st_records st) operation)"

definition claim_record :: "'p operation_record \<Rightarrow> ('rest, 'p) op_store \<Rightarrow> ('p operation_record, 'rest, 'p) stored" where
  "claim_record r st =
     (case (if rc_key r = [] then None else find_by_idempotency (rc_key r) st) of
        Some existing \<Rightarrow> (Inr existing, st)
      | None \<Rightarrow> (case save_record r st of
            (Inl e, st') \<Rightarrow> (Inl e, st')
          | (Inr _, st') \<Rightarrow> (Inr r, st')))"

definition publish ::
  "'p operation_record \<Rightarrow> audit_event \<Rightarrow> 'rest snapshot_state \<Rightarrow> ('rest, 'p) op_store \<Rightarrow> (unit, 'rest, 'p) stored" where
  "publish r event committed st =
     (case updated_idempotency r st of
        Inl e \<Rightarrow> (Inl e, st)
      | Inr idempotency \<Rightarrow>
          (Inr (), st\<lparr>st_snapshot := fst committed, st_revision := snd committed,
             st_records := dict_set (or_operation (rc_receipt r)) r (st_records st),
             st_idempotency := idempotency, st_audit := st_audit st @ [event]\<rparr>))"

definition validate_retry ::
  "string \<Rightarrow> 'rest store_snapshot \<Rightarrow> 'p operation_record \<Rightarrow> audit_event \<Rightarrow> commit_mode \<Rightarrow> int \<Rightarrow> ('rest, 'p) op_store \<Rightarrow>
     'rest snapshot_state res" where
  "validate_retry label sn r event mode expected st =
     res_bind (require_that (st_revision st = (if mode = SNAPSHOT_BEARING then expected + 1 else expected))
         (ValueError ''terminal operation retry does not match the durable commit mode'')) (\<lambda>_.
     res_bind (require_that (st_snapshot st = sn)
         (ValueError (label @ '' retry does not match the durable snapshot''))) (\<lambda>_.
     res_bind (require_that (filter (\<lambda>a. ae_operation a = or_operation (rc_receipt r) \<and> ae_action a = ae_action event)
           (st_audit st) = [event])
         (ValueError (label @ '' retry does not match the durable audit''))) (\<lambda>_.
       Inr (load_snapshot_state st))))"

definition terminal_snapshot ::
  "'rest store_snapshot \<Rightarrow> commit_mode \<Rightarrow> int \<Rightarrow> ('rest, 'p) op_store \<Rightarrow> 'rest snapshot_state res" where
  "terminal_snapshot sn mode expected st =
     (if mode = OPERATION_ONLY then Inr (load_snapshot_state st)
      else res_bind (next_snapshot_revision expected) (\<lambda>revision. Inr (sn, revision)))"

definition commit_terminal_operation ::
  "('rest store_snapshot \<Rightarrow> unit res) \<Rightarrow> 'rest store_snapshot \<Rightarrow> 'p operation_record \<Rightarrow> audit_event option \<Rightarrow>
     commit_mode \<Rightarrow> int \<Rightarrow> ('rest, 'p) op_store \<Rightarrow> ('rest snapshot_state, 'rest, 'p) stored" where
  "commit_terminal_operation admit sn r audit mode expected st =
     (let event = (case audit of None \<Rightarrow> terminal_operation_audit r | Some e \<Rightarrow> e) in
      case res_bind (admit sn) (\<lambda>_. res_bind (require_terminal_operation_audit r event) (\<lambda>_.
          require_terminal_operation_transition (dict_get (st_records st) (or_operation (rc_receipt r))) r)) of
        Inl e \<Rightarrow> (Inl e, st)
      | Inr changed \<Rightarrow>
          if \<not> changed then (validate_retry ''terminal operation'' sn r event mode expected st, st)
          else (case res_bind (require_expected_revision expected st) (\<lambda>_.
                  res_bind (require_that (\<not> (mode = OPERATION_ONLY \<and> st_snapshot st \<noteq> sn))
                      (ValueError ''operation-only terminal commit cannot change the durable snapshot'')) (\<lambda>_.
                    terminal_snapshot sn mode expected st)) of
              Inl e \<Rightarrow> (Inl e, st)
            | Inr committed \<Rightarrow> (case publish r event committed st of
                  (Inl e, st') \<Rightarrow> (Inl e, st')
                | (Inr _, st') \<Rightarrow> (Inr committed, st'))))"

definition require_history_heads ::
  "(history_event \<Rightarrow> string) \<Rightarrow> (string \<times> string option) list \<Rightarrow> (string \<times> string option) option \<Rightarrow>
     ('rest, 'p) op_store \<Rightarrow> unit res" where
  "require_history_heads event_digest expected control st =
     (case control of
        None \<Rightarrow> require_expected_history_heads event_digest (st_snapshot st) expected
      | Some (participant, head) \<Rightarrow> require_expected_control_head (st_snapshot st) participant head)"

definition commit_participant_transition ::
  "('rest store_snapshot \<Rightarrow> unit res) \<Rightarrow> (history_event \<Rightarrow> string) \<Rightarrow> (string \<times> string option) list \<Rightarrow>
     (string \<times> string option) option \<Rightarrow> int \<Rightarrow> 'rest store_snapshot \<Rightarrow> 'p operation_record \<Rightarrow> audit_event \<Rightarrow>
     ('rest, 'p) op_store \<Rightarrow> ('rest snapshot_state, 'rest, 'p) stored" where
  "commit_participant_transition admit event_digest heads control expected sn r event st =
     (case admit sn of
        Inl e \<Rightarrow> (Inl e, st)
      | Inr _ \<Rightarrow>
          let existing = dict_get (st_records st) (or_operation (rc_receipt r)) in
          if existing = Some r
          then (res_bind (require_operation_audit_binding r event) (\<lambda>_.
                  validate_retry ''participant transition'' sn r event SNAPSHOT_BEARING expected st), st)
          else (case res_bind (require_expected_revision expected st) (\<lambda>_.
                  res_bind (require_history_heads event_digest heads control st) (\<lambda>_.
                  res_bind (require_operation_record_transition existing r) (\<lambda>_.
                  res_bind (require_operation_audit_binding r event) (\<lambda>_.
                    next_snapshot_revision expected)))) of
              Inl e \<Rightarrow> (Inl e, st)
            | Inr revision \<Rightarrow> (case publish r event (sn, revision) st of
                  (Inl e, st') \<Rightarrow> (Inl e, st')
                | (Inr _, st') \<Rightarrow> (Inr (sn, revision), st'))))"

definition commit_control_transition ::
  "('rest store_snapshot \<Rightarrow> unit res) \<Rightarrow> (history_event \<Rightarrow> string) \<Rightarrow> string \<Rightarrow> string option \<Rightarrow> int \<Rightarrow>
     'rest store_snapshot \<Rightarrow> 'p operation_record \<Rightarrow> audit_event \<Rightarrow> ('rest, 'p) op_store \<Rightarrow>
     ('rest snapshot_state, 'rest, 'p) stored" where
  "commit_control_transition admit event_digest participant head expected sn r event =
     commit_participant_transition admit event_digest [(''participant_control_history:'' @ participant, head)]
       (Some (participant, head)) expected sn r event"

definition append_audit :: "audit_event \<Rightarrow> ('rest, 'p) op_store \<Rightarrow> ('rest, 'p) op_store" where
  "append_audit event st = st\<lparr>st_audit := st_audit st @ [event]\<rparr>"

end
