(* ===== verification/Store_Log.thy ===== *)
theory Store_Log
  imports Store_Ops
begin

text \<open>
  The store as a versioned log. The interface says what its clients rely on: the content changes
  only together with the revision, and an entry once made only moves along permitted steps. It
  is discharged for the control-plane store by the invariant of its records and keys.
\<close>

section \<open>The interface\<close>

locale versioned_log =
  fixes step :: "'s \<Rightarrow> 's \<Rightarrow> bool"
    and revision :: "'s \<Rightarrow> int"
    and content :: "'s \<Rightarrow> 'c"
    and entry :: "'s \<Rightarrow> 'k \<Rightarrow> 'r option"
    and moves :: "'r \<Rightarrow> 'r \<Rightarrow> bool"
  assumes step_revision: "step s s' \<Longrightarrow>
      revision s' = revision s \<and> content s' = content s \<or> revision s' = revision s + 1"
    and step_entry: "step s s' \<Longrightarrow> entry s k = Some r \<Longrightarrow> \<exists>r'. entry s' k = Some r' \<and> (r' = r \<or> moves r r')"
begin

lemma run_revision:
  assumes "step\<^sup>*\<^sup>* s s'"
  shows "revision s \<le> revision s' \<and> (revision s' = revision s \<longrightarrow> content s' = content s)"
  using assms
proof (induction rule: rtranclp_induct)
  case base
  show ?case by simp
next
  case (step s1 s2)
  then show ?case using step_revision [OF step.hyps(2)] by auto
qed

lemma run_entry:
  assumes "step\<^sup>*\<^sup>* s s'" and "entry s k = Some r"
  shows "\<exists>r'. entry s' k = Some r' \<and> moves\<^sup>*\<^sup>* r r'"
  using assms(1)
proof (induction rule: rtranclp_induct)
  case base
  show ?case using assms(2) by auto
next
  case (step s1 s2)
  then obtain r1 where r1: "entry s1 k = Some r1" "moves\<^sup>*\<^sup>* r r1" by blast
  from step_entry [OF step.hyps(2) r1(1)] r1(2) show ?case by (metis rtranclp.rtrancl_into_rtrancl)
qed

lemma run_final:
  assumes "step\<^sup>*\<^sup>* s s'" and "entry s k = Some r" and "\<And>r'. \<not> moves r r'"
  shows "entry s' k = Some r"
  using run_entry [OF assms(1,2)] assms(3) by (metis converse_rtranclpE)

end

section \<open>Records\<close>

definition record_ok :: "'p operation_record \<Rightarrow> bool" where
  "record_ok r \<longleftrightarrow> require_operation_record_identity r = Inr ()"

definition record_state :: "'p operation_record \<Rightarrow> operation_state" where
  "record_state r = os_state (rc_status r)"

definition record_moves :: "'p operation_record \<Rightarrow> 'p operation_record \<Rightarrow> bool" where
  "record_moves r r' \<longleftrightarrow> rc_receipt r' = rc_receipt r \<and> identity_members r' = identity_members r \<and>
     is_operation_transition_allowed (record_state r) (record_state r')"

lemma record_transition_Inr:
  "require_operation_record_transition existing r = Inr changed \<longleftrightarrow> record_ok r \<and>
     (case existing of
        None \<Rightarrow> changed \<and> record_state r \<in> {OP_ACCEPTED, OP_RUNNING}
      | Some old \<Rightarrow> record_ok old \<and> rc_receipt old = rc_receipt r \<and> identity_members old = identity_members r \<and>
          (if old = r then \<not> changed else changed \<and> record_moves old r))"
  by (cases existing)
    (auto simp: require_operation_record_transition_def require_same_operation_identity_def record_ok_def
      record_state_def record_moves_def res_bind_Inr_iff)

lemma terminal_transition_Inr:
  "require_terminal_operation_transition existing r = Inr changed \<longleftrightarrow>
     terminal_state (record_state r) \<and> require_operation_record_transition existing r = Inr changed"
  by (auto simp: require_terminal_operation_transition_def record_state_def split: sum.splits option.splits)

lemma terminal_never_moves: "terminal_state (record_state r) \<Longrightarrow> \<not> record_moves r r'"
  by (simp add: record_moves_def)

lemma record_moves_run:
  assumes "record_moves\<^sup>*\<^sup>* r r'"
  shows "rc_receipt r' = rc_receipt r \<and> identity_members r' = identity_members r \<and>
    is_operation_transition_allowed\<^sup>*\<^sup>* (record_state r) (record_state r')"
  using assms
proof (induction rule: rtranclp_induct)
  case base
  show ?case by simp
next
  case (step r1 r2)
  then show ?case unfolding record_moves_def by (metis rtranclp.rtrancl_into_rtrancl)
qed

section \<open>The invariant of the store\<close>

definition index_ok :: "(string, 'p operation_record) pydict \<Rightarrow> (string, string) pydict \<Rightarrow> bool" where
  "index_ok records idempotency \<longleftrightarrow>
     (\<forall>i r. dict_get records i = Some r \<longrightarrow> or_operation (rc_receipt r) = i \<and> record_ok r) \<and>
     (\<forall>k i. dict_get idempotency k = Some i \<longrightarrow> k \<noteq> [] \<and> (\<exists>r. dict_get records i = Some r \<and> rc_key r = k)) \<and>
     (\<forall>i r. dict_get records i = Some r \<longrightarrow> rc_key r \<noteq> [] \<longrightarrow> dict_get idempotency (rc_key r) = Some i)"

definition store_ok :: "('rest, 'p) op_store \<Rightarrow> bool" where
  "store_ok st \<longleftrightarrow> 0 \<le> st_revision st \<and> st_revision st \<le> max_snapshot_revision \<and>
     index_ok (st_records st) (st_idempotency st)"

text \<open>Writing an accepted record with its key keeps the records and the keys in step.\<close>

definition written ::
  "'p operation_record \<Rightarrow> ('rest, 'p) op_store \<Rightarrow> (string, string) pydict \<Rightarrow> ('rest, 'p) op_store" where
  "written r st idempotency =
     st\<lparr>st_idempotency := idempotency, st_records := dict_set (or_operation (rc_receipt r)) r (st_records st)\<rparr>"

lemma updated_idempotency_Inr:
  "updated_idempotency r st = Inr d \<longleftrightarrow>
     (if rc_key r = [] then d = st_idempotency st
      else d = dict_set (rc_key r) (or_operation (rc_receipt r)) (st_idempotency st) \<and>
        dict_get (st_idempotency st) (rc_key r) \<in> {None, Some (or_operation (rc_receipt r))})"
  by (auto simp: updated_idempotency_def split: option.splits)

lemma written_ok:
  assumes ok: "store_ok st" and d: "updated_idempotency r st = Inr d"
    and step: "require_operation_record_transition (dict_get (st_records st) (or_operation (rc_receipt r))) r = Inr True"
  shows "store_ok (written r st d)"
proof -
  let ?i = "or_operation (rc_receipt r)" and ?new = "dict_set (or_operation (rc_receipt r)) r (st_records st)"
  have r: "record_ok r" using step by (simp add: record_transition_Inr)
  from ok have records: "\<And>i r. dict_get (st_records st) i = Some r \<Longrightarrow> or_operation (rc_receipt r) = i \<and> record_ok r"
    and keys: "\<And>k i. dict_get (st_idempotency st) k = Some i \<Longrightarrow>
        k \<noteq> [] \<and> (\<exists>r. dict_get (st_records st) i = Some r \<and> rc_key r = k)"
    and indexed: "\<And>i r. dict_get (st_records st) i = Some r \<Longrightarrow> rc_key r \<noteq> [] \<Longrightarrow>
        dict_get (st_idempotency st) (rc_key r) = Some i"
    unfolding store_ok_def index_ok_def by blast+
  have same_key: "rc_key old = rc_key r" if "dict_get (st_records st) ?i = Some old" for old
  proof -
    have "identity_members old = identity_members r" using step [unfolded that] by (simp add: record_transition_Inr)
    then show ?thesis by (simp add: identity_members_def)
  qed
  have "k \<noteq> [] \<and> (\<exists>r'. dict_get ?new i = Some r' \<and> rc_key r' = k)" if k: "dict_get d k = Some i" for k i
  proof (cases "rc_key r \<noteq> [] \<and> k = rc_key r")
    case True
    with k d show ?thesis by (simp add: updated_idempotency_Inr)
  next
    case False
    with k d have "dict_get (st_idempotency st) k = Some i"
      by (auto simp: updated_idempotency_Inr split: if_splits)
    with keys obtain r' where r': "k \<noteq> []" "dict_get (st_records st) i = Some r'" "rc_key r' = k" by blast
    show ?thesis
    proof (cases "i = ?i")
      case True
      with r' same_key have "rc_key r = k" by simp
      with True r'(1) show ?thesis by simp
    next
      case False
      with r' show ?thesis by simp
    qed
  qed
  moreover have "dict_get d (rc_key r') = Some i"
    if r': "dict_get ?new i = Some r'" "rc_key r' \<noteq> []" for i r'
  proof (cases "i = ?i")
    case True
    with r' d show ?thesis by (simp add: updated_idempotency_Inr)
  next
    case False
    with r' have entry: "dict_get (st_idempotency st) (rc_key r') = Some i" by (simp add: indexed)
    then show ?thesis using d False by (auto simp: updated_idempotency_Inr split: if_splits)
  qed
  moreover have "or_operation (rc_receipt r') = i \<and> record_ok r'" if "dict_get ?new i = Some r'" for i r'
    using that r records by (cases "i = ?i") auto
  ultimately have "index_ok ?new d" unfolding index_ok_def by blast
  with ok show ?thesis by (simp add: store_ok_def written_def)
qed

section \<open>The steps of the store\<close>

inductive store_step ::
  "('rest store_snapshot \<Rightarrow> unit res) \<Rightarrow> (history_event \<Rightarrow> string) \<Rightarrow> ('rest, 'p) op_store \<Rightarrow> ('rest, 'p) op_store \<Rightarrow> bool"
  for admit digest where
  saves_snapshot: "save_snapshot admit sn n st = (out, st') \<Longrightarrow> store_step admit digest st st'"
| saves_record: "save_record r st = (out1, st') \<Longrightarrow> store_step admit digest st st'"
| claims_record: "claim_record r st = (out2, st') \<Longrightarrow> store_step admit digest st st'"
| commits_terminal: "commit_terminal_operation admit sn r audit mode n st = (out, st') \<Longrightarrow> store_step admit digest st st'"
| commits_participant:
    "commit_participant_transition admit digest heads control n sn r event st = (out, st') \<Longrightarrow> store_step admit digest st st'"
| appends_audit: "append_audit event st = st' \<Longrightarrow> store_step admit digest st st'"

text \<open>What one step may do to revision, snapshot and records.\<close>

definition advances :: "('rest, 'p) op_store \<Rightarrow> ('rest, 'p) op_store \<Rightarrow> bool" where
  "advances st st' \<longleftrightarrow>
     (st_revision st' = st_revision st \<and> st_snapshot st' = st_snapshot st \<or> st_revision st' = st_revision st + 1) \<and>
     (st_records st' = st_records st \<or>
      (\<exists>r. st_records st' = dict_set (or_operation (rc_receipt r)) r (st_records st) \<and>
         require_operation_record_transition (dict_get (st_records st) (or_operation (rc_receipt r))) r = Inr True))"

lemma next_revision_Inr:
  "next_snapshot_revision n = Inr m \<longleftrightarrow> 0 \<le> n \<and> n < max_snapshot_revision \<and> m = n + 1"
  by (auto simp: next_snapshot_revision_def require_snapshot_revision_def res_bind_Inr_iff)

lemma expected_revision_Inr:
  "require_expected_revision n st = Inr u \<longleftrightarrow> 0 \<le> n \<and> n \<le> max_snapshot_revision \<and> st_revision st = n"
  by (auto simp: require_expected_revision_def require_snapshot_revision_def res_bind_Inr_iff)

lemma save_record_ok:
  assumes "store_ok st" and "save_record r st = (out, st')"
  shows "store_ok st' \<and> advances st st' \<and> (\<not> is_ok out \<longrightarrow> st' = st)"
proof (cases "require_operation_record_transition (dict_get (st_records st) (or_operation (rc_receipt r))) r")
  case (Inl e)
  with assms show ?thesis by (auto simp: save_record_def advances_def)
next
  case (Inr changed)
  show ?thesis
  proof (cases "updated_idempotency r st")
    case (Inl e)
    with assms Inr show ?thesis by (cases changed) (auto simp: save_record_def advances_def)
  next
    case d: (Inr d)
    show ?thesis
    proof (cases changed)
      case False
      with assms Inr show ?thesis by (auto simp: save_record_def advances_def)
    next
      case True
      with assms Inr d have "st' = written r st d" "out = Inr ()" by (simp_all add: save_record_def written_def)
      with written_ok [OF assms(1) d] Inr True show ?thesis by (auto simp: advances_def written_def)
    qed
  qed
qed

lemma claim_record_ok:
  assumes "store_ok st" and "claim_record r st = (out, st')"
  shows "store_ok st' \<and> advances st st' \<and> (\<not> is_ok out \<longrightarrow> st' = st)"
proof (cases "if rc_key r = [] then None else find_by_idempotency (rc_key r) st")
  case None
  obtain out1 st1 where saved: "save_record r st = (out1, st1)" by fastforce
  with None assms(2) have "st' = st1" "is_ok out = is_ok out1"
    by (auto simp: claim_record_def split: sum.splits)
  with save_record_ok [OF assms(1) saved] show ?thesis by simp
next
  case (Some existing)
  with assms show ?thesis by (auto simp: claim_record_def advances_def)
qed

text \<open>A publication writes record and key, moves to the committed state cut, and logs the event.\<close>

lemma publish_ok:
  assumes ok: "store_ok st" and run: "publish r event (sn, n) st = (out, st')"
    and step: "require_operation_record_transition (dict_get (st_records st) (or_operation (rc_receipt r))) r = Inr True"
    and cut: "n = st_revision st \<and> sn = st_snapshot st \<or> n = st_revision st + 1" "0 \<le> n" "n \<le> max_snapshot_revision"
  shows "store_ok st' \<and> advances st st' \<and> (\<not> is_ok out \<longrightarrow> st' = st)"
proof (cases "updated_idempotency r st")
  case (Inl e)
  with run ok show ?thesis by (auto simp: publish_def advances_def)
next
  case (Inr d)
  with run have st': "st' = (written r st d)\<lparr>st_snapshot := sn, st_revision := n, st_audit := st_audit st @ [event]\<rparr>"
    and out: "out = Inr ()"
    by (cases st; auto simp: publish_def written_def)+
  have "store_ok (written r st d)" by (rule written_ok [OF ok Inr step])
  then have "store_ok st'" using cut(2,3) unfolding st' by (simp add: store_ok_def)
  moreover have "advances st st'" using cut(1) step unfolding st' by (auto simp: advances_def written_def)
  ultimately show ?thesis using out by simp
qed

lemma save_snapshot_ok:
  assumes ok: "store_ok st" and run: "save_snapshot admit sn n st = (out, st')"
  shows "store_ok st' \<and> advances st st' \<and> (\<not> is_ok out \<longrightarrow> st' = st)"
proof (cases "res_bind (admit sn) (\<lambda>_. res_bind (require_expected_revision n st) (\<lambda>_. next_snapshot_revision n))")
  case (Inl e)
  with run ok show ?thesis by (auto simp: save_snapshot_def advances_def)
next
  case (Inr m)
  then have "m = st_revision st + 1" "0 \<le> m" "m \<le> max_snapshot_revision"
    by (auto simp: res_bind_Inr_iff next_revision_Inr expected_revision_Inr)
  moreover from Inr run have "st' = st\<lparr>st_snapshot := sn, st_revision := m\<rparr>" "is_ok out"
    by (auto simp: save_snapshot_def)
  ultimately show ?thesis using ok by (simp add: store_ok_def advances_def)
qed

text \<open>
  The two commits publish under a guard: everything checked before the publication leaves the
  store as it was.
\<close>

definition guarded_publish ::
  "'p operation_record \<Rightarrow> audit_event \<Rightarrow> 'rest snapshot_state res \<Rightarrow> ('rest, 'p) op_store \<Rightarrow>
     ('rest snapshot_state, 'rest, 'p) stored" where
  "guarded_publish r event sc st =
     (case sc of Inl e \<Rightarrow> (Inl e, st)
      | Inr committed \<Rightarrow> (case publish r event committed st of
            (Inl e, st') \<Rightarrow> (Inl e, st')
          | (Inr _, st') \<Rightarrow> (Inr committed, st')))"

lemma guarded_publish_ok:
  assumes ok: "store_ok st" and run: "guarded_publish r event sc st = (out, st')"
    and step: "\<And>c. sc = Inr c \<Longrightarrow>
      require_operation_record_transition (dict_get (st_records st) (or_operation (rc_receipt r))) r = Inr True"
    and next_cut: "\<And>sn m. sc = Inr (sn, m) \<Longrightarrow>
      (m = st_revision st \<and> sn = st_snapshot st \<or> m = st_revision st + 1) \<and> 0 \<le> m \<and> m \<le> max_snapshot_revision"
  shows "store_ok st' \<and> advances st st' \<and> (\<not> is_ok out \<longrightarrow> st' = st)"
proof (cases sc)
  case (Inl e)
  with ok run show ?thesis by (auto simp: guarded_publish_def advances_def)
next
  case (Inr c)
  obtain sn m where c: "c = (sn, m)" by fastforce
  obtain out1 st1 where pub: "publish r event (sn, m) st = (out1, st1)" by fastforce
  with run Inr c have "st' = st1" "is_ok out = is_ok out1"
    by (auto simp: guarded_publish_def split: sum.splits)
  with publish_ok [OF ok pub step [OF Inr]] next_cut [OF Inr [unfolded c]] show ?thesis by simp
qed

definition terminal_cut ::
  "'rest store_snapshot \<Rightarrow> commit_mode \<Rightarrow> int \<Rightarrow> ('rest, 'p) op_store \<Rightarrow> 'rest snapshot_state res" where
  "terminal_cut sn mode n st = res_bind (require_expected_revision n st) (\<lambda>_.
      res_bind (require_that (\<not> (mode = OPERATION_ONLY \<and> st_snapshot st \<noteq> sn))
        (ValueError ''operation-only terminal commit cannot change the durable snapshot'')) (\<lambda>_.
        terminal_snapshot sn mode n st))"

lemma terminal_cut_Inr:
  "terminal_cut sn mode n st = Inr (sn1, m) \<longleftrightarrow> 0 \<le> n \<and> n \<le> max_snapshot_revision \<and> st_revision st = n \<and> sn1 = sn \<and>
     (if mode = OPERATION_ONLY then st_snapshot st = sn \<and> m = n else n < max_snapshot_revision \<and> m = n + 1)"
  by (auto simp: terminal_cut_def res_bind_Inr_iff expected_revision_Inr terminal_snapshot_def load_snapshot_state_def
      next_revision_Inr)

definition terminal_guard ::
  "('rest store_snapshot \<Rightarrow> unit res) \<Rightarrow> 'rest store_snapshot \<Rightarrow> 'p operation_record \<Rightarrow> audit_event \<Rightarrow> ('rest, 'p) op_store \<Rightarrow> bool res" where
  "terminal_guard admit sn r event st = res_bind (admit sn) (\<lambda>_. res_bind (require_terminal_operation_audit r event) (\<lambda>_.
      require_terminal_operation_transition (dict_get (st_records st) (or_operation (rc_receipt r))) r))"

lemma terminal_guard_Inr:
  "terminal_guard admit sn r event st = Inr changed \<longleftrightarrow>
     is_ok (admit sn) \<and> event = terminal_operation_audit r \<and> terminal_state (record_state r) \<and>
     require_operation_record_transition (dict_get (st_records st) (or_operation (rc_receipt r))) r = Inr changed"
  by (auto simp: terminal_guard_def res_bind_Inr_iff require_terminal_operation_audit_def terminal_transition_Inr is_ok_iff)

lemma commit_terminal_unfold:
  "commit_terminal_operation admit sn r audit mode n st =
     (let event = (case audit of None \<Rightarrow> terminal_operation_audit r | Some e \<Rightarrow> e) in
      case terminal_guard admit sn r event st of
        Inl e \<Rightarrow> (Inl e, st)
      | Inr changed \<Rightarrow> if \<not> changed then (validate_retry ''terminal operation'' sn r event mode n st, st)
          else guarded_publish r event (terminal_cut sn mode n st) st)"
  unfolding commit_terminal_operation_def Let_def terminal_guard_def terminal_cut_def guarded_publish_def by (rule refl)

lemma commit_terminal_ok:
  assumes ok: "store_ok st" and run: "commit_terminal_operation admit sn r audit mode n st = (out, st')"
  shows "store_ok st' \<and> advances st st' \<and> (\<not> is_ok out \<longrightarrow> st' = st)"
proof -
  define event where "event = (case audit of None \<Rightarrow> terminal_operation_audit r | Some e \<Rightarrow> e)"
  note run = run [unfolded commit_terminal_unfold Let_def, folded event_def]
  show ?thesis
  proof (cases "terminal_guard admit sn r event st = Inr True")
    case False
    with run have "st' = st" by (auto split: sum.splits if_splits)
    with ok show ?thesis by (simp add: advances_def)
  next
    case True
    with run have "guarded_publish r event (terminal_cut sn mode n st) st = (out, st')" by simp
    with True show ?thesis
      by (intro guarded_publish_ok [OF ok]) (auto simp: terminal_cut_Inr terminal_guard_Inr split: if_splits)
  qed
qed

definition participant_cut ::
  "(history_event \<Rightarrow> string) \<Rightarrow> (string \<times> string option) list \<Rightarrow> (string \<times> string option) option \<Rightarrow> int \<Rightarrow>
     'rest store_snapshot \<Rightarrow> 'p operation_record \<Rightarrow> audit_event \<Rightarrow> ('rest, 'p) op_store \<Rightarrow> int res" where
  "participant_cut digest heads control n sn r event st =
     res_bind (require_expected_revision n st) (\<lambda>_.
     res_bind (require_history_heads digest heads control st) (\<lambda>_.
     res_bind (require_operation_record_transition (dict_get (st_records st) (or_operation (rc_receipt r))) r) (\<lambda>_.
     res_bind (require_operation_audit_binding r event) (\<lambda>_. next_snapshot_revision n))))"

lemma commit_participant_unfold:
  "commit_participant_transition admit digest heads control n sn r event st =
     (case admit sn of
        Inl e \<Rightarrow> (Inl e, st)
      | Inr _ \<Rightarrow>
          if dict_get (st_records st) (or_operation (rc_receipt r)) = Some r
          then (res_bind (require_operation_audit_binding r event) (\<lambda>_.
                  validate_retry ''participant transition'' sn r event SNAPSHOT_BEARING n st), st)
          else guarded_publish r event
            (res_bind (participant_cut digest heads control n sn r event st) (\<lambda>m. Inr (sn, m))) st)"
  by (simp add: commit_participant_transition_def Let_def participant_cut_def guarded_publish_def
      split: sum.split cong: if_cong)

lemma commit_participant_ok:
  assumes ok: "store_ok st"
    and run: "commit_participant_transition admit digest heads control n sn r event st = (out, st')"
  shows "store_ok st' \<and> advances st st' \<and> (\<not> is_ok out \<longrightarrow> st' = st)"
proof (cases "is_ok (admit sn) \<and> dict_get (st_records st) (or_operation (rc_receipt r)) \<noteq> Some r")
  case False
  with run have "st' = st" unfolding commit_participant_unfold by (cases "admit sn") (auto split: if_splits)
  with ok show ?thesis by (simp add: advances_def)
next
  case True
  let ?old = "dict_get (st_records st) (or_operation (rc_receipt r))"
  from True run have pub: "guarded_publish r event
      (res_bind (participant_cut digest heads control n sn r event st) (\<lambda>m. Inr (sn, m))) st = (out, st')"
    unfolding commit_participant_unfold by (cases "admit sn") auto
  have changed: "require_operation_record_transition ?old r = Inr True"
    if "require_operation_record_transition ?old r = Inr c" for c
    using that True by (cases ?old) (auto simp: record_transition_Inr split: if_splits)
  show ?thesis
    by (rule guarded_publish_ok [OF ok pub])
      (auto simp: participant_cut_def res_bind_Inr_iff expected_revision_Inr next_revision_Inr intro: changed)
qed

section \<open>The invariant along a run\<close>

lemma store_step_ok:
  assumes "store_ok st" and "store_step admit digest st st'"
  shows "store_ok st' \<and> advances st st'"
  using assms(2)
proof cases
  case (saves_snapshot sn n out)
  then show ?thesis using save_snapshot_ok [OF assms(1)] by blast
next
  case (saves_record r out)
  then show ?thesis using save_record_ok [OF assms(1)] by blast
next
  case (claims_record r out)
  then show ?thesis using claim_record_ok [OF assms(1)] by blast
next
  case (commits_terminal sn r audit mode n out)
  then show ?thesis using commit_terminal_ok [OF assms(1)] by blast
next
  case (commits_participant heads control n sn r event out)
  then show ?thesis using commit_participant_ok [OF assms(1)] by blast
next
  case (appends_audit event)
  then show ?thesis using assms(1) by (auto simp: append_audit_def store_ok_def advances_def)
qed

lemma new_store_ok: "store_ok (new_store sn)"
  by (simp add: store_ok_def index_ok_def new_store_def max_snapshot_revision_def)

lemma advances_entry:
  assumes "store_ok st" and "advances st st'" and "dict_get (st_records st) i = Some r"
  shows "\<exists>r'. dict_get (st_records st') i = Some r' \<and> (r' = r \<or> record_moves r r')"
proof (cases "st_records st' = st_records st")
  case True
  with assms(3) show ?thesis by simp
next
  case False
  with assms(2) obtain r' where w: "st_records st' = dict_set (or_operation (rc_receipt r')) r' (st_records st)"
    and t: "require_operation_record_transition (dict_get (st_records st) (or_operation (rc_receipt r'))) r' = Inr True"
    unfolding advances_def by blast
  show ?thesis
  proof (cases "i = or_operation (rc_receipt r')")
    case True
    with t assms(3) have "record_moves r r'" by (auto simp: record_transition_Inr split: if_splits)
    with True w show ?thesis by auto
  next
    case False
    with w assms(3) show ?thesis by simp
  qed
qed

definition kept_step :: "('rest store_snapshot \<Rightarrow> unit res) \<Rightarrow> (history_event \<Rightarrow> string) \<Rightarrow>
    ('rest, 'p) op_store \<Rightarrow> ('rest, 'p) op_store \<Rightarrow> bool" where
  "kept_step admit digest st st' \<longleftrightarrow> store_ok st \<and> store_step admit digest st st'"

interpretation store: versioned_log "kept_step admit digest" st_revision st_snapshot
    "\<lambda>st. dict_get (st_records st)" record_moves
  for admit :: "'rest store_snapshot \<Rightarrow> unit res" and digest
proof unfold_locales
  fix st st' :: "('rest, 'p) op_store"
  assume "kept_step admit digest st st'"
  then have adv: "advances st st'" and ok: "store_ok st" using store_step_ok unfolding kept_step_def by blast+
  from adv show "st_revision st' = st_revision st \<and> st_snapshot st' = st_snapshot st \<or> st_revision st' = st_revision st + 1"
    unfolding advances_def by blast
  show "\<exists>r'. dict_get (st_records st') k = Some r' \<and> (r' = r \<or> record_moves r r')"
    if "dict_get (st_records st) k = Some r" for k r
    using advances_entry [OF ok adv that] .
qed

lemma store_run_ok:
  assumes "(store_step admit digest)\<^sup>*\<^sup>* st st'" and "store_ok st"
  shows "store_ok st' \<and> (kept_step admit digest)\<^sup>*\<^sup>* st st'"
  using assms
proof (induction rule: rtranclp_induct)
  case base
  then show ?case by simp
next
  case (step s1 s2)
  then have "kept_step admit digest s1 s2" "store_ok s2" using store_step_ok unfolding kept_step_def by blast+
  with step show ?case by (meson rtranclp.rtrancl_into_rtrancl)
qed

end
