(* ===== verification/Store_Claims.thy ===== *)
theory Store_Claims
  imports Store_Log
begin

text \<open>
  What the control-plane store promises its callers: it refines a log of operation states and
  numbered snapshots, failed calls leave it alone, records only move forward, a revision names
  one snapshot, a terminal commit may be retried and a key is claimed once.
\<close>

section \<open>The abstract log\<close>

record 'rest store_spec =
  sp_revision :: int
  sp_snapshot :: "'rest store_snapshot"
  sp_state :: "string \<rightharpoonup> operation_state"

definition may_become :: "operation_state option \<Rightarrow> operation_state \<Rightarrow> bool" where
  "may_become s t = (case s of None \<Rightarrow> t \<in> {OP_ACCEPTED, OP_RUNNING} | Some s \<Rightarrow> is_operation_transition_allowed s t)"

inductive spec_step :: "'rest store_spec \<Rightarrow> 'rest store_spec \<Rightarrow> bool" where
  spec_stays: "spec_step a a"
| spec_publishes: "sp_revision a < max_snapshot_revision \<Longrightarrow>
    spec_step a (a\<lparr>sp_revision := sp_revision a + 1, sp_snapshot := sn\<rparr>)"
| spec_moves: "may_become (sp_state a i) s \<Longrightarrow> spec_step a (a\<lparr>sp_state := (sp_state a)(i \<mapsto> s)\<rparr>)"
| spec_commits: "sp_revision a < max_snapshot_revision \<Longrightarrow> may_become (sp_state a i) s \<Longrightarrow>
    spec_step a (a\<lparr>sp_revision := sp_revision a + 1, sp_snapshot := sn, sp_state := (sp_state a)(i \<mapsto> s)\<rparr>)"

definition states_of :: "(string, 'p operation_record) pydict \<Rightarrow> string \<rightharpoonup> operation_state" where
  "states_of records = (\<lambda>i. map_option record_state (dict_get records i))"

definition store_abs :: "('rest, 'p) op_store \<Rightarrow> 'rest store_spec" where
  "store_abs st = \<lparr>sp_revision = st_revision st, sp_snapshot = st_snapshot st, sp_state = states_of (st_records st)\<rparr>"

lemma states_of_set [simp]: "states_of (dict_set i r records) = (states_of records)(i \<mapsto> record_state r)"
  by (auto simp: states_of_def fun_eq_iff)

lemma transition_may_become:
  "require_operation_record_transition (dict_get records i) r = Inr True \<Longrightarrow> may_become (states_of records i) (record_state r)"
proof (cases "dict_get records i")
  case None
  then show "require_operation_record_transition (dict_get records i) r = Inr True \<Longrightarrow> ?thesis"
    by (simp add: record_transition_Inr may_become_def states_of_def)
next
  case (Some old)
  assume "require_operation_record_transition (dict_get records i) r = Inr True"
  then have "record_moves old r" unfolding Some record_transition_Inr by (simp split: if_splits)
  with Some show ?thesis by (simp add: may_become_def states_of_def record_moves_def)
qed

lemma advances_spec:
  assumes ok: "store_ok st'" and adv: "advances st st'"
  shows "spec_step (store_abs st) (store_abs st')"
proof -
  let ?same = "st_revision st' = st_revision st \<and> st_snapshot st' = st_snapshot st"
  have bound: "st_revision st < max_snapshot_revision" if "st_revision st' = st_revision st + 1"
    using ok that by (simp add: store_ok_def)
  consider "st_records st' = st_records st"
    | r where "st_records st' = dict_set (or_operation (rc_receipt r)) r (st_records st)"
        "may_become (states_of (st_records st) (or_operation (rc_receipt r))) (record_state r)"
    using adv transition_may_become unfolding advances_def by blast
  then show ?thesis
  proof cases
    case 1
    show ?thesis
    proof (cases ?same)
      case True
      with 1 show ?thesis using spec_stays by (simp add: store_abs_def)
    next
      case False
      with adv have "st_revision st' = st_revision st + 1" unfolding advances_def by blast
      with 1 show ?thesis
        using spec_publishes [of "store_abs st" "st_snapshot st'"] bound by (simp add: store_abs_def)
    qed
  next
    case (2 r)
    show ?thesis
    proof (cases ?same)
      case True
      with 2 show ?thesis
        using spec_moves [of "store_abs st" "or_operation (rc_receipt r)" "record_state r"] by (simp add: store_abs_def)
    next
      case False
      with adv have "st_revision st' = st_revision st + 1" unfolding advances_def by blast
      with 2 show ?thesis
        using spec_commits [of "store_abs st" "or_operation (rc_receipt r)" "record_state r" "st_snapshot st'"] bound
        by (simp add: store_abs_def)
    qed
  qed
qed

section \<open>An example\<close>

definition no_check :: "unit store_snapshot \<Rightarrow> unit res" where
  "no_check sn = Inr ()"

definition no_digest :: "history_event \<Rightarrow> string" where
  "no_digest e = ''00''"

definition example_context :: admission_context where
  "example_context = \<lparr>oc_actor = ''ops'', oc_scope = [''range''], oc_target = ''t'', oc_run = ''run-1'',
     oc_kind = KIND_EVALUATION, oc_commitment = ''c'', oc_parent = None\<rparr>"

definition example_record :: "operation_state \<Rightarrow> string \<Rightarrow> unit operation_record" where
  "example_record s t = \<lparr>
     rc_receipt = \<lparr>or_operation = ''op-1'', or_domain = EVALUATION, or_submitted = ''t0'', or_accepted = True,
       or_context = example_context, or_schema = operation_schema_version, or_diagnostics = []\<rparr>,
     rc_status = \<lparr>os_operation = ''op-1'', os_domain = EVALUATION, os_state = s, os_submitted = ''t0'', os_updated = t,
       os_context = example_context, os_schema = operation_schema_version, os_diagnostics = [], os_changed = []\<rparr>,
     rc_fingerprint = ''f'', rc_key = ''k'', rc_result = None, rc_decision_heads = Map.empty, rc_result_heads = Map.empty\<rparr>"

definition example_snapshot :: "unit store_snapshot" where
  "example_snapshot = \<lparr>ss_episode = Map.empty, ss_behavior = Map.empty, ss_control = Map.empty,
     ss_crossing = Map.empty, ss_information = Map.empty, ss_rest = ()\<rparr>"

definition running_store :: "(unit, unit) op_store" where
  "running_store = snd (claim_record (example_record OP_RUNNING ''t1'') (new_store example_snapshot))"

definition finished_store :: "(unit, unit) op_store" where
  "finished_store = snd (commit_terminal_operation no_check example_snapshot (example_record OP_SUCCEEDED ''t2'') None
     SNAPSHOT_BEARING 0 running_store)"

lemmas example_defs = example_record_def example_context_def example_snapshot_def no_check_def no_digest_def

lemma running_store_simp: "running_store =
    \<lparr>st_snapshot = example_snapshot, st_revision = 0, st_records = [(''op-1'', example_record OP_RUNNING ''t1'')],
     st_idempotency = [(''k'', ''op-1'')], st_audit = []\<rparr>"
  by (simp add: running_store_def claim_record_def save_record_def find_by_idempotency_def new_store_def
      updated_idempotency_def record_transition_Inr require_operation_record_transition_def
      require_operation_record_identity_def example_record_def dict_set_def dict_get_def)

lemma finishing: "commit_terminal_operation no_check example_snapshot (example_record OP_SUCCEEDED ''t2'') None
     SNAPSHOT_BEARING 0 running_store = (Inr (example_snapshot, 1), finished_store)"
  unfolding finished_store_def
  by (simp add: running_store_simp commit_terminal_operation_def Let_def dict_set_def dict_get_def require_terminal_operation_audit_def
      require_terminal_operation_transition_def require_operation_record_transition_def
      require_operation_record_identity_def require_same_operation_identity_def identity_members_def
      terminal_state_def example_record_def no_check_def require_expected_revision_def require_snapshot_revision_def
      max_snapshot_revision_def terminal_snapshot_def next_snapshot_revision_def publish_def updated_idempotency_def)

lemma finished_store_simp: "finished_store =
    \<lparr>st_snapshot = example_snapshot, st_revision = 1, st_records = [(''op-1'', example_record OP_SUCCEEDED ''t2'')],
     st_idempotency = [(''k'', ''op-1'')], st_audit = [terminal_operation_audit (example_record OP_SUCCEEDED ''t2'')]\<rparr>"
  unfolding finished_store_def
  by (simp add: running_store_simp commit_terminal_operation_def Let_def dict_set_def dict_get_def require_terminal_operation_audit_def
      require_terminal_operation_transition_def require_operation_record_transition_def
      require_operation_record_identity_def require_same_operation_identity_def identity_members_def
      terminal_state_def example_record_def no_check_def require_expected_revision_def require_snapshot_revision_def
      max_snapshot_revision_def terminal_snapshot_def next_snapshot_revision_def publish_def updated_idempotency_def)

lemma example_ok: "store_ok (new_store example_snapshot)" "store_ok running_store" "store_ok finished_store"
proof -
  show new: "store_ok (new_store example_snapshot)" by (rule new_store_ok)
  then show running: "store_ok running_store"
    unfolding running_store_def using claim_record_ok by (metis prod.collapse)
  then show "store_ok finished_store" using commit_terminal_ok finishing by blast
qed

lemma example_steps:
  "store_step no_check no_digest (new_store example_snapshot) running_store"
  "store_step no_check no_digest running_store finished_store"
  unfolding running_store_def
  by (rule claims_record [OF prod.collapse [symmetric]])
    (rule commits_terminal [OF finishing [unfolded running_store_def]])

lemma example_run:
  "(store_step no_check no_digest)\<^sup>*\<^sup>* running_store finished_store"
  "(store_step no_check no_digest)\<^sup>*\<^sup>* (new_store example_snapshot) finished_store"
  using example_steps by (meson r_into_rtranclp rtranclp_trans)+

section \<open>Properties\<close>

text \<open>
  C15. Refinement: started empty, the store is a log of operation states and numbered snapshots.
  Whatever calls are made in whatever order, every state reached in between is one the abstract
  log reaches: a new operation is accepted or running, states move along the legal transitions,
  a new snapshot takes the next revision, and the two may change only together or alone.
\<close>

theorem store_refines_operation_log:
  fixes st :: "('rest, 'p) op_store"
  assumes "(store_step admit digest)\<^sup>*\<^sup>* (new_store sn) st"
  shows "spec_step\<^sup>*\<^sup>* (store_abs (new_store sn :: ('rest, 'p) op_store)) (store_abs st)"
  using assms
proof (induction rule: rtranclp_induct)
  case base
  show ?case by simp
next
  case (step s1 s2)
  have "store_ok s1" using store_run_ok [OF step.hyps(1) new_store_ok] by blast
  then have "store_ok s2 \<and> advances s1 s2" by (rule store_step_ok [OF _ step.hyps(2)])
  with advances_spec step.IH show ?case by (metis rtranclp.rtrancl_into_rtrancl)
qed

lemma store_refines_operation_log_witness:
  "spec_step\<^sup>*\<^sup>* (store_abs (new_store example_snapshot :: (unit, unit) op_store)) (store_abs finished_store) \<and>
   sp_state (store_abs finished_store) ''op-1'' = Some OP_SUCCEEDED \<and> sp_revision (store_abs finished_store) = 1"
proof -
  have "store_abs finished_store = \<lparr>sp_revision = 1, sp_snapshot = example_snapshot,
      sp_state = [''op-1'' \<mapsto> OP_SUCCEEDED]\<rparr>"
    by (simp add: finished_store_simp store_abs_def states_of_def fun_eq_iff dict_get_def record_state_def example_record_def)
  with store_refines_operation_log [OF example_run(2)] show ?thesis by simp
qed

text \<open>
  A call that raises leaves the store exactly as it found it: snapshot, revision, records,
  keys and audit log. No check, revision conflict or key conflict can leave half a commit.
\<close>

definition atomic_call :: "(('rest, 'p) op_store \<Rightarrow> ('a, 'rest, 'p) stored) \<Rightarrow> ('rest, 'p) op_store \<Rightarrow> bool" where
  "atomic_call call st \<longleftrightarrow> is_ok (fst (call st)) \<or> snd (call st) = st"

lemma failed_calls_change_nothing:
  "atomic_call (save_snapshot admit sn n) st \<and> atomic_call (save_record r) st \<and> atomic_call (claim_record r) st \<and>
   atomic_call (commit_terminal_operation admit sn r audit mode n) st \<and>
   atomic_call (commit_participant_transition admit digest heads control n sn r event) st"
  by (intro conjI)
    (auto simp: atomic_call_def save_snapshot_def save_record_def claim_record_def commit_terminal_unfold
      commit_participant_unfold guarded_publish_def publish_def Let_def split: sum.splits option.splits)

text \<open>
  C16. From a store whose revision is in range and whose keys index its records: once an operation is
  recorded, every later store still has its record: with the same
  receipt and the same identity (schema, domain, submission, context, key, fingerprint), and in
  a state reached by legal transitions. A record in a terminal state is never touched again.
\<close>

theorem records_only_move_forward:
  assumes "store_ok st" and "(store_step admit digest)\<^sup>*\<^sup>* st st'" and "dict_get (st_records st) i = Some r"
  shows "\<exists>r'. dict_get (st_records st') i = Some r' \<and> rc_receipt r' = rc_receipt r \<and>
      identity_members r' = identity_members r \<and>
      is_operation_transition_allowed\<^sup>*\<^sup>* (record_state r) (record_state r') \<and>
      (terminal_state (record_state r) \<longrightarrow> r' = r)"
proof -
  have run: "(kept_step admit digest)\<^sup>*\<^sup>* st st'" using store_run_ok [OF assms(2,1)] by blast
  obtain r' where r': "dict_get (st_records st') i = Some r'" "record_moves\<^sup>*\<^sup>* r r'"
    using store.run_entry [OF run assms(3)] by blast
  have "terminal_state (record_state r) \<longrightarrow> r' = r"
    using store.run_final [OF run assms(3)] terminal_never_moves r'(1) by (metis option.inject)
  with r' record_moves_run [OF r'(2)] show ?thesis by blast
qed

lemma records_only_move_forward_witness:
  "\<exists>r' :: unit operation_record. dict_get (st_records finished_store) ''op-1'' = Some r' \<and>
     is_operation_transition_allowed\<^sup>*\<^sup>* OP_RUNNING (record_state r')"
proof -
  have "dict_get (st_records running_store) ''op-1'' = Some (example_record OP_RUNNING ''t1'')"
    by (simp add: running_store_simp dict_get_def)
  from records_only_move_forward [OF example_ok(2) example_run(1) this]
  show ?thesis by (auto simp: record_state_def example_record_def)
qed

text \<open>
  C17. Optimistic concurrency is sound, from a store whose revision is in range and whose keys index
  its records: the revision never decreases, and two stores of one run
  with the same revision hold the same snapshot, so a caller whose expected revision is accepted
  has read the snapshot it is about to replace.
\<close>

theorem revision_identifies_snapshot:
  assumes "store_ok st" and "(store_step admit digest)\<^sup>*\<^sup>* st st'"
  shows "st_revision st \<le> st_revision st' \<and> (st_revision st' = st_revision st \<longrightarrow> st_snapshot st' = st_snapshot st)"
  using store.run_revision store_run_ok [OF assms(2,1)] by blast

lemma revision_identifies_snapshot_witness:
  "st_revision running_store \<le> st_revision finished_store \<and> st_revision finished_store = 1"
  using revision_identifies_snapshot [OF example_ok(2) example_run(1)]
  by (simp add: finished_store_simp)

text \<open>
  A terminal commit may be repeated: when it wrote the record and no earlier audit entry has
  its operation and action, the same call made again returns the same snapshot and revision and
  changes nothing. So a caller that lost the answer can retry.
\<close>

lemma terminal_commit_may_be_retried:
  assumes "commit_terminal_operation admit sn r audit mode n st = (Inr committed, st')" and "st' \<noteq> st"
    and "filter (\<lambda>a. ae_operation a = or_operation (rc_receipt r) \<and> ae_action a = ae_action (terminal_operation_audit r))
      (st_audit st) = []"
  shows "commit_terminal_operation admit sn r audit mode n st' = (Inr committed, st')"
proof -
  define event where "event = (case audit of None \<Rightarrow> terminal_operation_audit r | Some e \<Rightarrow> e)"
  let ?i = "or_operation (rc_receipt r)"
  note run = assms(1) [unfolded commit_terminal_unfold Let_def, folded event_def]
  have guard: "terminal_guard admit sn r event st = Inr True"
    and pub: "guarded_publish r event (terminal_cut sn mode n st) st = (Inr committed, st')"
    using run assms(2) by (auto split: sum.splits if_splits)
  have event: "event = terminal_operation_audit r" "ae_operation event = ?i"
    using guard by (auto simp: terminal_guard_Inr terminal_operation_audit_def Let_def)
  from pub have cut: "terminal_cut sn mode n st = Inr committed" and st': "st_snapshot st' = fst committed"
    "st_revision st' = snd committed" "dict_get (st_records st') ?i = Some r" "st_audit st' = st_audit st @ [event]"
    by (auto simp: guarded_publish_def publish_def split: sum.splits)
  have again: "terminal_guard admit sn r event st' = Inr False"
    using guard st'(3) by (auto simp: terminal_guard_Inr record_transition_Inr)
  have "validate_retry label sn r event mode n st' = Inr committed" for label
    using cut st' assms(3) event
    by (cases committed) (auto simp: terminal_cut_Inr validate_retry_def load_snapshot_state_def split: if_splits
      intro: commit_mode.exhaust)
  with again show ?thesis unfolding commit_terminal_unfold Let_def event_def [symmetric] by simp
qed

lemma terminal_commit_may_be_retried_witness:
  "commit_terminal_operation no_check example_snapshot (example_record OP_SUCCEEDED ''t2'') None SNAPSHOT_BEARING 0 finished_store =
     (Inr (example_snapshot, 1), finished_store)"
  by (rule terminal_commit_may_be_retried [OF finishing]) (simp_all add: running_store_simp finished_store_simp)

text \<open>
  A key is claimed once: whatever happens after an operation with a key was recorded, a
  claim under that key returns that operation, with its receipt, and writes nothing.
\<close>

lemma key_is_claimed_once:
  assumes "store_ok st" and "(store_step admit digest)\<^sup>*\<^sup>* st st'" and "dict_get (st_records st) i = Some old"
    and "rc_key old \<noteq> []" and "rc_key r = rc_key old"
  shows "\<exists>existing. claim_record r st' = (Inr existing, st') \<and> rc_receipt existing = rc_receipt old"
proof -
  have run: "(kept_step admit digest)\<^sup>*\<^sup>* st st'" and ok: "store_ok st'" using store_run_ok [OF assms(2,1)] by blast+
  obtain r' where r': "dict_get (st_records st') i = Some r'" "record_moves\<^sup>*\<^sup>* old r'"
    using store.run_entry [OF run assms(3)] by blast
  have same: "rc_receipt r' = rc_receipt old" "rc_key r' = rc_key old"
    using record_moves_run [OF r'(2)] by (auto simp: identity_members_def)
  with ok r'(1) assms(4) have "dict_get (st_idempotency st') (rc_key old) = Some i"
    unfolding store_ok_def index_ok_def by metis
  with r'(1) assms(4,5) same show ?thesis by (simp add: claim_record_def find_by_idempotency_def)
qed

lemma key_is_claimed_once_witness:
  "\<exists>existing :: unit operation_record. claim_record (example_record OP_ACCEPTED ''t9'') finished_store = (Inr existing, finished_store)"
proof -
  have "dict_get (st_records running_store) ''op-1'' = Some (example_record OP_RUNNING ''t1'')"
    by (simp add: running_store_simp dict_get_def)
  from key_is_claimed_once [OF example_ok(2) example_run(1) this, of "example_record OP_ACCEPTED ''t9''"]
  show ?thesis by (auto simp: example_record_def)
qed

end
