(* ===== verification/Sat_Model.thy ===== *)
theory Sat_Model
  imports Plan_Contracts Py_Text
begin

text \<open>
  The normalized constraint model of the satisfiability analysis,
  \<open>raes_contracts/satisfiability.py\<close>: symbols with finite domains and membership clauses, with
  the checks of their constructors. \<open>scalar_key\<close>, the canonical JSON bytes of a scalar, is a
  parameter. The profile literals and the digests that bind the model to its source are left out.
\<close>

section \<open>Data\<close>

datatype json_scalar = ScalarStr string | ScalarInt int | ScalarBool bool

text \<open>\<open>_scalar_equal\<close> asks for the same type and the same value, which is equality here.\<close>

datatype constraint_sort = SORT_STRING | SORT_INTEGER | SORT_BOOLEAN

datatype clause_kind = DECLARED_DOMAIN | TARGET_DOMAIN

datatype sat_outcome = SATISFIABLE | UNSATISFIABLE | UNSUPPORTED

record constraint_symbol =
  sy_id :: string
  sy_variable :: string
  sy_sort :: constraint_sort
  sy_domain :: "json_scalar list"

record constraint_clause =
  cl_id :: string
  cl_kind :: clause_kind
  cl_symbol :: string
  cl_address :: string
  cl_allowed :: "json_scalar list"

record constraint_model =
  cm_symbols :: "constraint_symbol list"
  cm_clauses :: "constraint_clause list"

section \<open>Checks\<close>

definition lower_letters :: string where
  "lower_letters = ''abcdefghijklmnopqrstuvwxyz''"

definition upper_letters :: string where
  "upper_letters = ''ABCDEFGHIJKLMNOPQRSTUVWXYZ''"

definition decimal_digits :: string where
  "decimal_digits = ''0123456789''"

text \<open>\<open>ClauseId\<close> and \<open>SymbolId\<close>, and the names of variables.\<close>

definition sat_id :: "string \<Rightarrow> bool" where
  "sat_id s \<longleftrightarrow> s \<noteq> [] \<and> hd s \<in> set lower_letters \<and>
     set (tl s) \<subseteq> set (lower_letters @ decimal_digits @ ''._:-'') \<and> length s \<le> 256"

definition variable_name :: "string \<Rightarrow> bool" where
  "variable_name s \<longleftrightarrow> s \<noteq> [] \<and> hd s \<in> set (lower_letters @ upper_letters) \<and>
     set (tl s) \<subseteq> set (lower_letters @ upper_letters @ decimal_digits @ ''_-'') \<and> length s \<le> 128"

fun of_sort :: "constraint_sort \<Rightarrow> json_scalar \<Rightarrow> bool" where
  "of_sort SORT_STRING v = (case v of ScalarStr s \<Rightarrow> True | _ \<Rightarrow> False)"
| "of_sort SORT_INTEGER v = (case v of ScalarInt i \<Rightarrow> True | _ \<Rightarrow> False)"
| "of_sort SORT_BOOLEAN v = (case v of ScalarBool b \<Rightarrow> True | _ \<Rightarrow> False)"

definition make_symbol :: "(json_scalar \<Rightarrow> string) \<Rightarrow> constraint_symbol \<Rightarrow> constraint_symbol res" where
  "make_symbol scalar_key s =
     res_bind (require_that (sat_id (sy_id s) \<and> variable_name (sy_variable s) \<and>
         1 \<le> length (sy_domain s) \<and> length (sy_domain s) \<le> 256) (ValidationError ''symbol'')) (\<lambda>_.
     res_bind (require_that (list_all (of_sort (sy_sort s)) (sy_domain s))
         (ValidationError ''every domain member must match the symbol sort'')) (\<lambda>_.
     res_bind (require_that (distinct (map scalar_key (sy_domain s)))
         (ValidationError ''symbol domains must not contain duplicates'')) (\<lambda>_.
     res_bind (require_that (sort_key scalar_key (sy_domain s) = sy_domain s)
         (ValidationError ''symbol domains must use canonical order'')) (\<lambda>_. Inr s))))"

definition make_clause :: "(json_scalar \<Rightarrow> string) \<Rightarrow> constraint_clause \<Rightarrow> constraint_clause res" where
  "make_clause scalar_key c =
     res_bind (require_that (sat_id (cl_id c) \<and> sat_id (cl_symbol c) \<and>
         (cl_address c = [] \<or> hd (cl_address c) = CHR ''/'' \<and> pointer_chars (cl_address c)) \<and>
         length (cl_address c) \<le> 4096 \<and> length (cl_allowed c) \<le> 256) (ValidationError ''clause'')) (\<lambda>_.
     res_bind (require_that (distinct (map scalar_key (cl_allowed c)))
         (ValidationError ''clause allowed_values must not contain duplicates'')) (\<lambda>_.
     res_bind (require_that (sort_key scalar_key (cl_allowed c) = cl_allowed c)
         (ValidationError ''clause allowed_values must use canonical order'')) (\<lambda>_. Inr c)))"

definition find_symbol :: "constraint_model \<Rightarrow> string \<Rightarrow> constraint_symbol option" where
  "find_symbol m i = dict_get (foldl (\<lambda>d s. dict_set (sy_id s) s d) [] (cm_symbols m)) i"

definition validate_graph :: "(json_scalar \<Rightarrow> string) \<Rightarrow> constraint_model \<Rightarrow> unit res" where
  "validate_graph scalar_key m =
     (let symbol_ids = map sy_id (cm_symbols m); clause_ids = map cl_id (cm_clauses m) in
      res_bind (require_that (symbol_ids = sort symbol_ids \<and> distinct symbol_ids)
         (ValidationError ''symbols must be uniquely ordered by symbol_id'')) (\<lambda>_.
      res_bind (require_that (clause_ids = sort clause_ids \<and> distinct clause_ids)
         (ValidationError ''clauses must be uniquely ordered by clause_id'')) (\<lambda>_.
      res_all (\<lambda>c. case find_symbol m (cl_symbol c) of
           None \<Rightarrow> Inl (ValidationError ''every clause must reference a declared symbol'')
         | Some s \<Rightarrow> require_that (list_all (\<lambda>v. scalar_key v \<in> scalar_key ` set (sy_domain s)) (cl_allowed c))
             (ValidationError ''clause values must be members of the referenced symbol domain''))
        (cm_clauses m))))"

definition make_model :: "(json_scalar \<Rightarrow> string) \<Rightarrow> constraint_model \<Rightarrow> constraint_model res" where
  "make_model scalar_key m =
     res_bind (res_map (make_symbol scalar_key) (cm_symbols m)) (\<lambda>symbols.
     res_bind (res_map (make_clause scalar_key) (cm_clauses m)) (\<lambda>clauses.
     res_bind (require_that (length symbols \<le> 128 \<and> length clauses \<le> 512) (ValidationError ''model'')) (\<lambda>_.
     res_bind (validate_graph scalar_key (m\<lparr>cm_symbols := symbols, cm_clauses := clauses\<rparr>)) (\<lambda>_.
       Inr (m\<lparr>cm_symbols := symbols, cm_clauses := clauses\<rparr>)))))"

section \<open>What an admitted model satisfies\<close>

definition model_ok :: "constraint_model \<Rightarrow> bool" where
  "model_ok m \<longleftrightarrow> distinct (map sy_id (cm_symbols m)) \<and> distinct (map cl_id (cm_clauses m)) \<and>
     (\<forall>s \<in> set (cm_symbols m). sat_id (sy_id s) \<and> sy_domain s \<noteq> []) \<and>
     (\<forall>c \<in> set (cm_clauses m). sat_id (cl_id c) \<and> cl_symbol c \<in> sy_id ` set (cm_symbols m))"

lemma find_symbol_fold:
  "dict_get (foldl (\<lambda>d s. dict_set (sy_id s) s d) [] xs) i = Some s \<Longrightarrow> s \<in> set xs \<and> sy_id s = i"
  by (induction xs rule: rev_induct) (auto split: if_splits)

lemma find_symbol_Some: "find_symbol m i = Some s \<Longrightarrow> s \<in> set (cm_symbols m) \<and> sy_id s = i"
  unfolding find_symbol_def by (rule find_symbol_fold)

lemma find_symbol_fold_mem:
  assumes "distinct (map sy_id xs)" and "s \<in> set xs"
  shows "dict_get (foldl (\<lambda>d s. dict_set (sy_id s) s d) [] xs) (sy_id s) = Some s"
  using assms
proof (induction xs rule: rev_induct)
  case Nil
  then show ?case by simp
next
  case (snoc x xs)
  show ?case
  proof (cases "s = x")
    case True
    then show ?thesis by simp
  next
    case False
    with snoc.prems have "s \<in> set xs" by simp
    moreover from this snoc.prems have "sy_id s \<noteq> sy_id x" by (metis distinct_append disjoint_iff image_eqI list.set_intros(1) map_append set_map)
    ultimately show ?thesis using snoc by simp
  qed
qed

lemma find_symbol_mem:
  "distinct (map sy_id (cm_symbols m)) \<Longrightarrow> s \<in> set (cm_symbols m) \<Longrightarrow> find_symbol m (sy_id s) = Some s"
  unfolding find_symbol_def by (rule find_symbol_fold_mem)

lemma make_symbols_same: "res_map (make_symbol k) xs = Inr ys \<Longrightarrow> ys = xs \<and> (\<forall>s \<in> set xs. sat_id (sy_id s) \<and> sy_domain s \<noteq> [])"
  by (induction xs arbitrary: ys) (auto simp: res_bind_Inr_iff make_symbol_def)

lemma make_clauses_same: "res_map (make_clause k) xs = Inr ys \<Longrightarrow> ys = xs \<and> (\<forall>c \<in> set xs. sat_id (cl_id c))"
  by (induction xs arbitrary: ys) (auto simp: res_bind_Inr_iff make_clause_def)

lemma make_model_ok:
  assumes "make_model k m = Inr m'"
  shows "m' = m \<and> model_ok m"
proof -
  from assms obtain symbols clauses where parts: "res_map (make_symbol k) (cm_symbols m) = Inr symbols"
      "res_map (make_clause k) (cm_clauses m) = Inr clauses"
    and graph: "validate_graph k (m\<lparr>cm_symbols := symbols, cm_clauses := clauses\<rparr>) = Inr ()"
    and m': "m' = m\<lparr>cm_symbols := symbols, cm_clauses := clauses\<rparr>"
    unfolding make_model_def by (auto elim!: res_bind_InrE)
  note same = make_symbols_same [OF parts(1)] make_clauses_same [OF parts(2)]
  then have m: "m\<lparr>cm_symbols := symbols, cm_clauses := clauses\<rparr> = m" by simp
  have "cl_symbol c \<in> sy_id ` set (cm_symbols m)" if "c \<in> set (cm_clauses m)" for c
  proof -
    have "find_symbol m (cl_symbol c) \<noteq> None"
      using graph that unfolding m by (auto simp: validate_graph_def Let_def res_bind_Inr_iff res_all_Inr split: option.splits)
    then show ?thesis using find_symbol_Some by (metis image_eqI not_None_eq)
  qed
  moreover have "distinct (map sy_id (cm_symbols m))" "distinct (map cl_id (cm_clauses m))"
    using graph unfolding m by (simp_all add: validate_graph_def Let_def res_bind_Inr_iff)
  ultimately show ?thesis using same m m' unfolding model_ok_def by blast
qed

end
