(* ===== verification/Sat_Solver.thy ===== *)
theory Sat_Solver
  imports Sat_Model
begin

text \<open>
  The solver adapter, \<open>raes_processor/satisfiability/_solver.py\<close>. An operation takes the mutable
  check budget and raises or returns a value with the budget it leaves. Parameters: \<open>clock k\<close>,
  the k-th reading of the monotonic clock, and \<open>z3 n\<close>, the n-th call of \<open>Solver.check\<close> on the
  assertions and assumptions it is given.
\<close>

section \<open>Operations on the budget\<close>

text \<open>The message, phase, check count, check budget and reason of \<open>SolverOperationalError\<close>.\<close>

datatype solver_exn =
    OperationalError string string "int option" "int option" "string option"
  | MissingKey string

record check_budget =
  cb_max :: int
  cb_used :: int
  cb_deadline :: int
  cb_readings :: nat

type_synonym 'a solver_op = "check_budget \<Rightarrow> solver_exn + 'a \<times> check_budget"

definition op_return :: "'a \<Rightarrow> 'a solver_op" where
  "op_return x b = Inr (x, b)"

definition op_raise :: "solver_exn \<Rightarrow> 'a solver_op" where
  "op_raise e b = Inl e"

definition op_bind :: "'a solver_op \<Rightarrow> ('a \<Rightarrow> 'b solver_op) \<Rightarrow> 'b solver_op" where
  "op_bind m f b = (case m b of Inl e \<Rightarrow> Inl e | Inr (x, b') \<Rightarrow> f x b')"

fun op_fold :: "('s \<Rightarrow> 'a \<Rightarrow> 's solver_op) \<Rightarrow> 's \<Rightarrow> 'a list \<Rightarrow> 's solver_op" where
  "op_fold f s [] = op_return s"
| "op_fold f s (x # xs) = op_bind (f s x) (\<lambda>s'. op_fold f s' xs)"

definition solver_timeout_ms :: int where
  "solver_timeout_ms = 5000"

definition read_clock :: "(nat \<Rightarrow> int) \<Rightarrow> int solver_op" where
  "read_clock clock b = Inr (clock (cb_readings b), b\<lparr>cb_readings := cb_readings b + 1\<rparr>)"

definition checkpoint :: "(nat \<Rightarrow> int) \<Rightarrow> string \<Rightarrow> int option \<Rightarrow> unit solver_op" where
  "checkpoint clock phase count =
     op_bind (read_clock clock) (\<lambda>now b.
       if cb_deadline b \<le> now
       then Inl (OperationalError ''solver operation deadline exhausted'' phase
              (Some (case count of None \<Rightarrow> cb_used b | Some n \<Rightarrow> n)) (Some (cb_max b)) (Some ''operation-deadline-exhausted''))
       else Inr ((), b))"

text \<open>
  \<open>ceil\<close> of the quotient: below the deadline it is exact in floating point, the numbers being
  far below 2 to the 53 and the quotient a multiple of a millionth.
\<close>

definition remaining_timeout_ms :: "(nat \<Rightarrow> int) \<Rightarrow> string \<Rightarrow> int \<Rightarrow> int solver_op" where
  "remaining_timeout_ms clock phase count =
     op_bind (read_clock clock) (\<lambda>now b.
       let remaining = cb_deadline b - now in
       op_bind (if remaining \<le> 0 then checkpoint clock phase (Some count) else op_return ())
         (\<lambda>_. op_return (min solver_timeout_ms (max 1 (- ((- remaining) div 1000000))))) b)"

definition consume :: "(nat \<Rightarrow> int) \<Rightarrow> string \<Rightarrow> int solver_op" where
  "consume clock phase =
     op_bind (checkpoint clock phase None) (\<lambda>_ b.
       if cb_max b \<le> cb_used b
       then Inl (OperationalError ''solver check budget exhausted'' phase (Some (cb_used b)) (Some (cb_max b))
              (Some ''derived-check-budget-exhausted''))
       else Inr (cb_used b + 1, b\<lparr>cb_used := cb_used b + 1\<rparr>))"

definition solver_check_budget :: "constraint_model \<Rightarrow> int \<Rightarrow> check_budget" where
  "solver_check_budget m started =
     \<lparr>cb_max = 1 + max (int (sum_list (map (\<lambda>s. length (sy_domain s)) (cm_symbols m)))) (int (length (cm_clauses m))),
      cb_used = 0, cb_deadline = started + solver_timeout_ms * 1000000, cb_readings = 1\<rparr>"

section \<open>Expressions handed to Z3\<close>

datatype z3_expr =
    Z3_Bool string
  | Z3_Eq string int
  | Z3_Or "z3_expr list"
  | Z3_Implies z3_expr z3_expr
  | Z3_False

datatype z3_answer = Z3_SAT | Z3_UNSAT | Z3_UNKNOWN string

type_synonym z3_solver = "int \<Rightarrow> z3_expr list \<Rightarrow> z3_expr list \<Rightarrow> int \<Rightarrow> z3_answer"

text \<open>UTF-8 in hexadecimal, on the Latin-1 range.\<close>

definition hex_byte :: "nat \<Rightarrow> string" where
  "hex_byte n = [hex_digit (n div 16), hex_digit (n mod 16)]"

definition utf8_hex :: "char \<Rightarrow> string" where
  "utf8_hex c = (let n = of_char c :: nat in
     if n < 128 then hex_byte n else hex_byte (192 + n div 64) @ hex_byte (128 + n mod 64))"

definition z3_name :: "string \<Rightarrow> string" where
  "z3_name s = ''raes_'' @ concat (map utf8_hex s)"

text \<open>\<open>str.split()\<close> on runs of white space.\<close>

definition white_space :: "char \<Rightarrow> bool" where
  "white_space c \<longleftrightarrow> (of_char c :: nat) \<in> {9..13} \<union> {28..32} \<union> {133, 160}"

fun split_words :: "string \<Rightarrow> string \<Rightarrow> string list" where
  "split_words word [] = (if word = [] then [] else [word])"
| "split_words word (c # cs) =
     (if white_space c then (if word = [] then [] else [word]) @ split_words [] cs
      else split_words (word @ [c]) cs)"

fun join_space :: "string list \<Rightarrow> string" where
  "join_space [] = []"
| "join_space [w] = w"
| "join_space (w # ws) = w @ CHR '' '' # join_space ws"

definition unknown_reason :: "string \<Rightarrow> string" where
  "unknown_reason s = (let r = take 256 (join_space (split_words [] s)) in if r = [] then ''unspecified'' else r)"

section \<open>The session\<close>

record solver_session =
  sv_variables :: "(string, string) pydict"
  sv_trackers :: "(string, string) pydict"
  sv_assertions :: "z3_expr list"

definition lookup_name :: "(string, string) pydict \<Rightarrow> string \<Rightarrow> string solver_op" where
  "lookup_name d k = (case dict_get d k of None \<Rightarrow> op_raise (MissingKey k) | Some n \<Rightarrow> op_return n)"

definition build_checkpoint :: "(nat \<Rightarrow> int) \<Rightarrow> unit solver_op" where
  "build_checkpoint clock = checkpoint clock ''model-construction'' None"

definition add_symbol :: "(nat \<Rightarrow> int) \<Rightarrow> solver_session \<Rightarrow> constraint_symbol \<Rightarrow> solver_session solver_op" where
  "add_symbol clock sv s =
     op_bind (build_checkpoint clock) (\<lambda>_.
       op_return (sv\<lparr>sv_variables := dict_set (sy_id s) (z3_name (sy_id s)) (sv_variables sv)\<rparr>))"

definition allowed_indexes :: "(nat \<Rightarrow> int) \<Rightarrow> constraint_symbol \<Rightarrow> constraint_clause \<Rightarrow> nat list solver_op" where
  "allowed_indexes clock s c =
     op_fold (\<lambda>indexes (index, value). op_bind (build_checkpoint clock) (\<lambda>_.
         op_return (if value \<in> set (cl_allowed c) then indexes @ [index] else indexes)))
       [] (enumerate 0 (sy_domain s))"

definition clause_expression :: "string \<Rightarrow> nat list \<Rightarrow> z3_expr" where
  "clause_expression name indexes =
     (if indexes = [] then Z3_False else Z3_Or (map (\<lambda>index. Z3_Eq name (int index)) indexes))"

definition add_clause ::
  "(nat \<Rightarrow> int) \<Rightarrow> constraint_model \<Rightarrow> solver_session \<Rightarrow> constraint_clause \<Rightarrow> solver_session solver_op" where
  "add_clause clock m sv c =
     (case find_symbol m (cl_symbol c) of
        None \<Rightarrow> op_raise (MissingKey (cl_symbol c))
      | Some s \<Rightarrow>
          op_bind (allowed_indexes clock s c) (\<lambda>indexes.
          op_bind (lookup_name (sv_variables sv) (sy_id s)) (\<lambda>name.
          op_bind (build_checkpoint clock) (\<lambda>_.
            op_return (sv\<lparr>sv_trackers := dict_set (cl_id c) (z3_name (cl_id c)) (sv_trackers sv),
              sv_assertions := sv_assertions sv @
                [Z3_Implies (Z3_Bool (z3_name (cl_id c))) (clause_expression name indexes)]\<rparr>)))))"

definition solver_session :: "(nat \<Rightarrow> int) \<Rightarrow> constraint_model \<Rightarrow> solver_session solver_op" where
  "solver_session clock m =
     op_bind (build_checkpoint clock) (\<lambda>_.
     op_bind (op_fold (add_symbol clock) \<lparr>sv_variables = [], sv_trackers = [], sv_assertions = []\<rparr> (cm_symbols m)) (\<lambda>sv.
     op_bind (op_fold (add_clause clock m) sv (cm_clauses m)) (\<lambda>sv.
     op_bind (build_checkpoint clock) (\<lambda>_. op_return sv))))"

definition tracker_assumptions :: "solver_session \<Rightarrow> string list \<Rightarrow> z3_expr list solver_op" where
  "tracker_assumptions sv ids =
     op_fold (\<lambda>es i. op_bind (lookup_name (sv_trackers sv) i) (\<lambda>n. op_return (es @ [Z3_Bool n]))) [] ids"

definition fixed_assumptions :: "solver_session \<Rightarrow> z3_expr list \<Rightarrow> (string, nat) pydict \<Rightarrow> z3_expr list solver_op" where
  "fixed_assumptions sv es fixed =
     op_fold (\<lambda>es (i, index). op_bind (lookup_name (sv_variables sv) i) (\<lambda>n. op_return (es @ [Z3_Eq n (int index)]))) es fixed"

text \<open>The answer \<open>True\<close> is \<open>z3.sat\<close>, \<open>False\<close> is \<open>z3.unsat\<close>; \<open>z3.unknown\<close> raises.\<close>

definition check_consumed ::
  "z3_solver \<Rightarrow> (nat \<Rightarrow> int) \<Rightarrow> solver_session \<Rightarrow> string list \<Rightarrow> (string, nat) pydict \<Rightarrow> string \<Rightarrow> int \<Rightarrow> bool solver_op" where
  "check_consumed z3 clock sv ids fixed phase count =
     op_bind (tracker_assumptions sv ids) (\<lambda>trackers.
     op_bind (fixed_assumptions sv trackers fixed) (\<lambda>assumptions.
     op_bind (remaining_timeout_ms clock phase count) (\<lambda>timeout.
     op_bind (checkpoint clock phase (Some count)) (\<lambda>_ b.
       case z3 count (sv_assertions sv) assumptions timeout of
         Z3_SAT \<Rightarrow> Inr (True, b)
       | Z3_UNSAT \<Rightarrow> Inr (False, b)
       | Z3_UNKNOWN reason \<Rightarrow> Inl (OperationalError ''solver returned unknown'' phase (Some count) (Some (cb_max b))
             (Some (unknown_reason reason)))))))"

definition session_check ::
  "z3_solver \<Rightarrow> (nat \<Rightarrow> int) \<Rightarrow> solver_session \<Rightarrow> string list \<Rightarrow> (string, nat) pydict \<Rightarrow> string \<Rightarrow> bool solver_op" where
  "session_check z3 clock sv ids fixed phase =
     op_bind (consume clock phase) (\<lambda>count. check_consumed z3 clock sv ids fixed phase count)"

section \<open>Selecting the evidence\<close>

record sat_result =
  sr_outcome :: sat_outcome
  sr_assignment :: "(string, json_scalar) pydict option"
  sr_core :: "string list option"

fun try_domain ::
  "z3_solver \<Rightarrow> (nat \<Rightarrow> int) \<Rightarrow> solver_session \<Rightarrow> string list \<Rightarrow> (string, nat) pydict \<Rightarrow> string \<Rightarrow> nat \<Rightarrow>
     json_scalar list \<Rightarrow> (nat \<times> json_scalar) solver_op" where
  "try_domain z3 clock sv ids fixed i index [] = (\<lambda>b.
     Inl (OperationalError ''deterministic witness selection failed'' ''witness-selection'' (Some (cb_used b))
       (Some (cb_max b)) (Some ''no-feasible-domain-member-after-sat'')))"
| "try_domain z3 clock sv ids fixed i index (value # values) =
     op_bind (session_check z3 clock sv ids (dict_set i index fixed) ''witness-selection'') (\<lambda>sat.
       if sat then op_return (index, value) else try_domain z3 clock sv ids fixed i (index + 1) values)"

definition select_symbol ::
  "z3_solver \<Rightarrow> (nat \<Rightarrow> int) \<Rightarrow> solver_session \<Rightarrow> string list \<Rightarrow> (string, nat) pydict \<times> (string, json_scalar) pydict \<Rightarrow>
     constraint_symbol \<Rightarrow> ((string, nat) pydict \<times> (string, json_scalar) pydict) solver_op" where
  "select_symbol z3 clock sv ids st s = (case st of (fixed, assignment) \<Rightarrow>
     op_bind (try_domain z3 clock sv ids fixed (sy_id s) 0 (sy_domain s)) (\<lambda>(index, value).
       op_return (dict_set (sy_id s) index fixed, dict_set (sy_variable s) value assignment)))"

definition select_witness ::
  "z3_solver \<Rightarrow> (nat \<Rightarrow> int) \<Rightarrow> constraint_model \<Rightarrow> string list \<Rightarrow> solver_session \<Rightarrow> (string, json_scalar) pydict solver_op" where
  "select_witness z3 clock m ids sv =
     op_bind (op_fold (select_symbol z3 clock sv ids) ([], []) (cm_symbols m)) (\<lambda>(fixed, assignment). op_return assignment)"

definition reduce_step :: "z3_solver \<Rightarrow> (nat \<Rightarrow> int) \<Rightarrow> solver_session \<Rightarrow> string list \<Rightarrow> string \<Rightarrow> string list solver_op" where
  "reduce_step z3 clock sv core i =
     (let candidate = filter (\<lambda>item. item \<noteq> i) core in
      op_bind (session_check z3 clock sv candidate [] ''core-reduction'') (\<lambda>sat.
        op_return (if sat then core else candidate)))"

definition reduce_unsat_core :: "z3_solver \<Rightarrow> (nat \<Rightarrow> int) \<Rightarrow> string list \<Rightarrow> solver_session \<Rightarrow> string list solver_op" where
  "reduce_unsat_core z3 clock ids sv =
     op_bind (op_fold (reduce_step z3 clock sv) ids ids) (\<lambda>core. op_return (sort core))"

definition require_unique_clause_ids :: "constraint_model \<Rightarrow> unit solver_op" where
  "require_unique_clause_ids m =
     (if distinct (map cl_id (cm_clauses m)) then op_return ()
      else op_raise (OperationalError ''normalized model contains duplicate clause ids'' ''model-validation'' None None
        (Some ''duplicate-clause-id'')))"

definition solve_model :: "z3_solver \<Rightarrow> (nat \<Rightarrow> int) \<Rightarrow> constraint_model \<Rightarrow> solver_exn + sat_result" where
  "solve_model z3 clock m =
     (let ids = map cl_id (cm_clauses m);
        run = op_bind (require_unique_clause_ids m) (\<lambda>_.
          op_bind (checkpoint clock ''model-validation'' None) (\<lambda>_.
          op_bind (solver_session clock m) (\<lambda>sv.
          op_bind (session_check z3 clock sv ids [] ''initial-decision'') (\<lambda>sat.
          op_bind (if sat
              then op_bind (select_witness z3 clock m ids sv) (\<lambda>assignment.
                op_return \<lparr>sr_outcome = SATISFIABLE, sr_assignment = Some assignment, sr_core = None\<rparr>)
              else op_bind (reduce_unsat_core z3 clock ids sv) (\<lambda>core.
                op_return \<lparr>sr_outcome = UNSATISFIABLE, sr_assignment = None, sr_core = Some core\<rparr>)) (\<lambda>result.
          op_bind (checkpoint clock ''result-selection'' None) (\<lambda>_. op_return result))))))
      in case run (solver_check_budget m (clock 0)) of Inl e \<Rightarrow> Inl e | Inr (result, b) \<Rightarrow> Inr result)"

end
