(* ===== verification/Sat_Logic.thy ===== *)
theory Sat_Logic
  imports Sat_Solver
begin

text \<open>
  Reasoning about the adapter. A rule of the form \<open>within reasons clock deadline budget k f Q\<close>
  says that \<open>f\<close> uses at most \<open>k\<close> checks of the budget, raises only when the deadline passed or Z3 gave up for one of the \<open>reasons\<close>, and
  otherwise returns a value with \<open>Q\<close>. 
\<close>

section \<open>Interruptions\<close>

definition interrupted :: "string set \<Rightarrow> (nat \<Rightarrow> int) \<Rightarrow> int \<Rightarrow> solver_exn \<Rightarrow> bool" where
  "interrupted reasons clock deadline e \<longleftrightarrow>
     (\<exists>phase count budget k. deadline \<le> clock k \<and>
        e = OperationalError ''solver operation deadline exhausted'' phase count budget (Some ''operation-deadline-exhausted'')) \<or>
     (\<exists>phase count budget. \<exists>r \<in> reasons.
        e = OperationalError ''solver returned unknown'' phase count budget (Some (unknown_reason r)))"

definition within ::
  "string set \<Rightarrow> (nat \<Rightarrow> int) \<Rightarrow> int \<Rightarrow> int \<Rightarrow> int \<Rightarrow> 'a solver_op \<Rightarrow> ('a \<Rightarrow> bool) \<Rightarrow> bool" where
  "within reasons clock deadline budget k f Q \<longleftrightarrow>
     (\<forall>b. cb_deadline b = deadline \<longrightarrow> cb_max b = budget \<longrightarrow> cb_used b + k \<le> budget \<longrightarrow>
        (case f b of
           Inl e \<Rightarrow> interrupted reasons clock deadline e
         | Inr (x, b') \<Rightarrow> Q x \<and> cb_deadline b' = deadline \<and> cb_max b' = budget \<and> cb_used b' \<le> cb_used b + k))"

named_theorems within_intros \<open>rules for operations on the budget\<close>

lemma withinI:
  assumes "\<And>b. cb_deadline b = deadline \<Longrightarrow> cb_max b = budget \<Longrightarrow> cb_used b + k \<le> budget \<Longrightarrow>
    (case f b of Inl e \<Rightarrow> interrupted reasons clock deadline e
     | Inr (x, b') \<Rightarrow> Q x \<and> cb_deadline b' = deadline \<and> cb_max b' = budget \<and> cb_used b' \<le> cb_used b + k)"
  shows "within reasons clock deadline budget k f Q"
  using assms by (simp add: within_def)

lemma within_return [within_intros]: "0 \<le> k \<Longrightarrow> Q x \<Longrightarrow> within reasons clock deadline budget k (op_return x) Q"
  by (simp add: within_def op_return_def)

lemma within_bind:
  assumes f: "within reasons clock deadline budget j f Q"
    and g: "\<And>x. Q x \<Longrightarrow> within reasons clock deadline budget k (g x) R"
    and "0 \<le> j" and "0 \<le> k" and "n = j + k"
  shows "within reasons clock deadline budget n (op_bind f g) R"
proof (rule withinI)
  fix b :: check_budget
  assume b: "cb_deadline b = deadline" "cb_max b = budget" "cb_used b + n \<le> budget"
  have used: "cb_used b + j \<le> budget" using b(3) assms(4,5) by simp
  note step = f [unfolded within_def, rule_format, OF b(1,2) used]
  show "case op_bind f g b of Inl e \<Rightarrow> interrupted reasons clock deadline e
      | Inr (x, b') \<Rightarrow> R x \<and> cb_deadline b' = deadline \<and> cb_max b' = budget \<and> cb_used b' \<le> cb_used b + n"
  proof (cases "f b")
    case (Inl e)
    with step show ?thesis by (simp add: op_bind_def)
  next
    case (Inr r)
    obtain x b' where r: "r = (x, b')" by fastforce
    with step Inr have b': "Q x" "cb_deadline b' = deadline" "cb_max b' = budget" "cb_used b' \<le> cb_used b + j" by simp_all
    have "cb_used b' + k \<le> budget" using b'(4) b(3) assms(5) by simp
    note rest = g [OF b'(1), unfolded within_def, rule_format, OF b'(2,3) this]
    from rest b'(4) show ?thesis unfolding op_bind_def Inr r assms(5) by (auto split: sum.splits)
  qed
qed

lemma within_bind0 [within_intros]:
  assumes "within reasons clock deadline budget 0 f Q"
    and "\<And>x. Q x \<Longrightarrow> within reasons clock deadline budget k (g x) R" and "0 \<le> k"
  shows "within reasons clock deadline budget k (op_bind f g) R"
  using within_bind [OF assms(1,2)] assms(3) by simp

lemma within_mono:
  assumes "within reasons clock deadline budget j f P" and "\<And>x. P x \<Longrightarrow> Q x" and "j \<le> k"
  shows "within reasons clock deadline budget k f Q"
proof (rule withinI)
  fix b :: check_budget
  assume b: "cb_deadline b = deadline" "cb_max b = budget" "cb_used b + k \<le> budget"
  have used: "cb_used b + j \<le> budget" using b(3) assms(3) by simp
  show "case f b of Inl e \<Rightarrow> interrupted reasons clock deadline e
      | Inr (x, b') \<Rightarrow> Q x \<and> cb_deadline b' = deadline \<and> cb_max b' = budget \<and> cb_used b' \<le> cb_used b + k"
    using assms(1) [unfolded within_def, rule_format, OF b(1,2) used] assms(2,3) by (auto split: sum.splits)
qed

text \<open>A loop: an invariant over the part already done, and a number of checks for each element.\<close>

lemma within_fold:
  assumes "P [] s"
    and "\<And>ys x zs u. xs = ys @ x # zs \<Longrightarrow> P ys u \<Longrightarrow> within reasons clock deadline budget (cost x) (f u x) (P (ys @ [x]))"
    and "\<And>x. 0 \<le> cost x"
  shows "within reasons clock deadline budget (sum_list (map cost xs)) (op_fold f s xs) (P xs)"
proof -
  have "within reasons clock deadline budget (sum_list (map cost zs)) (op_fold f u zs) (P xs)" if "xs = ys @ zs" "P ys u" for ys zs u
    using that
  proof (induction zs arbitrary: ys u)
    case Nil
    then show ?case by (simp add: within_return)
  next
    case (Cons z zs)
    have cost: "0 \<le> sum_list (map cost zs)" by (rule sum_list_nonneg) (auto simp: assms(3))
    have "within reasons clock deadline budget (sum_list (map cost zs)) (op_fold f v zs) (P xs)" if "P (ys @ [z]) v" for v
      using Cons.IH [of "ys @ [z]"] Cons.prems(1) that by simp
    from within_bind [OF assms(2) [OF Cons.prems] this assms(3) cost] show ?case by simp
  qed
  from this [of "[]" xs] assms(1) show ?thesis by simp
qed

lemma within_fold0:
  assumes "P [] s"
    and "\<And>ys x zs u. xs = ys @ x # zs \<Longrightarrow> P ys u \<Longrightarrow> within reasons clock deadline budget 0 (f u x) (P (ys @ [x]))"
  shows "within reasons clock deadline budget 0 (op_fold f s xs) (P xs)"
  using within_fold [of P s xs reasons clock deadline budget "\<lambda>_. 0"] assms by simp

section \<open>The primitive operations\<close>

lemma within_checkpoint [within_intros]: "within reasons clock deadline budget 0 (checkpoint clock phase count) (\<lambda>_. True)"
  by (rule withinI)
    (auto simp: checkpoint_def op_bind_def read_clock_def interrupted_def)

lemma within_build_checkpoint [within_intros]: "within reasons clock deadline budget 0 (build_checkpoint clock) (\<lambda>_. True)"
  by (simp add: build_checkpoint_def within_checkpoint)

lemma within_consume: "within reasons clock deadline budget 1 (consume clock phase) (\<lambda>_. True)"
  by (rule withinI)
    (auto simp: consume_def checkpoint_def op_bind_def read_clock_def interrupted_def)

lemma within_read_clock: "within reasons clock deadline budget 0 (read_clock clock) (\<lambda>_. True)"
  by (rule withinI) (simp add: read_clock_def)

lemma within_timeout [within_intros]: "within reasons clock deadline budget 0 (remaining_timeout_ms clock phase count) (\<lambda>_. True)"
  by (rule withinI)
    (auto simp: remaining_timeout_ms_def op_bind_def read_clock_def checkpoint_def op_return_def interrupted_def Let_def)

lemma within_lookup [within_intros]:
  "dict_get d k = Some n \<Longrightarrow> within reasons clock deadline budget 0 (lookup_name d k) (\<lambda>x. x = n)"
  by (simp add: lookup_name_def within_return)

end
