(* ===== verification/Sat_Session.thy ===== *)
theory Sat_Session
  imports Sat_Logic
begin

text \<open>
  What Z3 is asked: the meaning of the expressions, the assertions a session is built with, and
  the meaning of one check for the model. Soundness of the solver is the interface \<open>smt\<close>.
\<close>

section \<open>Meaning of expressions\<close>

fun z3_holds :: "(string \<Rightarrow> int) \<Rightarrow> (string \<Rightarrow> bool) \<Rightarrow> z3_expr \<Rightarrow> bool" where
  "z3_holds v t (Z3_Bool n) = t n"
| "z3_holds v t (Z3_Eq n k) = (v n = k)"
| "z3_holds v t (Z3_Or es) = list_ex (z3_holds v t) es"
| "z3_holds v t (Z3_Implies e f) = (z3_holds v t e \<longrightarrow> z3_holds v t f)"
| "z3_holds v t Z3_False = False"

definition z3_satisfiable :: "z3_expr list \<Rightarrow> bool" where
  "z3_satisfiable es \<longleftrightarrow> (\<exists>v t. list_all (z3_holds v t) es)"

definition z3_sound :: "z3_solver \<Rightarrow> bool" where
  "z3_sound z3 \<longleftrightarrow> (\<forall>n asserted assumed timeout.
     (z3 n asserted assumed timeout = Z3_SAT \<longrightarrow> z3_satisfiable (asserted @ assumed)) \<and>
     (z3 n asserted assumed timeout = Z3_UNSAT \<longrightarrow> \<not> z3_satisfiable (asserted @ assumed)))"

section \<open>Names\<close>

lemma hex_byte_inj:
  assumes "hex_byte m = hex_byte n" and "m < 256" and "n < 256"
  shows "m = n"
proof -
  have "hex_digit i = hex_digit j \<longleftrightarrow> i = j" if "i < 16" "j < 16" for i j
  proof -
    have "distinct (''0123456789abcdef'')" "length (''0123456789abcdef'') = 16" by simp_all
    with that show ?thesis unfolding hex_digit_def by (metis nth_eq_iff_index_eq)
  qed
  with assms have "m div 16 = n div 16" "m mod 16 = n mod 16" unfolding hex_byte_def by auto
  then show ?thesis by (metis div_mult_mod_eq)
qed

lemma utf8_hex_ascii:
  assumes "(of_char c :: nat) < 128" and "(of_char d :: nat) < 128" and "utf8_hex c = utf8_hex d"
  shows "c = d"
proof -
  have "hex_byte (of_char c) = hex_byte (of_char d)" using assms by (simp add: utf8_hex_def Let_def)
  with assms have "(of_char c :: nat) = of_char d" by (intro hex_byte_inj) auto
  then show ?thesis by simp
qed

definition ascii :: "string \<Rightarrow> bool" where
  "ascii s \<longleftrightarrow> (\<forall>c \<in> set s. (of_char c :: nat) < 128)"

lemma z3_name_inj:
  assumes "ascii s" and "ascii t" and "z3_name s = z3_name t"
  shows "s = t"
proof -
  have "concat (map utf8_hex s) = concat (map utf8_hex t) \<Longrightarrow> s = t"
    using assms(1,2)
  proof (induction s arbitrary: t)
    case Nil
    then show ?case by (cases t) (auto simp: ascii_def utf8_hex_def hex_byte_def Let_def)
  next
    case (Cons c s)
    have len: "length (utf8_hex x) = 2" if "(of_char x :: nat) < 128" for x
      using that by (simp add: utf8_hex_def hex_byte_def Let_def)
    obtain d t' where t: "t = d # t'"
      using Cons.prems len [of c] by (cases t) (auto simp: ascii_def)
    have small: "(of_char c :: nat) < 128" "(of_char d :: nat) < 128" "ascii s" "ascii t'"
      using Cons.prems t by (auto simp: ascii_def)
    have "utf8_hex c = utf8_hex d \<and> concat (map utf8_hex s) = concat (map utf8_hex t')"
      using Cons.prems(1) t len [OF small(1)] len [OF small(2)] by simp
    with Cons.IH [of t'] utf8_hex_ascii small t show ?case by simp
  qed
  with assms(3) show ?thesis by (simp add: z3_name_def)
qed

lemma sat_id_ascii: "sat_id s \<Longrightarrow> ascii s"
proof -
  assume "sat_id s"
  then have "set s \<subseteq> set (lower_letters @ decimal_digits @ ''._:-'')"
    by (cases s) (auto simp: sat_id_def)
  moreover have "list_all (\<lambda>c. (of_char c :: nat) < 128) (lower_letters @ decimal_digits @ ''._:-'')"
    by (simp add: lower_letters_def decimal_digits_def)
  ultimately show ?thesis by (auto simp: ascii_def list_all_iff)
qed

section \<open>What a session asserts\<close>

definition clause_indexes :: "constraint_symbol \<Rightarrow> constraint_clause \<Rightarrow> nat list" where
  "clause_indexes s c = map fst (filter (\<lambda>(k, v). v \<in> set (cl_allowed c)) (enumerate 0 (sy_domain s)))"

definition symbol_of :: "constraint_model \<Rightarrow> constraint_clause \<Rightarrow> constraint_symbol" where
  "symbol_of m c = the (find_symbol m (cl_symbol c))"

definition clause_assertion :: "constraint_model \<Rightarrow> constraint_clause \<Rightarrow> z3_expr" where
  "clause_assertion m c = Z3_Implies (Z3_Bool (z3_name (cl_id c)))
     (clause_expression (z3_name (cl_symbol c)) (clause_indexes (symbol_of m c) c))"

definition named :: "string set \<Rightarrow> (string, string) pydict \<Rightarrow> bool" where
  "named is d \<longleftrightarrow> (\<forall>i \<in> is. dict_get d i = Some (z3_name i))"

definition built :: "constraint_model \<Rightarrow> solver_session \<Rightarrow> bool" where
  "built m sv \<longleftrightarrow> named (sy_id ` set (cm_symbols m)) (sv_variables sv) \<and>
     named (cl_id ` set (cm_clauses m)) (sv_trackers sv) \<and>
     sv_assertions sv = map (clause_assertion m) (cm_clauses m)"

lemma named_set: "named is d \<Longrightarrow> named (insert i is) (dict_set i (z3_name i) d)"
  by (simp add: named_def)

lemma symbol_of_mem:
  assumes "model_ok m" and "c \<in> set (cm_clauses m)"
  shows "find_symbol m (cl_symbol c) = Some (symbol_of m c) \<and> symbol_of m c \<in> set (cm_symbols m) \<and>
    sy_id (symbol_of m c) = cl_symbol c"
proof -
  from assms obtain s where "s \<in> set (cm_symbols m)" "cl_symbol c = sy_id s" unfolding model_ok_def by blast
  with assms show ?thesis by (simp add: symbol_of_def find_symbol_mem model_ok_def)
qed

lemma within_allowed_indexes:
  "within reasons clock deadline budget 0 (allowed_indexes clock s c) (\<lambda>ks. ks = clause_indexes s c)"
proof -
  let ?P = "\<lambda>ys ks. ks = map fst (filter (\<lambda>(k, v). v \<in> set (cl_allowed c)) ys)"
  have "within reasons clock deadline budget 0 (allowed_indexes clock s c) (?P (enumerate 0 (sy_domain s)))"
    unfolding allowed_indexes_def
    by (rule within_fold0) (auto simp: split_beta intro!: within_intros)
  then show ?thesis by (simp add: clause_indexes_def)
qed

lemma within_add_symbols:
  "within reasons clock deadline budget 0
     (op_fold (add_symbol clock) \<lparr>sv_variables = [], sv_trackers = [], sv_assertions = []\<rparr> symbols)
     (\<lambda>sv. named (sy_id ` set symbols) (sv_variables sv) \<and> sv_trackers sv = [] \<and> sv_assertions sv = [])"
  by (rule within_fold0) (auto simp: add_symbol_def named_def intro!: within_intros)

lemma within_add_clauses:
  assumes ok: "model_ok m" and sv: "named (sy_id ` set (cm_symbols m)) (sv_variables sv)" "sv_trackers sv = []" "sv_assertions sv = []"
  shows "within reasons clock deadline budget 0 (op_fold (add_clause clock m) sv (cm_clauses m)) (built m)"
proof -
  let ?P = "\<lambda>cs u. named (sy_id ` set (cm_symbols m)) (sv_variables u) \<and> named (cl_id ` set cs) (sv_trackers u) \<and>
    sv_assertions u = map (clause_assertion m) cs"
  have "within reasons clock deadline budget 0 (add_clause clock m u c) (?P (ys @ [c]))"
    if split: "cm_clauses m = ys @ c # zs" and u: "?P ys u" for ys c zs u
  proof -
    have c: "find_symbol m (cl_symbol c) = Some (symbol_of m c)" "symbol_of m c \<in> set (cm_symbols m)"
      "sy_id (symbol_of m c) = cl_symbol c"
      using symbol_of_mem [OF ok] split by auto
    then have name: "dict_get (sv_variables u) (cl_symbol c) = Some (z3_name (cl_symbol c))"
      using u unfolding named_def by (metis image_eqI)
    show ?thesis
      unfolding add_clause_def c(1) option.case c(3)
      by (rule within_bind0 [OF within_allowed_indexes], rule within_bind0 [OF within_lookup [OF name]],
          rule within_bind0 [OF within_build_checkpoint], rule within_return)
        (use u in \<open>auto simp: clause_assertion_def named_def\<close>)
  qed
  then have "within reasons clock deadline budget 0 (op_fold (add_clause clock m) sv (cm_clauses m)) (?P (cm_clauses m))"
    using sv by (intro within_fold0) (auto simp: named_def)
  then show ?thesis by (rule within_mono) (auto simp: built_def)
qed

lemma within_session:
  assumes "model_ok m"
  shows "within reasons clock deadline budget 0 (solver_session clock m) (built m)"
  unfolding solver_session_def
  by (rule within_bind0 [OF within_build_checkpoint], rule within_bind0 [OF within_add_symbols],
      rule within_bind0 [OF within_add_clauses [OF assms]])
    (auto intro!: within_intros)

section \<open>What an answer means\<close>

definition consistent :: "constraint_model \<Rightarrow> string set \<Rightarrow> (string, nat) pydict \<Rightarrow> bool" where
  "consistent m is fixed \<longleftrightarrow> (\<exists>v :: string \<Rightarrow> int.
     (\<forall>c \<in> set (cm_clauses m). cl_id c \<in> is \<longrightarrow> v (cl_symbol c) \<in> int ` set (clause_indexes (symbol_of m c) c)) \<and>
     (\<forall>(i, k) \<in> set fixed. v i = int k))"

definition assumptions :: "string list \<Rightarrow> (string, nat) pydict \<Rightarrow> z3_expr list" where
  "assumptions is fixed = map (\<lambda>i. Z3_Bool (z3_name i)) is @ map (\<lambda>(i, k). Z3_Eq (z3_name i) (int k)) fixed"

lemma assumptions_hold:
  "list_all (z3_holds v t) (assumptions is fixed) \<longleftrightarrow>
     (\<forall>i \<in> set is. t (z3_name i)) \<and> (\<forall>(i, k) \<in> set fixed. v (z3_name i) = int k)"
  by (simp add: assumptions_def list_all_iff split_beta ball_Un)

lemma clause_expression_holds:
  "z3_holds v t (clause_expression n ks) \<longleftrightarrow> v n \<in> int ` set ks"
  by (auto simp: clause_expression_def list_ex_iff)

lemma satisfiable_iff_consistent:
  assumes ok: "model_ok m" and ids: "set is \<subseteq> cl_id ` set (cm_clauses m)" and fixed: "fst ` set fixed \<subseteq> sy_id ` set (cm_symbols m)"
  shows "z3_satisfiable (map (clause_assertion m) (cm_clauses m) @ assumptions is fixed) \<longleftrightarrow> consistent m (set is) fixed"
proof
  assume "z3_satisfiable (map (clause_assertion m) (cm_clauses m) @ assumptions is fixed)"
  then obtain v t where clauses: "\<And>c. c \<in> set (cm_clauses m) \<Longrightarrow> z3_holds v t (clause_assertion m c)"
    and assumed: "list_all (z3_holds v t) (assumptions is fixed)"
    by (auto simp: z3_satisfiable_def list_all_iff)
  from assumed have "\<And>i. i \<in> set is \<Longrightarrow> t (z3_name i)" "\<And>i k. (i, k) \<in> set fixed \<Longrightarrow> v (z3_name i) = int k"
    unfolding assumptions_hold by fastforce+
  with clauses show "consistent m (set is) fixed" unfolding consistent_def
    by (intro exI [of _ "\<lambda>i. v (z3_name i)"])
      (auto simp: clause_assertion_def clause_expression_holds)
next
  assume "consistent m (set is) fixed"
  then obtain v where v: "\<And>c. c \<in> set (cm_clauses m) \<Longrightarrow> cl_id c \<in> set is \<Longrightarrow>
      v (cl_symbol c) \<in> int ` set (clause_indexes (symbol_of m c) c)"
    and fs: "\<And>i k. (i, k) \<in> set fixed \<Longrightarrow> v i = int k"
    unfolding consistent_def by fastforce
  have sym_ascii: "ascii i" if "i \<in> sy_id ` set (cm_symbols m)" for i
    using ok that sat_id_ascii unfolding model_ok_def by blast
  have clause_ascii: "ascii i" if "i \<in> cl_id ` set (cm_clauses m)" for i
    using ok that sat_id_ascii unfolding model_ok_def by blast
  define unname where "unname n = (SOME i. ascii i \<and> z3_name i = n)" for n
  have unname: "unname (z3_name i) = i" if "ascii i" for i
    unfolding unname_def by (rule some_equality) (use that z3_name_inj in auto)
  let ?t = "\<lambda>n. n \<in> z3_name ` set is" and ?v = "\<lambda>n. v (unname n)"
  have "z3_holds ?v ?t (clause_assertion m c)" if c: "c \<in> set (cm_clauses m)" for c
  proof (cases "z3_name (cl_id c) \<in> z3_name ` set is")
    case True
    then obtain i where "i \<in> set is" "z3_name (cl_id c) = z3_name i" by blast
    with ids clause_ascii c have "cl_id c \<in> set is" using z3_name_inj by (metis image_eqI subsetD)
    moreover have "ascii (cl_symbol c)" using ok c sym_ascii unfolding model_ok_def by blast
    ultimately show ?thesis using v [OF c] by (simp add: clause_assertion_def clause_expression_holds unname)
  qed (simp add: clause_assertion_def)
  moreover have "list_all (z3_holds ?v ?t) (assumptions is fixed)"
  proof -
    have "?v (z3_name i) = int k" if "(i, k) \<in> set fixed" for i k
    proof -
      have "i \<in> sy_id ` set (cm_symbols m)" using that fixed by force
      with unname sym_ascii fs [OF that] show ?thesis by simp
    qed
    then show ?thesis unfolding assumptions_hold by blast
  qed
  ultimately have "list_all (z3_holds ?v ?t) (map (clause_assertion m) (cm_clauses m) @ assumptions is fixed)"
    by (auto simp: list_all_iff)
  then show "z3_satisfiable (map (clause_assertion m) (cm_clauses m) @ assumptions is fixed)"
    unfolding z3_satisfiable_def by blast
qed

text \<open>The reasons for which Z3 gives up on a question about the model.\<close>

definition unknowns :: "z3_solver \<Rightarrow> constraint_model \<Rightarrow> string set" where
  "unknowns z3 m = {r. \<exists>n is fixed timeout. set is \<subseteq> cl_id ` set (cm_clauses m) \<and> fst ` set fixed \<subseteq> sy_id ` set (cm_symbols m) \<and>
     z3 n (map (clause_assertion m) (cm_clauses m)) (assumptions is fixed) timeout = Z3_UNKNOWN r}"

section \<open>The solver as an interface\<close>

locale smt =
  fixes z3 :: z3_solver and clock :: "nat \<Rightarrow> int" and deadline :: int and budget :: int
  assumes sound: "z3_sound z3"
begin

lemma within_tracker_assumptions:
  assumes "built m sv" and "set is \<subseteq> cl_id ` set (cm_clauses m)"
  shows "within (unknowns z3 m) clock deadline budget 0 (tracker_assumptions sv is) (\<lambda>es. es = map (\<lambda>i. Z3_Bool (z3_name i)) is)"
  unfolding tracker_assumptions_def
  by (rule within_fold0) (use assms in \<open>auto simp: built_def named_def intro!: within_intros\<close>)

lemma within_fixed_assumptions:
  assumes "built m sv" and "fst ` set fixed \<subseteq> sy_id ` set (cm_symbols m)"
  shows "within (unknowns z3 m) clock deadline budget 0 (fixed_assumptions sv es fixed)
    (\<lambda>fs. fs = es @ map (\<lambda>(i, k). Z3_Eq (z3_name i) (int k)) fixed)"
proof -
  have name: "dict_get (sv_variables sv) i = Some (z3_name i)" if "(i, k) \<in> set fixed" for i k
    using assms that unfolding built_def named_def by force
  show ?thesis
    unfolding fixed_assumptions_def
  proof (rule within_fold0)
    fix ys x zs fs
    assume "fixed = ys @ x # zs" and fs: "fs = es @ map (\<lambda>(i, k). Z3_Eq (z3_name i) (int k)) ys"
    obtain i k where x: "x = (i, k)" by fastforce
    with \<open>fixed = ys @ x # zs\<close> have "dict_get (sv_variables sv) i = Some (z3_name i)" by (intro name) auto
    from within_lookup [OF this] show "within (unknowns z3 m) clock deadline budget 0
        ((\<lambda>(i, index). op_bind (lookup_name (sv_variables sv) i) (\<lambda>n. op_return (fs @ [Z3_Eq n (int index)]))) x)
        (\<lambda>gs. gs = es @ map (\<lambda>(i, k). Z3_Eq (z3_name i) (int k)) (ys @ [x]))"
      unfolding x prod.case by (rule within_bind0) (simp_all add: fs within_return)
  qed simp
qed

lemma within_check:
  assumes m: "model_ok m" and sv: "built m sv" and ids: "set is \<subseteq> cl_id ` set (cm_clauses m)"
    and fixed: "fst ` set fixed \<subseteq> sy_id ` set (cm_symbols m)"
  shows "within (unknowns z3 m) clock deadline budget 1 (session_check z3 clock sv is fixed phase) (\<lambda>sat. sat \<longleftrightarrow> consistent m (set is) fixed)"
proof -
  let ?es = "map (\<lambda>i. Z3_Bool (z3_name i)) is"
  have assumed: "?es @ map (\<lambda>(i, k). Z3_Eq (z3_name i) (int k)) fixed = assumptions is fixed" by (simp add: assumptions_def)
  have asserted: "sv_assertions sv = map (clause_assertion m) (cm_clauses m)" using sv by (simp add: built_def)
  note meaning = satisfiable_iff_consistent [OF m ids fixed]
  have answer: "within (unknowns z3 m) clock deadline budget 0 (\<lambda>b.
       case z3 n (sv_assertions sv) (assumptions is fixed) timeout of
         Z3_SAT \<Rightarrow> Inr (True, b) | Z3_UNSAT \<Rightarrow> Inr (False, b)
       | Z3_UNKNOWN reason \<Rightarrow> Inl (OperationalError ''solver returned unknown'' phase (Some n) (Some (cb_max b))
             (Some (unknown_reason reason)))) (\<lambda>sat. sat \<longleftrightarrow> consistent m (set is) fixed)" for n timeout
  proof (rule withinI)
    fix b :: check_budget
    let ?answer = "z3 n (sv_assertions sv) (assumptions is fixed) timeout"
    have "?answer = Z3_SAT \<longrightarrow> consistent m (set is) fixed" "?answer = Z3_UNSAT \<longrightarrow> \<not> consistent m (set is) fixed"
      using sound meaning unfolding asserted z3_sound_def by blast+
    moreover have unknown: "?answer = Z3_UNKNOWN r \<Longrightarrow> r \<in> unknowns z3 m" for r
      unfolding asserted unknowns_def using ids fixed by blast
    moreover assume "cb_deadline b = deadline" "cb_max b = budget"
    ultimately show "case (case ?answer of Z3_SAT \<Rightarrow> Inr (True, b) | Z3_UNSAT \<Rightarrow> Inr (False, b)
       | Z3_UNKNOWN reason \<Rightarrow> Inl (OperationalError ''solver returned unknown'' phase (Some n) (Some (cb_max b))
             (Some (unknown_reason reason)))) of
        Inl e \<Rightarrow> interrupted (unknowns z3 m) clock deadline e
      | Inr (sat, b') \<Rightarrow> (sat \<longleftrightarrow> consistent m (set is) fixed) \<and> cb_deadline b' = deadline \<and> cb_max b' = budget \<and>
          cb_used b' \<le> cb_used b + 0"
      using unknown by (cases ?answer) (auto simp: interrupted_def)
  qed
  have "within (unknowns z3 m) clock deadline budget 0 (check_consumed z3 clock sv is fixed phase n) (\<lambda>sat. sat \<longleftrightarrow> consistent m (set is) fixed)" for n
    unfolding check_consumed_def
    by (rule within_bind0 [OF within_tracker_assumptions [OF sv ids]], rule within_bind0 [OF within_fixed_assumptions [OF sv fixed]],
        rule within_bind0 [OF within_timeout], rule within_bind0 [OF within_checkpoint])
      (simp_all add: assumed answer)
  then show ?thesis
    unfolding session_check_def by (rule within_bind [OF within_consume]) simp_all
qed

end

end
