(* ===== verification/Sat_Select.thy ===== *)
theory Sat_Select
  imports Sat_Session
begin

text \<open>
  What the model means, and that the two selections of the adapter find it: the loop over the
  domains finds the first admitted value of every symbol, the deletion loop a core none of whose
  clauses can be spared.
\<close>

section \<open>Meaning of a model\<close>

text \<open>A choice of values admits the clauses named \<open>is\<close>.\<close>

definition admits :: "constraint_model \<Rightarrow> string set \<Rightarrow> (string \<Rightarrow> json_scalar) \<Rightarrow> bool" where
  "admits m is f \<longleftrightarrow> (\<forall>s \<in> set (cm_symbols m). f (sy_id s) \<in> set (sy_domain s)) \<and>
     (\<forall>c \<in> set (cm_clauses m). cl_id c \<in> is \<longrightarrow> f (cl_symbol c) \<in> set (cl_allowed c))"

definition model_satisfiable :: "constraint_model \<Rightarrow> string set \<Rightarrow> bool" where
  "model_satisfiable m is \<longleftrightarrow> (\<exists>f. admits m is f)"

definition all_clauses :: "constraint_model \<Rightarrow> string set" where
  "all_clauses m = cl_id ` set (cm_clauses m)"

definition position :: "'a list \<Rightarrow> 'a \<Rightarrow> nat" where
  "position xs v = length (takeWhile (\<lambda>x. x \<noteq> v) xs)"

definition allowed_index :: "constraint_model \<Rightarrow> constraint_symbol \<Rightarrow> nat \<Rightarrow> bool" where
  "allowed_index m s k \<longleftrightarrow> k < length (sy_domain s) \<and>
     (\<forall>c \<in> set (cm_clauses m). cl_symbol c = sy_id s \<longrightarrow> sy_domain s ! k \<in> set (cl_allowed c))"

definition least_index :: "constraint_model \<Rightarrow> constraint_symbol \<Rightarrow> nat" where
  "least_index m s = (LEAST k. allowed_index m s k)"

lemma position_nth: "v \<in> set xs \<Longrightarrow> position xs v < length xs \<and> xs ! position xs v = v"
  unfolding position_def by (induction xs) auto

lemma position_le: "k < length xs \<Longrightarrow> position xs (xs ! k) \<le> k"
proof (induction xs arbitrary: k)
  case Nil
  then show ?case by simp
next
  case (Cons x xs)
  then show ?case by (cases k) (auto simp: position_def)
qed

lemma clause_indexes_iff: "k \<in> set (clause_indexes s c) \<longleftrightarrow> k < length (sy_domain s) \<and> sy_domain s ! k \<in> set (cl_allowed c)"
  unfolding clause_indexes_def by (force simp: in_set_enumerate_eq image_iff)

lemma symbols_unique:
  "model_ok m \<Longrightarrow> s \<in> set (cm_symbols m) \<Longrightarrow> t \<in> set (cm_symbols m) \<Longrightarrow> sy_id s = sy_id t \<Longrightarrow> s = t"
  unfolding model_ok_def by (metis find_symbol_mem option.inject)

lemma symbol_of_eq:
  "model_ok m \<Longrightarrow> c \<in> set (cm_clauses m) \<Longrightarrow> s \<in> set (cm_symbols m) \<Longrightarrow> cl_symbol c = sy_id s \<Longrightarrow> symbol_of m c = s"
  using symbol_of_mem symbols_unique by metis

section \<open>Answers about indexes are answers about values\<close>

lemma consistent_satisfiable:
  assumes m: "model_ok m"
  shows "consistent m is [] \<longleftrightarrow> model_satisfiable m is"
proof
  assume "consistent m is []"
  then obtain v where v: "\<And>c. c \<in> set (cm_clauses m) \<Longrightarrow> cl_id c \<in> is \<Longrightarrow>
      v (cl_symbol c) \<in> int ` set (clause_indexes (symbol_of m c) c)"
    unfolding consistent_def by blast
  define f where "f i = (let d = sy_domain (the (find_symbol m i)) in if v i \<in> int ` {..<length d} then d ! nat (v i) else d ! 0)" for i
  have "f (sy_id s) \<in> set (sy_domain s)" if s: "s \<in> set (cm_symbols m)" for s
  proof -
    from m s have "find_symbol m (sy_id s) = Some s" "sy_domain s \<noteq> []"
      by (auto simp: model_ok_def find_symbol_mem)
    then show ?thesis by (auto simp: f_def Let_def)
  qed
  moreover have "f (cl_symbol c) \<in> set (cl_allowed c)" if c: "c \<in> set (cm_clauses m)" "cl_id c \<in> is" for c
  proof -
    have s: "find_symbol m (cl_symbol c) = Some (symbol_of m c)" using symbol_of_mem [OF m c(1)] by blast
    from v [OF c] obtain k where "v (cl_symbol c) = int k" "k < length (sy_domain (symbol_of m c))"
        "sy_domain (symbol_of m c) ! k \<in> set (cl_allowed c)"
      by (auto simp: clause_indexes_iff)
    with s show ?thesis by (auto simp: f_def Let_def)
  qed
  ultimately show "model_satisfiable m is" unfolding model_satisfiable_def admits_def by blast
next
  assume "model_satisfiable m is"
  then obtain f where f: "admits m is f" unfolding model_satisfiable_def by blast
  let ?v = "\<lambda>i. int (position (sy_domain (the (find_symbol m i))) (f i))"
  have "?v (cl_symbol c) \<in> int ` set (clause_indexes (symbol_of m c) c)" if c: "c \<in> set (cm_clauses m)" "cl_id c \<in> is" for c
  proof -
    have s: "find_symbol m (cl_symbol c) = Some (symbol_of m c)" "symbol_of m c \<in> set (cm_symbols m)"
        "sy_id (symbol_of m c) = cl_symbol c"
      using symbol_of_mem [OF m c(1)] by blast+
    have "f (cl_symbol c) \<in> set (sy_domain (symbol_of m c))" "f (cl_symbol c) \<in> set (cl_allowed c)"
      using f s c unfolding admits_def by metis+
    then show ?thesis using s(1) position_nth by (force simp: clause_indexes_iff)
  qed
  then show "consistent m is []" unfolding consistent_def by (intro exI [of _ ?v]) auto
qed

text \<open>Every clause restricts one symbol, so symbols can be decided one after the other.\<close>

lemma consistent_extend:
  assumes m: "model_ok m" and fixed: "consistent m (all_clauses m) fixed" and s: "s \<in> set (cm_symbols m)"
    and new: "sy_id s \<notin> fst ` set fixed" and k: "k < length (sy_domain s)"
  shows "consistent m (all_clauses m) (fixed @ [(sy_id s, k)]) \<longleftrightarrow> allowed_index m s k"
proof
  assume "consistent m (all_clauses m) (fixed @ [(sy_id s, k)])"
  then obtain v where v: "\<And>c. c \<in> set (cm_clauses m) \<Longrightarrow>
      v (cl_symbol c) \<in> int ` set (clause_indexes (symbol_of m c) c)" and "v (sy_id s) = int k"
    unfolding consistent_def all_clauses_def by auto
  then have "k \<in> set (clause_indexes s c)" if "c \<in> set (cm_clauses m)" "cl_symbol c = sy_id s" for c
    using that symbol_of_eq [OF m that(1) s that(2)] by force
  then show "allowed_index m s k" using k unfolding allowed_index_def clause_indexes_iff by blast
next
  assume allowed: "allowed_index m s k"
  from fixed obtain v where v: "\<And>c. c \<in> set (cm_clauses m) \<Longrightarrow>
      v (cl_symbol c) \<in> int ` set (clause_indexes (symbol_of m c) c)"
    and vf: "\<forall>(i, k) \<in> set fixed. v i = int k"
    unfolding consistent_def all_clauses_def by auto
  let ?v = "v(sy_id s := int k)"
  have "?v (cl_symbol c) \<in> int ` set (clause_indexes (symbol_of m c) c)" if c: "c \<in> set (cm_clauses m)" for c
  proof (cases "cl_symbol c = sy_id s")
    case True
    then show ?thesis using allowed symbol_of_eq [OF m c s True] c by (auto simp: allowed_index_def clause_indexes_iff)
  next
    case False
    with v [OF c] show ?thesis by simp
  qed
  moreover have "\<forall>(i, j) \<in> set (fixed @ [(sy_id s, k)]). ?v i = int j" using vf new by force
  ultimately show "consistent m (all_clauses m) (fixed @ [(sy_id s, k)])" unfolding consistent_def by blast
qed

lemma some_allowed:
  assumes m: "model_ok m" and fixed: "consistent m (all_clauses m) fixed" and s: "s \<in> set (cm_symbols m)"
  shows "\<exists>k. allowed_index m s k"
proof (cases "\<exists>c \<in> set (cm_clauses m). cl_symbol c = sy_id s")
  case True
  then obtain c where c: "c \<in> set (cm_clauses m)" "cl_symbol c = sy_id s" by blast
  from fixed obtain v where v: "\<And>c. c \<in> set (cm_clauses m) \<Longrightarrow>
      v (cl_symbol c) \<in> int ` set (clause_indexes (symbol_of m c) c)"
    unfolding consistent_def all_clauses_def by auto
  from v [OF c(1)] obtain k where k: "v (sy_id s) = int k" "k < length (sy_domain s)"
    using symbol_of_eq [OF m c(1) s c(2)] c(2) by (auto simp: clause_indexes_iff)
  have "sy_domain s ! k \<in> set (cl_allowed d)" if d: "d \<in> set (cm_clauses m)" "cl_symbol d = sy_id s" for d
    using v [OF d(1)] k symbol_of_eq [OF m d(1) s d(2)] d(2) by (auto simp: clause_indexes_iff)
  with k(2) show ?thesis unfolding allowed_index_def by blast
next
  case False
  with m s have "allowed_index m s 0" by (auto simp: model_ok_def allowed_index_def)
  then show ?thesis ..
qed

lemma consistent_less: "consistent m is fixed \<Longrightarrow> js \<subseteq> is \<Longrightarrow> consistent m js fixed"
  unfolding consistent_def by (metis subsetD)

section \<open>The two loops\<close>

lemma dict_set_new: "k \<notin> fst ` set d \<Longrightarrow> dict_set k v d = d @ [(k, v)]"
  unfolding dict_set_def by (induction d) auto

definition chosen :: "constraint_model \<Rightarrow> constraint_symbol list \<Rightarrow> (string, nat) pydict" where
  "chosen m ss = map (\<lambda>s. (sy_id s, least_index m s)) ss"

definition assignment_of :: "constraint_symbol list \<Rightarrow> (string \<Rightarrow> json_scalar) \<Rightarrow> (string, json_scalar) pydict" where
  "assignment_of ss f = foldl (\<lambda>d s. dict_set (sy_variable s) (f (sy_id s)) d) [] ss"

definition least_value :: "constraint_model \<Rightarrow> string \<Rightarrow> json_scalar" where
  "least_value m i = (let s = the (find_symbol m i) in sy_domain s ! least_index m s)"

lemma least_value_symbol:
  "model_ok m \<Longrightarrow> s \<in> set (cm_symbols m) \<Longrightarrow> least_value m (sy_id s) = sy_domain s ! least_index m s"
  by (simp add: least_value_def find_symbol_mem model_ok_def)

context smt
begin

lemma within_try_domain:
  assumes m: "model_ok m" and sv: "built m sv" and ids: "set is = all_clauses m"
    and fixed: "consistent m (all_clauses m) fixed" "fst ` set fixed \<subseteq> sy_id ` set (cm_symbols m)"
    and s: "s \<in> set (cm_symbols m)" "sy_id s \<notin> fst ` set fixed"
    and vs: "sy_domain s = us @ vs" and none: "\<forall>j < length us. \<not> allowed_index m s j"
  shows "within (unknowns z3 m) clock deadline budget (int (length vs)) (try_domain z3 clock sv is fixed (sy_id s) (length us) vs)
    (\<lambda>r. r = (least_index m s, sy_domain s ! least_index m s) \<and> allowed_index m s (least_index m s))"
  using vs none
proof (induction vs arbitrary: us)
  case Nil
  obtain k where "allowed_index m s k" using some_allowed [OF m fixed(1) s(1)] by blast
  with Nil have False by (auto simp: allowed_index_def)
  then show ?case ..
next
  case (Cons v vs)
  let ?Q = "\<lambda>r. r = (least_index m s, sy_domain s ! least_index m s) \<and> allowed_index m s (least_index m s)"
  have k: "length us < length (sy_domain s)" using Cons.prems(1) by simp
  have check: "within (unknowns z3 m) clock deadline budget 1
      (session_check z3 clock sv is (dict_set (sy_id s) (length us) fixed) ''witness-selection'')
      (\<lambda>sat. sat \<longleftrightarrow> allowed_index m s (length us))"
    using within_check [OF m sv, of "is" "fixed @ [(sy_id s, length us)]"] ids fixed(2) s(1)
    unfolding dict_set_new [OF s(2)] ids consistent_extend [OF m fixed(1) s k] by (simp add: all_clauses_def)
  have "within (unknowns z3 m) clock deadline budget (int (length vs))
      (if sat then op_return (length us, v) else try_domain z3 clock sv is fixed (sy_id s) (length us + 1) vs) ?Q"
    if sat: "sat \<longleftrightarrow> allowed_index m s (length us)" for sat
  proof (cases sat)
    case True
    with sat Cons.prems(2) have "least_index m s = length us"
      unfolding least_index_def by (intro Least_equality) (auto simp: not_less [symmetric])
    with True sat Cons.prems(1) show ?thesis by (simp add: within_return)
  next
    case False
    with sat Cons.prems(2) have "\<forall>j < length (us @ [v]). \<not> allowed_index m s j" by (simp add: less_Suc_eq)
    with Cons.IH [of "us @ [v]"] Cons.prems(1) False show ?thesis by simp
  qed
  from within_bind [OF check this] show ?case by simp
qed

lemma within_select_witness:
  assumes m: "model_ok m" and sv: "built m sv" and ids: "set is = all_clauses m" and con: "consistent m (all_clauses m) []"
  shows "within (unknowns z3 m) clock deadline budget (sum_list (map (\<lambda>s. int (length (sy_domain s))) (cm_symbols m)))
    (select_witness z3 clock m is sv)
    (\<lambda>a. a = assignment_of (cm_symbols m) (least_value m) \<and> (\<forall>s \<in> set (cm_symbols m). allowed_index m s (least_index m s)))"
proof -
  let ?P = "\<lambda>ys (fixed, a). fixed = chosen m ys \<and> a = assignment_of ys (least_value m) \<and>
    consistent m (all_clauses m) fixed \<and> (\<forall>s \<in> set ys. allowed_index m s (least_index m s))"
  have "within (unknowns z3 m) clock deadline budget (int (length (sy_domain s))) (select_symbol z3 clock sv is st s) (?P (ys @ [s]))"
    if split: "cm_symbols m = ys @ s # zs" and st: "?P ys st" for ys s zs st
  proof -
    obtain fixed a where st_eq: "st = (fixed, a)" by fastforce
    with st have fixed: "fixed = chosen m ys" "a = assignment_of ys (least_value m)" "consistent m (all_clauses m) fixed"
      "\<forall>s \<in> set ys. allowed_index m s (least_index m s)" by auto
    have s: "s \<in> set (cm_symbols m)" "fst ` set fixed \<subseteq> sy_id ` set (cm_symbols m)" "sy_id s \<notin> fst ` set fixed"
      using split m fixed(1) by (auto simp: chosen_def model_ok_def)
    note found = within_try_domain [OF m sv ids fixed(3) s(2,1,3), of "[]" "sy_domain s", simplified]
    show ?thesis
      unfolding select_symbol_def st_eq prod.case
    proof (rule within_bind [OF found])
      fix r
      assume r: "r = (least_index m s, sy_domain s ! least_index m s) \<and> allowed_index m s (least_index m s)"
      then have "least_index m s < length (sy_domain s)" by (simp add: allowed_index_def)
      from consistent_extend [OF m fixed(3) s(1,3) this] r
      have "consistent m (all_clauses m) (fixed @ [(sy_id s, least_index m s)])" by blast
      moreover have "dict_set (sy_id s) (least_index m s) fixed = chosen m (ys @ [s])"
        "fixed @ [(sy_id s, least_index m s)] = chosen m (ys @ [s])"
        using fixed(1) dict_set_new [OF s(3)] by (simp_all add: chosen_def)
      moreover have "dict_set (sy_variable s) (sy_domain s ! least_index m s) a = assignment_of (ys @ [s]) (least_value m)"
        using fixed(2) least_value_symbol [OF m s(1)] by (simp add: assignment_of_def)
      ultimately show "within (unknowns z3 m) clock deadline budget 0
          (case r of (index, value) \<Rightarrow> op_return (dict_set (sy_id s) index fixed, dict_set (sy_variable s) value a)) (?P (ys @ [s]))"
        using r fixed(4) by (auto intro!: within_return)
    qed simp_all
  qed
  then have "within (unknowns z3 m) clock deadline budget (sum_list (map (\<lambda>s. int (length (sy_domain s))) (cm_symbols m)))
      (op_fold (select_symbol z3 clock sv is) ([], []) (cm_symbols m)) (?P (cm_symbols m))"
    using con by (intro within_fold) (auto simp: chosen_def assignment_of_def)
  then show ?thesis
    unfolding select_witness_def
    by (rule within_bind [where k = 0]) (auto intro!: within_return sum_list_nonneg)
qed

lemma within_reduce_core:
  assumes m: "model_ok m" and sv: "built m sv" and ids: "set is = all_clauses m" "distinct is"
    and unsat: "\<not> consistent m (all_clauses m) []"
  shows "within (unknowns z3 m) clock deadline budget (int (length is)) (reduce_unsat_core z3 clock is sv)
    (\<lambda>core. sorted core \<and> distinct core \<and> set core \<subseteq> all_clauses m \<and> \<not> consistent m (set core) [] \<and>
       (\<forall>i \<in> set core. consistent m (set core - {i}) []))"
proof -
  let ?P = "\<lambda>ys core. distinct core \<and> set core \<subseteq> all_clauses m \<and> \<not> consistent m (set core) [] \<and>
    (\<forall>i \<in> set core \<inter> set ys. consistent m (set core - {i}) [])"
  have "within (unknowns z3 m) clock deadline budget 1 (reduce_step z3 clock sv core i) (?P (ys @ [i]))" if core: "?P ys core" for ys i core
  proof -
    let ?candidate = "filter (\<lambda>item. item \<noteq> i) core"
    have set_candidate: "set ?candidate = set core - {i}" by auto
    have check: "within (unknowns z3 m) clock deadline budget 1 (session_check z3 clock sv ?candidate [] ''core-reduction'')
        (\<lambda>sat. sat \<longleftrightarrow> consistent m (set core - {i}) [])"
      using within_check [OF m sv, of ?candidate "[]"] core set_candidate by (auto simp: all_clauses_def)
    have "?P (ys @ [i]) (if sat then core else ?candidate)" if sat: "sat \<longleftrightarrow> consistent m (set core - {i}) []" for sat
    proof (cases sat)
      case True
      with sat core show ?thesis by auto
    next
      case False
      have "consistent m (set core - {i} - {j}) []" if "j \<in> set core" "j \<in> set ys" for j
        using core that consistent_less [of m "set core - {j}" "[]" "set core - {i} - {j}"] by blast
      with False sat core set_candidate show ?thesis by auto
    qed
    then show ?thesis
      unfolding reduce_step_def Let_def by (intro within_bind [OF check, where k = 0] within_return) simp_all
  qed
  then have "within (unknowns z3 m) clock deadline budget (sum_list (map (\<lambda>_. 1) is)) (op_fold (reduce_step z3 clock sv) is is) (?P is)"
    using ids unsat by (intro within_fold) auto
  then have "within (unknowns z3 m) clock deadline budget (int (length is)) (op_fold (reduce_step z3 clock sv) is is) (?P is)"
    by (simp add: sum_list_triv)
  then show ?thesis
    unfolding reduce_unsat_core_def by (rule within_bind [where k = 0]) (auto simp: ids(1) intro!: within_return)
qed

end

end
