(* ===== verification/Sat_Claims.thy ===== *)
theory Sat_Claims
  imports Sat_Select
begin

text \<open>
  What the satisfiability analysis promises of a solver run: the result decides the model, the
  witness is the least admitted choice, the core is minimal, and a run stops early only at the
  deadline or when Z3 does not know. A small decision procedure stands for Z3 in the examples.
\<close>

section \<open>Correct results\<close>

definition least_admitted :: "constraint_model \<Rightarrow> (string \<Rightarrow> json_scalar) \<Rightarrow> bool" where
  "least_admitted m f \<longleftrightarrow> admits m (all_clauses m) f \<and>
     (\<forall>g. admits m (all_clauses m) g \<longrightarrow> (\<forall>s \<in> set (cm_symbols m).
        position (sy_domain s) (f (sy_id s)) \<le> position (sy_domain s) (g (sy_id s))))"

definition minimal_core :: "constraint_model \<Rightarrow> string list \<Rightarrow> bool" where
  "minimal_core m core \<longleftrightarrow> sorted core \<and> distinct core \<and> set core \<subseteq> all_clauses m \<and>
     \<not> model_satisfiable m (set core) \<and> (\<forall>i \<in> set core. model_satisfiable m (set core - {i}))"

definition correct_result :: "constraint_model \<Rightarrow> sat_result \<Rightarrow> bool" where
  "correct_result m r \<longleftrightarrow> (case sr_outcome r of
       SATISFIABLE \<Rightarrow> sr_core r = None \<and>
         (\<exists>f. least_admitted m f \<and> sr_assignment r = Some (assignment_of (cm_symbols m) f))
     | UNSATISFIABLE \<Rightarrow> sr_assignment r = None \<and> (\<exists>core. minimal_core m core \<and> sr_core r = Some core)
     | UNSUPPORTED \<Rightarrow> False)"

lemma least_value_admitted:
  assumes m: "model_ok m" and allowed: "\<And>s. s \<in> set (cm_symbols m) \<Longrightarrow> allowed_index m s (least_index m s)"
  shows "least_admitted m (least_value m)"
proof -
  have dom: "least_value m (sy_id s) \<in> set (sy_domain s)" if "s \<in> set (cm_symbols m)" for s
    using allowed [OF that] least_value_symbol [OF m that] by (simp add: allowed_index_def)
  have "least_value m (cl_symbol c) \<in> set (cl_allowed c)" if c: "c \<in> set (cm_clauses m)" for c
  proof -
    have s: "symbol_of m c \<in> set (cm_symbols m)" "sy_id (symbol_of m c) = cl_symbol c" using symbol_of_mem [OF m c] by blast+
    from allowed [OF s(1)] least_value_symbol [OF m s(1)] s(2) c show ?thesis by (auto simp: allowed_index_def)
  qed
  with dom have admitted: "admits m (all_clauses m) (least_value m)" unfolding admits_def by blast
  have "position (sy_domain s) (least_value m (sy_id s)) \<le> position (sy_domain s) (g (sy_id s))"
    if g: "admits m (all_clauses m) g" and s: "s \<in> set (cm_symbols m)" for g s
  proof -
    let ?k = "position (sy_domain s) (g (sy_id s))"
    have "g (sy_id s) \<in> set (sy_domain s)" using g s unfolding admits_def by blast
    note k = position_nth [OF this]
    have "g (sy_id s) \<in> set (cl_allowed c)" if "c \<in> set (cm_clauses m)" "cl_symbol c = sy_id s" for c
      using g that unfolding admits_def all_clauses_def by (metis image_eqI)
    with k have "allowed_index m s ?k" by (simp add: allowed_index_def)
    then have "least_index m s \<le> ?k" unfolding least_index_def by (rule Least_le)
    moreover have "position (sy_domain s) (least_value m (sy_id s)) \<le> least_index m s"
      unfolding least_value_symbol [OF m s] using allowed [OF s] position_le unfolding allowed_index_def by blast
    ultimately show ?thesis by simp
  qed
  with admitted show ?thesis unfolding least_admitted_def by blast
qed

context smt
begin

lemma within_solve:
  assumes m: "model_ok m"
  defines "ids \<equiv> map cl_id (cm_clauses m)" and "n \<equiv> max (sum_list (map (\<lambda>s. int (length (sy_domain s))) (cm_symbols m))) (int (length (cm_clauses m)))"
  assumes sv: "built m sv"
  shows "within (unknowns z3 m) clock deadline budget (1 + n)
    (op_bind (session_check z3 clock sv ids [] ''initial-decision'') (\<lambda>sat.
          op_bind (if sat
              then op_bind (select_witness z3 clock m ids sv) (\<lambda>assignment.
                op_return \<lparr>sr_outcome = SATISFIABLE, sr_assignment = Some assignment, sr_core = None\<rparr>)
              else op_bind (reduce_unsat_core z3 clock ids sv) (\<lambda>core.
                op_return \<lparr>sr_outcome = UNSATISFIABLE, sr_assignment = None, sr_core = Some core\<rparr>)) (\<lambda>result.
          op_bind (checkpoint clock ''result-selection'' None) (\<lambda>_. op_return result))))
    (correct_result m)"
proof -
  have ids: "set ids = all_clauses m" "distinct ids" using m by (auto simp: ids_def all_clauses_def model_ok_def)
  have n: "0 \<le> n" "sum_list (map (\<lambda>s. int (length (sy_domain s))) (cm_symbols m)) \<le> n" "int (length ids) \<le> n"
    by (simp_all add: n_def ids_def)
  let ?sat = "op_bind (select_witness z3 clock m ids sv) (\<lambda>assignment.
                op_return \<lparr>sr_outcome = SATISFIABLE, sr_assignment = Some assignment, sr_core = None\<rparr>)"
  let ?unsat = "op_bind (reduce_unsat_core z3 clock ids sv) (\<lambda>core.
                op_return \<lparr>sr_outcome = UNSATISFIABLE, sr_assignment = None, sr_core = Some core\<rparr>)"
  have sat: "within (unknowns z3 m) clock deadline budget n ?sat (correct_result m)" if con: "consistent m (all_clauses m) []"
  proof (rule within_bind [where k = 0, OF within_mono [OF within_select_witness [OF m sv ids(1) con] _ n(2)]])
    fix a
    assume "a = assignment_of (cm_symbols m) (least_value m) \<and> (\<forall>s \<in> set (cm_symbols m). allowed_index m s (least_index m s))"
    with least_value_admitted [OF m] show "within (unknowns z3 m) clock deadline budget 0
        (op_return \<lparr>sr_outcome = SATISFIABLE, sr_assignment = Some a, sr_core = None\<rparr>) (correct_result m)"
      by (auto simp: correct_result_def intro!: within_return)
  qed (use n in auto)
  have unsat: "within (unknowns z3 m) clock deadline budget n ?unsat (correct_result m)" if con: "\<not> consistent m (all_clauses m) []"
  proof (rule within_bind [where k = 0, OF within_mono [OF within_reduce_core [OF m sv ids con] _ n(3)]])
    fix core
    assume "sorted core \<and> distinct core \<and> set core \<subseteq> all_clauses m \<and> \<not> consistent m (set core) [] \<and>
       (\<forall>i \<in> set core. consistent m (set core - {i}) [])"
    then show "within (unknowns z3 m) clock deadline budget 0
        (op_return \<lparr>sr_outcome = UNSATISFIABLE, sr_assignment = None, sr_core = Some core\<rparr>) (correct_result m)"
      by (auto simp: correct_result_def minimal_core_def consistent_satisfiable [OF m] intro!: within_return)
  qed (use n in auto)
  have check: "within (unknowns z3 m) clock deadline budget 1 (session_check z3 clock sv ids [] ''initial-decision'')
      (\<lambda>sat. sat \<longleftrightarrow> consistent m (all_clauses m) [])"
    using within_check [OF m sv, of ids "[]"] ids(1) by (simp add: all_clauses_def)
  have finish: "within (unknowns z3 m) clock deadline budget 0 (op_bind (checkpoint clock ''result-selection'' None) (\<lambda>_. op_return r)) (correct_result m)"
    if "correct_result m r" for r
    by (rule within_bind0 [OF within_checkpoint]) (simp_all add: within_return that)
  show ?thesis
  proof (rule within_bind [OF check])
    fix s
    assume s: "s \<longleftrightarrow> consistent m (all_clauses m) []"
    have "within (unknowns z3 m) clock deadline budget n (if s then ?sat else ?unsat) (correct_result m)"
      using s sat unsat by (cases s) auto
    from within_bind [OF this finish n(1) order.refl] show "within (unknowns z3 m) clock deadline budget n
        (op_bind (if s then ?sat else ?unsat) (\<lambda>r. op_bind (checkpoint clock ''result-selection'' None) (\<lambda>_. op_return r)))
        (correct_result m)" by simp
  qed (use n in auto)
qed

end

lemma solve_model_within:
  assumes m: "model_ok m" and z3: "z3_sound z3"
  shows "case solve_model z3 clock m of
      Inl e \<Rightarrow> interrupted (unknowns z3 m) clock (clock 0 + solver_timeout_ms * 1000000) e
    | Inr r \<Rightarrow> correct_result m r"
proof -
  let ?b = "solver_check_budget m (clock 0)"
  let ?ids = "map cl_id (cm_clauses m)"
  have total: "int (sum_list (map (\<lambda>s. length (sy_domain s)) ss)) = sum_list (map (\<lambda>s. int (length (sy_domain s))) ss)" for ss
    by (induction ss) auto
  have unique: "within (unknowns z3 m) clock (cb_deadline ?b) (cb_max ?b) 0 (require_unique_clause_ids m) (\<lambda>_. True)"
    using m by (simp add: require_unique_clause_ids_def model_ok_def within_return)
  have smt: "smt z3" using z3 by (rule smt.intro)
  have run: "within (unknowns z3 m) clock (cb_deadline ?b) (cb_max ?b) (cb_max ?b)
     (op_bind (require_unique_clause_ids m) (\<lambda>_.
          op_bind (checkpoint clock ''model-validation'' None) (\<lambda>_.
          op_bind (solver_session clock m) (\<lambda>sv.
          op_bind (session_check z3 clock sv ?ids [] ''initial-decision'') (\<lambda>sat.
          op_bind (if sat
              then op_bind (select_witness z3 clock m ?ids sv) (\<lambda>assignment.
                op_return \<lparr>sr_outcome = SATISFIABLE, sr_assignment = Some assignment, sr_core = None\<rparr>)
              else op_bind (reduce_unsat_core z3 clock ?ids sv) (\<lambda>core.
                op_return \<lparr>sr_outcome = UNSATISFIABLE, sr_assignment = None, sr_core = Some core\<rparr>)) (\<lambda>result.
          op_bind (checkpoint clock ''result-selection'' None) (\<lambda>_. op_return result)))))))
     (correct_result m)"
    by (rule within_bind0 [OF unique], rule within_bind0 [OF within_checkpoint], rule within_bind0 [OF within_session [OF m]])
      (use smt.within_solve [OF smt m, of _ clock "cb_deadline ?b" "cb_max ?b"] in
        \<open>auto simp: solver_check_budget_def total\<close>)
  from run [unfolded within_def, rule_format, of ?b] show ?thesis
    by (auto simp: solve_model_def Let_def solver_check_budget_def split: sum.splits)
qed

section \<open>A decision procedure in the place of Z3\<close>

text \<open>Membership constraints: the variable and the values it may have.\<close>

fun membership :: "z3_expr \<Rightarrow> (string \<times> int list) option" where
  "membership (Z3_Eq n k) = Some (n, [k])"
| "membership Z3_False = Some ([], [])"
| "membership (Z3_Or (Z3_Eq n k # es)) =
     (if list_all (\<lambda>e. case e of Z3_Eq n' k' \<Rightarrow> n' = n | _ \<Rightarrow> False) es
      then Some (n, k # map (\<lambda>e. case e of Z3_Eq n' k' \<Rightarrow> k' | _ \<Rightarrow> 0) es) else None)"
| "membership e = None"

fun active_constraint :: "z3_expr list \<Rightarrow> z3_expr \<Rightarrow> (string \<times> int list) list option" where
  "active_constraint assumed (Z3_Implies (Z3_Bool n) e) =
     (case membership e of None \<Rightarrow> None | Some c \<Rightarrow> Some (if Z3_Bool n \<in> set assumed then [c] else []))"
| "active_constraint assumed (Z3_Bool n) = (if Z3_Bool n \<in> set assumed then Some [] else None)"
| "active_constraint assumed (Z3_Eq n k) = Some [(n, [k])]"
| "active_constraint assumed e = None"

fun active_constraints :: "z3_expr list \<Rightarrow> z3_expr list \<Rightarrow> (string \<times> int list) list option" where
  "active_constraints assumed [] = Some []"
| "active_constraints assumed (e # es) =
     (case active_constraint assumed e of None \<Rightarrow> None
      | Some cs \<Rightarrow> (case active_constraints assumed es of None \<Rightarrow> None | Some ds \<Rightarrow> Some (cs @ ds)))"

definition common_value :: "(string \<times> int list) list \<Rightarrow> string \<Rightarrow> int \<Rightarrow> bool" where
  "common_value cs n k \<longleftrightarrow> list_all (\<lambda>(n', ks). n' = n \<longrightarrow> k \<in> set ks) cs"

definition reference_z3 :: z3_solver where
  "reference_z3 n asserted assumed timeout =
     (case active_constraints assumed (asserted @ assumed) of
        None \<Rightarrow> Z3_UNKNOWN ''incomplete''
      | Some cs \<Rightarrow> if list_all (\<lambda>(n, ks). list_ex (common_value cs n) ks) cs then Z3_SAT else Z3_UNSAT)"

lemma membership_holds:
  "membership e = Some (n, ks) \<Longrightarrow> z3_holds v t e \<longleftrightarrow> v n \<in> set ks"
proof (induction e rule: membership.induct)
  case (3 m k es)
  have "list_ex (z3_holds v t) fs \<longleftrightarrow> v m \<in> set (map (\<lambda>e. case e of Z3_Eq n' k' \<Rightarrow> k' | _ \<Rightarrow> 0) fs)"
    if "list_all (\<lambda>e. case e of Z3_Eq n' k' \<Rightarrow> n' = m | _ \<Rightarrow> False) fs" for fs
    using that by (induction fs) (auto split: z3_expr.splits)
  with 3 show ?case by (auto split: if_splits)
qed auto

lemma active_constraint_holds:
  assumes "active_constraint assumed e = Some cs" and "\<forall>n. Z3_Bool n \<in> set assumed \<longrightarrow> t n"
  shows "(z3_holds v t e \<longrightarrow> (\<forall>(n, ks) \<in> set cs. v n \<in> set ks)) \<and>
    ((\<forall>n. t n \<longrightarrow> Z3_Bool n \<in> set assumed) \<longrightarrow> (\<forall>(n, ks) \<in> set cs. v n \<in> set ks) \<longrightarrow> z3_holds v t e)"
  using assms
proof (induction assumed e rule: active_constraint.induct)
  case (1 assumed n e)
  then obtain m ks where c: "membership e = Some (m, ks)" by (auto split: option.splits)
  with 1 membership_holds [OF c, of v t] show ?case by (auto split: if_splits)
qed (auto split: if_splits)

lemma active_constraints_holds:
  assumes "active_constraints assumed es = Some cs" and "\<forall>n. Z3_Bool n \<in> set assumed \<longrightarrow> t n"
  shows "(list_all (z3_holds v t) es \<longrightarrow> (\<forall>(n, ks) \<in> set cs. v n \<in> set ks)) \<and>
    ((\<forall>n. t n \<longrightarrow> Z3_Bool n \<in> set assumed) \<longrightarrow> (\<forall>(n, ks) \<in> set cs. v n \<in> set ks) \<longrightarrow> list_all (z3_holds v t) es)"
  using assms(1)
proof (induction es arbitrary: cs)
  case Nil
  then show ?case by simp
next
  case (Cons e es)
  then obtain ds fs where ds: "active_constraint assumed e = Some ds" "active_constraints assumed es = Some fs" "cs = ds @ fs"
    by (auto split: option.splits)
  have "\<And>P. (\<forall>x \<in> set cs. P x) \<longleftrightarrow> (\<forall>x \<in> set ds. P x) \<and> (\<forall>x \<in> set fs. P x)" using ds(3) by auto
  with active_constraint_holds [OF ds(1) assms(2), of v] Cons.IH [OF ds(2)] show ?case by simp
qed

lemma reference_sound: "z3_sound reference_z3"
proof -
  have "(reference_z3 n asserted assumed timeout = Z3_SAT \<longrightarrow> z3_satisfiable (asserted @ assumed)) \<and>
     (reference_z3 n asserted assumed timeout = Z3_UNSAT \<longrightarrow> \<not> z3_satisfiable (asserted @ assumed))" for n asserted assumed timeout
  proof (cases "active_constraints assumed (asserted @ assumed)")
    case None
    then show ?thesis by (simp add: reference_z3_def)
  next
    case (Some cs)
    have "z3_satisfiable (asserted @ assumed)" if sat: "list_all (\<lambda>(n, ks). list_ex (common_value cs n) ks) cs"
    proof -
      let ?v = "\<lambda>n. SOME k. common_value cs n k" and ?t = "\<lambda>n. Z3_Bool n \<in> set assumed"
      have "?v n \<in> set ks" if mem: "(n, ks) \<in> set cs" for n ks
      proof -
        obtain k where "common_value cs n k" using sat mem by (fastforce simp: list_all_iff list_ex_iff)
        then have "common_value cs n (?v n)" by (rule someI)
        with mem show ?thesis by (auto simp: common_value_def list_all_iff)
      qed
      with active_constraints_holds [OF Some, of ?t ?v] have "list_all (z3_holds ?v ?t) (asserted @ assumed)" by blast
      then show ?thesis unfolding z3_satisfiable_def by blast
    qed
    moreover have "list_all (\<lambda>(n, ks). list_ex (common_value cs n) ks) cs" if "z3_satisfiable (asserted @ assumed)"
    proof -
      from that obtain v t where vt: "list_all (z3_holds v t) (asserted @ assumed)" unfolding z3_satisfiable_def by blast
      have "t n" if "Z3_Bool n \<in> set assumed" for n
      proof -
        from vt have "\<forall>e \<in> set (asserted @ assumed). z3_holds v t e" by (simp only: list_all_iff)
        from bspec [OF this, of "Z3_Bool n"] that show ?thesis by simp
      qed
      with active_constraints_holds [OF Some, of t v] vt have v: "\<forall>(n, ks) \<in> set cs. v n \<in> set ks" by blast
      then have "common_value cs n (v n)" for n by (auto simp: common_value_def list_all_iff)
      with v show ?thesis by (auto simp: list_all_iff list_ex_iff)
    qed
    ultimately show ?thesis using Some by (auto simp: reference_z3_def)
  qed
  then show ?thesis unfolding z3_sound_def by blast
qed

interpretation reference: smt reference_z3 clock deadline budget for clock deadline budget
  by unfold_locales (rule reference_sound)

lemma active_constraints_Some:
  "(\<And>e. e \<in> set es \<Longrightarrow> active_constraint assumed e \<noteq> None) \<Longrightarrow> active_constraints assumed es \<noteq> None"
  by (induction es) (auto split: option.splits)

lemma clause_expression_membership: "membership (clause_expression n ks) \<noteq> None"
  by (cases ks) (auto simp: clause_expression_def list_all_iff)

lemma reference_never_unknown: "unknowns reference_z3 m = {}"
proof -
  have known: "active_constraints (assumptions is fixed) (map (clause_assertion m) (cm_clauses m) @ assumptions is fixed) \<noteq> None" for "is" fixed
  proof (rule active_constraints_Some)
    fix e
    assume "e \<in> set (map (clause_assertion m) (cm_clauses m) @ assumptions is fixed)"
    then consider c where "e = clause_assertion m c" | n where "e = Z3_Bool n" "e \<in> set (assumptions is fixed)" | n k where "e = Z3_Eq n k"
      by (auto simp: assumptions_def)
    then show "active_constraint (assumptions is fixed) e \<noteq> None"
    proof cases
      case (1 c)
      then show ?thesis using clause_expression_membership by (auto simp: clause_assertion_def split: option.splits)
    qed auto
  qed
  have "reference_z3 n (map (clause_assertion m) (cm_clauses m)) (assumptions is fixed) t \<noteq> Z3_UNKNOWN r" for n "is" fixed t r
    using known [of "is" fixed] by (auto simp: reference_z3_def split: if_splits)
  then show ?thesis by (simp add: unknowns_def)
qed

section \<open>Examples\<close>

definition example_key :: "json_scalar \<Rightarrow> string" where
  "example_key v = (case v of ScalarStr s \<Rightarrow> s | ScalarInt i \<Rightarrow> int_text i | ScalarBool b \<Rightarrow> if b then ''true'' else ''false'')"

definition example_model :: "json_scalar list \<Rightarrow> constraint_model" where
  "example_model allowed = \<lparr>
     cm_symbols = [\<lparr>sy_id = ''symbol:a'', sy_variable = ''os'', sy_sort = SORT_STRING,
        sy_domain = [ScalarStr ''bsd'', ScalarStr ''linux'', ScalarStr ''windows'']\<rparr>,
       \<lparr>sy_id = ''symbol:b'', sy_variable = ''count'', sy_sort = SORT_INTEGER, sy_domain = [ScalarInt 1, ScalarInt 2]\<rparr>],
     cm_clauses = [\<lparr>cl_id = ''target:a'', cl_kind = TARGET_DOMAIN, cl_symbol = ''symbol:a'', cl_address = ''/nodes/n/os'',
        cl_allowed = [ScalarStr ''linux'', ScalarStr ''windows'']\<rparr>,
       \<lparr>cl_id = ''target:b'', cl_kind = TARGET_DOMAIN, cl_symbol = ''symbol:b'', cl_address = ''/infrastructure/n/count'',
        cl_allowed = [ScalarInt 1, ScalarInt 2]\<rparr>,
       \<lparr>cl_id = ''target:c'', cl_kind = TARGET_DOMAIN, cl_symbol = ''symbol:a'', cl_address = ''/nodes/m/os'', cl_allowed = allowed\<rparr>]\<rparr>"

lemma example_models:
  "make_model example_key (example_model [ScalarStr ''windows'']) = Inr (example_model [ScalarStr ''windows''])"
  "make_model example_key (example_model [ScalarStr ''bsd'']) = Inr (example_model [ScalarStr ''bsd''])"
  by code_simp+

lemma example_runs:
  "solve_model reference_z3 (\<lambda>k. int k) (example_model [ScalarStr ''windows'']) =
     Inr \<lparr>sr_outcome = SATISFIABLE,
       sr_assignment = Some [(''os'', ScalarStr ''windows''), (''count'', ScalarInt 1)], sr_core = None\<rparr>"
  "solve_model reference_z3 (\<lambda>k. int k) (example_model [ScalarStr ''bsd'']) =
     Inr \<lparr>sr_outcome = UNSATISFIABLE, sr_assignment = None, sr_core = Some [''target:a'', ''target:c'']\<rparr>"
  by code_simp+

section \<open>Properties\<close>

text \<open>
  C18. For an admitted model and a sound Z3, a run of the adapter either returns a correct result
  or is interrupted. Correct means: \<open>satisfiable\<close> comes with the choice that gives every symbol
  the first value of its domain any solution gives it, hence the lexicographically first
  solution; \<open>unsatisfiable\<close> comes with a sorted core that has no solution and has one as soon as
  any of its clauses is left out. Interrupted means that the deadline was seen to pass or Z3
  answered unknown to a question about the model: the derived check budget is never exhausted,
  witness selection never fails and no key is missing.
\<close>

theorem solve_model_correct:
  assumes "make_model scalar_key m0 = Inr m" and "z3_sound z3"
  shows "case solve_model z3 clock m of
      Inl e \<Rightarrow> interrupted (unknowns z3 m) clock (clock 0 + solver_timeout_ms * 1000000) e
    | Inr r \<Rightarrow> correct_result m r"
  using solve_model_within [OF _ assms(2)] make_model_ok [OF assms(1)] by blast

lemma solve_model_correct_witness:
  "correct_result (example_model [ScalarStr ''bsd''])
     \<lparr>sr_outcome = UNSATISFIABLE, sr_assignment = None, sr_core = Some [''target:a'', ''target:c'']\<rparr>"
  using solve_model_correct [OF example_models(2) reference_sound, of "\<lambda>k. int k"] by (simp add: example_runs)

text \<open>
  C19. The analysis completes: when no reading of the clock reaches five seconds after the start
  and Z3 answers every question about the model, an admitted model gets a result, and it is the
  correct one.
\<close>

theorem solve_model_completes:
  assumes "make_model scalar_key m0 = Inr m" and "z3_sound z3" and "unknowns z3 m = {}"
    and "\<forall>k. clock k < clock 0 + solver_timeout_ms * 1000000"
  shows "\<exists>r. solve_model z3 clock m = Inr r \<and> correct_result m r"
proof (cases "solve_model z3 clock m")
  case (Inl e)
  have "model_ok m" using make_model_ok [OF assms(1)] by blast
  from solve_model_within [OF this assms(2), of clock] Inl assms(3,4) show ?thesis
    by (auto simp: interrupted_def not_le [symmetric])
next
  case (Inr r)
  have "model_ok m" using make_model_ok [OF assms(1)] by blast
  from solve_model_within [OF this assms(2), of clock] Inr show ?thesis by simp
qed

lemma solve_model_completes_witness:
  "\<exists>r. solve_model reference_z3 (\<lambda>k. 7) (example_model [ScalarStr ''windows'']) = Inr r \<and>
     correct_result (example_model [ScalarStr ''windows'']) r"
  by (rule solve_model_completes [OF example_models(1) reference_sound reference_never_unknown])
    (simp add: solver_timeout_ms_def)

end
