(* ===== verification/Sat_Translate.thy ===== *)
theory Sat_Translate
  imports Sat_Claims Op_Lifecycle
begin

text \<open>
  The translation of a scenario into the constraint model,
  \<open>raes_processor/satisfiability/_translation.py\<close>, with the variable tokens of \<open>raes/_base.py\<close>.
  A scenario is its variables and the payload \<open>model_dump\<close> gives for the rest of it. The digest
  \<open>sha\<close> (hexadecimal SHA-256 of the UTF-8 bytes) and \<open>scalar_key\<close> (RFC 8785) are parameters.
\<close>

section \<open>Variable tokens\<close>

definition identifier_start :: string where
  "identifier_start = lower_letters @ decimal_digits"

definition portable_identifier :: "string \<Rightarrow> bool" where
  "portable_identifier s \<longleftrightarrow> s \<noteq> [] \<and> hd s \<in> set identifier_start \<and>
     set (tl s) \<subseteq> set (identifier_start @ ''_-'') \<and> length s \<le> 64"

text \<open>\<open>s.split(sep)\<close>: the pieces between the separators.\<close>

fun split_at :: "char \<Rightarrow> string \<Rightarrow> string list" where
  "split_at sep [] = [[]]"
| "split_at sep (c # cs) =
     (if c = sep then [] # split_at sep cs
      else (case split_at sep cs of [] \<Rightarrow> [[c]] | w # ws \<Rightarrow> (c # w) # ws))"

definition token_name :: "string \<Rightarrow> bool" where
  "token_name s = (let parts = split_at (CHR ''.'') s in
     portable_identifier (last parts) \<and> list_all (\<lambda>p. portable_identifier p \<or> p = ''__private'') (butlast parts))"

text \<open>A token at the front of a text: the name up to the first closing brace, and what follows.\<close>

definition token_at :: "string \<Rightarrow> (string \<times> string) option" where
  "token_at cs =
     (if take 2 cs = ''${''
      then let name = takeWhile (\<lambda>c. c \<noteq> CHR ''}'') (drop 2 cs); rest = dropWhile (\<lambda>c. c \<noteq> CHR ''}'') (drop 2 cs) in
        if rest \<noteq> [] \<and> token_name name then Some (name, tl rest) else None
      else None)"

lemma token_at_shorter:
  assumes "token_at cs = Some (name, rest)"
  shows "length rest < length cs"
proof -
  have "length (dropWhile (\<lambda>c. c \<noteq> CHR ''}'') (drop 2 cs)) \<le> length (drop 2 cs)" by (rule length_dropWhile_le)
  moreover have "take 2 cs = ''${''" "rest = tl (dropWhile (\<lambda>c. c \<noteq> CHR ''}'') (drop 2 cs))"
    using assms by (auto simp: token_at_def Let_def split: if_splits)
  moreover from this(1) have "cs \<noteq> []" by auto
  ultimately show ?thesis by (cases cs) auto
qed

definition extract_variable_name :: "string \<Rightarrow> string option" where
  "extract_variable_name v = (case token_at v of Some (name, rest) \<Rightarrow> if rest = [] then Some name else None | None \<Rightarrow> None)"

function find_tokens :: "string \<Rightarrow> string list" where
  "find_tokens [] = []"
| "find_tokens (c # cs) =
     (case token_at (c # cs) of Some (name, rest) \<Rightarrow> name # find_tokens rest | None \<Rightarrow> find_tokens cs)"
  by pat_completeness auto
termination by (relation "measure length") (auto dest: token_at_shorter)

definition variable_names_in_value :: "string \<Rightarrow> string list" where
  "variable_names_in_value v = fromkeys (find_tokens v)"

definition lower_char :: "char \<Rightarrow> char" where
  "lower_char c = (let n = of_char c :: nat in
     if 65 \<le> n \<and> n \<le> 90 \<or> 192 \<le> n \<and> n \<le> 222 \<and> n \<noteq> 215 then char_of (n + 32) else c)"

definition normalize_enum_value :: "string \<Rightarrow> string" where
  "normalize_enum_value v =
     (if extract_variable_name v \<noteq> None then v
      else map (\<lambda>c. if c = CHR ''-'' then CHR ''_'' else c) (map lower_char v))"

section \<open>The scenario\<close>

datatype variable_type = TYPE_STRING | TYPE_INTEGER | TYPE_BOOLEAN | TYPE_NUMBER

text \<open>The allowed values of a number variable are never read and need not be represented.\<close>

record variable_decl =
  vd_type :: variable_type
  vd_allowed :: "json_scalar list"
  vd_required :: bool

record sdl_scenario =
  sc_variables :: "(string, variable_decl) pydict"
  sc_payload :: py_value

type_synonym occurrence = "string \<times> string \<times> bool"

definition string_occurrences :: "string \<Rightarrow> string \<Rightarrow> occurrence list" where
  "string_occurrences value address =
     (case extract_variable_name value of
        Some whole \<Rightarrow> [(address, whole, False)]
      | None \<Rightarrow> map (\<lambda>name. (address, name, True)) (variable_names_in_value value))"

text \<open>Mappings are visited in the order of their keys, lists by index.\<close>

fun variable_occurrences :: "py_value \<Rightarrow> string \<Rightarrow> occurrence list" where
  "variable_occurrences (PyDict d) address =
     concat (map snd (sort_key fst
       (map (\<lambda>(k, v). (k, variable_occurrences v (address @ CHR ''/'' # escape_pointer k))) d)))"
| "variable_occurrences (PyList vs) address =
     concat (map (\<lambda>(i, f). f (address @ CHR ''/'' # int_text (int i))) (enumerate 0 (map variable_occurrences vs)))"
| "variable_occurrences (PyStr s) address = string_occurrences s address"
| "variable_occurrences v address = []"

section \<open>Diagnostics\<close>

record diagnostic_accumulator =
  da_items :: "(string \<times> string, diagnostic) pydict"
  da_overflowed :: bool

definition max_diagnostics :: nat where
  "max_diagnostics = 64"

definition make_diagnostic :: "string \<Rightarrow> string \<Rightarrow> string \<Rightarrow> diagnostic res" where
  "make_diagnostic code address message =
     (let d = \<lparr>dg_code = code, dg_domain = ''scenario-satisfiability'', dg_address = address, dg_message = message,
        dg_severity = SEVERITY_ERROR\<rparr> in
      if diagnostic_model_ok d then Inr d else Inl (ValidationError ''diagnostic''))"

definition domain_code :: string where "domain_code = ''scenario-satisfiability.unsupported-domain''"

definition target_code :: string where "target_code = ''scenario-satisfiability.unsupported-target''"

definition resource_code :: string where "resource_code = ''scenario-satisfiability.resource-limit''"

definition add_diagnostic :: "diagnostic_accumulator \<Rightarrow> diagnostic \<Rightarrow> diagnostic_accumulator res" where
  "add_diagnostic acc d =
     (let key = (dg_address d, dg_code d) in
      if dict_has (da_items acc) key \<or> da_overflowed acc then Inr acc
      else if length (da_items acc) < max_diagnostics then Inr (acc\<lparr>da_items := dict_set key d (da_items acc)\<rparr>)
      else res_bind (make_diagnostic resource_code []
             ''The analysis produced more unsupported diagnostics than the evidence profile permits.'') (\<lambda>overflow.
           Inr (acc\<lparr>da_items := dict_set (dg_address overflow, dg_code overflow) overflow (butlast (da_items acc)),
             da_overflowed := True\<rparr>)))"

definition report :: "string \<Rightarrow> string \<Rightarrow> string \<Rightarrow> diagnostic_accumulator \<Rightarrow> diagnostic_accumulator res" where
  "report code address message acc = res_bind (make_diagnostic code address message) (add_diagnostic acc)"

definition sorted_diagnostics :: "diagnostic_accumulator \<Rightarrow> diagnostic list" where
  "sorted_diagnostics acc = sort_key (\<lambda>d. [dg_address d, dg_code d]) (map snd (da_items acc))"

section \<open>Symbols\<close>

definition stable_id :: "(string \<Rightarrow> string) \<Rightarrow> string \<Rightarrow> string \<Rightarrow> string" where
  "stable_id sha prefix value = prefix @ CHR '':'' # sha value"

definition variable_address :: "string \<Rightarrow> string" where
  "variable_address name = ''/variables/'' @ escape_pointer name"

definition finite_domain_values ::
  "variable_decl \<Rightarrow> string \<Rightarrow> diagnostic_accumulator \<Rightarrow> (json_scalar list option \<times> diagnostic_accumulator) res" where
  "finite_domain_values v address acc =
     (if vd_type v = TYPE_NUMBER
      then res_bind (report domain_code address ''The variable sort is not supported by this profile.'' acc) (\<lambda>acc. Inr (None, acc))
      else if vd_allowed v \<noteq> [] then Inr (Some (vd_allowed v), acc)
      else if vd_type v = TYPE_BOOLEAN then Inr (Some [ScalarBool False, ScalarBool True], acc)
      else res_bind (report domain_code address ''The variable requires an explicit finite allowed-values domain.'' acc)
             (\<lambda>acc. Inr (None, acc)))"

fun sort_of_type :: "variable_type \<Rightarrow> constraint_sort res" where
  "sort_of_type TYPE_STRING = Inr SORT_STRING"
| "sort_of_type TYPE_INTEGER = Inr SORT_INTEGER"
| "sort_of_type TYPE_BOOLEAN = Inr SORT_BOOLEAN"
| "sort_of_type TYPE_NUMBER = Inl (KeyError ''number'')"

definition translate_symbol ::
  "(json_scalar \<Rightarrow> string) \<Rightarrow> (string \<Rightarrow> string) \<Rightarrow> string \<Rightarrow> variable_decl \<Rightarrow> diagnostic_accumulator \<Rightarrow>
     (constraint_symbol option \<times> diagnostic_accumulator) res" where
  "translate_symbol scalar_key sha name v acc =
     (let address = variable_address name in
      res_bind (finite_domain_values v address acc) (\<lambda>(values, acc).
        case values of
          None \<Rightarrow> Inr (None, acc)
        | Some values \<Rightarrow>
            res_bind (sort_of_type (vd_type v)) (\<lambda>sort.
            let canonical = sort_key scalar_key values in
            if 256 < length canonical \<or> \<not> distinct (map scalar_key canonical)
            then res_bind (report domain_code address ''The variable domain is invalid or exceeds its limit.'' acc)
                   (\<lambda>acc. Inr (None, acc))
            else res_bind (make_symbol scalar_key
                \<lparr>sy_id = stable_id sha ''symbol'' name, sy_variable = name, sy_sort = sort, sy_domain = canonical\<rparr>)
              (\<lambda>s. Inr (Some s, acc)))))"

definition select_symbols ::
  "(json_scalar \<Rightarrow> string) \<Rightarrow> (string \<Rightarrow> string) \<Rightarrow> sdl_scenario \<Rightarrow> occurrence list \<Rightarrow> diagnostic_accumulator \<Rightarrow>
     ((string, constraint_symbol) pydict \<times> diagnostic_accumulator) res" where
  "select_symbols scalar_key sha sc occurrences acc =
     (let referenced = map (\<lambda>(_, name, _). name) occurrences;
        selected = sort_key fst (filter (\<lambda>(name, v). name \<in> set referenced \<or> vd_required v) (sc_variables sc)) in
      res_bind (if 128 < length selected
          then report resource_code ''/variables'' ''The analysis exceeds the symbol limit.'' acc else Inr acc) (\<lambda>acc.
      res_fold (\<lambda>(symbols, acc) (name, v).
          res_bind (translate_symbol scalar_key sha name v acc) (\<lambda>(symbol, acc).
            Inr (case symbol of None \<Rightarrow> symbols | Some s \<Rightarrow> dict_set name s symbols, acc)))
        ([], acc) (take 128 selected)))"

section \<open>Clauses\<close>

definition append_clause ::
  "constraint_clause \<Rightarrow> constraint_clause list \<times> diagnostic_accumulator \<Rightarrow> (constraint_clause list \<times> diagnostic_accumulator) res" where
  "append_clause c st = (case st of (clauses, acc) \<Rightarrow>
     if length clauses < 512 then Inr (clauses @ [c], acc)
     else res_bind (report resource_code [] ''The analysis exceeds the clause limit.'' acc) (\<lambda>acc. Inr (clauses, acc)))"

definition os_families :: "string list" where
  "os_families = [''windows'', ''linux'', ''macos'', ''freebsd'', ''other'']"

definition node_architectures :: "string list" where
  "node_architectures = [''x86_64'', ''aarch64'']"

definition acl_actions :: "string list" where
  "acl_actions = [''allow'', ''deny'']"

definition string_vocabulary_domain :: "constraint_symbol \<Rightarrow> string list \<Rightarrow> json_scalar list" where
  "string_vocabulary_domain s vocabulary =
     filter (\<lambda>v. case v of ScalarStr t \<Rightarrow> normalize_enum_value t \<in> set vocabulary | _ \<Rightarrow> False) (sy_domain s)"

fun target_kind :: "string list \<Rightarrow> string option" where
  "target_kind [a, _, b] =
     (if a = ''nodes'' \<and> b = ''os'' then Some ''os''
      else if a = ''nodes'' \<and> b = ''architecture'' then Some ''architecture''
      else if a = ''infrastructure'' \<and> b = ''count'' then Some ''count'' else None)"
| "target_kind [a, _, b, c] = (if a = ''infrastructure'' \<and> b = ''properties'' \<and> c = ''internal'' then Some ''internal'' else None)"
| "target_kind [a, _, b, _, c] = (if a = ''infrastructure'' \<and> b = ''acls'' \<and> c = ''action'' then Some ''action'' else None)"
| "target_kind parts = None"

definition target_domain :: "string \<Rightarrow> constraint_symbol \<Rightarrow> json_scalar list option" where
  "target_domain address s =
     (case target_kind (tl (split_at (CHR ''/'') address)) of
        None \<Rightarrow> None
      | Some kind \<Rightarrow>
          if kind = ''os'' \<and> sy_sort s = SORT_STRING then Some (string_vocabulary_domain s os_families)
          else if kind = ''architecture'' \<and> sy_sort s = SORT_STRING then Some (string_vocabulary_domain s node_architectures)
          else if kind = ''action'' \<and> sy_sort s = SORT_STRING then Some (string_vocabulary_domain s acl_actions)
          else if kind = ''count'' \<and> sy_sort s = SORT_INTEGER
          then Some (filter (\<lambda>v. case v of ScalarInt i \<Rightarrow> 1 \<le> i | _ \<Rightarrow> False) (sy_domain s))
          else if kind = ''internal'' \<and> sy_sort s = SORT_BOOLEAN then Some (sy_domain s) else None)"

definition target_clause ::
  "(json_scalar \<Rightarrow> string) \<Rightarrow> (string \<Rightarrow> string) \<Rightarrow> (string, constraint_symbol) pydict \<Rightarrow> occurrence \<Rightarrow> diagnostic_accumulator \<Rightarrow>
     (constraint_clause option \<times> diagnostic_accumulator) res" where
  "target_clause scalar_key sha symbols occurrence acc = (case occurrence of (address, name, embedded) \<Rightarrow>
     let symbol = dict_get symbols name;
       allowed = (if embedded then None else case symbol of None \<Rightarrow> None | Some s \<Rightarrow> target_domain address s) in
     case (symbol, allowed) of
       (Some s, Some values) \<Rightarrow>
         res_bind (make_clause scalar_key \<lparr>cl_id = ''target:'' @ sha address, cl_kind = TARGET_DOMAIN, cl_symbol = sy_id s,
             cl_address = address, cl_allowed = values\<rparr>) (\<lambda>c. Inr (Some c, acc))
     | _ \<Rightarrow> res_bind (report target_code address ''The variable occurrence is outside the selected translation profile.'' acc)
         (\<lambda>acc. Inr (None, acc)))"

definition translate_clauses ::
  "(json_scalar \<Rightarrow> string) \<Rightarrow> (string \<Rightarrow> string) \<Rightarrow> (string, constraint_symbol) pydict \<Rightarrow> occurrence list \<Rightarrow>
     diagnostic_accumulator \<Rightarrow> (constraint_clause list \<times> diagnostic_accumulator) res" where
  "translate_clauses scalar_key sha symbols occurrences acc =
     res_bind (res_fold (\<lambda>st (name, s).
         res_bind (make_clause scalar_key \<lparr>cl_id = stable_id sha ''domain'' name, cl_kind = DECLARED_DOMAIN, cl_symbol = sy_id s,
             cl_address = variable_address name, cl_allowed = sy_domain s\<rparr>) (\<lambda>c. append_clause c st))
       ([], acc) symbols) (\<lambda>st.
     res_fold (\<lambda>(clauses, acc) occurrence.
         res_bind (target_clause scalar_key sha symbols occurrence acc) (\<lambda>(clause, acc).
           case clause of None \<Rightarrow> Inr (clauses, acc) | Some c \<Rightarrow> append_clause c (clauses, acc)))
       st occurrences)"

definition translate_scenario ::
  "(json_scalar \<Rightarrow> string) \<Rightarrow> (string \<Rightarrow> string) \<Rightarrow> sdl_scenario \<Rightarrow> (constraint_model \<times> diagnostic list) res" where
  "translate_scenario scalar_key sha sc =
     (let occurrences = variable_occurrences (sc_payload sc) [] in
      res_bind (select_symbols scalar_key sha sc occurrences \<lparr>da_items = [], da_overflowed = False\<rparr>) (\<lambda>(symbols, acc).
      res_bind (translate_clauses scalar_key sha symbols occurrences acc) (\<lambda>(clauses, acc).
      res_bind (make_model scalar_key \<lparr>cm_symbols = sort_key sy_id (map snd symbols), cm_clauses = sort_key cl_id clauses\<rparr>) (\<lambda>m.
        Inr (m, sorted_diagnostics acc)))))"

end
