(* ===== verification/Sat_Decide.thy ===== *)
theory Sat_Decide
  imports Sat_Translate
begin

text \<open>
  Translation and solver together decide whether values can be chosen for the variables of a
  scenario: without diagnostics the model has a clause for every occurrence of a variable and
  nothing else, so its solutions are the choices of declared values that fit every place they are
  used in. What fits is stated by the language's own field validators (\<open>raes/_base.py\<close>,
  \<open>raes/architectures.py\<close>), not by the filter of the translation: the two differ on
  architectures, where the filter forgets the aliases and the extension terms.
\<close>

section \<open>What the fields of the language accept\<close>

text \<open>
  The field validators on concrete values. A value that still holds a variable token is refused by
  the instantiated scenario whatever its field says.
\<close>

definition parse_enum :: "string list \<Rightarrow> json_scalar \<Rightarrow> string option" where
  "parse_enum vocabulary v =
     (case v of
        ScalarStr x \<Rightarrow> if normalize_enum_value x \<in> set vocabulary then Some (normalize_enum_value x) else None
      | _ \<Rightarrow> None)"

definition decimal_value :: "string \<Rightarrow> int" where
  "decimal_value ds = foldl (\<lambda>n c. 10 * n + (int (of_char c) - 48)) 0 ds"

definition parse_int :: "int \<Rightarrow> json_scalar \<Rightarrow> int option" where
  "parse_int least v =
     (case v of
        ScalarInt i \<Rightarrow> if i < least then None else Some i
      | ScalarStr x \<Rightarrow>
          let s = py_strip x; minus = (take 1 s = ''-''); ds = (if minus then tl s else s);
            i = (if minus then - decimal_value ds else decimal_value ds) in
          if ds = [] \<or> \<not> set ds \<subseteq> set decimal_digits \<or> i < least then None else Some i
      | ScalarBool b \<Rightarrow> None)"

definition parse_bool :: "json_scalar \<Rightarrow> bool option" where
  "parse_bool v =
     (case v of
        ScalarBool b \<Rightarrow> Some b
      | ScalarStr x \<Rightarrow>
          let s = map lower_char (py_strip x) in
          if s \<in> {''true'', ''1'', ''yes'', ''on''} then Some True
          else if s \<in> {''false'', ''0'', ''no'', ''off''} then Some False else None
      | ScalarInt i \<Rightarrow> None)"

text \<open>\<open>x-<owner>:<term>\<close>: both parts are words of small letters and digits joined by hyphens.\<close>

definition hyphenated_words :: "string \<Rightarrow> bool" where
  "hyphenated_words s \<longleftrightarrow>
     list_all (\<lambda>w. w \<noteq> [] \<and> set w \<subseteq> set (lower_letters @ decimal_digits)) (split_at (CHR ''-'') s)"

definition is_architecture_extension :: "string \<Rightarrow> bool" where
  "is_architecture_extension s \<longleftrightarrow>
     take 2 s = ''x-'' \<and>
     (case split_at (CHR '':'') (drop 2 s) of
        [owner, name] \<Rightarrow> hyphenated_words owner \<and> hyphenated_words name
      | _ \<Rightarrow> False)"

definition architecture_aliases :: "(string, string) pydict" where
  "architecture_aliases = [(''amd64'', ''x86_64''), (''x64'', ''x86_64''), (''arm64'', ''aarch64'')]"

definition normalize_architecture :: "string \<Rightarrow> string option" where
  "normalize_architecture x =
     (if extract_variable_name x \<noteq> None then Some x
      else
        let lowered = map lower_char x in
        if is_architecture_extension lowered then Some lowered
        else
          let normalized = normalize_enum_value lowered;
            canonical = (case dict_get architecture_aliases normalized of None \<Rightarrow> normalized | Some a \<Rightarrow> a) in
          if canonical \<in> set node_architectures then Some canonical else None)"

definition holds_token :: "json_scalar \<Rightarrow> bool" where
  "holds_token v = (case v of ScalarStr x \<Rightarrow> variable_names_in_value x \<noteq> [] | _ \<Rightarrow> False)"

definition field_accepts :: "string \<Rightarrow> json_scalar \<Rightarrow> bool" where
  "field_accepts address v \<longleftrightarrow> \<not> holds_token v \<and>
     (case target_kind (tl (split_at (CHR ''/'') address)) of
        None \<Rightarrow> False
      | Some kind \<Rightarrow>
          if kind = ''os'' then parse_enum os_families v \<noteq> None
          else if kind = ''architecture''
          then (case v of ScalarStr x \<Rightarrow> normalize_architecture x \<noteq> None | _ \<Rightarrow> False)
          else if kind = ''action'' then parse_enum acl_actions v \<noteq> None
          else if kind = ''count'' then parse_int 1 v \<noteq> None
          else parse_bool v \<noteq> None)"

section \<open>What a choice of values has to satisfy\<close>

definition declared_values :: "variable_decl \<Rightarrow> json_scalar list" where
  "declared_values v =
     (if vd_allowed v \<noteq> [] then vd_allowed v
      else if vd_type v = TYPE_BOOLEAN then [ScalarBool False, ScalarBool True] else [])"

text \<open>
  A choice fits when each occurrence of a variable is a whole field of the profile, and the value
  chosen is one the variable declares and one its field accepts.
\<close>

definition fits :: "sdl_scenario \<Rightarrow> (string \<Rightarrow> json_scalar option) \<Rightarrow> bool" where
  "fits sc g \<longleftrightarrow> (\<forall>(address, name, embedded) \<in> set (variable_occurrences (sc_payload sc) []).
     \<not> embedded \<and> (\<exists>decl v. dict_get (sc_variables sc) name = Some decl \<and> g name = Some v \<and>
        v \<in> set (declared_values decl) \<and> field_accepts address v))"

text \<open>Somewhere an architecture is given by an alias or an extension term.\<close>

definition names_architecture_indirectly :: "sdl_scenario \<Rightarrow> (string \<Rightarrow> json_scalar option) \<Rightarrow> bool" where
  "names_architecture_indirectly sc g \<longleftrightarrow>
     (\<exists>(address, name, embedded) \<in> set (variable_occurrences (sc_payload sc) []).
        target_kind (tl (split_at (CHR ''/'') address)) = Some ''architecture'' \<and>
        (\<exists>x. g name = Some (ScalarStr x) \<and> normalize_enum_value x \<notin> set node_architectures))"

text \<open>What the translation leaves of the declared values.\<close>

definition target_accepts :: "string \<Rightarrow> variable_type \<Rightarrow> json_scalar \<Rightarrow> bool" where
  "target_accepts address t v \<longleftrightarrow>
     (case target_kind (tl (split_at (CHR ''/'') address)) of
        None \<Rightarrow> False
      | Some kind \<Rightarrow>
          (case (t, v) of
             (TYPE_STRING, ScalarStr x) \<Rightarrow>
               kind = ''os'' \<and> normalize_enum_value x \<in> set os_families \<or>
               kind = ''architecture'' \<and> normalize_enum_value x \<in> set node_architectures \<or>
               kind = ''action'' \<and> normalize_enum_value x \<in> set acl_actions
           | (TYPE_INTEGER, ScalarInt i) \<Rightarrow> kind = ''count'' \<and> 1 \<le> i
           | (TYPE_BOOLEAN, x) \<Rightarrow> kind = ''internal''
           | _ \<Rightarrow> False))"

definition solves :: "sdl_scenario \<Rightarrow> (string \<Rightarrow> json_scalar option) \<Rightarrow> bool" where
  "solves sc g \<longleftrightarrow> (\<forall>(address, name, embedded) \<in> set (variable_occurrences (sc_payload sc) []).
     \<not> embedded \<and> (\<exists>decl v. dict_get (sc_variables sc) name = Some decl \<and> g name = Some v \<and>
        v \<in> set (declared_values decl) \<and> target_accepts address (vd_type decl) v))"

section \<open>Runs without diagnostics\<close>

text \<open>
  A step is quiet when it leaves the accumulator non-empty, or leaves it alone and does what it
  is for.
\<close>

definition accumulator_ok :: "diagnostic_accumulator \<Rightarrow> bool" where
  "accumulator_ok acc \<longleftrightarrow> length (da_items acc) \<le> max_diagnostics \<and> (da_overflowed acc \<longrightarrow> da_items acc \<noteq> [])"

definition quiet :: "diagnostic_accumulator \<Rightarrow> diagnostic_accumulator \<Rightarrow> bool \<Rightarrow> bool" where
  "quiet acc acc' Q \<longleftrightarrow> (accumulator_ok acc \<longrightarrow> accumulator_ok acc' \<and> (da_items acc' = [] \<longrightarrow> acc' = acc \<and> Q))"

lemma dict_set_not_empty [simp]: "dict_set k v d \<noteq> []"
  unfolding dict_set_def by (cases d) auto

lemma dict_set_length: "length (dict_set k v d) \<le> length d + 1"
  unfolding dict_set_def by (induction d) auto

lemma add_diagnostic_ok:
  assumes "add_diagnostic acc d = Inr acc'" and "accumulator_ok acc"
  shows "accumulator_ok acc' \<and> da_items acc' \<noteq> []"
proof -
  let ?key = "(dg_address d, dg_code d)"
  have small: "length (dict_set k e xs) \<le> max_diagnostics" if "length xs < max_diagnostics" for k e and xs :: "(string \<times> string, diagnostic) pydict"
    using dict_set_length [of k e xs] that by simp
  show ?thesis
  proof (cases "dict_has (da_items acc) ?key \<or> da_overflowed acc")
    case True
    with assms have "acc' = acc" by (simp add: add_diagnostic_def Let_def)
    with True assms(2) show ?thesis by (auto simp: accumulator_ok_def dict_has_def dict_keys_def)
  next
    case False
    note new = this
    show ?thesis
    proof (cases "length (da_items acc) < max_diagnostics")
      case True
      with new assms(1) have "acc' = acc\<lparr>da_items := dict_set ?key d (da_items acc)\<rparr>"
        by (simp add: add_diagnostic_def Let_def)
      with True new assms(2) small show ?thesis by (simp add: accumulator_ok_def)
    next
      case False
      with new assms(1) obtain k e where acc': "acc' = acc\<lparr>da_items := dict_set k e (butlast (da_items acc)), da_overflowed := True\<rparr>"
        unfolding add_diagnostic_def Let_def by (auto elim: res_bind_InrE)
      have "length (butlast (da_items acc)) < max_diagnostics"
        using assms(2) False by (auto simp: accumulator_ok_def max_diagnostics_def)
      with small show ?thesis unfolding acc' by (simp add: accumulator_ok_def)
    qed
  qed
qed

lemma report_quiet: "report code address message acc = Inr acc' \<Longrightarrow> quiet acc acc' Q"
  unfolding report_def quiet_def by (auto simp: res_bind_Inr_iff dest: add_diagnostic_ok)

lemma quiet_same: "Q \<Longrightarrow> quiet acc acc Q"
  by (simp add: quiet_def)

lemma quiet_trans: "quiet acc acc1 P \<Longrightarrow> quiet acc1 acc2 Q \<Longrightarrow> (P \<Longrightarrow> Q \<Longrightarrow> R) \<Longrightarrow> quiet acc acc2 R"
  unfolding quiet_def by auto

lemma quiet_mono: "quiet acc acc' P \<Longrightarrow> (P \<Longrightarrow> Q) \<Longrightarrow> quiet acc acc' Q"
  unfolding quiet_def by auto

lemma quiet_fold:
  assumes "res_fold f (x, acc) es = Inr (y, acc')" and "P [] x"
    and step: "\<And>ys e x acc x' acc'. f (x, acc) e = Inr (x', acc') \<Longrightarrow> e \<in> set es \<Longrightarrow> quiet acc acc' (P ys x \<longrightarrow> P (ys @ [e]) x')"
  shows "quiet acc acc' (P es y)"
proof -
  have "quiet acc acc' (P ds y)" if "es = ds @ rest" "res_fold f (x, acc) ds = Inr (y, acc')" for ds rest y acc'
    using that
  proof (induction ds arbitrary: rest y acc' rule: rev_induct)
    case Nil
    with assms(2) show ?case by (simp add: quiet_same)
  next
    case (snoc e ds)
    then obtain y1 acc1 where run: "res_fold f (x, acc) ds = Inr (y1, acc1)" "f (y1, acc1) e = Inr (y, acc')"
      by (auto simp: res_fold_append res_bind_Inr_iff)
    have "quiet acc acc1 (P ds y1)" using snoc.IH [of "e # rest"] snoc.prems(1) run(1) by simp
    moreover have "quiet acc1 acc' (P ds y1 \<longrightarrow> P (ds @ [e]) y)" by (rule step [OF run(2)]) (simp add: snoc.prems(1))
    ultimately show ?case by (rule quiet_trans) blast
  qed
  from this [of es "[]"] assms(1) show ?thesis by simp
qed

section \<open>Symbols\<close>

text \<open>The symbol of a declared variable.\<close>

definition symbol_for :: "(json_scalar \<Rightarrow> string) \<Rightarrow> string \<Rightarrow> variable_decl \<Rightarrow> constraint_symbol \<Rightarrow> bool" where
  "symbol_for scalar_key name v s \<longleftrightarrow> sy_variable s = name \<and> sort_of_type (vd_type v) = Inr (sy_sort s) \<and>
     sy_domain s = sort_key scalar_key (declared_values v) \<and> list_all (of_sort (sy_sort s)) (sy_domain s)"

lemma make_symbol_Inr: "make_symbol k s = Inr s' \<Longrightarrow> s' = s \<and> list_all (of_sort (sy_sort s)) (sy_domain s)"
  by (auto simp: make_symbol_def res_bind_Inr_iff)

lemma finite_domain_values_quiet:
  "finite_domain_values v address acc = Inr (values, acc') \<Longrightarrow>
     quiet acc acc' (vd_type v \<noteq> TYPE_NUMBER \<and> values = Some (declared_values v))"
  by (auto simp: finite_domain_values_def declared_values_def res_bind_Inr_iff intro: quiet_same dest: report_quiet split: if_splits)

lemma translate_symbol_quiet:
  assumes "translate_symbol key sha name v acc = Inr (symbol, acc')"
  shows "quiet acc acc' (\<exists>s. symbol = Some s \<and> symbol_for key name v s)"
proof -
  let ?address = "variable_address name"
  from assms obtain vs acc1 where vs: "finite_domain_values v ?address acc = Inr (vs, acc1)"
    and rest: "(case vs of None \<Rightarrow> Inr (None, acc1) | Some values \<Rightarrow>
            res_bind (sort_of_type (vd_type v)) (\<lambda>sort.
            let canonical = sort_key key values in
            if 256 < length canonical \<or> \<not> distinct (map key canonical)
            then res_bind (report domain_code ?address ''The variable domain is invalid or exceeds its limit.'' acc1)
                   (\<lambda>acc. Inr (None, acc))
            else res_bind (make_symbol key
                \<lparr>sy_id = stable_id sha ''symbol'' name, sy_variable = name, sy_sort = sort, sy_domain = canonical\<rparr>)
              (\<lambda>s. Inr (Some s, acc1)))) = Inr (symbol, acc')"
    by (auto simp: translate_symbol_def Let_def res_bind_Inr_iff)
  note first = finite_domain_values_quiet [OF vs]
  show ?thesis
  proof (cases vs)
    case None
    with rest first show ?thesis by (auto elim: quiet_mono)
  next
    case (Some vals)
    with rest obtain sort where sort: "sort_of_type (vd_type v) = Inr sort" by (auto simp: res_bind_Inr_iff)
    have "quiet acc1 acc' (vals = declared_values v \<longrightarrow> (\<exists>s. symbol = Some s \<and> symbol_for key name v s))"
    proof (cases "256 < length (sort_key key vals) \<or> \<not> distinct (map key (sort_key key vals))")
      case True
      with rest Some sort show ?thesis by (auto simp: Let_def res_bind_Inr_iff dest: report_quiet)
    next
      case False
      with rest Some sort have "acc' = acc1" "\<exists>s. make_symbol key \<lparr>sy_id = stable_id sha ''symbol'' name, sy_variable = name,
          sy_sort = sort, sy_domain = sort_key key vals\<rparr> = Inr s \<and> symbol = Some s"
        by (auto simp: Let_def res_bind_Inr_iff)
      then show ?thesis using sort by (auto simp: symbol_for_def intro!: quiet_same dest!: make_symbol_Inr)
    qed
    from quiet_trans [OF first this] show ?thesis using Some by blast
  qed
qed

definition selected_variables :: "sdl_scenario \<Rightarrow> occurrence list \<Rightarrow> (string \<times> variable_decl) list" where
  "selected_variables sc occurrences = sort_key fst (filter
     (\<lambda>(name, v). name \<in> set (map (\<lambda>(_, name, _). name) occurrences) \<or> vd_required v) (sc_variables sc))"

text \<open>Each selected variable has its symbol, under its name.\<close>

definition symbols_for ::
  "(json_scalar \<Rightarrow> string) \<Rightarrow> (string \<times> variable_decl) list \<Rightarrow> (string, constraint_symbol) pydict \<Rightarrow> bool" where
  "symbols_for key = list_all2 (\<lambda>(name, v) (name', s). name' = name \<and> symbol_for key name v s)"

lemma symbols_for_keys: "symbols_for key vs symbols \<Longrightarrow> map fst symbols = map fst vs"
  unfolding symbols_for_def by (induction rule: list_all2_induct) auto

lemma select_symbols_quiet:
  assumes sel: "select_symbols key sha sc occurrences acc = Inr (symbols, acc')" and wf: "wf_dict (sc_variables sc)"
  shows "quiet acc acc' (symbols_for key (selected_variables sc occurrences) symbols)"
proof -
  let ?vs = "selected_variables sc occurrences"
  let ?f = "\<lambda>(symbols, acc) (name, v). res_bind (translate_symbol key sha name v acc) (\<lambda>(symbol, acc).
            Inr (case symbol of None \<Rightarrow> symbols | Some s \<Rightarrow> dict_set name s symbols, acc))"
  from sel obtain acc1 where first: "(if 128 < length ?vs
          then report resource_code ''/variables'' ''The analysis exceeds the symbol limit.'' acc else Inr acc) = Inr acc1"
    and loop: "res_fold ?f ([], acc1) (take 128 ?vs) = Inr (symbols, acc')"
    by (auto simp: select_symbols_def Let_def selected_variables_def res_bind_Inr_iff)
  have few: "quiet acc acc1 (take 128 ?vs = ?vs)"
    using first by (auto split: if_splits intro: quiet_same dest: report_quiet)
  have distinct: "distinct (map fst (take 128 ?vs))"
  proof -
    have "distinct (map fst ?vs)" using wf
      by (simp add: selected_variables_def wf_dict_def dict_keys_def distinct_map)
        (auto intro: inj_on_subset)
    then show ?thesis by (simp add: take_map [symmetric])
  qed
  have "quiet acc1 acc' (symbols_for key (take 128 ?vs) symbols)"
    using loop
  proof (rule quiet_fold [where P = "\<lambda>ys xs. distinct (map fst ys) \<longrightarrow> symbols_for key ys xs" , THEN quiet_mono])
    show "distinct (map fst []) \<longrightarrow> symbols_for key [] []" by (simp add: symbols_for_def)
  next
    fix ys e and x x' :: "(string, constraint_symbol) pydict" and a a'
    assume step: "?f (x, a) e = Inr (x', a')"
    obtain name v where e: "e = (name, v)" by fastforce
    with step obtain symbol where t: "translate_symbol key sha name v a = Inr (symbol, a')"
      and x': "x' = (case symbol of None \<Rightarrow> x | Some s \<Rightarrow> dict_set name s x)"
      by (auto simp: res_bind_Inr_iff)
    show "quiet a a' ((distinct (map fst ys) \<longrightarrow> symbols_for key ys x) \<longrightarrow>
        (distinct (map fst (ys @ [e])) \<longrightarrow> symbols_for key (ys @ [e]) x'))"
    proof (rule quiet_mono [OF translate_symbol_quiet [OF t]], intro impI)
      assume "\<exists>s. symbol = Some s \<and> symbol_for key name v s" "distinct (map fst ys) \<longrightarrow> symbols_for key ys x"
        "distinct (map fst (ys @ [e]))"
      then obtain s where s: "symbol = Some s" "symbol_for key name v s" "symbols_for key ys x" "name \<notin> fst ` set ys"
        using e by auto
      have "name \<notin> fst ` set x" using s(3,4) symbols_for_keys by (metis list.set_map)
      with s e x' show "symbols_for key (ys @ [e]) x'"
        by (simp add: dict_set_new symbols_for_def list_all2_appendI)
    qed
  qed (use distinct in simp)
  from quiet_trans [OF few this] show ?thesis by simp
qed

section \<open>Clauses\<close>

definition declared_clause :: "(string, constraint_symbol) pydict \<Rightarrow> constraint_clause \<Rightarrow> bool" where
  "declared_clause symbols c \<longleftrightarrow> (\<exists>s \<in> set (map snd symbols). cl_symbol c = sy_id s \<and> cl_allowed c = sy_domain s)"

definition occurrence_clause :: "(string, constraint_symbol) pydict \<Rightarrow> occurrence \<Rightarrow> constraint_clause \<Rightarrow> bool" where
  "occurrence_clause symbols occurrence c \<longleftrightarrow> (case occurrence of (address, name, embedded) \<Rightarrow>
     \<not> embedded \<and> (\<exists>s. dict_get symbols name = Some s \<and> target_domain address s = Some (cl_allowed c) \<and> cl_symbol c = sy_id s))"

definition covers :: "(string, constraint_symbol) pydict \<Rightarrow> occurrence list \<Rightarrow> constraint_clause list \<Rightarrow> bool" where
  "covers symbols occurrences clauses \<longleftrightarrow>
     (\<forall>occurrence \<in> set occurrences. \<exists>c \<in> set clauses. occurrence_clause symbols occurrence c) \<and>
     (\<forall>c \<in> set clauses. declared_clause symbols c \<or> (\<exists>occurrence \<in> set occurrences. occurrence_clause symbols occurrence c))"

lemma make_clause_Inr: "make_clause k c = Inr c' \<Longrightarrow> c' = c"
  by (auto simp: make_clause_def res_bind_Inr_iff)

lemma append_clause_quiet:
  "append_clause c (clauses, acc) = Inr (clauses', acc') \<Longrightarrow> quiet acc acc' (clauses' = clauses @ [c])"
  by (auto simp: append_clause_def res_bind_Inr_iff intro: quiet_same dest: report_quiet split: if_splits)

lemma target_clause_quiet:
  assumes "target_clause key sha symbols occurrence acc = Inr (clause, acc')"
  shows "quiet acc acc' (\<exists>c. clause = Some c \<and> occurrence_clause symbols occurrence c)"
proof -
  obtain address name embedded where o: "occurrence = (address, name, embedded)" by (cases occurrence)
  let ?allowed = "if embedded then None else case dict_get symbols name of None \<Rightarrow> None | Some s \<Rightarrow> target_domain address s"
  show ?thesis
  proof (cases "dict_get symbols name = None \<or> ?allowed = None")
    case True
    with assms o show ?thesis
      by (auto simp: target_clause_def res_bind_Inr_iff dest: report_quiet split: option.splits if_splits)
  next
    case False
    then obtain s vals where s: "dict_get symbols name = Some s" "?allowed = Some vals" by auto
    then have "target_domain address s = Some vals" "\<not> embedded" by (auto split: if_splits)
    with assms o s(1) show ?thesis
      by (auto simp: target_clause_def res_bind_Inr_iff occurrence_clause_def intro!: quiet_same dest!: make_clause_Inr)
  qed
qed

lemma translate_clauses_quiet:
  assumes "translate_clauses key sha symbols occurrences acc = Inr (clauses, acc')"
  shows "quiet acc acc' (covers symbols occurrences clauses)"
proof -
  let ?f = "\<lambda>st (name, s). res_bind (make_clause key \<lparr>cl_id = stable_id sha ''domain'' name, cl_kind = DECLARED_DOMAIN,
      cl_symbol = sy_id s, cl_address = variable_address name, cl_allowed = sy_domain s\<rparr>) (\<lambda>c. append_clause c st)"
  let ?g = "\<lambda>(clauses, acc) occurrence. res_bind (target_clause key sha symbols occurrence acc) (\<lambda>(clause, acc).
           case clause of None \<Rightarrow> Inr (clauses, acc) | Some c \<Rightarrow> append_clause c (clauses, acc))"
  from assms obtain cs acc1 where loops: "res_fold ?f ([], acc) symbols = Inr (cs, acc1)"
      "res_fold ?g (cs, acc1) occurrences = Inr (clauses, acc')"
    unfolding translate_clauses_def by (auto elim!: res_bind_InrE)
  have first: "quiet acc acc1 (\<forall>c \<in> set cs. declared_clause symbols c)"
    using loops(1)
  proof (rule quiet_fold [where P = "\<lambda>ys cs. \<forall>c \<in> set cs. declared_clause symbols c"])
    fix ys e and x x' :: "constraint_clause list" and a a'
    assume step: "?f (x, a) e = Inr (x', a')" and mem: "e \<in> set symbols"
    obtain name s where e: "e = (name, s)" by fastforce
    with step obtain c where c: "append_clause c (x, a) = Inr (x', a')" "cl_symbol c = sy_id s" "cl_allowed c = sy_domain s"
      by (auto simp: res_bind_Inr_iff dest!: make_clause_Inr)
    have d: "declared_clause symbols c" using mem e c(2,3) unfolding declared_clause_def by force
    show "quiet a a' ((\<forall>c \<in> set x. declared_clause symbols c) \<longrightarrow> (\<forall>c \<in> set x'. declared_clause symbols c))"
      by (rule quiet_mono [OF append_clause_quiet [OF c(1)]]) (simp add: d)
  qed simp
  let ?P = "\<lambda>os cs. (\<forall>oc \<in> set os. \<exists>c \<in> set cs. occurrence_clause symbols oc c) \<and>
     (\<forall>c \<in> set cs. declared_clause symbols c \<or> (\<exists>oc \<in> set occurrences. occurrence_clause symbols oc c))"
  have "quiet acc1 acc' ((\<forall>c \<in> set cs. declared_clause symbols c) \<longrightarrow> ?P occurrences clauses)"
    using loops(2)
  proof (rule quiet_fold [where P = "\<lambda>os ds. (\<forall>c \<in> set cs. declared_clause symbols c) \<longrightarrow> ?P os ds"])
    fix ys oc and x x' :: "constraint_clause list" and a a'
    assume step: "?g (x, a) oc = Inr (x', a')" and mem: "oc \<in> set occurrences"
    then obtain clause a1 where t: "target_clause key sha symbols oc a = Inr (clause, a1)"
      and rest: "(case clause of None \<Rightarrow> Inr (x, a1) | Some c \<Rightarrow> append_clause c (x, a1)) = Inr (x', a')"
      by (auto simp: res_bind_Inr_iff)
    have "quiet a1 a' (\<forall>c. clause = Some c \<longrightarrow> x' = x @ [c])"
      using rest by (cases clause) (auto intro: quiet_same quiet_mono [OF append_clause_quiet])
    then have "quiet a a' (\<exists>c. x' = x @ [c] \<and> occurrence_clause symbols oc c)"
      by (rule quiet_trans [OF target_clause_quiet [OF t]]) blast
    then show "quiet a a' (((\<forall>c \<in> set cs. declared_clause symbols c) \<longrightarrow> ?P ys x) \<longrightarrow>
        ((\<forall>c \<in> set cs. declared_clause symbols c) \<longrightarrow> ?P (ys @ [oc]) x'))"
    proof (rule quiet_mono, intro impI)
      assume "\<exists>c. x' = x @ [c] \<and> occurrence_clause symbols oc c"
      then obtain c where c: "x' = x @ [c]" "occurrence_clause symbols oc c" by blast
      assume "(\<forall>c \<in> set cs. declared_clause symbols c) \<longrightarrow> ?P ys x" "\<forall>c \<in> set cs. declared_clause symbols c"
      then have P: "?P ys x" by blast
      have "\<exists>c \<in> set x'. occurrence_clause symbols od c" if "od \<in> set (ys @ [oc])" for od
        using that P c by (cases "od = oc") auto
      moreover have "declared_clause symbols d \<or> (\<exists>od \<in> set occurrences. occurrence_clause symbols od d)" if "d \<in> set x'" for d
        using that P c mem by (cases "d = c") auto
      ultimately show "?P (ys @ [oc]) x'" by blast
    qed
  qed simp
  from quiet_trans [OF first this] show ?thesis unfolding covers_def by blast
qed

section \<open>Solutions of the model are choices that fit\<close>

lemma symbol_for_type:
  "symbol_for key name v s \<Longrightarrow>
     (sy_sort s = SORT_STRING \<longleftrightarrow> vd_type v = TYPE_STRING) \<and> (sy_sort s = SORT_INTEGER \<longleftrightarrow> vd_type v = TYPE_INTEGER) \<and>
     (sy_sort s = SORT_BOOLEAN \<longleftrightarrow> vd_type v = TYPE_BOOLEAN) \<and> set (sy_domain s) = set (declared_values v)"
  unfolding symbol_for_def by (cases "vd_type v") auto

lemma target_kind_cases:
  "target_kind ps = Some k \<Longrightarrow> k \<in> {''os'', ''architecture'', ''count'', ''internal'', ''action''}"
  by (induction ps rule: target_kind.induct) (auto split: if_splits)

lemma target_domain_accepts:
  assumes s: "symbol_for key name decl s" and d: "target_domain address s = Some vals"
  shows "v \<in> set vals \<longleftrightarrow> v \<in> set (declared_values decl) \<and> target_accepts address (vd_type decl) v"
proof -
  obtain kind where kind: "target_kind (tl (split_at (CHR ''/'') address)) = Some kind"
    using d by (auto simp: target_domain_def split: option.splits)
  note sorts = symbol_for_type [OF s]
  consider "kind = ''os''" | "kind = ''architecture''" | "kind = ''count''" | "kind = ''internal''" | "kind = ''action''"
    using target_kind_cases [OF kind] by blast
  then show ?thesis
  proof cases
    case 1
    with d kind have "sy_sort s = SORT_STRING" "vals = string_vocabulary_domain s os_families"
      by (auto simp: target_domain_def split: if_splits)
    with kind 1 sorts show ?thesis
      by (cases v) (auto simp: target_accepts_def string_vocabulary_domain_def)
  next
    case 2
    with d kind have "sy_sort s = SORT_STRING" "vals = string_vocabulary_domain s node_architectures"
      by (auto simp: target_domain_def split: if_splits)
    with kind 2 sorts show ?thesis
      by (cases v) (auto simp: target_accepts_def string_vocabulary_domain_def)
  next
    case 3
    with d kind have "sy_sort s = SORT_INTEGER" "vals = filter (\<lambda>v. case v of ScalarInt i \<Rightarrow> 1 \<le> i | _ \<Rightarrow> False) (sy_domain s)"
      by (auto simp: target_domain_def split: if_splits)
    with kind 3 sorts show ?thesis
      by (cases v) (auto simp: target_accepts_def)
  next
    case 4
    with d kind have "sy_sort s = SORT_BOOLEAN" "vals = sy_domain s"
      by (auto simp: target_domain_def split: if_splits)
    with kind 4 sorts show ?thesis
      by (auto simp: target_accepts_def)
  next
    case 5
    with d kind have "sy_sort s = SORT_STRING" "vals = string_vocabulary_domain s acl_actions"
      by (auto simp: target_domain_def split: if_splits)
    with kind 5 sorts show ?thesis
      by (cases v) (auto simp: target_accepts_def string_vocabulary_domain_def)
  qed
qed

lemma assignment_of_get:
  assumes "distinct (map sy_variable ss)" and "s \<in> set ss"
  shows "dict_get (assignment_of ss f) (sy_variable s) = Some (f (sy_id s))"
  using assms
proof (induction ss rule: rev_induct)
  case Nil
  then show ?case by simp
next
  case (snoc x ss)
  show ?case
  proof (cases "s = x")
    case True
    then show ?thesis by (simp add: assignment_of_def)
  next
    case False
    with snoc.prems have mem: "s \<in> set ss" by simp
    then have "sy_variable s \<in> sy_variable ` set ss" by (rule imageI)
    with snoc.prems have "sy_variable s \<noteq> sy_variable x" by auto
    with snoc mem show ?thesis by (simp add: assignment_of_def)
  qed
qed

lemma symbols_for_mem:
  "symbols_for key vs symbols \<Longrightarrow> (name, s) \<in> set symbols \<Longrightarrow> \<exists>v. (name, v) \<in> set vs \<and> symbol_for key name v s"
  unfolding symbols_for_def by (induction rule: list_all2_induct) auto

lemma symbols_for_get:
  "symbols_for key vs symbols \<Longrightarrow> dict_get symbols name = Some s \<Longrightarrow> \<exists>v. (name, v) \<in> set vs \<and> symbol_for key name v s"
  using symbols_for_mem unfolding dict_get_def by (metis map_of_SomeD)

text \<open>A model as the translation leaves it when it reports nothing.\<close>

definition translated ::
  "(json_scalar \<Rightarrow> string) \<Rightarrow> sdl_scenario \<Rightarrow> (string, constraint_symbol) pydict \<Rightarrow> constraint_model \<Rightarrow> bool" where
  "translated key sc symbols m \<longleftrightarrow>
     (let occurrences = variable_occurrences (sc_payload sc) [] in
      symbols_for key (selected_variables sc occurrences) symbols \<and> covers symbols occurrences (cm_clauses m) \<and>
      set (cm_symbols m) = set (map snd symbols) \<and> distinct (map sy_variable (cm_symbols m)) \<and> model_ok m)"

lemma declared_variable:
  assumes "translated key sc symbols m" and "wf_dict (sc_variables sc)" and "(name, s) \<in> set symbols"
  shows "\<exists>decl. dict_get (sc_variables sc) name = Some decl \<and> symbol_for key name decl s \<and> s \<in> set (cm_symbols m)"
proof -
  obtain decl where "(name, decl) \<in> set (selected_variables sc (variable_occurrences (sc_payload sc) []))" "symbol_for key name decl s"
    using assms(1,3) symbols_for_mem unfolding translated_def Let_def by blast
  moreover from this(1) have "(name, decl) \<in> set (sc_variables sc)" by (auto simp: selected_variables_def)
  ultimately show ?thesis
    using assms(1,3) map_of_is_SomeI [OF assms(2) [unfolded wf_dict_def dict_keys_def]]
    unfolding translated_def Let_def dict_get_def by force
qed

lemma solution_solves:
  assumes t: "translated key sc symbols m" and wf: "wf_dict (sc_variables sc)" and f: "admits m (all_clauses m) f"
  shows "solves sc (dict_get (assignment_of (cm_symbols m) f))"
proof -
  have "\<not> embedded \<and> (\<exists>decl v. dict_get (sc_variables sc) name = Some decl \<and>
      dict_get (assignment_of (cm_symbols m) f) name = Some v \<and> v \<in> set (declared_values decl) \<and> target_accepts address (vd_type decl) v)"
    if "(address, name, embedded) \<in> set (variable_occurrences (sc_payload sc) [])" for address name embedded
  proof -
    have "\<exists>c \<in> set (cm_clauses m). occurrence_clause symbols (address, name, embedded) c"
      using t that unfolding translated_def Let_def covers_def by blast
    then obtain c s where c: "c \<in> set (cm_clauses m)" "\<not> embedded" "dict_get symbols name = Some s"
        "target_domain address s = Some (cl_allowed c)" "cl_symbol c = sy_id s"
      unfolding occurrence_clause_def by auto
    have mem: "(name, s) \<in> set symbols" using c(3) by (simp add: dict_get_def map_of_SomeD)
    obtain decl where decl: "dict_get (sc_variables sc) name = Some decl" "symbol_for key name decl s" "s \<in> set (cm_symbols m)"
      using declared_variable [OF t wf mem] by blast
    have "f (sy_id s) \<in> set (cl_allowed c)" using f c(1,5) unfolding admits_def all_clauses_def by (metis image_eqI)
    moreover have "sy_variable s = name" using decl(2) by (simp add: symbol_for_def)
    then have "dict_get (assignment_of (cm_symbols m) f) name = Some (f (sy_id s))"
      using assignment_of_get [OF _ decl(3)] t unfolding translated_def Let_def by metis
    ultimately show ?thesis using c(2) decl(1) target_domain_accepts [OF decl(2) c(4)] by blast
  qed
  then show ?thesis unfolding solves_def by blast
qed

lemma solving_is_solution:
  assumes t: "translated key sc symbols m" and wf: "wf_dict (sc_variables sc)" and g: "solves sc g"
  shows "\<exists>f. admits m (all_clauses m) f"
proof -
  have m: "model_ok m" using t by (simp add: translated_def Let_def)
  define value_of where "value_of s = (case g (sy_variable s) of Some v \<Rightarrow> if v \<in> set (sy_domain s) then v else hd (sy_domain s)
    | None \<Rightarrow> hd (sy_domain s))" for s :: constraint_symbol
  define f where "f i = value_of (the (find_symbol m i))" for i
  have f: "f (sy_id s) = value_of s" if "s \<in> set (cm_symbols m)" for s
    using m that by (simp add: f_def find_symbol_mem model_ok_def)
  have dom: "value_of s \<in> set (sy_domain s)" if "s \<in> set (cm_symbols m)" for s
    using m that by (auto simp: value_of_def model_ok_def split: option.splits)
  have "f (cl_symbol c) \<in> set (cl_allowed c)" if c: "c \<in> set (cm_clauses m)" for c
  proof -
    consider "declared_clause symbols c" | oc where "oc \<in> set (variable_occurrences (sc_payload sc) [])" "occurrence_clause symbols oc c"
      using t c unfolding translated_def Let_def covers_def by blast
    then show ?thesis
    proof cases
      case 1
      then obtain s where "s \<in> set (cm_symbols m)" "cl_symbol c = sy_id s" "cl_allowed c = sy_domain s"
        using t unfolding declared_clause_def translated_def Let_def by auto
      with f dom show ?thesis by simp
    next
      case (2 oc)
      obtain address name embedded where oc: "oc = (address, name, embedded)" by (cases oc)
      with 2(2) obtain s where s: "dict_get symbols name = Some s" "target_domain address s = Some (cl_allowed c)" "cl_symbol c = sy_id s"
        by (auto simp: occurrence_clause_def)
      have mem: "(name, s) \<in> set symbols" using s(1) by (simp add: dict_get_def map_of_SomeD)
      obtain decl where decl: "dict_get (sc_variables sc) name = Some decl" "symbol_for key name decl s" "s \<in> set (cm_symbols m)"
        using declared_variable [OF t wf mem] by blast
      from g 2(1) oc decl(1) obtain v where v: "g name = Some v" "v \<in> set (declared_values decl)" "target_accepts address (vd_type decl) v"
        unfolding solves_def by fastforce
      have "value_of s = v" using v decl(2) symbol_for_type [OF decl(2)] by (simp add: value_of_def symbol_for_def)
      with v target_domain_accepts [OF decl(2) s(2)] f [OF decl(3)] s(3) show ?thesis by simp
    qed
  qed
  with f dom show ?thesis unfolding admits_def by (intro exI [of _ f]) simp
qed

section \<open>The filter and the fields\<close>

lemma find_tokens_dollar: "find_tokens x \<noteq> [] \<Longrightarrow> CHR ''$'' \<in> set x"
proof (induction x rule: find_tokens.induct)
  case 1
  then show ?case by simp
next
  case (2 c cs)
  show ?case
  proof (cases "token_at (c # cs)")
    case None
    with 2 show ?thesis by simp
  next
    case (Some nr)
    then have "take 2 (c # cs) = ''${''" by (auto simp: token_at_def Let_def split: if_splits)
    then show ?thesis by simp
  qed
qed

lemma fromkeys_Nil [simp]: "fromkeys xs = [] \<longleftrightarrow> xs = []"
  by (metis set_empty set_fromkeys)

lemma normalized_dollar: "CHR ''$'' \<in> set x \<Longrightarrow> CHR ''$'' \<in> set (normalize_enum_value x)"
proof -
  assume x: "CHR ''$'' \<in> set x"
  have "lower_char (CHR ''$'') = CHR ''$''" by code_simp
  with x have "CHR ''$'' \<in> set (map (\<lambda>c. if c = CHR ''-'' then CHR ''_'' else c) (map lower_char x))"
    by (force simp: image_iff)
  with x show ?thesis unfolding normalize_enum_value_def by (auto split: if_splits)
qed

lemma vocabulary_holds_no_token:
  assumes "normalize_enum_value x \<in> set (os_families @ node_architectures @ acl_actions)"
  shows "\<not> holds_token (ScalarStr x)"
proof
  assume "holds_token (ScalarStr x)"
  then have "CHR ''$'' \<in> set (normalize_enum_value x)"
    using find_tokens_dollar normalized_dollar by (auto simp: holds_token_def variable_names_in_value_def)
  moreover have "list_all (\<lambda>w. CHR ''$'' \<notin> set w) (os_families @ node_architectures @ acl_actions)" by code_simp
  ultimately show False using assms by (auto simp: list_all_iff)
qed

lemma lower_char_idem [simp]: "lower_char (lower_char c) = lower_char c"
proof -
  let ?n = "of_char c :: nat"
  let ?upper = "\<lambda>n. 65 \<le> n \<and> n \<le> 90 \<or> 192 \<le> n \<and> n \<le> 222 \<and> n \<noteq> (215 :: nat)"
  show ?thesis
  proof (cases "?upper ?n")
    case True
    then have low: "lower_char c = char_of (?n + 32)" by (simp add: lower_char_def Let_def)
    have "(of_char (char_of (?n + 32) :: char) :: nat) = ?n + 32" using True by auto
    moreover from True have "\<not> ?upper (?n + 32)" by auto
    ultimately show ?thesis unfolding low by (simp add: lower_char_def Let_def)
  next
    case False
    then have "lower_char c = c" unfolding lower_char_def Let_def by (rule if_not_P)
    then show ?thesis by simp
  qed
qed

lemma extract_variable_dollar: "extract_variable_name x \<noteq> None \<Longrightarrow> CHR ''$'' \<in> set x"
proof -
  assume "extract_variable_name x \<noteq> None"
  then have "token_at x \<noteq> None" by (auto simp: extract_variable_name_def split: option.splits)
  then have "take 2 x = ''${''" unfolding token_at_def by (meson option.distinct(1))
  then show ?thesis by (cases x) auto
qed

lemma canonical_architecture_accepted:
  assumes "normalize_enum_value x \<in> set node_architectures"
  shows "normalize_architecture x \<noteq> None"
proof -
  let ?low = "map lower_char x"
  have plain: "list_all (\<lambda>w. CHR ''$'' \<notin> set w) node_architectures" by code_simp
  then have "CHR ''$'' \<notin> set (normalize_enum_value x)" using assms by (auto simp: list_all_iff)
  then have x: "CHR ''$'' \<notin> set x" using normalized_dollar by blast
  then have none: "extract_variable_name x = None" using extract_variable_dollar by blast
  have n: "normalize_enum_value x = map (\<lambda>c. if c = CHR ''-'' then CHR ''_'' else c) ?low"
    using none by (simp add: normalize_enum_value_def)
  have "CHR ''$'' \<notin> set ?low"
  proof
    assume "CHR ''$'' \<in> set ?low"
    then have "CHR ''$'' \<in> set (normalize_enum_value x)" unfolding n by force
    with \<open>CHR ''$'' \<notin> set (normalize_enum_value x)\<close> show False by contradiction
  qed
  then have "extract_variable_name ?low = None" using extract_variable_dollar by blast
  then have same: "normalize_enum_value ?low = normalize_enum_value x"
    unfolding n by (simp add: normalize_enum_value_def comp_def)
  have "list_all (\<lambda>w. dict_get architecture_aliases w = None) node_architectures" by code_simp
  then have "dict_get architecture_aliases (normalize_enum_value x) = None" using assms by (auto simp: list_all_iff)
  with none same assms show ?thesis by (simp add: normalize_architecture_def Let_def)
qed

text \<open>Whatever passes the filter is accepted by its field.\<close>

lemma target_accepts_field:
  assumes "target_accepts address t v" and "t = TYPE_BOOLEAN \<Longrightarrow> \<exists>b. v = ScalarBool b"
  shows "field_accepts address v"
proof -
  obtain kind where kind: "target_kind (tl (split_at (CHR ''/'') address)) = Some kind"
    using assms(1) by (auto simp: target_accepts_def split: option.splits)
  show ?thesis
  proof (cases t)
    case TYPE_STRING
    then obtain x where v: "v = ScalarStr x" and x: "kind = ''os'' \<and> normalize_enum_value x \<in> set os_families \<or>
        kind = ''architecture'' \<and> normalize_enum_value x \<in> set node_architectures \<or>
        kind = ''action'' \<and> normalize_enum_value x \<in> set acl_actions"
      using assms(1) kind by (auto simp: target_accepts_def split: json_scalar.splits)
    have tok: "\<not> holds_token (ScalarStr x)" by (rule vocabulary_holds_no_token) (use x in auto)
    from x show ?thesis
    proof (elim disjE conjE)
      assume "kind = ''os''" "normalize_enum_value x \<in> set os_families"
      with tok show ?thesis unfolding v by (simp add: field_accepts_def kind parse_enum_def)
    next
      assume "kind = ''architecture''" "normalize_enum_value x \<in> set node_architectures"
      with tok canonical_architecture_accepted [of x] show ?thesis unfolding v by (simp add: field_accepts_def kind)
    next
      assume "kind = ''action''" "normalize_enum_value x \<in> set acl_actions"
      with tok show ?thesis unfolding v by (simp add: field_accepts_def kind parse_enum_def)
    qed
  next
    case TYPE_INTEGER
    with assms(1) kind show ?thesis
      by (auto simp: target_accepts_def field_accepts_def holds_token_def parse_int_def split: json_scalar.splits)
  next
    case TYPE_BOOLEAN
    with assms kind show ?thesis
      by (auto simp: target_accepts_def field_accepts_def holds_token_def parse_bool_def)
  next
    case TYPE_NUMBER
    with assms(1) kind show ?thesis by (simp add: target_accepts_def split: json_scalar.splits)
  qed
qed

text \<open>Conversely a value its field accepts passes the filter, unless it names an architecture indirectly.\<close>

lemma field_accepts_target:
  assumes s: "symbol_for key name decl s" and d: "target_domain address s = Some vals"
    and v: "v \<in> set (declared_values decl)" and f: "field_accepts address v"
    and direct: "\<And>x. target_kind (tl (split_at (CHR ''/'') address)) = Some ''architecture'' \<Longrightarrow> v = ScalarStr x \<Longrightarrow>
      normalize_enum_value x \<in> set node_architectures"
  shows "target_accepts address (vd_type decl) v"
proof -
  obtain kind where kind: "target_kind (tl (split_at (CHR ''/'') address)) = Some kind"
    using d by (auto simp: target_domain_def split: option.splits)
  note sorts = symbol_for_type [OF s]
  have typed: "of_sort (sy_sort s) v" using s v sorts by (auto simp: symbol_for_def list_all_iff)
  note accepts = f [unfolded field_accepts_def kind option.case]
  consider "kind = ''os''" | "kind = ''architecture''" | "kind = ''count''" | "kind = ''internal''" | "kind = ''action''"
    using target_kind_cases [OF kind] by blast
  then show ?thesis
  proof cases
    case 1
    with d kind have "vd_type decl = TYPE_STRING" using sorts by (auto simp: target_domain_def split: if_splits)
    with 1 accepts kind show ?thesis
      by (auto simp: target_accepts_def parse_enum_def split: json_scalar.splits if_splits)
  next
    case 2
    with d kind have "vd_type decl = TYPE_STRING" using sorts by (auto simp: target_domain_def split: if_splits)
    with 2 accepts kind direct show ?thesis by (cases v) (simp_all add: target_accepts_def)
  next
    case 3
    with d kind have "vd_type decl = TYPE_INTEGER" "sy_sort s = SORT_INTEGER"
      using sorts by (auto simp: target_domain_def split: if_splits)
    with 3 accepts kind typed show ?thesis
      by (cases v) (auto simp: target_accepts_def parse_int_def split: if_splits)
  next
    case 4
    with d kind have "vd_type decl = TYPE_BOOLEAN" using sorts by (auto simp: target_domain_def split: if_splits)
    with 4 kind show ?thesis by (simp add: target_accepts_def)
  next
    case 5
    with d kind have "vd_type decl = TYPE_STRING" using sorts by (auto simp: target_domain_def split: if_splits)
    with 5 accepts kind show ?thesis
      by (auto simp: target_accepts_def parse_enum_def split: json_scalar.splits if_splits)
  qed
qed

lemma occurrence_symbol:
  assumes t: "translated key sc symbols m" and wf: "wf_dict (sc_variables sc)"
    and oc: "(address, name, embedded) \<in> set (variable_occurrences (sc_payload sc) [])"
  obtains decl s vals where "\<not> embedded" "dict_get (sc_variables sc) name = Some decl" "symbol_for key name decl s"
    "target_domain address s = Some vals"
proof -
  have "\<exists>c \<in> set (cm_clauses m). occurrence_clause symbols (address, name, embedded) c"
    using t oc unfolding translated_def Let_def covers_def by blast
  then obtain c s where c: "\<not> embedded" "dict_get symbols name = Some s" "target_domain address s = Some (cl_allowed c)"
      "c \<in> set (cm_clauses m)"
    unfolding occurrence_clause_def case_prod_conv by blast
  have "(name, s) \<in> set symbols" using c(2) by (simp add: dict_get_def map_of_SomeD)
  with declared_variable [OF t wf] c that show thesis by blast
qed

lemma solves_fits:
  assumes t: "translated key sc symbols m" and wf: "wf_dict (sc_variables sc)" and g: "solves sc g"
  shows "fits sc g"
proof -
  have "\<not> embedded \<and> (\<exists>decl v. dict_get (sc_variables sc) name = Some decl \<and> g name = Some v \<and>
      v \<in> set (declared_values decl) \<and> field_accepts address v)"
    if oc: "(address, name, embedded) \<in> set (variable_occurrences (sc_payload sc) [])" for address name embedded
  proof -
    obtain decl s where s: "dict_get (sc_variables sc) name = Some decl" "symbol_for key name decl s"
      using occurrence_symbol [OF t wf oc] by metis
    from g oc s(1) obtain v where v: "\<not> embedded" "g name = Some v" "v \<in> set (declared_values decl)"
        "target_accepts address (vd_type decl) v"
      unfolding solves_def by fastforce
    have "of_sort (sy_sort s) v" using s(2) v(3) symbol_for_type [OF s(2)] by (auto simp: symbol_for_def list_all_iff)
    then have "vd_type decl = TYPE_BOOLEAN \<Longrightarrow> \<exists>b. v = ScalarBool b"
      using symbol_for_type [OF s(2)] by (cases v) auto
    from target_accepts_field [OF v(4) this] s(1) v show ?thesis by blast
  qed
  then show ?thesis unfolding fits_def by blast
qed

lemma fits_solves:
  assumes t: "translated key sc symbols m" and wf: "wf_dict (sc_variables sc)" and g: "fits sc g"
    and direct: "\<not> names_architecture_indirectly sc g"
  shows "solves sc g"
proof -
  have "\<not> embedded \<and> (\<exists>decl v. dict_get (sc_variables sc) name = Some decl \<and> g name = Some v \<and>
      v \<in> set (declared_values decl) \<and> target_accepts address (vd_type decl) v)"
    if oc: "(address, name, embedded) \<in> set (variable_occurrences (sc_payload sc) [])" for address name embedded
  proof -
    obtain decl s vals where s: "\<not> embedded" "dict_get (sc_variables sc) name = Some decl" "symbol_for key name decl s"
        "target_domain address s = Some vals"
      by (rule occurrence_symbol [OF t wf oc])
    from g oc s(2) obtain v where v: "g name = Some v" "v \<in> set (declared_values decl)" "field_accepts address v"
      unfolding fits_def by fastforce
    have "target_accepts address (vd_type decl) v"
      by (rule field_accepts_target [OF s(3,4) v(2,3)])
        (use direct oc v(1) in \<open>auto simp: names_architecture_indirectly_def\<close>)
    with s v show ?thesis by blast
  qed
  then show ?thesis unfolding solves_def by blast
qed

section \<open>The whole translation\<close>

lemma sorted_diagnostics_length [simp]: "length (sorted_diagnostics acc) = length (da_items acc)"
  by (simp add: sorted_diagnostics_def)

lemma sorted_diagnostics_Nil [simp]: "sorted_diagnostics acc = [] \<longleftrightarrow> da_items acc = []"
  using sorted_diagnostics_length [of acc] by (metis length_0_conv)

lemma no_diagnostics_ok: "accumulator_ok \<lparr>da_items = [], da_overflowed = False\<rparr>"
  by (simp add: accumulator_ok_def)

lemma symbols_for_variables:
  "symbols_for key vs symbols \<Longrightarrow> map sy_variable (map snd symbols) = map fst vs"
  unfolding symbols_for_def by (induction rule: list_all2_induct) (auto simp: symbol_for_def)

lemma selected_distinct: "wf_dict (sc_variables sc) \<Longrightarrow> distinct (map fst (selected_variables sc occurrences))"
  by (simp add: selected_variables_def wf_dict_def dict_keys_def distinct_map) (auto intro: inj_on_subset)

lemma distinct_sorted_variables:
  "distinct (map sy_variable ss) \<Longrightarrow> distinct (map sy_variable (sort_key sy_id ss))"
  by (simp add: distinct_map)

lemma translate_scenario_quiet:
  assumes run: "translate_scenario key sha sc = Inr (m, ds)" and wf: "wf_dict (sc_variables sc)"
  shows "length ds \<le> max_diagnostics \<and> (ds = [] \<longrightarrow> (\<exists>symbols. translated key sc symbols m))"
proof -
  let ?empty = "\<lparr>da_items = [], da_overflowed = False\<rparr>" and ?occs = "variable_occurrences (sc_payload sc) []"
  from run obtain symbols acc clauses acc' where
      sel: "select_symbols key sha sc ?occs ?empty = Inr (symbols, acc)"
    and cls: "translate_clauses key sha symbols ?occs acc = Inr (clauses, acc')"
    and mk: "make_model key \<lparr>cm_symbols = sort_key sy_id (map snd symbols), cm_clauses = sort_key cl_id clauses\<rparr> = Inr m"
    and ds: "ds = sorted_diagnostics acc'"
    unfolding translate_scenario_def Let_def by (auto elim!: res_bind_InrE)
  have all: "quiet ?empty acc' (symbols_for key (selected_variables sc ?occs) symbols \<and> covers symbols ?occs clauses)"
    by (rule quiet_trans [OF select_symbols_quiet [OF sel wf] translate_clauses_quiet [OF cls]]) blast
  have m: "m = \<lparr>cm_symbols = sort_key sy_id (map snd symbols), cm_clauses = sort_key cl_id clauses\<rparr>" "model_ok m"
    using make_model_ok [OF mk] by simp_all
  have "translated key sc symbols m" if "da_items acc' = []"
  proof -
    have s: "symbols_for key (selected_variables sc ?occs) symbols" "covers symbols ?occs clauses"
      using all no_diagnostics_ok that unfolding quiet_def by blast+
    have "distinct (map sy_variable (map snd symbols))"
      using symbols_for_variables [OF s(1)] selected_distinct [OF wf] by simp
    from distinct_sorted_variables [OF this] have "distinct (map sy_variable (cm_symbols m))"
      unfolding m(1) by simp
    with s m show ?thesis by (simp add: translated_def Let_def covers_def)
  qed
  moreover have "accumulator_ok acc'" using all no_diagnostics_ok unfolding quiet_def by blast
  ultimately show ?thesis using ds by (auto simp: accumulator_ok_def)
qed

lemma admits_core: "admits m is f \<Longrightarrow> js \<subseteq> is \<Longrightarrow> admits m js f"
  unfolding admits_def by blast

section \<open>An example\<close>

definition example_sha :: "string \<Rightarrow> string" where
  "example_sha s = concat (map (\<lambda>c. hex_byte (of_char c)) s)"

definition example_scenario :: "json_scalar list \<Rightarrow> sdl_scenario" where
  "example_scenario names = \<lparr>
     sc_variables = [(''os'', \<lparr>vd_type = TYPE_STRING, vd_allowed = names, vd_required = True\<rparr>),
       (''n'', \<lparr>vd_type = TYPE_INTEGER, vd_allowed = [ScalarInt 0, ScalarInt 3], vd_required = False\<rparr>)],
     sc_payload = PyDict [
       (''nodes'', PyDict [(''web'', PyDict [(''os'', PyStr ''${os}''), (''type'', PyStr ''vm'')])]),
       (''infrastructure'', PyDict [(''web'', PyDict [(''count'', PyStr ''${n}'')])])]\<rparr>"

definition example_translation :: "json_scalar list \<Rightarrow> constraint_model" where
  "example_translation names =
     (case translate_scenario example_key example_sha (example_scenario names) of Inr (m, ds) \<Rightarrow> m
      | Inl e \<Rightarrow> \<lparr>cm_symbols = [], cm_clauses = []\<rparr>)"

lemma example_translates:
  "translate_scenario example_key example_sha (example_scenario [ScalarStr ''Amiga'', ScalarStr ''Linux'']) =
     Inr (example_translation [ScalarStr ''Amiga'', ScalarStr ''Linux''], [])"
  by code_simp

lemma example_solved:
  "solve_model reference_z3 (\<lambda>k. int k) (example_translation [ScalarStr ''Amiga'', ScalarStr ''Linux'']) =
     Inr \<lparr>sr_outcome = SATISFIABLE, sr_assignment = Some [(''n'', ScalarInt 3), (''os'', ScalarStr ''Linux'')], sr_core = None\<rparr>"
  by code_simp

section \<open>Properties\<close>

text \<open>
  C20. Translation and solver decide whether declared values can be chosen that the fields accept.
  When the translation of a scenario reports nothing, Z3 is sound and the solver returns, then \<open>satisfiable\<close>
  comes with such a choice: each occurrence of a variable is a whole field of the profile, the
  value is one the variable declares, and the validator of the field accepts it.
  \<open>unsatisfiable\<close> means that there is no such choice but for those that give an architecture by
  an alias (\<open>amd64\<close>, \<open>x64\<close>, \<open>arm64\<close>) or by an extension term \<open>x-<owner>:<term>\<close>, which the
  language accepts and the translation overlooks.
\<close>

theorem analysis_decides_field_values:
  assumes "translate_scenario scalar_key sha sc = Inr (m, [])" and "wf_dict (sc_variables sc)"
    and "z3_sound z3" and "solve_model z3 clock m = Inr r"
  shows "case sr_outcome r of
      SATISFIABLE \<Rightarrow> (case sr_assignment r of None \<Rightarrow> False | Some a \<Rightarrow> fits sc (dict_get a))
    | UNSATISFIABLE \<Rightarrow> (\<forall>g. fits sc g \<longrightarrow> names_architecture_indirectly sc g)
    | UNSUPPORTED \<Rightarrow> False"
proof -
  obtain symbols where t: "translated scalar_key sc symbols m"
    using translate_scenario_quiet [OF assms(1,2)] by blast
  then have "model_ok m" by (simp add: translated_def Let_def)
  then have correct: "correct_result m r" using solve_model_within [OF _ assms(3), of m clock] assms(4) by simp
  show ?thesis
  proof (cases "sr_outcome r")
    case SATISFIABLE
    with correct obtain f where "least_admitted m f" "sr_assignment r = Some (assignment_of (cm_symbols m) f)"
      by (auto simp: correct_result_def)
    with SATISFIABLE solves_fits [OF t assms(2) solution_solves [OF t assms(2)]] show ?thesis by (simp add: least_admitted_def)
  next
    case UNSATISFIABLE
    with correct obtain core where "minimal_core m core" by (auto simp: correct_result_def)
    then have "\<not> admits m (all_clauses m) f" for f
      unfolding minimal_core_def model_satisfiable_def using admits_core by blast
    with UNSATISFIABLE solving_is_solution [OF t assms(2)] fits_solves [OF t assms(2)] show ?thesis by auto
  next
    case UNSUPPORTED
    with correct show ?thesis by (simp add: correct_result_def)
  qed
qed

lemma analysis_decides_field_values_witness:
  "fits (example_scenario [ScalarStr ''Amiga'', ScalarStr ''Linux''])
     (dict_get [(''n'', ScalarInt 3), (''os'', ScalarStr ''Linux'')])"
proof -
  have "wf_dict (sc_variables (example_scenario names))" for names by (simp add: wf_dict_def dict_keys_def example_scenario_def)
  from analysis_decides_field_values [OF example_translates this reference_sound example_solved] show ?thesis by simp
qed

text \<open>
  The gap is real. A node that leaves its architecture to a variable with the one value \<open>amd64\<close>
  can take it, as the field normalises the alias, yet the analysis calls the scenario
  unsatisfiable: its filter compares with the canonical names only. A value \<open>x-nvidia:grace\<close> is
  lost in the same way.
\<close>

definition alias_scenario :: "string \<Rightarrow> sdl_scenario" where
  "alias_scenario x = \<lparr>
     sc_variables = [(''cpu'', \<lparr>vd_type = TYPE_STRING, vd_allowed = [ScalarStr x], vd_required = True\<rparr>)],
     sc_payload = PyDict [(''nodes'', PyDict [(''web'', PyDict [(''architecture'', PyStr ''${cpu}'')])])]\<rparr>"

definition analysed_outcome :: "sdl_scenario \<Rightarrow> sat_outcome option" where
  "analysed_outcome sc =
     (case translate_scenario example_key example_sha sc of
        Inr (m, []) \<Rightarrow> (case solve_model reference_z3 (\<lambda>k. int k) m of Inr r \<Rightarrow> Some (sr_outcome r) | Inl e \<Rightarrow> None)
      | _ \<Rightarrow> None)"

lemma architecture_alias_lost:
  "analysed_outcome (alias_scenario ''amd64'') = Some UNSATISFIABLE \<and>
   analysed_outcome (alias_scenario ''x-nvidia:grace'') = Some UNSATISFIABLE \<and>
   analysed_outcome (alias_scenario ''x86-64'') = Some SATISFIABLE \<and>
   normalize_architecture ''AMD64'' = Some ''x86_64'' \<and> normalize_architecture ''X-Nvidia:Grace'' = Some ''x-nvidia:grace'' \<and>
   normalize_architecture ''sparc'' = None \<and>
   field_accepts ''/nodes/web/architecture'' (ScalarStr ''amd64'') \<and>
   variable_occurrences (sc_payload (alias_scenario ''amd64'')) [] = [(''/nodes/web/architecture'', ''cpu'', False)]"
  by code_simp

lemma alias_choice_fits: "fits (alias_scenario ''amd64'') (dict_get [(''cpu'', ScalarStr ''amd64'')])"
proof -
  have "variable_occurrences (sc_payload (alias_scenario ''amd64'')) [] = [(''/nodes/web/architecture'', ''cpu'', False)]"
    and "field_accepts ''/nodes/web/architecture'' (ScalarStr ''amd64'')"
    using architecture_alias_lost by blast+
  then show ?thesis
    by (simp add: fits_def alias_scenario_def declared_values_def dict_get_Cons)
qed

text \<open>
  The translation is not total on legal scenarios: the names of variables may start with a
  digit, and those of an imported module contain a dot, which the constraint symbol refuses with
  a validation error nobody catches.
\<close>

lemma translation_refuses_legal_name:
  "portable_identifier ''2fa'' \<and>
   translate_scenario example_key example_sha
     \<lparr>sc_variables = [(''2fa'', \<lparr>vd_type = TYPE_BOOLEAN, vd_allowed = [], vd_required = True\<rparr>)], sc_payload = PyDict []\<rparr> =
     Inl (ValidationError ''symbol'')"
  by code_simp

end
