(* ===== verification/Time_Contracts.thy ===== *)
theory Time_Contracts
  imports Compiled_Address Py_Text Resource_Types
begin

text \<open>
  The contracts of shared time, \<open>raes_contracts/contracts/time_model.py\<close>: exact ratios, superdense
  coordinates, the declared domains, clocks, mappings, progression policies and constraints, the
  observable clock states with their histories, and the checks that bind a runtime state to a
  declaration and to its predecessor. A constructor of a model either returns the model or raises
  the validation error; a literal type is an enumeration. SHA-256 is an argument.
\<close>

section \<open>Literals\<close>

datatype domain_kind = WALL_CLOCK | MONOTONIC | SIMULATED | LOGICAL | EXTERNAL_TIME
datatype domain_visibility = RUNTIME_ONLY | PARTICIPANT_VISIBLE | EVIDENCE_ONLY
datatype epoch_kind = UNIX | SCENARIO_START | RUN_START | UNANCHORED | EXTERNAL_EPOCH
datatype clock_authority = RUNTIME_CLOCK | BACKEND_CLOCK | SYSTEM_CLOCK | EXTERNAL_CLOCK
datatype clock_monotonicity = STRICT | NON_DECREASING | MAY_JUMP
datatype mapping_kind = IDENTITY | AFFINE_RATIONAL
datatype advancement_mode = REAL_TIME | DILATED | STEPPED | EVENT_DRIVEN | EXTERNALLY_PACED
datatype synchronization_mode = SYNC_NONE | SYNC_AUTHORITY | SYNC_BARRIER | SYNC_CONSERVATIVE
datatype reset_behavior = RESET_UNSUPPORTED | NEW_SEGMENT_ZERO | NEW_SEGMENT_PRESERVE_VALUE
datatype replay_behavior = REPLAY_UNSUPPORTED | RESTART_FROM_ANCHOR | RESTORE_RECORDED_ADVANCES
datatype constraint_kind = PRECEDENCE | DURATION | WINDOW | DEADLINE | CADENCE
datatype clock_lifecycle = CLOCK_RUNNING | CLOCK_PAUSED
datatype clock_event_kind = CLOCK_INITIALIZE | ADVANCE | PAUSE | RESUME | JUMP | CLOCK_RESET | REPLAY

fun domain_kind_text :: "domain_kind \<Rightarrow> string" where
  "domain_kind_text WALL_CLOCK = ''wall_clock''"
| "domain_kind_text MONOTONIC = ''monotonic''"
| "domain_kind_text SIMULATED = ''simulated''"
| "domain_kind_text LOGICAL = ''logical''"
| "domain_kind_text EXTERNAL_TIME = ''external''"

fun visibility_text :: "domain_visibility \<Rightarrow> string" where
  "visibility_text RUNTIME_ONLY = ''runtime_only''"
| "visibility_text PARTICIPANT_VISIBLE = ''participant_visible''"
| "visibility_text EVIDENCE_ONLY = ''evidence_only''"

fun epoch_text :: "epoch_kind \<Rightarrow> string" where
  "epoch_text UNIX = ''unix''"
| "epoch_text SCENARIO_START = ''scenario_start''"
| "epoch_text RUN_START = ''run_start''"
| "epoch_text UNANCHORED = ''unanchored''"
| "epoch_text EXTERNAL_EPOCH = ''external''"

fun clock_authority_text :: "clock_authority \<Rightarrow> string" where
  "clock_authority_text RUNTIME_CLOCK = ''runtime''"
| "clock_authority_text BACKEND_CLOCK = ''backend''"
| "clock_authority_text SYSTEM_CLOCK = ''system''"
| "clock_authority_text EXTERNAL_CLOCK = ''external''"

fun monotonicity_text :: "clock_monotonicity \<Rightarrow> string" where
  "monotonicity_text STRICT = ''strict''"
| "monotonicity_text NON_DECREASING = ''non_decreasing''"
| "monotonicity_text MAY_JUMP = ''may_jump''"

fun mapping_kind_text :: "mapping_kind \<Rightarrow> string" where
  "mapping_kind_text IDENTITY = ''identity''"
| "mapping_kind_text AFFINE_RATIONAL = ''affine_rational''"

fun advancement_text :: "advancement_mode \<Rightarrow> string" where
  "advancement_text REAL_TIME = ''real_time''"
| "advancement_text DILATED = ''dilated''"
| "advancement_text STEPPED = ''stepped''"
| "advancement_text EVENT_DRIVEN = ''event_driven''"
| "advancement_text EXTERNALLY_PACED = ''externally_paced''"

fun synchronization_text :: "synchronization_mode \<Rightarrow> string" where
  "synchronization_text SYNC_NONE = ''none''"
| "synchronization_text SYNC_AUTHORITY = ''authority''"
| "synchronization_text SYNC_BARRIER = ''barrier''"
| "synchronization_text SYNC_CONSERVATIVE = ''conservative''"

fun reset_behavior_text :: "reset_behavior \<Rightarrow> string" where
  "reset_behavior_text RESET_UNSUPPORTED = ''unsupported''"
| "reset_behavior_text NEW_SEGMENT_ZERO = ''new_segment_zero''"
| "reset_behavior_text NEW_SEGMENT_PRESERVE_VALUE = ''new_segment_preserve_value''"

fun replay_behavior_text :: "replay_behavior \<Rightarrow> string" where
  "replay_behavior_text REPLAY_UNSUPPORTED = ''unsupported''"
| "replay_behavior_text RESTART_FROM_ANCHOR = ''restart_from_anchor''"
| "replay_behavior_text RESTORE_RECORDED_ADVANCES = ''restore_recorded_advances''"

fun constraint_kind_text :: "constraint_kind \<Rightarrow> string" where
  "constraint_kind_text PRECEDENCE = ''precedence''"
| "constraint_kind_text DURATION = ''duration''"
| "constraint_kind_text WINDOW = ''window''"
| "constraint_kind_text DEADLINE = ''deadline''"
| "constraint_kind_text CADENCE = ''cadence''"

section \<open>Ratios and coordinates\<close>

text \<open>What a pydantic constructor raises, named by the model.\<close>

abbreviation invalid_model :: "string \<Rightarrow> py_exn" where
  "invalid_model name \<equiv> ValidationError name"

record exact_ratio =
  xr_numerator :: int
  xr_denominator :: int

definition make_ratio :: "exact_ratio \<Rightarrow> exact_ratio res" where
  "make_ratio r =
     (if 0 < xr_numerator r \<and> 0 < xr_denominator r \<and> gcd (xr_numerator r) (xr_denominator r) = 1
      then Inr r else Inl (invalid_model ''ExactRatioModel''))"

definition unit_ratio :: exact_ratio where
  "unit_ratio = \<lparr>xr_numerator = 1, xr_denominator = 1\<rparr>"

record time_coordinate =
  co_segment :: int
  co_tick :: int
  co_microstep :: int

definition make_coordinate :: "time_coordinate \<Rightarrow> time_coordinate res" where
  "make_coordinate c =
     (if 0 \<le> co_segment c \<and> 0 \<le> co_microstep c then Inr c
      else Inl (invalid_model ''TimeCoordinateModel''))"

text \<open>The comparison of coordinates as tuples.\<close>

definition coordinate_less :: "time_coordinate \<Rightarrow> time_coordinate \<Rightarrow> bool" where
  "coordinate_less a b \<longleftrightarrow>
     co_segment a < co_segment b \<or>
     co_segment a = co_segment b \<and>
       (co_tick a < co_tick b \<or> co_tick a = co_tick b \<and> co_microstep a < co_microstep b)"

section \<open>Declarations\<close>

record time_domain =
  td_address :: string
  td_kind :: domain_kind
  td_period :: exact_ratio
  td_epoch :: epoch_kind
  td_visibility :: domain_visibility
  td_description :: string

definition make_domain :: "time_domain \<Rightarrow> time_domain res" where
  "make_domain d =
     (if compiled_address (td_address d) \<and> td_description d \<noteq> [] \<and>
         \<not> (td_kind d = WALL_CLOCK \<and> td_epoch d \<noteq> UNIX) \<and>
         \<not> (td_kind d = MONOTONIC \<and> td_epoch d = UNIX)
      then Inr d else Inl (invalid_model ''TimeDomainDeclarationModel''))"

record clock_declaration =
  cd_address :: string
  cd_domain :: string
  cd_authority_kind :: clock_authority
  cd_authority_ref :: string
  cd_monotonicity :: clock_monotonicity
  cd_supports_pause :: bool
  cd_supports_reset :: bool
  cd_supports_jump :: bool
  cd_description :: string

definition make_clock :: "clock_declaration \<Rightarrow> clock_declaration res" where
  "make_clock c =
     (if compiled_address (cd_address c) \<and> compiled_address (cd_domain c) \<and>
         cd_authority_ref c \<noteq> [] \<and> cd_description c \<noteq> [] \<and>
         \<not> (cd_monotonicity c = MAY_JUMP \<and> \<not> cd_supports_jump c) \<and>
         \<not> (cd_monotonicity c \<noteq> MAY_JUMP \<and> cd_supports_jump c)
      then Inr c else Inl (invalid_model ''ClockDeclarationModel''))"

record domain_mapping =
  mp_address :: string
  mp_source :: string
  mp_target :: string
  mp_kind :: mapping_kind
  mp_scale :: exact_ratio
  mp_offset :: int
  mp_description :: string

definition make_mapping :: "domain_mapping \<Rightarrow> domain_mapping res" where
  "make_mapping m =
     (if compiled_address (mp_address m) \<and> compiled_address (mp_source m) \<and>
         compiled_address (mp_target m) \<and> mp_description m \<noteq> []
      then Inr m else Inl (invalid_model ''TimeDomainMappingDeclarationModel''))"

record progression_policy =
  gp_address :: string
  gp_clock :: string
  gp_mode :: advancement_mode
  gp_pacing :: exact_ratio
  gp_synchronization :: synchronization_mode
  gp_step :: "int option"
  gp_drift :: "int option"
  gp_reset :: reset_behavior
  gp_replay :: replay_behavior
  gp_description :: string

definition make_policy :: "progression_policy \<Rightarrow> progression_policy res" where
  "make_policy p =
     (if compiled_address (gp_address p) \<and> compiled_address (gp_clock p) \<and>
         (case gp_step p of None \<Rightarrow> True | Some n \<Rightarrow> 0 < n) \<and>
         (case gp_drift p of None \<Rightarrow> True | Some n \<Rightarrow> 0 \<le> n) \<and> gp_description p \<noteq> [] \<and>
         \<not> (gp_mode p = STEPPED \<and> gp_step p = None) \<and>
         \<not> (gp_mode p \<noteq> STEPPED \<and> gp_step p \<noteq> None) \<and>
         \<not> (gp_mode p \<notin> {REAL_TIME, DILATED} \<and> gp_pacing p \<noteq> unit_ratio)
      then Inr p else Inl (invalid_model ''TimeProgressionPolicyDeclarationModel''))"

record temporal_constraint =
  tc_address :: string
  tc_kind :: constraint_kind
  tc_clock :: string
  tc_subjects :: "string list"
  tc_start :: "time_coordinate option"
  tc_end :: "time_coordinate option"
  tc_duration :: "int option"
  tc_cadence :: "int option"
  tc_description :: string

definition constraint_shape :: "temporal_constraint \<Rightarrow> bool" where
  "constraint_shape c \<longleftrightarrow>
     distinct (tc_subjects c) \<and>
     (case tc_kind c of
        PRECEDENCE \<Rightarrow> length (tc_subjects c) = 2
      | DURATION \<Rightarrow> tc_duration c \<noteq> None
      | WINDOW \<Rightarrow> tc_start c \<noteq> None \<and> tc_end c \<noteq> None
      | DEADLINE \<Rightarrow> tc_end c \<noteq> None
      | CADENCE \<Rightarrow> tc_cadence c \<noteq> None) \<and>
     (case (tc_start c, tc_end c) of
        (Some s, Some e) \<Rightarrow> \<not> coordinate_less e s
      | _ \<Rightarrow> True)"

definition make_constraint :: "temporal_constraint \<Rightarrow> temporal_constraint res" where
  "make_constraint c =
     (if compiled_address (tc_address c) \<and> compiled_address (tc_clock c) \<and>
         tc_subjects c \<noteq> [] \<and> list_all compiled_address (tc_subjects c) \<and>
         (case tc_duration c of None \<Rightarrow> True | Some n \<Rightarrow> 0 < n) \<and>
         (case tc_cadence c of None \<Rightarrow> True | Some n \<Rightarrow> 0 < n) \<and>
         tc_description c \<noteq> [] \<and> constraint_shape c
      then Inr c else Inl (invalid_model ''TemporalConstraintDeclarationModel''))"

section \<open>The graph of mappings\<close>

text \<open>
  The nested function \<open>visit\<close> of \<open>_validate_acyclic_mappings\<close>: \<open>visiting\<close> holds the domains of the
  open calls, \<open>visited\<close> those that are finished; \<open>None\<close> is the exception. The order in which a
  set of targets is walked is not fixed by Python; it is the order of insertion here.
\<close>

type_synonym domain_graph = "(string, string list) pydict"

definition add_mapping_edge :: "domain_graph \<Rightarrow> domain_mapping \<Rightarrow> domain_graph" where
  "add_mapping_edge g m =
     (let targets = (case dict_get g (mp_source m) of None \<Rightarrow> [] | Some ts \<Rightarrow> ts) in
      dict_set (mp_source m) (if mp_target m \<in> set targets then targets else targets @ [mp_target m]) g)"

definition mapping_graph :: "domain_mapping list \<Rightarrow> domain_graph" where
  "mapping_graph ms = foldl add_mapping_edge [] ms"

definition targets_of :: "domain_graph \<Rightarrow> string \<Rightarrow> string list" where
  "targets_of g d = (case dict_get g d of None \<Rightarrow> [] | Some ts \<Rightarrow> ts)"

lemma targets_of_no_key: "d \<notin> set (dict_keys g) \<Longrightarrow> targets_of g d = []"
  by (simp add: targets_of_def dict_get_None_iff [THEN iffD2] dict_has_def)

function visit_domain :: "domain_graph \<Rightarrow> string list \<Rightarrow> string list \<Rightarrow> string \<Rightarrow> string list option"
  and visit_targets :: "domain_graph \<Rightarrow> string list \<Rightarrow> string list \<Rightarrow> string list \<Rightarrow> string list option" where
  "visit_domain g visiting visited d =
     (if d \<in> set visiting then None
      else if d \<in> set visited then Some visited
      else (case visit_targets g (d # visiting) visited (targets_of g d) of
              None \<Rightarrow> None
            | Some done' \<Rightarrow> Some (d # done')))"
| "visit_targets g visiting visited [] = Some visited"
| "visit_targets g visiting visited (t # ts) =
     (case visit_domain g visiting visited t of
        None \<Rightarrow> None
      | Some done' \<Rightarrow> visit_targets g visiting done' ts)"
  by pat_completeness auto

text \<open>A call either opens a domain with outgoing edges, of which there are finitely many, or has no targets.\<close>

termination
proof (relation "inv_image (less_than <*lex*> less_than) (\<lambda>x. case x of
      Inl (g, visiting, visited, d) \<Rightarrow> (card (set (dict_keys g) - set visiting), 1 :: nat)
    | Inr (g, visiting, visited, ts) \<Rightarrow> (card (set (dict_keys g) - set visiting), 2 * length ts))", goal_cases)
  case 1
  show ?case by (intro wf_inv_image wf_lex_prod wf_less_than)
next
  case (2 g visiting visited d)
  show ?case
  proof (cases "d \<in> set (dict_keys g)")
    case True
    with 2 have "0 < card (set (dict_keys g) - set visiting)" by (auto simp: card_gt_0_iff)
    with 2 True show ?thesis by simp
  next
    case False
    then have "set (dict_keys g) - set (d # visiting) = set (dict_keys g) - set visiting" by auto
    with False show ?thesis by (simp add: targets_of_no_key)
  qed
qed simp_all

definition validate_acyclic_mappings :: "domain_mapping list \<Rightarrow> bool" where
  "validate_acyclic_mappings ms =
     (let g = mapping_graph ms in visit_targets g [] [] (dict_keys g) \<noteq> None)"

end
