(* ===== verification/Time_State.thy ===== *)
theory Time_State
  imports Time_Contracts
begin

text \<open>
  The second half of \<open>raes_contracts/contracts/time_model.py\<close>: the declaration with its references
  and its canonical digest, the observable clock states, the realized provenance, and the checks
  of a runtime state against its declaration and its predecessor.
\<close>

section \<open>The declaration\<close>

record time_declaration =
  tm_domains :: "(string, time_domain) pydict"
  tm_clocks :: "(string, clock_declaration) pydict"
  tm_mappings :: "(string, domain_mapping) pydict"
  tm_policies :: "(string, progression_policy) pydict"
  tm_constraints :: "(string, temporal_constraint) pydict"

definition address_map :: "('a \<Rightarrow> string) \<Rightarrow> (string, 'a) pydict \<Rightarrow> bool" where
  "address_map address d \<longleftrightarrow> list_all (\<lambda>(key, value). key = address value) d"

definition identity_mapping_ok :: "(string, time_domain) pydict \<Rightarrow> domain_mapping \<Rightarrow> bool" where
  "identity_mapping_ok domains m \<longleftrightarrow>
     mp_kind m = IDENTITY \<longrightarrow>
       (case (dict_get domains (mp_source m), dict_get domains (mp_target m)) of
          (Some s, Some t) \<Rightarrow>
            td_period s = td_period t \<and> td_epoch s = td_epoch t \<and> mp_scale m = unit_ratio \<and> mp_offset m = 0
        | _ \<Rightarrow> False)"

definition clock_references :: "time_declaration \<Rightarrow> bool" where
  "clock_references d \<longleftrightarrow> list_all (\<lambda>c. dict_has (tm_domains d) (cd_domain c)) (dict_values (tm_clocks d))"

definition mapping_references :: "time_declaration \<Rightarrow> bool" where
  "mapping_references d \<longleftrightarrow>
     list_all (\<lambda>m. dict_has (tm_domains d) (mp_source m) \<and> dict_has (tm_domains d) (mp_target m) \<and>
                   mp_source m \<noteq> mp_target m \<and> identity_mapping_ok (tm_domains d) m)
       (dict_values (tm_mappings d)) \<and>
     validate_acyclic_mappings (dict_values (tm_mappings d))"

definition policy_references :: "time_declaration \<Rightarrow> bool" where
  "policy_references d \<longleftrightarrow>
     list_all (\<lambda>p. (case dict_get (tm_clocks d) (gp_clock p) of
          None \<Rightarrow> False
        | Some clock \<Rightarrow>
            \<not> (gp_reset p \<noteq> RESET_UNSUPPORTED \<and> \<not> cd_supports_reset clock) \<and>
            \<not> (gp_replay p \<noteq> REPLAY_UNSUPPORTED \<and> \<not> cd_supports_reset clock)))
       (dict_values (tm_policies d)) \<and>
     distinct (map gp_clock (dict_values (tm_policies d)))"

definition known_subjects :: "time_declaration \<Rightarrow> string set" where
  "known_subjects d =
     set (dict_keys (tm_domains d)) \<union> set (dict_keys (tm_clocks d)) \<union> set (dict_keys (tm_policies d))"

definition constraint_references :: "time_declaration \<Rightarrow> bool" where
  "constraint_references d \<longleftrightarrow>
     list_all (\<lambda>c. dict_has (tm_clocks d) (tc_clock c) \<and>
                   list_all (\<lambda>s. starts_with ''sdl.'' s \<or> s \<in> known_subjects d) (tc_subjects c))
       (dict_values (tm_constraints d))"

definition declaration_valid :: "time_declaration \<Rightarrow> bool" where
  "declaration_valid d \<longleftrightarrow>
     tm_domains d \<noteq> [] \<and> tm_clocks d \<noteq> [] \<and>
     list_all compiled_address (dict_keys (tm_domains d) @ dict_keys (tm_clocks d) @ dict_keys (tm_mappings d) @
       dict_keys (tm_policies d) @ dict_keys (tm_constraints d)) \<and>
     address_map td_address (tm_domains d) \<and> address_map cd_address (tm_clocks d) \<and>
     address_map mp_address (tm_mappings d) \<and> address_map gp_address (tm_policies d) \<and>
     address_map tc_address (tm_constraints d) \<and>
     clock_references d \<and> mapping_references d \<and> policy_references d \<and> constraint_references d"

definition make_declaration :: "time_declaration \<Rightarrow> time_declaration res" where
  "make_declaration d =
     (if declaration_valid d then Inr d else Inl (invalid_model ''TimeModelDeclarationModel''))"

section \<open>The canonical digest\<close>

text \<open>
  \<open>model_dump(mode="json")\<close> and \<open>json.dumps\<close> with sorted keys and the compact separators. Every
  member of a declaration is a text, an integer, a truth value, a list or a mapping.
\<close>

datatype json = JNull | JBool bool | JInt int | JText string | JList "json list" | JObject "(string \<times> json) list"

fun join_with_comma :: "string list \<Rightarrow> string" where
  "join_with_comma [] = []"
| "join_with_comma [s] = s"
| "join_with_comma (s # ss) = s @ CHR '','' # join_with_comma ss"

fun json_dumps :: "json \<Rightarrow> string" where
  "json_dumps JNull = ''null''"
| "json_dumps (JBool b) = (if b then ''true'' else ''false'')"
| "json_dumps (JInt i) = int_text i"
| "json_dumps (JText s) = json_text s"
| "json_dumps (JList xs) = CHR ''['' # join_with_comma (map json_dumps xs) @ [CHR '']'']"
| "json_dumps (JObject fields') =
     CHR 0x7B # join_with_comma (map (\<lambda>(k, text). json_text k @ CHR '':'' # text)
       (sort_key fst (map (\<lambda>(k, v). (k, json_dumps v)) fields'))) @ [CHR 0x7D]"

definition dump_opt :: "('a \<Rightarrow> json) \<Rightarrow> 'a option \<Rightarrow> json" where
  "dump_opt f v = (case v of None \<Rightarrow> JNull | Some x \<Rightarrow> f x)"

definition dump_ratio :: "exact_ratio \<Rightarrow> json" where
  "dump_ratio r = JObject [(''numerator'', JInt (xr_numerator r)), (''denominator'', JInt (xr_denominator r))]"

definition dump_coordinate :: "time_coordinate \<Rightarrow> json" where
  "dump_coordinate c =
     JObject [(''segment'', JInt (co_segment c)), (''tick'', JInt (co_tick c)), (''microstep'', JInt (co_microstep c))]"

definition dump_domain :: "time_domain \<Rightarrow> json" where
  "dump_domain d = JObject
     [(''address'', JText (td_address d)), (''kind'', JText (domain_kind_text (td_kind d))),
      (''tick_period_seconds'', dump_ratio (td_period d)), (''epoch'', JText (epoch_text (td_epoch d))),
      (''visibility'', JText (visibility_text (td_visibility d))), (''description'', JText (td_description d))]"

definition dump_clock :: "clock_declaration \<Rightarrow> json" where
  "dump_clock c = JObject
     [(''address'', JText (cd_address c)), (''time_domain_address'', JText (cd_domain c)),
      (''authority_kind'', JText (clock_authority_text (cd_authority_kind c))),
      (''authority_ref'', JText (cd_authority_ref c)),
      (''monotonicity'', JText (monotonicity_text (cd_monotonicity c))),
      (''supports_pause'', JBool (cd_supports_pause c)), (''supports_reset'', JBool (cd_supports_reset c)),
      (''supports_jump'', JBool (cd_supports_jump c)), (''description'', JText (cd_description c))]"

definition dump_mapping :: "domain_mapping \<Rightarrow> json" where
  "dump_mapping m = JObject
     [(''address'', JText (mp_address m)), (''source_domain_address'', JText (mp_source m)),
      (''target_domain_address'', JText (mp_target m)), (''mapping_kind'', JText (mapping_kind_text (mp_kind m))),
      (''scale'', dump_ratio (mp_scale m)), (''offset_ticks'', JInt (mp_offset m)),
      (''description'', JText (mp_description m))]"

definition dump_policy :: "progression_policy \<Rightarrow> json" where
  "dump_policy p = JObject
     [(''address'', JText (gp_address p)), (''clock_address'', JText (gp_clock p)),
      (''advancement_mode'', JText (advancement_text (gp_mode p))), (''pacing_ratio'', dump_ratio (gp_pacing p)),
      (''synchronization_mode'', JText (synchronization_text (gp_synchronization p))),
      (''step_ticks'', dump_opt JInt (gp_step p)), (''drift_bound_ticks'', dump_opt JInt (gp_drift p)),
      (''reset_behavior'', JText (reset_behavior_text (gp_reset p))),
      (''replay_behavior'', JText (replay_behavior_text (gp_replay p))),
      (''description'', JText (gp_description p))]"

definition dump_constraint :: "temporal_constraint \<Rightarrow> json" where
  "dump_constraint c = JObject
     [(''address'', JText (tc_address c)), (''kind'', JText (constraint_kind_text (tc_kind c))),
      (''clock_address'', JText (tc_clock c)), (''subject_addresses'', JList (map JText (tc_subjects c))),
      (''start'', dump_opt dump_coordinate (tc_start c)), (''end'', dump_opt dump_coordinate (tc_end c)),
      (''duration_ticks'', dump_opt JInt (tc_duration c)), (''cadence_ticks'', dump_opt JInt (tc_cadence c)),
      (''description'', JText (tc_description c))]"

definition dump_members :: "('a \<Rightarrow> json) \<Rightarrow> (string, 'a) pydict \<Rightarrow> json" where
  "dump_members f d = JObject (map (\<lambda>(key, value). (key, f value)) d)"

definition time_model_schema_version :: string where
  "time_model_schema_version = ''time-model/v1''"

definition dump_declaration :: "time_declaration \<Rightarrow> json" where
  "dump_declaration d = JObject
     [(''schema_version'', JText time_model_schema_version),
      (''domains'', dump_members dump_domain (tm_domains d)), (''clocks'', dump_members dump_clock (tm_clocks d)),
      (''mappings'', dump_members dump_mapping (tm_mappings d)),
      (''progression_policies'', dump_members dump_policy (tm_policies d)),
      (''temporal_constraints'', dump_members dump_constraint (tm_constraints d))]"

definition canonical_digest :: "(string \<Rightarrow> string) \<Rightarrow> time_declaration \<Rightarrow> string" where
  "canonical_digest sha256 d = ''sha256:'' @ sha256 (json_dumps (dump_declaration d))"

section \<open>Observable clock states\<close>

record clock_event =
  ce_sequence :: int
  ce_kind :: clock_event_kind
  ce_previous :: "time_coordinate option"
  ce_resulting :: time_coordinate
  ce_state :: clock_lifecycle

definition make_clock_event :: "clock_event \<Rightarrow> clock_event res" where
  "make_clock_event e =
     (if 0 \<le> ce_sequence e then Inr e else Inl (invalid_model ''ClockTransitionEventModel''))"

record clock_state =
  ck_address :: string
  ck_domain :: string
  ck_policy :: "string option"
  ck_authority_kind :: clock_authority
  ck_authority_ref :: string
  ck_state :: clock_lifecycle
  ck_coordinate :: time_coordinate
  ck_sequence :: int
  ck_history :: "clock_event list"

definition validate_clock_transition :: "clock_event \<Rightarrow> clock_event \<Rightarrow> bool" where
  "validate_clock_transition previous event =
     (let prior = ce_resulting previous; next' = ce_resulting event in
      case ce_kind event of
        ADVANCE \<Rightarrow>
          co_segment next' = co_segment prior \<and>
          (co_tick prior < co_tick next' \<or>
           co_tick prior = co_tick next' \<and> co_microstep prior < co_microstep next')
      | PAUSE \<Rightarrow> next' = prior
      | RESUME \<Rightarrow> next' = prior
      | JUMP \<Rightarrow> co_segment next' = co_segment prior + 1
      | CLOCK_RESET \<Rightarrow> co_segment next' = co_segment prior + 1
      | REPLAY \<Rightarrow> co_segment next' = co_segment prior + 1
      | CLOCK_INITIALIZE \<Rightarrow> False)"

fun validate_history_loop :: "int \<Rightarrow> clock_event option \<Rightarrow> clock_event list \<Rightarrow> bool" where
  "validate_history_loop expected prior [] = True"
| "validate_history_loop expected prior (event # events) =
     (ce_sequence event = expected \<and>
      (case prior of
         None \<Rightarrow> True
       | Some p \<Rightarrow> ce_previous event = Some (ce_resulting p) \<and> validate_clock_transition p event) \<and>
      validate_history_loop (expected + 1) (Some event) events)"

definition validate_clock_history :: "clock_state \<Rightarrow> bool" where
  "validate_clock_history c \<longleftrightarrow>
     ce_kind (hd (ck_history c)) = CLOCK_INITIALIZE \<and> ce_previous (hd (ck_history c)) = None \<and>
     validate_history_loop 0 None (ck_history c) \<and>
     ck_sequence c = ce_sequence (last (ck_history c)) \<and>
     ck_coordinate c = ce_resulting (last (ck_history c)) \<and> ck_state c = ce_state (last (ck_history c))"

definition clock_state_ok :: "clock_state \<Rightarrow> bool" where
  "clock_state_ok c \<longleftrightarrow>
     compiled_address (ck_address c) \<and> compiled_address (ck_domain c) \<and>
     (case ck_policy c of None \<Rightarrow> True | Some p \<Rightarrow> compiled_address p) \<and>
     ck_authority_ref c \<noteq> [] \<and> 0 \<le> ck_sequence c \<and> ck_history c \<noteq> [] \<and> validate_clock_history c"

definition make_clock_state :: "clock_state \<Rightarrow> clock_state res" where
  "make_clock_state c =
     (if clock_state_ok c then Inr c else Inl (invalid_model ''RuntimeClockStateModel''))"

record time_state =
  ts_digest :: string
  ts_clocks :: "(string, clock_state) pydict"

definition make_time_state :: "time_state \<Rightarrow> time_state res" where
  "make_time_state s =
     (if is_sha256_digest (ts_digest s) \<and> ts_clocks s \<noteq> [] \<and>
         list_all compiled_address (dict_keys (ts_clocks s)) \<and> address_map ck_address (ts_clocks s)
      then Inr s else Inl (invalid_model ''TimeRuntimeStateModel''))"

section \<open>Checks between records\<close>

definition validate_time_runtime_state :: "(string \<Rightarrow> string) \<Rightarrow> time_declaration \<Rightarrow> time_state \<Rightarrow> unit res" where
  "validate_time_runtime_state sha256 d s =
     res_bind (require_that (ts_digest s = canonical_digest sha256 d) (ValueError ''declaration_digest'')) (\<lambda>_.
     res_bind (require_that (set (dict_keys (ts_clocks s)) = set (dict_keys (tm_clocks d))) (ValueError ''clock set'')) (\<lambda>_.
       let policies_by_clock = foldl (\<lambda>m p. dict_set (gp_clock p) (gp_address p) m) [] (dict_values (tm_policies d)) in
       res_all (\<lambda>(address, c).
         (case dict_get (tm_clocks d) address of
            None \<Rightarrow> Inl (KeyError address)
          | Some declared \<Rightarrow>
              res_bind (require_that (ck_domain c = cd_domain declared) (ValueError ''time domain'')) (\<lambda>_.
              res_bind (require_that (ck_authority_kind c = cd_authority_kind declared) (ValueError ''authority kind'')) (\<lambda>_.
              res_bind (require_that (ck_authority_ref c = cd_authority_ref declared) (ValueError ''authority reference'')) (\<lambda>_.
                require_that (ck_policy c = dict_get policies_by_clock address) (ValueError ''progression policy''))))))
         (ts_clocks s)))"

definition validate_time_runtime_transition :: "time_state option \<Rightarrow> time_state option \<Rightarrow> unit res" where
  "validate_time_runtime_transition previous next_state =
     (case previous of
        None \<Rightarrow> Inr ()
      | Some p \<Rightarrow> (case next_state of
            None \<Rightarrow> Inl (ValueError ''removed'')
          | Some n \<Rightarrow>
              res_bind (require_that (ts_digest p = ts_digest n) (ValueError ''digest'')) (\<lambda>_.
              res_bind (require_that (set (dict_keys (ts_clocks p)) = set (dict_keys (ts_clocks n))) (ValueError ''clock set'')) (\<lambda>_.
                res_all (\<lambda>(address, prior_clock).
                  (case dict_get (ts_clocks n) address of
                     None \<Rightarrow> Inl (KeyError address)
                   | Some next_clock \<Rightarrow>
                       res_bind (require_that (length (ck_history prior_clock) \<le> length (ck_history next_clock)) (ValueError ''truncated'')) (\<lambda>_.
                         require_that (take (length (ck_history prior_clock)) (ck_history next_clock) = ck_history prior_clock)
                           (ValueError ''rewrote''))))
                  (ts_clocks p)))))"

section \<open>Realized provenance\<close>

datatype realization_kind = RUNTIME_MANAGED | BACKEND_NATIVE | SYSTEM_MANAGED | EXTERNALLY_MANAGED
datatype limit_kind = RESOLUTION | DRIFT | JITTER | LATENCY | LOOKAHEAD | OTHER_LIMIT

record apparatus_binding =
  tb_address :: string
  tb_component :: string
  tb_realization :: realization_kind
  tb_evidence :: "string list"
  tb_limitations :: "string list"

definition make_binding :: "apparatus_binding \<Rightarrow> apparatus_binding res" where
  "make_binding b =
     (if compiled_address (tb_address b) \<and> tb_component b \<noteq> [] \<and> tb_evidence b \<noteq> [] \<and>
         [] \<notin> set (tb_evidence b) \<and> [] \<notin> set (tb_limitations b)
      then Inr b else Inl (invalid_model ''TimeApparatusBindingModel''))"

record timing_limit =
  tl_id :: string
  tl_subject :: string
  tl_kind :: limit_kind
  tl_value :: exact_ratio
  tl_unit :: string
  tl_evidence :: "string list"

definition make_limit :: "timing_limit \<Rightarrow> timing_limit res" where
  "make_limit l =
     (if tl_id l \<noteq> [] \<and> compiled_address (tl_subject l) \<and> tl_unit l \<noteq> [] \<and> tl_evidence l \<noteq> [] \<and>
         [] \<notin> set (tl_evidence l)
      then Inr l else Inl (invalid_model ''TimingLimitModel''))"

record realized_time =
  rz_run :: string
  rz_digest :: string
  rz_declared :: time_declaration
  rz_realized :: time_declaration
  rz_bindings :: "(string, apparatus_binding) pydict"
  rz_assumptions :: "string list"
  rz_limits :: "timing_limit list"
  rz_deviations :: "string list"
  rz_evidence :: "string list"

definition address_sets :: "time_declaration \<Rightarrow> string set list" where
  "address_sets d =
     [set (dict_keys (tm_domains d)), set (dict_keys (tm_clocks d)), set (dict_keys (tm_mappings d)),
      set (dict_keys (tm_policies d)), set (dict_keys (tm_constraints d))]"

text \<open>
  A comparison of dictionaries in Python does not see their order; two declarations are equal
  when their members are.
\<close>

definition same_members :: "(string, 'a) pydict \<Rightarrow> (string, 'a) pydict \<Rightarrow> bool" where
  "same_members d e \<longleftrightarrow>
     set (dict_keys d) = set (dict_keys e) \<and> list_all (\<lambda>k. dict_get d k = dict_get e k) (dict_keys d)"

definition same_declaration :: "time_declaration \<Rightarrow> time_declaration \<Rightarrow> bool" where
  "same_declaration d e \<longleftrightarrow>
     same_members (tm_domains d) (tm_domains e) \<and> same_members (tm_clocks d) (tm_clocks e) \<and>
     same_members (tm_mappings d) (tm_mappings e) \<and> same_members (tm_policies d) (tm_policies e) \<and>
     same_members (tm_constraints d) (tm_constraints e)"

definition provenance_valid :: "(string \<Rightarrow> string) \<Rightarrow> realized_time \<Rightarrow> bool" where
  "provenance_valid sha256 r \<longleftrightarrow>
     (let known = \<Union> (set (address_sets (rz_declared r))) in
      rz_digest r = canonical_digest sha256 (rz_declared r) \<and>
      address_sets (rz_declared r) = address_sets (rz_realized r) \<and>
      address_map tb_address (rz_bindings r) \<and>
      set (dict_keys (tm_clocks (rz_declared r))) \<union> set (dict_keys (tm_policies (rz_declared r)))
        \<subseteq> set (dict_keys (rz_bindings r)) \<and>
      list_all (\<lambda>b. tb_address b \<in> known) (dict_values (rz_bindings r)) \<and>
      list_all (\<lambda>l. tl_subject l \<in> known) (rz_limits r) \<and>
      (same_declaration (rz_declared r) (rz_realized r) \<or> rz_deviations r \<noteq> []))"

definition make_realized_time :: "(string \<Rightarrow> string) \<Rightarrow> realized_time \<Rightarrow> realized_time res" where
  "make_realized_time sha256 r =
     (if rz_run r \<noteq> [] \<and> is_sha256_digest (rz_digest r) \<and> rz_bindings r \<noteq> [] \<and>
         list_all compiled_address (dict_keys (rz_bindings r)) \<and> rz_assumptions r \<noteq> [] \<and>
         [] \<notin> set (rz_assumptions r) \<and> [] \<notin> set (rz_deviations r) \<and> rz_evidence r \<noteq> [] \<and>
         [] \<notin> set (rz_evidence r) \<and> provenance_valid sha256 r
      then Inr r else Inl (invalid_model ''RealizedTimeModelProvenanceModel''))"

definition validate_realized_time_model ::
  "(string \<Rightarrow> string) \<Rightarrow> time_declaration \<Rightarrow> realized_time \<Rightarrow> string option \<Rightarrow> unit res" where
  "validate_realized_time_model sha256 d r run_id =
     res_bind (require_that (same_declaration (rz_declared r) d) (ValueError ''declared_model'')) (\<lambda>_.
     res_bind (require_that (rz_digest r = canonical_digest sha256 d) (ValueError ''declaration_digest'')) (\<lambda>_.
       require_that (run_id = None \<or> run_id = Some (rz_run r)) (ValueError ''run_id'')))"

end
