(* ===== verification/Time_Runtime.thy ===== *)
theory Time_Runtime
  imports Time_State Episode_Runtime Complex_Main
begin

text \<open>
  The shared time lifecycle: \<open>raes_processor/models/time_model.py\<close>, the projections of
  \<open>raes_processor/compiler/time_model.py\<close> between compiled metadata and the portable contract, and
  \<open>raes_runtime/time_coordinator.py\<close>. The text members of the compiled records whose admitted values
  are the literals of the contract are the same enumerations here. A snapshot carries the time
  state beside the participant episodes; its other members are a type parameter, and the checks
  its constructor makes of them hold as they did. The default for an absent snapshot is left out.
\<close>

section \<open>Compiled metadata\<close>

record compiled_domain =
  cdm_address :: string
  cdm_kind :: domain_kind
  cdm_numerator :: int
  cdm_denominator :: int
  cdm_epoch :: epoch_kind
  cdm_visibility :: domain_visibility
  cdm_description :: string

definition make_compiled_domain :: "compiled_domain \<Rightarrow> compiled_domain res" where
  "make_compiled_domain d = res_bind (require_compiled_address ''address'' (cdm_address d)) (\<lambda>_. Inr d)"

record compiled_clock =
  cck_address :: string
  cck_domain :: string
  cck_authority_kind :: clock_authority
  cck_authority_ref :: string
  cck_monotonicity :: clock_monotonicity
  cck_pause :: bool
  cck_reset :: bool
  cck_jump :: bool
  cck_description :: string

definition make_compiled_clock :: "compiled_clock \<Rightarrow> compiled_clock res" where
  "make_compiled_clock c =
     res_bind (require_compiled_address ''address'' (cck_address c)) (\<lambda>_.
     res_bind (require_compiled_address ''time domain address'' (cck_domain c)) (\<lambda>_. Inr c))"

record compiled_mapping =
  cmp_address :: string
  cmp_source :: string
  cmp_target :: string
  cmp_kind :: mapping_kind
  cmp_numerator :: int
  cmp_denominator :: int
  cmp_offset :: int
  cmp_description :: string

definition make_compiled_mapping :: "compiled_mapping \<Rightarrow> compiled_mapping res" where
  "make_compiled_mapping m =
     res_bind (require_compiled_address ''address'' (cmp_address m)) (\<lambda>_.
     res_bind (require_compiled_address ''source domain address'' (cmp_source m)) (\<lambda>_.
     res_bind (require_compiled_address ''target domain address'' (cmp_target m)) (\<lambda>_. Inr m)))"

record compiled_policy =
  cpl_address :: string
  cpl_clock :: string
  cpl_mode :: advancement_mode
  cpl_numerator :: int
  cpl_denominator :: int
  cpl_synchronization :: synchronization_mode
  cpl_step :: "int option"
  cpl_drift :: "int option"
  cpl_reset :: reset_behavior
  cpl_replay :: replay_behavior
  cpl_description :: string

definition make_compiled_policy :: "compiled_policy \<Rightarrow> compiled_policy res" where
  "make_compiled_policy p =
     res_bind (require_compiled_address ''address'' (cpl_address p)) (\<lambda>_.
     res_bind (require_compiled_address ''clock address'' (cpl_clock p)) (\<lambda>_. Inr p))"

record compiled_constraint =
  ccn_address :: string
  ccn_kind :: constraint_kind
  ccn_clock :: string
  ccn_subjects :: "string list"
  ccn_start_tick :: "int option"
  ccn_start_microstep :: "int option"
  ccn_end_tick :: "int option"
  ccn_end_microstep :: "int option"
  ccn_duration :: "int option"
  ccn_cadence :: "int option"
  ccn_description :: string

definition make_compiled_constraint :: "compiled_constraint \<Rightarrow> compiled_constraint res" where
  "make_compiled_constraint c =
     res_bind (require_compiled_address ''address'' (ccn_address c)) (\<lambda>_.
     res_bind (require_compiled_address ''clock address'' (ccn_clock c)) (\<lambda>_.
     res_bind (res_all (\<lambda>s. res_bind (require_compiled_address ''temporal subject address'' s) (\<lambda>_. Inr ()))
       (ccn_subjects c)) (\<lambda>_. Inr c)))"

record compiled_time_model =
  ctm_domains :: "compiled_domain list"
  ctm_clocks :: "compiled_clock list"
  ctm_mappings :: "compiled_mapping list"
  ctm_policies :: "compiled_policy list"
  ctm_constraints :: "compiled_constraint list"

definition compiled_addresses :: "compiled_time_model \<Rightarrow> string list" where
  "compiled_addresses m =
     map cdm_address (ctm_domains m) @ map cck_address (ctm_clocks m) @ map cmp_address (ctm_mappings m) @
     map cpl_address (ctm_policies m) @ map ccn_address (ctm_constraints m)"

definition make_compiled_time_model :: "compiled_time_model \<Rightarrow> compiled_time_model res" where
  "make_compiled_time_model m =
     res_bind (require_that (distinct (compiled_addresses m))
       (ValueError ''compiled time-model addresses must be unique'')) (\<lambda>_. Inr m)"

section \<open>From compiled metadata to the contract and back\<close>

text \<open>A dictionary comprehension over records that raises with its first invalid member.\<close>

definition contract_members :: "('a \<Rightarrow> string) \<Rightarrow> ('a \<Rightarrow> 'b res) \<Rightarrow> 'a list \<Rightarrow> (string, 'b) pydict res" where
  "contract_members address f xs =
     res_fold (\<lambda>d x. res_bind (f x) (\<lambda>y. Inr (dict_set (address x) y d))) [] xs"

definition contract_domain :: "compiled_domain \<Rightarrow> time_domain res" where
  "contract_domain d =
     res_bind (make_ratio \<lparr>xr_numerator = cdm_numerator d, xr_denominator = cdm_denominator d\<rparr>) (\<lambda>period.
       make_domain \<lparr>td_address = cdm_address d, td_kind = cdm_kind d, td_period = period, td_epoch = cdm_epoch d,
         td_visibility = cdm_visibility d, td_description = cdm_description d\<rparr>)"

definition contract_clock :: "compiled_clock \<Rightarrow> clock_declaration res" where
  "contract_clock c =
     make_clock \<lparr>cd_address = cck_address c, cd_domain = cck_domain c, cd_authority_kind = cck_authority_kind c,
       cd_authority_ref = cck_authority_ref c, cd_monotonicity = cck_monotonicity c,
       cd_supports_pause = cck_pause c, cd_supports_reset = cck_reset c, cd_supports_jump = cck_jump c,
       cd_description = cck_description c\<rparr>"

definition contract_mapping :: "compiled_mapping \<Rightarrow> domain_mapping res" where
  "contract_mapping m =
     res_bind (make_ratio \<lparr>xr_numerator = cmp_numerator m, xr_denominator = cmp_denominator m\<rparr>) (\<lambda>scale.
       make_mapping \<lparr>mp_address = cmp_address m, mp_source = cmp_source m, mp_target = cmp_target m,
         mp_kind = cmp_kind m, mp_scale = scale, mp_offset = cmp_offset m, mp_description = cmp_description m\<rparr>)"

definition contract_policy :: "compiled_policy \<Rightarrow> progression_policy res" where
  "contract_policy p =
     res_bind (make_ratio \<lparr>xr_numerator = cpl_numerator p, xr_denominator = cpl_denominator p\<rparr>) (\<lambda>pacing.
       make_policy \<lparr>gp_address = cpl_address p, gp_clock = cpl_clock p, gp_mode = cpl_mode p, gp_pacing = pacing,
         gp_synchronization = cpl_synchronization p, gp_step = cpl_step p, gp_drift = cpl_drift p,
         gp_reset = cpl_reset p, gp_replay = cpl_replay p, gp_description = cpl_description p\<rparr>)"

text \<open>\<open>microstep=constraint.start_microstep or 0\<close>; the segment is the default.\<close>

definition contract_coordinate :: "int option \<Rightarrow> int option \<Rightarrow> time_coordinate option res" where
  "contract_coordinate tick microstep =
     (case tick of
        None \<Rightarrow> Inr None
      | Some t \<Rightarrow> res_bind (make_coordinate \<lparr>co_segment = 0, co_tick = t,
            co_microstep = (case microstep of None \<Rightarrow> 0 | Some m \<Rightarrow> m)\<rparr>) (\<lambda>c. Inr (Some c)))"

definition contract_constraint :: "compiled_constraint \<Rightarrow> temporal_constraint res" where
  "contract_constraint c =
     res_bind (contract_coordinate (ccn_start_tick c) (ccn_start_microstep c)) (\<lambda>start.
     res_bind (contract_coordinate (ccn_end_tick c) (ccn_end_microstep c)) (\<lambda>end'.
       make_constraint \<lparr>tc_address = ccn_address c, tc_kind = ccn_kind c, tc_clock = ccn_clock c,
         tc_subjects = ccn_subjects c, tc_start = start, tc_end = end', tc_duration = ccn_duration c,
         tc_cadence = ccn_cadence c, tc_description = ccn_description c\<rparr>))"

definition time_model_contract_model :: "compiled_time_model \<Rightarrow> time_declaration option res" where
  "time_model_contract_model m =
     (if ctm_domains m = [] \<and> ctm_clocks m = [] then Inr None
      else
        res_bind (contract_members cdm_address contract_domain (ctm_domains m)) (\<lambda>domains.
        res_bind (contract_members cck_address contract_clock (ctm_clocks m)) (\<lambda>clocks.
        res_bind (contract_members cmp_address contract_mapping (ctm_mappings m)) (\<lambda>mappings.
        res_bind (contract_members cpl_address contract_policy (ctm_policies m)) (\<lambda>policies.
        res_bind (contract_members ccn_address contract_constraint (ctm_constraints m)) (\<lambda>constraints.
        res_bind (make_declaration \<lparr>tm_domains = domains, tm_clocks = clocks, tm_mappings = mappings,
          tm_policies = policies, tm_constraints = constraints\<rparr>) (\<lambda>d. Inr (Some d))))))))"

definition compile_domain :: "time_domain \<Rightarrow> compiled_domain res" where
  "compile_domain d = make_compiled_domain
     \<lparr>cdm_address = td_address d, cdm_kind = td_kind d, cdm_numerator = xr_numerator (td_period d),
      cdm_denominator = xr_denominator (td_period d), cdm_epoch = td_epoch d,
      cdm_visibility = td_visibility d, cdm_description = td_description d\<rparr>"

definition compile_clock :: "clock_declaration \<Rightarrow> compiled_clock res" where
  "compile_clock c = make_compiled_clock
     \<lparr>cck_address = cd_address c, cck_domain = cd_domain c, cck_authority_kind = cd_authority_kind c,
      cck_authority_ref = cd_authority_ref c, cck_monotonicity = cd_monotonicity c,
      cck_pause = cd_supports_pause c, cck_reset = cd_supports_reset c, cck_jump = cd_supports_jump c,
      cck_description = cd_description c\<rparr>"

definition compile_mapping :: "domain_mapping \<Rightarrow> compiled_mapping res" where
  "compile_mapping m = make_compiled_mapping
     \<lparr>cmp_address = mp_address m, cmp_source = mp_source m, cmp_target = mp_target m, cmp_kind = mp_kind m,
      cmp_numerator = xr_numerator (mp_scale m), cmp_denominator = xr_denominator (mp_scale m),
      cmp_offset = mp_offset m, cmp_description = mp_description m\<rparr>"

definition compile_policy :: "progression_policy \<Rightarrow> compiled_policy res" where
  "compile_policy p = make_compiled_policy
     \<lparr>cpl_address = gp_address p, cpl_clock = gp_clock p, cpl_mode = gp_mode p,
      cpl_numerator = xr_numerator (gp_pacing p), cpl_denominator = xr_denominator (gp_pacing p),
      cpl_synchronization = gp_synchronization p, cpl_step = gp_step p, cpl_drift = gp_drift p,
      cpl_reset = gp_reset p, cpl_replay = gp_replay p, cpl_description = gp_description p\<rparr>"

definition compile_constraint :: "temporal_constraint \<Rightarrow> compiled_constraint res" where
  "compile_constraint c = make_compiled_constraint
     \<lparr>ccn_address = tc_address c, ccn_kind = tc_kind c, ccn_clock = tc_clock c, ccn_subjects = tc_subjects c,
      ccn_start_tick = map_option co_tick (tc_start c), ccn_start_microstep = map_option co_microstep (tc_start c),
      ccn_end_tick = map_option co_tick (tc_end c), ccn_end_microstep = map_option co_microstep (tc_end c),
      ccn_duration = tc_duration c, ccn_cadence = tc_cadence c, ccn_description = tc_description c\<rparr>"

definition compiled_time_model_from_contract :: "time_declaration \<Rightarrow> compiled_time_model res" where
  "compiled_time_model_from_contract d =
     res_bind (res_map compile_domain (dict_values (tm_domains d))) (\<lambda>domains.
     res_bind (res_map compile_clock (dict_values (tm_clocks d))) (\<lambda>clocks.
     res_bind (res_map compile_mapping (dict_values (tm_mappings d))) (\<lambda>mappings.
     res_bind (res_map compile_policy (dict_values (tm_policies d))) (\<lambda>policies.
     res_bind (res_map compile_constraint (dict_values (tm_constraints d))) (\<lambda>constraints.
       make_compiled_time_model \<lparr>ctm_domains = domains, ctm_clocks = clocks, ctm_mappings = mappings,
         ctm_policies = policies, ctm_constraints = constraints\<rparr>)))))"

section \<open>Snapshots and the coordinator object\<close>

record 'rest time_part =
  tp_state :: "time_state option"
  tp_rest :: 'rest

type_synonym 'rest snapshot = "'rest time_part episode_snapshot"

abbreviation snapshot_time :: "'rest snapshot \<Rightarrow> time_state option" where
  "snapshot_time sn \<equiv> tp_state (es_rest sn)"

definition with_time_state :: "time_state \<Rightarrow> 'rest snapshot \<Rightarrow> 'rest snapshot" where
  "with_time_state st sn = sn\<lparr>es_rest := (es_rest sn)\<lparr>tp_state := Some st\<rparr>\<rparr>"

record clock_reading =
  rd_clock :: string
  rd_segment :: int
  rd_tick :: int
  rd_microstep :: int

definition policy_by_clock :: "compiled_time_model \<Rightarrow> (string, compiled_policy) pydict res" where
  "policy_by_clock m =
     res_fold (\<lambda>policies p.
       if dict_has policies (cpl_clock p)
       then Inl (ValueError ''a clock may have at most one compiled progression policy'')
       else Inr (dict_set (cpl_clock p) p policies)) [] (ctm_policies m)"

definition clock_by_address :: "compiled_time_model \<Rightarrow> (string, compiled_clock) pydict" where
  "clock_by_address m = foldl (\<lambda>d c. dict_set (cck_address c) c d) [] (ctm_clocks m)"

record time_coordinator =
  cr_model :: compiled_time_model
  cr_declaration :: time_declaration
  cr_clocks :: "(string, compiled_clock) pydict"
  cr_policies :: "(string, compiled_policy) pydict"

definition make_coordinator :: "compiled_time_model \<Rightarrow> time_coordinator res" where
  "make_coordinator m =
     res_bind (time_model_contract_model m) (\<lambda>declaration.
     (case declaration of
        None \<Rightarrow> Inl (ValueError ''TimeCoordinator requires a non-empty compiled time model'')
      | Some d \<Rightarrow> res_bind (policy_by_clock m) (\<lambda>policies.
          Inr \<lparr>cr_model = m, cr_declaration = d, cr_clocks = clock_by_address m, cr_policies = policies\<rparr>)))"

definition reading_coordinate :: "clock_reading \<Rightarrow> time_coordinate" where
  "reading_coordinate r = \<lparr>co_segment = rd_segment r, co_tick = rd_tick r, co_microstep = rd_microstep r\<rparr>"

definition clock_transition ::
  "int \<Rightarrow> clock_event_kind \<Rightarrow> clock_reading \<Rightarrow> clock_reading option \<Rightarrow> clock_event res" where
  "clock_transition number kind current previous =
     res_bind (case previous of
         None \<Rightarrow> Inr None
       | Some p \<Rightarrow> res_bind (make_coordinate (reading_coordinate p)) (\<lambda>c. Inr (Some c))) (\<lambda>previous_coordinate.
     res_bind (make_coordinate (reading_coordinate current)) (\<lambda>resulting.
       make_clock_event \<lparr>ce_sequence = number, ce_kind = kind, ce_previous = previous_coordinate,
         ce_resulting = resulting, ce_state = (if kind = PAUSE then CLOCK_PAUSED else CLOCK_RUNNING)\<rparr>))"

definition initial_clock :: "time_coordinator \<Rightarrow> string \<Rightarrow> compiled_clock \<Rightarrow> clock_state res" where
  "initial_clock tc address clock =
     res_bind (clock_transition 0 CLOCK_INITIALIZE
       \<lparr>rd_clock = address, rd_segment = 0, rd_tick = 0, rd_microstep = 0\<rparr> None) (\<lambda>initial.
       make_clock_state
         \<lparr>ck_address = address, ck_domain = cck_domain clock,
          ck_policy = map_option cpl_address (dict_get (cr_policies tc) address),
          ck_authority_kind = cck_authority_kind clock, ck_authority_ref = cck_authority_ref clock,
          ck_state = CLOCK_RUNNING, ck_coordinate = ce_resulting initial, ck_sequence = 0,
          ck_history = [initial]\<rparr>)"

definition initialize_time ::
  "(string \<Rightarrow> string) \<Rightarrow> time_coordinator \<Rightarrow> 'rest snapshot \<Rightarrow> 'rest snapshot res" where
  "initialize_time sha256 tc sn =
     (if snapshot_time sn \<noteq> None then Inl (ValueError ''shared time model is already initialized'')
      else
        res_bind (res_fold (\<lambda>contexts (address, clock).
            res_bind (initial_clock tc address clock) (\<lambda>c. Inr (dict_set address c contexts)))
          [] (cr_clocks tc)) (\<lambda>contexts.
        res_bind (make_time_state \<lparr>ts_digest = canonical_digest sha256 (cr_declaration tc), ts_clocks = contexts\<rparr>) (\<lambda>st.
          Inr (with_time_state st sn))))"

section \<open>Clock control\<close>

definition find_clock :: "time_coordinator \<Rightarrow> string \<Rightarrow> compiled_clock res" where
  "find_clock tc address =
     (case dict_get (cr_clocks tc) address of None \<Rightarrow> Inl (KeyError address) | Some c \<Rightarrow> Inr c)"

definition find_mapping :: "time_coordinator \<Rightarrow> string \<Rightarrow> compiled_mapping res" where
  "find_mapping tc address =
     (case find (\<lambda>m. cmp_address m = address) (ctm_mappings (cr_model tc)) of
        None \<Rightarrow> Inl (KeyError address) | Some m \<Rightarrow> Inr m)"

definition clock_context :: "time_coordinator \<Rightarrow> 'rest snapshot \<Rightarrow> string \<Rightarrow> clock_state res" where
  "clock_context tc sn address =
     res_bind (find_clock tc address) (\<lambda>_.
     (case snapshot_time sn of
        None \<Rightarrow> Inl (KeyError address)
      | Some st \<Rightarrow> (case dict_get (ts_clocks st) address of
            None \<Rightarrow> Inl (KeyError address)
          | Some c \<Rightarrow> if ck_address c \<noteq> address
                     then Inl (ValueError ''runtime time context key disagrees with clock_address'')
                     else Inr c)))"

definition clock_reading_of :: "time_coordinator \<Rightarrow> 'rest snapshot \<Rightarrow> string \<Rightarrow> clock_reading res" where
  "clock_reading_of tc sn address =
     res_bind (clock_context tc sn address) (\<lambda>c.
       Inr \<lparr>rd_clock = address, rd_segment = co_segment (ck_coordinate c), rd_tick = co_tick (ck_coordinate c),
            rd_microstep = co_microstep (ck_coordinate c)\<rparr>)"

definition replace_context ::
  "time_coordinator \<Rightarrow> 'rest snapshot \<Rightarrow> clock_state \<Rightarrow> clock_event_kind \<Rightarrow> clock_reading \<Rightarrow> clock_lifecycle \<Rightarrow>
     'rest snapshot res" where
  "replace_context tc sn c kind r state =
     res_bind (clock_reading_of tc sn (rd_clock r)) (\<lambda>previous.
     res_bind (clock_transition (ck_sequence c + 1) kind r (Some previous)) (\<lambda>event.
     res_bind (make_coordinate (reading_coordinate r)) (\<lambda>coordinate.
     res_bind (make_clock_state
       \<lparr>ck_address = ck_address c, ck_domain = ck_domain c, ck_policy = ck_policy c,
        ck_authority_kind = ck_authority_kind c, ck_authority_ref = ck_authority_ref c, ck_state = state,
        ck_coordinate = coordinate, ck_sequence = ck_sequence c + 1, ck_history = ck_history c @ [event]\<rparr>) (\<lambda>next_clock.
     (case snapshot_time sn of
        None \<Rightarrow> Inl (AssertionError [])
      | Some st \<Rightarrow>
          res_bind (make_time_state \<lparr>ts_digest = ts_digest st,
            ts_clocks = dict_set (rd_clock r) next_clock (ts_clocks st)\<rparr>) (\<lambda>next_state.
            Inr (with_time_state next_state sn)))))))"

definition advance_clock ::
  "time_coordinator \<Rightarrow> 'rest snapshot \<Rightarrow> string \<Rightarrow> int \<Rightarrow> int \<Rightarrow> 'rest snapshot res" where
  "advance_clock tc sn address ticks microstep =
     (if ticks < 0 \<or> microstep < 0 then Inl (ValueError ''clock advance must be non-negative'')
      else res_bind (clock_context tc sn address) (\<lambda>c.
        if ck_state c \<noteq> CLOCK_RUNNING then Inl (ValueError ''a paused clock cannot advance'')
        else (case dict_get (cr_policies tc) address of
            None \<Rightarrow> Inl (ValueError ''clock advancement requires a compiled progression policy'')
          | Some policy \<Rightarrow>
              if cpl_mode policy = STEPPED \<and> Some ticks \<noteq> cpl_step policy
              then Inl (ValueError ''stepped clock advances must equal the declared step_ticks'')
              else res_bind (clock_reading_of tc sn address) (\<lambda>previous.
                if ticks = 0 \<and> microstep = 0 then Inl (ValueError ''clock advance must change tick or microstep'')
                else replace_context tc sn c ADVANCE
                  \<lparr>rd_clock = rd_clock previous, rd_segment = rd_segment previous,
                   rd_tick = rd_tick previous + ticks,
                   rd_microstep = (if ticks \<noteq> 0 then microstep else rd_microstep previous + microstep)\<rparr>
                  CLOCK_RUNNING))))"

definition pause_clock :: "time_coordinator \<Rightarrow> 'rest snapshot \<Rightarrow> string \<Rightarrow> 'rest snapshot res" where
  "pause_clock tc sn address =
     res_bind (find_clock tc address) (\<lambda>clock.
       if \<not> cck_pause clock then Inl (ValueError ''clock does not support pause'')
       else res_bind (clock_context tc sn address) (\<lambda>c.
         if ck_state c \<noteq> CLOCK_RUNNING then Inl (ValueError ''only a running clock may be paused'')
         else res_bind (clock_reading_of tc sn address) (\<lambda>r. replace_context tc sn c PAUSE r CLOCK_PAUSED)))"

definition resume_clock :: "time_coordinator \<Rightarrow> 'rest snapshot \<Rightarrow> string \<Rightarrow> 'rest snapshot res" where
  "resume_clock tc sn address =
     res_bind (clock_context tc sn address) (\<lambda>c.
       if ck_state c \<noteq> CLOCK_PAUSED then Inl (ValueError ''only a paused clock may be resumed'')
       else res_bind (clock_reading_of tc sn address) (\<lambda>r. replace_context tc sn c RESUME r CLOCK_RUNNING))"

definition jump_clock ::
  "time_coordinator \<Rightarrow> 'rest snapshot \<Rightarrow> string \<Rightarrow> int \<Rightarrow> int \<Rightarrow> 'rest snapshot res" where
  "jump_clock tc sn address tick microstep =
     res_bind (find_clock tc address) (\<lambda>clock.
       if \<not> cck_jump clock then Inl (ValueError ''clock does not support jumps'')
       else res_bind (clock_context tc sn address) (\<lambda>c.
         res_bind (clock_reading_of tc sn address) (\<lambda>r.
           replace_context tc sn c JUMP
             \<lparr>rd_clock = rd_clock r, rd_segment = rd_segment r + 1, rd_tick = tick, rd_microstep = microstep\<rparr>
             (ck_state c))))"

text \<open>The behaviour a policy asks for: unsupported, or a new segment that keeps the value or starts at zero.\<close>

definition lifecycle_behavior :: "bool \<Rightarrow> compiled_policy \<Rightarrow> bool option" where
  "lifecycle_behavior replay p =
     (if replay
      then (case cpl_replay p of REPLAY_UNSUPPORTED \<Rightarrow> None | _ \<Rightarrow> Some False)
      else (case cpl_reset p of RESET_UNSUPPORTED \<Rightarrow> None | behavior \<Rightarrow> Some (behavior = NEW_SEGMENT_PRESERVE_VALUE)))"

definition reset_clock :: "time_coordinator \<Rightarrow> 'rest snapshot \<Rightarrow> string \<Rightarrow> bool \<Rightarrow> 'rest snapshot res" where
  "reset_clock tc sn address replay =
     res_bind (find_clock tc address) (\<lambda>clock.
       if \<not> cck_reset clock then Inl (ValueError ''clock does not support reset'')
       else (case dict_get (cr_policies tc) address of
           None \<Rightarrow> Inl (ValueError ''clock reset requires a compiled progression policy'')
         | Some policy \<Rightarrow> (case lifecycle_behavior replay policy of
               None \<Rightarrow> Inl (ValueError ''clock policy does not support the requested lifecycle operation'')
             | Some preserve \<Rightarrow>
                 res_bind (clock_context tc sn address) (\<lambda>c.
                 res_bind (clock_reading_of tc sn address) (\<lambda>r.
                   replace_context tc sn c (if replay then REPLAY else CLOCK_RESET)
                     \<lparr>rd_clock = rd_clock r, rd_segment = rd_segment r + 1,
                      rd_tick = (if preserve then rd_tick r else 0),
                      rd_microstep = (if preserve then rd_microstep r else 0)\<rparr>
                     CLOCK_RUNNING)))))"

definition convert_tick :: "time_coordinator \<Rightarrow> string \<Rightarrow> int \<Rightarrow> rat res" where
  "convert_tick tc address tick =
     res_bind (find_mapping tc address) (\<lambda>m.
       Inr (Fract (tick * cmp_numerator m) (cmp_denominator m) + of_int (cmp_offset m)))"

section \<open>The reference time runtime\<close>

record time_runtime =
  tr_declaration :: "time_declaration option"
  tr_coordinator :: "time_coordinator option"

definition new_time_runtime :: time_runtime where
  "new_time_runtime = \<lparr>tr_declaration = None, tr_coordinator = None\<rparr>"

definition time_result :: "'rest snapshot \<Rightarrow> string list \<Rightarrow> 'rest time_part episode_result res" where
  "time_result sn changed =
     res_bind (res_all (\<lambda>a. res_bind (require_compiled_address ''changed address'' a) (\<lambda>_. Inr ())) changed) (\<lambda>_.
     res_bind (require_that (distinct changed) (ValueError ''changed addresses must be unique'')) (\<lambda>_.
       Inr \<lparr>er_success = True, er_snapshot = sn, er_diagnostics = [], er_changed = changed\<rparr>))"

text \<open>The runtime object keeps what was assigned before an exception.\<close>

definition runtime_initialize ::
  "(string \<Rightarrow> string) \<Rightarrow> time_declaration \<Rightarrow> 'rest snapshot \<Rightarrow> time_runtime \<Rightarrow>
     'rest time_part episode_result res \<times> time_runtime" where
  "runtime_initialize sha256 d sn tr =
     (case res_bind (compiled_time_model_from_contract d) make_coordinator of
        Inl e \<Rightarrow> (Inl e, tr\<lparr>tr_declaration := Some d\<rparr>)
      | Inr tc \<Rightarrow>
          (res_bind (initialize_time sha256 tc sn) (\<lambda>next_snapshot.
             time_result next_snapshot (sort (dict_keys (tm_clocks d)))),
           \<lparr>tr_declaration = Some d, tr_coordinator = Some tc\<rparr>))"

definition require_coordinator :: "time_runtime \<Rightarrow> time_coordinator res" where
  "require_coordinator tr =
     (case (tr_coordinator tr, tr_declaration tr) of
        (Some tc, Some _) \<Rightarrow> Inr tc
      | _ \<Rightarrow> Inl (ValueError ''shared-time runtime is not initialized''))"

datatype clock_command =
    AdvanceClock string int int
  | PauseClock string
  | ResumeClock string
  | JumpClock string int int
  | ResetClock string bool

fun command_clock :: "clock_command \<Rightarrow> string" where
  "command_clock (AdvanceClock a _ _) = a"
| "command_clock (PauseClock a) = a"
| "command_clock (ResumeClock a) = a"
| "command_clock (JumpClock a _ _) = a"
| "command_clock (ResetClock a _) = a"

fun run_command :: "time_coordinator \<Rightarrow> 'rest snapshot \<Rightarrow> clock_command \<Rightarrow> 'rest snapshot res" where
  "run_command tc sn (AdvanceClock a ticks microstep) = advance_clock tc sn a ticks microstep"
| "run_command tc sn (PauseClock a) = pause_clock tc sn a"
| "run_command tc sn (ResumeClock a) = resume_clock tc sn a"
| "run_command tc sn (JumpClock a tick microstep) = jump_clock tc sn a tick microstep"
| "run_command tc sn (ResetClock a replay) = reset_clock tc sn a replay"

definition runtime_control ::
  "clock_command \<Rightarrow> 'rest snapshot \<Rightarrow> time_runtime \<Rightarrow> 'rest time_part episode_result res" where
  "runtime_control command sn tr =
     res_bind (require_coordinator tr) (\<lambda>tc.
     res_bind (run_command tc sn command) (\<lambda>next_snapshot. time_result next_snapshot [command_clock command]))"

text \<open>
  The participants' batch reset runs on the snapshot of the clock reset; its failure is reported
  with one more diagnostic and the snapshot the call was given.
\<close>

datatype coordinated_diagnostic = PARTICIPANT_RESET string rejection | COORDINATED_RESET_ABORTED string

record 'rest coordinated_result =
  cx_success :: bool
  cx_snapshot :: "'rest snapshot"
  cx_diagnostics :: "coordinated_diagnostic list"
  cx_changed :: "string list"

definition reset_with_participants ::
  "(64 word \<Rightarrow> string) \<Rightarrow> string \<Rightarrow> bool \<Rightarrow> (string \<times> renew_request) list \<Rightarrow> 'rest snapshot \<Rightarrow> time_runtime \<Rightarrow>
     participant_runtime \<Rightarrow> 'rest coordinated_result res \<times> participant_runtime" where
  "reset_with_participants ft address replay requests sn tr rt =
     (case runtime_control (ResetClock address replay) sn tr of
        Inl e \<Rightarrow> (Inl e, rt)
      | Inr timed \<Rightarrow>
          (case reset_many ft requests (er_snapshot timed) rt of
             (Inl e, rt') \<Rightarrow> (Inl e, rt')
           | (Inr result, rt') \<Rightarrow>
               let diagnostics = map (\<lambda>(a, why). PARTICIPANT_RESET a why) (er_diagnostics timed @ er_diagnostics result) in
               if \<not> er_success result
               then (Inr \<lparr>cx_success = False, cx_snapshot = sn,
                          cx_diagnostics = diagnostics @ [COORDINATED_RESET_ABORTED address], cx_changed = []\<rparr>, rt')
               else
                 (let changed = fromkeys (er_changed timed @ er_changed result) in
                  (res_bind (res_all (\<lambda>a. res_bind (require_compiled_address ''changed address'' a) (\<lambda>_. Inr ())) changed)
                     (\<lambda>_. Inr \<lparr>cx_success = True, cx_snapshot = er_snapshot result, cx_diagnostics = diagnostics,
                               cx_changed = changed\<rparr>), rt'))))"

definition runtime_state :: "'rest snapshot \<Rightarrow> time_runtime \<Rightarrow> time_state res" where
  "runtime_state sn tr =
     res_bind (require_coordinator tr) (\<lambda>_.
     (case snapshot_time sn of
        None \<Rightarrow> Inl (ValueError ''shared-time runtime state is not initialized'')
      | Some st \<Rightarrow> Inr st))"

end
