(* ===== verification/Time_Mapping.thy ===== *)
theory Time_Mapping
  imports Time_Contracts
begin

text \<open>
  The depth-first search over declared mappings finds a cycle exactly when there is one. A
  finished domain has all its targets finished and lies on no cycle; an open call is reached
  from every domain whose call is still open.
\<close>

section \<open>The edges of a graph\<close>

definition graph_edges :: "domain_graph \<Rightarrow> (string \<times> string) set" where
  "graph_edges g = {(d, t). t \<in> set (targets_of g d)}"

definition finished :: "domain_graph \<Rightarrow> string set \<Rightarrow> bool" where
  "finished g V \<longleftrightarrow> (\<forall>d \<in> V. set (targets_of g d) \<subseteq> V \<and> (d, d) \<notin> (graph_edges g)\<^sup>+)"

definition path_open :: "domain_graph \<Rightarrow> string list \<Rightarrow> string \<Rightarrow> bool" where
  "path_open g visiting d \<longleftrightarrow> (\<forall>a \<in> set visiting. (a, d) \<in> (graph_edges g)\<^sup>+)"

lemma finished_closed: "(a, b) \<in> (graph_edges g)\<^sup>* \<Longrightarrow> finished g V \<Longrightarrow> a \<in> V \<Longrightarrow> b \<in> V"
  by (induction rule: rtrancl_induct) (auto simp: finished_def graph_edges_def)

text \<open>A domain whose targets are all finished can be finished itself.\<close>

lemma finished_insert:
  assumes "finished g V" and "set (targets_of g d) \<subseteq> V"
  shows "finished g (insert d V)"
proof -
  have "(d, d) \<notin> (graph_edges g)\<^sup>+"
  proof
    assume "(d, d) \<in> (graph_edges g)\<^sup>+"
    then obtain t where "(d, t) \<in> graph_edges g" "(t, d) \<in> (graph_edges g)\<^sup>*"
      by (blast dest: tranclD)
    moreover from this assms(2) have "t \<in> V" by (auto simp: graph_edges_def)
    ultimately have "d \<in> V" using finished_closed [OF _ assms(1)] by blast
    with assms(1) \<open>(d, d) \<in> (graph_edges g)\<^sup>+\<close> show False by (auto simp: finished_def)
  qed
  with assms show ?thesis by (auto simp: finished_def)
qed

lemma path_open_target:
  "path_open g visiting d \<Longrightarrow> t \<in> set (targets_of g d) \<Longrightarrow> path_open g (d # visiting) t"
  by (auto simp: path_open_def graph_edges_def intro: trancl_into_trancl)

section \<open>The search\<close>

lemma visit_correct:
  "finished g (set visited) \<Longrightarrow> path_open g visiting d \<Longrightarrow>
     (case visit_domain g visiting visited d of
        None \<Rightarrow> \<exists>x. (x, x) \<in> (graph_edges g)\<^sup>+
      | Some V \<Rightarrow> finished g (set V) \<and> insert d (set visited) \<subseteq> set V)"
  "finished g (set visited) \<Longrightarrow> \<forall>t \<in> set ts. path_open g visiting t \<Longrightarrow>
     (case visit_targets g visiting visited ts of
        None \<Rightarrow> \<exists>x. (x, x) \<in> (graph_edges g)\<^sup>+
      | Some V \<Rightarrow> finished g (set V) \<and> set ts \<union> set visited \<subseteq> set V)"
proof (induction g visiting visited d and g visiting visited ts rule: visit_domain_visit_targets.induct)
  case (1 g visiting visited d)
  show ?case
  proof (cases "d \<in> set visiting \<or> d \<in> set visited")
    case True
    with 1 show ?thesis by (auto simp: path_open_def)
  next
    case False
    then have fresh: "d \<notin> set visiting" "d \<notin> set visited" by simp_all
    have "\<forall>t \<in> set (targets_of g d). path_open g (d # visiting) t"
      using 1(3) path_open_target by blast
    note IH = 1(1) [OF fresh 1(2) this]
    show ?thesis
    proof (cases "visit_targets g (d # visiting) visited (targets_of g d)")
      case None
      with IH fresh show ?thesis by simp
    next
      case (Some V)
      with IH have "finished g (set V)" "set (targets_of g d) \<union> set visited \<subseteq> set V" by simp_all
      with Some fresh show ?thesis by (auto intro: finished_insert)
    qed
  qed
next
  case (2 g visiting visited)
  then show ?case by simp
next
  case (3 g visiting visited t ts)
  then show ?case
  proof (cases "visit_domain g visiting visited t")
    case None
    with 3 show ?thesis by simp
  next
    case (Some V)
    with 3(1,3,4) have V: "finished g (set V)" "insert t (set visited) \<subseteq> set V" by simp_all
    from 3(4) have "\<forall>t \<in> set ts. path_open g visiting t" by simp
    with 3(2) [OF Some V(1)] V(2) Some show ?thesis by (auto split: option.splits)
  qed
qed

lemma search_finds_cycle:
  "visit_targets g [] [] (dict_keys g) = None \<longleftrightarrow> \<not> acyclic (graph_edges g)"
proof -
  have "finished g (set [])" "\<forall>t \<in> set (dict_keys g). path_open g [] t"
    by (simp_all add: finished_def path_open_def)
  note found = visit_correct(2) [OF this]
  show ?thesis
  proof (cases "visit_targets g [] [] (dict_keys g)")
    case None
    with found show ?thesis by (auto simp: acyclic_def)
  next
    case (Some V)
    with found have "finished g (set V)" and keys: "set (dict_keys g) \<subseteq> set V" by simp_all
    then have "\<And>d. d \<in> set (dict_keys g) \<Longrightarrow> (d, d) \<notin> (graph_edges g)\<^sup>+" by (auto simp: finished_def)
    moreover have "d \<in> set (dict_keys g)" if "(d, d) \<in> (graph_edges g)\<^sup>+" for d
      using tranclD [OF that] targets_of_no_key by (fastforce simp: graph_edges_def)
    ultimately show ?thesis using Some by (auto simp: acyclic_def)
  qed
qed

section \<open>The graph of the declared mappings\<close>

lemma targets_of_add: "targets_of (add_mapping_edge g m) d =
   (if d = mp_source m
    then if mp_target m \<in> set (targets_of g d) then targets_of g d else targets_of g d @ [mp_target m]
    else targets_of g d)"
  by (auto simp: targets_of_def add_mapping_edge_def Let_def split: option.splits)

lemma graph_edges_add: "graph_edges (add_mapping_edge g m) = insert (mp_source m, mp_target m) (graph_edges g)"
  by (auto simp: graph_edges_def targets_of_add split: if_splits)

lemma mapping_graph_edges: "graph_edges (mapping_graph ms) = (\<lambda>m. (mp_source m, mp_target m)) ` set ms"
proof -
  have "graph_edges (foldl add_mapping_edge g ms) = graph_edges g \<union> (\<lambda>m. (mp_source m, mp_target m)) ` set ms" for g
    by (induction ms arbitrary: g) (auto simp: graph_edges_add)
  then show ?thesis by (simp add: mapping_graph_def graph_edges_def targets_of_def)
qed

text \<open>
  C25. The declaration check of mappings, a depth-first search with the domains of open calls and
  the finished domains, always ends and accepts exactly the acyclic mapping graphs. In
  particular its verdict does not depend on the order in which Python walks a set of targets.
\<close>

theorem mapping_check_decides_acyclicity:
  "validate_acyclic_mappings ms \<longleftrightarrow> acyclic ((\<lambda>m. (mp_source m, mp_target m)) ` set ms)"
  by (simp only: validate_acyclic_mappings_def Let_def search_finds_cycle mapping_graph_edges not_not)

end
