(* ===== verification/Time_Compile.thy ===== *)
theory Time_Compile
  imports Time_Runtime Time_Mapping
begin

text \<open>
  The projections between compiled metadata and the portable contract: what a coordinator built
  from compiled metadata knows of its clocks and policies, and that the runtime reconstructs from
  a contract metadata with the same contract.
\<close>

section \<open>Dictionaries built from records with distinct addresses\<close>

lemma foldl_dict_set_distinct:
  "distinct (map k xs) \<Longrightarrow> foldl (\<lambda>d x. dict_set (k x) (v x) d) [] xs = map (\<lambda>x. (k x, v x)) xs"
proof (induction xs rule: rev_induct)
  case (snoc x xs)
  then have "\<not> dict_has (map (\<lambda>x. (k x, v x)) xs) (k x)"
    by (auto simp: dict_has_def dict_keys_def)
  with snoc show ?case by (simp add: dict_set_fresh)
qed simp

lemma res_fold_dict:
  assumes "distinct (map k xs)" and "\<forall>x \<in> set xs. \<not> dict_has d (k x)"
  shows "res_fold (\<lambda>d x. res_bind (f x) (\<lambda>y. Inr (dict_set (k x) y d))) d xs =
    res_bind (res_map f xs) (\<lambda>ys. Inr (d @ zip (map k xs) ys))"
  using assms
proof (induction xs arbitrary: d)
  case (Cons x xs)
  show ?case
  proof (cases "f x")
    case (Inr y)
    from Cons.prems have "\<forall>z \<in> set xs. \<not> dict_has (dict_set (k x) y d) (k z)" by (force simp: image_iff)
    with Cons.IH [OF _ this] Cons.prems Inr show ?thesis
      by (cases "res_map f xs") (simp_all add: dict_set_fresh)
  qed simp
qed simp

lemma contract_members_eq:
  "distinct (map address xs) \<Longrightarrow>
     contract_members address f xs = res_bind (res_map f xs) (\<lambda>ys. Inr (zip (map address xs) ys))"
  unfolding contract_members_def by (subst res_fold_dict) (simp_all add: dict_has_def dict_keys_def)

lemma contract_members_Inr:
  assumes "distinct (map address xs)"
  shows "contract_members address f xs = Inr d \<longleftrightarrow>
    (\<exists>ys. list_all2 (\<lambda>x y. f x = Inr y) xs ys \<and> d = zip (map address xs) ys)"
  using assms by (auto simp: contract_members_eq res_bind_Inr_iff res_map_Inr)

lemma dict_values_zip: "length xs = length ys \<Longrightarrow> dict_values (zip xs ys) = ys"
  by (simp add: dict_values_def)

section \<open>One record at a time\<close>

lemma make_ratio_Inr: "make_ratio r = Inr s \<longleftrightarrow> s = r \<and> 0 < xr_numerator r \<and> 0 < xr_denominator r \<and>
    gcd (xr_numerator r) (xr_denominator r) = 1"
  by (auto simp: make_ratio_def)

lemma make_coordinate_Inr: "make_coordinate c = Inr d \<longleftrightarrow> d = c \<and> 0 \<le> co_segment c \<and> 0 \<le> co_microstep c"
  by (auto simp: make_coordinate_def)

lemma make_declaration_Inr: "make_declaration d = Inr e \<longleftrightarrow> e = d \<and> declaration_valid d"
  by (auto simp: make_declaration_def)

lemma require_compiled_bind [simp]:
  "compiled_address a \<Longrightarrow> res_bind (require_compiled_address f a) g = g a"
  by (simp add: require_compiled_address_def)

lemma compile_contract_domain: "contract_domain x = Inr y \<Longrightarrow> compile_domain y = Inr x"
  by (auto simp: contract_domain_def compile_domain_def make_compiled_domain_def make_domain_def make_ratio_Inr
      res_bind_Inr_iff split: if_splits)

lemma compile_contract_clock: "contract_clock x = Inr y \<Longrightarrow> compile_clock y = Inr x"
  by (auto simp: contract_clock_def compile_clock_def make_compiled_clock_def make_clock_def split: if_splits)

lemma compile_contract_mapping: "contract_mapping x = Inr y \<Longrightarrow> compile_mapping y = Inr x"
  by (auto simp: contract_mapping_def compile_mapping_def make_compiled_mapping_def make_mapping_def
      make_ratio_Inr res_bind_Inr_iff split: if_splits)

lemma compile_contract_policy: "contract_policy x = Inr y \<Longrightarrow> compile_policy y = Inr x"
  by (auto simp: contract_policy_def compile_policy_def make_compiled_policy_def make_policy_def
      make_ratio_Inr unit_ratio_def res_bind_Inr_iff split: if_splits)

lemma contract_coordinate_again:
  "contract_coordinate tick microstep = Inr c \<Longrightarrow>
     contract_coordinate (map_option co_tick c) (map_option co_microstep c) = Inr c"
  by (auto simp: contract_coordinate_def res_bind_Inr_iff make_coordinate_Inr split: option.splits)

text \<open>A constraint comes back with its microsteps made explicit; its contract is the same.\<close>

lemma compile_contract_constraint:
  assumes "contract_constraint x = Inr y"
  shows "\<exists>x'. compile_constraint y = Inr x' \<and> contract_constraint x' = Inr y \<and> ccn_address x' = ccn_address x"
proof -
  from assms obtain s e where se: "contract_coordinate (ccn_start_tick x) (ccn_start_microstep x) = Inr s"
      "contract_coordinate (ccn_end_tick x) (ccn_end_microstep x) = Inr e"
    and y: "make_constraint \<lparr>tc_address = ccn_address x, tc_kind = ccn_kind x, tc_clock = ccn_clock x,
         tc_subjects = ccn_subjects x, tc_start = s, tc_end = e, tc_duration = ccn_duration x,
         tc_cadence = ccn_cadence x, tc_description = ccn_description x\<rparr> = Inr y" (is "make_constraint ?y = _")
    by (auto simp: contract_constraint_def res_bind_Inr_iff)
  from y have y': "y = ?y" "compiled_address (ccn_address x)" "compiled_address (ccn_clock x)"
      "list_all compiled_address (ccn_subjects x)"
    by (auto simp: make_constraint_def split: if_splits)
  then have "\<exists>x'. compile_constraint y = Inr x' \<and> ccn_address x' = ccn_address x \<and>
      x' = x\<lparr>ccn_start_tick := map_option co_tick s, ccn_start_microstep := map_option co_microstep s,
             ccn_end_tick := map_option co_tick e, ccn_end_microstep := map_option co_microstep e\<rparr>"
    by (auto simp: compile_constraint_def make_compiled_constraint_def res_bind_Inr_iff res_all_Inr list_all_iff)
  moreover have "contract_constraint (x\<lparr>ccn_start_tick := map_option co_tick s, ccn_start_microstep := map_option co_microstep s,
             ccn_end_tick := map_option co_tick e, ccn_end_microstep := map_option co_microstep e\<rparr>) = Inr y"
    using y by (simp add: contract_constraint_def contract_coordinate_again [OF se(1)] contract_coordinate_again [OF se(2)])
  ultimately show ?thesis by blast
qed

section \<open>A whole model\<close>

lemma res_map_inverse:
  "list_all2 (\<lambda>x y. f x = Inr y) xs ys \<Longrightarrow> (\<And>x y. f x = Inr y \<Longrightarrow> g y = Inr x) \<Longrightarrow> res_map g ys = Inr xs"
  by (induction rule: list_all2_induct) simp_all

lemma res_map_inverse_ex:
  assumes "list_all2 (\<lambda>x y. f x = Inr y) xs ys"
    and "\<And>x y. f x = Inr y \<Longrightarrow> \<exists>x'. g y = Inr x' \<and> f x' = Inr y \<and> k x' = k x"
  shows "\<exists>xs'. res_map g ys = Inr xs' \<and> list_all2 (\<lambda>x y. f x = Inr y) xs' ys \<and> map k xs' = map k xs"
  using assms(1)
proof (induction rule: list_all2_induct)
  case Nil
  show ?case by simp
next
  case (Cons x xs y ys)
  moreover obtain x' where "g y = Inr x'" "f x' = Inr y" "k x' = k x" using assms(2) Cons(1) by blast
  ultimately show ?case by auto
qed

text \<open>What the contract of a model with distinct addresses consists of.\<close>

definition contract_parts :: "compiled_time_model \<Rightarrow> time_domain list \<Rightarrow> clock_declaration list \<Rightarrow>
    domain_mapping list \<Rightarrow> progression_policy list \<Rightarrow> temporal_constraint list \<Rightarrow> bool" where
  "contract_parts m ds cs ms ps ks \<longleftrightarrow>
     list_all2 (\<lambda>x y. contract_domain x = Inr y) (ctm_domains m) ds \<and>
     list_all2 (\<lambda>x y. contract_clock x = Inr y) (ctm_clocks m) cs \<and>
     list_all2 (\<lambda>x y. contract_mapping x = Inr y) (ctm_mappings m) ms \<and>
     list_all2 (\<lambda>x y. contract_policy x = Inr y) (ctm_policies m) ps \<and>
     list_all2 (\<lambda>x y. contract_constraint x = Inr y) (ctm_constraints m) ks"

definition assembled :: "compiled_time_model \<Rightarrow> time_domain list \<Rightarrow> clock_declaration list \<Rightarrow>
    domain_mapping list \<Rightarrow> progression_policy list \<Rightarrow> temporal_constraint list \<Rightarrow> time_declaration" where
  "assembled m ds cs ms ps ks =
     \<lparr>tm_domains = zip (map cdm_address (ctm_domains m)) ds, tm_clocks = zip (map cck_address (ctm_clocks m)) cs,
      tm_mappings = zip (map cmp_address (ctm_mappings m)) ms, tm_policies = zip (map cpl_address (ctm_policies m)) ps,
      tm_constraints = zip (map ccn_address (ctm_constraints m)) ks\<rparr>"

lemma assembled_values:
  assumes "contract_parts m ds cs ms ps ks"
  shows "dict_values (tm_domains (assembled m ds cs ms ps ks)) = ds"
    "dict_values (tm_clocks (assembled m ds cs ms ps ks)) = cs"
    "dict_values (tm_mappings (assembled m ds cs ms ps ks)) = ms"
    "dict_values (tm_policies (assembled m ds cs ms ps ks)) = ps"
    "dict_values (tm_constraints (assembled m ds cs ms ps ks)) = ks"
  using assms by (auto simp: contract_parts_def assembled_def dict_values_zip dest!: list_all2_lengthD)

lemma contract_model_Inr:
  assumes "distinct (compiled_addresses m)"
  shows "time_model_contract_model m = Inr (Some d) \<longleftrightarrow>
    \<not> (ctm_domains m = [] \<and> ctm_clocks m = []) \<and>
    (\<exists>ds cs ms ps ks. contract_parts m ds cs ms ps ks \<and> d = assembled m ds cs ms ps ks) \<and> declaration_valid d"
proof -
  from assms have "distinct (map cdm_address (ctm_domains m))" "distinct (map cck_address (ctm_clocks m))"
    "distinct (map cmp_address (ctm_mappings m))" "distinct (map cpl_address (ctm_policies m))"
    "distinct (map ccn_address (ctm_constraints m))"
    by (simp_all add: compiled_addresses_def)
  note members = this [THEN contract_members_Inr]
  show ?thesis
  proof (cases "ctm_domains m = [] \<and> ctm_clocks m = []")
    case False
    have "time_model_contract_model m = Inr (Some d) \<longleftrightarrow>
      (\<exists>D C M P K. contract_members cdm_address contract_domain (ctm_domains m) = Inr D \<and>
         contract_members cck_address contract_clock (ctm_clocks m) = Inr C \<and>
         contract_members cmp_address contract_mapping (ctm_mappings m) = Inr M \<and>
         contract_members cpl_address contract_policy (ctm_policies m) = Inr P \<and>
         contract_members ccn_address contract_constraint (ctm_constraints m) = Inr K \<and>
         d = \<lparr>tm_domains = D, tm_clocks = C, tm_mappings = M, tm_policies = P, tm_constraints = K\<rparr> \<and>
         declaration_valid d)"
      unfolding time_model_contract_model_def if_not_P [OF False] res_bind_Inr_iff make_declaration_Inr by blast
    with False show ?thesis unfolding members contract_parts_def assembled_def by blast
  qed (simp add: time_model_contract_model_def)
qed

end
