(* ===== verification/Time_Life.thy ===== *)
theory Time_Life
  imports Time_Compile
begin

text \<open>
  The coordinator over its reachable states: what a constructed coordinator knows, when a clock
  state is good, what \<open>_replace_context\<close> does to a good state, and an abstract machine with a
  superdense coordinate and a lifecycle state per clock that the commands implement.
\<close>

section \<open>Constructed coordinators\<close>

definition declared_clock :: "time_coordinator \<Rightarrow> string \<Rightarrow> compiled_clock \<Rightarrow> bool" where
  "declared_clock tc a k \<longleftrightarrow>
     cck_address k = a \<and> compiled_address a \<and> compiled_address (cck_domain k) \<and> cck_authority_ref k \<noteq> [] \<and>
     (\<exists>c. dict_get (tm_clocks (cr_declaration tc)) a = Some c \<and> contract_clock k = Inr c)"

definition declared_policies :: "time_declaration \<Rightarrow> (string, string) pydict" where
  "declared_policies d = foldl (\<lambda>m p. dict_set (gp_clock p) (gp_address p) m) [] (dict_values (tm_policies d))"

definition policies_declared :: "time_coordinator \<Rightarrow> bool" where
  "policies_declared tc \<longleftrightarrow>
     (\<forall>a p. dict_get (cr_policies tc) a = Some p \<longrightarrow> compiled_address (cpl_address p)) \<and>
     (\<forall>a. dict_get (declared_policies (cr_declaration tc)) a = map_option cpl_address (dict_get (cr_policies tc) a))"

definition clocks_declared :: "time_coordinator \<Rightarrow> bool" where
  "clocks_declared tc \<longleftrightarrow>
     wf_dict (cr_clocks tc) \<and> cr_clocks tc \<noteq> [] \<and>
     dict_keys (tm_clocks (cr_declaration tc)) = dict_keys (cr_clocks tc) \<and>
     (\<forall>a k. dict_get (cr_clocks tc) a = Some k \<longrightarrow> declared_clock tc a k)"

lemma policy_by_clock_Inr:
  assumes "policy_by_clock m = Inr ps"
  shows "ps = map (\<lambda>p. (cpl_clock p, p)) (ctm_policies m) \<and> distinct (map cpl_clock (ctm_policies m))"
proof -
  have "res_fold (\<lambda>policies p. if dict_has policies (cpl_clock p) then Inl e else Inr (dict_set (cpl_clock p) p policies)) d xs
      = Inr ps \<Longrightarrow> ps = d @ map (\<lambda>p. (cpl_clock p, p)) xs \<and> distinct (map cpl_clock xs) \<and>
        (\<forall>p \<in> set xs. \<not> dict_has d (cpl_clock p))" for e d xs
  proof (induction xs arbitrary: d)
    case (Cons p xs)
    then have fresh: "\<not> dict_has d (cpl_clock p)" by (auto split: if_splits)
    with Cons.prems have "res_fold (\<lambda>policies p. if dict_has policies (cpl_clock p) then Inl e
        else Inr (dict_set (cpl_clock p) p policies)) (d @ [(cpl_clock p, p)]) xs = Inr ps"
      by (simp add: dict_set_fresh)
    from Cons.IH [OF this] fresh show ?case by (auto simp: dict_has_def dict_keys_def image_iff)
  qed simp
  from this [of _ "[]"] assms show ?thesis unfolding policy_by_clock_def by blast
qed

lemma dict_get_zip_list_all2:
  assumes "list_all2 P xs ys" and "dict_get (map (\<lambda>x. (k x, x)) xs) a = Some x"
  shows "\<exists>y. dict_get (zip (map k xs) ys) a = Some y \<and> P x y"
  using assms by (induction rule: list_all2_induct) (auto simp: dict_get_Cons split: if_splits)

lemma dict_get_keyed: "dict_get (map (\<lambda>x. (k x, v x)) xs) a = Some y \<Longrightarrow> \<exists>x \<in> set xs. k x = a \<and> y = v x"
  by (induction xs) (auto simp: dict_get_Cons split: if_splits)

lemma dict_get_map_value:
  "dict_get (map (\<lambda>x. (k x, f (v x))) xs) a = map_option f (dict_get (map (\<lambda>x. (k x, v x)) xs) a)"
  by (induction xs) (simp_all add: dict_get_Cons)

lemma list_all2_in_left: "list_all2 P xs ys \<Longrightarrow> x \<in> set xs \<Longrightarrow> \<exists>y. P x y"
  by (induction rule: list_all2_induct) auto

lemma contract_policy_keeps:
  "contract_policy p = Inr q \<Longrightarrow> gp_clock q = cpl_clock p \<and> gp_address q = cpl_address p \<and> compiled_address (cpl_address p)"
  by (auto simp: contract_policy_def make_policy_def res_bind_Inr_iff split: if_splits)

lemma contract_clock_keeps:
  "contract_clock k = Inr c \<Longrightarrow> compiled_address (cck_address k) \<and> compiled_address (cck_domain k) \<and>
     cck_authority_ref k \<noteq> [] \<and> cd_domain c = cck_domain k \<and> cd_authority_kind c = cck_authority_kind k \<and>
     cd_authority_ref c = cck_authority_ref k"
  by (auto simp: contract_clock_def make_clock_def split: if_splits)

lemma make_coordinatorE:
  assumes "make_coordinator m = Inr tc" and "distinct (compiled_addresses m)"
  obtains ds cs ms ps ks where "contract_parts m ds cs ms ps ks" "cr_declaration tc = assembled m ds cs ms ps ks"
    "declaration_valid (cr_declaration tc)" "cr_model tc = m"
    "cr_clocks tc = map (\<lambda>c. (cck_address c, c)) (ctm_clocks m)"
    "cr_policies tc = map (\<lambda>p. (cpl_clock p, p)) (ctm_policies m)" "distinct (map cpl_clock (ctm_policies m))"
proof -
  from assms(1) obtain d P where d: "time_model_contract_model m = Inr (Some d)" and P: "policy_by_clock m = Inr P"
    and tc: "tc = \<lparr>cr_model = m, cr_declaration = d, cr_clocks = clock_by_address m, cr_policies = P\<rparr>"
    by (auto simp: make_coordinator_def res_bind_Inr_iff split: option.splits)
  from assms(2) have "distinct (map cck_address (ctm_clocks m))" by (simp add: compiled_addresses_def)
  then have "clock_by_address m = map (\<lambda>c. (cck_address c, c)) (ctm_clocks m)"
    unfolding clock_by_address_def by (rule foldl_dict_set_distinct)
  with that tc d policy_by_clock_Inr [OF P] contract_model_Inr [OF assms(2), of d] show thesis by auto
qed

lemma coordinator_clocks:
  assumes "make_coordinator m = Inr tc" and "distinct (compiled_addresses m)"
  shows "clocks_declared tc"
proof -
  from assms obtain ds cs ms ps ks where parts: "contract_parts m ds cs ms ps ks"
    and d: "cr_declaration tc = assembled m ds cs ms ps ks" "declaration_valid (cr_declaration tc)"
    and clocks: "cr_clocks tc = map (\<lambda>c. (cck_address c, c)) (ctm_clocks m)"
    by (rule make_coordinatorE)
  from parts have l: "list_all2 (\<lambda>x y. contract_clock x = Inr y) (ctm_clocks m) cs"
    by (simp add: contract_parts_def)
  have "declared_clock tc a k" if "dict_get (cr_clocks tc) a = Some k" for a k
  proof -
    from dict_get_zip_list_all2 [OF l that [unfolded clocks]] obtain c where
      "dict_get (tm_clocks (cr_declaration tc)) a = Some c" "contract_clock k = Inr c"
      by (auto simp: d(1) assembled_def)
    moreover from that have "cck_address k = a" unfolding clocks by (auto dest: dict_get_keyed)
    ultimately show ?thesis using contract_clock_keeps by (auto simp: declared_clock_def)
  qed
  moreover from d parts have "cr_clocks tc \<noteq> []"
    by (auto simp: declaration_valid_def assembled_def clocks)
  ultimately show ?thesis using assms(2) l
    by (auto simp: clocks_declared_def clocks wf_dict_def dict_keys_def d(1) assembled_def compiled_addresses_def
        o_def dest: list_all2_lengthD)
qed

lemma coordinator_policies:
  assumes "make_coordinator m = Inr tc" and "distinct (compiled_addresses m)"
  shows "policies_declared tc"
proof -
  from assms obtain ds cs ms ps ks where parts: "contract_parts m ds cs ms ps ks"
    and d: "cr_declaration tc = assembled m ds cs ms ps ks"
    and policies: "cr_policies tc = map (\<lambda>p. (cpl_clock p, p)) (ctm_policies m)" "distinct (map cpl_clock (ctm_policies m))"
    by (rule make_coordinatorE)
  from parts have l: "list_all2 (\<lambda>x y. contract_policy x = Inr y) (ctm_policies m) ps"
    by (simp add: contract_parts_def)
  then have keys: "map gp_clock ps = map cpl_clock (ctm_policies m)"
    and pairs: "map (\<lambda>q. (gp_clock q, gp_address q)) ps = map (\<lambda>p. (cpl_clock p, cpl_address p)) (ctm_policies m)"
    by (induction rule: list_all2_induct) (auto dest: contract_policy_keeps)
  have "declared_policies (cr_declaration tc) = map (\<lambda>p. (cpl_clock p, cpl_address p)) (ctm_policies m)"
    unfolding declared_policies_def d assembled_values [OF parts] pairs [symmetric]
    by (rule foldl_dict_set_distinct) (simp add: keys policies(2))
  moreover have "compiled_address (cpl_address p)" if "dict_get (cr_policies tc) a = Some p" for a p
    using that l unfolding policies(1) by (auto dest!: dict_get_keyed dest: list_all2_in_left contract_policy_keeps)
  ultimately show ?thesis by (simp add: policies_declared_def policies(1) dict_get_map_value [of cpl_clock cpl_address "\<lambda>p. p"])
qed

section \<open>Histories\<close>

lemma history_loop_snoc:
  "validate_history_loop n p (h @ [e]) \<longleftrightarrow> validate_history_loop n p h \<and> ce_sequence e = n + int (length h) \<and>
     (case (if h = [] then p else Some (last h)) of
        None \<Rightarrow> True
      | Some q \<Rightarrow> ce_previous e = Some (ce_resulting q) \<and> validate_clock_transition q e)"
  by (induction h arbitrary: n p) auto

lemma history_loop_last:
  assumes "validate_history_loop n p h" and "h \<noteq> []"
  shows "ce_sequence (last h) = n + int (length h) - 1"
  using assms by (cases h rule: rev_cases) (simp_all add: history_loop_snoc)

definition move_ok :: "clock_event_kind \<Rightarrow> time_coordinate \<Rightarrow> time_coordinate \<Rightarrow> bool" where
  "move_ok kind prior next' \<longleftrightarrow>
     (case kind of
        ADVANCE \<Rightarrow> co_segment next' = co_segment prior \<and>
          (co_tick prior < co_tick next' \<or> co_tick prior = co_tick next' \<and> co_microstep prior < co_microstep next')
      | PAUSE \<Rightarrow> next' = prior
      | RESUME \<Rightarrow> next' = prior
      | CLOCK_INITIALIZE \<Rightarrow> False
      | _ \<Rightarrow> co_segment next' = co_segment prior + 1)"

lemma validate_clock_transition_move:
  "validate_clock_transition p e = move_ok (ce_kind e) (ce_resulting p) (ce_resulting e)"
  by (simp add: validate_clock_transition_def move_ok_def Let_def split: clock_event_kind.splits)

definition state_after :: "clock_event_kind \<Rightarrow> clock_lifecycle" where
  "state_after kind = (if kind = PAUSE then CLOCK_PAUSED else CLOCK_RUNNING)"

definition moved_clock :: "clock_state \<Rightarrow> clock_event_kind \<Rightarrow> time_coordinate \<Rightarrow> clock_state" where
  "moved_clock c kind x =
     c\<lparr>ck_state := state_after kind, ck_coordinate := x, ck_sequence := ck_sequence c + 1,
       ck_history := ck_history c @ [\<lparr>ce_sequence = ck_sequence c + 1, ce_kind = kind,
         ce_previous = Some (ck_coordinate c), ce_resulting = x, ce_state = state_after kind\<rparr>]\<rparr>"

definition good_clock :: "clock_state \<Rightarrow> bool" where
  "good_clock c \<longleftrightarrow> clock_state_ok c \<and> make_coordinate (ck_coordinate c) = Inr (ck_coordinate c)"

lemma moved_clock_ok:
  assumes "clock_state_ok c"
  shows "clock_state_ok (moved_clock c kind x) \<longleftrightarrow> move_ok kind (ck_coordinate c) x"
proof -
  let ?h = "ck_history c"
  from assms have h: "?h \<noteq> []" "validate_history_loop 0 None ?h" "ck_sequence c = ce_sequence (last ?h)"
      "ck_coordinate c = ce_resulting (last ?h)"
    by (simp_all add: clock_state_ok_def validate_clock_history_def)
  with history_loop_last [of 0 None ?h] have "ck_sequence c + 1 = int (length ?h)" by simp
  with assms h show ?thesis
    by (simp add: clock_state_ok_def validate_clock_history_def moved_clock_def history_loop_snoc
        validate_clock_transition_move)
qed

section \<open>Good states\<close>

definition clock_bound :: "time_coordinator \<Rightarrow> string \<Rightarrow> clock_state \<Rightarrow> bool" where
  "clock_bound tc a c \<longleftrightarrow>
     ck_address c = a \<and> good_clock c \<and> ck_policy c = map_option cpl_address (dict_get (cr_policies tc) a) \<and>
     (\<exists>k. dict_get (cr_clocks tc) a = Some k \<and> ck_domain c = cck_domain k \<and>
          ck_authority_kind c = cck_authority_kind k \<and> ck_authority_ref c = cck_authority_ref k)"

definition good_time :: "(string \<Rightarrow> string) \<Rightarrow> time_coordinator \<Rightarrow> time_state \<Rightarrow> bool" where
  "good_time sha256 tc st \<longleftrightarrow>
     ts_digest st = canonical_digest sha256 (cr_declaration tc) \<and> make_time_state st = Inr st \<and>
     dict_keys (ts_clocks st) = dict_keys (cr_clocks tc) \<and> (\<forall>(a, c) \<in> set (ts_clocks st). clock_bound tc a c)"

lemma good_time_get:
  assumes "good_time sha256 tc st" and "dict_get (ts_clocks st) a = Some c"
  shows "clock_bound tc a c"
  using assms by (auto simp: good_time_def dest: dict_get_Some_in)

lemma good_time_has:
  assumes "good_time sha256 tc st"
  shows "dict_has (ts_clocks st) a \<longleftrightarrow> dict_has (cr_clocks tc) a"
  using assms by (simp add: good_time_def dict_has_def)

section \<open>Initialisation\<close>

definition first_clock :: "time_coordinator \<Rightarrow> string \<Rightarrow> compiled_clock \<Rightarrow> clock_state" where
  "first_clock tc a k =
     (let zero = \<lparr>co_segment = 0, co_tick = 0, co_microstep = 0\<rparr> in
      \<lparr>ck_address = a, ck_domain = cck_domain k, ck_policy = map_option cpl_address (dict_get (cr_policies tc) a),
       ck_authority_kind = cck_authority_kind k, ck_authority_ref = cck_authority_ref k, ck_state = CLOCK_RUNNING,
       ck_coordinate = zero, ck_sequence = 0,
       ck_history = [\<lparr>ce_sequence = 0, ce_kind = CLOCK_INITIALIZE, ce_previous = None, ce_resulting = zero,
                      ce_state = CLOCK_RUNNING\<rparr>]\<rparr>)"

lemma first_clock_bound:
  assumes "clocks_declared tc" and "policies_declared tc" and "dict_get (cr_clocks tc) a = Some k"
  shows "clock_bound tc a (first_clock tc a k)"
proof -
  from assms have "declared_clock tc a k" by (simp add: clocks_declared_def)
  moreover from assms(2) have "case map_option cpl_address (dict_get (cr_policies tc) a) of None \<Rightarrow> True
      | Some p \<Rightarrow> compiled_address p"
    by (auto simp: policies_declared_def split: option.splits)
  ultimately show ?thesis using assms(3)
    by (simp add: clock_bound_def good_clock_def clock_state_ok_def validate_clock_history_def first_clock_def
        declared_clock_def make_coordinate_def Let_def split: option.splits)
qed

lemma initial_clock_eq:
  assumes "clocks_declared tc" and "policies_declared tc" and "dict_get (cr_clocks tc) a = Some k"
  shows "initial_clock tc a k = Inr (first_clock tc a k)"
proof -
  have ok: "make_clock_state (first_clock tc a k) = Inr (first_clock tc a k)"
    using first_clock_bound [OF assms] by (simp add: clock_bound_def good_clock_def make_clock_state_def)
  then show ?thesis
    by (simp add: initial_clock_def clock_transition_def reading_coordinate_def make_coordinate_def
        make_clock_event_def first_clock_def Let_def)
qed

lemma make_time_state_Inr: "make_time_state st = Inr st' \<longleftrightarrow> st' = st \<and> is_sha256_digest (ts_digest st) \<and>
    ts_clocks st \<noteq> [] \<and> list_all compiled_address (dict_keys (ts_clocks st)) \<and> address_map ck_address (ts_clocks st)"
  by (auto simp: make_time_state_def)

text \<open>Every declared clock starts running at the origin of its first segment.\<close>

definition first_state :: "(string \<Rightarrow> string) \<Rightarrow> time_coordinator \<Rightarrow> time_state" where
  "first_state sha256 tc =
     \<lparr>ts_digest = canonical_digest sha256 (cr_declaration tc),
      ts_clocks = map (\<lambda>(a, k). (a, first_clock tc a k)) (cr_clocks tc)\<rparr>"

lemma first_state_good:
  assumes "clocks_declared tc" and "policies_declared tc" and "is_sha256_digest (canonical_digest sha256 (cr_declaration tc))"
  shows "good_time sha256 tc (first_state sha256 tc)"
proof -
  have bound: "clock_bound tc a (first_clock tc a k)" if "(a, k) \<in> set (cr_clocks tc)" for a k
    using assms(1) that first_clock_bound [OF assms(1,2)] by (auto simp: clocks_declared_def dict_get_eq_Some)
  have keys: "dict_keys (ts_clocks (first_state sha256 tc)) = dict_keys (cr_clocks tc)"
    by (simp add: first_state_def dict_keys_def o_def case_prod_beta)
  have "list_all compiled_address (dict_keys (cr_clocks tc))"
    using assms(1) by (auto simp: clocks_declared_def list_all_iff declared_clock_def dict_has_def [symmetric]
        dest!: dict_has_get)
  moreover have "address_map ck_address (ts_clocks (first_state sha256 tc))"
    using bound by (auto simp: address_map_def first_state_def list_all_iff clock_bound_def)
  moreover have "\<forall>(a, c) \<in> set (ts_clocks (first_state sha256 tc)). clock_bound tc a c"
    using bound by (auto simp: first_state_def)
  ultimately show ?thesis using assms(1,3) keys
    by (auto simp: good_time_def make_time_state_Inr first_state_def clocks_declared_def)
qed

lemma initialize_time_eq:
  assumes "clocks_declared tc" and "policies_declared tc" and "is_sha256_digest (canonical_digest sha256 (cr_declaration tc))"
    and "snapshot_time sn = None"
  shows "initialize_time sha256 tc sn = Inr (with_time_state (first_state sha256 tc) sn)"
proof -
  have step: "(\<lambda>contexts (address, clock). res_bind (initial_clock tc address clock) (\<lambda>c. Inr (dict_set address c contexts)))
      = (\<lambda>d x. res_bind (case_prod (initial_clock tc) x) (\<lambda>y. Inr (dict_set (fst x) y d)))"
    by (auto simp: fun_eq_iff)
  have "distinct (map fst (cr_clocks tc))"
    using assms(1) by (simp add: clocks_declared_def wf_dict_def dict_keys_def)
  moreover have "res_map (case_prod (initial_clock tc)) (cr_clocks tc) =
      Inr (map (case_prod (first_clock tc)) (cr_clocks tc))"
    using initial_clock_eq [OF assms(1,2)] assms(1)
    by (intro res_map_total) (auto simp: clocks_declared_def dict_get_eq_Some)
  moreover have "zip (map fst (cr_clocks tc)) (map (case_prod (first_clock tc)) (cr_clocks tc)) =
      ts_clocks (first_state sha256 tc)"
    by (simp add: first_state_def zip_map_map zip_same_conv_map case_prod_beta)
  moreover have "make_time_state \<lparr>ts_digest = canonical_digest sha256 (cr_declaration tc),
      ts_clocks = ts_clocks (first_state sha256 tc)\<rparr> = Inr (first_state sha256 tc)"
    using first_state_good [OF assms(1-3)] by (simp add: good_time_def first_state_def)
  ultimately show ?thesis
    unfolding initialize_time_def step using assms(4) by (simp add: res_fold_dict dict_has_def dict_keys_def)
qed

end
