(* ===== verification/Time_Machine.thy ===== *)
theory Time_Machine
  imports Time_Life
begin

text \<open>
  The abstract machine of shared time: a clock is at a superdense coordinate and runs or is
  paused, and a command moves it or is refused. The coordinator's commands implement it on every
  good state, and keep states good.
\<close>

section \<open>The machine\<close>

fun clock_step ::
  "time_coordinator \<Rightarrow> clock_command \<Rightarrow> time_coordinate \<times> clock_lifecycle \<Rightarrow> (time_coordinate \<times> clock_lifecycle) option" where
  "clock_step tc (AdvanceClock a ticks microstep) (x, s) =
     (case dict_get (cr_policies tc) a of
        None \<Rightarrow> None
      | Some p \<Rightarrow>
          if s = CLOCK_RUNNING \<and> 0 \<le> ticks \<and> 0 \<le> microstep \<and> (ticks \<noteq> 0 \<or> microstep \<noteq> 0) \<and>
             (cpl_mode p = STEPPED \<longrightarrow> cpl_step p = Some ticks)
          then Some (\<lparr>co_segment = co_segment x, co_tick = co_tick x + ticks,
                      co_microstep = (if ticks = 0 then co_microstep x + microstep else microstep)\<rparr>, CLOCK_RUNNING)
          else None)"
| "clock_step tc (PauseClock a) (x, s) =
     (case dict_get (cr_clocks tc) a of
        None \<Rightarrow> None
      | Some k \<Rightarrow> if s = CLOCK_RUNNING \<and> cck_pause k then Some (x, CLOCK_PAUSED) else None)"
| "clock_step tc (ResumeClock a) (x, s) = (if s = CLOCK_PAUSED then Some (x, CLOCK_RUNNING) else None)"
| "clock_step tc (JumpClock a tick microstep) (x, s) =
     (case dict_get (cr_clocks tc) a of
        None \<Rightarrow> None
      | Some k \<Rightarrow>
          if s = CLOCK_RUNNING \<and> cck_jump k \<and> 0 \<le> microstep
          then Some (\<lparr>co_segment = co_segment x + 1, co_tick = tick, co_microstep = microstep\<rparr>, CLOCK_RUNNING)
          else None)"
| "clock_step tc (ResetClock a replay) (x, s) =
     (case (dict_get (cr_clocks tc) a, dict_get (cr_policies tc) a) of
        (Some k, Some p) \<Rightarrow>
          (case lifecycle_behavior replay p of
             Some preserve \<Rightarrow>
               if cck_reset k
               then Some (\<lparr>co_segment = co_segment x + 1, co_tick = (if preserve then co_tick x else 0),
                           co_microstep = (if preserve then co_microstep x else 0)\<rparr>, CLOCK_RUNNING)
               else None
           | None \<Rightarrow> None)
      | _ \<Rightarrow> None)"

fun command_kind :: "clock_command \<Rightarrow> clock_event_kind" where
  "command_kind (AdvanceClock a ticks microstep) = ADVANCE"
| "command_kind (PauseClock a) = PAUSE"
| "command_kind (ResumeClock a) = RESUME"
| "command_kind (JumpClock a tick microstep) = JUMP"
| "command_kind (ResetClock a replay) = (if replay then REPLAY else CLOCK_RESET)"

definition clock_view :: "clock_state \<Rightarrow> time_coordinate \<times> clock_lifecycle" where
  "clock_view c = (ck_coordinate c, ck_state c)"

definition clock_views :: "'rest snapshot \<Rightarrow> string \<Rightarrow> (time_coordinate \<times> clock_lifecycle) option" where
  "clock_views sn a =
     (case snapshot_time sn of None \<Rightarrow> None | Some st \<Rightarrow> map_option clock_view (dict_get (ts_clocks st) a))"

definition machine_step ::
  "time_coordinator \<Rightarrow> clock_command \<Rightarrow> (string \<Rightarrow> (time_coordinate \<times> clock_lifecycle) option) \<Rightarrow>
     (string \<Rightarrow> (time_coordinate \<times> clock_lifecycle) option) option" where
  "machine_step tc command views =
     (case views (command_clock command) of
        None \<Rightarrow> None
      | Some v \<Rightarrow> map_option (\<lambda>v'. views(command_clock command \<mapsto> v')) (clock_step tc command v))"

section \<open>What replacing a context does\<close>

definition move_clock :: "'rest snapshot \<Rightarrow> time_state \<Rightarrow> clock_state \<Rightarrow> clock_event_kind \<Rightarrow> time_coordinate \<Rightarrow> 'rest snapshot" where
  "move_clock sn st c kind x =
     with_time_state (st\<lparr>ts_clocks := dict_set (ck_address c) (moved_clock c kind x) (ts_clocks st)\<rparr>) sn"

lemma snapshot_time_with [simp]: "snapshot_time (with_time_state st sn) = Some st"
  by (simp add: with_time_state_def)

lemma dict_set_members: "p \<in> set (dict_set k v d) \<Longrightarrow> p = (k, v) \<or> p \<in> set d"
  by (induction d) (auto simp: dict_set_def split: if_splits)

lemma move_ok_state: "clock_bound tc a c \<Longrightarrow> move_ok kind (ck_coordinate c) x \<Longrightarrow> make_coordinate x = Inr x \<Longrightarrow>
    clock_bound tc a (moved_clock c kind x)"
  using moved_clock_ok [of c kind x] by (auto simp: clock_bound_def good_clock_def moved_clock_def)

lemma moved_state_good:
  assumes "good_time sha256 tc st" and "dict_get (ts_clocks st) a = Some c"
    and "move_ok kind (ck_coordinate c) x" and "make_coordinate x = Inr x"
  shows "good_time sha256 tc (st\<lparr>ts_clocks := dict_set a (moved_clock c kind x) (ts_clocks st)\<rparr>)"
proof -
  note bound = good_time_get [OF assms(1,2)]
  note moved = move_ok_state [OF bound assms(3,4)]
  from assms(2) have has: "dict_has (ts_clocks st) a" by (rule dict_get_Some_has)
  then have keys: "dict_keys (dict_set a (moved_clock c kind x) (ts_clocks st)) = dict_keys (ts_clocks st)"
    by (simp add: dict_keys_set)
  have members: "p = (a, moved_clock c kind x) \<or> p \<in> set (ts_clocks st)"
    if "p \<in> set (dict_set a (moved_clock c kind x) (ts_clocks st))" for p
    using that by (rule dict_set_members)
  have "address_map ck_address (dict_set a (moved_clock c kind x) (ts_clocks st))"
    using assms(1) moved members by (fastforce simp: address_map_def list_all_iff good_time_def make_time_state_Inr clock_bound_def)
  moreover have "\<forall>(b, k) \<in> set (dict_set a (moved_clock c kind x) (ts_clocks st)). clock_bound tc b k"
    using assms(1) moved members by (fastforce simp: good_time_def)
  moreover have "dict_set a (moved_clock c kind x) (ts_clocks st) \<noteq> []"
    using keys assms(2) by (auto simp: dict_keys_def)
  ultimately show ?thesis using assms(1) keys by (auto simp: good_time_def make_time_state_Inr)
qed

lemma context_of_bound:
  assumes "good_time sha256 tc st" and "snapshot_time sn = Some st" and "dict_get (ts_clocks st) a = Some c"
  shows "clock_context tc sn a = Inr c"
    and "clock_reading_of tc sn a = Inr \<lparr>rd_clock = a, rd_segment = co_segment (ck_coordinate c),
      rd_tick = co_tick (ck_coordinate c), rd_microstep = co_microstep (ck_coordinate c)\<rparr>"
proof -
  show ctx: "clock_context tc sn a = Inr c"
    using good_time_get [OF assms(1,3)] assms(2,3)
    by (auto simp: clock_context_def find_clock_def clock_bound_def)
  then show "clock_reading_of tc sn a = Inr \<lparr>rd_clock = a, rd_segment = co_segment (ck_coordinate c),
      rd_tick = co_tick (ck_coordinate c), rd_microstep = co_microstep (ck_coordinate c)\<rparr>"
    by (simp add: clock_reading_of_def)
qed

lemma clock_state_ok_state:
  "clock_state_ok (c\<lparr>ck_state := s, ck_coordinate := x, ck_sequence := n, ck_history := h @ [e]\<rparr>) \<Longrightarrow> s = ce_state e"
  by (simp add: clock_state_ok_def validate_clock_history_def)

lemma replace_context_eq:
  assumes good: "good_time sha256 tc st" and sn: "snapshot_time sn = Some st" and c: "dict_get (ts_clocks st) a = Some c"
    and r: "rd_clock r = a"
  shows "replace_context tc sn c kind r s =
    (if make_coordinate (reading_coordinate r) \<noteq> Inr (reading_coordinate r) then Inl (invalid_model ''TimeCoordinateModel'')
     else if move_ok kind (ck_coordinate c) (reading_coordinate r) \<and> s = state_after kind
          then Inr (move_clock sn st c kind (reading_coordinate r))
          else Inl (invalid_model ''RuntimeClockStateModel''))"
proof -
  let ?x = "reading_coordinate r"
  let ?e = "\<lparr>ce_sequence = ck_sequence c + 1, ce_kind = kind, ce_previous = Some (ck_coordinate c), ce_resulting = ?x,
      ce_state = state_after kind\<rparr>"
  let ?c = "c\<lparr>ck_state := s, ck_coordinate := ?x, ck_sequence := ck_sequence c + 1, ck_history := ck_history c @ [?e]\<rparr>"
  from good_time_get [OF good c] have bound: "clock_bound tc a c" and ok: "clock_state_ok c"
    and coordinate: "make_coordinate (ck_coordinate c) = Inr (ck_coordinate c)" and address: "ck_address c = a"
    by (simp_all add: clock_bound_def good_clock_def)
  have previous: "reading_coordinate \<lparr>rd_clock = a, rd_segment = co_segment (ck_coordinate c),
      rd_tick = co_tick (ck_coordinate c), rd_microstep = co_microstep (ck_coordinate c)\<rparr> = ck_coordinate c"
    by (simp add: reading_coordinate_def)
  show ?thesis
  proof (cases "make_coordinate ?x = Inr ?x")
    case False
    then have "make_coordinate ?x = Inl (invalid_model ''TimeCoordinateModel'')" by (simp add: make_coordinate_def split: if_splits)
    with False show ?thesis
      by (simp add: replace_context_def r context_of_bound(2) [OF good sn c] clock_transition_def previous coordinate)
  next
    case True
    from ok have "0 \<le> ck_sequence c" by (simp add: clock_state_ok_def)
    then have event: "clock_transition (ck_sequence c + 1) kind r (Some \<lparr>rd_clock = a, rd_segment = co_segment (ck_coordinate c),
      rd_tick = co_tick (ck_coordinate c), rd_microstep = co_microstep (ck_coordinate c)\<rparr>) = Inr ?e"
      by (simp add: clock_transition_def previous coordinate True make_clock_event_def state_after_def)
    have state: "make_clock_state ?c = (if move_ok kind (ck_coordinate c) ?x \<and> s = state_after kind
        then Inr (moved_clock c kind ?x) else Inl (invalid_model ''RuntimeClockStateModel''))"
    proof (cases "s = state_after kind")
      case True
      then have "?c = moved_clock c kind ?x" by (simp add: moved_clock_def)
      with True moved_clock_ok [OF ok, of kind ?x] show ?thesis by (simp add: make_clock_state_def)
    next
      case False
      with clock_state_ok_state [where c = c and s = s and x = ?x and n = "ck_sequence c + 1" and h = "ck_history c" and e = ?e] show ?thesis
        by (auto simp: make_clock_state_def)
    qed
    have same: "\<lparr>ck_address = ck_address c, ck_domain = ck_domain c, ck_policy = ck_policy c,
        ck_authority_kind = ck_authority_kind c, ck_authority_ref = ck_authority_ref c, ck_state = s,
        ck_coordinate = ?x, ck_sequence = ck_sequence c + 1, ck_history = ck_history c @ [?e]\<rparr> = ?c"
      by (cases c) simp
    have time: "make_time_state \<lparr>ts_digest = ts_digest st, ts_clocks = dict_set a (moved_clock c kind ?x) (ts_clocks st)\<rparr>
        = Inr (st\<lparr>ts_clocks := dict_set a (moved_clock c kind ?x) (ts_clocks st)\<rparr>)"
      if "move_ok kind (ck_coordinate c) ?x"
      using moved_state_good [OF good c that True] by (cases st) (simp add: good_time_def)
    show ?thesis
      unfolding replace_context_def r context_of_bound(2) [OF good sn c] res_bind.simps event True same state sn
      by (simp add: time move_clock_def address)
  qed
qed

section \<open>The commands implement the machine\<close>

lemma good_coordinate:
  assumes "good_time sha256 tc st" and "dict_get (ts_clocks st) a = Some c"
  shows "0 \<le> co_segment (ck_coordinate c)" and "0 \<le> co_microstep (ck_coordinate c)"
    and "\<exists>k. dict_get (cr_clocks tc) a = Some k"
  using good_time_get [OF assms] by (auto simp: clock_bound_def good_clock_def make_coordinate_Inr)

lemma coordinate_members [simp]:
  "\<lparr>co_segment = co_segment x, co_tick = co_tick x, co_microstep = co_microstep x\<rparr> = (x :: time_coordinate)"
  by (cases x) simp

definition command_agrees :: "time_coordinator \<Rightarrow> 'rest snapshot \<Rightarrow> time_state \<Rightarrow> clock_state \<Rightarrow> clock_command \<Rightarrow> bool" where
  "command_agrees tc sn st c command \<longleftrightarrow>
     (case clock_step tc command (clock_view c) of
        None \<Rightarrow> \<not> is_ok (run_command tc sn command)
      | Some (x, s) \<Rightarrow> s = state_after (command_kind command) \<and> move_ok (command_kind command) (ck_coordinate c) x \<and>
          make_coordinate x = Inr x \<and> run_command tc sn command = Inr (move_clock sn st c (command_kind command) x))"

lemmas machine_defs = command_agrees_def clock_view_def state_after_def reading_coordinate_def make_coordinate_def move_ok_def

lemma run_command_agrees:
  assumes good: "good_time sha256 tc st" and sn: "snapshot_time sn = Some st"
    and c: "dict_get (ts_clocks st) (command_clock command) = Some c"
  shows "command_agrees tc sn st c command"
proof (cases command)
  case (AdvanceClock a ticks microstep)
  with c have "dict_get (ts_clocks st) a = Some c" by simp
  note facts = context_of_bound [OF good sn this] replace_context_eq [OF good sn this] good_coordinate(1,2) [OF good this]
  then show ?thesis
    by (auto simp: AdvanceClock advance_clock_def machine_defs split: option.splits)
next
  case (PauseClock a)
  with c have "dict_get (ts_clocks st) a = Some c" by simp
  note facts = context_of_bound [OF good sn this] replace_context_eq [OF good sn this] good_coordinate [OF good this]
  then show ?thesis
    by (auto simp: PauseClock pause_clock_def find_clock_def machine_defs)
next
  case (ResumeClock a)
  with c have "dict_get (ts_clocks st) a = Some c" by simp
  note facts = context_of_bound [OF good sn this] replace_context_eq [OF good sn this] good_coordinate [OF good this]
  then show ?thesis
    by (auto simp: ResumeClock resume_clock_def machine_defs)
next
  case (JumpClock a tick microstep)
  with c have "dict_get (ts_clocks st) a = Some c" by simp
  note facts = context_of_bound [OF good sn this] replace_context_eq [OF good sn this] good_coordinate [OF good this]
  then show ?thesis
    by (cases "ck_state c") (auto simp: JumpClock jump_clock_def find_clock_def machine_defs)
next
  case (ResetClock a replay)
  with c have "dict_get (ts_clocks st) a = Some c" by simp
  note facts = context_of_bound [OF good sn this] replace_context_eq [OF good sn this] good_coordinate [OF good this]
  then show ?thesis
    by (cases replay)
      (auto simp: ResetClock reset_clock_def find_clock_def machine_defs split: option.splits)
qed

text \<open>A command for a clock that is not declared is refused.\<close>

lemma run_command_unknown:
  assumes "good_time sha256 tc st" and "snapshot_time sn = Some st"
    and "dict_get (ts_clocks st) (command_clock command) = None"
  shows "\<not> is_ok (run_command tc sn command)"
proof -
  from assms(1,3) have "dict_get (cr_clocks tc) (command_clock command) = None"
    by (simp add: dict_get_None_iff good_time_has)
  then show ?thesis
    by (cases command) (simp_all add: advance_clock_def pause_clock_def resume_clock_def jump_clock_def reset_clock_def
        clock_context_def find_clock_def)
qed

lemma run_command_Inr:
  assumes "good_time sha256 tc st" and "snapshot_time sn = Some st" and "run_command tc sn command = Inr sn'"
  obtains c x where "dict_get (ts_clocks st) (command_clock command) = Some c"
    "clock_step tc command (clock_view c) = Some (x, state_after (command_kind command))"
    "move_ok (command_kind command) (ck_coordinate c) x" "make_coordinate x = Inr x"
    "ck_address c = command_clock command" "sn' = move_clock sn st c (command_kind command) x"
proof (cases "dict_get (ts_clocks st) (command_clock command)")
  case None
  with run_command_unknown [OF assms(1,2) None] assms(3) show thesis by simp
next
  case (Some c)
  from run_command_agrees [OF assms(1,2) Some] assms(3) that [OF Some] good_time_get [OF assms(1) Some]
  show thesis by (auto simp: command_agrees_def clock_bound_def split: option.splits)
qed

lemma move_clock_views:
  assumes "snapshot_time sn = Some st" and "ck_address c = a"
  shows "clock_views (move_clock sn st c kind x) = (clock_views sn)(a \<mapsto> (x, state_after kind))"
  using assms by (auto simp: fun_eq_iff clock_views_def move_clock_def clock_view_def moved_clock_def)

lemma run_command_machine:
  assumes good: "good_time sha256 tc st" and sn: "snapshot_time sn = Some st"
  shows "case run_command tc sn command of
      Inl e \<Rightarrow> machine_step tc command (clock_views sn) = None
    | Inr sn' \<Rightarrow> machine_step tc command (clock_views sn) = Some (clock_views sn')"
proof (cases "dict_get (ts_clocks st) (command_clock command)")
  case None
  with run_command_unknown [OF good sn None] sn show ?thesis
    by (cases "run_command tc sn command") (auto simp: machine_step_def clock_views_def)
next
  case (Some c)
  have view: "clock_views sn (command_clock command) = Some (clock_view c)" by (simp add: clock_views_def sn Some)
  from good_time_get [OF good Some] have a: "ck_address c = command_clock command" by (simp add: clock_bound_def)
  show ?thesis
  proof (cases "clock_step tc command (clock_view c)")
    case None
    with run_command_agrees [OF good sn Some] view show ?thesis
      by (cases "run_command tc sn command") (simp_all add: command_agrees_def machine_step_def)
  next
    case (Some v)
    with run_command_agrees [OF good sn \<open>dict_get _ _ = _\<close>] view show ?thesis
      by (cases v) (simp add: command_agrees_def machine_step_def move_clock_views [OF sn a])
  qed
qed

section \<open>Reachable states\<close>

inductive time_reached :: "(string \<Rightarrow> string) \<Rightarrow> time_coordinator \<Rightarrow> 'rest snapshot \<Rightarrow> bool"
  for sha256 :: "string \<Rightarrow> string" and tc :: time_coordinator where
  time_initialized: "initialize_time sha256 tc sn = Inr sn' \<Longrightarrow> time_reached sha256 tc sn'"
| time_commanded: "time_reached sha256 tc sn \<Longrightarrow> run_command tc sn command = Inr sn' \<Longrightarrow> time_reached sha256 tc sn'"
| time_untouched: "time_reached sha256 tc sn \<Longrightarrow> snapshot_time sn' = snapshot_time sn \<Longrightarrow> time_reached sha256 tc sn'"

lemma reached_good:
  assumes "time_reached sha256 tc sn" and "clocks_declared tc" and "policies_declared tc"
  shows "\<exists>st. snapshot_time sn = Some st \<and> good_time sha256 tc st"
  using assms
proof (induction rule: time_reached.induct)
  case (time_initialized sn sn')
  then have digest: "is_sha256_digest (canonical_digest sha256 (cr_declaration tc))" and none: "snapshot_time sn = None"
    by (auto simp: initialize_time_def res_bind_Inr_iff make_time_state_Inr split: if_splits)
  from time_initialized initialize_time_eq [OF _ _ digest none] first_state_good [OF _ _ digest] show ?case by auto
next
  case (time_commanded sn command sn')
  then obtain st where st: "snapshot_time sn = Some st" "good_time sha256 tc st" by blast
  from run_command_Inr [OF st(2,1) time_commanded.hyps(2)] obtain c x where
    c: "dict_get (ts_clocks st) (command_clock command) = Some c" and
    x: "move_ok (command_kind command) (ck_coordinate c) x" "make_coordinate x = Inr x" and
    a: "ck_address c = command_clock command" and sn': "sn' = move_clock sn st c (command_kind command) x"
    by blast
  from moved_state_good [OF st(2) c x] show ?case by (simp add: sn' move_clock_def a)
next
  case (time_untouched sn sn')
  then show ?case by simp
qed

end
