(* ===== verification/Time_Claims.thy ===== *)
theory Time_Claims
  imports Time_Machine Episode_Claims
begin

text \<open>
  What shared time promises: published states pass every readback check, histories only run
  forward, commands implement the abstract machine, and the reset coordinated with the
  participants happens as a whole or not at all.
\<close>

section \<open>Histories\<close>

lemma history_loop_nth:
  assumes "validate_history_loop n p h" and "Suc k < length h"
  shows "move_ok (ce_kind (h ! Suc k)) (ce_resulting (h ! k)) (ce_resulting (h ! Suc k))"
  using assms
proof (induction h arbitrary: n p k)
  case (Cons e h)
  show ?case
  proof (cases k)
    case 0
    with Cons.prems show ?thesis by (cases h) (auto simp: validate_clock_transition_move)
  next
    case (Suc k')
    with Cons.prems have "validate_history_loop (n + 1) (Some e) h" "Suc k' < length h" by simp_all
    from Cons.IH [OF this] Suc show ?thesis by simp
  qed
qed simp

definition discontinuity :: "clock_event_kind \<Rightarrow> bool" where
  "discontinuity kind \<longleftrightarrow> kind \<in> {JUMP, CLOCK_RESET, REPLAY}"

definition standstill :: "clock_event_kind \<Rightarrow> bool" where
  "standstill kind \<longleftrightarrow> kind \<in> {PAUSE, RESUME}"

lemma coordinate_less_trans: "coordinate_less x y \<Longrightarrow> coordinate_less y z \<Longrightarrow> coordinate_less x z"
  by (auto simp: coordinate_less_def)

lemma move_ok_forward:
  assumes "move_ok kind x y"
  shows "if standstill kind then y = x else coordinate_less x y"
    and "co_segment y = co_segment x + (if discontinuity kind then 1 else 0)"
  using assms by (cases kind; auto simp: move_ok_def standstill_def discontinuity_def coordinate_less_def)+

definition moves_between :: "clock_event list \<Rightarrow> nat \<Rightarrow> nat \<Rightarrow> clock_event_kind list" where
  "moves_between h i j = map (\<lambda>k. ce_kind (h ! k)) [Suc i..<Suc j]"

text \<open>
  A clock history that passes its constructor only runs forward: between two of its events the
  superdense coordinate stands still exactly when there were only pauses and resumes, otherwise it
  is later in the lexicographic order of segment, tick and microstep, and the segment counts the
  jumps, resets and replays.
\<close>

lemma clock_histories_run_forward:
  assumes "make_clock_state c = Inr c'" and "i < j" and "j < length (ck_history c)"
  shows "let x = ce_resulting (ck_history c ! i); y = ce_resulting (ck_history c ! j);
      moves = moves_between (ck_history c) i j in
    (if list_all standstill moves then y = x else coordinate_less x y) \<and>
    co_segment y = co_segment x + int (length (filter discontinuity moves))"
  using assms(2,3)
proof (induction j)
  case (Suc j)
  let ?h = "ck_history c"
  from assms(1) have loop: "validate_history_loop 0 None ?h"
    by (auto simp: make_clock_state_def clock_state_ok_def validate_clock_history_def split: if_splits)
  note step = move_ok_forward [OF history_loop_nth [OF loop Suc.prems(2)]]
  have moves: "moves_between ?h i (Suc j) = moves_between ?h i j @ [ce_kind (?h ! Suc j)]"
    using Suc.prems(1) by (simp add: moves_between_def)
  show ?case
  proof (cases "i = j")
    case True
    then have "moves_between ?h i (Suc j) = [ce_kind (?h ! Suc j)]" by (simp add: moves_between_def)
    with True step show ?thesis by (simp add: Let_def split: if_splits)
  next
    case False
    with Suc step show ?thesis
      by (auto simp: Let_def moves intro: coordinate_less_trans split: if_splits)
  qed
qed simp

section \<open>Readback\<close>

lemma good_state_readback:
  assumes "good_time sha256 tc st" and "clocks_declared tc" and "policies_declared tc"
  shows "validate_time_runtime_state sha256 (cr_declaration tc) st = Inr ()"
proof -
  let ?d = "cr_declaration tc"
  have keys: "dict_keys (ts_clocks st) = dict_keys (cr_clocks tc)" "dict_keys (tm_clocks ?d) = dict_keys (cr_clocks tc)"
    using assms by (simp_all add: good_time_def clocks_declared_def)
  have bound: "\<exists>declared. dict_get (tm_clocks ?d) a = Some declared \<and> ck_domain c = cd_domain declared \<and>
      ck_authority_kind c = cd_authority_kind declared \<and> ck_authority_ref c = cd_authority_ref declared \<and>
      ck_policy c = dict_get (declared_policies ?d) a" if "(a, c) \<in> set (ts_clocks st)" for a c
  proof -
    from assms(1) that have "clock_bound tc a c" by (auto simp: good_time_def)
    then obtain k where k: "dict_get (cr_clocks tc) a = Some k" "ck_domain c = cck_domain k"
        "ck_authority_kind c = cck_authority_kind k" "ck_authority_ref c = cck_authority_ref k"
      and policy: "ck_policy c = map_option cpl_address (dict_get (cr_policies tc) a)"
      by (auto simp: clock_bound_def)
    from k(1) assms(2) obtain declared where "dict_get (tm_clocks ?d) a = Some declared" "contract_clock k = Inr declared"
      by (auto simp: clocks_declared_def declared_clock_def)
    with k policy assms(3) contract_clock_keeps show ?thesis by (fastforce simp: policies_declared_def)
  qed
  from assms(1) have "ts_digest st = canonical_digest sha256 ?d" by (simp add: good_time_def)
  then show ?thesis
    by (simp add: validate_time_runtime_state_def keys Let_def res_all_Inr declared_policies_def [symmetric])
      (clarify, drule bound, clarsimp)
qed

lemma move_transition_ok:
  assumes "good_time sha256 tc st" and "clocks_declared tc" and "dict_get (ts_clocks st) a = Some c"
  shows "validate_time_runtime_transition (Some st)
    (Some (st\<lparr>ts_clocks := dict_set a (moved_clock c kind x) (ts_clocks st)\<rparr>)) = Inr ()"
proof -
  have wf: "wf_dict (ts_clocks st)" using assms(1,2) by (simp add: wf_dict_def good_time_def clocks_declared_def)
  have get: "dict_get (ts_clocks st) b = Some k" if "(b, k) \<in> set (ts_clocks st)" for b k
    using that by (simp add: dict_get_eq_Some [OF wf])
  have "a \<in> set (dict_keys (ts_clocks st))"
    using dict_get_Some_has [OF assms(3)] by (simp add: dict_has_def)
  then have "insert a (set (dict_keys (ts_clocks st))) = set (dict_keys (ts_clocks st))" by blast
  then show ?thesis
    using assms(3) by (simp add: validate_time_runtime_transition_def res_all_Inr)
      (clarify, drule get, clarsimp simp: moved_clock_def)
qed

section \<open>A small deployment of shared time\<close>

definition sim_clock :: string where "sim_clock = ''time.clock.sim''"

definition demo_model :: compiled_time_model where
  "demo_model =
     \<lparr>ctm_domains =
        [\<lparr>cdm_address = ''time.domain.sim'', cdm_kind = SIMULATED, cdm_numerator = 1, cdm_denominator = 10,
          cdm_epoch = SCENARIO_START, cdm_visibility = PARTICIPANT_VISIBLE, cdm_description = ''sim''\<rparr>,
         \<lparr>cdm_address = ''time.domain.wall'', cdm_kind = WALL_CLOCK, cdm_numerator = 1, cdm_denominator = 1,
          cdm_epoch = UNIX, cdm_visibility = RUNTIME_ONLY, cdm_description = ''wall''\<rparr>],
      ctm_clocks =
        [\<lparr>cck_address = sim_clock, cck_domain = ''time.domain.sim'', cck_authority_kind = RUNTIME_CLOCK,
          cck_authority_ref = ''runtime'', cck_monotonicity = MAY_JUMP, cck_pause = True, cck_reset = True,
          cck_jump = True, cck_description = ''clock''\<rparr>],
      ctm_mappings =
        [\<lparr>cmp_address = ''time.mapping.wall'', cmp_source = ''time.domain.sim'', cmp_target = ''time.domain.wall'',
          cmp_kind = AFFINE_RATIONAL, cmp_numerator = 1, cmp_denominator = 10, cmp_offset = 3,
          cmp_description = ''map''\<rparr>],
      ctm_policies =
        [\<lparr>cpl_address = ''time.policy.sim'', cpl_clock = sim_clock, cpl_mode = STEPPED, cpl_numerator = 1,
          cpl_denominator = 1, cpl_synchronization = SYNC_BARRIER, cpl_step = Some 5, cpl_drift = None,
          cpl_reset = NEW_SEGMENT_PRESERVE_VALUE, cpl_replay = RESTORE_RECORDED_ADVANCES,
          cpl_description = ''steps''\<rparr>],
      ctm_constraints =
        [\<lparr>ccn_address = ''time.constraint.end'', ccn_kind = DEADLINE, ccn_clock = sim_clock,
          ccn_subjects = [''sdl.nodes.web''], ccn_start_tick = None, ccn_start_microstep = None,
          ccn_end_tick = Some 50, ccn_end_microstep = None, ccn_duration = None, ccn_cadence = None,
          ccn_description = ''deadline''\<rparr>]\<rparr>"

definition demo_hash :: "string \<Rightarrow> string" where
  "demo_hash text = replicate 64 (CHR ''0'')"

definition demo_coordinator :: time_coordinator where
  "demo_coordinator = projr (make_coordinator demo_model)"

lemma demo_constructed: "make_compiled_time_model demo_model = Inr demo_model"
  by code_simp

lemma demo_coordinates: "make_coordinator demo_model = Inr demo_coordinator"
proof -
  have "is_ok (make_coordinator demo_model)" by code_simp
  then show ?thesis by (auto simp: demo_coordinator_def is_ok_iff)
qed

definition demo_time :: "'rest snapshot \<Rightarrow> 'rest snapshot" where
  "demo_time sn = with_time_state (first_state demo_hash demo_coordinator) sn"

lemma constructed_coordinator:
  assumes "make_compiled_time_model m = Inr m" and "make_coordinator m = Inr tc"
  shows "clocks_declared tc" and "policies_declared tc"
  using assms coordinator_clocks [of m tc] coordinator_policies [of m tc]
  by (simp_all add: make_compiled_time_model_def res_bind_Inr_iff)

lemma demo_time_reached:
  assumes "snapshot_time sn = None"
  shows "time_reached demo_hash demo_coordinator (demo_time sn)"
proof -
  have "is_sha256_digest (canonical_digest demo_hash (cr_declaration demo_coordinator))"
    by (simp add: canonical_digest_def demo_hash_def is_sha256_digest_def is_lower_hex_def list_all_iff)
  from time_initialized [OF initialize_time_eq [OF constructed_coordinator [OF demo_constructed demo_coordinates] this assms]]
  show ?thesis by (simp add: demo_time_def)
qed

lemma demo_tables:
  "cr_clocks demo_coordinator = [(sim_clock, hd (ctm_clocks demo_model))]"
  "cr_policies demo_coordinator = [(sim_clock, hd (ctm_policies demo_model))]"
proof -
  have "distinct (compiled_addresses demo_model)"
    using demo_constructed by (simp add: make_compiled_time_model_def res_bind_Inr_iff)
  then have "cr_clocks demo_coordinator = map (\<lambda>c. (cck_address c, c)) (ctm_clocks demo_model) \<and>
    cr_policies demo_coordinator = map (\<lambda>p. (cpl_clock p, p)) (ctm_policies demo_model)"
    by (rule make_coordinatorE [OF demo_coordinates]) simp
  then show "cr_clocks demo_coordinator = [(sim_clock, hd (ctm_clocks demo_model))]"
    "cr_policies demo_coordinator = [(sim_clock, hd (ctm_policies demo_model))]"
    by (simp_all add: demo_model_def)
qed

lemma demo_views:
  "clock_views (demo_time sn) sim_clock = Some (\<lparr>co_segment = 0, co_tick = 0, co_microstep = 0\<rparr>, CLOCK_RUNNING)"
  by (simp add: clock_views_def demo_time_def first_state_def demo_tables dict_get_Cons clock_view_def first_clock_def Let_def)

text \<open>A participant is live beside the clock.\<close>

definition demo_both :: "unit snapshot" where
  "demo_both = demo_time \<lparr>es_results = es_results (fst demo_live), es_history = es_history (fst demo_live),
     es_rest = \<lparr>tp_state = None, tp_rest = ()\<rparr>\<rparr>"

lemma demo_both_reached: "time_reached demo_hash demo_coordinator demo_both"
  unfolding demo_both_def by (rule demo_time_reached) simp

definition demo_runtime :: time_runtime where
  "demo_runtime = \<lparr>tr_declaration = Some (cr_declaration demo_coordinator), tr_coordinator = Some demo_coordinator\<rparr>"

section \<open>Properties\<close>

text \<open>
  C24. The runtime rebuilds compiled metadata from the contract of constructed metadata, and the
  rebuilt metadata has the same contract: the domains, clocks, mappings and policies come back
  unchanged, and the digest the runtime computes is the digest of the contract it was given.
\<close>

theorem time_contract_roundtrip:
  assumes "make_compiled_time_model m = Inr m" and "time_model_contract_model m = Inr (Some d)"
  shows "\<exists>m'. compiled_time_model_from_contract d = Inr m' \<and> time_model_contract_model m' = Inr (Some d) \<and>
    ctm_domains m' = ctm_domains m \<and> ctm_clocks m' = ctm_clocks m \<and> ctm_mappings m' = ctm_mappings m \<and>
    ctm_policies m' = ctm_policies m"
proof -
  from assms(1) have distinct: "distinct (compiled_addresses m)"
    by (auto simp: make_compiled_time_model_def res_bind_Inr_iff)
  from assms(2) contract_model_Inr [OF this] obtain ds cs ms ps ks where
    parts: "contract_parts m ds cs ms ps ks" and d: "d = assembled m ds cs ms ps ks"
    and ok: "declaration_valid d" "\<not> (ctm_domains m = [] \<and> ctm_clocks m = [])" by blast
  note l = parts [unfolded contract_parts_def]
  obtain ks' where ks': "res_map compile_constraint ks = Inr ks'" "map ccn_address ks' = map ccn_address (ctm_constraints m)"
      "list_all2 (\<lambda>x y. contract_constraint x = Inr y) ks' ks"
    using res_map_inverse_ex [of contract_constraint _ ks compile_constraint ccn_address]
      compile_contract_constraint l by blast
  let ?m' = "m\<lparr>ctm_constraints := ks'\<rparr>"
  have distinct': "distinct (compiled_addresses ?m')"
    using distinct ks'(2) by (simp add: compiled_addresses_def)
  have same: "\<lparr>ctm_domains = ctm_domains m, ctm_clocks = ctm_clocks m, ctm_mappings = ctm_mappings m,
      ctm_policies = ctm_policies m, ctm_constraints = ks'\<rparr> = ?m'"
    by (cases m) simp
  have inverse: "res_map compile_domain ds = Inr (ctm_domains m)" "res_map compile_clock cs = Inr (ctm_clocks m)"
      "res_map compile_mapping ms = Inr (ctm_mappings m)" "res_map compile_policy ps = Inr (ctm_policies m)"
    using l res_map_inverse compile_contract_domain compile_contract_clock compile_contract_mapping
      compile_contract_policy by blast+
  have "compiled_time_model_from_contract d = make_compiled_time_model ?m'"
    by (simp add: compiled_time_model_from_contract_def d assembled_values [OF parts] inverse ks'(1) same)
  moreover have "time_model_contract_model ?m' = Inr (Some d)"
  proof -
    have "contract_parts ?m' ds cs ms ps ks" using l ks'(3) by (simp add: contract_parts_def)
    moreover have "d = assembled ?m' ds cs ms ps ks" using ks'(2) by (simp add: d assembled_def)
    moreover have "\<not> (ctm_domains ?m' = [] \<and> ctm_clocks ?m' = [])" using ok(2) by simp
    ultimately show ?thesis unfolding contract_model_Inr [OF distinct'] using ok(1) by blast
  qed
  ultimately show ?thesis using distinct' by (auto simp: make_compiled_time_model_def)
qed

theorem time_contract_roundtrip_witness:
  "\<exists>d m'. time_model_contract_model demo_model = Inr (Some d) \<and> compiled_time_model_from_contract d = Inr m' \<and>
     time_model_contract_model m' = Inr (Some d)"
proof -
  from demo_coordinates obtain d where "time_model_contract_model demo_model = Inr (Some d)"
    by (auto simp: make_coordinator_def res_bind_Inr_iff split: option.splits)
  with time_contract_roundtrip [OF demo_constructed this] show ?thesis by blast
qed

text \<open>
  C21. Whatever commands the coordinator has executed on whatever the rest of the snapshot became,
  the published time state passes the readback check against the declaration, every clock passes
  its own constructor, and the next command is an admitted transition: identities are kept and
  histories only grow.
\<close>

theorem time_states_pass_readback:
  assumes "make_compiled_time_model m = Inr m" and "make_coordinator m = Inr tc" and "time_reached sha256 tc sn"
  shows "\<exists>st. snapshot_time sn = Some st \<and> validate_time_runtime_state sha256 (cr_declaration tc) st = Inr () \<and>
    list_all (\<lambda>c. make_clock_state c = Inr c) (dict_values (ts_clocks st)) \<and>
    (\<forall>command sn'. run_command tc sn command = Inr sn' \<longrightarrow>
       validate_time_runtime_transition (Some st) (snapshot_time sn') = Inr ())"
proof -
  note declared = constructed_coordinator [OF assms(1,2)]
  from reached_good [OF assms(3) declared] obtain st where st: "snapshot_time sn = Some st" "good_time sha256 tc st"
    by blast
  have "list_all (\<lambda>c. make_clock_state c = Inr c) (dict_values (ts_clocks st))"
    using st(2) by (auto simp: list_all_iff dict_values_def good_time_def clock_bound_def good_clock_def make_clock_state_def)
  moreover have "validate_time_runtime_transition (Some st) (snapshot_time sn') = Inr ()"
    if "run_command tc sn command = Inr sn'" for command sn'
    using run_command_Inr [OF st(2,1) that] move_transition_ok [OF st(2) declared(1)] by (metis move_clock_def snapshot_time_with)
  ultimately show ?thesis using st good_state_readback [OF st(2) declared] by blast
qed

theorem time_states_pass_readback_witness:
  "\<exists>st. snapshot_time demo_both = Some st \<and>
     validate_time_runtime_state demo_hash (cr_declaration demo_coordinator) st = Inr ()"
  using time_states_pass_readback [OF demo_constructed demo_coordinates demo_both_reached] by blast

text \<open>
  C22. The coordinator implements the machine of running and paused clocks: on a reached snapshot a
  command is refused exactly when the machine refuses it, and otherwise leaves the clocks where the
  machine puts them. A jump of a paused clock, which the code means to allow, is always refused.
\<close>

theorem clock_commands_refine_machine:
  assumes "make_compiled_time_model m = Inr m" and "make_coordinator m = Inr tc" and "time_reached sha256 tc sn"
  shows "case run_command tc sn command of
      Inl e \<Rightarrow> machine_step tc command (clock_views sn) = None
    | Inr sn' \<Rightarrow> machine_step tc command (clock_views sn) = Some (clock_views sn')"
  using reached_good [OF assms(3) constructed_coordinator [OF assms(1,2)]] run_command_machine by blast

theorem clock_commands_refine_machine_witness:
  "\<exists>sn'. run_command demo_coordinator demo_both (AdvanceClock sim_clock 5 2) = Inr sn' \<and>
     clock_views sn' sim_clock = Some (\<lparr>co_segment = 0, co_tick = 5, co_microstep = 2\<rparr>, CLOCK_RUNNING)"
proof -
  have "machine_step demo_coordinator (AdvanceClock sim_clock 5 2) (clock_views demo_both) =
      Some ((clock_views demo_both)(sim_clock \<mapsto> (\<lparr>co_segment = 0, co_tick = 5, co_microstep = 2\<rparr>, CLOCK_RUNNING)))"
    by (simp add: machine_step_def demo_both_def demo_views demo_tables dict_get_Cons demo_model_def)
  with clock_commands_refine_machine [OF demo_constructed demo_coordinates demo_both_reached,
      of "AdvanceClock sim_clock 5 2"]
  obtain sn' where "run_command demo_coordinator demo_both (AdvanceClock sim_clock 5 2) = Inr sn'"
    "clock_views sn' = (clock_views demo_both)(sim_clock \<mapsto> (\<lparr>co_segment = 0, co_tick = 5, co_microstep = 2\<rparr>, CLOCK_RUNNING))"
    by (auto split: sum.splits)
  then show ?thesis by simp
qed

text \<open>A history of three events, with a pause and a jump after it was resumed.\<close>

definition demo_event :: "int \<Rightarrow> clock_event_kind \<Rightarrow> time_coordinate option \<Rightarrow> time_coordinate \<Rightarrow> clock_event" where
  "demo_event n kind previous x =
     \<lparr>ce_sequence = n, ce_kind = kind, ce_previous = previous, ce_resulting = x, ce_state = state_after kind\<rparr>"

definition demo_history :: "clock_event list" where
  "demo_history =
     (let x = \<lparr>co_segment = 0, co_tick = 0, co_microstep = 0\<rparr>; y = \<lparr>co_segment = 1, co_tick = - 4, co_microstep = 0\<rparr> in
      [demo_event 0 CLOCK_INITIALIZE None x, demo_event 1 PAUSE (Some x) x, demo_event 2 RESUME (Some x) x,
       demo_event 3 JUMP (Some x) y])"

definition demo_clock :: clock_state where
  "demo_clock =
     \<lparr>ck_address = sim_clock, ck_domain = ''time.domain.sim'', ck_policy = None, ck_authority_kind = RUNTIME_CLOCK,
      ck_authority_ref = ''runtime'', ck_state = CLOCK_RUNNING,
      ck_coordinate = \<lparr>co_segment = 1, co_tick = - 4, co_microstep = 0\<rparr>, ck_sequence = 3, ck_history = demo_history\<rparr>"

lemma clock_histories_run_forward_witness:
  "coordinate_less (ce_resulting (demo_history ! 1)) (ce_resulting (demo_history ! 3)) \<and>
   ce_resulting (demo_history ! 2) = ce_resulting (demo_history ! 0)"
proof -
  have made: "make_clock_state demo_clock = Inr demo_clock" by code_simp
  have h: "ck_history demo_clock = demo_history" by (simp add: demo_clock_def)
  have "list_all standstill (moves_between demo_history 0 2)" "\<not> list_all standstill (moves_between demo_history 1 3)"
    by code_simp+
  with clock_histories_run_forward [OF made, of 1 3] clock_histories_run_forward [OF made, of 0 2]
  show ?thesis unfolding h by (simp add: Let_def demo_history_def)
qed

section \<open>The coordinated reset\<close>

lemma episodes_ignore_rest:
  fixes sn :: "'r episode_snapshot" and sn' :: "'q episode_snapshot"
  assumes "es_results sn' = es_results sn" and "es_history sn' = es_history sn"
  shows "episode_sound ft sn' \<longleftrightarrow> episode_sound ft sn" and "phase_of ft sn' a = phase_of ft sn a"
  using assms by (simp_all add: episode_sound_def phase_of_def)

lemma build_and_apply_rest:
  "build_and_apply sn a s events replace rt = (Inr r, rt') \<Longrightarrow> es_rest (er_snapshot r) = es_rest sn"
  by (auto simp: build_and_apply_def apply_episode_def Let_def res_bind_Inr_iff split: sum.splits prod.splits)

lemma reset_episode_rest:
  assumes "reset_episode ft now q sn rt = (Inr r, rt')"
  shows "es_rest (er_snapshot r) = es_rest sn"
  using assms
  by (auto simp: reset_episode_def renew_episode_def Let_def reject_episode_def live_predecessor_def
      split: sum.splits prod.splits option.splits if_splits dest: build_and_apply_rest)

lemma reset_loop_rest:
  assumes "reset_loop ft sn checkpoint requests working diagnostics changed rt = (Inr r, rt')" and "er_success r"
  shows "es_rest (er_snapshot r) = es_rest working \<and> list_all compiled_address (er_changed r)"
  using assms
proof (induction requests arbitrary: working diagnostics changed rt)
  case Nil
  then show ?case by (auto simp: res_bind_Inr_iff res_all_Inr list_all_iff)
next
  case (Cons q requests)
  obtain now n where q: "q = (now, n)" by fastforce
  from Cons.prems q obtain result rt1 where step: "reset_episode ft now n working rt = (Inr result, rt1)"
    and rest: "reset_loop ft sn checkpoint requests (er_snapshot result) (diagnostics @ er_diagnostics result)
      (changed @ er_changed result) rt1 = (Inr r, rt')"
    by (auto split: sum.splits prod.splits if_splits)
  from Cons.IH [OF rest Cons.prems(2)] reset_episode_rest [OF step] show ?case by simp
qed

lemma reset_many_rest:
  assumes "reset_many ft requests sn rt = (Inr r, rt')" and "er_success r"
  shows "es_rest (er_snapshot r) = es_rest sn \<and> list_all compiled_address (er_changed r)"
  using assms reset_loop_rest [of ft sn rt requests sn "[]" "[]" rt r rt']
  by (auto simp: reset_many_def reject_episode_def split: if_splits)

lemma runtime_control_Inr:
  assumes "runtime_control command sn tr = Inr timed" and "tr_coordinator tr = Some tc"
  obtains sn' where "run_command tc sn command = Inr sn'"
    "timed = \<lparr>er_success = True, er_snapshot = sn', er_diagnostics = [], er_changed = [command_clock command]\<rparr>"
    "compiled_address (command_clock command)"
  using assms that
  by (auto simp: runtime_control_def require_coordinator_def time_result_def res_bind_Inr_iff split: option.splits)

lemma move_clock_rest:
  "es_results (move_clock sn st c kind x) = es_results sn" "es_history (move_clock sn st c kind x) = es_history sn"
  by (simp_all add: move_clock_def with_time_state_def)

lemma coordinated_success:
  assumes "runtime_control (ResetClock address replay) sn tr = Inr timed" and "tr_coordinator tr = Some tc"
    and "reset_many ft requests (er_snapshot timed) rt = (Inr r, rt')" and "er_success r"
  shows "\<exists>x. reset_with_participants ft address replay requests sn tr rt = (Inr x, rt') \<and> cx_success x \<and>
    cx_snapshot x = er_snapshot r"
proof -
  have "er_changed timed = [address]" "compiled_address address"
    by (rule runtime_control_Inr [OF assms(1,2)], simp)+
  moreover from reset_many_rest [OF assms(3,4)] have "list_all compiled_address (er_changed r)" by simp
  ultimately have "res_all (\<lambda>a. res_bind (require_compiled_address ''changed address'' a) (\<lambda>_. Inr ()))
      (fromkeys (er_changed timed @ er_changed r)) = Inr ()"
    by (intro res_all_compiled list_all_fromkeys) simp
  with assms(4) show ?thesis by (simp add: reset_with_participants_def assms(1,3) Let_def)
qed

lemma coordinated_outcome:
  assumes good: "good_time sha256 tc st" "snapshot_time sn = Some st" and tr: "tr_coordinator tr = Some tc"
    and sound: "episode_sound ft sn"
    and timed: "runtime_control (ResetClock address replay) sn tr = Inr timed"
  shows "case reset_with_participants ft address replay requests sn tr rt of
      (Inl e, rt') \<Rightarrow> rt' = rt
    | (Inr r, rt') \<Rightarrow>
        if cx_success r
        then machine_step tc (ResetClock address replay) (clock_views sn) = Some (clock_views (cx_snapshot r)) \<and>
             all_reset ft (batch_addresses requests) sn (cx_snapshot r)
        else cx_snapshot r = sn \<and> cx_changed r = [] \<and> rt' = rt"
proof -
  from runtime_control_Inr [OF timed tr] obtain sn1 where
    run: "run_command tc sn (ResetClock address replay) = Inr sn1" and
    t: "timed = \<lparr>er_success = True, er_snapshot = sn1, er_diagnostics = [], er_changed = [address]\<rparr>"
      "compiled_address address" by auto
  from run_command_machine [OF good, of "ResetClock address replay"] run
  have step: "machine_step tc (ResetClock address replay) (clock_views sn) = Some (clock_views sn1)" by simp
  from run_command_Inr [OF good run] obtain c x kind where "sn1 = move_clock sn st c kind x" by metis
  then have same: "es_results sn1 = es_results sn" "es_history sn1 = es_history sn" by (simp_all add: move_clock_rest)
  then have sound1: "episode_sound ft sn1" using sound episodes_ignore_rest(1) by blast
  obtain out rt' where many: "reset_many ft requests sn1 rt = (out, rt')" by fastforce
  from reset_many_outcome [OF sound1, of rt requests]
  consider "undone sn1 rt (out, rt')" | "batch_done ft (batch_addresses requests) sn1 (out, rt')"
    unfolding many by blast
  then show ?thesis
  proof cases
    case 1
    then show ?thesis
      by (auto simp: reset_with_participants_def timed t many undone_def Let_def split: sum.splits)
  next
    case 2
    then obtain r where r: "out = Inr r" "er_success r" "all_reset ft (batch_addresses requests) sn1 (er_snapshot r)"
      by (auto simp: batch_done_def split: sum.splits)
    from reset_many_rest [OF many [unfolded r(1)] r(2)] have "es_rest (er_snapshot r) = es_rest sn1" by simp
    then have "clock_views (er_snapshot r) = clock_views sn1" by (auto simp: clock_views_def fun_eq_iff)
    moreover have "all_reset ft (batch_addresses requests) sn (er_snapshot r)"
      using r(3) unfolding all_reset_def episodes_ignore_rest(2) [OF same] .
    moreover obtain y where "reset_with_participants ft address replay requests sn tr rt = (Inr y, rt')"
      "cx_success y" "cx_snapshot y = er_snapshot r"
      using coordinated_success [OF timed tr, of ft requests rt r rt'] many r(1,2) t by auto
    ultimately show ?thesis by (simp add: step)
  qed
qed

text \<open>
  C23. The reset coordinated with the participants happens as a whole or not at all: on success the
  clock is where the machine's reset puts it and every listed participant has started its next
  episode, all others being where they were; a failure returns the snapshot it was given and an
  exception publishes none, and both leave the participant runtime as it was.
\<close>

theorem coordinated_reset_is_atomic:
  assumes "make_compiled_time_model m = Inr m" and "make_coordinator m = Inr tc" and "time_reached sha256 tc sn"
    and "tr_coordinator tr = Some tc" and "episode_sound ft sn"
  shows "case reset_with_participants ft address replay requests sn tr rt of
      (Inl e, rt') \<Rightarrow> rt' = rt
    | (Inr r, rt') \<Rightarrow>
        if cx_success r
        then machine_step tc (ResetClock address replay) (clock_views sn) = Some (clock_views (cx_snapshot r)) \<and>
             all_reset ft (batch_addresses requests) sn (cx_snapshot r)
        else cx_snapshot r = sn \<and> cx_changed r = [] \<and> rt' = rt"
proof (cases "runtime_control (ResetClock address replay) sn tr")
  case (Inl e)
  then show ?thesis by (simp add: reset_with_participants_def)
next
  case (Inr timed)
  from reached_good [OF assms(3) constructed_coordinator [OF assms(1,2)]] obtain st where
    "snapshot_time sn = Some st" "good_time sha256 tc st" by blast
  from coordinated_outcome [OF this(2,1) assms(4,5) Inr] show ?thesis .
qed

lemma machine_step_at:
  "machine_step tc command views = Some views' \<Longrightarrow>
     \<exists>v v'. views (command_clock command) = Some v \<and> clock_step tc command v = Some v' \<and>
       views' (command_clock command) = Some v'"
  by (auto simp: machine_step_def split: option.splits)

lemma demo_batch: "case fst (reset_many demo_floats [(''t1'', demo_reset (Some ''second''))]
      \<lparr>es_results = es_results (fst demo_live), es_history = es_history (fst demo_live), es_rest = z\<rparr> (snd demo_live)) of
    Inl e \<Rightarrow> False | Inr r \<Rightarrow> er_success r"
  by code_simp

lemma demo_timed:
  "\<exists>timed. runtime_control (ResetClock sim_clock False) demo_both demo_runtime = Inr timed \<and>
     es_results (er_snapshot timed) = es_results (fst demo_live) \<and> es_history (er_snapshot timed) = es_history (fst demo_live)"
proof -
  from reached_good [OF demo_both_reached constructed_coordinator [OF demo_constructed demo_coordinates]]
  obtain st where st: "good_time demo_hash demo_coordinator st" "snapshot_time demo_both = Some st" by blast
  have "machine_step demo_coordinator (ResetClock sim_clock False) (clock_views demo_both) \<noteq> None"
    by (simp add: machine_step_def demo_both_def demo_views demo_tables dict_get_Cons demo_model_def lifecycle_behavior_def)
  with run_command_machine [OF st, of "ResetClock sim_clock False"] obtain sn1 where
    run: "run_command demo_coordinator demo_both (ResetClock sim_clock False) = Inr sn1"
    by (auto split: sum.splits)
  from run_command_Inr [OF st run] obtain c x kind where "sn1 = move_clock demo_both st c kind x" by metis
  then have "es_results sn1 = es_results (fst demo_live)" "es_history sn1 = es_history (fst demo_live)"
    by (simp_all add: move_clock_rest demo_both_def demo_time_def with_time_state_def)
  moreover have "compiled_address sim_clock" by code_simp
  ultimately show ?thesis using run
    by (simp add: runtime_control_def require_coordinator_def demo_runtime_def time_result_def)
qed

theorem coordinated_reset_is_atomic_witness:
  "\<exists>r rt'. reset_with_participants demo_floats sim_clock False [(''t1'', demo_reset (Some ''second''))] demo_both
       demo_runtime (snd demo_live) = (Inr r, rt') \<and> cx_success r \<and>
     clock_views (cx_snapshot r) sim_clock = Some (\<lparr>co_segment = 1, co_tick = 0, co_microstep = 0\<rparr>, CLOCK_RUNNING)"
proof -
  have sound: "episode_sound demo_floats demo_both"
    using reached_sound [OF demo_reached] episodes_ignore_rest(1) [of demo_both "fst demo_live"]
    by (simp add: demo_both_def demo_time_def with_time_state_def)
  have tr: "tr_coordinator demo_runtime = Some demo_coordinator" by (simp add: demo_runtime_def)
  from demo_timed obtain timed where timed: "runtime_control (ResetClock sim_clock False) demo_both demo_runtime = Inr timed"
    and same: "es_results (er_snapshot timed) = es_results (fst demo_live)"
      "es_history (er_snapshot timed) = es_history (fst demo_live)" by blast
  have "er_snapshot timed = \<lparr>es_results = es_results (fst demo_live), es_history = es_history (fst demo_live),
      es_rest = es_rest (er_snapshot timed)\<rparr>"
    using same by (cases "er_snapshot timed") simp
  with demo_batch [of "es_rest (er_snapshot timed)"] obtain r rt' where
    many: "reset_many demo_floats [(''t1'', demo_reset (Some ''second''))] (er_snapshot timed) (snd demo_live) = (Inr r, rt')"
    "er_success r"
    by (auto split: sum.splits prod.splits simp: fst_def)
  from coordinated_success [OF timed tr many] obtain x where
    x: "reset_with_participants demo_floats sim_clock False [(''t1'', demo_reset (Some ''second''))] demo_both
       demo_runtime (snd demo_live) = (Inr x, rt')" "cx_success x" by blast
  have "machine_step demo_coordinator (ResetClock sim_clock False) (clock_views demo_both) =
      Some (clock_views (cx_snapshot x))"
    using coordinated_reset_is_atomic [OF demo_constructed demo_coordinates demo_both_reached tr sound,
      where address = sim_clock and replay = False and requests = "[(''t1'', demo_reset (Some ''second''))]" and
      rt = "snd demo_live"] x by simp
  then have "clock_views (cx_snapshot x) sim_clock = Some (\<lparr>co_segment = 1, co_tick = 0, co_microstep = 0\<rparr>, CLOCK_RUNNING)"
    by (auto dest!: machine_step_at simp: demo_both_def demo_views demo_tables dict_get_Cons demo_model_def lifecycle_behavior_def)
  with x show ?thesis by blast
qed

end
