(* ===== verification/Opacity_Contracts.thy ===== *)
theory Opacity_Contracts
  imports Py_Text
begin

text \<open>
  Participant opacity, its contracts: the claim binding of \<open>raes_contracts/contracts/base.py\<close> with its
  resolution against catalog and profile (\<open>behavioral_relations.py\<close>), the profile parameters the
  checkers read (\<open>behavioral_relation_profiles.py\<close>), and the finite transition model of
  \<open>_participant_opacity_model.py\<close>. Members whose type has a single literal are left out, and so are
  the members of claims, profiles and catalogs that are only carried. Digests are texts that are
  compared; how they are computed is outside the model. Ordinals are integers, as the code leaves the
  initial ones without a lower bound, and a negative index counts from the end of a tuple.
\<close>

section \<open>Names\<close>

definition ref_letters :: string where "ref_letters = ''abcdefghijklmnopqrstuvwxyz''"

definition name_of :: "string \<Rightarrow> string \<Rightarrow> nat \<Rightarrow> string \<Rightarrow> bool" where
  "name_of first rest n s \<longleftrightarrow>
     length s \<le> n \<and> (case s of [] \<Rightarrow> False | c # cs \<Rightarrow> c \<in> set first \<and> list_all (\<lambda>d. d \<in> set rest) cs)"

definition safe_ref :: "string \<Rightarrow> bool" where
  "safe_ref = name_of ref_letters (ref_letters @ ''0123456789._:/-'') 256"

definition safe_key :: "string \<Rightarrow> bool" where
  "safe_key = name_of ref_letters (ref_letters @ ''0123456789._:/|-'') 256"

definition sorted_unique :: "string list \<Rightarrow> bool" where
  "sorted_unique xs \<longleftrightarrow> xs = sort (remdups xs)"

definition ref_domain_ok :: "string list \<Rightarrow> bool" where
  "ref_domain_ok refs \<longleftrightarrow> refs \<noteq> [] \<and> length refs \<le> 64 \<and> list_all safe_ref refs \<and> sorted_unique refs"

section \<open>Claims\<close>

datatype quantifier_scope = SINGLE_ARTIFACT | FINITE_CASES | SAMPLED_POPULATION | ALL_ADMITTED_INPUTS | ALL_TRACES | ALL_STRATEGIES
datatype evidence_scope = STRUCTURAL | FINITE | STATISTICAL | MODEL_CHECK | PROOF
datatype assurance_axis = AXIS_DEFINITION | AXIS_CHECKER | AXIS_BOUNDED_TEST | AXIS_MODEL_CHECK | AXIS_PROOF
  | AXIS_RUNTIME_ENFORCEMENT | AXIS_BACKEND_DECLARATION | AXIS_BACKEND_REALIZATION | AXIS_BACKEND_CONFORMANCE
datatype assurance_status = DEFINED | IMPLEMENTED | TESTED | MODEL_CHECKED | PROVED | DELIBERATELY_UNPROVED | FUTURE
  | ENFORCED | DECLARED | REALIZED | CONFORMANT

record opacity_claim =
  clm_taxonomy :: string
  clm_revision :: string
  clm_relation :: string
  clm_left_carrier :: "string option"
  clm_projection :: "string option"
  clm_projection_revision :: "string option"
  clm_profile :: "string option"
  clm_profile_revision :: "string option"
  clm_quantifier :: quantifier_scope
  clm_evidence :: evidence_scope
  clm_axis :: "assurance_axis option"
  clm_status :: assurance_status
  clm_non_claims :: "string list"

fun axis_rule :: "assurance_axis \<Rightarrow> assurance_status \<times> evidence_scope list" where
  "axis_rule AXIS_DEFINITION = (DEFINED, [STRUCTURAL])"
| "axis_rule AXIS_CHECKER = (IMPLEMENTED, [STRUCTURAL, FINITE])"
| "axis_rule AXIS_BOUNDED_TEST = (TESTED, [FINITE])"
| "axis_rule AXIS_MODEL_CHECK = (MODEL_CHECKED, [MODEL_CHECK])"
| "axis_rule AXIS_PROOF = (PROVED, [PROOF])"
| "axis_rule AXIS_RUNTIME_ENFORCEMENT = (ENFORCED, [STRUCTURAL, FINITE])"
| "axis_rule AXIS_BACKEND_DECLARATION = (DECLARED, [STRUCTURAL])"
| "axis_rule AXIS_BACKEND_REALIZATION = (REALIZED, [STRUCTURAL, FINITE])"
| "axis_rule AXIS_BACKEND_CONFORMANCE = (CONFORMANT, [FINITE, STATISTICAL])"

definition quantifier_evidence_ok :: "opacity_claim \<Rightarrow> bool" where
  "quantifier_evidence_ok c \<longleftrightarrow>
     \<not> (clm_quantifier c \<in> {ALL_ADMITTED_INPUTS, ALL_TRACES, ALL_STRATEGIES} \<and> clm_evidence c \<notin> {MODEL_CHECK, PROOF})"

definition explicit_axis_ok :: "opacity_claim \<Rightarrow> bool" where
  "explicit_axis_ok c \<longleftrightarrow>
     (case clm_axis c of
        None \<Rightarrow> True
      | Some axis \<Rightarrow>
          (if clm_status c = FUTURE \<or> axis = AXIS_PROOF \<and> clm_status c = DELIBERATELY_UNPROVED
           then clm_evidence c = STRUCTURAL
           else clm_status c = fst (axis_rule axis) \<and> clm_evidence c \<in> set (snd (axis_rule axis))))"

definition unscoped_assurance_ok :: "opacity_claim \<Rightarrow> bool" where
  "unscoped_assurance_ok c \<longleftrightarrow>
     (clm_axis c \<noteq> None \<or>
      clm_status c \<notin> {ENFORCED, DECLARED, REALIZED, CONFORMANT} \<and>
      \<not> (clm_status c = PROVED \<and> clm_evidence c \<noteq> PROOF) \<and>
      \<not> (clm_status c = MODEL_CHECKED \<and> clm_evidence c \<noteq> MODEL_CHECK))"

definition make_claim :: "opacity_claim \<Rightarrow> opacity_claim res" where
  "make_claim c =
     (if clm_non_claims c \<noteq> [] \<and> quantifier_evidence_ok c \<and> explicit_axis_ok c \<and> unscoped_assurance_ok c \<and>
         (clm_projection c = None) = (clm_projection_revision c = None) \<and>
         (clm_profile c = None) = (clm_profile_revision c = None)
      then Inr c else Inl (ValidationError ''BehavioralClaimBindingModel''))"

section \<open>Catalogs and profiles\<close>

record relation_entry =
  rle_projection_required :: bool
  rle_profile_required :: bool

record relation_catalog =
  ctl_taxonomy :: string
  ctl_revision :: string
  ctl_relations :: "(string, relation_entry) pydict"
  ctl_digest :: string

datatype strategy_kind = PASSIVE | ACTIVE

datatype order_treatment = TOTAL_ORDER | NAMED_LINEARIZATION | ALL_LINEARIZATIONS | PARTIAL_ORDER | CAUSAL_FRONTIER

record opacity_bounds =
  bnd_points :: nat
  bnd_runs :: nat
  bnd_cuts :: nat
  bnd_strategies :: nat
  bnd_pairs :: nat
  bnd_orders :: nat

text \<open>A coalition observes, or one participant; an active strategy lists its references; an abstract carrier has no bounds.\<close>

record opacity_profile =
  opp_id :: string
  opp_revision :: string
  opp_digest :: string
  opp_taxonomy :: string
  opp_taxonomy_revision :: string
  opp_relation :: string
  opp_left_carrier :: "string option"
  opp_projection :: "string option"
  opp_projection_revision :: "string option"
  opp_coalition :: bool
  opp_strategies :: "string list option"
  opp_schedulers :: "string list"
  opp_environments :: "string list"
  opp_treatment :: order_treatment
  opp_orders :: "string list"
  opp_cut :: string
  opp_finite :: bool
  opp_bounds :: "opacity_bounds option"

definition opacity_taxonomy :: string where "opacity_taxonomy = ''raes-behavioral-relations''"

definition opacity_relation :: string where "opacity_relation = ''participant-predicate-opacity''"

definition make_profile :: "opacity_profile \<Rightarrow> opacity_profile res" where
  "make_profile p =
     (if opp_taxonomy p = opacity_taxonomy \<and> opp_relation p = opacity_relation \<and>
         ref_domain_ok (opp_schedulers p) \<and> ref_domain_ok (opp_environments p) \<and> ref_domain_ok (opp_orders p) \<and>
         (case opp_strategies p of None \<Rightarrow> True | Some refs \<Rightarrow> ref_domain_ok refs) \<and> safe_ref (opp_cut p) \<and>
         opp_finite p = (opp_bounds p \<noteq> None) \<and>
         (case opp_bounds p of
            None \<Rightarrow> True
          | Some b \<Rightarrow>
              (case opp_strategies p of None \<Rightarrow> 1 | Some refs \<Rightarrow> length refs) \<le> bnd_strategies b \<and>
              length (opp_orders p) \<le> bnd_orders b \<and>
              length (opp_schedulers p) * length (opp_environments p) \<le> bnd_pairs b)
      then Inr p else Inl (ValidationError ''ParticipantPredicateOpacityParametersModel''))"

definition resolve_binding_relation :: "opacity_claim \<Rightarrow> relation_catalog \<Rightarrow> relation_entry res" where
  "resolve_binding_relation c ctl =
     (if clm_taxonomy c \<noteq> ctl_taxonomy ctl \<or> clm_revision c \<noteq> ctl_revision ctl then Inl (ValueError ''taxonomy coordinates'')
      else (case dict_get (ctl_relations ctl) (clm_relation c) of
          None \<Rightarrow> Inl (ValueError ''unknown relation'')
        | Some entry \<Rightarrow> Inr entry))"

definition validate_binding_requirements :: "opacity_claim \<Rightarrow> relation_entry \<Rightarrow> unit res" where
  "validate_binding_requirements c entry =
     require_that
       (\<not> (rle_projection_required entry \<and> clm_projection c = None) \<and>
        \<not> (rle_profile_required entry \<and> clm_profile c = None) \<and>
        \<not> (rle_profile_required entry \<and> clm_axis c = None))
       (ValueError ''required bindings'')"

definition validate_binding_profile :: "opacity_claim \<Rightarrow> relation_catalog \<Rightarrow> opacity_profile \<Rightarrow> unit res" where
  "validate_binding_profile c ctl p =
     require_that
       (Some (opp_id p) = clm_profile c \<and> Some (opp_revision p) = clm_profile_revision c \<and>
        opp_taxonomy p = clm_taxonomy c \<and> opp_taxonomy_revision p = clm_revision c \<and>
        opp_taxonomy p = ctl_taxonomy ctl \<and> opp_taxonomy_revision p = ctl_revision ctl \<and>
        opp_relation p = clm_relation c \<and> opp_left_carrier p = clm_left_carrier c \<and>
        opp_projection p = clm_projection c \<and> opp_projection_revision p = clm_projection_revision c)
       (ValueError ''resolved profile'')"

definition validate_behavioral_claim_binding :: "opacity_claim \<Rightarrow> relation_catalog \<Rightarrow> opacity_profile \<Rightarrow> unit res" where
  "validate_behavioral_claim_binding c ctl p =
     res_bind (resolve_binding_relation c ctl) (\<lambda>entry.
     res_bind (validate_binding_requirements c entry) (\<lambda>_.
       if rle_profile_required entry then validate_binding_profile c ctl p
       else Inl (ValueError ''supplied a profile for a relation that does not require one'')))"

section \<open>The finite transition model\<close>

definition max_model_states :: nat where "max_model_states = 100000"
definition max_model_transitions :: nat where "max_model_transitions = 200000"

record model_state =
  mst_ordinal :: int
  mst_ref :: string
  mst_run :: string
  mst_cut :: string
  mst_strategy :: string
  mst_scheduler :: string
  mst_environment :: string
  mst_order :: string
  mst_evaluation :: bool
  mst_secret :: bool
  mst_initial_key :: string
  mst_observation_key :: string
  mst_memory_key :: string
  mst_release_key :: string
  mst_coalition_key :: "string option"

definition model_state_ok :: "model_state \<Rightarrow> bool" where
  "model_state_ok s \<longleftrightarrow>
     0 \<le> mst_ordinal s \<and> mst_ordinal s < int max_model_states \<and>
     list_all safe_ref [mst_ref s, mst_run s, mst_cut s, mst_strategy s, mst_scheduler s, mst_environment s, mst_order s] \<and>
     list_all safe_key [mst_initial_key s, mst_observation_key s, mst_memory_key s, mst_release_key s] \<and>
     (case mst_coalition_key s of None \<Rightarrow> True | Some k \<Rightarrow> safe_key k)"

record model_transition =
  mtr_ordinal :: int
  mtr_ref :: string
  mtr_source :: int
  mtr_target :: int
  mtr_action :: string
  mtr_event_key :: string

definition model_transition_ok :: "model_transition \<Rightarrow> bool" where
  "model_transition_ok t \<longleftrightarrow>
     0 \<le> mtr_ordinal t \<and> mtr_ordinal t < int max_model_transitions \<and> 0 \<le> mtr_source t \<and> mtr_source t < int max_model_states \<and>
     0 \<le> mtr_target t \<and> mtr_target t < int max_model_states \<and>
     safe_ref (mtr_ref t) \<and> safe_ref (mtr_action t) \<and> safe_key (mtr_event_key t)"

record model_assumptions =
  mas_kind :: strategy_kind
  mas_strategies :: "string list"
  mas_schedulers :: "string list"
  mas_environments :: "string list"
  mas_treatment :: order_treatment
  mas_orders :: "string list"
  mas_cut :: string

definition make_assumptions :: "model_assumptions \<Rightarrow> model_assumptions res" where
  "make_assumptions a =
     (if ref_domain_ok (mas_strategies a) \<and> ref_domain_ok (mas_schedulers a) \<and> ref_domain_ok (mas_environments a) \<and>
         ref_domain_ok (mas_orders a) \<and> safe_ref (mas_cut a)
      then Inr a else Inl (ValidationError ''ParticipantOpacityModelAssumptionsModel''))"

record model_counts =
  mct_states :: nat
  mct_transitions :: nat
  mct_initial :: nat
  mct_evaluation :: nat
  mct_runs :: nat
  mct_cuts :: nat
  mct_strategies :: nat
  mct_pairs :: nat
  mct_orders :: nat

definition make_counts :: "model_counts \<Rightarrow> model_counts res" where
  "make_counts c =
     (if 1 \<le> mct_states c \<and> mct_states c \<le> max_model_states \<and> mct_transitions c \<le> max_model_transitions \<and>
         1 \<le> mct_initial c \<and> mct_initial c \<le> max_model_states \<and>
         1 \<le> mct_evaluation c \<and> mct_evaluation c \<le> max_model_states \<and>
         1 \<le> mct_runs c \<and> mct_runs c \<le> max_model_states \<and> 1 \<le> mct_cuts c \<and> mct_cuts c \<le> max_model_states \<and>
         1 \<le> mct_strategies c \<and> mct_strategies c \<le> 1000 \<and> 1 \<le> mct_pairs c \<and> mct_pairs c \<le> 10000 \<and>
         1 \<le> mct_orders c \<and> mct_orders c \<le> 1000
      then Inr c else Inl (ValidationError ''ParticipantOpacityModelCheckDeclaredCountsModel''))"

record model_request =
  mrq_catalog_digest :: string
  mrq_profile_id :: string
  mrq_profile_revision :: string
  mrq_profile_digest :: string
  mrq_complete :: bool
  mrq_assumptions :: model_assumptions
  mrq_counts :: model_counts
  mrq_initial :: "int list"
  mrq_states :: "model_state list"
  mrq_transitions :: "model_transition list"
  mrq_claim :: opacity_claim

definition model_identities_ok :: "model_request \<Rightarrow> bool" where
  "model_identities_ok r \<longleftrightarrow>
     map mst_ordinal (mrq_states r) = map int [0..<length (mrq_states r)] \<and>
     map mtr_ordinal (mrq_transitions r) = map int [0..<length (mrq_transitions r)] \<and>
     distinct (map mst_ref (mrq_states r)) \<and> distinct (map mtr_ref (mrq_transitions r)) \<and>
     mrq_initial r = sort (remdups (mrq_initial r)) \<and>
     list_all (\<lambda>i. i < int (length (mrq_states r))) (mrq_initial r)"

definition state_domain :: "model_state \<Rightarrow> string \<times> string \<times> string \<times> string" where
  "state_domain s = (mst_strategy s, mst_scheduler s, mst_environment s, mst_order s)"

text \<open>\<open>states[i]\<close>, for an index the tuple has.\<close>

definition state_of :: "model_request \<Rightarrow> int \<Rightarrow> model_state" where
  "state_of r i = mrq_states r ! nat (if i < 0 then int (length (mrq_states r)) + i else i)"

definition model_transitions_ok :: "model_request \<Rightarrow> bool" where
  "model_transitions_ok r \<longleftrightarrow>
     list_all (\<lambda>t. mtr_source t < int (length (mrq_states r)) \<and> mtr_target t < int (length (mrq_states r)) \<and>
       state_domain (state_of r (mtr_source t)) = state_domain (state_of r (mtr_target t))) (mrq_transitions r)"

definition distinct_count :: "('a \<Rightarrow> 'b) \<Rightarrow> 'a list \<Rightarrow> nat" where
  "distinct_count f xs = length (remdups (map f xs))"

definition model_counts_ok :: "model_request \<Rightarrow> bool" where
  "model_counts_ok r \<longleftrightarrow>
     mrq_counts r =
       \<lparr>mct_states = length (mrq_states r), mct_transitions = length (mrq_transitions r),
        mct_initial = length (mrq_initial r), mct_evaluation = length (filter mst_evaluation (mrq_states r)),
        mct_runs = distinct_count mst_run (mrq_states r), mct_cuts = distinct_count mst_cut (mrq_states r),
        mct_strategies = distinct_count mst_strategy (mrq_states r),
        mct_pairs = distinct_count (\<lambda>s. (mst_scheduler s, mst_environment s)) (mrq_states r),
        mct_orders = distinct_count mst_order (mrq_states r)\<rparr>"

definition declared_domains_ok :: "model_request \<Rightarrow> bool" where
  "declared_domains_ok r \<longleftrightarrow>
     (let a = mrq_assumptions r; ss = mrq_states r in
      mst_strategy ` set ss = set (mas_strategies a) \<and> mst_scheduler ` set ss = set (mas_schedulers a) \<and>
      mst_environment ` set ss = set (mas_environments a) \<and>
      (\<lambda>s. (mst_scheduler s, mst_environment s)) ` set ss = set (List.product (mas_schedulers a) (mas_environments a)) \<and>
      mst_order ` set ss = set (mas_orders a) \<and> mst_cut ` set ss = {mas_cut a})"

definition initial_domain_ok :: "model_request \<Rightarrow> bool" where
  "initial_domain_ok r \<longleftrightarrow>
     (let a = mrq_assumptions r in
      (\<lambda>i. state_domain (state_of r i)) ` set (mrq_initial r) =
      set (List.product (mas_strategies a) (List.product (mas_schedulers a) (List.product (mas_environments a) (mas_orders a)))))"

definition model_check_nonclaim :: string where
  "model_check_nonclaim = ''No source or materializer authenticity is established by this normalized-model evidence.''"

definition model_check_claim_scope :: "opacity_claim \<Rightarrow> model_assumptions \<Rightarrow> bool" where
  "model_check_claim_scope c a \<longleftrightarrow>
     clm_axis c = Some AXIS_MODEL_CHECK \<and> clm_status c = MODEL_CHECKED \<and> clm_evidence c = MODEL_CHECK \<and>
     clm_quantifier c = (if mas_kind a = ACTIVE then ALL_STRATEGIES else ALL_TRACES) \<and>
     model_check_nonclaim \<in> set (clm_non_claims c)"

definition make_request :: "model_request \<Rightarrow> model_request res" where
  "make_request r =
     (if mrq_initial r \<noteq> [] \<and> length (mrq_initial r) \<le> max_model_states \<and>
         mrq_states r \<noteq> [] \<and> length (mrq_states r) \<le> max_model_states \<and>
         length (mrq_transitions r) \<le> max_model_transitions \<and>
         list_all model_state_ok (mrq_states r) \<and> list_all model_transition_ok (mrq_transitions r) \<and>
         is_ok (make_assumptions (mrq_assumptions r)) \<and> is_ok (make_counts (mrq_counts r)) \<and> is_ok (make_claim (mrq_claim r)) \<and>
         model_identities_ok r \<and> model_transitions_ok r \<and> model_counts_ok r \<and> declared_domains_ok r
      then
        (if list_ex (\<lambda>i. i < - int (length (mrq_states r))) (mrq_initial r) then Inl (IndexError ''states'')
         else if initial_domain_ok r \<and> model_check_claim_scope (mrq_claim r) (mrq_assumptions r) then Inr r
         else Inl (ValidationError ''ParticipantOpacityModelCheckInputModel''))
      else Inl (ValidationError ''ParticipantOpacityModelCheckInputModel''))"

end
