(* ===== verification/Opacity_Kernel.thy ===== *)
theory Opacity_Kernel
  imports Opacity_Contracts
begin

text \<open>
  The information-cell kernel of \<open>participant_opacity/_kernel.py\<close>. The points come with the three
  readers the protocol class of the code names: the cell key, the ordinal and whether the secret
  holds. \<open>group_append\<close> is the loop \<open>d[k] = (*d.get(k, ()), x)\<close>, which the kernel uses for its cells
  and the model check for its adjacency.
\<close>

section \<open>Grouping by a key\<close>

definition group_append :: "('a \<Rightarrow> 'k) \<Rightarrow> 'a list \<Rightarrow> ('k, 'a list) pydict" where
  "group_append key xs =
     foldl (\<lambda>d x. dict_set (key x) ((case dict_get d (key x) of None \<Rightarrow> [] | Some ys \<Rightarrow> ys) @ [x]) d) [] xs"

lemma group_append_get:
  "dict_get (group_append key xs) k =
     (if filter (\<lambda>x. key x = k) xs = [] then None else Some (filter (\<lambda>x. key x = k) xs))"
proof (induction xs arbitrary: k rule: rev_induct)
  case Nil
  show ?case by (simp add: group_append_def)
next
  case (snoc x xs)
  have step: "group_append key (xs @ [x]) = dict_set (key x)
      ((case dict_get (group_append key xs) (key x) of None \<Rightarrow> [] | Some ys \<Rightarrow> ys) @ [x]) (group_append key xs)"
    by (simp add: group_append_def)
  have "(case dict_get (group_append key xs) (key x) of None \<Rightarrow> [] | Some ys \<Rightarrow> ys) = filter (\<lambda>y. key y = key x) xs"
    by (simp add: snoc.IH)
  then show ?case by (auto simp: step snoc.IH)
qed

section \<open>The kernel\<close>

record opacity_kernel_result =
  okr_points :: nat
  okr_secret_points :: nat
  okr_actual :: "int option"
  okr_cell_size :: "nat option"

definition scan_secret_point ::
  "('p \<Rightarrow> 'k) \<Rightarrow> ('p \<Rightarrow> int) \<Rightarrow> ('p \<Rightarrow> bool) \<Rightarrow> ('k, 'p list) pydict \<Rightarrow> int option \<times> nat option \<Rightarrow> 'p \<Rightarrow>
    (int option \<times> nat option) res" where
  "scan_secret_point key ord secret cells found actual =
     (case dict_get cells (key actual) of
        None \<Rightarrow> Inl (KeyError ''cells'')
      | Some cell \<Rightarrow>
          if list_ex (\<lambda>c. \<not> secret c) cell then Inr found
          else if fst found = None then Inr (Some (ord actual), Some (length cell))
          else Inr found)"

definition evaluate_opacity_kernel ::
  "('p \<Rightarrow> 'k) \<Rightarrow> ('p \<Rightarrow> int) \<Rightarrow> ('p \<Rightarrow> bool) \<Rightarrow> 'p list \<Rightarrow> opacity_kernel_result res" where
  "evaluate_opacity_kernel key ord secret points =
     (let canonical = sort_key ord points;
          cells = group_append key canonical;
          secrets = filter secret canonical in
      res_bind (res_fold (scan_secret_point key ord secret cells) (None, None) secrets) (\<lambda>found.
        Inr \<lparr>okr_points = length canonical, okr_secret_points = length secrets,
             okr_actual = fst found, okr_cell_size = snd found\<rparr>))"

section \<open>What it finds\<close>

definition secret_only_cell :: "('p \<Rightarrow> 'k) \<Rightarrow> ('p \<Rightarrow> bool) \<Rightarrow> 'p list \<Rightarrow> 'p \<Rightarrow> bool" where
  "secret_only_cell key secret points p \<longleftrightarrow> list_all (\<lambda>q. key q = key p \<longrightarrow> secret q) points"

definition cell_size :: "('p \<Rightarrow> 'k) \<Rightarrow> 'p list \<Rightarrow> 'p \<Rightarrow> nat" where
  "cell_size key points p = length (filter (\<lambda>q. key q = key p) points)"

lemma scan_secret_point_step:
  assumes "p \<in> set points"
  shows "scan_secret_point key ord secret (group_append key points) found p =
    Inr (if secret_only_cell key secret points p \<and> fst found = None
         then (Some (ord p), Some (cell_size key points p)) else found)"
  using assms
  by (auto simp: scan_secret_point_def group_append_get secret_only_cell_def cell_size_def list_ex_iff
      list_all_iff filter_empty_conv)

lemma scan_keeps_found:
  assumes "set xs \<subseteq> set points" and "fst found \<noteq> None"
  shows "res_fold (scan_secret_point key ord secret (group_append key points)) found xs = Inr found"
  using assms by (induction xs) (auto simp: scan_secret_point_step)

lemma scan_finds_first:
  assumes "set xs \<subseteq> set points"
  shows "res_fold (scan_secret_point key ord secret (group_append key points)) (None, None) xs =
    Inr (case List.find (secret_only_cell key secret points) xs of
           None \<Rightarrow> (None, None)
         | Some p \<Rightarrow> (Some (ord p), Some (cell_size key points p)))"
  using assms by (induction xs) (simp_all add: scan_secret_point_step scan_keeps_found)

lemma find_sorted_least:
  assumes "List.find P xs = Some x" and "sorted (map f xs)" and "y \<in> set xs" and "P y"
  shows "f x \<le> f y"
  using assms by (induction xs) (auto split: if_splits)

lemma find_SomeD: "List.find P xs = Some x \<Longrightarrow> x \<in> set xs \<and> P x"
  by (induction xs) (auto split: if_splits)

lemma secret_only_cell_sort [simp]: "secret_only_cell key secret (sort_key f points) = secret_only_cell key secret points"
  by (simp add: fun_eq_iff secret_only_cell_def list_all_iff)

lemma length_filter_sort_key [simp]: "length (filter P (sort_key f xs)) = length (filter P xs)"
  by (simp add: filter_sort)

lemma cell_size_sort [simp]: "cell_size key (sort_key f points) = cell_size key points"
  by (simp add: fun_eq_iff cell_size_def)

text \<open>The kernel reports the point with the least ordinal among the secret points of secret-only cells.\<close>

lemma opacity_kernel_run:
  obtains result where "evaluate_opacity_kernel key ord secret points = Inr result"
    and "okr_points result = length points"
    and "okr_secret_points result = length (filter secret points)"
    and "okr_actual result = None \<Longrightarrow> okr_cell_size result = None \<and>
           (\<forall>p \<in> set points. secret p \<longrightarrow> \<not> secret_only_cell key secret points p)"
    and "\<And>n. okr_actual result = Some n \<Longrightarrow>
           \<exists>p \<in> set points. ord p = n \<and> secret p \<and> secret_only_cell key secret points p \<and>
             okr_cell_size result = Some (cell_size key points p) \<and>
             (\<forall>q \<in> set points. secret q \<and> secret_only_cell key secret points q \<longrightarrow> n \<le> ord q)"
proof -
  let ?c = "sort_key ord points" and ?bad = "secret_only_cell key secret points"
  define found where "found = List.find ?bad (filter secret ?c)"
  have scan: "res_fold (scan_secret_point key ord secret (group_append key ?c)) (None, None) (filter secret ?c) =
      Inr (case found of None \<Rightarrow> (None, None) | Some p \<Rightarrow> (Some (ord p), Some (cell_size key points p)))"
    using scan_finds_first [of "filter secret ?c" ?c key ord secret] by (simp add: found_def split: option.split)
  have none: "\<forall>p \<in> set points. secret p \<longrightarrow> \<not> ?bad p" if "found = None"
    using that by (auto simp: found_def find_None_iff)
  have some: "p \<in> set points \<and> secret p \<and> ?bad p \<and> (\<forall>q \<in> set points. secret q \<and> ?bad q \<longrightarrow> ord p \<le> ord q)"
    if "found = Some p" for p
  proof -
    have "p \<in> set (filter secret ?c)" "?bad p"
      using find_SomeD [of ?bad "filter secret ?c" p] that unfolding found_def by simp_all
    moreover have "sorted (map ord (filter secret ?c))" by (simp add: sorted_filter)
    ultimately show ?thesis
      using find_sorted_least [of ?bad "filter secret ?c" p ord] that unfolding found_def by auto
  qed
  show thesis
  proof (rule that)
    show "evaluate_opacity_kernel key ord secret points = Inr
        \<lparr>okr_points = length points, okr_secret_points = length (filter secret points),
         okr_actual = map_option ord found, okr_cell_size = map_option (cell_size key points) found\<rparr>"
      by (cases found) (simp_all add: evaluate_opacity_kernel_def Let_def scan)
  qed (use none some in \<open>auto\<close>)
qed

end
