(* ===== verification/Opacity_Search.thy ===== *)
theory Opacity_Search
  imports Opacity_Kernel Search_Closure
begin

text \<open>
  The fixed point of the model check (\<open>participant_opacity/_model_check.py\<close>): the breadth-first loop
  with its visited set, parents, queue and explored transitions, and the walk back along the parents.
  A Python set is the list of its elements in the order they were added. The loop is a run of
  \<open>worklist_search\<close>, so what it visits is what is reachable; that the walk back is a shortest path
  follows from an invariant with a ghost depth.
\<close>

section \<open>The loop\<close>

record opacity_search =
  osr_visited :: "int list"
  osr_parents :: "(int, model_transition option) pydict"
  osr_queue :: "int list"
  osr_explored :: "model_transition list"

definition adjacency :: "model_transition list \<Rightarrow> (int, model_transition list) pydict" where
  "adjacency ts = group_append mtr_source ts"

definition edges_from :: "(int, model_transition list) pydict \<Rightarrow> int \<Rightarrow> model_transition list" where
  "edges_from adj n = (case dict_get adj n of None \<Rightarrow> [] | Some ts \<Rightarrow> ts)"

definition visit_edge :: "opacity_search \<Rightarrow> model_transition \<Rightarrow> opacity_search" where
  "visit_edge s t =
     (let s' = s\<lparr>osr_explored := osr_explored s @ [t]\<rparr>; target = mtr_target t in
      if target \<in> set (osr_visited s) then s'
      else s'\<lparr>osr_visited := osr_visited s @ [target], osr_parents := dict_set target (Some t) (osr_parents s),
              osr_queue := osr_queue s @ [target]\<rparr>)"

definition expand_state :: "(int, model_transition list) pydict \<Rightarrow> int \<Rightarrow> opacity_search \<Rightarrow> opacity_search" where
  "expand_state adj n s = foldl visit_edge s (edges_from adj n)"

lemma edges_from_adjacency [simp]: "edges_from (adjacency ts) n = filter (\<lambda>t. mtr_source t = n) ts"
  by (simp add: edges_from_def adjacency_def group_append_get)

text \<open>What expanding a state adds: the targets not yet visited, each with its first transition as parent.\<close>

lemma visit_edges_shape:
  obtains new where
    "osr_visited (foldl visit_edge s ts) = osr_visited s @ new"
    "osr_queue (foldl visit_edge s ts) = osr_queue s @ new"
    "osr_explored (foldl visit_edge s ts) = osr_explored s @ ts"
    "distinct new" "set new = mtr_target ` set ts - set (osr_visited s)"
    "\<And>n. n \<notin> set new \<Longrightarrow> dict_get (osr_parents (foldl visit_edge s ts)) n = dict_get (osr_parents s) n"
    "\<And>n. n \<in> set new \<Longrightarrow>
       \<exists>t \<in> set ts. mtr_target t = n \<and> dict_get (osr_parents (foldl visit_edge s ts)) n = Some (Some t)"
proof (induction ts arbitrary: thesis rule: rev_induct)
  case Nil
  show ?case by (rule Nil [of "[]"]) simp_all
next
  case (snoc t ts)
  obtain new where new: "osr_visited (foldl visit_edge s ts) = osr_visited s @ new"
    "osr_queue (foldl visit_edge s ts) = osr_queue s @ new"
    "osr_explored (foldl visit_edge s ts) = osr_explored s @ ts"
    "distinct new" "set new = mtr_target ` set ts - set (osr_visited s)"
    "\<And>n. n \<notin> set new \<Longrightarrow> dict_get (osr_parents (foldl visit_edge s ts)) n = dict_get (osr_parents s) n"
    "\<And>n. n \<in> set new \<Longrightarrow>
       \<exists>t \<in> set ts. mtr_target t = n \<and> dict_get (osr_parents (foldl visit_edge s ts)) n = Some (Some t)"
    using snoc.IH by blast
  let ?u = "foldl visit_edge s ts"
  show ?case
  proof (cases "mtr_target t \<in> set (osr_visited ?u)")
    case True
    then have "visit_edge ?u t = ?u\<lparr>osr_explored := osr_explored ?u @ [t]\<rparr>"
      by (simp add: visit_edge_def)
    then show ?thesis
    proof (intro snoc.prems [of new])
      show "set new = mtr_target ` set (ts @ [t]) - set (osr_visited s)" using True new(1,5) by auto
      show "\<exists>t' \<in> set (ts @ [t]). mtr_target t' = n \<and>
          dict_get (osr_parents (foldl visit_edge s (ts @ [t]))) n = Some (Some t')"
        if "visit_edge ?u t = ?u\<lparr>osr_explored := osr_explored ?u @ [t]\<rparr>" and "n \<in> set new" for n
        using new(7) [OF that(2)] that(1) by auto
    qed (use new in simp_all)
  next
    case False
    then have t: "visit_edge ?u t = ?u\<lparr>osr_explored := osr_explored ?u @ [t], osr_visited := osr_visited ?u @ [mtr_target t],
        osr_parents := dict_set (mtr_target t) (Some t) (osr_parents ?u), osr_queue := osr_queue ?u @ [mtr_target t]\<rparr>"
      by (simp add: visit_edge_def Let_def)
    have fresh: "mtr_target t \<notin> set new" using False new(1) by simp
    show ?thesis
    proof (rule snoc.prems [of "new @ [mtr_target t]"])
      show "set (new @ [mtr_target t]) = mtr_target ` set (ts @ [t]) - set (osr_visited s)"
        using False new(1,5) by auto
      show "\<exists>t' \<in> set (ts @ [t]). mtr_target t' = n \<and>
          dict_get (osr_parents (foldl visit_edge s (ts @ [t]))) n = Some (Some t')"
        if "n \<in> set (new @ [mtr_target t])" for n
        using new(7) [of n] that t by (cases "n = mtr_target t") auto
    qed (use new(1-4,6) t fresh in auto)
  qed
qed

lemma expand_state_shape:
  obtains new where
    "osr_visited (expand_state adj n (s\<lparr>osr_queue := q\<rparr>)) = osr_visited s @ new"
    "osr_queue (expand_state adj n (s\<lparr>osr_queue := q\<rparr>)) = q @ new"
    "set new = mtr_target ` set (edges_from adj n) - set (osr_visited s)"
    "\<And>m. m \<notin> set new \<Longrightarrow> dict_get (osr_parents (expand_state adj n (s\<lparr>osr_queue := q\<rparr>))) m = dict_get (osr_parents s) m"
    "\<And>m. m \<in> set new \<Longrightarrow> \<exists>t \<in> set (edges_from adj n). mtr_target t = m \<and>
       dict_get (osr_parents (expand_state adj n (s\<lparr>osr_queue := q\<rparr>))) m = Some (Some t)"
proof (rule visit_edges_shape [where ts = "edges_from adj n" and s = "s\<lparr>osr_queue := q\<rparr>"])
  fix new
  let ?e = "expand_state adj n (s\<lparr>osr_queue := q\<rparr>)" and ?f = "foldl visit_edge (s\<lparr>osr_queue := q\<rparr>) (edges_from adj n)"
  have e: "?e = ?f" by (simp add: expand_state_def)
  assume 1: "osr_visited ?f = osr_visited (s\<lparr>osr_queue := q\<rparr>) @ new"
    and 2: "osr_queue ?f = osr_queue (s\<lparr>osr_queue := q\<rparr>) @ new"
    and 3: "set new = mtr_target ` set (edges_from adj n) - set (osr_visited (s\<lparr>osr_queue := q\<rparr>))"
    and 4: "\<And>m. m \<notin> set new \<Longrightarrow> dict_get (osr_parents ?f) m = dict_get (osr_parents (s\<lparr>osr_queue := q\<rparr>)) m"
    and 5: "\<And>m. m \<in> set new \<Longrightarrow> \<exists>t \<in> set (edges_from adj n). mtr_target t = m \<and> dict_get (osr_parents ?f) m = Some (Some t)"
  show thesis
  proof (rule that [of new])
    show "dict_get (osr_parents ?e) m = dict_get (osr_parents s) m" if "m \<notin> set new" for m
      using 4 [OF that] by (simp add: e)
    show "\<exists>t \<in> set (edges_from adj n). mtr_target t = m \<and> dict_get (osr_parents ?e) m = Some (Some t)"
      if "m \<in> set new" for m
      using 5 [OF that] by (simp add: e)
  qed (use 1 2 3 in \<open>simp_all add: e\<close>)
qed

lemma expand_measure:
  assumes "finite A" and "mtr_target ` set (edges_from adj n) \<subseteq> A"
  shows "card (A - set (osr_visited (expand_state adj n s))) + length (osr_queue (expand_state adj n s)) =
    card (A - set (osr_visited s)) + length (osr_queue s)"
proof -
  obtain new where new: "osr_visited (expand_state adj n s) = osr_visited s @ new"
    "osr_queue (expand_state adj n s) = osr_queue s @ new" "distinct new"
    "set new = mtr_target ` set (edges_from adj n) - set (osr_visited s)"
    unfolding expand_state_def by (rule visit_edges_shape [where ts = "edges_from adj n" and s = s]) blast
  have "A - set (osr_visited s) = (A - set (osr_visited s @ new)) \<union> set new"
    using new(4) assms(2) by auto
  moreover have "(A - set (osr_visited s @ new)) \<inter> set new = {}" by auto
  ultimately have "card (A - set (osr_visited s)) = card (A - set (osr_visited s @ new)) + length new"
    using assms(1) new(3) by (simp add: card_Un_disjoint distinct_card)
  with new(1,2) show ?thesis by simp
qed

definition all_targets :: "(int, model_transition list) pydict \<Rightarrow> int set" where
  "all_targets adj = (\<Union>ts \<in> set (dict_values adj). mtr_target ` set ts)"

lemma targets_in_all: "mtr_target ` set (edges_from adj n) \<subseteq> all_targets adj"
  using dict_get_Some_in [of adj n] by (cases "dict_get adj n") (force simp: edges_from_def all_targets_def dict_values_def)+

lemma expand_measure_all:
  "card (all_targets adj - set (osr_visited (expand_state adj n s))) + length (osr_queue (expand_state adj n s)) =
    card (all_targets adj - set (osr_visited s)) + length (osr_queue s)"
  by (intro expand_measure targets_in_all) (simp add: all_targets_def)

function reach_loop :: "(int, model_transition list) pydict \<Rightarrow> opacity_search \<Rightarrow> opacity_search" where
  "reach_loop adj s =
     (case osr_queue s of
        [] \<Rightarrow> s
      | n # q \<Rightarrow> reach_loop adj (expand_state adj n (s\<lparr>osr_queue := q\<rparr>)))"
  by pat_completeness auto
termination
  by (relation "measure (\<lambda>(adj, s). card (all_targets adj - set (osr_visited s)) + length (osr_queue s))")
    (simp_all add: expand_measure_all)

declare reach_loop.simps [simp del]

definition search_start :: "int list \<Rightarrow> opacity_search" where
  "search_start initial =
     \<lparr>osr_visited = initial, osr_parents = foldl (\<lambda>d i. dict_set i None d) [] initial,
      osr_queue = initial, osr_explored = []\<rparr>"

definition reachable_fixed_point ::
  "model_request \<Rightarrow> model_state list \<times> model_transition list \<times> (int, model_transition option) pydict" where
  "reachable_fixed_point r =
     (let s = reach_loop (adjacency (mrq_transitions r)) (search_start (mrq_initial r)) in
      (map (state_of r) (sort (osr_visited s)), osr_explored s, osr_parents s))"

text \<open>The walk back along the parents; a missing key raises, a circle of parents would not return.\<close>

partial_function (option) path_back :: "(int, model_transition option) pydict \<Rightarrow> int \<Rightarrow> int list res option" where
  "path_back parents n =
     (case dict_get parents n of
        None \<Rightarrow> Some (Inl (KeyError ''parents''))
      | Some None \<Rightarrow> Some (Inr [])
      | Some (Some t) \<Rightarrow>
          Option.bind (path_back parents (mtr_source t)) (\<lambda>walk. Some (res_bind walk (\<lambda>path. Inr (mtr_ordinal t # path)))))"

definition counterexample_path :: "int \<Rightarrow> (int, model_transition option) pydict \<Rightarrow> int list res option" where
  "counterexample_path n parents = map_option (\<lambda>walk. res_bind walk (\<lambda>path. Inr (rev path))) (path_back parents n)"

lemma reach_loop_invariant:
  assumes "I s" and "\<And>u n q. I u \<Longrightarrow> osr_queue u = n # q \<Longrightarrow> I (expand_state adj n (u\<lparr>osr_queue := q\<rparr>))"
  shows "I (reach_loop adj s)" and "osr_queue (reach_loop adj s) = []"
proof -
  have "I (reach_loop adj s) \<and> osr_queue (reach_loop adj s) = []"
    using assms
  proof (induction adj s rule: reach_loop.induct)
    case (1 adj s)
    show ?case
    proof (cases "osr_queue s")
      case Nil
      with "1.prems"(1) show ?thesis by (subst (1 2) reach_loop.simps) simp
    next
      case (Cons n q)
      with "1.IH" [OF Cons] "1.prems" show ?thesis by (subst (1 2) reach_loop.simps) simp
    qed
  qed
  then show "I (reach_loop adj s)" and "osr_queue (reach_loop adj s) = []" by simp_all
qed

section \<open>An instance of the worklist interface\<close>

definition opacity_succs :: "model_transition list \<Rightarrow> int \<Rightarrow> int set" where
  "opacity_succs ts n = mtr_target ` {t \<in> set ts. mtr_source t = n}"

definition opacity_step :: "model_transition list \<Rightarrow> opacity_search \<Rightarrow> opacity_search \<Rightarrow> bool" where
  "opacity_step ts s s' \<longleftrightarrow>
     (\<exists>n q. osr_queue s = n # q \<and> distinct (osr_queue s) \<and> set (osr_queue s) \<subseteq> set (osr_visited s) \<and>
        s' = expand_state (adjacency ts) n (s\<lparr>osr_queue := q\<rparr>))"

definition opacity_pending :: "opacity_search \<Rightarrow> int set" where
  "opacity_pending s = set (osr_queue s)"

definition opacity_expanded :: "opacity_search \<Rightarrow> int set" where
  "opacity_expanded s = set (osr_visited s) - set (osr_queue s)"

lemma opacity_step_shape:
  assumes "opacity_step ts s s'"
  obtains n q new where "osr_queue s = n # q" and "n \<notin> set q" and "n \<in> set (osr_visited s)" and "set q \<subseteq> set (osr_visited s)"
    and "osr_visited s' = osr_visited s @ new" and "osr_queue s' = q @ new"
    and "set new = opacity_succs ts n - set (osr_visited s)"
proof -
  from assms obtain n q where nq: "osr_queue s = n # q" "distinct (n # q)" "set (n # q) \<subseteq> set (osr_visited s)"
    and s': "s' = expand_state (adjacency ts) n (s\<lparr>osr_queue := q\<rparr>)"
    by (auto simp: opacity_step_def)
  obtain new where "osr_visited s' = osr_visited s @ new" "osr_queue s' = q @ new"
    "set new = mtr_target ` set (edges_from (adjacency ts) n) - set (osr_visited s)"
    unfolding s' expand_state_def
    by (rule visit_edges_shape [where ts = "edges_from (adjacency ts) n" and s = "s\<lparr>osr_queue := q\<rparr>"]) auto
  moreover have "mtr_target ` set (edges_from (adjacency ts) n) = opacity_succs ts n"
    by (auto simp: opacity_succs_def)
  ultimately show thesis using nq that by simp
qed

interpretation opacity: worklist_search "opacity_step ts" opacity_expanded opacity_pending "opacity_succs ts" for ts
proof unfold_locales
  fix s s' assume "opacity_step ts s s'"
  then show "opacity_expanded s \<subseteq> opacity_expanded s'"
    by (elim opacity_step_shape) (auto simp: opacity_expanded_def)
next
  fix s s' assume "opacity_step ts s s'"
  then show "opacity_expanded s' \<subseteq> opacity_expanded s \<union> opacity_pending s"
    by (elim opacity_step_shape) (auto simp: opacity_expanded_def opacity_pending_def)
next
  fix s s' assume "opacity_step ts s s'"
  then show "opacity_expanded s \<union> opacity_pending s \<subseteq> opacity_expanded s' \<union> opacity_pending s'"
    by (elim opacity_step_shape) (auto simp: opacity_expanded_def opacity_pending_def)
next
  fix s s' y assume "opacity_step ts s s'" and "y \<in> opacity_expanded s' - opacity_expanded s"
  then show "opacity_succs ts y \<subseteq> opacity_expanded s' \<union> opacity_pending s'"
    by (elim opacity_step_shape) (auto simp: opacity_expanded_def opacity_pending_def)
next
  fix s s' assume "opacity_step ts s s'"
  then show "opacity_pending s' \<subseteq> opacity_expanded s \<union> opacity_pending s \<union>
      (\<Union>y \<in> opacity_expanded s' - opacity_expanded s. opacity_succs ts y)"
  proof (elim opacity_step_shape)
    fix n q new
    assume st: "osr_queue s = n # q" "osr_visited s' = osr_visited s @ new" "osr_queue s' = q @ new"
      and new: "set new = opacity_succs ts n - set (osr_visited s)" and n: "n \<notin> set q" "n \<in> set (osr_visited s)"
    have "n \<in> opacity_expanded s' - opacity_expanded s"
      using st new n by (auto simp: opacity_expanded_def)
    with st new show ?thesis by (auto simp: opacity_pending_def)
  qed
qed

section \<open>Paths\<close>

text \<open>A path is the list of the ordinals of its transitions, as the evidence carries it.\<close>

fun model_path :: "model_transition list \<Rightarrow> int \<Rightarrow> int list \<Rightarrow> int \<Rightarrow> bool" where
  "model_path ts i [] j \<longleftrightarrow> i = j"
| "model_path ts i (k # ks) j \<longleftrightarrow>
     0 \<le> k \<and> k < int (length ts) \<and> mtr_source (ts ! nat k) = i \<and> model_path ts (mtr_target (ts ! nat k)) ks j"

lemma model_path_append:
  "model_path ts i (ks @ ls) j \<longleftrightarrow> (\<exists>m. model_path ts i ks m \<and> model_path ts m ls j)"
  by (induction ks arbitrary: i) auto

lemma model_path_reach:
  assumes "model_path ts i ks j" and "i \<in> roots"
  shows "j \<in> reach_set (opacity_succs ts) roots"
  using assms
proof (induction ks arbitrary: j rule: rev_induct)
  case Nil
  then show ?case by (simp add: reach_set_root)
next
  case (snoc k ks)
  then have "mtr_source (ts ! nat k) \<in> reach_set (opacity_succs ts) roots" "j = mtr_target (ts ! nat k)" "nat k < length ts"
    by (auto simp: model_path_append)
  moreover from this(3) have "mtr_target (ts ! nat k) \<in> opacity_succs ts (mtr_source (ts ! nat k))"
    by (auto simp: opacity_succs_def)
  ultimately show ?case by (auto intro: reach_set_edge)
qed

section \<open>The invariant with the ghost depth\<close>

definition parent_ok ::
  "model_transition list \<Rightarrow> int list \<Rightarrow> (int \<Rightarrow> nat) \<Rightarrow> opacity_search \<Rightarrow> int \<Rightarrow> bool" where
  "parent_ok ts initial depth s n \<longleftrightarrow>
     dict_get (osr_parents s) n = Some None \<and> n \<in> set initial \<and> depth n = 0 \<or>
     (\<exists>t \<in> set ts. dict_get (osr_parents s) n = Some (Some t) \<and> mtr_target t = n \<and>
        mtr_source t \<in> set (osr_visited s) \<and> depth n = Suc (depth (mtr_source t)))"

definition edge_ok :: "(int \<Rightarrow> nat) \<Rightarrow> opacity_search \<Rightarrow> model_transition \<Rightarrow> bool" where
  "edge_ok depth s t \<longleftrightarrow>
     (mtr_source t \<in> opacity_expanded s \<longrightarrow>
        mtr_target t \<in> set (osr_visited s) \<and> depth (mtr_target t) \<le> Suc (depth (mtr_source t)))"

definition depth_inv ::
  "model_transition list \<Rightarrow> int list \<Rightarrow> (int \<Rightarrow> nat) \<Rightarrow> opacity_search \<Rightarrow> bool" where
  "depth_inv ts initial depth s \<longleftrightarrow>
     (\<forall>i \<in> set initial. i \<in> set (osr_visited s) \<and> depth i = 0) \<and>
     (\<forall>n \<in> set (osr_visited s). parent_ok ts initial depth s n) \<and>
     (\<forall>t \<in> set ts. edge_ok depth s t) \<and>
     sorted (map depth (osr_queue s)) \<and>
     (\<forall>n \<in> set (osr_queue s). \<forall>m \<in> set (osr_visited s). depth m \<le> Suc (depth n))"

definition queue_inv :: "model_transition list \<Rightarrow> opacity_search \<Rightarrow> bool" where
  "queue_inv ts s \<longleftrightarrow>
     distinct (osr_visited s) \<and> distinct (osr_queue s) \<and> set (osr_queue s) \<subseteq> set (osr_visited s) \<and>
     distinct (osr_explored s) \<and> set (osr_explored s) = {t \<in> set ts. mtr_source t \<in> opacity_expanded s}"

lemma queue_inv_expand:
  assumes inv: "queue_inv ts s" and q: "osr_queue s = n # q" and ts: "distinct ts"
  shows "queue_inv ts (expand_state (adjacency ts) n (s\<lparr>osr_queue := q\<rparr>))"
proof -
  let ?s' = "expand_state (adjacency ts) n (s\<lparr>osr_queue := q\<rparr>)"
  obtain new where new: "osr_visited ?s' = osr_visited s @ new" "osr_queue ?s' = q @ new"
    "osr_explored ?s' = osr_explored s @ filter (\<lambda>t. mtr_source t = n) ts"
    "distinct new" "set new \<inter> set (osr_visited s) = {}"
    unfolding expand_state_def
    by (rule visit_edges_shape [where ts = "edges_from (adjacency ts) n" and s = "s\<lparr>osr_queue := q\<rparr>"]) auto
  have exp: "opacity_expanded ?s' = insert n (opacity_expanded s)" "n \<notin> opacity_expanded s"
    using new(1,2,5) inv q by (auto simp: opacity_expanded_def queue_inv_def)
  show ?thesis
    unfolding queue_inv_def exp(1)
    using inv q ts new exp(2) by (auto simp: queue_inv_def)
qed

lemma depth_inv_expand:
  assumes inv: "depth_inv ts initial depth s" and sq: "queue_inv ts s" and q: "osr_queue s = n # q"
  shows "\<exists>depth'. depth_inv ts initial depth' (expand_state (adjacency ts) n (s\<lparr>osr_queue := q\<rparr>))"
proof -
  let ?s' = "expand_state (adjacency ts) n (s\<lparr>osr_queue := q\<rparr>)"
  obtain new where raw: "osr_visited ?s' = osr_visited s @ new" "osr_queue ?s' = q @ new"
    "set new = mtr_target ` set (edges_from (adjacency ts) n) - set (osr_visited s)"
    and old: "\<And>m. m \<notin> set new \<Longrightarrow> dict_get (osr_parents ?s') m = dict_get (osr_parents s) m"
    and picked: "\<And>m. m \<in> set new \<Longrightarrow> \<exists>t \<in> set (edges_from (adjacency ts) n). mtr_target t = m \<and>
      dict_get (osr_parents ?s') m = Some (Some t)"
    by (rule expand_state_shape [where adj = "adjacency ts" and n = n and s = s and q = q]) blast
  have new: "osr_visited ?s' = osr_visited s @ new" "osr_queue ?s' = q @ new"
    "set new = mtr_target ` {t \<in> set ts. mtr_source t = n} - set (osr_visited s)"
    using raw by simp_all
  have fresh: "\<exists>t \<in> set ts. mtr_source t = n \<and> mtr_target t = m \<and> dict_get (osr_parents ?s') m = Some (Some t)"
    if "m \<in> set new" for m using picked [OF that] by auto
  define depth' where "depth' m = (if m \<in> set new then Suc (depth n) else depth m)" for m
  have n: "n \<in> set (osr_visited s)" "n \<notin> set new" "set q \<subseteq> set (osr_visited s)"
    using sq q new(3) by (auto simp: queue_inv_def)
  have same: "depth' m = depth m" if "m \<in> set (osr_visited s)" for m
    using that new(3) by (simp add: depth'_def)
  have exp: "opacity_expanded ?s' = insert n (opacity_expanded s)"
    using new(1,2,3) sq q by (auto simp: opacity_expanded_def queue_inv_def)
  have bound: "depth m \<le> Suc (depth n)" if "m \<in> set (osr_visited s)" for m
    using inv q that by (simp add: depth_inv_def)
  have queued: "depth n \<le> depth m" if "m \<in> set q" for m
    using inv q that by (simp add: depth_inv_def)
  have "depth_inv ts initial depth' ?s'"
    unfolding depth_inv_def
  proof (intro conjI ballI)
    fix i assume "i \<in> set initial"
    with inv same show "i \<in> set (osr_visited ?s')" "depth' i = 0" by (simp_all add: new(1) depth_inv_def)
  next
    fix m assume m: "m \<in> set (osr_visited ?s')"
    show "parent_ok ts initial depth' ?s' m"
    proof (cases "m \<in> set new")
      case True
      with fresh [OF True] n same [OF n(1)] show ?thesis
        by (auto simp: parent_ok_def new(1) depth'_def)
    next
      case False
      with m have mv: "m \<in> set (osr_visited s)" by (simp add: new(1))
      with inv have "parent_ok ts initial depth s m" by (simp add: depth_inv_def)
      then show ?thesis
        unfolding parent_ok_def old [OF False] same [OF mv] using same by (auto simp: new(1))
    qed
  next
    fix t assume t: "t \<in> set ts"
    show "edge_ok depth' ?s' t"
    proof (cases "mtr_source t = n")
      case True
      with t have "mtr_target t \<in> set (osr_visited s) \<union> set new" by (auto simp: new(3))
      with True bound same n show ?thesis by (auto simp: edge_ok_def new(1) depth'_def)
    next
      case False
      with inv t have "edge_ok depth s t" by (simp add: depth_inv_def)
      moreover have "opacity_expanded s \<subseteq> set (osr_visited s)" by (auto simp: opacity_expanded_def)
      ultimately show ?thesis
        using False same by (cases "mtr_source t \<in> opacity_expanded s") (auto simp: edge_ok_def exp new(1))
    qed
  next
    have mq: "map depth' q = map depth q" using n(3) same by (intro map_cong) auto
    have "sorted (map depth' q)" unfolding mq using inv q by (simp add: depth_inv_def)
    moreover have "map depth' new = replicate (length new) (Suc (depth n))"
      by (simp add: depth'_def map_replicate_const [symmetric])
    moreover have "depth' m \<le> Suc (depth n)" if "m \<in> set q" for m
      using bound n(3) same that by (metis subsetD)
    ultimately show "sorted (map depth' (osr_queue ?s'))"
      by (auto simp: new(2) sorted_append sorted_replicate)
  next
    fix m k assume "m \<in> set (osr_queue ?s')" "k \<in> set (osr_visited ?s')"
    then show "depth' k \<le> Suc (depth' m)"
      using bound queued n same by (fastforce simp: new(1,2) depth'_def)
  qed
  then show ?thesis by blast
qed

text \<open>The state the loop ends in.\<close>

lemma opacity_reach_loop_end:
  assumes "distinct ts" and "distinct initial"
  obtains depth s where "s = reach_loop (adjacency ts) (search_start initial)"
    and "set (osr_visited s) = reach_set (opacity_succs ts) (set initial)"
    and "distinct (osr_visited s)" and "distinct (osr_explored s)"
    and "set (osr_explored s) = {t \<in> set ts. mtr_source t \<in> set (osr_visited s)}"
    and "depth_inv ts initial depth s" and "osr_queue s = []"
proof -
  let ?start = "search_start initial" and ?final = "reach_loop (adjacency ts) (search_start initial)"
  let ?I = "\<lambda>s. (opacity_step ts)\<^sup>*\<^sup>* ?start s \<and> queue_inv ts s \<and> (\<exists>depth. depth_inv ts initial depth s)"
  have parents: "dict_get (foldl (\<lambda>d i. dict_set i None d) d xs) n =
      (if n \<in> set xs then Some None else dict_get d n)" for d :: "(int, model_transition option) pydict" and xs n
    by (induction xs arbitrary: d) auto
  have "queue_inv ts ?start"
    using assms by (simp add: queue_inv_def search_start_def opacity_expanded_def)
  moreover have "depth_inv ts initial (\<lambda>_. 0) ?start"
    by (auto simp: depth_inv_def parent_ok_def edge_ok_def search_start_def opacity_expanded_def parents
        sorted_iff_nth_mono)
  ultimately have start: "?I ?start" by blast
  have step: "?I (expand_state (adjacency ts) n (u\<lparr>osr_queue := q\<rparr>))" if "?I u" "osr_queue u = n # q" for u n q
  proof -
    have "opacity_step ts u (expand_state (adjacency ts) n (u\<lparr>osr_queue := q\<rparr>))"
      unfolding opacity_step_def using that by (auto simp: queue_inv_def)
    then show ?thesis
      using that queue_inv_expand [OF _ that(2) assms(1)] depth_inv_expand [OF _ _ that(2)]
      by (auto intro: rtranclp.rtrancl_into_rtrancl)
  qed
  note fin = reach_loop_invariant [where I = ?I and adj = "adjacency ts", OF start step]
  have "opacity_expanded ?final = reach_set (opacity_succs ts) (set initial)"
    using fin by (intro opacity.run_reaches [of ts ?start])
      (simp_all add: opacity_expanded_def opacity_pending_def search_start_def)
  with fin that show thesis
    by (auto simp: opacity_expanded_def queue_inv_def)
qed

section \<open>The walk walk is a shortest path\<close>

definition shortest_path :: "model_transition list \<Rightarrow> int list \<Rightarrow> int list \<Rightarrow> int \<Rightarrow> bool" where
  "shortest_path ts initial ks n \<longleftrightarrow>
     (\<exists>i \<in> set initial. model_path ts i ks n) \<and>
     (\<forall>i \<in> set initial. \<forall>ls. model_path ts i ls n \<longrightarrow> length ks \<le> length ls)"

lemma path_back_depth:
  assumes inv: "depth_inv ts initial depth s" and ords: "map mtr_ordinal ts = map int [0..<length ts]"
    and "n \<in> set (osr_visited s)"
  shows "\<exists>walk. path_back (osr_parents s) n = Some (Inr walk) \<and> length walk = depth n \<and>
    (\<exists>i \<in> set initial. model_path ts i (rev walk) n)"
  using assms(3)
proof (induction "depth n" arbitrary: n)
  case 0
  then have "parent_ok ts initial depth s n" using inv by (simp add: depth_inv_def)
  with 0 have "dict_get (osr_parents s) n = Some None" "n \<in> set initial"
    by (auto simp: parent_ok_def)
  with 0 show ?case by (subst path_back.simps) auto
next
  case (Suc d)
  then have "parent_ok ts initial depth s n" using inv by (simp add: depth_inv_def)
  with Suc.hyps(2) obtain t where t: "t \<in> set ts" "dict_get (osr_parents s) n = Some (Some t)" "mtr_target t = n"
    "mtr_source t \<in> set (osr_visited s)" "d = depth (mtr_source t)"
    by (auto simp: parent_ok_def)
  from t(1) obtain k where k: "k < length ts" "t = ts ! k" by (auto simp: in_set_conv_nth)
  have "mtr_ordinal t = int k" using arg_cong [OF ords, of "\<lambda>xs. xs ! k"] k by simp
  with Suc.hyps(1) [OF t(5,4)] Suc.hyps(2) t k show ?case
    by (subst path_back.simps) (auto simp: model_path_append)
qed

lemma depth_below_path:
  assumes inv: "depth_inv ts initial depth s" and "osr_queue s = []"
    and "model_path ts i ks n" and "i \<in> set initial"
  shows "n \<in> set (osr_visited s) \<and> depth n \<le> length ks"
  using assms(3)
proof (induction ks arbitrary: n rule: rev_induct)
  case Nil
  with inv assms(4) show ?case by (auto simp: depth_inv_def)
next
  case (snoc k ks)
  then obtain m where m: "model_path ts i ks m" "nat k < length ts" "mtr_source (ts ! nat k) = m" "mtr_target (ts ! nat k) = n"
    by (auto simp: model_path_append)
  with snoc.IH have "m \<in> opacity_expanded s" "depth m \<le> length ks"
    by (auto simp: opacity_expanded_def assms(2))
  moreover have "edge_ok depth s (ts ! nat k)" using inv m(2) by (simp add: depth_inv_def)
  ultimately show ?case using m by (auto simp: edge_ok_def)
qed

text \<open>Every smaller depth occurs on the way, so no walk is longer than what was visited.\<close>

lemma depths_below:
  assumes inv: "depth_inv ts initial depth s" and "n \<in> set (osr_visited s)"
  shows "{..depth n} \<subseteq> depth ` set (osr_visited s)"
  using assms(2)
proof (induction "depth n" arbitrary: n)
  case 0
  then show ?case by (force simp: atMost_Suc)
next
  case (Suc d)
  then have "parent_ok ts initial depth s n" using inv by (simp add: depth_inv_def)
  with Suc.hyps(2) obtain m where m: "m \<in> set (osr_visited s)" "d = depth m"
    by (auto simp: parent_ok_def)
  have "{..depth n} = insert (depth n) {..depth m}"
    unfolding Suc.hyps(2) [symmetric] m(2) by (rule atMost_Suc)
  with Suc.hyps(1) [OF m(2,1)] Suc.prems show ?case by auto
qed

lemma depth_bound:
  assumes "depth_inv ts initial depth s" and "n \<in> set (osr_visited s)"
  shows "depth n < card (set (osr_visited s))"
proof -
  have "card {..depth n} \<le> card (depth ` set (osr_visited s))"
    using depths_below [OF assms] by (intro card_mono) auto
  also have "\<dots> \<le> card (set (osr_visited s))" by (rule card_image_le) simp
  finally show ?thesis by simp
qed

lemma model_path_bound: "model_path ts i ks j \<Longrightarrow> \<forall>k \<in> set ks. 0 \<le> k \<and> k < int (length ts)"
  by (induction ks arbitrary: i) auto

lemma counterexample_path_shortest:
  assumes "depth_inv ts initial depth s" and "osr_queue s = []" and "map mtr_ordinal ts = map int [0..<length ts]"
    and "n \<in> set (osr_visited s)"
  shows "\<exists>ks. counterexample_path n (osr_parents s) = Some (Inr ks) \<and> shortest_path ts initial ks n \<and>
    length ks < card (set (osr_visited s))"
proof -
  obtain walk where b: "path_back (osr_parents s) n = Some (Inr walk)" "length walk = depth n"
    "\<exists>i \<in> set initial. model_path ts i (rev walk) n"
    using path_back_depth [OF assms(1,3,4)] by blast
  with depth_below_path [OF assms(1,2)] depth_bound [OF assms(1,4)] show ?thesis
    by (auto simp: counterexample_path_def shortest_path_def)
qed

end
