(* ===== verification/Opacity_Check.thy ===== *)
theory Opacity_Check
  imports Opacity_Search
begin

text \<open>
  The model check of participant opacity as a whole: admission and capability diagnostics
  (\<open>participant_opacity/_model_check_admission.py\<close>), coverage and evidence
  (\<open>participant_opacity/_model_check.py\<close>) and the constructors the evidence passes
  (\<open>raes_contracts/_participant_opacity_model_check.py\<close>). The members that are copied from the request
  without being compared, and the digests that are computed from members of the same record, are left
  out. A run is \<open>None\<close> when it does not return.
\<close>

section \<open>Admission\<close>

definition opacity_cell_key ::
  "model_state \<Rightarrow> string \<times> string \<times> string \<times> string \<times> string option \<times> string \<times> string" where
  "opacity_cell_key s =
     (mst_initial_key s, mst_observation_key s, mst_memory_key s, mst_release_key s, mst_coalition_key s,
      mst_strategy s, mst_order s)"

definition expected_assumptions :: "model_request \<Rightarrow> opacity_profile \<Rightarrow> model_assumptions res" where
  "expected_assumptions r p =
     (let asm = (\<lambda>kind refs. make_assumptions
            \<lparr>mas_kind = kind, mas_strategies = refs, mas_schedulers = opp_schedulers p, mas_environments = opp_environments p,
             mas_treatment = opp_treatment p, mas_orders = opp_orders p, mas_cut = opp_cut p\<rparr>) in
      case opp_strategies p of
        Some refs \<Rightarrow> asm ACTIVE refs
      | None \<Rightarrow>
          if length (mas_strategies (mrq_assumptions r)) \<noteq> 1 then Inl (RuntimeError ''one fixed strategy'')
          else asm PASSIVE (mas_strategies (mrq_assumptions r)))"

definition validate_profile_bounds :: "model_request \<Rightarrow> opacity_profile \<Rightarrow> unit res" where
  "validate_profile_bounds r p =
     (let c = mrq_counts r in
      case opp_bounds p of
        None \<Rightarrow> Inl (AttributeError ''max_points'')
      | Some b \<Rightarrow>
          if mct_states c > bnd_points b \<or> mct_runs c > bnd_runs b \<or> mct_cuts c > bnd_cuts b \<or>
             mct_strategies c > bnd_strategies b \<or> mct_pairs c > bnd_pairs b \<or> mct_orders c > bnd_orders b
          then Inl (RuntimeError ''governed opacity profile bound'') else Inr ())"

definition validate_state_domains :: "model_request \<Rightarrow> opacity_profile \<Rightarrow> unit res" where
  "validate_state_domains r p =
     (if \<not> declared_domains_ok r then Inl (RuntimeError ''transition-model domain'')
      else if list_ex (\<lambda>s. (mst_coalition_key s \<noteq> None) \<noteq> opp_coalition p) (mrq_states r)
      then Inl (RuntimeError ''coalition coordinates'')
      else Inr ())"

definition validate_initial_domain_coverage :: "model_request \<Rightarrow> unit res" where
  "validate_initial_domain_coverage r = require_that (initial_domain_ok r) (RuntimeError ''initial states'')"

definition validate_admission :: "model_request \<Rightarrow> opacity_profile \<Rightarrow> relation_catalog \<Rightarrow> unit res" where
  "validate_admission r p ctl =
     (if mrq_catalog_digest r \<noteq> ctl_digest ctl then Inl (RuntimeError ''behavioral catalog digest'')
      else if mrq_profile_id r \<noteq> opp_id p \<or> mrq_profile_revision r \<noteq> opp_revision p \<or> mrq_profile_digest r \<noteq> opp_digest p
      then Inl (RuntimeError ''opacity profile identity'')
      else res_bind (expected_assumptions r p) (\<lambda>expected.
        if mrq_assumptions r \<noteq> expected then Inl (RuntimeError ''transition-model assumptions'')
        else res_bind
          (case validate_behavioral_claim_binding (mrq_claim r) ctl p of
             Inl e \<Rightarrow> Inl (RuntimeError ''opacity model-check claim'') | Inr u \<Rightarrow> Inr u) (\<lambda>_.
        res_bind (validate_profile_bounds r p) (\<lambda>_.
        res_bind (validate_state_domains r p) (\<lambda>_.
          validate_initial_domain_coverage r)))))"

section \<open>Capability\<close>

text \<open>A diagnostic is its address and its code, in the order it is sorted by.\<close>

type_synonym opacity_diagnostic = "string \<times> string"

definition incomplete_code :: string where "incomplete_code = ''participant-opacity-model-check.incomplete-model''"
definition bound_code :: string where "bound_code = ''participant-opacity-model-check.bound-exceeded''"
definition scheduler_code :: string where "scheduler_code = ''participant-opacity-model-check.unsupported-scheduler-quantification''"
definition order_code :: string where "order_code = ''participant-opacity-model-check.unsupported-order-treatment''"
definition vacuous_code :: string where "vacuous_code = ''participant-opacity-model-check.vacuous-secret-domain''"

definition checker_max_states :: nat where "checker_max_states = 4096"
definition checker_max_transitions :: nat where "checker_max_transitions = 65536"

definition diagnostic_le :: "opacity_diagnostic \<Rightarrow> opacity_diagnostic \<Rightarrow> bool" where
  "diagnostic_le d e \<longleftrightarrow> fst d < fst e \<or> fst d = fst e \<and> snd d \<le> snd e"

fun insert_diagnostic :: "opacity_diagnostic \<Rightarrow> opacity_diagnostic list \<Rightarrow> opacity_diagnostic list" where
  "insert_diagnostic d [] = [d]"
| "insert_diagnostic d (e # es) = (if diagnostic_le d e then d # e # es else e # insert_diagnostic d es)"

definition unsupported_diagnostics :: "model_request \<Rightarrow> opacity_diagnostic list" where
  "unsupported_diagnostics r =
     (let a = mrq_assumptions r;
          c = mrq_counts r in
      foldr insert_diagnostic
       ((if \<not> mrq_complete r then [(''/complete_model'', incomplete_code)] else []) @
        (if mct_states c > checker_max_states \<or> mct_transitions c > checker_max_transitions
         then [(''/declared_counts'', bound_code)] else []) @
        (if length (mas_schedulers a) \<noteq> 1 \<or> length (mas_environments a) \<noteq> 1 then [(''/assumptions'', scheduler_code)] else []) @
        (if mas_treatment a \<noteq> TOTAL_ORDER then [(''/assumptions/order_treatment'', order_code)] else [])) [])"

section \<open>Evidence\<close>

datatype opacity_outcome = OPACITY_HOLDS | OPACITY_COUNTEREXAMPLE | OPACITY_VACUOUS | OPACITY_UNSUPPORTED

record strategy_coverage =
  scv_strategy :: string
  scv_states :: nat
  scv_transitions :: nat
  scv_evaluation :: nat
  scv_secret :: nat

record model_coverage =
  cov_declared :: model_counts
  cov_states :: nat
  cov_transitions :: nat
  cov_evaluation :: nat
  cov_secret :: nat
  cov_strategies :: "strategy_coverage list"
  cov_pairs :: nat
  cov_orders :: nat
  cov_complete :: bool

record opacity_counterexample =
  ocx_state :: int
  ocx_path :: "int list"
  ocx_strategy :: string
  ocx_cell_size :: nat

record opacity_evidence =
  oev_request :: model_request
  oev_coverage :: model_coverage
  oev_outcome :: opacity_outcome
  oev_diagnostics :: "opacity_diagnostic list"
  oev_counterexample :: "opacity_counterexample option"
  oev_reasons :: "string list option"

definition make_strategy_coverage :: "strategy_coverage \<Rightarrow> strategy_coverage res" where
  "make_strategy_coverage c =
     (if safe_ref (scv_strategy c) \<and> 1 \<le> scv_states c \<and> scv_states c \<le> max_model_states \<and>
         scv_transitions c \<le> max_model_transitions \<and> scv_evaluation c \<le> max_model_states \<and> scv_secret c \<le> max_model_states
      then Inr c else Inl (ValidationError ''ParticipantOpacityStrategyCoverageModel''))"

definition make_coverage :: "model_coverage \<Rightarrow> model_coverage res" where
  "make_coverage c =
     (if cov_states c \<le> max_model_states \<and> cov_transitions c \<le> max_model_transitions \<and>
         cov_evaluation c \<le> max_model_states \<and> cov_secret c \<le> max_model_states \<and>
         length (cov_strategies c) \<le> 1000 \<and> cov_pairs c \<le> 10000 \<and> cov_orders c \<le> 1000 \<and>
         cov_states c \<le> mct_states (cov_declared c) \<and> cov_transitions c \<le> mct_transitions (cov_declared c) \<and>
         cov_evaluation c \<le> cov_states c \<and> cov_secret c \<le> cov_evaluation c \<and>
         sorted_unique (map scv_strategy (cov_strategies c)) \<and>
         sum_list (map scv_states (cov_strategies c)) = cov_states c \<and>
         sum_list (map scv_transitions (cov_strategies c)) = cov_transitions c \<and>
         sum_list (map scv_evaluation (cov_strategies c)) = cov_evaluation c \<and>
         sum_list (map scv_secret (cov_strategies c)) = cov_secret c
      then Inr c else Inl (ValidationError ''ParticipantOpacityModelCheckCoverageModel''))"

definition make_opacity_counterexample :: "opacity_counterexample \<Rightarrow> opacity_counterexample res" where
  "make_opacity_counterexample x =
     (if 0 \<le> ocx_state x \<and> ocx_state x < int max_model_states \<and> length (ocx_path x) \<le> max_model_states \<and> safe_ref (ocx_strategy x) \<and>
         1 \<le> ocx_cell_size x \<and> ocx_cell_size x \<le> max_model_states
      then Inr x else Inl (ValidationError ''ParticipantOpacityModelCheckCounterexampleModel''))"

definition make_reasons :: "string list \<Rightarrow> string list res" where
  "make_reasons codes =
     (if codes \<noteq> [] \<and> length codes \<le> 64 \<and> sorted_unique codes then Inr codes
      else Inl (ValidationError ''UnsupportedParticipantOpacityModelCheckModel''))"

definition evidence_claim_ok :: "model_request \<Rightarrow> bool" where
  "evidence_claim_ok r \<longleftrightarrow>
     clm_taxonomy (mrq_claim r) = opacity_taxonomy \<and> clm_relation (mrq_claim r) = opacity_relation \<and>
     clm_profile (mrq_claim r) = Some (mrq_profile_id r) \<and>
     clm_profile_revision (mrq_claim r) = Some (mrq_profile_revision r) \<and>
     model_check_claim_scope (mrq_claim r) (mrq_assumptions r)"

definition coverage_join_ok :: "model_assumptions \<Rightarrow> model_coverage \<Rightarrow> bool" where
  "coverage_join_ok a c \<longleftrightarrow>
     mct_strategies (cov_declared c) = length (mas_strategies a) \<and>
     mct_pairs (cov_declared c) = length (mas_schedulers a) * length (mas_environments a) \<and>
     mct_orders (cov_declared c) = length (mas_orders a) \<and>
     (cov_complete c \<longrightarrow>
        map scv_strategy (cov_strategies c) = mas_strategies a \<and>
        cov_pairs c = mct_pairs (cov_declared c) \<and> cov_orders c = mct_orders (cov_declared c))"

definition outcome_ok :: "opacity_evidence \<Rightarrow> bool" where
  "outcome_ok e \<longleftrightarrow>
     (oev_counterexample e \<noteq> None) = (oev_outcome e = OPACITY_COUNTEREXAMPLE) \<and>
     (oev_reasons e \<noteq> None) = (oev_outcome e \<in> {OPACITY_VACUOUS, OPACITY_UNSUPPORTED}) \<and>
     (oev_outcome e \<in> {OPACITY_HOLDS, OPACITY_COUNTEREXAMPLE} \<longrightarrow>
        cov_complete (oev_coverage e) \<and> oev_diagnostics e = [] \<and>
        cov_evaluation (oev_coverage e) \<noteq> 0 \<and> cov_secret (oev_coverage e) \<noteq> 0) \<and>
     (oev_outcome e = OPACITY_VACUOUS \<longrightarrow> cov_secret (oev_coverage e) = 0) \<and>
     (case oev_reasons e of None \<Rightarrow> True | Some codes \<Rightarrow> codes = sort (remdups (map snd (oev_diagnostics e)))) \<and>
     (case oev_counterexample e of
        None \<Rightarrow> True
      | Some x \<Rightarrow>
          ocx_state x < int (mct_states (cov_declared (oev_coverage e))) \<and>
          list_all (\<lambda>k. k < int (mct_transitions (cov_declared (oev_coverage e)))) (ocx_path x))"

definition make_opacity_evidence :: "opacity_evidence \<Rightarrow> opacity_evidence res" where
  "make_opacity_evidence e =
     (if length (oev_diagnostics e) \<le> 64 \<and> evidence_claim_ok (oev_request e) \<and>
         coverage_join_ok (mrq_assumptions (oev_request e)) (oev_coverage e) \<and> outcome_ok e
      then Inr e else Inl (ValidationError ''ParticipantOpacityModelCheckEvidenceModel''))"

section \<open>Coverage\<close>

definition empty_coverage :: "model_request \<Rightarrow> model_coverage res" where
  "empty_coverage r =
     make_coverage
       \<lparr>cov_declared = mrq_counts r, cov_states = 0, cov_transitions = 0, cov_evaluation = 0, cov_secret = 0,
        cov_strategies = [], cov_pairs = 0, cov_orders = 0, cov_complete = False\<rparr>"

definition transition_sources :: "model_request \<Rightarrow> model_transition list \<Rightarrow> (int, string) pydict" where
  "transition_sources r ts =
     foldl (\<lambda>d t. dict_set (mtr_ordinal t) (mst_strategy (state_of r (mtr_source t))) d) [] ts"

definition strategy_row :: "model_request \<Rightarrow> model_state list \<Rightarrow> model_transition list \<Rightarrow> string \<Rightarrow> strategy_coverage res" where
  "strategy_row r ss ts ref =
     (let mine = filter (\<lambda>s. mst_strategy s = ref) ss;
          evaluation = filter mst_evaluation mine in
      make_strategy_coverage
        \<lparr>scv_strategy = ref, scv_states = length mine,
         scv_transitions = length (filter (\<lambda>t. dict_get (transition_sources r ts) (mtr_ordinal t) = Some ref) ts),
         scv_evaluation = length evaluation, scv_secret = length (filter mst_secret evaluation)\<rparr>)"

definition model_check_coverage :: "model_request \<Rightarrow> model_state list \<Rightarrow> model_transition list \<Rightarrow> model_coverage res" where
  "model_check_coverage r ss ts =
     (let evaluation = filter mst_evaluation ss in
      res_bind (res_map (strategy_row r ss ts) (mas_strategies (mrq_assumptions r))) (\<lambda>rows.
        make_coverage
          \<lparr>cov_declared = mrq_counts r, cov_states = length ss, cov_transitions = length ts,
           cov_evaluation = length evaluation, cov_secret = length (filter mst_secret evaluation),
           cov_strategies = rows, cov_pairs = distinct_count (\<lambda>s. (mst_scheduler s, mst_environment s)) ss,
           cov_orders = distinct_count mst_order ss, cov_complete = True\<rparr>))"

section \<open>The check\<close>

definition unsupported_evidence :: "model_request \<Rightarrow> opacity_diagnostic list \<Rightarrow> opacity_evidence res" where
  "unsupported_evidence r diagnostics =
     res_bind (empty_coverage r) (\<lambda>coverage.
     res_bind (make_reasons (sort (remdups (map snd diagnostics)))) (\<lambda>codes.
       make_opacity_evidence
         \<lparr>oev_request = r, oev_coverage = coverage, oev_outcome = OPACITY_UNSUPPORTED, oev_diagnostics = diagnostics,
          oev_counterexample = None, oev_reasons = Some codes\<rparr>))"

definition vacuous_evidence :: "model_request \<Rightarrow> model_coverage \<Rightarrow> opacity_evidence res" where
  "vacuous_evidence r coverage =
     res_bind (make_reasons [vacuous_code]) (\<lambda>codes.
       make_opacity_evidence
         \<lparr>oev_request = r, oev_coverage = coverage, oev_outcome = OPACITY_VACUOUS,
          oev_diagnostics = [(''/states'', vacuous_code)], oev_counterexample = None, oev_reasons = Some codes\<rparr>)"

definition counterexample_evidence ::
  "model_request \<Rightarrow> model_coverage \<Rightarrow> int \<Rightarrow> nat option \<Rightarrow> int list res \<Rightarrow> opacity_evidence res" where
  "counterexample_evidence r coverage actual cell path =
     (case cell of
        None \<Rightarrow> Inl (AssertionError ''counterexample_cell_size'')
      | Some examined \<Rightarrow>
          res_bind path (\<lambda>ks.
          res_bind (make_opacity_counterexample
              \<lparr>ocx_state = actual, ocx_path = ks, ocx_strategy = mst_strategy (state_of r actual), ocx_cell_size = examined\<rparr>) (\<lambda>x.
            make_opacity_evidence
              \<lparr>oev_request = r, oev_coverage = coverage, oev_outcome = OPACITY_COUNTEREXAMPLE, oev_diagnostics = [],
               oev_counterexample = Some x, oev_reasons = None\<rparr>)))"

definition holds_evidence :: "model_request \<Rightarrow> model_coverage \<Rightarrow> opacity_evidence res" where
  "holds_evidence r coverage =
     make_opacity_evidence
       \<lparr>oev_request = r, oev_coverage = coverage, oev_outcome = OPACITY_HOLDS, oev_diagnostics = [],
        oev_counterexample = None, oev_reasons = None\<rparr>"

definition reachable_evidence :: "model_request \<Rightarrow> opacity_evidence res option" where
  "reachable_evidence r =
     (case reachable_fixed_point r of (ss, ts, parents) \<Rightarrow>
        case res_bind (model_check_coverage r ss ts) (\<lambda>coverage.
             res_bind (evaluate_opacity_kernel opacity_cell_key mst_ordinal mst_secret (filter mst_evaluation ss)) (\<lambda>found.
               Inr (coverage, found))) of
          Inl e \<Rightarrow> Some (Inl e)
        | Inr (coverage, found) \<Rightarrow>
            if okr_secret_points found = 0 then Some (vacuous_evidence r coverage)
            else (case okr_actual found of
                None \<Rightarrow> Some (holds_evidence r coverage)
              | Some actual \<Rightarrow>
                  map_option (counterexample_evidence r coverage actual (okr_cell_size found))
                    (counterexample_path actual parents)))"

definition model_check_participant_opacity_input ::
  "model_request \<Rightarrow> opacity_profile \<Rightarrow> relation_catalog \<Rightarrow> opacity_evidence res option" where
  "model_check_participant_opacity_input r p ctl =
     (case validate_admission r p ctl of
        Inl e \<Rightarrow> Some (Inl e)
      | Inr _ \<Rightarrow>
          (let diagnostics = unsupported_diagnostics r in
           if diagnostics \<noteq> [] then Some (unsupported_evidence r diagnostics)
           else reachable_evidence r))"

text \<open>Replay compares the canonical form of what it recomputes with that of the stored evidence.\<close>

definition replay_participant_opacity_model_check_evidence ::
  "model_request \<Rightarrow> opacity_profile \<Rightarrow> relation_catalog \<Rightarrow> opacity_evidence \<Rightarrow> opacity_evidence res option" where
  "replay_participant_opacity_model_check_evidence r p ctl e =
     map_option (\<lambda>run. res_bind run (\<lambda>replayed.
       if replayed \<noteq> e then Inl (ValueError ''evidence did not reproduce'') else Inr replayed))
       (model_check_participant_opacity_input r p ctl)"

end
