(* ===== verification/Opacity_Coverage.thy ===== *)
theory Opacity_Coverage
  imports Opacity_Check
begin

text \<open>
  What the model check counts: the reachable part of an admitted request, its coverage and why the
  evidence constructors accept it.
\<close>

section \<open>The reachable part of a request\<close>

definition reachable_ordinals :: "model_request \<Rightarrow> int set" where
  "reachable_ordinals r = reach_set (opacity_succs (mrq_transitions r)) (set (mrq_initial r))"

definition point_ordinals :: "model_request \<Rightarrow> int set" where
  "point_ordinals r = {n \<in> reachable_ordinals r. mst_evaluation (state_of r n)}"

definition secret_ordinals :: "model_request \<Rightarrow> int set" where
  "secret_ordinals r = {n \<in> point_ordinals r. mst_secret (state_of r n)}"

text \<open>The observer cannot tell two points of one cell apart.\<close>

definition same_cell :: "model_request \<Rightarrow> int \<Rightarrow> int \<Rightarrow> bool" where
  "same_cell r m n \<longleftrightarrow> opacity_cell_key (state_of r m) = opacity_cell_key (state_of r n)"

text \<open>Every secret point has a companion in its cell where the secret does not hold.\<close>

definition opacity_holds :: "model_request \<Rightarrow> bool" where
  "opacity_holds r \<longleftrightarrow>
     (\<forall>n \<in> secret_ordinals r. \<exists>m \<in> point_ordinals r. same_cell r m n \<and> \<not> mst_secret (state_of r m))"

definition initial_nonneg :: "model_request \<Rightarrow> bool" where
  "initial_nonneg r \<longleftrightarrow> list_all (\<lambda>i. 0 \<le> i) (mrq_initial r)"

lemma make_request_facts:
  assumes "make_request r = Inr r"
  shows "map mst_ordinal (mrq_states r) = map int [0..<length (mrq_states r)]"
    and "map mtr_ordinal (mrq_transitions r) = map int [0..<length (mrq_transitions r)]"
    and "distinct (mrq_initial r)"
    and "\<forall>i \<in> set (mrq_initial r). - int (length (mrq_states r)) \<le> i \<and> i < int (length (mrq_states r))"
    and "\<forall>t \<in> set (mrq_transitions r). 0 \<le> mtr_source t \<and> mtr_source t < int (length (mrq_states r)) \<and>
           0 \<le> mtr_target t \<and> mtr_target t < int (length (mrq_states r))"
    and "length (mrq_states r) \<le> max_model_states" and "length (mrq_transitions r) \<le> max_model_transitions"
    and "model_counts_ok r" and "declared_domains_ok r" and "initial_domain_ok r"
    and "model_check_claim_scope (mrq_claim r) (mrq_assumptions r)"
    and "ref_domain_ok (mas_strategies (mrq_assumptions r))" and "ref_domain_ok (mas_schedulers (mrq_assumptions r))"
    and "ref_domain_ok (mas_environments (mrq_assumptions r))" and "ref_domain_ok (mas_orders (mrq_assumptions r))"
    and "list_all model_state_ok (mrq_states r)"
proof -
  have acc: "model_identities_ok r" "model_transitions_ok r" "is_ok (make_assumptions (mrq_assumptions r))"
    "list_all model_transition_ok (mrq_transitions r)" "\<not> list_ex (\<lambda>i. i < - int (length (mrq_states r))) (mrq_initial r)"
    using assms by (simp_all add: make_request_def split: if_splits)
  show "length (mrq_states r) \<le> max_model_states" "length (mrq_transitions r) \<le> max_model_transitions"
    "model_counts_ok r" "declared_domains_ok r" "initial_domain_ok r"
    "model_check_claim_scope (mrq_claim r) (mrq_assumptions r)" "list_all model_state_ok (mrq_states r)"
    using assms by (simp_all add: make_request_def split: if_splits)
  show "map mst_ordinal (mrq_states r) = map int [0..<length (mrq_states r)]"
    "map mtr_ordinal (mrq_transitions r) = map int [0..<length (mrq_transitions r)]"
    using acc(1) by (simp_all add: model_identities_ok_def)
  show "\<forall>i \<in> set (mrq_initial r). - int (length (mrq_states r)) \<le> i \<and> i < int (length (mrq_states r))"
    using acc(1,5) by (auto simp: model_identities_ok_def list_all_iff list_ex_iff not_less)
  show "distinct (mrq_initial r)"
    using acc(1) by (metis distinct_remdups distinct_sort model_identities_ok_def)
  show "\<forall>t \<in> set (mrq_transitions r). 0 \<le> mtr_source t \<and> mtr_source t < int (length (mrq_states r)) \<and>
      0 \<le> mtr_target t \<and> mtr_target t < int (length (mrq_states r))"
    using acc(2,4) by (simp add: model_transitions_ok_def model_transition_ok_def list_all_iff)
  show "ref_domain_ok (mas_strategies (mrq_assumptions r))" "ref_domain_ok (mas_schedulers (mrq_assumptions r))"
    "ref_domain_ok (mas_environments (mrq_assumptions r))" "ref_domain_ok (mas_orders (mrq_assumptions r))"
    using acc(3) by (simp_all add: make_assumptions_def split: if_splits)
qed

lemma ref_domain_distinct: "ref_domain_ok refs \<Longrightarrow> distinct refs"
  by (metis distinct_remdups distinct_sort ref_domain_ok_def sorted_unique_def)

lemma state_of_nth: "0 \<le> n \<Longrightarrow> state_of r n = mrq_states r ! nat n"
  by (simp add: state_of_def)

lemma state_of_in: "0 \<le> n \<Longrightarrow> n < int (length (mrq_states r)) \<Longrightarrow> state_of r n \<in> set (mrq_states r)"
  by (simp add: state_of_nth)

lemma ordinal_of_state:
  assumes "make_request r = Inr r" and "0 \<le> n" and "n < int (length (mrq_states r))"
  shows "mst_ordinal (state_of r n) = n"
  using arg_cong [OF make_request_facts(1) [OF assms(1)], of "\<lambda>xs. xs ! nat n"] assms(2,3) by (simp add: state_of_nth)

lemma distinct_transition_ordinals:
  "make_request r = Inr r \<Longrightarrow> distinct (map mtr_ordinal (mrq_transitions r))"
  by (simp add: make_request_facts(2) distinct_map)

lemma reachable_bound:
  assumes "make_request r = Inr r" and "initial_nonneg r"
  shows "reachable_ordinals r \<subseteq> {0..<int (length (mrq_states r))}"
  unfolding reachable_ordinals_def
  using make_request_facts(4,5) [OF assms(1)] assms(2)
  by (intro reach_set_least) (auto simp: opacity_succs_def initial_nonneg_def list_all_iff)

lemma reachable_finite: "make_request r = Inr r \<Longrightarrow> initial_nonneg r \<Longrightarrow> finite (reachable_ordinals r)"
  using reachable_bound finite_subset by blast

lemma initial_reachable: "set (mrq_initial r) \<subseteq> reachable_ordinals r"
  by (auto simp: reachable_ordinals_def intro: reach_set_root)

text \<open>The result of the fixed point.\<close>

lemma reachable_fixed_point_result:
  assumes "make_request r = Inr r"
  obtains ns ts parents where
    "reachable_fixed_point r = (map (state_of r) ns, ts, parents)"
    "sorted ns" "distinct ns" "set ns = reachable_ordinals r"
    "distinct ts" "set ts = {t \<in> set (mrq_transitions r). mtr_source t \<in> reachable_ordinals r}"
    "\<And>n. n \<in> reachable_ordinals r \<Longrightarrow>
       \<exists>ks. counterexample_path n parents = Some (Inr ks) \<and> shortest_path (mrq_transitions r) (mrq_initial r) ks n \<and>
         length ks < card (reachable_ordinals r)"
proof -
  have distinct: "distinct (mrq_transitions r)"
    using distinct_transition_ordinals [OF assms] by (simp add: distinct_map)
  obtain depth s where s: "s = reach_loop (adjacency (mrq_transitions r)) (search_start (mrq_initial r))"
    "set (osr_visited s) = reachable_ordinals r" "distinct (osr_visited s)" "distinct (osr_explored s)"
    "set (osr_explored s) = {t \<in> set (mrq_transitions r). mtr_source t \<in> set (osr_visited s)}"
    "depth_inv (mrq_transitions r) (mrq_initial r) depth s" "osr_queue s = []"
    by (rule opacity_reach_loop_end [OF distinct make_request_facts(3) [OF assms], folded reachable_ordinals_def]) blast
  show thesis
  proof (rule that)
    show "reachable_fixed_point r =
        (map (state_of r) (sort (osr_visited s)), osr_explored s, osr_parents s)"
      by (simp add: reachable_fixed_point_def s(1) Let_def)
    show "\<exists>ks. counterexample_path n (osr_parents s) = Some (Inr ks) \<and>
        shortest_path (mrq_transitions r) (mrq_initial r) ks n \<and> length ks < card (reachable_ordinals r)" if "n \<in> reachable_ordinals r" for n
      using counterexample_path_shortest [OF s(6,7) make_request_facts(2) [OF assms]] s(2) that by simp
  qed (use s in simp_all)
qed

section \<open>Counting\<close>

lemma sum_over_classes:
  assumes "distinct refs" and "\<forall>x \<in> set xs. f x \<in> set refs"
  shows "sum_list (map (\<lambda>ref. length (filter (\<lambda>x. f x = ref) xs)) refs) = length xs"
  using assms(2)
proof (induction xs)
  case Nil
  show ?case by simp
next
  case (Cons x xs)
  have one: "sum_list (map (\<lambda>ref. if f x = ref then 1 else 0 :: nat) refs) = 1"
    using assms(1) Cons.prems by (simp add: sum_list_distinct_conv_sum_set)
  have "sum_list (map (\<lambda>ref. length (filter (\<lambda>x. f x = ref) (x # xs))) refs) =
      sum_list (map (\<lambda>ref. (if f x = ref then 1 else 0) + length (filter (\<lambda>x. f x = ref) xs)) refs)"
    by (intro arg_cong [where f = sum_list] map_cong) auto
  also have "\<dots> = Suc (length xs)"
    using Cons one by (simp add: sum_list_addf)
  finally show ?case by simp
qed

lemma distinct_count_card: "distinct_count f xs = card (f ` set xs)"
  by (simp add: distinct_count_def length_remdups_card_conv)

lemma filter_filter_commute: "filter P (filter Q xs) = filter Q (filter P xs)"
  by (simp add: conj_commute)

lemma length_filter_card: "distinct ns \<Longrightarrow> length (filter P (map f ns)) = card {n \<in> set ns. P (f n)}"
  by (simp add: filter_map comp_def distinct_card [symmetric])

lemma transition_sources_get:
  assumes "distinct (map mtr_ordinal ts)" and "t \<in> set ts"
  shows "dict_get (transition_sources r ts) (mtr_ordinal t) = Some (mst_strategy (state_of r (mtr_source t)))"
  using assms
  by (induction ts rule: rev_induct) (auto simp: transition_sources_def image_iff)

section \<open>The coverage of an admitted request\<close>

lemma request_strategies:
  assumes "make_request r = Inr r" and "0 \<le> n" and "n < int (length (mrq_states r))"
  shows "mst_strategy (state_of r n) \<in> set (mas_strategies (mrq_assumptions r))"
  using make_request_facts(9) [OF assms(1)] state_of_in [OF assms(2,3)] by (auto simp: declared_domains_ok_def Let_def)

text \<open>An initial state for every declared domain: what is reached covers strategies, pairs and orders.\<close>

lemma domain_reached:
  assumes "make_request r = Inr r" and "st \<in> set (mas_strategies (mrq_assumptions r))"
    and "sc \<in> set (mas_schedulers (mrq_assumptions r))" and "en \<in> set (mas_environments (mrq_assumptions r))"
    and "od \<in> set (mas_orders (mrq_assumptions r))"
  obtains n where "n \<in> reachable_ordinals r" and "state_domain (state_of r n) = (st, sc, en, od)"
proof -
  have "(st, sc, en, od) \<in> (\<lambda>i. state_domain (state_of r i)) ` set (mrq_initial r)"
    using make_request_facts(10) [OF assms(1)] assms(2-) by (simp add: initial_domain_ok_def Let_def)
  then obtain i where "i \<in> set (mrq_initial r)" "state_domain (state_of r i) = (st, sc, en, od)"
    by (metis (no_types, lifting) imageE)
  with initial_reachable that show thesis by blast
qed

lemma domains_nonempty:
  assumes "make_request r = Inr r"
  obtains st sc en od where "st \<in> set (mas_strategies (mrq_assumptions r))"
    and "sc \<in> set (mas_schedulers (mrq_assumptions r))" and "en \<in> set (mas_environments (mrq_assumptions r))"
    and "od \<in> set (mas_orders (mrq_assumptions r))"
  using make_request_facts(12-15) [OF assms] that unfolding ref_domain_ok_def by (metis list.set_sel(1))

definition reached_states :: "model_request \<Rightarrow> model_state set" where
  "reached_states r = state_of r ` reachable_ordinals r"

lemma reached_pairs:
  assumes "make_request r = Inr r" and "initial_nonneg r"
  shows "(\<lambda>s. (mst_scheduler s, mst_environment s)) ` reached_states r =
    (\<lambda>s. (mst_scheduler s, mst_environment s)) ` set (mrq_states r)"
proof
  show "(\<lambda>s. (mst_scheduler s, mst_environment s)) ` reached_states r \<subseteq>
      (\<lambda>s. (mst_scheduler s, mst_environment s)) ` set (mrq_states r)"
    using reachable_bound [OF assms] state_of_in by (force simp: reached_states_def)
  show "(\<lambda>s. (mst_scheduler s, mst_environment s)) ` set (mrq_states r) \<subseteq>
      (\<lambda>s. (mst_scheduler s, mst_environment s)) ` reached_states r"
  proof
    fix x assume "x \<in> (\<lambda>s. (mst_scheduler s, mst_environment s)) ` set (mrq_states r)"
    then obtain sc en where x: "x = (sc, en)" "sc \<in> set (mas_schedulers (mrq_assumptions r))"
        "en \<in> set (mas_environments (mrq_assumptions r))"
      using make_request_facts(9) [OF assms(1)] by (auto simp: declared_domains_ok_def Let_def)
    obtain st od where "st \<in> set (mas_strategies (mrq_assumptions r))" "od \<in> set (mas_orders (mrq_assumptions r))"
      by (rule domains_nonempty [OF assms(1)])
    then obtain n where "n \<in> reachable_ordinals r" "state_domain (state_of r n) = (st, sc, en, od)"
      using domain_reached [OF assms(1) _ x(2,3)] by blast
    then show "x \<in> (\<lambda>s. (mst_scheduler s, mst_environment s)) ` reached_states r"
      unfolding reached_states_def x(1) by (auto simp: state_domain_def image_iff intro!: bexI [of _ n])
  qed
qed

lemma reached_orders:
  assumes "make_request r = Inr r" and "initial_nonneg r"
  shows "mst_order ` reached_states r = mst_order ` set (mrq_states r)"
proof
  show "mst_order ` reached_states r \<subseteq> mst_order ` set (mrq_states r)"
    using reachable_bound [OF assms] state_of_in by (force simp: reached_states_def)
  show "mst_order ` set (mrq_states r) \<subseteq> mst_order ` reached_states r"
  proof
    fix od assume "od \<in> mst_order ` set (mrq_states r)"
    then have od: "od \<in> set (mas_orders (mrq_assumptions r))"
      using make_request_facts(9) [OF assms(1)] by (simp add: declared_domains_ok_def Let_def)
    obtain st sc en where "st \<in> set (mas_strategies (mrq_assumptions r))"
      "sc \<in> set (mas_schedulers (mrq_assumptions r))" "en \<in> set (mas_environments (mrq_assumptions r))"
      by (rule domains_nonempty [OF assms(1)])
    then obtain n where "n \<in> reachable_ordinals r" "state_domain (state_of r n) = (st, sc, en, od)"
      using domain_reached [OF assms(1) _ _ _ od] by blast
    then show "od \<in> mst_order ` reached_states r"
      unfolding reached_states_def by (auto simp: state_domain_def image_iff intro!: bexI [of _ n])
  qed
qed

text \<open>The row of one strategy, as the code computes it and as it is meant.\<close>

definition strategy_counts :: "model_request \<Rightarrow> model_state list \<Rightarrow> model_transition list \<Rightarrow> string \<Rightarrow> strategy_coverage" where
  "strategy_counts r ss ts ref =
     \<lparr>scv_strategy = ref, scv_states = length (filter (\<lambda>s. mst_strategy s = ref) ss),
      scv_transitions = length (filter (\<lambda>t. mst_strategy (state_of r (mtr_source t)) = ref) ts),
      scv_evaluation = length (filter (\<lambda>s. mst_strategy s = ref) (filter mst_evaluation ss)),
      scv_secret = length (filter (\<lambda>s. mst_strategy s = ref) (filter mst_secret (filter mst_evaluation ss)))\<rparr>"

lemma strategy_row_run:
  assumes "distinct (map mtr_ordinal ts)" and "safe_ref ref" and "\<exists>s \<in> set ss. mst_strategy s = ref"
    and "length ss \<le> max_model_states" and "length ts \<le> max_model_transitions"
  shows "strategy_row r ss ts ref = Inr (strategy_counts r ss ts ref)"
proof -
  have ts: "filter (\<lambda>t. dict_get (transition_sources r ts) (mtr_ordinal t) = Some ref) ts =
      filter (\<lambda>t. mst_strategy (state_of r (mtr_source t)) = ref) ts"
    using transition_sources_get [OF assms(1)] by (intro filter_cong) auto
  have ss: "filter mst_evaluation (filter (\<lambda>s. mst_strategy s = ref) ss) = filter (\<lambda>s. mst_strategy s = ref) (filter mst_evaluation ss)"
    "filter mst_secret (filter (\<lambda>s. mst_strategy s = ref) (filter mst_evaluation ss)) =
     filter (\<lambda>s. mst_strategy s = ref) (filter mst_secret (filter mst_evaluation ss))"
    by (rule filter_filter_commute)+
  have row: "strategy_row r ss ts ref = make_strategy_coverage (strategy_counts r ss ts ref)"
    unfolding strategy_row_def strategy_counts_def Let_def ts ss by (rule refl)
  have "filter (\<lambda>s. mst_strategy s = ref) ss \<noteq> []" using assms(3) by (auto simp: filter_empty_conv)
  moreover have "length (filter P ss) \<le> max_model_states" "length (filter Q ts) \<le> max_model_transitions" for P Q
    using assms(4,5) length_filter_le le_trans by blast+
  ultimately show ?thesis
    using assms(2) by (simp add: row make_strategy_coverage_def strategy_counts_def Suc_le_eq)
qed

lemma request_counts:
  assumes "make_request r = Inr r"
  shows "mct_states (mrq_counts r) = length (mrq_states r)"
    and "mct_transitions (mrq_counts r) = length (mrq_transitions r)"
    and "mct_strategies (mrq_counts r) = length (mas_strategies (mrq_assumptions r))"
    and "mct_pairs (mrq_counts r) = length (mas_schedulers (mrq_assumptions r)) * length (mas_environments (mrq_assumptions r))"
    and "mct_orders (mrq_counts r) = length (mas_orders (mrq_assumptions r))"
    and "mct_pairs (mrq_counts r) = distinct_count (\<lambda>s. (mst_scheduler s, mst_environment s)) (mrq_states r)"
    and "mct_orders (mrq_counts r) = distinct_count mst_order (mrq_states r)"
    and "mct_pairs (mrq_counts r) \<le> 10000" and "mct_orders (mrq_counts r) \<le> 1000"
proof -
  note counts = make_request_facts(8) [OF assms, unfolded model_counts_ok_def]
    and domains = make_request_facts(9) [OF assms, unfolded declared_domains_ok_def Let_def]
  note dist = make_request_facts(12-15) [OF assms, THEN ref_domain_distinct]
  show "mct_states (mrq_counts r) = length (mrq_states r)" "mct_transitions (mrq_counts r) = length (mrq_transitions r)"
    and pairs: "mct_pairs (mrq_counts r) = distinct_count (\<lambda>s. (mst_scheduler s, mst_environment s)) (mrq_states r)"
    and orders: "mct_orders (mrq_counts r) = distinct_count mst_order (mrq_states r)"
    by (subst counts, simp)+
  have "mct_strategies (mrq_counts r) = distinct_count mst_strategy (mrq_states r)" by (subst counts) simp
  with domains dist show "mct_strategies (mrq_counts r) = length (mas_strategies (mrq_assumptions r))"
    by (simp add: distinct_count_card distinct_card)
  show "mct_orders (mrq_counts r) = length (mas_orders (mrq_assumptions r))"
    using domains dist by (simp add: orders distinct_count_card distinct_card)
  show "mct_pairs (mrq_counts r) = length (mas_schedulers (mrq_assumptions r)) * length (mas_environments (mrq_assumptions r))"
    using domains dist by (simp add: pairs distinct_count_card distinct_card card_cartesian_product)
  have "is_ok (make_counts (mrq_counts r))" using assms by (simp add: make_request_def split: if_splits)
  then show "mct_pairs (mrq_counts r) \<le> 10000" "mct_orders (mrq_counts r) \<le> 1000"
    by (simp_all add: make_counts_def split: if_splits)
qed

lemma model_check_coverage_run:
  assumes r: "make_request r = Inr r" and nonneg: "initial_nonneg r" and ns: "distinct ns" "set ns = reachable_ordinals r"
    and ts: "distinct ts" "set ts = {t \<in> set (mrq_transitions r). mtr_source t \<in> reachable_ordinals r}"
  obtains cov where "model_check_coverage r (map (state_of r) ns) ts = Inr cov"
    and "cov_declared cov = mrq_counts r" and "cov_complete cov"
    and "cov_states cov = card (reachable_ordinals r)"
    and "cov_transitions cov = card {t \<in> set (mrq_transitions r). mtr_source t \<in> reachable_ordinals r}"
    and "cov_evaluation cov = card (point_ordinals r)" and "cov_secret cov = card (secret_ordinals r)"
    and "coverage_join_ok (mrq_assumptions r) cov"
proof -
  let ?ss = "map (state_of r) ns" and ?refs = "mas_strategies (mrq_assumptions r)"
  let ?rows = "map (strategy_counts r ?ss ts) ?refs"
  let ?cov = "\<lparr>cov_declared = mrq_counts r, cov_states = length ?ss, cov_transitions = length ts,
      cov_evaluation = length (filter mst_evaluation ?ss), cov_secret = length (filter mst_secret (filter mst_evaluation ?ss)),
      cov_strategies = ?rows, cov_pairs = distinct_count (\<lambda>s. (mst_scheduler s, mst_environment s)) ?ss,
      cov_orders = distinct_count mst_order ?ss, cov_complete = True\<rparr>"
  have states: "set ?ss = reached_states r" by (simp add: reached_states_def ns(2))
  have bound: "\<forall>n \<in> set ns. 0 \<le> n \<and> n < int (length (mrq_states r))" using reachable_bound [OF r nonneg] ns(2) by auto
  have len: "length ns \<le> length (mrq_states r)"
    using card_mono [of "{0..<int (length (mrq_states r))}" "set ns"] bound by (auto simp: distinct_card ns(1) subset_eq)
  have "length ts = card (set ts)" using ts(1) by (simp add: distinct_card)
  also have "\<dots> \<le> card (set (mrq_transitions r))" using ts(2) by (intro card_mono) auto
  also have "\<dots> \<le> length (mrq_transitions r)" by (rule card_length)
  finally have lts: "length ts \<le> length (mrq_transitions r)" .
  have ords: "distinct (map mtr_ordinal ts)"
    using distinct_transition_ordinals [OF r] ts by (auto simp: distinct_map intro: inj_on_subset)
  have refs: "ref_domain_ok ?refs" by (rule make_request_facts(12) [OF r])
  have rows: "res_map (strategy_row r ?ss ts) ?refs = Inr ?rows"
  proof (rule res_map_total)
    fix ref assume ref: "ref \<in> set ?refs"
    obtain sc en od where dom: "sc \<in> set (mas_schedulers (mrq_assumptions r))"
      "en \<in> set (mas_environments (mrq_assumptions r))" "od \<in> set (mas_orders (mrq_assumptions r))"
      by (rule domains_nonempty [OF r])
    obtain n where "n \<in> reachable_ordinals r" "state_domain (state_of r n) = (ref, sc, en, od)"
      by (rule domain_reached [OF r ref dom])
    then have "\<exists>s \<in> set ?ss. mst_strategy s = ref"
      unfolding states reached_states_def by (auto simp: state_domain_def)
    moreover have "safe_ref ref" using refs ref by (simp add: ref_domain_ok_def list_all_iff)
    ultimately show "strategy_row r ?ss ts ref = Inr (strategy_counts r ?ss ts ref)"
      using len lts make_request_facts(6,7) [OF r] by (intro strategy_row_run ords) simp_all
  qed
  have names: "map scv_strategy ?rows = ?refs" by (simp add: strategy_counts_def comp_def)
  have sums: "sum_list (map scv_states ?rows) = length ?ss" "sum_list (map scv_transitions ?rows) = length ts"
    "sum_list (map scv_evaluation ?rows) = length (filter mst_evaluation ?ss)"
    "sum_list (map scv_secret ?rows) = length (filter mst_secret (filter mst_evaluation ?ss))"
  proof -
    have st: "\<forall>s \<in> set ?ss. mst_strategy s \<in> set ?refs" using request_strategies [OF r] bound by auto
    have tr: "\<forall>t \<in> set ts. mst_strategy (state_of r (mtr_source t)) \<in> set ?refs"
      using request_strategies [OF r] make_request_facts(5) [OF r] ts(2) by blast
    have proj: "map scv_states ?rows = map (\<lambda>ref. length (filter (\<lambda>s. mst_strategy s = ref) ?ss)) ?refs"
      "map scv_transitions ?rows = map (\<lambda>ref. length (filter (\<lambda>t. mst_strategy (state_of r (mtr_source t)) = ref) ts)) ?refs"
      "map scv_evaluation ?rows = map (\<lambda>ref. length (filter (\<lambda>s. mst_strategy s = ref) (filter mst_evaluation ?ss))) ?refs"
      "map scv_secret ?rows = map (\<lambda>ref. length (filter (\<lambda>s. mst_strategy s = ref) (filter mst_secret (filter mst_evaluation ?ss)))) ?refs"
      unfolding map_map comp_def strategy_counts_def strategy_coverage.simps by (rule refl)+
    note by_class = sum_over_classes [OF ref_domain_distinct [OF refs]]
    show "sum_list (map scv_states ?rows) = length ?ss" unfolding proj by (rule by_class [OF st])
    show "sum_list (map scv_transitions ?rows) = length ts" unfolding proj by (rule by_class [OF tr])
    show "sum_list (map scv_evaluation ?rows) = length (filter mst_evaluation ?ss)"
      unfolding proj using st by (intro by_class) auto
    show "sum_list (map scv_secret ?rows) = length (filter mst_secret (filter mst_evaluation ?ss))"
      unfolding proj using st by (intro by_class) auto
  qed
  have doms: "cov_pairs ?cov = mct_pairs (mrq_counts r)" "cov_orders ?cov = mct_orders (mrq_counts r)"
    by (simp_all only: model_coverage.simps distinct_count_card states reached_pairs [OF r nonneg] reached_orders [OF r nonneg]
        request_counts(6,7) [OF r])
  have "make_coverage ?cov = Inr ?cov"
  proof -
    have lens: "length (filter mst_evaluation ?ss) \<le> length ?ss"
      "length (filter mst_secret (filter mst_evaluation ?ss)) \<le> length (filter mst_evaluation ?ss)"
      by (rule length_filter_le)+
    have mx: "length ?ss \<le> max_model_states" using len make_request_facts(6) [OF r] by simp
    have "length (filter mst_evaluation ?ss) \<le> max_model_states"
      "length (filter mst_secret (filter mst_evaluation ?ss)) \<le> max_model_states"
      using lens mx by (meson le_trans)+
    moreover have "sorted_unique ?refs" "length ?refs \<le> 64" using refs by (simp_all add: ref_domain_ok_def)
    ultimately show ?thesis
      unfolding make_coverage_def model_coverage.simps names sums
      using lens len lts make_request_facts(6,7) [OF r] doms request_counts(8,9) [OF r]
      by (simp add: request_counts(1,2) [OF r])
  qed
  with rows have run: "model_check_coverage r ?ss ts = Inr ?cov"
    by (simp add: model_check_coverage_def Let_def)
  show thesis
  proof (rule that [OF run])
    show "cov_states ?cov = card (reachable_ordinals r)" using ns by (simp add: distinct_card [symmetric])
    show "cov_transitions ?cov = card {t \<in> set (mrq_transitions r). mtr_source t \<in> reachable_ordinals r}"
      using ts by (simp add: distinct_card [symmetric])
    show "cov_evaluation ?cov = card (point_ordinals r)"
      using length_filter_card [OF ns(1)] by (simp add: point_ordinals_def ns(2))
    have "filter mst_secret (filter mst_evaluation ?ss) = filter (\<lambda>s. mst_evaluation s \<and> mst_secret s) ?ss" by simp
    then show "cov_secret ?cov = card (secret_ordinals r)"
      using length_filter_card [OF ns(1), of "\<lambda>s. mst_evaluation s \<and> mst_secret s" "state_of r"]
      by (simp add: secret_ordinals_def point_ordinals_def ns(2) conj_assoc)
    show "coverage_join_ok (mrq_assumptions r) ?cov"
      unfolding coverage_join_ok_def doms using names by (simp add: request_counts(3-5) [OF r])
  qed simp_all
qed

end
