(* ===== verification/Opacity_Claims.thy ===== *)
theory Opacity_Claims
  imports Opacity_Coverage
begin

text \<open>
  What the model check of participant opacity establishes: on an admitted and supported request it
  decides opacity over everything reachable, a counterexample comes with a shortest path, and a
  profile over an abstract carrier makes the admission itself fail.
\<close>

section \<open>Admission\<close>

lemma admission_facts:
  assumes "validate_admission r p ctl = Inr u"
  shows "mrq_profile_id r = opp_id p" and "mrq_profile_revision r = opp_revision p"
    and "validate_behavioral_claim_binding (mrq_claim r) ctl p = Inr ()"
    and "opp_bounds p \<noteq> None"
  using assms
  by (auto simp: validate_admission_def validate_profile_bounds_def Let_def res_bind_Inr_iff split: if_splits sum.splits option.splits)

lemma claim_of_profile:
  assumes "validate_behavioral_claim_binding c ctl p = Inr u"
  shows "Some (opp_id p) = clm_profile c" and "Some (opp_revision p) = clm_profile_revision c"
    and "opp_taxonomy p = clm_taxonomy c" and "opp_relation p = clm_relation c"
  using assms
  by (auto simp: validate_behavioral_claim_binding_def validate_binding_profile_def res_bind_Inr_iff split: if_splits)

lemma admitted_claim_ok:
  assumes "make_request r = Inr r" and "make_profile p = Inr p" and "validate_admission r p ctl = Inr u"
  shows "evidence_claim_ok r"
proof -
  note adm = admission_facts [OF assms(3)]
  note clm = claim_of_profile [OF adm(3)]
  have "opp_taxonomy p = opacity_taxonomy" "opp_relation p = opacity_relation"
    using assms(2) by (simp_all add: make_profile_def split: if_splits)
  then show ?thesis
    unfolding evidence_claim_ok_def using adm(1,2) clm make_request_facts(11) [OF assms(1)] by simp
qed

section \<open>The three decided outcomes\<close>

lemma filter_points:
  "filter mst_evaluation (map (state_of r) ns) = map (state_of r) (filter (\<lambda>n. mst_evaluation (state_of r n)) ns)"
  by (simp add: filter_map comp_def)

definition lowest_exposed :: "model_request \<Rightarrow> int \<Rightarrow> bool" where
  "lowest_exposed r n \<longleftrightarrow>
     n \<in> secret_ordinals r \<and> (\<forall>m \<in> point_ordinals r. same_cell r m n \<longrightarrow> mst_secret (state_of r m)) \<and>
     (\<forall>k \<in> secret_ordinals r. (\<forall>m \<in> point_ordinals r. same_cell r m k \<longrightarrow> mst_secret (state_of r m)) \<longrightarrow> n \<le> k)"

text \<open>The kernel over the reached points, in terms of their ordinals.\<close>

definition kernel_finding :: "model_request \<Rightarrow> opacity_kernel_result \<Rightarrow> bool" where
  "kernel_finding r found \<longleftrightarrow>
     okr_secret_points found = card (secret_ordinals r) \<and>
     (case okr_actual found of
        None \<Rightarrow> opacity_holds r
      | Some n \<Rightarrow> lowest_exposed r n \<and> okr_cell_size found = Some (card {m \<in> point_ordinals r. same_cell r m n}))"

lemma point_kernel:
  assumes r: "make_request r = Inr r" and nonneg: "initial_nonneg r" and ns: "distinct ns" "set ns = reachable_ordinals r"
  obtains found where
    "evaluate_opacity_kernel opacity_cell_key mst_ordinal mst_secret
       (filter mst_evaluation (map (state_of r) ns)) = Inr found"
    and "kernel_finding r found"
proof -
  let ?ps = "filter (\<lambda>n. mst_evaluation (state_of r n)) ns"
  let ?points = "map (state_of r) ?ps"
  have ps: "set ?ps = point_ordinals r" "distinct ?ps"
    using ns by (auto simp: point_ordinals_def)
  have bound: "0 \<le> n" "n < int (length (mrq_states r))" if "n \<in> point_ordinals r" for n
    using that reachable_bound [OF r nonneg] by (auto simp: point_ordinals_def)
  have only: "secret_only_cell opacity_cell_key mst_secret ?points (state_of r n) \<longleftrightarrow>
      (\<forall>m \<in> point_ordinals r. same_cell r m n \<longrightarrow> mst_secret (state_of r m))" for n
    unfolding ps(1) [symmetric] by (simp add: secret_only_cell_def list_all_iff same_cell_def)
  show thesis
  proof (rule opacity_kernel_run [of opacity_cell_key mst_ordinal mst_secret ?points])
    fix found
    assume found: "evaluate_opacity_kernel opacity_cell_key mst_ordinal mst_secret ?points = Inr found"
      "okr_secret_points found = length (filter mst_secret ?points)"
    and none: "okr_actual found = None \<Longrightarrow> okr_cell_size found = None \<and>
      (\<forall>p \<in> set ?points. mst_secret p \<longrightarrow> \<not> secret_only_cell opacity_cell_key mst_secret ?points p)"
    and some: "\<And>n. okr_actual found = Some n \<Longrightarrow>
      \<exists>p \<in> set ?points. mst_ordinal p = n \<and> mst_secret p \<and> secret_only_cell opacity_cell_key mst_secret ?points p \<and>
        okr_cell_size found = Some (cell_size opacity_cell_key ?points p) \<and>
        (\<forall>q \<in> set ?points. mst_secret q \<and> secret_only_cell opacity_cell_key mst_secret ?points q \<longrightarrow> n \<le> mst_ordinal q)"
  show thesis
  proof (rule that)
    show "evaluate_opacity_kernel opacity_cell_key mst_ordinal mst_secret
        (filter mst_evaluation (map (state_of r) ns)) = Inr found"
      unfolding filter_points by (rule found(1))
    have "length (filter mst_secret ?points) = card {n \<in> set ?ps. mst_secret (state_of r n)}"
      by (rule length_filter_card [OF ps(2)])
    then have secrets: "okr_secret_points found = card (secret_ordinals r)"
      unfolding found(2) ps(1) by (simp add: secret_ordinals_def)
    have holds: "opacity_holds r" if "okr_actual found = None"
    proof -
      have "\<not> secret_only_cell opacity_cell_key mst_secret ?points (state_of r n)"
        if "n \<in> secret_ordinals r" for n
      proof -
        have "state_of r n \<in> set ?points" "mst_secret (state_of r n)"
          using that ps(1) by (auto simp: secret_ordinals_def)
        with none [OF \<open>okr_actual found = None\<close>] show ?thesis by blast
      qed
      then show ?thesis unfolding only opacity_holds_def by blast
    qed
    have exposed: "lowest_exposed r n \<and> okr_cell_size found = Some (card {m \<in> point_ordinals r. same_cell r m n})"
      if "okr_actual found = Some n" for n
    proof -
      from some [OF that] obtain p where p: "p \<in> set ?points" "mst_ordinal p = n" "mst_secret p"
        "secret_only_cell opacity_cell_key mst_secret ?points p"
        "okr_cell_size found = Some (cell_size opacity_cell_key ?points p)"
        and least: "\<forall>q \<in> set ?points. mst_secret q \<and> secret_only_cell opacity_cell_key mst_secret ?points q \<longrightarrow> n \<le> mst_ordinal q"
        by blast
      from p(1) ps(1) obtain k where k: "k \<in> point_ordinals r" "p = state_of r k" by auto
      have kn: "k = n" using p(2) k ordinal_of_state [OF r bound [OF k(1)]] by simp
      have size: "cell_size opacity_cell_key ?points (state_of r n) = card {m \<in> point_ordinals r. same_cell r m n}"
        unfolding cell_size_def length_filter_card [OF ps(2)] ps(1) same_cell_def ..
      have "n \<le> j" if "j \<in> secret_ordinals r"
        "\<forall>m \<in> point_ordinals r. same_cell r m j \<longrightarrow> mst_secret (state_of r m)" for j
      proof -
        have "state_of r j \<in> set ?points" "mst_secret (state_of r j)" "0 \<le> j" "j < int (length (mrq_states r))"
          using that(1) ps(1) bound by (auto simp: secret_ordinals_def)
        with least that(2) ordinal_of_state [OF r] show ?thesis unfolding only [symmetric] by fastforce
      qed
      with p k kn show ?thesis
        unfolding lowest_exposed_def only [symmetric] size [symmetric] by (auto simp: secret_ordinals_def)
    qed
    show "kernel_finding r found"
      using secrets holds exposed by (simp add: kernel_finding_def split: option.split)
  qed
  qed
qed

definition exposes :: "model_request \<Rightarrow> opacity_counterexample \<Rightarrow> bool" where
  "exposes r x \<longleftrightarrow>
     lowest_exposed r (ocx_state x) \<and> shortest_path (mrq_transitions r) (mrq_initial r) (ocx_path x) (ocx_state x) \<and>
     ocx_strategy x = mst_strategy (state_of r (ocx_state x)) \<and>
     ocx_cell_size x = card {m \<in> point_ordinals r. same_cell r m (ocx_state x)}"

definition coverage_exact :: "model_request \<Rightarrow> model_coverage \<Rightarrow> bool" where
  "coverage_exact r cov \<longleftrightarrow>
     cov_declared cov = mrq_counts r \<and> cov_complete cov \<and>
     cov_states cov = card (reachable_ordinals r) \<and>
     cov_transitions cov = card {t \<in> set (mrq_transitions r). mtr_source t \<in> reachable_ordinals r} \<and>
     cov_evaluation cov = card (point_ordinals r) \<and> cov_secret cov = card (secret_ordinals r) \<and>
     coverage_join_ok (mrq_assumptions r) cov"

definition opacity_decided :: "model_request \<Rightarrow> opacity_evidence \<Rightarrow> bool" where
  "opacity_decided r e \<longleftrightarrow>
     oev_request e = r \<and> coverage_exact r (oev_coverage e) \<and>
     (case oev_counterexample e of
        None \<Rightarrow> opacity_holds r \<and> oev_outcome e = (if secret_ordinals r = {} then OPACITY_VACUOUS else OPACITY_HOLDS)
      | Some x \<Rightarrow> oev_outcome e = OPACITY_COUNTEREXAMPLE \<and> exposes r x)"

lemma lowest_exposed_not_opaque: "lowest_exposed r n \<Longrightarrow> \<not> opacity_holds r"
  unfolding lowest_exposed_def opacity_holds_def by blast

lemma vacuous_evidence_run:
  assumes "evidence_claim_ok r" and "coverage_join_ok (mrq_assumptions r) cov" and "cov_secret cov = 0"
  shows "vacuous_evidence r cov = Inr
    \<lparr>oev_request = r, oev_coverage = cov, oev_outcome = OPACITY_VACUOUS, oev_diagnostics = [(''/states'', vacuous_code)],
     oev_counterexample = None, oev_reasons = Some [vacuous_code]\<rparr>"
  using assms
  by (simp add: vacuous_evidence_def make_reasons_def sorted_unique_def make_opacity_evidence_def outcome_ok_def)

lemma holds_evidence_run:
  assumes "evidence_claim_ok r" and "coverage_join_ok (mrq_assumptions r) cov" and "cov_complete cov"
    and "cov_secret cov \<noteq> 0" and "cov_evaluation cov \<noteq> 0"
  shows "holds_evidence r cov = Inr
    \<lparr>oev_request = r, oev_coverage = cov, oev_outcome = OPACITY_HOLDS, oev_diagnostics = [],
     oev_counterexample = None, oev_reasons = None\<rparr>"
  using assms by (simp add: holds_evidence_def make_opacity_evidence_def outcome_ok_def)

lemma counterexample_evidence_run:
  assumes "evidence_claim_ok r" and "coverage_join_ok (mrq_assumptions r) cov" and "cov_complete cov"
    and "cov_secret cov \<noteq> 0" and "cov_evaluation cov \<noteq> 0" and "make_opacity_counterexample x = Inr x"
    and "ocx_state x < int (mct_states (cov_declared cov))" and "\<forall>k \<in> set (ocx_path x). 0 \<le> k \<and> k < int (mct_transitions (cov_declared cov))"
    and "ocx_strategy x = mst_strategy (state_of r (ocx_state x))"
  shows "counterexample_evidence r cov (ocx_state x) (Some (ocx_cell_size x)) (Inr (ocx_path x)) = Inr
    \<lparr>oev_request = r, oev_coverage = cov, oev_outcome = OPACITY_COUNTEREXAMPLE, oev_diagnostics = [],
     oev_counterexample = Some x, oev_reasons = None\<rparr>"
proof -
  have rebuilt: "\<lparr>ocx_state = ocx_state x, ocx_path = ocx_path x, ocx_strategy = mst_strategy (state_of r (ocx_state x)),
      ocx_cell_size = ocx_cell_size x\<rparr> = x"
    unfolding assms(9) [symmetric] by simp
  show ?thesis
    unfolding counterexample_evidence_def option.case res_bind.simps rebuilt assms(6)
    using assms by (simp add: make_opacity_evidence_def outcome_ok_def list_all_iff)
qed

lemma reachable_evidence_run:
  assumes r: "make_request r = Inr r" and nonneg: "initial_nonneg r" and claim: "evidence_claim_ok r"
  shows "\<exists>e. reachable_evidence r = Some (Inr e) \<and> opacity_decided r e"
proof (rule reachable_fixed_point_result [OF r])
  fix ns ts parents
  let ?ss = "map (state_of r) ns"
  assume fixed: "reachable_fixed_point r = (?ss, ts, parents)"
    and ns: "distinct ns" "set ns = reachable_ordinals r"
    and ts: "distinct ts" "set ts = {t \<in> set (mrq_transitions r). mtr_source t \<in> reachable_ordinals r}"
    and paths: "\<And>n. n \<in> reachable_ordinals r \<Longrightarrow>
      \<exists>ks. counterexample_path n parents = Some (Inr ks) \<and> shortest_path (mrq_transitions r) (mrq_initial r) ks n \<and>
        length ks < card (reachable_ordinals r)"
  obtain cov where cov: "model_check_coverage r ?ss ts = Inr cov" and exact: "coverage_exact r cov"
    by (rule model_check_coverage_run [OF r nonneg ns ts]) (simp add: coverage_exact_def)
  obtain found where found: "evaluate_opacity_kernel opacity_cell_key mst_ordinal mst_secret (filter mst_evaluation ?ss) = Inr found"
    and finding: "kernel_finding r found"
    by (rule point_kernel [OF r nonneg ns])
  have secrets: "okr_secret_points found = card (secret_ordinals r)"
    using finding by (simp add: kernel_finding_def)
  have fin: "finite (point_ordinals r)" "finite (secret_ordinals r)" "secret_ordinals r \<subseteq> point_ordinals r"
    using reachable_finite [OF r nonneg] by (auto simp: point_ordinals_def secret_ordinals_def)
  have join: "coverage_join_ok (mrq_assumptions r) cov" "cov_complete cov" "cov_declared cov = mrq_counts r"
    "cov_secret cov = card (secret_ordinals r)" "cov_evaluation cov = card (point_ordinals r)"
    using exact by (simp_all add: coverage_exact_def)
  have run: "reachable_evidence r =
      (if card (secret_ordinals r) = 0 then Some (vacuous_evidence r cov)
       else case okr_actual found of
           None \<Rightarrow> Some (holds_evidence r cov)
         | Some actual \<Rightarrow> map_option (counterexample_evidence r cov actual (okr_cell_size found)) (counterexample_path actual parents))"
    unfolding reachable_evidence_def fixed prod.case cov res_bind.simps found sum.case prod.case secrets by (rule refl)
  consider (vacuous) "secret_ordinals r = {}" | (holds) "secret_ordinals r \<noteq> {}" "okr_actual found = None"
    | (exposed) n where "secret_ordinals r \<noteq> {}" "okr_actual found = Some n"
    by (cases "okr_actual found") auto
  then show ?thesis
  proof cases
    case vacuous
    then have "opacity_holds r" by (simp add: opacity_holds_def)
    with vacuous exact vacuous_evidence_run [OF claim join(1)] join(4) show ?thesis
      by (simp add: run opacity_decided_def)
  next
    case holds
    then have "card (secret_ordinals r) \<noteq> 0" "card (point_ordinals r) \<noteq> 0" using fin by auto
    moreover have "opacity_holds r" using holds(2) finding by (simp add: kernel_finding_def)
    ultimately show ?thesis using holds exact holds_evidence_run [OF claim join(1,2)] join(4,5)
      by (simp add: run opacity_decided_def)
  next
    case exposed
    then have nz: "card (secret_ordinals r) \<noteq> 0" "card (point_ordinals r) \<noteq> 0" using fin by auto
    have n: "lowest_exposed r n" "okr_cell_size found = Some (card {m \<in> point_ordinals r. same_cell r m n})"
      using finding exposed(2) by (simp_all add: kernel_finding_def)
    then have nr: "n \<in> reachable_ordinals r" "n \<in> point_ordinals r"
      using fin(3) by (auto simp: lowest_exposed_def point_ordinals_def)
    obtain ks where ks: "counterexample_path n parents = Some (Inr ks)"
      "shortest_path (mrq_transitions r) (mrq_initial r) ks n" "length ks < card (reachable_ordinals r)"
      using paths [OF nr(1)] by blast
    define x where "x = \<lparr>ocx_state = n, ocx_path = ks, ocx_strategy = mst_strategy (state_of r n),
      ocx_cell_size = card {m \<in> point_ordinals r. same_cell r m n}\<rparr>"
    have small: "card (reachable_ordinals r) \<le> length (mrq_states r)"
      using card_mono [OF _ reachable_bound [OF r nonneg]] by simp
    have lt: "0 \<le> n" "n < int (length (mrq_states r))" using reachable_bound [OF r nonneg] nr(1) by auto
    have cell: "card {m \<in> point_ordinals r. same_cell r m n} \<le> card (reachable_ordinals r)"
      using reachable_finite [OF r nonneg] by (intro card_mono) (auto simp: point_ordinals_def)
    have pos: "0 < card {m \<in> point_ordinals r. same_cell r m n}"
      using fin(1) nr(2) by (auto simp: card_gt_0_iff same_cell_def)
    have "model_state_ok (state_of r n)"
      using make_request_facts(16) [OF r] state_of_in [OF lt] by (simp add: list_all_iff)
    then have "safe_ref (mst_strategy (state_of r n))" by (simp add: model_state_ok_def)
    then have "make_opacity_counterexample x = Inr x"
      using ks(3) small lt cell pos make_request_facts(6) [OF r]
      by (simp add: make_opacity_counterexample_def x_def Suc_le_eq)
    moreover have "\<forall>k \<in> set (ocx_path x). 0 \<le> k \<and> k < int (mct_transitions (cov_declared cov))"
      using ks(2) model_path_bound by (auto simp: x_def shortest_path_def join(3) request_counts(2) [OF r])
    ultimately have "counterexample_evidence r cov n (okr_cell_size found) (Inr ks) = Inr
        \<lparr>oev_request = r, oev_coverage = cov, oev_outcome = OPACITY_COUNTEREXAMPLE, oev_diagnostics = [],
         oev_counterexample = Some x, oev_reasons = None\<rparr>"
      using counterexample_evidence_run [OF claim join(1,2), of x] nz join(3-5) n(2) lt
      by (simp add: x_def request_counts(1) [OF r])
    with nz exposed ks n exact show ?thesis
      by (simp add: run opacity_decided_def exposes_def x_def)
  qed
qed

section \<open>Unsupported requests\<close>

lemma length_insert_diagnostic [simp]: "length (insert_diagnostic d ds) = Suc (length ds)"
  by (induction ds) simp_all

lemma length_sorted_diagnostics [simp]: "length (foldr insert_diagnostic ds []) = length ds"
  by (induction ds) simp_all

lemma unsupported_diagnostics_few: "length (unsupported_diagnostics r) \<le> 4"
  by (simp add: unsupported_diagnostics_def Let_def)

lemma sorted_unique_codes [simp]: "sorted_unique (sort (remdups xs))"
  by (simp add: sorted_unique_def distinct_remdups_id sorted_sort_id)

lemma unsupported_evidence_run:
  assumes r: "make_request r = Inr r" and claim: "evidence_claim_ok r"
    and ds: "diagnostics \<noteq> []" "length diagnostics \<le> 4"
  shows "\<exists>e. unsupported_evidence r diagnostics = Inr e \<and> oev_request e = r \<and> oev_outcome e = OPACITY_UNSUPPORTED \<and>
    oev_diagnostics e = diagnostics \<and> \<not> cov_complete (oev_coverage e)"
proof -
  have "length (sort (remdups (map snd diagnostics))) \<le> 4"
    using length_remdups_leq [of "map snd diagnostics"] ds(2) by simp
  moreover have "sort (remdups (map snd diagnostics)) \<noteq> []"
    using ds(1) by (metis length_0_conv length_sort map_is_Nil_conv remdups_eq_nil_iff)
  ultimately have "make_reasons (sort (remdups (map snd diagnostics))) = Inr (sort (remdups (map snd diagnostics)))"
    by (simp add: make_reasons_def del: length_sort)
  moreover have "empty_coverage r = Inr \<lparr>cov_declared = mrq_counts r, cov_states = 0, cov_transitions = 0,
      cov_evaluation = 0, cov_secret = 0, cov_strategies = [], cov_pairs = 0, cov_orders = 0, cov_complete = False\<rparr>"
    by (simp add: empty_coverage_def make_coverage_def sorted_unique_def)
  ultimately show ?thesis
    using ds(2) claim
    by (simp add: unsupported_evidence_def make_opacity_evidence_def outcome_ok_def coverage_join_ok_def
        request_counts(3-5) [OF r])
qed

lemma check_of_admitted:
  assumes "make_request r = Inr r" and "make_profile p = Inr p" and "validate_admission r p ctl = Inr ()"
    and "initial_nonneg r"
  shows "\<exists>e. model_check_participant_opacity_input r p ctl = Some (Inr e) \<and> oev_request e = r \<and>
    (if unsupported_diagnostics r = [] then opacity_decided r e
     else oev_outcome e = OPACITY_UNSUPPORTED \<and> oev_diagnostics e = unsupported_diagnostics r \<and>
          \<not> cov_complete (oev_coverage e))"
proof -
  note claim = admitted_claim_ok [OF assms(1-3)]
  show ?thesis
  proof (cases "unsupported_diagnostics r = []")
    case True
    with reachable_evidence_run [OF assms(1,4) claim] assms(3) show ?thesis
      by (auto simp: model_check_participant_opacity_input_def opacity_decided_def)
  next
    case False
    with unsupported_evidence_run [OF assms(1) claim False unsupported_diagnostics_few] assms(3) show ?thesis
      by (auto simp: model_check_participant_opacity_input_def Let_def)
  qed
qed

lemma admitted_of_check:
  assumes "model_check_participant_opacity_input r p ctl = Some (Inr e)"
  shows "validate_admission r p ctl = Inr ()"
  using assms by (simp add: model_check_participant_opacity_input_def split: sum.splits)

section \<open>A concrete model\<close>

text \<open>
  One participant, four states: the two points reached in one step look the same to the observer, the
  state behind the second one can be told from all others and holds the secret.
\<close>

definition example_point :: "int \<Rightarrow> string \<Rightarrow> bool \<Rightarrow> bool \<Rightarrow> string \<Rightarrow> model_state" where
  "example_point n ref evaluation secret seen =
     \<lparr>mst_ordinal = n, mst_ref = ref, mst_run = ''run'', mst_cut = ''cut'', mst_strategy = ''st'',
      mst_scheduler = ''sc'', mst_environment = ''en'', mst_order = ''od'', mst_evaluation = evaluation, mst_secret = secret,
      mst_initial_key = ''i'', mst_observation_key = seen, mst_memory_key = ''m'', mst_release_key = ''r'',
      mst_coalition_key = None\<rparr>"

definition example_edge :: "int \<Rightarrow> string \<Rightarrow> int \<Rightarrow> int \<Rightarrow> model_transition" where
  "example_edge k ref m n =
     \<lparr>mtr_ordinal = k, mtr_ref = ref, mtr_source = m, mtr_target = n, mtr_action = ''a'',
      mtr_event_key = ''e''\<rparr>"

definition example_request :: model_request where
  "example_request =
     \<lparr>mrq_catalog_digest = ''c'', mrq_profile_id = ''p'', mrq_profile_revision = ''1'', mrq_profile_digest = ''d'',
      mrq_complete = True,
      mrq_assumptions = \<lparr>mas_kind = PASSIVE, mas_strategies = [''st''], mas_schedulers = [''sc''], mas_environments = [''en''],
        mas_treatment = TOTAL_ORDER, mas_orders = [''od''], mas_cut = ''cut''\<rparr>,
      mrq_counts = \<lparr>mct_states = 4, mct_transitions = 4, mct_initial = 1, mct_evaluation = 3, mct_runs = 1, mct_cuts = 1,
        mct_strategies = 1, mct_pairs = 1, mct_orders = 1\<rparr>,
      mrq_initial = [0],
      mrq_states = [example_point 0 ''s'' False False ''u'', example_point 1 ''sx'' True True ''v'', example_point 2 ''sxx'' True False ''v'',
        example_point 3 ''sxxx'' True True ''w''],
      mrq_transitions = [example_edge 0 ''t'' 0 1, example_edge 1 ''tx'' 0 2, example_edge 2 ''txx'' 2 3, example_edge 3 ''txxx'' 3 0],
      mrq_claim = \<lparr>clm_taxonomy = opacity_taxonomy, clm_revision = ''1'', clm_relation = opacity_relation,
        clm_left_carrier = None, clm_projection = None, clm_projection_revision = None, clm_profile = Some ''p'',
        clm_profile_revision = Some ''1'', clm_quantifier = ALL_TRACES, clm_evidence = MODEL_CHECK,
        clm_axis = Some AXIS_MODEL_CHECK, clm_status = MODEL_CHECKED, clm_non_claims = [model_check_nonclaim]\<rparr>\<rparr>"

definition example_profile :: "opacity_bounds option \<Rightarrow> opacity_profile" where
  "example_profile bounds =
     \<lparr>opp_id = ''p'', opp_revision = ''1'', opp_digest = ''d'', opp_taxonomy = opacity_taxonomy, opp_taxonomy_revision = ''1'',
      opp_relation = opacity_relation, opp_left_carrier = None, opp_projection = None, opp_projection_revision = None,
      opp_coalition = False, opp_strategies = None, opp_schedulers = [''sc''], opp_environments = [''en''],
      opp_treatment = TOTAL_ORDER, opp_orders = [''od''], opp_cut = ''cut'', opp_finite = (bounds \<noteq> None), opp_bounds = bounds\<rparr>"

definition example_bounds :: opacity_bounds where
  "example_bounds = \<lparr>bnd_points = 10, bnd_runs = 1, bnd_cuts = 1, bnd_strategies = 1, bnd_pairs = 1, bnd_orders = 1\<rparr>"

definition example_catalog :: relation_catalog where
  "example_catalog =
     \<lparr>ctl_taxonomy = opacity_taxonomy, ctl_revision = ''1'',
      ctl_relations = [(opacity_relation, \<lparr>rle_projection_required = False, rle_profile_required = True\<rparr>)],
      ctl_digest = ''c''\<rparr>"

lemma example_names:
  "safe_ref ''run''" "safe_ref ''cut''" "safe_ref ''st''" "safe_ref ''sc''" "safe_ref ''en''" "safe_ref ''od''" "safe_ref ''a''"
  "safe_ref ''s''" "safe_ref ''sx''" "safe_ref ''sxx''" "safe_ref ''sxxx''"
  "safe_ref ''t''" "safe_ref ''tx''" "safe_ref ''txx''" "safe_ref ''txxx''"
  "safe_key ''i''" "safe_key ''u''" "safe_key ''v''" "safe_key ''w''" "safe_key ''m''" "safe_key ''r''" "safe_key ''e''"
  by code_simp+

lemma example_states_ok: "list_all model_state_ok (mrq_states example_request)"
  using example_names
  by (simp add: example_request_def example_point_def model_state_ok_def max_model_states_def)

lemma example_transitions_ok: "list_all model_transition_ok (mrq_transitions example_request)"
  using example_names
  by (simp add: example_request_def example_edge_def model_transition_ok_def max_model_states_def max_model_transitions_def)

lemma example_shape:
  "is_ok (make_assumptions (mrq_assumptions example_request))"
  "is_ok (make_claim (mrq_claim example_request))" "model_identities_ok example_request"
  "model_transitions_ok example_request" "model_counts_ok example_request" "declared_domains_ok example_request"
  "initial_domain_ok example_request"
  "model_check_claim_scope (mrq_claim example_request) (mrq_assumptions example_request)"
  by code_simp+

lemma example_sizes: "is_ok (make_counts (mrq_counts example_request))" "length (mrq_states example_request) = 4"
  "length (mrq_transitions example_request) = 4" "mrq_initial example_request = [0]"
  by (simp_all add: example_request_def make_counts_def max_model_states_def max_model_transitions_def)

lemma example_nonneg: "initial_nonneg example_request"
  by (simp add: initial_nonneg_def example_sizes)

lemma example_request_ok: "make_request example_request = Inr example_request"
  using example_states_ok example_transitions_ok example_shape example_sizes
  by (auto simp: make_request_def max_model_states_def max_model_transitions_def)

lemma example_profile_ok: "make_profile (example_profile (Some example_bounds)) = Inr (example_profile (Some example_bounds))"
  by code_simp

lemma example_abstract_ok: "make_profile (example_profile None) = Inr (example_profile None)"
  by code_simp

lemma example_admitted: "validate_admission example_request (example_profile (Some example_bounds)) example_catalog = Inr ()"
  by code_simp

lemma example_supported: "unsupported_diagnostics example_request = []"
  by (simp add: unsupported_diagnostics_def example_request_def checker_max_states_def checker_max_transitions_def)

lemma opacity_decided_outcome:
  assumes "opacity_decided r e"
  shows "oev_outcome e = (if secret_ordinals r = {} then OPACITY_VACUOUS
      else if opacity_holds r then OPACITY_HOLDS else OPACITY_COUNTEREXAMPLE)"
  using assms lowest_exposed_not_opaque [of r] unfolding opacity_decided_def
  by (auto simp: exposes_def lowest_exposed_def split: option.splits)

section \<open>The properties\<close>

text \<open>
  C26. The model check decides. On an admitted request whose initial ordinals are not negative it
  returns evidence its contract accepts. When a capability is missing the evidence is unsupported
  and lists what is missing; otherwise the coverage counts are the numbers of reachable states, of their transitions, of reachable points and of secret
  points, and the outcome is a counterexample exactly when some reachable secret point has no companion
  in its information cell where the secret does not hold, vacuous when there is no reachable secret
  point, and holds in the remaining case.
\<close>

theorem opacity_check_decides:
  assumes "make_request r = Inr r" and "make_profile p = Inr p" and "validate_admission r p ctl = Inr ()"
    and "initial_nonneg r"
  shows "\<exists>e. model_check_participant_opacity_input r p ctl = Some (Inr e) \<and>
    (if unsupported_diagnostics r \<noteq> []
     then oev_outcome e = OPACITY_UNSUPPORTED \<and> oev_diagnostics e = unsupported_diagnostics r
     else
       cov_states (oev_coverage e) = card (reachable_ordinals r) \<and>
       cov_transitions (oev_coverage e) = card {t \<in> set (mrq_transitions r). mtr_source t \<in> reachable_ordinals r} \<and>
       cov_evaluation (oev_coverage e) = card (point_ordinals r) \<and> cov_secret (oev_coverage e) = card (secret_ordinals r) \<and>
       oev_outcome e = (if secret_ordinals r = {} then OPACITY_VACUOUS
                        else if opacity_holds r then OPACITY_HOLDS else OPACITY_COUNTEREXAMPLE))"
proof -
  obtain e where e: "model_check_participant_opacity_input r p ctl = Some (Inr e)"
    "if unsupported_diagnostics r = [] then opacity_decided r e
     else oev_outcome e = OPACITY_UNSUPPORTED \<and> oev_diagnostics e = unsupported_diagnostics r \<and> \<not> cov_complete (oev_coverage e)"
    using check_of_admitted [OF assms] by blast
  then show ?thesis
    using opacity_decided_outcome [of r e]
    by (intro exI [of _ e]) (auto simp: opacity_decided_def coverage_exact_def)
qed

theorem opacity_check_decides_witness:
  "\<exists>e. model_check_participant_opacity_input example_request (example_profile (Some example_bounds)) example_catalog = Some (Inr e) \<and>
     cov_states (oev_coverage e) = card (reachable_ordinals example_request)"
  using opacity_check_decides [OF example_request_ok example_profile_ok example_admitted example_nonneg] example_supported
  by auto

text \<open>
  C28. A counterexample is the lowest secret point nobody can confuse, with a shortest path, when no
  initial ordinal of the request is negative. The state the evidence names is reachable, an
  evaluation point and secret; every reachable point of its information cell is secret, and no state with a lower ordinal is like that. The listed transitions
  lead there from an initial state, no path from an initial state is shorter, and the cell size is the
  number of reachable points the observer cannot tell from it.
\<close>

theorem opacity_counterexample_is_shortest:
  assumes "make_request r = Inr r" and "make_profile p = Inr p"
    and "model_check_participant_opacity_input r p ctl = Some (Inr e)" and "oev_outcome e = OPACITY_COUNTEREXAMPLE"
    and "initial_nonneg r"
  shows "\<exists>x. oev_counterexample e = Some x \<and> ocx_state x \<in> secret_ordinals r \<and>
    (\<forall>m \<in> point_ordinals r. same_cell r m (ocx_state x) \<longrightarrow> mst_secret (state_of r m)) \<and>
    (\<forall>k \<in> secret_ordinals r. (\<forall>m \<in> point_ordinals r. same_cell r m k \<longrightarrow> mst_secret (state_of r m)) \<longrightarrow>
       ocx_state x \<le> k) \<and>
    (\<exists>i \<in> set (mrq_initial r). model_path (mrq_transitions r) i (ocx_path x) (ocx_state x)) \<and>
    (\<forall>i \<in> set (mrq_initial r). \<forall>ls. model_path (mrq_transitions r) i ls (ocx_state x) \<longrightarrow> length (ocx_path x) \<le> length ls) \<and>
    ocx_cell_size x = card {m \<in> point_ordinals r. same_cell r m (ocx_state x)}"
proof -
  have "opacity_decided r e"
    using check_of_admitted [OF assms(1,2) admitted_of_check [OF assms(3)] assms(5)] assms(3,4) by (auto split: if_splits)
  with assms(4) obtain x where "oev_counterexample e = Some x" "exposes r x"
    by (auto simp: opacity_decided_def split: option.splits if_splits)
  then show ?thesis
    by (intro exI [of _ x]) (simp add: exposes_def lowest_exposed_def shortest_path_def)
qed

lemma example_reachable: "3 \<in> secret_ordinals example_request"
proof -
  have "model_path (mrq_transitions example_request) 0 [1, 2] 3"
    by (simp add: example_request_def example_edge_def)
  moreover have "0 \<in> set (mrq_initial example_request)" by (simp add: example_sizes)
  ultimately have "3 \<in> reachable_ordinals example_request"
    unfolding reachable_ordinals_def by (rule model_path_reach)
  then show ?thesis
    by (simp add: secret_ordinals_def point_ordinals_def state_of_nth example_request_def example_point_def)
qed

text \<open>The last state is alone in its cell.\<close>

lemma example_exposed: "\<not> opacity_holds example_request"
proof -
  have "mst_secret (state_of example_request m)"
    if "m \<in> point_ordinals example_request" "same_cell example_request m 3" for m
  proof -
    have "0 \<le> m" "m < 4"
      using that(1) reachable_bound [OF example_request_ok example_nonneg] by (auto simp: point_ordinals_def example_sizes)
    then consider "m = 0" | "m = 1" | "m = 2" | "m = 3" by linarith
    then show ?thesis
      using that(2) by cases (simp_all add: same_cell_def state_of_nth opacity_cell_key_def example_request_def example_point_def)
  qed
  with example_reachable show ?thesis unfolding opacity_holds_def by blast
qed

theorem opacity_counterexample_is_shortest_witness:
  "\<exists>x ks. (\<exists>e. model_check_participant_opacity_input example_request (example_profile (Some example_bounds)) example_catalog = Some (Inr e) \<and>
     oev_counterexample e = Some x) \<and> model_path (mrq_transitions example_request) 0 ks (ocx_state x)"
proof -
  obtain e where e: "model_check_participant_opacity_input example_request (example_profile (Some example_bounds)) example_catalog = Some (Inr e)"
    "opacity_decided example_request e"
    using check_of_admitted [OF example_request_ok example_profile_ok example_admitted example_nonneg] example_supported by auto
  with example_exposed have "oev_outcome e = OPACITY_COUNTEREXAMPLE"
    by (simp add: opacity_decided_def split: option.splits)
  from opacity_counterexample_is_shortest [OF example_request_ok example_profile_ok e(1) this example_nonneg] e(1) show ?thesis
    by (auto simp: example_sizes)
qed

text \<open>
  A profile over an abstract carrier is not refused, it crashes the check: its bounds are absent,
  so when identity, assumptions and claim fit, the comparison with the bounds raises an attribute
  error instead of the operational error every other misfit of a request and its profile raises.
\<close>

lemma abstract_carrier_crashes_admission:
  assumes "make_profile p = Inr p" and "\<not> opp_finite p" and "mrq_catalog_digest r = ctl_digest ctl"
    and "mrq_profile_id r = opp_id p" and "mrq_profile_revision r = opp_revision p" and "mrq_profile_digest r = opp_digest p"
    and "expected_assumptions r p = Inr (mrq_assumptions r)"
    and "validate_behavioral_claim_binding (mrq_claim r) ctl p = Inr ()"
  shows "model_check_participant_opacity_input r p ctl = Some (Inl (AttributeError ''max_points''))"
proof -
  have "opp_bounds p = None" using assms(1,2) by (simp add: make_profile_def split: if_splits)
  with assms(3-) show ?thesis
    by (simp add: model_check_participant_opacity_input_def validate_admission_def validate_profile_bounds_def)
qed

lemma abstract_carrier_crashes_admission_witness:
  "model_check_participant_opacity_input example_request (example_profile None) example_catalog =
     Some (Inl (AttributeError ''max_points''))"
proof (rule abstract_carrier_crashes_admission [OF example_abstract_ok])
  show "\<not> opp_finite (example_profile None)" by (simp add: example_profile_def)
  show "mrq_catalog_digest example_request = ctl_digest example_catalog" by code_simp
  show "mrq_profile_id example_request = opp_id (example_profile None)" by code_simp
  show "mrq_profile_revision example_request = opp_revision (example_profile None)" by code_simp
  show "mrq_profile_digest example_request = opp_digest (example_profile None)" by code_simp
  show "expected_assumptions example_request (example_profile None) = Inr (mrq_assumptions example_request)" by code_simp
  show "validate_behavioral_claim_binding (mrq_claim example_request) example_catalog (example_profile None) = Inr ()"
    by code_simp
qed

text \<open>The states the initial ordinals denote, written without negative indices.\<close>

definition normal_initial :: "model_request \<Rightarrow> model_request" where
  "normal_initial r =
     r\<lparr>mrq_initial := sort (remdups (map (\<lambda>i. if i < 0 then int (length (mrq_states r)) + i else i) (mrq_initial r)))\<rparr>"

text \<open>Three points; the middle one, which is initial, leads to the first, which exposes the secret.\<close>

definition wrapped_request :: model_request where
  "wrapped_request = example_request
     \<lparr>mrq_counts := \<lparr>mct_states = 3, mct_transitions = 1, mct_initial = 2, mct_evaluation = 3, mct_runs = 1, mct_cuts = 1,
        mct_strategies = 1, mct_pairs = 1, mct_orders = 1\<rparr>,
      mrq_initial := [-2, -1],
      mrq_states := [example_point 0 ''s'' True True ''w'', example_point 1 ''sx'' True True ''v'', example_point 2 ''sxx'' True False ''v''],
      mrq_transitions := [example_edge 0 ''t'' 1 0]\<rparr>"

lemma wrapped_shape:
  "model_identities_ok wrapped_request" "model_transitions_ok wrapped_request" "model_counts_ok wrapped_request"
  "declared_domains_ok wrapped_request" "initial_domain_ok wrapped_request"
  "model_check_claim_scope (mrq_claim wrapped_request) (mrq_assumptions wrapped_request)"
  "is_ok (make_assumptions (mrq_assumptions wrapped_request))" "is_ok (make_claim (mrq_claim wrapped_request))"
  by code_simp+

lemma wrapped_sizes: "is_ok (make_counts (mrq_counts wrapped_request))" "length (mrq_states wrapped_request) = 3"
  "length (mrq_transitions wrapped_request) = 1" "mrq_initial wrapped_request = [-2, -1]"
  "list_all model_state_ok (mrq_states wrapped_request)" "list_all model_transition_ok (mrq_transitions wrapped_request)"
  using example_names
  by (simp_all add: wrapped_request_def example_request_def make_counts_def example_point_def example_edge_def
      model_state_ok_def model_transition_ok_def max_model_states_def max_model_transitions_def)

lemma wrapped_request_ok: "make_request wrapped_request = Inr wrapped_request"
  using wrapped_shape wrapped_sizes
  by (auto simp: make_request_def max_model_states_def max_model_transitions_def)

lemma wrapped_admitted: "validate_admission wrapped_request (example_profile (Some example_bounds)) example_catalog = Inr ()"
  by code_simp

lemma wrapped_supported: "unsupported_diagnostics wrapped_request = []"
  by (simp add: unsupported_diagnostics_def wrapped_request_def example_request_def checker_max_states_def checker_max_transitions_def)

lemma wrapped_search:
  "reachable_fixed_point wrapped_request = ([mrq_states wrapped_request ! 1, mrq_states wrapped_request ! 2], [], [(-2, None), (-1, None)])"
  by code_simp

definition wrapped_coverage :: model_coverage where
  "wrapped_coverage =
     \<lparr>cov_declared = mrq_counts wrapped_request, cov_states = 2, cov_transitions = 0, cov_evaluation = 2, cov_secret = 1,
      cov_strategies = [\<lparr>scv_strategy = ''st'', scv_states = 2, scv_transitions = 0, scv_evaluation = 2, scv_secret = 1\<rparr>],
      cov_pairs = 1, cov_orders = 1, cov_complete = True\<rparr>"

lemma wrapped_coverage_run:
  "model_check_coverage wrapped_request [mrq_states wrapped_request ! 1, mrq_states wrapped_request ! 2] [] = Inr wrapped_coverage"
  using example_names
  by (simp add: model_check_coverage_def strategy_row_def make_strategy_coverage_def make_coverage_def wrapped_coverage_def
      wrapped_request_def example_request_def example_point_def max_model_states_def max_model_transitions_def
      distinct_count_def sorted_unique_def)

lemma wrapped_kernel:
  "evaluate_opacity_kernel opacity_cell_key mst_ordinal mst_secret
     (filter mst_evaluation [mrq_states wrapped_request ! 1, mrq_states wrapped_request ! 2]) =
   Inr \<lparr>okr_points = 2, okr_secret_points = 1, okr_actual = None, okr_cell_size = None\<rparr>"
  by code_simp

lemma wrapped_holds:
  "model_check_participant_opacity_input wrapped_request (example_profile (Some example_bounds)) example_catalog =
     Some (Inr \<lparr>oev_request = wrapped_request, oev_coverage = wrapped_coverage, oev_outcome = OPACITY_HOLDS,
       oev_diagnostics = [], oev_counterexample = None, oev_reasons = None\<rparr>)"
proof -
  have "coverage_join_ok (mrq_assumptions wrapped_request) wrapped_coverage"
    by (simp add: coverage_join_ok_def wrapped_coverage_def wrapped_request_def example_request_def)
  moreover have "evidence_claim_ok wrapped_request"
    by (rule admitted_claim_ok [OF wrapped_request_ok example_profile_ok wrapped_admitted])
  ultimately have "holds_evidence wrapped_request wrapped_coverage = Inr
      \<lparr>oev_request = wrapped_request, oev_coverage = wrapped_coverage, oev_outcome = OPACITY_HOLDS,
       oev_diagnostics = [], oev_counterexample = None, oev_reasons = None\<rparr>"
    by (intro holds_evidence_run) (simp_all add: wrapped_coverage_def)
  moreover have "reachable_evidence wrapped_request = Some (holds_evidence wrapped_request wrapped_coverage)"
    unfolding reachable_evidence_def wrapped_search prod.case wrapped_coverage_run res_bind.simps wrapped_kernel
    by simp
  ultimately show ?thesis
    unfolding model_check_participant_opacity_input_def wrapped_admitted wrapped_supported by simp
qed

lemma wrapped_exposed: "\<not> opacity_holds (normal_initial wrapped_request)"
proof -
  let ?r = "normal_initial wrapped_request"
  have init: "mrq_initial ?r = [1, 2]" by code_simp
  have same: "mrq_states ?r = mrq_states wrapped_request" "mrq_transitions ?r = mrq_transitions wrapped_request"
    by (simp_all add: normal_initial_def)
  have path: "model_path (mrq_transitions ?r) 1 [0] 0"
    unfolding same by (simp add: wrapped_request_def example_edge_def)
  have reach: "0 \<in> reachable_ordinals ?r"
    unfolding reachable_ordinals_def by (rule model_path_reach [OF path]) (simp add: init)
  have bound: "reachable_ordinals ?r \<subseteq> {0, 1, 2}"
    unfolding reachable_ordinals_def same init
    by (intro reach_set_least) (auto simp: opacity_succs_def wrapped_request_def example_edge_def)
  have state: "state_of ?r n = mrq_states wrapped_request ! nat n" if "0 \<le> n" for n
    using that by (simp add: state_of_nth same)
  have "0 \<in> secret_ordinals ?r"
    using reach by (simp add: secret_ordinals_def point_ordinals_def state) (simp add: wrapped_request_def example_point_def)
  moreover have "mst_secret (state_of ?r m)" if "m \<in> point_ordinals ?r" "same_cell ?r m 0" for m
  proof -
    have "m = 0 \<or> m = 1 \<or> m = 2" using that(1) bound by (auto simp: point_ordinals_def)
    then show ?thesis
      using that(2) by (auto simp: same_cell_def state) (auto simp: wrapped_request_def example_point_def opacity_cell_key_def)
  qed
  ultimately show ?thesis unfolding opacity_holds_def by blast
qed

text \<open>
  A negative initial ordinal makes the check answer that opacity holds where it does not. The
  contract bounds initial ordinals from above only, and an index below zero names a state from the end.
  The concrete request is accepted by its contract, admitted and supported, and names its last two states
  by negative ordinals; the check reads them as initial states but looks up no transition of them, and
  reports that opacity holds on the complete model, although the same initial states written with their
  own ordinals lead to an exposed secret.
\<close>

lemma negative_initial_hides_states:
  "make_request wrapped_request = Inr wrapped_request \<and>
   map (state_of wrapped_request) (mrq_initial wrapped_request) =
     map (state_of (normal_initial wrapped_request)) (mrq_initial (normal_initial wrapped_request)) \<and>
   (\<exists>e. model_check_participant_opacity_input wrapped_request (example_profile (Some example_bounds)) example_catalog = Some (Inr e) \<and>
      oev_outcome e = OPACITY_HOLDS \<and> cov_complete (oev_coverage e)) \<and>
   \<not> opacity_holds (normal_initial wrapped_request)"
proof (intro conjI)
  show "map (state_of wrapped_request) (mrq_initial wrapped_request) =
      map (state_of (normal_initial wrapped_request)) (mrq_initial (normal_initial wrapped_request))"
    by code_simp
  show "\<exists>e. model_check_participant_opacity_input wrapped_request (example_profile (Some example_bounds)) example_catalog = Some (Inr e) \<and>
      oev_outcome e = OPACITY_HOLDS \<and> cov_complete (oev_coverage e)"
    by (simp add: wrapped_holds wrapped_coverage_def)
qed (rule wrapped_request_ok wrapped_exposed)+

end
