(* ===== verification/Opacity_Bounded.thy ===== *)
theory Opacity_Bounded
  imports Opacity_Claims
begin

text \<open>
  The bounded test of participant opacity: the finite carrier and its evidence
  (\<open>raes_contracts/participant_opacity.py\<close>) and the analysis (\<open>participant_opacity/_service.py\<close>),
  which scans with the kernel of the model check. The catalog of a revision is a parameter, as it is
  read from a file; members that are only carried and digests are left out as in the model check.
\<close>

section \<open>Carrier and evidence\<close>

definition max_opacity_points :: nat where "max_opacity_points = 100000"

record point_counts =
  pct_points :: nat
  pct_runs :: nat
  pct_cuts :: nat
  pct_strategies :: nat
  pct_pairs :: nat
  pct_orders :: nat

definition make_point_counts :: "point_counts \<Rightarrow> point_counts res" where
  "make_point_counts c =
     (if list_all (\<lambda>n. 1 \<le> n \<and> n \<le> max_opacity_points)
           [pct_points c, pct_runs c, pct_cuts c, pct_strategies c, pct_pairs c, pct_orders c]
      then Inr c else Inl (ValidationError ''ParticipantOpacityDeclaredCountsModel''))"

record opacity_point =
  opt_ordinal :: int
  opt_ref :: string
  opt_run :: string
  opt_cut :: string
  opt_strategy :: string
  opt_scheduler :: string
  opt_environment :: string
  opt_order :: string
  opt_reachable :: bool
  opt_secret :: bool
  opt_initial_key :: string
  opt_observation_key :: string
  opt_memory_key :: string
  opt_release_key :: string
  opt_coalition_key :: "string option"

definition opacity_point_ok :: "opacity_point \<Rightarrow> bool" where
  "opacity_point_ok p \<longleftrightarrow>
     0 \<le> opt_ordinal p \<and> opt_ordinal p < int max_opacity_points \<and>
     list_all safe_ref [opt_ref p, opt_run p, opt_cut p, opt_strategy p, opt_scheduler p, opt_environment p, opt_order p] \<and>
     list_all safe_key [opt_initial_key p, opt_observation_key p, opt_memory_key p, opt_release_key p] \<and>
     (case opt_coalition_key p of None \<Rightarrow> True | Some k \<Rightarrow> safe_key k)"

record opacity_input =
  oin_profile_id :: string
  oin_profile_revision :: string
  oin_profile_digest :: string
  oin_complete :: bool
  oin_counts :: point_counts
  oin_claim :: opacity_claim
  oin_points :: "opacity_point list"

definition carrier_ok :: "opacity_input \<Rightarrow> bool" where
  "carrier_ok q \<longleftrightarrow>
     (let ps = oin_points q in
      distinct (map opt_ordinal ps) \<and> set (map opt_ordinal ps) = int ` set [0..<length ps] \<and>
      distinct (map opt_ref ps) \<and>
      oin_counts q =
        \<lparr>pct_points = length ps, pct_runs = distinct_count opt_run ps, pct_cuts = distinct_count opt_cut ps,
         pct_strategies = distinct_count opt_strategy ps,
         pct_pairs = distinct_count (\<lambda>p. (opt_scheduler p, opt_environment p)) ps, pct_orders = distinct_count opt_order ps\<rparr>)"

definition make_opacity_input :: "opacity_input \<Rightarrow> opacity_input res" where
  "make_opacity_input q =
     (if oin_points q \<noteq> [] \<and> length (oin_points q) \<le> max_opacity_points \<and> list_all opacity_point_ok (oin_points q) \<and>
         is_ok (make_point_counts (oin_counts q)) \<and> is_ok (make_claim (oin_claim q)) \<and> carrier_ok q
      then Inr q else Inl (ValidationError ''ParticipantOpacityAnalysisInputModel''))"

datatype bounded_outcome = NO_COUNTEREXAMPLE_IN_BOUNDS | BOUNDED_COUNTEREXAMPLE | BOUNDED_VACUOUS | BOUNDED_UNSUPPORTED

record bounded_counterexample =
  bcx_point :: int
  bcx_cell_size :: nat

record bounded_evidence =
  bev_profile_id :: string
  bev_profile_revision :: string
  bev_claim :: opacity_claim
  bev_outcome :: bounded_outcome
  bev_points :: nat
  bev_secret_points :: nat
  bev_diagnostics :: "opacity_diagnostic list"
  bev_counterexample :: "bounded_counterexample option"
  bev_reasons :: "string list option"

definition make_bounded_counterexample :: "bounded_counterexample \<Rightarrow> bounded_counterexample res" where
  "make_bounded_counterexample x =
     (if 0 \<le> bcx_point x \<and> bcx_point x < int max_opacity_points \<and> 1 \<le> bcx_cell_size x \<and> bcx_cell_size x \<le> max_opacity_points
      then Inr x else Inl (ValidationError ''ParticipantOpacityCounterexampleModel''))"

definition evidence_counts_ok :: "bounded_evidence \<Rightarrow> bool" where
  "evidence_counts_ok e \<longleftrightarrow>
     bev_secret_points e \<le> bev_points e \<and>
     (bev_outcome e \<in> {NO_COUNTEREXAMPLE_IN_BOUNDS, BOUNDED_COUNTEREXAMPLE} \<longrightarrow>
        bev_points e \<noteq> 0 \<and> bev_secret_points e \<noteq> 0 \<and> bev_diagnostics e = []) \<and>
     (bev_outcome e = BOUNDED_VACUOUS \<longrightarrow> bev_secret_points e = 0)"

definition outcome_payloads_ok :: "bounded_evidence \<Rightarrow> bool" where
  "outcome_payloads_ok e \<longleftrightarrow>
     (bev_counterexample e \<noteq> None) = (bev_outcome e = BOUNDED_COUNTEREXAMPLE) \<and>
     (bev_reasons e \<noteq> None) = (bev_outcome e \<in> {BOUNDED_VACUOUS, BOUNDED_UNSUPPORTED}) \<and>
     (case bev_reasons e of None \<Rightarrow> True | Some codes \<Rightarrow> codes = sort (remdups (map snd (bev_diagnostics e))))"

definition bounded_nonclaim :: string where
  "bounded_nonclaim = ''No source or materializer authenticity is established by this normalized-input evidence.''"

definition bounded_claim_scope :: "opacity_claim \<Rightarrow> bool" where
  "bounded_claim_scope c \<longleftrightarrow>
     clm_axis c = Some AXIS_BOUNDED_TEST \<and> clm_status c = TESTED \<and> clm_evidence c = FINITE \<and>
     clm_quantifier c = FINITE_CASES \<and> bounded_nonclaim \<in> set (clm_non_claims c)"

definition bounded_claim_join :: "bounded_evidence \<Rightarrow> bool" where
  "bounded_claim_join e \<longleftrightarrow>
     clm_taxonomy (bev_claim e) = opacity_taxonomy \<and> clm_relation (bev_claim e) = opacity_relation \<and>
     clm_profile (bev_claim e) = Some (bev_profile_id e) \<and>
     clm_profile_revision (bev_claim e) = Some (bev_profile_revision e) \<and> bounded_claim_scope (bev_claim e)"

definition make_bounded_evidence :: "bounded_evidence \<Rightarrow> bounded_evidence res" where
  "make_bounded_evidence e =
     (if bev_points e \<le> max_opacity_points \<and> bev_secret_points e \<le> max_opacity_points \<and>
         length (bev_diagnostics e) \<le> 64 \<and> evidence_counts_ok e \<and> outcome_payloads_ok e \<and> bounded_claim_join e
      then Inr e else Inl (ValidationError ''ParticipantOpacityAnalysisEvidenceModel''))"

section \<open>Admission\<close>

fun is_value_error :: "py_exn \<Rightarrow> bool" where
  "is_value_error (ValueError m) = True"
| "is_value_error (ValidationError m) = True"
| "is_value_error _ = False"

definition validate_profile_admission ::
  "(string \<Rightarrow> relation_catalog res) \<Rightarrow> opacity_input \<Rightarrow> opacity_profile \<Rightarrow> unit res" where
  "validate_profile_admission catalogs q p =
     (if oin_profile_id q \<noteq> opp_id p \<or> oin_profile_revision q \<noteq> opp_revision p \<or> oin_profile_digest q \<noteq> opp_digest p
      then Inl (RuntimeError ''opacity profile identity'')
      else case res_bind (catalogs (clm_revision (oin_claim q))) (\<lambda>ctl. validate_behavioral_claim_binding (oin_claim q) ctl p) of
          Inl e \<Rightarrow> if is_value_error e then Inl (RuntimeError ''opacity claim'') else Inl e
        | Inr u \<Rightarrow> Inr u)"

definition validate_declared_bounds :: "opacity_input \<Rightarrow> opacity_profile \<Rightarrow> unit res" where
  "validate_declared_bounds q p =
     (let c = oin_counts q in
      case opp_bounds p of
        None \<Rightarrow> Inl (AttributeError ''max_points'')
      | Some b \<Rightarrow>
          require_that
            (\<not> (pct_points c > bnd_points b \<or> pct_runs c > bnd_runs b \<or> pct_cuts c > bnd_cuts b \<or>
                pct_strategies c > bnd_strategies b \<or> pct_pairs c > bnd_pairs b \<or> pct_orders c > bnd_orders b))
            (RuntimeError ''governed profile bounds''))"

definition validate_scheduler_environment_domain :: "opacity_input \<Rightarrow> opacity_profile \<Rightarrow> unit res" where
  "validate_scheduler_environment_domain q p =
     (let ps = oin_points q in
      require_that
        (opt_scheduler ` set ps = set (opp_schedulers p) \<and> opt_environment ` set ps = set (opp_environments p) \<and>
         (\<lambda>x. (opt_scheduler x, opt_environment x)) ` set ps = set (List.product (opp_schedulers p) (opp_environments p)))
        (RuntimeError ''scheduler/environment domain''))"

definition validate_order_and_cut_domains :: "opacity_input \<Rightarrow> opacity_profile \<Rightarrow> unit res" where
  "validate_order_and_cut_domains q p =
     require_that
       (opt_order ` set (oin_points q) = set (opp_orders p) \<and> opt_cut ` set (oin_points q) = {opp_cut p})
       (RuntimeError ''order and cut domain'')"

definition validate_strategy_domain :: "opacity_input \<Rightarrow> opacity_profile \<Rightarrow> unit res" where
  "validate_strategy_domain q p =
     (case opp_strategies p of
        Some refs \<Rightarrow> require_that (opt_strategy ` set (oin_points q) = set refs) (RuntimeError ''strategy domain'')
      | None \<Rightarrow> require_that (distinct_count opt_strategy (oin_points q) = 1) (RuntimeError ''one fixed strategy''))"

definition validate_coalition_domain :: "opacity_input \<Rightarrow> opacity_profile \<Rightarrow> unit res" where
  "validate_coalition_domain q p =
     require_that (\<not> list_ex (\<lambda>x. (opt_coalition_key x \<noteq> None) \<noteq> opp_coalition p) (oin_points q))
       (RuntimeError ''coalition coordinates'')"

definition validate_profile_domains :: "opacity_input \<Rightarrow> opacity_profile \<Rightarrow> unit res" where
  "validate_profile_domains q p =
     res_bind (validate_declared_bounds q p) (\<lambda>_.
     res_bind (validate_scheduler_environment_domain q p) (\<lambda>_.
     res_bind (validate_order_and_cut_domains q p) (\<lambda>_.
     res_bind (validate_strategy_domain q p) (\<lambda>_.
       validate_coalition_domain q p))))"

section \<open>The analysis\<close>

definition bounded_cell_key ::
  "opacity_point \<Rightarrow> string \<times> string \<times> string \<times> string \<times> string option \<times> string \<times> string" where
  "bounded_cell_key x =
     (opt_initial_key x, opt_observation_key x, opt_memory_key x, opt_release_key x, opt_coalition_key x,
      opt_strategy x, opt_order x)"

definition bounded_max_points :: nat where "bounded_max_points = 4096"

definition incomplete_enumeration_code :: string where "incomplete_enumeration_code = ''participant-opacity.incomplete-enumeration''"
definition bounded_vacuous_code :: string where "bounded_vacuous_code = ''participant-opacity.vacuous-secret-domain''"
definition analysis_bound_code :: string where "analysis_bound_code = ''participant-opacity.analysis-bound-exceeded''"

definition bounded_unsupported_evidence ::
  "opacity_input \<Rightarrow> opacity_profile \<Rightarrow> bounded_outcome \<Rightarrow> opacity_diagnostic \<Rightarrow> nat \<Rightarrow> nat \<Rightarrow> bounded_evidence res" where
  "bounded_unsupported_evidence q p outcome diagnostic checked secrets =
     res_bind (make_reasons [snd diagnostic]) (\<lambda>codes.
       make_bounded_evidence
         \<lparr>bev_profile_id = opp_id p, bev_profile_revision = opp_revision p, bev_claim = oin_claim q, bev_outcome = outcome,
          bev_points = checked, bev_secret_points = secrets, bev_diagnostics = [diagnostic], bev_counterexample = None,
          bev_reasons = Some codes\<rparr>)"

definition analysis_precondition_evidence :: "opacity_input \<Rightarrow> opacity_profile \<Rightarrow> bounded_evidence res option" where
  "analysis_precondition_evidence q p =
     (if \<not> oin_complete q
      then Some (bounded_unsupported_evidence q p BOUNDED_UNSUPPORTED (''/complete_enumeration'', incomplete_enumeration_code) 0 0)
      else if length (oin_points q) > bounded_max_points
      then Some (bounded_unsupported_evidence q p BOUNDED_UNSUPPORTED (''/points'', analysis_bound_code) 0 0)
      else None)"

definition analyze_nonvacuous_carrier :: "opacity_input \<Rightarrow> opacity_profile \<Rightarrow> opacity_point list \<Rightarrow> bounded_evidence res" where
  "analyze_nonvacuous_carrier q p reachable =
     res_bind (evaluate_opacity_kernel bounded_cell_key opt_ordinal opt_secret reachable) (\<lambda>result.
     res_bind
       (case okr_actual result of
          None \<Rightarrow> Inr None
        | Some n \<Rightarrow>
            (case okr_cell_size result of
               None \<Rightarrow> Inl (AssertionError ''counterexample_cell_size'')
             | Some examined \<Rightarrow>
                 res_bind (make_bounded_counterexample \<lparr>bcx_point = n, bcx_cell_size = examined\<rparr>) (\<lambda>x. Inr (Some x)))) (\<lambda>counterexample.
       make_bounded_evidence
         \<lparr>bev_profile_id = opp_id p, bev_profile_revision = opp_revision p, bev_claim = oin_claim q,
          bev_outcome = (if counterexample = None then NO_COUNTEREXAMPLE_IN_BOUNDS else BOUNDED_COUNTEREXAMPLE),
          bev_points = okr_points result, bev_secret_points = okr_secret_points result, bev_diagnostics = [],
          bev_counterexample = counterexample, bev_reasons = None\<rparr>))"

definition analyze_participant_opacity_input ::
  "(string \<Rightarrow> relation_catalog res) \<Rightarrow> opacity_input \<Rightarrow> opacity_profile \<Rightarrow> bounded_evidence res" where
  "analyze_participant_opacity_input catalogs q p =
     res_bind (validate_profile_admission catalogs q p) (\<lambda>_.
     res_bind (validate_profile_domains q p) (\<lambda>_.
       case analysis_precondition_evidence q p of
         Some evidence \<Rightarrow> evidence
       | None \<Rightarrow>
           (let reachable = sort_key opt_ordinal (filter opt_reachable (oin_points q)) in
            if filter opt_secret reachable = []
            then bounded_unsupported_evidence q p BOUNDED_VACUOUS (''/points'', bounded_vacuous_code) (length reachable) 0
            else analyze_nonvacuous_carrier q p reachable)))"

definition replay_participant_opacity_evidence ::
  "(string \<Rightarrow> relation_catalog res) \<Rightarrow> opacity_input \<Rightarrow> opacity_profile \<Rightarrow> bounded_evidence \<Rightarrow> bounded_evidence res" where
  "replay_participant_opacity_evidence catalogs q p e =
     res_bind (analyze_participant_opacity_input catalogs q p) (\<lambda>replayed.
       if replayed \<noteq> e then Inl (ValueError ''evidence replay did not reproduce'') else Inr replayed)"

section \<open>What it decides\<close>

definition reachable_points :: "opacity_input \<Rightarrow> opacity_point set" where
  "reachable_points q = {x \<in> set (oin_points q). opt_reachable x}"

definition secret_exposed :: "opacity_input \<Rightarrow> opacity_point \<Rightarrow> bool" where
  "secret_exposed q x \<longleftrightarrow>
     x \<in> reachable_points q \<and> opt_secret x \<and>
     (\<forall>y \<in> reachable_points q. bounded_cell_key y = bounded_cell_key x \<longrightarrow> opt_secret y)"

definition bounded_admitted :: "(string \<Rightarrow> relation_catalog res) \<Rightarrow> opacity_input \<Rightarrow> opacity_profile \<Rightarrow> bool" where
  "bounded_admitted catalogs q p \<longleftrightarrow>
     make_opacity_input q = Inr q \<and> make_profile p = Inr p \<and>
     validate_profile_admission catalogs q p = Inr () \<and> validate_profile_domains q p = Inr ()"

lemma bounded_claim_of_profile:
  assumes "bounded_admitted catalogs q p"
  shows "clm_taxonomy (oin_claim q) = opacity_taxonomy" and "clm_relation (oin_claim q) = opacity_relation"
    and "clm_profile (oin_claim q) = Some (opp_id p)" and "clm_profile_revision (oin_claim q) = Some (opp_revision p)"
proof -
  have "validate_profile_admission catalogs q p = Inr ()" using assms by (simp add: bounded_admitted_def)
  then obtain ctl where "validate_behavioral_claim_binding (oin_claim q) ctl p = Inr ()"
    by (auto simp: validate_profile_admission_def res_bind_Inr_iff split: if_splits sum.splits)
  note clm = claim_of_profile [OF this]
  have "opp_taxonomy p = opacity_taxonomy" "opp_relation p = opacity_relation"
    using assms by (simp_all add: bounded_admitted_def make_profile_def split: if_splits)
  with clm show "clm_taxonomy (oin_claim q) = opacity_taxonomy" "clm_relation (oin_claim q) = opacity_relation"
    "clm_profile (oin_claim q) = Some (opp_id p)" "clm_profile_revision (oin_claim q) = Some (opp_revision p)" by simp_all
qed

lemma bounded_points_few:
  "bounded_admitted catalogs q p \<Longrightarrow> length (filter opt_reachable (oin_points q)) \<le> max_opacity_points"
  using le_trans [OF length_filter_le [of opt_reachable "oin_points q"]]
  by (simp add: bounded_admitted_def make_opacity_input_def split: if_splits)

lemma bounded_evidence_run:
  assumes adm: "bounded_admitted catalogs q p" and scope: "bounded_claim_scope (oin_claim q)"
    and "evidence_counts_ok e" and "outcome_payloads_ok e" and "bev_points e \<le> max_opacity_points"
    and "length (bev_diagnostics e) \<le> 64"
    and "bev_profile_id e = opp_id p" and "bev_profile_revision e = opp_revision p" and "bev_claim e = oin_claim q"
  shows "make_bounded_evidence e = Inr e"
proof -
  have "bev_secret_points e \<le> max_opacity_points"
    using assms(3,5) by (simp add: evidence_counts_ok_def)
  moreover have "bounded_claim_join e"
    using bounded_claim_of_profile [OF adm] scope assms(7-9) by (simp add: bounded_claim_join_def)
  ultimately show ?thesis using assms(3-6) by (simp add: make_bounded_evidence_def)
qed

lemma unsupported_run:
  assumes "bounded_admitted catalogs q p" and "bounded_claim_scope (oin_claim q)"
    and "outcome \<in> {BOUNDED_VACUOUS, BOUNDED_UNSUPPORTED}" and "checked \<le> max_opacity_points"
  shows "\<exists>e. bounded_unsupported_evidence q p outcome diagnostic checked 0 = Inr e \<and> bev_outcome e = outcome \<and>
    bev_counterexample e = None \<and> bev_points e = checked"
proof -
  have "make_reasons [snd diagnostic] = Inr [snd diagnostic]"
    by (simp add: make_reasons_def sorted_unique_def)
  moreover have "make_bounded_evidence
      \<lparr>bev_profile_id = opp_id p, bev_profile_revision = opp_revision p, bev_claim = oin_claim q, bev_outcome = outcome,
       bev_points = checked, bev_secret_points = 0, bev_diagnostics = [diagnostic], bev_counterexample = None,
       bev_reasons = Some [snd diagnostic]\<rparr> = Inr
      \<lparr>bev_profile_id = opp_id p, bev_profile_revision = opp_revision p, bev_claim = oin_claim q, bev_outcome = outcome,
       bev_points = checked, bev_secret_points = 0, bev_diagnostics = [diagnostic], bev_counterexample = None,
       bev_reasons = Some [snd diagnostic]\<rparr>"
    using assms(3,4)
    by (intro bounded_evidence_run [OF assms(1,2)]) (auto simp: evidence_counts_ok_def outcome_payloads_ok_def)
  ultimately show ?thesis by (simp add: bounded_unsupported_evidence_def)
qed

text \<open>The scan over a carrier with a secret point.\<close>

definition bounded_finding :: "opacity_input \<Rightarrow> bounded_evidence \<Rightarrow> bool" where
  "bounded_finding q e \<longleftrightarrow>
     (case bev_counterexample e of
        None \<Rightarrow> bev_outcome e = NO_COUNTEREXAMPLE_IN_BOUNDS \<and> (\<forall>x. \<not> secret_exposed q x)
      | Some c \<Rightarrow>
          bev_outcome e = BOUNDED_COUNTEREXAMPLE \<and>
          (\<exists>x. secret_exposed q x \<and> opt_ordinal x = bcx_point c \<and>
             bcx_cell_size c = card {y \<in> reachable_points q. bounded_cell_key y = bounded_cell_key x}) \<and>
          (\<forall>y. secret_exposed q y \<longrightarrow> bcx_point c \<le> opt_ordinal y))"

definition evidence_shape :: "opacity_input \<Rightarrow> opacity_profile \<Rightarrow> bounded_evidence \<Rightarrow> bool" where
  "evidence_shape q p e \<longleftrightarrow>
     evidence_counts_ok e \<and> outcome_payloads_ok e \<and> bev_points e \<le> max_opacity_points \<and> length (bev_diagnostics e) \<le> 64 \<and>
     bev_profile_id e = opp_id p \<and> bev_profile_revision e = opp_revision p \<and> bev_claim e = oin_claim q"

lemma nonvacuous_shape:
  assumes adm: "bounded_admitted catalogs q p"
    and secret: "filter opt_secret (filter opt_reachable (oin_points q)) \<noteq> []"
  shows "\<exists>e. analyze_nonvacuous_carrier q p (sort_key opt_ordinal (filter opt_reachable (oin_points q))) = make_bounded_evidence e \<and>
    evidence_shape q p e \<and> bounded_finding q e"
proof -
  let ?ps = "sort_key opt_ordinal (filter opt_reachable (oin_points q))"
  have make: "make_opacity_input q = Inr q" using adm by (simp add: bounded_admitted_def)
  then have q: "carrier_ok q" "list_all opacity_point_ok (oin_points q)"
    by (simp_all add: make_opacity_input_def split: if_splits)
  have set: "set ?ps = reachable_points q" by (auto simp: reachable_points_def)
  have few: "length ?ps \<le> max_opacity_points" using bounded_points_few [OF adm] by simp
  have distinct: "distinct ?ps"
    using q(1) by (simp add: carrier_ok_def Let_def distinct_map)
  have exposed: "x \<in> set ?ps \<and> opt_secret x \<and> secret_only_cell bounded_cell_key opt_secret ?ps x \<longleftrightarrow> secret_exposed q x" for x
    unfolding secret_only_cell_def list_all_iff set secret_exposed_def by simp
  have size: "cell_size bounded_cell_key ?ps x = card {y \<in> reachable_points q. bounded_cell_key y = bounded_cell_key x}" for x
    using length_filter_card [OF distinct, of "\<lambda>y. bounded_cell_key y = bounded_cell_key x" "\<lambda>y. y"]
    by (simp only: cell_size_def map_ident set)
  show ?thesis
  proof (rule opacity_kernel_run [of bounded_cell_key opt_ordinal opt_secret ?ps])
    fix result
    assume run: "evaluate_opacity_kernel bounded_cell_key opt_ordinal opt_secret ?ps = Inr result"
      and points: "okr_points result = length ?ps" and secrets: "okr_secret_points result = length (filter opt_secret ?ps)"
      and none: "okr_actual result = None \<Longrightarrow> okr_cell_size result = None \<and>
        (\<forall>x \<in> set ?ps. opt_secret x \<longrightarrow> \<not> secret_only_cell bounded_cell_key opt_secret ?ps x)"
      and some: "\<And>n. okr_actual result = Some n \<Longrightarrow>
        \<exists>x \<in> set ?ps. opt_ordinal x = n \<and> opt_secret x \<and> secret_only_cell bounded_cell_key opt_secret ?ps x \<and>
          okr_cell_size result = Some (cell_size bounded_cell_key ?ps x) \<and>
          (\<forall>y \<in> set ?ps. opt_secret y \<and> secret_only_cell bounded_cell_key opt_secret ?ps y \<longrightarrow> n \<le> opt_ordinal y)"
    have counts: "0 < length ?ps" "0 < length (filter opt_secret ?ps)"
      using secret by (auto simp: filter_sort filter_empty_conv)
    have fewer: "length (filter opt_secret ?ps) \<le> length ?ps" by (rule length_filter_le)
    define ev where "ev outcome c = \<lparr>bev_profile_id = opp_id p, bev_profile_revision = opp_revision p, bev_claim = oin_claim q,
        bev_outcome = outcome, bev_points = length ?ps, bev_secret_points = length (filter opt_secret ?ps),
        bev_diagnostics = [], bev_counterexample = c, bev_reasons = None\<rparr>" for outcome c
    have shaped: "evidence_shape q p (ev outcome c)"
      if "(c \<noteq> None) = (outcome = BOUNDED_COUNTEREXAMPLE)" "outcome \<notin> {BOUNDED_VACUOUS, BOUNDED_UNSUPPORTED}" for outcome c
      using that counts fewer few
      by (auto simp: evidence_shape_def ev_def evidence_counts_ok_def outcome_payloads_ok_def)
    show ?thesis
    proof (cases "okr_actual result")
      case None
      with none exposed have "\<forall>x. \<not> secret_exposed q x" by blast
      moreover have "analyze_nonvacuous_carrier q p ?ps = make_bounded_evidence (ev NO_COUNTEREXAMPLE_IN_BOUNDS None)"
        unfolding analyze_nonvacuous_carrier_def run res_bind.simps None points secrets by (simp add: ev_def)
      ultimately show ?thesis
        using shaped [of None NO_COUNTEREXAMPLE_IN_BOUNDS]
        by (intro exI [of _ "ev NO_COUNTEREXAMPLE_IN_BOUNDS None"]) (simp add: bounded_finding_def ev_def)
    next
      case (Some n)
      from some [OF Some] obtain x where x: "x \<in> set ?ps" "opt_ordinal x = n" "opt_secret x"
        "secret_only_cell bounded_cell_key opt_secret ?ps x" "okr_cell_size result = Some (cell_size bounded_cell_key ?ps x)"
        and least: "\<forall>y \<in> set ?ps. opt_secret y \<and> secret_only_cell bounded_cell_key opt_secret ?ps y \<longrightarrow> n \<le> opt_ordinal y"
        by blast
      define c where "c = \<lparr>bcx_point = n, bcx_cell_size = cell_size bounded_cell_key ?ps x\<rparr>"
      have "opacity_point_ok x" using q(2) x(1) by (auto simp: list_all_iff)
      then have "0 \<le> n \<and> n < int max_opacity_points" using x(2) by (simp add: opacity_point_ok_def)
      moreover have "cell_size bounded_cell_key ?ps x \<le> max_opacity_points"
        unfolding cell_size_def using few length_filter_le le_trans by blast
      moreover have "0 < cell_size bounded_cell_key ?ps x"
        using x(1) by (auto simp: cell_size_def filter_empty_conv)
      ultimately have "make_bounded_counterexample c = Inr c"
        by (simp add: make_bounded_counterexample_def c_def Suc_le_eq)
      then have "analyze_nonvacuous_carrier q p ?ps = make_bounded_evidence (ev BOUNDED_COUNTEREXAMPLE (Some c))"
        unfolding analyze_nonvacuous_carrier_def run res_bind.simps Some x(5) option.case points secrets c_def [symmetric]
        by (simp add: ev_def)
      moreover have "bounded_finding q (ev BOUNDED_COUNTEREXAMPLE (Some c))"
      proof -
        have "secret_exposed q x" using exposed x by blast
        moreover have "\<forall>y. secret_exposed q y \<longrightarrow> n \<le> opt_ordinal y" using exposed least by blast
        moreover have "bcx_cell_size c = card {y \<in> reachable_points q. bounded_cell_key y = bounded_cell_key x}" "bcx_point c = n"
          unfolding c_def by (simp_all only: size bounded_counterexample.simps)
        ultimately show ?thesis using x(2) by (auto simp: bounded_finding_def ev_def)
      qed
      ultimately show ?thesis
        using shaped [of "Some c" BOUNDED_COUNTEREXAMPLE] by blast
    qed
  qed
qed

lemma nonvacuous_run:
  assumes adm: "bounded_admitted catalogs q p" and scope: "bounded_claim_scope (oin_claim q)"
    and secret: "filter opt_secret (filter opt_reachable (oin_points q)) \<noteq> []"
  shows "\<exists>e. analyze_nonvacuous_carrier q p (sort_key opt_ordinal (filter opt_reachable (oin_points q))) = Inr e \<and> bounded_finding q e"
proof -
  obtain e where "analyze_nonvacuous_carrier q p (sort_key opt_ordinal (filter opt_reachable (oin_points q))) = make_bounded_evidence e"
    "evidence_shape q p e" "bounded_finding q e"
    using nonvacuous_shape [OF adm secret] by blast
  moreover have "make_bounded_evidence e = Inr e"
    using calculation(2) by (intro bounded_evidence_run [OF adm scope]) (simp_all add: evidence_shape_def)
  ultimately show ?thesis by auto
qed

lemma bounded_run:
  assumes adm: "bounded_admitted catalogs q p" and scope: "bounded_claim_scope (oin_claim q)"
    and "oin_complete q" and "length (oin_points q) \<le> bounded_max_points"
  shows "\<exists>e. analyze_participant_opacity_input catalogs q p = Inr e \<and>
    (if (\<exists>x \<in> reachable_points q. opt_secret x) then bounded_finding q e else bev_outcome e = BOUNDED_VACUOUS)"
proof -
  let ?ps = "filter opt_reachable (oin_points q)"
  have pre: "validate_profile_admission catalogs q p = Inr ()" "validate_profile_domains q p = Inr ()"
    "analysis_precondition_evidence q p = None"
    using assms by (simp_all add: bounded_admitted_def analysis_precondition_evidence_def)
  have some: "(\<exists>x \<in> reachable_points q. opt_secret x) \<longleftrightarrow> filter opt_secret ?ps \<noteq> []"
    by (auto simp: reachable_points_def filter_empty_conv)
  show ?thesis
  proof (cases "filter opt_secret ?ps = []")
    case True
    then have "filter opt_secret (sort_key opt_ordinal ?ps) = []" by (simp only: filter_sort) simp
    with True unsupported_run [OF adm scope, of BOUNDED_VACUOUS "length ?ps" "(''/points'', bounded_vacuous_code)"] bounded_points_few [OF adm]
    show ?thesis unfolding some by (auto simp: analyze_participant_opacity_input_def pre Let_def simp del: filter_filter)
  next
    case False
    then have "filter opt_secret (sort_key opt_ordinal ?ps) \<noteq> []"
      unfolding filter_sort by (metis length_0_conv length_sort)
    with False nonvacuous_run [OF adm scope False] show ?thesis
      unfolding some by (simp add: analyze_participant_opacity_input_def pre Let_def del: filter_filter)
  qed
qed

section \<open>The two lanes agree\<close>

fun bounded_outcome_of :: "opacity_outcome \<Rightarrow> bounded_outcome" where
  "bounded_outcome_of OPACITY_HOLDS = NO_COUNTEREXAMPLE_IN_BOUNDS"
| "bounded_outcome_of OPACITY_COUNTEREXAMPLE = BOUNDED_COUNTEREXAMPLE"
| "bounded_outcome_of OPACITY_VACUOUS = BOUNDED_VACUOUS"
| "bounded_outcome_of OPACITY_UNSUPPORTED = BOUNDED_UNSUPPORTED"

text \<open>What both lanes look at: the cell keys of the points with whether the secret holds there.\<close>

definition model_carrier where
  "model_carrier r = (\<lambda>n. (opacity_cell_key (state_of r n), mst_secret (state_of r n))) ` point_ordinals r"

definition bounded_carrier where
  "bounded_carrier q = (\<lambda>x. (bounded_cell_key x, opt_secret x)) ` reachable_points q"

lemma model_carrier_secret: "secret_ordinals r \<noteq> {} \<longleftrightarrow> (\<exists>c \<in> model_carrier r. snd c)"
  by (auto simp: secret_ordinals_def model_carrier_def)

lemma companion_iff:
  fixes key :: "'a \<Rightarrow> 'k"
  shows "(\<forall>n \<in> A. sec n \<longrightarrow> (\<exists>m \<in> A. key m = key n \<and> \<not> sec m)) \<longleftrightarrow>
    (\<forall>k. (k, True) \<in> (\<lambda>n. (key n, sec n)) ` A \<longrightarrow> (k, False) \<in> (\<lambda>n. (key n, sec n)) ` A)"
  unfolding image_iff by auto metis+

lemma model_carrier_holds: "opacity_holds r \<longleftrightarrow> (\<forall>k. (k, True) \<in> model_carrier r \<longrightarrow> (k, False) \<in> model_carrier r)"
  unfolding model_carrier_def companion_iff [symmetric]
  by (auto simp: opacity_holds_def secret_ordinals_def same_cell_def)

lemma bounded_carrier_secret: "(\<exists>x \<in> reachable_points q. opt_secret x) \<longleftrightarrow> (\<exists>c \<in> bounded_carrier q. snd c)"
  by (auto simp: bounded_carrier_def)

lemma bounded_carrier_holds:
  "(\<forall>x. \<not> secret_exposed q x) \<longleftrightarrow> (\<forall>k. (k, True) \<in> bounded_carrier q \<longrightarrow> (k, False) \<in> bounded_carrier q)"
  unfolding bounded_carrier_def companion_iff [symmetric] by (auto simp: secret_exposed_def)

lemma bounded_finding_outcome:
  assumes "bounded_finding q e"
  shows "bev_outcome e = (if \<forall>x. \<not> secret_exposed q x then NO_COUNTEREXAMPLE_IN_BOUNDS else BOUNDED_COUNTEREXAMPLE)"
  using assms by (auto simp: bounded_finding_def split: option.splits)

text \<open>
  C29. The two lanes agree on a model both can treat. On the side of the model check the request is
  accepted, admitted and supported and no initial ordinal is negative. On the side of the bounded
  test the input is admitted and supported, its claim has the scope of a bounded test, its
  enumeration is complete and has at most 4096 points, and its reachable points are the reachable
  evaluation points of the model (the same cell keys, each with whether the secret holds, in any
  order and number). Then both return evidence and the outcomes correspond: holds to no
  counterexample, counterexample to counterexample, vacuous to vacuous.
\<close>

theorem opacity_lanes_agree:
  assumes "make_request r = Inr r" and "make_profile p = Inr p" and "validate_admission r p ctl = Inr ()"
    and "initial_nonneg r" and "unsupported_diagnostics r = []"
    and "bounded_admitted catalogs q p'" and "bounded_claim_scope (oin_claim q)"
    and "oin_complete q" and "length (oin_points q) \<le> bounded_max_points"
    and "bounded_carrier q = model_carrier r"
  shows "\<exists>e b. model_check_participant_opacity_input r p ctl = Some (Inr e) \<and>
    analyze_participant_opacity_input catalogs q p' = Inr b \<and> bev_outcome b = bounded_outcome_of (oev_outcome e)"
proof -
  obtain e where e: "model_check_participant_opacity_input r p ctl = Some (Inr e)" "opacity_decided r e"
    using check_of_admitted [OF assms(1-4)] assms(5) by auto
  obtain b where b: "analyze_participant_opacity_input catalogs q p' = Inr b"
    "if (\<exists>x \<in> reachable_points q. opt_secret x) then bounded_finding q b else bev_outcome b = BOUNDED_VACUOUS"
    using bounded_run [OF assms(6-9)] by blast
  have secret: "(\<exists>x \<in> reachable_points q. opt_secret x) \<longleftrightarrow> secret_ordinals r \<noteq> {}"
    unfolding bounded_carrier_secret model_carrier_secret assms(10) by (rule refl)
  have holds: "(\<forall>x. \<not> secret_exposed q x) \<longleftrightarrow> opacity_holds r"
    unfolding bounded_carrier_holds model_carrier_holds assms(10) by (rule refl)
  have "bev_outcome b = bounded_outcome_of (oev_outcome e)"
    using b(2) bounded_finding_outcome [of q b] unfolding secret holds opacity_decided_outcome [OF e(2)]
    by (auto split: if_splits)
  with e(1) b(1) show ?thesis by blast
qed

definition example_carrier_point :: "int \<Rightarrow> string \<Rightarrow> bool \<Rightarrow> string \<Rightarrow> opacity_point" where
  "example_carrier_point n ref secret seen =
     \<lparr>opt_ordinal = n, opt_ref = ref, opt_run = ''run'', opt_cut = ''cut'', opt_strategy = ''st'', opt_scheduler = ''sc'',
      opt_environment = ''en'', opt_order = ''od'', opt_reachable = True, opt_secret = secret, opt_initial_key = ''i'',
      opt_observation_key = seen, opt_memory_key = ''m'', opt_release_key = ''r'', opt_coalition_key = None\<rparr>"

definition example_bounded_claim :: opacity_claim where
  "example_bounded_claim =
     \<lparr>clm_taxonomy = opacity_taxonomy, clm_revision = ''1'', clm_relation = opacity_relation, clm_left_carrier = None,
      clm_projection = None, clm_projection_revision = None, clm_profile = Some ''p'', clm_profile_revision = Some ''1'',
      clm_quantifier = FINITE_CASES, clm_evidence = FINITE, clm_axis = Some AXIS_BOUNDED_TEST, clm_status = TESTED,
      clm_non_claims = [bounded_nonclaim]\<rparr>"

definition example_input :: "opacity_claim \<Rightarrow> opacity_input" where
  "example_input claim =
     \<lparr>oin_profile_id = ''p'', oin_profile_revision = ''1'', oin_profile_digest = ''d'', oin_complete = True,
      oin_counts = \<lparr>pct_points = 3, pct_runs = 1, pct_cuts = 1, pct_strategies = 1, pct_pairs = 1, pct_orders = 1\<rparr>,
      oin_claim = claim,
      oin_points = [example_carrier_point 2 ''sxxx'' True ''w'', example_carrier_point 0 ''sx'' True ''v'',
        example_carrier_point 1 ''sxx'' False ''v'']\<rparr>"

definition example_catalogs :: "string \<Rightarrow> relation_catalog res" where
  "example_catalogs revision = (if revision = ''1'' then Inr example_catalog else Inl (ValueError ''unsupported revision''))"

lemma example_points_ok: "list_all opacity_point_ok (oin_points (example_input claim))"
  using example_names
  by (simp add: example_input_def example_carrier_point_def opacity_point_ok_def max_opacity_points_def)

lemma example_input_ok:
  assumes "is_ok (make_claim claim)"
  shows "make_opacity_input (example_input claim) = Inr (example_input claim)"
proof -
  have "carrier_ok (example_input claim)" by code_simp
  moreover have "is_ok (make_point_counts (oin_counts (example_input claim)))"
    by (simp add: example_input_def make_point_counts_def max_opacity_points_def)
  moreover have "oin_points (example_input claim) \<noteq> []" "length (oin_points (example_input claim)) \<le> max_opacity_points"
    "oin_claim (example_input claim) = claim"
    by (simp_all add: example_input_def max_opacity_points_def)
  ultimately show ?thesis using assms example_points_ok by (simp add: make_opacity_input_def)
qed

lemma example_bounded_admitted:
  "bounded_admitted example_catalogs (example_input example_bounded_claim) (example_profile (Some example_bounds))"
proof -
  have "is_ok (make_claim example_bounded_claim)" by code_simp
  then have "make_opacity_input (example_input example_bounded_claim) = Inr (example_input example_bounded_claim)"
    by (rule example_input_ok)
  moreover have "validate_profile_admission example_catalogs (example_input example_bounded_claim) (example_profile (Some example_bounds)) = Inr ()"
    "validate_profile_domains (example_input example_bounded_claim) (example_profile (Some example_bounds)) = Inr ()"
    by code_simp+
  ultimately show ?thesis using example_profile_ok by (simp add: bounded_admitted_def)
qed

lemma example_reachable_ordinals: "reachable_ordinals example_request = {0, 1, 2, 3}"
proof
  show "reachable_ordinals example_request \<subseteq> {0, 1, 2, 3}"
    using reachable_bound [OF example_request_ok example_nonneg] by (fastforce simp: example_sizes)
  have "model_path (mrq_transitions example_request) 0 [] 0" "model_path (mrq_transitions example_request) 0 [0] 1"
    "model_path (mrq_transitions example_request) 0 [1] 2" "model_path (mrq_transitions example_request) 0 [1, 2] 3"
    by (simp_all add: example_request_def example_edge_def)
  moreover have "0 \<in> set (mrq_initial example_request)" by (simp add: example_sizes)
  ultimately show "{0, 1, 2, 3} \<subseteq> reachable_ordinals example_request"
    unfolding reachable_ordinals_def using model_path_reach by blast
qed

lemma example_carriers: "bounded_carrier (example_input claim) = model_carrier example_request"
proof -
  have "point_ordinals example_request = {1, 2, 3}"
    unfolding point_ordinals_def example_reachable_ordinals by (auto simp: state_of_nth example_request_def example_point_def)
  moreover have "reachable_points (example_input claim) = set (oin_points (example_input claim))"
    by (auto simp: reachable_points_def example_input_def example_carrier_point_def)
  ultimately show ?thesis
    by (auto simp: bounded_carrier_def model_carrier_def example_input_def example_carrier_point_def bounded_cell_key_def
        opacity_cell_key_def state_of_nth example_request_def example_point_def)
qed

theorem opacity_lanes_agree_witness:
  "\<exists>e b. model_check_participant_opacity_input example_request (example_profile (Some example_bounds)) example_catalog = Some (Inr e) \<and>
     analyze_participant_opacity_input example_catalogs (example_input example_bounded_claim) (example_profile (Some example_bounds)) = Inr b \<and>
     bev_outcome b = bounded_outcome_of (oev_outcome e)"
proof (rule opacity_lanes_agree [OF example_request_ok example_profile_ok example_admitted example_nonneg example_supported
      example_bounded_admitted _ _ _ example_carriers])
  show "bounded_claim_scope (oin_claim (example_input example_bounded_claim))" by code_simp
  show "oin_complete (example_input example_bounded_claim)" by code_simp
  show "length (oin_points (example_input example_bounded_claim)) \<le> bounded_max_points"
    by (simp add: example_input_def bounded_max_points_def)
qed

text \<open>
  The bounded test notices the scope of its claim too late. The input admits a claim of any axis,
  status and scope, and so does the analysis; when the claim is not one for a bounded test, the
  constructor of the evidence refuses it at the end, and the analysis fails with a validation error
  instead of the operational error of a request that does not fit.
\<close>

lemma foreign_scope_fails_late:
  assumes "bounded_admitted catalogs q p" and "\<not> bounded_claim_scope (oin_claim q)"
  shows "analyze_participant_opacity_input catalogs q p = Inl (ValidationError ''ParticipantOpacityAnalysisEvidenceModel'')"
proof -
  let ?ps = "filter opt_reachable (oin_points q)"
  have refused: "make_bounded_evidence e = Inl (ValidationError ''ParticipantOpacityAnalysisEvidenceModel'')"
    if "bev_claim e = oin_claim q" for e
    using assms(2) that by (simp add: make_bounded_evidence_def bounded_claim_join_def)
  have unsupported: "bounded_unsupported_evidence q p outcome d n m = Inl (ValidationError ''ParticipantOpacityAnalysisEvidenceModel'')"
    for outcome d n m
    by (simp add: bounded_unsupported_evidence_def make_reasons_def sorted_unique_def refused)
  have scan: "analyze_nonvacuous_carrier q p (sort_key opt_ordinal ?ps) = Inl (ValidationError ''ParticipantOpacityAnalysisEvidenceModel'')"
    if "filter opt_secret ?ps \<noteq> []"
    using nonvacuous_shape [OF assms(1) that] refused by (auto simp: evidence_shape_def)
  have secret: "filter opt_secret (sort_key opt_ordinal ?ps) = [] \<longleftrightarrow> filter opt_secret ?ps = []"
    unfolding filter_sort by (metis length_0_conv length_sort)
  show ?thesis
    using assms(1) scan
    by (simp add: analyze_participant_opacity_input_def bounded_admitted_def analysis_precondition_evidence_def unsupported
        Let_def secret del: filter_filter)
qed

lemma foreign_scope_fails_late_witness:
  "analyze_participant_opacity_input example_catalogs (example_input (mrq_claim example_request)) (example_profile (Some example_bounds)) =
     Inl (ValidationError ''ParticipantOpacityAnalysisEvidenceModel'')"
proof (rule foreign_scope_fails_late)
  have "make_opacity_input (example_input (mrq_claim example_request)) = Inr (example_input (mrq_claim example_request))"
    by (rule example_input_ok) (rule example_shape)
  moreover have "validate_profile_admission example_catalogs (example_input (mrq_claim example_request)) (example_profile (Some example_bounds)) = Inr ()"
    "validate_profile_domains (example_input (mrq_claim example_request)) (example_profile (Some example_bounds)) = Inr ()"
    by code_simp+
  ultimately show "bounded_admitted example_catalogs (example_input (mrq_claim example_request)) (example_profile (Some example_bounds))"
    using example_profile_ok by (simp add: bounded_admitted_def)
  show "\<not> bounded_claim_scope (oin_claim (example_input (mrq_claim example_request)))" by code_simp
qed

end
