(* ===== verification/Random_Streams.thy ===== *)
theory Random_Streams
  imports Py_Text
begin

text \<open>
  The stateless random-stream engine: \<open>raes_contracts/random_stream_engine.py\<close> with the
  addresses, seeds and draw records of \<open>contracts/random_stream.py\<close> and the portable identifiers
  of \<open>raes/_identifiers.py\<close>. A draw reads bytes of a keyed stream at an address and turns them
  into an integer of a range by rejection sampling.

  BLAKE3 and the RFC 8785 serialiser are not part of the repository: they are the members of
  \<open>random_env\<close>, and what the code relies on (keys of 32 bytes, a digest of the requested length
  that is a slice of one stream) is the hypothesis \<open>env_ok\<close>.
\<close>

section \<open>Portable identifiers\<close>

definition portable_start :: "char \<Rightarrow> bool" where
  "portable_start c \<longleftrightarrow> c \<in> set ''abcdefghijklmnopqrstuvwxyz0123456789''"

definition portable_char :: "char \<Rightarrow> bool" where
  "portable_char c \<longleftrightarrow> portable_start c \<or> c = CHR ''_'' \<or> c = CHR ''-''"

definition is_portable_identifier :: "string \<Rightarrow> bool" where
  "is_portable_identifier s \<longleftrightarrow>
     s \<noteq> [] \<and> length s \<le> 64 \<and> portable_start (hd s) \<and> list_all portable_char (tl s)"

section \<open>Seeds\<close>

type_synonym octets = "8 word list"

record public_seed =
  seed_encoding :: string
  seed_value :: string

datatype root_entropy = PublicSeed public_seed | GovernedEntropy string string

definition hex_fixed_width :: string where
  "hex_fixed_width = ''hex-fixed-width''"

definition make_public_seed :: "public_seed \<Rightarrow> public_seed res" where
  "make_public_seed s =
     res_bind (require_that (seed_encoding s = hex_fixed_width) (ValidationError ''encoding'')) (\<lambda>_.
     res_bind (require_that (length (seed_value s) = 64 \<and> list_all is_lower_hex (seed_value s))
       (ValidationError ''value'')) (\<lambda>_. Inr s))"

text \<open>\<open>bytes.fromhex\<close>: white space between the bytes is skipped, both cases are accepted.\<close>

definition hex_integer :: "char \<Rightarrow> nat option" where
  "hex_integer c =
     (let n = of_char c :: nat in
      if 48 \<le> n \<and> n \<le> 57 then Some (n - 48)
      else if 97 \<le> n \<and> n \<le> 102 then Some (n - 87)
      else if 65 \<le> n \<and> n \<le> 70 then Some (n - 55)
      else None)"

definition ascii_space :: "char \<Rightarrow> bool" where
  "ascii_space c \<longleftrightarrow> (let n = of_char c :: nat in n = 32 \<or> (9 \<le> n \<and> n \<le> 13))"

fun from_hex :: "string \<Rightarrow> octets option" where
  "from_hex [] = Some []"
| "from_hex [c] = (if ascii_space c then Some [] else None)"
| "from_hex (c # d # cs) =
     (if ascii_space c then from_hex (d # cs)
      else case hex_integer c of
        None \<Rightarrow> None
      | Some h \<Rightarrow>
          (case hex_integer d of
             None \<Rightarrow> None
           | Some l \<Rightarrow> map_option ((#) (of_nat (16 * h + l))) (from_hex cs)))"

definition decode_public_seed :: "public_seed \<Rightarrow> octets res" where
  "decode_public_seed s =
     res_bind (require_that (seed_encoding s = hex_fixed_width)
       (ValueError ''unsupported public seed encoding'')) (\<lambda>_.
     case from_hex (seed_value s) of
       None \<Rightarrow> Inl (ValueError ''non-hexadecimal number found in fromhex() arg'')
     | Some raw \<Rightarrow>
         res_bind (require_that (length raw = 32)
           (ValueError ''public seed must decode to exactly 32 bytes'')) (\<lambda>_. Inr raw))"

section \<open>Addresses\<close>

record trial_coordinate =
  tc_condition :: "string option"
  tc_block :: "string option"
  tc_replicate :: "string option"

record stream_address =
  sa_namespace :: string
  sa_trial :: trial_coordinate
  sa_policy :: string
  sa_point :: string
  sa_purpose :: string
  sa_coordinate :: int

record participant_stream_address =
  pa_namespace :: string
  pa_policy :: string
  pa_participant :: string
  pa_segment :: int
  pa_ordinal :: int
  pa_purpose :: string
  pa_coordinate :: int

datatype draw_address = TrialDraw stream_address | ParticipantDraw participant_stream_address

text \<open>The closed vocabulary \<open>random-stream-draw-purposes\<close>.\<close>

definition draw_purposes :: "string list" where
  "draw_purposes =
     [''condition-assignment'', ''sampling-selection'', ''scheduler-tiebreak'', ''agent-policy'',
      ''observation-noise'', ''other'']"

definition require_portable :: "string \<Rightarrow> unit res" where
  "require_portable s =
     require_that (is_portable_identifier s) (ValidationError ''value must be a portable SDL identifier'')"

definition require_optional_portable :: "string option \<Rightarrow> unit res" where
  "require_optional_portable v = (case v of None \<Rightarrow> Inr () | Some s \<Rightarrow> require_portable s)"

definition require_draw_purpose :: "string \<Rightarrow> unit res" where
  "require_draw_purpose p =
     require_that (p \<in> set draw_purposes) (ValidationError ''draw_purpose is not a permitted term'')"

definition make_stream_address :: "stream_address \<Rightarrow> stream_address res" where
  "make_stream_address a =
     res_bind (require_portable (sa_namespace a)) (\<lambda>_.
     res_bind (require_optional_portable (tc_condition (sa_trial a))) (\<lambda>_.
     res_bind (require_optional_portable (tc_block (sa_trial a))) (\<lambda>_.
     res_bind (require_optional_portable (tc_replicate (sa_trial a))) (\<lambda>_.
     res_bind (require_portable (sa_policy a)) (\<lambda>_.
     res_bind (require_portable (sa_point a)) (\<lambda>_.
     res_bind (require_portable (sa_purpose a)) (\<lambda>_.
     res_bind (require_that (0 \<le> sa_coordinate a) (ValidationError ''local_coordinate'')) (\<lambda>_.
     res_bind (require_draw_purpose (sa_purpose a)) (\<lambda>_. Inr a)))))))))"

definition autonomous_execution_prefix :: string where
  "autonomous_execution_prefix = ''participant.autonomous-execution.''"

definition behavior_prefix :: string where
  "behavior_prefix = ''participant.behavior.''"

definition make_participant_address :: "participant_stream_address \<Rightarrow> participant_stream_address res" where
  "make_participant_address a =
     res_bind (require_portable (pa_namespace a)) (\<lambda>_.
     res_bind (require_that (pa_policy a \<noteq> []) (ValidationError ''policy_address'')) (\<lambda>_.
     res_bind (require_that (pa_participant a \<noteq> []) (ValidationError ''participant_address'')) (\<lambda>_.
     res_bind (require_that (0 \<le> pa_segment a) (ValidationError ''time_segment'')) (\<lambda>_.
     res_bind (require_that (0 \<le> pa_ordinal a) (ValidationError ''occurrence_ordinal'')) (\<lambda>_.
     res_bind (require_portable (pa_purpose a)) (\<lambda>_.
     res_bind (require_that (0 \<le> pa_coordinate a) (ValidationError ''local_coordinate'')) (\<lambda>_.
     res_bind (require_draw_purpose (pa_purpose a)) (\<lambda>_.
     res_bind (require_that (starts_with autonomous_execution_prefix (pa_policy a))
       (ValidationError ''participant stream policy_address must be a compiled autonomous-execution address'')) (\<lambda>_.
     res_bind (require_that (starts_with behavior_prefix (pa_participant a))
       (ValidationError ''participant stream participant_address must be a compiled participant address''))
       (\<lambda>_. Inr a))))))))))"

fun local_coordinate :: "draw_address \<Rightarrow> int" where
  "local_coordinate (TrialDraw a) = sa_coordinate a"
| "local_coordinate (ParticipantDraw a) = pa_coordinate a"

text \<open>\<open>model_dump(mode="json", by_alias=True, exclude_none=True)\<close>.\<close>

definition present_member :: "string \<Rightarrow> string option \<Rightarrow> (string \<times> py_value) list" where
  "present_member k v = (case v of None \<Rightarrow> [] | Some s \<Rightarrow> [(k, PyStr s)])"

fun address_payload :: "draw_address \<Rightarrow> py_value" where
  "address_payload (TrialDraw a) =
     PyDict
       [(''namespace'', PyStr (sa_namespace a)),
        (''trial_coordinate'',
          PyDict (present_member ''condition_id'' (tc_condition (sa_trial a))
            @ present_member ''block_id'' (tc_block (sa_trial a))
            @ present_member ''replicate_id'' (tc_replicate (sa_trial a)))),
        (''selection_policy_id'', PyStr (sa_policy a)),
        (''variation_point_id'', PyStr (sa_point a)),
        (''draw_purpose'', PyStr (sa_purpose a)),
        (''local_coordinate'', PyInt (sa_coordinate a))]"
| "address_payload (ParticipantDraw a) =
     PyDict
       [(''namespace'', PyStr (pa_namespace a)),
        (''policy_address'', PyStr (pa_policy a)),
        (''participant_address'', PyStr (pa_participant a)),
        (''time_segment'', PyInt (pa_segment a)),
        (''occurrence_ordinal'', PyInt (pa_ordinal a)),
        (''draw_purpose'', PyStr (pa_purpose a)),
        (''local_coordinate'', PyInt (pa_coordinate a))]"

section \<open>Streams\<close>

record random_env =
  re_derive_key :: "string \<Rightarrow> octets \<Rightarrow> octets"
  re_digest :: "octets \<Rightarrow> octets \<Rightarrow> int \<Rightarrow> int \<Rightarrow> octets res"
  re_canonical :: "py_value \<Rightarrow> octets option"

definition supported_profiles :: "string list" where
  "supported_profiles = [''blake3-xof-participant-v1'', ''blake3-xof-v1'']"

definition require_supported_profile :: "string \<Rightarrow> unit res" where
  "require_supported_profile p =
     require_that (p \<in> set supported_profiles) (ValueError ''unsupported random stream profile id'')"

definition derivation_context :: "string \<Rightarrow> string" where
  "derivation_context profile = ''raes-random-stream-v1|profile='' @ profile"

definition derive_stream_key :: "random_env \<Rightarrow> string \<Rightarrow> octets \<Rightarrow> octets res" where
  "derive_stream_key env profile entropy =
     res_bind (require_supported_profile profile) (\<lambda>_.
     res_bind (require_that (length entropy = 32) (ValueError ''root entropy must be exactly 32 bytes'')) (\<lambda>_.
       Inr (re_derive_key env (derivation_context profile) entropy)))"

definition canonical_address_bytes :: "random_env \<Rightarrow> draw_address \<Rightarrow> octets res" where
  "canonical_address_bytes env a =
     (case re_canonical env (address_payload a) of
        None \<Rightarrow> Inl (ValueError ''stream address canonicalization failed'')
      | Some bs \<Rightarrow> Inr bs)"

definition raw_block :: "random_env \<Rightarrow> string \<Rightarrow> octets \<Rightarrow> draw_address \<Rightarrow> int \<Rightarrow> int \<Rightarrow> octets res" where
  "raw_block env profile key a byte_length byte_offset =
     res_bind (require_supported_profile profile) (\<lambda>_.
     res_bind (require_that (1 \<le> byte_length) (ValueError ''raw_block byte_length must be positive'')) (\<lambda>_.
     res_bind (require_that (0 \<le> byte_offset) (ValueError ''raw_block byte_offset must be non-negative'')) (\<lambda>_.
     res_bind (canonical_address_bytes env a) (\<lambda>message.
       re_digest env key message byte_length (local_coordinate a * 32 + byte_offset)))))"

section \<open>Rejection sampling\<close>

text \<open>\<open>int.from_bytes(chunk, "big")\<close>.\<close>

definition int_from_bytes :: "octets \<Rightarrow> int" where
  "int_from_bytes bs = foldl (\<lambda>n b. 256 * n + uint b) 0 bs"

function byte_width_from :: "int \<Rightarrow> nat \<Rightarrow> nat" where
  "byte_width_from width n = (if 256 ^ n < width then byte_width_from width (Suc n) else n)"
  by pat_completeness auto

termination
proof (relation "measure (\<lambda>(width, n). nat (width - 256 ^ n))")
  show "wf (measure (\<lambda>(width, n). nat (width - 256 ^ n)))" by simp
next
  fix width :: int and n :: nat
  assume "256 ^ n < width"
  moreover have "(256::int) ^ n < 256 ^ Suc n" by simp
  ultimately show "((width, Suc n), (width, n)) \<in> measure (\<lambda>(width, n). nat (width - 256 ^ n))"
    by simp
qed

declare byte_width_from.simps [simp del]

definition bounded_integer_byte_width :: "int \<Rightarrow> nat" where
  "bounded_integer_byte_width width = byte_width_from width 1"

record bounded_draw =
  bd_value :: "int option"
  bd_attempts :: int
  bd_exhausted :: bool

text \<open>The acceptance ceiling: the widest multiple of the range that the sampled bytes can hold.\<close>

definition acceptance_limit :: "int \<Rightarrow> int" where
  "acceptance_limit width =
     (let ceiling = 256 ^ bounded_integer_byte_width width in ceiling - ceiling mod width)"

fun draw_attempts :: "(nat \<Rightarrow> octets res) \<Rightarrow> int \<Rightarrow> int \<Rightarrow> int \<Rightarrow> nat list \<Rightarrow> bounded_draw res" where
  "draw_attempts chunk minimum width attempts [] =
     Inr \<lparr>bd_value = None, bd_attempts = attempts, bd_exhausted = True\<rparr>"
| "draw_attempts chunk minimum width attempts (i # rest) =
     res_bind (chunk i) (\<lambda>bs.
       let raw = int_from_bytes bs in
       if raw < acceptance_limit width
       then Inr \<lparr>bd_value = Some (minimum + raw mod width), bd_attempts = int i, bd_exhausted = False\<rparr>
       else draw_attempts chunk minimum width attempts rest)"

definition draw_bounded_integer ::
  "random_env \<Rightarrow> string \<Rightarrow> octets \<Rightarrow> draw_address \<Rightarrow> int \<Rightarrow> int \<Rightarrow> int \<Rightarrow> bounded_draw res" where
  "draw_bounded_integer env profile key a minimum maximum attempts =
     res_bind (require_supported_profile profile) (\<lambda>_.
     res_bind (require_that (minimum \<le> maximum)
       (ValueError ''draw_bounded_integer requires maximum >= minimum'')) (\<lambda>_.
     res_bind (require_that (1 \<le> attempts)
       (ValueError ''draw_bounded_integer requires max_rejection_attempts >= 1'')) (\<lambda>_.
       let width = maximum - minimum + 1; byte_width = int (bounded_integer_byte_width width) in
       draw_attempts (\<lambda>i. raw_block env profile key a byte_width (int i * byte_width))
         minimum width attempts [0..<nat attempts])))"

section \<open>Batches\<close>

record draw_request =
  dq_address :: stream_address
  dq_minimum :: int
  dq_maximum :: int
  dq_attempts :: int

text \<open>
  A batch has its draws or the diagnostic of a collision, which carries the two counts of
  duplicates and nothing else that varies.
\<close>

datatype batch_result = BatchDraws "bounded_draw list" | BatchCollision nat nat

definition semantic_coordinate_key ::
  "stream_address \<Rightarrow> string \<times> string option \<times> string option \<times> string option \<times> string \<times> string \<times> string \<times> int" where
  "semantic_coordinate_key a =
     (sa_namespace a, tc_condition (sa_trial a), tc_block (sa_trial a), tc_replicate (sa_trial a),
      sa_policy a, sa_point a, sa_purpose a, sa_coordinate a)"

record batch_scan =
  bs_semantic ::
    "(string \<times> string option \<times> string option \<times> string option \<times> string \<times> string \<times> string \<times> int) set"
  bs_semantic_count :: nat
  bs_bytes :: "octets set"
  bs_bytes_count :: nat

definition scan_request :: "random_env \<Rightarrow> batch_scan \<Rightarrow> draw_request \<Rightarrow> batch_scan res" where
  "scan_request env s q =
     (let key = semantic_coordinate_key (dq_address q) in
      res_bind (canonical_address_bytes env (TrialDraw (dq_address q))) (\<lambda>bs.
        Inr \<lparr>bs_semantic = insert key (bs_semantic s),
             bs_semantic_count = bs_semantic_count s + (if key \<in> bs_semantic s then 1 else 0),
             bs_bytes = insert bs (bs_bytes s),
             bs_bytes_count = bs_bytes_count s + (if bs \<in> bs_bytes s then 1 else 0)\<rparr>))"

definition empty_scan :: batch_scan where
  "empty_scan = \<lparr>bs_semantic = {}, bs_semantic_count = 0, bs_bytes = {}, bs_bytes_count = 0\<rparr>"

definition draw_bounded_integer_batch ::
  "random_env \<Rightarrow> string \<Rightarrow> octets \<Rightarrow> draw_request list \<Rightarrow> batch_result res" where
  "draw_bounded_integer_batch env profile key requests =
     res_bind (require_supported_profile profile) (\<lambda>_.
     res_bind (res_fold (scan_request env) empty_scan requests) (\<lambda>s.
       if bs_semantic_count s \<noteq> 0 \<or> bs_bytes_count s \<noteq> 0
       then Inr (BatchCollision (bs_semantic_count s) (bs_bytes_count s))
       else res_bind (res_map (\<lambda>q. draw_bounded_integer env profile key (TrialDraw (dq_address q))
           (dq_minimum q) (dq_maximum q) (dq_attempts q)) requests)
         (\<lambda>draws. Inr (BatchDraws draws))))"

section \<open>Draw records\<close>

datatype draw_outcome = PublicOutcome string | GovernedOutcome string string

record draw_record =
  dr_control :: string
  dr_address :: stream_address
  dr_transform :: string
  dr_version :: string
  dr_coordinate :: int
  dr_outcome :: "draw_outcome option"
  dr_attempts :: int
  dr_exhausted :: bool

fun make_draw_outcome :: "draw_outcome \<Rightarrow> unit res" where
  "make_draw_outcome (PublicOutcome v) = require_that (v \<noteq> []) (ValidationError ''value'')"
| "make_draw_outcome (GovernedOutcome ref version) =
     require_that (ref \<noteq> [] \<and> version \<noteq> []) (ValidationError ''reference'')"

definition make_draw_record :: "draw_record \<Rightarrow> draw_record res" where
  "make_draw_record r =
     res_bind (require_that (dr_control r \<noteq> []) (ValidationError ''control_id'')) (\<lambda>_.
     res_bind (make_stream_address (dr_address r)) (\<lambda>_.
     res_bind (require_that (dr_transform r \<noteq> []) (ValidationError ''transform_id'')) (\<lambda>_.
     res_bind (require_that (dr_version r \<noteq> []) (ValidationError ''transform_version'')) (\<lambda>_.
     res_bind (require_that (0 \<le> dr_coordinate r) (ValidationError ''local_coordinate'')) (\<lambda>_.
     res_bind (case dr_outcome r of None \<Rightarrow> Inr () | Some out \<Rightarrow> make_draw_outcome out) (\<lambda>_.
     res_bind (require_that (0 \<le> dr_attempts r) (ValidationError ''rejection_attempts'')) (\<lambda>_.
     res_bind (require_that (dr_coordinate r = sa_coordinate (dr_address r))
       (ValidationError ''stochastic draw record local_coordinate must match address.local_coordinate'')) (\<lambda>_.
     res_bind (require_that (\<not> (dr_exhausted r \<and> dr_outcome r \<noteq> None))
       (ValidationError ''stochastic draw record must omit outcome when rejection_exhausted is true'')) (\<lambda>_.
     res_bind (require_that (\<not> (\<not> dr_exhausted r \<and> dr_outcome r = None))
       (ValidationError ''stochastic draw record must include outcome when rejection_exhausted is false''))
       (\<lambda>_. Inr r))))))))))"

section \<open>What the code relies on\<close>

definition env_ok :: "random_env \<Rightarrow> (octets \<Rightarrow> octets \<Rightarrow> int \<Rightarrow> 8 word) \<Rightarrow> bool" where
  "env_ok env stream \<longleftrightarrow>
     (\<forall>c entropy. length (re_derive_key env c entropy) = 32) \<and>
     (\<forall>key message n seek. length key = 32 \<longrightarrow> 0 \<le> n \<longrightarrow> 0 \<le> seek \<longrightarrow>
        re_digest env key message n seek = Inr (map (\<lambda>i. stream key message (seek + i)) [0..n - 1]))"

end
