(* ===== verification/Random_Claims.thy ===== *)
theory Random_Claims
  imports Random_Streams "HOL-Library.Multiset"
begin

text \<open>
  What the random-stream engine guarantees: the sampled width and the acceptance ceiling, the
  first accepted attempt, the absence of modulo bias (by counting the byte strings that lead to
  a value), the seed codec and the independence of a batch from the order of its requests.
\<close>

section \<open>The sampled width\<close>

lemma byte_width_from_ge: "width \<le> 256 ^ byte_width_from width n"
proof (induction width n rule: byte_width_from.induct)
  case (1 width n)
  then show ?case by (cases "256 ^ n < width") (simp_all add: byte_width_from.simps [of width n])
qed

lemma byte_width_from_start: "n \<le> byte_width_from width n"
proof (induction width n rule: byte_width_from.induct)
  case (1 width n)
  then show ?case
    by (cases "256 ^ n < width") (simp_all add: byte_width_from.simps [of width n])
qed

text \<open>The width is the least one that holds the range.\<close>

lemma byte_width_from_least: "n \<le> m \<Longrightarrow> m < byte_width_from width n \<Longrightarrow> 256 ^ m < width"
proof (induction width n rule: byte_width_from.induct)
  case (1 width n)
  show ?case
  proof (cases "256 ^ n < width")
    case True
    with 1 show ?thesis
      by (cases "m = n") (simp_all add: byte_width_from.simps [of width n])
  next
    case False
    with "1.prems" show ?thesis by (simp add: byte_width_from.simps [of width n])
  qed
qed

lemma byte_width_ge: "width \<le> 256 ^ bounded_integer_byte_width width"
  by (simp add: bounded_integer_byte_width_def byte_width_from_ge)

lemma byte_width_pos: "1 \<le> bounded_integer_byte_width width"
  using byte_width_from_start [of 1 width] by (simp add: bounded_integer_byte_width_def)

lemma acceptance_limit_eq:
  "acceptance_limit width = width * (256 ^ bounded_integer_byte_width width div width)"
  unfolding acceptance_limit_def Let_def by (simp add: minus_mod_eq_mult_div)

lemma acceptance_limit_mod: "acceptance_limit width mod width = 0"
  by (simp add: acceptance_limit_eq)

lemma acceptance_limit_le: "0 < width \<Longrightarrow> acceptance_limit width \<le> 256 ^ bounded_integer_byte_width width"
  unfolding acceptance_limit_def Let_def by simp

lemma acceptance_limit_half: 
  assumes "0 < width"
  shows "256 ^ bounded_integer_byte_width width < 2 * acceptance_limit width"
proof -
  let ?c = "(256::int) ^ bounded_integer_byte_width width"
  have le: "width \<le> ?c" by (rule byte_width_ge)
  have "?c mod width < width" using assms by simp
  moreover have "?c = width * (?c div width) + ?c mod width" by simp
  moreover have "1 \<le> ?c div width" using le assms by (simp add: pos_imp_zdiv_pos_iff int_one_le_iff_zero_less)
  hence "width \<le> width * (?c div width)" using assms by simp
  ultimately show ?thesis unfolding acceptance_limit_eq by linarith
qed

lemma acceptance_limit_pos: "0 < width \<Longrightarrow> 0 < acceptance_limit width"
  using acceptance_limit_half [of width] by (smt (verit) zero_less_power)

section \<open>Big-endian byte strings\<close>

lemma int_from_bytes_snoc: "int_from_bytes (bs @ [b]) = 256 * int_from_bytes bs + uint b"
  by (simp add: int_from_bytes_def)

lemma int_from_bytes_Nil [simp]: "int_from_bytes [] = 0"
  by (simp add: int_from_bytes_def)

lemma octet_bounds: "0 \<le> uint (b :: 8 word)" "uint (b :: 8 word) < 256"
  using uint_range_size [of b] by (simp_all add: word_size)

lemma int_from_bytes_range: "0 \<le> int_from_bytes bs \<and> int_from_bytes bs < 256 ^ length bs"
proof (induction bs rule: rev_induct)
  case Nil
  show ?case by simp
next
  case (snoc b bs)
  then show ?case using octet_bounds [of b] by (simp add: int_from_bytes_snoc)
qed

lemma base_256_digits:
  fixes m n c d :: int
  assumes "256 * m + c = 256 * n + d" and "0 \<le> c" "c < 256" and "0 \<le> d" "d < 256"
  shows "m = n \<and> c = d"
proof -
  have "c = (256 * m + c) mod 256" using assms(2,3) by simp
  also have "\<dots> = d" using assms(1,4,5) by simp
  finally show ?thesis using assms(1) by simp
qed

lemma int_from_bytes_inj:
  "length bs = length cs \<Longrightarrow> int_from_bytes bs = int_from_bytes cs \<Longrightarrow> bs = cs"
proof (induction bs arbitrary: cs rule: rev_induct)
  case Nil
  then show ?case by simp
next
  case (snoc b bs)
  obtain ds d where cs: "cs = ds @ [d]" "length ds = length bs"
    using snoc.prems(1) by (cases cs rule: rev_cases) auto
  have "256 * int_from_bytes bs + uint b = 256 * int_from_bytes ds + uint d"
    using snoc.prems(2) cs(1) by (simp add: int_from_bytes_snoc)
  then have "int_from_bytes bs = int_from_bytes ds \<and> uint b = uint d"
    by (rule base_256_digits) (rule octet_bounds)+
  with snoc.IH [of ds] cs show ?case by (simp add: word_uint_eq_iff)
qed

lemma card_octets: "card {bs :: octets. length bs = n} = 256 ^ n"
  using card_lists_length_eq [of "UNIV :: 8 word set" n] by (simp add: card_word)

lemma int_from_bytes_bij: "bij_betw int_from_bytes {bs. length bs = n} {0..<256 ^ n}"
proof -
  have inj: "inj_on int_from_bytes {bs. length bs = n}"
    by (auto simp: inj_on_def intro: int_from_bytes_inj)
  have "int_from_bytes ` {bs. length bs = n} \<subseteq> {0..<256 ^ n}"
    using int_from_bytes_range by auto
  moreover have "card (int_from_bytes ` {bs. length bs = n}) = card {0..<(256::int) ^ n}"
    using card_image [OF inj] by (simp add: card_octets nat_power_eq)
  ultimately show ?thesis
    using inj by (simp add: bij_betw_def card_subset_eq)
qed

text \<open>Counting byte strings of a width by the integers they stand for.\<close>

lemma card_octets_by_value:
  "card {bs. length bs = n \<and> P (int_from_bytes bs)} = card {i \<in> {0..<256 ^ n}. P i}"
proof -
  have "bij_betw int_from_bytes {bs \<in> {bs. length bs = n}. P (int_from_bytes bs)} {i \<in> {0..<256 ^ n}. P i}"
    using int_from_bytes_bij [of n] unfolding bij_betw_def inj_on_def by blast
  then show ?thesis using bij_betw_same_card by fastforce
qed

lemma residue_class:
  fixes width :: int
  assumes "0 < width" and "0 \<le> r" and "r < width"
  shows "0 \<le> i \<and> i < width * k \<and> i mod width = r \<longleftrightarrow> (\<exists>j. 0 \<le> j \<and> j < k \<and> i = width * j + r)"
proof
  assume i: "0 \<le> i \<and> i < width * k \<and> i mod width = r"
  have "i = width * (i div width) + r" using i mult_div_mod_eq [of width i] by simp
  moreover have "0 \<le> i div width" using i assms(1) by (simp add: pos_imp_zdiv_nonneg_iff)
  moreover have "i div width < k"
  proof (rule ccontr)
    assume "\<not> i div width < k"
    then have "width * k \<le> width * (i div width)" using assms(1) by simp
    with calculation(1) i assms(2) show False by linarith
  qed
  ultimately show "\<exists>j. 0 \<le> j \<and> j < k \<and> i = width * j + r" by blast
next
  assume "\<exists>j. 0 \<le> j \<and> j < k \<and> i = width * j + r"
  then obtain j where j: "0 \<le> j" "j < k" "i = width * j + r" by blast
  have "width * (j + 1) \<le> width * k" using j(2) assms(1) by simp
  then have "i < width * k" using j(3) assms(3) by (simp add: algebra_simps)
  moreover have "0 \<le> width * j" using assms(1) j(1) by simp
  ultimately show "0 \<le> i \<and> i < width * k \<and> i mod width = r" using j(3) assms by simp
qed

lemma card_residue_class:
  fixes width :: int
  assumes "0 < width" and "0 \<le> r" and "r < width"
  shows "card {i. 0 \<le> i \<and> i < width * k \<and> i mod width = r} = nat k"
proof -
  have "{i. 0 \<le> i \<and> i < width * k \<and> i mod width = r} = (\<lambda>j. width * j + r) ` {0..<k}"
    by (auto simp: residue_class [OF assms])
  moreover have "inj_on (\<lambda>j. width * j + r) {0..<k}" using assms(1) by (auto simp: inj_on_def)
  ultimately show ?thesis by (simp add: card_image)
qed

section \<open>One attempt and the loop over the attempts\<close>

lemma draw_attempts_range:
  assumes "0 < width" and "draw_attempts chunk minimum width attempts is' = Inr d"
    and "\<forall>i \<in> set is'. int i < attempts" and "0 \<le> attempts"
  shows "(bd_exhausted d \<longleftrightarrow> bd_value d = None) \<and> 0 \<le> bd_attempts d \<and> bd_attempts d \<le> attempts \<and>
     (\<forall>v. bd_value d = Some v \<longrightarrow> minimum \<le> v \<and> v < minimum + width)"
  using assms(2,3)
proof (induction is')
  case Nil
  then show ?case using assms(4) by auto
next
  case (Cons i rest)
  then show ?case using assms(1) by (auto simp: res_bind_Inr_iff Let_def split: if_splits)
qed

lemma draw_range:
  assumes "draw_bounded_integer env profile key a minimum maximum attempts = Inr d"
  shows "minimum \<le> maximum" and "1 \<le> attempts" and "bd_exhausted d \<longleftrightarrow> bd_value d = None"
    and "0 \<le> bd_attempts d" and "bd_attempts d \<le> attempts"
    and "bd_value d = Some v \<Longrightarrow> minimum \<le> v \<and> v \<le> maximum"
proof -
  have le: "minimum \<le> maximum" "1 \<le> attempts"
    and run: "draw_attempts (\<lambda>i. raw_block env profile key a
        (int (bounded_integer_byte_width (maximum - minimum + 1)))
        (int i * int (bounded_integer_byte_width (maximum - minimum + 1))))
        minimum (maximum - minimum + 1) attempts [0..<nat attempts] = Inr d"
    using assms by (auto simp: draw_bounded_integer_def res_bind_Inr_iff Let_def)
  have w: "0 < maximum - minimum + 1" "\<forall>i \<in> set [0..<nat attempts]. int i < attempts" "0 \<le> attempts"
    using le by auto
  note range = draw_attempts_range [OF w(1) run w(2) w(3)]
  show "minimum \<le> maximum" "1 \<le> attempts" by (fact le)+
  show "bd_exhausted d \<longleftrightarrow> bd_value d = None" "0 \<le> bd_attempts d" "bd_attempts d \<le> attempts"
    using range by simp_all
  show "bd_value d = Some v \<Longrightarrow> minimum \<le> v \<and> v \<le> maximum" using range by auto
qed

lemma one_attempt:
  "draw_attempts (\<lambda>_. Inr bs) minimum width 1 [0] =
       Inr \<lparr>bd_value = Some v, bd_attempts = 0, bd_exhausted = False\<rparr> \<longleftrightarrow>
     int_from_bytes bs < acceptance_limit width \<and> int_from_bytes bs mod width = v - minimum"
  "draw_attempts (\<lambda>_. Inr bs) minimum width 1 [0] =
       Inr \<lparr>bd_value = None, bd_attempts = 1, bd_exhausted = True\<rparr> \<longleftrightarrow>
     \<not> int_from_bytes bs < acceptance_limit width"
  by (auto simp: Let_def)

text \<open>The bytes an attempt reads, as a slice of the stream at the address.\<close>

definition attempt_value ::
  "(octets \<Rightarrow> octets \<Rightarrow> int \<Rightarrow> 8 word) \<Rightarrow> octets \<Rightarrow> octets \<Rightarrow> int \<Rightarrow> int \<Rightarrow> nat \<Rightarrow> int" where
  "attempt_value stream key message coordinate width i =
     (let n = int (bounded_integer_byte_width width) in
      int_from_bytes (map (\<lambda>j. stream key message (coordinate * 32 + int i * n + j)) [0..n - 1]))"

lemma draw_attempts_find:
  assumes "\<And>i. i \<in> set ks \<Longrightarrow> \<exists>bs. chunk i = Inr bs \<and> int_from_bytes bs = f i"
  shows "draw_attempts chunk minimum width attempts ks =
     Inr (case List.find (\<lambda>i. f i < acceptance_limit width) ks of
        None \<Rightarrow> \<lparr>bd_value = None, bd_attempts = attempts, bd_exhausted = True\<rparr>
      | Some i \<Rightarrow> \<lparr>bd_value = Some (minimum + f i mod width), bd_attempts = int i, bd_exhausted = False\<rparr>)"
  using assms
proof (induction ks)
  case Nil
  show ?case by simp
next
  case (Cons i ks)
  obtain bs where "chunk i = Inr bs" "int_from_bytes bs = f i" using Cons.prems [of i] by auto
  with Cons show ?case by (simp add: Let_def)
qed

lemma raw_block_reads:
  assumes "env_ok env stream" and "profile \<in> set supported_profiles" and "length key = 32"
    and "canonical_address_bytes env a = Inr message" and "0 \<le> local_coordinate a"
    and "1 \<le> n" and "0 \<le> offset"
  shows "raw_block env profile key a n offset =
     Inr (map (\<lambda>j. stream key message (local_coordinate a * 32 + offset + j)) [0..n - 1])"
  using assms by (simp add: raw_block_def require_supported_profile_def env_ok_def)

section \<open>Hexadecimal seeds\<close>

definition bytes_hex :: "octets \<Rightarrow> string" where
  "bytes_hex bs = concat (map (\<lambda>b. [hex_digit (unat b div 16), hex_digit (unat b mod 16)]) bs)"

lemma hex_digit_value: "n < 16 \<Longrightarrow> hex_integer (hex_digit n) = Some n \<and> \<not> ascii_space (hex_digit n)"
proof -
  have "list_all (\<lambda>n. hex_integer (hex_digit n) = Some n \<and> \<not> ascii_space (hex_digit n)) [0..<16]"
    by code_simp
  then show "n < 16 \<Longrightarrow> ?thesis" by (simp add: list_all_iff)
qed

lemma hex_digit_lower: "n < 16 \<Longrightarrow> is_lower_hex (hex_digit n)"
proof -
  have "list_all (\<lambda>n. is_lower_hex (hex_digit n)) [0..<16]" by code_simp
  then show "n < 16 \<Longrightarrow> ?thesis" by (simp add: list_all_iff)
qed

lemma is_lower_hexE:
  assumes "is_lower_hex c"
  obtains n where "n < 16" and "c = hex_digit n"
proof -
  obtain n where "n < length ''0123456789abcdef''" "''0123456789abcdef'' ! n = c"
    using assms unfolding is_lower_hex_def in_set_conv_nth by blast
  then have "n < 16" "c = hex_digit n" by (simp_all add: hex_digit_def)
  then show ?thesis by (rule that)
qed

lemma length_bytes_hex: "length (bytes_hex bs) = 2 * length bs"
  by (induction bs) (simp_all add: bytes_hex_def)

lemma octet_nibbles: "unat (b :: 8 word) div 16 < 16" "unat b mod 16 < 16"
proof -
  have "unat b < 2 ^ LENGTH(8)" by (rule unsigned_less)
  then have "unat b < 256" by simp
  then show "unat b div 16 < 16" "unat b mod 16 < 16" by simp_all
qed

lemma bytes_hex_lower: "list_all is_lower_hex (bytes_hex bs)"
  using octet_nibbles by (auto simp: bytes_hex_def list_all_iff intro: hex_digit_lower)

lemma from_hex_bytes_hex: "from_hex (bytes_hex bs) = Some bs"
proof (induction bs)
  case Nil
  show ?case by (simp add: bytes_hex_def)
next
  case (Cons b bs)
  note h = hex_digit_value [OF octet_nibbles(1)] hex_digit_value [OF octet_nibbles(2)]
  have "(of_nat (16 * (unat b div 16) + unat b mod 16) :: 8 word) = b" by simp
  with Cons show ?case
    using h [of b] by (simp add: bytes_hex_def del: of_nat_add of_nat_mult)
qed

lemma lower_hex_bytes:
  "length s = 2 * n \<Longrightarrow> list_all is_lower_hex s \<Longrightarrow> \<exists>bs. length bs = n \<and> s = bytes_hex bs"
proof (induction n arbitrary: s)
  case 0
  then show ?case by (intro exI [of _ "[]"]) (simp add: bytes_hex_def)
next
  case (Suc n)
  obtain c d t where s: "s = c # d # t" and t: "length t = 2 * n"
    using Suc.prems(1) by (cases s; cases "tl s") auto
  obtain bs where bs: "length bs = n" "t = bytes_hex bs" using Suc.IH [OF t] Suc.prems(2) s by auto
  obtain h l where hl: "h < 16" "c = hex_digit h" "l < 16" "d = hex_digit l"
    using Suc.prems(2) s by (auto elim!: is_lower_hexE)
  have "unat (of_nat (16 * h + l) :: 8 word) = 16 * h + l"
    using hl(1,3) by (simp add: unat_of_nat del: of_nat_add of_nat_mult)
  with bs hl s show ?case
    by (intro exI [of _ "of_nat (16 * h + l) # bs"]) (simp add: bytes_hex_def del: of_nat_add of_nat_mult)
qed

section \<open>The scan of a batch\<close>

definition request_key :: "draw_request \<Rightarrow> stream_address" where
  "request_key q = dq_address q"

lemma semantic_coordinate_key_inj: "semantic_coordinate_key a = semantic_coordinate_key b \<longleftrightarrow> a = b"
  by (cases a; cases b; cases "sa_trial a"; cases "sa_trial b") (auto simp: semantic_coordinate_key_def)

definition scan_of :: "(draw_request \<Rightarrow> octets) \<Rightarrow> draw_request list \<Rightarrow> batch_scan" where
  "scan_of f qs =
     \<lparr>bs_semantic = (semantic_coordinate_key \<circ> dq_address) ` set qs,
      bs_semantic_count = length qs - card ((semantic_coordinate_key \<circ> dq_address) ` set qs),
      bs_bytes = f ` set qs, bs_bytes_count = length qs - card (f ` set qs)\<rparr>"

lemma count_step:
  "length qs + 1 - card (insert (g q) (g ` set qs)) =
     length qs - card (g ` set qs) + (if g q \<in> g ` set qs then 1 else 0)"
  using card_image_le [of "set qs" g] card_length [of qs]
  by (simp add: card_insert_if insert_absorb)

lemma scan_requests:
  assumes "\<And>q. q \<in> set qs \<Longrightarrow> canonical_address_bytes env (TrialDraw (dq_address q)) = Inr (f q)"
  shows "res_fold (scan_request env) empty_scan qs = Inr (scan_of f qs)"
  using assms
proof (induction qs rule: rev_induct)
  case Nil
  show ?case by (simp add: empty_scan_def scan_of_def)
next
  case (snoc q qs)
  let ?g = "semantic_coordinate_key \<circ> dq_address"
  have "res_fold (scan_request env) empty_scan qs = Inr (scan_of f qs)" using snoc by simp
  moreover have "scan_request env (scan_of f qs) q = Inr (scan_of f (qs @ [q]))"
    using snoc.prems [of q] count_step [of qs ?g q] count_step [of qs f q]
    by (simp add: scan_request_def scan_of_def Let_def)
  ultimately show ?case by (simp add: res_fold_append)
qed

lemma scan_requests_canonical:
  assumes "res_fold (scan_request env) s qs = Inr t" and "q \<in> set qs"
  shows "\<exists>bs. canonical_address_bytes env (TrialDraw (dq_address q)) = Inr bs"
  using assms
proof (induction qs arbitrary: s)
  case Nil
  then show ?case by simp
next
  case (Cons p qs)
  then show ?case by (auto simp: res_bind_Inr_iff scan_request_def Let_def)
qed

lemma scan_of_mset: "mset qs = mset ps \<Longrightarrow> scan_of f qs = scan_of f ps"
  using mset_eq_setD [of qs ps] mset_eq_length [of qs ps] by (simp add: scan_of_def)

section \<open>Properties\<close>

text \<open>
  A draw reads at most the allowed number of consecutive chunks of the stream at its
  address and returns the first one below the acceptance ceiling, reduced into the range, with
  the number of rejections before it; it is exhausted exactly when all of them are rejected.
  It always returns when the address is canonical: nothing else can fail.
\<close>

lemma draw_takes_first_accepted:
  assumes "env_ok env stream" and "profile \<in> set supported_profiles" and "length key = 32"
    and "canonical_address_bytes env a = Inr message" and "0 \<le> local_coordinate a"
    and "minimum \<le> maximum" and "1 \<le> attempts"
  shows "draw_bounded_integer env profile key a minimum maximum attempts =
     (let width = maximum - minimum + 1; raw = attempt_value stream key message (local_coordinate a) width in
      Inr (case List.find (\<lambda>i. raw i < acceptance_limit width) [0..<nat attempts] of
        None \<Rightarrow> \<lparr>bd_value = None, bd_attempts = attempts, bd_exhausted = True\<rparr>
      | Some i \<Rightarrow> \<lparr>bd_value = Some (minimum + raw i mod width), bd_attempts = int i, bd_exhausted = False\<rparr>))"
proof -
  let ?w = "maximum - minimum + 1" and ?n = "int (bounded_integer_byte_width (maximum - minimum + 1))"
  have n: "1 \<le> ?n" using byte_width_pos [of ?w] by simp
  have "\<exists>bs. raw_block env profile key a ?n (int i * ?n) = Inr bs \<and>
      int_from_bytes bs = attempt_value stream key message (local_coordinate a) ?w i" for i
    using raw_block_reads [OF assms(1-5) n] by (simp add: attempt_value_def Let_def)
  then show ?thesis
    using assms(2,6,7) draw_attempts_find [of "[0..<nat attempts]"]
    by (simp add: draw_bounded_integer_def require_supported_profile_def Let_def)
qed

text \<open>
  C30. No modulo bias: among the byte strings an attempt can sample, every value of the range is
  the outcome of the same number of them, the acceptance ceiling divided by the width.
\<close>

theorem draw_has_no_modulo_bias:
  assumes "minimum \<le> v" and "v \<le> maximum"
  shows "card {bs. length bs = bounded_integer_byte_width (maximum - minimum + 1) \<and>
       draw_attempts (\<lambda>_. Inr bs) minimum (maximum - minimum + 1) 1 [0] =
         Inr \<lparr>bd_value = Some v, bd_attempts = 0, bd_exhausted = False\<rparr>} =
     nat (acceptance_limit (maximum - minimum + 1) div (maximum - minimum + 1))"
proof -
  let ?w = "maximum - minimum + 1" and ?c = "(256::int) ^ bounded_integer_byte_width (maximum - minimum + 1)"
  have w: "0 < ?w" "0 \<le> v - minimum" "v - minimum < ?w" using assms by auto
  have "card {bs. length bs = bounded_integer_byte_width ?w \<and>
      (int_from_bytes bs < acceptance_limit ?w \<and> int_from_bytes bs mod ?w = v - minimum)} =
    card {i \<in> {0..<?c}. i < acceptance_limit ?w \<and> i mod ?w = v - minimum}"
    by (rule card_octets_by_value)
  also have "{i \<in> {0..<?c}. i < acceptance_limit ?w \<and> i mod ?w = v - minimum} =
      {i. 0 \<le> i \<and> i < ?w * (?c div ?w) \<and> i mod ?w = v - minimum}"
    using acceptance_limit_le [OF w(1)] by (auto simp: acceptance_limit_eq)
  also have "card \<dots> = nat (?c div ?w)" by (rule card_residue_class [OF w])
  also have "?c div ?w = acceptance_limit ?w div ?w" using w(1) by (simp add: acceptance_limit_eq)
  finally show ?thesis unfolding one_attempt .
qed

text \<open>
  Of the byte strings an attempt can sample, fewer than half are rejected, whatever the
  range: the budget of \<open>n\<close> attempts is exhausted by fewer than one in \<open>2 ^ n\<close> streams.
\<close>

lemma draw_rejects_fewer_than_half:
  assumes "minimum \<le> maximum"
  shows "2 * card {bs. length bs = bounded_integer_byte_width (maximum - minimum + 1) \<and>
       draw_attempts (\<lambda>_. Inr bs) minimum (maximum - minimum + 1) 1 [0] =
         Inr \<lparr>bd_value = None, bd_attempts = 1, bd_exhausted = True\<rparr>} <
     card {bs :: octets. length bs = bounded_integer_byte_width (maximum - minimum + 1)}"
proof -
  let ?w = "maximum - minimum + 1" and ?n = "bounded_integer_byte_width (maximum - minimum + 1)"
  have w: "0 < ?w" using assms by simp
  have "card {bs. length bs = ?n \<and> \<not> int_from_bytes bs < acceptance_limit ?w} =
      card {i \<in> {0..<(256::int) ^ ?n}. \<not> i < acceptance_limit ?w}"
    by (rule card_octets_by_value)
  also have "{i \<in> {0..<(256::int) ^ ?n}. \<not> i < acceptance_limit ?w} = {acceptance_limit ?w..<256 ^ ?n}"
    using acceptance_limit_pos [OF w] by auto
  also have "2 * card \<dots> < 256 ^ ?n"
  proof -
    have "int (2 * card {acceptance_limit ?w..<(256::int) ^ ?n}) < int (256 ^ ?n)"
      using acceptance_limit_half [OF w] acceptance_limit_le [OF w] by simp
    then show ?thesis by (simp only: of_nat_less_iff)
  qed
  finally show ?thesis unfolding one_attempt card_octets .
qed

text \<open>
  A public seed is accepted exactly when it is the fixed-width lower-case hexadecimal text
  of 32 bytes, and decoding gives those bytes back.
\<close>

lemma seed_codec:
  "make_public_seed s = Inr s \<longleftrightarrow>
     (\<exists>bs. length bs = 32 \<and> s = \<lparr>seed_encoding = hex_fixed_width, seed_value = bytes_hex bs\<rparr> \<and>
        decode_public_seed s = Inr bs)"
proof
  assume "make_public_seed s = Inr s"
  then have enc: "seed_encoding s = hex_fixed_width" and hex: "length (seed_value s) = 2 * 32"
      "list_all is_lower_hex (seed_value s)"
    by (auto simp: make_public_seed_def res_bind_Inr_iff)
  obtain bs where bs: "length bs = 32" "seed_value s = bytes_hex bs" using lower_hex_bytes [OF hex] by auto
  with enc have "decode_public_seed s = Inr bs"
    by (simp add: decode_public_seed_def from_hex_bytes_hex)
  with bs enc show "\<exists>bs. length bs = 32 \<and> s = \<lparr>seed_encoding = hex_fixed_width, seed_value = bytes_hex bs\<rparr> \<and>
      decode_public_seed s = Inr bs"
    by (intro exI [of _ bs]) simp
next
  assume "\<exists>bs. length bs = 32 \<and> s = \<lparr>seed_encoding = hex_fixed_width, seed_value = bytes_hex bs\<rparr> \<and>
      decode_public_seed s = Inr bs"
  then show "make_public_seed s = Inr s"
    by (auto simp: make_public_seed_def length_bytes_hex bytes_hex_lower)
qed

text \<open>What a batch returns, up to the order of its requests.\<close>

fun batch_view :: "draw_request list \<Rightarrow> batch_result \<Rightarrow> (draw_request \<times> bounded_draw) multiset + nat \<times> nat" where
  "batch_view qs (BatchDraws ds) = Inl (mset (zip qs ds))"
| "batch_view qs (BatchCollision m n) = Inr (m, n)"

lemma res_map_zip: "res_map f xs = Inr ys \<Longrightarrow> zip xs ys = map (\<lambda>x. (x, projr (f x))) xs"
  by (induction xs arbitrary: ys) (auto simp: res_bind_Inr_iff)

lemma res_map_ok: "res_map f xs = Inr ys \<Longrightarrow> x \<in> set xs \<Longrightarrow> f x = Inr (projr (f x))"
  by (induction xs arbitrary: ys) (auto simp: res_bind_Inr_iff)

text \<open>
  A batch does not depend on the order of its requests: a permutation of them gives the same
  draw to every request, or the same collision diagnostic.
\<close>

lemma batch_ignores_request_order:
  assumes "draw_bounded_integer_batch env profile key qs = Inr r" and "mset ps = mset qs"
  shows "\<exists>r'. draw_bounded_integer_batch env profile key ps = Inr r' \<and> batch_view ps r' = batch_view qs r"
proof -
  let ?draw = "\<lambda>q. draw_bounded_integer env profile key (TrialDraw (dq_address q))
      (dq_minimum q) (dq_maximum q) (dq_attempts q)"
  define f where "f q = projr (canonical_address_bytes env (TrialDraw (dq_address q)))" for q :: draw_request
  have sets: "set ps = set qs" using assms(2) by (rule mset_eq_setD)
  obtain s where p: "require_supported_profile profile = Inr ()"
    and scan: "res_fold (scan_request env) empty_scan qs = Inr s"
    and rest: "(if bs_semantic_count s \<noteq> 0 \<or> bs_bytes_count s \<noteq> 0
       then Inr (BatchCollision (bs_semantic_count s) (bs_bytes_count s))
       else res_bind (res_map ?draw qs) (\<lambda>draws. Inr (BatchDraws draws))) = Inr r"
    using assms(1) by (auto simp: draw_bounded_integer_batch_def res_bind_Inr_iff)
  have f: "canonical_address_bytes env (TrialDraw (dq_address q)) = Inr (f q)" if "q \<in> set qs" for q
    using scan_requests_canonical [OF scan that] by (auto simp: f_def)
  have s: "s = scan_of f qs" using scan scan_requests [of qs env f] f by simp
  have scan': "res_fold (scan_request env) empty_scan ps = Inr s"
    using scan_requests [of ps env f] f sets s scan_of_mset [OF assms(2)] by simp
  show ?thesis
  proof (cases "bs_semantic_count s \<noteq> 0 \<or> bs_bytes_count s \<noteq> 0")
    case True
    with rest have "r = BatchCollision (bs_semantic_count s) (bs_bytes_count s)" by auto
    with True p scan' show ?thesis by (simp add: draw_bounded_integer_batch_def)
  next
    case False
    then obtain ds where ds: "res_map ?draw qs = Inr ds" "r = BatchDraws ds"
      using rest by (auto simp: res_bind_Inr_iff)
    have run: "res_map ?draw ps = Inr (map (\<lambda>q. projr (?draw q)) ps)"
      using res_map_ok [OF ds(1)] sets by (intro res_map_total) simp
    have "mset (zip ps (map (\<lambda>q. projr (?draw q)) ps)) = mset (zip qs ds)"
      unfolding res_map_zip [OF run] res_map_zip [OF ds(1)] using assms(2) by simp
    with False p scan' run ds(2) show ?thesis by (simp add: draw_bounded_integer_batch_def)
  qed
qed

section \<open>A small stream\<close>

text \<open>The byte at a position is the position plus 250; the canonical text is the namespace.\<close>

fun demo_canonical :: "py_value \<Rightarrow> octets option" where
  "demo_canonical (PyDict ((k, PyStr s) # rest)) = Some (map of_char s)"
| "demo_canonical v = None"

definition demo_stream :: "octets \<Rightarrow> octets \<Rightarrow> int \<Rightarrow> 8 word" where
  "demo_stream key message i = of_int (250 + i)"

definition demo_env :: random_env where
  "demo_env =
     \<lparr>re_derive_key = (\<lambda>context entropy. replicate 32 0),
      re_digest = (\<lambda>key message n seek. Inr (map (\<lambda>i. demo_stream key message (seek + i)) [0..n - 1])),
      re_canonical = demo_canonical\<rparr>"

definition stream_demo_address :: "string \<Rightarrow> stream_address" where
  "stream_demo_address namespace =
     \<lparr>sa_namespace = namespace, sa_trial = \<lparr>tc_condition = None, tc_block = None, tc_replicate = None\<rparr>,
      sa_policy = ''policy'', sa_point = ''point'', sa_purpose = ''sampling-selection'', sa_coordinate = 0\<rparr>"

lemma demo_env_ok: "env_ok demo_env demo_stream"
  by (simp add: env_ok_def demo_env_def)

definition demo_profile :: string where
  "demo_profile = ''blake3-xof-v1''"

lemma demo_profile_supported: "demo_profile \<in> set supported_profiles"
  by code_simp

lemma demo_canonical_bytes:
  "canonical_address_bytes demo_env (TrialDraw (stream_demo_address ns)) = Inr (map of_char ns)"
  by (simp add: canonical_address_bytes_def demo_env_def stream_demo_address_def)

lemma draw_takes_first_accepted_witness:
  "draw_bounded_integer demo_env demo_profile (replicate 32 0) (TrialDraw (stream_demo_address ''a'')) 0 9 8 =
     Inr \<lparr>bd_value = Some 0, bd_attempts = 6, bd_exhausted = False\<rparr>"
proof -
  have "local_coordinate (TrialDraw (stream_demo_address ''a'')) = 0" by (simp add: stream_demo_address_def)
  moreover have "bounded_integer_byte_width 10 = 1" by code_simp
  moreover have "acceptance_limit 10 = 250" by code_simp
  ultimately show ?thesis
    using draw_takes_first_accepted [OF demo_env_ok demo_profile_supported _ demo_canonical_bytes [of "''a''"],
        of "replicate 32 0" 0 9 8]
    by (simp add: Let_def attempt_value_def demo_stream_def upt_conv_Cons int_from_bytes_def upto.simps)
qed

lemma draw_has_no_modulo_bias_witness:
  "card {bs. length bs = 1 \<and>
       draw_attempts (\<lambda>_. Inr bs) 0 10 1 [0] = Inr \<lparr>bd_value = Some 7, bd_attempts = 0, bd_exhausted = False\<rparr>} = 25"
proof -
  have "bounded_integer_byte_width 10 = 1" "acceptance_limit 10 = 250" by code_simp+
  then show ?thesis using draw_has_no_modulo_bias [of 0 7 9] by simp
qed

lemma draw_rejects_fewer_than_half_witness:
  "2 * card {bs. length bs = 1 \<and>
       draw_attempts (\<lambda>_. Inr bs) 0 129 1 [0] = Inr \<lparr>bd_value = None, bd_attempts = 1, bd_exhausted = True\<rparr>} < 256"
proof -
  have "bounded_integer_byte_width 129 = 1" by code_simp
  then show ?thesis using draw_rejects_fewer_than_half [of 0 128] by (simp add: card_octets del: draw_attempts.simps)
qed

definition stream_demo_request :: "string \<Rightarrow> draw_request" where
  "stream_demo_request ns = \<lparr>dq_address = stream_demo_address ns, dq_minimum = 0, dq_maximum = 9, dq_attempts = 8\<rparr>"

definition stream_demo_batch :: "string list \<Rightarrow> batch_result res" where
  "stream_demo_batch names = draw_bounded_integer_batch demo_env demo_profile (replicate 32 0) (map stream_demo_request names)"

lemma demo_batch_runs:
  "stream_demo_batch [''a'', ''b''] = Inr (BatchDraws
     [\<lparr>bd_value = Some 0, bd_attempts = 6, bd_exhausted = False\<rparr>,
      \<lparr>bd_value = Some 0, bd_attempts = 6, bd_exhausted = False\<rparr>])"
  by code_simp

lemma batch_ignores_request_order_witness:
  "\<exists>r'. stream_demo_batch [''b'', ''a''] = Inr r' \<and>
     batch_view (map stream_demo_request [''b'', ''a'']) r' =
       batch_view (map stream_demo_request [''a'', ''b'']) (BatchDraws
         [\<lparr>bd_value = Some 0, bd_attempts = 6, bd_exhausted = False\<rparr>,
          \<lparr>bd_value = Some 0, bd_attempts = 6, bd_exhausted = False\<rparr>])"
  using batch_ignores_request_order [OF demo_batch_runs [unfolded stream_demo_batch_def],
      of "map stream_demo_request [''b'', ''a'']"]
  by (simp add: stream_demo_batch_def add_mset_commute)

end
