(* ===== verification/Activity_Draws.thy ===== *)
theory Activity_Draws
  imports Random_Claims Time_Runtime "HOL-Library.Product_Lexorder"
begin

text \<open>
  Governed draws and eligibility of participant activity:
  \<open>raes_runtime/participant_activity.py\<close> over the compiled policy
  \<open>ParticipantAutonomousExecutionRuntime\<close> (\<open>raes_processor/models/behavior_resources.py\<close>) and the
  compiled time model. Pairs of ticks and microsteps are ordered lexicographically, as Python's
  tuples are. The search for the next opening of a work window is a \<open>while\<close> loop of the code that
  need not end on arbitrary input: it is a partial function whose \<open>None\<close> is divergence.
\<close>

section \<open>Policies\<close>

record activity_policy =
  ap_address :: string
  ap_progression :: string
  ap_work :: "string list"
  ap_pause :: "string list"
  ap_control_ref :: string
  ap_minimum_ticks :: int
  ap_maximum_ticks :: int
  ap_outside :: string
  ap_empty :: string
  ap_candidates :: "string list"
  ap_weights :: "int list"
  ap_dependencies :: "string list list"
  ap_retry_classes :: "string list list"
  ap_max_retries :: "int list"
  ap_cooldowns :: "int list"
  ap_max_occurrences :: int
  ap_max_burst :: int
  ap_max_attempts :: int
  ap_failure_policy :: string

text \<open>A subscript of a tuple by a non-negative index.\<close>

definition py_index :: "'a list \<Rightarrow> nat \<Rightarrow> 'a res" where
  "py_index xs i = (if i < length xs then Inr (xs ! i) else Inl (IndexError ''tuple index out of range''))"

lemma py_index_Inr [simp]: "py_index xs i = Inr x \<longleftrightarrow> i < length xs \<and> x = xs ! i"
  by (auto simp: py_index_def)

section \<open>Stochastic controls\<close>

record control_binding =
  cb_profile :: string
  cb_namespace :: string
  cb_entropy :: root_entropy

record stochastic_control =
  sc_id :: string
  sc_role :: string
  sc_binding :: "control_binding option"

record random_control =
  rc_id :: string
  rc_profile :: string
  rc_namespace :: string
  rc_key :: octets

definition agent_policy_role :: string where
  "agent_policy_role = ''agent-policy''"

definition participant_profile :: string where
  "participant_profile = ''blake3-xof-participant-v1''"

text \<open>\<open>load\<close> stands for reading the published profile from the corpus on disk.\<close>

definition resolve_control ::
  "random_env \<Rightarrow> (string \<Rightarrow> unit res) \<Rightarrow> stochastic_control \<Rightarrow> random_control res" where
  "resolve_control env load c =
     (case sc_binding c of
        None \<Rightarrow> Inl (ValueError ''agent-policy stochastic control requires executable_binding'')
      | Some binding \<Rightarrow>
          res_bind (require_that (cb_profile binding = participant_profile)
            (ValueError ''agent-policy stochastic control requires the participant profile'')) (\<lambda>_.
          res_bind (load (cb_profile binding)) (\<lambda>_.
          (case cb_entropy binding of
             GovernedEntropy r v \<Rightarrow>
               Inl (ValueError ''agent-policy stochastic control uses governed entropy without a resolver'')
           | PublicSeed seed \<Rightarrow>
               res_bind (decode_public_seed seed) (\<lambda>entropy.
               res_bind (derive_stream_key env (cb_profile binding) entropy) (\<lambda>key.
                 Inr \<lparr>rc_id = sc_id c, rc_profile = cb_profile binding,
                      rc_namespace = cb_namespace binding, rc_key = key\<rparr>))))))"

definition resolve_step ::
  "random_env \<Rightarrow> (string \<Rightarrow> unit res) \<Rightarrow> (string, random_control) pydict \<Rightarrow> stochastic_control \<Rightarrow>
     (string, random_control) pydict res" where
  "resolve_step env load resolved c =
     (if dict_has resolved (sc_id c)
      then Inl (ValueError ''duplicate participant activity stochastic control'')
      else if sc_role c \<noteq> agent_policy_role then Inr resolved
      else res_bind (resolve_control env load c) (\<lambda>rc. Inr (dict_set (sc_id c) rc resolved)))"

definition resolve_participant_activity_controls ::
  "random_env \<Rightarrow> (string \<Rightarrow> unit res) \<Rightarrow> stochastic_control list \<Rightarrow> (string, random_control) pydict res" where
  "resolve_participant_activity_controls env load controls = res_fold (resolve_step env load) [] controls"

definition activity_control_for ::
  "activity_policy \<Rightarrow> (string, random_control) pydict \<Rightarrow> random_control option" where
  "activity_control_for p controls = dict_get controls (ap_control_ref p)"

section \<open>Draws\<close>

text \<open>The stable inputs of the draws of one occurrence (\<open>ParticipantActivityDrawContext\<close>).\<close>

record draw_context =
  dc_policy :: activity_policy
  dc_participant :: string
  dc_segment :: int
  dc_ordinal :: int
  dc_control :: random_control

definition activity_draw_address :: "draw_context \<Rightarrow> int \<Rightarrow> participant_stream_address res" where
  "activity_draw_address c coordinate =
     make_participant_address
       \<lparr>pa_namespace = rc_namespace (dc_control c), pa_policy = ap_address (dc_policy c),
        pa_participant = dc_participant c, pa_segment = dc_segment c, pa_ordinal = dc_ordinal c,
        pa_purpose = agent_policy_role, pa_coordinate = coordinate\<rparr>"

definition draw_activity_integer :: "random_env \<Rightarrow> draw_context \<Rightarrow> int \<Rightarrow> int \<Rightarrow> int \<Rightarrow> int res" where
  "draw_activity_integer env c coordinate minimum maximum =
     res_bind (activity_draw_address c coordinate) (\<lambda>a.
     res_bind (draw_bounded_integer env (rc_profile (dc_control c)) (rc_key (dc_control c))
         (ParticipantDraw a) minimum maximum 32) (\<lambda>d.
       case bd_value d of
         None \<Rightarrow> Inl (ValueError ''participant activity bounded random draw exhausted'')
       | Some v \<Rightarrow>
           if bd_exhausted d then Inl (ValueError ''participant activity bounded random draw exhausted'')
           else Inr v))"

section \<open>Windows\<close>

type_synonym instant = "int \<times> int"
type_synonym window = "instant \<times> instant"

definition or_zero :: "int option \<Rightarrow> int" where
  "or_zero v = (case v of None \<Rightarrow> 0 | Some i \<Rightarrow> i)"

definition selected_constraints :: "string list \<Rightarrow> compiled_time_model \<Rightarrow> (string, compiled_constraint) pydict" where
  "selected_constraints addresses m =
     foldl (\<lambda>d c. dict_set (ccn_address c) c d) []
       (filter (\<lambda>c. ccn_address c \<in> set addresses) (ctm_constraints m))"

definition window_of :: "(string, compiled_constraint) pydict \<Rightarrow> string \<Rightarrow> window res" where
  "window_of selected address =
     res_bind (dict_item selected address) (\<lambda>c.
       case (ccn_start_tick c, ccn_end_tick c) of
         (Some s, Some e) \<Rightarrow> Inr ((s, or_zero (ccn_start_microstep c)), (e, or_zero (ccn_end_microstep c)))
       | _ \<Rightarrow> Inl (ValueError ''participant activity windows require finite start and end ticks''))"

definition window_ranges :: "string list \<Rightarrow> compiled_time_model \<Rightarrow> window list res" where
  "window_ranges addresses m =
     res_bind (res_map (window_of (selected_constraints addresses m)) addresses) (\<lambda>ranges. Inr (sort ranges))"

definition in_window :: "instant \<Rightarrow> window \<Rightarrow> bool" where
  "in_window t w \<longleftrightarrow> fst w \<le> t \<and> t < snd w"

definition tick_open :: "window list \<Rightarrow> window list \<Rightarrow> int \<Rightarrow> bool" where
  "tick_open work pauses tick \<longleftrightarrow>
     list_ex (in_window (tick, 0)) work \<and> \<not> list_ex (in_window (tick, 0)) pauses"

definition activity_tick_is_eligible :: "activity_policy \<Rightarrow> compiled_time_model \<Rightarrow> int \<Rightarrow> bool res" where
  "activity_tick_is_eligible p m tick =
     res_bind (window_ranges (ap_work p) m) (\<lambda>work.
     res_bind (window_ranges (ap_pause p) m) (\<lambda>pauses. Inr (tick_open work pauses tick)))"

section \<open>The next opening\<close>

text \<open>The first tick that is not before an instant.\<close>

definition tick_from :: "instant \<Rightarrow> int" where
  "tick_from t = fst t + (if 0 < snd t then 1 else 0)"

definition aligned_activity_tick :: "int \<Rightarrow> int option \<Rightarrow> int res" where
  "aligned_activity_tick tick step =
     (case step of
        None \<Rightarrow> Inr tick
      | Some s \<Rightarrow>
          if s = 0 then Inl (ZeroDivisionError ''integer modulo by zero'')
          else if tick mod s \<noteq> 0 then Inr (tick + s - tick mod s) else Inr tick)"

definition timing_units :: "int \<Rightarrow> int option \<Rightarrow> int res" where
  "timing_units ticks step =
     (case step of
        None \<Rightarrow> Inr ticks
      | Some s \<Rightarrow>
          if s = 0 then Inl (ZeroDivisionError ''integer division or modulo by zero'') else Inr (ticks div s))"

definition pause_end_after :: "window list \<Rightarrow> int \<Rightarrow> int" where
  "pause_end_after pauses tick =
     (case map (\<lambda>w. tick_from (snd w)) (filter (in_window (tick, 0)) pauses) of
        [] \<Rightarrow> tick + 1
      | e # es \<Rightarrow> fold max es e)"

partial_function (option) scan_window ::
  "activity_policy \<Rightarrow> compiled_time_model \<Rightarrow> int option \<Rightarrow> instant \<Rightarrow> int \<Rightarrow> int option res option" where
  "scan_window p m step final tick =
     (if \<not> (tick, 0) < final then Some (Inr None)
      else case activity_tick_is_eligible p m tick of
        Inl e \<Rightarrow> Some (Inl e)
      | Inr eligible \<Rightarrow>
          if eligible then Some (Inr (Some tick))
          else (case window_ranges (ap_pause p) m of
              Inl e \<Rightarrow> Some (Inl e)
            | Inr pauses \<Rightarrow>
                (case aligned_activity_tick (pause_end_after pauses tick) step of
                   Inl e \<Rightarrow> Some (Inl e)
                 | Inr next_tick \<Rightarrow> scan_window p m step final next_tick)))"

fun scan_windows ::
  "activity_policy \<Rightarrow> compiled_time_model \<Rightarrow> int option \<Rightarrow> int \<Rightarrow> window list \<Rightarrow> int option res option" where
  "scan_windows p m step candidate [] = Some (Inr None)"
| "scan_windows p m step candidate (w # ws) =
     (case aligned_activity_tick (max candidate (tick_from (fst w))) step of
        Inl e \<Rightarrow> Some (Inl e)
      | Inr tick \<Rightarrow>
          (case scan_window p m step (snd w) tick of
             None \<Rightarrow> None
           | Some (Inl e) \<Rightarrow> Some (Inl e)
           | Some (Inr (Some t)) \<Rightarrow> Some (Inr (Some t))
           | Some (Inr None) \<Rightarrow> scan_windows p m step candidate ws))"

definition next_activity_opening ::
  "activity_policy \<Rightarrow> compiled_time_model \<Rightarrow> int \<Rightarrow> int option \<Rightarrow> int option res option" where
  "next_activity_opening p m candidate step =
     (case window_ranges (ap_work p) m of
        Inl e \<Rightarrow> Some (Inl e)
      | Inr work \<Rightarrow> scan_windows p m step candidate work)"

section \<open>Timing\<close>

datatype timing_disposition = CADENCE_TICK | DRAWN_TICK | NEXT_OPENING

record timing_selection =
  ts_tick :: "int option"
  ts_disposition :: timing_disposition

definition progression_step :: "activity_policy \<Rightarrow> compiled_time_model \<Rightarrow> int option res" where
  "progression_step p m =
     (case List.find (\<lambda>q. cpl_address q = ap_progression p) (ctm_policies m) of
        None \<Rightarrow> Inl StopIteration
      | Some q \<Rightarrow> Inr (if cpl_mode q = STEPPED then cpl_step q else None))"

text \<open>The drawn tick before it is normalised.\<close>

definition drawn_candidate ::
  "random_env \<Rightarrow> draw_context \<Rightarrow> int option \<Rightarrow> int \<Rightarrow> int res" where
  "drawn_candidate env c step current_tick =
     res_bind (timing_units (ap_minimum_ticks (dc_policy c)) step) (\<lambda>minimum.
     res_bind (timing_units (ap_maximum_ticks (dc_policy c)) step) (\<lambda>maximum.
     res_bind (draw_activity_integer env c 0 minimum maximum) (\<lambda>units.
       Inr (current_tick + (case step of None \<Rightarrow> units | Some s \<Rightarrow> units * s)))))"

definition next_activity_timing ::
  "random_env \<Rightarrow> draw_context \<Rightarrow> compiled_time_model \<Rightarrow> int \<Rightarrow> timing_selection res option" where
  "next_activity_timing env c m current_tick =
     (case res_bind (progression_step (dc_policy c) m) (\<lambda>step.
        res_bind (drawn_candidate env c step current_tick) (\<lambda>candidate.
        res_bind (activity_tick_is_eligible (dc_policy c) m candidate) (\<lambda>eligible.
          Inr (step, candidate, eligible)))) of
        Inl e \<Rightarrow> Some (Inl e)
      | Inr (step, candidate, eligible) \<Rightarrow>
          if eligible then Some (Inr \<lparr>ts_tick = Some candidate, ts_disposition = DRAWN_TICK\<rparr>)
          else if ap_outside (dc_policy c) = ''skip''
          then Some (Inr \<lparr>ts_tick = None, ts_disposition = DRAWN_TICK\<rparr>)
          else (case next_activity_opening (dc_policy c) m candidate step of
              None \<Rightarrow> None
            | Some (Inl e) \<Rightarrow> Some (Inl e)
            | Some (Inr t) \<Rightarrow> Some (Inr \<lparr>ts_tick = t, ts_disposition = NEXT_OPENING\<rparr>)))"

section \<open>Weighted selection\<close>

fun pick_weighted :: "int list \<Rightarrow> int \<Rightarrow> int \<Rightarrow> nat list \<Rightarrow> nat res" where
  "pick_weighted weights selected cursor [] =
     Inl (ValueError ''participant activity weighted selection did not resolve'')"
| "pick_weighted weights selected cursor (i # rest) =
     res_bind (py_index weights i) (\<lambda>w.
       if selected < cursor + w then Inr i else pick_weighted weights selected (cursor + w) rest)"

definition select_activity_candidate ::
  "random_env \<Rightarrow> draw_context \<Rightarrow> nat list \<Rightarrow> nat option res" where
  "select_activity_candidate env c eligible =
     (if eligible = [] then Inr None
      else res_bind (res_map (py_index (ap_weights (dc_policy c))) eligible) (\<lambda>ws.
        res_bind (draw_activity_integer env c 1 0 (sum_list ws - 1)) (\<lambda>selected.
        res_bind (pick_weighted (ap_weights (dc_policy c)) selected 0 eligible) (\<lambda>i. Inr (Some i)))))"

end
