(* ===== verification/Activity_Windows.thy ===== *)
theory Activity_Windows
  imports Activity_Draws
begin

text \<open>
  The search for the next opening: alignment to the step of the clock, the jump over the pauses
  that cover a tick, and the scan of one window and of the sorted windows. The loop ends because
  every jump moves forward and the windows are finite, and it finds the least eligible tick of
  the grid although it never looks at the ticks it jumps over.
\<close>

section \<open>The grid\<close>

definition step_ok :: "int option \<Rightarrow> bool" where
  "step_ok step \<longleftrightarrow> (case step of None \<Rightarrow> True | Some s \<Rightarrow> 0 < s)"

definition on_grid :: "int option \<Rightarrow> int \<Rightarrow> bool" where
  "on_grid step t \<longleftrightarrow> (case step of None \<Rightarrow> True | Some s \<Rightarrow> t mod s = 0)"

lemma next_multiple:
  fixes s t u :: int
  assumes "0 < s" and "s dvd n" and "n < t + s" and "t \<le> u" and "s dvd u"
  shows "n \<le> u"
proof (rule ccontr)
  assume "\<not> n \<le> u"
  moreover have "s dvd n - u" using assms by simp
  ultimately have "s \<le> n - u" by (simp add: zdvd_imp_le)
  with assms show False by linarith
qed

lemma align_spec:
  assumes "step_ok step"
  obtains n where "aligned_activity_tick t step = Inr n" and "t \<le> n" and "on_grid step n"
    and "\<And>u. t \<le> u \<Longrightarrow> on_grid step u \<Longrightarrow> n \<le> u"
proof (cases step)
  case None
  then show ?thesis using that [of t] by (simp add: aligned_activity_tick_def on_grid_def)
next
  case (Some s)
  then have s: "0 < s" using assms by (simp add: step_ok_def)
  show ?thesis
  proof (cases "t mod s = 0")
    case True
    then show ?thesis using that [of t] Some s by (simp add: aligned_activity_tick_def on_grid_def)
  next
    case False
    let ?n = "t + s - t mod s"
    have m: "0 < t mod s" "t mod s < s"
      using s False pos_mod_bound [of s t] pos_mod_sign [of s t] by linarith+
    have "s dvd t - t mod s" by simp
    then have "s dvd (t - t mod s) + s" by simp
    then have dvd: "s dvd ?n" by (simp add: algebra_simps)
    have "?n \<le> u" if "t \<le> u" "on_grid step u" for u
      using next_multiple [OF s dvd _ that(1)] m that(2) Some by (simp add: on_grid_def mod_eq_0_iff_dvd)
    with False Some s m dvd show ?thesis
      using that [of ?n] by (simp add: aligned_activity_tick_def on_grid_def mod_eq_0_iff_dvd)
  qed
qed

section \<open>The jump over pauses\<close>

lemma tick_from_after: "(t, 0) < i \<longleftrightarrow> t < tick_from i"
  by (cases i) (auto simp: tick_from_def less_prod_def)

lemma tick_from_le: "i \<le> (t, 0) \<longleftrightarrow> tick_from i \<le> t"
  using tick_from_after [of t i] by (simp add: not_less [symmetric])

lemma in_window_ticks: "in_window (t, 0) w \<longleftrightarrow> tick_from (fst w) \<le> t \<and> t < tick_from (snd w)"
  by (simp add: in_window_def tick_from_after tick_from_le)

lemma fold_max_in: "fold max es (e :: int) \<in> set (e # es)"
proof (induction es arbitrary: e)
  case Nil
  show ?case by simp
next
  case (Cons d es)
  show ?case using Cons [of "max d e"] by (auto simp: max_def split: if_splits)
qed

lemma pause_end_after_jump:
  assumes "\<not> tick_open work pauses t"
  shows "t < pause_end_after pauses t"
    and "t \<le> u \<Longrightarrow> u < pause_end_after pauses t \<Longrightarrow> \<not> tick_open work pauses u"
proof -
  let ?cover = "filter (in_window (t, 0)) pauses"
  consider (none) "?cover = []" "pause_end_after pauses t = t + 1"
    | (some) w where "w \<in> set pauses" "in_window (t, 0) w" "pause_end_after pauses t = tick_from (snd w)"
  proof (cases "map (\<lambda>w. tick_from (snd w)) ?cover")
    case Nil
    then show ?thesis using none by (simp add: pause_end_after_def)
  next
    case (Cons e es)
    then have "pause_end_after pauses t \<in> set (map (\<lambda>w. tick_from (snd w)) ?cover)"
      using fold_max_in [of es e] by (simp add: pause_end_after_def)
    then show ?thesis using some by auto
  qed
  note cases = this
  show "t < pause_end_after pauses t"
    by (cases rule: cases) (auto simp: in_window_ticks)
  show "\<not> tick_open work pauses u" if "t \<le> u" "u < pause_end_after pauses t"
  proof (cases rule: cases)
    case none
    with that assms show ?thesis by (cases "u = t") auto
  next
    case (some w)
    with that have "in_window (u, 0) w" by (auto simp: in_window_ticks)
    with some(1) show ?thesis by (auto simp: tick_open_def list_ex_iff)
  qed
qed

section \<open>One window\<close>

text \<open>\<open>r\<close> is the first open tick of the grid between two bounds, \<open>None\<close> when there is none.\<close>

definition first_open :: "window list \<Rightarrow> window list \<Rightarrow> int option \<Rightarrow> int \<Rightarrow> int \<Rightarrow> int option \<Rightarrow> bool" where
  "first_open work pauses step lo hi r \<longleftrightarrow>
     (case r of
        None \<Rightarrow> \<forall>u. lo \<le> u \<longrightarrow> u < hi \<longrightarrow> on_grid step u \<longrightarrow> \<not> tick_open work pauses u
      | Some t \<Rightarrow> lo \<le> t \<and> t < hi \<and> on_grid step t \<and> tick_open work pauses t \<and>
          (\<forall>u. lo \<le> u \<longrightarrow> u < t \<longrightarrow> on_grid step u \<longrightarrow> \<not> tick_open work pauses u))"

lemma first_open_skip:
  assumes "first_open work pauses step mid hi r" and "lo \<le> mid"
    and "\<And>u. lo \<le> u \<Longrightarrow> u < mid \<Longrightarrow> on_grid step u \<Longrightarrow> \<not> tick_open work pauses u"
  shows "first_open work pauses step lo hi r"
  using assms unfolding first_open_def by (cases r) (auto, (meson not_le)+)

lemma eligible_ranges:
  assumes "window_ranges (ap_work p) m = Inr work" and "window_ranges (ap_pause p) m = Inr pauses"
  shows "activity_tick_is_eligible p m t = Inr (tick_open work pauses t)"
  using assms by (simp add: activity_tick_is_eligible_def)

lemma scan_window_first:
  assumes "window_ranges (ap_work p) m = Inr work" and "window_ranges (ap_pause p) m = Inr pauses"
    and "step_ok step" and "on_grid step t"
  shows "\<exists>r. scan_window p m step final t = Some (Inr r) \<and> first_open work pauses step t (tick_from final) r"
  using assms(4)
proof (induction "nat (tick_from final - t)" arbitrary: t rule: less_induct)
  case less
  note el = eligible_ranges [OF assms(1,2)]
  show ?case
  proof (cases "t < tick_from final")
    case False
    then show ?thesis
      by (intro exI [of _ None]) (auto simp: scan_window.simps tick_from_after first_open_def)
  next
    case inside: True
    show ?thesis
    proof (cases "tick_open work pauses t")
      case True
      with inside less.prems show ?thesis
        by (intro exI [of _ "Some t"]) (auto simp: scan_window.simps tick_from_after first_open_def el)
    next
      case False
      note jump = pause_end_after_jump [OF False]
      obtain n where n: "aligned_activity_tick (pause_end_after pauses t) step = Inr n"
          "pause_end_after pauses t \<le> n" "on_grid step n"
          "\<And>u. pause_end_after pauses t \<le> u \<Longrightarrow> on_grid step u \<Longrightarrow> n \<le> u"
        using align_spec [OF assms(3)] by blast
      have "nat (tick_from final - n) < nat (tick_from final - t)" using jump(1) n(2) inside by simp
      from less.hyps [OF this n(3)] obtain r where r: "scan_window p m step final n = Some (Inr r)"
          "first_open work pauses step n (tick_from final) r" by blast
      have "\<not> tick_open work pauses u" if "t \<le> u" "u < n" "on_grid step u" for u
        using jump(2) [OF that(1)] n(4) [of u] that by force
      then have "first_open work pauses step t (tick_from final) r"
        using first_open_skip [OF r(2)] jump(1) n(2) by simp
      with inside False n(1) r(1) show ?thesis
        by (subst scan_window.simps) (simp add: tick_from_after el assms(2))
    qed
  qed
qed

section \<open>All windows\<close>

definition in_some :: "window list \<Rightarrow> int \<Rightarrow> bool" where
  "in_some ws u \<longleftrightarrow> (\<exists>w \<in> set ws. in_window (u, 0) w)"

text \<open>\<open>r\<close> is the first open tick of the grid from \<open>lo\<close> on that lies in one of the windows.\<close>

definition first_in :: "window list \<Rightarrow> window list \<Rightarrow> window list \<Rightarrow> int option \<Rightarrow> int \<Rightarrow> int option \<Rightarrow> bool" where
  "first_in ws work pauses step lo r \<longleftrightarrow>
     (case r of
        None \<Rightarrow> \<forall>u. lo \<le> u \<longrightarrow> on_grid step u \<longrightarrow> in_some ws u \<longrightarrow> \<not> tick_open work pauses u
      | Some t \<Rightarrow> lo \<le> t \<and> on_grid step t \<and> tick_open work pauses t \<and>
          (\<forall>u. lo \<le> u \<longrightarrow> u < t \<longrightarrow> on_grid step u \<longrightarrow> in_some ws u \<longrightarrow> \<not> tick_open work pauses u))"

lemma first_in_here:
  assumes "first_open work pauses step (max lo (tick_from (fst w))) (tick_from (snd w)) (Some t)"
    and "sorted (w # ws)"
  shows "first_in (w # ws) work pauses step lo (Some t)"
proof -
  have "\<not> tick_open work pauses u" if u: "lo \<le> u" "u < t" "on_grid step u" "in_some (w # ws) u" for u
  proof -
    obtain v where v: "v \<in> set (w # ws)" "in_window (u, 0) v" using u(4) unfolding in_some_def by blast
    have "w \<le> v" using assms(2) v(1) by auto
    then have "fst w < fst v \<or> fst w \<le> fst v" unfolding less_eq_prod_def [of w v] by blast
    then have "fst w \<le> fst v" by (blast intro: less_imp_le)
    moreover have "fst v \<le> (u, 0)" using v(2) by (simp add: in_window_def)
    ultimately have "fst w \<le> (u, 0)" by (rule order_trans)
    then have "tick_from (fst w) \<le> u" by (simp only: tick_from_le)
    with u assms(1) show ?thesis by (auto simp: first_open_def)
  qed
  with assms(1) show ?thesis by (auto simp: first_open_def first_in_def)
qed

lemma first_in_later:
  assumes "first_open work pauses step (max lo (tick_from (fst w))) (tick_from (snd w)) None"
    and "first_in ws work pauses step lo r"
  shows "first_in (w # ws) work pauses step lo r"
proof -
  have "\<not> tick_open work pauses u" if "lo \<le> u" "on_grid step u" "in_window (u, 0) w" for u
    using assms(1) that by (auto simp: first_open_def in_window_ticks)
  with assms(2) show ?thesis by (auto simp: first_in_def in_some_def split: option.splits)
qed

lemma scan_windows_first:
  assumes "window_ranges (ap_work p) m = Inr work" and "window_ranges (ap_pause p) m = Inr pauses"
    and "step_ok step" and "sorted ws"
  shows "\<exists>r. scan_windows p m step lo ws = Some (Inr r) \<and> first_in ws work pauses step lo r"
  using assms(4)
proof (induction ws)
  case Nil
  show ?case by (simp add: first_in_def in_some_def)
next
  case (Cons w ws)
  let ?lo = "max lo (tick_from (fst w))"
  obtain n where n: "aligned_activity_tick ?lo step = Inr n" "?lo \<le> n" "on_grid step n"
      "\<And>u. ?lo \<le> u \<Longrightarrow> on_grid step u \<Longrightarrow> n \<le> u"
    using align_spec [OF assms(3)] by blast
  obtain r where r: "scan_window p m step (snd w) n = Some (Inr r)"
      "first_open work pauses step n (tick_from (snd w)) r"
    using scan_window_first [OF assms(1-3) n(3)] by blast
  have first: "first_open work pauses step ?lo (tick_from (snd w)) r"
    using first_open_skip [OF r(2) n(2)] n(4) by force
  show ?case
  proof (cases r)
    case None
    obtain q where q: "scan_windows p m step lo ws = Some (Inr q)" "first_in ws work pauses step lo q"
      using Cons by auto
    have "first_in (w # ws) work pauses step lo q"
      using first_in_later [OF _ q(2)] first None by simp
    with n(1) r(1) q(1) None show ?thesis by simp
  next
    case (Some t)
    have "first_in (w # ws) work pauses step lo (Some t)"
      using first_in_here [OF _ Cons.prems] first Some by simp
    with n(1) r(1) Some show ?thesis by simp
  qed
qed

text \<open>The declarative notion: the least open tick of the grid from the candidate on.\<close>

definition is_next_opening :: "window list \<Rightarrow> window list \<Rightarrow> int option \<Rightarrow> int \<Rightarrow> int option \<Rightarrow> bool" where
  "is_next_opening work pauses step candidate r \<longleftrightarrow>
     (case r of
        None \<Rightarrow> \<forall>u. candidate \<le> u \<longrightarrow> on_grid step u \<longrightarrow> \<not> tick_open work pauses u
      | Some t \<Rightarrow> candidate \<le> t \<and> on_grid step t \<and> tick_open work pauses t \<and>
          (\<forall>u. candidate \<le> u \<longrightarrow> u < t \<longrightarrow> on_grid step u \<longrightarrow> \<not> tick_open work pauses u))"

lemma first_in_all: "first_in work work pauses step lo r = is_next_opening work pauses step lo r"
  by (auto simp: first_in_def is_next_opening_def in_some_def tick_open_def list_ex_iff split: option.splits)

lemma window_ranges_sorted: "window_ranges addresses m = Inr work \<Longrightarrow> sorted work"
  by (auto simp: window_ranges_def res_bind_Inr_iff)

lemma next_opening_spec:
  assumes "window_ranges (ap_work p) m = Inr work" and "window_ranges (ap_pause p) m = Inr pauses"
    and "step_ok step"
  shows "\<exists>r. next_activity_opening p m candidate step = Some (Inr r) \<and>
     is_next_opening work pauses step candidate r"
  using scan_windows_first [OF assms window_ranges_sorted [OF assms(1)], of candidate]
  by (simp add: next_activity_opening_def assms(1) first_in_all)

end
