(* ===== verification/Activity_Occurrence.thy ===== *)
theory Activity_Occurrence
  imports Activity_Windows
begin

text \<open>
  Occurrences of participant activity: the scheduler state of one participant
  (\<open>ParticipantAutonomousExecutionStateModel\<close> of \<open>raes_contracts/contracts/participant_runtime.py\<close>),
  the transitions of \<open>raes_runtime/participant_scheduler_activity_state.py\<close>, eligibility and attempt
  identities of \<open>participant_activity_support.py\<close> and the selection of
  \<open>participant_scheduler_operations.py\<close>. A state is copied with updates and not validated by the
  copy, so that the validator still accepts it is a property to prove.
\<close>

section \<open>States\<close>

datatype execution_lifecycle = EXEC_RUNNING | EXEC_PAUSED | EXEC_COMPLETED | EXEC_FAILED

record activity_state =
  xs_policy :: string
  xs_digest :: string
  xs_participant :: string
  xs_episode :: string
  xs_implementation :: string
  xs_clock :: string
  xs_segment :: int
  xs_lifecycle :: execution_lifecycle
  xs_next_tick :: int
  xs_index :: nat
  xs_attempted :: int
  xs_succeeded :: int
  xs_failed :: int
  xs_in_flight :: int
  xs_last_action :: "string option"
  xs_profile :: string
  xs_occurrence :: int
  xs_retry :: int
  xs_burst_position :: int
  xs_burst_size :: int
  xs_timing :: timing_disposition
  xs_last_candidate :: "string option"
  xs_completed :: "string list"
  xs_cooldowns :: "(string, int) pydict"
  xs_random_control :: "string option"
  xs_random_profile :: "string option"
  xs_random_namespace :: "string option"

definition execution_v1 :: string where
  "execution_v1 = ''participant-autonomous-execution/v1''"

definition execution_v2 :: string where
  "execution_v2 = ''participant-autonomous-execution/v2''"

definition execution_v3 :: string where
  "execution_v3 = ''participant-autonomous-execution/v3''"

definition truthy_text :: "string option \<Rightarrow> bool" where
  "truthy_text v \<longleftrightarrow> v \<noteq> None \<and> v \<noteq> Some []"

definition state_shape_ok :: "activity_state \<Rightarrow> bool" where
  "state_shape_ok s \<longleftrightarrow>
     xs_policy s \<noteq> [] \<and> xs_digest s \<noteq> [] \<and> xs_participant s \<noteq> [] \<and> xs_episode s \<noteq> [] \<and>
     xs_implementation s \<noteq> [] \<and> xs_clock s \<noteq> [] \<and> 0 \<le> xs_segment s \<and> 0 \<le> xs_next_tick s \<and>
     0 \<le> xs_attempted s \<and> 0 \<le> xs_succeeded s \<and> 0 \<le> xs_failed s \<and> 0 \<le> xs_in_flight s \<and>
     (xs_profile s = execution_v1 \<or> xs_profile s = execution_v2 \<or> xs_profile s = execution_v3) \<and>
     0 \<le> xs_occurrence s \<and> 0 \<le> xs_retry s \<and> 0 \<le> xs_burst_position s \<and> 1 \<le> xs_burst_size s \<and>
     list_all (\<lambda>c. c \<noteq> []) (xs_completed s) \<and> list_all (\<lambda>c. c \<noteq> []) (dict_keys (xs_cooldowns s))"

definition check_activity_state :: "activity_state \<Rightarrow> unit res" where
  "check_activity_state s =
     res_bind (require_that (state_shape_ok s) (ValidationError ''autonomous execution state fields'')) (\<lambda>_.
     res_bind (require_that (xs_succeeded s + xs_failed s \<le> xs_attempted s)
       (ValidationError ''terminal autonomous action counts cannot exceed attempted actions'')) (\<lambda>_.
     res_bind (
       let identity = [truthy_text (xs_random_control s), truthy_text (xs_random_profile s),
                       truthy_text (xs_random_namespace s)] in
       if xs_profile s = execution_v1
       then require_that (\<not> list_ex id identity)
         (ValidationError ''v1 autonomous execution state cannot carry participant random-control identity'')
       else require_that (list_all id identity)
         (ValidationError ''v2 autonomous execution state requires complete participant random-control identity'')) (\<lambda>_.
     res_bind (require_that (distinct (xs_completed s))
       (ValidationError ''completed autonomous activity candidate ids must be unique'')) (\<lambda>_.
       require_that (xs_retry s \<le> xs_attempted s)
         (ValidationError ''autonomous activity current_retry cannot exceed attempted actions'')))))"

section \<open>The context of a due action\<close>

record due_context =
  du_policy :: activity_policy
  du_time :: compiled_time_model
  du_participant :: string
  du_key :: string
  du_tick :: int
  du_control :: "random_control option"

definition draw_context_of :: "due_context \<Rightarrow> random_control \<Rightarrow> int \<Rightarrow> int \<Rightarrow> draw_context" where
  "draw_context_of c control segment ordinal =
     \<lparr>dc_policy = du_policy c, dc_participant = du_participant c, dc_segment = segment,
      dc_ordinal = ordinal, dc_control = control\<rparr>"

text \<open>Sequencing of runs that may diverge or raise.\<close>

fun run_bind :: "'a res option \<Rightarrow> ('a \<Rightarrow> 'b res option) \<Rightarrow> 'b res option" where
  "run_bind None f = None"
| "run_bind (Some (Inl e)) f = Some (Inl e)"
| "run_bind (Some (Inr x)) f = f x"

lemma run_bind_Inr: "run_bind r f = Some (Inr y) \<longleftrightarrow> (\<exists>x. r = Some (Inr x) \<and> f x = Some (Inr y))"
  by (cases "(r, f)" rule: run_bind.cases) auto

section \<open>Retries\<close>

definition activity_attempt_is_retryable ::
  "due_context \<Rightarrow> activity_state \<Rightarrow> bool \<Rightarrow> string option \<Rightarrow> bool \<Rightarrow> int \<Rightarrow> bool res" where
  "activity_attempt_is_retryable c s succeeded failure_class protocol_failure attempted =
     (if protocol_failure \<or> succeeded then Inr False
      else res_bind (py_index (ap_retry_classes (du_policy c)) (xs_index s)) (\<lambda>classes.
        if \<not> (case failure_class of None \<Rightarrow> False | Some f \<Rightarrow> f \<in> set classes) then Inr False
        else res_bind (py_index (ap_max_retries (du_policy c)) (xs_index s)) (\<lambda>max_retries.
          Inr (xs_retry s < max_retries \<and> attempted < ap_max_attempts (du_policy c)))))"

definition activity_retry_state ::
  "due_context \<Rightarrow> activity_state \<Rightarrow> string \<Rightarrow> int \<Rightarrow> int \<Rightarrow> activity_state res" where
  "activity_retry_state c s instance_id attempted failed =
     res_bind (py_index (ap_candidates (du_policy c)) (xs_index s)) (\<lambda>candidate.
       Inr (s\<lparr>xs_next_tick := du_tick c, xs_attempted := attempted, xs_failed := failed,
             xs_retry := xs_retry s + 1, xs_last_candidate := Some candidate,
             xs_last_action := Some instance_id\<rparr>))"

section \<open>Progress\<close>

record activity_progress =
  pg_candidate :: string
  pg_completed :: "string list"
  pg_cooldowns :: "(string, int) pydict"
  pg_occurrence :: int
  pg_lifecycle :: execution_lifecycle

definition completed_activity_progress ::
  "due_context \<Rightarrow> activity_state \<Rightarrow> bool \<Rightarrow> bool \<Rightarrow> int \<Rightarrow> activity_progress res" where
  "completed_activity_progress c s succeeded protocol_failure attempted =
     (let p = du_policy c; occurrence = xs_occurrence s + 1 in
      res_bind (py_index (ap_candidates p) (xs_index s)) (\<lambda>candidate.
      res_bind (py_index (ap_cooldowns p) (xs_index s)) (\<lambda>cooldown.
        Inr \<lparr>pg_candidate = candidate,
             pg_completed = (if succeeded \<and> candidate \<notin> set (xs_completed s)
                then xs_completed s @ [candidate] else xs_completed s),
             pg_cooldowns = dict_set candidate (du_tick c + cooldown) (xs_cooldowns s),
             pg_occurrence = occurrence,
             pg_lifecycle =
               (if protocol_failure \<or> (\<not> succeeded \<and> ap_failure_policy p = ''stop'') then EXEC_FAILED
                else if ap_max_occurrences p \<le> occurrence \<or> ap_max_attempts p \<le> attempted then EXEC_COMPLETED
                else xs_lifecycle s)\<rparr>)))"

record activity_schedule =
  sd_lifecycle :: execution_lifecycle
  sd_next_tick :: int
  sd_burst_position :: int
  sd_burst_size :: int
  sd_timing :: timing_disposition

definition next_activity_schedule ::
  "random_env \<Rightarrow> due_context \<Rightarrow> activity_state \<Rightarrow> random_control \<Rightarrow> activity_progress \<Rightarrow>
     activity_schedule res option" where
  "next_activity_schedule env c s control pg =
     (let same = \<lparr>sd_lifecycle = pg_lifecycle pg, sd_next_tick = du_tick c,
          sd_burst_position = xs_burst_position s, sd_burst_size = xs_burst_size s, sd_timing = xs_timing s\<rparr>;
        draws = draw_context_of c control (xs_segment s) (pg_occurrence pg) in
      if pg_lifecycle pg = EXEC_RUNNING \<and> xs_burst_position s + 1 < xs_burst_size s
      then Some (Inr (same\<lparr>sd_burst_position := xs_burst_position s + 1\<rparr>))
      else if pg_lifecycle pg = EXEC_RUNNING
      then run_bind (Some (draw_activity_integer env draws 2 1 (ap_max_burst (du_policy c)))) (\<lambda>size.
           run_bind (next_activity_timing env draws (du_time c) (du_tick c)) (\<lambda>timing.
             Some (Inr (case ts_tick timing of
                 None \<Rightarrow> same\<lparr>sd_burst_position := 0, sd_burst_size := size,
                   sd_timing := ts_disposition timing, sd_lifecycle := EXEC_COMPLETED\<rparr>
               | Some t \<Rightarrow> same\<lparr>sd_burst_position := 0, sd_burst_size := size,
                   sd_timing := ts_disposition timing, sd_next_tick := t\<rparr>))))
      else Some (Inr same))"

definition next_activity_occurrence_state ::
  "random_env \<Rightarrow> due_context \<Rightarrow> activity_state \<Rightarrow> string \<Rightarrow> bool \<Rightarrow> string option \<Rightarrow> bool \<Rightarrow>
     activity_state res option" where
  "next_activity_occurrence_state env c s instance_id succeeded failure_class protocol_failure =
     (case du_control c of
        None \<Rightarrow> Some (Inl (ValueError ''participant activity execution requires a random control''))
      | Some control \<Rightarrow>
          (let attempted = xs_attempted s + 1; failed = xs_failed s + (if succeeded then 0 else 1) in
           run_bind (Some (activity_attempt_is_retryable c s succeeded failure_class protocol_failure attempted))
             (\<lambda>retryable.
           if retryable then Some (activity_retry_state c s instance_id attempted failed)
           else run_bind (Some (completed_activity_progress c s succeeded protocol_failure attempted)) (\<lambda>pg.
             run_bind (next_activity_schedule env c s control pg) (\<lambda>sd.
               Some (Inr (s\<lparr>xs_lifecycle := sd_lifecycle sd, xs_next_tick := sd_next_tick sd,
                   xs_attempted := attempted, xs_succeeded := xs_succeeded s + (if succeeded then 1 else 0),
                   xs_failed := failed, xs_occurrence := pg_occurrence pg, xs_retry := 0,
                   xs_burst_position := sd_burst_position sd, xs_burst_size := sd_burst_size sd,
                   xs_last_candidate := Some (pg_candidate pg), xs_completed := pg_completed pg,
                   xs_cooldowns := pg_cooldowns pg, xs_last_action := Some instance_id,
                   xs_timing := sd_timing sd\<rparr>)))))))"

section \<open>Identities and selection\<close>

definition activity_attempt_id ::
  "string \<Rightarrow> string \<Rightarrow> string \<Rightarrow> int \<Rightarrow> int \<Rightarrow> int \<Rightarrow> string" where
  "activity_attempt_id policy participant episode segment occurrence retry =
     policy @ '':'' @ participant @ '':episode='' @ episode @ '':segment='' @ int_text segment @
     '':occurrence='' @ int_text occurrence @ '':retry='' @ int_text retry"

definition activity_eligible_indices :: "activity_policy \<Rightarrow> activity_state \<Rightarrow> int \<Rightarrow> nat list res" where
  "activity_eligible_indices p s tick =
     res_bind (res_map (\<lambda>i.
         res_bind (py_index (ap_candidates p) i) (\<lambda>candidate.
         res_bind (py_index (ap_dependencies p) i) (\<lambda>needs.
           Inr (i, set needs \<subseteq> set (xs_completed s) \<and>
             (case dict_get (xs_cooldowns s) candidate of None \<Rightarrow> 0 | Some t \<Rightarrow> t) \<le> tick))))
       [0..<length (ap_candidates p)]) (\<lambda>flags. Inr (map fst (filter snd flags)))"

definition selected_activity_index :: "random_env \<Rightarrow> due_context \<Rightarrow> activity_state \<Rightarrow> nat option res" where
  "selected_activity_index env c s =
     (if xs_retry s \<noteq> 0 then Inr (Some (xs_index s))
      else case du_control c of
        None \<Rightarrow> Inl (ValueError ''participant activity execution requires a random control'')
      | Some control \<Rightarrow>
          res_bind (activity_eligible_indices (du_policy c) s (du_tick c)) (\<lambda>eligible.
            select_activity_candidate env (draw_context_of c control (xs_segment s) (xs_occurrence s)) eligible))"

definition empty_activity_state :: "random_env \<Rightarrow> due_context \<Rightarrow> activity_state \<Rightarrow> activity_state res option" where
  "empty_activity_state env c s =
     run_bind
       (if ap_empty (du_policy c) = ''complete'' then Some (Inr None)
        else case du_control c of
          None \<Rightarrow> Some (Inl (ValueError ''participant activity execution requires a random control''))
        | Some control \<Rightarrow>
            run_bind (next_activity_timing env (draw_context_of c control (xs_segment s) (xs_occurrence s))
                (du_time c) (du_tick c)) (\<lambda>timing. Some (Inr (ts_tick timing))))
       (\<lambda>selected. Some (Inr (case selected of
            None \<Rightarrow> s\<lparr>xs_lifecycle := EXEC_COMPLETED, xs_next_tick := du_tick c\<rparr>
          | Some t \<Rightarrow> s\<lparr>xs_lifecycle := EXEC_RUNNING, xs_next_tick := t\<rparr>)))"

text \<open>\<open>_activity_action_is_due\<close>; \<open>failed\<close> tells whether the run has already recorded a failure.\<close>

definition activity_action_is_due :: "due_context \<Rightarrow> activity_state \<Rightarrow> bool \<Rightarrow> bool" where
  "activity_action_is_due c s failed \<longleftrightarrow>
     xs_lifecycle s = EXEC_RUNNING \<and> xs_next_tick s = du_tick c \<and>
     xs_attempted s < ap_max_attempts (du_policy c) \<and> xs_in_flight s = 0 \<and> \<not> failed"

section \<open>Clock resets and initial states\<close>

text \<open>
  The schedule of occurrence 0 in a new segment, drawn alike by the initialisation and by the
  reset of a clock; the two differ in what they make of a draw without a tick.
\<close>

definition opening_draws ::
  "random_env \<Rightarrow> due_context \<Rightarrow> random_control \<Rightarrow> int \<Rightarrow> (int \<times> timing_selection) res option" where
  "opening_draws env c control segment =
     (let draws = draw_context_of c control segment 0 in
      run_bind (Some (draw_activity_integer env draws 2 1 (ap_max_burst (du_policy c)))) (\<lambda>size.
      run_bind (next_activity_timing env draws (du_time c) (du_tick c)) (\<lambda>timing.
        Some (Inr (size, timing)))))"

text \<open>The part of \<open>_initial_participant_state\<close> for a policy with a random control.\<close>

definition initial_activity_state ::
  "random_env \<Rightarrow> due_context \<Rightarrow> random_control \<Rightarrow> string \<Rightarrow> string \<Rightarrow> string \<Rightarrow> string \<Rightarrow> string \<Rightarrow> int \<Rightarrow>
     activity_state res option" where
  "initial_activity_state env c control profile digest episode implementation clock segment =
     run_bind (opening_draws env c control segment) (\<lambda>(size, timing).
       let s = \<lparr>xs_policy = ap_address (du_policy c), xs_digest = digest, xs_participant = du_participant c,
            xs_episode = episode, xs_implementation = implementation, xs_clock = clock, xs_segment = segment,
            xs_lifecycle = (if ts_tick timing = None then EXEC_COMPLETED else EXEC_RUNNING),
            xs_next_tick = (case ts_tick timing of None \<Rightarrow> du_tick c | Some t \<Rightarrow> t),
            xs_index = 0, xs_attempted = 0, xs_succeeded = 0, xs_failed = 0, xs_in_flight = 0,
            xs_last_action = None, xs_profile = profile, xs_occurrence = 0, xs_retry = 0,
            xs_burst_position = 0, xs_burst_size = size, xs_timing = ts_disposition timing,
            xs_last_candidate = None, xs_completed = [], xs_cooldowns = [],
            xs_random_control = Some (rc_id control), xs_random_profile = Some (rc_profile control),
            xs_random_namespace = Some (rc_namespace control)\<rparr> in
       Some (res_bind (check_activity_state s) (\<lambda>_. Inr s)))"

text \<open>The state written by \<open>reset_scheduler_participant\<close> for a policy with a random control.\<close>

definition reset_activity_state ::
  "random_env \<Rightarrow> due_context \<Rightarrow> random_control \<Rightarrow> string \<Rightarrow> int \<Rightarrow> activity_state \<Rightarrow> activity_state res option" where
  "reset_activity_state env c control episode segment s =
     run_bind (opening_draws env c control segment) (\<lambda>(size, timing).
       Some (Inr (s\<lparr>xs_episode := episode, xs_lifecycle := EXEC_RUNNING, xs_segment := segment,
           xs_next_tick := (case ts_tick timing of None \<Rightarrow> du_tick c | Some t \<Rightarrow> t),
           xs_index := 0, xs_attempted := 0, xs_succeeded := 0, xs_failed := 0, xs_in_flight := 0,
           xs_last_action := None, xs_occurrence := 0, xs_retry := 0, xs_burst_position := 0,
           xs_last_candidate := None, xs_completed := [], xs_cooldowns := [], xs_burst_size := size,
           xs_timing := ts_disposition timing\<rparr>)))"

section \<open>States in a snapshot\<close>

text \<open>
  \<open>raes_contracts/participant_autonomous_state.py\<close>: what the constructor of a snapshot checks of
  every scheduler state, as the list of violations. Building a snapshot raises with the first.
\<close>

definition state_key :: "activity_state \<Rightarrow> string" where
  "state_key s = xs_policy s @ ''.state.'' @ xs_participant s"

definition state_identity_violations :: "string \<Rightarrow> activity_state \<Rightarrow> string list" where
  "state_identity_violations key s =
     (if key \<noteq> state_key s
      then [''autonomous participant state map key must equal the embedded policy and participant address''] else []) @
     (if \<not> is_sha256_digest (xs_digest s)
      then [''autonomous participant policy_digest must be a canonical sha256 digest''] else [])"

definition address_violation :: "string \<Rightarrow> string \<Rightarrow> string list" where
  "address_violation field address =
     (case require_compiled_address field address of
        Inl e \<Rightarrow> [field @ '' is not a compiled address'']
      | Inr u \<Rightarrow> [])"

definition state_address_violations :: "activity_state \<Rightarrow> string list" where
  "state_address_violations s =
     address_violation ''policy_address'' (xs_policy s) @
     address_violation ''participant_address'' (xs_participant s) @
     address_violation ''participant_implementation_ref'' (xs_implementation s) @
     address_violation ''clock_address'' (xs_clock s)"

definition state_accounting_violations :: "activity_state \<Rightarrow> string list" where
  "state_accounting_violations s =
     (if xs_succeeded s + xs_failed s + xs_in_flight s \<noteq> xs_attempted s
      then [''autonomous participant attempted_actions must equal succeeded_actions + failed_actions + in_flight'']
      else []) @
     (if xs_lifecycle s \<in> {EXEC_COMPLETED, EXEC_FAILED} \<and> xs_in_flight s \<noteq> 0
      then [''terminal autonomous participant state cannot retain in-flight actions''] else [])"

definition state_entry_violations :: "string \<Rightarrow> activity_state \<Rightarrow> string list" where
  "state_entry_violations key s =
     (if key = [] then [''autonomous participant state keys must be non-empty strings'']
      else case check_activity_state s of
        Inl e \<Rightarrow> [''autonomous participant state is invalid'']
      | Inr u \<Rightarrow>
          state_identity_violations key s @ state_address_violations s @ state_accounting_violations s)"

definition require_activity_states :: "(string, activity_state) pydict \<Rightarrow> unit res" where
  "require_activity_states states =
     (case concat (map (\<lambda>(key, s). state_entry_violations key s) states) of
        [] \<Rightarrow> Inr ()
      | message # rest \<Rightarrow> Inl (ValueError message))"

end
