(* ===== verification/Activity_Steps.thy ===== *)
theory Activity_Steps
  imports Activity_Occurrence
begin

text \<open>
  What the draws and the transitions of participant activity guarantee: drawn ticks lie in open
  windows and never before the interval has passed, every transition keeps the checks of the
  snapshot, the position of a state (segment, occurrence, retry) only moves forward, and so no
  attempt identity is used twice.
\<close>

section \<open>Timing\<close>

lemma draw_activity_integer_range:
  "draw_activity_integer env c k minimum maximum = Inr v \<Longrightarrow> minimum \<le> v \<and> v \<le> maximum"
  by (auto simp: draw_activity_integer_def res_bind_Inr_iff split: option.splits if_splits dest: draw_range(6))

definition policy_step_ok :: "activity_policy \<Rightarrow> compiled_time_model \<Rightarrow> bool" where
  "policy_step_ok p m \<longleftrightarrow> (\<forall>step. progression_step p m = Inr step \<longrightarrow> step_ok step)"

text \<open>The step divides the bounds of the interval, as the semantic checks of the scenario demand.\<close>

definition interval_on_grid :: "activity_policy \<Rightarrow> compiled_time_model \<Rightarrow> bool" where
  "interval_on_grid p m \<longleftrightarrow>
     (\<forall>step. progression_step p m = Inr step \<longrightarrow> on_grid step (ap_minimum_ticks p) \<and> on_grid step (ap_maximum_ticks p))"

lemma drawn_candidate_range:
  assumes "drawn_candidate env c step tick = Inr t" and "step_ok step"
    and "on_grid step (ap_minimum_ticks (dc_policy c))" and "on_grid step (ap_maximum_ticks (dc_policy c))"
  shows "tick + ap_minimum_ticks (dc_policy c) \<le> t \<and> t \<le> tick + ap_maximum_ticks (dc_policy c)"
proof (cases step)
  case None
  with assms show ?thesis
    by (auto simp: drawn_candidate_def timing_units_def res_bind_Inr_iff dest: draw_activity_integer_range)
next
  case (Some s)
  then have s: "0 < s" and dvd: "s dvd ap_minimum_ticks (dc_policy c)" "s dvd ap_maximum_ticks (dc_policy c)"
    using assms(2-4) by (auto simp: step_ok_def on_grid_def)
  obtain u where u: "draw_activity_integer env c 0 (ap_minimum_ticks (dc_policy c) div s)
      (ap_maximum_ticks (dc_policy c) div s) = Inr u" "t = tick + u * s"
    using assms(1) Some s by (auto simp: drawn_candidate_def timing_units_def res_bind_Inr_iff)
  have "ap_minimum_ticks (dc_policy c) div s * s \<le> u * s" "u * s \<le> ap_maximum_ticks (dc_policy c) div s * s"
    using draw_activity_integer_range [OF u(1)] s by (simp_all add: mult_right_mono)
  with u(2) dvd show ?thesis by simp
qed

lemma drawn_candidate_forward:
  assumes "drawn_candidate env c step tick = Inr t" and "step_ok step" and "0 \<le> ap_minimum_ticks (dc_policy c)"
  shows "tick \<le> t"
proof (cases step)
  case None
  with assms show ?thesis
    by (auto simp: drawn_candidate_def timing_units_def res_bind_Inr_iff dest: draw_activity_integer_range)
next
  case (Some s)
  then have s: "0 < s" using assms(2) by (simp add: step_ok_def)
  obtain u where u: "draw_activity_integer env c 0 (ap_minimum_ticks (dc_policy c) div s)
      (ap_maximum_ticks (dc_policy c) div s) = Inr u" "t = tick + u * s"
    using assms(1) Some s by (auto simp: drawn_candidate_def timing_units_def res_bind_Inr_iff)
  have "0 \<le> ap_minimum_ticks (dc_policy c) div s" using s assms(3) by (simp add: pos_imp_zdiv_nonneg_iff)
  with draw_activity_integer_range [OF u(1)] s u(2) show ?thesis by simp
qed

text \<open>The cases of a timing: a drawn open tick, a skipped closed one, or the next opening.\<close>

lemma next_timing_cases:
  assumes "next_activity_timing env c m tick = Some (Inr ts)" and "policy_step_ok (dc_policy c) m"
  obtains (drawn) step t where "progression_step (dc_policy c) m = Inr step" "step_ok step"
      "drawn_candidate env c step tick = Inr t" "activity_tick_is_eligible (dc_policy c) m t = Inr True"
      "ts = \<lparr>ts_tick = Some t, ts_disposition = DRAWN_TICK\<rparr>"
    | (skipped) step t where "progression_step (dc_policy c) m = Inr step" "step_ok step"
      "drawn_candidate env c step tick = Inr t" "activity_tick_is_eligible (dc_policy c) m t = Inr False"
      "ap_outside (dc_policy c) = ''skip''" "ts = \<lparr>ts_tick = None, ts_disposition = DRAWN_TICK\<rparr>"
    | (reopened) step t r work pauses where "progression_step (dc_policy c) m = Inr step" "step_ok step"
      "drawn_candidate env c step tick = Inr t"
      "window_ranges (ap_work (dc_policy c)) m = Inr work" "window_ranges (ap_pause (dc_policy c)) m = Inr pauses"
      "is_next_opening work pauses step t r" "ts = \<lparr>ts_tick = r, ts_disposition = NEXT_OPENING\<rparr>"
proof -
  obtain step t eligible where run: "progression_step (dc_policy c) m = Inr step"
      "drawn_candidate env c step tick = Inr t" "activity_tick_is_eligible (dc_policy c) m t = Inr eligible"
    and rest: "(if eligible then Some (Inr \<lparr>ts_tick = Some t, ts_disposition = DRAWN_TICK\<rparr>)
       else if ap_outside (dc_policy c) = ''skip'' then Some (Inr \<lparr>ts_tick = None, ts_disposition = DRAWN_TICK\<rparr>)
       else (case next_activity_opening (dc_policy c) m t step of
           None \<Rightarrow> None
         | Some (Inl e) \<Rightarrow> Some (Inl e)
         | Some (Inr t) \<Rightarrow> Some (Inr \<lparr>ts_tick = t, ts_disposition = NEXT_OPENING\<rparr>))) = Some (Inr ts)"
    using assms(1) unfolding next_activity_timing_def
    by (cases "progression_step (dc_policy c) m"; simp; cases "drawn_candidate env c (projr (progression_step (dc_policy c) m)) tick";
        simp; cases "activity_tick_is_eligible (dc_policy c) m (projr (drawn_candidate env c (projr (progression_step (dc_policy c) m)) tick))";
        simp)
  have step: "step_ok step" using assms(2) run(1) by (simp add: policy_step_ok_def)
  consider "eligible" | "\<not> eligible" "ap_outside (dc_policy c) = ''skip''"
    | "\<not> eligible" "ap_outside (dc_policy c) \<noteq> ''skip''" by blast
  then show ?thesis
  proof cases
    case 1
    with rest run step show ?thesis by (intro drawn) auto
  next
    case 2
    with rest run step show ?thesis by (intro skipped) auto
  next
    case 3
    obtain work pauses where w: "window_ranges (ap_work (dc_policy c)) m = Inr work"
        "window_ranges (ap_pause (dc_policy c)) m = Inr pauses"
      using run(3) by (auto simp: activity_tick_is_eligible_def res_bind_Inr_iff)
    obtain r where r: "next_activity_opening (dc_policy c) m t step = Some (Inr r)" "is_next_opening work pauses step t r"
      using next_opening_spec [OF w step] by blast
    with rest 3 have "ts = \<lparr>ts_tick = r, ts_disposition = NEXT_OPENING\<rparr>" by simp
    with run step w r(2) show ?thesis by (intro reopened)
  qed
qed

lemma next_timing_forward:
  assumes "next_activity_timing env c m tick = Some (Inr ts)" and "policy_step_ok (dc_policy c) m"
    and "0 \<le> ap_minimum_ticks (dc_policy c)" and "ts_tick ts = Some t"
  shows "tick \<le> t"
  using assms(1,2)
proof (cases rule: next_timing_cases)
  case (drawn step u)
  with drawn_candidate_forward [OF drawn(3,2) assms(3)] assms(4) show ?thesis by simp
next
  case (skipped step u)
  with assms(4) show ?thesis by simp
next
  case (reopened step u r work pauses)
  with drawn_candidate_forward [OF reopened(3,2) assms(3)] assms(4) show ?thesis
    by (simp add: is_next_opening_def)
qed

lemma next_timing_returns:
  assumes "policy_step_ok (dc_policy c) m"
  shows "next_activity_timing env c m tick \<noteq> None"
proof (cases "res_bind (progression_step (dc_policy c) m) (\<lambda>step.
    res_bind (drawn_candidate env c step tick) (\<lambda>t.
    res_bind (activity_tick_is_eligible (dc_policy c) m t) (\<lambda>eligible. Inr (step, t, eligible))))")
  case (Inl e)
  then show ?thesis by (simp add: next_activity_timing_def)
next
  case (Inr x)
  obtain step t eligible where x: "x = (step, t, eligible)" by (cases x)
  have run: "progression_step (dc_policy c) m = Inr step" "activity_tick_is_eligible (dc_policy c) m t = Inr eligible"
    using Inr x by (auto simp: res_bind_Inr_iff)
  obtain work pauses where w: "window_ranges (ap_work (dc_policy c)) m = Inr work"
      "window_ranges (ap_pause (dc_policy c)) m = Inr pauses"
    using run(2) by (auto simp: activity_tick_is_eligible_def res_bind_Inr_iff)
  have "step_ok step" using assms run(1) by (simp add: policy_step_ok_def)
  from next_opening_spec [OF w this, of t] obtain r where
    "next_activity_opening (dc_policy c) m t step = Some (Inr r)" by blast
  with Inr x show ?thesis by (simp add: next_activity_timing_def)
qed

section \<open>The checks of the snapshot\<close>

text \<open>What the compiler guarantees of a policy, as far as the states depend on it.\<close>

definition activity_policy_ok :: "activity_policy \<Rightarrow> bool" where
  "activity_policy_ok p \<longleftrightarrow> 0 \<le> ap_minimum_ticks p \<and> list_all (\<lambda>c. c \<noteq> []) (ap_candidates p)"

definition due_context_ok :: "due_context \<Rightarrow> bool" where
  "due_context_ok c \<longleftrightarrow>
     activity_policy_ok (du_policy c) \<and> policy_step_ok (du_policy c) (du_time c) \<and> 0 \<le> du_tick c"

text \<open>A state the snapshot accepts under its key.\<close>

definition state_accepted :: "activity_state \<Rightarrow> bool" where
  "state_accepted s \<longleftrightarrow> state_entry_violations (state_key s) s = []"

lemma state_accepted_iff:
  "state_accepted s \<longleftrightarrow>
     check_activity_state s = Inr () \<and> is_sha256_digest (xs_digest s) \<and> state_address_violations s = [] \<and>
     state_accounting_violations s = []"
  unfolding state_accepted_def state_entry_violations_def state_identity_violations_def
  by (auto simp: state_key_def split: sum.splits)

lemma check_activity_state_Inr:
  "check_activity_state s = Inr u \<longleftrightarrow>
     state_shape_ok s \<and> xs_succeeded s + xs_failed s \<le> xs_attempted s \<and>
     (if xs_profile s = execution_v1
      then \<not> (truthy_text (xs_random_control s) \<or> truthy_text (xs_random_profile s) \<or> truthy_text (xs_random_namespace s))
      else truthy_text (xs_random_control s) \<and> truthy_text (xs_random_profile s) \<and> truthy_text (xs_random_namespace s)) \<and>
     distinct (xs_completed s) \<and> xs_retry s \<le> xs_attempted s"
  by (auto simp: check_activity_state_def res_bind_Inr_iff Let_def)

text \<open>The members of a state that no transition of an occurrence touches.\<close>

definition same_identity :: "activity_state \<Rightarrow> activity_state \<Rightarrow> bool" where
  "same_identity s t \<longleftrightarrow>
     xs_policy t = xs_policy s \<and> xs_digest t = xs_digest s \<and> xs_participant t = xs_participant s \<and>
     xs_episode t = xs_episode s \<and> xs_implementation t = xs_implementation s \<and> xs_clock t = xs_clock s \<and>
     xs_segment t = xs_segment s \<and> xs_in_flight t = xs_in_flight s \<and> xs_profile t = xs_profile s \<and>
     xs_random_control t = xs_random_control s \<and> xs_random_profile t = xs_random_profile s \<and>
     xs_random_namespace t = xs_random_namespace s"

text \<open>The schedule after an occurrence.\<close>

lemma next_schedule_facts:
  assumes "next_activity_schedule env c s control pg = Some (Inr sd)" and "due_context_ok c"
    and "0 \<le> xs_burst_position s" and "1 \<le> xs_burst_size s"
  shows "du_tick c \<le> sd_next_tick sd" and "0 \<le> sd_burst_position sd" and "1 \<le> sd_burst_size sd"
    and "sd_lifecycle sd = pg_lifecycle pg \<or> pg_lifecycle pg = EXEC_RUNNING \<and> sd_lifecycle sd = EXEC_COMPLETED"
    and "sd_lifecycle sd = EXEC_RUNNING \<Longrightarrow> sd_next_tick sd = du_tick c \<or>
      activity_tick_is_eligible (du_policy c) (du_time c) (sd_next_tick sd) = Inr True"
proof -
  let ?draws = "draw_context_of c control (xs_segment s) (pg_occurrence pg)"
  have p: "dc_policy ?draws = du_policy c" by (simp add: draw_context_of_def)
  have forward: "du_tick c \<le> t" if "next_activity_timing env ?draws (du_time c) (du_tick c) = Some (Inr timing)"
      "ts_tick timing = Some t" for timing t
    using next_timing_forward [OF that(1) _ _ that(2)] assms(2) p
    by (simp add: due_context_ok_def activity_policy_ok_def)
  have eligible: "activity_tick_is_eligible (du_policy c) (du_time c) t = Inr True"
    if "next_activity_timing env ?draws (du_time c) (du_tick c) = Some (Inr timing)"
      "ts_tick timing = Some t" for timing t
  proof -
    have "policy_step_ok (dc_policy ?draws) (du_time c)" using assms(2) p by (simp add: due_context_ok_def)
    with that(1) show ?thesis
    proof (cases rule: next_timing_cases)
      case (drawn step u)
      with that(2) p show ?thesis by simp
    next
      case (skipped step u)
      with that(2) show ?thesis by simp
    next
      case (reopened step u r work pauses)
      with that(2) eligible_ranges [of "du_policy c" "du_time c" work pauses t] p show ?thesis
        by (simp add: is_next_opening_def)
    qed
  qed
  have burst: "1 \<le> size" if "draw_activity_integer env ?draws 2 1 (ap_max_burst (du_policy c)) = Inr size" for size
    using draw_activity_integer_range [OF that] by simp
  show "du_tick c \<le> sd_next_tick sd" "0 \<le> sd_burst_position sd" "1 \<le> sd_burst_size sd"
    "sd_lifecycle sd = pg_lifecycle pg \<or> pg_lifecycle pg = EXEC_RUNNING \<and> sd_lifecycle sd = EXEC_COMPLETED"
    using assms(1,3,4) forward burst
    by (auto simp: next_activity_schedule_def Let_def run_bind_Inr split: if_splits option.splits)
  show "sd_lifecycle sd = EXEC_RUNNING \<Longrightarrow> sd_next_tick sd = du_tick c \<or>
      activity_tick_is_eligible (du_policy c) (du_time c) (sd_next_tick sd) = Inr True"
    using assms(1) eligible
    by (auto simp: next_activity_schedule_def Let_def run_bind_Inr split: if_splits option.splits)
qed

text \<open>The two outcomes of an attempt: a retry of the occurrence or the next occurrence.\<close>

lemma next_occurrence_cases:
  assumes "next_activity_occurrence_state env c s instance_id ok fc pf = Some (Inr t)"
  obtains (retry) candidate where "\<not> ok" "\<not> pf" "xs_attempted s + 1 < ap_max_attempts (du_policy c)"
      "xs_index s < length (ap_candidates (du_policy c))" "candidate = ap_candidates (du_policy c) ! xs_index s"
      "t = s\<lparr>xs_next_tick := du_tick c, xs_attempted := xs_attempted s + 1, xs_failed := xs_failed s + 1,
         xs_retry := xs_retry s + 1, xs_last_candidate := Some candidate, xs_last_action := Some instance_id\<rparr>"
    | (advance) control pg sd where "du_control c = Some control"
      "completed_activity_progress c s ok pf (xs_attempted s + 1) = Inr pg"
      "next_activity_schedule env c s control pg = Some (Inr sd)"
      "t = s\<lparr>xs_lifecycle := sd_lifecycle sd, xs_next_tick := sd_next_tick sd, xs_attempted := xs_attempted s + 1,
         xs_succeeded := xs_succeeded s + (if ok then 1 else 0), xs_failed := xs_failed s + (if ok then 0 else 1),
         xs_occurrence := pg_occurrence pg, xs_retry := 0, xs_burst_position := sd_burst_position sd,
         xs_burst_size := sd_burst_size sd, xs_last_candidate := Some (pg_candidate pg),
         xs_completed := pg_completed pg, xs_cooldowns := pg_cooldowns pg, xs_last_action := Some instance_id,
         xs_timing := sd_timing sd\<rparr>"
proof -
  obtain control retryable where c: "du_control c = Some control"
    and r: "activity_attempt_is_retryable c s ok fc pf (xs_attempted s + 1) = Inr retryable"
    using assms by (auto simp: next_activity_occurrence_state_def Let_def run_bind_Inr split: option.splits)
  show ?thesis
  proof (cases retryable)
    case True
    then have "\<not> ok" "\<not> pf" "xs_attempted s + 1 < ap_max_attempts (du_policy c)"
      using r by (auto simp: activity_attempt_is_retryable_def res_bind_Inr_iff split: if_splits)
    with True assms c r show ?thesis
      by (intro retry) (auto simp: next_activity_occurrence_state_def Let_def activity_retry_state_def res_bind_Inr_iff)
  next
    case False
    with assms c r show ?thesis
      by (auto simp: next_activity_occurrence_state_def Let_def run_bind_Inr intro!: advance)
  qed
qed

lemma completed_progress_Inr:
  "completed_activity_progress c s ok pf attempted = Inr pg \<longleftrightarrow>
     xs_index s < length (ap_candidates (du_policy c)) \<and> xs_index s < length (ap_cooldowns (du_policy c)) \<and>
     pg = \<lparr>pg_candidate = ap_candidates (du_policy c) ! xs_index s,
           pg_completed = (if ok \<and> ap_candidates (du_policy c) ! xs_index s \<notin> set (xs_completed s)
              then xs_completed s @ [ap_candidates (du_policy c) ! xs_index s] else xs_completed s),
           pg_cooldowns = dict_set (ap_candidates (du_policy c) ! xs_index s)
              (du_tick c + ap_cooldowns (du_policy c) ! xs_index s) (xs_cooldowns s),
           pg_occurrence = xs_occurrence s + 1,
           pg_lifecycle =
             (if pf \<or> (\<not> ok \<and> ap_failure_policy (du_policy c) = ''stop'') then EXEC_FAILED
              else if ap_max_occurrences (du_policy c) \<le> xs_occurrence s + 1 \<or> ap_max_attempts (du_policy c) \<le> attempted
              then EXEC_COMPLETED else xs_lifecycle s)\<rparr>"
  by (auto simp: completed_activity_progress_def Let_def res_bind_Inr_iff)

lemma next_occurrence_identity:
  "next_activity_occurrence_state env c s instance_id ok fc pf = Some (Inr t) \<Longrightarrow> same_identity s t"
  by (erule next_occurrence_cases) (simp_all add: same_identity_def)

lemma next_occurrence_accepted:
  assumes run: "next_activity_occurrence_state env c s instance_id ok fc pf = Some (Inr t)"
    and c: "due_context_ok c" and s: "state_accepted s" and idle: "xs_in_flight s = 0"
  shows "state_accepted t"
proof -
  have same: "same_identity s t" by (rule next_occurrence_identity [OF run])
  from s have shape: "state_shape_ok s" and counts: "xs_succeeded s + xs_failed s = xs_attempted s"
    "distinct (xs_completed s)" "xs_retry s \<le> xs_attempted s"
    using idle by (auto simp: state_accepted_iff check_activity_state_Inr state_accounting_violations_def split: if_splits)
  have "state_shape_ok t \<and> xs_succeeded t + xs_failed t = xs_attempted t \<and> distinct (xs_completed t) \<and>
      xs_retry t \<le> xs_attempted t"
    using run
  proof (cases rule: next_occurrence_cases)
    case (retry candidate)
    then show ?thesis using shape counts c by (simp add: state_shape_ok_def due_context_ok_def)
  next
    case (advance control pg sd)
    note pg = advance(2) [unfolded completed_progress_Inr]
    have b: "0 \<le> xs_burst_position s" "1 \<le> xs_burst_size s" using shape by (simp_all add: state_shape_ok_def)
    note sd = next_schedule_facts(1-3) [OF advance(3) c b]
    have "ap_candidates (du_policy c) ! xs_index s \<noteq> []"
      using pg c by (auto simp: due_context_ok_def activity_policy_ok_def list_all_length)
    with pg have "distinct (pg_completed pg)" "list_all (\<lambda>c. c \<noteq> []) (pg_completed pg)"
      "list_all (\<lambda>c. c \<noteq> []) (dict_keys (pg_cooldowns pg))"
      using shape counts(2) by (auto simp: state_shape_ok_def list_all_iff)
    then show ?thesis
      using advance(4) shape counts sd c pg by (simp add: state_shape_ok_def due_context_ok_def)
  qed
  with s same show ?thesis
    by (auto simp: state_accepted_iff check_activity_state_Inr same_identity_def state_address_violations_def
        state_accounting_violations_def idle split: if_splits)
qed

end
