(* ===== verification/Activity_Runs.thy ===== *)
theory Activity_Runs
  imports Activity_Steps
begin

text \<open>
  Runs of one participant: sequences of attempts, waits and clock resets as an inductive relation
  labelled with the attempts executed (identity, tick, and whether the attempt was settled), and
  the invariants of a run by rule induction: the snapshot accepts every state, the limits of the
  policy hold, the position (segment, occurrence, retry) moves forward, and attempts fall into
  open windows.
\<close>

section \<open>Runs\<close>

definition attempt_identity :: "due_context \<Rightarrow> activity_state \<Rightarrow> string" where
  "attempt_identity c s =
     activity_attempt_id (ap_address (du_policy c)) (du_participant c) (xs_episode s) (xs_segment s)
       (xs_occurrence s) (xs_retry s)"

text \<open>
  An executed attempt is settled when the next state of the participant records it. It stays
  unsettled when the action ran but its result was not accepted for settlement: under
  \<open>execution/v3\<close> an untrusted measurement vector or a refused commit of the resources ends the
  pass and leaves the state as it was (\<open>commit_activity_resources\<close> answers false), so that the
  next pass starts from the same state again.
\<close>

type_synonym attempt = "string \<times> int \<times> bool"

abbreviation attempt_name :: "attempt \<Rightarrow> string" where "attempt_name \<equiv> fst"
abbreviation attempt_tick :: "attempt \<Rightarrow> int" where "attempt_tick a \<equiv> fst (snd a)"
abbreviation attempt_settled :: "attempt \<Rightarrow> bool" where "attempt_settled a \<equiv> snd (snd a)"

inductive activity_run ::
  "random_env \<Rightarrow> due_context \<Rightarrow> activity_state \<Rightarrow> attempt list \<Rightarrow> activity_state \<Rightarrow> bool"
  for env :: random_env and c :: due_context where
  stop: "activity_run env c s [] s"
| attempt: "activity_action_is_due (c\<lparr>du_tick := tick\<rparr>) s False \<Longrightarrow> 0 \<le> tick \<Longrightarrow>
    selected_activity_index env (c\<lparr>du_tick := tick\<rparr>) s = Inr (Some i) \<Longrightarrow>
    next_activity_occurrence_state env (c\<lparr>du_tick := tick\<rparr>) (s\<lparr>xs_index := i\<rparr>) (attempt_identity c s) ok fc pf =
      Some (Inr t) \<Longrightarrow>
    activity_run env c t later u \<Longrightarrow> activity_run env c s ((attempt_identity c s, tick, True) # later) u"
| unsettled: "activity_action_is_due (c\<lparr>du_tick := tick\<rparr>) s False \<Longrightarrow> 0 \<le> tick \<Longrightarrow>
    selected_activity_index env (c\<lparr>du_tick := tick\<rparr>) s = Inr (Some i) \<Longrightarrow>
    activity_run env c s later u \<Longrightarrow> activity_run env c s ((attempt_identity c s, tick, False) # later) u"
| wait: "activity_action_is_due (c\<lparr>du_tick := tick\<rparr>) s False \<Longrightarrow> 0 \<le> tick \<Longrightarrow>
    selected_activity_index env (c\<lparr>du_tick := tick\<rparr>) s = Inr None \<Longrightarrow>
    empty_activity_state env (c\<lparr>du_tick := tick\<rparr>) s = Some (Inr t) \<Longrightarrow>
    activity_run env c t later u \<Longrightarrow> activity_run env c s later u"

text \<open>Runs across resets of the clock, each of which opens a later segment.\<close>

inductive activity_life ::
  "random_env \<Rightarrow> due_context \<Rightarrow> activity_state \<Rightarrow> attempt list \<Rightarrow> activity_state \<Rightarrow> bool"
  for env :: random_env and c :: due_context where
  run: "activity_run env c s attempts t \<Longrightarrow> activity_life env c s attempts t"
| reset: "activity_run env c s attempts t \<Longrightarrow> 0 \<le> tick \<Longrightarrow> xs_segment t < segment \<Longrightarrow> episode \<noteq> [] \<Longrightarrow>
    reset_activity_state env (c\<lparr>du_tick := tick\<rparr>) control episode segment t = Some (Inr t') \<Longrightarrow>
    activity_life env c t' later u \<Longrightarrow> activity_life env c s (attempts @ later) u"

section \<open>Single steps\<close>

lemma empty_state_cases:
  assumes "empty_activity_state env c s = Some (Inr t)"
  obtains (closed) "t = s\<lparr>xs_lifecycle := EXEC_COMPLETED, xs_next_tick := du_tick c\<rparr>"
    | (scheduled) control timing next_tick where "du_control c = Some control"
      "next_activity_timing env (draw_context_of c control (xs_segment s) (xs_occurrence s)) (du_time c) (du_tick c) =
        Some (Inr timing)"
      "ts_tick timing = Some next_tick" "t = s\<lparr>xs_lifecycle := EXEC_RUNNING, xs_next_tick := next_tick\<rparr>"
  using assms unfolding empty_activity_state_def
  by (auto simp: run_bind_Inr split: if_splits option.splits)

lemma opened_draw_eligible:
  assumes "next_activity_timing env (draw_context_of c control segment ordinal) (du_time c) tick = Some (Inr timing)"
    and "due_context_ok c" and "ts_tick timing = Some t"
  shows "tick \<le> t" and "activity_tick_is_eligible (du_policy c) (du_time c) t = Inr True"
proof -
  let ?draws = "draw_context_of c control segment ordinal"
  have p: "dc_policy ?draws = du_policy c" by (simp add: draw_context_of_def)
  have ok: "policy_step_ok (dc_policy ?draws) (du_time c)" using assms(2) p by (simp add: due_context_ok_def)
  show "tick \<le> t"
    using next_timing_forward [OF assms(1) ok _ assms(3)] assms(2) p
    by (simp add: due_context_ok_def activity_policy_ok_def)
  show "activity_tick_is_eligible (du_policy c) (du_time c) t = Inr True"
    using assms(1) ok
  proof (cases rule: next_timing_cases)
    case (drawn step u)
    with assms(3) p show ?thesis by simp
  next
    case (skipped step u)
    with assms(3) show ?thesis by simp
  next
    case (reopened step u r work pauses)
    with assms(3) eligible_ranges [of "du_policy c" "du_time c" work pauses t] p show ?thesis
      by (simp add: is_next_opening_def)
  qed
qed

lemma due_tick_simps [simp]:
  "du_policy (c\<lparr>du_tick := t\<rparr>) = du_policy c" "du_time (c\<lparr>du_tick := t\<rparr>) = du_time c"
  "du_participant (c\<lparr>du_tick := t\<rparr>) = du_participant c" "du_control (c\<lparr>du_tick := t\<rparr>) = du_control c"
  by simp_all

lemma due_context_at: "due_context_ok c \<Longrightarrow> 0 \<le> tick \<Longrightarrow> due_context_ok (c\<lparr>du_tick := tick\<rparr>)"
  by (simp add: due_context_ok_def)

lemma index_irrelevant [simp]: "state_accepted (s\<lparr>xs_index := i\<rparr>) \<longleftrightarrow> state_accepted s"
  by (simp add: state_accepted_iff check_activity_state_Inr state_shape_ok_def state_address_violations_def
      state_accounting_violations_def)

lemma empty_state_accepted:
  assumes "empty_activity_state env c s = Some (Inr t)" and "due_context_ok c" and "state_accepted s"
    and "xs_in_flight s = 0"
  shows "state_accepted t"
  using assms(1)
proof (cases rule: empty_state_cases)
  case closed
  with assms(2-4) show ?thesis
    by (auto simp: state_accepted_iff check_activity_state_Inr state_shape_ok_def state_address_violations_def
        state_accounting_violations_def due_context_ok_def)
next
  case (scheduled control timing n)
  have "du_tick c \<le> n" using opened_draw_eligible(1) [OF scheduled(2) assms(2) scheduled(3)] .
  with assms(2-4) scheduled(4) show ?thesis
    by (auto simp: state_accepted_iff check_activity_state_Inr state_shape_ok_def state_address_violations_def
        state_accounting_violations_def due_context_ok_def)
qed

lemma opening_draws_cases:
  assumes "opening_draws env c control segment = Some (Inr (burst, timing))"
  shows "1 \<le> burst"
    and "next_activity_timing env (draw_context_of c control segment 0) (du_time c) (du_tick c) = Some (Inr timing)"
  using assms by (auto simp: opening_draws_def Let_def run_bind_Inr dest: draw_activity_integer_range)

lemma reset_state_accepted:
  assumes "reset_activity_state env c control episode segment s = Some (Inr t)" and "due_context_ok c"
    and "state_accepted s" and "episode \<noteq> []" and "0 \<le> segment"
  shows "state_accepted t"
proof -
  obtain burst timing where d: "opening_draws env c control segment = Some (Inr (burst, timing))"
    and t: "t = s\<lparr>xs_episode := episode, xs_lifecycle := EXEC_RUNNING, xs_segment := segment,
           xs_next_tick := (case ts_tick timing of None \<Rightarrow> du_tick c | Some t \<Rightarrow> t),
           xs_index := 0, xs_attempted := 0, xs_succeeded := 0, xs_failed := 0, xs_in_flight := 0,
           xs_last_action := None, xs_occurrence := 0, xs_retry := 0, xs_burst_position := 0,
           xs_last_candidate := None, xs_completed := [], xs_cooldowns := [], xs_burst_size := burst,
           xs_timing := ts_disposition timing\<rparr>"
    using assms(1) by (auto simp: reset_activity_state_def run_bind_Inr)
  have "0 \<le> (case ts_tick timing of None \<Rightarrow> du_tick c | Some t \<Rightarrow> t)"
    using opened_draw_eligible(1) [OF opening_draws_cases(2) [OF d] assms(2)] assms(2)
    by (fastforce simp: due_context_ok_def split: option.splits)
  with opening_draws_cases(1) [OF d] assms(3-5) t show ?thesis
    by (auto simp: state_accepted_iff check_activity_state_Inr state_shape_ok_def state_address_violations_def
        state_accounting_violations_def dict_keys_def)
qed

section \<open>Invariants of runs\<close>

lemma run_accepted:
  assumes "activity_run env c s attempts u" and "due_context_ok c" and "state_accepted s"
  shows "state_accepted u"
  using assms(1,3)
proof (induction rule: activity_run.induct)
  case (stop s)
  then show ?case .
next
  case (attempt tick s i ok fc pf t later u)
  have "state_accepted t"
    using next_occurrence_accepted [OF attempt.hyps(4) due_context_at [OF assms(2) attempt.hyps(2)]]
      attempt.hyps(1) attempt.prems by (simp add: activity_action_is_due_def)
  then show ?case by (rule attempt.IH)
next
  case (unsettled tick s i later u)
  then show ?case by blast
next
  case (wait tick s t later u)
  have "state_accepted t"
    using empty_state_accepted [OF wait.hyps(4) due_context_at [OF assms(2) wait.hyps(2)] wait.prems]
      wait.hyps(1) by (simp add: activity_action_is_due_def)
  then show ?case by (rule wait.IH)
qed

text \<open>The position of a state, and that it only moves forward.\<close>

definition position :: "activity_state \<Rightarrow> int \<times> int \<times> int" where
  "position s = (xs_segment s, xs_occurrence s, xs_retry s)"

lemma next_occurrence_position:
  "next_activity_occurrence_state env c s instance_id ok fc pf = Some (Inr t) \<Longrightarrow> position s < position t"
  by (erule next_occurrence_cases) (simp_all add: position_def completed_progress_Inr)

lemma empty_state_position: "empty_activity_state env c s = Some (Inr t) \<Longrightarrow> position t = position s"
  by (erule empty_state_cases) (simp_all add: position_def)

lemma run_position: "activity_run env c s attempts u \<Longrightarrow> position s \<le> position u"
proof (induction rule: activity_run.induct)
  case (stop s)
  show ?case by simp
next
  case (attempt tick s i ok fc pf t later u)
  have "position (s\<lparr>xs_index := i\<rparr>) < position t" by (rule next_occurrence_position [OF attempt.hyps(4)])
  then have "position s < position t" by (simp add: position_def)
  then show ?case using attempt.IH by (blast intro: less_imp_le less_le_trans)
next
  case (unsettled tick s i later u)
  then show ?case by blast
next
  case (wait tick s t later u)
  then show ?case using empty_state_position [OF wait.hyps(4)] by simp
qed

section \<open>Identities\<close>

lemma attempt_id_position:
  assumes "activity_attempt_id p a e s o' r = activity_attempt_id p' a' e' s' o'' r'"
  shows "s = s' \<and> o' = o'' \<and> r = r'"
proof -
  let ?x = "p @ '':'' @ a @ '':episode='' @ e @ '':segment''" and ?x' = "p' @ '':'' @ a' @ '':episode='' @ e' @ '':segment''"
  let ?y = "?x @ ''='' @ int_text s @ '':occurrence''" and ?y' = "?x' @ ''='' @ int_text s' @ '':occurrence''"
  let ?z = "?y @ ''='' @ int_text o' @ '':retry''" and ?z' = "?y' @ ''='' @ int_text o'' @ '':retry''"
  have "?z @ CHR ''='' # int_text r = ?z' @ CHR ''='' # int_text r'"
    using assms by (simp add: activity_attempt_id_def)
  from split_at_last [OF this int_text_plain(1) int_text_plain(1)]
  have r: "int_text r = int_text r'" and z: "?y @ CHR ''='' # int_text o' = ?y' @ CHR ''='' # int_text o''"
    by simp_all
  from split_at_last [OF z int_text_plain(1) int_text_plain(1)]
  have o: "int_text o' = int_text o''" and y: "?x @ CHR ''='' # int_text s = ?x' @ CHR ''='' # int_text s'"
    by simp_all
  from split_at_last [OF y int_text_plain(1) int_text_plain(1)] have "int_text s = int_text s'" by simp
  with r o show ?thesis by (blast intro: int_text_inj)
qed

definition identity_from :: "due_context \<Rightarrow> (int \<times> int \<times> int) \<Rightarrow> string \<Rightarrow> bool" where
  "identity_from c lo name \<longleftrightarrow> (\<exists>s. name = attempt_identity c s \<and> lo \<le> position s)"

lemma identity_from_mono: "identity_from c lo name \<Longrightarrow> lo' \<le> lo \<Longrightarrow> identity_from c lo' name"
  unfolding identity_from_def by (blast intro: order_trans)

lemma identity_fresh: "identity_from c lo name \<Longrightarrow> position s < lo \<Longrightarrow> name \<noteq> attempt_identity c s"
  unfolding identity_from_def attempt_identity_def position_def
  by (auto dest!: attempt_id_position)

text \<open>
  Once an attempt is settled its identity is spent: later attempts have others. Unsettled attempts
  may share theirs with the attempt that follows.
\<close>

definition identities_spent :: "attempt list \<Rightarrow> bool" where
  "identities_spent = sorted_wrt (\<lambda>a b. attempt_settled a \<longrightarrow> attempt_name a \<noteq> attempt_name b)"

lemma identities_spent_simps [simp]:
  "identities_spent []"
  "identities_spent (a # as) \<longleftrightarrow> (attempt_settled a \<longrightarrow> attempt_name a \<notin> attempt_name ` set as) \<and> identities_spent as"
  by (auto simp: identities_spent_def)

lemma identities_spent_append:
  "identities_spent as \<Longrightarrow> identities_spent bs \<Longrightarrow> attempt_name ` set as \<inter> attempt_name ` set bs = {} \<Longrightarrow>
     identities_spent (as @ bs)"
  by (induction as) auto

lemma identities_spent_nth:
  "identities_spent as \<Longrightarrow> i < j \<Longrightarrow> j < length as \<Longrightarrow> attempt_settled (as ! i) \<Longrightarrow>
     attempt_name (as ! i) \<noteq> attempt_name (as ! j)"
  by (simp add: identities_spent_def sorted_wrt_iff_nth_less)

text \<open>
  The identities of a run lie between the positions of its first and its last state; where it
  ends, only an unsettled attempt of the last state is possible.
\<close>

lemma run_identities:
  assumes "activity_run env c s attempts u"
  shows "identities_spent attempts \<and>
    (\<forall>name \<in> attempt_name ` set attempts. identity_from c (position s) name \<and>
       (\<exists>r. name = attempt_identity c r \<and> position r \<le> position u))"
  using assms
proof (induction rule: activity_run.induct)
  case (stop s)
  show ?case by simp
next
  case (attempt tick s i ok fc pf t later u)
  have "position (s\<lparr>xs_index := i\<rparr>) < position t" by (rule next_occurrence_position [OF attempt.hyps(4)])
  then have less: "position s < position t" by (simp add: position_def)
  have "position s \<le> position u" using less run_position [OF attempt.hyps(5)] by (blast intro: less_imp_le less_le_trans)
  moreover have "attempt_identity c s \<notin> attempt_name ` set later" using attempt.IH identity_fresh [OF _ less] by blast
  moreover have "identity_from c (position s) (attempt_identity c s)" unfolding identity_from_def by blast
  moreover have "\<forall>name \<in> attempt_name ` set later. identity_from c (position s) name"
    using attempt.IH identity_from_mono less_imp_le [OF less] by blast
  ultimately show ?case using attempt.IH by auto
next
  case (unsettled tick s i later u)
  have "identity_from c (position s) (attempt_identity c s)" unfolding identity_from_def by blast
  moreover have "position s \<le> position u" by (rule run_position [OF unsettled.hyps(4)])
  ultimately show ?case using unsettled.IH by auto
next
  case (wait tick s t later u)
  then show ?case using empty_state_position [OF wait.hyps(4)] by simp
qed

lemma reset_position:
  "reset_activity_state env c control episode segment s = Some (Inr t) \<Longrightarrow> xs_segment s < segment \<Longrightarrow>
     position s < position t"
  by (auto simp: reset_activity_state_def run_bind_Inr position_def)

lemma life_identities:
  assumes "activity_life env c s attempts u"
  shows "identities_spent attempts \<and> (\<forall>name \<in> attempt_name ` set attempts. identity_from c (position s) name)"
  using assms
proof (induction rule: activity_life.induct)
  case (run s attempts t)
  then show ?case using run_identities by blast
next
  case (reset s attempts t tick segment episode control t' later u)
  note ids = run_identities [OF reset.hyps(1)]
  have less: "position t < position t'" by (rule reset_position [OF reset.hyps(5,3)])
  have "position s \<le> position t'" using run_position [OF reset.hyps(1)] less by (blast intro: less_imp_le order_trans)
  then have "\<forall>name \<in> attempt_name ` set later. identity_from c (position s) name"
    using reset.IH identity_from_mono by blast
  moreover have "attempt_name ` set attempts \<inter> attempt_name ` set later = {}"
  proof (rule ccontr)
    assume "attempt_name ` set attempts \<inter> attempt_name ` set later \<noteq> {}"
    then obtain name where n: "name \<in> attempt_name ` set attempts" "name \<in> attempt_name ` set later" by blast
    obtain r where r: "name = attempt_identity c r" "position r \<le> position t" using ids n(1) by blast
    have "position r < position t'" using r(2) less by (rule le_less_trans)
    moreover have "identity_from c (position t') name" using reset.IH n(2) by blast
    ultimately show False using identity_fresh r(1) by blast
  qed
  ultimately show ?case using ids reset.IH by (auto simp: image_Un identities_spent_append)
qed

section \<open>Limits and windows\<close>

definition limits_ok :: "activity_policy \<Rightarrow> activity_state \<Rightarrow> bool" where
  "limits_ok p s \<longleftrightarrow>
     xs_attempted s \<le> ap_max_attempts p \<and> xs_occurrence s \<le> ap_max_occurrences p \<and>
     (xs_lifecycle s = EXEC_RUNNING \<longrightarrow>
        xs_attempted s < ap_max_attempts p \<and> xs_occurrence s < ap_max_occurrences p)"

lemma schedule_lifecycle:
  assumes "next_activity_schedule env c s control pg = Some (Inr sd)"
  shows "sd_lifecycle sd = EXEC_RUNNING \<Longrightarrow> pg_lifecycle pg = EXEC_RUNNING"
  using assms by (auto simp: next_activity_schedule_def Let_def run_bind_Inr split: if_splits option.splits)

lemma next_occurrence_limits:
  assumes "next_activity_occurrence_state env c s instance_id ok fc pf = Some (Inr t)"
    and "limits_ok (du_policy c) s" and "xs_lifecycle s = EXEC_RUNNING"
  shows "limits_ok (du_policy c) t \<and> xs_attempted t = xs_attempted s + 1"
  using assms(1)
proof (cases rule: next_occurrence_cases)
  case (retry candidate)
  with assms(2,3) show ?thesis by (simp add: limits_ok_def)
next
  case (advance control pg sd)
  have "sd_lifecycle sd = EXEC_RUNNING \<Longrightarrow>
      xs_occurrence s + 1 < ap_max_occurrences (du_policy c) \<and> xs_attempted s + 1 < ap_max_attempts (du_policy c)"
    using schedule_lifecycle [OF advance(3)] advance(2)
    by (auto simp: completed_progress_Inr split: if_splits)
  moreover have "pg_occurrence pg = xs_occurrence s + 1" using advance(2) by (simp add: completed_progress_Inr)
  ultimately show ?thesis using advance(4) assms(2,3) by (simp add: limits_ok_def)
qed

lemma run_limits:
  assumes "activity_run env c s attempts u" and "limits_ok (du_policy c) s"
  shows "limits_ok (du_policy c) u \<and> int (length (filter attempt_settled attempts)) = xs_attempted u - xs_attempted s"
  using assms
proof (induction rule: activity_run.induct)
  case (stop s)
  then show ?case by simp
next
  case (attempt tick s i ok fc pf t later u)
  have "limits_ok (du_policy (c\<lparr>du_tick := tick\<rparr>)) (s\<lparr>xs_index := i\<rparr>)" "xs_lifecycle (s\<lparr>xs_index := i\<rparr>) = EXEC_RUNNING"
    using attempt.hyps(1) attempt.prems by (simp_all add: activity_action_is_due_def limits_ok_def)
  from next_occurrence_limits [OF attempt.hyps(4) this]
  have "limits_ok (du_policy c) t \<and> xs_attempted t = xs_attempted s + 1" by simp
  with attempt.IH show ?case by simp
next
  case (unsettled tick s i later u)
  then show ?case by simp
next
  case (wait tick s t later u)
  have "limits_ok (du_policy c) t \<and> xs_attempted t = xs_attempted s"
    using wait.hyps(4,1) wait.prems
    by (cases rule: empty_state_cases) (auto simp: limits_ok_def activity_action_is_due_def)
  with wait.IH show ?case by simp
qed

text \<open>A running state is scheduled at an open tick.\<close>

definition scheduled_open :: "due_context \<Rightarrow> activity_state \<Rightarrow> bool" where
  "scheduled_open c s \<longleftrightarrow>
     (xs_lifecycle s = EXEC_RUNNING \<longrightarrow>
        activity_tick_is_eligible (du_policy c) (du_time c) (xs_next_tick s) = Inr True)"

definition burst_ok :: "activity_state \<Rightarrow> bool" where
  "burst_ok s \<longleftrightarrow> 0 \<le> xs_burst_position s \<and> 1 \<le> xs_burst_size s"

lemma next_occurrence_open:
  assumes "next_activity_occurrence_state env c s instance_id ok fc pf = Some (Inr t)"
    and "due_context_ok c" and "burst_ok s" and "scheduled_open c s"
    and "xs_lifecycle s = EXEC_RUNNING" and "xs_next_tick s = du_tick c"
  shows "scheduled_open c t \<and> burst_ok t"
  using assms(1)
proof (cases rule: next_occurrence_cases)
  case (retry candidate)
  with assms(3-6) show ?thesis by (simp add: scheduled_open_def burst_ok_def)
next
  case (advance control pg sd)
  have b: "0 \<le> xs_burst_position s" "1 \<le> xs_burst_size s" using assms(3) by (simp_all add: burst_ok_def)
  show ?thesis
    using next_schedule_facts(2,3,5) [OF advance(3) assms(2) b] advance(4) assms(4-6)
    by (auto simp: scheduled_open_def burst_ok_def)
qed

lemma scheduled_open_at [simp]: "scheduled_open (c\<lparr>du_tick := t\<rparr>) s \<longleftrightarrow> scheduled_open c s"
  by (simp add: scheduled_open_def)

lemma run_open:
  assumes "activity_run env c s attempts u" and "due_context_ok c" and "burst_ok s" and "scheduled_open c s"
  shows "(\<forall>a \<in> set attempts. activity_tick_is_eligible (du_policy c) (du_time c) (attempt_tick a) = Inr True) \<and>
    scheduled_open c u"
  using assms(1,3,4)
proof (induction rule: activity_run.induct)
  case (stop s)
  then show ?case by simp
next
  case (attempt tick s i ok fc pf t later u)
  have due: "xs_lifecycle s = EXEC_RUNNING" "xs_next_tick s = tick"
    using attempt.hyps(1) by (simp_all add: activity_action_is_due_def)
  have "scheduled_open (c\<lparr>du_tick := tick\<rparr>) t \<and> burst_ok t"
    using next_occurrence_open [OF attempt.hyps(4) due_context_at [OF assms(2) attempt.hyps(2)]] due attempt.prems
    by (simp add: burst_ok_def scheduled_open_def)
  with attempt.IH attempt.prems due show ?case by (simp add: scheduled_open_def)
next
  case (unsettled tick s i later u)
  have "xs_lifecycle s = EXEC_RUNNING" "xs_next_tick s = tick"
    using unsettled.hyps(1) by (simp_all add: activity_action_is_due_def)
  with unsettled.IH unsettled.prems show ?case by (simp add: scheduled_open_def)
next
  case (wait tick s t later u)
  have "scheduled_open c t \<and> burst_ok t"
    using wait.hyps(4)
  proof (cases rule: empty_state_cases)
    case closed
    with wait.prems show ?thesis by (simp add: scheduled_open_def burst_ok_def)
  next
    case (scheduled control timing n)
    with opened_draw_eligible(2) [OF scheduled(2) due_context_at [OF assms(2) wait.hyps(2)] scheduled(3)] wait.prems
    show ?thesis by (simp add: scheduled_open_def burst_ok_def)
  qed
  with wait.IH show ?case by simp
qed

lemma initial_state_cases:
  assumes "initial_activity_state env c control profile digest episode implementation clock segment = Some (Inr s)"
    and "due_context_ok c"
  shows "check_activity_state s = Inr ()" and "scheduled_open c s" and "burst_ok s"
    and "xs_attempted s = 0" and "xs_occurrence s = 0"
proof -
  obtain burst timing where d: "opening_draws env c control segment = Some (Inr (burst, timing))"
    and s: "check_activity_state s = Inr ()" "xs_attempted s = 0" "xs_occurrence s = 0"
      "xs_lifecycle s = (if ts_tick timing = None then EXEC_COMPLETED else EXEC_RUNNING)"
      "xs_next_tick s = (case ts_tick timing of None \<Rightarrow> du_tick c | Some t \<Rightarrow> t)"
      "xs_burst_position s = 0" "xs_burst_size s = burst"
    using assms(1) by (auto simp: initial_activity_state_def run_bind_Inr Let_def res_bind_Inr_iff)
  show "check_activity_state s = Inr ()" "xs_attempted s = 0" "xs_occurrence s = 0" by (fact s)+
  show "burst_ok s" using opening_draws_cases(1) [OF d] s by (simp add: burst_ok_def)
  show "scheduled_open c s"
    using opened_draw_eligible(2) [OF opening_draws_cases(2) [OF d] assms(2)] s
    by (auto simp: scheduled_open_def split: option.splits)
qed

section \<open>Selection\<close>

lemma select_candidate_member:
  "select_activity_candidate env c eligible = Inr (Some i) \<Longrightarrow> i \<in> set eligible"
proof -
  have pick: "pick_weighted ws sel cursor ks = Inr j \<Longrightarrow> j \<in> set ks" for ws sel cursor ks j
    by (induction ws sel cursor ks rule: pick_weighted.induct) (auto simp: res_bind_Inr_iff split: if_splits)
  show "select_activity_candidate env c eligible = Inr (Some i) \<Longrightarrow> ?thesis"
    by (auto simp: select_activity_candidate_def res_bind_Inr_iff split: if_splits dest: pick)
qed

lemma select_candidate_none: "select_activity_candidate env c eligible = Inr None \<longleftrightarrow> eligible = []"
  by (auto simp: select_activity_candidate_def res_bind_Inr_iff)

definition candidate_eligible :: "activity_policy \<Rightarrow> activity_state \<Rightarrow> int \<Rightarrow> nat \<Rightarrow> bool" where
  "candidate_eligible p s tick i \<longleftrightarrow>
     i < length (ap_candidates p) \<and> set (ap_dependencies p ! i) \<subseteq> set (xs_completed s) \<and>
     (case dict_get (xs_cooldowns s) (ap_candidates p ! i) of None \<Rightarrow> 0 | Some t \<Rightarrow> t) \<le> tick"

lemma eligible_indices_iff:
  assumes "activity_eligible_indices p s tick = Inr ks"
  shows "ks = filter (candidate_eligible p s tick) [0..<length (ap_candidates p)]"
proof -
  let ?ok = "\<lambda>i. set (ap_dependencies p ! i) \<subseteq> set (xs_completed s) \<and>
       (case dict_get (xs_cooldowns s) (ap_candidates p ! i) of None \<Rightarrow> 0 | Some t \<Rightarrow> t) \<le> tick"
  obtain flags where f: "list_all2 (\<lambda>i y. i < length (ap_candidates p) \<and> i < length (ap_dependencies p) \<and> (i, ?ok i) = y)
      [0..<length (ap_candidates p)] flags" and ks: "ks = map fst (filter snd flags)"
    using assms by (auto simp: activity_eligible_indices_def res_bind_Inr_iff res_map_Inr)
  have "flags = map (\<lambda>i. (i, ?ok i)) [0..<length (ap_candidates p)]"
    using f by (auto simp: list_all2_conv_all_nth intro!: nth_equalityI)
  then have "ks = filter ?ok [0..<length (ap_candidates p)]" using ks by (simp add: filter_map comp_def)
  also have "\<dots> = filter (candidate_eligible p s tick) [0..<length (ap_candidates p)]"
    by (rule filter_cong) (auto simp: candidate_eligible_def)
  finally show ?thesis .
qed

text \<open>The weighted choice splits the range of the draw into one interval per candidate.\<close>

lemma pick_weighted_share:
  assumes "distinct ks" and "\<forall>k \<in> set ks. k < length ws \<and> 0 \<le> ws ! k"
  shows "card {sel. cursor \<le> sel \<and> sel < cursor + sum_list (map ((!) ws) ks) \<and> pick_weighted ws sel cursor ks = Inr i} =
    (if i \<in> set ks then nat (ws ! i) else 0)"
  using assms
proof (induction ks arbitrary: cursor)
  case Nil
  show ?case by simp
next
  case (Cons k ks)
  let ?w = "ws ! k" and ?rest = "sum_list (map ((!) ws) ks)"
  let ?later = "{sel. cursor + ?w \<le> sel \<and> sel < cursor + ?w + ?rest \<and> pick_weighted ws sel (cursor + ?w) ks = Inr i}"
  have k: "k < length ws" "0 \<le> ?w" using Cons.prems by auto
  have later: "card ?later = (if i \<in> set ks then nat (ws ! i) else 0)" using Cons by simp
  have fin: "finite ?later" by (rule finite_subset [of _ "{cursor + ?w..<cursor + ?w + ?rest}"]) auto
  have nonneg: "0 \<le> ?rest" using Cons.prems(2) by (intro sum_list_nonneg) auto
  have split: "{sel. cursor \<le> sel \<and> sel < cursor + sum_list (map ((!) ws) (k # ks)) \<and>
      pick_weighted ws sel cursor (k # ks) = Inr i} =
      (if k = i then {cursor..<cursor + ?w} else {}) \<union> ?later"
    using k nonneg by (auto simp: py_index_def split: if_splits)
  have "{cursor..<cursor + ?w} \<inter> ?later = {}" by auto
  with split later fin Cons.prems(1) show ?case by (auto simp: card_Un_disjoint)
qed

lemma pick_weighted_resolves:
  "\<forall>k \<in> set ks. k < length ws \<Longrightarrow> sel < cursor + sum_list (map ((!) ws) ks) \<Longrightarrow> ks \<noteq> [] \<or> cursor \<le> sel \<Longrightarrow>
     \<exists>i. pick_weighted ws sel cursor ks = Inr i"
proof (induction ks arbitrary: cursor)
  case Nil
  then show ?case by simp
next
  case (Cons k ks)
  then show ?case using Cons.IH [of "cursor + ws ! k"] by (auto simp: py_index_def)
qed

lemma life_accepted:
  assumes "activity_life env c s attempts u" and "due_context_ok c" and "state_accepted s"
  shows "state_accepted u"
  using assms(1,3)
proof (induction rule: activity_life.induct)
  case (run s attempts t)
  then show ?case using run_accepted assms(2) by blast
next
  case (reset s attempts t tick segment episode control t' later u)
  have t: "state_accepted t" using run_accepted [OF reset.hyps(1) assms(2) reset.prems] .
  then have "0 \<le> segment"
    using reset.hyps(3) by (simp add: state_accepted_iff check_activity_state_Inr state_shape_ok_def)
  with reset_state_accepted [OF reset.hyps(5) due_context_at [OF assms(2) reset.hyps(2)] t reset.hyps(4)]
  show ?case using reset.IH by blast
qed

end
