(* ===== verification/Activity_Claims.thy ===== *)
theory Activity_Claims
  imports Activity_Runs
begin

text \<open>
  The guarantees of participant activity as properties of the code's definitions, and a small
  policy on which they are run: two work windows, one pause, a clock that advances in steps.
\<close>

section \<open>A small policy\<close>

definition act_constraint :: "string \<Rightarrow> int \<Rightarrow> int \<Rightarrow> compiled_constraint" where
  "act_constraint name start final =
     \<lparr>ccn_address = name, ccn_kind = WINDOW, ccn_clock = ''clock.c'', ccn_subjects = [],
      ccn_start_tick = Some start, ccn_start_microstep = None, ccn_end_tick = Some final,
      ccn_end_microstep = None, ccn_duration = None, ccn_cadence = None, ccn_description = []\<rparr>"

definition act_progression :: compiled_policy where
  "act_progression =
     \<lparr>cpl_address = ''policy.p'', cpl_clock = ''clock.c'', cpl_mode = STEPPED, cpl_numerator = 1,
      cpl_denominator = 1, cpl_synchronization = SYNC_NONE, cpl_step = Some 5, cpl_drift = None,
      cpl_reset = RESET_UNSUPPORTED, cpl_replay = REPLAY_UNSUPPORTED, cpl_description = []\<rparr>"

definition act_time :: compiled_time_model where
  "act_time =
     \<lparr>ctm_domains = [], ctm_clocks = [], ctm_mappings = [], ctm_policies = [act_progression],
      ctm_constraints = [act_constraint ''w1'' 0 30, act_constraint ''w2'' 41 60, act_constraint ''p1'' 10 22]\<rparr>"

definition act_policy :: activity_policy where
  "act_policy =
     \<lparr>ap_address = ''participant.autonomous-execution.p'', ap_progression = ''policy.p'',
      ap_work = [''w1'', ''w2''], ap_pause = [''p1''], ap_control_ref = ''c'', ap_minimum_ticks = 5,
      ap_maximum_ticks = 10, ap_outside = ''skip'', ap_empty = ''wait'', ap_candidates = [''a'', ''b''],
      ap_weights = [3, 1], ap_dependencies = [[], [''a'']], ap_retry_classes = [[''timeout''], []],
      ap_max_retries = [2, 0], ap_cooldowns = [5, 0], ap_max_occurrences = 4, ap_max_burst = 1,
      ap_max_attempts = 8, ap_failure_policy = ''stop''\<rparr>"

definition act_control :: random_control where
  "act_control = \<lparr>rc_id = ''c'', rc_profile = participant_profile, rc_namespace = ''n'', rc_key = replicate 32 0\<rparr>"

definition act_context :: due_context where
  "act_context =
     \<lparr>du_policy = act_policy, du_time = act_time, du_participant = ''participant.behavior.a'',
      du_key = ''k'', du_tick = 0, du_control = Some act_control\<rparr>"

lemma act_windows:
  "window_ranges (ap_work act_policy) act_time = Inr [((0, 0), (30, 0)), ((41, 0), (60, 0))]"
  "window_ranges (ap_pause act_policy) act_time = Inr [((10, 0), (22, 0))]"
  by code_simp+

lemma act_step: "progression_step act_policy act_time = Inr (Some 5)"
  by code_simp

lemma act_context_ok: "due_context_ok act_context"
  using act_step
  by (simp add: due_context_ok_def activity_policy_ok_def policy_step_ok_def step_ok_def act_context_def)
    (simp add: act_policy_def)

definition act_digest :: string where
  "act_digest = ''sha256:'' @ replicate 64 CHR ''0''"

definition act_start :: "activity_state res option" where
  "act_start = initial_activity_state demo_env act_context act_control execution_v2 act_digest ''e0''
     ''participant.implementation.i'' ''clock.c'' 0"

definition act_state :: activity_state where
  "act_state =
     \<lparr>xs_policy = ''participant.autonomous-execution.p'', xs_digest = act_digest,
      xs_participant = ''participant.behavior.a'', xs_episode = ''e0'',
      xs_implementation = ''participant.implementation.i'', xs_clock = ''clock.c'', xs_segment = 0,
      xs_lifecycle = EXEC_RUNNING, xs_next_tick = 5, xs_index = 0, xs_attempted = 0, xs_succeeded = 0,
      xs_failed = 0, xs_in_flight = 0, xs_last_action = None, xs_profile = execution_v2, xs_occurrence = 0,
      xs_retry = 0, xs_burst_position = 0, xs_burst_size = 1, xs_timing = DRAWN_TICK, xs_last_candidate = None,
      xs_completed = [], xs_cooldowns = [], xs_random_control = Some ''c'',
      xs_random_profile = Some participant_profile, xs_random_namespace = Some ''n''\<rparr>"

lemma act_start_run: "act_start = Some (Inr act_state)"
  by code_simp

lemma act_state_accepted: "state_accepted act_state"
  by code_simp

definition act_retried :: activity_state where
  "act_retried =
     act_state\<lparr>xs_attempted := 1, xs_failed := 1, xs_retry := 1, xs_last_candidate := Some ''a'',
       xs_last_action := Some (attempt_identity act_context act_state)\<rparr>"

definition act_failed :: activity_state where
  "act_failed =
     act_retried\<lparr>xs_lifecycle := EXEC_FAILED, xs_attempted := 2, xs_failed := 2, xs_retry := 0, xs_occurrence := 1,
       xs_cooldowns := [(''a'', 10)], xs_last_action := Some (attempt_identity act_context act_retried)\<rparr>"

text \<open>A first attempt that fails in a retryable way, and a second one that fails for good.\<close>

lemma act_settled_run:
  "activity_run demo_env act_context act_state
     [(attempt_identity act_context act_state, 5, True), (attempt_identity act_context act_retried, 5, True)] act_failed"
proof (rule activity_run.attempt [where tick = 5 and i = 0 and ok = False and fc = "Some ''timeout''" and pf = False])
  show "activity_action_is_due (act_context\<lparr>du_tick := 5\<rparr>) act_state False" by code_simp
  show "selected_activity_index demo_env (act_context\<lparr>du_tick := 5\<rparr>) act_state = Inr (Some 0)" by code_simp
  show "next_activity_occurrence_state demo_env (act_context\<lparr>du_tick := 5\<rparr>) (act_state\<lparr>xs_index := 0\<rparr>)
      (attempt_identity act_context act_state) False (Some ''timeout'') False = Some (Inr act_retried)" by code_simp
  show "activity_run demo_env act_context act_retried [(attempt_identity act_context act_retried, 5, True)] act_failed"
  proof (rule activity_run.attempt [where tick = 5 and i = 0 and ok = False and fc = None and pf = False])
    show "activity_action_is_due (act_context\<lparr>du_tick := 5\<rparr>) act_retried False" by code_simp
    show "selected_activity_index demo_env (act_context\<lparr>du_tick := 5\<rparr>) act_retried = Inr (Some 0)" by code_simp
    show "next_activity_occurrence_state demo_env (act_context\<lparr>du_tick := 5\<rparr>) (act_retried\<lparr>xs_index := 0\<rparr>)
        (attempt_identity act_context act_retried) False None False = Some (Inr act_failed)" by code_simp
  qed (simp_all add: activity_run.stop)
qed simp

text \<open>The same after an execution whose result was not settled, under the same identity.\<close>

lemma act_run:
  "activity_run demo_env act_context act_state
     [(attempt_identity act_context act_state, 5, False), (attempt_identity act_context act_state, 5, True),
      (attempt_identity act_context act_retried, 5, True)] act_failed"
proof (rule activity_run.unsettled [where tick = 5 and i = 0])
  show "activity_action_is_due (act_context\<lparr>du_tick := 5\<rparr>) act_state False" by code_simp
  show "selected_activity_index demo_env (act_context\<lparr>du_tick := 5\<rparr>) act_state = Inr (Some 0)" by code_simp
qed (simp_all add: act_settled_run)

definition control_resolved :: "random_env \<Rightarrow> stochastic_control \<Rightarrow> random_control option \<Rightarrow> bool" where
  "control_resolved env c entry \<longleftrightarrow>
     (\<exists>binding seed entropy. sc_binding c = Some binding \<and> cb_profile binding = participant_profile \<and>
        cb_entropy binding = PublicSeed seed \<and> decode_public_seed seed = Inr entropy \<and>
        entry = Some \<lparr>rc_id = sc_id c, rc_profile = participant_profile, rc_namespace = cb_namespace binding,
           rc_key = re_derive_key env (derivation_context participant_profile) entropy\<rparr>)"

lemma resolve_control_Inr: "resolve_control env load c = Inr rc \<Longrightarrow> control_resolved env c (Some rc)"
  by (auto simp: resolve_control_def control_resolved_def res_bind_Inr_iff derive_stream_key_def
      split: option.splits root_entropy.splits)

lemma resolve_fold:
  "res_fold (resolve_step env load) [] cs = Inr resolved \<Longrightarrow>
     dict_keys resolved = map sc_id (filter (\<lambda>c. sc_role c = agent_policy_role) cs) \<and>
     (\<forall>c \<in> set cs. sc_role c = agent_policy_role \<longrightarrow> control_resolved env c (dict_get resolved (sc_id c)))"
proof (induction cs arbitrary: resolved rule: rev_induct)
  case Nil
  then show ?case by (simp add: dict_keys_def)
next
  case (snoc c cs)
  then obtain d where d: "res_fold (resolve_step env load) [] cs = Inr d" "resolve_step env load d c = Inr resolved"
    by (auto simp: res_fold_append res_bind_Inr_iff)
  note IH = snoc.IH [OF d(1)]
  have fresh: "\<not> dict_has d (sc_id c)" using d(2) by (auto simp: resolve_step_def split: if_splits)
  show ?case
  proof (cases "sc_role c = agent_policy_role")
    case False
    with d(2) fresh IH show ?thesis by (simp add: resolve_step_def)
  next
    case True
    then obtain rc where rc: "resolve_control env load c = Inr rc" "resolved = dict_set (sc_id c) rc d"
      using d(2) fresh by (auto simp: resolve_step_def res_bind_Inr_iff)
    have "sc_id c' \<noteq> sc_id c" if "c' \<in> set cs" "sc_role c' = agent_policy_role" for c'
    proof
      assume "sc_id c' = sc_id c"
      with that have "sc_id c \<in> sc_id ` {c \<in> set cs. sc_role c = agent_policy_role}"
        by (metis (mono_tags, lifting) image_eqI mem_Collect_eq)
      with IH fresh show False by (simp add: dict_has_def)
    qed
    with True rc fresh IH resolve_control_Inr [OF rc(1)] show ?thesis by (auto simp: dict_keys_set)
  qed
qed

section \<open>Properties\<close>

text \<open>
  C31. The search for the next opening, for a policy whose work and pause windows resolve against
  the time model and for an absent or positive progression step, returns, and returns the least
  tick of the clock's grid from the candidate on that lies in a work window and in no pause, or
  nothing when there is none: jumping over pauses and scanning the windows in their sorted order
  misses nothing. (A negative step can keep the search on one tick forever; the time contracts
  admit positive steps only.)
\<close>

theorem next_opening_is_least:
  assumes "window_ranges (ap_work p) m = Inr work" and "window_ranges (ap_pause p) m = Inr pauses"
    and "step_ok step"
  shows "\<exists>r. next_activity_opening p m candidate step = Some (Inr r) \<and>
     (case r of
        None \<Rightarrow> \<forall>u. candidate \<le> u \<longrightarrow> on_grid step u \<longrightarrow> \<not> tick_open work pauses u
      | Some t \<Rightarrow> candidate \<le> t \<and> on_grid step t \<and> tick_open work pauses t \<and>
          (\<forall>u. candidate \<le> u \<longrightarrow> u < t \<longrightarrow> on_grid step u \<longrightarrow> \<not> tick_open work pauses u))"
  using next_opening_spec [OF assms] unfolding is_next_opening_def .

lemma next_opening_is_least_witness:
  "\<exists>r. next_activity_opening act_policy act_time 12 (Some 5) = Some (Inr r) \<and>
     (case r of None \<Rightarrow> False | Some t \<Rightarrow> t = 25)"
proof -
  let ?open = "tick_open [((0, 0), (30, 0)), ((41, 0), (60, 0))] [((10, 0), (22, 0))]"
  have "step_ok (Some 5)" by (simp add: step_ok_def)
  from next_opening_is_least [OF act_windows this, of 12]
  obtain r where r: "next_activity_opening act_policy act_time 12 (Some 5) = Some (Inr r)"
    "case r of None \<Rightarrow> \<forall>u. 12 \<le> u \<longrightarrow> on_grid (Some 5) u \<longrightarrow> \<not> ?open u
      | Some t \<Rightarrow> 12 \<le> t \<and> on_grid (Some 5) t \<and> ?open t \<and> (\<forall>u. 12 \<le> u \<longrightarrow> u < t \<longrightarrow> on_grid (Some 5) u \<longrightarrow> \<not> ?open u)"
    by blast
  have o: "on_grid (Some 5) 25" "?open 25" by code_simp+
  obtain t where t: "r = Some t" using r(2) o by (cases r) auto
  have "\<not> 25 < t" using r(2) t o by auto
  moreover have "\<not> t < 25"
  proof
    assume "t < 25"
    with r(2) t have "t \<in> {12..<25}" "t mod 5 = 0" "?open t" by (auto simp: on_grid_def)
    then have "t = 15 \<or> t = 20" by auto
    with \<open>?open t\<close> show False by (auto simp: tick_open_def in_window_def less_eq_prod_def less_prod_def)
  qed
  ultimately show ?thesis using r(1) t by auto
qed

text \<open>
  C32. A tick that the timing of an occurrence selects, where the progression step is absent or
  positive and the interval bounds are multiples of it (the language checks both), lies in an open
  window and never before the shortest interval has passed; it is beyond the longest interval only
  as a next opening, and then no open tick of the grid was passed over.
\<close>

theorem timing_selects_open_tick:
  assumes "next_activity_timing env c m tick = Some (Inr sel)" and "ts_tick sel = Some t"
    and "policy_step_ok (dc_policy c) m" and "interval_on_grid (dc_policy c) m"
  shows "activity_tick_is_eligible (dc_policy c) m t = Inr True \<and> tick + ap_minimum_ticks (dc_policy c) \<le> t \<and>
     (tick + ap_maximum_ticks (dc_policy c) < t \<longrightarrow>
        ts_disposition sel = NEXT_OPENING \<and>
        (\<forall>step u. progression_step (dc_policy c) m = Inr step \<longrightarrow> on_grid step u \<longrightarrow>
           tick + ap_maximum_ticks (dc_policy c) \<le> u \<longrightarrow> u < t \<longrightarrow>
           activity_tick_is_eligible (dc_policy c) m u = Inr False))"
  using assms(1,3)
proof (cases rule: next_timing_cases)
  case (drawn step u)
  have "on_grid step (ap_minimum_ticks (dc_policy c))" "on_grid step (ap_maximum_ticks (dc_policy c))"
    using assms(4) drawn(1) by (simp_all add: interval_on_grid_def)
  from drawn_candidate_range [OF drawn(3,2) this] drawn(4,5) assms(2) show ?thesis by simp
next
  case (skipped step u)
  with assms(2) show ?thesis by simp
next
  case (reopened step u r work pauses)
  have "on_grid step (ap_minimum_ticks (dc_policy c))" "on_grid step (ap_maximum_ticks (dc_policy c))"
    using assms(4) reopened(1) by (simp_all add: interval_on_grid_def)
  from drawn_candidate_range [OF reopened(3,2) this] reopened(1,6,7) eligible_ranges [OF reopened(4,5)] assms(2)
  show ?thesis by (simp add: is_next_opening_def)
qed

lemma timing_selects_open_tick_witness:
  "activity_tick_is_eligible act_policy act_time 5 = Inr True \<and> 0 + ap_minimum_ticks act_policy \<le> 5"
proof -
  let ?c = "draw_context_of act_context act_control 0 0"
  have p: "dc_policy ?c = act_policy" by (simp add: draw_context_of_def act_context_def)
  have run: "next_activity_timing demo_env ?c act_time 0 = Some (Inr \<lparr>ts_tick = Some 5, ts_disposition = DRAWN_TICK\<rparr>)"
    by code_simp
  have "policy_step_ok (dc_policy ?c) act_time" "interval_on_grid (dc_policy ?c) act_time"
    using act_step unfolding p by (simp_all add: policy_step_ok_def interval_on_grid_def step_ok_def on_grid_def)
      (simp add: act_policy_def)
  from timing_selects_open_tick [OF run _ this, of 5] show ?thesis unfolding p by simp
qed

text \<open>
  Weighted selection is exact: among the values of the draw, as many select a candidate as
  its weight says, and every value selects one.
\<close>

lemma weighted_selection_is_exact:
  assumes "distinct eligible" and "\<forall>k \<in> set eligible. k < length weights \<and> 0 \<le> weights ! k"
    and "i \<in> set eligible"
  shows "card {sel. 0 \<le> sel \<and> sel < sum_list (map ((!) weights) eligible) \<and>
       pick_weighted weights sel 0 eligible = Inr i} = nat (weights ! i)"
  using pick_weighted_share [OF assms(1,2), of 0 i] assms(3) by simp

lemma weighted_selection_is_exact_witness:
  "card {sel. 0 \<le> sel \<and> sel < (6::int) \<and> pick_weighted [3, 1, 2] sel 0 [0, 1, 2] = Inr 2} = 2"
  using weighted_selection_is_exact [of "[0, 1, 2]" "[3, 1, 2]" 2] by (simp del: pick_weighted.simps)

text \<open>
  C33. The identity of a settled attempt is never used again in the life of a participant: not by
  a later occurrence or retry, nor after waits and resets of the clock, whatever names the policy,
  the participant and the episodes have. An identity is executed again only while all its
  executions so far stayed unsettled, that is, when the resources of an executed action were not
  committed and the state was left as it was. The identities key reservations and executions.
\<close>

theorem settled_identities_never_repeat:
  assumes "activity_life env c s attempts u" and "i < j" and "j < length attempts"
    and "attempt_settled (attempts ! i)"
  shows "attempt_name (attempts ! i) \<noteq> attempt_name (attempts ! j)"
  using life_identities [OF assms(1)] identities_spent_nth [OF _ assms(2-4)] by blast

lemma settled_identities_never_repeat_witness:
  "attempt_identity act_context act_state \<noteq> attempt_identity act_context act_retried"
  using settled_identities_never_repeat [OF activity_life.run [OF act_run], of 1 2] by simp

text \<open>
  C34. The snapshot accepts every state of a life that starts with an accepted one, for due contexts with
  a nonnegative tick and minimum interval, an absent or positive step and non-empty candidates:
  transitions copy a state with updates and skip
  the validator, yet the counters stay balanced, completed candidates stay distinct and every
  scheduled tick stays valid, so that persisting the state never raises.
\<close>

theorem scheduler_states_stay_accepted:
  assumes "activity_life env c s attempts u" and "due_context_ok c"
    and "state_entry_violations (state_key s) s = []"
  shows "state_entry_violations (state_key u) u = []"
  using life_accepted [OF assms(1,2)] assms(3) by (simp add: state_accepted_def)

lemma scheduler_states_stay_accepted_witness:
  "state_entry_violations (state_key act_failed) act_failed = []"
  using scheduler_states_stay_accepted [OF activity_life.run [OF act_run] act_context_ok] act_state_accepted
  by (simp add: state_accepted_def)

text \<open>
  C35. The limits of the policy hold for settled attempts: in a segment that starts within them each of them is counted
  once, no more of them and no more occurrences are made than the policy admits, and a state that
  reaches a limit does not run on. Executions that stay unsettled are not counted, so the limit
  does not bound them.
\<close>

theorem runs_respect_limits:
  assumes "activity_run env c s attempts u" and "limits_ok (du_policy c) s"
  shows "int (length (filter attempt_settled attempts)) = xs_attempted u - xs_attempted s \<and>
     xs_attempted u \<le> ap_max_attempts (du_policy c) \<and> xs_occurrence u \<le> ap_max_occurrences (du_policy c) \<and>
     (xs_attempted u = ap_max_attempts (du_policy c) \<or> xs_occurrence u = ap_max_occurrences (du_policy c) \<longrightarrow>
        xs_lifecycle u \<noteq> EXEC_RUNNING)"
  using run_limits [OF assms] by (auto simp: limits_ok_def)

lemma runs_respect_limits_witness:
  "limits_ok act_policy act_state \<and> xs_attempted act_failed - xs_attempted act_state = 2"
proof -
  have "limits_ok (du_policy act_context) act_state" by code_simp
  moreover have "du_policy act_context = act_policy" by (simp add: act_context_def)
  ultimately show ?thesis using runs_respect_limits [OF act_run] by simp
qed

text \<open>The limit does not bound unsettled executions: any number of them leaves the state as it is.\<close>

lemma unsettled_attempts_unbounded:
  "activity_run demo_env act_context act_state (replicate n (attempt_identity act_context act_state, 5, False)) act_state"
proof (induction n)
  case 0
  show ?case by (simp add: activity_run.stop)
next
  case (Suc n)
  have "activity_action_is_due (act_context\<lparr>du_tick := 5\<rparr>) act_state False"
    and "selected_activity_index demo_env (act_context\<lparr>du_tick := 5\<rparr>) act_state = Inr (Some 0)" by code_simp+
  with Suc show ?case by (auto intro: activity_run.unsettled)
qed

text \<open>
  C36. Every attempt of a segment, settled or not, falls into an open window: from the state that
  initialisation creates, through bursts, retries and waits, actions are attempted only at ticks
  that lie in a work window and in no pause.
\<close>

theorem attempts_fall_into_open_windows:
  assumes "initial_activity_state env c control profile digest episode implementation clock segment = Some (Inr s)"
    and "due_context_ok c" and "activity_run env c s attempts u" and "(name, tick, settled) \<in> set attempts"
  shows "activity_tick_is_eligible (du_policy c) (du_time c) tick = Inr True"
  using run_open [OF assms(3,2) initial_state_cases(3,2) [OF assms(1,2)]] assms(4) by fastforce

lemma attempts_fall_into_open_windows_witness:
  "activity_tick_is_eligible (du_policy act_context) (du_time act_context) 5 = Inr True"
  using attempts_fall_into_open_windows [OF act_start_run [unfolded act_start_def] act_context_ok act_run,
      of "attempt_identity act_context act_state" 5 False] by simp

text \<open>
  A reset of the clock does not close a participant whose drawn tick is skipped: where the
  initialisation completes it, the reset leaves it running and due at the current tick, although
  that tick lies outside every work window.
\<close>

lemma reset_runs_outside_windows:
  "(case reset_activity_state demo_env (act_context\<lparr>du_tick := 70\<rparr>) act_control ''e1'' 1 act_state of
      Some (Inr t) \<Rightarrow> xs_lifecycle t = EXEC_RUNNING \<and> xs_next_tick t = 70 \<and>
        activity_action_is_due (act_context\<lparr>du_tick := 70\<rparr>) t False \<and>
        selected_activity_index demo_env (act_context\<lparr>du_tick := 70\<rparr>) t = Inr (Some 0)
    | _ \<Rightarrow> False) \<and>
   activity_tick_is_eligible act_policy act_time 70 = Inr False \<and>
   (case initial_activity_state demo_env (act_context\<lparr>du_tick := 70\<rparr>) act_control execution_v2 act_digest ''e1''
       ''participant.implementation.i'' ''clock.c'' 1 of
      Some (Inr t) \<Rightarrow> xs_lifecycle t = EXEC_COMPLETED
    | _ \<Rightarrow> False)"
  by (intro conjI; code_simp)

text \<open>
  Controls are resolved or refused: when the resolution succeeds, every control of the
  agent-policy role is bound to the participant profile with a public seed, and its entry carries
  the key derived from that seed; nothing else is in the result.
\<close>

lemma controls_resolve_fail_closed:
  assumes "resolve_participant_activity_controls env load controls = Inr resolved"
  shows "dict_keys resolved = map sc_id (filter (\<lambda>c. sc_role c = agent_policy_role) controls) \<and>
     (\<forall>c \<in> set controls. sc_role c = agent_policy_role \<longrightarrow>
        (\<exists>binding seed entropy. sc_binding c = Some binding \<and> cb_profile binding = participant_profile \<and>
           cb_entropy binding = PublicSeed seed \<and> decode_public_seed seed = Inr entropy \<and>
           dict_get resolved (sc_id c) = Some
             \<lparr>rc_id = sc_id c, rc_profile = participant_profile, rc_namespace = cb_namespace binding,
              rc_key = re_derive_key env (derivation_context participant_profile) entropy\<rparr>))"
proof -
  have "dict_keys resolved = map sc_id (filter (\<lambda>c. sc_role c = agent_policy_role) cs) \<and>
     (\<forall>c \<in> set cs. sc_role c = agent_policy_role \<longrightarrow> control_resolved env c (dict_get resolved (sc_id c)))"
    if "res_fold (resolve_step env load) [] cs = Inr resolved" for cs resolved
    using that by (rule resolve_fold)
  from this [OF assms [unfolded resolve_participant_activity_controls_def]] show ?thesis
    unfolding control_resolved_def by simp
qed

definition act_controls :: "stochastic_control list" where
  "act_controls =
     [\<lparr>sc_id = ''s'', sc_role = ''seed'', sc_binding = None\<rparr>,
      \<lparr>sc_id = ''c'', sc_role = agent_policy_role, sc_binding = Some
        \<lparr>cb_profile = participant_profile, cb_namespace = ''n'',
         cb_entropy = PublicSeed \<lparr>seed_encoding = hex_fixed_width, seed_value = replicate 64 CHR ''0''\<rparr>\<rparr>\<rparr>]"

lemma act_controls_resolve:
  "resolve_participant_activity_controls demo_env (\<lambda>p. Inr ()) act_controls = Inr [(''c'', act_control)]"
  by code_simp

lemma controls_resolve_fail_closed_witness:
  "map sc_id (filter (\<lambda>c. sc_role c = agent_policy_role) act_controls) = [''c'']"
  using controls_resolve_fail_closed [OF act_controls_resolve] by (simp add: dict_keys_def)

end
