(* ===== verification/Execution_Service.thy ===== *)
theory Execution_Service
  imports Activity_Claims Budget_Commit
begin

text \<open>
  Execution services of participant policies: the service state and its validator
  (\<open>raes_contracts/contracts/participant_execution.py\<close>), the coordination with the scheduler and
  the shared clock (\<open>raes_runtime/participant_execution_scheduler_state.py\<close>) and the boundary that
  fences control requests by generation and checks the observed transition
  (\<open>participant_execution_control_boundary.py\<close>). The call of the backend itself is a parameter.
\<close>

section \<open>Service states\<close>

datatype service_lifecycle =
    SV_STOPPED | SV_STARTING | SV_RUNNING | SV_PAUSING | SV_PAUSED | SV_DRAINING | SV_QUIESCENT
  | SV_RESETTING | SV_TEARING_DOWN | SV_TERMINATED | SV_FAILED

datatype service_health = HEALTHY | DEGRADED | UNHEALTHY | HEALTH_UNKNOWN

datatype service_readiness = READY | NOT_READY | READINESS_UNKNOWN

record service_state =
  sv_scope :: string
  sv_policy :: string
  sv_desired :: service_lifecycle
  sv_observed :: service_lifecycle
  sv_generation :: int
  sv_observed_generation :: int
  sv_health :: service_health
  sv_readiness :: service_readiness
  sv_accepting :: bool
  sv_draining :: bool
  sv_quiescent :: bool
  sv_released :: bool
  sv_policy_digest :: string
  sv_binding_digest :: string
  sv_time_digest :: string
  sv_state_refs :: "string list"
  sv_budget_refs :: "string list"
  sv_capacity :: int
  sv_reserved :: int
  sv_in_flight :: int
  sv_last_transition :: string
  sv_pacing_refs :: "string list"
  sv_evidence_refs :: "string list"

definition service_fields_ok :: "service_state \<Rightarrow> bool" where
  "service_fields_ok s \<longleftrightarrow>
     sv_scope s \<noteq> [] \<and> sv_policy s \<noteq> [] \<and> 0 \<le> sv_generation s \<and> 0 \<le> sv_observed_generation s \<and>
     is_prefixed_digest (sv_policy_digest s) \<and> is_prefixed_digest (sv_binding_digest s) \<and>
     is_prefixed_digest (sv_time_digest s) \<and> list_all (\<lambda>r. r \<noteq> []) (sv_state_refs s) \<and>
     list_all (\<lambda>r. r \<noteq> []) (sv_budget_refs s) \<and> 1 \<le> sv_capacity s \<and> 0 \<le> sv_reserved s \<and>
     0 \<le> sv_in_flight s \<and> sv_last_transition s \<noteq> [] \<and> list_all (\<lambda>r. r \<noteq> []) (sv_pacing_refs s) \<and>
     sv_evidence_refs s \<noteq> [] \<and> list_all (\<lambda>r. r \<noteq> []) (sv_evidence_refs s)"

definition check_service_state :: "service_state \<Rightarrow> unit res" where
  "check_service_state s =
     res_bind (require_that (service_fields_ok s) (ValidationError ''participant execution service fields'')) (\<lambda>_.
     res_bind (require_that (sv_observed_generation s \<le> sv_generation s)
       (ValidationError ''observed_generation cannot exceed generation'')) (\<lambda>_.
     res_bind (require_that (sv_reserved s + sv_in_flight s \<le> sv_capacity s)
       (ValidationError ''reserved and in_flight work cannot exceed capacity'')) (\<lambda>_.
     res_bind (require_that (\<not> (sv_accepting s \<and> sv_observed s \<notin> {SV_STARTING, SV_RUNNING}))
       (ValidationError ''accepting_new_work requires a starting or running observed lifecycle'')) (\<lambda>_.
     res_bind (require_that (\<not> (sv_accepting s \<and> sv_readiness s \<noteq> READY))
       (ValidationError ''accepting_new_work requires ready readback'')) (\<lambda>_.
     res_bind (require_that (sv_draining s = (sv_observed s = SV_DRAINING))
       (ValidationError ''draining must agree with the observed lifecycle'')) (\<lambda>_.
     res_bind (require_that (sv_released s = (sv_observed s = SV_TERMINATED))
       (ValidationError ''resources_released must agree with terminated lifecycle'')) (\<lambda>_.
     res_bind (require_that (\<not> (sv_quiescent s \<and> (sv_reserved s \<noteq> 0 \<or> sv_in_flight s \<noteq> 0)))
       (ValidationError ''quiescent execution cannot retain reserved or in-flight work'')) (\<lambda>_.
       require_that (distinct (sv_state_refs s) \<and> distinct (sv_budget_refs s) \<and> distinct (sv_pacing_refs s) \<and>
           distinct (sv_evidence_refs s))
         (ValidationError ''references must contain unique values'')))))))))"

definition read_service :: "service_state \<Rightarrow> service_state res" where
  "read_service s = res_bind (check_service_state s) (\<lambda>_. Inr s)"

section \<open>Snapshots with scheduler members\<close>

record 'rest scheduler_part =
  sp_states :: "(string, activity_state) pydict"
  sp_services :: "(string, service_state) pydict"
  sp_rest :: 'rest

type_synonym 'rest scheduler_snapshot = "'rest scheduler_part budget_snapshot"

abbreviation snapshot_states :: "'rest scheduler_snapshot \<Rightarrow> (string, activity_state) pydict" where
  "snapshot_states sn \<equiv> sp_states (sn_rest sn)"

abbreviation snapshot_services :: "'rest scheduler_snapshot \<Rightarrow> (string, service_state) pydict" where
  "snapshot_services sn \<equiv> sp_services (sn_rest sn)"

text \<open>\<open>with_entries\<close> over the two scheduler members: the constructor checks the scheduler states.\<close>

definition with_scheduler_members ::
  "'rest scheduler_snapshot \<Rightarrow> (string, activity_state) pydict \<Rightarrow> (string, service_state) pydict \<Rightarrow>
     'rest scheduler_snapshot res" where
  "with_scheduler_members sn states services =
     res_bind (require_activity_states states) (\<lambda>_.
       Inr (sn\<lparr>sn_rest := (sn_rest sn)\<lparr>sp_states := states, sp_services := services\<rparr>\<rparr>))"

section \<open>Resets and clock lifecycles\<close>

definition reset_evidence :: "string \<Rightarrow> int \<Rightarrow> string" where
  "reset_evidence policy generation = ''evidence:'' @ policy @ '':shared-time-reset:generation-'' @ int_text generation"

definition reset_transition :: "string \<Rightarrow> int \<Rightarrow> string" where
  "reset_transition policy generation = ''operation:'' @ policy @ '':shared-time-reset:generation-'' @ int_text generation"

definition reset_service :: "string \<Rightarrow> service_state \<Rightarrow> service_state" where
  "reset_service policy s =
     (let generation = sv_generation s + 1 in
      s\<lparr>sv_desired := SV_RUNNING, sv_observed := SV_RUNNING, sv_generation := generation,
        sv_observed_generation := generation, sv_readiness := READY, sv_accepting := True, sv_draining := False,
        sv_quiescent := True, sv_reserved := 0, sv_in_flight := 0,
        sv_last_transition := reset_transition policy generation,
        sv_evidence_refs := fromkeys (sv_evidence_refs s @ [reset_evidence policy generation])\<rparr>)"

definition reset_execution_service ::
  "'rest scheduler_snapshot \<Rightarrow> string \<Rightarrow> ('rest scheduler_snapshot \<times> bool) res" where
  "reset_execution_service sn policy =
     (case dict_get (snapshot_services sn) policy of
        None \<Rightarrow> Inr (sn, False)
      | Some payload \<Rightarrow>
          res_bind (read_service payload) (\<lambda>s.
          res_bind (with_scheduler_members sn (snapshot_states sn)
              (dict_set policy (reset_service policy s) (snapshot_services sn))) (\<lambda>sn'.
            Inr (sn', True))))"

text \<open>The shared clock is paused or resumed; the argument tells whether it is paused.\<close>

definition clock_lifecycle_text :: "bool \<Rightarrow> string" where
  "clock_lifecycle_text paused = (if paused then ''paused'' else ''running'')"

definition paced_service :: "bool \<Rightarrow> string \<Rightarrow> service_state \<Rightarrow> service_state" where
  "paced_service paused policy s =
     (let suffix = policy @ '':shared-time-'' @ clock_lifecycle_text paused @ '':generation-'' @ int_text (sv_generation s);
          lifecycle = (if paused then SV_PAUSED else SV_RUNNING) in
      s\<lparr>sv_desired := lifecycle, sv_observed := lifecycle,
        sv_readiness := (if paused then NOT_READY else READY), sv_accepting := \<not> paused,
        sv_last_transition := ''operation:'' @ suffix,
        sv_evidence_refs := fromkeys (sv_evidence_refs s @ [''evidence:'' @ suffix])\<rparr>)"

definition pace_state ::
  "string \<Rightarrow> bool \<Rightarrow> (string, activity_state) pydict \<times> string list \<Rightarrow> string \<times> activity_state \<Rightarrow>
     ((string, activity_state) pydict \<times> string list) res" where
  "pace_state clock paused acc entry =
     res_bind (check_activity_state (snd entry)) (\<lambda>_.
       if xs_clock (snd entry) = clock \<and> xs_lifecycle (snd entry) \<notin> {EXEC_COMPLETED, EXEC_FAILED}
       then Inr (dict_set (fst entry)
             ((snd entry)\<lparr>xs_lifecycle := (if paused then EXEC_PAUSED else EXEC_RUNNING)\<rparr>) (fst acc),
           snd acc @ [xs_policy (snd entry)])
       else Inr acc)"

definition pace_services ::
  "bool \<Rightarrow> (string, service_state) pydict \<Rightarrow> string \<Rightarrow> (string, service_state) pydict res" where
  "pace_services paused services policy =
     (case dict_get services policy of
        None \<Rightarrow> Inr services
      | Some payload \<Rightarrow>
          res_bind (read_service payload) (\<lambda>s. Inr (dict_set policy (paced_service paused policy s) services)))"

text \<open>
  The code collects the affected policies in a \<open>set\<close>; here they are visited in the order of the
  states. Each of them is updated once and in its own entry, so the order is not observable in
  the result.
\<close>

definition set_execution_clock_lifecycle ::
  "'rest scheduler_snapshot \<Rightarrow> string \<Rightarrow> bool \<Rightarrow> 'rest scheduler_snapshot res" where
  "set_execution_clock_lifecycle sn clock paused =
     res_bind (res_fold (pace_state clock paused) (snapshot_states sn, []) (snapshot_states sn)) (\<lambda>(states, affected).
     res_bind (res_fold (pace_services paused) (snapshot_services sn) (fromkeys affected)) (\<lambda>services.
       with_scheduler_members sn states services))"

section \<open>Control requests\<close>

datatype service_action = CONTROL_START | CONTROL_PAUSE | CONTROL_RESUME | CONTROL_DRAIN | CONTROL_RESET | CONTROL_TEARDOWN

record control_request =
  cq_scope :: string
  cq_action :: service_action
  cq_generation :: int
  cq_timeout :: "int option"

definition check_control_request :: "control_request \<Rightarrow> unit res" where
  "check_control_request q =
     res_bind (require_that (cq_scope q \<noteq> [] \<and> 0 \<le> cq_generation q \<and>
         (case cq_timeout q of None \<Rightarrow> True | Some n \<Rightarrow> 1 \<le> n)) (ValidationError ''control request fields'')) (\<lambda>_.
     res_bind (require_that (\<not> (cq_action q = CONTROL_DRAIN \<and> cq_timeout q = None))
       (ValidationError ''timeout_seconds is required for drain'')) (\<lambda>_.
       require_that (\<not> (cq_action q \<noteq> CONTROL_DRAIN \<and> cq_timeout q \<noteq> None))
         (ValidationError ''timeout_seconds is only valid for drain'')))"

definition control_failure :: "'rest scheduler_snapshot \<Rightarrow> control_request \<Rightarrow> string \<Rightarrow> 'rest scheduler_part apply_result" where
  "control_failure sn q code =
     \<lparr>ar_success = False, ar_snapshot = sn, ar_diagnostics = [\<lparr>dg_code = code, dg_address = cq_scope q\<rparr>]\<rparr>"

definition control_precondition ::
  "control_request \<Rightarrow> 'rest scheduler_snapshot \<Rightarrow> 'rest scheduler_part apply_result option res" where
  "control_precondition q sn =
     (case dict_get (snapshot_services sn) (cq_scope q) of
        None \<Rightarrow> Inr (Some (control_failure sn q ''runtime.participant-execution-not-found''))
      | Some payload \<Rightarrow>
          res_bind (read_service payload) (\<lambda>s.
            Inr (if sv_generation s \<noteq> cq_generation q
              then Some (control_failure sn q ''runtime.participant-execution-stale-generation'') else None)))"

fun expected_observation :: "service_action \<Rightarrow> service_lifecycle \<times> service_readiness \<times> bool" where
  "expected_observation CONTROL_START = (SV_RUNNING, READY, True)"
| "expected_observation CONTROL_RESUME = (SV_RUNNING, READY, True)"
| "expected_observation CONTROL_RESET = (SV_RUNNING, READY, True)"
| "expected_observation CONTROL_PAUSE = (SV_PAUSED, NOT_READY, False)"
| "expected_observation CONTROL_DRAIN = (SV_QUIESCENT, NOT_READY, False)"
| "expected_observation CONTROL_TEARDOWN = (SV_TERMINATED, NOT_READY, False)"

definition expected_generation :: "control_request \<Rightarrow> int" where
  "expected_generation q = cq_generation q + (if cq_action q = CONTROL_RESET then 1 else 0)"

definition observed_state_matches :: "control_request \<Rightarrow> service_state \<Rightarrow> bool" where
  "observed_state_matches q s \<longleftrightarrow>
     (case expected_observation (cq_action q) of (lifecycle, readiness, accepting) \<Rightarrow>
        sv_observed s = lifecycle \<and> sv_desired s = lifecycle \<and> sv_readiness s = readiness \<and>
        sv_accepting s = accepting \<and> sv_generation s = expected_generation q \<and>
        sv_observed_generation s = expected_generation q)"

definition has_new_transition_evidence :: "service_state \<Rightarrow> service_state \<Rightarrow> bool" where
  "has_new_transition_evidence before s \<longleftrightarrow>
     sv_last_transition s \<noteq> [] \<and> sv_last_transition s \<noteq> sv_last_transition before \<and>
     set (sv_evidence_refs s) - set (sv_evidence_refs before) \<noteq> {}"

definition action_readback_matches :: "control_request \<Rightarrow> service_state \<Rightarrow> bool" where
  "action_readback_matches q s \<longleftrightarrow>
     (if cq_action q = CONTROL_DRAIN
      then \<not> (sv_reserved s \<noteq> 0 \<or> sv_in_flight s \<noteq> 0 \<or> sv_draining s \<or> \<not> sv_quiescent s)
      else cq_action q \<noteq> CONTROL_TEARDOWN \<or> sv_released s)"

definition successful_observed_result ::
  "control_request \<Rightarrow> 'rest scheduler_snapshot \<Rightarrow> 'rest scheduler_part apply_result \<Rightarrow> 'rest scheduler_part apply_result res" where
  "successful_observed_result q predecessor result =
     (case dict_get (snapshot_services (ar_snapshot result)) (cq_scope q) of
        None \<Rightarrow> Inr (control_failure predecessor q ''runtime.participant-execution-readback-missing'')
      | Some payload \<Rightarrow>
          res_bind (dict_item (snapshot_services predecessor) (cq_scope q)) (\<lambda>raw.
          res_bind (read_service raw) (\<lambda>before.
          res_bind (read_service payload) (\<lambda>observed.
            Inr (if observed_state_matches q observed \<and> has_new_transition_evidence before observed \<and>
                action_readback_matches q observed
              then result
              else control_failure predecessor q ''runtime.participant-execution-readback-invalid'')))))"

definition apply_control ::
  "(control_request \<Rightarrow> 'rest scheduler_snapshot \<Rightarrow> 'rest scheduler_part apply_result res) \<Rightarrow>
     control_request \<Rightarrow> 'rest scheduler_snapshot \<Rightarrow> 'rest scheduler_part apply_result res" where
  "apply_control call q sn =
     res_bind (control_precondition q sn) (\<lambda>failure.
       case failure of
         Some r \<Rightarrow> Inr r
       | None \<Rightarrow>
           res_bind (call q sn) (\<lambda>result.
             if \<not> ar_success result then Inr result else successful_observed_result q sn result))"

end
