(* ===== verification/Service_Claims.thy ===== *)
theory Service_Claims
  imports Execution_Service
begin

text \<open>
  Guarantees of execution services: exactly which services survive a reset or a change of the
  shared clock, and that a control request takes effect once, at the generation it names.
\<close>

lemma check_service_state_Inr:
  "check_service_state s = Inr u \<longleftrightarrow>
     service_fields_ok s \<and> sv_observed_generation s \<le> sv_generation s \<and>
     sv_reserved s + sv_in_flight s \<le> sv_capacity s \<and>
     (sv_accepting s \<longrightarrow> sv_observed s \<in> {SV_STARTING, SV_RUNNING} \<and> sv_readiness s = READY) \<and>
     sv_draining s = (sv_observed s = SV_DRAINING) \<and> sv_released s = (sv_observed s = SV_TERMINATED) \<and>
     (sv_quiescent s \<longrightarrow> sv_reserved s = 0 \<and> sv_in_flight s = 0) \<and>
     distinct (sv_state_refs s) \<and> distinct (sv_budget_refs s) \<and> distinct (sv_pacing_refs s) \<and>
     distinct (sv_evidence_refs s)"
  unfolding check_service_state_def by (auto simp: res_bind_Inr_iff)

lemma read_service_Inr [simp]: "read_service s = Inr t \<longleftrightarrow> check_service_state s = Inr () \<and> t = s"
  by (auto simp: read_service_def res_bind_Inr_iff)

lemma fromkeys_ne: "fromkeys (xs @ [x]) \<noteq> []"
  using set_fromkeys [of "xs @ [x]"] by (metis append_is_Nil_conv not_Cons_self2 set_empty)

lemma reset_text_ne [simp]: "reset_transition p g \<noteq> []" "reset_evidence p g \<noteq> []"
  by (simp_all add: reset_transition_def reset_evidence_def)

lemma reset_service_simps [simp]:
  "sv_scope (reset_service p s) = sv_scope s" "sv_policy (reset_service p s) = sv_policy s"
  "sv_generation (reset_service p s) = sv_generation s + 1"
  "sv_observed_generation (reset_service p s) = sv_generation s + 1"
  "sv_observed (reset_service p s) = SV_RUNNING" "sv_readiness (reset_service p s) = READY"
  "sv_accepting (reset_service p s)" "\<not> sv_draining (reset_service p s)" "sv_quiescent (reset_service p s)"
  "sv_released (reset_service p s) = sv_released s" "sv_capacity (reset_service p s) = sv_capacity s"
  "sv_reserved (reset_service p s) = 0" "sv_in_flight (reset_service p s) = 0"
  "sv_policy_digest (reset_service p s) = sv_policy_digest s"
  "sv_binding_digest (reset_service p s) = sv_binding_digest s"
  "sv_time_digest (reset_service p s) = sv_time_digest s"
  "sv_state_refs (reset_service p s) = sv_state_refs s" "sv_budget_refs (reset_service p s) = sv_budget_refs s"
  "sv_pacing_refs (reset_service p s) = sv_pacing_refs s"
  "sv_last_transition (reset_service p s) = reset_transition p (sv_generation s + 1)"
  "sv_evidence_refs (reset_service p s) = fromkeys (sv_evidence_refs s @ [reset_evidence p (sv_generation s + 1)])"
  by (simp_all add: reset_service_def Let_def)

lemma reset_service_fields: "service_fields_ok s \<Longrightarrow> service_fields_ok (reset_service p s)"
  by (auto simp: service_fields_ok_def list_all_iff fromkeys_ne)

lemma paced_service_fields: "service_fields_ok s \<Longrightarrow> service_fields_ok (paced_service paused p s)"
  by (auto simp: service_fields_ok_def paced_service_def Let_def list_all_iff fromkeys_ne)

section \<open>Properties\<close>

text \<open>
  C37. What a shared-clock reset, pause or resume leaves of a service is a valid service state
  exactly when the service was not torn down (nor draining, for pause and resume): the updates
  overwrite the lifecycle but keep the \<open>draining\<close> and \<open>resources_released\<close> members, and the copy is
  not validated before it is persisted.
\<close>

theorem clock_coordination_of_services:
  assumes "check_service_state s = Inr ()"
  shows "(check_service_state (reset_service p s) = Inr () \<longleftrightarrow> sv_observed s \<noteq> SV_TERMINATED) \<and>
     (check_service_state (paced_service paused p s) = Inr () \<longleftrightarrow> sv_observed s \<notin> {SV_DRAINING, SV_TERMINATED})"
proof
  show "check_service_state (reset_service p s) = Inr () \<longleftrightarrow> sv_observed s \<noteq> SV_TERMINATED"
    using assms reset_service_fields [of s p] unfolding check_service_state_Inr
    by (auto simp: service_fields_ok_def)
  show "check_service_state (paced_service paused p s) = Inr () \<longleftrightarrow> sv_observed s \<notin> {SV_DRAINING, SV_TERMINATED}"
    using assms paced_service_fields [of s paused p] unfolding check_service_state_Inr
    by (auto simp: paced_service_def Let_def)
qed

definition demo_service :: service_state where
  "demo_service =
     \<lparr>sv_scope = ''p.q'', sv_policy = ''p.q'', sv_desired = SV_RUNNING, sv_observed = SV_RUNNING, sv_generation = 0,
      sv_observed_generation = 0, sv_health = HEALTHY, sv_readiness = READY, sv_accepting = True, sv_draining = False,
      sv_quiescent = True, sv_released = False, sv_policy_digest = act_digest, sv_binding_digest = act_digest,
      sv_time_digest = act_digest, sv_state_refs = [], sv_budget_refs = [], sv_capacity = 1, sv_reserved = 0,
      sv_in_flight = 0, sv_last_transition = ''start'', sv_pacing_refs = [], sv_evidence_refs = [''e'']\<rparr>"

definition demo_torn_down :: service_state where
  "demo_torn_down =
     demo_service\<lparr>sv_desired := SV_TERMINATED, sv_observed := SV_TERMINATED, sv_readiness := NOT_READY,
       sv_accepting := False, sv_released := True, sv_last_transition := ''teardown'', sv_evidence_refs := [''e'', ''f'']\<rparr>"

lemma demo_services_valid: "check_service_state demo_service = Inr ()" "check_service_state demo_torn_down = Inr ()"
  by code_simp+

lemma clock_coordination_of_services_witness:
  "check_service_state demo_service = Inr () \<and> check_service_state (reset_service ''p.q'' demo_service) = Inr () \<and>
   check_service_state demo_torn_down = Inr () \<and> check_service_state (reset_service ''p.q'' demo_torn_down) \<noteq> Inr ()"
  using clock_coordination_of_services [OF demo_services_valid(1), of "''p.q''"]
    clock_coordination_of_services [OF demo_services_valid(2), of "''p.q''"] demo_services_valid
  by (simp add: demo_torn_down_def) (simp add: demo_service_def)

definition demo_part :: "service_state \<Rightarrow> unit scheduler_snapshot" where
  "demo_part s =
     \<lparr>sn_states = [], sn_pools = [], sn_events = [],
      sn_rest = \<lparr>sp_states = [], sp_services = [(''p.q'', s)], sp_rest = ()\<rparr>\<rparr>"

definition demo_teardown :: control_request where
  "demo_teardown = \<lparr>cq_scope = ''p.q'', cq_action = CONTROL_TEARDOWN, cq_generation = 0, cq_timeout = None\<rparr>"

definition demo_backend :: "control_request \<Rightarrow> unit scheduler_snapshot \<Rightarrow> unit scheduler_part apply_result res" where
  "demo_backend q sn = Inr \<lparr>ar_success = True, ar_snapshot = demo_part demo_torn_down, ar_diagnostics = []\<rparr>"

text \<open>
  A service that was torn down through the control boundary is revived by the next reset of
  the shared clock, and into a state no reader accepts: the reset itself succeeds, and the next
  control request or due run on the service raises.
\<close>

lemma reset_revives_torn_down_service:
  "(case apply_control demo_backend demo_teardown (demo_part demo_service) of
      Inl e \<Rightarrow> False
    | Inr r \<Rightarrow> ar_success r \<and>
        (case reset_execution_service (ar_snapshot r) ''p.q'' of
           Inl e \<Rightarrow> False
         | Inr (sn, changed) \<Rightarrow> changed \<and>
             (case dict_get (snapshot_services sn) ''p.q'' of
                None \<Rightarrow> False
              | Some s \<Rightarrow> sv_observed s = SV_RUNNING \<and> sv_accepting s \<and> \<not> is_ok (read_service s)) \<and>
             \<not> is_ok (apply_control demo_backend (demo_teardown\<lparr>cq_generation := 1\<rparr>) sn)))"
  by code_simp

text \<open>
  A reset of a service takes effect once: after a request has succeeded, the same request is
  refused without calling the backend and without changing anything, because the success has
  proved that the generation moved on. The same holds of every request that names an old
  generation.
\<close>

lemma service_reset_takes_effect_once:
  assumes "apply_control call q sn = Inr r" and "ar_success r" and "cq_action q = CONTROL_RESET"
  shows "apply_control call' q (ar_snapshot r) =
     Inr (control_failure (ar_snapshot r) q ''runtime.participant-execution-stale-generation'')"
proof -
  obtain s where pre: "dict_get (snapshot_services sn) (cq_scope q) = Some s" "sv_generation s = cq_generation q"
    and res: "call q sn = Inr result \<Longrightarrow> ar_success result \<Longrightarrow> successful_observed_result q sn result = Inr r" for result
    using assms(1,2) unfolding apply_control_def control_precondition_def
    by (auto simp: res_bind_Inr_iff control_failure_def split: option.splits if_splits)
  obtain result where "call q sn = Inr result" "ar_success result"
    using assms(1,2) unfolding apply_control_def control_precondition_def
    by (auto simp: res_bind_Inr_iff control_failure_def split: option.splits if_splits)
  from res [OF this] obtain t where t: "dict_get (snapshot_services (ar_snapshot result)) (cq_scope q) = Some t"
      "check_service_state t = Inr ()" "observed_state_matches q t" "r = result"
    using assms(2) unfolding successful_observed_result_def
    by (auto simp: res_bind_Inr_iff control_failure_def split: option.splits if_splits)
  have "sv_generation t \<noteq> cq_generation q"
    using t(3) assms(3) by (simp add: observed_state_matches_def expected_generation_def)
  with t(1,2,4) show ?thesis
    by (simp add: apply_control_def control_precondition_def read_service_def)
qed

definition demo_reset_request :: control_request where
  "demo_reset_request = \<lparr>cq_scope = ''p.q'', cq_action = CONTROL_RESET, cq_generation = 0, cq_timeout = None\<rparr>"

definition demo_reset_backend :: "control_request \<Rightarrow> unit scheduler_snapshot \<Rightarrow> unit scheduler_part apply_result res" where
  "demo_reset_backend q sn =
     Inr \<lparr>ar_success = True, ar_snapshot = demo_part (reset_service ''p.q'' demo_service), ar_diagnostics = []\<rparr>"

lemma demo_reset_runs:
  "apply_control demo_reset_backend demo_reset_request (demo_part demo_service) =
     Inr \<lparr>ar_success = True, ar_snapshot = demo_part (reset_service ''p.q'' demo_service), ar_diagnostics = []\<rparr>"
  by code_simp

lemma service_reset_takes_effect_once_witness:
  "apply_control demo_backend demo_reset_request (demo_part (reset_service ''p.q'' demo_service)) =
     Inr (control_failure (demo_part (reset_service ''p.q'' demo_service)) demo_reset_request
       ''runtime.participant-execution-stale-generation'')"
  using service_reset_takes_effect_once [OF demo_reset_runs] by (simp add: demo_reset_request_def)

end
