(* ===== verification/Scheduler_Actions.thy ===== *)
theory Scheduler_Actions
  imports Service_Claims
begin

text \<open>
  One participant at a due tick: \<open>raes_runtime/participant_scheduler_operations.py\<close> with
  \<open>participant_scheduler_types.py\<close>, \<open>participant_scheduler_time.py\<close>, \<open>participant_scheduler_resources.py\<close>,
  the rest of \<open>participant_activity_support.py\<close> and \<open>participant_action_validation.py\<close>. A due action is
  bound, its resource vector reserved, executed by the native runtime, checked, its measurements
  committed or its reservation released, and the next state persisted; the loop goes on while an
  action is due and nothing has failed.

  The participant runtime of the backend, the binding contract of
  \<open>raes_contracts/participant_binding.py\<close> and the field checks of a behaviour event are the members
  of \<open>native_env\<close>. A run that raises is \<open>Some (Inl e)\<close>, a run that does not return is \<open>None\<close>.
\<close>

section \<open>Requests, results and history\<close>

record temporal_context =
  tx_contract :: string
  tx_domain :: string
  tx_clock :: string
  tx_observation :: string
  tx_reset :: string

record action_request =
  aq_participant :: string
  aq_contract :: string
  aq_boundary :: string
  aq_instance :: string
  aq_contexts :: "temporal_context list"
  aq_manifest :: string
  aq_actor :: string
  aq_scope :: "string option"
  aq_generation :: "int option"
  aq_targets :: "string list"
  aq_requirements :: "measurement_requirement list"
  aq_terminal :: bool

record action_outcome =
  ac_status :: string
  ac_episode :: string
  ac_failure :: "string option"
  ac_measurements :: "resource_measurement list"
  ac_other :: py_value

record activity_provenance =
  pv_policy :: string
  pv_profile :: string
  pv_occurrence :: string
  pv_attempt :: string
  pv_predecessor :: "string option"
  pv_candidate :: string
  pv_dependencies :: "string list"
  pv_tick :: int
  pv_disposition :: string
  pv_burst_position :: int
  pv_control :: string
  pv_random_profile :: string
  pv_address :: participant_stream_address
  pv_outcome :: string

record behavior_event =
  be_type :: string
  be_participant :: string
  be_episode :: string
  be_instance :: string
  be_contract :: "string option"
  be_boundary :: "string option"
  be_status :: "string option"
  be_actor :: "string option"
  be_contexts :: "temporal_context list"
  be_result :: "action_outcome option"
  be_provenance :: "activity_provenance option"

record 'rest native_part =
  np_time :: "time_state option"
  np_history :: "(string, behavior_event list) pydict"
  np_rest :: 'rest

type_synonym 'rest run_snapshot = "'rest native_part scheduler_snapshot"

text \<open>
  What the native runtime may hand back: the typed action result, a plain \<open>ApplyResult\<close> without
  action outcome (of which only the diagnostics are read), or any other object.
\<close>

record 'rest native_result =
  nt_success :: bool
  nt_snapshot :: "'rest run_snapshot"
  nt_diagnostics :: "diagnostic list"
  nt_changed :: "string list"
  nt_action :: "action_outcome option"

datatype 'rest native_return = ActionResult "'rest native_result" | BareResult "diagnostic list" | OtherObject

record execution_binding =
  xb_contract :: string
  xb_targets :: "string list"

record scheduler_policy =
  sl_activity :: activity_policy
  sl_profile :: string
  sl_clock :: string
  sl_temporal :: "string list"
  sl_contracts :: "string list"
  sl_bindings :: "execution_binding list"
  sl_boundary :: string
  sl_implementation :: string
  sl_resources :: resource_policy

text \<open>The arguments of \<open>bind_autonomous_action\<close>.\<close>

record binding_call =
  bc_participant :: string
  bc_contract :: string
  bc_boundary :: string
  bc_implementation :: string
  bc_instance :: string
  bc_contexts :: "temporal_context list"

record 'rest native_env =
  ne_bind :: "binding_call \<Rightarrow> 'rest run_snapshot \<Rightarrow> action_request res"
  ne_check :: "action_request \<Rightarrow> unit res"
  ne_admit :: "action_request \<Rightarrow> 'rest run_snapshot \<Rightarrow> 'rest native_return res"
  ne_rebind :: "action_request \<Rightarrow> action_outcome \<Rightarrow> string option"
  ne_event_ok :: "behavior_event \<Rightarrow> bool"
  ne_random :: random_env
  ne_sha :: "string \<Rightarrow> string"

text \<open>\<open>SchedulerRunState\<close>; a failure is the unsuccessful result that it would return.\<close>

record 'rest run_failure =
  fl_snapshot :: "'rest run_snapshot"
  fl_diagnostics :: "diagnostic list"
  fl_changed :: "string list"

record 'rest scheduler_run =
  rn_working :: "'rest run_snapshot"
  rn_diagnostics :: "diagnostic list"
  rn_changed :: "string list"
  rn_failure :: "'rest run_failure option"

record scheduler_context =
  sx_due :: due_context
  sx_policy :: scheduler_policy
  sx_cadence :: int

abbreviation sx_control :: "scheduler_context \<Rightarrow> random_control option" where
  "sx_control x \<equiv> du_control (sx_due x)"

section \<open>Shared time\<close>

definition clock_coordinate :: "'rest run_snapshot \<Rightarrow> string \<Rightarrow> (int \<times> int) res" where
  "clock_coordinate sn clock =
     (case np_time (sp_rest (sn_rest sn)) of
        None \<Rightarrow> Inl (ValueError ''autonomous participant execution requires typed shared-time state'')
      | Some ts \<Rightarrow>
          (case dict_get (ts_clocks ts) clock of
             None \<Rightarrow> Inl (ValueError ''autonomous participant clock has no runtime state'')
           | Some c \<Rightarrow> Inr (co_segment (ck_coordinate c), co_tick (ck_coordinate c))))"

fun participant_domain_text :: "domain_kind \<Rightarrow> string" where
  "participant_domain_text WALL_CLOCK = ''wall_clock_time''"
| "participant_domain_text SIMULATED = ''simulation_time''"
| "participant_domain_text LOGICAL = ''scenario_time''"
| "participant_domain_text MONOTONIC = ''scenario_time''"
| "participant_domain_text EXTERNAL_TIME = ''backend_time''"

text \<open>\<open>next(item for item in items if test(item))\<close>.\<close>

definition py_next :: "('a \<Rightarrow> bool) \<Rightarrow> 'a list \<Rightarrow> 'a res" where
  "py_next f xs = (case List.find f xs of None \<Rightarrow> Inl StopIteration | Some x \<Rightarrow> Inr x)"

definition participant_time_domain :: "scheduler_policy \<Rightarrow> compiled_time_model \<Rightarrow> string res" where
  "participant_time_domain p m =
     res_bind (py_next (\<lambda>c. cck_address c = sl_clock p) (ctm_clocks m)) (\<lambda>clock.
     res_bind (py_next (\<lambda>d. cdm_address d = cck_domain clock) (ctm_domains m)) (\<lambda>domain.
       Inr (participant_domain_text (cdm_kind domain))))"

section \<open>Binding\<close>

definition measurement_requirements :: "scheduler_policy \<Rightarrow> measurement_requirement list" where
  "measurement_requirements p =
     (if sl_profile p \<noteq> execution_v3 then []
      else map (\<lambda>d. \<lparr>mr_budget_state_ref = demand_state_ref (sl_resources p) d, mr_kind = dm_kind d, mr_unit = dm_unit d,
          mr_meter = dm_meter d, mr_reserved = dm_reservation d\<rparr>) (rp_demands (sl_resources p)))"

definition attempt_instance_id :: "scheduler_context \<Rightarrow> activity_state \<Rightarrow> string" where
  "attempt_instance_id x s =
     (if sl_profile (sx_policy x) \<in> {execution_v2, execution_v3} then attempt_identity (sx_due x) s
      else ap_address (du_policy (sx_due x)) @ '':'' @ du_participant (sx_due x) @ '':'' @ int_text (xs_attempted s))"

definition temporal_contexts :: "scheduler_context \<Rightarrow> int \<Rightarrow> string list \<Rightarrow> temporal_context list res" where
  "temporal_contexts x segment addresses =
     res_map (\<lambda>address. res_bind (participant_time_domain (sx_policy x) (du_time (sx_due x))) (\<lambda>domain.
       Inr \<lparr>tx_contract = address, tx_domain = domain, tx_clock = sl_clock (sx_policy x),
            tx_observation = sl_clock (sx_policy x) @ ''@segment='' @ int_text segment @ '',tick='' @ int_text (du_tick (sx_due x)),
            tx_reset = sl_clock (sx_policy x) @ '':segment='' @ int_text segment\<rparr>)) addresses"

definition action_address :: "scheduler_policy \<Rightarrow> activity_state \<Rightarrow> string res" where
  "action_address p s =
     (if sl_contracts p = [] then Inl (ZeroDivisionError ''integer modulo by zero'')
      else Inr (sl_contracts p ! (xs_index s mod length (sl_contracts p))))"

definition bound_action_request ::
  "'rest native_env \<Rightarrow> scheduler_context \<Rightarrow> 'rest run_snapshot \<Rightarrow> activity_state \<Rightarrow> action_request res" where
  "bound_action_request env x working s =
     (let p = sx_policy x; instance_id = attempt_instance_id x s; participant = du_participant (sx_due x);
          scope = ap_address (sl_activity p) in
      res_bind (action_address p s) (\<lambda>contract.
      res_bind (clock_coordinate working (sl_clock p)) (\<lambda>(segment, tick).
      res_bind (temporal_contexts x segment (sl_temporal p)) (\<lambda>contexts.
      res_bind (ne_bind env \<lparr>bc_participant = participant, bc_contract = contract, bc_boundary = sl_boundary p,
          bc_implementation = sl_implementation p, bc_instance = instance_id, bc_contexts = contexts\<rparr> working) (\<lambda>request.
      res_bind (require_that (aq_manifest request = sl_implementation p)
        (ValueError ''participant implementation selection does not match the autonomous execution policy'')) (\<lambda>_.
      case filter (\<lambda>b. xb_contract b = contract) (sl_bindings p) of
        [b] \<Rightarrow>
          (case dict_get (snapshot_services working) scope of
             None \<Rightarrow> Inl (ValueError ''autonomous participant action requires execution-service state'')
           | Some payload \<Rightarrow>
               res_bind (read_service payload) (\<lambda>service.
               let bound = request\<lparr>aq_participant := participant, aq_contract := contract, aq_boundary := sl_boundary p,
                     aq_instance := instance_id, aq_contexts := contexts, aq_terminal := True, aq_targets := xb_targets b,
                     aq_scope := Some scope, aq_generation := Some (sv_generation service),
                     aq_requirements := measurement_requirements p\<rparr> in
               res_bind (ne_check env bound) (\<lambda>_. Inr bound)))
      | _ \<Rightarrow> Inl (ValueError ''autonomous participant action must resolve exactly one execution binding'')))))))"

section \<open>Native results\<close>

definition terminal_statuses :: "string list" where
  "terminal_statuses = [''succeeded'', ''failed'', ''partial_success'', ''rejected'', ''withheld'']"

definition native_result_violation :: "'rest native_return \<Rightarrow> string \<Rightarrow> string option" where
  "native_result_violation ret episode =
     (case ret of
        ActionResult r \<Rightarrow>
          (case nt_action r of
             None \<Rightarrow> Some ''participant runtime did not return a typed action outcome''
           | Some a \<Rightarrow>
               if ac_status a \<notin> set terminal_statuses then Some ''participant runtime returned a non-terminal action outcome''
               else if ac_episode a \<noteq> episode
               then Some ''participant runtime action outcome does not match the live episode''
               else None)
      | _ \<Rightarrow> Some ''participant runtime did not return ParticipantActionApplyResult'')"

definition protected_state_violation :: "'rest run_snapshot \<Rightarrow> 'rest run_snapshot \<Rightarrow> string option" where
  "protected_state_violation sn predecessor =
     (if snapshot_states sn \<noteq> snapshot_states predecessor
      then Some ''participant runtime changed scheduler-owned snapshot field participant_autonomous_execution_states''
      else if snapshot_services sn \<noteq> snapshot_services predecessor
      then Some ''participant runtime changed scheduler-owned snapshot field participant_execution_services''
      else None)"

definition history_of :: "'rest run_snapshot \<Rightarrow> string \<Rightarrow> behavior_event list" where
  "history_of sn participant =
     (case dict_get (np_history (sp_rest (sn_rest sn))) participant of None \<Rightarrow> [] | Some es \<Rightarrow> es)"

definition required_event_types :: "string list" where
  "required_event_types = [''action_attempted'', ''state_transition_recorded'', ''observation_emitted'']"

definition history_structure_violation ::
  "'rest native_env \<Rightarrow> action_request \<Rightarrow> 'rest run_snapshot \<Rightarrow> 'rest run_snapshot \<Rightarrow> string + behavior_event list" where
  "history_structure_violation env q sn predecessor =
     (let prior = history_of predecessor (aq_participant q); history = history_of sn (aq_participant q);
          appended = drop (length prior) history in
      if length history < length prior \<or> take (length prior) history \<noteq> prior
      then Inl ''participant runtime rewrote predecessor behavior history''
      else if \<not> list_all (ne_event_ok env) appended
      then Inl ''participant runtime appended an invalid behavior history event''
      else if map be_type appended \<noteq> required_event_types
      then Inl ''participant runtime did not append the required ordered action history''
      else Inr appended)"

definition history_context_violation :: "action_request \<Rightarrow> behavior_event list \<Rightarrow> string \<Rightarrow> string option" where
  "history_context_violation q appended episode =
     (if \<not> list_all (\<lambda>e. be_participant e = aq_participant q \<and> be_episode e = episode \<and>
           be_instance e = aq_instance q \<and> be_contract e = Some (aq_contract q) \<and> be_contexts e = aq_contexts q) appended
      then Some ''participant runtime appended behavior history outside the bound action context''
      else if be_actor (hd appended) \<noteq> Some (aq_actor q)
      then Some ''participant runtime action history contradicts selected implementation provenance''
      else None)"

definition terminal_observation_violation :: "action_request \<Rightarrow> behavior_event list \<Rightarrow> action_outcome \<Rightarrow> string option" where
  "terminal_observation_violation q appended a =
     (let observation = last appended in
      if be_boundary observation \<noteq> Some (aq_boundary q) \<or> be_status observation \<noteq> Some ''terminal'' \<or>
         be_result observation \<noteq> Some a
      then Some ''participant runtime did not commit the bound terminal observation to behavior history'' else None)"

text \<open>The first violation, in the order of the checks, of a result that has passed the native check.\<close>

definition committed_result_violation ::
  "'rest native_env \<Rightarrow> action_request \<Rightarrow> 'rest run_snapshot \<Rightarrow> action_outcome \<Rightarrow> string \<Rightarrow> 'rest run_snapshot \<Rightarrow>
     string option" where
  "committed_result_violation env q sn a episode predecessor =
     (case protected_state_violation sn predecessor of
        Some v \<Rightarrow> Some v
      | None \<Rightarrow>
          (case ne_rebind env q a of
             Some v \<Rightarrow> Some v
           | None \<Rightarrow>
               (case history_structure_violation env q sn predecessor of
                  Inl v \<Rightarrow> Some v
                | Inr appended \<Rightarrow>
                    (case history_context_violation q appended episode of
                       Some v \<Rightarrow> Some v
                     | None \<Rightarrow> terminal_observation_violation q appended a))))"

definition action_result_violation ::
  "'rest native_env \<Rightarrow> action_request \<Rightarrow> 'rest native_return \<Rightarrow> string \<Rightarrow> 'rest run_snapshot \<Rightarrow> string option" where
  "action_result_violation env q ret episode predecessor =
     (case native_result_violation ret episode of
        Some v \<Rightarrow> Some v
      | None \<Rightarrow>
          (case ret of
             ActionResult r \<Rightarrow>
               (case nt_action r of
                  Some a \<Rightarrow> committed_result_violation env q (nt_snapshot r) a episode predecessor
                | None \<Rightarrow> None)
           | _ \<Rightarrow> None))"

section \<open>The run state\<close>

definition returned_diagnostics :: "'rest native_return \<Rightarrow> diagnostic list" where
  "returned_diagnostics ret = (case ret of ActionResult r \<Rightarrow> nt_diagnostics r | BareResult ds \<Rightarrow> ds | OtherObject \<Rightarrow> [])"

definition add_diagnostics :: "diagnostic list \<Rightarrow> 'rest scheduler_run \<Rightarrow> 'rest scheduler_run" where
  "add_diagnostics ds run = run\<lparr>rn_diagnostics := rn_diagnostics run @ ds\<rparr>"

definition record_failure :: "'rest scheduler_run \<Rightarrow> 'rest scheduler_run" where
  "record_failure run =
     run\<lparr>rn_failure := Some \<lparr>fl_snapshot = rn_working run, fl_diagnostics = rn_diagnostics run,
       fl_changed = fromkeys (rn_changed run)\<rparr>\<rparr>"

definition protocol_invalid_code :: string where
  "protocol_invalid_code = ''runtime.participant-autonomous-action-protocol-invalid''"

definition record_protocol_result ::
  "scheduler_context \<Rightarrow> 'rest scheduler_run \<Rightarrow> 'rest run_snapshot \<Rightarrow> 'rest native_return \<Rightarrow> string option \<Rightarrow>
     bool \<times> 'rest scheduler_run" where
  "record_protocol_result x run predecessor ret violation =
     (let run' = add_diagnostics (returned_diagnostics ret) run in
      case violation of
        None \<Rightarrow> (False, (case ret of ActionResult r \<Rightarrow> run'\<lparr>rn_working := nt_snapshot r\<rparr> | _ \<Rightarrow> run'))
      | Some v \<Rightarrow>
          (True, (add_diagnostics [\<lparr>dg_code = protocol_invalid_code, dg_address = du_participant (sx_due x)\<rparr>] run')
             \<lparr>rn_working := predecessor\<rparr>))"

section \<open>Resources\<close>

text \<open>A bound request always carries a generation; \<open>request.execution_generation or 0\<close>.\<close>

definition request_generation :: "action_request \<Rightarrow> int" where
  "request_generation q = or_zero (aq_generation q)"

definition reserve_activity_resources ::
  "'rest native_env \<Rightarrow> scheduler_context \<Rightarrow> action_request \<Rightarrow> 'rest scheduler_run \<Rightarrow> (bool \<times> 'rest scheduler_run) res" where
  "reserve_activity_resources env x q run =
     (if sl_profile (sx_policy x) \<noteq> execution_v3 then Inr (True, run)
      else res_bind (reserve_participant_resources (ne_sha env) (rn_working run) (sl_resources (sx_policy x))
          (aq_instance q) (request_generation q) None) (\<lambda>reservation.
        let run' = add_diagnostics (ar_diagnostics reservation) (run\<lparr>rn_working := ar_snapshot reservation\<rparr>) in
        Inr (if ar_success reservation then (True, run') else (False, record_failure run'))))"

definition requirement_map :: "action_request \<Rightarrow> (string, measurement_requirement) pydict" where
  "requirement_map q = foldl (\<lambda>d m. dict_set (mr_budget_state_ref m) m d) [] (aq_requirements q)"

definition measurement_map :: "action_outcome option \<Rightarrow> (string, resource_measurement) pydict" where
  "measurement_map a =
     foldl (\<lambda>d m. dict_set (me_budget_state_ref m) m d) [] (case a of None \<Rightarrow> [] | Some r \<Rightarrow> ac_measurements r)"

definition measurement_matches ::
  "action_request \<Rightarrow> (string, measurement_requirement) pydict \<Rightarrow> string \<times> resource_measurement \<Rightarrow> bool" where
  "measurement_matches q requirements entry \<longleftrightarrow>
     (case dict_get requirements (fst entry) of
        None \<Rightarrow> False
      | Some requirement \<Rightarrow>
          me_operation_id (snd entry) = aq_instance q \<and> Some (me_execution_generation (snd entry)) = aq_generation q \<and>
          me_kind (snd entry) = mr_kind requirement \<and> me_unit (snd entry) = mr_unit requirement \<and>
          me_meter (snd entry) = mr_meter requirement)"

text \<open>The code reads \<open>result.action_result\<close>, which only the typed result has.\<close>

definition trusted_measurements ::
  "action_request \<Rightarrow> 'rest native_return \<Rightarrow> bool \<Rightarrow> (string, resource_measurement) pydict option res" where
  "trusted_measurements q ret protocol_failure =
     (case ret of
        ActionResult r \<Rightarrow>
          (let requirements = requirement_map q; measurements = measurement_map (nt_action r) in
           Inr (if \<not> protocol_failure \<and> aq_generation q \<noteq> None \<and>
                set (dict_keys measurements) = set (dict_keys requirements) \<and>
                list_all (measurement_matches q requirements) measurements
              then Some measurements else None))
      | _ \<Rightarrow> Inl (AttributeError ''action_result''))"

definition release_untrusted_measurements ::
  "'rest native_env \<Rightarrow> scheduler_context \<Rightarrow> action_request \<Rightarrow> bool \<Rightarrow> 'rest scheduler_run \<Rightarrow>
     (bool \<times> 'rest scheduler_run) res" where
  "release_untrusted_measurements env x q protocol_failure run =
     res_bind (release_participant_resource_reservation (ne_sha env) (rn_working run) (aq_instance q)
         (request_generation q) [''evidence:'' @ aq_instance q @ '':resource-release'']) (\<lambda>released.
       let run' = add_diagnostics (ar_diagnostics released) (run\<lparr>rn_working := ar_snapshot released\<rparr>);
           run'' = (if protocol_failure then run'
             else add_diagnostics [\<lparr>dg_code = ''runtime.participant-resource-measurement-untrusted'',
               dg_address = ap_address (du_policy (sx_due x))\<rparr>] run') in
       Inr (False, record_failure run''))"

definition commit_trusted_measurements ::
  "'rest native_env \<Rightarrow> action_request \<Rightarrow> (string, resource_measurement) pydict \<Rightarrow> 'rest scheduler_run \<Rightarrow>
     (bool \<times> 'rest scheduler_run) res" where
  "commit_trusted_measurements env q measurements run =
     res_bind (commit_participant_resource_reservation (ne_sha env) (rn_working run) (aq_instance q)
         (request_generation q) (map (\<lambda>(ref, m). (ref, me_measured m)) measurements)
         (fromkeys (concat (map me_evidence_refs (dict_values measurements))))) (\<lambda>committed.
       let run' = add_diagnostics (ar_diagnostics committed) (run\<lparr>rn_working := ar_snapshot committed\<rparr>) in
       Inr (if ar_success committed then (True, run') else (False, record_failure run')))"

definition commit_activity_resources ::
  "'rest native_env \<Rightarrow> scheduler_context \<Rightarrow> action_request \<Rightarrow> 'rest native_return \<Rightarrow> bool \<Rightarrow> 'rest scheduler_run \<Rightarrow>
     (bool \<times> 'rest scheduler_run) res" where
  "commit_activity_resources env x q ret protocol_failure run =
     (if sl_profile (sx_policy x) \<noteq> execution_v3 then Inr (True, run)
      else res_bind (trusted_measurements q ret protocol_failure) (\<lambda>trusted.
        case trusted of
          None \<Rightarrow> release_untrusted_measurements env x q protocol_failure run
        | Some measurements \<Rightarrow> commit_trusted_measurements env q measurements run))"

section \<open>Persisting a state\<close>

definition persist_activity_state ::
  "'rest scheduler_run \<Rightarrow> string \<Rightarrow> activity_state \<Rightarrow> 'rest scheduler_run res" where
  "persist_activity_state run key s =
     res_bind (with_scheduler_members (rn_working run) (dict_set key s (snapshot_states (rn_working run)))
         (snapshot_services (rn_working run))) (\<lambda>sn.
       Inr (run\<lparr>rn_working := sn, rn_changed := rn_changed run @ [key]\<rparr>))"

section \<open>Provenance\<close>

fun timing_text :: "timing_disposition \<Rightarrow> string" where
  "timing_text CADENCE_TICK = ''cadence''"
| "timing_text DRAWN_TICK = ''drawn''"
| "timing_text NEXT_OPENING = ''next_opening''"

definition check_provenance :: "activity_provenance \<Rightarrow> unit res" where
  "check_provenance p =
     require_that (pv_policy p \<noteq> [] \<and> pv_profile p \<in> {execution_v2, execution_v3} \<and> pv_occurrence p \<noteq> [] \<and>
         pv_attempt p \<noteq> [] \<and> pv_predecessor p \<noteq> Some [] \<and> pv_candidate p \<noteq> [] \<and>
         list_all (\<lambda>d. d \<noteq> []) (pv_dependencies p) \<and> 0 \<le> pv_tick p \<and>
         pv_disposition p \<in> {''drawn'', ''next_opening'', ''retry'', ''burst''} \<and> 0 \<le> pv_burst_position p \<and>
         pv_control p \<noteq> [] \<and> pv_random_profile p \<noteq> [] \<and> pv_outcome p \<noteq> [])
       (ValidationError ''ParticipantActivityOccurrenceProvenanceModel'')"

definition provenance_disposition :: "activity_state \<Rightarrow> string" where
  "provenance_disposition s =
     (if xs_retry s \<noteq> 0 then ''retry'' else if xs_burst_position s \<noteq> 0 then ''burst'' else timing_text (xs_timing s))"

definition activity_provenance_of ::
  "scheduler_context \<Rightarrow> activity_state \<Rightarrow> action_request \<Rightarrow> string \<Rightarrow> activity_provenance res" where
  "activity_provenance_of x s q outcome =
     (let c = sx_due x; p = du_policy c in
      case du_control c of
        None \<Rightarrow> Inl (ValueError ''participant activity provenance requires a random control'')
      | Some control \<Rightarrow>
          res_bind (py_index (ap_candidates p) (xs_index s)) (\<lambda>candidate.
          res_bind (py_index (ap_dependencies p) (xs_index s)) (\<lambda>needs.
          res_bind (activity_draw_address (draw_context_of c control (xs_segment s) (xs_occurrence s)) 1) (\<lambda>address.
          let provenance =
            \<lparr>pv_policy = ap_address p, pv_profile = sl_profile (sx_policy x),
             pv_occurrence = ap_address p @ '':'' @ du_participant c @ '':segment='' @ int_text (xs_segment s) @
               '':occurrence='' @ int_text (xs_occurrence s),
             pv_attempt = aq_instance q,
             pv_predecessor = (if xs_retry s \<noteq> 0
               then Some (activity_attempt_id (ap_address p) (du_participant c) (xs_episode s) (xs_segment s)
                 (xs_occurrence s) (xs_retry s - 1)) else None),
             pv_candidate = candidate, pv_dependencies = needs, pv_tick = du_tick c,
             pv_disposition = provenance_disposition s, pv_burst_position = xs_burst_position s,
             pv_control = rc_id control, pv_random_profile = rc_profile control, pv_address = address,
             pv_outcome = outcome\<rparr> in
          res_bind (check_provenance provenance) (\<lambda>_. Inr provenance)))))"

definition enrich_event ::
  "'rest native_env \<Rightarrow> action_request \<Rightarrow> activity_provenance \<Rightarrow> behavior_event \<Rightarrow> behavior_event res" where
  "enrich_event env q provenance e =
     (if be_instance e \<noteq> aq_instance q then Inr e
      else let enriched = e\<lparr>be_provenance := Some provenance\<rparr> in
        res_bind (require_that (ne_event_ok env enriched) (ValidationError ''ParticipantBehaviorHistoryEventModel''))
          (\<lambda>_. Inr enriched))"

definition annotate_activity_history ::
  "'rest native_env \<Rightarrow> scheduler_context \<Rightarrow> activity_state \<Rightarrow> action_request \<Rightarrow> string \<Rightarrow> 'rest scheduler_run \<Rightarrow>
     'rest scheduler_run res" where
  "annotate_activity_history env x s q outcome run =
     res_bind (activity_provenance_of x s q outcome) (\<lambda>provenance.
     let sn = rn_working run; participant = du_participant (sx_due x) in
     res_bind (res_map (enrich_event env q provenance) (history_of sn participant)) (\<lambda>events.
     let part = sp_rest (sn_rest sn);
         annotated = sn\<lparr>sn_rest := (sn_rest sn)\<lparr>sp_rest :=
           part\<lparr>np_history := dict_set participant events (np_history part)\<rparr>\<rparr>\<rparr> in
     res_bind (with_scheduler_members annotated (snapshot_states sn) (snapshot_services sn)) (\<lambda>sn'.
       Inr (run\<lparr>rn_working := sn'\<rparr>))))"

end
