(* ===== verification/Scheduler_Due.thy ===== *)
theory Scheduler_Due
  imports Scheduler_Actions
begin

text \<open>
  Due work: one action of the activity profiles and of profile v1 with the loops around them
  (\<open>raes_runtime/participant_scheduler_operations.py\<close>) and the pass over participants and policies
  (\<open>participant_scheduler.py\<close>). The loops are \<open>while\<close> loops of the code: partial functions whose
  \<open>None\<close> is divergence. The overlapped execution of profile v1
  (\<open>participant_scheduler_concurrency.py\<close>) is not modelled; it is the argument \<open>overlap\<close> of the pass.
\<close>

section \<open>One action of an activity profile\<close>

definition returned_success :: "'rest native_return \<Rightarrow> bool" where
  "returned_success ret \<longleftrightarrow> (case ret of ActionResult r \<Rightarrow> nt_success r | _ \<Rightarrow> False)"

definition returned_action :: "'rest native_return \<Rightarrow> action_outcome option" where
  "returned_action ret = (case ret of ActionResult r \<Rightarrow> nt_action r | _ \<Rightarrow> None)"

definition returned_changes :: "'rest native_return \<Rightarrow> string list" where
  "returned_changes ret = (case ret of ActionResult r \<Rightarrow> nt_changed r | _ \<Rightarrow> [])"

definition action_succeeded :: "bool \<Rightarrow> 'rest native_return \<Rightarrow> bool" where
  "action_succeeded protocol_failure ret \<longleftrightarrow>
     \<not> protocol_failure \<and> returned_success ret \<and> map_option ac_status (returned_action ret) = Some ''succeeded''"

definition failure_class_of :: "'rest native_return \<Rightarrow> string option" where
  "failure_class_of ret = (case returned_action ret of None \<Rightarrow> None | Some a \<Rightarrow> ac_failure a)"

text \<open>\<open>str(status or "unknown")\<close>.\<close>

definition outcome_text :: "'rest native_return \<Rightarrow> string" where
  "outcome_text ret =
     (case returned_action ret of
        None \<Rightarrow> ''unknown''
      | Some a \<Rightarrow> if ac_status a = [] then ''unknown'' else ac_status a)"

text \<open>What follows a result whose resources are settled: history, next state, change list, failure.\<close>

definition settle_activity_action ::
  "'rest native_env \<Rightarrow> scheduler_context \<Rightarrow> activity_state \<Rightarrow> action_request \<Rightarrow> 'rest native_return \<Rightarrow> bool \<Rightarrow>
     'rest scheduler_run \<Rightarrow> (activity_state \<times> 'rest scheduler_run) res option" where
  "settle_activity_action env x s q ret protocol_failure run =
     run_bind (Some (if protocol_failure then Inr run else annotate_activity_history env x s q (outcome_text ret) run))
       (\<lambda>run1.
     run_bind (next_activity_occurrence_state (ne_random env) (sx_due x) s (aq_instance q)
         (action_succeeded protocol_failure ret) (failure_class_of ret) protocol_failure) (\<lambda>t.
     run_bind (Some (persist_activity_state run1 (du_key (sx_due x)) t)) (\<lambda>run2.
       let run3 = (if protocol_failure then run2 else run2\<lparr>rn_changed := rn_changed run2 @ returned_changes ret\<rparr>) in
       Some (Inr (t, if xs_lifecycle t = EXEC_FAILED then record_failure run3 else run3)))))"

definition run_one_activity_action ::
  "'rest native_env \<Rightarrow> scheduler_context \<Rightarrow> activity_state \<Rightarrow> 'rest scheduler_run \<Rightarrow>
     (activity_state \<times> 'rest scheduler_run) res option" where
  "run_one_activity_action env x s run =
     run_bind (Some (bound_action_request env x (rn_working run) s)) (\<lambda>q.
     run_bind (Some (reserve_activity_resources env x q run)) (\<lambda>(reserved, run1).
       if \<not> reserved then Some (Inr (s, run1))
       else
         run_bind (Some (ne_admit env q (rn_working run1))) (\<lambda>ret.
         let violation = action_result_violation env q ret (xs_episode s) (rn_working run1) in
         case record_protocol_result x run1 (rn_working run1) ret violation of (protocol_failure, run2) \<Rightarrow>
           run_bind (Some (commit_activity_resources env x q ret protocol_failure run2)) (\<lambda>(committed, run3).
             if \<not> committed then Some (Inr (s, run3))
             else settle_activity_action env x s q ret protocol_failure run3))))"

section \<open>One action of profile v1\<close>

definition stale_completion :: "action_request \<Rightarrow> 'rest run_snapshot \<Rightarrow> diagnostic option res" where
  "stale_completion q sn =
     (case aq_scope q of
        None \<Rightarrow> Inr None
      | Some scope \<Rightarrow>
          res_bind (case dict_get (snapshot_services sn) scope of
              None \<Rightarrow> Inr False
            | Some payload \<Rightarrow> res_bind (read_service payload) (\<lambda>service.
                Inr (Some (sv_generation service) = aq_generation q \<and>
                  Some (sv_observed_generation service) = aq_generation q))) (\<lambda>current.
            Inr (if current then None
              else Some \<lparr>dg_code = ''runtime.participant-execution-stale-completion'', dg_address = aq_participant q\<rparr>)))"

definition next_action_state ::
  "scheduler_context \<Rightarrow> activity_state \<Rightarrow> string \<Rightarrow> bool \<Rightarrow> bool \<Rightarrow> activity_state res" where
  "next_action_state x s instance_id succeeded protocol_failure =
     (let attempted = xs_attempted s + 1; p = du_policy (sx_due x); n = length (sl_contracts (sx_policy x)) in
      if n = 0 then Inl (ZeroDivisionError ''integer modulo by zero'')
      else Inr (s\<lparr>xs_lifecycle :=
               (if protocol_failure \<or> (\<not> succeeded \<and> ap_failure_policy p = ''stop'') then EXEC_FAILED
                else if ap_max_attempts p \<le> attempted then EXEC_COMPLETED else xs_lifecycle s),
             xs_next_tick := xs_next_tick s + sx_cadence x, xs_index := (xs_index s + 1) mod n,
             xs_attempted := attempted, xs_succeeded := xs_succeeded s + (if succeeded then 1 else 0),
             xs_failed := xs_failed s + (if succeeded then 0 else 1), xs_last_action := Some instance_id\<rparr>))"

definition settle_due_action ::
  "scheduler_context \<Rightarrow> activity_state \<Rightarrow> action_request \<Rightarrow> 'rest native_return \<Rightarrow> bool \<Rightarrow> 'rest scheduler_run \<Rightarrow>
     (activity_state \<times> 'rest scheduler_run) res" where
  "settle_due_action x s q ret protocol_failure run =
     (let succeeded = action_succeeded protocol_failure ret; key = du_key (sx_due x) in
      res_bind (next_action_state x s (aq_instance q) succeeded protocol_failure) (\<lambda>t.
      res_bind (with_scheduler_members (rn_working run) (dict_set key t (snapshot_states (rn_working run)))
          (snapshot_services (rn_working run))) (\<lambda>sn.
        let run1 = run\<lparr>rn_working := sn,
              rn_changed := rn_changed run @ (if protocol_failure then [] else returned_changes ret) @ [key]\<rparr> in
        Inr (t, if protocol_failure \<or> (\<not> succeeded \<and> ap_failure_policy (du_policy (sx_due x)) = ''stop'')
          then record_failure run1 else run1))))"

definition run_one_due_action ::
  "'rest native_env \<Rightarrow> scheduler_context \<Rightarrow> activity_state \<Rightarrow> 'rest scheduler_run \<Rightarrow>
     (activity_state \<times> 'rest scheduler_run) res" where
  "run_one_due_action env x s run =
     res_bind (bound_action_request env x (rn_working run) s) (\<lambda>q.
     res_bind (ne_admit env q (rn_working run)) (\<lambda>ret.
     res_bind (stale_completion q (rn_working run)) (\<lambda>stale.
       case stale of
         Some d \<Rightarrow> Inr (s, record_failure (add_diagnostics [d] run))
       | None \<Rightarrow>
           let violation = action_result_violation env q ret (xs_episode s) (rn_working run) in
           case record_protocol_result x run (rn_working run) ret violation of (protocol_failure, run1) \<Rightarrow>
             settle_due_action x s q ret protocol_failure run1)))"

section \<open>Loops\<close>

definition still_due :: "scheduler_context \<Rightarrow> activity_state \<Rightarrow> 'rest scheduler_run \<Rightarrow> bool" where
  "still_due x s run \<longleftrightarrow> activity_action_is_due (sx_due x) s (rn_failure run \<noteq> None)"

text \<open>Nothing is eligible: the participant waits for a later tick or completes.\<close>

definition persist_empty_state ::
  "'rest native_env \<Rightarrow> scheduler_context \<Rightarrow> activity_state \<Rightarrow> 'rest scheduler_run \<Rightarrow> 'rest scheduler_run res option" where
  "persist_empty_state env x s run =
     run_bind (empty_activity_state (ne_random env) (sx_due x) s) (\<lambda>t.
       Some (persist_activity_state run (du_key (sx_due x)) t))"

partial_function (option) run_participant_activity_due ::
  "'rest native_env \<Rightarrow> scheduler_context \<Rightarrow> activity_state \<Rightarrow> 'rest scheduler_run \<Rightarrow> 'rest scheduler_run res option" where
  "run_participant_activity_due env x s run =
     (if \<not> still_due x s run then Some (Inr run)
      else case selected_activity_index (ne_random env) (sx_due x) s of
        Inl e \<Rightarrow> Some (Inl e)
      | Inr None \<Rightarrow> persist_empty_state env x s run
      | Inr (Some i) \<Rightarrow>
          (case run_one_activity_action env x (s\<lparr>xs_index := i\<rparr>) run of
             None \<Rightarrow> None
           | Some (Inl e) \<Rightarrow> Some (Inl e)
           | Some (Inr (t, run')) \<Rightarrow> run_participant_activity_due env x t run'))"

partial_function (option) run_legacy_participant_due ::
  "'rest native_env \<Rightarrow> scheduler_context \<Rightarrow> activity_state \<Rightarrow> 'rest scheduler_run \<Rightarrow> 'rest scheduler_run res option" where
  "run_legacy_participant_due env x s run =
     (if \<not> still_due x s run then Some (Inr run)
      else case run_one_due_action env x s run of
        Inl e \<Rightarrow> Some (Inl e)
      | Inr (t, run') \<Rightarrow> run_legacy_participant_due env x t run')"

declare run_participant_activity_due.simps [code] run_legacy_participant_due.simps [code]

definition cadence_missed :: "string \<Rightarrow> 'rest scheduler_run \<Rightarrow> 'rest scheduler_run" where
  "cadence_missed key run =
     run\<lparr>rn_failure := Some \<lparr>fl_snapshot = rn_working run,
       fl_diagnostics = [\<lparr>dg_code = ''runtime.participant-autonomous-cadence-missed'', dg_address = key\<rparr>],
       fl_changed = []\<rparr>\<rparr>"

definition run_participant_due ::
  "'rest native_env \<Rightarrow> scheduler_context \<Rightarrow> 'rest scheduler_run \<Rightarrow> 'rest scheduler_run res option" where
  "run_participant_due env x run =
     run_bind (Some (res_bind (dict_item (snapshot_states (rn_working run)) (du_key (sx_due x))) (\<lambda>payload.
       res_bind (check_activity_state payload) (\<lambda>_. Inr payload)))) (\<lambda>s.
     if xs_lifecycle s = EXEC_RUNNING \<and> xs_next_tick s < du_tick (sx_due x)
     then Some (Inr (cadence_missed (du_key (sx_due x)) run))
     else if sl_profile (sx_policy x) \<in> {execution_v2, execution_v3}
     then run_participant_activity_due env x s run
     else run_legacy_participant_due env x s run)"

section \<open>The pass over participants and policies\<close>

definition participant_due_context ::
  "scheduler_policy \<Rightarrow> compiled_time_model \<Rightarrow> (string, random_control) pydict \<Rightarrow> int \<Rightarrow> int \<Rightarrow> string \<Rightarrow> scheduler_context" where
  "participant_due_context p m controls tick cadence participant =
     \<lparr>sx_due = \<lparr>du_policy = sl_activity p, du_time = m, du_participant = participant,
        du_key = ap_address (sl_activity p) @ ''.state.'' @ participant, du_tick = tick,
        du_control = activity_control_for (sl_activity p) controls\<rparr>,
      sx_policy = p, sx_cadence = cadence\<rparr>"

fun run_serial_due ::
  "'rest native_env \<Rightarrow> (string \<Rightarrow> scheduler_context) \<Rightarrow> string list \<Rightarrow> 'rest scheduler_run \<Rightarrow>
     'rest scheduler_run res option" where
  "run_serial_due env ctx [] run = Some (Inr run)"
| "run_serial_due env ctx (participant # rest) run =
     run_bind (run_participant_due env (ctx participant) run) (\<lambda>run'.
       if rn_failure run' \<noteq> None then Some (Inr run') else run_serial_due env ctx rest run')"

definition cadence_constraint :: "scheduler_policy \<Rightarrow> compiled_time_model \<Rightarrow> (int \<times> int) res" where
  "cadence_constraint p m =
     (case filter (\<lambda>c. ccn_address c \<in> set (sl_temporal p) \<and> ccn_kind c = CADENCE) (ctm_constraints m) of
        [c] \<Rightarrow>
          (case ccn_cadence c of
             None \<Rightarrow> Inl (ValueError ''autonomous participant execution requires exactly one cadence constraint'')
           | Some ticks \<Rightarrow> Inr (or_zero (ccn_start_tick c), ticks))
      | _ \<Rightarrow> Inl (ValueError ''autonomous participant execution requires exactly one cadence constraint''))"

definition service_accepts_work :: "service_state \<Rightarrow> bool" where
  "service_accepts_work s \<longleftrightarrow> sv_observed s = SV_RUNNING \<and> sv_accepting s \<and> sv_readiness s = READY"

definition service_has_capacity :: "service_state \<Rightarrow> bool" where
  "service_has_capacity s \<longleftrightarrow> sv_reserved s + sv_in_flight s < sv_capacity s"

definition policy_failure :: "scheduler_policy \<Rightarrow> string \<Rightarrow> 'rest scheduler_run \<Rightarrow> 'rest scheduler_run" where
  "policy_failure p code run =
     run\<lparr>rn_failure := Some \<lparr>fl_snapshot = rn_working run,
       fl_diagnostics = [\<lparr>dg_code = code, dg_address = ap_address (sl_activity p)\<rparr>], fl_changed = []\<rparr>\<rparr>"

text \<open>Without capacity, a missed cadence or any due work is a failure; no work is no failure.\<close>

fun capacity_blocked ::
  "scheduler_policy \<Rightarrow> int \<Rightarrow> string list \<Rightarrow> 'rest scheduler_run \<Rightarrow> 'rest scheduler_run res" where
  "capacity_blocked p tick [] run = Inr (run\<lparr>rn_failure := None\<rparr>)"
| "capacity_blocked p tick (participant # rest) run =
     (let key = ap_address (sl_activity p) @ ''.state.'' @ participant in
      res_bind (dict_item (snapshot_states (rn_working run)) key) (\<lambda>s.
      res_bind (check_activity_state s) (\<lambda>_.
        if xs_lifecycle s = EXEC_RUNNING \<and> xs_next_tick s < tick then Inr (cadence_missed key run)
        else if xs_lifecycle s = EXEC_RUNNING \<and> xs_next_tick s = tick \<and>
            xs_attempted s < ap_max_attempts (sl_activity p) \<and> xs_in_flight s = 0
        then Inr (policy_failure p ''runtime.participant-execution-capacity-blocked'' run)
        else capacity_blocked p tick rest run)))"

record scheduled_policy =
  cp_policy :: scheduler_policy
  cp_participants :: "string list"
  cp_max_in_flight :: int

text \<open>
  The participants of a policy that are due, up to the first missed cadence
  (\<open>_due_contexts\<close> of \<open>participant_scheduler_concurrency.py\<close>).
\<close>

fun due_contexts ::
  "scheduler_policy \<Rightarrow> int \<Rightarrow> string list \<Rightarrow> 'rest scheduler_run \<Rightarrow> (string list \<times> 'rest scheduler_run) res" where
  "due_contexts p tick [] run = Inr ([], run)"
| "due_contexts p tick (participant # rest) run =
     (let key = ap_address (sl_activity p) @ ''.state.'' @ participant in
      res_bind (dict_item (snapshot_states (rn_working run)) key) (\<lambda>s.
      res_bind (check_activity_state s) (\<lambda>_.
        if xs_lifecycle s = EXEC_RUNNING \<and> xs_next_tick s < tick then Inr ([], cadence_missed key run)
        else res_bind (due_contexts p tick rest run) (\<lambda>(due, run').
          Inr (if xs_lifecycle s = EXEC_RUNNING \<and> xs_next_tick s = tick \<and>
                 xs_attempted s < ap_max_attempts (sl_activity p) \<and> xs_in_flight s = 0
               then participant # due else due, run')))))"

text \<open>
  The decision for overlapped execution, which profile v1 alone makes, of two or more due
  participants of a policy that admits two or more actions in flight. The overlapped execution
  itself (\<open>_execute_concurrent_due_contexts\<close>, threads over copied snapshots) is not modelled:
  \<open>overlap\<close> stands for it, and may raise or not return.
\<close>

type_synonym 'rest overlapped =
  "scheduled_policy \<Rightarrow> string list \<Rightarrow> int \<Rightarrow> int \<Rightarrow> 'rest scheduler_run \<Rightarrow> 'rest scheduler_run res option"

definition run_policy_due_concurrently ::
  "'rest overlapped \<Rightarrow> scheduled_policy \<Rightarrow> int \<Rightarrow> int \<Rightarrow> 'rest scheduler_run \<Rightarrow>
     (bool \<times> 'rest scheduler_run) res option" where
  "run_policy_due_concurrently overlap cp tick cadence run =
     (if sl_profile (cp_policy cp) \<noteq> execution_v1 then Some (Inr (False, run))
      else
        run_bind (Some (due_contexts (cp_policy cp) tick (cp_participants cp) run)) (\<lambda>(due, run').
        if rn_failure run' \<noteq> None then Some (Inr (True, run'))
        else if 2 \<le> length due \<and> 2 \<le> cp_max_in_flight cp
        then run_bind (overlap cp due tick cadence run') (\<lambda>run2. Some (Inr (True, run2)))
        else Some (Inr (False, run'))))"

definition run_due_policy ::
  "'rest native_env \<Rightarrow> 'rest overlapped \<Rightarrow> compiled_time_model \<Rightarrow> (string, random_control) pydict \<Rightarrow>
     scheduled_policy \<Rightarrow> 'rest scheduler_run \<Rightarrow> 'rest scheduler_run res option" where
  "run_due_policy env overlap m controls cp run =
     (let p = cp_policy cp in
      case dict_get (snapshot_services (rn_working run)) (ap_address (sl_activity p)) of
        None \<Rightarrow> Some (Inr (policy_failure p ''runtime.participant-execution-state-missing'' run))
      | Some payload \<Rightarrow>
          run_bind (Some (read_service payload)) (\<lambda>service.
          if \<not> service_accepts_work service then Some (Inr run)
          else
            run_bind (Some (if sl_profile p = execution_v1
                then res_bind (cadence_constraint p m) (\<lambda>c. Inr (snd c)) else Inr 0)) (\<lambda>cadence.
            run_bind (Some (clock_coordinate (rn_working run) (sl_clock p))) (\<lambda>(segment, tick).
            if \<not> service_has_capacity service then Some (capacity_blocked p tick (cp_participants cp) run)
            else
              run_bind (run_policy_due_concurrently overlap cp tick cadence run) (\<lambda>(handled, run').
              if handled then Some (Inr run')
              else run_serial_due env (participant_due_context p m controls tick cadence) (cp_participants cp) run')))))"

fun run_due_policies ::
  "('p \<Rightarrow> 'rest scheduler_run \<Rightarrow> 'rest scheduler_run res option) \<Rightarrow> 'p list \<Rightarrow> 'rest scheduler_run \<Rightarrow>
     'rest scheduler_run res option" where
  "run_due_policies step [] run = Some (Inr run)"
| "run_due_policies step (p # ps) run =
     run_bind (step p run) (\<lambda>run'. if rn_failure run' \<noteq> None then Some (Inr run') else run_due_policies step ps run')"

record 'rest run_result =
  rr_success :: bool
  rr_snapshot :: "'rest run_snapshot"
  rr_diagnostics :: "diagnostic list"
  rr_changed :: "string list"

definition result_of_run :: "'rest scheduler_run \<Rightarrow> 'rest run_result" where
  "result_of_run run =
     (case rn_failure run of
        Some f \<Rightarrow> \<lparr>rr_success = False, rr_snapshot = fl_snapshot f, rr_diagnostics = fl_diagnostics f, rr_changed = fl_changed f\<rparr>
      | None \<Rightarrow> \<lparr>rr_success = True, rr_snapshot = rn_working run, rr_diagnostics = rn_diagnostics run,
          rr_changed = fromkeys (rn_changed run)\<rparr>)"

definition run_due ::
  "'rest native_env \<Rightarrow> 'rest overlapped \<Rightarrow> compiled_time_model \<Rightarrow> (string, random_control) pydict \<Rightarrow>
     scheduled_policy list \<Rightarrow> 'rest run_snapshot \<Rightarrow> 'rest run_result res option" where
  "run_due env overlap m controls policies sn =
     run_bind (run_due_policies (run_due_policy env overlap m controls) policies
         \<lparr>rn_working = sn, rn_diagnostics = [], rn_changed = [], rn_failure = None\<rparr>) (\<lambda>run.
       Some (Inr (result_of_run run)))"

end
