(* ===== verification/Scheduler_Steps.thy ===== *)
theory Scheduler_Steps
  imports Scheduler_Due
begin

text \<open>
  Single actions of the scheduler: the budget operations leave the members of the scheduler alone,
  a checked result cannot have changed them, and an action either records the next state of its
  participant or fails the run and records nothing.
\<close>

section \<open>Budget operations keep the other members\<close>

lemma throttled_keeps_rest:
  "throttled_result sha256 sn policy op generation ld d current amount = Inr r \<Longrightarrow> sn_rest (ar_snapshot r) = sn_rest sn"
  by (auto simp: throttled_result_def apply_failed_def Let_def res_bind_Inr_iff dest!: commit_ledger_Inr)

lemma check_reservation_keeps_rest:
  "check_reservation sha256 sn policy op generation q ld d = Inr (Inl r) \<Longrightarrow> sn_rest (ar_snapshot r) = sn_rest sn"
  by (auto simp: check_reservation_def apply_failed_def Let_def res_bind_Inr_iff throttled_keeps_rest
      split: option.splits if_splits)

lemma reserve_keeps_rest:
  assumes "reserve_participant_resources sha256 sn policy op generation q = Inr r"
  shows "sn_rest (ar_snapshot r) = sn_rest sn"
proof -
  have refused: "sn_rest (ar_snapshot out) = sn_rest sn"
    if "check_reservations (check_reservation sha256 sn policy op generation q (ledger_of sn)) (rp_demands policy) =
        Inr (Inl out)" for out
    using check_reservations_refused [OF that] check_reservation_keeps_rest by blast
  let ?check = "check_reservations (check_reservation sha256 sn policy op generation q (ledger_of sn)) (rp_demands policy)"
  show ?thesis
  proof (cases "list_all (dict_has (sn_events sn))
      (map (\<lambda>d. reserve_event_id op (demand_state_ref policy d)) (rp_demands policy)) \<and> rp_demands policy \<noteq> []")
    case True
    with assms show ?thesis by (auto simp: reserve_participant_resources_def apply_ok_def Let_def)
  next
    case False
    with assms obtain out where out: "?check = Inr out"
      and rest: "(case out of Inl failure \<Rightarrow> Inr failure | Inr cs \<Rightarrow>
        res_bind (res_fold (apply_reservation policy op generation) (ledger_of sn) cs) (\<lambda>ld.
        res_bind (commit_ledger sha256 sn ld) (\<lambda>sn'. Inr (apply_ok sn')))) = Inr r"
      unfolding reserve_participant_resources_def Let_def by (auto elim!: res_bind_InrE split: if_splits)
    show ?thesis
    proof (cases out)
      case (Inl failure)
      with out rest refused show ?thesis by simp
    next
      case (Inr cs)
      with rest show ?thesis by (auto simp: res_bind_Inr_iff apply_ok_def dest!: commit_ledger_Inr)
    qed
  qed
qed

lemma settle_keeps_rest:
  "commit_reservation sha256 sn op generation evidence q r ld = Inr (Inl out) \<Longrightarrow> sn_rest (ar_snapshot out) = sn_rest sn"
  "release_reservation sha256 sn op generation evidence r ld = Inr (Inl out) \<Longrightarrow> sn_rest (ar_snapshot out) = sn_rest sn"
  by (auto simp: apply_failed_def dest: settle_failure)

lemma finish_keeps_rest:
  assumes "finish sha256 sn (run_outcomes f rs ld) = Inr r"
    and "\<And>r ld out. f r ld = Inr (Inl out) \<Longrightarrow> sn_rest (ar_snapshot out) = sn_rest sn"
  shows "sn_rest (ar_snapshot r) = sn_rest sn"
  using assms(1)
proof (cases rule: finish_cases)
  case failed
  with run_outcomes_failure [OF this] assms(2) show ?thesis by blast
next
  case (finished ld' sn')
  with commit_ledger_Inr [OF finished(2)] show ?thesis by (simp add: apply_ok_def)
qed

lemma commit_keeps_rest:
  assumes "commit_participant_resource_reservation sha256 sn op generation measured evidence = Inr r"
  shows "sn_rest (ar_snapshot r) = sn_rest sn"
proof -
  obtain rs where "(if rs = [] then Inr (missing_reservation_result sn op (sn_events sn))
       else if \<not> valid_measurement_vector rs measured evidence
       then Inr (apply_failed sn ''runtime.participant-resource-measurement-invalid'' (ev_policy_address (hd rs)))
       else finish sha256 sn (run_outcomes (commit_reservation sha256 sn op generation evidence measured)
                rs (ledger_of sn))) = Inr r"
    using assms unfolding commit_participant_resource_reservation_def by (rule res_bind_InrE)
  then show ?thesis using finish_keeps_rest [OF _ settle_keeps_rest(1)]
    by (auto simp: missing_reservation_result_def apply_ok_def apply_failed_def split: if_splits)
qed

lemma release_keeps_rest:
  assumes "release_participant_resource_reservation sha256 sn op generation evidence = Inr r"
  shows "sn_rest (ar_snapshot r) = sn_rest sn"
proof -
  obtain rs where "(if rs = [] then Inr (apply_ok sn)
       else finish sha256 sn (run_outcomes (release_reservation sha256 sn op generation evidence)
                rs (ledger_of sn))) = Inr r"
    using assms unfolding release_participant_resource_reservation_def by (rule res_bind_InrE)
  then show ?thesis using finish_keeps_rest [OF _ settle_keeps_rest(2)]
    by (auto simp: apply_ok_def split: if_splits)
qed

section \<open>The stages of an action\<close>

text \<open>The scheduler members of two snapshots agree.\<close>

definition members_kept :: "'rest run_snapshot \<Rightarrow> 'rest run_snapshot \<Rightarrow> bool" where
  "members_kept sn sn' \<longleftrightarrow> snapshot_states sn' = snapshot_states sn \<and> snapshot_services sn' = snapshot_services sn"

lemma members_kept_refl [simp]: "members_kept sn sn"
  by (simp add: members_kept_def)

lemma members_kept_trans [trans]: "members_kept a b \<Longrightarrow> members_kept b c \<Longrightarrow> members_kept a c"
  by (simp add: members_kept_def)

lemma same_rest_kept: "sn_rest sn' = sn_rest sn \<Longrightarrow> members_kept sn sn'"
  by (simp add: members_kept_def)

lemma run_simps [simp]:
  "rn_working (record_failure run) = rn_working run"
  "rn_failure (record_failure run) = Some \<lparr>fl_snapshot = rn_working run, fl_diagnostics = rn_diagnostics run,
     fl_changed = fromkeys (rn_changed run)\<rparr>"
  "rn_working (add_diagnostics ds run) = rn_working run" "rn_failure (add_diagnostics ds run) = rn_failure run"
  by (simp_all add: record_failure_def add_diagnostics_def)

lemma with_members_Inr:
  "with_scheduler_members sn states services = Inr sn' \<longleftrightarrow>
     require_activity_states states = Inr () \<and> sn' = sn\<lparr>sn_rest := (sn_rest sn)\<lparr>sp_states := states, sp_services := services\<rparr>\<rparr>"
  by (auto simp: with_scheduler_members_def res_bind_Inr_iff)

lemma bound_request_Inr:
  "bound_action_request env x w s = Inr q \<Longrightarrow> aq_instance q = attempt_instance_id x s"
  unfolding bound_action_request_def Let_def
  by (auto elim!: res_bind_InrE split: list.split_asm option.split_asm prod.split_asm)

lemma reserve_stage:
  assumes "reserve_activity_resources env x q run = Inr (ok, run')"
  shows "members_kept (rn_working run) (rn_working run')" and "ok \<Longrightarrow> rn_failure run' = rn_failure run"
    and "\<not> ok \<Longrightarrow> rn_failure run' \<noteq> None"
  using assms unfolding reserve_activity_resources_def Let_def
  by (auto simp: res_bind_Inr_iff intro!: same_rest_kept dest: reserve_keeps_rest split: if_splits)

lemma violation_keeps_members:
  assumes "action_result_violation env q ret episode predecessor = None"
  obtains r a where "ret = ActionResult r" "nt_action r = Some a" "members_kept predecessor (nt_snapshot r)"
proof -
  from assms obtain r where r: "ret = ActionResult r" "native_result_violation ret episode = None"
    by (auto simp: action_result_violation_def native_result_violation_def split: option.split_asm native_return.split_asm)
  then obtain a where a: "nt_action r = Some a"
    by (auto simp: native_result_violation_def split: option.split_asm)
  with assms r have "committed_result_violation env q (nt_snapshot r) a episode predecessor = None"
    by (simp add: action_result_violation_def)
  then have "protected_state_violation (nt_snapshot r) predecessor = None"
    by (simp add: committed_result_violation_def split: option.split_asm)
  then have "members_kept predecessor (nt_snapshot r)"
    by (auto simp: protected_state_violation_def members_kept_def split: if_splits)
  with r(1) a show thesis by (rule that)
qed

lemma protocol_stage:
  assumes "record_protocol_result x run predecessor ret (action_result_violation env q ret episode predecessor) = (pf, run')"
  shows "members_kept predecessor (rn_working run')" and "rn_failure run' = rn_failure run"
    and "pf \<longleftrightarrow> action_result_violation env q ret episode predecessor \<noteq> None"
    and "\<not> pf \<Longrightarrow> \<exists>r a. ret = ActionResult r \<and> nt_action r = Some a \<and> rn_working run' = nt_snapshot r"
proof -
  have "members_kept predecessor (rn_working run') \<and> rn_failure run' = rn_failure run \<and>
    (pf \<longleftrightarrow> action_result_violation env q ret episode predecessor \<noteq> None) \<and>
    (\<not> pf \<longrightarrow> (\<exists>r a. ret = ActionResult r \<and> nt_action r = Some a \<and> rn_working run' = nt_snapshot r))"
  proof (cases "action_result_violation env q ret episode predecessor")
    case None
    then obtain r a where "ret = ActionResult r" "nt_action r = Some a" "members_kept predecessor (nt_snapshot r)"
      by (rule violation_keeps_members)
    with None assms show ?thesis by (auto simp: record_protocol_result_def)
  next
    case (Some v)
    with assms show ?thesis by (auto simp: record_protocol_result_def)
  qed
  then show "members_kept predecessor (rn_working run')" "rn_failure run' = rn_failure run"
    "pf \<longleftrightarrow> action_result_violation env q ret episode predecessor \<noteq> None"
    "\<not> pf \<Longrightarrow> \<exists>r a. ret = ActionResult r \<and> nt_action r = Some a \<and> rn_working run' = nt_snapshot r"
    by blast+
qed

lemma release_stage:
  assumes "release_untrusted_measurements env x q pf run = Inr (ok, run')"
  shows "members_kept (rn_working run) (rn_working run')" and "\<not> ok" and "rn_failure run' \<noteq> None"
  using assms unfolding release_untrusted_measurements_def Let_def
  by (auto simp: res_bind_Inr_iff intro!: same_rest_kept dest: release_keeps_rest)

lemma measured_stage:
  assumes "commit_trusted_measurements env q measurements run = Inr (ok, run')"
  shows "members_kept (rn_working run) (rn_working run')" and "ok \<Longrightarrow> rn_failure run' = rn_failure run"
    and "\<not> ok \<Longrightarrow> rn_failure run' \<noteq> None"
proof -
  obtain r where r: "commit_participant_resource_reservation (ne_sha env) (rn_working run) (aq_instance q)
         (request_generation q) (map (\<lambda>(ref, m). (ref, me_measured m)) measurements)
         (fromkeys (concat (map me_evidence_refs (dict_values measurements)))) = Inr r"
    and "(ok, run') = (let run1 = add_diagnostics (ar_diagnostics r) (run\<lparr>rn_working := ar_snapshot r\<rparr>) in
       if ar_success r then (True, run1) else (False, record_failure run1))"
    using assms unfolding commit_trusted_measurements_def by (auto elim!: res_bind_InrE simp: Let_def)
  with same_rest_kept [OF commit_keeps_rest [OF r]]
  show "members_kept (rn_working run) (rn_working run')" "ok \<Longrightarrow> rn_failure run' = rn_failure run"
    "\<not> ok \<Longrightarrow> rn_failure run' \<noteq> None"
    by (auto simp: Let_def split: if_splits)
qed

lemma commit_stage:
  assumes "commit_activity_resources env x q ret pf run = Inr (ok, run')"
  shows "members_kept (rn_working run) (rn_working run')" and "ok \<Longrightarrow> rn_failure run' = rn_failure run"
    and "\<not> ok \<Longrightarrow> rn_failure run' \<noteq> None"
proof -
  have "members_kept (rn_working run) (rn_working run') \<and> (ok \<longrightarrow> rn_failure run' = rn_failure run) \<and>
      (\<not> ok \<longrightarrow> rn_failure run' \<noteq> None)"
  proof (cases "sl_profile (sx_policy x) = execution_v3")
    case False
    with assms show ?thesis by (simp add: commit_activity_resources_def)
  next
    case True
    with assms obtain trusted where
      "(case trusted of None \<Rightarrow> release_untrusted_measurements env x q pf run
        | Some measurements \<Rightarrow> commit_trusted_measurements env q measurements run) = Inr (ok, run')"
      by (auto simp: commit_activity_resources_def elim!: res_bind_InrE)
    then show ?thesis
      by (cases trusted) (use release_stage [of env x q pf run ok run'] measured_stage [of env q _ run ok run'] in auto)
  qed
  then show "members_kept (rn_working run) (rn_working run')" "ok \<Longrightarrow> rn_failure run' = rn_failure run"
    "\<not> ok \<Longrightarrow> rn_failure run' \<noteq> None" by blast+
qed

lemma annotate_stage:
  assumes "annotate_activity_history env x s q outcome run = Inr run'"
  shows "members_kept (rn_working run) (rn_working run')" and "rn_failure run' = rn_failure run"
  using assms unfolding annotate_activity_history_def Let_def
  by (auto simp: res_bind_Inr_iff with_members_Inr members_kept_def)

lemma persist_stage:
  assumes "persist_activity_state run key s = Inr run'"
  shows "snapshot_states (rn_working run') = dict_set key s (snapshot_states (rn_working run))"
    and "snapshot_services (rn_working run') = snapshot_services (rn_working run)"
    and "rn_failure run' = rn_failure run"
  using assms by (auto simp: persist_activity_state_def res_bind_Inr_iff with_members_Inr)

section \<open>One action\<close>

text \<open>
  What an action leaves: the state it recorded, or a failed run that recorded nothing, before or
  after the native execution. The services are never touched.
\<close>

definition action_recorded ::
  "'rest native_env \<Rightarrow> scheduler_context \<Rightarrow> activity_state \<Rightarrow> 'rest scheduler_run \<Rightarrow> activity_state \<Rightarrow>
     'rest scheduler_run \<Rightarrow> bool" where
  "action_recorded env x s run t run' \<longleftrightarrow>
     (\<exists>ok fc pf. next_activity_occurrence_state (ne_random env) (sx_due x) s (attempt_instance_id x s) ok fc pf =
         Some (Inr t)) \<and>
     snapshot_states (rn_working run') = dict_set (du_key (sx_due x)) t (snapshot_states (rn_working run)) \<and>
     snapshot_services (rn_working run') = snapshot_services (rn_working run) \<and>
     (rn_failure run = None \<longrightarrow> (rn_failure run' \<noteq> None \<longleftrightarrow> xs_lifecycle t = EXEC_FAILED))"

text \<open>The reservation was refused, and the native runtime not called.\<close>

definition action_refused ::
  "'rest native_env \<Rightarrow> scheduler_context \<Rightarrow> activity_state \<Rightarrow> 'rest scheduler_run \<Rightarrow> activity_state \<Rightarrow>
     'rest scheduler_run \<Rightarrow> bool" where
  "action_refused env x s run t run' \<longleftrightarrow>
     t = s \<and> rn_failure run' \<noteq> None \<and> members_kept (rn_working run) (rn_working run') \<and>
     (\<exists>q. bound_action_request env x (rn_working run) s = Inr q \<and>
        reserve_activity_resources env x q run = Inr (False, run'))"

text \<open>The action was executed natively, and its resources not committed.\<close>

definition action_unsettled ::
  "'rest native_env \<Rightarrow> scheduler_context \<Rightarrow> activity_state \<Rightarrow> 'rest scheduler_run \<Rightarrow> activity_state \<Rightarrow>
     'rest scheduler_run \<Rightarrow> bool" where
  "action_unsettled env x s run t run' \<longleftrightarrow>
     t = s \<and> rn_failure run' \<noteq> None \<and> members_kept (rn_working run) (rn_working run') \<and>
     sl_profile (sx_policy x) = execution_v3 \<and>
     (\<exists>q run1 ret. bound_action_request env x (rn_working run) s = Inr q \<and>
        reserve_activity_resources env x q run = Inr (True, run1) \<and> ne_admit env q (rn_working run1) = Inr ret)"

lemma settle_stage:
  assumes "settle_activity_action env x s q ret pf run = Some (Inr (t, run'))"
    and "aq_instance q = attempt_instance_id x s"
  shows "action_recorded env x s run t run'"
proof -
  obtain run1 run2 where
    a: "(if pf then Inr run else annotate_activity_history env x s q (outcome_text ret) run) = Inr run1"
    and n: "next_activity_occurrence_state (ne_random env) (sx_due x) s (aq_instance q)
         (action_succeeded pf ret) (failure_class_of ret) pf = Some (Inr t)"
    and p: "persist_activity_state run1 (du_key (sx_due x)) t = Inr run2"
    and r: "run' = (let run3 = (if pf then run2 else run2\<lparr>rn_changed := rn_changed run2 @ returned_changes ret\<rparr>) in
         if xs_lifecycle t = EXEC_FAILED then record_failure run3 else run3)"
    using assms(1) unfolding settle_activity_action_def run_bind_Inr Let_def by auto
  have m: "members_kept (rn_working run) (rn_working run1)" "rn_failure run1 = rn_failure run"
    using a annotate_stage by (auto split: if_splits)
  have "rn_working run' = rn_working run2"
    "rn_failure run = None \<longrightarrow> (rn_failure run' \<noteq> None \<longleftrightarrow> xs_lifecycle t = EXEC_FAILED)"
    using r m(2) persist_stage(3) [OF p] by (auto simp: Let_def)
  with n m persist_stage(1,2) [OF p] assms(2) show ?thesis
    unfolding action_recorded_def members_kept_def by auto
qed

lemma one_action_cases:
  assumes "run_one_activity_action env x s run = Some (Inr (t, run'))"
  shows "action_recorded env x s run t run' \<or> action_refused env x s run t run' \<or> action_unsettled env x s run t run'"
proof -
  obtain q reserved run1 where q: "bound_action_request env x (rn_working run) s = Inr q"
    and rs: "reserve_activity_resources env x q run = Inr (reserved, run1)"
    and rest: "(if \<not> reserved then Some (Inr (s, run1)) else
         run_bind (Some (ne_admit env q (rn_working run1))) (\<lambda>ret.
         let violation = action_result_violation env q ret (xs_episode s) (rn_working run1) in
         case record_protocol_result x run1 (rn_working run1) ret violation of (pf, run2) \<Rightarrow>
           run_bind (Some (commit_activity_resources env x q ret pf run2)) (\<lambda>(committed, run3).
             if \<not> committed then Some (Inr (s, run3))
             else settle_activity_action env x s q ret pf run3))) = Some (Inr (t, run'))"
    using assms unfolding run_one_activity_action_def run_bind_Inr by auto
  note reserve = reserve_stage [OF rs]
  show ?thesis
  proof (cases reserved)
    case False
    with rest rs q reserve(1,3) show ?thesis by (auto simp: action_refused_def)
  next
    case True
    with rest obtain ret where ret: "ne_admit env q (rn_working run1) = Inr ret" and run: "(case record_protocol_result x run1 (rn_working run1) ret
          (action_result_violation env q ret (xs_episode s) (rn_working run1)) of (pf, run2) \<Rightarrow>
           run_bind (Some (commit_activity_resources env x q ret pf run2)) (\<lambda>(committed, run3).
             if \<not> committed then Some (Inr (s, run3))
             else settle_activity_action env x s q ret pf run3)) = Some (Inr (t, run'))"
      by (auto simp: run_bind_Inr Let_def)
    obtain pf run2 where pr: "record_protocol_result x run1 (rn_working run1) ret
          (action_result_violation env q ret (xs_episode s) (rn_working run1)) = (pf, run2)" by fastforce
    with run obtain committed run3 where
      cm: "commit_activity_resources env x q ret pf run2 = Inr (committed, run3)"
      and last: "(if \<not> committed then Some (Inr (s, run3)) else settle_activity_action env x s q ret pf run3) =
          Some (Inr (t, run'))"
      by (auto simp: run_bind_Inr)
    note members = members_kept_trans [OF members_kept_trans [OF reserve(1) protocol_stage(1) [OF pr]] commit_stage(1) [OF cm]]
    show ?thesis
    proof (cases committed)
      case False
      with cm have "sl_profile (sx_policy x) = execution_v3"
        by (simp add: commit_activity_resources_def split: if_splits)
      with False last members commit_stage(3) [OF cm] q rs \<open>reserved\<close> ret show ?thesis
        by (auto simp: action_unsettled_def)
    next
      case True
      with last have "settle_activity_action env x s q ret pf run3 = Some (Inr (t, run'))" by simp
      from settle_stage [OF this bound_request_Inr [OF q]] have "action_recorded env x s run3 t run'" .
      moreover have "rn_failure run3 = rn_failure run"
        using reserve(2) \<open>reserved\<close> protocol_stage(2) [OF pr] commit_stage(2) [OF cm True] by simp
      ultimately have "action_recorded env x s run t run'"
        using members by (simp add: action_recorded_def members_kept_def)
      then show ?thesis ..
    qed
  qed
qed

end
