(* ===== verification/Scheduler_Claims.thy ===== *)
theory Scheduler_Claims
  imports Scheduler_Steps Budget_Examples
begin

text \<open>
  Guarantees of due work: a pass over policies executed in series returns, and what the loop of a
  participant makes of its scheduler state is a run in the sense of \<open>Activity_Runs\<close>, whatever the
  native runtime returns; the services and the states of other participants are left alone.
\<close>

section \<open>Returning\<close>

definition returns :: "'a option \<Rightarrow> bool" where
  "returns r \<longleftrightarrow> r \<noteq> None"

lemma returns_Some [simp]: "returns (Some x)"
  by (simp add: returns_def)

lemma returns_bind: "returns r \<Longrightarrow> (\<And>y. r = Some (Inr y) \<Longrightarrow> returns (f y)) \<Longrightarrow> returns (run_bind r f)"
  by (cases "(r, f)" rule: run_bind.cases) (auto simp: returns_def)

lemma timing_returns:
  assumes "policy_step_ok (du_policy c) (du_time c)"
  shows "returns (next_activity_timing env (draw_context_of c control segment ordinal) (du_time c) tick)"
  using next_timing_returns [of "draw_context_of c control segment ordinal" "du_time c"] assms
  by (simp add: draw_context_of_def returns_def)

lemma next_occurrence_returns:
  assumes "policy_step_ok (du_policy c) (du_time c)"
  shows "returns (next_activity_occurrence_state env c s instance_id ok fc pf)"
proof -
  note timing = timing_returns [OF assms]
  have "returns (next_activity_schedule env c s control pg)" for control pg
    unfolding next_activity_schedule_def Let_def by (auto intro!: returns_bind timing)
  then show ?thesis
    unfolding next_activity_occurrence_state_def Let_def
    by (auto split: option.split intro!: returns_bind)
qed

lemma empty_state_returns:
  assumes "policy_step_ok (du_policy c) (du_time c)"
  shows "returns (empty_activity_state env c s)"
  unfolding empty_activity_state_def
  by (auto split: option.split intro!: returns_bind timing_returns [OF assms])

lemma one_action_returns:
  assumes "policy_step_ok (du_policy (sx_due x)) (du_time (sx_due x))"
  shows "returns (run_one_activity_action env x s run)"
proof -
  have "returns (settle_activity_action env x s q ret pf run)" for q ret pf run
    unfolding settle_activity_action_def Let_def
    by (intro returns_bind next_occurrence_returns assms) auto
  then show ?thesis
    unfolding run_one_activity_action_def Let_def
    by (auto split: prod.split intro!: returns_bind)
qed

section \<open>The loop of a participant\<close>

text \<open>
  From the persisted state \<open>s\<close>, the loop persists a state that a run of attempts at this tick leads
  to, and touches no other member. An attempt stays unsettled only under \<open>execution/v3\<close>, and
  then the pass fails.
\<close>

definition attempt_explained :: "scheduler_context \<Rightarrow> 'rest scheduler_run \<Rightarrow> attempt \<Rightarrow> bool" where
  "attempt_explained x run' a \<longleftrightarrow>
     attempt_tick a = du_tick (sx_due x) \<and>
     (attempt_settled a \<or> sl_profile (sx_policy x) = execution_v3 \<and> rn_failure run' \<noteq> None)"

definition due_outcome ::
  "'rest native_env \<Rightarrow> scheduler_context \<Rightarrow> activity_state \<Rightarrow> 'rest scheduler_run \<Rightarrow> 'rest scheduler_run \<Rightarrow> bool" where
  "due_outcome env x s run run' \<longleftrightarrow>
     snapshot_services (rn_working run') = snapshot_services (rn_working run) \<and>
     (\<exists>attempts u. activity_run (ne_random env) (sx_due x) s attempts u \<and>
        (\<forall>a \<in> set attempts. attempt_explained x run' a) \<and>
        snapshot_states (rn_working run') = dict_set (du_key (sx_due x)) u (snapshot_states (rn_working run)))"

lemma dict_set_twice: "dict_set k v (dict_set k w d) = dict_set k v d"
  by (induction d) (auto simp: dict_set_def)

lemma tick_context [simp]: "(c :: due_context)\<lparr>du_tick := du_tick c\<rparr> = c"
  by simp

lemma attempted_counts:
  assumes "next_activity_occurrence_state env c s instance_id ok fc pf = Some (Inr t)"
  shows "xs_attempted t = xs_attempted s + 1"
  using assms by (cases rule: next_occurrence_cases) simp_all

lemma outcome_stopped:
  assumes "dict_get (snapshot_states (rn_working run)) (du_key (sx_due x)) = Some s"
    and "members_kept (rn_working run) (rn_working run')"
  shows "due_outcome env x s run run'"
proof -
  have "snapshot_states (rn_working run') = dict_set (du_key (sx_due x)) s (snapshot_states (rn_working run))"
    using assms by (simp add: members_kept_def dict_set_same)
  moreover have "activity_run (ne_random env) (sx_due x) s [] s" by (rule activity_run.stop)
  ultimately show ?thesis using assms(2) unfolding due_outcome_def members_kept_def by fastforce
qed

text \<open>The identity does not depend on the candidate that is selected.\<close>

lemma attempt_instance_identity:
  "sl_profile (sx_policy x) \<in> {execution_v2, execution_v3} \<Longrightarrow>
     attempt_instance_id x (s\<lparr>xs_index := i\<rparr>) = attempt_identity (sx_due x) s"
  by (simp add: attempt_instance_id_def attempt_identity_def)

lemma still_due_facts:
  assumes "still_due x s run"
  shows "rn_failure run = None" and "xs_attempted s < ap_max_attempts (du_policy (sx_due x))"
    and "activity_action_is_due (sx_due x) s False"
  using assms by (auto simp: still_due_def activity_action_is_due_def)

lemma outcome_waited:
  assumes due: "still_due x s run" and tick: "0 \<le> du_tick (sx_due x)"
    and none: "selected_activity_index (ne_random env) (sx_due x) s = Inr None"
    and run: "persist_empty_state env x s run = Some (Inr run')"
  shows "due_outcome env x s run run'"
proof -
  from run obtain t where t: "empty_activity_state (ne_random env) (sx_due x) s = Some (Inr t)"
    and p: "persist_activity_state run (du_key (sx_due x)) t = Inr run'"
    by (auto simp: persist_empty_state_def run_bind_Inr)
  have "activity_run (ne_random env) (sx_due x) s [] t"
    using activity_run.wait [where tick = "du_tick (sx_due x)", OF _ tick _ _ activity_run.stop] still_due_facts(3) [OF due] none t
    by simp
  with persist_stage(1,2) [OF p] show ?thesis unfolding due_outcome_def by fastforce
qed

lemma outcome_attempted:
  assumes due: "still_due x s run" and tick: "0 \<le> du_tick (sx_due x)"
    and profile: "sl_profile (sx_policy x) \<in> {execution_v2, execution_v3}"
    and sel: "selected_activity_index (ne_random env) (sx_due x) s = Inr (Some i)"
    and rec: "action_recorded env x (s\<lparr>xs_index := i\<rparr>) run t run1"
    and later: "due_outcome env x t run1 run'"
  shows "due_outcome env x s run run'"
proof -
  from rec obtain ok fc pf where step:
    "next_activity_occurrence_state (ne_random env) (sx_due x) (s\<lparr>xs_index := i\<rparr>) (attempt_identity (sx_due x) s) ok fc pf =
       Some (Inr t)"
    unfolding action_recorded_def attempt_instance_identity [OF profile] by blast
  from later obtain attempts u where run: "activity_run (ne_random env) (sx_due x) t attempts u"
    and ticks: "\<forall>a \<in> set attempts. attempt_explained x run' a"
    and states: "snapshot_states (rn_working run') = dict_set (du_key (sx_due x)) u (snapshot_states (rn_working run1))"
    unfolding due_outcome_def by blast
  have "activity_run (ne_random env) (sx_due x) s
      ((attempt_identity (sx_due x) s, du_tick (sx_due x), True) # attempts) u"
    using activity_run.attempt [where tick = "du_tick (sx_due x)" and c = "sx_due x", OF _ tick _ _ run]
      still_due_facts(3) [OF due] sel step by simp
  moreover have "snapshot_states (rn_working run') = dict_set (du_key (sx_due x)) u (snapshot_states (rn_working run))"
    using rec states by (simp add: action_recorded_def dict_set_twice)
  moreover have "snapshot_services (rn_working run') = snapshot_services (rn_working run)"
    using rec later by (simp add: action_recorded_def due_outcome_def)
  moreover have "\<forall>a \<in> set ((attempt_identity (sx_due x) s, du_tick (sx_due x), True) # attempts). attempt_explained x run' a"
    using ticks by (simp add: attempt_explained_def)
  ultimately show ?thesis unfolding due_outcome_def by blast
qed

lemma outcome_unsettled:
  assumes due: "still_due x s run" and tick: "0 \<le> du_tick (sx_due x)"
    and sel: "selected_activity_index (ne_random env) (sx_due x) s = Inr (Some i)"
    and stored: "dict_get (snapshot_states (rn_working run)) (du_key (sx_due x)) = Some s"
    and out: "action_unsettled env x (s\<lparr>xs_index := i\<rparr>) run t run'"
  shows "due_outcome env x s run run'"
proof -
  let ?a = "(attempt_identity (sx_due x) s, du_tick (sx_due x), False)"
  have "activity_run (ne_random env) (sx_due x) s [?a] s"
    using activity_run.unsettled [where tick = "du_tick (sx_due x)", OF _ tick _ activity_run.stop]
      still_due_facts(3) [OF due] sel by simp
  moreover have "attempt_explained x run' ?a" using out by (simp add: attempt_explained_def action_unsettled_def)
  moreover have "snapshot_states (rn_working run') = dict_set (du_key (sx_due x)) s (snapshot_states (rn_working run))"
    and "snapshot_services (rn_working run') = snapshot_services (rn_working run)"
    using out stored by (simp_all add: action_unsettled_def members_kept_def dict_set_same)
  ultimately show ?thesis unfolding due_outcome_def by fastforce
qed

text \<open>How one pass of the loop goes on.\<close>

lemma loop_cases:
  assumes ok: "policy_step_ok (du_policy (sx_due x)) (du_time (sx_due x))"
  obtains (stopped) "\<not> still_due x s run" "run_participant_activity_due env x s run = Some (Inr run)"
    | (raised) e where "run_participant_activity_due env x s run = Some (Inl e)"
    | (waited) "still_due x s run" "selected_activity_index (ne_random env) (sx_due x) s = Inr None"
        "run_participant_activity_due env x s run = persist_empty_state env x s run"
    | (refused) run1 where "members_kept (rn_working run) (rn_working run1)"
        "run_participant_activity_due env x s run = Some (Inr run1)"
    | (unsettled) i t run1 where "still_due x s run"
        "selected_activity_index (ne_random env) (sx_due x) s = Inr (Some i)"
        "action_unsettled env x (s\<lparr>xs_index := i\<rparr>) run t run1"
        "run_participant_activity_due env x s run = Some (Inr run1)"
    | (attempted) i t run1 where "still_due x s run"
        "selected_activity_index (ne_random env) (sx_due x) s = Inr (Some i)"
        "action_recorded env x (s\<lparr>xs_index := i\<rparr>) run t run1"
        "run_participant_activity_due env x s run = run_participant_activity_due env x t run1"
        "nat (ap_max_attempts (du_policy (sx_due x)) - xs_attempted t) <
           nat (ap_max_attempts (du_policy (sx_due x)) - xs_attempted s)"
proof (cases "still_due x s run")
  case False
  then have "run_participant_activity_due env x s run = Some (Inr run)"
    by (subst run_participant_activity_due.simps) simp
  with False show thesis by (rule stopped)
next
  case due: True
  note unfold = run_participant_activity_due.simps [of env x s run]
  show thesis
  proof (cases "selected_activity_index (ne_random env) (sx_due x) s")
    case (Inl e)
    with due unfold show thesis by (intro raised) simp
  next
    case (Inr selected)
    show thesis
    proof (cases selected)
      case None
      with due Inr unfold show thesis by (intro waited) simp_all
    next
      case (Some i)
      obtain out where out: "run_one_activity_action env x (s\<lparr>xs_index := i\<rparr>) run = Some out"
        using one_action_returns [OF ok, of env "s\<lparr>xs_index := i\<rparr>" run] by (auto simp: returns_def)
      show thesis
      proof (cases out)
        case (Inl e)
        with due Inr Some out unfold show thesis by (intro raised) simp
      next
        case Inr': (Inr tr)
        obtain t run1 where tr: "tr = (t, run1)" by (cases tr)
        have loop: "run_participant_activity_due env x s run = run_participant_activity_due env x t run1"
          using due Inr Some out Inr' tr unfold by simp
        from one_action_cases [of env x "s\<lparr>xs_index := i\<rparr>" run t run1] out Inr' tr
        consider "action_recorded env x (s\<lparr>xs_index := i\<rparr>) run t run1" | "action_refused env x (s\<lparr>xs_index := i\<rparr>) run t run1"
          | "action_unsettled env x (s\<lparr>xs_index := i\<rparr>) run t run1"
          by auto
        then show thesis
        proof cases
          case 1
          then have "xs_attempted t = xs_attempted s + 1" unfolding action_recorded_def using attempted_counts by fastforce
          with still_due_facts(2) [OF due] have "nat (ap_max_attempts (du_policy (sx_due x)) - xs_attempted t) <
              nat (ap_max_attempts (du_policy (sx_due x)) - xs_attempted s)" by simp
          with due Inr Some 1 loop show thesis by (intro attempted) auto
        next
          case 2
          then have "\<not> still_due x t run1" by (auto simp: action_refused_def dest: still_due_facts(1))
          with loop have "run_participant_activity_due env x s run = Some (Inr run1)"
            by (simp add: run_participant_activity_due.simps [of env x t run1])
          with 2 show thesis by (intro refused) (simp_all add: action_refused_def)
        next
          case 3
          then have "\<not> still_due x t run1" by (auto simp: action_unsettled_def dest: still_due_facts(1))
          with loop have "run_participant_activity_due env x s run = Some (Inr run1)"
            by (simp add: run_participant_activity_due.simps [of env x t run1])
          with due Inr Some 3 show thesis by (intro unsettled) simp_all
        qed
      qed
    qed
  qed
qed

lemma activity_loop_returns:
  assumes "policy_step_ok (du_policy (sx_due x)) (du_time (sx_due x))"
  shows "returns (run_participant_activity_due env x s run)"
proof (induction "nat (ap_max_attempts (du_policy (sx_due x)) - xs_attempted s)" arbitrary: s run rule: less_induct)
  case less
  show ?case
    using assms
  proof (cases rule: loop_cases [where s = s and run = run and env = env])
    case waited
    have "returns (persist_empty_state env x s run)"
      unfolding persist_empty_state_def by (intro returns_bind empty_state_returns assms) simp
    with waited show ?thesis by simp
  next
    case (attempted i t run1)
    from less.hyps [OF attempted(5)] attempted(4) show ?thesis by simp
  qed simp_all
qed

lemma activity_loop_outcome:
  assumes ok: "due_context_ok (sx_due x)" and profile: "sl_profile (sx_policy x) \<in> {execution_v2, execution_v3}"
  shows "dict_get (snapshot_states (rn_working run)) (du_key (sx_due x)) = Some s \<Longrightarrow>
    run_participant_activity_due env x s run = Some (Inr run') \<Longrightarrow> due_outcome env x s run run'"
proof (induction "nat (ap_max_attempts (du_policy (sx_due x)) - xs_attempted s)" arbitrary: s run rule: less_induct)
  case less
  have grid: "policy_step_ok (du_policy (sx_due x)) (du_time (sx_due x))" and tick: "0 \<le> du_tick (sx_due x)"
    using ok by (simp_all add: due_context_ok_def)
  show ?case
    using grid
  proof (cases rule: loop_cases [where s = s and run = run and env = env])
    case stopped
    with less.prems outcome_stopped [OF less.prems(1) members_kept_refl] show ?thesis by simp
  next
    case raised
    with less.prems(2) show ?thesis by simp
  next
    case waited
    with less.prems(2) outcome_waited [OF waited(1) tick waited(2)] show ?thesis by simp
  next
    case (refused run1)
    with less.prems outcome_stopped [OF less.prems(1) refused(1)] show ?thesis by simp
  next
    case (unsettled i t run1)
    with less.prems outcome_unsettled [OF unsettled(1) tick unsettled(2) less.prems(1) unsettled(3)] show ?thesis by simp
  next
    case (attempted i t run1)
    have "dict_get (snapshot_states (rn_working run1)) (du_key (sx_due x)) = Some t"
      using attempted(3) by (simp add: action_recorded_def)
    from less.hyps [OF attempted(5) this] less.prems(2) attempted(4)
    have "due_outcome env x t run1 run'" by simp
    with outcome_attempted [OF attempted(1) tick profile attempted(2,3)] show ?thesis .
  qed
qed

section \<open>The loop of profile v1 and the pass\<close>

lemma due_action_progress:
  assumes "run_one_due_action env x s run = Inr (t, run')"
  shows "xs_attempted t = xs_attempted s + 1 \<or> rn_failure run' \<noteq> None"
proof -
  obtain q ret stale where "(case stale of Some d \<Rightarrow> Inr (s, record_failure (add_diagnostics [d] run))
      | None \<Rightarrow> case record_protocol_result x run (rn_working run) ret
            (action_result_violation env q ret (xs_episode s) (rn_working run)) of (pf, run1) \<Rightarrow>
          settle_due_action x s q ret pf run1) = (Inr (t, run') :: (activity_state \<times> _) res)"
    using assms unfolding run_one_due_action_def Let_def by (auto elim!: res_bind_InrE)
  then show ?thesis
    by (auto simp: settle_due_action_def next_action_state_def Let_def res_bind_Inr_iff
        split: option.split_asm prod.split_asm if_splits)
qed

lemma legacy_loop_returns: "returns (run_legacy_participant_due env x s run)"
proof (induction "nat (ap_max_attempts (du_policy (sx_due x)) - xs_attempted s)" arbitrary: s run rule: less_induct)
  case less
  show ?case
  proof (cases "still_due x s run")
    case False
    then show ?thesis by (subst run_legacy_participant_due.simps) simp
  next
    case due: True
    show ?thesis
    proof (cases "run_one_due_action env x s run")
      case (Inl e)
      with due show ?thesis by (subst run_legacy_participant_due.simps) simp
    next
      case (Inr tr)
      obtain t run' where tr: "tr = (t, run')" by (cases tr)
      have loop: "run_legacy_participant_due env x s run = run_legacy_participant_due env x t run'"
        using due Inr tr by (subst run_legacy_participant_due.simps) simp
      show ?thesis
      proof (cases "still_due x t run'")
        case False
        then have "run_legacy_participant_due env x t run' = Some (Inr run')"
          by (subst run_legacy_participant_due.simps) simp
        with loop show ?thesis by simp
      next
        case True
        with due_action_progress [of env x s run t run'] Inr tr have "xs_attempted t = xs_attempted s + 1"
          by (auto dest: still_due_facts(1))
        with still_due_facts(2) [OF due] have "nat (ap_max_attempts (du_policy (sx_due x)) - xs_attempted t) <
            nat (ap_max_attempts (du_policy (sx_due x)) - xs_attempted s)" by simp
        from less.hyps [OF this] loop show ?thesis by simp
      qed
    qed
  qed
qed

lemma participant_due_returns:
  assumes "policy_step_ok (du_policy (sx_due x)) (du_time (sx_due x))"
  shows "returns (run_participant_due env x run)"
  unfolding run_participant_due_def
  by (intro returns_bind returns_Some) (simp add: legacy_loop_returns activity_loop_returns [OF assms])

lemma serial_due_returns:
  assumes "\<And>participant. policy_step_ok (du_policy (sx_due (ctx participant))) (du_time (sx_due (ctx participant)))"
  shows "returns (run_serial_due env ctx participants run)"
  by (induction participants arbitrary: run) (simp_all add: returns_bind participant_due_returns assms)

text \<open>Policies that never come to overlapped execution.\<close>

definition serialised :: "scheduled_policy \<Rightarrow> bool" where
  "serialised cp \<longleftrightarrow>
     sl_profile (cp_policy cp) \<noteq> execution_v1 \<or> cp_max_in_flight cp < 2 \<or> length (cp_participants cp) < 2"

lemma due_contexts_length:
  "due_contexts p tick participants run = Inr (due, run') \<Longrightarrow> length due \<le> length participants"
proof (induction participants arbitrary: due run')
  case Nil
  then show ?case by simp
next
  case (Cons participant rest)
  then show ?case by (auto simp: res_bind_Inr_iff Let_def split: if_splits)
qed

lemma concurrent_pass_serialised:
  assumes "serialised cp"
  shows "returns (run_policy_due_concurrently overlap cp tick cadence run)"
  unfolding run_policy_due_concurrently_def
  using assms due_contexts_length [of "cp_policy cp" tick "cp_participants cp" run]
  by (auto simp: serialised_def intro!: returns_bind)

lemma due_policy_returns:
  assumes "policy_step_ok (sl_activity (cp_policy cp)) m" and "serialised cp"
  shows "returns (run_due_policy env overlap m controls cp run)"
  unfolding run_due_policy_def Let_def
  by (auto split: option.split intro!: returns_bind serial_due_returns concurrent_pass_serialised [OF assms(2)]
      simp: participant_due_context_def assms)

lemma due_policies_return:
  assumes "\<forall>p \<in> set policies. \<forall>run. returns (step p run)"
  shows "returns (run_due_policies step policies run)"
  using assms by (induction policies arbitrary: run) (simp_all add: returns_bind)

section \<open>Releases\<close>

lemma release_keeps_vector:
  assumes bal: "books_balanced sha256 (ledger_of sn)" and op: "open_operation op generation sn"
    and run: "release_participant_resource_reservation sha256 sn op generation evidence = Inr r"
    and vec: "vector_reserved sn policy op"
  shows "vector_reserved (ar_snapshot r) policy op"
proof -
  have "reservations_of (sn_events sn) op \<noteq> []" using op by (simp add: open_operation_def)
  with run show ?thesis
  proof (cases rule: release_cases)
    case stale
    with vec show ?thesis by (simp add: apply_failed_def)
  next
    case (released ld sn')
    from released_pass [OF bal op released(1)] obtain new where "ld_events ld = sn_events sn @ new"
      by (auto simp: settled_pass_def)
    with commit_ledger_Inr [OF released(2)] released(3) vec show ?thesis
      by (simp add: vector_reserved_def apply_ok_def list_all_iff dict_has_append)
  qed
qed

lemma release_result:
  assumes "release_untrusted_measurements env x q pf run = Inr (ok, run')"
  obtains r where "release_participant_resource_reservation (ne_sha env) (rn_working run) (aq_instance q)
      (request_generation q) [''evidence:'' @ aq_instance q @ '':resource-release''] = Inr r"
    and "rn_working run' = ar_snapshot r"
  using assms unfolding release_untrusted_measurements_def Let_def by (auto elim!: res_bind_InrE)

section \<open>A small run\<close>

definition sch_policy :: scheduler_policy where
  "sch_policy =
     \<lparr>sl_activity = act_policy, sl_profile = execution_v2, sl_clock = ''clock.c'', sl_temporal = [],
      sl_contracts = [''k''], sl_bindings = [\<lparr>xb_contract = ''k'', xb_targets = [''t'']\<rparr>], sl_boundary = ''o'',
      sl_implementation = ''i'', sl_resources = demo_policy\<rparr>"

definition sch_context :: scheduler_context where
  "sch_context = participant_due_context sch_policy act_time [(''c'', act_control)] 5 0 ''participant.behavior.a''"

definition sch_outcome :: action_outcome where
  "sch_outcome = \<lparr>ac_status = ''succeeded'', ac_episode = ''e0'', ac_failure = None, ac_measurements = [], ac_other = PyNone\<rparr>"

definition sch_event :: "action_request \<Rightarrow> string \<Rightarrow> behavior_event" where
  "sch_event q kind =
     \<lparr>be_type = kind, be_participant = aq_participant q, be_episode = ''e0'', be_instance = aq_instance q,
      be_contract = Some (aq_contract q), be_boundary = Some (aq_boundary q), be_status = Some ''terminal'',
      be_actor = Some (aq_actor q), be_contexts = aq_contexts q, be_result = Some sch_outcome, be_provenance = None\<rparr>"

text \<open>A runtime that appends the required history and succeeds.\<close>

definition sch_native :: "unit native_env" where
  "sch_native =
     \<lparr>ne_bind = (\<lambda>call sn. Inr \<lparr>aq_participant = bc_participant call, aq_contract = bc_contract call, aq_boundary = bc_boundary call,
        aq_instance = bc_instance call, aq_contexts = bc_contexts call, aq_manifest = bc_implementation call,
        aq_actor = ''actor'', aq_scope = None, aq_generation = None, aq_targets = [], aq_requirements = [], aq_terminal = False\<rparr>),
      ne_check = (\<lambda>q. Inr ()),
      ne_admit = (\<lambda>q sn. Inr (ActionResult
        \<lparr>nt_success = True,
         nt_snapshot = sn\<lparr>sn_rest := (sn_rest sn)\<lparr>sp_rest := (sp_rest (sn_rest sn))\<lparr>np_history :=
           [(aq_participant q, history_of sn (aq_participant q) @ map (sch_event q) required_event_types)]\<rparr>\<rparr>\<rparr>,
         nt_diagnostics = [], nt_changed = [], nt_action = Some sch_outcome\<rparr>)),
      ne_rebind = (\<lambda>q a. None), ne_event_ok = (\<lambda>e. True), ne_random = demo_env, ne_sha = demo_hash\<rparr>"

definition sch_clock :: clock_state where
  "sch_clock =
     \<lparr>ck_address = ''clock.c'', ck_domain = ''d'', ck_policy = None, ck_authority_kind = RUNTIME_CLOCK,
      ck_authority_ref = ''r'', ck_state = CLOCK_RUNNING, ck_coordinate = \<lparr>co_segment = 0, co_tick = 5, co_microstep = 0\<rparr>,
      ck_sequence = 0, ck_history = []\<rparr>"

definition sch_snapshot :: "unit run_snapshot" where
  "sch_snapshot =
     \<lparr>sn_states = [], sn_pools = [], sn_events = [],
      sn_rest = \<lparr>sp_states = [(state_key act_state, act_state)],
        sp_services = [(ap_address act_policy, demo_service)],
        sp_rest = \<lparr>np_time = Some \<lparr>ts_digest = act_digest, ts_clocks = [(''clock.c'', sch_clock)]\<rparr>, np_history = [], np_rest = ()\<rparr>\<rparr>\<rparr>"

definition sch_run :: "unit scheduler_run" where
  "sch_run = \<lparr>rn_working = sch_snapshot, rn_diagnostics = [], rn_changed = [], rn_failure = None\<rparr>"

definition sch_after :: "unit scheduler_run" where
  "sch_after = (case run_participant_due sch_native sch_context sch_run of Some (Inr r) \<Rightarrow> r | _ \<Rightarrow> sch_run)"

lemma sch_due_run: "run_participant_due sch_native sch_context sch_run = Some (Inr sch_after)"
proof -
  have "case run_participant_due sch_native sch_context sch_run of Some (Inr r) \<Rightarrow> True | _ \<Rightarrow> False"
    by code_simp
  then show ?thesis by (simp add: sch_after_def split: option.split_asm sum.split_asm)
qed

lemma sch_context_ok: "due_context_ok (sx_due sch_context)"
  using act_context_ok by (simp add: due_context_ok_def sch_context_def participant_due_context_def act_context_def sch_policy_def)

text \<open>An untrusted or invalid result leaves the scheduler state, and so the identity of the attempt.\<close>

lemma untrusted_attempt_keeps_state:
  assumes "commit_activity_resources env x q ret pf run = Inr (False, run')"
  shows "snapshot_states (rn_working run') = snapshot_states (rn_working run)" and "rn_failure run' \<noteq> None"
  using commit_stage(1,3) [OF assms] by (simp_all add: members_kept_def)

text \<open>
  Under budgets a result of the wrong type raises: the release reads a member that only the typed
  result has, although the validation before it names this case.
\<close>

lemma foreign_result_raises:
  assumes "bound_action_request env x (rn_working run) s = Inr q" and "sl_profile (sx_policy x) = execution_v3"
    and "reserve_activity_resources env x q run = Inr (True, run1)" and "ne_admit env q (rn_working run1) = Inr OtherObject"
  shows "run_one_activity_action env x s run = Some (Inl (AttributeError ''action_result''))"
  using assms by (simp add: run_one_activity_action_def commit_activity_resources_def trusted_measurements_def
      record_protocol_result_def action_result_violation_def native_result_violation_def)

section \<open>Properties\<close>

text \<open>
  C38. The due loop implements a run of the participant. Under the activity profiles v2 and v3 and
  whatever the native runtime returns, the state persisted after the loop is one that a run of
  attempts at the current tick leads to from the state persisted before; so identities, limits,
  windows and the checks of the snapshot carry over to real executions. An attempt stays unsettled
  only under v3, and then the pass is a failure. Services and all other states of the scheduler
  are left alone.
\<close>

theorem due_loop_refines_activity_run:
  assumes "run_participant_due env x run = Some (Inr run')" and "due_context_ok (sx_due x)"
    and "sl_profile (sx_policy x) = execution_v2 \<or> sl_profile (sx_policy x) = execution_v3"
    and "dict_get (snapshot_states (rn_working run)) (du_key (sx_due x)) = Some s"
  shows "snapshot_services (rn_working run') = snapshot_services (rn_working run) \<and>
     (\<exists>attempts u. activity_run (ne_random env) (sx_due x) s attempts u \<and>
        (\<forall>a \<in> set attempts. attempt_tick a = du_tick (sx_due x) \<and>
           (attempt_settled a \<or> sl_profile (sx_policy x) = execution_v3 \<and> rn_failure run' \<noteq> None)) \<and>
        snapshot_states (rn_working run') = dict_set (du_key (sx_due x)) u (snapshot_states (rn_working run)))"
proof -
  have "due_outcome env x s run run'"
  proof (cases "xs_lifecycle s = EXEC_RUNNING \<and> xs_next_tick s < du_tick (sx_due x)")
    case True
    with assms(1,4) have "run' = cadence_missed (du_key (sx_due x)) run"
      by (auto simp: run_participant_due_def run_bind_Inr res_bind_Inr_iff)
    with outcome_stopped [OF assms(4), of run' env] show ?thesis by (simp add: cadence_missed_def)
  next
    case False
    with assms(1,3,4) have "run_participant_activity_due env x s run = Some (Inr run')"
      by (auto simp: run_participant_due_def run_bind_Inr res_bind_Inr_iff)
    with assms(2-4) show ?thesis by (intro activity_loop_outcome) auto
  qed
  then show ?thesis unfolding due_outcome_def attempt_explained_def .
qed

lemma due_loop_refines_activity_run_witness:
  "\<exists>attempts u. activity_run demo_env (sx_due sch_context) act_state attempts u \<and>
     dict_get (snapshot_states (rn_working sch_after)) (state_key act_state) = Some u \<and>
     snapshot_services (rn_working sch_after) = snapshot_services sch_snapshot"
proof -
  have key: "du_key (sx_due sch_context) = state_key act_state" by code_simp
  have "sl_profile (sx_policy sch_context) = execution_v2" by code_simp
  moreover have "dict_get (snapshot_states (rn_working sch_run)) (du_key (sx_due sch_context)) = Some act_state"
    unfolding key by (simp add: sch_run_def sch_snapshot_def dict_get_Cons)
  ultimately have "snapshot_services (rn_working sch_after) = snapshot_services (rn_working sch_run) \<and>
     (\<exists>attempts u. activity_run (ne_random sch_native) (sx_due sch_context) act_state attempts u \<and>
        (\<forall>a \<in> set attempts. attempt_tick a = du_tick (sx_due sch_context) \<and>
           (attempt_settled a \<or> sl_profile (sx_policy sch_context) = execution_v3 \<and> rn_failure sch_after \<noteq> None)) \<and>
        snapshot_states (rn_working sch_after) = dict_set (state_key act_state) u (snapshot_states (rn_working sch_run)))"
    using due_loop_refines_activity_run [OF sch_due_run sch_context_ok] unfolding key by blast
  moreover have "ne_random sch_native = demo_env" by (simp add: sch_native_def)
  moreover have "rn_working sch_run = sch_snapshot" by (simp add: sch_run_def)
  ultimately show ?thesis by fastforce
qed

text \<open>
  C39. A pass over policies that are executed in series always returns, with a result or an
  exception: the loops of the participants end although their number of turns depends on drawn
  ticks and on what the native runtime returns, because every turn counts an attempt or fails the
  run. Executed in series are the policies of the activity profiles v2 and v3, and those of v1
  that admit one action in flight or have one participant; the overlapped execution of the other
  v1 policies is not modelled, and the pass returns even if that would not. Progression steps are
  positive where they are given.
\<close>

theorem due_pass_returns:
  assumes "\<forall>cp \<in> set policies. policy_step_ok (sl_activity (cp_policy cp)) m"
    and "\<forall>cp \<in> set policies. sl_profile (cp_policy cp) \<noteq> execution_v1 \<or> cp_max_in_flight cp < 2 \<or>
       length (cp_participants cp) < 2"
  shows "\<exists>r. run_due env overlap m controls policies sn = Some r"
proof -
  have "returns (run_due env overlap m controls policies sn)"
    unfolding run_due_def
    by (intro returns_bind due_policies_return returns_Some)
      (use assms due_policy_returns [unfolded serialised_def] in blast)
  then show ?thesis by (simp add: returns_def)
qed

definition sch_policies :: "scheduled_policy list" where
  "sch_policies =
     [\<lparr>cp_policy = sch_policy, cp_participants = [''participant.behavior.a'', ''participant.behavior.b''], cp_max_in_flight = 8\<rparr>,
      \<lparr>cp_policy = sch_policy\<lparr>sl_profile := execution_v1\<rparr>, cp_participants = [''participant.behavior.a''],
       cp_max_in_flight = 8\<rparr>]"

text \<open>The witness has an overlapped execution that never returns.\<close>

lemma due_pass_returns_witness:
  "\<exists>r. run_due sch_native (\<lambda>cp due tick cadence run. None) act_time [(''c'', act_control)] sch_policies sch_snapshot = Some r"
proof (rule due_pass_returns)
  have "policy_step_ok act_policy act_time" using act_context_ok by (simp add: due_context_ok_def act_context_def)
  then show "\<forall>cp \<in> set sch_policies. policy_step_ok (sl_activity (cp_policy cp)) act_time"
    by (simp add: sch_policies_def sch_policy_def)
  have "execution_v2 \<noteq> execution_v1" by code_simp
  then show "\<forall>cp \<in> set sch_policies. sl_profile (cp_policy cp) \<noteq> execution_v1 \<or> cp_max_in_flight cp < 2 \<or>
       length (cp_participants cp) < 2"
    by (simp add: sch_policies_def sch_policy_def)
qed

text \<open>
  C40. A released attempt runs again without a reservation. When the measurements of an attempt are
  not trusted, its reservation is released and the scheduler state stays as it was, so the next
  pass at this tick binds the same identity; but its reserve events are still there, so that the
  reservation answers success without reserving anything, and the action is executed again with
  nothing set aside for it.
\<close>

theorem released_attempt_reserves_nothing:
  assumes "books_balanced sha256 (ledger_of sn)" and "open_operation op generation sn" and "vector_reserved sn policy op"
    and "release_participant_resource_reservation sha256 sn op generation evidence = Inr r" and "ar_success r"
  shows "reserve_participant_resources sha256 (ar_snapshot r) policy op generation' q =
      Inr (apply_ok (ar_snapshot r)) \<and>
    (\<forall>e \<in> set (reservations_of (sn_events sn) op). moves generation (ledger_of sn) (ledger_of (ar_snapshot r)) 0 e)"
  using release_frees_vector [OF assms(1,2,4)] assms(5)
    reserved_vector_replays [OF release_keeps_vector [OF assms(1,2,4,3)]] by simp

lemma released_attempt_reserves_nothing_witness:
  "reserve_participant_resources demo_hash demo_released demo_policy ''o1'' 0 None = Inr (apply_ok demo_released)"
proof -
  have "vector_reserved demo_reserved demo_policy ''o1''" by code_simp
  from released_attempt_reserves_nothing [OF demo_balanced(3) demo_open this demo_released_run, of 0 None]
  show ?thesis by simp
qed

end
