(* ===== verification/Spec2Isabelle.thy ===== *)
theory Spec2Isabelle
  imports Dep_Refresh Plan_Ops Resource_Policy Budget_Mirror Episode_Claims Episode_Closure Exploit_Claims Store_Claims Sat_Decide Time_Claims Time_Mapping Opacity_Bounded Scheduler_Claims
begin

text \<open>
  A verification library for the core of the repository: the runtime environment for agent
  exercises under \<open>src/implementations/python/packages\<close> (all paths below are relative to it).
  A scenario is compiled to resources, planned into ordered operations, and run against
  snapshots by services that keep participants, their episodes and their budgets.

  \<^bold>\<open>How Python is read.\<close> \<open>Py_Prelude\<close>: exceptions are values (\<open>res\<close>), a \<open>dict\<close> is an
  association list in insertion order, \<open>dict.fromkeys\<close> keeps first occurrences, strings are
  lists of characters (Latin-1) in code-point order, integers are \<open>int\<close>. \<open>Py_Values\<close>: the
  untyped values of decoded payloads. \<open>Py_Text\<close>: decimal numbers, \<open>str\<close>, \<open>repr\<close>, enumerations
  and the field checks of \<open>raes_contracts/_validation.py\<close>.

  \<^bold>\<open>Addresses and dependency semantics.\<close> \<open>Compiled_Address\<close> is
  \<open>raes_contracts/addressing.py\<close>. \<open>Dep_Graph\<close> is \<open>raes_processor/semantics/planner.py\<close>:
  normalised graphs, the stable topological order, the delete order, refresh propagation and
  reconciliation. \<open>Dep_Order\<close> proves the order a permutation that respects the dependencies and
  total on cyclic graphs too; \<open>Dep_Refresh\<close> proves that reconciliation gives every address one
  action and refreshes exactly what transitively depends on a change, through the interface of
  \<open>Search_Closure\<close>, whose laws say that a worklist loop expands exactly the reachable nodes.

  \<^bold>\<open>Plans.\<close> \<open>Plan_Contracts\<close> is \<open>raes_contracts/planning.py\<close> with its validation helpers;
  \<open>Plan_Ops\<close> is \<open>raes_processor/planner/operations.py\<close> and \<open>ordering.py\<close>: what the planner builds
  passes the checks of the plan constructors and covers every address once.

  \<^bold>\<open>Participant budgets.\<close> \<open>Resource_Types\<close>, \<open>Resource_Contracts\<close>, \<open>Resource_Policy\<close> and
  \<open>Resource_State\<close> hold the carriers and validators of \<open>raes_contracts/contracts/participant_resource_*.py\<close>
  and the budget members of the snapshot. \<open>Pool_Ledger\<close> and \<open>Budget_Ops\<close> hold the operations of
  \<open>raes_runtime/participant_resource_*.py\<close>. \<open>Budget_Books\<close> states when accounts balance; \<open>Budget_Reserve\<close>,
  \<open>Budget_Settle\<close>, \<open>Budget_Commit\<close>, \<open>Budget_Reconcile\<close> and \<open>Budget_Init\<close> show what each operation
  does on every branch and that all of them keep the accounts balanced, also against pool
  capacities and protected shares (through the interface \<open>capacity_ledger\<close> of \<open>Pool_Ledger\<close>), for
  callers that keep to rules the code does not check: new operation identifiers, settlement of open
  operations only, or repetition of what was done. \<open>Budget_Mirror\<close> shows what holds without these
  rules: budgets and pools never drift apart and limits and capacities stand. \<open>Budget_Examples\<close> runs
  a small deployment, also one that breaks the rules and with them the balance.

  \<^bold>\<open>Participant episodes.\<close> \<open>Episode_Contracts\<close> is \<open>raes_contracts/participant_episode.py\<close>,
  \<open>Episode_Checker\<close> is \<open>participant_episode_snapshot.py\<close>, \<open>Episode_Closure\<close> is
  \<open>participant_episode_closure.py\<close>, and \<open>Episode_Runtime\<close> is the lifecycle of
  \<open>raes_backend_protocols/participant_runtime_base.py\<close> with \<open>participant_reset.py\<close>. The checkers are
  shown to decide declarative notions of soundness; \<open>Episode_Life\<close>, \<open>Episode_System\<close> and
  \<open>Episode_Claims\<close> show that whatever the runtime reaches is sound, that its calls implement an
  abstract lifecycle per participant and are available whenever that lifecycle allows them, and
  that the batch reset is atomic.

  \<^bold>\<open>Exploit paths.\<close> \<open>Exploit_Contracts\<close> is \<open>raes_contracts/exploit_path.py\<close>; \<open>Exploit_Search\<close>
  and \<open>Exploit_Paths\<close> are \<open>raes_processor/exploit_path/\<close>: preflight, the bounded breadth-first
  search and the evidence. \<open>Exploit_Loop\<close> proves the invariants of the search loop,
  \<open>Exploit_Claims\<close> that a reported path is a shortest one, that an exhausted search means there is
  none, and when the outcome does not depend on the order of the transitions.

  \<^bold>\<open>Control-plane store.\<close> \<open>Op_Lifecycle\<close> is \<open>raes_contracts/operation_lifecycle.py\<close> with receipts
  and statuses; \<open>Store_Ops\<close> is \<open>raes_runtime/control_plane_store*.py\<close> in memory. \<open>Store_Log\<close> states the
  abstract log of operations and revisions (locale \<open>versioned_log\<close>) and the simulation; \<open>Store_Claims\<close>
  shows that records only move forward, that a revision identifies one snapshot, that an
  idempotency key is claimed once and that a failed call changes nothing.

  \<^bold>\<open>Satisfiability of scenarios.\<close> \<open>Sat_Model\<close> is \<open>raes_contracts/satisfiability.py\<close>, \<open>Sat_Solver\<close> is
  \<open>raes_processor/satisfiability/_solver.py\<close> and \<open>Sat_Translate\<close> is \<open>_translation.py\<close> with the variable
  tokens of \<open>raes/_base.py\<close>. Z3 and the clock are parameters; \<open>Sat_Session\<close> collects what is relied on
  of Z3 in the locale \<open>smt\<close>, \<open>Sat_Logic\<close> gives the meaning of the clauses, \<open>Sat_Select\<close> and
  \<open>Sat_Claims\<close> prove witnesses least and cores minimal, and \<open>Sat_Decide\<close> that translation and solver
  together decide whether values can be chosen that the field validators of the language accept
  (\<open>parse_*_or_var\<close> of \<open>raes/_base.py\<close>, \<open>raes/architectures.py\<close>). One gap is shown to be real:
  architectures given by an alias or an extension term are accepted by their field and lost in
  the translation.

  \<^bold>\<open>Shared time.\<close> \<open>Time_Contracts\<close> and \<open>Time_State\<close> are \<open>raes_contracts/contracts/time_model.py\<close>,
  \<open>Time_Runtime\<close> is \<open>raes_processor/models/time_model.py\<close>, the projections of
  \<open>raes_processor/compiler/time_model.py\<close> and \<open>raes_runtime/time_coordinator.py\<close>. \<open>Time_Mapping\<close> proves the
  search for cycles among mappings correct, \<open>Time_Compile\<close> that the projections lose nothing,
  \<open>Time_Life\<close> and \<open>Time_Machine\<close> that the clock commands implement a small machine with a superdense
  coordinate per clock, and \<open>Time_Claims\<close> what follows for published states, histories and the reset
  coordinated with the participants.

  \<^bold>\<open>Participant opacity.\<close> Whether a participant can tell from what it observes that a secret holds.
  \<open>Opacity_Contracts\<close> is the claim binding of \<open>raes_contracts/contracts/base.py\<close> with its resolution in
  \<open>behavioral_relations.py\<close>, the profile parameters and \<open>_participant_opacity_model.py\<close>; \<open>Opacity_Kernel\<close>,
  \<open>Opacity_Search\<close> and \<open>Opacity_Check\<close> are \<open>raes_processor/participant_opacity/\<close>: the scan of information
  cells, the breadth-first fixed point (an instance of \<open>worklist_search\<close>, with a ghost depth that makes
  the walk along the parents a shortest path) and the check with its evidence. \<open>Opacity_Coverage\<close> and
  \<open>Opacity_Claims\<close> show that the check decides opacity over everything reachable, unless an initial
  ordinal is negative, and give an accepted request with negative ordinals where it does not;
  \<open>Opacity_Bounded\<close> is the bounded test (\<open>raes_contracts/participant_opacity.py\<close> and
  \<open>_service.py\<close>) and shows that the two lanes agree on what both can treat.

  \<^bold>\<open>Random streams.\<close> \<open>Random_Streams\<close> is \<open>raes_contracts/random_stream_engine.py\<close> with the addresses,
  seeds and records of \<open>contracts/random_stream.py\<close>: integers are drawn by rejection sampling from a
  keyed stream at an address. \<open>Random_Claims\<close> shows that no value of a range is preferred, that fewer
  than half of the samples are rejected, that seeds are read back, and that the order of a batch of
  requests is immaterial.

  \<^bold>\<open>Participant activity.\<close> \<open>Activity_Draws\<close> is \<open>raes_runtime/participant_activity.py\<close>: controls, governed
  draws, work and pause windows and the search for the next opening. \<open>Activity_Occurrence\<close> holds the state of
  one participant of a policy and its transitions (\<open>participant_scheduler_activity_state.py\<close>,
  \<open>participant_activity_support.py\<close>, the state parts of \<open>participant_scheduler_operations.py\<close>,
  \<open>_initialization.py\<close> and \<open>_reset.py\<close>) with the checks of a snapshot
  (\<open>raes_contracts/participant_autonomous_state.py\<close>). \<open>Activity_Windows\<close> proves that the search
  returns the least open tick when the windows resolve and the step is absent or positive;
  \<open>Activity_Steps\<close> and \<open>Activity_Runs\<close> state the attempts of a segment and of a life with resets as
  inductive runs, also those attempts that are executed and left unsettled because their resources
  are not committed; \<open>Activity_Claims\<close> shows that the identity of a settled attempt is never used
  again, that limits bind settled attempts, that windows are respected and that every state reached
  is accepted by the snapshot.

  \<^bold>\<open>Participant scheduler.\<close> \<open>Scheduler_Actions\<close> is the binding of an action, its resources and the
  checks of native results (\<open>raes_runtime/participant_scheduler_resources.py\<close>, \<open>_time.py\<close>,
  \<open>participant_action_validation.py\<close>, parts of \<open>participant_scheduler_operations.py\<close>);
  \<open>Scheduler_Due\<close> holds one action of each profile (bound, reserved, executed, validated, committed and
  persisted), the due loops, the due set and the choice of
  overlapped execution (\<open>participant_scheduler_concurrency.py\<close>) and the pass over participants and
  policies (\<open>participant_scheduler.py\<close>). The backend runtime and the binding contract are the parameters
  of \<open>native_env\<close>; the overlapped execution of a v1 policy is the parameter \<open>overlap\<close>, which may fail
  to return. The due loops are partial functions with divergence as \<open>None\<close>. \<open>Scheduler_Steps\<close>
  shows what one action records and leaves alone, \<open>Scheduler_Claims\<close> that
  a due loop implements the runs of \<open>Activity_Runs\<close>, that a pass executed in series returns, and that
  an attempt released for untrusted measurements is executed again with nothing reserved.

  \<^bold>\<open>Execution services.\<close> \<open>Execution_Service\<close> is \<open>raes_contracts/contracts/participant_execution.py\<close>,
  \<open>participant_execution_scheduler_state.py\<close> and \<open>participant_execution_control_boundary.py\<close>;
  \<open>Service_Claims\<close> shows which services survive a change of the shared clock and that a service reset
  takes effect once.

  \<^bold>\<open>Parameters.\<close> SHA-256 is an argument (assumed injective where identity of pools is at stake),
  so are the decimal text of a \<open>float\<close>, the comparison of planned and recorded payloads, the
  controlled-vocabulary catalog, the canonical JSON text of a scalar and of a stream address, the answers
  of Z3, BLAKE3 (assumed to slice one stream per key and message), the call of a backend, and the
  clock reading of a call. Fuel appears nowhere: a loop is structural, has a termination proof, or is a
  partial function (\<open>scan_window\<close> and the due loops, whose \<open>None\<close> is divergence) that is shown to
  return under stated conditions;
  the check budget of the solver and the bounds of the path search are the code's own.

  \<^bold>\<open>Not modelled.\<close> The texts of diagnostics (their reasons are constructors or codes), the wire
  encoding done by pydantic, locking (operations are atomic steps), the scenario language
  front end (parser, validator, modules), capability admission, realization, the overlapped execution of
  profile v1, the remaining runtime services, the HTTP and MCP surfaces, backends, conformance suites and tools; the
  manifest lists them with the reason for each.
\<close>

end
